(* ===== verification/Prelude.thy ===== *)
theory Prelude
  imports Complex_Main "HOL-Library.Sublist" "HOL-Library.AList"
begin

text \<open>
  Shared vocabulary of the development: names for the Python types the model uses, the
  collections its proofs draw on, the small Python idioms that occur in several
  components (a bounded deque, substring test, lower-casing, truncation of a float), and
  the two interfaces of a component with state: a machine that keeps an invariant, and a
  machine with a set of states it never leaves.

  Conventions. Python's \<open>int\<close> is \<open>int\<close> (or \<open>nat\<close> where the code only counts up); a
  Python \<open>float\<close> is a \<open>real\<close>: arithmetic on it is exact, so a theorem about a sum or a
  product is about the code's formula and not about IEEE rounding; comparisons and copies of
  floats are the same in both readings. \<open>datetime\<close> values and clock readings are \<open>int\<close>
  (microseconds, or nanoseconds for \<open>perf_counter_ns\<close>); the reading of the clock is an
  argument of every operation that reads it.
\<close>

section \<open>Names and collections\<close>

type_synonym pyfloat = real
type_synonym timestamp = int
type_synonym symbol = string

named_theorems machine_simps \<open>unfolds one step of a component\<close>
named_theorems inv_intros \<open>an operation keeps its component's invariant\<close>

text \<open>One second on the \<open>datetime\<close> scale of the model.\<close>

definition seconds :: "pyfloat \<Rightarrow> timestamp" where
  "seconds s = \<lfloor>s * 1000000\<rfloor>"

section \<open>Python idioms\<close>

text \<open>\<open>not s\<close> for an optional string: \<open>None\<close> and the empty string are falsy.\<close>

definition truthy :: "string option \<Rightarrow> bool" where
  "truthy s = (case s of None \<Rightarrow> False | Some t \<Rightarrow> t \<noteq> [])"

lemma truthy_simps [simp]:
  "\<not> truthy None" "truthy (Some t) \<longleftrightarrow> t \<noteq> []"
  by (simp_all add: truthy_def)

text \<open>\<open>int(x)\<close> on a float truncates towards zero.\<close>

definition py_trunc :: "pyfloat \<Rightarrow> int" where
  "py_trunc x = (if 0 \<le> x then \<lfloor>x\<rfloor> else \<lceil>x\<rceil>)"

lemma py_trunc_nonneg: "0 \<le> x \<Longrightarrow> py_trunc x = \<lfloor>x\<rfloor>"
  by (simp add: py_trunc_def)

text \<open>
  \<open>round(x, k)\<close>: the nearest multiple of \<open>10 ** -k\<close>, ties to the even one; and the decimal
  digits of a number.
\<close>

definition round_half_even :: "pyfloat \<Rightarrow> int" where
  "round_half_even x =
     (let n = \<lfloor>x\<rfloor>; d = x - of_int n
      in if d < 1 / 2 then n else if 1 / 2 < d then n + 1 else if even n then n else n + 1)"

definition py_round :: "pyfloat \<Rightarrow> nat \<Rightarrow> pyfloat" where
  "py_round x k = of_int (round_half_even (x * 10 ^ k)) / 10 ^ k"

lemma round_half_even_error: "\<bar>of_int (round_half_even x) - x\<bar> \<le> 1 / 2"
proof -
  have "of_int \<lfloor>x\<rfloor> \<le> x" "x < of_int \<lfloor>x\<rfloor> + 1" by linarith+
  then show ?thesis by (auto simp: round_half_even_def Let_def abs_le_iff)
qed

lemma py_round_error: "\<bar>py_round x k - x\<bar> \<le> 1 / (2 * 10 ^ k)"
proof -
  have "py_round x k - x = (of_int (round_half_even (x * 10 ^ k)) - x * 10 ^ k) / 10 ^ k"
    by (simp add: py_round_def diff_divide_distrib)
  then have "\<bar>py_round x k - x\<bar> = \<bar>of_int (round_half_even (x * 10 ^ k)) - x * 10 ^ k\<bar> / 10 ^ k"
    by (simp add: abs_divide)
  also have "\<dots> \<le> (1 / 2) / 10 ^ k"
    by (rule divide_right_mono [OF round_half_even_error]) simp
  finally show ?thesis by simp
qed

fun digits :: "nat \<Rightarrow> string" where
  "digits n = (if n < 10 then [char_of (48 + n)] else digits (n div 10) @ [char_of (48 + n mod 10)])"

declare digits.simps [simp del]

lemma digits_inj: "digits m = digits n \<Longrightarrow> m = n"
proof (induction m arbitrary: n rule: digits.induct)
  case (1 m)
  have c: "(char_of (48 + a) :: char) = char_of (48 + b) \<longleftrightarrow> a = b" if "a < 10" "b < 10" for a b :: nat
    using that by (simp add: char_of_eq_iff take_bit_nat_def)
  have ne: "digits k \<noteq> []" "[] \<noteq> digits k" for k by (subst digits.simps, simp)+
  show ?case
  proof (cases "m < 10"; cases "n < 10")
    assume "m < 10" "n < 10"
    with 1(2) show ?thesis by (simp add: digits.simps [of m] digits.simps [of n] c)
  next
    assume "m < 10" "\<not> n < 10"
    with 1(2) ne show ?thesis by (simp add: digits.simps [of m] digits.simps [of n])
  next
    assume "\<not> m < 10" "n < 10"
    with 1(2) ne show ?thesis by (simp add: digits.simps [of m] digits.simps [of n])
  next
    assume big: "\<not> m < 10" "\<not> n < 10"
    with 1(2) have "digits (m div 10) = digits (n div 10)" "m mod 10 = n mod 10"
      by (simp_all add: digits.simps [of m] digits.simps [of n] c)
    with 1(1) [OF big(1)] have "m div 10 = n div 10" "m mod 10 = n mod 10" by auto
    then show ?thesis by (metis div_mult_mod_eq)
  qed
qed

text \<open>
  \<open>f"{x:.kf}"\<close> for \<open>k > 0\<close>, and with \<open>,\<close> between the thousands of the whole part.
\<close>

definition zero_pad :: "nat \<Rightarrow> nat \<Rightarrow> string" where
  "zero_pad k n = replicate (k - length (digits n)) (CHR ''0'') @ digits n"

definition fmt_fixed :: "nat \<Rightarrow> pyfloat \<Rightarrow> string" where
  "fmt_fixed k x =
     (let n = nat (round_half_even (\<bar>x\<bar> * 10 ^ k))
      in (if x < 0 then ''-'' else []) @ digits (n div 10 ^ k) @ ''.'' @ zero_pad k (n mod 10 ^ k))"

fun thousands :: "nat \<Rightarrow> string" where
  "thousands n =
     (if n < 1000 then digits n else thousands (n div 1000) @ '','' @ zero_pad 3 (n mod 1000))"

declare thousands.simps [simp del]

definition fmt_comma :: "nat \<Rightarrow> pyfloat \<Rightarrow> string" where
  "fmt_comma k x =
     (let n = nat (round_half_even (\<bar>x\<bar> * 10 ^ k))
      in (if x < 0 then ''-'' else []) @ thousands (n div 10 ^ k) @ ''.'' @ zero_pad k (n mod 10 ^ k))"

text \<open>\<open>str\<close> of an integer.\<close>

definition int_str :: "int \<Rightarrow> string" where
  "int_str k = (if k < 0 then CHR ''-'' # digits (nat (- k)) else digits (nat k))"

text \<open>\<open>str.lower\<close> on ASCII text, and the substring test \<open>pat in s\<close>.\<close>

definition lower_char :: "char \<Rightarrow> char" where
  "lower_char c =
     (let n = of_char c :: nat in if 65 \<le> n \<and> n \<le> 90 then char_of (n + 32) else c)"

definition py_lower :: "string \<Rightarrow> string" where
  "py_lower s = map lower_char s"

definition upper_char :: "char \<Rightarrow> char" where
  "upper_char c =
     (let n = of_char c :: nat in if 97 \<le> n \<and> n \<le> 122 then char_of (n - 32) else c)"

definition py_upper :: "string \<Rightarrow> string" where
  "py_upper s = map upper_char s"

text \<open>\<open>str.strip\<close> on ASCII text.\<close>

definition is_space :: "char \<Rightarrow> bool" where
  "is_space c = (let n = of_char c :: nat in 9 \<le> n \<and> n \<le> 13 \<or> 28 \<le> n \<and> n \<le> 32)"

definition py_strip :: "string \<Rightarrow> string" where
  "py_strip s = rev (dropWhile is_space (rev (dropWhile is_space s)))"

fun py_in :: "string \<Rightarrow> string \<Rightarrow> bool" where
  "py_in pat [] \<longleftrightarrow> pat = []"
| "py_in pat (c # cs) \<longleftrightarrow> prefix pat (c # cs) \<or> py_in pat cs"

lemma py_in_iff_sublist: "py_in pat s \<longleftrightarrow> sublist pat s"
  by (induction s) (auto simp: sublist_Cons_right)

text \<open>
  A bounded queue: append on the right and drop from the left once it is longer than
  \<open>n\<close>. This is \<open>deque(maxlen=n).append\<close>, and also the idiom
  \<open>xs.append(x); if len(xs) > n: xs.pop(0)\<close>.
\<close>

definition push_bounded :: "nat \<Rightarrow> 'a list \<Rightarrow> 'a \<Rightarrow> 'a list" where
  "push_bounded n xs x = (let ys = xs @ [x] in if n < length ys then tl ys else ys)"

lemma length_push_bounded:
  "length xs \<le> n \<Longrightarrow> 0 < n \<Longrightarrow> length (push_bounded n xs x) \<le> n"
  by (simp add: push_bounded_def Let_def)

lemma set_push_bounded: "set (push_bounded n xs x) \<subseteq> insert x (set xs)"
  by (cases xs) (auto simp: push_bounded_def Let_def split: if_splits)

lemma last_push_bounded: "0 < n \<Longrightarrow> last (push_bounded n xs x) = x"
  by (cases xs) (auto simp: push_bounded_def Let_def)

lemma push_bounded_nonempty: "0 < n \<Longrightarrow> push_bounded n xs x \<noteq> []"
  by (cases xs) (auto simp: push_bounded_def Let_def)

text \<open>\<open>xs[-n:]\<close>: the last \<open>n\<close>, but everything for 0, and from \<open>-n\<close> on for a negative \<open>n\<close>.\<close>

definition py_last :: "int \<Rightarrow> 'a list \<Rightarrow> 'a list" where
  "py_last n xs = (if 0 < n then drop (length xs - nat n) xs else drop (nat (- n)) xs)"

section \<open>Dictionaries\<close>

text \<open>
  A dictionary whose order matters is a list of pairs with distinct keys; an assignment keeps
  the place of a key it finds and appends one it does not.
\<close>

lemma list_all_tl: "list_all P xs \<Longrightarrow> list_all P (tl xs)"
  by (cases xs) auto

lemma list_all_update:
  "list_all P xs \<Longrightarrow> P (k, v) \<Longrightarrow> list_all P (AList.update k v xs)"
  by (induction xs) auto

lemma list_all_delete: "list_all P xs \<Longrightarrow> list_all P (AList.delete k xs)"
  by (induction xs) auto

lemma distinct_keys_delete:
  "distinct (map fst xs) \<Longrightarrow> distinct (map fst (AList.delete k xs))"
  by (simp add: AList.delete_eq distinct_map_filter)

lemma length_update_le: "length (AList.update k v xs) \<le> Suc (length xs)"
  by (induction xs) auto

lemma update_new: "k \<notin> fst ` set xs \<Longrightarrow> AList.update k v xs = xs @ [(k, v)]"
  by (induction xs) auto

lemma length_filter_delete: "length (filter P (AList.delete k xs)) \<le> length (filter P xs)"
  by (induction xs) auto

lemma map_of_fst: "map_of xs k = Some v \<Longrightarrow> k \<in> fst ` set xs"
  by (auto dest!: map_of_SomeD intro: rev_image_eqI)

section \<open>A chain of entries\<close>

text \<open>
  Consecutive elements of a list related by \<open>R\<close>: a log whose entries follow one another.
\<close>

fun chained :: "('a \<Rightarrow> 'a \<Rightarrow> bool) \<Rightarrow> 'a list \<Rightarrow> bool" where
  "chained R [] \<longleftrightarrow> True"
| "chained R [x] \<longleftrightarrow> True"
| "chained R (x # y # zs) \<longleftrightarrow> R x y \<and> chained R (y # zs)"

lemma chained_snoc:
  "chained R (xs @ [x]) \<longleftrightarrow> chained R xs \<and> (xs = [] \<or> R (last xs) x)"
  by (induction xs rule: induct_list012) auto

lemma chained_tl: "chained R xs \<Longrightarrow> chained R (tl xs)"
  by (cases "(R, xs)" rule: chained.cases) auto

lemma chained_push_bounded:
  assumes "chained R xs" and "xs = [] \<or> R (last xs) x"
  shows "chained R (push_bounded n xs x)"
proof -
  have "chained R (xs @ [x])" using assms by (simp add: chained_snoc)
  then show ?thesis
    using chained_tl [of R "xs @ [x]"] by (simp add: push_bounded_def Let_def)
qed

section \<open>Interfaces\<close>

text \<open>
  A component whose operations are the events of one step function, with an invariant
  that every step keeps: then every run keeps it.
\<close>

locale inv_machine =
  fixes step :: "'s \<Rightarrow> 'e \<Rightarrow> 's"
    and inv :: "'s \<Rightarrow> bool"
  assumes step_inv: "inv s \<Longrightarrow> inv (step s e)"
begin

lemma run_inv: "inv s \<Longrightarrow> inv (foldl step s es)"
  by (induction es arbitrary: s) (auto intro: step_inv)

lemma run_prefix_inv: "inv s \<Longrightarrow> prefix es' es \<Longrightarrow> inv (foldl step s es')"
  by (rule run_inv)

end

text \<open>
  A machine that never leaves the states in \<open>final\<close>: an invariant machine for \<open>final\<close>.
\<close>

locale absorbing_machine =
  fixes step :: "'s \<Rightarrow> 'e \<Rightarrow> 's"
    and final :: "'s \<Rightarrow> bool"
  assumes final_step: "final s \<Longrightarrow> final (step s e)"

sublocale absorbing_machine \<subseteq> absorbed: inv_machine step final
  by unfold_locales (rule final_step)

text \<open>What a machine emits over a run, event by event.\<close>

fun run_out :: "('s \<Rightarrow> 'e \<Rightarrow> 's) \<Rightarrow> ('s \<Rightarrow> 'e \<Rightarrow> 'o list) \<Rightarrow> 's \<Rightarrow> 'e list \<Rightarrow> 'o list" where
  "run_out step emits s [] = []"
| "run_out step emits s (e # es) = emits s e @ run_out step emits (step s e) es"

lemma run_out_append:
  "run_out step emits s (xs @ ys) = run_out step emits s xs @ run_out step emits (foldl step s xs) ys"
  by (induction xs arbitrary: s) simp_all

text \<open>
  An alarm that goes off once: while it is armed, the first event that makes it due announces it
  and disarms it, and nothing else does, as long as no event touches it from outside. Then a
  run announces it exactly for the first due event, and not at all if none is.
\<close>

locale one_shot =
  fixes step :: "'s \<Rightarrow> 'e \<Rightarrow> 's"
    and emits :: "'s \<Rightarrow> 'e \<Rightarrow> 'o list"
    and armed :: "'s \<Rightarrow> bool"
    and idle :: "'s \<Rightarrow> bool"
    and touches :: "'e \<Rightarrow> bool"
    and due :: "'e \<Rightarrow> bool"
    and alarm :: "'e \<Rightarrow> 'o"
  assumes goes_off: "armed s \<Longrightarrow> \<not> touches e \<Longrightarrow> due e \<Longrightarrow> emits s e = [alarm e] \<and> idle (step s e)"
    and waits: "armed s \<Longrightarrow> \<not> touches e \<Longrightarrow> \<not> due e \<Longrightarrow> emits s e = [] \<and> armed (step s e)"
    and silent: "idle s \<Longrightarrow> \<not> touches e \<Longrightarrow> emits s e = [] \<and> idle (step s e)"
begin

lemma silent_run: "idle s \<Longrightarrow> \<forall>e \<in> set es. \<not> touches e \<Longrightarrow> run_out step emits s es = []"
  by (induction es arbitrary: s) (simp_all add: silent)

lemma first_due:
  "armed s \<Longrightarrow> \<forall>e \<in> set es. \<not> touches e \<Longrightarrow>
   run_out step emits s es = (case find due es of None \<Rightarrow> [] | Some e \<Rightarrow> [alarm e])"
  by (induction es arbitrary: s) (auto simp: goes_off waits silent_run)

end

text \<open>
  A machine on a budget: what an event announces is paid for by what the state held before it or
  by what the event brings to that state. Then a run announces no more than the start held and the
  events brought where they arrived.
\<close>

fun run_gain :: "('s \<Rightarrow> 'e \<Rightarrow> 's) \<Rightarrow> ('s \<Rightarrow> 'e \<Rightarrow> nat) \<Rightarrow> 's \<Rightarrow> 'e list \<Rightarrow> nat" where
  "run_gain step gain s [] = 0"
| "run_gain step gain s (e # es) = gain s e + run_gain step gain (step s e) es"

lemma run_gain_events: "run_gain step (\<lambda>s. g) s es = sum_list (map g es)"
  by (induction es arbitrary: s) simp_all

locale spending =
  fixes step :: "'s \<Rightarrow> 'e \<Rightarrow> 's"
    and emits :: "'s \<Rightarrow> 'e \<Rightarrow> 'o list"
    and counted :: "'o \<Rightarrow> bool"
    and held :: "'s \<Rightarrow> nat"
    and gain :: "'s \<Rightarrow> 'e \<Rightarrow> nat"
  assumes spends: "length (filter counted (emits s e)) + held (step s e) \<le> held s + gain s e"
begin

lemma run_spends:
  "length (filter counted (run_out step emits s es)) \<le> held s + run_gain step gain s es"
proof (induction es arbitrary: s)
  case (Cons e es)
  show ?case using Cons [of "step s e"] spends [of s e] by simp
qed simp

end

text \<open>A budget whose events bring the same wherever they arrive.\<close>

locale budget =
  fixes step :: "'s \<Rightarrow> 'e \<Rightarrow> 's"
    and emits :: "'s \<Rightarrow> 'e \<Rightarrow> 'o list"
    and counted :: "'o \<Rightarrow> bool"
    and held :: "'s \<Rightarrow> nat"
    and gain :: "'e \<Rightarrow> nat"
  assumes pays: "length (filter counted (emits s e)) + held (step s e) \<le> held s + gain e"

sublocale budget \<subseteq> spending step emits counted held "\<lambda>s. gain"
  by unfold_locales (rule pays)

context budget
begin

lemma run_pays:
  "length (filter counted (run_out step emits s es)) \<le> held s + sum_list (map gain es)"
  using run_spends [of s es] by (simp add: run_gain_events)

end

end
