(* ===== verification/Enums.thy ===== *)
theory Enums
  imports Prelude
begin

text \<open>
  The enumerations of \<open>core/enums.py\<close>, one \<open>datatype\<close> each with the source's members in
  the source's order (prefixed by the enumeration, since Python qualifies them), the
  string values that the code compares or looks up, and the session transition table.
\<close>

text \<open>\<open>E(s)\<close> of an enumeration of strings: the member with that value.\<close>

definition parse_enum :: "('a \<Rightarrow> string) \<Rightarrow> 'a list \<Rightarrow> string \<Rightarrow> 'a option" where
  "parse_enum val members s = find (\<lambda>x. val x = s) members"

section \<open>Market regime\<close>

datatype regime_label =
    TREND_DAY
  | MEAN_REVERSION_DAY
  | EVENT_DRIVEN_DAY
  | HIGH_VOLATILITY_NO_TRADE
  | LOW_LIQUIDITY_NO_TRADE

fun is_tradeable :: "regime_label \<Rightarrow> bool" where
  "is_tradeable r = (r \<in> set [TREND_DAY, MEAN_REVERSION_DAY, EVENT_DRIVEN_DAY])"

primrec regime_value :: "regime_label \<Rightarrow> string" where
  "regime_value TREND_DAY = ''trend-day''"
| "regime_value MEAN_REVERSION_DAY = ''mean-reversion-day''"
| "regime_value EVENT_DRIVEN_DAY = ''event-driven-day''"
| "regime_value HIGH_VOLATILITY_NO_TRADE = ''high-volatility/no-trade''"
| "regime_value LOW_LIQUIDITY_NO_TRADE = ''low-liquidity/no-trade''"

definition all_regimes :: "regime_label list" where
  "all_regimes = [TREND_DAY, MEAN_REVERSION_DAY, EVENT_DRIVEN_DAY, HIGH_VOLATILITY_NO_TRADE,
     LOW_LIQUIDITY_NO_TRADE]"

section \<open>Setups, directions, exits\<close>

datatype setup_type =
    BREAKOUT | VWAP_TAP | LIQUIDITY_SWEEP | MOMENTUM_BURST | OPENING_RANGE_BREAK
  | MEAN_REVERSION_FADE | CATALYST_MOVER | GAP_AND_GO

primrec setup_value :: "setup_type \<Rightarrow> string" where
  "setup_value BREAKOUT = ''breakout''"
| "setup_value VWAP_TAP = ''vwap_tap''"
| "setup_value LIQUIDITY_SWEEP = ''liquidity_sweep''"
| "setup_value MOMENTUM_BURST = ''momentum_burst''"
| "setup_value OPENING_RANGE_BREAK = ''opening_range_break''"
| "setup_value MEAN_REVERSION_FADE = ''mean_reversion_fade''"
| "setup_value CATALYST_MOVER = ''catalyst_mover''"
| "setup_value GAP_AND_GO = ''gap_and_go''"

definition all_setups :: "setup_type list" where
  "all_setups = [BREAKOUT, VWAP_TAP, LIQUIDITY_SWEEP, MOMENTUM_BURST, OPENING_RANGE_BREAK,
     MEAN_REVERSION_FADE, CATALYST_MOVER, GAP_AND_GO]"

datatype direction = LONG | SHORT

datatype exit_mode =
    PROFIT_TARGET | TIME_STOP | MOMENTUM_FAILURE | VOLATILITY_SHOCK | REGIME_FLIP
  | PORTFOLIO_RISK_BREACH

section \<open>Validation and risk\<close>

datatype validation_result = VR_PASS | VR_FAIL

datatype risk_decision = RD_APPROVED | RD_REJECTED

datatype risk_reject_reason =
    RR_DAILY_LOSS_CAP | RR_DRAWDOWN_VELOCITY | RR_MAX_CONCURRENT_TRADES
  | RR_SYMBOL_CONCENTRATION | RR_SECTOR_CONCENTRATION | RR_CORRELATION_BUCKET
  | RR_CONSECUTIVE_LOSSES | RR_ANOMALY_HOLD | RR_PDT_LIMIT | RR_WASH_SALE_FLAG
  | RR_ACCOUNT_BELOW_PDT

section \<open>Orders and venues\<close>

datatype order_side = BUY | SELL | SELL_SHORT | BUY_TO_COVER

datatype order_venue =
    V_NYSE | V_NASDAQ | V_BATS | V_IEX | V_DARK_POOL | V_FX_ECN | V_CME | V_CBOE
  | V_DIRECT_DMA

datatype order_type = OT_LIMIT | OT_MARKET | OT_STOP | OT_STOP_LIMIT | OT_BRACKET

datatype order_status =
    OS_PENDING | OS_SUBMITTED | OS_PARTIALLY_FILLED | OS_FILLED | OS_CANCELLED | OS_REJECTED
  | OS_EXPIRED

primrec order_status_value :: "order_status \<Rightarrow> string" where
  "order_status_value OS_PENDING = ''pending''"
| "order_status_value OS_SUBMITTED = ''submitted''"
| "order_status_value OS_PARTIALLY_FILLED = ''partially_filled''"
| "order_status_value OS_FILLED = ''filled''"
| "order_status_value OS_CANCELLED = ''cancelled''"
| "order_status_value OS_REJECTED = ''rejected''"
| "order_status_value OS_EXPIRED = ''expired''"

datatype time_in_force = TIF_DAY | TIF_GTC | TIF_IOC | TIF_FOK

section \<open>FIX protocol\<close>

datatype fix_msg_type =
    FM_LOGON | FM_LOGOUT | FM_HEARTBEAT | FM_NEW_ORDER_SINGLE | FM_ORDER_CANCEL_REQUEST
  | FM_ORDER_CANCEL_REPLACE | FM_EXECUTION_REPORT | FM_ORDER_CANCEL_REJECT
  | FM_MARKET_DATA_REQUEST | FM_MARKET_DATA_SNAPSHOT | FM_MARKET_DATA_INCREMENTAL
  | FM_QUOTE | FM_QUOTE_REQUEST | FM_MASS_QUOTE

primrec msg_type_value :: "fix_msg_type \<Rightarrow> string" where
  "msg_type_value FM_LOGON = ''A''"
| "msg_type_value FM_LOGOUT = ''5''"
| "msg_type_value FM_HEARTBEAT = ''0''"
| "msg_type_value FM_NEW_ORDER_SINGLE = ''D''"
| "msg_type_value FM_ORDER_CANCEL_REQUEST = ''F''"
| "msg_type_value FM_ORDER_CANCEL_REPLACE = ''G''"
| "msg_type_value FM_EXECUTION_REPORT = ''8''"
| "msg_type_value FM_ORDER_CANCEL_REJECT = ''9''"
| "msg_type_value FM_MARKET_DATA_REQUEST = ''V''"
| "msg_type_value FM_MARKET_DATA_SNAPSHOT = ''W''"
| "msg_type_value FM_MARKET_DATA_INCREMENTAL = ''X''"
| "msg_type_value FM_QUOTE = ''S''"
| "msg_type_value FM_QUOTE_REQUEST = ''R''"
| "msg_type_value FM_MASS_QUOTE = ''i''"

datatype fix_session_state =
    FX_DISCONNECTED | FX_CONNECTING | FX_LOGON_SENT | FX_ACTIVE | FX_LOGOUT_PENDING

section \<open>System state\<close>

datatype system_state =
    INITIALIZING
  | SHADOW_MODE
  | PRE_SESSION
  | SESSION_OPEN
  | TRADING
  | PAUSED
  | HALTED
  | POST_SESSION
  | SYS_SHUTDOWN

section \<open>Reconciliation and change proposals\<close>

datatype reconciliation_status = RS_CLEAN | RS_MISMATCH | RS_PENDING

datatype change_proposal_type =
    PARAMETER_TWEAK | SETUP_MODIFICATION | SETUP_RETIREMENT | NEW_SETUP_ADDITION

datatype change_proposal_status =
    PROPOSED | AWAITING_HGL | HGL_APPROVED | HGL_REJECTED | EDGE_VALIDATING | EDGE_PASSED
  | EDGE_FAILED | LIVE

primrec proposal_status_value :: "change_proposal_status \<Rightarrow> string" where
  "proposal_status_value PROPOSED = ''proposed''"
| "proposal_status_value AWAITING_HGL = ''awaiting_hgl''"
| "proposal_status_value HGL_APPROVED = ''hgl_approved''"
| "proposal_status_value HGL_REJECTED = ''hgl_rejected''"
| "proposal_status_value EDGE_VALIDATING = ''edge_validating''"
| "proposal_status_value EDGE_PASSED = ''edge_passed''"
| "proposal_status_value EDGE_FAILED = ''edge_failed''"
| "proposal_status_value LIVE = ''live''"

section \<open>The nine session states and their transition table\<close>

datatype session_state =
    BOOTING
  | WAITING_FOR_DATA_INTEGRITY
  | WAITING_FOR_REGIME
  | ACTIVE
  | PAUSED_COOLDOWN
  | HALTED_RISK
  | HALTED_ANOMALY
  | HALTED_RECONCILIATION
  | SHUTDOWN

primrec session_value :: "session_state \<Rightarrow> string" where
  "session_value BOOTING = ''booting''"
| "session_value WAITING_FOR_DATA_INTEGRITY = ''waiting_for_data_integrity''"
| "session_value WAITING_FOR_REGIME = ''waiting_for_regime''"
| "session_value ACTIVE = ''active''"
| "session_value PAUSED_COOLDOWN = ''paused_cooldown''"
| "session_value HALTED_RISK = ''halted_risk''"
| "session_value HALTED_ANOMALY = ''halted_anomaly''"
| "session_value HALTED_RECONCILIATION = ''halted_reconciliation''"
| "session_value SHUTDOWN = ''shutdown''"

text \<open>
  The table is a dictionary from state values to sets of state values, both strings.
\<close>

definition session_state_transitions :: "string \<rightharpoonup> string list" where
  "session_state_transitions = map_of
    [(''booting'', [''waiting_for_data_integrity'', ''shutdown'']),
     (''waiting_for_data_integrity'',
        [''waiting_for_regime'', ''halted_anomaly'', ''shutdown'']),
     (''waiting_for_regime'', [''active'', ''halted_anomaly'', ''shutdown'']),
     (''active'',
        [''paused_cooldown'', ''halted_risk'', ''halted_anomaly'',
         ''halted_reconciliation'', ''shutdown'']),
     (''paused_cooldown'', [''active'', ''halted_risk'', ''halted_anomaly'', ''shutdown'']),
     (''halted_risk'', [''active'', ''shutdown'']),
     (''halted_anomaly'', [''active'', ''shutdown'']),
     (''halted_reconciliation'', [''active'', ''shutdown'']),
     (''shutdown'', [])]"

datatype spoofing_risk = SR_NONE | SR_LOW | SR_MEDIUM | SR_HIGH | SR_CRITICAL

lemma session_value_inj: "session_value s = session_value t \<longleftrightarrow> s = t"
  by (cases s; cases t) simp_all

lemma session_value_inj_on: "inj session_value"
  by (rule injI) (simp add: session_value_inj)

end
