(* ===== verification/Trading_Session.thy ===== *)
theory Trading_Session
  imports Prelude Enums
begin

text \<open>
  The trading session machine of \<open>pipeline/state_machine.py\<close> (class
  \<open>TradingSessionStateMachine\<close>), driven by the wall clock and by halt, pause and resume
  commands, with the reaction of the coordinator (\<open>pipeline/coordinator.py\<close>,
  \<open>_on_state_transition\<close> and the tracking of open positions). The clock reading in New
  York time (weekday and time of day) is an argument of a tick; the callbacks of a
  transition are the list of triples it emits.
\<close>

section \<open>Time of day\<close>

datatype time_of_day = Time (hour: nat) (minute: nat) (sec: nat) (usec: nat)

text \<open>\<open>datetime.time\<close> values compare field by field.\<close>

instantiation time_of_day :: linorder
begin

definition less_eq_time_of_day :: "time_of_day \<Rightarrow> time_of_day \<Rightarrow> bool" where
  "a \<le> b \<longleftrightarrow>
     hour a < hour b \<or> hour a = hour b \<and>
     (minute a < minute b \<or> minute a = minute b \<and>
     (sec a < sec b \<or> sec a = sec b \<and> usec a \<le> usec b))"

definition less_time_of_day :: "time_of_day \<Rightarrow> time_of_day \<Rightarrow> bool" where
  "a < b \<longleftrightarrow>
     hour a < hour b \<or> hour a = hour b \<and>
     (minute a < minute b \<or> minute a = minute b \<and>
     (sec a < sec b \<or> sec a = sec b \<and> usec a < usec b))"

instance
  by intro_classes
    (auto simp: less_eq_time_of_day_def less_time_of_day_def intro: time_of_day.expand)

end

definition market_open :: time_of_day where "market_open = Time 9 30 0 0"
definition market_close :: time_of_day where "market_close = Time 16 0 0 0"
definition pre_session_start :: time_of_day where "pre_session_start = Time 9 0 0 0"
definition post_session_start :: time_of_day where "post_session_start = Time 16 5 0 0"

lemmas session_times =
  market_open_def market_close_def pre_session_start_def post_session_start_def

lemma session_times_ordered:
  "pre_session_start < market_open" "market_open < market_close"
  "market_close < post_session_start"
  by (simp_all add: session_times less_time_of_day_def)

section \<open>The machine\<close>

record session_sm =
  sm_state :: system_state
  sm_entered_at :: timestamp
  sm_halt_reason :: "string option"

type_synonym sm_callback = "system_state \<times> system_state \<times> string"

definition sm_init :: "timestamp \<Rightarrow> session_sm" where
  "sm_init now = \<lparr>sm_state = INITIALIZING, sm_entered_at = now, sm_halt_reason = None\<rparr>"

definition sm_transition ::
  "session_sm \<Rightarrow> system_state \<Rightarrow> string \<Rightarrow> timestamp \<Rightarrow> session_sm \<times> sm_callback list" where
  "sm_transition m new why now =
     (if new = sm_state m then (m, [])
      else (m\<lparr>sm_state := new, sm_entered_at := now\<rparr>, [(sm_state m, new, why)]))"

text \<open>\<open>_tick\<close>, branch for branch; \<open>weekday()\<close> is 0 for Monday to 6 for Sunday.\<close>

definition sm_tick ::
  "session_sm \<Rightarrow> nat \<Rightarrow> time_of_day \<Rightarrow> timestamp \<Rightarrow> session_sm \<times> sm_callback list" where
  "sm_tick m weekday t now =
     (if 5 \<le> weekday then
        (if sm_state m \<notin> {SYS_SHUTDOWN, INITIALIZING}
         then sm_transition m INITIALIZING ''weekend'' now else (m, []))
      else if pre_session_start \<le> t \<and> t < market_open then
        (if sm_state m = INITIALIZING
         then sm_transition m PRE_SESSION ''pre-market window'' now else (m, []))
      else if market_open \<le> t \<and> t < market_close then
        (let (m1, cb1) =
               (if sm_state m \<in> {PRE_SESSION, INITIALIZING}
                then sm_transition m SESSION_OPEN ''market opened'' now else (m, []));
             (m2, cb2) =
               (if sm_state m1 = SESSION_OPEN
                then sm_transition m1 TRADING ''session ready'' now else (m1, []))
         in (m2, cb1 @ cb2))
      else if post_session_start \<le> t then
        (if sm_state m \<in> {TRADING, PAUSED, SESSION_OPEN}
         then sm_transition m POST_SESSION ''market closed'' now else (m, []))
      else (m, []))"

definition sm_halt where
  "sm_halt m why now = sm_transition (m\<lparr>sm_halt_reason := Some why\<rparr>) HALTED why now"

definition sm_pause where
  "sm_pause m why now =
     (if sm_state m = TRADING then sm_transition m PAUSED why now else (m, []))"

definition sm_resume where
  "sm_resume m approved_by now =
     (if sm_state m \<in> {HALTED, PAUSED}
      then sm_transition (m\<lparr>sm_halt_reason := None\<rparr>) TRADING (''resumed by '' @ approved_by) now
      else (m, []))"

definition sm_enter_post_session where
  "sm_enter_post_session m now = sm_transition m POST_SESSION ''forced post-session'' now"

definition sm_shutdown where
  "sm_shutdown m now = sm_transition m SYS_SHUTDOWN ''operator shutdown'' now"

definition sm_is_trading :: "session_sm \<Rightarrow> bool" where
  "sm_is_trading m \<longleftrightarrow> sm_state m = TRADING"

definition is_market_hours :: "nat \<Rightarrow> time_of_day \<Rightarrow> bool" where
  "is_market_hours weekday t \<longleftrightarrow> weekday < 5 \<and> market_open \<le> t \<and> t < market_close"

section \<open>Commands and runs\<close>

datatype sm_event =
    Tick nat time_of_day
  | Halt_Cmd string
  | Pause_Cmd string
  | Resume_Cmd string
  | Post_Session_Cmd
  | Shutdown_Cmd

fun sm_step_out :: "session_sm \<Rightarrow> timestamp \<times> sm_event \<Rightarrow> session_sm \<times> sm_callback list" where
  "sm_step_out m (now, Tick wd t) = sm_tick m wd t now"
| "sm_step_out m (now, Halt_Cmd r) = sm_halt m r now"
| "sm_step_out m (now, Pause_Cmd r) = sm_pause m r now"
| "sm_step_out m (now, Resume_Cmd by) = sm_resume m by now"
| "sm_step_out m (now, Post_Session_Cmd) = sm_enter_post_session m now"
| "sm_step_out m (now, Shutdown_Cmd) = sm_shutdown m now"

definition sm_step :: "session_sm \<Rightarrow> timestamp \<times> sm_event \<Rightarrow> session_sm" where
  "sm_step m te = fst (sm_step_out m te)"

lemmas sm_op_defs =
  sm_transition_def sm_halt_def sm_pause_def sm_resume_def sm_enter_post_session_def
  sm_shutdown_def

text \<open>A tick runs the machine's loop only while it is not shut down (\<open>run\<close>).\<close>

fun sm_run_loop :: "session_sm \<Rightarrow> (timestamp \<times> nat \<times> time_of_day) list \<Rightarrow> session_sm" where
  "sm_run_loop m [] = m"
| "sm_run_loop m ((now, wd, t) # ticks) =
     (if sm_state m \<noteq> SYS_SHUTDOWN then sm_run_loop (fst (sm_tick m wd t now)) ticks else m)"

section \<open>The coordinator's reaction\<close>

datatype coordinator_action =
    Run_Review
  | Publish_Halt_Command string

definition on_state_transition :: "sm_callback \<Rightarrow> coordinator_action list" where
  "on_state_transition cb =
     (let (old, new, why) = cb in
      if new = POST_SESSION then [Run_Review]
      else if new = HALTED then [Publish_Halt_Command why]
      else [])"

text \<open>
  The coordinator keeps the set of symbols with an open position: a fill that is not a
  shadow fill adds its symbol, a closed trade discards it; a message without a symbol (or
  with an empty one) does neither.
\<close>

definition on_fill_event :: "symbol set \<Rightarrow> symbol option \<Rightarrow> bool \<Rightarrow> symbol set" where
  "on_fill_event syms s is_shadow =
     (if truthy s \<and> \<not> is_shadow then insert (the s) syms else syms)"

definition on_trade_closed :: "symbol set \<Rightarrow> symbol option \<Rightarrow> symbol set" where
  "on_trade_closed syms s = (if truthy s then syms - {the s} else syms)"

section \<open>Facts about steps\<close>

lemma sm_transition_state [simp]: "sm_state (fst (sm_transition m new why now)) = new"
  by (simp add: sm_transition_def)

lemma sm_transition_out: "set (snd (sm_transition m new why now)) \<subseteq> {(sm_state m, new, why)}"
  by (simp add: sm_transition_def)

lemma sm_tick_halted_weekday:
  "sm_state m = HALTED \<Longrightarrow> wd < 5 \<Longrightarrow> sm_tick m wd t now = (m, [])"
  by (simp add: sm_tick_def)

lemma sm_tick_post_session_weekday:
  "sm_state m = POST_SESSION \<Longrightarrow> wd < 5 \<Longrightarrow> sm_tick m wd t now = (m, [])"
  by (simp add: sm_tick_def)

lemma sm_tick_weekend:
  "5 \<le> wd \<Longrightarrow> sm_state (fst (sm_tick m wd t now)) =
     (if sm_state m = SYS_SHUTDOWN then SYS_SHUTDOWN else INITIALIZING)"
  by (auto simp: sm_tick_def)

lemma sm_tick_open:
  assumes "is_market_hours wd t"
  shows "sm_state (fst (sm_tick m wd t now)) =
     (if sm_state m \<in> {INITIALIZING, PRE_SESSION, SESSION_OPEN} then TRADING else sm_state m)"
proof -
  from assms have "\<not> 5 \<le> wd" "\<not> (pre_session_start \<le> t \<and> t < market_open)"
    "market_open \<le> t \<and> t < market_close"
    by (auto simp: is_market_hours_def)
  then show ?thesis
    by (auto simp: sm_tick_def Let_def sm_transition_def split: prod.splits if_splits)
qed

lemma sm_tick_enters_trading:
  assumes "sm_state (fst (sm_tick m wd t now)) = TRADING" and "sm_state m \<noteq> TRADING"
  shows "is_market_hours wd t \<and> sm_state m \<in> {INITIALIZING, PRE_SESSION, SESSION_OPEN}"
proof (cases "is_market_hours wd t")
  case True
  with assms show ?thesis by (auto simp: sm_tick_open split: if_splits)
next
  case False
  then show ?thesis
    using assms
    by (auto simp: sm_tick_def is_market_hours_def sm_transition_def split: if_splits)
qed

section \<open>Commands that keep a halt\<close>

definition sm_weekday_tick :: "session_sm \<Rightarrow> timestamp \<times> nat \<times> time_of_day \<Rightarrow> session_sm" where
  "sm_weekday_tick m nwt = (let (now, wd, t) = nwt in fst (sm_tick m (wd mod 5) t now))"

interpretation weekdays_halted: absorbing_machine sm_weekday_tick "\<lambda>m. sm_state m = HALTED"
  by unfold_locales (simp add: sm_weekday_tick_def sm_tick_halted_weekday case_prod_beta)

interpretation weekdays_post: absorbing_machine sm_weekday_tick "\<lambda>m. sm_state m = POST_SESSION"
  by unfold_locales (simp add: sm_weekday_tick_def sm_tick_post_session_weekday case_prod_beta)

section \<open>Properties\<close>

text \<open>Trading begins only in one of two ways: a tick within market hours on a weekday,
  from a state before trading; or a resume command on a halted or paused session.\<close>

theorem trading_entry_points:
  assumes "sm_state (sm_step m (now, ev)) = TRADING" and "sm_state m \<noteq> TRADING"
  shows "(\<exists>wd t. ev = Tick wd t \<and> is_market_hours wd t \<and>
            sm_state m \<in> {INITIALIZING, PRE_SESSION, SESSION_OPEN}) \<or>
         (\<exists>who. ev = Resume_Cmd who \<and> sm_state m \<in> {HALTED, PAUSED})"
proof (cases ev)
  case (Tick wd t)
  with assms sm_tick_enters_trading [of m wd t now] show ?thesis by (auto simp: sm_step_def)
qed (use assms in \<open>auto simp: sm_step_def sm_op_defs split: if_splits\<close>)

theorem trading_entry_points_witness:
  "(\<exists>wd t. Tick 0 (Time 10 0 0 0) = Tick wd t \<and> is_market_hours wd t \<and>
      sm_state (sm_init 0) \<in> {INITIALIZING, PRE_SESSION, SESSION_OPEN}) \<or>
   (\<exists>who. Tick 0 (Time 10 0 0 0) = Resume_Cmd who \<and> sm_state (sm_init 0) \<in> {HALTED, PAUSED})"
  by (rule trading_entry_points [of "sm_init 0" 7])
    (simp_all add: sm_step_def sm_init_def sm_tick_def sm_transition_def session_times
      less_eq_time_of_day_def less_time_of_day_def)

text \<open>No sequence of weekday ticks moves a halted session: during the week only a resume
  command (or a forced post-session or shutdown) ends a halt.\<close>

theorem weekday_ticks_keep_halt:
  "sm_state (foldl sm_weekday_tick (m\<lparr>sm_state := HALTED\<rparr>) ticks) = HALTED"
  by (rule weekdays_halted.absorbed.run_inv) simp

text \<open>A weekend tick drops a halt: a session halted before the weekend, ticked once on
  Saturday or Sunday and once within market hours on Monday, trades again although nobody
  resumed it.\<close>

theorem weekend_clears_halt:
  "sm_state (foldl sm_step (m\<lparr>sm_state := HALTED\<rparr>)
     [(t1, Tick (5 + d) tod), (t2, Tick 0 (Time 10 0 0 0))]) = TRADING"
proof -
  have sat: "sm_state (sm_step (m\<lparr>sm_state := HALTED\<rparr>) (t1, Tick (5 + d) tod)) = INITIALIZING"
    by (simp add: sm_step_def sm_tick_weekend)
  have mon: "is_market_hours 0 (Time 10 0 0 0)"
    by (simp add: is_market_hours_def session_times less_eq_time_of_day_def less_time_of_day_def)
  show ?thesis using sat by (simp add: sm_step_def sm_tick_open [OF mon])
qed

text \<open>The session does not reopen on the next weekday: once in \<open>POST_SESSION\<close>, no
  sequence of weekday ticks leaves it, at any time of day.\<close>

theorem post_session_never_reopens:
  "sm_state (foldl sm_weekday_tick (m\<lparr>sm_state := POST_SESSION\<rparr>) ticks) = POST_SESSION"
  by (rule weekdays_post.absorbed.run_inv) simp

end
