(* ===== verification/Raft.thy ===== *)
theory Raft
  imports Prelude
begin

text \<open>
  The three-node in-process consensus of \<open>infrastructure/raft.py\<close>: the node's state, its
  two message handlers, commit application, election, heartbeats and the leader's
  \<open>propose\<close>, and the cluster's \<open>propose\<close> with its retries.

  Peers are called directly and every handler runs without a suspension point up to its
  calls of \<open>on_commit\<close>, so a handler, an election and a heartbeat round are one step each.
  The calls of \<open>on_commit\<close> are recorded in the order they are made (\<open>rn_applied\<close>). The code
  wraps each call of a peer in \<open>try\<close>: the set \<open>ok\<close> names the peers whose handler answers,
  the others raise before they change anything. \<open>'c\<close> is the type of commands.
\<close>

section \<open>Data\<close>

datatype raft_state = FOLLOWER | CANDIDATE | LEADER

record 'c log_entry =
  le_term :: nat
  le_index :: nat
  le_command :: 'c

record 'c raft_node =
  rn_state :: raft_state
  rn_term :: nat
  rn_voted_for :: "nat option"
  rn_log :: "'c log_entry list"
  rn_commit_index :: int
  rn_last_applied :: int
  rn_next_index :: "nat \<rightharpoonup> nat"
  rn_match_index :: "nat \<rightharpoonup> int"
  rn_running :: bool
  rn_heartbeat :: timestamp
  rn_applied :: "'c log_entry list"

definition raft_node_init :: "timestamp \<Rightarrow> 'c raft_node" where
  "raft_node_init now = \<lparr>rn_state = FOLLOWER, rn_term = 0, rn_voted_for = None, rn_log = [],
     rn_commit_index = -1, rn_last_applied = -1, rn_next_index = Map.empty,
     rn_match_index = Map.empty, rn_running = False, rn_heartbeat = now, rn_applied = []\<rparr>"

definition node_start :: "'c raft_node \<Rightarrow> timestamp \<Rightarrow> 'c raft_node" where
  "node_start n now = n\<lparr>rn_running := True, rn_heartbeat := now\<rparr>"

definition node_stop :: "'c raft_node \<Rightarrow> 'c raft_node" where
  "node_stop n = n\<lparr>rn_running := False\<rparr>"

definition is_leader :: "'c raft_node \<Rightarrow> bool" where
  "is_leader n \<longleftrightarrow> rn_state n = LEADER"

section \<open>Handlers of one node\<close>

text \<open>
  \<open>_apply_committed\<close>: advance to the commit index, calling \<open>on_commit\<close> for each position
  the log has. \<open>rn_last_applied\<close> starts at \<open>-1\<close>, so a position is never negative.
\<close>

function apply_committed :: "'c raft_node \<Rightarrow> 'c raft_node" where
  "apply_committed n =
     (if rn_last_applied n < rn_commit_index n then
        let i = rn_last_applied n + 1;
            n1 = n\<lparr>rn_last_applied := i\<rparr>
        in apply_committed
             (if i < int (length (rn_log n1))
              then n1\<lparr>rn_applied := rn_applied n1 @ [rn_log n1 ! nat i]\<rparr> else n1)
      else n)"
  by pat_completeness auto
termination
  by (relation "measure (\<lambda>n. nat (rn_commit_index n - rn_last_applied n))") (auto simp: Let_def)

declare apply_committed.simps [simp del]

definition handle_append_entries ::
  "'c raft_node \<Rightarrow> 'c log_entry \<Rightarrow> timestamp \<Rightarrow> 'c raft_node \<times> bool" where
  "handle_append_entries n entry now =
     (if le_term entry < rn_term n then (n, False)
      else
        let n1 = (if rn_term n < le_term entry
                  then n\<lparr>rn_term := le_term entry, rn_voted_for := None\<rparr> else n);
            n2 = n1\<lparr>rn_state := FOLLOWER, rn_heartbeat := now,
                    rn_log := rn_log n1 @ [entry], rn_commit_index := int (le_index entry)\<rparr>
        in (apply_committed n2, True))"

definition handle_request_vote ::
  "'c raft_node \<Rightarrow> nat \<Rightarrow> nat \<Rightarrow> nat \<Rightarrow> timestamp \<Rightarrow> 'c raft_node \<times> bool" where
  "handle_request_vote n from_node tm log_length now =
     (if tm < rn_term n then (n, False)
      else
        let n1 = (if rn_term n < tm
                  then n\<lparr>rn_term := tm, rn_state := FOLLOWER, rn_voted_for := None\<rparr> else n)
        in if rn_voted_for n1 = None \<or> rn_voted_for n1 = Some from_node
           then (n1\<lparr>rn_voted_for := Some from_node, rn_heartbeat := now\<rparr>, True)
           else (n1, False))"

text \<open>One turn of the election timer after its sleep: does it start an election?\<close>

definition election_due :: "'c raft_node \<Rightarrow> int \<Rightarrow> timestamp \<Rightarrow> bool" where
  "election_due n timeout_ms now \<longleftrightarrow>
     rn_running n \<and> rn_state n \<noteq> LEADER \<and> timeout_ms * 1000 \<le> now - rn_heartbeat n"

section \<open>The cluster\<close>

type_synonym 'c cluster = "nat \<Rightarrow> 'c raft_node"

definition node_ids :: "nat list" where "node_ids = [0, 1, 2]"

definition peers :: "nat \<Rightarrow> nat list" where
  "peers i = filter (\<lambda>n. n \<noteq> i) node_ids"

definition cluster_start :: "timestamp \<Rightarrow> 'c cluster" where
  "cluster_start now = (\<lambda>_. node_start (raft_node_init now) now)"

text \<open>The loop of \<open>_start_election\<close> over the peers, counting granted votes.\<close>

fun request_votes ::
  "nat \<Rightarrow> nat set \<Rightarrow> timestamp \<Rightarrow> 'c cluster \<times> nat \<Rightarrow> nat list \<Rightarrow> 'c cluster \<times> nat" where
  "request_votes i ok now cv [] = cv"
| "request_votes i ok now (c, votes) (p # ps) =
     (if p \<in> ok then
        let (n', granted) =
              handle_request_vote (c p) i (rn_term (c i)) (length (rn_log (c i))) now
        in request_votes i ok now (c(p := n'), if granted then votes + 1 else votes) ps
      else request_votes i ok now (c, votes) ps)"

definition become_leader :: "nat \<Rightarrow> 'c cluster \<Rightarrow> 'c cluster" where
  "become_leader i c = c(i := (c i)\<lparr>rn_state := LEADER,
     rn_next_index := (\<lambda>p. if p \<in> set (peers i) then Some (length (rn_log (c i)))
                           else rn_next_index (c i) p),
     rn_match_index := (\<lambda>p. if p \<in> set (peers i) then Some (- 1) else rn_match_index (c i) p)\<rparr>)"

definition start_election :: "nat \<Rightarrow> nat set \<Rightarrow> timestamp \<Rightarrow> 'c cluster \<Rightarrow> 'c cluster" where
  "start_election i ok now c =
     (let c1 = c(i := (c i)\<lparr>rn_term := rn_term (c i) + 1, rn_state := CANDIDATE,
                            rn_voted_for := Some i\<rparr>);
          (c2, votes) = request_votes i ok now (c1, 1) (peers i)
      in if 2 \<le> votes \<and> rn_state (c2 i) = CANDIDATE then become_leader i c2 else c2)"

text \<open>
  One heartbeat round. The loop tests \<open>is_leader\<close> before its sleep and not after it, so a
  node deposed meanwhile still sends one round: the step is not guarded by leadership.
\<close>

definition send_heartbeats :: "nat \<Rightarrow> timestamp \<Rightarrow> 'c cluster \<Rightarrow> 'c cluster" where
  "send_heartbeats i now c =
     foldl (\<lambda>c p. c(p := (if rn_term (c p) < rn_term (c i)
                          then (c p)\<lparr>rn_heartbeat := now, rn_term := rn_term (c i),
                                     rn_state := FOLLOWER\<rparr>
                          else (c p)\<lparr>rn_heartbeat := now\<rparr>)))
           c (peers i)"

text \<open>The replication loop of \<open>propose\<close>, counting acknowledgements.\<close>

fun replicate_entry ::
  "'c log_entry \<Rightarrow> nat set \<Rightarrow> timestamp \<Rightarrow> 'c cluster \<times> nat \<Rightarrow> nat list \<Rightarrow> 'c cluster \<times> nat" where
  "replicate_entry e ok now ca [] = ca"
| "replicate_entry e ok now (c, acks) (p # ps) =
     (if p \<in> ok then
        let (n', acked) = handle_append_entries (c p) e now
        in replicate_entry e ok now (c(p := n'), if acked then acks + 1 else acks) ps
      else replicate_entry e ok now (c, acks) ps)"

definition node_propose ::
  "nat \<Rightarrow> 'c \<Rightarrow> nat set \<Rightarrow> timestamp \<Rightarrow> 'c cluster \<Rightarrow> 'c cluster \<times> bool" where
  "node_propose i cmd ok now c =
     (if \<not> is_leader (c i) then (c, False)
      else
        let entry = \<lparr>le_term = rn_term (c i), le_index = length (rn_log (c i)),
                     le_command = cmd\<rparr>;
            c1 = c(i := (c i)\<lparr>rn_log := rn_log (c i) @ [entry]\<rparr>);
            (c2, acks) = replicate_entry entry ok now (c1, 1) (peers i)
        in if 2 \<le> acks
           then (c2(i := apply_committed ((c2 i)\<lparr>rn_commit_index := int (le_index entry)\<rparr>)),
                 True)
           else (c2(i := (c2 i)\<lparr>rn_log := butlast (rn_log (c2 i))\<rparr>), False))"

definition get_leader :: "'c cluster \<Rightarrow> nat option" where
  "get_leader c = find (\<lambda>i. is_leader (c i)) node_ids"

text \<open>
  \<open>RaftCluster.propose\<close>: up to three attempts, each at the current leader. An attempt is
  given with the peers that answer it and with what the rest of the system does to the
  cluster during the 0.1 s sleep after it.
\<close>

fun cluster_propose ::
  "'c \<Rightarrow> timestamp \<Rightarrow> (nat set \<times> ('c cluster \<Rightarrow> 'c cluster)) list \<Rightarrow> 'c cluster \<Rightarrow> 'c cluster \<times> bool"
where
  "cluster_propose cmd now [] c = (c, False)"
| "cluster_propose cmd now ((ok, rest) # attempts) c =
     (case get_leader c of
        None \<Rightarrow> cluster_propose cmd now attempts (rest c)
      | Some i \<Rightarrow>
          let (c', committed) = node_propose i cmd ok now c
          in if committed then (c', True) else cluster_propose cmd now attempts (rest c'))"

section \<open>Steps\<close>

text \<open>
  A step of the cluster: an election by a node that is not leader (the timer skips a
  leader), a heartbeat round, or a proposal, with any set of answering peers.
\<close>

inductive raft_step :: "'c cluster \<Rightarrow> 'c cluster \<Rightarrow> bool" where
  election: "i \<in> set node_ids \<Longrightarrow> rn_state (c i) \<noteq> LEADER \<Longrightarrow>
     raft_step c (start_election i ok now c)"
| heartbeat: "i \<in> set node_ids \<Longrightarrow> raft_step c (send_heartbeats i now c)"
| proposal: "i \<in> set node_ids \<Longrightarrow> raft_step c (fst (node_propose i cmd ok now c))"

inductive raft_reachable :: "'c cluster \<Rightarrow> bool" where
  raft_init: "raft_reachable (cluster_start now)"
| raft_next: "raft_reachable c \<Longrightarrow> raft_step c c' \<Longrightarrow> raft_reachable c'"

inductive_cases raft_stepE: "raft_step c c'"

section \<open>Commit application\<close>

lemma apply_committed_idle:
  "rn_commit_index n \<le> rn_last_applied n \<Longrightarrow> apply_committed n = n"
  by (subst apply_committed.simps) simp

lemma apply_committed_frame [simp]:
  "rn_term (apply_committed n) = rn_term n"
  "rn_state (apply_committed n) = rn_state n"
  "rn_voted_for (apply_committed n) = rn_voted_for n"
  "rn_log (apply_committed n) = rn_log n"
  "rn_commit_index (apply_committed n) = rn_commit_index n"
  "rn_running (apply_committed n) = rn_running n"
proof (induction n rule: apply_committed.induct)
  case (1 n)
  { case 1 then show ?case using "1.IH"(1) by (subst apply_committed.simps) (simp add: Let_def) }
  { case 2 then show ?case using "1.IH"(2) by (subst apply_committed.simps) (simp add: Let_def) }
  { case 3 then show ?case using "1.IH"(3) by (subst apply_committed.simps) (simp add: Let_def) }
  { case 4 then show ?case using "1.IH"(4) by (subst apply_committed.simps) (simp add: Let_def) }
  { case 5 then show ?case using "1.IH"(5) by (subst apply_committed.simps) (simp add: Let_def) }
  { case 6 then show ?case using "1.IH"(6) by (subst apply_committed.simps) (simp add: Let_def) }
qed

lemma apply_committed_last:
  "rn_last_applied (apply_committed n) = max (rn_last_applied n) (rn_commit_index n)"
proof (induction n rule: apply_committed.induct)
  case (1 n)
  then show ?case by (subst apply_committed.simps) (auto simp: Let_def)
qed

text \<open>A node that is one entry behind applies exactly that entry.\<close>

lemma apply_committed_one:
  assumes "rn_commit_index n = rn_last_applied n + 1"
    and "rn_commit_index n < int (length (rn_log n))"
  shows "apply_committed n =
     n\<lparr>rn_last_applied := rn_commit_index n,
       rn_applied := rn_applied n @ [rn_log n ! nat (rn_commit_index n)]\<rparr>"
  using assms
  by (subst apply_committed.simps) (simp add: Let_def apply_committed_idle)

section \<open>How a node evolves\<close>

text \<open>
  What no handler other than the node's own election breaks: terms only grow, a vote cast
  in a term is kept for that term, and a node that is leader afterwards already was leader
  of that term.
\<close>

definition evolves :: "'c raft_node \<Rightarrow> 'c raft_node \<Rightarrow> bool" where
  "evolves n n' \<longleftrightarrow>
     rn_term n \<le> rn_term n' \<and>
     (rn_term n' = rn_term n \<longrightarrow> rn_voted_for n \<noteq> None \<longrightarrow> rn_voted_for n' = rn_voted_for n) \<and>
     (rn_state n' = LEADER \<longrightarrow> rn_state n = LEADER \<and> rn_term n' = rn_term n)"

lemma evolves_refl [simp]: "evolves n n"
  by (simp add: evolves_def)

lemma evolves_handle_append [simp]: "evolves n (fst (handle_append_entries n e now))"
  by (auto simp: evolves_def handle_append_entries_def Let_def)

lemma evolves_handle_vote [simp]: "evolves n (fst (handle_request_vote n i t len now))"
  by (auto simp: evolves_def handle_request_vote_def Let_def)

lemma handle_vote_granted:
  "snd (handle_request_vote n i t len now) \<Longrightarrow>
     rn_term (fst (handle_request_vote n i t len now)) = t \<and>
     rn_voted_for (fst (handle_request_vote n i t len now)) = Some i"
  by (auto simp: handle_request_vote_def Let_def split: if_splits)

lemma handle_append_refused:
  "\<not> snd (handle_append_entries n e now) \<Longrightarrow> fst (handle_append_entries n e now) = n"
  by (auto simp: handle_append_entries_def Let_def split: if_splits)

lemma handle_append_acked: "snd (handle_append_entries n e now) \<longleftrightarrow> rn_term n \<le> le_term e"
  by (auto simp: handle_append_entries_def Let_def)

lemma handle_append_log:
  "rn_log (fst (handle_append_entries n e now)) =
     (if rn_term n \<le> le_term e then rn_log n @ [e] else rn_log n)"
  by (auto simp: handle_append_entries_def Let_def)

lemma peers_cases:
  assumes "i \<in> set node_ids"
  obtains a b where "peers i = [a, b]" "distinct [i, a, b]" "set node_ids = {i, a, b}"
  using assms by (fastforce simp: peers_def node_ids_def)

text \<open>The three nodes, written out: what an election and a proposal leave behind.\<close>

lemma request_votes_two:
  assumes "distinct [i, a, b]"
  shows "request_votes i ok now (c, v) [a, b] =
    (let va = handle_request_vote (c a) i (rn_term (c i)) (length (rn_log (c i))) now;
         vb = handle_request_vote (c b) i (rn_term (c i)) (length (rn_log (c i))) now
     in (c(a := if a \<in> ok then fst va else c a, b := if b \<in> ok then fst vb else c b),
         v + (if a \<in> ok \<and> snd va then 1 else 0) + (if b \<in> ok \<and> snd vb then 1 else 0)))"
  using assms by (auto simp: Let_def case_prod_beta fun_upd_def)

lemma replicate_entry_two:
  assumes "distinct [i, a, b]"
  shows "replicate_entry e ok now (c, v) [a, b] =
    (let ra = handle_append_entries (c a) e now;
         rb = handle_append_entries (c b) e now
     in (c(a := if a \<in> ok then fst ra else c a, b := if b \<in> ok then fst rb else c b),
         v + (if a \<in> ok \<and> snd ra then 1 else 0) + (if b \<in> ok \<and> snd rb then 1 else 0)))"
  using assms by (auto simp: Let_def case_prod_beta fun_upd_def)

declare request_votes.simps [simp del] replicate_entry.simps [simp del]

section \<open>At most one leader per term\<close>

definition backs :: "'c cluster \<Rightarrow> nat \<Rightarrow> nat \<Rightarrow> bool" where
  "backs c i p \<longleftrightarrow> rn_term (c i) < rn_term (c p) \<or>
     rn_term (c p) = rn_term (c i) \<and> rn_voted_for (c p) = Some i"

definition leader_inv :: "'c cluster \<Rightarrow> bool" where
  "leader_inv c \<longleftrightarrow>
     (\<forall>i \<in> set node_ids. rn_state (c i) = LEADER \<longrightarrow>
        rn_voted_for (c i) = Some i \<and> (\<exists>p \<in> set (peers i). backs c i p)) \<and>
     (\<forall>i \<in> set node_ids. \<forall>j \<in> set node_ids.
        rn_state (c i) = LEADER \<longrightarrow> rn_state (c j) = LEADER \<longrightarrow>
        rn_term (c i) = rn_term (c j) \<longrightarrow> i = j)"

lemma leader_inv_evolves:
  assumes inv: "leader_inv c" and ev: "\<And>i. evolves (c i) (c' i)"
  shows "leader_inv c'"
proof -
  have lead: "rn_state (c i) = LEADER \<and> rn_term (c' i) = rn_term (c i)"
    if "rn_state (c' i) = LEADER" for i
    using ev [of i] that by (simp add: evolves_def)
  have keep: "backs c' i p" if "backs c i p" "rn_term (c' i) = rn_term (c i)" for i p
    using ev [of p] that unfolding backs_def evolves_def by fastforce
  show ?thesis
    unfolding leader_inv_def
  proof (intro conjI ballI impI)
    fix i assume i: "i \<in> set node_ids" and l: "rn_state (c' i) = LEADER"
    from lead [OF l] have l0: "rn_state (c i) = LEADER" "rn_term (c' i) = rn_term (c i)" by auto
    from inv i l0(1) obtain p where
      v: "rn_voted_for (c i) = Some i" and p: "p \<in> set (peers i)" "backs c i p"
      by (auto simp: leader_inv_def)
    from v l0(2) ev [of i] show "rn_voted_for (c' i) = Some i" by (auto simp: evolves_def)
    from p keep [OF p(2) l0(2)] show "\<exists>p \<in> set (peers i). backs c' i p" by blast
  next
    fix i j
    assume "i \<in> set node_ids" "j \<in> set node_ids" "rn_state (c' i) = LEADER"
      "rn_state (c' j) = LEADER" "rn_term (c' i) = rn_term (c' j)"
    with lead [of i] lead [of j] inv show "i = j" by (auto simp: leader_inv_def)
  qed
qed

text \<open>What an election does, seen from outside.\<close>

lemma start_election_three:
  fixes c :: "'c cluster" and now :: timestamp
  assumes ab: "peers i = [a, b]" "distinct [i, a, b]"
  defines "va \<equiv> handle_request_vote (c a) i (rn_term (c i) + 1) (length (rn_log (c i))) now"
    and "vb \<equiv> handle_request_vote (c b) i (rn_term (c i) + 1) (length (rn_log (c i))) now"
  shows "start_election i ok now c =
    (let c2 = c(i := (c i)\<lparr>rn_term := rn_term (c i) + 1, rn_state := CANDIDATE,
                            rn_voted_for := Some i\<rparr>,
                a := if a \<in> ok then fst va else c a,
                b := if b \<in> ok then fst vb else c b)
     in if a \<in> ok \<and> snd va \<or> b \<in> ok \<and> snd vb then become_leader i c2 else c2)"
  using ab(2) unfolding va_def vb_def
  by (simp add: start_election_def Let_def ab(1) request_votes_two [OF ab(2)])

lemma start_election_effect:
  assumes i: "i \<in> set node_ids" and c': "c' = start_election i ok now c"
  shows "rn_term (c' i) = rn_term (c i) + 1" "rn_voted_for (c' i) = Some i"
    "\<And>j. j \<noteq> i \<Longrightarrow> evolves (c j) (c' j)"
    "rn_state (c' i) = LEADER \<Longrightarrow>
       \<exists>p \<in> set (peers i). rn_term (c' p) = rn_term (c' i) \<and> rn_voted_for (c' p) = Some i"
proof -
  obtain a b where ab: "peers i = [a, b]" "distinct [i, a, b]"
    using peers_cases [OF i] by metis
  define va where
    "va = handle_request_vote (c a) i (rn_term (c i) + 1) (length (rn_log (c i))) now"
  define vb where
    "vb = handle_request_vote (c b) i (rn_term (c i) + 1) (length (rn_log (c i))) now"
  let ?elected = "a \<in> ok \<and> snd va \<or> b \<in> ok \<and> snd vb"
  note eq = c' [unfolded start_election_three [OF ab], folded va_def vb_def]
  have ca: "c' a = (if a \<in> ok then fst va else c a)" and cb: "c' b = (if b \<in> ok then fst vb else c b)"
    using ab(2) by (auto simp: eq Let_def become_leader_def)
  show t: "rn_term (c' i) = rn_term (c i) + 1" and "rn_voted_for (c' i) = Some i"
    using ab(2) by (auto simp: eq Let_def become_leader_def)
  show "evolves (c j) (c' j)" if "j \<noteq> i" for j
    using that ca cb ab(2)
    by (cases "j = a"; cases "j = b") (auto simp: eq Let_def become_leader_def va_def vb_def)
  show "\<exists>p \<in> set (peers i). rn_term (c' p) = rn_term (c' i) \<and> rn_voted_for (c' p) = Some i"
    if l: "rn_state (c' i) = LEADER"
  proof -
    from l ab(2) have "?elected" by (auto simp: eq Let_def split: if_splits)
    then show ?thesis
    proof
      assume "a \<in> ok \<and> snd va"
      then have "rn_term (c' a) = rn_term (c' i) \<and> rn_voted_for (c' a) = Some i"
        using handle_vote_granted [of "c a" i] by (auto simp: ca t va_def)
      then show ?thesis using ab(1) by auto
    next
      assume "b \<in> ok \<and> snd vb"
      then have "rn_term (c' b) = rn_term (c' i) \<and> rn_voted_for (c' b) = Some i"
        using handle_vote_granted [of "c b" i] by (auto simp: cb t vb_def)
      then show ?thesis using ab(1) by auto
    qed
  qed
qed

lemma leader_inv_election:
  assumes inv: "leader_inv c" and i: "i \<in> set node_ids" and nl: "rn_state (c i) \<noteq> LEADER"
  shows "leader_inv (start_election i ok now c)"
proof -
  define c' where "c' = start_election i ok now c"
  note eff = start_election_effect [OF i c'_def]
  have lead: "rn_state (c j) = LEADER \<and> rn_term (c' j) = rn_term (c j) \<and>
      rn_voted_for (c j) = Some j \<and> rn_voted_for (c' j) = Some j \<and> (\<exists>p \<in> set (peers j). backs c j p)"
    if "rn_state (c' j) = LEADER" "j \<noteq> i" "j \<in> set node_ids" for j
    using eff(3) [of j] inv that by (auto simp: evolves_def leader_inv_def)
  have keep: "backs c' j p" if "backs c j p" "rn_term (c' j) = rn_term (c j)" for j p
    using eff(1) eff(3) [of p] that by (cases "p = i") (auto simp: backs_def evolves_def)
  have third: "rn_term (c j) \<noteq> rn_term (c i) + 1"
    if j: "rn_state (c' j) = LEADER" "j \<noteq> i" "j \<in> set node_ids" and li: "rn_state (c' i) = LEADER" for j
  proof
    assume t: "rn_term (c j) = rn_term (c i) + 1"
    from lead [OF j] obtain p where p: "p \<in> set (peers j)" "backs c j p"
      and tj: "rn_term (c' j) = rn_term (c j)" and vj: "rn_voted_for (c' j) = Some j" by blast
    from eff(4) [OF li] obtain g where g: "g \<in> set (peers i)"
      "rn_term (c' g) = rn_term (c' i)" "rn_voted_for (c' g) = Some i" by blast
    from p(2) t have "p \<noteq> i" by (auto simp: backs_def)
    moreover from g(3) vj j(2) have "g \<noteq> j" by auto
    ultimately have "g = p"
      using p(1) g(1) j(2,3) i by (auto simp: peers_def node_ids_def)
    moreover have "backs c' j p" by (rule keep [OF p(2) tj])
    ultimately show False
      using g(2,3) t tj eff(1) j(2) by (auto simp: backs_def)
  qed
  show ?thesis
    unfolding leader_inv_def c'_def [symmetric]
  proof (intro conjI ballI impI)
    fix j assume j: "j \<in> set node_ids" "rn_state (c' j) = LEADER"
    show "rn_voted_for (c' j) = Some j" using lead [OF j(2) _ j(1)] eff(2) by (cases "j = i") auto
    show "\<exists>p \<in> set (peers j). backs c' j p"
    proof (cases "j = i")
      case True
      with eff(4) j(2) show ?thesis by (auto simp: backs_def)
    next
      case False
      with lead [OF j(2) _ j(1)] keep show ?thesis by blast
    qed
  next
    fix j k
    assume jk: "j \<in> set node_ids" "k \<in> set node_ids" "rn_state (c' j) = LEADER"
      "rn_state (c' k) = LEADER" "rn_term (c' j) = rn_term (c' k)"
    consider "j = i" "k = i" | "j = i" "k \<noteq> i" | "j \<noteq> i" "k = i" | "j \<noteq> i" "k \<noteq> i" by blast
    then show "j = k"
    proof cases
      case 1 then show ?thesis by simp
    next
      case 2 with jk third [of k] lead [of k] eff(1) show ?thesis by auto
    next
      case 3 with jk third [of j] lead [of j] eff(1) show ?thesis by auto
    next
      case 4
      with jk lead [of j] lead [of k] inv show ?thesis by (auto simp: leader_inv_def)
    qed
  qed
qed

lemma send_heartbeats_evolves: "i \<in> set node_ids \<Longrightarrow> evolves (c j) (send_heartbeats i now c j)"
  by (erule peers_cases) (auto simp: send_heartbeats_def evolves_def)

lemma node_propose_evolves:
  assumes "i \<in> set node_ids"
  shows "evolves (c j) (fst (node_propose i cmd ok now c) j)"
proof -
  obtain a b where ab: "peers i = [a, b]" "distinct [i, a, b]"
    using peers_cases [OF assms] by metis
  show ?thesis
    using ab(2)
    by (cases "j = a"; cases "j = b")
      (auto simp: node_propose_def ab(1) replicate_entry_two [OF ab(2)] Let_def is_leader_def
        evolves_def [of "c i"])
qed

lemma raft_step_leader_inv: "raft_step c c' \<Longrightarrow> leader_inv c \<Longrightarrow> leader_inv c'"
proof (induction rule: raft_step.induct)
  case (election i c ok now)
  then show ?case by (intro leader_inv_election)
next
  case (heartbeat i c now)
  then show ?case by (blast intro: leader_inv_evolves send_heartbeats_evolves)
next
  case (proposal i c cmd ok now)
  then show ?case by (blast intro: leader_inv_evolves node_propose_evolves)
qed

lemma cluster_start_leader_inv: "leader_inv (cluster_start now)"
  by (simp add: leader_inv_def cluster_start_def node_start_def raft_node_init_def)

lemma reachable_leader_inv: "raft_reachable c \<Longrightarrow> leader_inv c"
  by (induction rule: raft_reachable.induct)
    (auto intro: cluster_start_leader_inv raft_step_leader_inv)

section \<open>What a proposal does\<close>

definition new_entry :: "'c raft_node \<Rightarrow> 'c \<Rightarrow> 'c log_entry" where
  "new_entry n cmd = \<lparr>le_term = rn_term n, le_index = length (rn_log n), le_command = cmd\<rparr>"

text \<open>The peers that answer and do not refuse the leader's term.\<close>

definition acceptors :: "nat \<Rightarrow> nat set \<Rightarrow> 'c cluster \<Rightarrow> nat set" where
  "acceptors i ok c = {p \<in> set (peers i). p \<in> ok \<and> rn_term (c p) \<le> rn_term (c i)}"

lemma node_propose_committed:
  assumes i: "i \<in> set node_ids" and l: "is_leader (c i)"
  shows "snd (node_propose i cmd ok now c) \<longleftrightarrow> acceptors i ok c \<noteq> {}"
proof -
  obtain a b where ab: "peers i = [a, b]" "distinct [i, a, b]"
    using peers_cases [OF i] by metis
  show ?thesis
    using ab(2) l
    by (auto simp: node_propose_def ab(1) replicate_entry_two [OF ab(2)] Let_def
        handle_append_acked acceptors_def)
qed

lemma node_propose_logs:
  assumes i: "i \<in> set node_ids" and "snd (node_propose i cmd ok now c)"
  shows "rn_log (fst (node_propose i cmd ok now c) j) =
     (if j = i \<or> j \<in> acceptors i ok c then rn_log (c j) @ [new_entry (c i) cmd]
      else rn_log (c j))"
proof -
  obtain a b where ab: "peers i = [a, b]" "distinct [i, a, b]"
    using peers_cases [OF i] by metis
  show ?thesis
    using assms(2) ab(2)
    by (cases "j = a"; cases "j = b")
      (auto simp: node_propose_def ab(1) replicate_entry_two [OF ab(2)] Let_def new_entry_def
        handle_append_acked handle_append_log acceptors_def split: if_splits)
qed

lemma node_propose_rollback:
  assumes i: "i \<in> set node_ids" and "\<not> snd (node_propose i cmd ok now c)"
  shows "fst (node_propose i cmd ok now c) = c"
proof -
  obtain a b where ab: "peers i = [a, b]" "distinct [i, a, b]"
    using peers_cases [OF i] by metis
  show ?thesis
    using assms(2) ab(2) handle_append_refused [of "c a"] handle_append_refused [of "c b"]
    by (auto simp: node_propose_def ab(1) replicate_entry_two [OF ab(2)] Let_def fun_eq_iff
        split: if_splits)
qed

section \<open>Runs in which every peer answers\<close>

datatype 'c raft_action = Elect nat | Heartbeat nat | Propose nat 'c

fun calm_step :: "'c cluster \<Rightarrow> timestamp \<times> 'c raft_action \<Rightarrow> 'c cluster" where
  "calm_step c (now, Elect i) =
     (if i \<in> set node_ids \<and> \<not> is_leader (c i) then start_election i UNIV now c else c)"
| "calm_step c (now, Heartbeat i) =
     (if i \<in> set node_ids then send_heartbeats i now c else c)"
| "calm_step c (now, Propose i cmd) =
     (if i \<in> set node_ids then fst (node_propose i cmd UNIV now c) else c)"

definition synced :: "nat \<Rightarrow> 'c log_entry list \<Rightarrow> 'c raft_node \<Rightarrow> bool" where
  "synced t es n \<longleftrightarrow> rn_term n = t \<and> rn_log n = es \<and> rn_applied n = es \<and>
     rn_last_applied n = int (length es) - 1 \<and> rn_commit_index n = int (length es) - 1"

definition in_sync :: "'c cluster \<Rightarrow> bool" where
  "in_sync c \<longleftrightarrow> (\<exists>t es. \<forall>i \<in> set node_ids. synced t es (c i))"

lemma in_syncI: "(\<And>i. i \<in> set node_ids \<Longrightarrow> synced t es (c i)) \<Longrightarrow> in_sync c"
  by (auto simp: in_sync_def)

lemma synced_append:
  assumes "synced t es n" and "e = \<lparr>le_term = t, le_index = length es, le_command = cmd\<rparr>"
  shows "synced t (es @ [e]) (fst (handle_append_entries n e now))"
    and "snd (handle_append_entries n e now)"
  using assms
  by (auto simp: synced_def handle_append_entries_def Let_def apply_committed_one)

lemma synced_vote:
  assumes "synced t es n"
  shows "synced (t + 1) es (fst (handle_request_vote n i (t + 1) len now))"
    and "snd (handle_request_vote n i (t + 1) len now)"
    and "rn_state (fst (handle_request_vote n i (t + 1) len now)) = FOLLOWER"
  using assms by (auto simp: synced_def handle_request_vote_def Let_def)

text \<open>With all peers answering, an election is won at once and by nobody else.\<close>

lemma calm_election:
  assumes i: "i \<in> set node_ids" and s: "\<And>j. j \<in> set node_ids \<Longrightarrow> synced t es (c j)"
  shows "j \<in> set node_ids \<Longrightarrow> synced (t + 1) es (start_election i UNIV now c j)"
    and "j \<in> set node_ids \<Longrightarrow> is_leader (start_election i UNIV now c j) \<longleftrightarrow> j = i"
proof -
  obtain a b where ab: "peers i = [a, b]" "distinct [i, a, b]" "set node_ids = {i, a, b}"
    using peers_cases [OF i] by metis
  from s ab(3) have sy: "synced t es (c i)" "synced t es (c a)" "synced t es (c b)" by auto
  then have t: "rn_term (c i) = t" by (simp add: synced_def)
  note three = start_election_three [OF ab(1,2)] t
  show "synced (t + 1) es (start_election i UNIV now c j)" if "j \<in> set node_ids"
    using that ab(2,3) sy synced_vote(1,2) [OF sy(2)] synced_vote(1,2) [OF sy(3)]
    by (auto simp: three Let_def become_leader_def) (auto simp: synced_def)
  show "is_leader (start_election i UNIV now c j) \<longleftrightarrow> j = i" if "j \<in> set node_ids"
    using that ab(2,3) synced_vote(2,3) [OF sy(2)] synced_vote(3) [OF sy(3)]
    by (auto simp: three Let_def become_leader_def is_leader_def)
qed

lemma calm_propose:
  assumes i: "i \<in> set node_ids" and s: "\<And>j. j \<in> set node_ids \<Longrightarrow> synced t es (c j)"
    and l: "is_leader (c i)"
  shows "snd (node_propose i cmd UNIV now c)"
    and "j \<in> set node_ids \<Longrightarrow>
      synced t (es @ [new_entry (c i) cmd]) (fst (node_propose i cmd UNIV now c) j)"
proof -
  obtain a b where ab: "peers i = [a, b]" "distinct [i, a, b]" "set node_ids = {i, a, b}"
    using peers_cases [OF i] by metis
  from s ab(3) have sy: "synced t es (c i)" "synced t es (c a)" "synced t es (c b)" by auto
  have e: "new_entry (c i) cmd = \<lparr>le_term = t, le_index = length es, le_command = cmd\<rparr>"
    using sy(1) by (simp add: new_entry_def synced_def)
  have n: "\<lparr>le_term = rn_term (c i), le_index = length (rn_log (c i)), le_command = cmd\<rparr>
      = new_entry (c i) cmd" by (simp add: new_entry_def)
  have lead: "synced t (es @ [new_entry (c i) cmd]) (apply_committed
      ((c i)\<lparr>rn_log := rn_log (c i) @ [new_entry (c i) cmd],
             rn_commit_index := int (le_index (new_entry (c i) cmd))\<rparr>))"
    using sy(1) by (auto simp: synced_def e apply_committed_one)
  note acks = synced_append [OF sy(2) e] synced_append [OF sy(3) e]
  show "snd (node_propose i cmd UNIV now c)"
    using ab(2) l acks
    by (simp add: node_propose_def ab(1) replicate_entry_two [OF ab(2)] Let_def n)
  show "synced t (es @ [new_entry (c i) cmd]) (fst (node_propose i cmd UNIV now c) j)"
    if "j \<in> set node_ids"
    using that ab(2,3) l acks lead
    by (auto simp: node_propose_def ab(1) replicate_entry_two [OF ab(2)] Let_def n)
qed

lemma calm_step_in_sync: "in_sync c \<Longrightarrow> in_sync (calm_step c ta)"
proof -
  assume "in_sync c"
  then obtain t es where s: "\<And>j. j \<in> set node_ids \<Longrightarrow> synced t es (c j)"
    by (auto simp: in_sync_def)
  obtain now act where ta: "ta = (now, act)" by (cases ta)
  show ?thesis
  proof (cases act)
    case (Elect i)
    with \<open>in_sync c\<close> s show ?thesis
      by (auto simp: ta intro!: in_syncI [of "t + 1" es] calm_election(1))
  next
    case (Heartbeat i)
    show ?thesis
    proof (cases "i \<in> set node_ids")
      case True
      obtain a b where ab: "peers i = [a, b]" "distinct [i, a, b]" "set node_ids = {i, a, b}"
        using peers_cases [OF True] by metis
      with s have "synced t es (send_heartbeats i now c j)" if "j \<in> set node_ids" for j
        using that by (auto simp: send_heartbeats_def synced_def)
      then show ?thesis using True by (auto simp: ta Heartbeat intro: in_syncI)
    next
      case False
      with \<open>in_sync c\<close> show ?thesis by (simp add: ta Heartbeat)
    qed
  next
    case (Propose i cmd)
    show ?thesis
    proof (cases "i \<in> set node_ids \<and> is_leader (c i)")
      case True
      with s calm_propose(2) [where i = i and t = t and es = es and c = c and cmd = cmd] show ?thesis
        by (auto simp: ta Propose intro!: in_syncI)
    next
      case False
      with \<open>in_sync c\<close> show ?thesis by (auto simp: ta Propose node_propose_def)
    qed
  qed
qed

lemma cluster_start_in_sync: "in_sync (cluster_start now)"
  by (rule in_syncI [of 0 "[]"])
    (simp add: cluster_start_def node_start_def raft_node_init_def synced_def)

interpretation calm: inv_machine calm_step in_sync
  by unfold_locales (rule calm_step_in_sync)

lemma get_leader_Some: "get_leader c = Some i \<Longrightarrow> i \<in> set node_ids \<and> is_leader (c i)"
  by (auto simp: get_leader_def find_Some_iff)

text \<open>The first election of a fresh cluster is won by the node that starts it.\<close>

lemma cluster_start_synced: "synced 0 [] (cluster_start now j)"
  by (simp add: cluster_start_def node_start_def raft_node_init_def synced_def)

lemma first_election:
  fixes c0 :: "'c cluster"
  assumes i: "i \<in> set node_ids" and c0: "c0 = cluster_start t0"
  shows "is_leader (start_election i UNIV t1 c0 i)"
    and "rn_term (start_election i UNIV t1 c0 i) = 1"
    and "get_leader (foldl calm_step c0 [(t1, Elect i)]) = Some i"
proof -
  have nl: "\<not> is_leader (c0 i)"
    by (simp add: c0 is_leader_def cluster_start_def node_start_def raft_node_init_def)
  note won = calm_election [where t = 0 and es = "[]" and c = c0 and now = t1,
      OF i, unfolded c0, OF cluster_start_synced]
  show "is_leader (start_election i UNIV t1 c0 i)"
    unfolding c0 using won(2) [OF i] by simp
  show "rn_term (start_election i UNIV t1 c0 i) = 1"
    unfolding c0 using won(1) [OF i] by (simp add: synced_def)
  show "get_leader (foldl calm_step c0 [(t1, Elect i)]) = Some i"
    unfolding c0 using i nl [unfolded c0] won(2) by (auto simp: get_leader_def node_ids_def)
qed

section \<open>Properties\<close>

text \<open>C1. Election safety: in every reachable state of the cluster, with any peers failing to
  answer in any election, heartbeat round or proposal, two leaders of the same term are the
  same node.\<close>

theorem at_most_one_leader_per_term:
  assumes "raft_reachable c" and "i \<in> {0, 1, 2}" and "j \<in> {0, 1, 2}"
    and "is_leader (c i)" and "is_leader (c j)" and "rn_term (c i) = rn_term (c j)"
  shows "i = j"
  using reachable_leader_inv [OF assms(1)] assms(2-)
  by (auto simp: leader_inv_def is_leader_def node_ids_def)

theorem at_most_one_leader_per_term_witness:
  "\<exists>c :: nat cluster. raft_reachable c \<and> is_leader (c 1) \<and> rn_term (c 1) = 1 \<and>
     (\<forall>j \<in> {0, 1, 2}. is_leader (c j) \<longrightarrow> rn_term (c j) = 1 \<longrightarrow> 1 = j)"
proof -
  let ?c = "start_election 1 UNIV 5 (cluster_start 0) :: nat cluster"
  have r: "raft_reachable ?c"
    by (rule raft_next [OF raft_init raft_step.election])
      (simp_all add: node_ids_def cluster_start_def node_start_def raft_node_init_def)
  have "1 \<in> set node_ids" by (simp add: node_ids_def)
  note l = first_election(1,2) [OF this refl, where ?t1.0 = 5 and ?t0.0 = 0]
  have "\<forall>j \<in> {0, 1, 2}. is_leader (?c j) \<longrightarrow> rn_term (?c j) = 1 \<longrightarrow> 1 = j"
  proof (intro ballI impI)
    fix j assume "j \<in> {0, 1, 2::nat}" "is_leader (?c j)" "rn_term (?c j) = 1"
    then show "1 = j"
      using at_most_one_leader_per_term [OF r, of 1 j] l by simp
  qed
  with r l show ?thesis by blast
qed

text \<open>A leader's proposal commits exactly when some peer answers and accepts the leader's
  term; then the entry, with the leader's term and log position, is appended to the logs of
  the leader and of every accepting peer and to no other; otherwise the whole cluster is as
  before the proposal.\<close>

theorem propose_commits_iff_majority:
  assumes "i \<in> {0, 1, 2}" and "is_leader (c i)"
  shows "snd (node_propose i cmd ok now c) = (acceptors i ok c \<noteq> {}) \<and>
    (if acceptors i ok c = {} then fst (node_propose i cmd ok now c) = c
     else \<forall>j. rn_log (fst (node_propose i cmd ok now c) j) =
       (if j = i \<or> j \<in> acceptors i ok c then rn_log (c j) @ [new_entry (c i) cmd]
        else rn_log (c j)))"
proof -
  from assms(1) have i: "i \<in> set node_ids" by (simp add: node_ids_def)
  note com = node_propose_committed [where c = c, OF i assms(2), of cmd ok now]
  show ?thesis
    using com node_propose_logs [OF i, of cmd ok now c] node_propose_rollback [OF i, of cmd ok now c]
    by auto
qed

theorem propose_commits_iff_majority_witness:
  "let c = (cluster_start 0)(0 := (node_start (raft_node_init 0) 0)\<lparr>rn_state := LEADER\<rparr>)
     :: nat cluster
   in is_leader (c 0) \<and> snd (node_propose 0 42 {1} 9 c) \<and>
      map le_command (rn_log (fst (node_propose 0 42 {1} 9 c) 1)) = [42] \<and>
      rn_log (fst (node_propose 0 42 {1} 9 c) 2) = []"
proof -
  define c :: "nat cluster" where
    "c = (cluster_start 0)(0 := (node_start (raft_node_init 0) 0)\<lparr>rn_state := LEADER\<rparr>)"
  have l: "is_leader (c 0)" by (simp add: is_leader_def c_def)
  have a: "acceptors 0 {1} c = {1}"
    by (auto simp: acceptors_def peers_def node_ids_def cluster_start_def node_start_def
        raft_node_init_def c_def)
  have logs: "rn_log (c 1) = []" "rn_log (c 2) = []"
    by (simp_all add: c_def cluster_start_def node_start_def raft_node_init_def)
  have "snd (node_propose 0 42 {1} 9 c) \<and>
      (\<forall>j. rn_log (fst (node_propose 0 42 {1} 9 c) j) =
        (if j = 0 \<or> j \<in> {1} then rn_log (c j) @ [new_entry (c 0) 42] else rn_log (c j)))"
    using propose_commits_iff_majority [of 0 c 42 "{1}" 9] l unfolding a by simp
  then show ?thesis
    unfolding Let_def c_def [symmetric] using l logs by (simp add: new_entry_def)
qed

text \<open>Agreement: in every run in which all peers answer, whatever elections, heartbeats
  and proposals it makes, the three nodes have the same term and the same log, and each has
  called \<open>on_commit\<close> for exactly the entries of that log, in order.\<close>

theorem calm_runs_agree: "in_sync (foldl calm_step (cluster_start now) acts)"
  by (rule calm.run_inv) (rule cluster_start_in_sync)

text \<open>A follower that receives the entry of position 1 before the entry of position 0
  (two overlapping proposals, or a first append that it missed) acknowledges both, but only
  ever applies the one that came first, which it takes for position 0: the other is never
  applied, and its log has the two in the wrong order.\<close>

theorem reordered_append_is_lost:
  "let e0 = \<lparr>le_term = 0, le_index = 0, le_command = a\<rparr>;
       e1 = \<lparr>le_term = 0, le_index = 1, le_command = b\<rparr>;
       (n1, ack1) = handle_append_entries (raft_node_init t0) e1 t1;
       (n2, ack2) = handle_append_entries n1 e0 t2
   in ack1 \<and> ack2 \<and> rn_log n2 = [e1, e0] \<and> rn_applied n2 = [e1] \<and>
      rn_last_applied n2 = 1"
  by (simp add: handle_append_entries_def raft_node_init_def Let_def apply_committed.simps)

end
