(* ===== verification/Session_FSM.thy ===== *)
theory Session_FSM
  imports Prelude Enums
begin

text \<open>
  The formal nine-state session machine of \<open>infrastructure/session_state_machine.py\<close>
  (class \<open>SessionStateMachine\<close>): its state, \<open>transition_to\<close> with its two error branches,
  the convenience helpers, the delayed auto-resume, and one step function over the events
  a caller can cause. The transition callback is a value: a successful transition returns
  the triple that \<open>on_transition\<close> is called with.
\<close>

section \<open>State\<close>

record fsm_entry =
  e_from :: session_state
  e_to :: session_state
  e_reason :: string
  e_approved_by :: "string option"
  e_at :: timestamp

record fsm =
  fsm_state :: session_state
  fsm_previous :: session_state
  fsm_reason :: string
  fsm_entered_at :: timestamp
  fsm_pending_approval :: "string option"
  fsm_history :: "fsm_entry list"

datatype fsm_error =
    NotPermitted session_state session_state
  | ApprovalRequired session_state

type_synonym fsm_callback = "session_state \<times> session_state \<times> string"

definition fsm_init :: "timestamp \<Rightarrow> fsm" where
  "fsm_init now = \<lparr>fsm_state = BOOTING, fsm_previous = BOOTING,
     fsm_reason = ''System startup'', fsm_entered_at = now,
     fsm_pending_approval = None, fsm_history = []\<rparr>"

definition human_approval_required :: "session_state list" where
  "human_approval_required = [HALTED_RISK, HALTED_ANOMALY, HALTED_RECONCILIATION]"

definition is_trading_permitted :: "fsm \<Rightarrow> bool" where
  "is_trading_permitted m \<longleftrightarrow> fsm_state m = ACTIVE"

definition is_halted :: "fsm \<Rightarrow> bool" where
  "is_halted m \<longleftrightarrow> fsm_state m \<in> set human_approval_required"

definition is_paused :: "fsm \<Rightarrow> bool" where
  "is_paused m \<longleftrightarrow> fsm_state m = PAUSED_COOLDOWN"

section \<open>Transition\<close>

text \<open>
  \<open>permitted = SESSION_STATE_TRANSITIONS.get(self._state.value, set())\<close>, a lookup by
  string value with the empty set as default.
\<close>

definition permitted_values :: "session_state \<Rightarrow> string list" where
  "permitted_values st =
     (case session_state_transitions (session_value st) of None \<Rightarrow> [] | Some vs \<Rightarrow> vs)"

definition transition_to ::
  "fsm \<Rightarrow> session_state \<Rightarrow> string \<Rightarrow> string option \<Rightarrow> timestamp
   \<Rightarrow> fsm_error + (fsm \<times> fsm_callback option)" where
  "transition_to m new why approved_by now =
     (if new = fsm_state m then Inr (m, None)
      else if session_value new \<notin> set (permitted_values (fsm_state m))
        then Inl (NotPermitted (fsm_state m) new)
      else if fsm_state m \<in> set human_approval_required \<and> new = ACTIVE \<and> \<not> truthy approved_by
        then Inl (ApprovalRequired (fsm_state m))
      else
        let entry = \<lparr>e_from = fsm_state m, e_to = new, e_reason = why,
                     e_approved_by = approved_by, e_at = now\<rparr>
        in Inr (m\<lparr>fsm_previous := fsm_state m,
                  fsm_state := new,
                  fsm_reason := why,
                  fsm_entered_at := now,
                  fsm_pending_approval :=
                    (if truthy approved_by then approved_by else fsm_pending_approval m),
                  fsm_history := push_bounded 50 (fsm_history m) entry\<rparr>,
                Some (fsm_state m, new, why)))"

section \<open>Convenience helpers\<close>

definition boot_complete where
  "boot_complete m now = transition_to m WAITING_FOR_DATA_INTEGRITY
     ''Boot sequence complete - awaiting data integrity clearance'' None now"

definition data_integrity_cleared where
  "data_integrity_cleared m now = transition_to m WAITING_FOR_REGIME
     ''Data integrity cleared - awaiting regime assessment'' None now"

definition regime_ready where
  "regime_ready m now = transition_to m ACTIVE
     ''Regime assessment complete - trading active'' None now"

text \<open>
  \<open>pause_cooldown\<close> transitions and then schedules \<open>_auto_resume(duration_sec, reason)\<close>:
  the third component is the scheduled task, present even when the transition was a no-op.
\<close>

definition pause_cooldown ::
  "fsm \<Rightarrow> string \<Rightarrow> pyfloat \<Rightarrow> timestamp
   \<Rightarrow> fsm_error + (fsm \<times> fsm_callback option \<times> pyfloat \<times> string)" where
  "pause_cooldown m why duration_sec now =
     (case transition_to m PAUSED_COOLDOWN why None now of
        Inl e \<Rightarrow> Inl e
      | Inr (m', cb) \<Rightarrow> Inr (m', cb, duration_sec, why))"

text \<open>
  The body of \<open>_auto_resume\<close> after its sleep: only a paused machine is resumed, and a
  refused transition is logged and dropped.
\<close>

definition fsm_auto_resume :: "fsm \<Rightarrow> string \<Rightarrow> timestamp \<Rightarrow> fsm \<times> fsm_callback option" where
  "fsm_auto_resume m pause_reason now =
     (if fsm_state m = PAUSED_COOLDOWN then
        (case transition_to m ACTIVE
                (''Auto-resume after cooldown (was: '' @ pause_reason @ '')'') None now of
           Inl _ \<Rightarrow> (m, None)
         | Inr r \<Rightarrow> r)
      else (m, None))"

definition halt_risk where
  "halt_risk m why now = transition_to m HALTED_RISK why None now"

definition halt_anomaly where
  "halt_anomaly m why now = transition_to m HALTED_ANOMALY why None now"

definition halt_reconciliation where
  "halt_reconciliation m why now = transition_to m HALTED_RECONCILIATION why None now"

definition human_resume where
  "human_resume m approved_by why now = transition_to m ACTIVE why (Some approved_by) now"

definition shutdown where
  "shutdown m why now = transition_to m SHUTDOWN why None now"

section \<open>Events and steps\<close>

text \<open>
  Everything a caller can do to the machine, at a clock reading. An exception leaves the
  machine as it was: both checks of \<open>transition_to\<close> come before its first assignment.
\<close>

datatype fsm_event =
    Boot_Complete
  | Data_Integrity_Cleared
  | Regime_Ready
  | Pause_Cooldown string pyfloat
  | Auto_Resume string
  | Halt_Risk string
  | Halt_Anomaly string
  | Halt_Reconciliation string
  | Human_Resume string string
  | Shut_Down string
  | Transition_To session_state string "string option"

fun fsm_attempt :: "fsm \<Rightarrow> fsm_event \<Rightarrow> timestamp \<Rightarrow> fsm_error + (fsm \<times> fsm_callback option)" where
  "fsm_attempt m Boot_Complete now = boot_complete m now"
| "fsm_attempt m Data_Integrity_Cleared now = data_integrity_cleared m now"
| "fsm_attempt m Regime_Ready now = regime_ready m now"
| "fsm_attempt m (Pause_Cooldown r d) now =
     map_sum id (\<lambda>(m', cb, _, _). (m', cb)) (pause_cooldown m r d now)"
| "fsm_attempt m (Auto_Resume r) now = Inr (fsm_auto_resume m r now)"
| "fsm_attempt m (Halt_Risk r) now = halt_risk m r now"
| "fsm_attempt m (Halt_Anomaly r) now = halt_anomaly m r now"
| "fsm_attempt m (Halt_Reconciliation r) now = halt_reconciliation m r now"
| "fsm_attempt m (Human_Resume by r) now = human_resume m by r now"
| "fsm_attempt m (Shut_Down r) now = shutdown m r now"
| "fsm_attempt m (Transition_To st r by) now = transition_to m st r by now"

definition fsm_step :: "fsm \<Rightarrow> timestamp \<times> fsm_event \<Rightarrow> fsm" where
  "fsm_step m te = (case fsm_attempt m (snd te) (fst te) of Inl _ \<Rightarrow> m | Inr (m', _) \<Rightarrow> m')"

lemmas fsm_helper_defs =
  boot_complete_def data_integrity_cleared_def regime_ready_def halt_risk_def
  halt_anomaly_def halt_reconciliation_def human_resume_def shutdown_def

section \<open>The permitted transitions\<close>

text \<open>The table as a relation on states, as the module's documentation lists it.\<close>

fun permitted :: "session_state \<Rightarrow> session_state list" where
  "permitted BOOTING = [WAITING_FOR_DATA_INTEGRITY, SHUTDOWN]"
| "permitted WAITING_FOR_DATA_INTEGRITY = [WAITING_FOR_REGIME, HALTED_ANOMALY, SHUTDOWN]"
| "permitted WAITING_FOR_REGIME = [ACTIVE, HALTED_ANOMALY, SHUTDOWN]"
| "permitted ACTIVE =
     [PAUSED_COOLDOWN, HALTED_RISK, HALTED_ANOMALY, HALTED_RECONCILIATION, SHUTDOWN]"
| "permitted PAUSED_COOLDOWN = [ACTIVE, HALTED_RISK, HALTED_ANOMALY, SHUTDOWN]"
| "permitted HALTED_RISK = [ACTIVE, SHUTDOWN]"
| "permitted HALTED_ANOMALY = [ACTIVE, SHUTDOWN]"
| "permitted HALTED_RECONCILIATION = [ACTIVE, SHUTDOWN]"
| "permitted SHUTDOWN = []"

lemma permitted_values_eq: "permitted_values st = map session_value (permitted st)"
  by (cases st) (simp_all add: permitted_values_def session_state_transitions_def)

lemma permitted_values_iff: "session_value t \<in> set (permitted_values s) \<longleftrightarrow> t \<in> set (permitted s)"
  by (auto simp: permitted_values_eq session_value_inj)

lemma permitted_irrefl: "s \<notin> set (permitted s)"
  by (cases s) simp_all

section \<open>What a transition does\<close>

lemma transition_to_Inr:
  assumes "transition_to m new why by now = Inr (m', cb)"
  shows "(m' = m \<and> cb = None \<and> new = fsm_state m) \<or>
         (fsm_state m' = new \<and> new \<in> set (permitted (fsm_state m)) \<and>
          cb = Some (fsm_state m, new, why) \<and>
          (is_halted m \<longrightarrow> new = ACTIVE \<longrightarrow> truthy by) \<and>
          fsm_previous m' = fsm_state m \<and> fsm_reason m' = why \<and> fsm_entered_at m' = now \<and>
          fsm_history m' = push_bounded 50 (fsm_history m)
            \<lparr>e_from = fsm_state m, e_to = new, e_reason = why, e_approved_by = by, e_at = now\<rparr>)"
  using assms
  by (auto simp: transition_to_def permitted_values_iff is_halted_def Let_def split: if_splits)

lemma transition_to_ok:
  assumes "new \<in> set (permitted (fsm_state m))" and "\<not> is_halted m \<or> new \<noteq> ACTIVE \<or> truthy by"
  shows "\<exists>m'. transition_to m new why by now = Inr (m', Some (fsm_state m, new, why)) \<and> fsm_state m' = new"
  using assms permitted_irrefl [of "fsm_state m"]
  by (auto simp: transition_to_def permitted_values_iff is_halted_def Let_def)

lemma transition_to_refused:
  assumes "new \<noteq> fsm_state m" and "new \<notin> set (permitted (fsm_state m))"
  shows "transition_to m new why by now = Inl (NotPermitted (fsm_state m) new)"
  using assms by (simp add: transition_to_def permitted_values_iff)

text \<open>
  Every successful attempt is a \<open>transition_to\<close>, whose target and approver are fixed by
  the event: the helpers add nothing else.
\<close>

fun event_target :: "fsm_event \<Rightarrow> session_state" where
  "event_target Boot_Complete = WAITING_FOR_DATA_INTEGRITY"
| "event_target Data_Integrity_Cleared = WAITING_FOR_REGIME"
| "event_target Regime_Ready = ACTIVE"
| "event_target (Pause_Cooldown _ _) = PAUSED_COOLDOWN"
| "event_target (Auto_Resume _) = ACTIVE"
| "event_target (Halt_Risk _) = HALTED_RISK"
| "event_target (Halt_Anomaly _) = HALTED_ANOMALY"
| "event_target (Halt_Reconciliation _) = HALTED_RECONCILIATION"
| "event_target (Human_Resume _ _) = ACTIVE"
| "event_target (Shut_Down _) = SHUTDOWN"
| "event_target (Transition_To st _ _) = st"

fun event_approver :: "fsm_event \<Rightarrow> string option" where
  "event_approver (Human_Resume by _) = Some by"
| "event_approver (Transition_To _ _ by) = by"
| "event_approver _ = None"

lemma fsm_step_cases:
  "fsm_step m (now, ev) = m \<or>
   (\<exists>why cb. transition_to m (event_target ev) why (event_approver ev) now
               = Inr (fsm_step m (now, ev), cb))"
proof (cases ev)
  case (Auto_Resume r)
  then show ?thesis
    by (auto simp: fsm_step_def fsm_auto_resume_def split: sum.splits prod.splits)
qed (auto simp: fsm_step_def fsm_helper_defs pause_cooldown_def split: sum.splits prod.splits)

lemma fsm_step_moves:
  assumes "fsm_step m (now, ev) \<noteq> m"
  obtains why where
    "fsm_state (fsm_step m (now, ev)) = event_target ev"
    "event_target ev \<in> set (permitted (fsm_state m))"
    "is_halted m \<longrightarrow> event_target ev = ACTIVE \<longrightarrow> truthy (event_approver ev)"
    "fsm_history (fsm_step m (now, ev)) = push_bounded 50 (fsm_history m)
       \<lparr>e_from = fsm_state m, e_to = event_target ev, e_reason = why,
        e_approved_by = event_approver ev, e_at = now\<rparr>"
proof -
  from assms fsm_step_cases [of m now ev] obtain why cb where
    "transition_to m (event_target ev) why (event_approver ev) now = Inr (fsm_step m (now, ev), cb)"
    by blast
  from transition_to_Inr [OF this] assms show thesis
    by (auto intro: that)
qed

section \<open>The history is a valid path\<close>

definition entry_ok :: "fsm_entry \<Rightarrow> bool" where
  "entry_ok e \<longleftrightarrow> e_to e \<in> set (permitted (e_from e)) \<and>
     (e_from e \<in> set human_approval_required \<longrightarrow> e_to e = ACTIVE \<longrightarrow> truthy (e_approved_by e))"

definition fsm_inv :: "fsm \<Rightarrow> bool" where
  "fsm_inv m \<longleftrightarrow>
     length (fsm_history m) \<le> 50 \<and>
     (\<forall>e \<in> set (fsm_history m). entry_ok e) \<and>
     chained (\<lambda>a b. e_to a = e_from b) (fsm_history m) \<and>
     fsm_state m = (if fsm_history m = [] then BOOTING else e_to (last (fsm_history m)))"

lemma fsm_inv_init: "fsm_inv (fsm_init now)"
  by (simp add: fsm_inv_def fsm_init_def)

lemma fsm_step_inv:
  assumes "fsm_inv m"
  shows "fsm_inv (fsm_step m te)"
proof (cases "fsm_step m te = m")
  case True
  with assms show ?thesis by simp
next
  case False
  obtain now ev where te: "te = (now, ev)" by (cases te)
  from False [unfolded te] obtain why where
    st: "fsm_state (fsm_step m te) = event_target ev"
    and perm: "event_target ev \<in> set (permitted (fsm_state m))"
    and appr: "is_halted m \<longrightarrow> event_target ev = ACTIVE \<longrightarrow> truthy (event_approver ev)"
    and hist: "fsm_history (fsm_step m te) = push_bounded 50 (fsm_history m)
       \<lparr>e_from = fsm_state m, e_to = event_target ev, e_reason = why,
        e_approved_by = event_approver ev, e_at = now\<rparr>"
    unfolding te by (rule fsm_step_moves)
  let ?e = "\<lparr>e_from = fsm_state m, e_to = event_target ev, e_reason = why,
             e_approved_by = event_approver ev, e_at = now\<rparr>"
  have ok: "entry_ok ?e" using perm appr by (simp add: entry_ok_def is_halted_def)
  have "\<forall>e \<in> set (push_bounded 50 (fsm_history m) ?e). entry_ok e"
    using assms ok set_push_bounded [of 50 "fsm_history m" ?e] by (auto simp: fsm_inv_def)
  moreover have "chained (\<lambda>a b. e_to a = e_from b) (push_bounded 50 (fsm_history m) ?e)"
    using assms by (intro chained_push_bounded) (auto simp: fsm_inv_def split: if_splits)
  moreover have "length (push_bounded 50 (fsm_history m) ?e) \<le> 50"
    using assms by (intro length_push_bounded) (auto simp: fsm_inv_def)
  ultimately show ?thesis
    using st hist by (simp add: fsm_inv_def last_push_bounded push_bounded_nonempty)
qed

lemma transition_to_inv:
  assumes "fsm_inv m" and "transition_to m st why by now = Inr (m', cb)"
  shows "fsm_inv m'"
  using fsm_step_inv [OF assms(1), of "(now, Transition_To st why by)"] assms(2)
  by (simp add: fsm_step_def)

interpretation fsm: inv_machine fsm_step fsm_inv
  by unfold_locales (rule fsm_step_inv)

interpretation fsm_final: absorbing_machine fsm_step "\<lambda>m. fsm_state m = SHUTDOWN"
proof
  fix m :: fsm and te :: "timestamp \<times> fsm_event"
  assume "fsm_state m = SHUTDOWN"
  then show "fsm_state (fsm_step m te) = SHUTDOWN"
    by (cases te) (metis empty_iff empty_set fsm_step_moves permitted.simps(9))
qed

section \<open>Properties\<close>

text \<open>After any sequence of calls on a fresh machine, its history (the last 50
  transitions) is a path through the permitted-transition table that ends in the current
  state, and every step of the path from a halted state to \<open>ACTIVE\<close> carries a non-empty
  approver.\<close>

theorem fsm_history_is_path: "fsm_inv (foldl fsm_step (fsm_init now) tes)"
  by (rule fsm.run_inv) (rule fsm_inv_init)

text \<open>Whatever call is made on a halted machine, it stays halted as it is, shuts down,
  or becomes \<open>ACTIVE\<close> by a call that names a non-empty human approver.\<close>

theorem fsm_halt_needs_human:
  assumes "is_halted m"
  shows "fsm_step m (now, ev) = m \<or>
         fsm_state (fsm_step m (now, ev)) = SHUTDOWN \<or>
         fsm_state (fsm_step m (now, ev)) = ACTIVE \<and> truthy (event_approver ev)"
proof (cases "fsm_step m (now, ev) = m")
  case False
  then obtain why where
    st: "fsm_state (fsm_step m (now, ev)) = event_target ev"
    and "event_target ev \<in> set (permitted (fsm_state m))"
    and ap: "is_halted m \<longrightarrow> event_target ev = ACTIVE \<longrightarrow> truthy (event_approver ev)"
    by (rule fsm_step_moves)
  then have "event_target ev \<in> {ACTIVE, SHUTDOWN}"
    using assms by (auto simp: is_halted_def human_approval_required_def)
  with st ap assms show ?thesis by auto
qed simp

theorem fsm_halt_needs_human_witness:
  "is_halted ((fsm_init 0)\<lparr>fsm_state := HALTED_RISK\<rparr>) \<and>
   (fsm_step ((fsm_init 0)\<lparr>fsm_state := HALTED_RISK\<rparr>) (5, Regime_Ready)
      = (fsm_init 0)\<lparr>fsm_state := HALTED_RISK\<rparr> \<or>
    fsm_state (fsm_step ((fsm_init 0)\<lparr>fsm_state := HALTED_RISK\<rparr>) (5, Regime_Ready)) = SHUTDOWN \<or>
    fsm_state (fsm_step ((fsm_init 0)\<lparr>fsm_state := HALTED_RISK\<rparr>) (5, Regime_Ready)) = ACTIVE \<and>
    truthy (event_approver Regime_Ready))"
proof -
  have h: "is_halted ((fsm_init 0)\<lparr>fsm_state := HALTED_RISK\<rparr>)"
    by (simp add: is_halted_def human_approval_required_def)
  show ?thesis using h fsm_halt_needs_human [OF h, of 5 Regime_Ready] by blast
qed

text \<open>The outcome of \<open>transition_to\<close> on every branch: the same state is a no-op, a target
  outside the table is refused, leaving a halted state for \<open>ACTIVE\<close> without an approver is
  refused, and everything else moves to the target and reports the transition once.\<close>

theorem transition_to_outcome:
  "transition_to m new why by now =
     (if new = fsm_state m then Inr (m, None)
      else if new \<notin> set (permitted (fsm_state m)) then Inl (NotPermitted (fsm_state m) new)
      else if is_halted m \<and> new = ACTIVE \<and> \<not> truthy by then Inl (ApprovalRequired (fsm_state m))
      else Inr (\<lparr>fsm_state = new, fsm_previous = fsm_state m, fsm_reason = why,
                 fsm_entered_at = now,
                 fsm_pending_approval = (if truthy by then by else fsm_pending_approval m),
                 fsm_history = push_bounded 50 (fsm_history m)
                   \<lparr>e_from = fsm_state m, e_to = new, e_reason = why, e_approved_by = by, e_at = now\<rparr>\<rparr>,
               Some (fsm_state m, new, why)))"
  by (simp add: transition_to_def permitted_values_iff is_halted_def Let_def)

text \<open>Shutdown is final: no sequence of calls leaves it.\<close>

theorem fsm_shutdown_final:
  "fsm_state (foldl fsm_step (m\<lparr>fsm_state := SHUTDOWN\<rparr>) tes) = SHUTDOWN"
  by (rule fsm_final.absorbed.run_inv) simp

end
