(* ===== verification/Supervisor.thy ===== *)
theory Supervisor
  imports Session_FSM
begin

text \<open>
  The portfolio supervisor of \<open>agents/agent_13_portfolio_supervisor.py\<close>: its state, its
  circuit breakers, halt, pause, auto-resume and resume, the handlers of the messages it
  subscribes to, and the gate \<open>is_trading_allowed\<close>. Everything a handler publishes,
  persists, audits or schedules is an element of the list it returns, in the order of the
  calls. A handler runs to its end before the next message, and reads one clock value.
  Numbers formatted into a reason text are left out of the text.
\<close>

section \<open>State and effects\<close>

record psa_config =
  cfg_starting_equity :: pyfloat
  cfg_daily_max_loss_pct :: pyfloat
  cfg_cb_window :: pyfloat
  cfg_cb_threshold :: int
  cfg_cb_pause :: int
  cfg_vel_window :: pyfloat
  cfg_vel_threshold :: pyfloat
  cfg_pdt_min :: pyfloat

text \<open>The defaults of the \<open>cfg(...)\<close> calls.\<close>

definition psa_defaults :: psa_config where
  "psa_defaults = \<lparr>cfg_starting_equity = 30000, cfg_daily_max_loss_pct = 2 / 100,
     cfg_cb_window = 60, cfg_cb_threshold = 3, cfg_cb_pause = 600,
     cfg_vel_window = 180, cfg_vel_threshold = 300, cfg_pdt_min = 25000\<rparr>"

record psa =
  p_daily_pnl :: pyfloat
  p_starting_equity :: pyfloat
  p_current_equity :: pyfloat
  p_system_state :: system_state
  p_halt_reason :: "string option"
  p_anomaly_hold :: bool
  p_pause_until :: "timestamp option"
  p_fsm :: fsm
  p_stopout_times :: "timestamp list"
  p_loss_window :: "(timestamp \<times> pyfloat) list"
  p_open_positions :: int
  p_consecutive_losses :: int
  p_pdt_trades :: int

datatype psa_effect =
    Publish_Session_State session_state session_state string bool
  | Publish_Daily_Pnl pyfloat pyfloat int
  | Publish_Halt string session_state
  | Publish_Paused string timestamp
  | Publish_Resume_Elapsed
  | Publish_Resume_Approved string
  | Publish_Anomaly_Hold string string
  | Save_State system_state "string option" bool
  | Save_Daily_Pnl pyfloat pyfloat int
  | Audit_Halt string
  | Audit_Breach string string
  | Audit_Resume string
  | Schedule_Fsm_Resume pyfloat string
  | Schedule_Auto_Resume int

type_synonym psa_result = "psa \<times> psa_effect list"

definition psa_init :: "timestamp \<Rightarrow> psa" where
  "psa_init now = \<lparr>p_daily_pnl = 0, p_starting_equity = 0, p_current_equity = 0,
     p_system_state = INITIALIZING, p_halt_reason = None, p_anomaly_hold = False,
     p_pause_until = None, p_fsm = fsm_init now, p_stopout_times = [], p_loss_window = [],
     p_open_positions = 0, p_consecutive_losses = 0, p_pdt_trades = 0\<rparr>"

text \<open>Running one effectful step after another, the effects in order.\<close>

definition psa_then :: "psa_result \<Rightarrow> (psa \<Rightarrow> psa_result) \<Rightarrow> psa_result" where
  "psa_then r f = (let (s', out') = f (fst r) in (s', snd r @ out'))"

definition persist_state :: "psa \<Rightarrow> psa_effect" where
  "persist_state s = Save_State (p_system_state s) (p_halt_reason s) (p_anomaly_hold s)"

section \<open>Driving the session machine\<close>

text \<open>
  \<open>_on_fsm_transition\<close> publishes every successful transition; a refused transition is
  caught by the callers (\<open>except SessionTransitionError\<close>) and skipped.
\<close>

definition on_fsm_transition :: "fsm \<Rightarrow> fsm_callback \<Rightarrow> psa_effect" where
  "on_fsm_transition m cb =
     (let (from_state, to_state, why) = cb
      in Publish_Session_State to_state from_state why (is_trading_permitted m))"

definition psa_drive :: "psa \<Rightarrow> fsm_error + (fsm \<times> fsm_callback option) \<Rightarrow> psa_result" where
  "psa_drive s res =
     (case res of
        Inl _ \<Rightarrow> (s, [])
      | Inr (m, None) \<Rightarrow> (s\<lparr>p_fsm := m\<rparr>, [])
      | Inr (m, Some cb) \<Rightarrow> (s\<lparr>p_fsm := m\<rparr>, [on_fsm_transition m cb]))"

section \<open>Halt, pause, resume\<close>

definition fsm_halt_for :: "string \<Rightarrow> fsm \<Rightarrow> string \<Rightarrow> timestamp \<Rightarrow> fsm_error + (fsm \<times> fsm_callback option)"
where
  "fsm_halt_for breach m why now =
     (if breach = ''reconciliation_mismatch'' then halt_reconciliation m why now
      else if breach \<in> set [''feed_anomaly'', ''bus_failure''] then halt_anomaly m why now
      else halt_risk m why now)"

definition psa_halt :: "psa \<Rightarrow> timestamp \<Rightarrow> string \<Rightarrow> string \<Rightarrow> psa_result" where
  "psa_halt s now why breach =
     (if p_system_state s = HALTED then (s, [])
      else
        let s1 = s\<lparr>p_system_state := HALTED, p_halt_reason := Some why, p_anomaly_hold := True\<rparr>;
            (s2, out) = psa_drive s1 (fsm_halt_for breach (p_fsm s1) why now)
        in (s2, out @ [persist_state s2, Audit_Halt why, Audit_Breach breach why,
                       Publish_Halt why (fsm_state (p_fsm s2))]))"

definition psa_pause :: "psa \<Rightarrow> timestamp \<Rightarrow> string \<Rightarrow> int \<Rightarrow> psa_result" where
  "psa_pause s now why duration_sec =
     (if p_system_state s \<in> {HALTED, PAUSED} then (s, [])
      else
        let until = now + seconds (of_int duration_sec);
            s1 = s\<lparr>p_system_state := PAUSED, p_pause_until := Some until\<rparr>;
            (s2, out) =
              (case pause_cooldown (p_fsm s1) why (of_int duration_sec) now of
                 Inl _ \<Rightarrow> (s1, [])
               | Inr (m, cb, d, r) \<Rightarrow>
                   psa_then (psa_drive s1 (Inr (m, cb))) (\<lambda>s. (s, [Schedule_Fsm_Resume d r])))
        in (s2, out @ [persist_state s2, Publish_Paused why until,
                       Schedule_Auto_Resume duration_sec]))"

text \<open>The bodies of the two scheduled tasks, after their sleeps.\<close>

definition psa_auto_resume :: "psa \<Rightarrow> psa_result" where
  "psa_auto_resume s =
     (if p_system_state s = PAUSED then
        let s1 = s\<lparr>p_system_state := TRADING, p_pause_until := None\<rparr>
        in (s1, [persist_state s1, Publish_Resume_Elapsed])
      else (s, []))"

definition psa_fsm_auto_resume :: "psa \<Rightarrow> timestamp \<Rightarrow> string \<Rightarrow> psa_result" where
  "psa_fsm_auto_resume s now why = psa_drive s (Inr (fsm_auto_resume (p_fsm s) why now))"

definition psa_handle_resume :: "psa \<Rightarrow> timestamp \<Rightarrow> string \<Rightarrow> psa_result" where
  "psa_handle_resume s now approved_by =
     (if p_system_state s \<noteq> HALTED then (s, [])
      else
        let s1 = s\<lparr>p_system_state := TRADING, p_halt_reason := None, p_anomaly_hold := False\<rparr>;
            (s2, out) = psa_drive s1
              (human_resume (p_fsm s1) approved_by (''Human clearance by '' @ approved_by) now)
        in (s2, out @ [persist_state s2, Audit_Resume approved_by,
                       Publish_Resume_Approved approved_by]))"

section \<open>Circuit breakers\<close>

definition check_daily_loss_cap :: "psa_config \<Rightarrow> timestamp \<Rightarrow> psa \<Rightarrow> psa_result" where
  "check_daily_loss_cap cf now s =
     (let max_loss = p_current_equity s * cfg_daily_max_loss_pct cf in
      if p_daily_pnl s \<le> - max_loss
      then psa_halt s now ''Daily loss cap reached'' ''daily_loss_cap'' else (s, []))"

definition recent_stopouts :: "psa_config \<Rightarrow> timestamp \<Rightarrow> psa \<Rightarrow> timestamp list" where
  "recent_stopouts cf now s =
     filter (\<lambda>t. now - seconds (cfg_cb_window cf) \<le> t) (p_stopout_times s)"

definition recent_losses :: "psa_config \<Rightarrow> timestamp \<Rightarrow> psa \<Rightarrow> pyfloat" where
  "recent_losses cf now s =
     sum_list (map (\<lambda>(ts, loss). - loss)
       (filter (\<lambda>(ts, loss). now - seconds (cfg_vel_window cf) \<le> ts \<and> loss < 0)
         (p_loss_window s)))"

definition check_circuit_breaker :: "psa_config \<Rightarrow> timestamp \<Rightarrow> psa \<Rightarrow> psa_result" where
  "check_circuit_breaker cf now s =
     psa_then
       (if cfg_cb_threshold cf \<le> int (length (recent_stopouts cf now s))
        then psa_pause s now ''Circuit breaker: stopouts in window - systemic event'' (cfg_cb_pause cf)
        else (s, []))
       (\<lambda>s. if cfg_vel_threshold cf \<le> recent_losses cf now s
            then psa_pause s now ''Drawdown velocity'' 300 else (s, []))"

definition check_pdt_limit :: "psa_config \<Rightarrow> timestamp \<Rightarrow> psa \<Rightarrow> psa_result" where
  "check_pdt_limit cf now s =
     (let equity = p_current_equity s + p_daily_pnl s in
      psa_then
        (if equity < cfg_pdt_min cf
         then psa_halt s now ''Account equity below PDT minimum'' ''account_below_pdt''
         else (s, []))
        (\<lambda>s. if 3 \<le> p_pdt_trades s \<and> equity < cfg_pdt_min cf
             then psa_halt s now ''PDT day trade limit reached on sub-$25k account'' ''pdt_limit''
             else (s, [])))"

section \<open>Message handlers\<close>

text \<open>
  A closed trade, by its net P/L (\<open>is_winner\<close> is \<open>net_pnl > 0\<close>); \<open>None\<close> is a payload that
  does not parse, which is dropped.
\<close>

definition record_trade :: "psa \<Rightarrow> timestamp \<Rightarrow> pyfloat \<Rightarrow> psa" where
  "record_trade s now net_pnl =
     (let s1 = s\<lparr>p_open_positions := max 0 (p_open_positions s - 1),
                 p_daily_pnl := p_daily_pnl s + net_pnl\<rparr>;
          s2 = (if \<not> 0 < net_pnl
                then s1\<lparr>p_consecutive_losses := p_consecutive_losses s1 + 1,
                        p_stopout_times := push_bounded 20 (p_stopout_times s1) now,
                        p_loss_window := push_bounded 100 (p_loss_window s1) (now, net_pnl)\<rparr>
                else s1\<lparr>p_consecutive_losses := 0\<rparr>)
      in s2\<lparr>p_pdt_trades := p_pdt_trades s2 + 1\<rparr>)"

definition psa_trade_closed :: "psa_config \<Rightarrow> psa \<Rightarrow> timestamp \<Rightarrow> pyfloat option \<Rightarrow> psa_result" where
  "psa_trade_closed cf s now trade =
     (case trade of
        None \<Rightarrow> (s, [])
      | Some net_pnl \<Rightarrow>
          psa_then (psa_then (psa_then (check_daily_loss_cap cf now (record_trade s now net_pnl))
            (check_circuit_breaker cf now))
            (check_pdt_limit cf now))
            (\<lambda>s. (s,
               [Publish_Daily_Pnl (p_daily_pnl s) (p_current_equity s + p_daily_pnl s)
                  (p_pdt_trades s),
                Save_Daily_Pnl (p_current_equity s + p_daily_pnl s) (p_daily_pnl s)
                  (p_pdt_trades s)])))"

definition psa_alert :: "psa \<Rightarrow> timestamp \<Rightarrow> string \<Rightarrow> string \<Rightarrow> psa_result" where
  "psa_alert s now alert_type why =
     psa_then
       (if alert_type \<in> set [''feed_anomaly'', ''reconciliation_mismatch'', ''bus_failure'']
        then let s1 = s\<lparr>p_anomaly_hold := True\<rparr>
             in (s1, [persist_state s1, Publish_Anomaly_Hold alert_type why])
        else (s, []))
       (\<lambda>s. if alert_type = ''bus_failure''
            then psa_halt s now (''Message bus failure: '' @ why) ''bus_failure'' else (s, []))"

definition psa_reconciliation :: "psa \<Rightarrow> timestamp \<Rightarrow> string option \<Rightarrow> string \<Rightarrow> psa_result" where
  "psa_reconciliation s now status discrepancies =
     (if status = Some ''mismatch''
      then psa_alert s now ''reconciliation_mismatch'' (''Broker mismatch: '' @ discrepancies)
      else (s, []))"

definition psa_session_start :: "psa \<Rightarrow> timestamp \<Rightarrow> psa_result" where
  "psa_session_start s now =
     (if fsm_state (p_fsm s) = WAITING_FOR_REGIME
      then psa_drive s (regime_ready (p_fsm s) now) else (s, []))"

definition psa_kill_switch :: "psa \<Rightarrow> timestamp \<Rightarrow> string \<Rightarrow> string \<Rightarrow> psa_result" where
  "psa_kill_switch s now why initiated_by =
     psa_halt s now (''Kill switch: '' @ why @ '' (by '' @ initiated_by @ '')'') ''kill_switch''"

datatype psa_message =
    Msg_Trade_Closed "pyfloat option"
  | Msg_Alert string string
  | Msg_Reconciliation "string option" string
  | Msg_Fill
  | Msg_Daily_Pnl "pyfloat option" "pyfloat option"
  | Msg_System_State "string option" "string option"
  | Msg_Other

fun psa_process :: "psa_config \<Rightarrow> psa \<Rightarrow> timestamp \<Rightarrow> psa_message \<Rightarrow> psa_result" where
  "psa_process cf s now (Msg_Trade_Closed t) = psa_trade_closed cf s now t"
| "psa_process cf s now (Msg_Alert a r) = psa_alert s now a r"
| "psa_process cf s now (Msg_Reconciliation st d) = psa_reconciliation s now st d"
| "psa_process cf s now Msg_Fill = (s\<lparr>p_open_positions := p_open_positions s + 1\<rparr>, [])"
| "psa_process cf s now (Msg_Daily_Pnl pnl eq) =
     check_daily_loss_cap cf now
       (s\<lparr>p_daily_pnl := (case pnl of None \<Rightarrow> p_daily_pnl s | Some x \<Rightarrow> x),
          p_current_equity := (case eq of None \<Rightarrow> p_current_equity s | Some x \<Rightarrow> x)\<rparr>)"
| "psa_process cf s now (Msg_System_State cmd by) =
     (if cmd = Some ''resume'' \<and> truthy by then psa_handle_resume s now (the by) else (s, []))"
| "psa_process cf s now Msg_Other = (s, [])"

text \<open>
  \<open>on_startup\<close>: restore the persisted state, fetch the equity (\<open>None\<close> when the call
  raises), boot the session machine. A refused boot would propagate, so it is an error here.
\<close>

definition psa_on_startup ::
  "psa_config \<Rightarrow> psa \<Rightarrow> timestamp \<Rightarrow> system_state \<times> string option \<times> bool \<Rightarrow> pyfloat option
   \<Rightarrow> fsm_error + psa_result" where
  "psa_on_startup cf s now stored equity =
     (let (st, why, hold) = stored;
          s1 = s\<lparr>p_system_state := st, p_halt_reason := why, p_anomaly_hold := hold,
                 p_starting_equity := cfg_starting_equity cf,
                 p_current_equity := (case equity of None \<Rightarrow> cfg_starting_equity cf | Some e \<Rightarrow> e)\<rparr>
      in (case boot_complete (p_fsm s1) now of
            Inl e \<Rightarrow> Inl e
          | Inr res \<Rightarrow> Inr (psa_then (psa_drive s1 (Inr res)) (\<lambda>s. (s, [persist_state s])))))"

section \<open>The trading gate\<close>

definition is_trading_allowed :: "psa \<Rightarrow> timestamp \<Rightarrow> bool" where
  "is_trading_allowed s now =
     (if \<not> is_trading_permitted (p_fsm s) then False
      else if p_anomaly_hold s then False
      else if (case p_pause_until s of None \<Rightarrow> False | Some u \<Rightarrow> now < u) then False
      else True)"

section \<open>Events\<close>

text \<open>
  Everything that changes the supervisor: a message, the bus callbacks it registers, the
  scheduled tasks, and direct use of the session machine by the bootstrap (\<open>session_fsm\<close>).
\<close>

datatype psa_event =
    Ev_Message psa_message
  | Ev_Session_Start
  | Ev_Session_End
  | Ev_Kill_Switch string string
  | Ev_Auto_Resume
  | Ev_Fsm_Auto_Resume string
  | Ev_Data_Integrity_Cleared
  | Ev_Bus_Failure

fun psa_event_step :: "psa_config \<Rightarrow> psa \<Rightarrow> timestamp \<Rightarrow> psa_event \<Rightarrow> psa_result" where
  "psa_event_step cf s now (Ev_Message msg) = psa_process cf s now msg"
| "psa_event_step cf s now Ev_Session_Start = psa_session_start s now"
| "psa_event_step cf s now Ev_Session_End = (s, [])"
| "psa_event_step cf s now (Ev_Kill_Switch r by) = psa_kill_switch s now r by"
| "psa_event_step cf s now Ev_Auto_Resume = psa_auto_resume s"
| "psa_event_step cf s now (Ev_Fsm_Auto_Resume r) = psa_fsm_auto_resume s now r"
| "psa_event_step cf s now Ev_Data_Integrity_Cleared =
     psa_drive s (data_integrity_cleared (p_fsm s) now)"
| "psa_event_step cf s now Ev_Bus_Failure =
     psa_halt s now ''Message bus failure - safe mode'' ''bus_failure''"

definition psa_step :: "psa_config \<Rightarrow> psa \<Rightarrow> timestamp \<times> psa_event \<Rightarrow> psa" where
  "psa_step cf s te = fst (psa_event_step cf s (fst te) (snd te))"

section \<open>Frames\<close>

lemma psa_then_simps [simp]:
  "fst (psa_then r f) = fst (f (fst r))"
  "snd (psa_then r f) = snd r @ snd (f (fst r))"
  by (simp_all add: psa_then_def case_prod_beta)

lemma psa_drive_frame [simp]:
  "p_system_state (fst (psa_drive s res)) = p_system_state s"
  "p_halt_reason (fst (psa_drive s res)) = p_halt_reason s"
  "p_anomaly_hold (fst (psa_drive s res)) = p_anomaly_hold s"
  "p_pause_until (fst (psa_drive s res)) = p_pause_until s"
  "p_daily_pnl (fst (psa_drive s res)) = p_daily_pnl s"
  "p_current_equity (fst (psa_drive s res)) = p_current_equity s"
  "p_stopout_times (fst (psa_drive s res)) = p_stopout_times s"
  "p_loss_window (fst (psa_drive s res)) = p_loss_window s"
  "p_open_positions (fst (psa_drive s res)) = p_open_positions s"
  "p_pdt_trades (fst (psa_drive s res)) = p_pdt_trades s"
  by (auto simp: psa_drive_def split: sum.splits option.splits prod.splits)

lemma psa_drive_effects: "set (snd (psa_drive s res)) \<subseteq> {Publish_Session_State a b c d |a b c d. True}"
  by (auto simp: psa_drive_def on_fsm_transition_def split: sum.splits option.splits prod.splits)

lemma psa_halt_frame [simp]:
  "p_daily_pnl (fst (psa_halt s now r b)) = p_daily_pnl s"
  "p_current_equity (fst (psa_halt s now r b)) = p_current_equity s"
  "p_stopout_times (fst (psa_halt s now r b)) = p_stopout_times s"
  "p_loss_window (fst (psa_halt s now r b)) = p_loss_window s"
  "p_open_positions (fst (psa_halt s now r b)) = p_open_positions s"
  "p_pdt_trades (fst (psa_halt s now r b)) = p_pdt_trades s"
  by (simp_all add: psa_halt_def Let_def case_prod_beta)

lemma psa_pause_frame [simp]:
  "p_daily_pnl (fst (psa_pause s now r d)) = p_daily_pnl s"
  "p_current_equity (fst (psa_pause s now r d)) = p_current_equity s"
  "p_stopout_times (fst (psa_pause s now r d)) = p_stopout_times s"
  "p_loss_window (fst (psa_pause s now r d)) = p_loss_window s"
  "p_open_positions (fst (psa_pause s now r d)) = p_open_positions s"
  "p_pdt_trades (fst (psa_pause s now r d)) = p_pdt_trades s"
  by (simp_all add: psa_pause_def Let_def case_prod_beta split: sum.split)

lemma record_trade_frame [simp]:
  "p_daily_pnl (record_trade s now x) = p_daily_pnl s + x"
  "p_current_equity (record_trade s now x) = p_current_equity s"
  "p_system_state (record_trade s now x) = p_system_state s"
  "p_halt_reason (record_trade s now x) = p_halt_reason s"
  "p_anomaly_hold (record_trade s now x) = p_anomaly_hold s"
  "p_pause_until (record_trade s now x) = p_pause_until s"
  "p_fsm (record_trade s now x) = p_fsm s"
  "p_pdt_trades (record_trade s now x) = p_pdt_trades s + 1"
  by (simp_all add: record_trade_def Let_def)

lemma checks_frame [simp]:
  "p_daily_pnl (fst (check_daily_loss_cap cf now s)) = p_daily_pnl s"
  "p_current_equity (fst (check_daily_loss_cap cf now s)) = p_current_equity s"
  "p_stopout_times (fst (check_daily_loss_cap cf now s)) = p_stopout_times s"
  "p_daily_pnl (fst (check_circuit_breaker cf now s)) = p_daily_pnl s"
  "p_current_equity (fst (check_circuit_breaker cf now s)) = p_current_equity s"
  "p_daily_pnl (fst (check_pdt_limit cf now s)) = p_daily_pnl s"
  "p_current_equity (fst (check_pdt_limit cf now s)) = p_current_equity s"
  by (simp_all add: check_daily_loss_cap_def check_circuit_breaker_def check_pdt_limit_def Let_def)

section \<open>Halting\<close>

lemma psa_halt_halted [simp]: "p_system_state (fst (psa_halt s now r b)) = HALTED"
  by (simp add: psa_halt_def Let_def case_prod_beta)

lemma psa_halt_idem: "p_system_state s = HALTED \<Longrightarrow> psa_halt s now r b = (s, [])"
  by (simp add: psa_halt_def)

lemma psa_halt_hold:
  "p_system_state s \<noteq> HALTED \<Longrightarrow>
     p_anomaly_hold (fst (psa_halt s now r b)) \<and> p_halt_reason (fst (psa_halt s now r b)) = Some r"
  by (simp add: psa_halt_def Let_def case_prod_beta)

lemma psa_halt_publishes:
  "p_system_state s \<noteq> HALTED \<Longrightarrow>
     \<exists>st. set (snd (psa_halt s now r b)) \<supseteq> {Publish_Halt r st, Audit_Halt r, Audit_Breach b r}"
  by (auto simp: psa_halt_def Let_def case_prod_beta)

text \<open>
  The interface that the consensus wrapper uses: halting halts, and halting what is halted
  changes nothing and says nothing.
\<close>

locale supervisor =
  fixes halt :: "'s \<Rightarrow> 'r \<Rightarrow> 's \<times> 'o list"
    and halted :: "'s \<Rightarrow> bool"
  assumes halt_halted: "halted (fst (halt s r))"
    and halt_idem: "halted s \<Longrightarrow> halt s r = (s, [])"
begin

text \<open>A chain of halt requests: the first takes effect, the rest are silent.\<close>

definition halt_all :: "'s \<times> 'o list \<Rightarrow> 'r list \<Rightarrow> 's \<times> 'o list" where
  "halt_all so rs = foldl (\<lambda>(s, out) r. let (s', out') = halt s r in (s', out @ out')) so rs"

lemma halt_all_Nil: "halt_all so [] = so"
  by (simp add: halt_all_def)

lemma halt_all_Cons:
  "halt_all so (r # rs) = halt_all (fst (halt (fst so) r), snd so @ snd (halt (fst so) r)) rs"
  by (simp add: halt_all_def case_prod_beta)

lemma halt_all_halted: "halted s \<Longrightarrow> halt_all (s, out) rs = (s, out)"
  by (induction rs) (simp_all add: halt_all_def halt_idem)

lemma halt_all_first: "halt_all (s, out) (r # rs) = (fst (halt s r), out @ snd (halt s r))"
  using halt_all_halted [OF halt_halted [of s r], of "out @ snd (halt s r)" rs]
  by (simp add: halt_all_def case_prod_beta)

end

interpretation psa_sup: supervisor
    "\<lambda>s (now, why, breach). psa_halt s now why breach" "\<lambda>s. p_system_state s = HALTED"
  by unfold_locales (auto simp: psa_halt_idem)

section \<open>The invariant\<close>

text \<open>
  A halted system holds all trades and has a reason; the session machine keeps its own
  invariant; the rolling windows stay within their sizes.
\<close>

definition psa_inv :: "psa \<Rightarrow> bool" where
  "psa_inv s \<longleftrightarrow>
     (p_system_state s = HALTED \<longrightarrow> p_anomaly_hold s \<and> p_halt_reason s \<noteq> None) \<and>
     fsm_inv (p_fsm s) \<and>
     length (p_stopout_times s) \<le> 20 \<and> length (p_loss_window s) \<le> 100 \<and>
     0 \<le> p_open_positions s"

lemma psa_inv_trading_blocked:
  "psa_inv s \<Longrightarrow> p_system_state s = HALTED \<Longrightarrow> \<not> is_trading_allowed s now"
  by (simp add: psa_inv_def is_trading_allowed_def)

lemma psa_drive_inv [inv_intros]:
  assumes "psa_inv s" and "\<And>m cb. res = Inr (m, cb) \<Longrightarrow> fsm_inv m"
  shows "psa_inv (fst (psa_drive s res))"
  using assms by (auto simp: psa_inv_def psa_drive_def split: sum.splits option.splits prod.splits)

lemma fsm_halt_for_inv:
  "fsm_inv m \<Longrightarrow> fsm_halt_for b m r now = Inr (m', cb) \<Longrightarrow> fsm_inv m'"
  by (auto simp: fsm_halt_for_def fsm_helper_defs intro: transition_to_inv split: if_splits)

lemma fsm_auto_resume_inv: "fsm_inv m \<Longrightarrow> fsm_inv (fst (fsm_auto_resume m r now))"
  by (auto simp: fsm_auto_resume_def intro: transition_to_inv split: sum.splits prod.splits)

lemma psa_halt_inv [inv_intros]: "psa_inv s \<Longrightarrow> psa_inv (fst (psa_halt s now r b))"
proof (cases "p_system_state s = HALTED")
  case False
  assume "psa_inv s"
  then have "psa_inv (s\<lparr>p_system_state := HALTED, p_halt_reason := Some r, p_anomaly_hold := True\<rparr>)"
    by (simp add: psa_inv_def)
  then have "psa_inv (fst (psa_drive
      (s\<lparr>p_system_state := HALTED, p_halt_reason := Some r, p_anomaly_hold := True\<rparr>)
      (fsm_halt_for b (p_fsm s) r now)))"
    using \<open>psa_inv s\<close> by (intro psa_drive_inv) (auto simp: psa_inv_def intro: fsm_halt_for_inv)
  with False show ?thesis by (simp add: psa_halt_def Let_def case_prod_beta)
qed (simp add: psa_halt_idem)

lemma pause_cooldown_inv:
  "fsm_inv m \<Longrightarrow> pause_cooldown m r d now = Inr (m', rest) \<Longrightarrow> fsm_inv m'"
  by (auto simp: pause_cooldown_def intro: transition_to_inv split: sum.splits prod.splits)

lemma psa_pause_inv [inv_intros]:
  assumes "psa_inv s" shows "psa_inv (fst (psa_pause s now r d))"
proof -
  let ?s1 = "s\<lparr>p_system_state := PAUSED, p_pause_until := Some (now + seconds (of_int d))\<rparr>"
  have "psa_inv ?s1" using assms by (simp add: psa_inv_def)
  moreover have "psa_inv (fst (psa_drive ?s1 (Inr (m, cb))))"
    if "pause_cooldown (p_fsm s) r (of_int d) now = Inr (m, cb, rest)" for m cb rest
    using \<open>psa_inv ?s1\<close> that assms
    by (intro psa_drive_inv) (auto simp: psa_inv_def intro: pause_cooldown_inv)
  ultimately show ?thesis
    using assms by (auto simp: psa_pause_def Let_def case_prod_beta split: sum.split)
qed

lemma record_trade_inv [inv_intros]: "psa_inv s \<Longrightarrow> psa_inv (record_trade s now x)"
  by (auto simp: psa_inv_def record_trade_def Let_def length_push_bounded)

lemma checks_inv [inv_intros]:
  "psa_inv s \<Longrightarrow> psa_inv (fst (check_daily_loss_cap cf now s))"
  "psa_inv s \<Longrightarrow> psa_inv (fst (check_circuit_breaker cf now s))"
  "psa_inv s \<Longrightarrow> psa_inv (fst (check_pdt_limit cf now s))"
  by (simp_all add: check_daily_loss_cap_def check_circuit_breaker_def check_pdt_limit_def Let_def
      psa_halt_inv psa_pause_inv)

lemma psa_resume_inv [inv_intros]:
  assumes "psa_inv s" shows "psa_inv (fst (psa_handle_resume s now by))"
proof -
  let ?s1 = "s\<lparr>p_system_state := TRADING, p_halt_reason := None, p_anomaly_hold := False\<rparr>"
  have "psa_inv (fst (psa_drive ?s1 (human_resume (p_fsm s) by (''Human clearance by '' @ by) now)))"
    using assms
    by (intro psa_drive_inv) (auto simp: psa_inv_def human_resume_def intro: transition_to_inv)
  then show ?thesis
    using assms by (simp add: psa_handle_resume_def Let_def case_prod_beta)
qed

lemma psa_alert_inv [inv_intros]: "psa_inv s \<Longrightarrow> psa_inv (fst (psa_alert s now a r))"
proof -
  assume "psa_inv s"
  moreover from this have "psa_inv (s\<lparr>p_anomaly_hold := True\<rparr>)" by (simp add: psa_inv_def)
  ultimately show ?thesis by (simp add: psa_alert_def Let_def psa_halt_inv)
qed

lemma psa_process_inv [inv_intros]: "psa_inv s \<Longrightarrow> psa_inv (fst (psa_process cf s now msg))"
proof (cases msg)
  case (Msg_Daily_Pnl a b)
  assume "psa_inv s"
  then have "psa_inv (s\<lparr>p_daily_pnl := x, p_current_equity := y\<rparr>)" for x y
    by (simp add: psa_inv_def)
  then show ?thesis by (simp add: Msg_Daily_Pnl checks_inv)
next
  case Msg_Fill
  assume "psa_inv s"
  then show ?thesis by (simp add: Msg_Fill psa_inv_def)
qed (auto simp: psa_trade_closed_def psa_reconciliation_def split: option.splits intro!: inv_intros)

lemma psa_step_inv: "psa_inv s \<Longrightarrow> psa_inv (psa_step cf s te)"
proof -
  assume s: "psa_inv s"
  then have f: "fsm_inv (p_fsm s)" by (simp add: psa_inv_def)
  obtain now ev where te: "te = (now, ev)" by (cases te)
  show ?thesis
  proof (cases ev)
    case (Ev_Fsm_Auto_Resume r)
    with s fsm_auto_resume_inv [OF f, of r now] show ?thesis
      by (auto simp: te psa_step_def psa_fsm_auto_resume_def intro!: psa_drive_inv)
  next
    case Ev_Auto_Resume
    with s show ?thesis by (auto simp: te psa_step_def psa_auto_resume_def psa_inv_def Let_def)
  next
    case Ev_Session_Start
    with s f show ?thesis
      by (auto simp: te psa_step_def psa_session_start_def regime_ready_def
          intro!: psa_drive_inv intro: transition_to_inv)
  next
    case Ev_Data_Integrity_Cleared
    with s f show ?thesis
      by (auto simp: te psa_step_def data_integrity_cleared_def
          intro!: psa_drive_inv intro: transition_to_inv)
  qed (use s in \<open>auto simp: te psa_step_def psa_kill_switch_def intro!: inv_intros\<close>)
qed

interpretation psa: inv_machine "psa_step cf" psa_inv for cf
  by unfold_locales (rule psa_step_inv)

text \<open>A consistent stored state gives an invariant state after startup.\<close>

lemma psa_on_startup_inv:
  assumes "psa_on_startup cf (psa_init t0) now (st, why, hold) eq = Inr (s, out)"
    and "st = HALTED \<longrightarrow> hold \<and> why \<noteq> None"
  shows "psa_inv s"
proof -
  let ?s1 = "(psa_init t0)\<lparr>p_system_state := st, p_halt_reason := why, p_anomaly_hold := hold,
     p_starting_equity := cfg_starting_equity cf,
     p_current_equity := (case eq of None \<Rightarrow> cfg_starting_equity cf | Some e \<Rightarrow> e)\<rparr>"
  have i: "psa_inv ?s1" using assms(2) by (auto simp: psa_inv_def psa_init_def fsm_inv_init)
  from assms(1) obtain res where res: "boot_complete (fsm_init t0) now = Inr res"
    and s: "s = fst (psa_drive ?s1 (Inr res))"
    by (auto simp: psa_on_startup_def psa_init_def psa_then_def case_prod_beta split: sum.splits)
  have "psa_inv (fst (psa_drive ?s1 (Inr res)))"
    using res by (intro psa_drive_inv [OF i]) (auto simp: boot_complete_def intro: transition_to_inv fsm_inv_init)
  with s show ?thesis by simp
qed

section \<open>Staying halted\<close>

definition approved_resume :: "psa_event \<Rightarrow> bool" where
  "approved_resume ev \<longleftrightarrow>
     (\<exists>who. who \<noteq> [] \<and> ev = Ev_Message (Msg_System_State (Some ''resume'') (Some who)))"

lemma psa_pause_halted: "p_system_state s = HALTED \<Longrightarrow> psa_pause s now r d = (s, [])"
  by (simp add: psa_pause_def)

lemma checks_halted:
  assumes "p_system_state s = HALTED"
  shows "check_daily_loss_cap cf now s = (s, [])"
    and "check_circuit_breaker cf now s = (s, [])"
    and "check_pdt_limit cf now s = (s, [])"
  using assms
  by (simp_all add: check_daily_loss_cap_def check_circuit_breaker_def check_pdt_limit_def
      psa_then_def psa_halt_idem psa_pause_halted Let_def)

lemma psa_alert_halted:
  "p_system_state s = HALTED \<Longrightarrow> p_system_state (fst (psa_alert s now a r)) = HALTED"
  by (simp add: psa_alert_def Let_def psa_halt_idem)

lemma psa_process_halted:
  assumes "p_system_state s = HALTED" and "\<not> approved_resume (Ev_Message msg)"
  shows "p_system_state (fst (psa_process cf s now msg)) = HALTED"
proof (cases msg)
  case (Msg_System_State c who)
  with assms show ?thesis by (cases who) (auto simp: approved_resume_def)
qed (use assms in \<open>auto simp: psa_trade_closed_def psa_reconciliation_def checks_halted
    psa_alert_halted split: option.split\<close>)

section \<open>Not cleared for trading\<close>

text \<open>
  Before the data-integrity clearance the session machine can only wait or be halted by an
  anomaly; nothing the supervisor does by itself leaves these states.
\<close>

definition uncleared :: "psa \<Rightarrow> bool" where
  "uncleared s \<longleftrightarrow> fsm_state (p_fsm s) \<in> {WAITING_FOR_DATA_INTEGRITY, HALTED_ANOMALY}"

lemma uncleared_blocked: "uncleared s \<Longrightarrow> \<not> is_trading_allowed s now"
  by (auto simp: uncleared_def is_trading_allowed_def is_trading_permitted_def)

lemma uncleared_drive:
  assumes "uncleared s"
    and "\<And>m cb. res = Inr (m, cb) \<Longrightarrow> fsm_state m \<in> {WAITING_FOR_DATA_INTEGRITY, HALTED_ANOMALY}"
  shows "uncleared (fst (psa_drive s res))"
  using assms by (auto simp: uncleared_def psa_drive_def split: sum.splits option.splits prod.splits)

lemma uncleared_transition:
  assumes "fsm_state m \<in> {WAITING_FOR_DATA_INTEGRITY, HALTED_ANOMALY}"
    and "transition_to m new why who now = Inr (m', cb)"
    and "new = HALTED_ANOMALY \<or> new \<in> {HALTED_RISK, HALTED_RECONCILIATION, PAUSED_COOLDOWN}"
  shows "fsm_state m' \<in> {WAITING_FOR_DATA_INTEGRITY, HALTED_ANOMALY}"
  using assms transition_to_Inr [OF assms(2)] by auto

lemma fsm_halt_for_target:
  "\<exists>new \<in> {HALTED_RISK, HALTED_ANOMALY, HALTED_RECONCILIATION}.
     fsm_halt_for b m r now = transition_to m new r None now"
  unfolding fsm_halt_for_def halt_risk_def halt_anomaly_def halt_reconciliation_def
  by (simp only: bex_simps if_bool_eq_disj split: if_split) blast

lemma uncleared_fsm_halt_for:
  assumes "fsm_state m \<in> {WAITING_FOR_DATA_INTEGRITY, HALTED_ANOMALY}"
    and "fsm_halt_for b m r now = Inr (m', cb)"
  shows "fsm_state m' \<in> {WAITING_FOR_DATA_INTEGRITY, HALTED_ANOMALY}"
proof -
  from fsm_halt_for_target [of b m r now] assms(2) obtain new where
    "new \<in> {HALTED_RISK, HALTED_ANOMALY, HALTED_RECONCILIATION}"
    and "transition_to m new r None now = Inr (m', cb)"
    by metis
  then show ?thesis by (intro uncleared_transition [OF assms(1)]) auto
qed

lemma uncleared_halt: "uncleared s \<Longrightarrow> uncleared (fst (psa_halt s now r b))"
proof (cases "p_system_state s = HALTED")
  case False
  let ?s1 = "s\<lparr>p_system_state := HALTED, p_halt_reason := Some r, p_anomaly_hold := True\<rparr>"
  assume u: "uncleared s"
  have "uncleared (fst (psa_drive ?s1 (fsm_halt_for b (p_fsm s) r now)))"
  proof (rule uncleared_drive)
    show "uncleared ?s1" using u by (simp add: uncleared_def)
  qed (rule uncleared_fsm_halt_for [OF u [unfolded uncleared_def]])
  with False show ?thesis by (simp add: psa_halt_def Let_def case_prod_beta)
qed (simp add: psa_halt_idem)

lemma uncleared_pause:
  assumes "uncleared s" shows "uncleared (fst (psa_pause s now r d))"
proof -
  have "\<exists>e. pause_cooldown (p_fsm s) r (of_int d) now = Inl e"
    using assms transition_to_refused [of PAUSED_COOLDOWN "p_fsm s" r None now]
    by (auto simp: uncleared_def pause_cooldown_def)
  then show ?thesis
    using assms by (auto simp: psa_pause_def uncleared_def Let_def)
qed

lemma uncleared_checks:
  assumes "uncleared s"
  shows "uncleared (fst (check_daily_loss_cap cf now s))"
    and "uncleared (fst (check_circuit_breaker cf now s))"
    and "uncleared (fst (check_pdt_limit cf now s))"
  using assms
  by (simp_all add: check_daily_loss_cap_def check_circuit_breaker_def check_pdt_limit_def Let_def
      uncleared_halt uncleared_pause)

lemma uncleared_alert: "uncleared s \<Longrightarrow> uncleared (fst (psa_alert s now a r))"
proof -
  assume "uncleared s"
  moreover from this have "uncleared (s\<lparr>p_anomaly_hold := True\<rparr>)" by (simp add: uncleared_def)
  ultimately show ?thesis by (simp add: psa_alert_def Let_def uncleared_halt)
qed

lemma uncleared_process:
  assumes "uncleared s" and "\<not> approved_resume (Ev_Message msg)"
  shows "uncleared (fst (psa_process cf s now msg))"
proof (cases msg)
  case (Msg_System_State c who)
  with assms show ?thesis by (cases who) (auto simp: approved_resume_def)
next
  case (Msg_Daily_Pnl a b)
  have "uncleared (s\<lparr>p_daily_pnl := x, p_current_equity := y\<rparr>)" for x y
    using assms(1) by (simp add: uncleared_def)
  then show ?thesis by (simp add: Msg_Daily_Pnl uncleared_checks)
next
  case (Msg_Trade_Closed t)
  have "uncleared (record_trade s now x)" for x using assms(1) by (simp add: uncleared_def)
  with assms(1) show ?thesis
    by (auto simp: Msg_Trade_Closed psa_trade_closed_def uncleared_checks split: option.split)
next
  case Msg_Fill
  with assms(1) show ?thesis by (simp add: uncleared_def)
qed (use assms in \<open>auto simp: psa_reconciliation_def uncleared_alert\<close>)

lemma uncleared_step:
  assumes "uncleared s" and "\<not> approved_resume ev" and "ev \<noteq> Ev_Data_Integrity_Cleared"
  shows "uncleared (psa_step cf s (now, ev))"
proof (cases ev)
  case Ev_Session_Start
  with assms show ?thesis by (auto simp: psa_step_def psa_session_start_def uncleared_def)
next
  case (Ev_Fsm_Auto_Resume r)
  with assms show ?thesis
    by (auto simp: psa_step_def psa_fsm_auto_resume_def fsm_auto_resume_def uncleared_def psa_drive_def)
next
  case Ev_Auto_Resume
  with assms show ?thesis by (auto simp: psa_step_def psa_auto_resume_def uncleared_def Let_def)
qed (use assms in \<open>auto simp: psa_step_def psa_kill_switch_def uncleared_halt uncleared_process\<close>)

lemma uncleared_run:
  assumes "uncleared s" and "\<forall>te \<in> set tes. \<not> approved_resume (snd te) \<and> snd te \<noteq> Ev_Data_Integrity_Cleared"
  shows "uncleared (foldl (psa_step cf) s tes)"
  using assms by (induction tes arbitrary: s) (auto simp: uncleared_step)

section \<open>The feedback of the supervisor's own report\<close>

text \<open>
  The supervisor subscribes to \<open>DAILY_PNL\<close> and publishes its own report there, so the bus
  delivers each report back to it: a closed trade together with the delivery of what its
  handler published.
\<close>

definition redeliver :: "psa_config \<Rightarrow> timestamp \<Rightarrow> psa \<Rightarrow> psa_effect \<Rightarrow> psa" where
  "redeliver cf now s e =
     (case e of
        Publish_Daily_Pnl pnl eq _ \<Rightarrow> fst (psa_process cf s now (Msg_Daily_Pnl (Some pnl) (Some eq)))
      | _ \<Rightarrow> s)"

definition trade_round_trip :: "psa_config \<Rightarrow> psa \<Rightarrow> timestamp \<times> pyfloat \<Rightarrow> psa" where
  "trade_round_trip cf s tx =
     (let (s', out) = psa_process cf s (fst tx) (Msg_Trade_Closed (Some (snd tx)))
      in foldl (redeliver cf (fst tx)) s' out)"

definition is_report :: "psa_effect \<Rightarrow> bool" where
  "is_report e = (case e of Publish_Daily_Pnl _ _ _ \<Rightarrow> True | _ \<Rightarrow> False)"

lemma no_report_redeliver: "\<forall>e \<in> set out. \<not> is_report e \<Longrightarrow> foldl (redeliver cf now) s out = s"
  by (induction out) (auto simp: redeliver_def is_report_def split: psa_effect.splits)

lemma no_report_drive: "e \<in> set (snd (psa_drive s res)) \<Longrightarrow> \<not> is_report e"
  using psa_drive_effects [of s res] by (auto simp: is_report_def)

lemma no_report_halt: "e \<in> set (snd (psa_halt s now r b)) \<Longrightarrow> \<not> is_report e"
  by (auto simp: psa_halt_def Let_def case_prod_beta persist_state_def is_report_def
      split: if_splits dest: no_report_drive [unfolded is_report_def])

lemma no_report_pause: "e \<in> set (snd (psa_pause s now r d)) \<Longrightarrow> \<not> is_report e"
  by (auto simp: psa_pause_def Let_def case_prod_beta persist_state_def is_report_def
      split: if_splits sum.splits dest: no_report_drive [unfolded is_report_def])

lemma no_report_checks:
  "\<forall>e \<in> set (snd (check_daily_loss_cap cf now s)). \<not> is_report e"
  "\<forall>e \<in> set (snd (check_circuit_breaker cf now s)). \<not> is_report e"
  "\<forall>e \<in> set (snd (check_pdt_limit cf now s)). \<not> is_report e"
  by (auto simp: check_daily_loss_cap_def check_circuit_breaker_def check_pdt_limit_def Let_def
      split: if_splits dest: no_report_halt no_report_pause)

lemma trade_round_trip_money:
  "p_daily_pnl (trade_round_trip cf s (now, x)) = p_daily_pnl s + x"
  "p_current_equity (trade_round_trip cf s (now, x)) = p_current_equity s + p_daily_pnl s + x"
proof -
  let ?r = "check_daily_loss_cap cf now (record_trade s now x)"
  let ?r' = "psa_then (psa_then ?r (check_circuit_breaker cf now)) (check_pdt_limit cf now)"
  have "foldl (redeliver cf now) s' (snd ?r') = s'" for s'
    by (rule no_report_redeliver) (use no_report_checks in auto)
  then have "trade_round_trip cf s (now, x) =
      redeliver cf now (fst ?r') (Publish_Daily_Pnl (p_daily_pnl (fst ?r'))
        (p_current_equity (fst ?r') + p_daily_pnl (fst ?r')) (p_pdt_trades (fst ?r')))"
    unfolding trade_round_trip_def psa_process.simps psa_trade_closed_def option.case
    by (simp add: redeliver_def case_prod_beta)
  then show "p_daily_pnl (trade_round_trip cf s (now, x)) = p_daily_pnl s + x"
    and "p_current_equity (trade_round_trip cf s (now, x)) = p_current_equity s + p_daily_pnl s + x"
    by (simp_all add: redeliver_def)
qed

section \<open>Blocked at an instant\<close>

definition blocked_at :: "timestamp \<Rightarrow> psa \<Rightarrow> bool" where
  "blocked_at now s \<longleftrightarrow>
     p_system_state s = HALTED \<and> p_anomaly_hold s \<or>
     p_system_state s = PAUSED \<and> (\<exists>u. p_pause_until s = Some u \<and> now < u)"

lemma blocked_not_allowed: "blocked_at now s \<Longrightarrow> \<not> is_trading_allowed s now"
  by (auto simp: blocked_at_def is_trading_allowed_def)

lemma halt_blocks: "p_system_state s \<noteq> HALTED \<Longrightarrow> blocked_at now (fst (psa_halt s now r b))"
  by (simp add: blocked_at_def psa_halt_hold)

lemma blocked_halt: "blocked_at now s \<Longrightarrow> blocked_at now (fst (psa_halt s now r b))"
  by (cases "p_system_state s = HALTED") (simp_all add: halt_blocks psa_halt_idem)

lemma blocked_pause: "blocked_at now s \<Longrightarrow> psa_pause s now r d = (s, [])"
  by (auto simp: blocked_at_def psa_pause_def)

lemma pause_blocks:
  assumes "p_system_state s = TRADING" and "0 < d"
  shows "blocked_at now (fst (psa_pause s now r d))"
proof -
  have "0 < seconds (of_int d)" using assms(2) by (simp add: seconds_def)
  with assms(1) show ?thesis
    by (simp add: blocked_at_def psa_pause_def Let_def case_prod_beta split: sum.split)
qed

lemma blocked_checks:
  assumes "blocked_at now s"
  shows "blocked_at now (fst (check_circuit_breaker cf now s))"
    and "blocked_at now (fst (check_pdt_limit cf now s))"
  using assms
  by (simp_all add: check_circuit_breaker_def check_pdt_limit_def Let_def blocked_halt blocked_pause)

lemma circuit_breaker_blocks:
  assumes "p_system_state s = TRADING" and "0 < cfg_cb_pause cf"
    and "cfg_cb_threshold cf \<le> int (length (recent_stopouts cf now s))"
  shows "blocked_at now (fst (check_circuit_breaker cf now s))"
  using pause_blocks [OF assms(1,2)] assms(3)
  by (simp add: check_circuit_breaker_def blocked_pause)

section \<open>Properties\<close>

text \<open>C2. Safe mode: from any startup on a consistent stored state (a stored halt has its hold
  and its reason), after any sequence of messages, timers and bus callbacks, a halted
  supervisor has a halt reason and refuses every trade at every instant.\<close>

theorem halted_never_trades:
  assumes "psa_on_startup cf (psa_init t0) now (st, why, hold) eq = Inr (s, out)"
    and "st = HALTED \<longrightarrow> hold \<and> why \<noteq> None"
    and "p_system_state (foldl (psa_step cf) s evs) = HALTED"
  shows "p_halt_reason (foldl (psa_step cf) s evs) \<noteq> None \<and>
         \<not> is_trading_allowed (foldl (psa_step cf) s evs) later"
  using psa.run_inv [OF psa_on_startup_inv [OF assms(1,2)], of cf evs] assms(3)
  by (auto simp: psa_inv_trading_blocked) (simp add: psa_inv_def)

lemma startup_example:
  "\<exists>s out. psa_on_startup psa_defaults (psa_init 0) 1 (st, why, hold) None = Inr (s, out) \<and>
     p_system_state s = st"
proof -
  obtain m cb where "boot_complete (fsm_init 0) 1 = Inr (m, cb)"
    using transition_to_ok [of WAITING_FOR_DATA_INTEGRITY "fsm_init 0"]
    by (fastforce simp: boot_complete_def fsm_init_def is_halted_def human_approval_required_def)
  then show ?thesis
    by (simp add: psa_on_startup_def psa_init_def psa_then_def case_prod_beta Let_def)
qed

theorem halted_never_trades_witness:
  "\<exists>s out. psa_on_startup psa_defaults (psa_init 0) 1 (HALTED, Some ''loss'', True) None = Inr (s, out) \<and>
     p_system_state (foldl (psa_step psa_defaults) s [(5, Ev_Auto_Resume)]) = HALTED \<and>
     \<not> is_trading_allowed (foldl (psa_step psa_defaults) s [(5, Ev_Auto_Resume)]) 9"
proof -
  obtain s out where
    s: "psa_on_startup psa_defaults (psa_init 0) 1 (HALTED, Some ''loss'', True) None = Inr (s, out)"
    and "p_system_state s = HALTED"
    using startup_example by blast
  then have h: "p_system_state (foldl (psa_step psa_defaults) s [(5, Ev_Auto_Resume)]) = HALTED"
    by (simp add: psa_step_def psa_auto_resume_def)
  show ?thesis using s h halted_never_trades [OF s _ h, of 9] by auto
qed

text \<open>Whatever happens to a halted supervisor, it stays halted, unless the event is a
  \<open>SYSTEM_STATE\<close> resume command that names a non-empty approver.\<close>

theorem halt_needs_approved_resume:
  assumes "p_system_state s = HALTED" and "\<not> approved_resume ev"
  shows "p_system_state (psa_step cf s (now, ev)) = HALTED"
proof (cases ev)
  case (Ev_Message m)
  with assms show ?thesis by (simp add: psa_step_def psa_process_halted)
qed (use assms in \<open>auto simp: psa_step_def psa_session_start_def psa_kill_switch_def
    psa_fsm_auto_resume_def psa_auto_resume_def\<close>)

theorem halt_needs_approved_resume_witness:
  "p_system_state (psa_step psa_defaults ((psa_init 0)\<lparr>p_system_state := HALTED\<rparr>)
     (5, Ev_Message (Msg_System_State (Some ''resume'') (Some [])))) = HALTED"
  by (rule halt_needs_approved_resume) (simp_all add: approved_resume_def)

text \<open>The daily loss cap: a closed trade that brings the day's P/L to or below the allowed
  loss halts a supervisor that is not halted, in the same handler: trading is refused from
  then on, and the halt command and the breach record are published and audited.\<close>

theorem loss_cap_halts:
  assumes "p_system_state s \<noteq> HALTED"
    and "p_daily_pnl s + x \<le> - (p_current_equity s * cfg_daily_max_loss_pct cf)"
  shows "p_system_state (fst (psa_process cf s now (Msg_Trade_Closed (Some x)))) = HALTED \<and>
         \<not> is_trading_allowed (fst (psa_process cf s now (Msg_Trade_Closed (Some x)))) later \<and>
         (\<exists>st. {Publish_Halt ''Daily loss cap reached'' st,
                Audit_Breach ''daily_loss_cap'' ''Daily loss cap reached''}
            \<subseteq> set (snd (psa_process cf s now (Msg_Trade_Closed (Some x)))))"
proof -
  let ?h = "psa_halt (record_trade s now x) now ''Daily loss cap reached'' ''daily_loss_cap''"
  have cap: "check_daily_loss_cap cf now (record_trade s now x) = ?h"
    using assms(2) by (simp add: check_daily_loss_cap_def)
  have f: "fst (psa_process cf s now (Msg_Trade_Closed (Some x))) = fst ?h"
    by (simp add: psa_trade_closed_def cap checks_halted)
  have o: "set (snd ?h) \<subseteq> set (snd (psa_process cf s now (Msg_Trade_Closed (Some x))))"
    by (auto simp: psa_trade_closed_def cap)
  from assms(1) have n: "p_system_state (record_trade s now x) \<noteq> HALTED" by simp
  obtain st where "{Publish_Halt ''Daily loss cap reached'' st,
      Audit_Breach ''daily_loss_cap'' ''Daily loss cap reached''} \<subseteq> set (snd ?h)"
    using psa_halt_publishes [OF n, where now = now and r = "''Daily loss cap reached''"
        and b = "''daily_loss_cap''"] by auto
  with o have "{Publish_Halt ''Daily loss cap reached'' st,
      Audit_Breach ''daily_loss_cap'' ''Daily loss cap reached''}
      \<subseteq> set (snd (psa_process cf s now (Msg_Trade_Closed (Some x))))"
    by (rule order_trans [rotated])
  moreover have "\<not> is_trading_allowed (fst ?h) later"
    using psa_halt_hold [OF n] by (simp add: is_trading_allowed_def)
  ultimately show ?thesis unfolding f by (metis psa_halt_halted)
qed

theorem loss_cap_halts_witness:
  "p_system_state (fst (psa_process psa_defaults
      ((psa_init 0)\<lparr>p_system_state := TRADING, p_current_equity := 30000, p_daily_pnl := -200\<rparr>) 7
      (Msg_Trade_Closed (Some (-400))))) = HALTED"
  using loss_cap_halts [of "(psa_init 0)\<lparr>p_system_state := TRADING, p_current_equity := 30000,
      p_daily_pnl := -200\<rparr>" "-400" psa_defaults 7]
  by (simp add: psa_defaults_def)

text \<open>The stopout circuit breaker: when the trades closed at a loss within the window reach
  the threshold, a trading supervisor is paused or halted by the same handler, and refuses
  trades at that instant.\<close>

theorem stopouts_block_trading:
  assumes "p_system_state s = TRADING" and "0 < cfg_cb_pause cf"
    and "cfg_cb_threshold cf \<le> int (length (recent_stopouts cf now (record_trade s now x)))"
  shows "p_system_state (fst (psa_process cf s now (Msg_Trade_Closed (Some x)))) \<in> {PAUSED, HALTED} \<and>
         \<not> is_trading_allowed (fst (psa_process cf s now (Msg_Trade_Closed (Some x)))) now"
proof -
  let ?s = "record_trade s now x"
  have "blocked_at now (fst (check_circuit_breaker cf now (fst (check_daily_loss_cap cf now ?s))))"
  proof (cases "p_daily_pnl ?s \<le> - (p_current_equity ?s * cfg_daily_max_loss_pct cf)")
    case True
    then show ?thesis
      using assms(1) by (intro blocked_checks) (simp add: check_daily_loss_cap_def halt_blocks)
  next
    case False
    then show ?thesis
      using circuit_breaker_blocks [of ?s cf now] assms by (simp add: check_daily_loss_cap_def)
  qed
  then have "blocked_at now (fst (psa_process cf s now (Msg_Trade_Closed (Some x))))"
    by (simp add: psa_trade_closed_def blocked_checks)
  then show ?thesis using blocked_not_allowed by (auto simp: blocked_at_def)
qed

theorem stopouts_block_trading_witness:
  "let s = (psa_init 0)\<lparr>p_system_state := TRADING, p_current_equity := 30000,
         p_stopout_times := [9000000, 20000000]\<rparr>
   in length (recent_stopouts psa_defaults 60000000 (record_trade s 60000000 (-1))) = 3 \<and>
      \<not> is_trading_allowed (fst (psa_process psa_defaults s 60000000 (Msg_Trade_Closed (Some (-1))))) 60000000"
proof -
  let ?s = "(psa_init 0)\<lparr>p_system_state := TRADING, p_current_equity := 30000,
         p_stopout_times := [9000000, 20000000]\<rparr>"
  have n: "length (recent_stopouts psa_defaults 60000000 (record_trade ?s 60000000 (-1))) = 3"
    by (simp add: recent_stopouts_def record_trade_def psa_defaults_def push_bounded_def seconds_def)
  then show ?thesis
    using stopouts_block_trading [of ?s psa_defaults 60000000 "-1"]
    by (simp add: psa_defaults_def)
qed

text \<open>The supervisor hears its own P/L report: a closed trade of P/L \<open>a\<close> and then one of
  \<open>b\<close>, each with the delivery of its own report, leave the day's P/L right but move the current
  equity by the P/L before the trades twice, by \<open>a\<close> twice and by \<open>b\<close> once.\<close>

theorem own_report_double_counts:
  "p_daily_pnl (foldl (trade_round_trip cf) s [(t1, a), (t2, b)]) = p_daily_pnl s + a + b \<and>
   p_current_equity (foldl (trade_round_trip cf) s [(t1, a), (t2, b)]) =
     p_current_equity s + 2 * p_daily_pnl s + 2 * a + b"
  by (simp add: trade_round_trip_money)

text \<open>C29. Clearance: from startup, as long as the data-integrity clearance has not been given
  and no approved resume arrives, no sequence of events makes the supervisor allow a trade,
  whatever the stored state said.\<close>

theorem no_trading_before_clearance:
  assumes "psa_on_startup cf (psa_init t0) now stored eq = Inr (s, out)"
    and "\<forall>te \<in> set tes. \<not> approved_resume (snd te) \<and> snd te \<noteq> Ev_Data_Integrity_Cleared"
  shows "\<not> is_trading_allowed (foldl (psa_step cf) s tes) later"
proof -
  obtain m cb where m: "boot_complete (fsm_init t0) now = Inr (m, Some cb)"
    and st: "fsm_state m = WAITING_FOR_DATA_INTEGRITY"
    using transition_to_ok [of WAITING_FOR_DATA_INTEGRITY "fsm_init t0"]
    by (fastforce simp: boot_complete_def fsm_init_def is_halted_def human_approval_required_def)
  from assms(1) have "p_fsm s = m"
    by (auto simp: psa_on_startup_def psa_init_def m psa_then_def psa_drive_def case_prod_beta
        split: prod.splits)
  with st have "uncleared s" by (simp add: uncleared_def)
  from uncleared_blocked [OF uncleared_run [OF this assms(2)]] show ?thesis .
qed

theorem no_trading_before_clearance_witness:
  "\<exists>s out. psa_on_startup psa_defaults (psa_init 0) 1 (TRADING, None, False) None = Inr (s, out) \<and>
     \<not> is_trading_allowed (foldl (psa_step psa_defaults) s [(5, Ev_Session_Start), (6, Ev_Bus_Failure)]) 9"
proof -
  obtain s out where
    s: "psa_on_startup psa_defaults (psa_init 0) 1 (TRADING, None, False) None = Inr (s, out)"
    using startup_example by blast
  show ?thesis
    using s no_trading_before_clearance [OF s, of "[(5, Ev_Session_Start), (6, Ev_Bus_Failure)]"]
    by (auto simp: approved_resume_def)
qed

end
