(* ===== verification/Raft_PSA.thy ===== *)
theory Raft_PSA
  imports Raft Supervisor
begin

text \<open>
  The consensus wrapper around the supervisor (class \<open>RaftPSA\<close> of \<open>infrastructure/raft.py\<close>):
  \<open>propose_halt\<close> and \<open>propose_resume\<close> put a command in the log and act when it is committed,
  and every node's \<open>on_commit\<close> is the wrapper's own \<open>_on_commit\<close>, so one committed command
  reaches the supervisor once per node that applies it and once more from the proposer.
\<close>

section \<open>Commands\<close>

datatype raft_command =
    Cmd_Halt string string
  | Cmd_Resume string

text \<open>
  \<open>getattr(self._psa, "_resume", None) or getattr(self._psa, "_unpause", None)\<close>: the
  supervisor class has neither method (its methods are \<open>_handle_resume\<close> and \<open>_auto_resume\<close>),
  so the function found is \<open>None\<close> and the branch does nothing.
\<close>

definition psa_methods :: "string list" where
  "psa_methods = [''_halt'', ''_pause'', ''_auto_resume'', ''_handle_resume'',
     ''_handle_psa_alert'', ''_handle_reconciliation'', ''_handle_trade_closed'',
     ''_check_daily_loss_cap'', ''_check_circuit_breaker'', ''_check_pdt_limit'',
     ''_on_fsm_transition'', ''_on_session_start'', ''_on_session_end'', ''_on_kill_switch'',
     ''_persist_state'', ''process'', ''on_startup'']"

definition find_resume_fn :: "string option" where
  "find_resume_fn = find (\<lambda>name. name \<in> set psa_methods) [''_resume'', ''_unpause'']"

definition raft_resume :: "psa \<Rightarrow> timestamp \<Rightarrow> string \<Rightarrow> psa_result" where
  "raft_resume s now approved_by =
     (case find_resume_fn of
        None \<Rightarrow> (s, [])
      | Some _ \<Rightarrow> psa_handle_resume s now approved_by)"

definition raft_on_commit :: "timestamp \<Rightarrow> psa \<Rightarrow> raft_command log_entry \<Rightarrow> psa_result" where
  "raft_on_commit now s entry =
     (case le_command entry of
        Cmd_Halt why breach \<Rightarrow> psa_halt s now why breach
      | Cmd_Resume by \<Rightarrow> raft_resume s now by)"

section \<open>Proposals\<close>

text \<open>
  The calls of \<open>on_commit\<close> that a step of the cluster makes: the peers in their order,
  then the leader.
\<close>

definition commit_order :: "'c cluster \<Rightarrow> nat list" where
  "commit_order c = (case get_leader c of None \<Rightarrow> node_ids | Some i \<Rightarrow> peers i @ [i])"

definition new_commits :: "'c cluster \<Rightarrow> 'c cluster \<Rightarrow> 'c log_entry list" where
  "new_commits c c' =
     concat (map (\<lambda>i. drop (length (rn_applied (c i))) (rn_applied (c' i))) (commit_order c))"

definition run_commits :: "timestamp \<Rightarrow> raft_command log_entry list \<Rightarrow> psa \<Rightarrow> psa_result" where
  "run_commits now es s = foldl (\<lambda>r e. psa_then r (\<lambda>s. raft_on_commit now s e)) (s, []) es"

text \<open>
  A proposal with up to three attempts, given by the peers that answer each of them, and
  nothing else touching the cluster meanwhile.
\<close>

definition raft_propose ::
  "timestamp \<Rightarrow> nat set list \<Rightarrow> raft_command \<Rightarrow> (psa \<Rightarrow> psa_result)
   \<Rightarrow> raft_command cluster \<times> psa \<Rightarrow> raft_command cluster \<times> psa_result" where
  "raft_propose now oks cmd action cs =
     (let (c, s) = cs;
          (c', committed) = cluster_propose cmd now (map (\<lambda>ok. (ok, \<lambda>c. c)) oks) c;
          r = run_commits now (new_commits c c') s
      in (c', if committed then psa_then r action else r))"

definition propose_halt where
  "propose_halt now oks why breach cs =
     raft_propose now oks (Cmd_Halt why breach) (\<lambda>s. psa_halt s now why breach) cs"

definition propose_resume where
  "propose_resume now oks by cs =
     raft_propose now oks (Cmd_Resume by) (\<lambda>s. raft_resume s now by) cs"

section \<open>One committed halt is one halt\<close>

lemma run_commits_halt:
  assumes "\<And>e. e \<in> set es \<Longrightarrow> le_command e = Cmd_Halt why breach"
  shows "run_commits now es s = psa_sup.halt_all (s, []) (map (\<lambda>_. (now, why, breach)) es)"
proof -
  have "foldl (\<lambda>r e. psa_then r (\<lambda>s. raft_on_commit now s e)) r es =
      psa_sup.halt_all r (map (\<lambda>_. (now, why, breach)) es)" for r
    using assms
  proof (induction es arbitrary: r)
    case Nil
    then show ?case by (simp add: psa_sup.halt_all_Nil)
  next
    case (Cons e es)
    have step: "psa_then r (\<lambda>s. raft_on_commit now s e) =
        (fst (psa_halt (fst r) now why breach), snd r @ snd (psa_halt (fst r) now why breach))"
      using Cons.prems [of e] by (simp add: psa_then_def raft_on_commit_def case_prod_beta)
    have "foldl (\<lambda>r e. psa_then r (\<lambda>s. raft_on_commit now s e)) r (e # es) =
        psa_sup.halt_all (psa_then r (\<lambda>s. raft_on_commit now s e)) (map (\<lambda>_. (now, why, breach)) es)"
      using Cons.IH Cons.prems by simp
    also have "\<dots> = psa_sup.halt_all r (map (\<lambda>_. (now, why, breach)) (e # es))"
      by (simp only: list.map psa_sup.halt_all_Cons step prod.case)
    finally show ?case .
  qed
  then show ?thesis by (simp add: run_commits_def)
qed

lemma halt_all_then_halt:
  "psa_then (psa_sup.halt_all (s, []) (map (\<lambda>_. (now, why, breach)) es))
      (\<lambda>s. psa_halt s now why breach) = psa_halt s now why breach"
proof (cases es)
  case Nil
  show ?thesis
    unfolding Nil list.map psa_sup.halt_all_Nil by (simp add: psa_then_def case_prod_beta)
next
  case (Cons e es')
  show ?thesis
    unfolding Cons list.map psa_sup.halt_all_first
    by (simp add: psa_then_def psa_halt_idem case_prod_beta prod_eq_iff)
qed

lemma raft_resume_nothing [simp]: "raft_resume s now by = (s, [])"
  by (simp add: raft_resume_def find_resume_fn_def psa_methods_def)

lemma run_commits_resume:
  assumes "\<And>e. e \<in> set es \<Longrightarrow> \<exists>by. le_command e = Cmd_Resume by"
  shows "run_commits now es s = (s, [])"
  unfolding run_commits_def using assms
proof (induction es)
  case (Cons e es)
  from Cons.prems [of e] obtain ap where "le_command e = Cmd_Resume ap" by auto
  with Cons show ?case by (simp add: psa_then_def raft_on_commit_def)
qed simp

text \<open>In a synchronised cluster with a leader, the first attempt commits at every node.\<close>

lemma cluster_propose_calm:
  assumes sync: "in_sync c" and lead: "get_leader c = Some i"
  shows "snd (cluster_propose cmd now ((UNIV, rest) # atts) c)"
    and "\<forall>e \<in> set (new_commits c (fst (cluster_propose cmd now ((UNIV, rest) # atts) c))).
           le_command e = cmd"
    and "length (new_commits c (fst (cluster_propose cmd now ((UNIV, rest) # atts) c))) = 3"
proof -
  from sync obtain t es where s: "\<And>j. j \<in> set node_ids \<Longrightarrow> synced t es (c j)"
    by (auto simp: in_sync_def)
  from get_leader_Some [OF lead] have i: "i \<in> set node_ids" and l: "is_leader (c i)" by auto
  let ?r = "node_propose i cmd UNIV now c"
  have com: "snd ?r" by (rule calm_propose(1) [where c = c and t = t and es = es and i = i, OF i s l])
  then have eq: "cluster_propose cmd now ((UNIV, rest) # atts) c = (fst ?r, True)"
    by (simp add: lead case_prod_beta)
  have drop: "drop (length (rn_applied (c j))) (rn_applied (fst ?r j)) = [new_entry (c i) cmd]"
    if "j \<in> set node_ids" for j
    using s [OF that] calm_propose(2) [where c = c and t = t and es = es and i = i and cmd = cmd and now = now, OF i s l that] by (simp add: synced_def)
  obtain a b where ab: "peers i = [a, b]" "set node_ids = {i, a, b}"
    using peers_cases [OF i] by metis
  have commits: "new_commits c (fst ?r) = replicate 3 (new_entry (c i) cmd)"
    using drop [of i] drop [of a] drop [of b] ab
    by (simp add: new_commits_def commit_order_def lead numeral_3_eq_3)
  show "snd (cluster_propose cmd now ((UNIV, rest) # atts) c)" unfolding eq by simp
  show "\<forall>e \<in> set (new_commits c (fst (cluster_propose cmd now ((UNIV, rest) # atts) c))).
      le_command e = cmd"
    unfolding eq by (simp add: commits new_entry_def)
  show "length (new_commits c (fst (cluster_propose cmd now ((UNIV, rest) # atts) c))) = 3"
    unfolding eq by (simp add: commits)
qed

lemma raft_propose_calm:
  fixes cmd action
  assumes "in_sync c" and "get_leader c = Some i"
  obtains es where "\<And>e. e \<in> set es \<Longrightarrow> le_command e = cmd" and "length es = 3"
    and "snd (raft_propose now (UNIV # oks) cmd action (c, s)) = psa_then (run_commits now es s) action"
proof -
  let ?atts = "map (\<lambda>ok. (ok, \<lambda>c. c)) oks ::
    (nat set \<times> (raft_command cluster \<Rightarrow> raft_command cluster)) list"
  let ?p = "cluster_propose cmd now ((UNIV, \<lambda>c. c) # ?atts) c"
  note calm = cluster_propose_calm [OF assms, of cmd now "\<lambda>c. c" ?atts]
  have "raft_propose now (UNIV # oks) cmd action (c, s) =
      (let (c', committed) = ?p; r = run_commits now (new_commits c c') s
       in (c', if committed then psa_then r action else r))"
    unfolding raft_propose_def by (simp only: prod.case Let_def list.map)
  then have "snd (raft_propose now (UNIV # oks) cmd action (c, s)) =
      psa_then (run_commits now (new_commits c (fst ?p)) s) action"
    using calm(1) by (cases ?p) (simp only: Let_def prod.case fst_conv snd_conv if_True)
  with calm(2,3) that show ?thesis by blast
qed

section \<open>Properties\<close>

text \<open>C30. A halt proposed through a synchronised cluster that has a leader takes effect
  exactly once: although every node's \<open>on_commit\<close> and then the proposer call \<open>_halt\<close>, the
  supervisor's final state and everything it publishes, audits and persists are those of one
  call of \<open>_halt\<close>.\<close>

theorem committed_halt_is_one_halt:
  assumes "in_sync c" and "get_leader c = Some i"
  shows "snd (propose_halt now (UNIV # oks) why breach (c, s)) = psa_halt s now why breach"
proof -
  obtain es where es: "\<And>e. e \<in> set es \<Longrightarrow> le_command e = Cmd_Halt why breach"
    and eq: "snd (propose_halt now (UNIV # oks) why breach (c, s)) =
      psa_then (run_commits now es s) (\<lambda>s. psa_halt s now why breach)"
    unfolding propose_halt_def using raft_propose_calm [OF assms] by metis
  have "run_commits now es s = psa_sup.halt_all (s, []) (map (\<lambda>_. (now, why, breach)) es)"
    by (rule run_commits_halt) (use es in blast)
  then show ?thesis unfolding eq by (simp only: halt_all_then_halt)
qed

theorem committed_halt_is_one_halt_witness:
  "let c = foldl calm_step (cluster_start 0) [(1, Elect 2)] :: raft_command cluster;
       s = psa_init 0
   in get_leader c = Some 2 \<and>
      snd (propose_halt 7 [UNIV] ''r'' ''daily_loss_cap'' (c, s)) =
        psa_halt s 7 ''r'' ''daily_loss_cap''"
proof -
  let ?c = "foldl calm_step (cluster_start 0) [(1, Elect 2)] :: raft_command cluster"
  have sync: "in_sync ?c" by (rule calm.run_inv) (rule cluster_start_in_sync)
  have lead: "get_leader ?c = Some 2"
    by (rule first_election(3) [OF _ refl]) (simp add: node_ids_def)
  show ?thesis
    unfolding Let_def
    using lead committed_halt_is_one_halt [OF sync lead, of 7 "[]" "''r''" "''daily_loss_cap''" "psa_init 0"]
    by blast
qed

text \<open>A resume proposed through the cluster never reaches the supervisor, committed or
  not, whatever commits it causes: the supervisor has neither of the two methods the wrapper
  looks for, so a committed resume leaves a halted supervisor halted.\<close>

theorem committed_resume_is_dropped:
  assumes "in_sync c" and "get_leader c = Some i"
  shows "snd (propose_resume now (UNIV # oks) who (c, s)) = (s, [])"
proof -
  obtain es where es: "\<And>e. e \<in> set es \<Longrightarrow> le_command e = Cmd_Resume who"
    and eq: "snd (propose_resume now (UNIV # oks) who (c, s)) =
      psa_then (run_commits now es s) (\<lambda>s. raft_resume s now who)"
    unfolding propose_resume_def using raft_propose_calm [OF assms] by metis
  have "run_commits now es s = (s, [])" by (rule run_commits_resume) (use es in blast)
  with eq show ?thesis by (simp add: psa_then_def)
qed

theorem committed_resume_is_dropped_witness:
  "let c = foldl calm_step (cluster_start 0) [(1, Elect 0)] :: raft_command cluster;
       s = fst (psa_halt (psa_init 0) 3 ''r'' ''kill_switch'')
   in get_leader c = Some 0 \<and> p_system_state s = HALTED \<and>
      snd (propose_resume 7 [UNIV] ''operator'' (c, s)) = (s, [])"
proof -
  let ?c = "foldl calm_step (cluster_start 0) [(1, Elect 0)] :: raft_command cluster"
  have sync: "in_sync ?c" by (rule calm.run_inv) (rule cluster_start_in_sync)
  have lead: "get_leader ?c = Some 0"
    by (rule first_election(3) [OF _ refl]) (simp add: node_ids_def)
  show ?thesis
    unfolding Let_def
    using lead committed_resume_is_dropped [OF sync lead, of 7 "[]" "''operator''"]
    by (simp add: psa_halt_halted)
qed

end
