(* ===== verification/Models.thy ===== *)
theory Models
  imports Enums
begin

text \<open>
  The data models of \<open>core/models.py\<close> that the modelled components read, one record per
  class with the class's fields, and the properties computed from them. Generated
  identifiers are strings, timestamps are the model's clock values.
\<close>

section \<open>Symbols\<close>

record symbol_classification =
  sc_symbol :: symbol
  sc_approved :: bool
  sc_float_shares_million :: "pyfloat option"
  sc_avg_daily_volume :: "int option"
  sc_spread_tier :: "string option"
  sc_sector :: "string option"
  sc_catalyst :: "string option"
  sc_news_sensitive :: bool
  sc_borrow_restricted :: bool
  sc_halt_prone :: bool
  sc_reject_reason :: "string option"
  sc_classified_at :: timestamp

record universe_snapshot =
  u_session_date :: string
  u_symbols :: "symbol_classification list"
  u_generated_at :: timestamp

definition approved_symbols :: "universe_snapshot \<Rightarrow> symbol list" where
  "approved_symbols u = map sc_symbol (filter sc_approved (u_symbols u))"

section \<open>Regime\<close>

record regime_assessment =
  ra_label :: regime_label
  ra_vix_level :: "pyfloat option"
  ra_trend_strength :: "pyfloat option"
  ra_news_flags :: "string list"
  ra_allowed_setup_types :: "setup_type list"
  ra_confidence :: pyfloat

section \<open>Positions\<close>

record position =
  pos_position_id :: string
  pos_plan_id :: string
  pos_symbol :: symbol
  pos_direction :: direction
  pos_shares :: int
  pos_entry_price :: pyfloat
  pos_current_price :: pyfloat
  pos_stop_price :: pyfloat
  pos_target_price :: pyfloat
  pos_time_stop_at :: timestamp
  pos_opened_at :: timestamp
  pos_updated_at :: timestamp
  pos_trailing_stop :: "pyfloat option"

definition unrealized_pnl :: "position \<Rightarrow> pyfloat" where
  "unrealized_pnl p =
     (pos_current_price p - pos_entry_price p) * of_int (pos_shares p) *
     (if pos_direction p = LONG then 1 else - 1)"

text \<open>\<open>None\<close> is the \<open>ZeroDivisionError\<close> of a position of no value.\<close>

definition unrealized_pnl_pct :: "position \<Rightarrow> pyfloat option" where
  "unrealized_pnl_pct p =
     (let cost = pos_entry_price p * of_int (pos_shares p)
      in if cost = 0 then None else Some (unrealized_pnl p / cost))"

section \<open>Wash sales\<close>

record wash_sale_flag =
  ws_symbol :: symbol
  ws_last_exit_at :: timestamp
  ws_last_exit_price :: pyfloat
  ws_net_loss :: pyfloat
  ws_window_end :: timestamp
  ws_flagged_at :: timestamp

section \<open>Orders and closed trades\<close>

record order =
  or_order_id :: string
  or_broker_order_id :: "string option"
  or_plan_id :: string
  or_symbol :: symbol
  or_side :: order_side
  or_order_type :: order_type
  or_qty :: int
  or_limit_price :: "pyfloat option"
  or_stop_price :: "pyfloat option"
  or_time_in_force :: time_in_force
  or_status :: order_status
  or_filled_qty :: int
  or_avg_fill_price :: "pyfloat option"
  or_submitted_at :: "timestamp option"
  or_filled_at :: "timestamp option"
  or_cancelled_at :: "timestamp option"
  or_reject_reason :: "string option"

record closed_trade =
  ct_trade_id :: string
  ct_plan_id :: string
  ct_symbol :: symbol
  ct_setup_type :: setup_type
  ct_regime :: regime_label
  ct_direction :: direction
  ct_shares :: int
  ct_entry_price :: pyfloat
  ct_exit_price :: pyfloat
  ct_stop_price :: pyfloat
  ct_target_price :: pyfloat
  ct_exit_mode :: exit_mode
  ct_gross_pnl :: pyfloat
  ct_net_pnl :: pyfloat
  ct_commission :: pyfloat
  ct_slippage :: pyfloat
  ct_hold_time_sec :: pyfloat
  ct_opened_at :: timestamp
  ct_closed_at :: timestamp

definition is_winner :: "closed_trade \<Rightarrow> bool" where
  "is_winner t \<longleftrightarrow> 0 < ct_net_pnl t"

section \<open>Reconciliation reports and audit events\<close>

record reconciliation_report =
  rr_status :: reconciliation_status
  rr_internal_positions :: "symbol list"
  rr_broker_positions :: "symbol list"
  rr_discrepancies :: "string list"
  rr_buying_power_ok :: bool
  rr_duplicate_order_risk :: bool
  rr_reconciled_at :: timestamp

text \<open>The details of an event are opaque.\<close>

record 'd audit_event =
  ae_event_id :: string
  ae_event_type :: string
  ae_agent :: string
  ae_symbol :: "symbol option"
  ae_details :: 'd
  ae_timestamp :: timestamp

section \<open>Approved setups\<close>

record approved_setup =
  as_setup_type :: setup_type
  as_expectancy :: pyfloat
  as_win_rate :: pyfloat
  as_avg_win :: pyfloat
  as_avg_loss :: pyfloat
  as_sample_count :: int
  as_oos_validated :: bool
  as_allowed_regimes :: "regime_label list"
  as_last_validated :: timestamp
  as_rolling_expectancy :: "pyfloat option"
  as_retired :: bool
  as_retire_reason :: "string option"

record approved_setup_list =
  al_setups :: "approved_setup list"
  al_version :: int
  al_effective_session :: "string option"
  al_generated_at :: timestamp

definition is_approved :: "approved_setup_list \<Rightarrow> setup_type \<Rightarrow> bool" where
  "is_approved l ty \<longleftrightarrow> list_ex (\<lambda>s. as_setup_type s = ty \<and> \<not> as_retired s) (al_setups l)"

definition get_setup :: "approved_setup_list \<Rightarrow> setup_type \<Rightarrow> approved_setup option" where
  "get_setup l ty = List.find (\<lambda>s. as_setup_type s = ty \<and> \<not> as_retired s) (al_setups l)"

section \<open>Change proposals\<close>

text \<open>
  The values of the dictionary \<open>parameter_changes\<close> that the code reads: a number, a text, a
  list of texts, or the dictionary of trade statistics.
\<close>

datatype param_value =
    PV_Num pyfloat
  | PV_Text string
  | PV_Texts "string list"
  | PV_Stats "(string \<times> pyfloat) list"

record change_proposal =
  cp_proposal_id :: string
  cp_proposal_type :: change_proposal_type
  cp_status :: change_proposal_status
  cp_submitted_by :: string
  cp_proposed_for_session :: "string option"
  cp_description :: string
  cp_parameter_changes :: "(string \<times> param_value) list"
  cp_hgl_approved_by :: "string option"
  cp_hgl_approved_at :: "timestamp option"
  cp_hgl_rejection_reason :: "string option"
  cp_edge_validation_result :: "string option"
  cp_edge_rejection_reason :: "string option"
  cp_created_at :: timestamp
  cp_updated_at :: timestamp

section \<open>Market data\<close>

record market_tick =
  mt_symbol :: symbol
  mt_timestamp :: timestamp
  mt_bid :: pyfloat
  mt_ask :: pyfloat
  mt_last :: pyfloat
  mt_volume :: int
  mt_sequence :: int

definition tick_mid :: "market_tick \<Rightarrow> pyfloat" where
  "tick_mid t = (mt_bid t + mt_ask t) / 2"

definition tick_spread :: "market_tick \<Rightarrow> pyfloat" where
  "tick_spread t = mt_ask t - mt_bid t"

definition tick_spread_bps :: "market_tick \<Rightarrow> pyfloat" where
  "tick_spread_bps t = (if 0 < tick_mid t then tick_spread t / tick_mid t * 10000 else 0)"

text \<open>
  The numeric entries of \<open>MarketTick.model_dump()\<close>: the declared fields, without the
  properties computed from them.
\<close>

definition tick_dump :: "market_tick \<Rightarrow> (string \<times> pyfloat) list" where
  "tick_dump t = [(''bid'', mt_bid t), (''ask'', mt_ask t), (''last'', mt_last t),
     (''volume'', of_int (mt_volume t)), (''sequence'', of_int (mt_sequence t))]"

record bar_data =
  bd_symbol :: symbol
  bd_timestamp :: timestamp
  bd_timeframe :: string
  bd_open :: pyfloat
  bd_high :: pyfloat
  bd_low :: pyfloat
  bd_close :: pyfloat
  bd_volume :: int
  bd_vwap :: "pyfloat option"

section \<open>Trade plans\<close>

record cost_model =
  cm_commission :: pyfloat
  cm_sec_fee :: pyfloat
  cm_finra_taf :: pyfloat
  cm_estimated_slippage :: pyfloat

definition total_cost_per_share :: "cost_model \<Rightarrow> pyfloat" where
  "total_cost_per_share c =
     cm_commission c + cm_sec_fee c + cm_finra_taf c + cm_estimated_slippage c"

record trade_plan =
  tp_plan_id :: string
  tp_signal_id :: string
  tp_symbol :: symbol
  tp_direction :: direction
  tp_entry_price :: pyfloat
  tp_stop_price :: pyfloat
  tp_target_price :: pyfloat
  tp_shares :: int
  tp_time_stop_sec :: int
  tp_invalidation_reason :: string
  tp_cost_model :: cost_model
  tp_net_expectancy :: pyfloat
  tp_account_equity :: pyfloat
  tp_risk_per_share :: pyfloat
  tp_total_risk :: pyfloat
  tp_worst_case_slippage :: pyfloat
  tp_created_at :: timestamp

text \<open>The two validators of the class, which every construction and every parse runs.\<close>

definition validate_plan :: "trade_plan \<Rightarrow> string + trade_plan" where
  "validate_plan p =
     (if tp_net_expectancy p \<le> 0
      then Inl ''TradePlan rejected: net_expectancy_per_share is not positive''
      else if tp_stop_price p \<le> 0 then Inl ''TradePlan requires a valid stop_price > 0''
      else Inr p)"

section \<open>Fills and execution quality\<close>

record fill_event =
  fe_fill_id :: string
  fe_order_id :: string
  fe_symbol :: symbol
  fe_qty :: int
  fe_price :: pyfloat
  fe_side :: order_side
  fe_filled_at :: timestamp

record execution_summary =
  es_session_date :: string
  es_total_orders :: int
  es_fill_rate :: pyfloat
  es_avg_slippage_bps :: pyfloat
  es_p50_latency_ms :: pyfloat
  es_p95_latency_ms :: pyfloat
  es_p99_latency_ms :: pyfloat
  es_rejection_rate :: pyfloat
  es_quality_degraded :: bool
  es_generated_at :: timestamp

end
