(* ===== verification/Tera.thy ===== *)
theory Tera
  imports Models
begin

text \<open>
  The trade eligibility and risk gate of \<open>agents/agent_06_tera.py\<close> (class \<open>TERAAgent\<close>): its
  counters, the ten rules in their order, the handlers of the four topics, and the public
  state changes. What the agent asks of others while it evaluates a signal (the account
  equity, the open positions, the universe, the wash-sale lookup) is the record
  \<open>tera_env\<close>. The evaluation reads the clock once for the pauses and once more when it
  prunes. The detail text of a decision is left out; what is published is the decision and
  its reason.
\<close>

section \<open>State and surroundings\<close>

record tera_config =
  tc_daily_max_loss_pct :: pyfloat
  tc_velocity_loss :: pyfloat
  tc_velocity_window_sec :: pyfloat
  tc_velocity_pause_sec :: pyfloat
  tc_max_concurrent_trades :: int
  tc_max_symbol_pct :: pyfloat
  tc_max_sector :: int
  tc_max_theme :: int
  tc_cooldown_trades :: int
  tc_cooldown_sec :: pyfloat

definition tera_defaults :: tera_config where
  "tera_defaults = \<lparr>tc_daily_max_loss_pct = 2 / 100, tc_velocity_loss = 300,
     tc_velocity_window_sec = 180, tc_velocity_pause_sec = 300, tc_max_concurrent_trades = 5,
     tc_max_symbol_pct = 30 / 100, tc_max_sector = 3, tc_max_theme = 3,
     tc_cooldown_trades = 3, tc_cooldown_sec = 300\<rparr>"

record tera =
  t_daily_pnl :: pyfloat
  t_consecutive_losses :: int
  t_anomaly_hold :: bool
  t_pdt_trades_used :: int
  t_loss_timestamps :: "(timestamp \<times> pyfloat) list"
  t_velocity_pause_until :: "timestamp option"
  t_cooldown_until :: "timestamp option"

definition tera_init :: tera where
  "tera_init = \<lparr>t_daily_pnl = 0, t_consecutive_losses = 0, t_anomaly_hold = False,
     t_pdt_trades_used = 0, t_loss_timestamps = [], t_velocity_pause_until = None,
     t_cooldown_until = None\<rparr>"

record tera_env =
  te_equity :: pyfloat
  te_positions :: "position list"
  te_universe :: "universe_snapshot option"
  te_wash_sale :: "symbol \<Rightarrow> wash_sale_flag option"

definition pdt_minimum_equity :: pyfloat where
  "pdt_minimum_equity = 25000"

definition pdt_max_day_trades :: int where
  "pdt_max_day_trades = 3"

section \<open>Helpers\<close>

definition prune_loss_timestamps :: "tera_config \<Rightarrow> timestamp \<Rightarrow> tera \<Rightarrow> tera" where
  "prune_loss_timestamps cf now s =
     (let cutoff = now - seconds (tc_velocity_window_sec cf)
      in s\<lparr>t_loss_timestamps := dropWhile (\<lambda>p. fst p < cutoff) (t_loss_timestamps s)\<rparr>)"

definition lookup_symbol :: "tera_env \<Rightarrow> symbol \<Rightarrow> symbol_classification option" where
  "lookup_symbol env sy =
     (case te_universe env of
        None \<Rightarrow> None
      | Some u \<Rightarrow> find (\<lambda>i. sc_symbol i = sy) (u_symbols u))"

definition get_symbol_sector :: "tera_env \<Rightarrow> symbol \<Rightarrow> string option" where
  "get_symbol_sector env sy =
     (case lookup_symbol env sy of None \<Rightarrow> None | Some i \<Rightarrow> sc_sector i)"

definition get_symbol_theme :: "tera_env \<Rightarrow> symbol \<Rightarrow> string option" where
  "get_symbol_theme env sy =
     (case lookup_symbol env sy of
        None \<Rightarrow> None
      | Some i \<Rightarrow>
          (let catalyst = (case sc_catalyst i of None \<Rightarrow> [] | Some c \<Rightarrow> c)
           in if prefix ''theme:'' catalyst then Some (drop (length ''theme:'') catalyst)
              else sc_sector i))"

definition count_matching :: "(symbol \<Rightarrow> string option) \<Rightarrow> position list \<Rightarrow> string \<Rightarrow> int" where
  "count_matching tag ps wanted =
     int (length (filter (\<lambda>p. truthy (tag (pos_symbol p)) \<and>
            py_lower (the (tag (pos_symbol p))) = py_lower wanted) ps))"

definition count_sector_positions :: "tera_env \<Rightarrow> position list \<Rightarrow> string \<Rightarrow> int" where
  "count_sector_positions env = count_matching (get_symbol_sector env)"

definition count_theme_positions :: "tera_env \<Rightarrow> position list \<Rightarrow> string \<Rightarrow> int" where
  "count_theme_positions env = count_matching (get_symbol_theme env)"

definition symbol_exposure :: "position list \<Rightarrow> symbol \<Rightarrow> pyfloat" where
  "symbol_exposure ps sy =
     sum_list (map (\<lambda>p. pos_entry_price p * of_int (pos_shares p))
       (filter (\<lambda>p. pos_symbol p = sy) ps))"

definition velocity_total :: "tera \<Rightarrow> pyfloat" where
  "velocity_total s = sum_list (map snd (t_loss_timestamps s))"

definition active_until :: "timestamp option \<Rightarrow> timestamp \<Rightarrow> bool" where
  "active_until u now = (case u of None \<Rightarrow> False | Some t \<Rightarrow> now < t)"

section \<open>The ten rules\<close>

text \<open>
  \<open>_evaluate_all_rules\<close>: the new state (rules 2 and 7 engage a pause, rule 2 prunes) and
  the reason of the first rule that fails, \<open>None\<close> when all pass.
\<close>

definition evaluate_all_rules ::
  "tera_config \<Rightarrow> tera_env \<Rightarrow> timestamp \<Rightarrow> timestamp \<Rightarrow> symbol \<Rightarrow> tera
   \<Rightarrow> tera \<times> risk_reject_reason option" where
  "evaluate_all_rules cf env now prune_now sy s =
     (let equity = te_equity env;
          daily_max_loss = equity * tc_daily_max_loss_pct cf in
      if t_daily_pnl s \<le> - daily_max_loss then (s, Some RR_DAILY_LOSS_CAP)
      else if active_until (t_velocity_pause_until s) now then (s, Some RR_DRAWDOWN_VELOCITY)
      else
        let s = prune_loss_timestamps cf prune_now s;
            velocity_loss = velocity_total s in
        if tc_velocity_loss cf < velocity_loss
        then (s\<lparr>t_velocity_pause_until := Some (now + seconds (tc_velocity_pause_sec cf))\<rparr>,
              Some RR_DRAWDOWN_VELOCITY)
        else
          let open_positions = te_positions env in
          if tc_max_concurrent_trades cf \<le> int (length open_positions)
          then (s, Some RR_MAX_CONCURRENT_TRADES)
          else if 0 < equity \<and> tc_max_symbol_pct cf < symbol_exposure open_positions sy / equity
          then (s, Some RR_SYMBOL_CONCENTRATION)
          else if truthy (get_symbol_sector env sy) \<and>
              tc_max_sector cf \<le>
                count_sector_positions env open_positions (the (get_symbol_sector env sy))
          then (s, Some RR_SECTOR_CONCENTRATION)
          else if truthy (get_symbol_theme env sy) \<and>
              tc_max_theme cf \<le>
                count_theme_positions env open_positions (the (get_symbol_theme env sy))
          then (s, Some RR_CORRELATION_BUCKET)
          else if active_until (t_cooldown_until s) now then (s, Some RR_CONSECUTIVE_LOSSES)
          else if tc_cooldown_trades cf \<le> t_consecutive_losses s
          then (s\<lparr>t_cooldown_until := Some (now + seconds (tc_cooldown_sec cf))\<rparr>,
                Some RR_CONSECUTIVE_LOSSES)
          else if t_anomaly_hold s then (s, Some RR_ANOMALY_HOLD)
          else if equity < pdt_minimum_equity \<and> pdt_max_day_trades \<le> t_pdt_trades_used s
          then (s, Some RR_PDT_LIMIT)
          else if te_wash_sale env sy \<noteq> None then (s, Some RR_WASH_SALE_FLAG)
          else (s, None))"

section \<open>Handlers\<close>

datatype tera_effect =
    Publish_Risk_Decision string symbol risk_decision "risk_reject_reason option"
  | Audit_Risk_Decision string symbol risk_decision "risk_reject_reason option"
      pyfloat int bool int pyfloat
  | Audit_Anomaly_Hold string

type_synonym tera_result = "tera \<times> tera_effect list"

text \<open>A validated signal: its id, its candidate's symbol and its result; \<open>None\<close> does not parse.\<close>

definition handle_validated_signal ::
  "tera_config \<Rightarrow> tera_env \<Rightarrow> timestamp \<Rightarrow> timestamp
   \<Rightarrow> (string \<times> symbol \<times> validation_result) option \<Rightarrow> tera \<Rightarrow> tera_result" where
  "handle_validated_signal cf env now prune_now sig s =
     (case sig of
        None \<Rightarrow> (s, [])
      | Some (sig_id, sy, result) \<Rightarrow>
          if result \<noteq> VR_PASS then (s, [])
          else
            let (s', why) = evaluate_all_rules cf env now prune_now sy s;
                decision = (if why = None then RD_APPROVED else RD_REJECTED)
            in (s', [Publish_Risk_Decision sig_id sy decision why,
                     Audit_Risk_Decision sig_id sy decision why (t_daily_pnl s')
                       (t_consecutive_losses s') (t_anomaly_hold s') (t_pdt_trades_used s')
                       (te_equity env)]))"

definition handle_trade_closed ::
  "tera_config \<Rightarrow> timestamp \<Rightarrow> timestamp \<Rightarrow> pyfloat option \<Rightarrow> tera \<Rightarrow> tera" where
  "handle_trade_closed cf now prune_now trade s =
     (case trade of
        None \<Rightarrow> s
      | Some net_pnl \<Rightarrow>
          let s1 = s\<lparr>t_daily_pnl := t_daily_pnl s + net_pnl\<rparr>;
              s2 = (if net_pnl < 0
                    then s1\<lparr>t_consecutive_losses := t_consecutive_losses s1 + 1,
                            t_loss_timestamps := t_loss_timestamps s1 @ [(now, \<bar>net_pnl\<bar>)]\<rparr>
                    else s1\<lparr>t_consecutive_losses := 0\<rparr>)
          in prune_loss_timestamps cf prune_now s2)"

definition handle_psa_alert :: "string \<Rightarrow> tera \<Rightarrow> tera_result" where
  "handle_psa_alert alert_type s =
     (if py_in ''anomaly'' (py_lower alert_type) \<and> \<not> t_anomaly_hold s
      then (s\<lparr>t_anomaly_hold := True\<rparr>, [Audit_Anomaly_Hold alert_type])
      else (s, []))"

definition handle_daily_pnl :: "pyfloat option \<Rightarrow> tera \<Rightarrow> tera" where
  "handle_daily_pnl pnl s = (case pnl of None \<Rightarrow> s | Some x \<Rightarrow> s\<lparr>t_daily_pnl := x\<rparr>)"

definition clear_anomaly_hold :: "tera \<Rightarrow> tera" where
  "clear_anomaly_hold s = s\<lparr>t_anomaly_hold := False\<rparr>"

definition increment_pdt_counter :: "tera \<Rightarrow> tera" where
  "increment_pdt_counter s = s\<lparr>t_pdt_trades_used := t_pdt_trades_used s + 1\<rparr>"

definition reset_for_new_session :: "tera \<Rightarrow> tera" where
  "reset_for_new_session s =
     s\<lparr>t_daily_pnl := 0, t_consecutive_losses := 0, t_anomaly_hold := False,
       t_loss_timestamps := [], t_velocity_pause_until := None, t_cooldown_until := None\<rparr>"

text \<open>The snapshot of \<open>risk_state\<close>, read at two clock values.\<close>

record tera_risk_state =
  rs_daily_pnl :: pyfloat
  rs_consecutive_losses :: int
  rs_anomaly_hold :: bool
  rs_pdt_trades_used :: int
  rs_velocity_losses_count :: nat
  rs_velocity_loss_total :: pyfloat
  rs_drawdown_pause_active :: bool
  rs_cooldown_active :: bool

definition risk_state :: "timestamp \<Rightarrow> timestamp \<Rightarrow> tera \<Rightarrow> tera_risk_state" where
  "risk_state now1 now2 s =
     \<lparr>rs_daily_pnl = t_daily_pnl s, rs_consecutive_losses = t_consecutive_losses s,
      rs_anomaly_hold = t_anomaly_hold s, rs_pdt_trades_used = t_pdt_trades_used s,
      rs_velocity_losses_count = length (t_loss_timestamps s),
      rs_velocity_loss_total = velocity_total s,
      rs_drawdown_pause_active = active_until (t_velocity_pause_until s) now1,
      rs_cooldown_active = active_until (t_cooldown_until s) now2\<rparr>"

section \<open>Events\<close>

datatype tera_event =
    T_Signal tera_env timestamp "(string \<times> symbol \<times> validation_result) option"
  | T_Trade_Closed timestamp "pyfloat option"
  | T_Alert string
  | T_Daily_Pnl "pyfloat option"
  | T_Clear_Hold
  | T_Increment_Pdt
  | T_Reset

fun tera_event_step :: "tera_config \<Rightarrow> tera \<Rightarrow> timestamp \<Rightarrow> tera_event \<Rightarrow> tera_result" where
  "tera_event_step cf s now (T_Signal env pn sig) = handle_validated_signal cf env now pn sig s"
| "tera_event_step cf s now (T_Trade_Closed pn t) = (handle_trade_closed cf now pn t s, [])"
| "tera_event_step cf s now (T_Alert a) = handle_psa_alert a s"
| "tera_event_step cf s now (T_Daily_Pnl p) = (handle_daily_pnl p s, [])"
| "tera_event_step cf s now T_Clear_Hold = (clear_anomaly_hold s, [])"
| "tera_event_step cf s now T_Increment_Pdt = (increment_pdt_counter s, [])"
| "tera_event_step cf s now T_Reset = (reset_for_new_session s, [])"

definition tera_step :: "tera_config \<Rightarrow> tera \<Rightarrow> timestamp \<times> tera_event \<Rightarrow> tera" where
  "tera_step cf s te = fst (tera_event_step cf s (fst te) (snd te))"

definition tera_effects :: "tera_config \<Rightarrow> tera \<Rightarrow> timestamp \<times> tera_event \<Rightarrow> tera_effect list" where
  "tera_effects cf s te = snd (tera_event_step cf s (fst te) (snd te))"

text \<open>The decisions published along a run.\<close>

fun tera_run :: "tera_config \<Rightarrow> tera \<Rightarrow> (timestamp \<times> tera_event) list \<Rightarrow> tera_effect list" where
  "tera_run cf s [] = []"
| "tera_run cf s (te # tes) = tera_effects cf s te @ tera_run cf (tera_step cf s te) tes"

definition approves :: "tera_effect \<Rightarrow> bool" where
  "approves e = (case e of Publish_Risk_Decision _ _ d _ \<Rightarrow> d = RD_APPROVED | _ \<Rightarrow> False)"

section \<open>The rules as a table\<close>

text \<open>
  The reference: the conditions under which each rule of the module's documentation
  rejects, in priority order, read off the state the signal meets.
\<close>

definition rule_table ::
  "tera_config \<Rightarrow> tera_env \<Rightarrow> timestamp \<Rightarrow> timestamp \<Rightarrow> symbol \<Rightarrow> tera
   \<Rightarrow> (bool \<times> risk_reject_reason) list" where
  "rule_table cf env now pn sy s =
     [(t_daily_pnl s \<le> - (te_equity env * tc_daily_max_loss_pct cf), RR_DAILY_LOSS_CAP),
      (active_until (t_velocity_pause_until s) now, RR_DRAWDOWN_VELOCITY),
      (tc_velocity_loss cf < velocity_total (prune_loss_timestamps cf pn s), RR_DRAWDOWN_VELOCITY),
      (tc_max_concurrent_trades cf \<le> int (length (te_positions env)), RR_MAX_CONCURRENT_TRADES),
      (0 < te_equity env \<and>
         te_equity env * tc_max_symbol_pct cf < symbol_exposure (te_positions env) sy,
         RR_SYMBOL_CONCENTRATION),
      (truthy (get_symbol_sector env sy) \<and>
         tc_max_sector cf \<le> count_sector_positions env (te_positions env)
           (the (get_symbol_sector env sy)), RR_SECTOR_CONCENTRATION),
      (truthy (get_symbol_theme env sy) \<and>
         tc_max_theme cf \<le> count_theme_positions env (te_positions env)
           (the (get_symbol_theme env sy)), RR_CORRELATION_BUCKET),
      (active_until (t_cooldown_until s) now \<or> tc_cooldown_trades cf \<le> t_consecutive_losses s,
         RR_CONSECUTIVE_LOSSES),
      (t_anomaly_hold s, RR_ANOMALY_HOLD),
      (te_equity env < 25000 \<and> 3 \<le> t_pdt_trades_used s, RR_PDT_LIMIT),
      (te_wash_sale env sy \<noteq> None, RR_WASH_SALE_FLAG)]"

definition first_failing :: "(bool \<times> 'r) list \<Rightarrow> 'r option" where
  "first_failing rs = map_option snd (find fst rs)"

lemma first_failing_simps [simp]:
  "first_failing [] = None"
  "first_failing ((b, r) # rs) = (if b then Some r else first_failing rs)"
  by (simp_all add: first_failing_def)

lemma first_failing_None: "first_failing rs = None \<longleftrightarrow> (\<forall>r \<in> set rs. \<not> fst r)"
  by (auto simp: first_failing_def find_None_iff)

lemma prune_frame [simp]:
  "t_daily_pnl (prune_loss_timestamps cf pn s) = t_daily_pnl s"
  "t_consecutive_losses (prune_loss_timestamps cf pn s) = t_consecutive_losses s"
  "t_anomaly_hold (prune_loss_timestamps cf pn s) = t_anomaly_hold s"
  "t_pdt_trades_used (prune_loss_timestamps cf pn s) = t_pdt_trades_used s"
  "t_velocity_pause_until (prune_loss_timestamps cf pn s) = t_velocity_pause_until s"
  "t_cooldown_until (prune_loss_timestamps cf pn s) = t_cooldown_until s"
  by (simp_all add: prune_loss_timestamps_def Let_def)

lemma share_of_equity: "0 < (e::pyfloat) \<Longrightarrow> p < x / e \<longleftrightarrow> e * p < x"
  by (simp add: less_divide_eq mult.commute)

lemma evaluate_is_rule_table:
  "snd (evaluate_all_rules cf env now pn sy s) = first_failing (rule_table cf env now pn sy s)"
  by (simp add: evaluate_all_rules_def rule_table_def Let_def pdt_minimum_equity_def
      pdt_max_day_trades_def share_of_equity cong: conj_cong)

section \<open>A gate that stays closed\<close>

text \<open>
  The shape of the sticky rules: in a closed state every permitted event keeps the gate
  closed and emits no approval; then no run of permitted events emits one.
\<close>

locale closed_gate =
  fixes step :: "'s \<Rightarrow> 'e \<Rightarrow> 's"
    and out :: "'s \<Rightarrow> 'e \<Rightarrow> 'o list"
    and closed :: "'s \<Rightarrow> bool"
    and okay :: "'e \<Rightarrow> bool"
    and passes :: "'o \<Rightarrow> bool"
  assumes stays_closed: "closed s \<Longrightarrow> okay e \<Longrightarrow> closed (step s e)"
    and lets_nothing_pass: "closed s \<Longrightarrow> okay e \<Longrightarrow> x \<in> set (out s e) \<Longrightarrow> \<not> passes x"
begin

fun outs :: "'s \<Rightarrow> 'e list \<Rightarrow> 'o list" where
  "outs s [] = []"
| "outs s (e # es) = out s e @ outs (step s e) es"

lemma closed_run: "closed s \<Longrightarrow> \<forall>e \<in> set es. okay e \<Longrightarrow> \<forall>x \<in> set (outs s es). \<not> passes x"
  by (induction es arbitrary: s) (auto dest: stays_closed lets_nothing_pass)

end

lemma evaluate_frame [simp]:
  "t_daily_pnl (fst (evaluate_all_rules cf env now pn sy s)) = t_daily_pnl s"
  "t_consecutive_losses (fst (evaluate_all_rules cf env now pn sy s)) = t_consecutive_losses s"
  "t_anomaly_hold (fst (evaluate_all_rules cf env now pn sy s)) = t_anomaly_hold s"
  "t_pdt_trades_used (fst (evaluate_all_rules cf env now pn sy s)) = t_pdt_trades_used s"
  by (simp_all add: evaluate_all_rules_def Let_def)

lemma signal_approves:
  "x \<in> set (snd (handle_validated_signal cf env now pn sig s)) \<Longrightarrow> approves x \<Longrightarrow>
     \<exists>sid sy. sig = Some (sid, sy, VR_PASS) \<and> first_failing (rule_table cf env now pn sy s) = None"
  by (auto simp: handle_validated_signal_def approves_def evaluate_is_rule_table [symmetric]
      split: option.splits if_splits prod.splits)

lemma signal_frame [simp]:
  "t_daily_pnl (fst (handle_validated_signal cf env now pn sig s)) = t_daily_pnl s"
  "t_consecutive_losses (fst (handle_validated_signal cf env now pn sig s)) = t_consecutive_losses s"
  "t_anomaly_hold (fst (handle_validated_signal cf env now pn sig s)) = t_anomaly_hold s"
  "t_pdt_trades_used (fst (handle_validated_signal cf env now pn sig s)) = t_pdt_trades_used s"
  by (simp_all add: handle_validated_signal_def case_prod_beta split: option.split)

lemma only_signals_approve:
  assumes "x \<in> set (tera_effects cf s (now, ev))" and "approves x"
  obtains env pn sid sy where "ev = T_Signal env pn (Some (sid, sy, VR_PASS))"
    and "\<forall>r \<in> set (rule_table cf env now pn sy s). \<not> fst r"
  using assms
  by (cases ev) (auto simp: tera_effects_def handle_psa_alert_def approves_def first_failing_None
      split: if_splits dest!: signal_approves [unfolded approves_def])

lemma handle_trade_closed_frame [simp]:
  "t_anomaly_hold (handle_trade_closed cf now pn t s) = t_anomaly_hold s"
  "t_pdt_trades_used (handle_trade_closed cf now pn t s) = t_pdt_trades_used s"
  "t_velocity_pause_until (handle_trade_closed cf now pn t s) = t_velocity_pause_until s"
  by (simp_all add: handle_trade_closed_def Let_def split: option.split)

lemma handle_psa_alert_frame [simp]:
  "t_daily_pnl (fst (handle_psa_alert a s)) = t_daily_pnl s"
  "t_consecutive_losses (fst (handle_psa_alert a s)) = t_consecutive_losses s"
  "t_pdt_trades_used (fst (handle_psa_alert a s)) = t_pdt_trades_used s"
  "t_velocity_pause_until (fst (handle_psa_alert a s)) = t_velocity_pause_until s"
  "t_anomaly_hold (fst (handle_psa_alert a s)) \<longleftrightarrow>
     t_anomaly_hold s \<or> py_in ''anomaly'' (py_lower a)"
  by (auto simp: handle_psa_alert_def)

definition keeps_hold :: "timestamp \<times> tera_event \<Rightarrow> bool" where
  "keeps_hold te \<longleftrightarrow> snd te \<noteq> T_Clear_Hold \<and> snd te \<noteq> T_Reset"

lemma tera_hold_step: "t_anomaly_hold s \<Longrightarrow> keeps_hold te \<Longrightarrow> t_anomaly_hold (tera_step cf s te)"
  by (cases te; cases "snd te")
    (auto simp: tera_step_def keeps_hold_def handle_daily_pnl_def increment_pdt_counter_def
      split: option.split)

interpretation hold_gate: closed_gate "tera_step cf" "tera_effects cf" t_anomaly_hold keeps_hold approves
  for cf
  by unfold_locales (auto simp: tera_hold_step rule_table_def elim: only_signals_approve)

text \<open>No winning trade and no new session.\<close>

definition no_win :: "timestamp \<times> tera_event \<Rightarrow> bool" where
  "no_win te \<longleftrightarrow> snd te \<noteq> T_Reset \<and> (\<forall>pn x. snd te = T_Trade_Closed pn (Some x) \<longrightarrow> x < 0)"

lemma tera_losses_step:
  "tc_cooldown_trades cf \<le> t_consecutive_losses s \<Longrightarrow> no_win te \<Longrightarrow>
     tc_cooldown_trades cf \<le> t_consecutive_losses (tera_step cf s te)"
  by (cases te; cases "snd te")
    (auto simp: tera_step_def no_win_def handle_daily_pnl_def increment_pdt_counter_def
      clear_anomaly_hold_def handle_trade_closed_def Let_def split: option.split)

interpretation losing_gate: closed_gate "tera_step cf" "tera_effects cf"
    "\<lambda>s. tc_cooldown_trades cf \<le> t_consecutive_losses s" no_win approves
  for cf
  by unfold_locales (auto simp: tera_losses_step rule_table_def elim: only_signals_approve)

text \<open>Before the instant \<open>T\<close>, in the same session.\<close>

definition before :: "timestamp \<Rightarrow> timestamp \<times> tera_event \<Rightarrow> bool" where
  "before T te \<longleftrightarrow> fst te < T \<and> snd te \<noteq> T_Reset"

definition paused_to :: "timestamp \<Rightarrow> tera \<Rightarrow> bool" where
  "paused_to T s \<longleftrightarrow> (\<exists>u. t_velocity_pause_until s = Some u \<and> T \<le> u)"

lemma evaluate_paused:
  "active_until (t_velocity_pause_until s) now \<Longrightarrow> fst (evaluate_all_rules cf env now pn sy s) = s"
  by (simp add: evaluate_all_rules_def Let_def)

lemma paused_active: "paused_to T s \<Longrightarrow> now < T \<Longrightarrow> active_until (t_velocity_pause_until s) now"
  by (auto simp: paused_to_def active_until_def)

lemma paused_step: "paused_to T s \<Longrightarrow> before T te \<Longrightarrow> paused_to T (tera_step cf s te)"
proof (cases "snd te")
  case (T_Signal env pn sig)
  assume "paused_to T s" "before T te"
  then show ?thesis
    using T_Signal evaluate_paused [OF paused_active [of T s "fst te"]]
    by (auto simp: tera_step_def handle_validated_signal_def before_def case_prod_beta
        split: option.split)
qed (auto simp: tera_step_def before_def paused_to_def handle_daily_pnl_def
      increment_pdt_counter_def clear_anomaly_hold_def split: option.split)

interpretation velocity_gate: closed_gate "tera_step cf" "tera_effects cf" "paused_to T" "before T" approves
  for cf T
proof
  fix s te x assume a: "paused_to T s" "before T te" "x \<in> set (tera_effects cf s te)"
  obtain now ev where te: "te = (now, ev)" by (cases te)
  from a have "active_until (t_velocity_pause_until s) now"
    by (auto simp: te before_def intro: paused_active)
  with a(3) show "\<not> approves x" by (auto simp: te rule_table_def elim: only_signals_approve)
qed (rule paused_step)

lemma tera_run_outs: "hold_gate.outs cf s tes = tera_run cf s tes"
  by (induction tes arbitrary: s) simp_all

section \<open>The velocity window\<close>

text \<open>
  The losing trades of a run with their times, and the claim that the pruned list is exactly
  those of them inside the window, however often it was pruned before.
\<close>

fun loss_of :: "timestamp \<times> tera_event \<Rightarrow> (timestamp \<times> pyfloat) list" where
  "loss_of (now, T_Trade_Closed _ (Some x)) = (if x < 0 then [(now, \<bar>x\<bar>)] else [])"
| "loss_of _ = []"

definition losses_of :: "(timestamp \<times> tera_event) list \<Rightarrow> (timestamp \<times> pyfloat) list" where
  "losses_of tes = concat (map loss_of tes)"

fun prune_time :: "timestamp \<times> tera_event \<Rightarrow> timestamp" where
  "prune_time (now, T_Signal _ pn _) = pn"
| "prune_time (now, T_Trade_Closed pn _) = pn"
| "prune_time (now, _) = now"

definition window_of ::
  "tera_config \<Rightarrow> timestamp \<Rightarrow> (timestamp \<times> pyfloat) list \<Rightarrow> (timestamp \<times> pyfloat) list" where
  "window_of cf pn ls = filter (\<lambda>p. pn - seconds (tc_velocity_window_sec cf) \<le> fst p) ls"

lemma dropWhile_sorted:
  "sorted (map fst ls) \<Longrightarrow> dropWhile (\<lambda>p. fst p < c) ls = filter (\<lambda>p. c \<le> fst p) ls"
  for ls :: "(timestamp \<times> pyfloat) list"
proof (induction ls)
  case (Cons p ls)
  then show ?case by (cases "fst p < c") (auto intro!: filter_True [symmetric])
qed simp

text \<open>The list held is the losses from some instant on that the next pruning may pass.\<close>

definition holds_losses :: "timestamp \<Rightarrow> (timestamp \<times> pyfloat) list \<Rightarrow> tera \<Rightarrow> bool" where
  "holds_losses c ls s \<longleftrightarrow>
     sorted (map fst ls) \<and> (\<exists>c' \<le> c. t_loss_timestamps s = filter (\<lambda>p. c' \<le> fst p) ls)"

lemma holds_losses_prune:
  assumes "holds_losses c ls s" and "c \<le> pn - seconds (tc_velocity_window_sec cf)"
  shows "t_loss_timestamps (prune_loss_timestamps cf pn s) = window_of cf pn ls"
    and "holds_losses (pn - seconds (tc_velocity_window_sec cf)) ls (prune_loss_timestamps cf pn s)"
proof -
  from assms(1) obtain c' where c': "c' \<le> c" "t_loss_timestamps s = filter (\<lambda>p. c' \<le> fst p) ls"
    and so: "sorted (map fst ls)"
    by (auto simp: holds_losses_def)
  have "sorted (map fst (filter (\<lambda>p. c' \<le> fst p) ls))" using so by (rule sorted_filter)
  then show eq: "t_loss_timestamps (prune_loss_timestamps cf pn s) = window_of cf pn ls"
    using c' assms(2)
    by (auto simp: prune_loss_timestamps_def dropWhile_sorted window_of_def Let_def
        intro!: filter_cong)
  show "holds_losses (pn - seconds (tc_velocity_window_sec cf)) ls (prune_loss_timestamps cf pn s)"
    using so eq by (auto simp: holds_losses_def window_of_def)
qed

lemma holds_losses_mono: "holds_losses c ls s \<Longrightarrow> c \<le> d \<Longrightarrow> holds_losses d ls s"
  by (auto simp: holds_losses_def intro: order_trans)

lemma holds_losses_same:
  "t_loss_timestamps s' = t_loss_timestamps s \<Longrightarrow> holds_losses c ls s' = holds_losses c ls s"
  by (simp add: holds_losses_def)

lemma evaluate_losses:
  "t_loss_timestamps (fst (evaluate_all_rules cf env now pn sy s)) = t_loss_timestamps s \<or>
   t_loss_timestamps (fst (evaluate_all_rules cf env now pn sy s)) =
     t_loss_timestamps (prune_loss_timestamps cf pn s)"
  by (simp add: evaluate_all_rules_def Let_def)

lemma signal_losses:
  "t_loss_timestamps (fst (handle_validated_signal cf env now pn sig s)) = t_loss_timestamps s \<or>
   t_loss_timestamps (fst (handle_validated_signal cf env now pn sig s)) =
     t_loss_timestamps (prune_loss_timestamps cf pn s)"
proof (cases sig)
  case (Some a)
  obtain sid sy r where a: "a = (sid, sy, r)" by (cases a)
  show ?thesis
    using evaluate_losses [of cf env now pn sy s]
    by (simp add: Some a handle_validated_signal_def case_prod_beta)
qed (simp add: handle_validated_signal_def)

lemma other_events_keep_losses:
  "\<not> (\<exists>env pn sig. ev = T_Signal env pn sig) \<Longrightarrow> \<not> (\<exists>pn t. ev = T_Trade_Closed pn t) \<Longrightarrow>
     ev \<noteq> T_Reset \<Longrightarrow> t_loss_timestamps (tera_step cf s (now, ev)) = t_loss_timestamps s"
  by (cases ev) (simp_all add: tera_step_def handle_psa_alert_def handle_daily_pnl_def
      clear_anomaly_hold_def increment_pdt_counter_def split: option.split)

lemma holds_losses_step:
  assumes h: "holds_losses (t0 - seconds (tc_velocity_window_sec cf)) ls s"
    and "snd te \<noteq> T_Reset" and t: "t0 \<le> fst te" "fst te \<le> prune_time te"
    and new: "\<forall>p \<in> set ls. fst p \<le> fst te" and w: "0 \<le> tc_velocity_window_sec cf"
  shows "holds_losses (prune_time te - seconds (tc_velocity_window_sec cf)) (ls @ loss_of te)
           (tera_step cf s te)"
proof -
  let ?w = "seconds (tc_velocity_window_sec cf)"
  obtain now ev where te: "te = (now, ev)" by (cases te)
  have m: "holds_losses (prune_time te - ?w) ls s"
    using h t by (auto intro: holds_losses_mono)
  have p: "holds_losses (prune_time te - ?w) ls (prune_loss_timestamps cf (prune_time te) s)"
    using holds_losses_prune(2) [OF h] t by simp
  have other: "holds_losses (now - ?w) ls (tera_step cf s (now, ev))"
    if "prune_time te = now" "\<not> (\<exists>env pn sig. ev = T_Signal env pn sig)"
      "\<not> (\<exists>pn t. ev = T_Trade_Closed pn t)" "ev \<noteq> T_Reset"
    using m holds_losses_same [OF other_events_keep_losses [OF that(2-4), of cf s now]] that(1)
    by simp
  show ?thesis
  proof (cases ev)
    case (T_Signal env pn sig)
    have e: "tera_step cf s te = fst (handle_validated_signal cf env now pn sig s)"
      by (simp add: te T_Signal tera_step_def)
    from signal_losses [of cf env now pn sig s] show ?thesis
    proof
      assume "t_loss_timestamps (fst (handle_validated_signal cf env now pn sig s)) = t_loss_timestamps s"
      from holds_losses_same [OF this] m show ?thesis unfolding e by (simp add: te T_Signal)
    next
      assume "t_loss_timestamps (fst (handle_validated_signal cf env now pn sig s)) =
        t_loss_timestamps (prune_loss_timestamps cf pn s)"
      from holds_losses_same [OF this] p show ?thesis unfolding e by (simp add: te T_Signal)
    qed
  next
    case (T_Trade_Closed pn t)
    show ?thesis
    proof (cases t)
      case None
      with m show ?thesis by (simp add: te T_Trade_Closed tera_step_def handle_trade_closed_def)
    next
      case (Some x)
      let ?new = "if x < 0 then [(now, \<bar>x\<bar>)] else []"
      let ?s = "s\<lparr>t_loss_timestamps := t_loss_timestamps s @ ?new\<rparr>"
      have nw: "0 \<le> ?w" using w by (simp add: seconds_def)
      obtain c' where c': "c' \<le> t0 - ?w" "t_loss_timestamps s = filter (\<lambda>p. c' \<le> fst p) ls"
        and so: "sorted (map fst ls)"
        using h by (auto simp: holds_losses_def)
      have "holds_losses (t0 - ?w) (ls @ ?new) ?s"
        using c' so new t nw by (auto simp: holds_losses_def te sorted_append intro!: exI [of _ c'])
      from holds_losses_prune(2) [OF this] t
      have "holds_losses (pn - ?w) (ls @ ?new) (prune_loss_timestamps cf pn ?s)"
        by (simp add: te T_Trade_Closed)
      moreover have "t_loss_timestamps (tera_step cf s te) =
          t_loss_timestamps (prune_loss_timestamps cf pn ?s)"
        by (simp add: te T_Trade_Closed Some tera_step_def handle_trade_closed_def Let_def
            prune_loss_timestamps_def)
      ultimately show ?thesis
        using holds_losses_same [of "tera_step cf s te" "prune_loss_timestamps cf pn ?s"]
        by (simp add: te T_Trade_Closed Some)
    qed
  qed (use other m assms(2) in \<open>simp_all add: te\<close>)
qed

text \<open>Clock values that do not run backwards: each event starts after the one before ended.\<close>

fun clocked :: "timestamp \<Rightarrow> (timestamp \<times> tera_event) list \<Rightarrow> timestamp \<Rightarrow> bool" where
  "clocked t [] t' \<longleftrightarrow> t \<le> t'"
| "clocked t (te # tes) t' \<longleftrightarrow> t \<le> fst te \<and> fst te \<le> prune_time te \<and> clocked (prune_time te) tes t'"

lemma loss_of_time: "p \<in> set (loss_of te) \<Longrightarrow> fst p = fst te"
  by (cases te rule: loss_of.cases) (auto split: if_splits)

lemma holds_losses_run:
  assumes "holds_losses (t - seconds (tc_velocity_window_sec cf)) ls s"
    and "\<forall>te \<in> set tes. snd te \<noteq> T_Reset" and "clocked t tes t'"
    and "\<forall>p \<in> set ls. fst p \<le> t" and w: "0 \<le> tc_velocity_window_sec cf"
  shows "holds_losses (t' - seconds (tc_velocity_window_sec cf)) (ls @ losses_of tes)
           (foldl (tera_step cf) s tes)"
  using assms(1-4)
proof (induction tes arbitrary: s ls t)
  case Nil
  then show ?case
    using holds_losses_mono [OF Nil.prems(1), of "t' - seconds (tc_velocity_window_sec cf)"]
    by (simp add: losses_of_def)
next
  case (Cons te tes)
  let ?w = "seconds (tc_velocity_window_sec cf)"
  have c: "t \<le> fst te" "fst te \<le> prune_time te" "clocked (prune_time te) tes t'"
    using Cons.prems(3) by auto
  have "holds_losses (prune_time te - ?w) (ls @ loss_of te) (tera_step cf s te)"
    using Cons.prems c w by (intro holds_losses_step) auto
  moreover have "\<forall>te' \<in> set tes. snd te' \<noteq> T_Reset" using Cons.prems(2) by simp
  moreover have "fst p \<le> prune_time te" if "p \<in> set (ls @ loss_of te)" for p
  proof (cases "p \<in> set ls")
    case True
    then have "fst p \<le> t" using Cons.prems(4) by blast
    with c show ?thesis by linarith
  next
    case False
    with that have "fst p = fst te" by (auto intro: loss_of_time)
    with c show ?thesis by linarith
  qed
  ultimately have "holds_losses (t' - ?w) ((ls @ loss_of te) @ losses_of tes)
      (foldl (tera_step cf) (tera_step cf s te) tes)"
    using c(3) by (intro Cons.IH) auto
  then show ?case by (simp add: losses_of_def)
qed

section \<open>Properties\<close>

text \<open>C4. The gate is its rule table: for a signal that passed validation, what is published
  and audited is the decision of the first failing rule of the documented ten, in their
  order, and an approval exactly when none of them fails.\<close>

theorem gate_is_first_failing_rule:
  "\<exists>s' decision why.
     handle_validated_signal cf env now pn (Some (sig_id, sy, VR_PASS)) s =
       (s', [Publish_Risk_Decision sig_id sy decision why,
             Audit_Risk_Decision sig_id sy decision why (t_daily_pnl s) (t_consecutive_losses s)
               (t_anomaly_hold s) (t_pdt_trades_used s) (te_equity env)]) \<and>
     why = first_failing (rule_table cf env now pn sy s) \<and>
     (decision = RD_APPROVED \<longleftrightarrow> (\<forall>r \<in> set (rule_table cf env now pn sy s). \<not> fst r)) \<and>
     (decision = RD_REJECTED \<longleftrightarrow> (\<exists>r \<in> set (rule_table cf env now pn sy s). fst r))"
proof -
  let ?why = "first_failing (rule_table cf env now pn sy s)"
  let ?d = "if ?why = None then RD_APPROVED else RD_REJECTED"
  have "handle_validated_signal cf env now pn (Some (sig_id, sy, VR_PASS)) s =
      (fst (evaluate_all_rules cf env now pn sy s),
       [Publish_Risk_Decision sig_id sy ?d ?why,
        Audit_Risk_Decision sig_id sy ?d ?why (t_daily_pnl s) (t_consecutive_losses s)
          (t_anomaly_hold s) (t_pdt_trades_used s) (te_equity env)])"
    by (simp add: handle_validated_signal_def case_prod_beta evaluate_is_rule_table)
  moreover have "?d = RD_APPROVED \<longleftrightarrow> (\<forall>r \<in> set (rule_table cf env now pn sy s). \<not> fst r)"
    by (simp add: first_failing_None)
  moreover have "?d = RD_REJECTED \<longleftrightarrow> (\<exists>r \<in> set (rule_table cf env now pn sy s). fst r)"
    by (simp add: first_failing_None)
  ultimately show ?thesis by blast
qed

text \<open>The velocity rule measures exactly its window: in any run of one session with a
  clock that does not run backwards, the total the rule compares is the sum of the losing
  trades of the run that closed within the window before the evaluation, no matter how
  often the list was pruned on the way.\<close>

theorem velocity_is_window_sum:
  assumes "\<forall>te \<in> set tes. snd te \<noteq> T_Reset" and "clocked t0 tes pn"
    and "0 \<le> tc_velocity_window_sec cf"
  shows "velocity_total (prune_loss_timestamps cf pn (foldl (tera_step cf) tera_init tes)) =
         sum_list (map snd (window_of cf pn (losses_of tes)))"
proof -
  have "holds_losses (t0 - seconds (tc_velocity_window_sec cf)) [] tera_init"
    by (auto simp: holds_losses_def tera_init_def)
  from holds_losses_run [OF this assms(1,2) _ assms(3)]
  have "holds_losses (pn - seconds (tc_velocity_window_sec cf)) (losses_of tes)
      (foldl (tera_step cf) tera_init tes)" by simp
  from holds_losses_prune(1) [OF this] show ?thesis by (simp add: velocity_total_def)
qed

theorem velocity_is_window_sum_witness:
  "velocity_total (prune_loss_timestamps tera_defaults 400000000
     (foldl (tera_step tera_defaults) tera_init
        [(100000000, T_Trade_Closed 100000000 (Some (-50))),
         (300000000, T_Trade_Closed 300000000 (Some (-70)))])) = 70"
  using velocity_is_window_sum [of "[(100000000, T_Trade_Closed 100000000 (Some (-50))),
      (300000000, T_Trade_Closed 300000000 (Some (-70)))]" 0 400000000 tera_defaults]
  by (simp add: tera_defaults_def window_of_def losses_of_def seconds_def)

text \<open>A velocity pause lasts: once the velocity rule has rejected a signal at \<open>now\<close> by
  engaging its pause, no signal is approved before the pause has run out, whatever else
  happens in the session (trades, wins, alerts, cleared holds, P/L reports).\<close>

theorem velocity_pause_lasts:
  assumes "t_velocity_pause_until (tera_step cf s (now, ev)) =
             Some (now + seconds (tc_velocity_pause_sec cf))"
    and "\<forall>te \<in> set tes. fst te < now + seconds (tc_velocity_pause_sec cf) \<and> snd te \<noteq> T_Reset"
  shows "\<forall>x \<in> set (tera_run cf (tera_step cf s (now, ev)) tes). \<not> approves x"
  unfolding tera_run_outs [symmetric]
  by (rule velocity_gate.closed_run) (use assms in \<open>auto simp: paused_to_def before_def\<close>)

text \<open>A losing streak locks the gate: from the cooldown number of consecutive losses on, no
  signal is ever approved again until a trade closes without a loss or the session is
  reset; the cooldown time running out does not unlock it.\<close>

theorem losing_streak_locks:
  assumes "tc_cooldown_trades cf \<le> t_consecutive_losses s" and "\<forall>te \<in> set tes. no_win te"
  shows "\<forall>x \<in> set (tera_run cf s tes). \<not> approves x"
  unfolding tera_run_outs [symmetric] by (rule losing_gate.closed_run) (use assms in auto)

text \<open>An anomaly alert closes the gate until the hold is cleared or the session is reset:
  no signal after it is approved.\<close>

theorem anomaly_alert_holds:
  assumes "py_in ''anomaly'' (py_lower alert)" and "\<forall>te \<in> set tes. keeps_hold te"
  shows "\<forall>x \<in> set (tera_run cf (tera_step cf s (now, T_Alert alert)) tes). \<not> approves x"
  unfolding tera_run_outs [symmetric]
  by (rule hold_gate.closed_run) (use assms in \<open>auto simp: tera_step_def\<close>)

text \<open>Examples.\<close>

definition env_example :: tera_env where
  "env_example = \<lparr>te_equity = 30000, te_positions = [], te_universe = None,
     te_wash_sale = (\<lambda>_. None)\<rparr>"

theorem gate_is_first_failing_rule_witness:
  "snd (handle_validated_signal tera_defaults env_example 5 5 (Some (''s'', ''A'', VR_PASS))
     (tera_init\<lparr>t_anomaly_hold := True\<rparr>)) =
   [Publish_Risk_Decision ''s'' ''A'' RD_REJECTED (Some RR_ANOMALY_HOLD),
    Audit_Risk_Decision ''s'' ''A'' RD_REJECTED (Some RR_ANOMALY_HOLD) 0 0 True 0 30000]"
  using gate_is_first_failing_rule [of tera_defaults env_example 5 5 "''s''" "''A''"
      "tera_init\<lparr>t_anomaly_hold := True\<rparr>"]
  by (auto simp: rule_table_def tera_init_def tera_defaults_def env_example_def active_until_def
      velocity_total_def prune_loss_timestamps_def seconds_def symbol_exposure_def
      get_symbol_sector_def get_symbol_theme_def lookup_symbol_def)

theorem velocity_pause_lasts_witness:
  "let s = tera_init\<lparr>t_loss_timestamps := [(0, 400)]\<rparr>;
       sg = (\<lambda>t. T_Signal env_example t (Some (''s'', ''A'', VR_PASS)))
   in filter approves (tera_run tera_defaults (tera_step tera_defaults s (5, sg 5))
        [(9, T_Clear_Hold), (10, sg 10)]) = []"
  unfolding Let_def filter_empty_conv
  by (rule velocity_pause_lasts)
    (simp_all add: tera_step_def handle_validated_signal_def evaluate_all_rules_def tera_init_def
      tera_defaults_def env_example_def active_until_def prune_loss_timestamps_def seconds_def
      velocity_total_def)

theorem losing_streak_locks_witness:
  "let sg = T_Signal env_example 900000000 (Some (''s'', ''A'', VR_PASS));
       out = tera_run tera_defaults (tera_init\<lparr>t_consecutive_losses := 3\<rparr>) [(900000000, sg)]
   in out \<noteq> [] \<and> filter approves out = []"
  unfolding Let_def filter_empty_conv
  by (rule conjI, simp add: tera_effects_def handle_validated_signal_def case_prod_beta,
      rule losing_streak_locks) (simp_all add: tera_defaults_def no_win_def)

theorem anomaly_alert_holds_witness:
  "filter approves
     (tera_run tera_defaults (tera_step tera_defaults tera_init (3, T_Alert ''Feed_Anomaly''))
       [(900000000, T_Signal env_example 900000000 (Some (''s'', ''A'', VR_PASS)))]) = []"
  unfolding filter_empty_conv
proof (rule anomaly_alert_holds)
  show "py_in ''anomaly'' (py_lower ''Feed_Anomaly'')"
    by code_simp
qed (simp add: keeps_hold_def)

end
