(* ===== verification/Kill_Switch.thy ===== *)
theory Kill_Switch
  imports Supervisor
begin

text \<open>
  The emergency stop of \<open>infrastructure/kill_switch.py\<close> (class \<open>KillSwitch\<close>): its state
  machine, token validation, the five endpoints and the flatten task. The lock is never held
  across a suspension, so an endpoint changes the state without interruption; what can be
  interleaved is the background flatten, which waits for the broker twice. A started flatten
  is an element of \<open>ks_tasks\<close> at one of these two waits, and the environment chooses which
  one gets which broker answer. The bus and the audit log are taken to accept what they are given
  (the code catches a failing bus but not a failing audit log, which would end a handler before
  it starts its flatten). The keyed hash of the standard library is a parameter
  (\<open>mac\<close>, the first eight hex digits). A request's token is a string or another JSON value; the
  comparison raises for a string that is not ASCII and for any other value, which the server answers
  with status 500. Initiators and reasons are strings.
\<close>

section \<open>State\<close>

datatype ks_state = KS_ARMED | KS_TRIGGERED | KS_FLATTENED | KS_ACKNOWLEDGED | KS_RESTARTING

datatype flatten_stage = Await_Cancel | Await_Close

record kill_switch =
  ks_secret :: string
  ks_state :: ks_state
  ks_trigger_id :: "string option"
  ks_triggered_at :: "timestamp option"
  ks_triggered_by :: "string option"
  ks_flatten_completed_at :: "timestamp option"
  ks_acknowledged_by :: "string option"
  ks_restart_requested_by :: "string option"
  ks_flatten_errors :: "string list"
  ks_positions_closed :: int
  ks_orders_cancelled :: int
  ks_tasks :: "flatten_stage list"

definition ks_init :: "string \<Rightarrow> kill_switch" where
  "ks_init secret = \<lparr>ks_secret = secret, ks_state = KS_ARMED, ks_trigger_id = None,
     ks_triggered_at = None, ks_triggered_by = None, ks_flatten_completed_at = None,
     ks_acknowledged_by = None, ks_restart_requested_by = None, ks_flatten_errors = [],
     ks_positions_closed = 0, ks_orders_cancelled = 0, ks_tasks = []\<rparr>"

datatype ks_effect =
    Publish_Kill_Switch string string string timestamp
  | Publish_Resume_Command string string
  | Audit_Triggered string string string
  | Audit_Flattened string int int "string list"
  | Audit_Retry string string
  | Audit_Acknowledged string string
  | Audit_Restart string string
  | Start_Flatten

datatype ks_error =
    Mfa_Failed
  | Retry_Not_Valid ks_state
  | Restart_Not_Valid ks_state

text \<open>The dictionary of \<open>_status_dict\<close>.\<close>

record ks_status =
  st_state :: ks_state
  st_trigger_id :: "string option"
  st_triggered_at :: "timestamp option"
  st_triggered_by :: "string option"
  st_flatten_completed_at :: "timestamp option"
  st_positions_closed :: int
  st_orders_cancelled :: int
  st_flatten_errors :: "string list"
  st_acknowledged_by :: "string option"
  st_restart_requested_by :: "string option"

definition ks_status_dict :: "kill_switch \<Rightarrow> ks_status" where
  "ks_status_dict k =
     \<lparr>st_state = ks_state k, st_trigger_id = ks_trigger_id k,
      st_triggered_at = ks_triggered_at k, st_triggered_by = ks_triggered_by k,
      st_flatten_completed_at = ks_flatten_completed_at k,
      st_positions_closed = ks_positions_closed k, st_orders_cancelled = ks_orders_cancelled k,
      st_flatten_errors = ks_flatten_errors k, st_acknowledged_by = ks_acknowledged_by k,
      st_restart_requested_by = ks_restart_requested_by k\<rparr>"

text \<open>
  What an endpoint's handler returns: the two success dictionaries, an error, or the status
  dictionary, which has no \<open>success\<close> key; or nothing, when the handler raised.
\<close>

datatype ks_reply =
    Reply_Ok ks_state
  | Reply_Acknowledged string
  | Reply_Error ks_error
  | Reply_Status ks_status
  | Reply_Raised

text \<open>The HTTP status: \<open>200 if result.get("success") else 403\<close>, and the server's own 500.\<close>

fun http_status :: "ks_reply \<Rightarrow> nat" where
  "http_status (Reply_Ok _) = 200"
| "http_status (Reply_Acknowledged _) = 200"
| "http_status (Reply_Error _) = 403"
| "http_status (Reply_Status _) = 403"
| "http_status Reply_Raised = 500"

section \<open>Tokens\<close>

type_synonym token_mac = "string \<Rightarrow> string \<Rightarrow> int \<Rightarrow> string"

text \<open>
  \<open>mac secret initiator window\<close> stands for the hash of the text made of initiator and
  window; \<open>now\<close> is \<open>time.time()\<close> in microseconds.
\<close>

definition mfa_window :: "timestamp \<Rightarrow> int" where
  "mfa_window now = now div 30000000"

datatype mfa_token = Tok_Text string | Tok_Other

text \<open>What \<open>compare_digest\<close> accepts: a string of ASCII characters.\<close>

definition comparable :: "mfa_token \<Rightarrow> bool" where
  "comparable token =
     (case token of Tok_Text t \<Rightarrow> list_all (\<lambda>c. (of_char c :: nat) < 128) t | Tok_Other \<Rightarrow> False)"

text \<open>\<open>None\<close> is the \<open>TypeError\<close> of the comparison.\<close>

definition validate_mfa :: "token_mac \<Rightarrow> kill_switch \<Rightarrow> timestamp \<Rightarrow> mfa_token \<Rightarrow> string \<Rightarrow> bool option" where
  "validate_mfa mac k now token initiator =
     (if ks_secret k = [] then Some True
      else if \<not> comparable token then None
      else Some (token = Tok_Text (mac (ks_secret k) initiator (mfa_window now)) \<or>
                 token = Tok_Text (mac (ks_secret k) initiator (mfa_window now - 1))))"

section \<open>Endpoints\<close>

type_synonym ks_result = "kill_switch \<times> ks_effect list \<times> ks_reply"

definition ks_trigger ::
  "token_mac \<Rightarrow> kill_switch \<Rightarrow> timestamp \<Rightarrow> string \<Rightarrow> string \<Rightarrow> mfa_token \<Rightarrow> string \<Rightarrow> ks_result" where
  "ks_trigger mac k now new_id initiator token why =
     (if validate_mfa mac k now token initiator = None then (k, [], Reply_Raised)
      else if validate_mfa mac k now token initiator = Some False then (k, [], Reply_Error Mfa_Failed)
      else if ks_state k \<noteq> KS_ARMED then (k, [], Reply_Status (ks_status_dict k))
      else
        let k' = k\<lparr>ks_trigger_id := Some new_id, ks_state := KS_TRIGGERED,
                   ks_triggered_at := Some now, ks_triggered_by := Some initiator,
                   ks_tasks := ks_tasks k @ [Await_Cancel]\<rparr>
        in (k', [Publish_Kill_Switch new_id why initiator now,
                 Audit_Triggered new_id initiator why, Start_Flatten], Reply_Ok (ks_state k')))"

text \<open>
  The answers of the broker: a number, another value (the interface's \<open>close_all_positions\<close>
  returns a list), the time limit, or an exception.
\<close>

datatype broker_answer = Ans_Int int | Ans_Other | Ans_Timeout | Ans_Error string

definition count_answer :: "broker_answer \<Rightarrow> int" where
  "count_answer a = (case a of Ans_Int n \<Rightarrow> n | _ \<Rightarrow> 0)"

definition after_cancel :: "broker_answer \<Rightarrow> kill_switch \<Rightarrow> kill_switch" where
  "after_cancel a k =
     (case a of
        Ans_Timeout \<Rightarrow>
          k\<lparr>ks_flatten_errors := ks_flatten_errors k @ [''cancel_all_orders timed out (3s)'']\<rparr>
      | Ans_Error e \<Rightarrow>
          k\<lparr>ks_flatten_errors := ks_flatten_errors k @ [''cancel_all_orders error: '' @ e]\<rparr>
      | _ \<Rightarrow> k\<lparr>ks_orders_cancelled := count_answer a\<rparr>)"

definition after_close :: "broker_answer \<Rightarrow> timestamp \<Rightarrow> kill_switch \<Rightarrow> kill_switch \<times> ks_effect list" where
  "after_close a now k =
     (let k1 = (case a of
          Ans_Timeout \<Rightarrow>
            k\<lparr>ks_flatten_errors := ks_flatten_errors k @ [''close_all_positions timed out (7s)'']\<rparr>
        | Ans_Error e \<Rightarrow>
            k\<lparr>ks_flatten_errors := ks_flatten_errors k @ [''close_all_positions error: '' @ e]\<rparr>
        | _ \<Rightarrow> k\<lparr>ks_positions_closed := count_answer a\<rparr>);
        k2 = k1\<lparr>ks_flatten_completed_at := Some now, ks_state := KS_FLATTENED\<rparr>
      in (k2, [Audit_Flattened (case ks_trigger_id k2 of None \<Rightarrow> [] | Some i \<Rightarrow> i)
                 (ks_orders_cancelled k2) (ks_positions_closed k2) (ks_flatten_errors k2)]))"

text \<open>The task at position \<open>i\<close> gets its broker answer.\<close>

definition flatten_progress ::
  "kill_switch \<Rightarrow> timestamp \<Rightarrow> nat \<Rightarrow> broker_answer \<Rightarrow> kill_switch \<times> ks_effect list" where
  "flatten_progress k now i a =
     (if length (ks_tasks k) \<le> i then (k, [])
      else
        (case ks_tasks k ! i of
           Await_Cancel \<Rightarrow> (after_cancel a (k\<lparr>ks_tasks := (ks_tasks k)[i := Await_Close]\<rparr>), [])
         | Await_Close \<Rightarrow>
             after_close a now
               (k\<lparr>ks_tasks := take i (ks_tasks k) @ drop (Suc i) (ks_tasks k)\<rparr>)))"

definition ks_retry_flatten ::
  "token_mac \<Rightarrow> kill_switch \<Rightarrow> timestamp \<Rightarrow> string \<Rightarrow> mfa_token \<Rightarrow> ks_result" where
  "ks_retry_flatten mac k now initiator token =
     (if validate_mfa mac k now token initiator = None then (k, [], Reply_Raised)
      else if validate_mfa mac k now token initiator = Some False then (k, [], Reply_Error Mfa_Failed)
      else if ks_state k \<notin> {KS_FLATTENED, KS_TRIGGERED}
        then (k, [], Reply_Error (Retry_Not_Valid (ks_state k)))
      else
        let k' = k\<lparr>ks_flatten_errors := [], ks_tasks := ks_tasks k @ [Await_Cancel]\<rparr>
        in (k', [Start_Flatten,
                 Audit_Retry (case ks_trigger_id k' of None \<Rightarrow> [] | Some i \<Rightarrow> i) initiator],
            Reply_Ok (ks_state k')))"

definition ks_acknowledge ::
  "token_mac \<Rightarrow> kill_switch \<Rightarrow> timestamp \<Rightarrow> string \<Rightarrow> mfa_token \<Rightarrow> ks_result" where
  "ks_acknowledge mac k now operator token =
     (if validate_mfa mac k now token operator = None then (k, [], Reply_Raised)
      else if validate_mfa mac k now token operator = Some False then (k, [], Reply_Error Mfa_Failed)
      else
        let k1 = k\<lparr>ks_acknowledged_by := Some operator\<rparr>;
            k2 = (if ks_state k1 = KS_FLATTENED then k1\<lparr>ks_state := KS_ACKNOWLEDGED\<rparr> else k1)
        in (k2, [Audit_Acknowledged (case ks_trigger_id k2 of None \<Rightarrow> [] | Some i \<Rightarrow> i) operator],
            Reply_Acknowledged operator))"

definition ks_restart_request ::
  "token_mac \<Rightarrow> kill_switch \<Rightarrow> timestamp \<Rightarrow> string \<Rightarrow> mfa_token \<Rightarrow> ks_result" where
  "ks_restart_request mac k now operator token =
     (if validate_mfa mac k now token operator = None then (k, [], Reply_Raised)
      else if validate_mfa mac k now token operator = Some False then (k, [], Reply_Error Mfa_Failed)
      else if ks_state k \<noteq> KS_ACKNOWLEDGED then (k, [], Reply_Error (Restart_Not_Valid (ks_state k)))
      else
        let k' = k\<lparr>ks_restart_requested_by := Some operator, ks_state := KS_RESTARTING\<rparr>;
            tid = (case ks_trigger_id k' of None \<Rightarrow> [] | Some i \<Rightarrow> i)
        in (k', [Publish_Resume_Command operator tid, Audit_Restart tid operator],
            Reply_Ok (ks_state k')))"

section \<open>Requests and steps\<close>

text \<open>
  The REST handlers with the defaults of their bodies: a missing field is \<open>"unknown"\<close>, the
  empty token, or the default reason. A body that is not JSON counts as empty, one that is JSON but not
  an object makes the handler raise.
\<close>

datatype ks_request =
    Req_Trigger "string option" "mfa_token option" "string option"
  | Req_Status
  | Req_Retry "string option" "mfa_token option"
  | Req_Acknowledge "string option" "mfa_token option"
  | Req_Restart "string option" "mfa_token option"
  | Req_No_Object

definition field_or :: "'a \<Rightarrow> 'a option \<Rightarrow> 'a" where
  "field_or d f = (case f of None \<Rightarrow> d | Some v \<Rightarrow> v)"

fun ks_serve :: "token_mac \<Rightarrow> kill_switch \<Rightarrow> timestamp \<Rightarrow> string \<Rightarrow> ks_request \<Rightarrow> ks_result" where
  "ks_serve mac k now new_id (Req_Trigger who tok why) =
     ks_trigger mac k now new_id (field_or ''unknown'' who) (field_or (Tok_Text []) tok)
       (field_or ''API trigger'' why)"
| "ks_serve mac k now new_id Req_Status = (k, [], Reply_Status (ks_status_dict k))"
| "ks_serve mac k now new_id (Req_Retry who tok) =
     ks_retry_flatten mac k now (field_or ''unknown'' who) (field_or (Tok_Text []) tok)"
| "ks_serve mac k now new_id (Req_Acknowledge who tok) =
     ks_acknowledge mac k now (field_or ''unknown'' who) (field_or (Tok_Text []) tok)"
| "ks_serve mac k now new_id (Req_Restart who tok) =
     ks_restart_request mac k now (field_or ''unknown'' who) (field_or (Tok_Text []) tok)"
| "ks_serve mac k now new_id Req_No_Object = (k, [], Reply_Raised)"

datatype ks_event =
    Ks_Request string ks_request
  | Ks_Flatten nat broker_answer

fun ks_event_step :: "token_mac \<Rightarrow> kill_switch \<Rightarrow> timestamp \<times> ks_event \<Rightarrow> kill_switch \<times> ks_effect list"
where
  "ks_event_step mac k (now, Ks_Request new_id req) =
     (let (k', out, reply) = ks_serve mac k now new_id req in (k', out))"
| "ks_event_step mac k (now, Ks_Flatten i a) = flatten_progress k now i a"

definition ks_step :: "token_mac \<Rightarrow> kill_switch \<Rightarrow> timestamp \<times> ks_event \<Rightarrow> kill_switch" where
  "ks_step mac k te = fst (ks_event_step mac k te)"

fun ks_run :: "token_mac \<Rightarrow> kill_switch \<Rightarrow> (timestamp \<times> ks_event) list \<Rightarrow> ks_effect list" where
  "ks_run mac k [] = []"
| "ks_run mac k (te # tes) = snd (ks_event_step mac k te) @ ks_run mac (ks_step mac k te) tes"

section \<open>The order of the states\<close>

text \<open>
  The permitted moves of one step, as the module documents the life of a switch, with the
  one the flatten task adds: it sets \<open>FLATTENED\<close> from any state but \<open>ARMED\<close>.
\<close>

inductive ks_moves :: "ks_state \<Rightarrow> ks_state \<Rightarrow> bool" where
  stays: "ks_moves st st"
| trigger: "ks_moves KS_ARMED KS_TRIGGERED"
| flattened: "st \<noteq> KS_ARMED \<Longrightarrow> ks_moves st KS_FLATTENED"
| acknowledged: "ks_moves KS_FLATTENED KS_ACKNOWLEDGED"
| restarting: "ks_moves KS_ACKNOWLEDGED KS_RESTARTING"

inductive_cases ks_moves_from_armed: "ks_moves KS_ARMED st"
inductive_cases ks_moves_to_restarting: "ks_moves st KS_RESTARTING"
inductive_cases ks_moves_to_armed: "ks_moves st KS_ARMED"

text \<open>An armed switch is fresh: nothing is running and nothing is recorded of a trigger.\<close>

definition ks_inv :: "kill_switch \<Rightarrow> bool" where
  "ks_inv k \<longleftrightarrow>
     (ks_state k = KS_ARMED \<longrightarrow> ks_tasks k = [] \<and> ks_trigger_id k = None \<and> ks_triggered_by k = None) \<and>
     (ks_state k \<noteq> KS_ARMED \<longrightarrow> ks_trigger_id k \<noteq> None \<and> ks_triggered_by k \<noteq> None) \<and>
     (ks_state k = KS_TRIGGERED \<longrightarrow> ks_tasks k \<noteq> []) \<and>
     (ks_state k = KS_ACKNOWLEDGED \<longrightarrow> ks_acknowledged_by k \<noteq> None) \<and>
     (ks_state k = KS_RESTARTING \<longrightarrow> ks_restart_requested_by k \<noteq> None)"

lemma ks_inv_init: "ks_inv (ks_init secret)"
  by (simp add: ks_inv_def ks_init_def)

lemmas ks_defs = ks_trigger_def ks_retry_flatten_def ks_acknowledge_def ks_restart_request_def Let_def

lemma ks_serve_inv: "ks_inv k \<Longrightarrow> ks_inv (fst (ks_serve mac k now new_id req))"
  by (cases req) (auto simp: ks_inv_def ks_defs)

lemma flatten_inv: "ks_inv k \<Longrightarrow> ks_inv (fst (flatten_progress k now i a))"
  by (cases a) (auto simp: ks_inv_def flatten_progress_def after_cancel_def after_close_def Let_def
      split: flatten_stage.split)

lemma ks_step_inv: "ks_inv k \<Longrightarrow> ks_inv (ks_step mac k te)"
  by (cases te; cases "snd te") (auto simp: ks_step_def case_prod_beta ks_serve_inv flatten_inv)

interpretation ks: inv_machine "ks_step mac" ks_inv for mac
  by unfold_locales (rule ks_step_inv)

lemma ks_serve_moves: "ks_moves (ks_state k) (ks_state (fst (ks_serve mac k now new_id req)))"
  by (cases req) (auto simp: ks_defs intro: ks_moves.intros)

lemma flatten_moves:
  "ks_inv k \<Longrightarrow> ks_moves (ks_state k) (ks_state (fst (flatten_progress k now i a)))"
  by (cases a) (auto simp: ks_inv_def flatten_progress_def after_cancel_def after_close_def Let_def
      split: flatten_stage.split intro: ks_moves.intros)

lemma ks_step_moves: "ks_inv k \<Longrightarrow> ks_moves (ks_state k) (ks_state (ks_step mac k te))"
  by (cases te; cases "snd te") (auto simp: ks_step_def case_prod_beta ks_serve_moves flatten_moves)

lemma never_rearmed:
  "ks_inv k \<Longrightarrow> ks_state k \<noteq> KS_ARMED \<Longrightarrow> ks_state (ks_step mac k te) \<noteq> KS_ARMED"
  using ks_step_moves [of k mac te] by (auto elim: ks_moves_to_armed)

definition is_kill :: "ks_effect \<Rightarrow> bool" where
  "is_kill e = (case e of Publish_Kill_Switch _ _ _ _ \<Rightarrow> True | _ \<Rightarrow> False)"

lemma kill_needs_armed:
  assumes "e \<in> set (snd (ks_event_step mac k te))" and "is_kill e"
  shows "ks_state k = KS_ARMED" and "ks_state (ks_step mac k te) \<noteq> KS_ARMED"
    and "filter is_kill (snd (ks_event_step mac k te)) = [e]"
proof -
  obtain now ev where te: "te = (now, ev)" by (cases te)
  have "ks_state k = KS_ARMED \<and> ks_state (ks_step mac k te) \<noteq> KS_ARMED \<and>
      filter is_kill (snd (ks_event_step mac k te)) = [e]"
  proof (cases ev)
    case (Ks_Request new_id req)
    with assms show ?thesis
      by (cases req) (auto simp: te ks_step_def ks_defs is_kill_def case_prod_beta split: if_splits)
  next
    case (Ks_Flatten i a)
    with assms show ?thesis
      by (auto simp: te flatten_progress_def after_close_def is_kill_def Let_def
          split: if_splits flatten_stage.splits)
  qed
  then show "ks_state k = KS_ARMED" and "ks_state (ks_step mac k te) \<noteq> KS_ARMED"
    and "filter is_kill (snd (ks_event_step mac k te)) = [e]" by auto
qed

lemma spent_run:
  assumes "ks_inv k" and "ks_state k \<noteq> KS_ARMED"
  shows "filter is_kill (ks_run mac k tes) = []"
  using assms
proof (induction tes arbitrary: k)
  case (Cons te tes)
  have "filter is_kill (snd (ks_event_step mac k te)) = []"
    using kill_needs_armed(1) [of _ mac k te] Cons.prems(2) by (auto simp: filter_empty_conv)
  with Cons.IH [OF ks_step_inv [OF Cons.prems(1)] never_rearmed [OF Cons.prems]]
  show ?case by simp
qed simp

section \<open>The supervisor as a subscriber\<close>

text \<open>
  The topics the supervisor receives: its \<open>subscribed_topics\<close> and the three subscriptions of
  its \<open>on_startup\<close>. What the switch publishes reaches the supervisor only on one of them.
\<close>

definition psa_topics :: "string list" where
  "psa_topics = [''trade_closed'', ''psa_alert'', ''reconciliation_status'', ''fill_event'',
     ''position_update'', ''daily_pnl'', ''agent_heartbeat'', ''system_state'',
     ''session_start'', ''session_end'', ''kill_switch'']"

fun ks_topic :: "ks_effect \<Rightarrow> string option" where
  "ks_topic (Publish_Kill_Switch _ _ _ _) = Some ''kill_switch''"
| "ks_topic (Publish_Resume_Command _ _) = Some ''resume_command''"
| "ks_topic _ = None"

definition psa_receives :: "psa_config \<Rightarrow> timestamp \<Rightarrow> psa \<Rightarrow> ks_effect \<Rightarrow> psa" where
  "psa_receives cf now s e =
     (case ks_topic e of
        None \<Rightarrow> s
      | Some tp \<Rightarrow>
          if tp \<notin> set psa_topics then s
          else
            (case e of
               Publish_Kill_Switch _ why who _ \<Rightarrow> psa_step cf s (now, Ev_Kill_Switch why who)
             | Publish_Resume_Command who _ \<Rightarrow>
                 psa_step cf s (now, Ev_Message (Msg_System_State (Some ''resume'') (Some who)))
             | _ \<Rightarrow> s))"

section \<open>Properties\<close>

definition request_credentials :: "ks_request \<Rightarrow> (string \<times> mfa_token) option" where
  "request_credentials req =
     (case req of
        Req_Trigger who tok _ \<Rightarrow> Some (field_or ''unknown'' who, field_or (Tok_Text []) tok)
      | Req_Status \<Rightarrow> None
      | Req_Retry who tok \<Rightarrow> Some (field_or ''unknown'' who, field_or (Tok_Text []) tok)
      | Req_Acknowledge who tok \<Rightarrow> Some (field_or ''unknown'' who, field_or (Tok_Text []) tok)
      | Req_Restart who tok \<Rightarrow> Some (field_or ''unknown'' who, field_or (Tok_Text []) tok)
      | Req_No_Object \<Rightarrow> None)"



text \<open>C31. Life cycle: in every run from a fresh switch each step keeps the state or follows
  armed, triggered, flattened, acknowledged, restarting, except that a finishing flatten
  returns any state but armed to flattened; a triggered switch has its id, its initiator and
  a flatten under way, an acknowledged one its operator, a restarting one its requester.\<close>

theorem ks_life_cycle:
  "let k = foldl (ks_step mac) (ks_init secret) tes
   in ks_moves (ks_state k) (ks_state (ks_step mac k te)) \<and> ks_inv k"
  using ks.run_inv [OF ks_inv_init, of mac secret tes] by (simp add: Let_def ks_step_moves)

text \<open>The kill command is published at most once: whatever requests, retries and flattens
  a switch goes through in its life, its trigger takes effect at most one time.\<close>

theorem ks_kills_at_most_once:
  "length (filter is_kill (ks_run mac (ks_init secret) tes)) \<le> 1"
proof -
  have "length (filter is_kill (ks_run mac k tes)) \<le> 1" if "ks_inv k" for k
    using that
  proof (induction tes arbitrary: k)
    case (Cons te tes)
    show ?case
    proof (cases "filter is_kill (snd (ks_event_step mac k te))")
      case Nil
      with Cons.IH [OF ks_step_inv [OF Cons.prems]] show ?thesis by simp
    next
      case (Cons e es)
      then have "e \<in> set (filter is_kill (snd (ks_event_step mac k te)))" by simp
      then have e: "e \<in> set (snd (ks_event_step mac k te))" "is_kill e" by auto
      show ?thesis
        using kill_needs_armed(3) [OF e]
          spent_run [OF ks_step_inv [OF \<open>ks_inv k\<close>] kill_needs_armed(2) [OF e], where tes = tes]
        by simp
    qed
  qed simp
  from this [OF ks_inv_init] show ?thesis .
qed

text \<open>A switch works once: after any run that triggered it, restart included, and any
  further run, a correct trigger request is answered 403 with the status, and neither stops
  nor publishes anything.\<close>

theorem ks_never_triggers_again:
  assumes "ks_state (foldl (ks_step mac) (ks_init secret) tes) \<noteq> KS_ARMED"
    and "validate_mfa mac (foldl (ks_step mac) (ks_init secret) (tes @ tes')) now tok who = Some True"
  shows "let k = foldl (ks_step mac) (ks_init secret) (tes @ tes')
         in ks_trigger mac k now new_id who tok why = (k, [], Reply_Status (ks_status_dict k)) \<and>
            http_status (Reply_Status (ks_status_dict k)) = 403"
proof -
  have "ks_state (foldl (ks_step mac) k tes') \<noteq> KS_ARMED" if "ks_inv k" "ks_state k \<noteq> KS_ARMED" for k
    using that by (induction tes' arbitrary: k) (auto simp: ks_step_inv never_rearmed)
  from this [OF ks.run_inv [OF ks_inv_init] assms(1)] assms(2) show ?thesis
    by (simp add: Let_def ks_trigger_def)
qed

definition ks_story :: "(timestamp \<times> ks_event) list" where
  "ks_story = [(1, Ks_Request ''t'' (Req_Trigger (Some ''op'') None None)),
     (2, Ks_Flatten 0 (Ans_Int 4)), (3, Ks_Flatten 0 Ans_Timeout),
     (4, Ks_Request [] (Req_Retry (Some ''op'') None)),
     (5, Ks_Flatten 0 (Ans_Int 0)),
     (6, Ks_Request [] (Req_Acknowledge (Some ''op'') None)),
     (7, Ks_Request [] (Req_Restart (Some ''op'') None))]"

lemmas ks_compute = ks_story_def ks_step_def ks_defs validate_mfa_def ks_init_def
  flatten_progress_def after_cancel_def after_close_def count_answer_def

theorem ks_never_triggers_again_witness:
  "let k = foldl (ks_step (\<lambda>s i w. i)) (ks_init []) (ks_story @ [(8, Ks_Request [] Req_Status)])
   in ks_state k = KS_RESTARTING \<and>
      ks_trigger (\<lambda>s i w. i) k 9 ''u'' ''op'' (Tok_Text []) ''again'' = (k, [], Reply_Status (ks_status_dict k))"
proof -
  let ?k = "foldl (ks_step (\<lambda>s i w. i)) (ks_init []) (ks_story @ [(8, Ks_Request [] Req_Status)])"
  have a: "ks_state (foldl (ks_step (\<lambda>s i w. i)) (ks_init []) ks_story) \<noteq> KS_ARMED"
    by (simp add: ks_compute)
  have b: "ks_state ?k = KS_RESTARTING" by (simp add: ks_compute)
  have c: "validate_mfa (\<lambda>s i w. i) ?k 9 (Tok_Text []) ''op'' = Some True" by (simp add: ks_compute)
  show ?thesis
    using b ks_never_triggers_again [OF a c, of "''u''" "''again''"] by (simp add: Let_def)
qed

text \<open>A late flatten takes back an acknowledgement: when a flatten is still waiting for its
  broker answer, the answer, whatever it is, puts an acknowledged or restarting switch back
  to flattened.\<close>

theorem late_flatten_undoes_restart:
  assumes "i < length (ks_tasks k)" and "ks_tasks k ! i = Await_Close"
  shows "ks_state (ks_step mac k (now, Ks_Flatten i a)) = KS_FLATTENED"
  using assms by (simp add: ks_step_def flatten_progress_def after_close_def Let_def)

theorem late_flatten_undoes_restart_witness:
  "let k = foldl (ks_step (\<lambda>s i w. i)) (ks_init []) ks_story
   in ks_state k = KS_RESTARTING \<and> ks_state (ks_step (\<lambda>s i w. i) k (8, Ks_Flatten 0 (Ans_Int 0))) = KS_FLATTENED"
proof -
  let ?k = "foldl (ks_step (\<lambda>s i w. i)) (ks_init []) ks_story"
  have "ks_state ?k = KS_RESTARTING" "0 < length (ks_tasks ?k)" "ks_tasks ?k ! 0 = Await_Close"
    by (simp_all add: ks_compute)
  with late_flatten_undoes_restart [of 0 ?k "\<lambda>s i w. i" 8 "Ans_Int 0"] show ?thesis
    by (simp add: Let_def)
qed

text \<open>C8. Emergency stop end to end: a correct trigger request on an armed switch, once what it
  publishes has reached the supervisor, leaves the supervisor halted and refusing every
  trade.\<close>

theorem kill_switch_halts_supervisor:
  assumes "validate_mfa mac k now tok who = Some True" and "ks_state k = KS_ARMED" and "psa_inv s"
  shows "p_system_state (foldl (psa_receives cf later) s
             (fst (snd (ks_trigger mac k now new_id who tok why)))) = HALTED \<and>
         \<not> is_trading_allowed (foldl (psa_receives cf later) s
             (fst (snd (ks_trigger mac k now new_id who tok why)))) instant"
proof -
  let ?s = "psa_step cf s (later, Ev_Kill_Switch why who)"
  have r: "foldl (psa_receives cf later) s (fst (snd (ks_trigger mac k now new_id who tok why))) = ?s"
    using assms(1,2) by (simp add: ks_defs psa_receives_def psa_topics_def)
  have h: "p_system_state ?s = HALTED" by (simp add: psa_step_def psa_kill_switch_def)
  with psa_inv_trading_blocked [OF psa_step_inv [OF assms(3)]] show ?thesis
    unfolding r by blast
qed

theorem kill_switch_halts_supervisor_witness:
  "let s = (psa_init 0)\<lparr>p_system_state := TRADING\<rparr>;
       out = fst (snd (ks_trigger (\<lambda>s i w. i) (ks_init ''s'') 5 ''id'' ''op'' (Tok_Text ''op'') ''stop''))
   in p_system_state (foldl (psa_receives psa_defaults 6) s out) = HALTED"
proof -
  have v: "validate_mfa (\<lambda>s i w. i) (ks_init ''s'') 5 (Tok_Text ''op'') ''op'' = Some True"
    by (simp add: validate_mfa_def comparable_def ks_init_def)
  have a: "ks_state (ks_init ''s'') = KS_ARMED" by (simp add: ks_init_def)
  have i: "psa_inv ((psa_init 0)\<lparr>p_system_state := TRADING\<rparr>)"
    by (simp add: psa_inv_def psa_init_def fsm_inv_init)
  show ?thesis
    using kill_switch_halts_supervisor [OF v a i, of psa_defaults 6 "''id''" "''stop''"]
    by (simp add: Let_def)
qed

text \<open>The restart does not arrive: what a successful restart request publishes goes to a
  topic the supervisor does not receive, so the supervisor stays exactly as it is, halted if
  it was halted.\<close>

theorem restart_never_reaches_supervisor:
  "foldl (psa_receives cf later) s (fst (snd (ks_restart_request mac k now who tok))) = s"
  by (simp add: ks_defs psa_receives_def psa_topics_def)

end
