(* ===== verification/Dark_Pool.thy ===== *)
theory Dark_Pool
  imports Enums
begin

text \<open>
  The internal crossing engine of \<open>agents/agent_25_dark_pool.py\<close> (class \<open>DarkPoolATS\<close>): the
  inventory dictionary, the eligibility test, routing with its statistics, and the
  accessors. The generated trade id and the clock reading are arguments of \<open>route\<close>; the
  rounding of \<open>summary\<close> for display is left out.
\<close>

section \<open>Data\<close>

definition pfof_payment_per_share :: pyfloat where "pfof_payment_per_share = 1 / 1000"
definition exchange_fee_per_share :: pyfloat where "exchange_fee_per_share = 3 / 1000"

datatype routing_decision = RT_INTERNALIZED | RT_LIT_MARKET | RT_REJECTED

datatype order_flow = OF_RETAIL | OF_INSTITUTIONAL | OF_ARBITRAGE

record incoming_order =
  io_order_id :: string
  io_symbol :: symbol
  io_side :: string
  io_qty :: int
  io_limit_price :: pyfloat
  io_flow_type :: order_flow
  io_timestamp_ns :: timestamp

record inventory_position =
  inv_symbol :: symbol
  inv_long_qty :: int
  inv_short_qty :: int
  inv_avg_cost :: pyfloat

definition net_qty :: "inventory_position \<Rightarrow> int" where
  "net_qty p = inv_long_qty p - inv_short_qty p"

definition can_sell :: "inventory_position \<Rightarrow> bool" where
  "can_sell p \<longleftrightarrow> 0 < inv_long_qty p"

definition can_buy_to_cover :: "inventory_position \<Rightarrow> bool" where
  "can_buy_to_cover p \<longleftrightarrow> 0 < inv_short_qty p"

record crossed_trade =
  ct_trade_id :: string
  ct_order_id :: string
  ct_symbol :: symbol
  ct_side :: string
  ct_qty :: int
  ct_cross_price :: pyfloat
  ct_bid :: pyfloat
  ct_ask :: pyfloat
  ct_spread_bps :: pyfloat
  ct_pfof_payment :: pyfloat
  ct_exchange_fee_saved :: pyfloat
  ct_routing_decision :: routing_decision
  ct_timestamp_ns :: timestamp

record ats_stats =
  as_total_orders :: int
  as_internalized :: int
  as_lit_routed :: int
  as_rejected :: int
  as_total_pfof_paid :: pyfloat
  as_total_fees_saved :: pyfloat
  as_volume_internalized :: int
  as_volume_lit :: int

definition stats_init :: ats_stats where
  "stats_init = \<lparr>as_total_orders = 0, as_internalized = 0, as_lit_routed = 0, as_rejected = 0,
     as_total_pfof_paid = 0, as_total_fees_saved = 0, as_volume_internalized = 0,
     as_volume_lit = 0\<rparr>"

definition internalization_rate :: "ats_stats \<Rightarrow> pyfloat" where
  "internalization_rate st =
     (if as_total_orders st = 0 then 0
      else of_int (as_internalized st) / of_int (as_total_orders st))"

definition net_benefit_usd :: "ats_stats \<Rightarrow> pyfloat" where
  "net_benefit_usd st = as_total_fees_saved st - as_total_pfof_paid st"

record ats =
  ats_max_qty :: int
  ats_min_spread_bps :: pyfloat
  ats_internalize_arb :: bool
  ats_inventory :: "symbol \<rightharpoonup> inventory_position"
  ats_trades :: "crossed_trade list"
  ats_stats :: ats_stats

definition ats_init :: "int \<Rightarrow> pyfloat \<Rightarrow> bool \<Rightarrow> ats" where
  "ats_init max_qty min_spread arb = \<lparr>ats_max_qty = max_qty, ats_min_spread_bps = min_spread,
     ats_internalize_arb = arb, ats_inventory = Map.empty, ats_trades = [],
     ats_stats = stats_init\<rparr>"

section \<open>Operations\<close>

definition update_inventory :: "symbol \<Rightarrow> int \<Rightarrow> int \<Rightarrow> pyfloat \<Rightarrow> ats \<Rightarrow> ats" where
  "update_inventory sy long_qty short_qty avg_cost a =
     a\<lparr>ats_inventory := (ats_inventory a)(sy \<mapsto>
         \<lparr>inv_symbol = sy, inv_long_qty = long_qty, inv_short_qty = short_qty,
          inv_avg_cost = avg_cost\<rparr>)\<rparr>"

definition spread_bps :: "pyfloat \<Rightarrow> pyfloat \<Rightarrow> pyfloat" where
  "spread_bps bid ask =
     (let mid = (bid + ask) / 2 in if mid \<le> 0 then 0 else (ask - bid) / mid * 10000)"

definition can_internalize :: "ats \<Rightarrow> incoming_order \<Rightarrow> pyfloat \<Rightarrow> pyfloat \<Rightarrow> bool" where
  "can_internalize a ord bid ask =
     (if io_flow_type ord = OF_ARBITRAGE \<and> \<not> ats_internalize_arb a then False
      else if ats_max_qty a < io_qty ord then False
      else if spread_bps bid ask < ats_min_spread_bps a then False
      else
        (case ats_inventory a (io_symbol ord) of
           None \<Rightarrow> False
         | Some p \<Rightarrow>
             if io_side ord = ''buy'' then
               (if \<not> can_sell p then False
                else if inv_long_qty p < io_qty ord then False else True)
             else (if inv_long_qty p < io_qty ord then False else True)))"

definition route ::
  "string \<Rightarrow> timestamp \<Rightarrow> incoming_order \<Rightarrow> pyfloat \<Rightarrow> pyfloat \<Rightarrow> ats \<Rightarrow> ats \<times> crossed_trade" where
  "route trade_id now ord bid ask a =
     (let st = ats_stats a;
          st = st\<lparr>as_total_orders := as_total_orders st + 1\<rparr>;
          mid = (bid + ask) / 2;
          spd_bps = spread_bps bid ask;
          trade = (\<lambda>price pfof fee decision.
             \<lparr>ct_trade_id = trade_id, ct_order_id = io_order_id ord, ct_symbol = io_symbol ord,
              ct_side = io_side ord, ct_qty = io_qty ord, ct_cross_price = price, ct_bid = bid,
              ct_ask = ask, ct_spread_bps = spd_bps, ct_pfof_payment = pfof,
              ct_exchange_fee_saved = fee, ct_routing_decision = decision,
              ct_timestamp_ns = now\<rparr>)
      in
      if can_internalize a ord bid ask then
        let pfof = pfof_payment_per_share * of_int (io_qty ord);
            fee_saved = exchange_fee_per_share * of_int (io_qty ord);
            p = the (ats_inventory a (io_symbol ord));
            t = trade mid pfof fee_saved RT_INTERNALIZED
        in (a\<lparr>ats_inventory := (ats_inventory a)(io_symbol ord \<mapsto>
                 p\<lparr>inv_long_qty := inv_long_qty p - io_qty ord\<rparr>),
              ats_stats := st\<lparr>as_internalized := as_internalized st + 1,
                 as_total_pfof_paid := as_total_pfof_paid st + pfof,
                 as_total_fees_saved := as_total_fees_saved st + fee_saved,
                 as_volume_internalized := as_volume_internalized st + io_qty ord\<rparr>,
              ats_trades := ats_trades a @ [t]\<rparr>, t)
      else
        let lit_price = (if io_side ord = ''buy'' then ask else bid);
            t = trade lit_price 0 0 RT_LIT_MARKET
        in (a\<lparr>ats_stats := st\<lparr>as_lit_routed := as_lit_routed st + 1,
                 as_volume_lit := as_volume_lit st + io_qty ord\<rparr>,
              ats_trades := ats_trades a @ [t]\<rparr>, t))"

section \<open>Events\<close>

datatype ats_event =
    Ats_Inventory symbol int int pyfloat
  | Ats_Order string incoming_order pyfloat pyfloat

fun ats_event_step :: "ats \<Rightarrow> timestamp \<times> ats_event \<Rightarrow> ats" where
  "ats_event_step a (now, Ats_Inventory sy l s c) = update_inventory sy l s c a"
| "ats_event_step a (now, Ats_Order i ord bid ask) = fst (route i now ord bid ask a)"

section \<open>The books balance\<close>

definition internal_trades :: "ats \<Rightarrow> crossed_trade list" where
  "internal_trades a = filter (\<lambda>t. ct_routing_decision t = RT_INTERNALIZED) (ats_trades a)"

definition lit_trades :: "ats \<Rightarrow> crossed_trade list" where
  "lit_trades a = filter (\<lambda>t. ct_routing_decision t = RT_LIT_MARKET) (ats_trades a)"

text \<open>
  The statistics are those of the trade log: counts, volumes, payments and fees; and every
  trade in the log crossed at the midpoint or at the lit side it belongs to.
\<close>

definition trade_priced :: "crossed_trade \<Rightarrow> bool" where
  "trade_priced t \<longleftrightarrow>
     (case ct_routing_decision t of
        RT_INTERNALIZED \<Rightarrow> ct_cross_price t = (ct_bid t + ct_ask t) / 2
      | RT_LIT_MARKET \<Rightarrow> ct_cross_price t = (if ct_side t = ''buy'' then ct_ask t else ct_bid t)
      | RT_REJECTED \<Rightarrow> False)"

definition ats_books :: "ats \<Rightarrow> bool" where
  "ats_books a \<longleftrightarrow>
     (let st = ats_stats a in
      as_total_orders st = int (length (ats_trades a)) \<and>
      as_internalized st = int (length (internal_trades a)) \<and>
      as_lit_routed st = int (length (lit_trades a)) \<and>
      as_rejected st = 0 \<and>
      as_internalized st + as_lit_routed st = as_total_orders st \<and>
      as_volume_internalized st = sum_list (map ct_qty (internal_trades a)) \<and>
      as_volume_lit st = sum_list (map ct_qty (lit_trades a)) \<and>
      as_total_pfof_paid st = 1 / 1000 * of_int (as_volume_internalized st) \<and>
      as_total_fees_saved st = 3 / 1000 * of_int (as_volume_internalized st) \<and>
      (\<forall>t \<in> set (ats_trades a). trade_priced t))"

lemma ats_books_init: "ats_books (ats_init q m b)"
  by (simp add: ats_books_def ats_init_def stats_init_def internal_trades_def lit_trades_def)

lemma route_books: "ats_books a \<Longrightarrow> ats_books (fst (route i now ord bid ask a))"
  by (auto simp: ats_books_def route_def Let_def internal_trades_def lit_trades_def trade_priced_def
      pfof_payment_per_share_def exchange_fee_per_share_def algebra_simps)

lemma update_inventory_books: "ats_books a \<Longrightarrow> ats_books (update_inventory sy l s c a)"
  by (simp add: update_inventory_def ats_books_def internal_trades_def lit_trades_def)

lemma ats_step_books: "ats_books a \<Longrightarrow> ats_books (ats_event_step a te)"
  by (cases te; cases "snd te") (auto simp: route_books update_inventory_books)

interpretation ats_ledger: inv_machine ats_event_step ats_books
  by unfold_locales (rule ats_step_books)

text \<open>Routing never oversells the inventory, and never crosses arbitrage flow.\<close>

lemma can_internalize_inv:
  "can_internalize a ord bid ask \<Longrightarrow>
     \<exists>p. ats_inventory a (io_symbol ord) = Some p \<and> io_qty ord \<le> inv_long_qty p"
  by (auto simp: can_internalize_def split: if_splits option.splits)

definition ats_stocked :: "ats \<Rightarrow> bool" where
  "ats_stocked a \<longleftrightarrow> (\<forall>p \<in> ran (ats_inventory a). 0 \<le> inv_long_qty p)"

lemma route_stocked: "ats_stocked a \<Longrightarrow> ats_stocked (fst (route i now ord bid ask a))"
  using can_internalize_inv [of a ord bid ask]
  by (auto simp: ats_stocked_def route_def Let_def ran_def split: if_splits)

section \<open>Properties\<close>

text \<open>The venue's statistics are those of its trade log: after any sequence of inventory
  updates and orders, the counters count the log's trades by their routing, every order is
  crossed or routed to the lit market, volumes are the sums of the trades' quantities, the
  payments and savings are the fees per share times the internal volume, and every trade has
  the price of its routing (the midpoint, or the ask for a buy and the bid otherwise).\<close>

theorem ats_stats_match_log: "ats_books (foldl ats_event_step (ats_init q m b) tes)"
  by (rule ats_ledger.run_inv) (rule ats_books_init)

text \<open>What an order gets: it is crossed exactly when it is eligible, then at the midpoint,
  no worse for either side than the lit market when the quote is not crossed, with half the
  spread of improvement, and out of an inventory that covers it and stays non-negative when
  it was; otherwise it is routed at the lit price and the inventory is untouched.\<close>

theorem route_outcome:
  assumes "route i now ord bid ask a = (a', t)" and "bid \<le> ask"
  shows "ct_routing_decision t = (if can_internalize a ord bid ask then RT_INTERNALIZED else RT_LIT_MARKET) \<and>
         (ct_routing_decision t = RT_INTERNALIZED \<longrightarrow>
            bid \<le> ct_cross_price t \<and> ct_cross_price t \<le> ask \<and>
            ask - ct_cross_price t = (ask - bid) / 2 \<and> ct_cross_price t - bid = (ask - bid) / 2 \<and>
            ats_min_spread_bps a \<le> spread_bps bid ask) \<and>
         (ct_routing_decision t = RT_LIT_MARKET \<longrightarrow>
            ats_inventory a' = ats_inventory a \<and>
            ct_cross_price t = (if io_side ord = ''buy'' then ask else bid)) \<and>
         (ats_stocked a \<longrightarrow> ats_stocked a')"
proof -
  have "ats_stocked a \<longrightarrow> ats_stocked a'"
    using route_stocked [of a i now ord bid ask] assms(1) by auto
  moreover have "can_internalize a ord bid ask \<Longrightarrow> ats_min_spread_bps a \<le> spread_bps bid ask"
    by (auto simp: can_internalize_def split: if_splits)
  ultimately show ?thesis
    using assms by (auto simp: route_def Let_def field_simps split: if_splits)
qed

text \<open>Every crossed order, a sell as well as a buy, takes its quantity out of the long
  inventory of its symbol and moves nothing else, so crossing a client's sell shrinks the
  inventory that the purchase should have grown.\<close>

theorem crossed_sell_shrinks_inventory:
  assumes "can_internalize a ord bid ask" and "ats_inventory a (io_symbol ord) = Some p"
  shows "ats_inventory (fst (route i now ord bid ask a)) =
           (ats_inventory a)(io_symbol ord \<mapsto> p\<lparr>inv_long_qty := inv_long_qty p - io_qty ord\<rparr>)"
  using assms by (simp add: route_def Let_def)

definition sell_example :: incoming_order where
  "sell_example = \<lparr>io_order_id = ''o'', io_symbol = ''X'', io_side = ''sell'', io_qty = 100,
     io_limit_price = 0, io_flow_type = OF_RETAIL, io_timestamp_ns = 0\<rparr>"

definition ats_example :: ats where
  "ats_example = update_inventory ''X'' 500 0 10 (ats_init 10000 1 False)"

lemma sell_example_crosses: "can_internalize ats_example sell_example 99 101"
  by (simp add: can_internalize_def ats_example_def sell_example_def update_inventory_def
      ats_init_def spread_bps_def)

theorem route_outcome_witness:
  "ct_cross_price (snd (route ''t'' 1 sell_example 99 101 ats_example)) = 100 \<and>
   ct_routing_decision (snd (route ''t'' 1 sell_example 99 101 ats_example)) = RT_INTERNALIZED"
  using route_outcome [of "''t''" 1 sell_example 99 101 ats_example
      "fst (route ''t'' 1 sell_example 99 101 ats_example)"
      "snd (route ''t'' 1 sell_example 99 101 ats_example)"] sell_example_crosses
  by simp

theorem crossed_sell_shrinks_inventory_witness:
  "map_option inv_long_qty
     (ats_inventory (fst (route ''t'' 1 sell_example 99 101 ats_example)) ''X'') = Some 400"
  using crossed_sell_shrinks_inventory [OF sell_example_crosses,
      of "\<lparr>inv_symbol = ''X'', inv_long_qty = 500, inv_short_qty = 0, inv_avg_cost = 10\<rparr>" "''t''" 1]
  by (simp add: ats_example_def update_inventory_def sell_example_def)

end
