(* ===== verification/Order_Book.thy ===== *)
theory Order_Book
  imports Enums
begin

text \<open>
  The market-by-order book of \<open>data/mbo_orderbook.py\<close> (classes \<open>MBOOrderBook\<close> and
  \<open>MBOOrderBookCache\<close>). An order object is shared between the id dictionary and the queue
  of its price level, and \<open>modify_order\<close> changes it in place, so orders live in a store and
  both hold references. The third-party sorted dictionary is a map together with a parameter
  \<open>items\<close>, the list of its items in key order, which only the reading operations use
  (interface \<open>sorted_dict\<close>). The clock readings are arguments. Quantities and prices of the
  two sides are kept as the code keeps them: bids under the negated price.
\<close>

section \<open>State\<close>

record mbo_order =
  mo_order_id :: string
  mo_price :: pyfloat
  mo_side :: string
  mo_qty :: int
  mo_venue :: string
  mo_ts_ns :: timestamp

record price_level =
  pl_price :: pyfloat
  pl_orders :: "nat list"
  pl_total_qty :: int

datatype venue_event = Ev_Add | Ev_Cancel

record mbo_book =
  mb_symbol :: symbol
  mb_max_depth :: nat
  mb_bids :: "pyfloat \<rightharpoonup> price_level"
  mb_asks :: "pyfloat \<rightharpoonup> price_level"
  mb_orders :: "string \<rightharpoonup> nat"
  mb_store :: "nat \<Rightarrow> mbo_order"
  mb_next :: nat
  mb_venue_events :: "string \<rightharpoonup> (timestamp \<times> venue_event) list"

definition no_order :: mbo_order where
  "no_order = \<lparr>mo_order_id = [], mo_price = 0, mo_side = [], mo_qty = 0, mo_venue = [], mo_ts_ns = 0\<rparr>"

definition mbo_init :: "symbol \<Rightarrow> nat \<Rightarrow> mbo_book" where
  "mbo_init sy depth = \<lparr>mb_symbol = sy, mb_max_depth = depth, mb_bids = Map.empty,
     mb_asks = Map.empty, mb_orders = Map.empty, mb_store = (\<lambda>_. no_order), mb_next = 0,
     mb_venue_events = Map.empty\<rparr>"

definition is_bid :: "string \<Rightarrow> bool" where
  "is_bid side \<longleftrightarrow> side = ''bid''"

definition side_book :: "mbo_book \<Rightarrow> bool \<Rightarrow> pyfloat \<rightharpoonup> price_level" where
  "side_book b bid = (if bid then mb_bids b else mb_asks b)"

definition set_side_book :: "bool \<Rightarrow> (pyfloat \<rightharpoonup> price_level) \<Rightarrow> mbo_book \<Rightarrow> mbo_book" where
  "set_side_book bid m b = (if bid then b\<lparr>mb_bids := m\<rparr> else b\<lparr>mb_asks := m\<rparr>)"

definition level_key :: "bool \<Rightarrow> pyfloat \<Rightarrow> pyfloat" where
  "level_key bid price = (if bid then - price else price)"

definition record_event ::
  "string \<Rightarrow> timestamp \<times> venue_event \<Rightarrow> mbo_book \<Rightarrow> mbo_book" where
  "record_event venue e b =
     (let events = (case mb_venue_events b venue of None \<Rightarrow> [] | Some es \<Rightarrow> es)
      in b\<lparr>mb_venue_events := (mb_venue_events b)(venue \<mapsto> events @ [e])\<rparr>)"

section \<open>Operations\<close>

text \<open>The level of a price; a missing level is created empty. What is found is written back.\<close>

definition get_or_create_level :: "mbo_book \<Rightarrow> bool \<Rightarrow> pyfloat \<Rightarrow> price_level" where
  "get_or_create_level b bid price =
     (case side_book b bid (level_key bid price) of
        None \<Rightarrow> \<lparr>pl_price = price, pl_orders = [], pl_total_qty = 0\<rparr>
      | Some l \<Rightarrow> l)"

definition put_level :: "bool \<Rightarrow> pyfloat \<Rightarrow> price_level \<Rightarrow> mbo_book \<Rightarrow> mbo_book" where
  "put_level bid price l b = set_side_book bid ((side_book b bid)(level_key bid price \<mapsto> l)) b"

definition add_order ::
  "string \<Rightarrow> pyfloat \<Rightarrow> string \<Rightarrow> int \<Rightarrow> string \<Rightarrow> timestamp \<Rightarrow> mbo_book \<Rightarrow> mbo_book" where
  "add_order oid price side qty venue ts_ns b =
     (let r = mb_next b;
          ord = \<lparr>mo_order_id = oid, mo_price = price, mo_side = side, mo_qty = qty,
                 mo_venue = venue, mo_ts_ns = ts_ns\<rparr>;
          b1 = b\<lparr>mb_store := (mb_store b)(r := ord), mb_next := r + 1,
                 mb_orders := (mb_orders b)(oid \<mapsto> r)\<rparr>;
          l = get_or_create_level b1 (is_bid side) price;
          b2 = put_level (is_bid side) price
                 (l\<lparr>pl_orders := pl_orders l @ [r], pl_total_qty := pl_total_qty l + qty\<rparr>) b1
      in record_event venue (ts_ns, Ev_Add) b2)"

definition modify_order :: "string \<Rightarrow> int \<Rightarrow> mbo_book \<Rightarrow> mbo_book" where
  "modify_order oid new_qty b =
     (case mb_orders b oid of
        None \<Rightarrow> b
      | Some r \<Rightarrow>
          let ord = mb_store b r;
              bid = is_bid (mo_side ord);
              l = get_or_create_level b bid (mo_price ord);
              b1 = put_level bid (mo_price ord)
                     (l\<lparr>pl_total_qty := pl_total_qty l + (new_qty - mo_qty ord)\<rparr>) b
          in b1\<lparr>mb_store := (mb_store b1)(r := ord\<lparr>mo_qty := new_qty\<rparr>)\<rparr>)"

text \<open>\<open>deque.remove(order)\<close>: the first order that is equal in all its fields.\<close>

fun remove_equal :: "(nat \<Rightarrow> mbo_order) \<Rightarrow> mbo_order \<Rightarrow> nat list \<Rightarrow> nat list" where
  "remove_equal st ord [] = []"
| "remove_equal st ord (r # rs) = (if st r = ord then rs else r # remove_equal st ord rs)"

definition cancel_order :: "string \<Rightarrow> timestamp \<Rightarrow> mbo_book \<Rightarrow> mbo_book" where
  "cancel_order oid now b =
     (case mb_orders b oid of
        None \<Rightarrow> b
      | Some r \<Rightarrow>
          let ord = mb_store b r;
              bid = is_bid (mo_side ord);
              key = level_key bid (mo_price ord);
              b1 = b\<lparr>mb_orders := (mb_orders b)(oid := None)\<rparr>;
              book = side_book b1 bid;
              b2 = (case book key of
                      None \<Rightarrow> b1
                    | Some l \<Rightarrow>
                        let l' = l\<lparr>pl_orders := remove_equal (mb_store b1) ord (pl_orders l),
                                   pl_total_qty := pl_total_qty l - mo_qty ord\<rparr>
                        in if pl_total_qty l' \<le> 0 \<or> pl_orders l' = []
                           then set_side_book bid (book(key := None)) b1
                           else set_side_book bid (book(key \<mapsto> l')) b1)
          in record_event (mo_venue ord) (now, Ev_Cancel) b2)"

type_synonym level_items = "(pyfloat \<rightharpoonup> price_level) \<Rightarrow> (pyfloat \<times> price_level) list"

definition snapshot_side :: "level_items \<Rightarrow> nat \<Rightarrow> (pyfloat \<rightharpoonup> price_level) \<Rightarrow> (pyfloat \<times> int) list" where
  "snapshot_side items levels m =
     map (\<lambda>(k, l). (pl_price l, pl_total_qty l)) (take levels (items m))"

record l2_book =
  l2_symbol :: symbol
  l2_timestamp :: timestamp
  l2_bids :: "(pyfloat \<times> int) list"
  l2_asks :: "(pyfloat \<times> int) list"

definition get_snapshot :: "level_items \<Rightarrow> mbo_book \<Rightarrow> timestamp \<Rightarrow> nat \<Rightarrow> l2_book" where
  "get_snapshot items b now levels =
     \<lparr>l2_symbol = mb_symbol b, l2_timestamp = now,
      l2_bids = snapshot_side items levels (mb_bids b),
      l2_asks = snapshot_side items levels (mb_asks b)\<rparr>"

definition get_mbo_depth ::
  "level_items \<Rightarrow> mbo_book \<Rightarrow> string \<Rightarrow> nat \<Rightarrow> (pyfloat \<times> int \<times> string list) list" where
  "get_mbo_depth items b side levels =
     map (\<lambda>(k, l). (pl_price l, pl_total_qty l,
                     map (\<lambda>r. mo_order_id (mb_store b r)) (pl_orders l)))
       (take levels (items (side_book b (is_bid side))))"

definition spoof_ratio_risk :: "nat \<Rightarrow> nat \<Rightarrow> spoofing_risk" where
  "spoof_ratio_risk adds cancels =
     (if adds = 0 then SR_NONE
      else
        let ratio = (of_nat cancels :: pyfloat) / of_nat adds in
        if 95 / 100 \<le> ratio then SR_CRITICAL
        else if 80 / 100 \<le> ratio then SR_HIGH
        else if 60 / 100 \<le> ratio then SR_MEDIUM
        else if 40 / 100 \<le> ratio then SR_LOW
        else SR_NONE)"

text \<open>Detection prunes the venue's own deque, if it has one, from the left.\<close>

definition detect_spoofing ::
  "string \<Rightarrow> pyfloat \<Rightarrow> timestamp \<Rightarrow> mbo_book \<Rightarrow> mbo_book \<times> spoofing_risk" where
  "detect_spoofing venue window_sec now b =
     (case mb_venue_events b venue of
        None \<Rightarrow> (b, SR_NONE)
      | Some events \<Rightarrow>
          let cutoff = now - py_trunc (window_sec * 1000000000);
              kept = dropWhile (\<lambda>e. fst e < cutoff) events;
              b' = b\<lparr>mb_venue_events := (mb_venue_events b)(venue \<mapsto> kept)\<rparr>
          in if kept = [] then (b', SR_NONE)
             else (b', spoof_ratio_risk (length (filter (\<lambda>e. snd e = Ev_Add) kept))
                         (length (filter (\<lambda>e. snd e = Ev_Cancel) kept))))"

section \<open>The cache of books\<close>

record mbo_cache =
  mc_books :: "symbol \<rightharpoonup> mbo_book"
  mc_max_depth :: nat

definition cache_book :: "symbol \<Rightarrow> mbo_cache \<Rightarrow> mbo_book" where
  "cache_book sy c = (case mc_books c sy of None \<Rightarrow> mbo_init sy (mc_max_depth c) | Some b \<Rightarrow> b)"

definition cache_apply :: "symbol \<Rightarrow> (mbo_book \<Rightarrow> mbo_book) \<Rightarrow> mbo_cache \<Rightarrow> mbo_cache" where
  "cache_apply sy f c = c\<lparr>mc_books := (mc_books c)(sy \<mapsto> f (cache_book sy c))\<rparr>"

definition apply_add where
  "apply_add sy oid price side qty venue ts_ns = cache_apply sy (add_order oid price side qty venue ts_ns)"

definition apply_modify where
  "apply_modify sy oid new_qty = cache_apply sy (modify_order oid new_qty)"

definition apply_cancel where
  "apply_cancel sy oid now = cache_apply sy (cancel_order oid now)"

definition cache_snapshot :: "level_items \<Rightarrow> symbol \<Rightarrow> timestamp \<Rightarrow> mbo_cache \<Rightarrow> l2_book option" where
  "cache_snapshot items sy now c = map_option (\<lambda>b. get_snapshot items b now 10) (mc_books c sy)"

definition total_depth :: "level_items \<Rightarrow> bool \<Rightarrow> symbol \<Rightarrow> nat \<Rightarrow> mbo_cache \<Rightarrow> int" where
  "total_depth items bid sy levels c =
     (case mc_books c sy of
        None \<Rightarrow> 0
      | Some b \<Rightarrow> sum_list (map (\<lambda>(k, l). pl_total_qty l) (take levels (items (side_book b bid)))))"

definition detect_liquidity_sweep :: "level_items \<Rightarrow> symbol \<Rightarrow> string \<Rightarrow> int \<Rightarrow> mbo_cache \<Rightarrow> bool" where
  "detect_liquidity_sweep items sy direction min_sweep_size c =
     (if mc_books c sy = None then False
      else
        let depth = (if direction = ''bid'' then total_depth items True sy 3 c
                     else total_depth items False sy 3 c)
        in depth < min_sweep_size)"

definition get_spoofing_risk ::
  "symbol \<Rightarrow> string \<Rightarrow> timestamp \<Rightarrow> mbo_cache \<Rightarrow> mbo_cache \<times> spoofing_risk" where
  "get_spoofing_risk sy venue now c =
     (case mc_books c sy of
        None \<Rightarrow> (c, SR_NONE)
      | Some b \<Rightarrow>
          let (b', risk) = detect_spoofing venue 60 now b
          in (c\<lparr>mc_books := (mc_books c)(sy \<mapsto> b')\<rparr>, risk))"

section \<open>Reading the maps\<close>

lemma is_bid_dest [simp]: "is_bid ''bid''"
  by (simp add: is_bid_def)

lemma level_key_inj [simp]: "level_key s p = level_key s q \<longleftrightarrow> p = q"
  by (simp add: level_key_def)

lemma side_book_set [simp]:
  "side_book (set_side_book s m b) t = (if s = t then m else side_book b t)"
  by (simp add: side_book_def set_side_book_def)

lemma side_book_frame [simp]:
  "side_book (b\<lparr>mb_store := st, mb_next := n, mb_orders := os\<rparr>) s = side_book b s"
  "side_book (b\<lparr>mb_orders := os\<rparr>) s = side_book b s"
  "side_book (b\<lparr>mb_store := st, mb_next := n\<rparr>) s = side_book b s"
  "side_book (b\<lparr>mb_store := st\<rparr>) s = side_book b s"
  "side_book (record_event v e b) s = side_book b s"
  by (simp_all add: side_book_def record_event_def Let_def)

lemma set_side_frame [simp]:
  "mb_orders (set_side_book s m b) = mb_orders b"
  "mb_store (set_side_book s m b) = mb_store b"
  "mb_next (set_side_book s m b) = mb_next b"
  by (simp_all add: set_side_book_def)

lemma record_event_frame [simp]:
  "mb_orders (record_event v e b) = mb_orders b"
  "mb_store (record_event v e b) = mb_store b"
  "mb_next (record_event v e b) = mb_next b"
  by (simp_all add: record_event_def Let_def)

lemma put_level_frame [simp]:
  "mb_orders (put_level s p l b) = mb_orders b"
  "mb_store (put_level s p l b) = mb_store b"
  "mb_next (put_level s p l b) = mb_next b"
  "side_book (put_level s p l b) t =
     (if s = t then (side_book b t)(level_key s p \<mapsto> l) else side_book b t)"
  by (simp_all add: put_level_def)

section \<open>The abstract book\<close>

text \<open>
  The specification: the list of live orders in the order of their arrival. The book
  represents it when every level holds exactly the live orders of its side and price, in
  arrival order, with the sum of their quantities, and the id dictionary finds each.
\<close>

definition orders_at :: "mbo_order list \<Rightarrow> bool \<Rightarrow> pyfloat \<Rightarrow> mbo_order list" where
  "orders_at spec bid price = filter (\<lambda>ord. is_bid (mo_side ord) = bid \<and> mo_price ord = price) spec"

definition level_ok :: "mbo_book \<Rightarrow> price_level option \<Rightarrow> pyfloat \<Rightarrow> mbo_order list \<Rightarrow> bool" where
  "level_ok b lo price ords \<longleftrightarrow>
     (case lo of
        None \<Rightarrow> ords = []
      | Some l \<Rightarrow> ords \<noteq> [] \<and> pl_price l = price \<and> map (mb_store b) (pl_orders l) = ords \<and>
          pl_total_qty l = sum_list (map mo_qty ords) \<and>
          (\<forall>r \<in> set (pl_orders l). mb_orders b (mo_order_id (mb_store b r)) = Some r))"

definition represents :: "mbo_book \<Rightarrow> mbo_order list \<Rightarrow> bool" where
  "represents b spec \<longleftrightarrow>
     distinct (map mo_order_id spec) \<and> (\<forall>ord \<in> set spec. 0 < mo_qty ord) \<and>
     (\<forall>oid. (case mb_orders b oid of
               None \<Rightarrow> oid \<notin> mo_order_id ` set spec
             | Some r \<Rightarrow> mb_store b r \<in> set spec \<and> mo_order_id (mb_store b r) = oid \<and> r < mb_next b)) \<and>
     (\<forall>bid price. level_ok b (side_book b bid (level_key bid price)) price (orders_at spec bid price))"

datatype book_op =
    Op_Add string pyfloat string int string timestamp
  | Op_Modify string int
  | Op_Cancel string timestamp

fun book_step :: "mbo_book \<Rightarrow> book_op \<Rightarrow> mbo_book" where
  "book_step b (Op_Add oid price side qty venue ts) = add_order oid price side qty venue ts b"
| "book_step b (Op_Modify oid q) = modify_order oid q b"
| "book_step b (Op_Cancel oid now) = cancel_order oid now b"

fun spec_step :: "mbo_order list \<Rightarrow> book_op \<Rightarrow> mbo_order list" where
  "spec_step spec (Op_Add oid price side qty venue ts) =
     spec @ [\<lparr>mo_order_id = oid, mo_price = price, mo_side = side, mo_qty = qty,
              mo_venue = venue, mo_ts_ns = ts\<rparr>]"
| "spec_step spec (Op_Modify oid q) =
     map (\<lambda>ord. if mo_order_id ord = oid then ord\<lparr>mo_qty := q\<rparr> else ord) spec"
| "spec_step spec (Op_Cancel oid _) = filter (\<lambda>ord. mo_order_id ord \<noteq> oid) spec"

text \<open>What a feed must respect: fresh ids and positive quantities.\<close>

fun op_ok :: "mbo_order list \<Rightarrow> book_op \<Rightarrow> bool" where
  "op_ok spec (Op_Add oid _ _ qty _ _) \<longleftrightarrow> oid \<notin> mo_order_id ` set spec \<and> 0 < qty"
| "op_ok spec (Op_Modify _ q) \<longleftrightarrow> 0 < q"
| "op_ok spec (Op_Cancel _ _) \<longleftrightarrow> True"

lemma represents_init: "represents (mbo_init sy d) []"
  by (simp add: represents_def mbo_init_def level_ok_def orders_at_def side_book_def)

lemma representsI:
  assumes "distinct (map mo_order_id spec)" and "\<And>ord. ord \<in> set spec \<Longrightarrow> 0 < mo_qty ord"
    and "\<And>oid. mb_orders b oid = None \<Longrightarrow> oid \<notin> mo_order_id ` set spec"
    and "\<And>oid r. mb_orders b oid = Some r \<Longrightarrow>
           mb_store b r \<in> set spec \<and> mo_order_id (mb_store b r) = oid \<and> r < mb_next b"
    and "\<And>bid price. level_ok b (side_book b bid (level_key bid price)) price (orders_at spec bid price)"
  shows "represents b spec"
  using assms by (simp add: represents_def split: option.split)

lemma representsD:
  assumes "represents b spec"
  shows "distinct (map mo_order_id spec)" and "\<And>ord. ord \<in> set spec \<Longrightarrow> 0 < mo_qty ord"
    and "\<And>oid. mb_orders b oid = None \<Longrightarrow> oid \<notin> mo_order_id ` set spec"
    and "\<And>oid r. mb_orders b oid = Some r \<Longrightarrow>
           mb_store b r \<in> set spec \<and> mo_order_id (mb_store b r) = oid \<and> r < mb_next b"
    and "\<And>bid price. level_ok b (side_book b bid (level_key bid price)) price (orders_at spec bid price)"
proof -
  from assms have ids: "case mb_orders b oid of
      None \<Rightarrow> oid \<notin> mo_order_id ` set spec
    | Some r \<Rightarrow> mb_store b r \<in> set spec \<and> mo_order_id (mb_store b r) = oid \<and> r < mb_next b" for oid
    by (simp add: represents_def)
  show "mb_orders b oid = None \<Longrightarrow> oid \<notin> mo_order_id ` set spec" for oid
    using ids [of oid] by simp
  show "mb_orders b oid = Some r \<Longrightarrow>
      mb_store b r \<in> set spec \<and> mo_order_id (mb_store b r) = oid \<and> r < mb_next b" for oid r
    using ids [of oid] by simp
qed (use assms in \<open>auto simp: represents_def\<close>)

text \<open>A level keeps its meaning when the store and the ids of its orders are kept.\<close>

lemma level_ok_cong:
  assumes "level_ok b lo p ords"
    and "\<And>r l. lo = Some l \<Longrightarrow> r \<in> set (pl_orders l) \<Longrightarrow> mb_store b' r = mb_store b r \<and>
           mb_orders b' (mo_order_id (mb_store b r)) = mb_orders b (mo_order_id (mb_store b r))"
  shows "level_ok b' lo p ords"
proof (cases lo)
  case (Some l)
  then have "map (mb_store b') (pl_orders l) = map (mb_store b) (pl_orders l)"
    using assms(2) by simp
  with assms Some show ?thesis by (simp add: level_ok_def)
qed (use assms(1) in \<open>simp add: level_ok_def\<close>)

lemma level_refs:
  assumes "represents b spec" and "side_book b bid (level_key bid price) = Some l"
    and "r \<in> set (pl_orders l)"
  shows "mb_orders b (mo_order_id (mb_store b r)) = Some r" and "r < mb_next b"
    and "mb_store b r \<in> set spec" and "is_bid (mo_side (mb_store b r)) = bid"
    and "mo_price (mb_store b r) = price"
proof -
  from representsD(5) [OF assms(1), of bid price] assms(2,3)
  have o: "mb_orders b (mo_order_id (mb_store b r)) = Some r"
    and m: "map (mb_store b) (pl_orders l) = orders_at spec bid price"
    by (auto simp: level_ok_def)
  from m assms(3) have "mb_store b r \<in> set (orders_at spec bid price)"
    by (metis image_eqI set_map)
  then show "mb_store b r \<in> set spec" and "is_bid (mo_side (mb_store b r)) = bid"
    and "mo_price (mb_store b r) = price"
    by (auto simp: orders_at_def)
  from o show "mb_orders b (mo_order_id (mb_store b r)) = Some r" .
  from representsD(4) [OF assms(1) o] show "r < mb_next b" by simp
qed

section \<open>Adding\<close>

lemma add_order_represents:
  assumes rep: "represents b spec" and fresh: "oid \<notin> mo_order_id ` set spec" and q: "0 < qty"
  shows "represents (add_order oid price side qty venue ts b)
           (spec @ [\<lparr>mo_order_id = oid, mo_price = price, mo_side = side, mo_qty = qty,
              mo_venue = venue, mo_ts_ns = ts\<rparr>])" (is "represents ?b (spec @ [?o])")
proof (rule representsI)
  let ?r = "mb_next b"
  have store: "mb_store ?b = (mb_store b)(?r := ?o)" and ids: "mb_orders ?b = (mb_orders b)(oid \<mapsto> ?r)"
    and nxt: "mb_next ?b = ?r + 1"
    by (simp_all add: add_order_def Let_def)
  show "distinct (map mo_order_id (spec @ [?o]))"
    using representsD(1) [OF rep] fresh by (simp add: image_image)
  show "0 < mo_qty ord" if "ord \<in> set (spec @ [?o])" for ord
    using that representsD(2) [OF rep] q by auto
  show "i \<notin> mo_order_id ` set (spec @ [?o])" if "mb_orders ?b i = None" for i
    using that representsD(3) [OF rep, of i] by (auto simp: ids split: if_splits)
  show "mb_store ?b r \<in> set (spec @ [?o]) \<and> mo_order_id (mb_store ?b r) = i \<and> r < mb_next ?b"
    if "mb_orders ?b i = Some r" for i r
    using that representsD(4) [OF rep, of i r] by (auto simp: ids store nxt split: if_splits)
  show "level_ok ?b (side_book ?b bid (level_key bid p)) p (orders_at (spec @ [?o]) bid p)" for bid p
  proof -
    let ?lo = "side_book b bid (level_key bid p)"
    have ok: "level_ok b ?lo p (orders_at spec bid p)" by (rule representsD(5) [OF rep])
    have old: "mb_store ?b r = mb_store b r \<and> mb_orders ?b (mo_order_id (mb_store b r)) = Some r"
      if "?lo = Some l" "r \<in> set (pl_orders l)" for l r
    proof -
      from level_refs [OF rep that] have "r \<noteq> ?r" "mo_order_id (mb_store b r) \<noteq> oid"
        "mb_orders b (mo_order_id (mb_store b r)) = Some r"
        using fresh by auto
      then show ?thesis by (simp add: store ids)
    qed
    show ?thesis
    proof (cases "bid = is_bid side \<and> p = price")
      case False
      then have "side_book ?b bid (level_key bid p) = ?lo"
        by (auto simp: add_order_def Let_def)
      moreover have "orders_at (spec @ [?o]) bid p = orders_at spec bid p"
        using False by (auto simp: orders_at_def)
      moreover have "level_ok ?b ?lo p (orders_at spec bid p)"
        by (rule level_ok_cong [OF ok]) (use old level_refs [OF rep] in auto)
      ultimately show ?thesis by simp
    next
      case True
      let ?l = "get_or_create_level b bid p"
      have l: "map (mb_store b) (pl_orders ?l) = orders_at spec bid p"
        "pl_total_qty ?l = sum_list (map mo_qty (orders_at spec bid p))" "pl_price ?l = p"
        using ok by (auto simp: get_or_create_level_def level_ok_def split: option.splits)
      have in_lo: "\<exists>l. ?lo = Some l \<and> r \<in> set (pl_orders l)" if "r \<in> set (pl_orders ?l)" for r
        using that by (auto simp: get_or_create_level_def split: option.splits)
      have "map (mb_store ?b) (pl_orders ?l) = map (mb_store b) (pl_orders ?l)"
        by (intro map_cong refl) (use old in_lo in blast)
      then have "map (mb_store ?b) (pl_orders ?l @ [?r]) = orders_at spec bid p @ [?o]"
        using l(1) by (simp add: store)
      moreover have "side_book ?b bid (level_key bid p) =
          Some (?l\<lparr>pl_orders := pl_orders ?l @ [?r], pl_total_qty := pl_total_qty ?l + qty\<rparr>)"
        using True by (simp add: add_order_def Let_def get_or_create_level_def)
      moreover have "orders_at (spec @ [?o]) bid p = orders_at spec bid p @ [?o]"
        using True by (simp add: orders_at_def)
      moreover have "mb_orders ?b (mo_order_id (mb_store ?b r)) = Some r"
        if "r \<in> set (pl_orders ?l @ [?r])" for r
      proof (cases "r = ?r")
        case True
        then show ?thesis by (simp add: store ids)
      next
        case False
        with that in_lo obtain l where "?lo = Some l" "r \<in> set (pl_orders l)" by auto
        from old [OF this] show ?thesis by simp
      qed
      moreover have "pl_total_qty ?l + qty = sum_list (map mo_qty (orders_at spec bid p @ [?o]))"
        using l(2) by simp
      ultimately show ?thesis using l(3) by (simp only: level_ok_def) simp
    qed
  qed
qed

section \<open>Modifying\<close>

lemma find_ref:
  assumes rep: "represents b spec" and r: "mb_orders b oid = Some r"
  obtains l where
    "side_book b (is_bid (mo_side (mb_store b r))) (level_key (is_bid (mo_side (mb_store b r))) (mo_price (mb_store b r))) = Some l"
    "r \<in> set (pl_orders l)"
proof -
  let ?o = "mb_store b r" and ?s = "is_bid (mo_side (mb_store b r))"
  from representsD(4) [OF rep r] have o: "?o \<in> set spec" "mo_order_id ?o = oid" by auto
  then have in_at: "?o \<in> set (orders_at spec ?s (mo_price ?o))" by (simp add: orders_at_def)
  with representsD(5) [OF rep, of ?s "mo_price ?o"] obtain l where
    l: "side_book b ?s (level_key ?s (mo_price ?o)) = Some l"
    and m: "map (mb_store b) (pl_orders l) = orders_at spec ?s (mo_price ?o)"
    by (auto simp: level_ok_def split: option.splits)
  from in_at have "?o \<in> mb_store b ` set (pl_orders l)" by (simp add: m [symmetric])
  then obtain r' where r': "r' \<in> set (pl_orders l)" "mb_store b r' = ?o" by auto
  have "mb_orders b (mo_order_id ?o) = Some r'"
    using level_refs(1) [OF rep l r'(1)] by (simp only: r'(2))
  then have "r' = r" using r by (simp only: o(2) option.inject)
  with l r' that show thesis by blast
qed

lemma same_id: "distinct (map g xs) \<Longrightarrow> x \<in> set xs \<Longrightarrow> y \<in> set xs \<Longrightarrow> g x = g y \<Longrightarrow> x = y"
  by (auto simp: distinct_map inj_on_def)

lemma modify_sum:
  assumes "distinct (map mo_order_id ords)" and "ord \<in> set ords"
  shows "sum_list (map mo_qty (map (\<lambda>x. if mo_order_id x = mo_order_id ord then x\<lparr>mo_qty := q\<rparr> else x) ords)) =
         sum_list (map mo_qty ords) + (q - mo_qty ord)"
  using assms
proof (induction ords)
  case (Cons x ords)
  show ?case
  proof (cases "x = ord")
    case True
    have "mo_order_id y \<noteq> mo_order_id ord" if "y \<in> set ords" for y
      using Cons.prems(1) True that by (metis distinct.simps(2) image_eqI list.map(2) set_map)
    then have "map (\<lambda>x. if mo_order_id x = mo_order_id ord then x\<lparr>mo_qty := q\<rparr> else x) ords = ords"
      by (intro map_idI) simp
    with True show ?thesis by simp
  next
    case False
    with Cons have "mo_order_id x \<noteq> mo_order_id ord" by auto
    with Cons False show ?thesis by simp
  qed
qed simp

lemma distinct_orders_at: "distinct (map g spec) \<Longrightarrow> distinct (map g (orders_at spec s p))"
  unfolding orders_at_def by (rule distinct_map_filter)

lemma modify_order_represents:
  assumes rep: "represents b spec" and q: "0 < q"
  shows "represents (modify_order oid q b)
           (map (\<lambda>ord. if mo_order_id ord = oid then ord\<lparr>mo_qty := q\<rparr> else ord) spec)"
    (is "represents ?b (map ?f spec)")
proof (cases "mb_orders b oid")
  case None
  then have "map ?f spec = spec"
    using representsD(3) [OF rep None] by (intro map_idI) auto
  moreover have "?b = b" using None by (simp add: modify_order_def)
  ultimately show ?thesis using rep by simp
next
  case (Some r)
  let ?o = "mb_store b r" and ?s = "is_bid (mo_side (mb_store b r))"
  from find_ref [OF rep Some] obtain l where
    l: "side_book b ?s (level_key ?s (mo_price ?o)) = Some l" and rl: "r \<in> set (pl_orders l)" .
  have oid: "mo_order_id ?o = oid" "?o \<in> set spec" "r < mb_next b"
    using representsD(4) [OF rep Some] by auto
  have store: "mb_store ?b = (mb_store b)(r := ?o\<lparr>mo_qty := q\<rparr>)" and ids: "mb_orders ?b = mb_orders b"
    and nxt: "mb_next ?b = mb_next b"
    using Some by (simp_all add: modify_order_def Let_def)
  have f_id: "mo_order_id (?f x) = mo_order_id x" for x by simp
  have new_store: "mb_store ?b r' = ?f (mb_store b r')"
    if "mb_orders b (mo_order_id (mb_store b r')) = Some r'" for r'
    using that Some oid by (auto simp: store)
  show ?thesis
  proof (rule representsI)
    show "distinct (map mo_order_id (map ?f spec))"
      using representsD(1) [OF rep] by (simp only: map_map comp_def f_id)
    show "0 < mo_qty ord" if "ord \<in> set (map ?f spec)" for ord
      using that representsD(2) [OF rep] q by auto
    show "i \<notin> mo_order_id ` set (map ?f spec)" if "mb_orders ?b i = None" for i
      using that representsD(3) [OF rep, of i] by (auto simp: ids image_image)
    show "mb_store ?b r' \<in> set (map ?f spec) \<and> mo_order_id (mb_store ?b r') = i \<and> r' < mb_next ?b"
      if "mb_orders ?b i = Some r'" for i r'
    proof -
      have i: "mb_orders b i = Some r'" using that by (simp add: ids)
      from representsD(4) [OF rep i] have x: "mb_store b r' \<in> set spec"
        "mo_order_id (mb_store b r') = i" "r' < mb_next b" by auto
      then have "mb_store ?b r' = ?f (mb_store b r')" using i by (intro new_store) simp
      with x show ?thesis by (simp add: nxt)
    qed
    show "level_ok ?b (side_book ?b bid (level_key bid p)) p (orders_at (map ?f spec) bid p)" for bid p
    proof -
      let ?lo = "side_book b bid (level_key bid p)" and ?ords = "orders_at spec bid p"
      have ok: "level_ok b ?lo p ?ords" by (rule representsD(5) [OF rep])
      have at: "orders_at (map ?f spec) bid p = map ?f ?ords"
        by (simp add: orders_at_def filter_map comp_def if_distrib cong: if_cong)
      show ?thesis
      proof (cases ?lo)
        case None
        from None ok have "?ords = []" by (simp add: level_ok_def)
        moreover from None l have "\<not> (bid = ?s \<and> p = mo_price ?o)" by fastforce
        ultimately have "?ords = []" "bid \<noteq> ?s \<or> p \<noteq> mo_price ?o" by auto
        then show ?thesis using None Some
          by (auto simp: at level_ok_def modify_order_def Let_def)
      next
        case (Some l')
        have "map (mb_store ?b) (pl_orders l') = map ?f (map (mb_store b) (pl_orders l'))"
          unfolding map_map comp_def
          by (intro map_cong refl new_store) (rule level_refs(1) [OF rep Some])
        also have "map (mb_store b) (pl_orders l') = ?ords"
          using ok Some by (simp add: level_ok_def)
        finally have refs: "map (mb_store ?b) (pl_orders l') = map ?f ?ords" .
        have same_ids: "mb_orders ?b (mo_order_id (mb_store ?b r')) = Some r'" if "r' \<in> set (pl_orders l')" for r'
        proof -
          have o: "mb_orders b (mo_order_id (mb_store b r')) = Some r'"
            by (rule level_refs(1) [OF rep Some that])
          from new_store [OF o] have "mo_order_id (mb_store ?b r') = mo_order_id (mb_store b r')"
            by (simp only: f_id)
          with o show ?thesis by (simp only: ids)
        qed
        show ?thesis
        proof (cases "bid = ?s \<and> p = mo_price ?o")
          case True
          with l Some have "l' = l" by simp
          have "?o \<in> set ?ords" using True oid by (simp add: orders_at_def)
          then have "pl_total_qty l' + (q - mo_qty ?o) = sum_list (map mo_qty (map ?f ?ords))"
            using ok Some modify_sum [of ?ords ?o q] distinct_orders_at [OF representsD(1) [OF rep]] oid
            by (simp add: level_ok_def)
          moreover have "side_book ?b bid (level_key bid p) =
              Some (l'\<lparr>pl_total_qty := pl_total_qty l' + (q - mo_qty ?o)\<rparr>)"
            using True \<open>mb_orders b oid = Some r\<close> Some
            by (simp add: modify_order_def Let_def get_or_create_level_def)
          ultimately show ?thesis using refs same_ids ok Some
            by (simp add: level_ok_def at)
        next
          case False
          have "?f x = x" if "x \<in> set ?ords" for x
            using that same_id [OF representsD(1) [OF rep], of x ?o] oid False
            by (auto simp: orders_at_def)
          then have "map ?f ?ords = ?ords" by (intro map_idI) blast
          moreover have "side_book ?b bid (level_key bid p) = Some l'"
            using False \<open>mb_orders b oid = Some r\<close> Some
            by (auto simp: modify_order_def Let_def)
          ultimately show ?thesis using refs same_ids ok Some
            by (simp add: level_ok_def at)
        qed
      qed
    qed
  qed
qed

section \<open>Cancelling\<close>

lemma map_remove_equal: "map st (remove_equal st ord rs) = remove1 ord (map st rs)"
  by (induction rs) auto

lemma set_remove_equal: "set (remove_equal st ord rs) \<subseteq> set rs"
  by (induction rs) auto

lemma remove1_by_id:
  "distinct (map g xs) \<Longrightarrow> x \<in> set xs \<Longrightarrow> remove1 x xs = filter (\<lambda>y. g y \<noteq> g x) xs"
proof (induction xs)
  case (Cons y xs)
  show ?case
  proof (cases "y = x")
    case True
    have "g z \<noteq> g x" if "z \<in> set xs" for z
      using Cons.prems(1) True that by (metis distinct.simps(2) image_eqI list.map(2) set_map)
    with True show ?thesis by (simp add: filter_id_conv [THEN iffD2])
  next
    case False
    with Cons have "g y \<noteq> g x" by auto
    with Cons False show ?thesis by simp
  qed
qed simp

lemma sum_remove1: "ord \<in> set ords \<Longrightarrow>
    sum_list (map mo_qty (remove1 ord ords)) = sum_list (map mo_qty ords) - mo_qty ord"
  by (induction ords) auto

lemma positive_sum:
  "(\<And>ord. ord \<in> set ords \<Longrightarrow> 0 < mo_qty ord) \<Longrightarrow> ords \<noteq> [] \<Longrightarrow> 0 < sum_list (map mo_qty ords)"
proof (induction ords)
  case (Cons o1 ords)
  then show ?case by (cases "ords = []") (auto intro: add_pos_pos)
qed simp

lemma cancel_order_represents:
  assumes rep: "represents b spec"
  shows "represents (cancel_order oid now b) (filter (\<lambda>ord. mo_order_id ord \<noteq> oid) spec)"
    (is "represents ?b (filter ?k spec)")
proof (cases "mb_orders b oid")
  case None
  then have "filter ?k spec = spec"
    using representsD(3) [OF rep None] by (intro filter_True) auto
  with None rep show ?thesis by (simp add: cancel_order_def)
next
  case (Some r)
  let ?o = "mb_store b r" and ?s = "is_bid (mo_side (mb_store b r))"
  from find_ref [OF rep Some] obtain l where
    l: "side_book b ?s (level_key ?s (mo_price ?o)) = Some l" and rl: "r \<in> set (pl_orders l)" .
  have oid: "mo_order_id ?o = oid" "?o \<in> set spec" "r < mb_next b"
    using representsD(4) [OF rep Some] by auto
  have store: "mb_store ?b = mb_store b" and ids: "mb_orders ?b = (mb_orders b)(oid := None)"
    and nxt: "mb_next ?b = mb_next b"
    using Some l by (simp_all add: cancel_order_def Let_def)
  show ?thesis
  proof (rule representsI)
    show "distinct (map mo_order_id (filter ?k spec))"
      by (rule distinct_map_filter) (rule representsD(1) [OF rep])
    show "0 < mo_qty ord" if "ord \<in> set (filter ?k spec)" for ord
      using that representsD(2) [OF rep] by auto
    show "i \<notin> mo_order_id ` set (filter ?k spec)" if "mb_orders ?b i = None" for i
      using that representsD(3) [OF rep, of i] by (auto simp: ids split: if_splits)
    show "mb_store ?b r' \<in> set (filter ?k spec) \<and> mo_order_id (mb_store ?b r') = i \<and> r' < mb_next ?b"
      if "mb_orders ?b i = Some r'" for i r'
      using that representsD(4) [OF rep, of i r'] by (auto simp: ids store nxt split: if_splits)
    show "level_ok ?b (side_book ?b bid (level_key bid p)) p (orders_at (filter ?k spec) bid p)" for bid p
    proof -
      let ?lo = "side_book b bid (level_key bid p)" and ?ords = "orders_at spec bid p"
      have ok: "level_ok b ?lo p ?ords" by (rule representsD(5) [OF rep])
      have at: "orders_at (filter ?k spec) bid p = filter ?k ?ords"
        by (simp add: orders_at_def conj_commute)
      show ?thesis
      proof (cases "bid = ?s \<and> p = mo_price ?o")
        case False
        have "?k x" if "x \<in> set ?ords" for x
          using that same_id [OF representsD(1) [OF rep], of x ?o] oid False
          by (auto simp: orders_at_def)
        then have same: "filter ?k ?ords = ?ords" by (intro filter_True) blast
        have "side_book ?b bid (level_key bid p) = ?lo"
          using False Some l by (auto simp: cancel_order_def Let_def)
        moreover have "level_ok ?b ?lo p ?ords"
        proof (rule level_ok_cong [OF ok])
          fix r' l' assume a: "?lo = Some l'" "r' \<in> set (pl_orders l')"
          have "mb_store b r' \<in> set ?ords"
            using level_refs(3-5) [OF rep a] by (simp add: orders_at_def)
          with \<open>\<And>x. x \<in> set ?ords \<Longrightarrow> ?k x\<close> have "mo_order_id (mb_store b r') \<noteq> oid" by blast
          then show "mb_store ?b r' = mb_store b r' \<and>
              mb_orders ?b (mo_order_id (mb_store b r')) = mb_orders b (mo_order_id (mb_store b r'))"
            by (simp add: store ids)
        qed
        ultimately show ?thesis by (simp add: at same)
      next
        case True
        let ?refs = "remove_equal (mb_store b) ?o (pl_orders l)"
        let ?l' = "l\<lparr>pl_orders := ?refs, pl_total_qty := pl_total_qty l - mo_qty ?o\<rparr>"
        have lo: "?lo = Some l" using True l by simp
        have o_at: "?o \<in> set ?ords" using True oid by (simp add: orders_at_def)
        have lok: "map (mb_store b) (pl_orders l) = ?ords" "pl_price l = p"
          "pl_total_qty l = sum_list (map mo_qty ?ords)"
          using ok lo by (auto simp: level_ok_def)
        have rem: "remove1 ?o ?ords = filter ?k ?ords"
          using remove1_by_id [OF distinct_orders_at [OF representsD(1) [OF rep]] o_at] oid by simp
        have refs: "map (mb_store b) ?refs = filter ?k ?ords"
          by (simp add: map_remove_equal lok rem)
        have tot: "pl_total_qty l - mo_qty ?o = sum_list (map mo_qty (filter ?k ?ords))"
          using sum_remove1 [OF o_at] by (simp add: lok rem)
        have empty: "pl_total_qty ?l' \<le> 0 \<or> pl_orders ?l' = [] \<longleftrightarrow> filter ?k ?ords = []"
        proof -
          have "0 < sum_list (map mo_qty (filter ?k ?ords))" if "filter ?k ?ords \<noteq> []"
            by (rule positive_sum [OF _ that]) (use representsD(2) [OF rep] in \<open>simp add: orders_at_def\<close>)
          moreover have "?refs = [] \<longleftrightarrow> filter ?k ?ords = []" by (simp flip: refs)
          ultimately show ?thesis using tot by (cases "filter ?k ?ords = []") auto
        qed
        have new: "side_book ?b bid (level_key bid p) = (if filter ?k ?ords = [] then None else Some ?l')"
          using True Some l empty by (simp add: cancel_order_def Let_def)
        have "mb_orders ?b (mo_order_id (mb_store ?b r')) = Some r'" if "r' \<in> set ?refs" for r'
        proof -
          have "mb_store b r' \<in> set (filter ?k ?ords)" using that by (simp flip: refs)
          moreover have "r' \<in> set (pl_orders l)" using that set_remove_equal by blast
          from level_refs(1) [OF rep lo this] have "mb_orders b (mo_order_id (mb_store b r')) = Some r'" .
          ultimately show ?thesis by (simp add: store ids)
        qed
        then show ?thesis
          unfolding new at using refs tot lok(2) by (auto simp: level_ok_def store)
      qed
    qed
  qed
qed

section \<open>Runs\<close>

fun ops_ok :: "mbo_order list \<Rightarrow> book_op list \<Rightarrow> bool" where
  "ops_ok spec [] \<longleftrightarrow> True"
| "ops_ok spec (x # xs) \<longleftrightarrow> op_ok spec x \<and> ops_ok (spec_step spec x) xs"

lemma book_step_represents:
  "represents b spec \<Longrightarrow> op_ok spec x \<Longrightarrow> represents (book_step b x) (spec_step spec x)"
  by (cases x) (simp_all add: add_order_represents modify_order_represents cancel_order_represents
      del: map_eq_conv)

lemma run_represents:
  "represents b spec \<Longrightarrow> ops_ok spec xs \<Longrightarrow>
     represents (foldl book_step b xs) (foldl spec_step spec xs)"
  by (induction xs arbitrary: b spec) (auto simp: book_step_represents)

section \<open>The sorted dictionary\<close>

text \<open>What the code relies on: the items are the dictionary's, each once, in key order.\<close>

locale sorted_dict =
  fixes items :: "(pyfloat \<rightharpoonup> 'v) \<Rightarrow> (pyfloat \<times> 'v) list"
  assumes items_map: "finite (dom m) \<Longrightarrow> map_of (items m) = m"
    and items_keys: "finite (dom m) \<Longrightarrow> distinct (map fst (items m))"
    and items_sorted: "finite (dom m) \<Longrightarrow> sorted (map fst (items m))"
begin

lemma items_iff: "finite (dom m) \<Longrightarrow> (k, v) \<in> set (items m) \<longleftrightarrow> m k = Some v"
  using items_map [of m] items_keys [of m] by (metis map_of_eq_Some_iff)

lemma items_keys_set: "finite (dom m) \<Longrightarrow> fst ` set (items m) = dom m"
  using items_iff [of m] by force

lemma items_strict: "finite (dom m) \<Longrightarrow> sorted_wrt (<) (map fst (items m))"
  using items_keys [of m] items_sorted [of m] by (simp add: strict_sorted_iff)

end

definition sorted_items :: "(pyfloat \<rightharpoonup> 'v) \<Rightarrow> (pyfloat \<times> 'v) list" where
  "sorted_items m = map (\<lambda>k. (k, the (m k))) (sorted_list_of_set (dom m))"

interpretation sorted_items: sorted_dict "sorted_items :: (pyfloat \<rightharpoonup> price_level) \<Rightarrow> _"
proof
  fix m :: "pyfloat \<rightharpoonup> price_level" assume f: "finite (dom m)"
  have k: "map fst (sorted_items m) = sorted_list_of_set (dom m)"
    by (simp add: sorted_items_def comp_def)
  show "distinct (map fst (sorted_items m))" "sorted (map fst (sorted_items m))"
    unfolding k by simp_all
  show "map_of (sorted_items m) = m"
  proof
    fix x
    show "map_of (sorted_items m) x = m x"
    proof (cases "x \<in> dom m")
      case True
      have "map_of (map (\<lambda>k. (k, the (m k))) (sorted_list_of_set (dom m))) x = Some (the (m x))"
        using True f by (simp add: map_of_map_restrict)
      with True show ?thesis by (auto simp: sorted_items_def)
    next
      case False
      then have "x \<notin> fst ` set (sorted_items m)" using f k by (metis set_map set_sorted_list_of_set)
      with False show ?thesis by (simp add: map_of_eq_None_iff [symmetric] domIff)
    qed
  qed
qed

lemma level_price:
  assumes "represents b spec" and "side_book b bid k = Some l"
  shows "k = level_key bid (pl_price l)" and "orders_at spec bid (pl_price l) \<noteq> []"
    and "map (mb_store b) (pl_orders l) = orders_at spec bid (pl_price l)"
    and "pl_total_qty l = sum_list (map mo_qty (orders_at spec bid (pl_price l)))"
proof -
  let ?p = "if bid then - k else k"
  have k: "k = level_key bid ?p" by (simp add: level_key_def)
  from representsD(5) [OF assms(1), of bid ?p] assms(2)
  have "level_ok b (Some l) ?p (orders_at spec bid ?p)" by (simp flip: k)
  then show "k = level_key bid (pl_price l)" and "orders_at spec bid (pl_price l) \<noteq> []"
    and "map (mb_store b) (pl_orders l) = orders_at spec bid (pl_price l)"
    and "pl_total_qty l = sum_list (map mo_qty (orders_at spec bid (pl_price l)))"
    using k by (auto simp: level_ok_def)
qed

definition live_prices :: "mbo_order list \<Rightarrow> bool \<Rightarrow> pyfloat set" where
  "live_prices spec bid = mo_price ` {ord \<in> set spec. is_bid (mo_side ord) = bid}"

lemma dom_side_book:
  assumes "represents b spec"
  shows "dom (side_book b bid) = level_key bid ` live_prices spec bid"
proof
  show "dom (side_book b bid) \<subseteq> level_key bid ` live_prices spec bid"
  proof
    fix k assume "k \<in> dom (side_book b bid)"
    then obtain l where l: "side_book b bid k = Some l" by auto
    from level_price(2) [OF assms l] have "pl_price l \<in> live_prices spec bid"
      by (auto simp: orders_at_def live_prices_def filter_empty_conv intro!: rev_image_eqI)
    with level_price(1) [OF assms l] show "k \<in> level_key bid ` live_prices spec bid" by blast
  qed
  show "level_key bid ` live_prices spec bid \<subseteq> dom (side_book b bid)"
  proof
    fix k assume "k \<in> level_key bid ` live_prices spec bid"
    then obtain ord where "ord \<in> set spec" "is_bid (mo_side ord) = bid" "k = level_key bid (mo_price ord)"
      by (auto simp: live_prices_def)
    then show "k \<in> dom (side_book b bid)"
      using representsD(5) [OF assms, of bid "mo_price ord"]
      by (auto simp: level_ok_def orders_at_def filter_empty_conv split: option.splits)
  qed
qed

lemma sorted_wrt_level_key:
  "sorted_wrt (<) (map (level_key bid) ps) \<longleftrightarrow> sorted_wrt (if bid then (>) else (<)) ps"
  by (simp add: sorted_wrt_map level_key_def)

text \<open>The depth of a represented book, for any sorted dictionary.\<close>

lemma depth_of_represented:
  fixes side :: string and n :: nat
  assumes rep: "represents b spec" and sd: "sorted_dict items"
  defines "d \<equiv> get_mbo_depth items b side n"
  shows "\<And>p q ids. (p, q, ids) \<in> set d \<Longrightarrow>
           ids = map mo_order_id (orders_at spec (is_bid side) p) \<and> ids \<noteq> [] \<and>
           q = sum_list (map mo_qty (orders_at spec (is_bid side) p))"
    and "sorted_wrt (if is_bid side then (>) else (<)) (map fst d)"
    and "card (live_prices spec (is_bid side)) \<le> n \<Longrightarrow> set (map fst d) = live_prices spec (is_bid side)"
proof -
  let ?m = "side_book b (is_bid side)"
  have fin: "finite (dom ?m)" by (simp add: dom_side_book [OF rep] live_prices_def)
  note it = sorted_dict.items_iff [OF sd fin] and strict = sorted_dict.items_strict [OF sd fin]
    and keys = sorted_dict.items_keys_set [OF sd fin]
  have lev: "k = level_key (is_bid side) (pl_price l)" if "(k, l) \<in> set (items ?m)" for k l
    using that level_price(1) [OF rep] by (simp add: it)
  show "ids = map mo_order_id (orders_at spec (is_bid side) p) \<and> ids \<noteq> [] \<and>
      q = sum_list (map mo_qty (orders_at spec (is_bid side) p))" if "(p, q, ids) \<in> set d" for p q ids
  proof -
    from that obtain k l where kl: "(k, l) \<in> set (items ?m)" "p = pl_price l" "q = pl_total_qty l"
      "ids = map mo_order_id (map (mb_store b) (pl_orders l))"
      by (auto simp: d_def get_mbo_depth_def dest: in_set_takeD)
    then show ?thesis using level_price(2-4) [OF rep, of "is_bid side" k l] by (simp add: it)
  qed
  have "map fst (take n (items ?m)) = map (level_key (is_bid side)) (map fst d)"
    using lev by (auto simp: d_def get_mbo_depth_def dest: in_set_takeD)
  moreover have "sorted_wrt (<) (map fst (take n (items ?m)))"
    using strict by (simp add: take_map [symmetric] sorted_wrt_take)
  ultimately show "sorted_wrt (if is_bid side then (>) else (<)) (map fst d)"
    by (simp only: sorted_wrt_level_key)
  assume "card (live_prices spec (is_bid side)) \<le> n"
  moreover have "length (items ?m) = card (dom ?m)"
    using distinct_card [OF sorted_dict.items_keys [OF sd fin]] keys by simp
  moreover have "card (dom ?m) = card (live_prices spec (is_bid side))"
    unfolding dom_side_book [OF rep] by (rule card_image) (simp add: inj_on_def)
  ultimately have "map fst (items ?m) = map (level_key (is_bid side)) (map fst d)"
    using \<open>map fst (take n (items ?m)) = map (level_key (is_bid side)) (map fst d)\<close> by simp
  then have "level_key (is_bid side) ` set (map fst d) = dom ?m"
    using keys by (metis image_set list.set_map)
  then show "set (map fst d) = live_prices spec (is_bid side)"
    unfolding dom_side_book [OF rep] by (simp add: inj_image_eq_iff inj_on_def)
qed

section \<open>Properties\<close>


definition ops_example :: "book_op list" where
  "ops_example = [Op_Add ''a'' 10 ''bid'' 100 ''V'' 1, Op_Add ''b'' 10 ''bid'' 50 ''V'' 2,
     Op_Add ''c'' 11 ''ask'' 70 ''V'' 3, Op_Modify ''a'' 30, Op_Cancel ''c'' 9]"

lemma ops_example_ok: "ops_ok [] ops_example"
  by (simp add: ops_example_def)


text \<open>Depth: over any sorted dictionary, the depth of a side lists prices from the best
  outwards, each with the ids of its live orders in arrival order and the sum of their
  quantities, and with enough levels it lists every price that has a live order.\<close>

theorem depth_lists_live_orders:
  assumes "ops_ok [] ops" and "sorted_dict items"
    and "card (live_prices (foldl spec_step [] ops) (is_bid side)) \<le> n"
  shows "let d = get_mbo_depth items (foldl book_step (mbo_init sy depth) ops) side n;
             spec = foldl spec_step [] ops
         in sorted_wrt (if is_bid side then (>) else (<)) (map fst d) \<and>
            set (map fst d) = live_prices spec (is_bid side) \<and>
            (\<forall>(p, q, ids) \<in> set d.
               ids = map mo_order_id (orders_at spec (is_bid side) p) \<and>
               q = sum_list (map mo_qty (orders_at spec (is_bid side) p)))"
proof -
  have rep: "represents (foldl book_step (mbo_init sy depth) ops) (foldl spec_step [] ops)"
    by (rule run_represents [OF represents_init assms(1)])
  note d = depth_of_represented [OF rep assms(2), where side = side and n = n]
  show ?thesis
    unfolding Let_def using d(2) d(3) [OF assms(3)] d(1) by (auto simp del: set_map)
qed

theorem depth_lists_live_orders_witness:
  "set (map fst (get_mbo_depth sorted_items (foldl book_step (mbo_init ''X'' 50) ops_example) ''bid'' 10)) = {10}"
proof -
  have p: "live_prices (foldl spec_step [] ops_example) (is_bid ''bid'') = {10}"
    by (auto simp: ops_example_def live_prices_def is_bid_def intro!: rev_image_eqI)
  show ?thesis
    using depth_lists_live_orders [OF ops_example_ok sorted_items.sorted_dict_axioms, of "''bid''" 10 "''X''" 50]
    unfolding p Let_def by (simp del: set_map)
qed

end
