(* ===== verification/Level2.thy ===== *)
theory Level2
  imports Enums
begin

text \<open>
  The level-2 snapshot cache of \<open>data/level2.py\<close> (class \<open>OrderBookCache\<close>) and the snapshot
  itself (class \<open>OrderBook\<close> of \<open>core/models.py\<close>). Python's \<open>sorted\<close> is stable, in reverse
  too. The handlers that \<open>update\<close> calls with the new book are the caller's; the book is
  returned for them. The synthetic feed of the module is not modelled (it rounds decimal
  prices in binary floating point).
\<close>

section \<open>Snapshots\<close>

record l2_level =
  l2_price :: pyfloat
  l2_size :: int

record l2_snapshot =
  ob_symbol :: symbol
  ob_timestamp :: timestamp
  ob_bids :: "l2_level list"
  ob_asks :: "l2_level list"

definition best_bid :: "l2_snapshot \<Rightarrow> pyfloat option" where
  "best_bid b = (case ob_bids b of [] \<Rightarrow> None | l # _ \<Rightarrow> Some (l2_price l))"

definition best_ask :: "l2_snapshot \<Rightarrow> pyfloat option" where
  "best_ask b = (case ob_asks b of [] \<Rightarrow> None | l # _ \<Rightarrow> Some (l2_price l))"

text \<open>\<open>if self.best_bid and self.best_ask\<close>: a price of zero counts as absent.\<close>

definition l2_spread :: "l2_snapshot \<Rightarrow> pyfloat option" where
  "l2_spread b =
     (case (best_bid b, best_ask b) of
        (Some bid, Some ask) \<Rightarrow> if bid \<noteq> 0 \<and> ask \<noteq> 0 then Some (ask - bid) else None
      | _ \<Rightarrow> None)"

section \<open>The cache\<close>

record l2_cache =
  lc_max_levels :: nat
  lc_books :: "symbol \<rightharpoonup> l2_snapshot"
  lc_last_updated :: "symbol \<rightharpoonup> timestamp"

definition l2_init :: "nat \<Rightarrow> l2_cache" where
  "l2_init n = \<lparr>lc_max_levels = n, lc_books = Map.empty, lc_last_updated = Map.empty\<rparr>"

definition l2_levels :: "nat \<Rightarrow> (pyfloat \<times> int) list \<Rightarrow> l2_level list" where
  "l2_levels n xs = map (\<lambda>(p, s). \<lparr>l2_price = p, l2_size = s\<rparr>) (filter (\<lambda>(p, s). 0 < s) (take n xs))"

definition l2_update ::
  "symbol \<Rightarrow> (pyfloat \<times> int) list \<Rightarrow> (pyfloat \<times> int) list \<Rightarrow> timestamp \<Rightarrow> l2_cache
   \<Rightarrow> l2_cache \<times> l2_snapshot" where
  "l2_update sy bids asks ts c =
     (let book = \<lparr>ob_symbol = sy, ob_timestamp = ts,
            ob_bids = l2_levels (lc_max_levels c) (sort_key (\<lambda>x. - fst x) bids),
            ob_asks = l2_levels (lc_max_levels c) (sort_key fst asks)\<rparr>
      in (c\<lparr>lc_books := (lc_books c)(sy \<mapsto> book),
            lc_last_updated := (lc_last_updated c)(sy \<mapsto> ts)\<rparr>, book))"

definition get_book :: "symbol \<Rightarrow> l2_cache \<Rightarrow> l2_snapshot option" where
  "get_book sy c = lc_books c (py_upper sy)"

definition get_last_updated :: "symbol \<Rightarrow> l2_cache \<Rightarrow> timestamp option" where
  "get_last_updated sy c = lc_last_updated c (py_upper sy)"

definition is_stale :: "symbol \<Rightarrow> timestamp \<Rightarrow> timestamp \<Rightarrow> l2_cache \<Rightarrow> bool" where
  "is_stale sy max_age now c =
     (case get_last_updated sy c of None \<Rightarrow> True | Some t \<Rightarrow> max_age < now - t)"

fun size_near :: "pyfloat \<Rightarrow> l2_level list \<Rightarrow> int" where
  "size_near price [] = 0"
| "size_near price (l # ls) = (if \<bar>l2_price l - price\<bar> < 1 / 1000 then l2_size l else size_near price ls)"

definition bid_size_at :: "symbol \<Rightarrow> pyfloat \<Rightarrow> l2_cache \<Rightarrow> int" where
  "bid_size_at sy price c =
     (case get_book sy c of None \<Rightarrow> 0 | Some b \<Rightarrow> size_near price (ob_bids b))"

definition ask_size_at :: "symbol \<Rightarrow> pyfloat \<Rightarrow> l2_cache \<Rightarrow> int" where
  "ask_size_at sy price c =
     (case get_book sy c of None \<Rightarrow> 0 | Some b \<Rightarrow> size_near price (ob_asks b))"

definition total_bid_depth :: "symbol \<Rightarrow> nat \<Rightarrow> l2_cache \<Rightarrow> int" where
  "total_bid_depth sy levels c =
     (case get_book sy c of
        None \<Rightarrow> 0 | Some b \<Rightarrow> sum_list (map l2_size (take levels (ob_bids b))))"

definition total_ask_depth :: "symbol \<Rightarrow> nat \<Rightarrow> l2_cache \<Rightarrow> int" where
  "total_ask_depth sy levels c =
     (case get_book sy c of
        None \<Rightarrow> 0 | Some b \<Rightarrow> sum_list (map l2_size (take levels (ob_asks b))))"

definition l2_liquidity_sweep :: "symbol \<Rightarrow> string \<Rightarrow> int \<Rightarrow> l2_cache \<Rightarrow> bool" where
  "l2_liquidity_sweep sy direction min_sweep_size c =
     (if get_book sy c = None then False
      else
        let depth = (if direction = ''bid'' then total_bid_depth sy 3 c else total_ask_depth sy 3 c)
        in depth < min_sweep_size)"

section \<open>Lemmas\<close>

lemma sorted_l2_levels:
  fixes f :: "pyfloat \<Rightarrow> pyfloat"
  assumes "sorted (map (f \<circ> fst) xs)"
  shows "sorted (map (f \<circ> l2_price) (l2_levels n xs))"
proof -
  have m: "map (f \<circ> l2_price) (map (\<lambda>(p, s). \<lparr>l2_price = p, l2_size = s\<rparr>) ys) = map (f \<circ> fst) ys" for ys
    by (auto simp: case_prod_beta)
  have "sorted (map (f \<circ> fst) (take n xs))"
    using assms by (simp add: take_map [symmetric] sorted_wrt_take)
  then show ?thesis unfolding l2_levels_def m by (rule sorted_filter)
qed

lemma l2_levels_size: "l \<in> set (l2_levels n xs) \<Longrightarrow> 0 < l2_size l \<and> (l2_price l, l2_size l) \<in> set xs"
  by (auto simp: l2_levels_def dest: in_set_takeD)

lemma length_l2_levels: "length (l2_levels n xs) \<le> n"
  using length_filter_le [of "\<lambda>(p, s). 0 < s" "take n xs"] by (simp add: l2_levels_def)

section \<open>Properties\<close>

text \<open>A snapshot is the best levels: what an update stores has bids from the highest price
  and asks from the lowest, at most the configured number of each, every level with a
  positive size and taken from the update, and a best bid above or equal to every other
  stored bid (for asks, below).\<close>

theorem snapshot_is_best_levels:
  assumes "l2_update sy bids asks ts c = (c', b)"
  shows "lc_books c' sy = Some b \<and>
         sorted (map (\<lambda>l. - l2_price l) (ob_bids b)) \<and> sorted (map l2_price (ob_asks b)) \<and>
         length (ob_bids b) \<le> lc_max_levels c \<and> length (ob_asks b) \<le> lc_max_levels c \<and>
         (\<forall>l \<in> set (ob_bids b). 0 < l2_size l \<and> (l2_price l, l2_size l) \<in> set bids) \<and>
         (\<forall>l \<in> set (ob_asks b). 0 < l2_size l \<and> (l2_price l, l2_size l) \<in> set asks) \<and>
         (\<forall>l \<in> set (ob_bids b). \<exists>p. best_bid b = Some p \<and> l2_price l \<le> p) \<and>
         (\<forall>l \<in> set (ob_asks b). \<exists>p. best_ask b = Some p \<and> p \<le> l2_price l)"
proof -
  have b: "ob_bids b = l2_levels (lc_max_levels c) (sort_key (\<lambda>x. - fst x) bids)"
    "ob_asks b = l2_levels (lc_max_levels c) (sort_key fst asks)"
    and stored: "lc_books c' sy = Some b"
    using assms by (auto simp: l2_update_def Let_def)
  have s1: "sorted (map (\<lambda>l. - l2_price l) (ob_bids b))"
    using sorted_l2_levels [of uminus "sort_key (\<lambda>x. - fst x) bids"] by (simp add: b comp_def)
  have s2: "sorted (map l2_price (ob_asks b))"
    using sorted_l2_levels [of "\<lambda>x. x" "sort_key fst asks"] by (simp add: b comp_def)
  have "\<forall>l \<in> set (ob_bids b). \<exists>p. best_bid b = Some p \<and> l2_price l \<le> p"
    using s1 by (cases "ob_bids b") (auto simp: best_bid_def)
  moreover have "\<forall>l \<in> set (ob_asks b). \<exists>p. best_ask b = Some p \<and> p \<le> l2_price l"
    using s2 by (cases "ob_asks b") (auto simp: best_ask_def)
  moreover have "\<forall>l \<in> set (ob_bids b). 0 < l2_size l \<and> (l2_price l, l2_size l) \<in> set bids"
    using l2_levels_size [where xs = "sort_key (\<lambda>x. - fst x) bids"] by (auto simp: b)
  moreover have "\<forall>l \<in> set (ob_asks b). 0 < l2_size l \<and> (l2_price l, l2_size l) \<in> set asks"
    using l2_levels_size [where xs = "sort_key fst asks"] by (auto simp: b)
  ultimately show ?thesis
    using stored s1 s2 length_l2_levels by (simp add: b)
qed

theorem snapshot_is_best_levels_witness:
  "length (ob_bids (snd (l2_update ''A'' [(1, 5), (3, 7), (2, 0)] [] 9 (l2_init 2)))) \<le> 2 \<and>
   list_all (\<lambda>l. 0 < l2_size l)
     (ob_bids (snd (l2_update ''A'' [(1, 5), (3, 7), (2, 0)] [] 9 (l2_init 2))))"
  using snapshot_is_best_levels [OF prod.collapse [symmetric], of "''A''" "[(1, 5), (3, 7), (2, 0)]" "[]" 9 "l2_init 2"]
  by (simp add: l2_init_def list_all_iff)

text \<open>Updates under a symbol that is not upper-case are lost: such a book is stored under
  its own spelling, every reader looks up the upper-case one, so whatever it held before it
  still answers, stale or missing, and depth and sweep detection do not see the update.\<close>

theorem lower_case_update_is_invisible:
  assumes "py_upper sy \<noteq> sy"
  shows "get_book sy (fst (l2_update sy bids asks ts c)) = get_book sy c \<and>
         is_stale sy age now (fst (l2_update sy bids asks ts c)) = is_stale sy age now c \<and>
         total_bid_depth sy n (fst (l2_update sy bids asks ts c)) = total_bid_depth sy n c \<and>
         l2_liquidity_sweep sy dir m (fst (l2_update sy bids asks ts c)) = l2_liquidity_sweep sy dir m c"
proof -
  have g: "get_book sy (fst (l2_update sy bids asks ts c)) = get_book sy c"
    "get_last_updated sy (fst (l2_update sy bids asks ts c)) = get_last_updated sy c"
    using assms by (simp_all add: get_book_def get_last_updated_def l2_update_def Let_def)
  then show ?thesis
    by (simp add: is_stale_def total_bid_depth_def total_ask_depth_def l2_liquidity_sweep_def)
qed

theorem lower_case_update_is_invisible_witness:
  "get_book ''spy'' (fst (l2_update ''spy'' [(1, 5)] [] 9 (l2_init 2))) = None"
proof -
  have "py_upper ''spy'' \<noteq> ''spy''" by code_simp
  from lower_case_update_is_invisible [OF this, of "[(1, 5)]" "[]" 9 "l2_init 2"] show ?thesis
    by (simp add: get_book_def l2_init_def)
qed

end
