(* ===== verification/Bytes.thy ===== *)
theory Bytes
  imports Prelude "HOL-Library.Word"
begin

text \<open>
  Byte strings and fixed-width little-endian integers (\<open>struct.pack\<close> with \<open>Q\<close> and \<open>I\<close> on the
  little-endian machines the program runs on), and a byte-addressed memory: what is read back
  after a write, at the same place and at a disjoint one.
\<close>

type_synonym byte = "8 word"

section \<open>Integers in bytes\<close>

fun le_bytes :: "nat \<Rightarrow> nat \<Rightarrow> byte list" where
  "le_bytes 0 n = []"
| "le_bytes (Suc k) n = word_of_nat (n mod 256) # le_bytes k (n div 256)"

fun le_value :: "byte list \<Rightarrow> nat" where
  "le_value [] = 0"
| "le_value (b # bs) = unat b + 256 * le_value bs"

lemma length_le_bytes [simp]: "length (le_bytes k n) = k"
  by (induction k arbitrary: n) simp_all

lemma unat_byte: "unat (word_of_nat (n mod 256) :: byte) = n mod 256"
  by (simp add: unat_of_nat)

lemma le_value_bytes: "n < 256 ^ k \<Longrightarrow> le_value (le_bytes k n) = n"
proof (induction k arbitrary: n)
  case (Suc k)
  then have "n div 256 < 256 ^ k"
    by (simp add: less_mult_imp_div_less mult.commute)
  with Suc.IH [OF this] show ?case by (simp add: unat_byte)
qed simp

lemma le_bytes_inj: "m < 256 ^ k \<Longrightarrow> n < 256 ^ k \<Longrightarrow> le_bytes k m = le_bytes k n \<longleftrightarrow> m = n"
  using le_value_bytes by metis

section \<open>A byte-addressed memory\<close>

type_synonym memory = "nat \<Rightarrow> byte"

definition mem_write :: "nat \<Rightarrow> byte list \<Rightarrow> memory \<Rightarrow> memory" where
  "mem_write off bs m = (\<lambda>i. if off \<le> i \<and> i < off + length bs then bs ! (i - off) else m i)"

definition mem_read :: "nat \<Rightarrow> nat \<Rightarrow> memory \<Rightarrow> byte list" where
  "mem_read off n m = map m [off..<off + n]"

lemma length_mem_read [simp]: "length (mem_read off n m) = n"
  by (simp add: mem_read_def)

lemma mem_read_same [simp]: "n = length bs \<Longrightarrow> mem_read off n (mem_write off bs m) = bs"
  by (rule nth_equalityI) (simp_all add: mem_read_def mem_write_def)

lemma mem_read_disjoint:
  "off + n \<le> off' \<or> off' + length bs \<le> off \<Longrightarrow> mem_read off n (mem_write off' bs m) = mem_read off n m"
  by (auto simp: mem_read_def mem_write_def)

text \<open>Slots of a common size never overlap.\<close>

lemma slots_disjoint:
  fixes i j :: nat
  assumes "i \<noteq> j" and "a + n \<le> z" and "b + m \<le> z"
  shows "i * z + a + n \<le> j * z + b \<or> j * z + b + m \<le> i * z + a"
proof (cases "i < j")
  case True
  then have "i * z + z \<le> j * z" by (metis Suc_leI mult_Suc mult_le_mono1 add.commute)
  with assms(2) show ?thesis by linarith
next
  case False
  with assms(1) have "j < i" by simp
  then have "j * z + z \<le> i * z" by (metis Suc_leI mult_Suc mult_le_mono1 add.commute)
  with assms(3) show ?thesis by linarith
qed

end
