(* ===== verification/Ring_Buffers.thy ===== *)
theory Ring_Buffers
  imports Bytes
begin

unbundle bit_operations_syntax

text \<open>
  The two ring transports: the disruptor of \<open>infrastructure/disruptor.py\<close> (\<open>RingBuffer\<close>,
  \<open>EventProcessor\<close>, the publishing side of \<open>DisruptorBus\<close>) and the shared-memory ring of
  \<open>infrastructure/shared_memory_bus.py\<close> (\<open>SharedRingBuffer\<close>). Both put the message of sequence
  number \<open>s\<close> in slot \<open>s & (size - 1)\<close> and neither waits for its readers; the interface
  \<open>slot_ring\<close> says what they share, and both are interpretations of it. Messages are the
  encoded byte strings.
\<close>

section \<open>The interface of a slot ring\<close>

locale slot_ring =
  fixes size :: nat
    and okay :: "'s \<Rightarrow> bool"
    and next_seq :: "'s \<Rightarrow> nat"
    and put :: "'s \<Rightarrow> 'd \<Rightarrow> 's"
    and look :: "'s \<Rightarrow> nat \<Rightarrow> 'm option"
    and img :: "'d \<Rightarrow> 'm"
    and lim :: "nat \<Rightarrow> bool"
  assumes size_pos: "okay s \<Longrightarrow> 0 < size"
    and okay_put: "okay s \<Longrightarrow> lim (next_seq s) \<Longrightarrow> okay (put s d)"
    and next_put: "okay s \<Longrightarrow> next_seq (put s d) = Suc (next_seq s)"
    and look_put: "okay s \<Longrightarrow> lim (next_seq s) \<Longrightarrow> look (put s d) (next_seq s) = Some (img d)"
    and look_overwritten: "okay s \<Longrightarrow> lim (next_seq s) \<Longrightarrow> j < next_seq s \<Longrightarrow>
          j mod size = next_seq s mod size \<Longrightarrow> look (put s d) j = None"
    and look_other: "okay s \<Longrightarrow> lim (next_seq s) \<Longrightarrow> lim j \<Longrightarrow> j mod size \<noteq> next_seq s mod size \<Longrightarrow>
          look (put s d) j = look s j"
    and look_future: "okay s \<Longrightarrow> lim j \<Longrightarrow> next_seq s \<le> j \<Longrightarrow> look s j = None"
    and lim_down: "lim j \<Longrightarrow> i \<le> j \<Longrightarrow> lim i"
begin

lemma run:
  assumes "okay s" and "next_seq s = 0" and "lim (length ds)"
  shows "okay (foldl put s ds) \<and> next_seq (foldl put s ds) = length ds"
  using assms(3)
proof (induction ds rule: rev_induct)
  case (snoc d ds)
  have "lim (length ds)" using snoc.prems by (auto intro: lim_down)
  with snoc.IH show ?case by (auto simp: next_put intro: okay_put)
qed (use assms in simp)

text \<open>What can still be read after \<open>ds\<close> have been put: the last \<open>size\<close> messages, no others.\<close>

theorem window:
  assumes "okay s" and "next_seq s = 0" and "lim (length ds)" and "lim j"
  shows "look (foldl put s ds) j =
           (if j < length ds \<and> length ds \<le> j + size then Some (img (ds ! j)) else None)"
  using assms(3)
proof (induction ds rule: rev_induct)
  case Nil
  then show ?case using assms look_future [of s j] by simp
next
  case (snoc d ds)
  have l: "lim (length ds)" using snoc.prems by (auto intro: lim_down)
  let ?s = "foldl put s ds" and ?m = "length ds"
  have st: "okay ?s" "next_seq ?s = ?m" using run [OF assms(1,2) l] by auto
  consider "?m < j" | "j = ?m" | "j < ?m" "j mod size = ?m mod size" | "j < ?m" "j mod size \<noteq> ?m mod size"
    by linarith
  then show ?case
  proof cases
    case 1
    have "okay (put ?s d)" and "next_seq (put ?s d) = Suc ?m"
      using st l by (auto intro: okay_put simp: next_put)
    with 1 look_future [of "put ?s d" j] assms(4) show ?thesis by simp
  next
    case 2
    with st l size_pos [OF st(1)] look_put [of ?s d] show ?thesis by simp
  next
    case 3
    then have "j + size \<le> ?m"
    proof -
      from 3 have "size dvd ?m - j" by (metis less_imp_le mod_eq_dvd_iff_nat)
      moreover have "0 < ?m - j" using 3 by simp
      ultimately have "size \<le> ?m - j" by (rule dvd_imp_le)
      with 3 show ?thesis by linarith
    qed
    with 3 st l look_overwritten [of ?s j d] show ?thesis by simp
  next
    case 4
    then have "?m \<noteq> j + size" by auto
    with 4 st l snoc.IH [OF l] assms(4) look_other [of ?s j d] show ?thesis
      by (auto simp: nth_append)
  qed
qed

lemma lapped_never_reads:
  assumes "okay s" and "next_seq s = 0" and "lim (length (ds @ es))" and "j + size < length ds"
  shows "look (foldl put s (ds @ es)) j = None"
proof -
  have "lim j" by (rule lim_down [OF assms(3)]) (use assms(4) in simp)
  with window [OF assms(1,2,3)] assms(4) show ?thesis by simp
qed

end

section \<open>Masks\<close>

lemma and_pred_pow2:
  fixes n :: nat
  assumes "0 < n" and "n AND (n - 1) = 0"
  shows "\<exists>k. n = 2 ^ k"
  using assms
proof (induction n rule: less_induct)
  case (less n)
  show ?case
  proof (cases "even n")
    case True
    then obtain m where m: "n = 2 * m" by (auto elim: evenE)
    with less.prems have "0 < m" by simp
    then have "(n - 1) div 2 = m - 1" using m by simp
    then have "m AND (m - 1) = 0"
      using less.prems(2) m and_rec [of n "n - 1"] True by simp
    from less.IH [OF _ \<open>0 < m\<close> this] m \<open>0 < m\<close> obtain k where "m = 2 ^ k" by auto
    with m have "n = 2 ^ Suc k" by simp
    then show ?thesis by blast
  next
    case False
    then obtain m where m: "n = 2 * m + 1" by (auto elim: oddE)
    have "n AND (n - 1) = 2 * (m AND m)"
      using and_rec [of n "n - 1"] False m by simp
    with less.prems(2) have "m = 0" by simp
    with m show ?thesis by (intro exI [of _ 0]) simp
  qed
qed

lemma and_mask_mod:
  fixes n :: nat
  assumes "n = 2 ^ k"
  shows "j AND (n - 1) = j mod n"
proof -
  have "n - 1 = mask k" using assms by (simp add: mask_eq_exp_minus_1)
  then show ?thesis using assms by (simp add: take_bit_eq_mask [symmetric] take_bit_nat_def)
qed

section \<open>The disruptor\<close>

record ring_slot =
  rd_sequence :: int
  rd_topic :: string
  rd_source :: string
  rd_payload :: "byte list"
  rd_ts_ns :: timestamp

record ring_buffer =
  rb_size :: nat
  rb_mask :: nat
  rb_slots :: "ring_slot list"
  rb_cursor :: int
  rb_claim_seq :: int

text \<open>The constructor's assertion; \<open>None\<close> is the \<open>AssertionError\<close>.\<close>

definition ring_init :: "nat \<Rightarrow> ring_buffer option" where
  "ring_init n =
     (if n AND (n - 1) = 0 then
        Some \<lparr>rb_size = n, rb_mask = n - 1,
              rb_slots = replicate n \<lparr>rd_sequence = - 1, rd_topic = [], rd_source = [],
                                      rd_payload = [], rd_ts_ns = 0\<rparr>,
              rb_cursor = - 1, rb_claim_seq = - 1\<rparr>
      else None)"

definition slot_index :: "ring_buffer \<Rightarrow> int \<Rightarrow> nat" where
  "slot_index rb seq = nat seq AND rb_mask rb"

text \<open>
  \<open>next_sequence\<close>: claim a number; the flag says that the spin loop ends, which needs the
  claim to be at most a ring ahead of the cursor.
\<close>

definition next_sequence :: "ring_buffer \<Rightarrow> int \<times> ring_buffer \<times> bool" where
  "next_sequence rb =
     (let seq = rb_claim_seq rb + 1
      in (seq, rb\<lparr>rb_claim_seq := seq\<rparr>, seq - rb_cursor rb \<le> int (rb_size rb)))"

definition ring_get :: "ring_buffer \<Rightarrow> int \<Rightarrow> ring_slot" where
  "ring_get rb seq = rb_slots rb ! slot_index rb seq"

definition ring_publish :: "ring_buffer \<Rightarrow> int \<Rightarrow> ring_buffer" where
  "ring_publish rb seq = rb\<lparr>rb_cursor := seq\<rparr>"

type_synonym ring_message = "string \<times> string \<times> byte list \<times> timestamp"

text \<open>
  \<open>DisruptorBus.publish\<close>: nothing else runs between the claim and the publication, unless
  the claim has to spin (\<open>None\<close>).
\<close>

definition disruptor_publish :: "ring_message \<Rightarrow> ring_buffer \<Rightarrow> ring_buffer option" where
  "disruptor_publish msg rb =
     (let (topic, source, payload, now) = msg;
          (seq, rb1, ready) = next_sequence rb
      in if \<not> ready then None
         else
           let slot = \<lparr>rd_sequence = seq, rd_topic = topic, rd_source = source,
                       rd_payload = payload, rd_ts_ns = now\<rparr>
           in Some (ring_publish (rb1\<lparr>rb_slots := (rb_slots rb1)[slot_index rb1 seq := slot]\<rparr>) seq))"

text \<open>
  One turn of the loop of \<open>EventProcessor.run\<close>: it dispatches the next slot and moves on, or
  yields to the event loop when it has caught up, or, when the slot is not the one it
  expects, goes round again without yielding.
\<close>

datatype poll = Dispatched ring_slot | Yielded | Spun

definition processor_poll :: "ring_buffer \<Rightarrow> int \<Rightarrow> int \<times> poll" where
  "processor_poll rb sequence =
     (let next_seq = sequence + 1 in
      if next_seq \<le> rb_cursor rb then
        let slot = ring_get rb next_seq in
        if rd_sequence slot = next_seq then (next_seq, Dispatched slot) else (sequence, Spun)
      else (sequence, Yielded))"

definition slot_message :: "ring_slot \<Rightarrow> ring_message" where
  "slot_message s = (rd_topic s, rd_source s, rd_payload s, rd_ts_ns s)"

definition disruptor_put :: "ring_buffer \<Rightarrow> ring_message \<Rightarrow> ring_buffer" where
  "disruptor_put rb msg = the (disruptor_publish msg rb)"

definition disruptor_look :: "ring_buffer \<Rightarrow> nat \<Rightarrow> ring_message option" where
  "disruptor_look rb j =
     (case processor_poll rb (int j - 1) of
        (_, Dispatched slot) \<Rightarrow> Some (slot_message slot) | _ \<Rightarrow> None)"

definition ring_ok :: "nat \<Rightarrow> ring_buffer \<Rightarrow> bool" where
  "ring_ok n rb \<longleftrightarrow>
     0 < n \<and> n AND (n - 1) = 0 \<and> rb_size rb = n \<and> rb_mask rb = n - 1 \<and>
     length (rb_slots rb) = n \<and> - 1 \<le> rb_cursor rb \<and> rb_claim_seq rb = rb_cursor rb \<and>
     (\<forall>slot \<in> set (rb_slots rb). rd_sequence slot \<le> rb_cursor rb)"

lemma pow2_mod: "0 < n \<Longrightarrow> n AND (n - 1) = 0 \<Longrightarrow> j AND (n - 1) = j mod n" for n j :: nat
  using and_pred_pow2 [of n] and_mask_mod [of n _ j] by blast

lemma ring_index: "ring_ok n rb \<Longrightarrow> slot_index rb (int j) = j mod n"
  using pow2_mod [of n j] by (simp add: ring_ok_def slot_index_def)

lemma ring_init_ok: "0 < n \<Longrightarrow> ring_init n = Some rb \<Longrightarrow> ring_ok n rb \<and> rb_cursor rb = - 1"
  by (auto simp: ring_init_def ring_ok_def split: if_splits)

lemma disruptor_publish_ok:
  assumes "ring_ok n rb"
  shows "disruptor_publish msg rb = Some (disruptor_put rb msg)"
    and "rb_cursor (disruptor_put rb msg) = rb_cursor rb + 1"
    and "rb_slots (disruptor_put rb msg) = (rb_slots rb)[nat (rb_cursor rb + 1) mod n :=
           \<lparr>rd_sequence = rb_cursor rb + 1, rd_topic = fst msg, rd_source = fst (snd msg),
            rd_payload = fst (snd (snd msg)), rd_ts_ns = snd (snd (snd msg))\<rparr>]"
    and "ring_ok n (disruptor_put rb msg)"
proof -
  let ?j = "nat (rb_cursor rb + 1)"
  have c: "int ?j = rb_cursor rb + 1" "rb_claim_seq rb = rb_cursor rb" "0 < n" "rb_size rb = n"
    using assms by (auto simp: ring_ok_def)
  have i: "slot_index rb (rb_cursor rb + 1) = ?j mod n"
    using ring_index [OF assms, of ?j] c(1) by simp
  have eq: "disruptor_publish msg rb = Some (rb\<lparr>rb_claim_seq := rb_cursor rb + 1,
      rb_slots := (rb_slots rb)[?j mod n :=
        \<lparr>rd_sequence = rb_cursor rb + 1, rd_topic = fst msg, rd_source = fst (snd msg),
         rd_payload = fst (snd (snd msg)), rd_ts_ns = snd (snd (snd msg))\<rparr>],
      rb_cursor := rb_cursor rb + 1\<rparr>)"
    using c i by (simp add: disruptor_publish_def next_sequence_def ring_publish_def slot_index_def
        case_prod_beta Let_def)
  then show "disruptor_publish msg rb = Some (disruptor_put rb msg)"
    and "rb_cursor (disruptor_put rb msg) = rb_cursor rb + 1"
    and "rb_slots (disruptor_put rb msg) = (rb_slots rb)[?j mod n :=
           \<lparr>rd_sequence = rb_cursor rb + 1, rd_topic = fst msg, rd_source = fst (snd msg),
            rd_payload = fst (snd (snd msg)), rd_ts_ns = snd (snd (snd msg))\<rparr>]"
    by (simp_all add: disruptor_put_def)
  have "\<forall>slot \<in> set (rb_slots rb). rd_sequence slot \<le> rb_cursor rb + 1"
    using assms by (force simp: ring_ok_def)
  then show "ring_ok n (disruptor_put rb msg)"
    using assms eq set_update_subset_insert [of "rb_slots rb"]
    by (fastforce simp: ring_ok_def disruptor_put_def)
qed

lemma disruptor_look_iff:
  assumes "ring_ok n rb"
  shows "disruptor_look rb j =
     (let slot = rb_slots rb ! (j mod n)
      in if int j \<le> rb_cursor rb \<and> rd_sequence slot = int j then Some (slot_message slot) else None)"
  by (simp add: disruptor_look_def processor_poll_def ring_get_def ring_index [OF assms] Let_def)

interpretation disruptor: slot_ring n "ring_ok n" "\<lambda>rb. nat (rb_cursor rb + 1)" disruptor_put
    disruptor_look "\<lambda>msg. msg" "\<lambda>_. True" for n
proof
  fix rb :: ring_buffer and msg :: ring_message and j
  assume ok: "ring_ok n rb"
  let ?m = "nat (rb_cursor rb + 1)"
  have m: "int ?m = rb_cursor rb + 1" and len: "length (rb_slots rb) = n"
    and old: "\<And>i. i < n \<Longrightarrow> rd_sequence (rb_slots rb ! i) \<le> rb_cursor rb"
    using ok by (auto simp: ring_ok_def)
  show "0 < n" using ok by (simp add: ring_ok_def)
  note put = disruptor_publish_ok [OF ok, of msg] and look = disruptor_look_iff [OF ok]
    and look' = disruptor_look_iff [OF disruptor_publish_ok(4) [OF ok, of msg]]
  show "ring_ok n (disruptor_put rb msg)" by (rule put(4))
  show "nat (rb_cursor (disruptor_put rb msg) + 1) = Suc ?m"
    using put(2) ok by (simp add: ring_ok_def nat_eq_iff)
  show "disruptor_look (disruptor_put rb msg) ?m = Some msg"
    using \<open>0 < n\<close> m len by (simp add: look' put(2,3) slot_message_def)
  show "disruptor_look (disruptor_put rb msg) j = None"
    if "j < ?m" "j mod n = ?m mod n"
  proof -
    have "int j < rb_cursor rb + 1" using that(1) m by linarith
    then show ?thesis using that(2) len \<open>0 < n\<close> by (simp add: look' put(2,3) Let_def)
  qed
  show "disruptor_look (disruptor_put rb msg) j = disruptor_look rb j" if "j mod n \<noteq> ?m mod n"
  proof (cases "int j \<le> rb_cursor rb")
    case True
    with that show ?thesis by (simp add: look look' put(2,3))
  next
    case False
    have "int j \<noteq> rb_cursor rb + 1" using that by (metis nat_int)
    with False show ?thesis by (simp add: look look' put(2))
  qed
  show "disruptor_look rb j = None" if "?m \<le> j"
  proof -
    have "rb_cursor rb < int j" using that m by linarith
    then show ?thesis by (simp add: look Let_def)
  qed
qed auto

section \<open>The shared-memory ring\<close>

definition slot_data_size :: nat where "slot_data_size = 8192"
definition slot_size :: nat where "slot_size = 8 + 4 + slot_data_size"
definition unwritten :: nat where "unwritten = 2 ^ 64 - 1"

record shm_ring =
  sm_num_slots :: nat
  sm_mask :: nat
  sm_mem :: memory
  sm_producer_seq :: nat

text \<open>
  The constructor over the bytes it finds in the segment (zeros when it is new): it writes
  the sentinel into the sequence field of every slot.
\<close>

definition shm_init :: "nat \<Rightarrow> memory \<Rightarrow> shm_ring option" where
  "shm_init n m =
     (if n AND (n - 1) = 0 then
        Some \<lparr>sm_num_slots = n, sm_mask = n - 1,
              sm_mem = foldl (\<lambda>m i. mem_write (i * slot_size) (le_bytes 8 unwritten) m) m [0..<n],
              sm_producer_seq = 0\<rparr>
      else None)"

definition shm_off :: "shm_ring \<Rightarrow> nat \<Rightarrow> nat" where
  "shm_off r seq = (seq AND sm_mask r) * slot_size"

definition shm_write :: "shm_ring \<Rightarrow> byte list \<Rightarrow> shm_ring" where
  "shm_write r data =
     (let seq = sm_producer_seq r;
          off = shm_off r seq;
          payload = take slot_data_size data;
          n = length payload;
          m1 = mem_write (off + 8) (le_bytes 4 n) (sm_mem r);
          m2 = mem_write (off + 12) payload m1;
          m3 = mem_write off (le_bytes 8 seq) m2
      in r\<lparr>sm_mem := m3, sm_producer_seq := sm_producer_seq r + 1\<rparr>)"

text \<open>One turn of the spin loop of \<open>read\<close>; a timeout is a turn that finds nothing.\<close>

definition shm_read :: "shm_ring \<Rightarrow> nat \<Rightarrow> byte list option" where
  "shm_read r consumer_seq =
     (let off = shm_off r consumer_seq;
          stored_seq = le_value (mem_read off 8 (sm_mem r))
      in if stored_seq = consumer_seq then
           let len = le_value (mem_read (off + 8) 4 (sm_mem r))
           in Some (mem_read (off + 12) len (sm_mem r))
         else None)"

text \<open>
  Slot \<open>i\<close> holds the sentinel or a number already produced, which belongs to slot \<open>i\<close>.
\<close>

definition slot_seq :: "memory \<Rightarrow> nat \<Rightarrow> nat" where
  "slot_seq m i = le_value (mem_read (i * slot_size) 8 m)"

definition shm_ok :: "nat \<Rightarrow> shm_ring \<Rightarrow> bool" where
  "shm_ok n r \<longleftrightarrow>
     0 < n \<and> n AND (n - 1) = 0 \<and> sm_num_slots r = n \<and> sm_mask r = n - 1 \<and>
     (\<forall>i < n. slot_seq (sm_mem r) i = unwritten \<or> slot_seq (sm_mem r) i < sm_producer_seq r)"

lemma shm_off_eq: "shm_ok n r \<Longrightarrow> shm_off r j = (j mod n) * slot_size"
  using pow2_mod [of n j] by (simp add: shm_ok_def shm_off_def)

lemma slot_seq_write_same:
  "k < 256 ^ 8 \<Longrightarrow> slot_seq (mem_write (i * slot_size) (le_bytes 8 k) m) i = k"
  unfolding slot_seq_def by (subst mem_read_same) (simp_all add: le_value_bytes)

lemma slot_seq_write_other:
  assumes "i \<noteq> j" and "b + length bs \<le> slot_size"
  shows "slot_seq (mem_write (j * slot_size + b) bs m) i = slot_seq m i"
  using slots_disjoint [of i j 0 8 slot_size b "length bs"] assms
  by (simp add: slot_seq_def slot_size_def mem_read_disjoint)

lemma unwritten_bound: "unwritten < 256 ^ 8"
  by (simp add: unwritten_def)

lemma sentinels:
  "i < n \<Longrightarrow> slot_seq (foldl (\<lambda>m i. mem_write (i * slot_size) (le_bytes 8 unwritten) m) m [0..<n]) i = unwritten"
proof (induction n)
  case (Suc n)
  show ?case
  proof (cases "i = n")
    case True
    then show ?thesis by (simp add: slot_seq_write_same [OF unwritten_bound])
  next
    case False
    then show ?thesis
      using Suc slot_seq_write_other [of i n 0 "le_bytes 8 unwritten"]
      by (simp add: slot_size_def)
  qed
qed simp

lemma shm_init_ok: "0 < n \<Longrightarrow> shm_init n m = Some r \<Longrightarrow> shm_ok n r \<and> sm_producer_seq r = 0"
  by (auto simp: shm_init_def shm_ok_def sentinels split: if_splits)

text \<open>The sequence numbers that fit the field and are not the sentinel.\<close>

definition seq_fits :: "nat \<Rightarrow> bool" where
  "seq_fits j \<longleftrightarrow> j < unwritten"

lemma seq_fits_bytes: "seq_fits j \<Longrightarrow> j < 256 ^ 8"
  using unwritten_bound by (simp add: seq_fits_def)

lemma written_slot:
  assumes ok: "shm_ok n r" and fits: "seq_fits (sm_producer_seq r)"
  shows "slot_seq (sm_mem (shm_write r d)) (sm_producer_seq r mod n) = sm_producer_seq r"
  by (simp add: shm_write_def Let_def shm_off_eq [OF ok] slot_seq_write_same [OF seq_fits_bytes [OF fits]])

lemma other_slot:
  assumes ok: "shm_ok n r" and fits: "seq_fits (sm_producer_seq r)"
    and other: "i \<noteq> sm_producer_seq r mod n"
  shows "slot_seq (sm_mem (shm_write r d)) i = slot_seq (sm_mem r) i"
    and "mem_read (i * slot_size + 8) 4 (sm_mem (shm_write r d)) = mem_read (i * slot_size + 8) 4 (sm_mem r)"
    and "k \<le> slot_data_size \<Longrightarrow>
      mem_read (i * slot_size + 12) k (sm_mem (shm_write r d)) = mem_read (i * slot_size + 12) k (sm_mem r)"
proof -
  let ?j = "sm_producer_seq r mod n" and ?p = "take slot_data_size d"
  have w: "sm_mem (shm_write r d) = mem_write (?j * slot_size) (le_bytes 8 (sm_producer_seq r))
      (mem_write (?j * slot_size + 12) ?p
        (mem_write (?j * slot_size + 8) (le_bytes 4 (length ?p)) (sm_mem r)))"
    by (simp add: shm_write_def Let_def shm_off_eq [OF ok])
  have dis: "mem_read (i * slot_size + a) k (sm_mem (shm_write r d)) = mem_read (i * slot_size + a) k (sm_mem r)"
    if "a + k \<le> slot_size" for a k
    unfolding w
    using slots_disjoint [OF other that, of 0 8] slots_disjoint [OF other that, of 12 "length ?p"]
      slots_disjoint [OF other that, of 8 4]
    by (simp add: mem_read_disjoint slot_size_def)
  show "slot_seq (sm_mem (shm_write r d)) i = slot_seq (sm_mem r) i"
    using dis [of 0 8] by (simp add: slot_seq_def slot_size_def)
  show "mem_read (i * slot_size + 8) 4 (sm_mem (shm_write r d)) = mem_read (i * slot_size + 8) 4 (sm_mem r)"
    using dis [of 8 4] by (simp add: slot_size_def slot_data_size_def)
  show "k \<le> slot_data_size \<Longrightarrow>
      mem_read (i * slot_size + 12) k (sm_mem (shm_write r d)) = mem_read (i * slot_size + 12) k (sm_mem r)"
    using dis [of 12 k] by (simp add: slot_size_def)
qed

lemma shm_read_written:
  assumes ok: "shm_ok n r" and fits: "seq_fits (sm_producer_seq r)"
  shows "shm_read (shm_write r d) (sm_producer_seq r) = Some (take slot_data_size d)"
proof -
  let ?j = "sm_producer_seq r mod n" and ?p = "take slot_data_size d"
  have w: "sm_mem (shm_write r d) = mem_write (?j * slot_size) (le_bytes 8 (sm_producer_seq r))
      (mem_write (?j * slot_size + 12) ?p
        (mem_write (?j * slot_size + 8) (le_bytes 4 (length ?p)) (sm_mem r)))"
    and off: "shm_off (shm_write r d) (sm_producer_seq r) = ?j * slot_size"
    using pow2_mod [of n "sm_producer_seq r"] ok
    by (simp_all add: shm_write_def Let_def shm_off_eq [OF ok] shm_off_def shm_ok_def)
  have "length ?p < 256 ^ 4" by (simp add: slot_data_size_def min_def)
  then have len: "le_value (mem_read (?j * slot_size + 8) 4 (sm_mem (shm_write r d))) = length ?p"
    unfolding w by (simp add: mem_read_disjoint le_value_bytes)
  have "mem_read (?j * slot_size + 12) (length ?p) (sm_mem (shm_write r d)) = ?p"
    unfolding w by (simp add: mem_read_disjoint)
  with len written_slot [OF ok fits, of d] show ?thesis
    by (simp add: shm_read_def off Let_def slot_seq_def)
qed

lemma shm_write_frame [simp]:
  "sm_producer_seq (shm_write r d) = Suc (sm_producer_seq r)"
  "sm_num_slots (shm_write r d) = sm_num_slots r"
  "sm_mask (shm_write r d) = sm_mask r"
  by (simp_all add: shm_write_def Let_def)

text \<open>The length field of a written slot never exceeds the slot's data.\<close>

definition lengths_ok :: "nat \<Rightarrow> shm_ring \<Rightarrow> bool" where
  "lengths_ok n r \<longleftrightarrow> (\<forall>i < n. slot_seq (sm_mem r) i = unwritten \<or>
     le_value (mem_read (i * slot_size + 8) 4 (sm_mem r)) \<le> slot_data_size)"

lemma shm_init_lengths: "shm_init n m = Some r \<Longrightarrow> lengths_ok n r"
  by (auto simp: shm_init_def lengths_ok_def sentinels split: if_splits)

lemma lengths_ok_write:
  assumes ok: "shm_ok n r" and fits: "seq_fits (sm_producer_seq r)" and l: "lengths_ok n r"
  shows "lengths_ok n (shm_write r d)"
proof -
  let ?j = "sm_producer_seq r mod n" and ?p = "take slot_data_size d"
  have w: "sm_mem (shm_write r d) = mem_write (?j * slot_size) (le_bytes 8 (sm_producer_seq r))
      (mem_write (?j * slot_size + 12) ?p
        (mem_write (?j * slot_size + 8) (le_bytes 4 (length ?p)) (sm_mem r)))"
    by (simp add: shm_write_def Let_def shm_off_eq [OF ok])
  have "length ?p < 256 ^ 4" by (simp add: slot_data_size_def min_def)
  then have "le_value (mem_read (?j * slot_size + 8) 4 (sm_mem (shm_write r d))) = length ?p"
    unfolding w by (simp add: mem_read_disjoint le_value_bytes)
  then have "le_value (mem_read (?j * slot_size + 8) 4 (sm_mem (shm_write r d))) \<le> slot_data_size"
    by simp
  then show ?thesis
    unfolding lengths_ok_def using l other_slot(1,2) [OF ok fits, where d = d]
    by (metis lengths_ok_def)
qed

interpretation shm: slot_ring n "\<lambda>r. shm_ok n r \<and> lengths_ok n r" sm_producer_seq shm_write shm_read
    "take slot_data_size" seq_fits for n
proof
  fix r :: shm_ring and d :: "byte list" and j
  assume "shm_ok n r \<and> lengths_ok n r"
  then have ok: "shm_ok n r" and l: "lengths_ok n r" by auto
  then show "0 < n" by (simp add: shm_ok_def)
  have slots: "slot_seq (sm_mem r) i = unwritten \<or> slot_seq (sm_mem r) i < sm_producer_seq r" if "i < n" for i
    using ok that by (simp add: shm_ok_def)
  have look: "shm_read r j = (if slot_seq (sm_mem r) (j mod n) = j
      then Some (mem_read (j mod n * slot_size + 12)
        (le_value (mem_read (j mod n * slot_size + 8) 4 (sm_mem r))) (sm_mem r)) else None)"
    if "shm_ok n r" for r
    by (simp add: shm_read_def shm_off_eq [OF that] Let_def slot_seq_def)
  show "sm_producer_seq (shm_write r d) = Suc (sm_producer_seq r)" by simp
  { assume fits: "seq_fits (sm_producer_seq r)"
    let ?m = "sm_producer_seq r"
    have jnj: "j mod n < n" using \<open>0 < n\<close> by simp
    have ok': "shm_ok n (shm_write r d)"
      unfolding shm_ok_def
    proof (intro conjI allI impI)
      fix i assume "i < n"
      show "slot_seq (sm_mem (shm_write r d)) i = unwritten \<or>
          slot_seq (sm_mem (shm_write r d)) i < sm_producer_seq (shm_write r d)"
      proof (cases "i = ?m mod n")
        case True
        then show ?thesis using written_slot [OF ok fits, of d] by simp
      next
        case False
        then show ?thesis using other_slot(1) [OF ok fits False] slots [OF \<open>i < n\<close>] by auto
      qed
    qed (use ok in \<open>simp_all add: shm_ok_def\<close>)
    show "shm_ok n (shm_write r d) \<and> lengths_ok n (shm_write r d)"
      using ok' lengths_ok_write [OF ok fits l] by blast
    show "shm_read (shm_write r d) ?m = Some (take slot_data_size d)"
      by (rule shm_read_written [OF ok fits])
    show "shm_read (shm_write r d) j = None" if "j < ?m" "j mod n = ?m mod n"
      using that written_slot [OF ok fits, of d] by (simp add: look [OF ok'])
    show "shm_read (shm_write r d) j = shm_read r j" if "seq_fits j" and other: "j mod n \<noteq> ?m mod n"
    proof (cases "slot_seq (sm_mem r) (j mod n) = unwritten")
      case True
      with that(1) show ?thesis
        by (simp add: look [OF ok] look [OF ok'] other_slot(1) [OF ok fits other] seq_fits_def)
    next
      case False
      then have "le_value (mem_read (j mod n * slot_size + 8) 4 (sm_mem r)) \<le> slot_data_size"
        using l jnj by (auto simp: lengths_ok_def)
      then show ?thesis
        by (simp add: look [OF ok] look [OF ok'] other_slot [OF ok fits other])
    qed
  }
  show "shm_read r j = None" if "seq_fits j" "sm_producer_seq r \<le> j"
    using that slots [of "j mod n"] \<open>0 < n\<close> by (auto simp: look [OF ok] seq_fits_def)
qed (auto simp: seq_fits_def)

section \<open>Properties\<close>

text \<open>The disruptor keeps the last ring of messages: after any messages have been published
  on a fresh ring, publishing never had to wait, and a processor that has handled the first
  \<open>j\<close> messages is dispatched message \<open>j\<close> itself exactly when it has been published and fewer
  than a ring of messages came after it.\<close>

theorem disruptor_window:
  assumes "ring_init n = Some rb" and "0 < n"
  shows "disruptor_publish msg (foldl disruptor_put rb msgs) \<noteq> None \<and>
         disruptor_look (foldl disruptor_put rb msgs) j =
           (if j < length msgs \<and> length msgs \<le> j + n then Some (msgs ! j) else None)"
proof -
  from ring_init_ok [OF assms(2,1)] have ok: "ring_ok n rb" and c: "nat (rb_cursor rb + 1) = 0"
    by auto
  have "ring_ok n (foldl disruptor_put rb msgs)"
    using disruptor.run [OF ok c TrueI] by blast
  from disruptor_publish_ok(1) [OF this] disruptor.window [OF ok c TrueI TrueI] show ?thesis by simp
qed

theorem disruptor_window_witness:
  "\<exists>rb. ring_init 2 = Some rb \<and>
     disruptor_look (foldl disruptor_put rb [(''t'', ''a'', [1], 1), (''t'', ''a'', [2], 2), (''t'', ''a'', [3], 3)]) 1
       = Some (''t'', ''a'', [2], 2) \<and>
     disruptor_look (foldl disruptor_put rb [(''t'', ''a'', [1], 1), (''t'', ''a'', [2], 2), (''t'', ''a'', [3], 3)]) 0
       = None"
proof -
  obtain rb where rb: "ring_init 2 = Some rb" by (simp add: ring_init_def)
  show ?thesis
    using rb disruptor_window [OF rb, where j = 1 and msgs = "[(''t'', ''a'', [1], 1), (''t'', ''a'', [2], 2), (''t'', ''a'', [3], 3)]"]
      disruptor_window [OF rb, where j = 0 and msgs = "[(''t'', ''a'', [1], 1), (''t'', ''a'', [2], 2), (''t'', ''a'', [3], 3)]"]
    by simp
qed

text \<open>A lapped processor hangs the program: once a processor is more than a ring behind,
  every turn of its loop finds the wrong slot, dispatches nothing, moves nowhere and does not
  yield, so no number of turns ends it and no other task, producer included, runs again.\<close>

theorem lapped_processor_spins_forever:
  assumes "ring_init n = Some rb" and "0 < n" and "j + n < length msgs"
  shows "((\<lambda>sq. fst (processor_poll (foldl disruptor_put rb msgs) sq)) ^^ k) (int j - 1) = int j - 1 \<and>
         snd (processor_poll (foldl disruptor_put rb msgs) (int j - 1)) = Spun"
proof -
  from ring_init_ok [OF assms(2,1)] have ok: "ring_ok n rb" and c: "nat (rb_cursor rb + 1) = 0"
    by auto
  let ?rb = "foldl disruptor_put rb msgs"
  have run: "ring_ok n ?rb" "nat (rb_cursor ?rb + 1) = length msgs"
    using disruptor.run [OF ok c TrueI] by auto
  then have cur: "int j \<le> rb_cursor ?rb" using assms(3) by linarith
  have "disruptor_look ?rb j = None"
    using disruptor_window [OF assms(1,2)] assms(3) by simp
  with cur have "processor_poll ?rb (int j - 1) = (int j - 1, Spun)"
    by (auto simp: disruptor_look_def processor_poll_def Let_def split: if_splits)
  moreover from this have "((\<lambda>sq. fst (processor_poll ?rb sq)) ^^ k) (int j - 1) = int j - 1"
    by (induction k) simp_all
  ultimately show ?thesis by simp
qed

theorem lapped_processor_spins_forever_witness:
  "\<exists>rb. ring_init 1 = Some rb \<and>
     snd (processor_poll (foldl disruptor_put rb [(''t'', ''a'', [1], 1), (''t'', ''a'', [2], 2)]) (-1)) = Spun"
proof -
  obtain rb where rb: "ring_init 1 = Some rb" by (simp add: ring_init_def)
  show ?thesis
    using rb lapped_processor_spins_forever [OF rb, where j = 0 and k = 5
        and msgs = "[(''t'', ''a'', [1], 1), (''t'', ''a'', [2], 2)]"] by simp
qed



section \<open>Reading while the writer writes\<close>

text \<open>
  Writer and reader are different processes. \<open>write\<close> stores the length, the payload byte by byte and the
  sequence number, in this order; \<open>read\<close> loads the sequence number, the length and the payload, each of
  them at its own time. A store or load of one field is taken to be atomic. A time is the number of
  stores the writer has made; \<open>moment i\<close> is the time of the reader's load \<open>i\<close>.
\<close>

type_synonym memory_store = "nat \<times> byte list"

definition do_stores :: "memory_store list \<Rightarrow> memory \<Rightarrow> memory" where
  "do_stores ss m = foldl (\<lambda>m (a, bs). mem_write a bs m) m ss"

definition write_stores :: "nat \<Rightarrow> nat \<Rightarrow> byte list \<Rightarrow> memory_store list" where
  "write_stores slot_mask seq data =
     (let off = (seq AND slot_mask) * slot_size;
          payload = take slot_data_size data;
          n = length payload
      in (off + 8, le_bytes 4 n)
         # map (\<lambda>i. (off + 12 + i, [payload ! i])) [0..<n]
         @ [(off, le_bytes 8 seq)])"

fun shm_stores :: "nat \<Rightarrow> nat \<Rightarrow> byte list list \<Rightarrow> memory_store list" where
  "shm_stores slot_mask seq [] = []"
| "shm_stores slot_mask seq (d # ds) = write_stores slot_mask seq d @ shm_stores slot_mask (Suc seq) ds"

definition mem_after :: "shm_ring \<Rightarrow> byte list list \<Rightarrow> nat \<Rightarrow> memory" where
  "mem_after r ds t = do_stores (take t (shm_stores (sm_mask r) (sm_producer_seq r) ds)) (sm_mem r)"

definition shm_read_during :: "shm_ring \<Rightarrow> byte list list \<Rightarrow> (nat \<Rightarrow> nat) \<Rightarrow> nat \<Rightarrow> byte list option" where
  "shm_read_during r ds moment consumer_seq =
     (let off = shm_off r consumer_seq;
          stored_seq = le_value (mem_read off 8 (mem_after r ds (moment 0)))
      in if stored_seq = consumer_seq then
           let len = le_value (mem_read (off + 8) 4 (mem_after r ds (moment 1)))
           in Some (map (\<lambda>i. mem_after r ds (moment (2 + i)) (off + 12 + i)) [0..<len])
         else None)"

text \<open>The time at which the writer has finished \<open>k\<close> messages, and is about to begin the next.\<close>

definition finished :: "shm_ring \<Rightarrow> byte list list \<Rightarrow> nat \<Rightarrow> nat" where
  "finished r ds k = length (shm_stores (sm_mask r) (sm_producer_seq r) (take k ds))"

lemma do_stores_append [simp]: "do_stores (xs @ ys) m = do_stores ys (do_stores xs m)"
  by (simp add: do_stores_def)

lemma do_stores_Nil [simp]: "do_stores [] m = m"
  by (simp add: do_stores_def)

lemma do_stores_Cons [simp]: "do_stores ((a, bs) # ss) m = do_stores ss (mem_write a bs m)"
  by (simp add: do_stores_def)

text \<open>Storing a payload byte by byte stores it.\<close>

lemma store_bytes:
  "k \<le> length p \<Longrightarrow> do_stores (map (\<lambda>i. (a + i, [p ! i])) [0..<k]) m = mem_write a (take k p) m"
proof (induction k)
  case 0
  then show ?case by (intro ext) (auto simp: mem_write_def)
next
  case (Suc k)
  then have "do_stores (map (\<lambda>i. (a + i, [p ! i])) [0..<Suc k]) m = mem_write (a + k) [p ! k] (mem_write a (take k p) m)"
    by simp
  also have "\<dots> = mem_write a (take (Suc k) p) m"
    using Suc.prems by (rule_tac ext) (auto simp: mem_write_def take_Suc_conv_app_nth nth_append less_Suc_eq)
  finally show ?case .
qed

lemma shm_write_stores: "sm_mem (shm_write r d) = do_stores (write_stores (sm_mask r) (sm_producer_seq r) d) (sm_mem r)"
proof -
  let ?p = "take slot_data_size d"
  have "do_stores (map (\<lambda>i. (a + i, [?p ! i])) [0..<length ?p]) m = mem_write a ?p m" for a m
    using store_bytes [OF order_refl, where p = ?p] by (simp only: take_all order_refl)
  then show ?thesis by (simp add: shm_write_def write_stores_def shm_off_def Let_def)
qed

lemma shm_stores_run:
  "do_stores (shm_stores (sm_mask r) (sm_producer_seq r) ds) (sm_mem r) = sm_mem (foldl shm_write r ds)"
proof (induction ds arbitrary: r)
  case (Cons d ds)
  from Cons [of "shm_write r d"] show ?case by (simp add: shm_write_stores)
qed simp

lemma shm_stores_append: "shm_stores slot_mask seq (xs @ ys) = shm_stores slot_mask seq xs @ shm_stores slot_mask (seq + length xs) ys"
  by (induction xs arbitrary: seq) simp_all

lemma write_stores_nonempty [simp]: "write_stores slot_mask seq d \<noteq> []"
  by (simp add: write_stores_def Let_def)

lemma finished_Suc:
  "k < length ds \<Longrightarrow>
     finished r ds (Suc k) = finished r ds k + length (write_stores (sm_mask r) (sm_producer_seq r + k) (ds ! k))"
  by (simp add: finished_def take_Suc_conv_app_nth shm_stores_append)

lemma finished_less: "i < k \<Longrightarrow> k \<le> length ds \<Longrightarrow> finished r ds i < finished r ds k"
proof (induction k)
  case (Suc k)
  then have "finished r ds k < finished r ds (Suc k)"
    by (simp add: finished_Suc)
  with Suc show ?case by (cases "i = k") auto
qed simp

lemma finished_le: "i \<le> k \<Longrightarrow> k \<le> length ds \<Longrightarrow> finished r ds i \<le> finished r ds k"
  using finished_less [of i k ds r] by (cases "i = k") auto

lemma take_finished:
  "take (finished r ds k) (shm_stores (sm_mask r) (sm_producer_seq r) ds) =
     shm_stores (sm_mask r) (sm_producer_seq r) (take k ds)"
  using shm_stores_append [of "sm_mask r" "sm_producer_seq r" "take k ds" "drop k ds"]
  by (simp add: finished_def)

lemma mem_after_finished: "mem_after r ds (finished r ds k) = sm_mem (foldl shm_write r (take k ds))"
  by (simp add: mem_after_def take_finished shm_stores_run)

text \<open>Where the stores of a message go.\<close>

definition store_outside :: "nat \<Rightarrow> memory_store \<Rightarrow> bool" where
  "store_outside a st \<longleftrightarrow> a < fst st \<or> fst st + length (snd st) \<le> a"

lemma do_stores_outside: "list_all (store_outside a) ss \<Longrightarrow> do_stores ss m a = m a"
  by (induction ss arbitrary: m) (auto simp: store_outside_def mem_write_def)

lemma write_stores_in_slot:
  assumes "st \<in> set (write_stores slot_mask seq d)"
  shows "(seq AND slot_mask) * slot_size \<le> fst st \<and> fst st + length (snd st) \<le> (seq AND slot_mask) * slot_size + slot_size"
  using assms by (auto simp: write_stores_def Let_def slot_size_def)

lemma write_stores_before_last:
  assumes "u < length (write_stores slot_mask seq d)" and "st \<in> set (take u (write_stores slot_mask seq d))"
  shows "(seq AND slot_mask) * slot_size + 8 \<le> fst st \<and> fst st + length (snd st) \<le> (seq AND slot_mask) * slot_size + slot_size"
proof -
  have "st \<in> set (butlast (write_stores slot_mask seq d))"
    using assms take_butlast [OF assms(1)] by (metis in_set_takeD)
  then show ?thesis
    by (auto simp: write_stores_def Let_def slot_size_def butlast_append)
qed

text \<open>A message that is being written has not touched the sequence number of any slot.\<close>

lemma seq_field_while_writing:
  assumes "u < length (write_stores slot_mask seq d)"
  shows "slot_seq (do_stores (take u (write_stores slot_mask seq d)) m) i = slot_seq m i"
proof -
  have "do_stores (take u (write_stores slot_mask seq d)) m a = m a" if "i * slot_size \<le> a" "a < i * slot_size + 8" for a
  proof (rule do_stores_outside, unfold list_all_iff, intro ballI)
    fix st assume "st \<in> set (take u (write_stores slot_mask seq d))"
    from write_stores_before_last [OF assms this]
    have st: "(seq AND slot_mask) * slot_size + 8 \<le> fst st" "fst st + length (snd st) \<le> (seq AND slot_mask) * slot_size + slot_size"
      by auto
    show "store_outside a st"
    proof (cases "i = (seq AND slot_mask)")
      case True
      with st that show ?thesis by (simp add: store_outside_def)
    next
      case False
      from slots_disjoint [OF this, of 0 8 slot_size 0 slot_size] st that
      show ?thesis by (auto simp: store_outside_def slot_size_def)
    qed
  qed
  then have "mem_read (i * slot_size) 8 (do_stores (take u (write_stores slot_mask seq d)) m) = mem_read (i * slot_size) 8 m"
    by (auto simp: mem_read_def)
  then show ?thesis by (simp add: slot_seq_def)
qed

text \<open>How many messages are finished at a time.\<close>

lemma messages_finished:
  obtains k where "k \<le> length ds" and "finished r ds k \<le> t" and "k < length ds \<Longrightarrow> t < finished r ds (Suc k)"
proof -
  let ?K = "{k. k \<le> length ds \<and> finished r ds k \<le> t}"
  have fin: "finite ?K" by simp
  have "0 \<in> ?K" by (simp add: finished_def)
  then have "Max ?K \<in> ?K" using fin Max_in by blast
  moreover have "t < finished r ds (Suc (Max ?K))" if "Max ?K < length ds"
  proof (rule ccontr)
    assume "\<not> t < finished r ds (Suc (Max ?K))"
    with that have "Suc (Max ?K) \<in> ?K" by simp
    from Max_ge [OF fin this] show False by simp
  qed
  ultimately show thesis by (intro that [of "Max ?K"]) auto
qed

lemma seq_field_at:
  assumes "k \<le> length ds" and "finished r ds k \<le> t" and "k < length ds \<Longrightarrow> t < finished r ds (Suc k)"
  shows "slot_seq (mem_after r ds t) i = slot_seq (sm_mem (foldl shm_write r (take k ds))) i"
proof (cases "k < length ds")
  case True
  let ?w = "write_stores (sm_mask r) (sm_producer_seq r + k) (ds ! k)"
  have all: "shm_stores (sm_mask r) (sm_producer_seq r) ds =
      shm_stores (sm_mask r) (sm_producer_seq r) (take k ds) @ ?w @
      shm_stores (sm_mask r) (Suc (sm_producer_seq r + k)) (drop (Suc k) ds)"
  proof -
    have "shm_stores (sm_mask r) (sm_producer_seq r) (take k ds @ ds ! k # drop (Suc k) ds) =
        shm_stores (sm_mask r) (sm_producer_seq r) (take k ds) @ ?w @
        shm_stores (sm_mask r) (Suc (sm_producer_seq r + k)) (drop (Suc k) ds)"
      unfolding shm_stores_append using True by simp
    then show ?thesis using id_take_nth_drop [OF True] by simp
  qed
  have u: "t - finished r ds k < length ?w" using assms(2,3) True by (simp add: finished_Suc)
  then have "take t (shm_stores (sm_mask r) (sm_producer_seq r) ds) =
      shm_stores (sm_mask r) (sm_producer_seq r) (take k ds) @ take (t - finished r ds k) ?w"
    unfolding all using assms(2) by (simp add: finished_def)
  then have "mem_after r ds t = do_stores (take (t - finished r ds k) ?w) (sm_mem (foldl shm_write r (take k ds)))"
    by (simp add: mem_after_def shm_stores_run)
  with seq_field_while_writing [OF u] show ?thesis by simp
next
  case False
  with assms(1) have k: "k = length ds" by simp
  with assms(2) have "mem_after r ds t = mem_after r ds (finished r ds k)"
    by (simp add: mem_after_def finished_def)
  then show ?thesis by (simp add: mem_after_finished)
qed

text \<open>The slot of a finished message is left alone until the writer begins the message a ring later.\<close>

lemma shm_stores_seq:
  "st \<in> set (shm_stores slot_mask seq ds) \<Longrightarrow> \<exists>k < length ds. st \<in> set (write_stores slot_mask (seq + k) (ds ! k))"
proof (induction ds arbitrary: seq)
  case (Cons d ds)
  show ?case
  proof (cases "st \<in> set (write_stores slot_mask seq d)")
    case True
    then show ?thesis by (intro exI [of _ 0]) simp
  next
    case False
    with Cons.prems have "st \<in> set (shm_stores slot_mask (Suc seq) ds)" by simp
    from Cons.IH [OF this] obtain k where "k < length ds" "st \<in> set (write_stores slot_mask (Suc seq + k) (ds ! k))"
      by blast
    then show ?thesis by (intro exI [of _ "Suc k"]) simp
  qed
qed simp

lemma slot_left_alone:
  assumes ok: "shm_ok n r" and z: "sm_producer_seq r = 0" and j: "j < length ds"
    and t: "finished r ds (Suc j) \<le> t" and begun: "j + n < length ds \<Longrightarrow> t \<le> finished r ds (j + n)"
    and a: "j mod n * slot_size \<le> a" "a < j mod n * slot_size + slot_size"
  shows "mem_after r ds t a = sm_mem (foldl shm_write r (take (Suc j) ds)) a"
proof -
  have n: "0 < n" and mask: "sm_mask r = n - 1" and pow: "n AND (n - 1) = 0" using ok by (auto simp: shm_ok_def)
  have idx: "k AND sm_mask r = k mod n" for k using pow2_mod [OF n pow, of k] mask n by simp
  let ?rest = "shm_stores (sm_mask r) (Suc j) (drop (Suc j) ds)"
  let ?mid = "shm_stores (sm_mask r) (Suc j) (take (n - 1) (drop (Suc j) ds))"
  have split: "shm_stores (sm_mask r) 0 ds = shm_stores (sm_mask r) 0 (take (Suc j) ds) @ ?rest"
    using shm_stores_append [of "sm_mask r" 0 "take (Suc j) ds" "drop (Suc j) ds"] j by simp
  have sub: "set (take (t - finished r ds (Suc j)) ?rest) \<subseteq> set ?mid"
  proof (cases "j + n < length ds")
    case False
    with n have "take (n - 1) (drop (Suc j) ds) = drop (Suc j) ds" by simp
    then show ?thesis by (simp add: set_take_subset)
  next
    case True
    have "take (j + n) ds = take (Suc j) ds @ take (n - 1) (drop (Suc j) ds)"
      using n take_add [of "Suc j" "n - 1" ds] by simp
    then have "finished r ds (j + n) = finished r ds (Suc j) + length ?mid"
      using j by (simp add: finished_def z shm_stores_append)
    with begun [OF True] have "t - finished r ds (Suc j) \<le> length ?mid" by linarith
    moreover have "?rest = ?mid @ shm_stores (sm_mask r) (Suc j + length (take (n - 1) (drop (Suc j) ds))) (drop (n - 1) (drop (Suc j) ds))"
      using shm_stores_append [of "sm_mask r" "Suc j" "take (n - 1) (drop (Suc j) ds)" "drop (n - 1) (drop (Suc j) ds)"]
      by (simp only: append_take_drop_id)
    ultimately show ?thesis by (simp add: set_take_subset)
  qed
  have "list_all (store_outside a) (take (t - finished r ds (Suc j)) ?rest)"
    unfolding list_all_iff
  proof (intro ballI)
    fix st assume "st \<in> set (take (t - finished r ds (Suc j)) ?rest)"
    with sub have "st \<in> set ?mid" by blast
    then obtain k where k: "k < length (take (n - 1) (drop (Suc j) ds))"
      and st: "st \<in> set (write_stores (sm_mask r) (Suc j + k) (take (n - 1) (drop (Suc j) ds) ! k))"
      using shm_stores_seq by blast
    from k have "k < n - 1" by simp
    then have "Suc k < n" by linarith
    have "(Suc j + k) mod n \<noteq> j mod n"
    proof
      assume "(Suc j + k) mod n = j mod n"
      then have "n dvd Suc k" using mod_eq_dvd_iff_nat [of j "Suc j + k" n] by simp
      with \<open>Suc k < n\<close> show False using dvd_imp_le by fastforce
    qed
    with slots_disjoint [of "j mod n" "(Suc j + k) mod n" 0 slot_size slot_size 0 slot_size]
      write_stores_in_slot [OF st] a
    show "store_outside a st" by (auto simp: store_outside_def idx)
  qed
  then have "do_stores (take (t - finished r ds (Suc j)) ?rest) m a = m a" for m
    by (rule do_stores_outside)
  moreover have "take t (shm_stores (sm_mask r) 0 ds) =
      shm_stores (sm_mask r) 0 (take (Suc j) ds) @ take (t - finished r ds (Suc j)) ?rest"
    unfolding split using t by (simp add: finished_def z)
  ultimately show ?thesis
    using shm_stores_run [of r "take (Suc j) ds"] by (simp add: mem_after_def z)
qed

lemma mem_read_offsets: "mem_read a k m = map (\<lambda>i. m (a + i)) [0..<k]"
  by (rule nth_equalityI) (simp_all add: mem_read_def)

lemma shm_read_untouched:
  assumes "shm_ok n r" and "sm_producer_seq r = 0" and "j < length ds"
    and t: "\<And>i. finished r ds (Suc j) \<le> moment i"
    and begun: "\<And>i. i \<le> slot_data_size + 1 \<Longrightarrow> j + n < length ds \<Longrightarrow> moment i \<le> finished r ds (j + n)"
    and found: "shm_read (foldl shm_write r (take (Suc j) ds)) j = Some (take slot_data_size (ds ! j))"
  shows "shm_read_during r ds moment j = Some (take slot_data_size (ds ! j))"
proof -
  let ?S = "foldl shm_write r (take (Suc j) ds)" and ?off = "j mod n * slot_size"
  have pow: "0 < n" "n AND (n - 1) = 0" "sm_mask r = n - 1" using assms(1) by (auto simp: shm_ok_def)
  have mask_run: "sm_mask (foldl shm_write r es) = sm_mask r" for es
    by (induction es arbitrary: r) simp_all
  have off: "shm_off r j = ?off" "shm_off ?S j = ?off"
    using pow2_mod [OF pow(1,2), of j] by (simp_all add: shm_off_def mask_run pow(3))
  have same: "mem_after r ds (moment i) a = sm_mem ?S a"
    if "?off \<le> a" "a < ?off + slot_size" "i \<le> slot_data_size + 1" for a i
    by (rule slot_left_alone [OF assms(1-3) t begun [OF that(3)] that(1,2)])
  have field: "mem_read (?off + b) k (mem_after r ds (moment i)) = mem_read (?off + b) k (sm_mem ?S)"
    if "b + k \<le> slot_size" "i \<le> slot_data_size + 1" for b k i
    using same [OF _ _ that(2)] that(1) by (auto simp: mem_read_def)
  from found have seq: "le_value (mem_read ?off 8 (sm_mem ?S)) = j"
    and data: "mem_read (?off + 12) (le_value (mem_read (?off + 8) 4 (sm_mem ?S))) (sm_mem ?S) = take slot_data_size (ds ! j)"
    by (auto simp: shm_read_def off Let_def split: if_splits)
  let ?len = "le_value (mem_read (?off + 8) 4 (sm_mem ?S))"
  have len: "?len \<le> slot_data_size" using arg_cong [OF data, of length] by simp
  have "map (\<lambda>i. mem_after r ds (moment (2 + i)) (?off + 12 + i)) [0..<?len] =
      map (\<lambda>i. sm_mem ?S (?off + 12 + i)) [0..<?len]"
    using len by (auto simp: slot_size_def intro!: same)
  also have "\<dots> = take slot_data_size (ds ! j)"
    by (simp only: data [symmetric] mem_read_offsets [symmetric])
  finally show ?thesis
    using field [of 0 8 0] field [of 8 4 1] seq
    by (simp add: shm_read_during_def off Let_def slot_size_def slot_data_size_def)
qed

text \<open>
  C7. A reader of the shared-memory ring that runs while the writer writes, its loads between any of the
  writer's stores: as long as the writer does not begin the message a ring after \<open>j\<close> before the reader's last
  load, the reader at number \<open>j\<close> gets message \<open>j\<close>, cut to the 8192 bytes of a slot, when the writer had
  finished it at the reader's first load, and nothing otherwise. (Fewer messages than the sentinel number;
  the segment may hold any bytes at the start.)
\<close>

theorem shm_reader_gets_message:
  assumes "shm_init n m = Some r" and "0 < n" and "length ds < unwritten" and "j < unwritten"
    and "mono moment"
    and "j + n < length ds \<longrightarrow> moment (slot_data_size + 1) \<le> finished r ds (j + n)"
  shows "shm_read_during r ds moment j =
    (if j < length ds \<and> finished r ds (j + 1) \<le> moment 0 then Some (take slot_data_size (ds ! j)) else None)"
proof -
  have inv: "shm_ok n r \<and> lengths_ok n r" and z: "sm_producer_seq r = 0"
    using shm_init_ok [OF assms(2,1)] shm_init_lengths [OF assms(1)] by auto
  then have ok: "shm_ok n r" by simp
  have fits: "seq_fits (length (take k ds))" for k using assms(3) by (simp add: seq_fits_def)
  have window: "shm_read (foldl shm_write r (take k ds)) i =
      (if i < k \<and> k \<le> i + n then Some (take slot_data_size (ds ! i)) else None)"
    if "k \<le> length ds" "i < unwritten" for k i
    using shm.window [OF inv z fits, of i k] that by (auto simp: seq_fits_def)
  have bound: "moment i \<le> finished r ds (j + n)" if "i \<le> slot_data_size + 1" "j + n < length ds" for i
    using monoD [OF assms(5) that(1)] assms(6) that(2) by linarith
  obtain k where k: "k \<le> length ds" "finished r ds k \<le> moment 0"
    "k < length ds \<Longrightarrow> moment 0 < finished r ds (Suc k)"
    using messages_finished [of ds r "moment 0"] by blast
  have pow: "n AND (n - 1) = 0" "sm_mask r = n - 1" using ok by (auto simp: shm_ok_def)
  have off: "shm_off r j = j mod n * slot_size"
    using pow2_mod [OF assms(2) pow(1), of j] by (simp add: shm_off_def pow(2))
  show ?thesis
  proof (cases "j < k")
    case True
    then have fin: "finished r ds (Suc j) \<le> moment 0" and jl: "j < length ds"
      using finished_le [of "Suc j" k ds r] k by auto
    have "finished r ds (Suc j) \<le> moment i" for i
      using fin monoD [OF assms(5), of 0 i] by simp
    then have "shm_read_during r ds moment j = Some (take slot_data_size (ds ! j))"
    proof (rule shm_read_untouched [OF ok z jl _ bound])
      show "shm_read (foldl shm_write r (take (Suc j) ds)) j = Some (take slot_data_size (ds ! j))"
        using window [of "Suc j" j] jl assms(2,4) by simp
    qed
    with jl fin show ?thesis by simp
  next
    case False
    have "\<not> (j < length ds \<and> finished r ds (Suc j) \<le> moment 0)"
    proof
      assume "j < length ds \<and> finished r ds (Suc j) \<le> moment 0"
      with False k finished_le [of "Suc k" "Suc j" ds r] show False by (cases "k < length ds") auto
    qed
    moreover have "slot_seq (mem_after r ds (moment 0)) (j mod n) \<noteq> j"
    proof
      assume "slot_seq (mem_after r ds (moment 0)) (j mod n) = j"
      then have "slot_seq (sm_mem (foldl shm_write r (take k ds))) (j mod n) = j"
        using seq_field_at [OF k] by simp
      moreover have "shm_ok n (foldl shm_write r (take k ds))" using shm.run [OF inv z fits] by blast
      ultimately have "shm_read (foldl shm_write r (take k ds)) j \<noteq> None"
        by (simp add: shm_read_def shm_off_eq slot_seq_def Let_def)
      with window [OF k(1) assms(4)] False show False by simp
    qed
    ultimately show ?thesis by (simp add: shm_read_during_def off Let_def slot_seq_def)
  qed
qed

definition demo_moments :: "nat \<Rightarrow> nat" where
  "demo_moments i = (if i = 0 then 3 else 5)"

theorem shm_reader_gets_message_witness:
  "\<exists>r. shm_init 2 (\<lambda>_. 0) = Some r \<and>
     shm_read_during r [[7], [8, 9]] demo_moments 0 = Some [7] \<and>
     shm_read_during r [[7], [8, 9]] demo_moments 1 = None"
proof -
  obtain r where r: "shm_init 2 (\<lambda>_. 0) = Some r" by (simp add: shm_init_def)
  have mono: "mono demo_moments" by (auto simp: mono_def demo_moments_def)
  have f: "finished r [[7], [8, 9]] (0 + 1) = 3" "finished r [[7], [8, 9]] (1 + 1) = 7"
    by (simp_all add: finished_def write_stores_def slot_data_size_def Let_def numeral_2_eq_2)
  have u: "length [[7], [8, 9::byte]] < unwritten" "0 < unwritten" "1 < unwritten"
    by (simp_all add: unwritten_def)
  have "shm_read_during r [[7], [8, 9]] demo_moments 0 = Some [7]"
    by (subst shm_reader_gets_message [OF r _ u(1,2) mono])
       (simp_all add: f [simplified] slot_data_size_def demo_moments_def)
  moreover have "shm_read_during r [[7], [8, 9]] demo_moments 1 = None"
    by (subst shm_reader_gets_message [OF r _ u(1,3) mono])
       (simp_all add: f [simplified] slot_data_size_def demo_moments_def)
  ultimately show ?thesis using r by blast
qed

text \<open>
  The condition is needed: the sequence number of a slot is not withdrawn while the slot is overwritten,
  so a reader that found its number before gets a mixture of two messages. Here the ring has one slot, the
  reader of message 0 loads its number and length, the writer stores the length and the first byte of
  message 1, and the reader loads the payload.
\<close>

definition torn_moments :: "nat \<Rightarrow> nat" where
  "torn_moments i = (if i < 2 then 4 else 6)"

lemma reader_gets_torn_message:
  assumes "sm_mask r = 0" and "sm_producer_seq r = 0"
  shows "shm_read_during r [[1, 1], [2, 2]] torn_moments 0 = Some [2, 1]"
proof -
  let ?m4 = "mem_write 0 (le_bytes 8 0) (mem_write 13 [1] (mem_write 12 [1] (mem_write 8 (le_bytes 4 2) (sm_mem r))))"
  have stores: "shm_stores 0 0 [[1, 1], [2, 2]] =
      [(8, le_bytes 4 2), (12, [1]), (13, [1]), (0, le_bytes 8 0),
       (8, le_bytes 4 2), (12, [2]), (13, [2]), (0, le_bytes 8 1)]"
    by (simp add: write_stores_def slot_data_size_def Let_def numeral_2_eq_2)
  have m4: "mem_after r [[1, 1], [2, 2]] 4 = ?m4"
    and m6: "mem_after r [[1, 1], [2, 2]] 6 = mem_write 12 [2] (mem_write 8 (le_bytes 4 2) ?m4)"
    unfolding mem_after_def assms stores by simp_all
  have "le_value (mem_read 0 8 ?m4) = 0" by (simp add: le_value_bytes)
  moreover have "le_value (mem_read 8 4 ?m4) = 2"
    by (simp add: mem_read_disjoint le_value_bytes)
  moreover have "map (\<lambda>i. mem_write 12 [2] (mem_write 8 (le_bytes 4 2) ?m4) (12 + i)) [0..<2] = [2, 1]"
    by (simp add: mem_write_def numeral_2_eq_2)
  ultimately show ?thesis
    by (simp add: shm_read_during_def shm_off_def assms torn_moments_def m4 m6 Let_def)
qed

end
