(* ===== verification/Wire_Codec.thy ===== *)
theory Wire_Codec
  imports Bytes Enums
begin

text \<open>
  The binary codec of \<open>infrastructure/sbe_codec.py\<close>: the 38-byte header and JSON payload of a bus
  message, and the 60 bytes of a market tick, as \<open>struct\<close> packs them big-endian. A Python string
  is its list of code points, encoded to UTF-8 here; a double is its 64-bit pattern, which \<open>struct\<close>
  copies; the JSON text of a payload is the parameter \<open>to_json\<close> with its reader \<open>of_json\<close>. \<open>None\<close>
  is an exception of \<open>struct\<close>, of the codec or of JSON.
\<close>

section \<open>UTF-8\<close>

text \<open>Code points, and bytes as numbers below 256; surrogates have no encoding.\<close>

definition utf8_point :: "nat \<Rightarrow> nat list option" where
  "utf8_point c =
     (if c < 128 then Some [c]
      else if c < 2048 then Some [192 + c div 64, 128 + c mod 64]
      else if 55296 \<le> c \<and> c < 57344 then None
      else if c < 65536 then Some [224 + c div 4096, 128 + c div 64 mod 64, 128 + c mod 64]
      else if c < 1114112
      then Some [240 + c div 262144, 128 + c div 4096 mod 64, 128 + c div 64 mod 64, 128 + c mod 64]
      else None)"

fun utf8_encode :: "nat list \<Rightarrow> nat list option" where
  "utf8_encode [] = Some []"
| "utf8_encode (c # cs) =
     (case utf8_point c of None \<Rightarrow> None
      | Some bs \<Rightarrow> map_option (\<lambda>rest. bs @ rest) (utf8_encode cs))"

definition continues :: "nat \<Rightarrow> bool" where
  "continues b \<longleftrightarrow> 128 \<le> b \<and> b < 192"

text \<open>One code point off the front of the bytes: the shortest form only, and no surrogate.\<close>

fun utf8_take :: "nat list \<Rightarrow> (nat \<times> nat list) option" where
  "utf8_take [] = None"
| "utf8_take (b # bs) =
     (if b < 128 then Some (b, bs)
      else if b < 194 then None
      else if b < 224
      then (case bs of
          b1 # rest \<Rightarrow> if continues b1 then Some ((b - 192) * 64 + (b1 - 128), rest) else None
        | _ \<Rightarrow> None)
      else if b < 240
      then (case bs of
          b1 # b2 # rest \<Rightarrow>
            (let c = (b - 224) * 4096 + (b1 - 128) * 64 + (b2 - 128)
             in if continues b1 \<and> continues b2 \<and> 2048 \<le> c \<and> \<not> (55296 \<le> c \<and> c < 57344)
                then Some (c, rest) else None)
        | _ \<Rightarrow> None)
      else if b < 245
      then (case bs of
          b1 # b2 # b3 # rest \<Rightarrow>
            (let c = (b - 240) * 262144 + (b1 - 128) * 4096 + (b2 - 128) * 64 + (b3 - 128)
             in if continues b1 \<and> continues b2 \<and> continues b3 \<and> 65536 \<le> c \<and> c < 1114112
                then Some (c, rest) else None)
        | _ \<Rightarrow> None)
      else None)"

lemma utf8_take_shorter: "utf8_take bs = Some (c, rest) \<Longrightarrow> length rest < length bs"
  by (cases bs rule: utf8_take.cases) (auto simp: Let_def split: if_splits list.splits)

function utf8_decode :: "nat list \<Rightarrow> nat list option" where
  "utf8_decode bs =
     (if bs = [] then Some []
      else case utf8_take bs of None \<Rightarrow> None
        | Some (c, rest) \<Rightarrow> map_option (\<lambda>cs. c # cs) (utf8_decode rest))"
  by pat_completeness auto
termination
  by (relation "measure length") (auto dest: utf8_take_shorter)

declare utf8_decode.simps [simp del]

lemma utf8_decode_Nil [simp]: "utf8_decode [] = Some []"
  by (simp add: utf8_decode.simps)

lemma digit_shift: "c div (m * 64) * (m * 64) + c div m mod 64 * m = c div m * (m :: nat)"
proof -
  have "(c div m div 64 * 64 + c div m mod 64) * m = c div m * m" by simp
  then show ?thesis by (simp only: div_mult2_eq add_mult_distrib mult.assoc mult.commute [of 64 m])
qed

lemma utf8_take_point:
  assumes "utf8_point c = Some bs"
  shows "utf8_take (bs @ rest) = Some (c, rest)" and "bs \<noteq> []"
proof -
  show "bs \<noteq> []" using assms by (auto simp: utf8_point_def split: if_splits)
  have two: "c div 64 * 64 + c mod 64 = c" by simp
  have three: "c div 4096 * 4096 + c div 64 mod 64 * 64 + c mod 64 = c"
    using digit_shift [of c 64] two by simp
  have four: "c div 262144 * 262144 + c div 4096 mod 64 * 4096 + c div 64 mod 64 * 64 + c mod 64 = c"
    using digit_shift [of c 4096] three by simp
  consider "c < 128" "bs = [c]"
    | "128 \<le> c" "c < 2048" "bs = [192 + c div 64, 128 + c mod 64]"
    | "2048 \<le> c" "c < 65536" "\<not> (55296 \<le> c \<and> c < 57344)"
        "bs = [224 + c div 4096, 128 + c div 64 mod 64, 128 + c mod 64]"
    | "65536 \<le> c" "c < 1114112"
        "bs = [240 + c div 262144, 128 + c div 4096 mod 64, 128 + c div 64 mod 64, 128 + c mod 64]"
    using assms by (auto simp: utf8_point_def not_less split: if_splits)
  then show "utf8_take (bs @ rest) = Some (c, rest)"
  proof cases
    case 2
    have "2 \<le> c div 64" "c div 64 < 32" using 2 by auto
    with 2 two show ?thesis by (simp add: continues_def)
  next
    case 3
    have "c div 4096 < 16" using 3 by auto
    with 3 three show ?thesis by (simp add: continues_def Let_def)
  next
    case 4
    have "c div 262144 < 5" using 4 by auto
    with 4 four show ?thesis by (simp add: continues_def Let_def)
  qed simp
qed

lemma utf8_round_trip: "utf8_encode cs = Some bs \<Longrightarrow> utf8_decode bs = Some cs"
proof (induction cs arbitrary: bs)
  case (Cons c cs)
  then obtain b rest where b: "utf8_point c = Some b" and r: "utf8_encode cs = Some rest" and "bs = b @ rest"
    by (auto split: option.splits)
  with Cons.IH [OF r] utf8_take_point(1) [OF b, of rest] utf8_take_point(2) [OF b] show ?case
    by (subst utf8_decode.simps) simp
qed simp

section \<open>Fields of a struct\<close>

text \<open>Big-endian integers; a value out of the field's range is refused.\<close>

definition pack_uint :: "nat \<Rightarrow> int \<Rightarrow> byte list option" where
  "pack_uint k n = (if 0 \<le> n \<and> n < 256 ^ k then Some (rev (le_bytes k (nat n))) else None)"

definition unpack_uint :: "byte list \<Rightarrow> int" where
  "unpack_uint bs = int (le_value (rev bs))"

definition pack_int64 :: "int \<Rightarrow> byte list option" where
  "pack_int64 n =
     (if - (2 ^ 63) \<le> n \<and> n < 2 ^ 63 then Some (rev (le_bytes 8 (nat (n mod 2 ^ 64)))) else None)"

definition unpack_int64 :: "byte list \<Rightarrow> int" where
  "unpack_int64 bs = (let n = unpack_uint bs in if n < 2 ^ 63 then n else n - 2 ^ 64)"

definition pack_double :: "64 word \<Rightarrow> byte list" where
  "pack_double w = rev (le_bytes 8 (unat w))"

definition unpack_double :: "byte list \<Rightarrow> 64 word" where
  "unpack_double bs = word_of_nat (le_value (rev bs))"

text \<open>\<open>s.encode("utf-8")[:n].ljust(n, b"\\x00")\<close> and \<open>bs.rstrip(b"\\x00").decode("utf-8")\<close>.\<close>

definition pack_text :: "nat \<Rightarrow> nat list \<Rightarrow> byte list option" where
  "pack_text n cs =
     map_option (\<lambda>raw. let raw = take n raw in map word_of_nat raw @ replicate (n - length raw) 0)
       (utf8_encode cs)"

definition unpack_text :: "byte list \<Rightarrow> nat list option" where
  "unpack_text bs = utf8_decode (map unat (rev (dropWhile (\<lambda>b. b = 0) (rev bs))))"

section \<open>Bus messages\<close>

datatype topic =
    APPROVED_SETUPS | UNIVERSE_UPDATE | REGIME_UPDATE | FEED_STATUS | CANDIDATE_SIGNAL
  | VALIDATED_SIGNAL | RISK_DECISION | TRADE_PLAN | RECONCILIATION_STATUS | ORDER_SUBMITTED
  | ORDER_UPDATE | FILL_EVENT | EXECUTION_QUALITY | POSITION_UPDATE | EXIT_TRIGGERED | TRADE_CLOSED
  | SYSTEM_STATE | PSA_ALERT | HALT_COMMAND | RESUME_COMMAND | DAILY_PNL
  | CHANGE_PROPOSAL | HGL_DECISION | AUDIT_EVENT
  | AGENT_HEARTBEAT | STARVATION_ALERT
  | CLOCK_TICK | SESSION_START | SESSION_END | TIMER_EXPIRED | HEALTH_UPDATE | REPLAY_REQUEST
  | REPLAY_REPORT | KILL_SWITCH_TOPIC

definition all_topics :: "topic list" where
  "all_topics =
     [APPROVED_SETUPS, UNIVERSE_UPDATE, REGIME_UPDATE, FEED_STATUS, CANDIDATE_SIGNAL,
      VALIDATED_SIGNAL, RISK_DECISION, TRADE_PLAN, RECONCILIATION_STATUS, ORDER_SUBMITTED,
      ORDER_UPDATE, FILL_EVENT, EXECUTION_QUALITY, POSITION_UPDATE, EXIT_TRIGGERED, TRADE_CLOSED,
      SYSTEM_STATE, PSA_ALERT, HALT_COMMAND, RESUME_COMMAND, DAILY_PNL,
      CHANGE_PROPOSAL, HGL_DECISION, AUDIT_EVENT,
      AGENT_HEARTBEAT, STARVATION_ALERT,
      CLOCK_TICK, SESSION_START, SESSION_END, TIMER_EXPIRED, HEALTH_UPDATE, REPLAY_REQUEST,
      REPLAY_REPORT, KILL_SWITCH_TOPIC]"

record 'p wire_message =
  wm_message_id :: string
  wm_topic :: topic
  wm_source_agent :: "nat list"
  wm_payload :: 'p
  wm_timestamp :: int
  wm_correlation_id :: "string option"

text \<open>\<open>TOPIC_TABLE\<close> and \<open>TOPIC_REVERSE\<close>, by position in the enumeration.\<close>

definition topic_table :: "topic \<Rightarrow> int option" where
  "topic_table t = map_of (zip all_topics (map int [0..<length all_topics])) t"

definition topic_reverse :: "int \<Rightarrow> topic option" where
  "topic_reverse i = map_of (zip (map int [0..<length all_topics]) all_topics) i"

definition bus_header_size :: nat where
  "bus_header_size = 38"

definition sbe_encode :: "('p \<Rightarrow> byte list) \<Rightarrow> 'p wire_message \<Rightarrow> byte list option" where
  "sbe_encode to_json m =
     (let topic_id = (case topic_table (wm_topic m) of None \<Rightarrow> 0 | Some i \<Rightarrow> i);
          payload = to_json (wm_payload m)
      in case pack_text 16 (wm_source_agent m) of
           None \<Rightarrow> None
         | Some source \<Rightarrow>
             (case (pack_uint 2 topic_id, pack_uint 4 (int (length payload))) of
                (Some tp, Some len) \<Rightarrow> Some (replicate 16 0 @ tp @ source @ len @ payload)
              | _ \<Rightarrow> None))"

definition unknown_source :: "nat list" where
  "unknown_source = [117, 110, 107, 110, 111, 119, 110]"

text \<open>The decoder makes a new message: identifier and time are generated, the correlation is gone.\<close>

definition sbe_decode ::
  "(byte list \<Rightarrow> 'p option) \<Rightarrow> string \<Rightarrow> int \<Rightarrow> byte list \<Rightarrow> 'p wire_message option" where
  "sbe_decode of_json new_id now data =
     (if length data < bus_header_size then None
      else
        let topic_id = unpack_uint (take 2 (drop 16 data));
            source = unpack_text (take 16 (drop 18 data));
            payload_len = nat (unpack_uint (take 4 (drop 34 data)));
            topic = (case topic_reverse topic_id of None \<Rightarrow> AGENT_HEARTBEAT | Some t \<Rightarrow> t)
        in case source of
             None \<Rightarrow> None
           | Some src \<Rightarrow>
               (case of_json (take payload_len (drop bus_header_size data)) of
                  None \<Rightarrow> None
                | Some p \<Rightarrow>
                    Some \<lparr>wm_message_id = new_id, wm_topic = topic,
                          wm_source_agent = (if src = [] then unknown_source else src),
                          wm_payload = p, wm_timestamp = now, wm_correlation_id = None\<rparr>))"

section \<open>Ticks\<close>

record wire_tick =
  wt_symbol :: "nat list"
  wt_timestamp_ns :: int
  wt_bid :: "64 word"
  wt_ask :: "64 word"
  wt_last :: "64 word"
  wt_volume :: int
  wt_sequence :: int

definition tick_size :: nat where
  "tick_size = 60"

definition encode_tick :: "wire_tick \<Rightarrow> byte list option" where
  "encode_tick t =
     (case (pack_text 8 (wt_symbol t), pack_int64 (wt_timestamp_ns t), pack_uint 4 (wt_volume t),
            pack_int64 (wt_sequence t)) of
        (Some sy, Some ts, Some vol, Some sq) \<Rightarrow>
          Some (sy @ ts @ pack_double (wt_bid t) @ pack_double (wt_ask t) @ pack_double (wt_last t) @
                vol @ replicate 4 0 @ sq @ replicate 4 0)
      | _ \<Rightarrow> None)"

definition decode_tick :: "byte list \<Rightarrow> wire_tick option" where
  "decode_tick data =
     (if length data < tick_size then None
      else
        (case unpack_text (take 8 data) of
           None \<Rightarrow> None
         | Some sy \<Rightarrow>
             Some \<lparr>wt_symbol = sy, wt_timestamp_ns = unpack_int64 (take 8 (drop 8 data)),
                   wt_bid = unpack_double (take 8 (drop 16 data)),
                   wt_ask = unpack_double (take 8 (drop 24 data)),
                   wt_last = unpack_double (take 8 (drop 32 data)),
                   wt_volume = unpack_uint (take 4 (drop 40 data)),
                   wt_sequence = unpack_int64 (take 8 (drop 48 data))\<rparr>))"

section \<open>Reading back a field\<close>

lemma unpack_pack_uint:
  assumes "pack_uint k n = Some bs"
  shows "unpack_uint bs = n" and "length bs = k"
proof -
  have n: "0 \<le> n" "n < 256 ^ k" and bs: "bs = rev (le_bytes k (nat n))"
    using assms by (auto simp: pack_uint_def split: if_splits)
  then have "nat n < 256 ^ k" by (simp add: nat_less_iff)
  with n bs show "unpack_uint bs = n" by (simp add: unpack_uint_def le_value_bytes)
  show "length bs = k" using bs by simp
qed

lemma unpack_pack_int64:
  assumes "pack_int64 n = Some bs"
  shows "unpack_int64 bs = n" and "length bs = 8"
proof -
  have n: "- (2 ^ 63) \<le> n" "n < 2 ^ 63" and bs: "bs = rev (le_bytes 8 (nat (n mod 2 ^ 64)))"
    using assms by (auto simp: pack_int64_def split: if_splits)
  have "nat (n mod 2 ^ 64) < 256 ^ 8" by (simp add: nat_less_iff)
  then have u: "unpack_uint bs = n mod 2 ^ 64" by (simp add: bs unpack_uint_def le_value_bytes)
  have "n mod 2 ^ 64 = (if 0 \<le> n then n else n + 2 ^ 64)"
    using n mod_pos_pos_trivial [of n "2 ^ 64"] mod_pos_pos_trivial [of "n + 2 ^ 64" "2 ^ 64"] by simp
  with n show "unpack_int64 bs = n" by (simp add: unpack_int64_def u Let_def)
  show "length bs = 8" using bs by simp
qed

lemma unpack_pack_double: "unpack_double (pack_double w) = w" "length (pack_double w) = 8"
proof -
  have "unat w < 256 ^ 8" using unsigned_less [of w] by simp
  then show "unpack_double (pack_double w) = w" by (simp add: unpack_double_def pack_double_def le_value_bytes)
qed (simp add: pack_double_def)

lemma utf8_units: "utf8_encode cs = Some raw \<Longrightarrow> list_all (\<lambda>b. b < 256) raw"
proof (induction cs arbitrary: raw)
  case (Cons c cs)
  have "list_all (\<lambda>b. b < 256) b" if "utf8_point c = Some b" for b
  proof -
    have "c < 2048 \<Longrightarrow> c div 64 < 32" "c < 65536 \<Longrightarrow> c div 4096 < 16" "c < 1114112 \<Longrightarrow> c div 262144 < 5"
      by auto
    moreover have "x mod 64 < 64" for x :: nat by simp
    ultimately show ?thesis
      using that by (auto simp: utf8_point_def intro: less_trans split: if_splits)
  qed
  with Cons show ?case by (auto split: option.splits)
qed simp

lemma length_pack_text: "pack_text n cs = Some bs \<Longrightarrow> length bs = n"
  by (auto simp: pack_text_def Let_def)

lemma unpack_padded:
  assumes "list_all (\<lambda>b. b < 256) raw" and "raw = [] \<or> last raw \<noteq> 0"
  shows "unpack_text (map word_of_nat raw @ replicate k 0) = utf8_decode raw"
proof -
  have unit: "unat (word_of_nat b :: byte) = b" if "b < 256" for b
    using that by (simp add: unat_of_nat)
  have "dropWhile (\<lambda>b. b = 0) (rev (map word_of_nat raw :: byte list)) = rev (map word_of_nat raw)"
  proof (cases raw rule: rev_cases)
    case (snoc xs x)
    then have "(word_of_nat x :: byte) \<noteq> 0"
      using assms unit [of x] by (metis last_snoc list.pred_inject(2) list_all_append snoc_eq_iff_butlast unat_0)
    with snoc show ?thesis by simp
  qed simp
  moreover have "dropWhile (\<lambda>b. b = 0) (replicate k 0 @ ys) = dropWhile (\<lambda>b. b = 0) ys" for ys :: "byte list"
    by (induction k) simp_all
  moreover have "map unat (map word_of_nat raw :: byte list) = raw"
    using assms(1) by (auto simp: list_all_iff unit intro: map_idI)
  ultimately show ?thesis by (simp add: unpack_text_def)
qed

lemma unpack_pack_text:
  assumes "utf8_encode cs = Some raw" and "length raw \<le> n" and "raw = [] \<or> last raw \<noteq> 0"
  obtains bs where "pack_text n cs = Some bs" and "unpack_text bs = Some cs"
proof
  show "pack_text n cs = Some (map word_of_nat raw @ replicate (n - length raw) 0)"
    using assms by (simp add: pack_text_def Let_def)
  show "unpack_text (map word_of_nat raw @ replicate (n - length raw) 0) = Some cs"
    using unpack_padded [OF utf8_units [OF assms(1)] assms(3)] utf8_round_trip [OF assms(1)] by simp
qed

lemma topic_round_trip:
  obtains i where "topic_table t = Some i" and "topic_reverse i = Some t" and "0 \<le> i" and "i < 256 ^ 2"
proof -
  have "t \<in> set all_topics" by (cases t) (simp_all add: all_topics_def)
  then obtain n where n: "n < length all_topics" "all_topics ! n = t" by (auto simp: in_set_conv_nth)
  have d: "distinct all_topics" by (simp add: all_topics_def)
  have "topic_table t = Some (int n)"
    unfolding topic_table_def using n d by (auto intro!: map_of_is_SomeI simp: set_zip)
  moreover have "topic_reverse (int n) = Some t"
    unfolding topic_reverse_def using n
    by (auto intro!: map_of_is_SomeI exI [of _ n] simp: set_zip distinct_map)
  moreover have "length all_topics = 34" by (simp add: all_topics_def)
  ultimately show thesis using n by (intro that [of "int n"]) simp_all
qed

section \<open>Round trips\<close>


definition demo_message :: "byte list wire_message" where
  "demo_message = \<lparr>wm_message_id = ''m1'', wm_topic = HALT_COMMAND, wm_source_agent = [112, 115, 228],
     wm_payload = [123, 125], wm_timestamp = 5, wm_correlation_id = Some ''c1''\<rparr>"


definition tick_fits :: "wire_tick \<Rightarrow> bool" where
  "tick_fits t \<longleftrightarrow> utf8_encode (wt_symbol t) \<noteq> None \<and>
     - (2 ^ 63) \<le> wt_timestamp_ns t \<and> wt_timestamp_ns t < 2 ^ 63 \<and>
     0 \<le> wt_volume t \<and> wt_volume t < 2 ^ 32 \<and>
     - (2 ^ 63) \<le> wt_sequence t \<and> wt_sequence t < 2 ^ 63"

lemma encode_tick_parts:
  "encode_tick t = Some data \<longleftrightarrow>
     (\<exists>sy ts vol sq. pack_text 8 (wt_symbol t) = Some sy \<and> pack_int64 (wt_timestamp_ns t) = Some ts \<and>
        pack_uint 4 (wt_volume t) = Some vol \<and> pack_int64 (wt_sequence t) = Some sq \<and>
        data = sy @ ts @ pack_double (wt_bid t) @ pack_double (wt_ask t) @ pack_double (wt_last t) @
               vol @ replicate 4 0 @ sq @ replicate 4 0)"
  by (auto simp: encode_tick_def split: option.splits)

lemma tick_fits_iff: "tick_fits t \<longleftrightarrow> encode_tick t \<noteq> None"
  by (auto simp: tick_fits_def encode_tick_def pack_text_def pack_int64_def pack_uint_def Let_def
      split: option.splits if_splits)

text \<open>
  C22. What the tick encoder accepts and writes: it writes exactly sixty bytes if the symbol has an
  encoding, time and sequence are signed 64-bit numbers and the volume an unsigned 32-bit
  number, and fails for every other tick.
\<close>

theorem tick_encoding_is_typed:
  "(case encode_tick t of None \<Rightarrow> \<not> tick_fits t | Some data \<Rightarrow> tick_fits t \<and> length data = tick_size)"
proof (cases "encode_tick t")
  case (Some data)
  then have "length data = tick_size"
    by (auto simp: encode_tick_parts length_pack_text unpack_pack_int64(2) unpack_pack_uint(2)
        unpack_pack_double tick_size_def)
  with Some show ?thesis by (simp add: tick_fits_iff)
qed (simp add: tick_fits_iff)

text \<open>
  Every tick that is encoded, with a symbol of at most eight bytes that does not end in a
  null character, decodes to itself, the bits of its prices included.
\<close>

theorem tick_round_trip:
  assumes "encode_tick t = Some data" and "utf8_encode (wt_symbol t) = Some raw" and "length raw \<le> 8"
    and "raw = [] \<or> last raw \<noteq> 0"
  shows "decode_tick data = Some t"
proof -
  obtain sy ts vol sq where p: "pack_text 8 (wt_symbol t) = Some sy" "pack_int64 (wt_timestamp_ns t) = Some ts"
    "pack_uint 4 (wt_volume t) = Some vol" "pack_int64 (wt_sequence t) = Some sq"
    and data: "data = sy @ ts @ pack_double (wt_bid t) @ pack_double (wt_ask t) @ pack_double (wt_last t) @
               vol @ replicate 4 0 @ sq @ replicate 4 0"
    using assms(1) by (auto simp: encode_tick_parts)
  have sy: "unpack_text sy = Some (wt_symbol t)"
    using unpack_pack_text [OF assms(2-4)] p(1) by (metis option.inject)
  have lens: "length sy = 8" "length ts = 8" "length vol = 4" "length sq = 8"
    using length_pack_text [OF p(1)] unpack_pack_int64(2) [OF p(2)] unpack_pack_uint(2) [OF p(3)]
      unpack_pack_int64(2) [OF p(4)] by simp_all
  show ?thesis
    by (simp add: decode_tick_def data lens tick_size_def sy unpack_pack_double unpack_pack_int64(1) [OF p(2)]
        unpack_pack_uint(1) [OF p(3)] unpack_pack_int64(1) [OF p(4)])
qed

definition demo_wire_tick :: wire_tick where
  "demo_wire_tick = \<lparr>wt_symbol = [65, 65, 80, 76], wt_timestamp_ns = -5, wt_bid = 7, wt_ask = 8,
     wt_last = 9, wt_volume = 300, wt_sequence = 12\<rparr>"

theorem tick_round_trip_witness:
  "\<exists>data. encode_tick demo_wire_tick = Some data \<and> decode_tick data = Some demo_wire_tick"
proof -
  have u: "utf8_encode (wt_symbol demo_wire_tick) = Some [65, 65, 80, 76]"
    by (simp add: demo_wire_tick_def utf8_point_def)
  then have "tick_fits demo_wire_tick" by (simp add: tick_fits_def demo_wire_tick_def)
  then obtain data where "encode_tick demo_wire_tick = Some data" by (auto simp: tick_fits_iff)
  with tick_round_trip [OF this u] show ?thesis by auto
qed

text \<open>A longer source is cut: the names of agents with the same sixteen letters become the same.\<close>

definition ascii_text :: "nat list \<Rightarrow> bool" where
  "ascii_text cs \<longleftrightarrow> list_all (\<lambda>c. 0 < c \<and> c < 128) cs"

lemma ascii_utf8: "ascii_text cs \<Longrightarrow> utf8_encode cs = Some cs"
  by (induction cs) (auto simp: ascii_text_def utf8_point_def)

lemma long_source_is_cut:
  assumes "ascii_text cs" and "pack_text 16 cs = Some bs"
  shows "unpack_text bs = Some (take 16 cs)"
proof -
  have t: "ascii_text (take 16 cs)" using assms(1) by (auto simp: ascii_text_def list_all_iff dest: in_set_takeD)
  have bs: "bs = map word_of_nat (take 16 cs) @ replicate (16 - length (take 16 cs)) 0"
    using assms by (simp add: pack_text_def ascii_utf8 Let_def)
  have "take 16 cs = [] \<or> last (take 16 cs) \<noteq> 0"
    using t last_in_set by (fastforce simp: ascii_text_def list_all_iff)
  then show ?thesis
    unfolding bs using unpack_padded [of "take 16 cs"] utf8_units [OF ascii_utf8 [OF t]]
      utf8_round_trip [OF ascii_utf8 [OF t]] by simp
qed

end
