(* ===== verification/Clearing.thy ===== *)
theory Clearing
  imports Enums
begin

text \<open>
  Direct market access and self-clearing of \<open>infrastructure/dma_exchange.py\<close>: exchange
  memberships, the maker-rebate tracker, the order path with its counters, and the clearing
  engine that nets the day's trades. \<open>submit_order\<close> sleeps between counting the order and
  answering, so it is two steps, and other orders may come between them.
\<close>

section \<open>Membership and rebates\<close>

record exchange_member =
  em_venue :: order_venue
  em_member_id :: string
  em_cross_connect_latency_ns :: int
  em_membership_monthly_usd :: pyfloat
  em_is_active :: bool

definition total_path_latency_ns :: "exchange_member \<Rightarrow> int" where
  "total_path_latency_ns m = 80 + em_cross_connect_latency_ns m + 60"

definition broker_path_latency_us :: pyfloat where
  "broker_path_latency_us = 2000"

primrec venue_value :: "order_venue \<Rightarrow> string" where
  "venue_value V_NYSE = ''nyse''"
| "venue_value V_NASDAQ = ''nasdaq''"
| "venue_value V_BATS = ''bats''"
| "venue_value V_IEX = ''iex''"
| "venue_value V_DARK_POOL = ''dark_pool''"
| "venue_value V_FX_ECN = ''fx_ecn''"
| "venue_value V_CME = ''cme''"
| "venue_value V_CBOE = ''cboe''"
| "venue_value V_DIRECT_DMA = ''direct_dma''"

definition rebate_per_share :: "order_venue \<Rightarrow> pyfloat" where
  "rebate_per_share v =
     (case map_of [(V_NASDAQ, 200), (V_NYSE, 150), (V_BATS, 320), (V_DIRECT_DMA, 250)] v of
        None \<Rightarrow> 0 | Some r \<Rightarrow> r / 100000)"

record rebate_tracker =
  rt_daily_shares :: "order_venue \<rightharpoonup> int"
  rt_daily_rebate :: pyfloat
  rt_total_rebate :: pyfloat

definition rebate_init :: rebate_tracker where
  "rebate_init = \<lparr>rt_daily_shares = Map.empty, rt_daily_rebate = 0, rt_total_rebate = 0\<rparr>"

definition record_maker_fill :: "order_venue \<Rightarrow> int \<Rightarrow> rebate_tracker \<Rightarrow> rebate_tracker \<times> pyfloat" where
  "record_maker_fill v shares t =
     (let rebate = of_int shares * rebate_per_share v;
          before = (case rt_daily_shares t v of None \<Rightarrow> 0 | Some n \<Rightarrow> n)
      in (t\<lparr>rt_daily_shares := (rt_daily_shares t)(v \<mapsto> before + shares),
            rt_daily_rebate := rt_daily_rebate t + rebate,
            rt_total_rebate := rt_total_rebate t + rebate\<rparr>, rebate))"

definition rebate_daily_reset :: "rebate_tracker \<Rightarrow> rebate_tracker \<times> pyfloat" where
  "rebate_daily_reset t =
     (t\<lparr>rt_daily_shares := Map.empty, rt_daily_rebate := 0\<rparr>, rt_daily_rebate t)"

section \<open>The order path\<close>

record dma_path =
  dp_members :: "order_venue \<rightharpoonup> exchange_member"
  dp_rebates :: rebate_tracker
  dp_submitted :: nat
  dp_acked :: nat

definition dma_init :: "(order_venue \<rightharpoonup> exchange_member) \<Rightarrow> dma_path" where
  "dma_init members = \<lparr>dp_members = members, dp_rebates = rebate_init, dp_submitted = 0, dp_acked = 0\<rparr>"

record dma_order =
  do_venue :: order_venue
  do_symbol :: symbol
  do_side :: order_side
  do_qty :: int
  do_price :: pyfloat
  do_is_maker :: bool

record dma_ack =
  da_order_id :: string
  da_order :: dma_order
  da_latency_ns :: int
  da_rebate_usd :: pyfloat

text \<open>
  \<open>submit_order\<close> up to its sleep: \<open>None\<close> is the rejection without membership, otherwise
  the latency that was read.
\<close>

definition dma_begin :: "dma_order \<Rightarrow> dma_path \<Rightarrow> dma_path \<times> int option" where
  "dma_begin ord d =
     (case dp_members d (do_venue ord) of
        None \<Rightarrow> (d, None)
      | Some m \<Rightarrow>
          if \<not> em_is_active m then (d, None)
          else (d\<lparr>dp_submitted := dp_submitted d + 1\<rparr>, Some (total_path_latency_ns m)))"

text \<open>
  \<open>submit_order\<close> after its sleep: the order id reads the counter as it is now.
\<close>

definition dma_finish :: "dma_order \<Rightarrow> int \<Rightarrow> dma_path \<Rightarrow> dma_path \<times> dma_ack" where
  "dma_finish ord latency d =
     (let d1 = d\<lparr>dp_acked := dp_acked d + 1\<rparr>;
          (t, rebate) = (if do_is_maker ord
                         then record_maker_fill (do_venue ord) (do_qty ord) (dp_rebates d1)
                         else (dp_rebates d1, 0));
          d2 = d1\<lparr>dp_rebates := t\<rparr>
      in (d2, \<lparr>da_order_id = ''DMA-'' @ venue_value (do_venue ord) @ ''-'' @ digits (dp_submitted d2),
               da_order = ord, da_latency_ns = latency, da_rebate_usd = py_round rebate 6\<rparr>))"

definition latency_advantage_ns :: "order_venue \<Rightarrow> dma_path \<Rightarrow> int" where
  "latency_advantage_ns v d =
     (case dp_members d v of
        None \<Rightarrow> 0
      | Some m \<Rightarrow> py_trunc (broker_path_latency_us * 1000) - total_path_latency_ns m)"

section \<open>Clearing\<close>

datatype settlement_status = SS_PENDING | SS_NETTED | SS_SETTLED

record trade_record =
  tr_trade_id :: string
  tr_symbol :: symbol
  tr_side :: order_side
  tr_qty :: int
  tr_price :: pyfloat
  tr_venue :: order_venue
  tr_timestamp_ns :: timestamp
  tr_status :: settlement_status

definition signed_qty :: "trade_record \<Rightarrow> int" where
  "signed_qty t = (if tr_side t = BUY then tr_qty t else - tr_qty t)"

definition notional_usd :: "trade_record \<Rightarrow> pyfloat" where
  "notional_usd t = of_int (tr_qty t) * tr_price t"

record net_settlement =
  ns_symbol :: symbol
  ns_net_qty :: int
  ns_avg_price :: pyfloat
  ns_gross_trades :: int
  ns_gross_shares :: int

definition settlement_side :: "net_settlement \<Rightarrow> string" where
  "settlement_side n = (if 0 < ns_net_qty n then ''RECEIVE'' else ''DELIVER'')"

record clearing_engine =
  ce_member_id :: string
  ce_trades :: "trade_record list"
  ce_settled_count :: nat

definition clearing_init :: "string \<Rightarrow> clearing_engine" where
  "clearing_init i = \<lparr>ce_member_id = i, ce_trades = [], ce_settled_count = 0\<rparr>"

text \<open>The clearing id is the number of trades so far, padded to eight digits.\<close>

definition pad8 :: "string \<Rightarrow> string" where
  "pad8 s = replicate (8 - length s) CHR ''0'' @ s"

definition submit_trade :: "trade_record \<Rightarrow> clearing_engine \<Rightarrow> clearing_engine \<times> string" where
  "submit_trade t e =
     (e\<lparr>ce_trades := ce_trades e @ [t]\<rparr>, ''CLR-'' @ pad8 (digits (length (ce_trades e))))"

text \<open>
  The accumulators of \<open>net_positions\<close>: a dictionary by symbol, kept in insertion order, of
  net quantity, cost, trades and shares.
\<close>

type_synonym net_acc = "(symbol \<times> int \<times> pyfloat \<times> int \<times> int) list"

fun acc_add :: "trade_record \<Rightarrow> net_acc \<Rightarrow> net_acc" where
  "acc_add t [] =
     [(tr_symbol t, signed_qty t, of_int (tr_qty t) * tr_price t, 1, tr_qty t)]"
| "acc_add t ((s, net, cost, trades, shares) # acc) =
     (if s = tr_symbol t
      then (s, net + signed_qty t, cost + of_int (tr_qty t) * tr_price t, trades + 1,
            shares + tr_qty t) # acc
      else (s, net, cost, trades, shares) # acc_add t acc)"

definition net_positions :: "clearing_engine \<Rightarrow> net_settlement list" where
  "net_positions e =
     map (\<lambda>(s, net, cost, trades, shares).
            \<lparr>ns_symbol = s, ns_net_qty = net,
             ns_avg_price = (if shares \<noteq> 0 then cost / of_int shares else 0),
             ns_gross_trades = trades, ns_gross_shares = shares\<rparr>)
       (fold acc_add (ce_trades e) [])"

definition broker_fee_per_share :: pyfloat where "broker_fee_per_share = 100 / 100000"
definition nscc_fee_per_share :: pyfloat where "nscc_fee_per_share = 20 / 1000000"

definition fee_savings_vs_broker :: "clearing_engine \<Rightarrow> pyfloat" where
  "fee_savings_vs_broker e =
     (let total_shares = sum_list (map tr_qty (ce_trades e));
          broker = of_int total_shares * broker_fee_per_share;
          nscc = of_int total_shares * nscc_fee_per_share
      in broker - nscc)"

definition netting_efficiency :: "clearing_engine \<Rightarrow> pyfloat" where
  "netting_efficiency e =
     (let gross = sum_list (map tr_qty (ce_trades e));
          net = sum_list (map (\<lambda>n. \<bar>ns_net_qty n\<bar>) (net_positions e))
      in if 0 < gross then of_int net / of_int gross else 0)"

definition clearing_daily_reset :: "clearing_engine \<Rightarrow> clearing_engine" where
  "clearing_daily_reset e =
     e\<lparr>ce_settled_count := ce_settled_count e + length (ce_trades e), ce_trades := []\<rparr>"

section \<open>Netting\<close>

text \<open>The specification: what a day's trades in one symbol add up to.\<close>

definition of_symbol :: "symbol \<Rightarrow> trade_record list \<Rightarrow> trade_record list" where
  "of_symbol s ts = filter (\<lambda>t. tr_symbol t = s) ts"

definition acc_entry :: "symbol \<Rightarrow> trade_record list \<Rightarrow> symbol \<times> int \<times> pyfloat \<times> int \<times> int" where
  "acc_entry s ts =
     (s, sum_list (map signed_qty (of_symbol s ts)), sum_list (map notional_usd (of_symbol s ts)),
      int (length (of_symbol s ts)), sum_list (map tr_qty (of_symbol s ts)))"

definition acc_for :: "trade_record list \<Rightarrow> symbol list \<Rightarrow> net_acc" where
  "acc_for ts ss = map (\<lambda>s. acc_entry s ts) ss"

lemma acc_entry_other: "s \<noteq> tr_symbol t \<Longrightarrow> acc_entry s (ts @ [t]) = acc_entry s ts"
  by (simp add: acc_entry_def of_symbol_def)

lemma acc_add_absent:
  "tr_symbol t \<notin> set ss \<Longrightarrow> of_symbol (tr_symbol t) ts = [] \<Longrightarrow>
     acc_add t (acc_for ts ss) = acc_for (ts @ [t]) (ss @ [tr_symbol t])"
  by (induction ss)
    (auto simp: acc_for_def acc_entry_def of_symbol_def notional_usd_def)

lemma acc_add_present:
  "tr_symbol t \<in> set ss \<Longrightarrow> distinct ss \<Longrightarrow> acc_add t (acc_for ts ss) = acc_for (ts @ [t]) ss"
proof (induction ss)
  case (Cons s ss)
  show ?case
  proof (cases "s = tr_symbol t")
    case True
    with Cons.prems have "\<forall>x \<in> set ss. x \<noteq> tr_symbol t" by auto
    then have "map (\<lambda>s. acc_entry s (ts @ [t])) ss = map (\<lambda>s. acc_entry s ts) ss"
      by (simp add: acc_entry_other)
    with True show ?thesis
      by (simp add: acc_for_def acc_entry_def of_symbol_def notional_usd_def)
  next
    case False
    with Cons have "acc_add t (acc_for ts ss) = acc_for (ts @ [t]) ss" by simp
    with False show ?thesis
      by (simp add: acc_for_def acc_entry_def of_symbol_def)
  qed
qed simp

lemma of_symbol_empty: "s \<notin> tr_symbol ` set ts \<Longrightarrow> of_symbol s ts = []"
  by (auto simp: of_symbol_def filter_empty_conv)

lemma fold_acc:
  "\<exists>ss. distinct ss \<and> set ss = tr_symbol ` set ts \<and> fold acc_add ts [] = acc_for ts ss"
proof (induction ts rule: rev_induct)
  case Nil
  then show ?case by (intro exI [of _ "[]"]) (simp add: acc_for_def)
next
  case (snoc t ts)
  then obtain ss where ss: "distinct ss" "set ss = tr_symbol ` set ts" "fold acc_add ts [] = acc_for ts ss"
    by blast
  show ?case
  proof (cases "tr_symbol t \<in> set ss")
    case True
    with ss show ?thesis
      by (intro exI [of _ ss]) (auto simp: acc_add_present)
  next
    case False
    with ss have "of_symbol (tr_symbol t) ts = []" by (intro of_symbol_empty) simp
    with False ss show ?thesis
      by (intro exI [of _ "ss @ [tr_symbol t]"]) (auto simp: acc_add_absent)
  qed
qed

lemma sum_by_symbol:
  fixes f :: "trade_record \<Rightarrow> int"
  assumes "distinct ss" and "tr_symbol ` set ts \<subseteq> set ss"
  shows "sum_list (map (\<lambda>s. sum_list (map f (of_symbol s ts))) ss) = sum_list (map f ts)"
  using assms(2)
proof (induction ts)
  case Nil
  then show ?case by (simp add: of_symbol_def)
next
  case (Cons t ts)
  have "sum_list (map (\<lambda>s. sum_list (map f (of_symbol s (t # ts)))) ss) =
      sum_list (map (\<lambda>s. (if s = tr_symbol t then f t else 0) + sum_list (map f (of_symbol s ts))) ss)"
    by (intro arg_cong [of _ _ sum_list] map_cong) (auto simp: of_symbol_def)
  also have "\<dots> = sum_list (map (\<lambda>s. if s = tr_symbol t then f t else 0) ss) +
      sum_list (map (\<lambda>s. sum_list (map f (of_symbol s ts))) ss)"
    by (rule sum_list_addf)
  also have "sum_list (map (\<lambda>s. if s = tr_symbol t then f t else 0) ss) = f t"
  proof -
    have z: "sum_list (map (\<lambda>s. if s = a then f t else 0) xs) = (0::int)" if "a \<notin> set xs" for a and xs :: "symbol list"
      using that by (induction xs) auto
    have "tr_symbol t \<in> set ss" using Cons.prems by simp
    with assms(1) show ?thesis by (induction ss) (auto simp: z)
  qed
  finally show ?case using Cons by simp
qed

section \<open>The clearing report\<close>

lemma net_positions_spec:
  "\<exists>ss. distinct ss \<and> set ss = tr_symbol ` set (ce_trades e) \<and>
     map ns_symbol (net_positions e) = ss \<and>
     (\<forall>n \<in> set (net_positions e).
        ns_net_qty n = sum_list (map signed_qty (of_symbol (ns_symbol n) (ce_trades e))) \<and>
        ns_gross_shares n = sum_list (map tr_qty (of_symbol (ns_symbol n) (ce_trades e))) \<and>
        ns_gross_trades n = int (length (of_symbol (ns_symbol n) (ce_trades e))))"
proof -
  obtain ss where ss: "distinct ss" "set ss = tr_symbol ` set (ce_trades e)"
    "fold acc_add (ce_trades e) [] = acc_for (ce_trades e) ss"
    using fold_acc by blast
  then show ?thesis
    by (intro exI [of _ ss]) (auto simp: net_positions_def acc_for_def acc_entry_def comp_def)
qed

lemma net_qty_list:
  assumes "map ns_symbol ns = ss"
    and "\<forall>n \<in> set ns. ns_net_qty n = sum_list (map signed_qty (of_symbol (ns_symbol n) ts))"
  shows "map ns_net_qty ns = map (\<lambda>s. sum_list (map signed_qty (of_symbol s ts))) ss"
  using assms by auto

lemma abs_sum_le: "(\<And>t. t \<in> set ts \<Longrightarrow> 0 \<le> tr_qty t) \<Longrightarrow>
    \<bar>sum_list (map signed_qty ts)\<bar> \<le> sum_list (map tr_qty ts)"
proof (induction ts)
  case (Cons t ts)
  have "\<bar>signed_qty t\<bar> \<le> tr_qty t" using Cons.prems [of t] by (simp add: signed_qty_def)
  with Cons show ?case by force
qed simp

lemma sum_qty_nonneg: "(\<And>t. t \<in> set ts \<Longrightarrow> 0 \<le> tr_qty t) \<Longrightarrow> 0 \<le> sum_list (map tr_qty ts)"
  by (induction ts) auto

section \<open>Properties\<close>

text \<open>Netting is exact: the report has one line per traded symbol, in which the net and the
  gross quantities and the number of trades are those of the symbol's trades; no quantity is
  lost between symbols (nets add up to the signed volume of the day); and with non-negative
  quantities the netting efficiency lies between 0 and 1.\<close>

theorem netting_is_exact:
  "distinct (map ns_symbol (net_positions e)) \<and>
   set (map ns_symbol (net_positions e)) = tr_symbol ` set (ce_trades e) \<and>
   (\<forall>n \<in> set (net_positions e).
      ns_net_qty n = sum_list (map signed_qty (of_symbol (ns_symbol n) (ce_trades e))) \<and>
      ns_gross_shares n = sum_list (map tr_qty (of_symbol (ns_symbol n) (ce_trades e))) \<and>
      ns_gross_trades n = int (length (of_symbol (ns_symbol n) (ce_trades e)))) \<and>
   sum_list (map ns_net_qty (net_positions e)) = sum_list (map signed_qty (ce_trades e)) \<and>
   ((\<forall>t \<in> set (ce_trades e). 0 \<le> tr_qty t) \<longrightarrow>
      0 \<le> netting_efficiency e \<and> netting_efficiency e \<le> 1)"
proof -
  obtain ss where ss: "distinct ss" "set ss = tr_symbol ` set (ce_trades e)"
    and m: "map ns_symbol (net_positions e) = ss"
    and n: "\<forall>n \<in> set (net_positions e).
        ns_net_qty n = sum_list (map signed_qty (of_symbol (ns_symbol n) (ce_trades e))) \<and>
        ns_gross_shares n = sum_list (map tr_qty (of_symbol (ns_symbol n) (ce_trades e))) \<and>
        ns_gross_trades n = int (length (of_symbol (ns_symbol n) (ce_trades e)))"
    using net_positions_spec [of e] by blast
  have q: "map ns_net_qty (net_positions e) =
      map (\<lambda>s. sum_list (map signed_qty (of_symbol s (ce_trades e)))) ss"
    by (rule net_qty_list [OF m]) (use n in blast)
  have total: "sum_list (map ns_net_qty (net_positions e)) = sum_list (map signed_qty (ce_trades e))"
    unfolding q by (rule sum_by_symbol) (use ss in auto)
  have "0 \<le> netting_efficiency e \<and> netting_efficiency e \<le> 1"
    if pos: "\<forall>t \<in> set (ce_trades e). 0 \<le> tr_qty t"
  proof -
    let ?net = "sum_list (map (\<lambda>n. \<bar>ns_net_qty n\<bar>) (net_positions e))"
      and ?gross = "sum_list (map tr_qty (ce_trades e))"
    have "map (\<lambda>n. \<bar>ns_net_qty n\<bar>) (net_positions e) = map abs (map ns_net_qty (net_positions e))"
      by simp
    also have "\<dots> = map (\<lambda>s. \<bar>sum_list (map signed_qty (of_symbol s (ce_trades e)))\<bar>) ss"
      unfolding q by simp
    finally have "?net = sum_list (map (\<lambda>s. \<bar>sum_list (map signed_qty (of_symbol s (ce_trades e)))\<bar>) ss)"
      by simp
    also have "\<dots> \<le> sum_list (map (\<lambda>s. sum_list (map tr_qty (of_symbol s (ce_trades e)))) ss)"
      by (intro sum_list_mono abs_sum_le) (use pos in \<open>auto simp: of_symbol_def\<close>)
    also have "\<dots> = ?gross"
      by (rule sum_by_symbol) (use ss in auto)
    finally have "?net \<le> ?gross" .
    moreover have "0 \<le> ?net" by (rule sum_list_nonneg) auto
    ultimately show ?thesis by (simp add: netting_efficiency_def Let_def)
  qed
  with ss m n total show ?thesis by blast
qed

theorem netting_is_exact_witness:
  "netting_efficiency (clearing_init ''M'') = 0 \<and>
   (0::pyfloat) \<le> netting_efficiency (fst (submit_trade
      \<lparr>tr_trade_id = [], tr_symbol = ''A'', tr_side = BUY, tr_qty = 5, tr_price = 1, tr_venue = V_NYSE,
       tr_timestamp_ns = 0, tr_status = SS_PENDING\<rparr> (clearing_init ''M'')))"
  using netting_is_exact [of "fst (submit_trade
      \<lparr>tr_trade_id = [], tr_symbol = ''A'', tr_side = BUY, tr_qty = 5, tr_price = 1, tr_venue = V_NYSE,
       tr_timestamp_ns = 0, tr_status = SS_PENDING\<rparr> (clearing_init ''M''))"]
  by (simp add: submit_trade_def clearing_init_def netting_efficiency_def net_positions_def)

definition short_trade :: "order_side \<Rightarrow> int \<Rightarrow> trade_record" where
  "short_trade side q = \<lparr>tr_trade_id = [], tr_symbol = ''A'', tr_side = side, tr_qty = q,
     tr_price = 10, tr_venue = V_NYSE, tr_timestamp_ns = 0, tr_status = SS_PENDING\<rparr>"

text \<open>A covered short does not net: selling short a quantity and buying it back to cover
  leaves a net position of minus twice the quantity, where a plain buy would leave zero.\<close>

theorem covered_short_nets_wrong:
  "map ns_net_qty (net_positions (fst (submit_trade (short_trade back q)
       (fst (submit_trade (short_trade SELL_SHORT q) (clearing_init i)))))) =
     [if back = BUY then 0 else - 2 * q]"
  by (simp add: submit_trade_def clearing_init_def net_positions_def short_trade_def signed_qty_def)

text \<open>Order ids repeat: when a second order is begun before the first is answered, both
  answers on the same venue carry the same order id; answered one after the other, any two
  orders get different ids.\<close>

theorem overlapping_orders_share_id:
  assumes "dma_begin o1 d = (d1, Some l1)" and "dma_begin o2 d1 = (d2, Some l2)"
    and "dma_finish o1 l1 d2 = (d3, a1)" and "dma_finish o2 l2 d3 = (d4, a2)"
    and "do_venue o1 = do_venue o2"
    and "dma_finish o1 l1 d1 = (d5, b1)" and "dma_begin o2 d5 = (d6, Some l3)"
    and "dma_finish o2 l3 d6 = (d7, b2)"
  shows "da_order_id a1 = da_order_id a2 \<and> da_order_id b1 \<noteq> da_order_id b2"
proof -
  have s: "dp_submitted d1 = Suc (dp_submitted d)" "dp_submitted d2 = Suc (dp_submitted d1)"
    "dp_submitted d6 = Suc (dp_submitted d5)"
    using assms(1,2,7) by (auto simp: dma_begin_def split: option.splits if_splits)
  have f: "dp_submitted d' = dp_submitted d \<and>
      da_order_id a = ''DMA-'' @ venue_value (do_venue ord) @ ''-'' @ digits (dp_submitted d)"
    if "dma_finish ord l d = (d', a)" for ord l d d' a
    using that by (auto simp: dma_finish_def Let_def split: prod.splits)
  show ?thesis
    using s f [OF assms(3)] f [OF assms(4)] f [OF assms(6)] f [OF assms(8)] assms(5)
      digits_inj [of "dp_submitted d1" "dp_submitted d6"] by auto
qed

definition dma_example :: dma_path where
  "dma_example = dma_init [V_NYSE \<mapsto> \<lparr>em_venue = V_NYSE, em_member_id = ''m'',
     em_cross_connect_latency_ns = 80, em_membership_monthly_usd = 15000, em_is_active = True\<rparr>]"

definition order_example :: "int \<Rightarrow> dma_order" where
  "order_example q = \<lparr>do_venue = V_NYSE, do_symbol = ''A'', do_side = BUY, do_qty = q, do_price = 10,
     do_is_maker = True\<rparr>"

theorem overlapping_orders_share_id_witness:
  "let o1 = order_example 1; o2 = order_example 2;
       d2 = fst (dma_begin o2 (fst (dma_begin o1 dma_example)));
       (d3, a1) = dma_finish o1 220 d2; (d4, a2) = dma_finish o2 220 d3
   in da_order_id a1 = da_order_id a2"
proof -
  let ?o1 = "order_example 1" and ?o2 = "order_example 2"
  let ?d1 = "fst (dma_begin ?o1 dma_example)" let ?d2 = "fst (dma_begin ?o2 ?d1)"
  let ?f1 = "dma_finish ?o1 220 ?d2" let ?f2 = "dma_finish ?o2 220 (fst ?f1)"
  let ?g1 = "dma_finish ?o1 220 ?d1" let ?d6 = "fst (dma_begin ?o2 (fst ?g1))"
  have b: "dma_begin ?o1 dma_example = (?d1, Some 220)" "dma_begin ?o2 ?d1 = (?d2, Some 220)"
    "dma_begin ?o2 (fst ?g1) = (?d6, Some 220)"
    by (simp_all add: dma_begin_def dma_finish_def dma_example_def dma_init_def order_example_def
        total_path_latency_ns_def case_prod_beta Let_def)
  have v: "do_venue ?o1 = do_venue ?o2" by (simp add: order_example_def)
  show ?thesis
    using overlapping_orders_share_id [OF b(1,2) prod.collapse [symmetric, of ?f1]
        prod.collapse [symmetric, of ?f2] v prod.collapse [symmetric, of ?g1] b(3)
        prod.collapse [symmetric]]
    by (simp add: case_prod_beta Let_def)
qed

end
