(* ===== verification/Algo_Exec.thy ===== *)
theory Algo_Exec
  imports Enums
begin

text \<open>
  The block desk of \<open>agents/agent_24_algo_execution.py\<close>: the intraday volume curve, parent and
  child orders, the engine that slices a parent with one of four algorithms, fills, the
  schedule and the tracking error. Unknown ids and a zero child size are errors.
\<close>

section \<open>The volume curve\<close>

datatype algo_type = VWAP | TWAP | POV | IS

datatype algo_status = AS_PENDING | AS_ACTIVE | AS_PAUSED | AS_COMPLETED | AS_CANCELLED

text \<open>Six opening, fifty-four midday and eighteen closing buckets, normalised.\<close>

definition raw_profile :: "pyfloat list" where
  "raw_profile = replicate 6 (25 / 1000) @ replicate 54 (87 / 10000) @ replicate 18 (21167 / 1000000)"

definition volume_profile :: "pyfloat list" where
  "volume_profile = (let total = sum_list raw_profile in map (\<lambda>v. v / total) raw_profile)"

text \<open>\<open>_CUMULATIVE_PROFILE[i]\<close> is the sum of the first \<open>i + 1\<close> buckets.\<close>

definition cumulative_profile :: "nat \<Rightarrow> pyfloat" where
  "cumulative_profile i = sum_list (take (Suc i) volume_profile)"

definition get_volume_fraction :: "pyfloat \<Rightarrow> pyfloat" where
  "get_volume_fraction elapsed_fraction =
     (if elapsed_fraction \<le> 0 then 0
      else if 1 \<le> elapsed_fraction then 1
      else
        let bucket_float = elapsed_fraction * of_nat (length volume_profile);
            bucket_idx = nat (py_trunc bucket_float) in
        if length volume_profile \<le> bucket_idx then 1
        else
          let cum_before = (if 0 < bucket_idx then cumulative_profile (bucket_idx - 1) else 0);
              partial = (bucket_float - of_nat bucket_idx) * volume_profile ! bucket_idx
          in min 1 (cum_before + partial))"

section \<open>Orders\<close>

record parent_order =
  po_order_id :: string
  po_symbol :: symbol
  po_side :: string
  po_total_qty :: int
  po_algo_type :: algo_type
  po_limit_price :: pyfloat
  po_duration_min :: int
  po_child_size :: int
  po_pov_rate :: pyfloat
  po_urgency :: pyfloat
  po_status :: algo_status
  po_filled_qty :: int
  po_avg_fill_price :: pyfloat
  po_slices_sent :: int
  po_start_time_ns :: timestamp

definition remaining_qty :: "parent_order \<Rightarrow> int" where
  "remaining_qty p = po_total_qty p - po_filled_qty p"

definition fill_rate :: "parent_order \<Rightarrow> pyfloat" where
  "fill_rate p =
     (if po_total_qty p = 0 then 0 else of_int (po_filled_qty p) / of_int (po_total_qty p))"

text \<open>\<open>math.ceil(total_qty / child_size)\<close>; callers handle a zero child size.\<close>

definition num_slices :: "parent_order \<Rightarrow> int" where
  "num_slices p = \<lceil>(of_int (po_total_qty p) :: pyfloat) / of_int (po_child_size p)\<rceil>"

record child_order =
  co_child_id :: string
  co_parent_id :: string
  co_symbol :: symbol
  co_side :: string
  co_qty :: int
  co_price :: pyfloat
  co_algo_type :: algo_type
  co_slice_index :: int
  co_timestamp_ns :: timestamp
  co_venue :: string
  co_status :: string

record algo_engine =
  ae_orders :: "string \<rightharpoonup> parent_order"
  ae_children :: "string \<rightharpoonup> child_order list"

definition engine_init :: algo_engine where
  "engine_init = \<lparr>ae_orders = Map.empty, ae_children = Map.empty\<rparr>"

datatype algo_error = Unknown_Order string | Zero_Division

section \<open>Lifecycle\<close>

definition algo_submit :: "parent_order \<Rightarrow> timestamp \<Rightarrow> algo_engine \<Rightarrow> algo_engine" where
  "algo_submit p now e =
     (let p1 = (if po_start_time_ns p = 0 then p\<lparr>po_start_time_ns := now\<rparr> else p);
          p2 = p1\<lparr>po_status := AS_ACTIVE\<rparr>
      in e\<lparr>ae_orders := (ae_orders e)(po_order_id p \<mapsto> p2),
           ae_children := (ae_children e)(po_order_id p \<mapsto> [])\<rparr>)"

definition algo_cancel :: "string \<Rightarrow> algo_engine \<Rightarrow> algo_engine \<times> bool" where
  "algo_cancel oid e =
     (case ae_orders e oid of
        None \<Rightarrow> (e, False)
      | Some p \<Rightarrow>
          if po_status p \<in> {AS_COMPLETED, AS_CANCELLED} then (e, False)
          else (e\<lparr>ae_orders := (ae_orders e)(oid \<mapsto> p\<lparr>po_status := AS_CANCELLED\<rparr>)\<rparr>, True))"

section \<open>When to send\<close>

definition duration_ns :: "parent_order \<Rightarrow> int" where
  "duration_ns p = po_duration_min p * 60 * 1000000000"

definition elapsed_fraction :: "parent_order \<Rightarrow> timestamp \<Rightarrow> pyfloat" where
  "elapsed_fraction p now =
     (if duration_ns p \<le> 0 then 1 else of_int (now - po_start_time_ns p) / of_int (duration_ns p))"

definition twap_should_send :: "parent_order \<Rightarrow> timestamp \<Rightarrow> bool" where
  "twap_should_send p now =
     (let interval_ns = of_int (duration_ns p) / of_int (num_slices p);
          elapsed_ns = of_int (now - po_start_time_ns p);
          due = (if 0 < interval_ns then py_trunc (elapsed_ns / interval_ns) else num_slices p)
      in po_slices_sent p \<le> due)"

definition vwap_should_send :: "parent_order \<Rightarrow> timestamp \<Rightarrow> bool" where
  "vwap_should_send p now =
     (let elapsed = min (elapsed_fraction p now) 1;
          target_qty = of_int (po_total_qty p) * get_volume_fraction elapsed;
          sent_qty = po_slices_sent p * po_child_size p
      in of_int sent_qty < target_qty \<and> 0 < remaining_qty p)"

definition pov_should_send :: "parent_order \<Rightarrow> int \<Rightarrow> bool" where
  "pov_should_send p market_volume \<longleftrightarrow>
     of_int (po_child_size p) \<le> of_int market_volume * po_pov_rate p"

definition is_should_send :: "parent_order \<Rightarrow> timestamp \<Rightarrow> bool" where
  "is_should_send p now =
     (let elapsed = max 0 (min (elapsed_fraction p now) 1);
          weight = exp (- po_urgency p * elapsed * 5);
          threshold = 1 / 2 - elapsed * (1 / 2)
      in threshold < weight)"

definition should_send :: "parent_order \<Rightarrow> timestamp \<Rightarrow> int \<Rightarrow> bool" where
  "should_send p now market_volume =
     (case po_algo_type p of
        TWAP \<Rightarrow> twap_should_send p now
      | VWAP \<Rightarrow> vwap_should_send p now
      | POV \<Rightarrow> pov_should_send p market_volume
      | IS \<Rightarrow> is_should_send p now)"

section \<open>Child orders and fills\<close>

definition set_order :: "string \<Rightarrow> parent_order \<Rightarrow> algo_engine \<Rightarrow> algo_engine" where
  "set_order oid p e = e\<lparr>ae_orders := (ae_orders e)(oid \<mapsto> p)\<rparr>"

definition next_child_order ::
  "string \<Rightarrow> timestamp \<Rightarrow> pyfloat \<Rightarrow> int \<Rightarrow> algo_engine
   \<Rightarrow> algo_error + (algo_engine \<times> child_order option)" where
  "next_child_order oid now price market_volume e =
     (case ae_orders e oid of
        None \<Rightarrow> Inl (Unknown_Order oid)
      | Some p \<Rightarrow>
          if po_status p \<noteq> AS_ACTIVE then Inr (e, None)
          else if 0 < remaining_qty p \<and> po_child_size p = 0 then Inl Zero_Division
          else if remaining_qty p \<le> 0 \<or> num_slices p \<le> po_slices_sent p
            then Inr (set_order oid (p\<lparr>po_status := AS_COMPLETED\<rparr>) e, None)
          else if \<not> should_send p now market_volume then Inr (e, None)
          else
            let p1 = p\<lparr>po_slices_sent := po_slices_sent p + 1\<rparr>;
                child_qty = min (po_child_size p1) (remaining_qty p1);
                child = \<lparr>co_child_id = po_order_id p1 @ ''_'' @ digits (nat (po_slices_sent p1)),
                         co_parent_id = po_order_id p1, co_symbol = po_symbol p1,
                         co_side = po_side p1, co_qty = child_qty, co_price = price,
                         co_algo_type = po_algo_type p1, co_slice_index = po_slices_sent p1 - 1,
                         co_timestamp_ns = now, co_venue = ''nasdaq'', co_status = ''pending''\<rparr>;
                p2 = (if num_slices p1 \<le> po_slices_sent p1
                      then p1\<lparr>po_status := AS_COMPLETED\<rparr> else p1);
                siblings = (case ae_children e oid of None \<Rightarrow> [] | Some cs \<Rightarrow> cs)
            in Inr ((set_order oid p2 e)\<lparr>ae_children := (ae_children e)(oid \<mapsto> siblings @ [child])\<rparr>,
                    Some child))"

definition record_fill :: "string \<Rightarrow> pyfloat \<Rightarrow> int \<Rightarrow> algo_engine \<Rightarrow> algo_error + algo_engine" where
  "record_fill oid fill_price fill_qty e =
     (case ae_orders e oid of
        None \<Rightarrow> Inl (Unknown_Order oid)
      | Some p \<Rightarrow>
          if fill_qty \<le> 0 then Inr e
          else
            let total_value = po_avg_fill_price p * of_int (po_filled_qty p) + fill_price * of_int fill_qty;
                p1 = p\<lparr>po_filled_qty := po_filled_qty p + fill_qty\<rparr>;
                p2 = p1\<lparr>po_avg_fill_price :=
                       (if 0 < po_filled_qty p1 then total_value / of_int (po_filled_qty p1) else 0)\<rparr>;
                p3 = (if po_total_qty p2 \<le> po_filled_qty p2
                      then p2\<lparr>po_status := AS_COMPLETED\<rparr> else p2)
            in Inr (set_order oid p3 e))"

section \<open>Analytics\<close>

definition vwap_tracking_error_bps :: "string \<Rightarrow> algo_engine \<Rightarrow> algo_error + pyfloat" where
  "vwap_tracking_error_bps oid e =
     (case ae_orders e oid of
        None \<Rightarrow> Inl (Unknown_Order oid)
      | Some p \<Rightarrow>
          if po_avg_fill_price p = 0 \<or> po_limit_price p = 0 then Inr 0
          else Inr ((po_avg_fill_price p - po_limit_price p) / po_limit_price p * 10000))"

text \<open>The thirty-two bisection steps of the VWAP schedule; the lower end is used.\<close>

fun bisect_volume :: "nat \<Rightarrow> pyfloat \<Rightarrow> pyfloat \<Rightarrow> pyfloat \<Rightarrow> pyfloat" where
  "bisect_volume 0 target lo hi = lo"
| "bisect_volume (Suc k) target lo hi =
     (let mid = (lo + hi) / 2
      in if get_volume_fraction mid < target then bisect_volume k target mid hi
         else bisect_volume k target lo mid)"

record schedule_slot =
  sl_slice_index :: int
  sl_target_qty :: int
  sl_target_time_min :: pyfloat

definition make_slot :: "parent_order \<Rightarrow> int \<Rightarrow> schedule_slot" where
  "make_slot p i =
     \<lparr>sl_slice_index = i,
      sl_target_qty = min (po_child_size p) (po_total_qty p - i * po_child_size p),
      sl_target_time_min =
        (if po_algo_type p = VWAP
         then py_round (bisect_volume 32 (of_int (i + 1) / of_int (num_slices p)) 0 1 *
                        of_int (po_duration_min p)) 2
         else py_round (of_int (i + 1) * of_int (po_duration_min p) / of_int (num_slices p)) 2)\<rparr>"

definition get_schedule :: "string \<Rightarrow> algo_engine \<Rightarrow> algo_error + schedule_slot list" where
  "get_schedule oid e =
     (case ae_orders e oid of
        None \<Rightarrow> Inl (Unknown_Order oid)
      | Some p \<Rightarrow>
          if po_child_size p = 0 then Inl Zero_Division
          else Inr (map (\<lambda>i. make_slot p (int i)) [0..<nat (num_slices p)]))"

definition get_children :: "string \<Rightarrow> algo_engine \<Rightarrow> child_order list" where
  "get_children oid e = (case ae_children e oid of None \<Rightarrow> [] | Some cs \<Rightarrow> cs)"

section \<open>The curve is a distribution function\<close>

lemma length_volume_profile [simp]: "length volume_profile = 78"
  by (simp add: volume_profile_def raw_profile_def Let_def)

lemma raw_positive: "v \<in> set raw_profile \<Longrightarrow> 0 < v"
  by (auto simp: raw_profile_def)

lemma raw_total: "0 < sum_list raw_profile"
  by (simp add: raw_profile_def sum_list_replicate)

lemma profile_positive: "v \<in> set volume_profile \<Longrightarrow> 0 < v"
  using raw_positive raw_total by (auto simp: volume_profile_def Let_def)

lemma profile_total: "sum_list volume_profile = 1"
proof -
  have "sum_list (map (\<lambda>v. v / c) xs) = sum_list xs / c" for c and xs :: "pyfloat list"
    by (induction xs) (simp_all add: add_divide_distrib)
  then show ?thesis using raw_total by (simp add: volume_profile_def Let_def)
qed

text \<open>The piecewise-linear interpolation of partial sums of a list of positive buckets.\<close>

definition cum :: "pyfloat list \<Rightarrow> nat \<Rightarrow> pyfloat" where
  "cum xs i = sum_list (take i xs)"

definition interp :: "pyfloat list \<Rightarrow> pyfloat \<Rightarrow> pyfloat" where
  "interp xs b = cum xs (nat \<lfloor>b\<rfloor>) + (b - of_nat (nat \<lfloor>b\<rfloor>)) * xs ! nat \<lfloor>b\<rfloor>"

lemma cum_Suc: "i < length xs \<Longrightarrow> cum xs (Suc i) = cum xs i + xs ! i"
  by (simp add: cum_def take_Suc_conv_app_nth)

lemma cum_mono: "(\<And>x. x \<in> set xs \<Longrightarrow> 0 < x) \<Longrightarrow> i \<le> j \<Longrightarrow> cum xs i \<le> cum xs j"
proof -
  assume p: "\<And>x. x \<in> set xs \<Longrightarrow> 0 < x" and "i \<le> j"
  have "take j xs = take i xs @ take (j - i) (drop i xs)"
    using \<open>i \<le> j\<close> by (metis le_add_diff_inverse take_add)
  moreover have "0 \<le> sum_list (take (j - i) (drop i xs))"
    by (rule sum_list_nonneg) (meson in_set_dropD in_set_takeD less_imp_le p)
  ultimately show ?thesis by (simp add: cum_def)
qed

lemma interp_bounds:
  assumes p: "\<And>x. x \<in> set xs \<Longrightarrow> 0 < x" and b: "0 \<le> b" "nat \<lfloor>b\<rfloor> < length xs"
  shows "cum xs (nat \<lfloor>b\<rfloor>) \<le> interp xs b" and "interp xs b \<le> cum xs (Suc (nat \<lfloor>b\<rfloor>))"
proof -
  have x: "0 < xs ! nat \<lfloor>b\<rfloor>" using p b(2) by simp
  have f: "0 \<le> b - of_nat (nat \<lfloor>b\<rfloor>)" "b - of_nat (nat \<lfloor>b\<rfloor>) \<le> 1"
    using b(1) by linarith+
  show "cum xs (nat \<lfloor>b\<rfloor>) \<le> interp xs b" using x f(1) by (simp add: interp_def)
  have "(b - of_nat (nat \<lfloor>b\<rfloor>)) * xs ! nat \<lfloor>b\<rfloor> \<le> xs ! nat \<lfloor>b\<rfloor>"
    using x f(2) by (simp add: mult_left_le_one_le f(1))
  then show "interp xs b \<le> cum xs (Suc (nat \<lfloor>b\<rfloor>))" using b(2) by (simp add: interp_def cum_Suc)
qed

lemma interp_mono:
  assumes p: "\<And>x. x \<in> set xs \<Longrightarrow> 0 < x" and "0 \<le> a" "a \<le> b" "nat \<lfloor>b\<rfloor> < length xs"
  shows "interp xs a \<le> interp xs b"
proof (cases "nat \<lfloor>a\<rfloor> = nat \<lfloor>b\<rfloor>")
  case True
  have "0 < xs ! nat \<lfloor>b\<rfloor>" using p assms(4) by simp
  with True assms(3) show ?thesis by (simp add: interp_def mult_right_mono)
next
  case False
  have le: "nat \<lfloor>a\<rfloor> \<le> nat \<lfloor>b\<rfloor>" using assms(3) by (simp add: floor_mono nat_mono)
  with False have "Suc (nat \<lfloor>a\<rfloor>) \<le> nat \<lfloor>b\<rfloor>" by simp
  then have "cum xs (Suc (nat \<lfloor>a\<rfloor>)) \<le> cum xs (nat \<lfloor>b\<rfloor>)"
    by (intro cum_mono) (auto intro: p)
  moreover have "interp xs a \<le> cum xs (Suc (nat \<lfloor>a\<rfloor>))"
    by (rule interp_bounds(2) [OF p]) (use assms le in auto)
  moreover have "cum xs (nat \<lfloor>b\<rfloor>) \<le> interp xs b"
    by (rule interp_bounds(1) [OF p]) (use assms in auto)
  ultimately show ?thesis by simp
qed

lemma volume_fraction_at:
  assumes "0 < x" and "x < 1" and i: "nat (py_trunc (x * 78)) = i" and "i < 78"
  shows "get_volume_fraction x =
    min 1 (cum volume_profile i + (x * 78 - of_nat i) * volume_profile ! i)"
proof -
  have "0 < i \<Longrightarrow> cumulative_profile (i - Suc 0) = cum volume_profile i"
    and "cum volume_profile 0 = 0"
    by (simp_all add: cumulative_profile_def cum_def)
  with assms show ?thesis by (simp add: get_volume_fraction_def Let_def)
qed

lemma volume_fraction_interp:
  assumes "0 < x" and "x < 1"
  shows "get_volume_fraction x = interp volume_profile (x * 78)"
    and "nat \<lfloor>x * 78\<rfloor> < 78"
proof -
  have "\<lfloor>x * 78\<rfloor> < 78" using assms by linarith
  then show n: "nat \<lfloor>x * 78\<rfloor> < 78" by linarith
  let ?i = "nat \<lfloor>x * 78\<rfloor>"
  have "interp volume_profile (x * 78) \<le> cum volume_profile (Suc ?i)"
    by (rule interp_bounds(2)) (use assms n profile_positive in auto)
  also have "\<dots> \<le> cum volume_profile 78"
    by (rule cum_mono) (use n profile_positive in auto)
  also have "\<dots> = 1" using profile_total by (simp add: cum_def)
  finally have "interp volume_profile (x * 78) \<le> 1" .
  moreover have "nat (py_trunc (x * 78)) = ?i" using assms by (simp add: py_trunc_def)
  ultimately show "get_volume_fraction x = interp volume_profile (x * 78)"
    using volume_fraction_at [OF assms _ n] by (simp only: interp_def min_absorb2)
qed

lemma volume_fraction_range: "0 \<le> get_volume_fraction x \<and> get_volume_fraction x \<le> 1"
proof (cases "0 < x \<and> x < 1")
  case True
  then have x: "0 < x" "x < 1" by auto
  have "0 \<le> cum volume_profile (nat \<lfloor>x * 78\<rfloor>)"
    using cum_mono [of volume_profile 0] profile_positive by (simp add: cum_def)
  also have "\<dots> \<le> interp volume_profile (x * 78)"
    by (rule interp_bounds(1)) (use x volume_fraction_interp(2) [OF x] profile_positive in auto)
  finally show ?thesis
    using volume_fraction_interp(1) [OF x]
    by (simp add: get_volume_fraction_def Let_def split: if_splits)
qed (auto simp: get_volume_fraction_def)

lemma volume_fraction_mono:
  assumes "x \<le> y" shows "get_volume_fraction x \<le> get_volume_fraction y"
proof (cases "0 < x \<and> y < 1")
  case True
  then have x: "0 < x" "x < 1" and y: "0 < y" "y < 1" using assms by auto
  have "interp volume_profile (x * 78) \<le> interp volume_profile (y * 78)"
    by (rule interp_mono) (use x y assms volume_fraction_interp(2) [OF y] profile_positive in auto)
  then show ?thesis by (simp add: volume_fraction_interp(1) [OF x] volume_fraction_interp(1) [OF y])
next
  case False
  then show ?thesis
    using volume_fraction_range [of x] volume_fraction_range [of y]
    by (auto simp: get_volume_fraction_def)
qed

section \<open>What one call does\<close>

definition after_send :: "parent_order \<Rightarrow> parent_order" where
  "after_send p =
     (let p1 = p\<lparr>po_slices_sent := po_slices_sent p + 1\<rparr>
      in if num_slices p1 \<le> po_slices_sent p1 then p1\<lparr>po_status := AS_COMPLETED\<rparr> else p1)"

lemma next_child_Some:
  assumes "next_child_order oid now price vol e = Inr (e', Some c)"
  obtains p where "ae_orders e oid = Some p" and "po_status p = AS_ACTIVE" and "0 < remaining_qty p"
    and "po_slices_sent p < num_slices p" and "should_send p now vol"
    and "co_slice_index c = po_slices_sent p" and "co_qty c = min (po_child_size p) (remaining_qty p)"
    and "co_price c = price"
    and "ae_orders e' = (ae_orders e)(oid \<mapsto> after_send p)"
    and "ae_children e' = (ae_children e)(oid \<mapsto> get_children oid e @ [c])"
proof -
  from assms obtain p where p: "ae_orders e oid = Some p"
    by (auto simp: next_child_order_def split: option.splits)
  have r: "remaining_qty (p\<lparr>po_slices_sent := n\<rparr>) = remaining_qty p" for n
    by (simp add: remaining_qty_def)
  from assms p have act: "po_status p = AS_ACTIVE" "0 < remaining_qty p"
    "po_slices_sent p < num_slices p" "should_send p now vol" "po_child_size p \<noteq> 0"
    by (auto simp: next_child_order_def Let_def split: if_splits)
  with assms p have "c = \<lparr>co_child_id = po_order_id p @ ''_'' @ digits (nat (po_slices_sent p + 1)),
        co_parent_id = po_order_id p, co_symbol = po_symbol p, co_side = po_side p,
        co_qty = min (po_child_size p) (remaining_qty p), co_price = price,
        co_algo_type = po_algo_type p, co_slice_index = po_slices_sent p, co_timestamp_ns = now,
        co_venue = ''nasdaq'', co_status = ''pending''\<rparr>"
    and "ae_orders e' = (ae_orders e)(oid \<mapsto> after_send p)"
    and "ae_children e' = (ae_children e)(oid \<mapsto> get_children oid e @ [c])"
    by (auto simp: next_child_order_def Let_def set_order_def get_children_def after_send_def r)
  with p act that show thesis by simp
qed

lemma after_send_frame [simp]:
  "po_slices_sent (after_send p) = po_slices_sent p + 1"
  "po_filled_qty (after_send p) = po_filled_qty p"
  "po_total_qty (after_send p) = po_total_qty p"
  "po_child_size (after_send p) = po_child_size p"
  "num_slices (after_send p) = num_slices p"
  "po_avg_fill_price (after_send p) = po_avg_fill_price p"
  by (simp_all add: after_send_def num_slices_def Let_def)

lemma after_send_status:
  "po_status (after_send p) = (if num_slices p \<le> po_slices_sent p + 1 then AS_COMPLETED else po_status p)"
  by (simp add: after_send_def num_slices_def Let_def)

lemma next_child_None:
  assumes "next_child_order oid now price vol e = Inr (e', None)"
  obtains p where "ae_orders e oid = Some p" and "ae_children e' = ae_children e"
    and "ae_orders e' = ae_orders e \<or>
         po_status p = AS_ACTIVE \<and> (remaining_qty p \<le> 0 \<or> num_slices p \<le> po_slices_sent p) \<and>
         ae_orders e' = (ae_orders e)(oid \<mapsto> p\<lparr>po_status := AS_COMPLETED\<rparr>)"
proof -
  from assms obtain p where p: "ae_orders e oid = Some p"
    by (auto simp: next_child_order_def split: option.splits)
  with assms that show thesis
    by (auto simp: next_child_order_def set_order_def Let_def split: if_splits)
qed

lemma num_slices_frame [simp]:
  "num_slices (p\<lparr>po_status := st\<rparr>) = num_slices p"
  "num_slices (p\<lparr>po_slices_sent := n, po_status := st\<rparr>) = num_slices p"
  "num_slices (p\<lparr>po_filled_qty := q, po_avg_fill_price := a\<rparr>) = num_slices p"
  "num_slices (p\<lparr>po_filled_qty := q, po_avg_fill_price := a, po_status := st\<rparr>) = num_slices p"
  "num_slices (p\<lparr>po_start_time_ns := t\<rparr>) = num_slices p"
  by (simp_all add: num_slices_def)

lemma slices_positive:
  assumes "0 \<le> po_filled_qty p" and "0 < remaining_qty p" and "0 \<le> po_slices_sent p"
    and "po_slices_sent p < num_slices p"
  shows "0 < po_child_size p"
proof (rule ccontr)
  assume "\<not> 0 < po_child_size p"
  then have "(of_int (po_total_qty p) :: pyfloat) / of_int (po_child_size p) \<le> 0"
    using assms(1,2) by (simp add: remaining_qty_def divide_le_0_iff)
  then have "num_slices p \<le> 0" by (simp add: num_slices_def ceiling_le_iff)
  with assms(3,4) show False by simp
qed

lemma num_slices_covers:
  assumes "0 < po_child_size p"
  shows "po_total_qty p \<le> num_slices p * po_child_size p"
    and "(num_slices p - 1) * po_child_size p < po_total_qty p"
proof -
  let ?x = "(of_int (po_total_qty p) :: pyfloat) / of_int (po_child_size p)"
  have "?x \<le> of_int (num_slices p)" and "of_int (num_slices p) - 1 < ?x"
    unfolding num_slices_def by linarith+
  then have "(of_int (po_total_qty p) :: pyfloat) \<le> of_int (num_slices p * po_child_size p)"
    and "(of_int ((num_slices p - 1) * po_child_size p) :: pyfloat) < of_int (po_total_qty p)"
    using assms by (simp_all add: field_simps)
  then show "po_total_qty p \<le> num_slices p * po_child_size p"
    and "(num_slices p - 1) * po_child_size p < po_total_qty p"
    by linarith+
qed

section \<open>The engine invariant\<close>

definition children_ok :: "parent_order \<Rightarrow> child_order list \<Rightarrow> bool" where
  "children_ok p cs \<longleftrightarrow>
     po_slices_sent p = int (length cs) \<and> 0 \<le> po_filled_qty p \<and>
     (cs \<noteq> [] \<longrightarrow> int (length cs) \<le> num_slices p) \<and>
     map co_slice_index cs = map int [0..<length cs] \<and>
     (\<forall>c \<in> set cs. 0 < co_qty c \<and> co_qty c \<le> po_child_size p)"

definition engine_inv :: "algo_engine \<Rightarrow> bool" where
  "engine_inv e \<longleftrightarrow>
     dom (ae_children e) = dom (ae_orders e) \<and>
     (\<forall>oid p. ae_orders e oid = Some p \<longrightarrow> children_ok p (get_children oid e))"

datatype algo_event =
    Al_Submit parent_order
  | Al_Cancel string
  | Al_Next string pyfloat int
  | Al_Fill string pyfloat int

fun algo_step :: "algo_engine \<Rightarrow> timestamp \<times> algo_event \<Rightarrow> algo_engine" where
  "algo_step e (now, Al_Submit p) = algo_submit p now e"
| "algo_step e (now, Al_Cancel oid) = fst (algo_cancel oid e)"
| "algo_step e (now, Al_Next oid price vol) =
     (case next_child_order oid now price vol e of Inl _ \<Rightarrow> e | Inr (e', _) \<Rightarrow> e')"
| "algo_step e (now, Al_Fill oid price qty) =
     (case record_fill oid price qty e of Inl _ \<Rightarrow> e | Inr e' \<Rightarrow> e')"

text \<open>A parent is submitted fresh: nothing sent, nothing filled.\<close>

fun fresh_submit :: "timestamp \<times> algo_event \<Rightarrow> bool" where
  "fresh_submit (_, Al_Submit p) \<longleftrightarrow> po_slices_sent p = 0 \<and> po_filled_qty p = 0 \<and> po_avg_fill_price p = 0"
| "fresh_submit _ \<longleftrightarrow> True"

lemma engine_inv_init: "engine_inv engine_init"
  by (simp add: engine_inv_def engine_init_def)

lemma engine_inv_update:
  assumes "engine_inv e" and "ae_orders e oid = Some p"
    and "children_ok p (get_children oid e) \<Longrightarrow> children_ok p' (get_children oid e)"
  shows "engine_inv (set_order oid p' e)"
  using assms by (auto simp: engine_inv_def set_order_def get_children_def)

lemma next_child_inv:
  assumes inv: "engine_inv e" and "next_child_order oid now price vol e = Inr (e', r)"
  shows "engine_inv e'"
proof (cases r)
  case None
  with assms(2) have "next_child_order oid now price vol e = Inr (e', None)" by simp
  then obtain p where p: "ae_orders e oid = Some p" "ae_children e' = ae_children e"
    "ae_orders e' = ae_orders e \<or>
         po_status p = AS_ACTIVE \<and> (remaining_qty p \<le> 0 \<or> num_slices p \<le> po_slices_sent p) \<and>
         ae_orders e' = (ae_orders e)(oid \<mapsto> p\<lparr>po_status := AS_COMPLETED\<rparr>)"
    by (rule next_child_None)
  have "children_ok p (get_children oid e)" using inv p(1) by (simp add: engine_inv_def)
  then have "children_ok (p\<lparr>po_status := AS_COMPLETED\<rparr>) (get_children oid e)"
    by (simp add: children_ok_def)
  with p inv show ?thesis by (auto simp: engine_inv_def get_children_def split: if_splits)
next
  case (Some c)
  with assms(2) have "next_child_order oid now price vol e = Inr (e', Some c)" by simp
  then obtain p where p: "ae_orders e oid = Some p" "0 < remaining_qty p"
    "po_slices_sent p < num_slices p" "co_slice_index c = po_slices_sent p"
    "co_qty c = min (po_child_size p) (remaining_qty p)"
    "ae_orders e' = (ae_orders e)(oid \<mapsto> after_send p)"
    "ae_children e' = (ae_children e)(oid \<mapsto> get_children oid e @ [c])"
    by (rule next_child_Some)
  have ok: "children_ok p (get_children oid e)" using inv p(1) by (simp add: engine_inv_def)
  then have "0 < po_child_size p"
    by (intro slices_positive) (use p in \<open>auto simp: children_ok_def\<close>)
  with ok p have "children_ok (after_send p) (get_children oid e @ [c])"
    by (auto simp: children_ok_def)
  then show ?thesis
    using inv p(6,7) by (auto simp: engine_inv_def get_children_def)
qed

lemma algo_step_inv:
  assumes inv: "engine_inv e" and "fresh_submit te"
  shows "engine_inv (algo_step e te)"
proof -
  obtain now ev where te: "te = (now, ev)" by (cases te)
  show ?thesis
  proof (cases ev)
    case (Al_Submit p)
    with assms te show ?thesis
      by (auto simp: engine_inv_def algo_submit_def get_children_def children_ok_def Let_def)
  next
    case (Al_Cancel oid)
    with inv te show ?thesis
      by (auto simp: algo_cancel_def engine_inv_def get_children_def children_ok_def split: option.split)
  next
    case (Al_Next oid price vol)
    with inv te show ?thesis by (auto intro: next_child_inv split: sum.split)
  next
    case (Al_Fill oid price qty)
    have "engine_inv e'" if "record_fill oid price qty e = Inr e'" for e'
      using that inv
      by (auto simp: record_fill_def Let_def children_ok_def split: option.splits if_splits
          intro!: engine_inv_update)
    with inv te Al_Fill show ?thesis by (auto split: sum.split)
  qed
qed

lemma algo_run_inv:
  "engine_inv e \<Longrightarrow> \<forall>te \<in> set tes. fresh_submit te \<Longrightarrow> engine_inv (foldl algo_step e tes)"
  by (induction tes arbitrary: e) (auto simp: algo_step_inv)

section \<open>Fills in step with the slices, and no fills at all\<close>

text \<open>One market tick in which a child that is sent is filled at once and in full.\<close>

definition send_and_fill :: "string \<Rightarrow> algo_engine \<Rightarrow> timestamp \<times> pyfloat \<times> int \<Rightarrow> algo_engine" where
  "send_and_fill oid e tick =
     (case next_child_order oid (fst tick) (fst (snd tick)) (snd (snd tick)) e of
        Inl _ \<Rightarrow> e
      | Inr (e', None) \<Rightarrow> e'
      | Inr (e', Some c) \<Rightarrow>
          (case record_fill oid (co_price c) (co_qty c) e' of Inl _ \<Rightarrow> e' | Inr e'' \<Rightarrow> e''))"

definition send_only :: "string \<Rightarrow> algo_engine \<Rightarrow> timestamp \<times> pyfloat \<times> int \<Rightarrow> algo_engine" where
  "send_only oid e tick =
     (case next_child_order oid (fst tick) (fst (snd tick)) (snd (snd tick)) e of
        Inl _ \<Rightarrow> e | Inr (e', _) \<Rightarrow> e')"

definition sent_total :: "string \<Rightarrow> algo_engine \<Rightarrow> int" where
  "sent_total oid e = sum_list (map co_qty (get_children oid e))"

text \<open>A parent of total \<open>n\<close> and child size \<open>k\<close>, with fills in step.\<close>

definition in_step :: "string \<Rightarrow> int \<Rightarrow> int \<Rightarrow> algo_engine \<Rightarrow> bool" where
  "in_step oid n k e \<longleftrightarrow>
     (\<exists>p. ae_orders e oid = Some p \<and> po_total_qty p = n \<and> po_child_size p = k \<and>
        0 \<le> po_slices_sent p \<and> po_filled_qty p = min n (po_slices_sent p * k) \<and>
        sent_total oid e = po_filled_qty p \<and>
        (po_status p = AS_COMPLETED \<longrightarrow> po_filled_qty p = n))"

lemma min_step: "0 \<le> (k::int) \<Longrightarrow> min n (s * k) + min k (n - min n (s * k)) = min n ((s + 1) * k)"
  by (simp add: min_def algebra_simps)

lemma in_step_tick:
  assumes st: "in_step oid n k e" and k: "0 < k" and n: "0 < n"
  shows "in_step oid n k (send_and_fill oid e tick)"
proof -
  obtain now price vol where tick: "tick = (now, price, vol)" by (cases tick)
  from st obtain p where p: "ae_orders e oid = Some p" "po_total_qty p = n" "po_child_size p = k"
    "0 \<le> po_slices_sent p" "po_filled_qty p = min n (po_slices_sent p * k)"
    "sent_total oid e = po_filled_qty p" "po_status p = AS_COMPLETED \<longrightarrow> po_filled_qty p = n"
    by (auto simp: in_step_def)
  show ?thesis
  proof (cases "next_child_order oid now price vol e")
    case (Inl x)
    with st show ?thesis by (simp add: send_and_fill_def tick)
  next
    case (Inr r)
    obtain e' co where r: "r = (e', co)" by (cases r)
    show ?thesis
    proof (cases co)
      case None
      with Inr r have nc: "next_child_order oid now price vol e = Inr (e', None)" by simp
      obtain p' where p': "ae_orders e oid = Some p'" "ae_children e' = ae_children e"
        "ae_orders e' = ae_orders e \<or> po_status p' = AS_ACTIVE \<and>
           (remaining_qty p' \<le> 0 \<or> num_slices p' \<le> po_slices_sent p') \<and>
           ae_orders e' = (ae_orders e)(oid \<mapsto> p'\<lparr>po_status := AS_COMPLETED\<rparr>)"
        using next_child_None [OF nc] by metis
      have pp: "p' = p" using p(1) p'(1) by simp
      have full: "po_filled_qty p = n" if "remaining_qty p \<le> 0 \<or> num_slices p \<le> po_slices_sent p"
      proof -
        have "n \<le> po_slices_sent p * k" if "num_slices p \<le> po_slices_sent p"
        proof -
          have "n \<le> num_slices p * k" using num_slices_covers(1) [of p] p(2,3) k by simp
          also have "\<dots> \<le> po_slices_sent p * k" using that k by (simp add: mult_right_mono)
          finally show ?thesis .
        qed
        with that p(2,5) show ?thesis by (auto simp: remaining_qty_def)
      qed
      have "sent_total oid e' = sent_total oid e"
        using p'(2) by (simp add: sent_total_def get_children_def)
      with p'(3) p full show ?thesis
        by (auto simp: in_step_def send_and_fill_def tick nc pp)
    next
      case (Some c)
      with Inr r have nc: "next_child_order oid now price vol e = Inr (e', Some c)" by simp
      obtain p' where p': "ae_orders e oid = Some p'" "0 < remaining_qty p'"
        "co_qty c = min (po_child_size p') (remaining_qty p')"
        "ae_orders e' = (ae_orders e)(oid \<mapsto> after_send p')"
        "ae_children e' = (ae_children e)(oid \<mapsto> get_children oid e @ [c])"
        using next_child_Some [OF nc] by metis
      have pp: "p' = p" using p(1) p'(1) by simp
      have q: "co_qty c = min k (n - min n (po_slices_sent p * k))" "0 < co_qty c"
        using p'(2,3) p(2,3,5) k by (auto simp: pp remaining_qty_def)
      let ?p2 = "(after_send p)\<lparr>po_filled_qty := po_filled_qty p + co_qty c, po_avg_fill_price :=
          (if 0 < po_filled_qty p + co_qty c
           then (po_avg_fill_price p * of_int (po_filled_qty p) + co_price c * of_int (co_qty c)) /
             of_int (po_filled_qty p + co_qty c) else 0)\<rparr>"
      let ?p3 = "if n \<le> po_filled_qty p + co_qty c then ?p2\<lparr>po_status := AS_COMPLETED\<rparr> else ?p2"
      have fill: "record_fill oid (co_price c) (co_qty c) e' = Inr (set_order oid ?p3 e')"
        using q(2) p'(4) p(2) by (simp add: record_fill_def pp Let_def)
      have filled: "po_filled_qty p + co_qty c = min n ((po_slices_sent p + 1) * k)"
        using min_step [of k n "po_slices_sent p"] k p(5) q(1) by simp
      have total: "sent_total oid (set_order oid ?p3 e') = po_filled_qty p + co_qty c"
        using p(6) p'(5) by (simp add: sent_total_def get_children_def set_order_def)
      have complete: "po_filled_qty p + co_qty c = n" if "num_slices p \<le> po_slices_sent p + 1"
      proof -
        have "n \<le> num_slices p * k" using num_slices_covers(1) [of p] p(2,3) k by simp
        also have "\<dots> \<le> (po_slices_sent p + 1) * k" using that k by (simp add: mult_right_mono)
        finally show ?thesis using filled by simp
      qed
      have "po_status ?p3 = AS_COMPLETED \<longrightarrow> po_filled_qty p + co_qty c = n"
        using complete filled p(7) q(2) p'(2) by (auto simp: after_send_status pp remaining_qty_def p(2) split: if_splits)
      then show ?thesis
        using fill filled total p(2-4)
        by (auto simp: in_step_def send_and_fill_def tick nc set_order_def)
    qed
  qed
qed

definition unfilled :: "string \<Rightarrow> int \<Rightarrow> int \<Rightarrow> algo_engine \<Rightarrow> bool" where
  "unfilled oid n k e \<longleftrightarrow>
     (\<exists>p. ae_orders e oid = Some p \<and> po_total_qty p = n \<and> po_child_size p = k \<and>
        po_filled_qty p = 0 \<and> sent_total oid e = po_slices_sent p * k \<and>
        (po_status p = AS_COMPLETED \<longrightarrow> num_slices p \<le> po_slices_sent p))"

lemma unfilled_tick:
  assumes st: "unfilled oid n k e" and k: "k \<le> n" "0 < n"
  shows "unfilled oid n k (send_only oid e tick)"
proof -
  obtain now price vol where tick: "tick = (now, price, vol)" by (cases tick)
  from st obtain p where p: "ae_orders e oid = Some p" "po_total_qty p = n" "po_child_size p = k"
    "po_filled_qty p = 0" "sent_total oid e = po_slices_sent p * k"
    "po_status p = AS_COMPLETED \<longrightarrow> num_slices p \<le> po_slices_sent p"
    by (auto simp: unfilled_def)
  show ?thesis
  proof (cases "next_child_order oid now price vol e")
    case (Inl x)
    with st show ?thesis by (simp add: send_only_def tick)
  next
    case (Inr r)
    obtain e' co where r: "r = (e', co)" by (cases r)
    show ?thesis
    proof (cases co)
      case None
      with Inr r have nc: "next_child_order oid now price vol e = Inr (e', None)" by simp
      obtain p' where p': "ae_orders e oid = Some p'" "ae_children e' = ae_children e"
        "ae_orders e' = ae_orders e \<or> po_status p' = AS_ACTIVE \<and>
           (remaining_qty p' \<le> 0 \<or> num_slices p' \<le> po_slices_sent p') \<and>
           ae_orders e' = (ae_orders e)(oid \<mapsto> p'\<lparr>po_status := AS_COMPLETED\<rparr>)"
        using next_child_None [OF nc] by metis
      have "p' = p" and "sent_total oid e' = sent_total oid e" and "\<not> remaining_qty p \<le> 0"
        using p p' k(2) by (auto simp: sent_total_def get_children_def remaining_qty_def)
      with p'(3) p show ?thesis by (auto simp: unfilled_def send_only_def tick nc)
    next
      case (Some c)
      with Inr r have nc: "next_child_order oid now price vol e = Inr (e', Some c)" by simp
      obtain p' where p': "ae_orders e oid = Some p'" "co_qty c = min (po_child_size p') (remaining_qty p')"
        "ae_orders e' = (ae_orders e)(oid \<mapsto> after_send p')" "po_status p' = AS_ACTIVE"
        "ae_children e' = (ae_children e)(oid \<mapsto> get_children oid e @ [c])"
        using next_child_Some [OF nc] by metis
      have pp: "p' = p" using p(1) p'(1) by simp
      have "co_qty c = k" using p'(2) p(2-4) k(1) by (simp add: pp remaining_qty_def)
      then have "sent_total oid e' = (po_slices_sent p + 1) * k"
        using p(5) p'(5) by (simp add: sent_total_def get_children_def algebra_simps)
      with p p'(3,4) show ?thesis
        by (auto simp: unfilled_def send_only_def tick nc pp after_send_status)
    qed
  qed
qed

section \<open>Properties\<close>

text \<open>Slicing discipline: in any run of the engine whose parents are submitted fresh, every
  parent has sent exactly as many slices as it has children, never more than the planned
  number once it has sent any, its children are numbered from zero without gaps, and each has
  a positive quantity of at most the child size.\<close>

theorem slicing_discipline:
  assumes "\<forall>te \<in> set tes. fresh_submit te" and "ae_orders (foldl algo_step engine_init tes) oid = Some p"
  shows "children_ok p (get_children oid (foldl algo_step engine_init tes))"
  using algo_run_inv [OF engine_inv_init assms(1)] assms(2) by (simp add: engine_inv_def)

definition twap_example :: parent_order where
  "twap_example = \<lparr>po_order_id = ''p'', po_symbol = ''A'', po_side = ''buy'', po_total_qty = 250,
     po_algo_type = TWAP, po_limit_price = 10, po_duration_min = 0, po_child_size = 100,
     po_pov_rate = 5 / 100, po_urgency = 1 / 2, po_status = AS_PENDING, po_filled_qty = 0,
     po_avg_fill_price = 0, po_slices_sent = 0, po_start_time_ns = 1\<rparr>"

theorem slicing_discipline_witness:
  "children_ok (twap_example\<lparr>po_status := AS_ACTIVE\<rparr>)
     (get_children ''p'' (foldl algo_step engine_init [(1, Al_Submit twap_example)]))"
  by (rule slicing_discipline)
    (simp_all add: twap_example_def algo_submit_def engine_init_def)

text \<open>Fills in step: when every child is filled in full before the next tick, then after
  any ticks the parent is filled by exactly what was sent, which is the slices times the
  child size cut to the order's total, so nothing is over-filled, and a completed parent is
  filled completely.\<close>

theorem fills_in_step_are_exact:
  assumes "po_slices_sent p = 0" and "po_filled_qty p = 0" and "0 < po_child_size p"
    and "0 < po_total_qty p"
  shows "in_step (po_order_id p) (po_total_qty p) (po_child_size p)
           (foldl (send_and_fill (po_order_id p)) (algo_submit p now e) ticks)"
proof -
  have "in_step (po_order_id p) (po_total_qty p) (po_child_size p) (algo_submit p now e)"
    using assms
    by (simp add: in_step_def algo_submit_def sent_total_def get_children_def Let_def)
  then show ?thesis
  proof (induction ticks arbitrary: e rule: rev_induct)
    case (snoc tick ticks)
    then show ?case using in_step_tick assms(3,4) by simp
  qed simp
qed

theorem fills_in_step_are_exact_witness:
  "in_step ''p'' 250 100 (foldl (send_and_fill ''p'') (algo_submit twap_example 1 engine_init)
     [(1, 10, 0), (2, 11, 0), (3, 12, 0)])"
  using fills_in_step_are_exact [of twap_example 1 engine_init "[(1, 10, 0), (2, 11, 0), (3, 12, 0)]"]
  by (simp add: twap_example_def)

text \<open>Slices ahead of their fills are not cut to the total: when no fill arrives while the
  slices go out, a completed parent has sent the number of slices times the child size, which
  is more than the order when the child size does not divide it.\<close>

theorem unfilled_slices_oversend:
  assumes "po_slices_sent p = 0" and "po_filled_qty p = 0" and "0 < po_child_size p"
    and "po_child_size p \<le> po_total_qty p" and "\<not> po_child_size p dvd po_total_qty p"
    and "e' = foldl (send_only (po_order_id p)) (algo_submit p now e) ticks"
    and "ae_orders e' (po_order_id p) = Some p'" and "po_status p' = AS_COMPLETED"
  shows "po_total_qty p < sent_total (po_order_id p) e'"
proof -
  let ?n = "po_total_qty p" and ?k = "po_child_size p"
  have n: "0 < ?n" using assms(3,4) by simp
  have "unfilled (po_order_id p) ?n ?k (algo_submit p now e)"
    using assms(1,2)
    by (simp add: unfilled_def algo_submit_def sent_total_def get_children_def Let_def)
  then have "unfilled (po_order_id p) ?n ?k e'"
    unfolding assms(6)
  proof (induction ticks arbitrary: e rule: rev_induct)
    case (snoc tick ticks)
    then show ?case using unfilled_tick assms(4) n by simp
  qed simp
  then have u: "sent_total (po_order_id p) e' = po_slices_sent p' * ?k"
    "num_slices p' \<le> po_slices_sent p'" "po_total_qty p' = ?n" "po_child_size p' = ?k"
    using assms(7,8) by (auto simp: unfilled_def)
  have "?n \<le> num_slices p' * ?k" using num_slices_covers(1) [of p'] u(3,4) assms(3) by simp
  also have "\<dots> \<le> po_slices_sent p' * ?k" using u(2) assms(3) by (simp add: mult_right_mono)
  finally have "?n \<le> po_slices_sent p' * ?k" .
  moreover have "?n \<noteq> po_slices_sent p' * ?k" using assms(5) by auto
  ultimately show ?thesis using u(1) by simp
qed

lemma twap_example_run:
  "ae_orders (foldl (send_only ''p'') (algo_submit twap_example 1 engine_init)
     [(1, 10, 0), (2, 11, 0), (3, 12, 0)]) ''p'' =
   Some (twap_example\<lparr>po_status := AS_COMPLETED, po_slices_sent := 3\<rparr>)"
  by (simp add: send_only_def algo_submit_def engine_init_def twap_example_def next_child_order_def
      remaining_qty_def num_slices_def should_send_def twap_should_send_def duration_ns_def
      set_order_def Let_def)

theorem unfilled_slices_oversend_witness:
  "250 < sent_total ''p'' (foldl (send_only ''p'') (algo_submit twap_example 1 engine_init)
     [(1, 10, 0), (2, 11, 0), (3, 12, 0)])"
proof -
  have f: "po_order_id twap_example = ''p''" "po_total_qty twap_example = 250"
    by (simp_all add: twap_example_def)
  show ?thesis
    using unfilled_slices_oversend [where p = twap_example and now = 1 and e = engine_init
        and ticks = "[(1, 10, 0), (2, 11, 0), (3, 12, 0)]"
        and p' = "twap_example\<lparr>po_status := AS_COMPLETED, po_slices_sent := 3\<rparr>",
        OF _ _ _ _ _ refl, unfolded f, OF _ _ _ _ _ twap_example_run]
    by (simp add: twap_example_def)
qed

text \<open>Pacing: a child is only sent when its algorithm's benchmark is due. A time-weighted
  parent never sends slice \<open>i\<close> before \<open>i\<close> of its intervals have passed, a volume-weighted
  one never sends when it already stands at its share of the day's volume curve, and a
  participating one only when the market traded enough for a whole child.\<close>

theorem children_are_paced:
  assumes "next_child_order oid now price vol e = Inr (e', Some c)" and "ae_orders e oid = Some p"
    and "0 < duration_ns p" and "po_start_time_ns p \<le> now" and "0 \<le> po_slices_sent p"
  shows "case po_algo_type p of
      TWAP \<Rightarrow> of_int (co_slice_index c) * (of_int (duration_ns p) / of_int (num_slices p))
                \<le> (of_int (now - po_start_time_ns p) :: pyfloat)
    | VWAP \<Rightarrow> of_int (co_slice_index c * po_child_size p) <
                of_int (po_total_qty p) * get_volume_fraction (min (elapsed_fraction p now) 1)
    | POV \<Rightarrow> of_int (po_child_size p) \<le> of_int vol * po_pov_rate p
    | IS \<Rightarrow> is_should_send p now"
proof -
  obtain p' where p': "ae_orders e oid = Some p'" "po_slices_sent p' < num_slices p'"
    "should_send p' now vol" "co_slice_index c = po_slices_sent p'"
    using next_child_Some [OF assms(1)] by metis
  then have p: "p' = p" using assms(2) by simp
  have "of_int (po_slices_sent p) * (of_int (duration_ns p) / of_int (num_slices p))
      \<le> (of_int (now - po_start_time_ns p) :: pyfloat)" if "twap_should_send p now"
  proof -
    let ?iv = "of_int (duration_ns p) / of_int (num_slices p) :: pyfloat"
    let ?el = "of_int (now - po_start_time_ns p) :: pyfloat"
    have iv: "0 < ?iv" using assms(3,5) p'(2) by (simp add: p)
    have "0 \<le> ?el / ?iv" using iv assms(4) by (intro divide_nonneg_pos) simp_all
    then have tr: "py_trunc (?el / ?iv) = \<lfloor>?el / ?iv\<rfloor>" by (rule py_trunc_nonneg)
    from that have "po_slices_sent p \<le> \<lfloor>?el / ?iv\<rfloor>"
      unfolding twap_should_send_def Let_def if_P [OF iv] tr .
    then have "of_int (po_slices_sent p) \<le> ?el / ?iv" by (simp add: le_floor_iff)
    with iv show ?thesis by (simp only: pos_le_divide_eq)
  qed
  with p' show ?thesis
    by (auto simp: p should_send_def vwap_should_send_def pov_should_send_def Let_def
        split: algo_type.splits)
qed

theorem children_are_paced_witness:
  "\<exists>e' c. next_child_order ''p'' 1 10 0
       (algo_submit (twap_example\<lparr>po_duration_min := 3\<rparr>) 1 engine_init) = Inr (e', Some c) \<and>
     of_int (co_slice_index c) * (60000000000 :: pyfloat) \<le> 0"
proof -
  let ?p = "twap_example\<lparr>po_duration_min := 3\<rparr>" let ?e = "algo_submit ?p 1 engine_init"
  obtain e' c where n: "next_child_order ''p'' 1 10 0 ?e = Inr (e', Some c)"
    by (simp add: algo_submit_def engine_init_def twap_example_def next_child_order_def
      remaining_qty_def num_slices_def should_send_def twap_should_send_def duration_ns_def
      set_order_def py_trunc_def Let_def)
  have o: "ae_orders ?e ''p'' = Some (?p\<lparr>po_status := AS_ACTIVE\<rparr>)"
    by (simp add: algo_submit_def twap_example_def Let_def)
  show ?thesis
    using n children_are_paced [OF n o]
    by (simp add: twap_example_def duration_ns_def num_slices_def)
qed

text \<open>The volume curve is a distribution function of the session: it is 0 before the open
  and 1 from the close on, stays between them and never falls, so the volume-weighted target
  never moves backwards.\<close>

theorem volume_curve_monotone:
  assumes "x \<le> y"
  shows "get_volume_fraction x \<le> get_volume_fraction y \<and>
         0 \<le> get_volume_fraction x \<and> get_volume_fraction y \<le> 1 \<and>
         (x \<le> 0 \<longrightarrow> get_volume_fraction x = 0) \<and> (1 \<le> y \<longrightarrow> get_volume_fraction y = 1)"
  using volume_fraction_mono [OF assms] volume_fraction_range [of x] volume_fraction_range [of y]
  by (auto simp: get_volume_fraction_def)

theorem volume_curve_monotone_witness:
  "get_volume_fraction (1 / 4) \<le> get_volume_fraction (1 / 2)"
  using volume_curve_monotone [of "1 / 4" "1 / 2"] by simp

end
