(* ===== verification/Fix_Codec.thy ===== *)
theory Fix_Codec
  imports Enums "HOL-Library.AList"
begin

text \<open>
  The message layer of \<open>infrastructure/fix_connector.py\<close>: \<open>FIXMessage\<close> with its tag-value
  store, \<open>encode\<close>, \<open>decode\<close>, and the framing of the byte stream in \<open>_read_loop\<close>. The store is
  Python's dictionary in insertion order (an association list updated in place). Bytes are
  characters: encoding to ASCII fails on a code above 127, and decoding replaces such a byte,
  which the model writes as the one character \<open>CHR 0xFF\<close>. The send time is an argument, as
  the text \<open>strftime\<close> gives.
\<close>

section \<open>Text\<close>

definition soh :: char where "soh = CHR 0x01"

text \<open>\<open>f"{n:03d}"\<close>.\<close>

definition pad3 :: "nat \<Rightarrow> string" where
  "pad3 n = replicate (3 - length (digits n)) (CHR ''0'') @ digits n"

definition is_ascii :: "string \<Rightarrow> bool" where
  "is_ascii s \<longleftrightarrow> list_all (\<lambda>c. (of_char c :: nat) < 128) s"

definition ascii_decode :: "string \<Rightarrow> string" where
  "ascii_decode s = map (\<lambda>c. if (of_char c :: nat) < 128 then c else CHR 0xFF) s"

text \<open>\<open>s.split(c)\<close> and \<open>s.partition(c)\<close> for a one-character separator.\<close>

fun split_on :: "char \<Rightarrow> string \<Rightarrow> string list" where
  "split_on c [] = [[]]"
| "split_on c (x # xs) =
     (if x = c then [] # split_on c xs
      else (case split_on c xs of [] \<Rightarrow> [[x]] | w # ws \<Rightarrow> (x # w) # ws))"

definition partition_on :: "char \<Rightarrow> string \<Rightarrow> string \<times> string" where
  "partition_on c s = (takeWhile (\<lambda>x. x \<noteq> c) s, tl (dropWhile (\<lambda>x. x \<noteq> c) s))"

text \<open>
  \<open>int(s)\<close> on a text: white space around it, a sign, decimal digits with single underscores
  between them; \<open>None\<close> is the \<open>ValueError\<close>.
\<close>

definition digit_value :: "char \<Rightarrow> nat option" where
  "digit_value c =
     (let n = of_char c :: nat in if 48 \<le> n \<and> n \<le> 57 then Some (n - 48) else None)"

fun digits_value :: "nat \<Rightarrow> bool \<Rightarrow> string \<Rightarrow> nat option" where
  "digits_value acc after_digit [] = (if after_digit then Some acc else None)"
| "digits_value acc after_digit (c # cs) =
     (case digit_value c of
        Some d \<Rightarrow> digits_value (10 * acc + d) True cs
      | None \<Rightarrow> if c = CHR ''_'' \<and> after_digit then digits_value acc False cs else None)"

definition py_int :: "string \<Rightarrow> int option" where
  "py_int s =
     (case py_strip s of
        [] \<Rightarrow> None
      | c # cs \<Rightarrow>
          if c = CHR ''-'' then map_option (\<lambda>n. - int n) (digits_value 0 False cs)
          else if c = CHR ''+'' then map_option int (digits_value 0 False cs)
          else map_option int (digits_value 0 False (c # cs)))"

section \<open>Messages\<close>

record fix_message =
  fm_type :: string
  fm_fields :: "(int \<times> string) list"

definition fix_new :: "string \<Rightarrow> fix_message" where
  "fix_new ty = \<lparr>fm_type = ty, fm_fields = []\<rparr>"

definition fix_set :: "int \<Rightarrow> string \<Rightarrow> fix_message \<Rightarrow> fix_message" where
  "fix_set tag v m = m\<lparr>fm_fields := AList.update tag v (fm_fields m)\<rparr>"

definition fix_get :: "fix_message \<Rightarrow> int \<Rightarrow> string" where
  "fix_get m tag = (case map_of (fm_fields m) tag of None \<Rightarrow> [] | Some v \<Rightarrow> v)"

definition header_tags :: "int list" where
  "header_tags = [8, 9, 10, 35, 49, 56, 34, 52]"

text \<open>The dictionary \<open>body_tags\<close>: the standard tags, then the message's own.\<close>

definition fix_body :: "fix_message \<Rightarrow> string \<Rightarrow> string \<Rightarrow> int \<Rightarrow> string \<Rightarrow> (int \<times> string) list" where
  "fix_body m sender target seq_num now_utc =
     fold (\<lambda>(k, v) d. AList.update k v d)
       (filter (\<lambda>(k, v). k \<notin> set header_tags) (fm_fields m))
       [(35, fm_type m), (49, sender), (56, target), (34, int_str seq_num), (52, now_utc)]"

definition field_text :: "int \<times> string \<Rightarrow> string" where
  "field_text f = int_str (fst f) @ CHR ''='' # snd f"

fun soh_join :: "string list \<Rightarrow> string" where
  "soh_join [] = []"
| "soh_join [s] = s"
| "soh_join (s # t # us) = s @ soh # soh_join (t # us)"

definition checksum :: "string \<Rightarrow> nat" where
  "checksum s = sum_list (map of_char s) mod 256"

definition fix_encode ::
  "fix_message \<Rightarrow> string \<Rightarrow> string \<Rightarrow> int \<Rightarrow> string \<Rightarrow> string option" where
  "fix_encode m sender target seq_num now_utc =
     (let body = soh_join (map field_text (fix_body m sender target seq_num now_utc)) @ [soh]
      in if \<not> is_ascii body then None
         else let full = ''8=FIX.4.4'' @ [soh] @ ''9='' @ digits (length body) @ [soh] @ body
              in Some (full @ ''10='' @ pad3 (checksum full) @ [soh]))"

definition add_part :: "string \<Rightarrow> (int \<times> string) list \<Rightarrow> (int \<times> string) list" where
  "add_part part d =
     (if CHR ''='' \<in> set part
      then (case partition_on (CHR ''='') part of
              (tag_str, v) \<Rightarrow> (case py_int tag_str of None \<Rightarrow> d | Some tag \<Rightarrow> AList.update tag v d))
      else d)"

definition fix_decode :: "string \<Rightarrow> fix_message" where
  "fix_decode raw =
     (let fields = fold add_part (split_on soh (ascii_decode raw)) []
      in \<lparr>fm_type = (case map_of fields 35 of None \<Rightarrow> [] | Some v \<Rightarrow> v), fm_fields = fields\<rparr>)"

section \<open>Framing the stream\<close>

fun find_sub :: "string \<Rightarrow> string \<Rightarrow> nat option" where
  "find_sub pat [] = (if pat = [] then Some 0 else None)"
| "find_sub pat (c # cs) =
     (if prefix pat (c # cs) then Some 0 else map_option Suc (find_sub pat cs))"

text \<open>One turn of the inner loop of \<open>_read_loop\<close>: the first message of the buffer, if it is complete.\<close>

definition take_frame :: "string \<Rightarrow> (string \<times> string) option" where
  "take_frame buffer =
     (case find_sub ''10='' buffer of
        None \<Rightarrow> None
      | Some i \<Rightarrow>
          if soh \<notin> set (drop i buffer) then None
          else let end_idx = i + length (takeWhile (\<lambda>x. x \<noteq> soh) (drop i buffer))
               in Some (take (end_idx + 1) buffer, drop (end_idx + 1) buffer))"

lemma take_frame_split: "take_frame buf = Some (f, rest) \<Longrightarrow> buf = f @ rest \<and> f \<noteq> []"
  by (cases buf) (auto simp: take_frame_def Let_def split: option.splits if_splits)

function frames :: "string \<Rightarrow> string list \<times> string" where
  "frames buffer =
     (case take_frame buffer of
        None \<Rightarrow> ([], buffer)
      | Some (f, rest) \<Rightarrow> (let (fs, left) = frames rest in (f # fs, left)))"
  by pat_completeness auto
termination
  by (relation "measure length") (auto dest: take_frame_split)

declare frames.simps [simp del]

text \<open>The outer loop: chunks of the stream are appended to what is left of the buffer.\<close>

fun read_chunks :: "string \<Rightarrow> string list \<Rightarrow> string list \<times> string" where
  "read_chunks buffer [] = ([], buffer)"
| "read_chunks buffer (chunk # chunks) =
     (let (fs, left) = frames (buffer @ chunk); (gs, rest) = read_chunks left chunks
      in (fs @ gs, rest))"

section \<open>Decimal texts\<close>

lemma digits_chars: "c \<in> set (digits n) \<Longrightarrow> 48 \<le> (of_char c :: nat) \<and> (of_char c :: nat) \<le> 57"
proof (induction n rule: digits.induct)
  case (1 n)
  show ?case
  proof (cases "n < 10")
    case True
    with "1.prems" show ?thesis by (auto simp: digits.simps [of n] take_bit_nat_def)
  next
    case False
    with 1 show ?thesis by (auto simp: digits.simps [of n] take_bit_nat_def)
  qed
qed

lemma digits_not_Nil [simp]: "digits n \<noteq> []"
  by (subst digits.simps) simp

lemma digits_value_digits:
  "digits_value acc b (digits n @ ys) = digits_value (acc * 10 ^ length (digits n) + n) True ys"
proof (induction n arbitrary: acc b ys rule: digits.induct)
  case (1 n)
  show ?case
  proof (cases "n < 10")
    case True
    then show ?thesis
      by (simp add: digits.simps [of n] digit_value_def take_bit_nat_def mult.commute)
  next
    case False
    let ?c = "char_of (48 + n mod 10) :: char"
    have c: "digit_value ?c = Some (n mod 10)"
      by (simp add: digit_value_def take_bit_nat_def)
    have "digits_value acc b (digits n @ ys) = digits_value acc b (digits (n div 10) @ ?c # ys)"
      using False by (simp add: digits.simps [of n])
    also have "\<dots> = digits_value (acc * 10 ^ length (digits (n div 10)) + n div 10) True (?c # ys)"
      by (rule 1 [OF False])
    also have "\<dots> = digits_value (acc * 10 ^ length (digits n) + n) True ys"
      using False c by (simp add: digits.simps [of n] algebra_simps)
    finally show ?thesis .
  qed
qed

lemma int_str_chars:
  "c \<in> set (int_str k) \<Longrightarrow> c = CHR ''-'' \<or> 48 \<le> (of_char c :: nat) \<and> (of_char c :: nat) \<le> 57"
  by (auto simp: int_str_def dest: digits_chars split: if_splits)

lemma int_str_not_Nil [simp]: "int_str k \<noteq> []"
  by (simp add: int_str_def)

lemma py_strip_id: "\<forall>c \<in> set s. \<not> is_space c \<Longrightarrow> py_strip s = s"
proof -
  assume h: "\<forall>c \<in> set s. \<not> is_space c"
  have id: "dropWhile is_space t = t" if "set t \<subseteq> set s" for t
    using that h by (cases t) auto
  show ?thesis using id [of s] id [of "rev s"] by (simp add: py_strip_def)
qed

lemma py_int_int_str: "py_int (int_str k) = Some k"
proof -
  have "\<forall>c \<in> set (int_str k). \<not> is_space c"
  proof
    fix c assume "c \<in> set (int_str k)"
    then have "c = CHR ''-'' \<or> 48 \<le> (of_char c :: nat)" by (auto dest: int_str_chars)
    then show "\<not> is_space c" by (auto simp: is_space_def Let_def)
  qed
  then have strip: "py_strip (int_str k) = int_str k" by (rule py_strip_id)
  have dv: "digits_value 0 False (digits n) = Some n" for n
    using digits_value_digits [of 0 False n "[]"] by simp
  show ?thesis
  proof (cases "k < 0")
    case True
    then show ?thesis unfolding py_int_def strip by (simp add: int_str_def dv)
  next
    case False
    obtain c cs where d: "digits (nat k) = c # cs" by (cases "digits (nat k)") auto
    then have "48 \<le> (of_char c :: nat)" using digits_chars [of c "nat k"] by simp
    then have "c \<noteq> CHR ''-''" "c \<noteq> CHR ''+''" by auto
    then show ?thesis
      unfolding py_int_def strip using False dv [of "nat k"] by (simp add: int_str_def d)
  qed
qed

lemma int_str_plain: "c \<in> set (int_str k) \<Longrightarrow> c \<noteq> CHR ''='' \<and> c \<noteq> soh"
  by (auto simp: soh_def dest: int_str_chars)

lemma digits_plain: "c \<in> set (digits n) \<Longrightarrow> c \<noteq> CHR ''='' \<and> c \<noteq> soh \<and> (of_char c :: nat) < 128"
  by (auto simp: soh_def dest: digits_chars)

section \<open>Splitting what was joined\<close>

lemma split_on_not_Nil [simp]: "split_on c s \<noteq> []"
  by (induction s) (auto split: list.split)

lemma split_on_next: "c \<notin> set w \<Longrightarrow> split_on c (w @ c # rest) = w # split_on c rest"
  by (induction w) auto

lemma split_on_concat:
  "\<forall>p \<in> set ps. c \<notin> set p \<Longrightarrow> split_on c (concat (map (\<lambda>p. p @ [c]) ps)) = ps @ [[]]"
  by (induction ps) (simp_all add: split_on_next)

lemma soh_join_concat: "ps \<noteq> [] \<Longrightarrow> soh_join ps @ [soh] = concat (map (\<lambda>p. p @ [soh]) ps)"
  by (induction ps rule: soh_join.induct) simp_all

lemma ascii_decode_id: "is_ascii s \<Longrightarrow> ascii_decode s = s"
  by (induction s) (simp_all add: is_ascii_def ascii_decode_def)

lemma is_ascii_append [simp]: "is_ascii (s @ t) \<longleftrightarrow> is_ascii s \<and> is_ascii t"
  by (simp add: is_ascii_def)

lemma is_ascii_Cons [simp]: "is_ascii (c # s) \<longleftrightarrow> (of_char c :: nat) < 128 \<and> is_ascii s"
  by (simp add: is_ascii_def)

lemma is_ascii_Nil [simp]: "is_ascii []"
  by (simp add: is_ascii_def)

lemma is_ascii_digits: "is_ascii (digits n)" "is_ascii (pad3 n)"
  using digits_plain by (auto simp: is_ascii_def list_all_iff pad3_def)

lemma pad3_plain: "soh \<notin> set (pad3 n)"
  using digits_plain by (auto simp: pad3_def soh_def)

lemma add_part_field [simp]: "add_part (field_text f) d = AList.update (fst f) (snd f) d"
proof -
  have "\<forall>c \<in> set (int_str (fst f)). c \<noteq> CHR ''=''" using int_str_plain by blast
  then have "partition_on (CHR ''='') (field_text f) = (int_str (fst f), snd f)"
    by (simp add: partition_on_def field_text_def)
  then show ?thesis by (simp add: add_part_def field_text_def py_int_int_str)
qed

lemma add_part_Nil [simp]: "add_part [] d = d"
  by (simp add: add_part_def)

lemma fold_update_nonempty: "d \<noteq> [] \<Longrightarrow> fold (\<lambda>(k, v) d. AList.update k v d) fs d \<noteq> []"
proof (induction fs arbitrary: d)
  case (Cons f fs)
  have "AList.update (fst f) (snd f) d \<noteq> []" by (cases d) simp_all
  with Cons.IH show ?case by (simp add: case_prod_beta)
qed simp

lemma fold_update_new:
  "distinct (map fst (d @ fs)) \<Longrightarrow> fold (\<lambda>f. AList.update (fst f) (snd f)) fs d = d @ fs"
  by (induction fs arbitrary: d) (auto simp: update_new)

lemma fold_add_parts:
  "fold add_part (map field_text fs) d = fold (\<lambda>f. AList.update (fst f) (snd f)) fs d"
  by (induction fs arbitrary: d) simp_all

text \<open>The message's own fields, and all the fields of its body, in their order.\<close>

definition own_fields :: "fix_message \<Rightarrow> (int \<times> string) list" where
  "own_fields m = filter (\<lambda>f. fst f \<notin> set header_tags) (fm_fields m)"

definition std_fields :: "fix_message \<Rightarrow> string \<Rightarrow> string \<Rightarrow> int \<Rightarrow> string \<Rightarrow> (int \<times> string) list" where
  "std_fields m sender target n now_utc =
     [(35, fm_type m), (49, sender), (56, target), (34, int_str n), (52, now_utc)]"

lemma fix_body_fields:
  assumes "distinct (map fst (fm_fields m))"
  shows "fix_body m sender target n now_utc = std_fields m sender target n now_utc @ own_fields m"
proof -
  have "distinct (map fst (std_fields m sender target n now_utc @ own_fields m))"
    using assms by (auto simp: std_fields_def own_fields_def header_tags_def distinct_map_filter)
  from fold_update_new [OF this] show ?thesis
    by (simp add: fix_body_def std_fields_def own_fields_def case_prod_beta')
qed

lemma body_fields_distinct:
  assumes "distinct (map fst (fm_fields m))"
  shows "distinct (map fst ((8, a) # (9, b) # fix_body m sender target n now_utc @ [(10, c)]))"
  using assms
  by (auto simp: fix_body_fields std_fields_def own_fields_def header_tags_def distinct_map_filter)

text \<open>The whole message is the concatenation of its fields, each closed by the separator.\<close>

lemma fix_encode_fields:
  assumes "fix_encode m sender target n now_utc = Some w"
  obtains len ck where
    "len = length (concat (map (\<lambda>f. field_text f @ [soh]) (fix_body m sender target n now_utc)))"
    and "ck = checksum (concat (map (\<lambda>f. field_text f @ [soh])
           ((8, ''FIX.4.4'') # (9, digits len) # fix_body m sender target n now_utc)))"
    and "w = concat (map (\<lambda>f. field_text f @ [soh])
           ((8, ''FIX.4.4'') # (9, digits len) # fix_body m sender target n now_utc @ [(10, pad3 ck)]))"
    and "is_ascii w"
proof -
  let ?b = "fix_body m sender target n now_utc"
  have ne: "map field_text ?b \<noteq> []"
    by (simp add: fix_body_def fold_update_nonempty)
  have j: "soh_join (map field_text ?b) @ [soh] = concat (map (\<lambda>f. field_text f @ [soh]) ?b)"
    by (simp add: soh_join_concat [OF ne] comp_def)
  have num: "int_str 8 = ''8''" "int_str 9 = ''9''" "int_str 10 = ''10''"
    by (simp_all add: int_str_def digits.simps char_of_def bit_0)
  from assms have a: "is_ascii (concat (map (\<lambda>f. field_text f @ [soh]) ?b))"
    by (simp only: fix_encode_def j Let_def option.distinct simp_thms split: if_splits)
  let ?len = "length (concat (map (\<lambda>f. field_text f @ [soh]) ?b))"
  let ?ck = "checksum (concat (map (\<lambda>f. field_text f @ [soh])
      ((8, ''FIX.4.4'') # (9, digits ?len) # ?b)))"
  have w: "w = concat (map (\<lambda>f. field_text f @ [soh])
      ((8, ''FIX.4.4'') # (9, digits ?len) # ?b @ [(10, pad3 ?ck)]))"
    using assms a unfolding fix_encode_def j Let_def
    by (auto simp: field_text_def num simp del: length_concat)
  have "is_ascii w"
    unfolding w using a by (simp add: field_text_def num is_ascii_digits) (simp add: soh_def)
  with w show thesis by (rule that [OF refl refl])
qed

section \<open>Finding the end of a message\<close>

lemma prefix_before: "prefix pat (xs @ c # ys) \<Longrightarrow> c \<notin> set pat \<Longrightarrow> prefix pat xs"
  by (auto simp: prefix_append prefix_Cons)

lemma find_sub_skip:
  assumes "c \<notin> set pat" and "pat \<noteq> []" and "\<not> sublist pat xs"
  shows "find_sub pat (xs @ c # ys) = map_option (\<lambda>i. length xs + 1 + i) (find_sub pat ys)"
  using assms(3)
proof (induction xs)
  case Nil
  with assms(1,2) show ?case by (cases pat) (auto simp: comp_def)
next
  case (Cons x xs)
  then have "\<not> prefix pat ((x # xs) @ c # ys)"
    using prefix_before [OF _ assms(1)] prefix_imp_sublist by blast
  moreover have "\<not> sublist pat xs" using Cons.prems by (simp add: sublist_Cons_right)
  ultimately show ?case using Cons.IH by (simp add: option.map_comp comp_def)
qed

lemma find_sub_bound: "find_sub pat s = Some i \<Longrightarrow> i + length pat \<le> length s"
  by (induction s arbitrary: i) (auto split: if_splits dest: prefix_length_le)

lemma find_sub_append: "find_sub pat s = Some i \<Longrightarrow> find_sub pat (s @ t) = Some i"
proof (induction s arbitrary: i)
  case Nil
  then show ?case by (cases t) (auto split: if_splits)
next
  case (Cons c s)
  show ?case
  proof (cases "prefix pat (c # s)")
    case True
    with Cons.prems prefix_prefix [OF True, of t] show ?thesis by simp
  next
    case False
    with Cons.prems obtain k where k: "find_sub pat s = Some k" "i = Suc k" by auto
    have "\<not> prefix pat ((c # s) @ t)"
      using False find_sub_bound [OF k(1)] prefix_length_prefix [of pat "(c # s) @ t" "c # s"]
      by auto
    with Cons.IH [OF k(1)] k(2) show ?thesis by simp
  qed
qed

lemma take_frame_append:
  assumes "take_frame buf = Some (f, rest)"
  shows "take_frame (buf @ ext) = Some (f, rest @ ext)"
proof -
  obtain i where i: "find_sub ''10='' buf = Some i" "soh \<in> set (drop i buf)"
    using assms by (auto simp: take_frame_def split: option.splits if_splits)
  let ?e = "i + length (takeWhile (\<lambda>x. x \<noteq> soh) (drop i buf))"
  have b: "i \<le> length buf" using find_sub_bound [OF i(1)] by simp
  have tw: "takeWhile (\<lambda>x. x \<noteq> soh) (drop i (buf @ ext)) = takeWhile (\<lambda>x. x \<noteq> soh) (drop i buf)"
    using i(2) b by (simp add: takeWhile_append1)
  have "length (takeWhile (\<lambda>x. x \<noteq> soh) (drop i buf)) < length (drop i buf)"
    using i(2) by (metis (full_types) length_takeWhile_le nth_length_takeWhile order_le_less
        set_takeWhileD takeWhile_eq_take take_all_iff order_refl)
  then have e: "?e + 1 \<le> length buf" using b by simp
  have "soh \<in> set (drop i (buf @ ext))" using i(2) b by simp
  with assms i tw e show ?thesis
    by (auto simp: take_frame_def find_sub_append Let_def)
qed

lemma frames_append:
  "frames (a @ b) = (fst (frames a) @ fst (frames (snd (frames a) @ b)), snd (frames (snd (frames a) @ b)))"
proof (induction a rule: frames.induct)
  case (1 a)
  show ?case
  proof (cases "take_frame a")
    case None
    then show ?thesis by (simp add: frames.simps [of a])
  next
    case (Some p)
    obtain f rest where p: "p = (f, rest)" by (cases p)
    have "frames (rest @ b) =
        (fst (frames rest) @ fst (frames (snd (frames rest) @ b)), snd (frames (snd (frames rest) @ b)))"
      using 1 [OF Some] p by simp
    then show ?thesis
      using take_frame_append [of a f rest b] Some p
      by (simp add: frames.simps [of a] frames.simps [of "a @ b"] case_prod_beta)
  qed
qed

lemma frames_left: "frames (snd (frames a)) = ([], snd (frames a))"
proof (induction a rule: frames.induct)
  case (1 a)
  show ?case
  proof (cases "take_frame a")
    case None
    then show ?thesis by (simp add: frames.simps [of a])
  next
    case (Some p)
    with 1 show ?thesis by (cases p) (simp add: frames.simps [of a] case_prod_beta)
  qed
qed

text \<open>How the stream is cut into chunks does not matter.\<close>

lemma read_chunks_concat:
  "frames left = ([], left) \<Longrightarrow> read_chunks left chunks = frames (left @ concat chunks)"
proof (induction chunks arbitrary: left)
  case (Cons chunk chunks)
  have "read_chunks (snd (frames (left @ chunk))) chunks =
      frames (snd (frames (left @ chunk)) @ concat chunks)"
    by (rule Cons.IH [OF frames_left])
  then show ?case
    using frames_append [of "left @ chunk" "concat chunks"] by (simp add: case_prod_beta)
qed simp

lemma frames_Nil [simp]: "frames [] = ([], [])"
  by (simp add: frames.simps take_frame_def)

definition clean_field :: "int \<times> string \<Rightarrow> bool" where
  "clean_field f \<longleftrightarrow> \<not> py_in ''10='' (field_text f)"

lemma clean_length_field: "clean_field (9, digits n)"
proof -
  have "int_str 9 = ''9''" by (simp add: int_str_def digits.simps char_of_def bit_0)
  moreover have "\<not> sublist ''10='' (digits n)"
    using set_mono_sublist [of "''10=''" "digits n"] digits_plain by fastforce
  ultimately show ?thesis
    by (simp add: clean_field_def py_in_iff_sublist field_text_def sublist_Cons_right)
qed

lemma clean_begin_field: "clean_field (8, ''FIX.4.4'')"
  by (simp add: clean_field_def field_text_def int_str_def digits.simps char_of_def bit_0)

lemma find_trailer:
  "\<forall>f \<in> set fs. clean_field f \<Longrightarrow>
   find_sub ''10='' (concat (map (\<lambda>f. field_text f @ [soh]) fs) @ ''10='' @ rest) =
     Some (length (concat (map (\<lambda>f. field_text f @ [soh]) fs)))"
proof (induction fs)
  case (Cons f fs)
  then have "\<not> sublist ''10='' (field_text f)" by (simp add: clean_field_def py_in_iff_sublist)
  then show ?case
    using Cons find_sub_skip [of soh "''10=''" "field_text f"] by (simp add: soh_def)
qed simp

lemma take_frame_message:
  assumes enc: "fix_encode m sender target n now_utc = Some w"
    and clean: "\<forall>f \<in> set (fix_body m sender target n now_utc). clean_field f"
  shows "take_frame (w @ rest) = Some (w, rest)"
proof -
  from enc obtain len ck where w: "w = concat (map (\<lambda>f. field_text f @ [soh])
      ((8, ''FIX.4.4'') # (9, digits len) # fix_body m sender target n now_utc @ [(10, pad3 ck)]))"
    by (rule fix_encode_fields)
  define xs where "xs = concat (map (\<lambda>f. field_text f @ [soh])
      ((8, ''FIX.4.4'') # (9, digits len) # fix_body m sender target n now_utc))"
  have "int_str 10 = ''10''" by (simp add: int_str_def digits.simps char_of_def bit_0)
  then have w': "w = xs @ ''10='' @ pad3 ck @ [soh]"
    unfolding w xs_def by (simp add: field_text_def [of "(10, _)"])
  have i: "find_sub ''10='' (w @ rest) = Some (length xs)"
    unfolding w' using find_trailer [of "(8, ''FIX.4.4'') # (9, digits len) # fix_body m sender target n now_utc"]
      clean clean_begin_field clean_length_field by (simp add: xs_def)
  have tw: "takeWhile (\<lambda>x. x \<noteq> soh) (''10='' @ pad3 ck @ soh # rest) = ''10='' @ pad3 ck"
    using takeWhile_append2 [of "''10='' @ pad3 ck" "\<lambda>x. x \<noteq> soh" "soh # rest"]
      pad3_plain [of ck] by (fastforce simp: soh_def)
  have d: "drop (length xs) (w @ rest) = ''10='' @ pad3 ck @ soh # rest" by (simp add: w')
  have e: "length xs + length (takeWhile (\<lambda>x. x \<noteq> soh) (drop (length xs) (w @ rest))) + 1 = length w"
    unfolding d tw by (simp add: w')
  have "soh \<in> set (drop (length xs) (w @ rest))" unfolding d by simp
  then show ?thesis
    unfolding take_frame_def i option.case Let_def e by simp
qed

lemma frames_messages:
  assumes "list_all2 (\<lambda>(m, n, now_utc) w. fix_encode m sender target n now_utc = Some w) ms ws"
    and "\<forall>(m, n, now_utc) \<in> set ms. \<forall>f \<in> set (fix_body m sender target n now_utc). clean_field f"
  shows "frames (concat ws) = (ws, [])"
  using assms
proof (induction rule: list_all2_induct)
  case (Cons x xs w ws)
  obtain m n now_utc where x: "x = (m, n, now_utc)" by (cases x)
  have "take_frame (w @ concat ws) = Some (w, concat ws)"
    using Cons by (intro take_frame_message [of m sender target n now_utc]) (auto simp: x)
  with Cons show ?case by (simp add: frames.simps [of "w @ concat ws"])
qed simp

text \<open>Decoding the fields of a message gives back the fields.\<close>

lemma fix_decode_fields:
  assumes "is_ascii w" and "w = concat (map (\<lambda>f. field_text f @ [soh]) fs)"
    and "distinct (map fst fs)" and "\<forall>f \<in> set fs. soh \<notin> set (snd f)"
  shows "fm_fields (fix_decode w) = fs"
    and "fm_type (fix_decode w) = (case map_of fs 35 of None \<Rightarrow> [] | Some v \<Rightarrow> v)"
proof -
  have "\<forall>p \<in> set (map field_text fs). soh \<notin> set p"
    using assms(4) int_str_plain by (auto simp: field_text_def soh_def)
  from split_on_concat [OF this] have "split_on soh (ascii_decode w) = map field_text fs @ [[]]"
    unfolding ascii_decode_id [OF assms(1)] by (simp add: assms(2) comp_def)
  then have "fold add_part (split_on soh (ascii_decode w)) [] = fs"
    using fold_update_new [of "[]" fs] assms(3)
    by (simp only: fold_append comp_def fold_add_parts fold.simps add_part_Nil append_Nil id_apply)
  then show "fm_fields (fix_decode w) = fs"
    and "fm_type (fix_decode w) = (case map_of fs 35 of None \<Rightarrow> [] | Some v \<Rightarrow> v)"
    by (simp_all add: fix_decode_def)
qed

lemma fix_decode_encode:
  assumes "fix_encode m sender target n now_utc = Some w"
    and "distinct (map fst (fm_fields m))"
    and "\<forall>t \<in> set ([fm_type m, sender, target, now_utc] @ map snd (fm_fields m)). soh \<notin> set t"
  obtains head body ck where
    "fix_decode w = \<lparr>fm_type = fm_type m,
       fm_fields = [(8, ''FIX.4.4''), (9, digits (length body))] @
         std_fields m sender target n now_utc @ own_fields m @ [(10, pad3 ck)]\<rparr>"
    and "w = head @ body @ ''10='' @ pad3 ck @ [soh]"
    and "head = ''8=FIX.4.4'' @ [soh] @ ''9='' @ digits (length body) @ [soh]"
    and "ck = sum_list (map of_char (head @ body)) mod 256"
proof -
  let ?b = "fix_body m sender target n now_utc"
  let ?cat = "\<lambda>fs. concat (map (\<lambda>f. field_text f @ [soh]) fs)"
  from assms(1) obtain len ck where len: "len = length (?cat ?b)"
    and ck: "ck = checksum (?cat ((8, ''FIX.4.4'') # (9, digits len) # ?b))"
    and w: "w = ?cat ((8, ''FIX.4.4'') # (9, digits len) # ?b @ [(10, pad3 ck)])"
    and asc: "is_ascii w"
    by (rule fix_encode_fields)
  let ?fs = "(8, ''FIX.4.4'') # (9, digits len) # ?b @ [(10, pad3 ck)]"
  have plain: "\<forall>f \<in> set ?fs. soh \<notin> set (snd f)"
    using assms(3) int_str_plain digits_plain pad3_plain
    by (auto simp: fix_body_fields [OF assms(2)] std_fields_def own_fields_def soh_def)
  note dec = fix_decode_fields [OF asc w body_fields_distinct [OF assms(2)] plain]
  have num: "int_str 8 = ''8''" "int_str 9 = ''9''" "int_str 10 = ''10''"
    by (simp_all add: int_str_def digits.simps char_of_def bit_0)
  show thesis
  proof (rule that [of "?cat ?b" ck "?cat [(8, ''FIX.4.4''), (9, digits len)]"])
    have "fm_type (fix_decode w) = fm_type m"
      unfolding dec(2) by (simp add: fix_body_fields [OF assms(2)] std_fields_def)
    then show "fix_decode w = \<lparr>fm_type = fm_type m,
       fm_fields = [(8, ''FIX.4.4''), (9, digits (length (?cat ?b)))] @
         std_fields m sender target n now_utc @ own_fields m @ [(10, pad3 ck)]\<rparr>"
      using dec(1) len by (simp add: fix_body_fields [OF assms(2)])
    show "w = ?cat [(8, ''FIX.4.4''), (9, digits len)] @ ?cat ?b @ ''10='' @ pad3 ck @ [soh]"
      unfolding w by (simp add: field_text_def [of "(10, _)"] num)
    show "?cat [(8, ''FIX.4.4''), (9, digits len)] =
        ''8=FIX.4.4'' @ [soh] @ ''9='' @ digits (length (?cat ?b)) @ [soh]"
      unfolding len by (simp add: field_text_def [of "(8, _)"] field_text_def [of "(9, _)"] num)
    show "ck = sum_list (map of_char (?cat [(8, ''FIX.4.4''), (9, digits len)] @ ?cat ?b)) mod 256"
      unfolding ck checksum_def by simp
  qed
qed

section \<open>Properties\<close>

text \<open>C25. Round trip: decoding an encoded message, whose texts are free of the separator, gives
  back its type and, in this order, the begin string, the length of the body, the standard
  fields of the sender, the message's own fields as they were, and the checksum; the length
  and the checksum are those of the bytes around them.\<close>

theorem fix_round_trip:
  assumes "fix_encode m sender target n now_utc = Some w"
    and "distinct (map fst (fm_fields m))"
    and "\<forall>t \<in> set ([fm_type m, sender, target, now_utc] @ map snd (fm_fields m)). soh \<notin> set t"
  shows "\<exists>head body ck.
    fix_decode w = \<lparr>fm_type = fm_type m,
      fm_fields = [(8, ''FIX.4.4''), (9, digits (length body)), (35, fm_type m), (49, sender),
                   (56, target), (34, int_str n), (52, now_utc)] @ own_fields m @ [(10, pad3 ck)]\<rparr> \<and>
    w = head @ body @ ''10='' @ pad3 ck @ [soh] \<and>
    head = ''8=FIX.4.4'' @ [soh] @ ''9='' @ digits (length body) @ [soh] \<and>
    ck = sum_list (map of_char (head @ body)) mod 256"
  using fix_decode_encode [OF assms] by (metis std_fields_def append_Cons append_Nil)


definition fix_example :: fix_message where
  "fix_example = fix_set 54 ''1'' (fix_set 55 ''AB'' (fix_new ''D''))"

lemma fix_example_fields: "fix_example = \<lparr>fm_type = ''D'', fm_fields = [(55, ''AB''), (54, ''1'')]\<rparr>"
  by (simp add: fix_example_def fix_set_def fix_new_def)

lemma fix_example_body:
  "fix_body fix_example ''S'' ''T'' 7 ''t'' =
     [(35, ''D''), (49, ''S''), (56, ''T''), (34, int_str 7), (52, ''t''), (55, ''AB''), (54, ''1'')]"
  by (simp add: fix_example_fields fix_body_def header_tags_def)

lemma fix_example_encodes:
  "fix_encode fix_example ''S'' ''T'' 7 ''t'' = Some (the (fix_encode fix_example ''S'' ''T'' 7 ''t''))"
  "\<forall>f \<in> set (fix_body fix_example ''S'' ''T'' 7 ''t''). clean_field f"
  unfolding fix_example_body fix_encode_def by code_simp+

theorem fix_round_trip_witness:
  "fix_get (fix_decode (the (fix_encode fix_example ''S'' ''T'' 7 ''t''))) 55 = ''AB''"
  using fix_round_trip [OF fix_example_encodes(1)]
  by (auto simp: fix_example_fields soh_def own_fields_def header_tags_def fix_get_def)


text \<open>A field whose tag ends in 10 ends the message for the reader: this one arrives as two.\<close>

lemma tag_110_splits_message:
  "length (fst (frames (the (fix_encode (fix_set 110 ''1'' (fix_new ''D'')) ''S'' ''T'' 7 ''t'')))) = 2"
  by code_simp

end
