(* ===== verification/Fix_Session.thy ===== *)
theory Fix_Session
  imports Fix_Codec
begin

text \<open>
  The session of \<open>infrastructure/fix_connector.py\<close> (class \<open>FIXConnector\<close>): connecting with
  retries, logon and logout, sending with sequence numbers, the read loop with its dispatch,
  heartbeats, and the order messages. The network is the environment: an opened connection
  accepts what is written to it, a connection attempt succeeds, is refused or breaks before its
  logon is flushed, and the bytes that arrive are an argument. A coroutine is cut where it waits:
  for an acknowledgement, for the next chunk, for the next heartbeat; a \<open>stop\<close> that arrives in a
  sleep of the retry loop is part of the outcome of the attempt before it. Bytes written, callbacks called and tasks started
  are effects. The two callbacks do not raise. The clock texts and \<open>time_ns\<close> are arguments.
\<close>

section \<open>State\<close>

record fix_config =
  fc_sender :: string
  fc_target :: string
  fc_username :: string
  fc_password :: string
  fc_heartbeat_interval :: int
  fc_reconnect_delay :: pyfloat
  fc_max_attempts :: int
  fc_on_execution :: bool
  fc_on_market_data :: bool

text \<open>
  \<open>fx_pending\<close> maps an order id to whether its future is resolved; \<open>fx_heartbeats\<close> says of the
  heartbeat tasks, in the order of their creation, which are alive; \<open>fx_reading\<close> says that the
  latest read task is.
\<close>

record fix_session =
  fx_state :: fix_session_state
  fx_seq_out :: int
  fx_seq_in :: int
  fx_writer :: bool
  fx_reading :: bool
  fx_buffer :: string
  fx_heartbeats :: "bool list"
  fx_running :: bool
  fx_attempts :: int
  fx_pending :: "string \<rightharpoonup> bool"

datatype fix_error = Not_Connected | Refused | Broken | Encode_Error | Future_Done

datatype fix_effect =
    Wrote int fix_message
  | Called_Execution fix_message
  | Called_Market_Data fix_message
  | Slept pyfloat
  | Gave_Up
  | Schedule_Reconnect

type_synonym fix_result = "fix_session \<times> fix_effect list \<times> fix_error option"

definition fix_init :: fix_session where
  "fix_init = \<lparr>fx_state = FX_DISCONNECTED, fx_seq_out = 1, fx_seq_in = 1, fx_writer = False,
     fx_reading = False, fx_buffer = [], fx_heartbeats = [], fx_running = False,
     fx_attempts = 0, fx_pending = Map.empty\<rparr>"

section \<open>Sending\<close>

definition fix_send :: "fix_config \<Rightarrow> string \<Rightarrow> fix_message \<Rightarrow> fix_session \<Rightarrow> fix_result" where
  "fix_send cf now m s =
     (if \<not> fx_writer s then (s, [], Some Not_Connected)
      else
        (case fix_encode m (fc_sender cf) (fc_target cf) (fx_seq_out s) now of
           None \<Rightarrow> (s, [], Some Encode_Error)
         | Some w \<Rightarrow> (s\<lparr>fx_seq_out := fx_seq_out s + 1\<rparr>, [Wrote (fx_seq_out s) m], None)))"

definition logon_msg :: "fix_config \<Rightarrow> fix_message" where
  "logon_msg cf =
     (let m = fix_set 141 ''Y'' (fix_set 108 (int_str (fc_heartbeat_interval cf))
                (fix_set 98 (int_str 0) (fix_new (msg_type_value FM_LOGON))));
          m1 = (if fc_username cf \<noteq> [] then fix_set 553 (fc_username cf) m else m)
      in if fc_password cf \<noteq> [] then fix_set 554 (fc_password cf) m1 else m1)"

definition send_logon :: "fix_config \<Rightarrow> string \<Rightarrow> fix_session \<Rightarrow> fix_result" where
  "send_logon cf now s = fix_send cf now (logon_msg cf) s"

definition send_logout :: "fix_config \<Rightarrow> string \<Rightarrow> string \<Rightarrow> fix_session \<Rightarrow> fix_result" where
  "send_logout cf now why s =
     (let m = fix_new (msg_type_value FM_LOGOUT);
          m1 = (if why \<noteq> [] then fix_set 58 why m else m)
      in fix_send cf now m1 (s\<lparr>fx_state := FX_LOGOUT_PENDING\<rparr>))"

section \<open>Connecting\<close>

text \<open>
  \<open>ok\<close> says whether the connection opens, \<open>drains\<close> whether the logon is flushed. The tasks of an earlier
  connection stay.
\<close>

definition fix_connect :: "fix_config \<Rightarrow> string \<Rightarrow> bool \<Rightarrow> bool \<Rightarrow> fix_session \<Rightarrow> fix_result" where
  "fix_connect cf now ok drains s =
     (let s1 = s\<lparr>fx_state := FX_CONNECTING\<rparr> in
      if \<not> ok then (s1, [], Some Refused)
      else
        (case send_logon cf now (s1\<lparr>fx_writer := True, fx_state := FX_LOGON_SENT\<rparr>) of
           (s2, out, Some e) \<Rightarrow> (s2, out, Some e)
         | (s2, out, None) \<Rightarrow>
             if \<not> drains then (s2, out, Some Broken)
             else
               (s2\<lparr>fx_reading := True, fx_buffer := [], fx_heartbeats := fx_heartbeats s2 @ [True]\<rparr>,
                out, None)))"

text \<open>
  \<open>stop\<close>: the latest tasks are cancelled, so of the heartbeat tasks one; the others end by
  themselves at their next turn, since \<open>_running\<close> is false.
\<close>

definition cancel_latest :: "bool list \<Rightarrow> bool list" where
  "cancel_latest bs = (if bs = [] then [] else butlast bs @ [False])"

definition fix_stop :: "fix_config \<Rightarrow> string \<Rightarrow> fix_session \<Rightarrow> fix_result" where
  "fix_stop cf now s =
     (let s1 = s\<lparr>fx_running := False\<rparr>;
          (s2, out, err) =
            (if fx_state s1 = FX_ACTIVE then send_logout cf now ''Session stopping'' s1
             else (s1, [], None))
      in case err of
           Some e \<Rightarrow> (s2, out, Some e)
         | None \<Rightarrow>
             (s2\<lparr>fx_reading := False, fx_heartbeats := cancel_latest (fx_heartbeats s2), fx_writer := False,
                 fx_state := FX_DISCONNECTED\<rparr>, out, None))"

text \<open>
  What the environment does in a turn of the retry loop: whether the connection opens and takes the
  logon, the time of the logon, and, when a \<open>stop\<close> arrives during the sleep after a failure, the time of
  its logout.
\<close>

record fix_attempt =
  fa_opens :: bool
  fa_drains :: bool
  fa_now :: string
  fa_stop :: "string option"

text \<open>
  The retry loop over the outcomes of its attempts; a list that ends early is a loop that still waits.
  The loop asks for \<open>_running\<close> again after each sleep.
\<close>

fun connect_with_retry ::
  "fix_config \<Rightarrow> pyfloat \<Rightarrow> fix_attempt list \<Rightarrow> fix_session \<Rightarrow> fix_result" where
  "connect_with_retry cf delay [] s =
     (if fx_running s \<and> fx_attempts s < fc_max_attempts cf then (s, [], None)
      else (s, [Gave_Up], None))"
| "connect_with_retry cf delay (a # rest) s =
     (if fx_running s \<and> fx_attempts s < fc_max_attempts cf
      then
        (case fix_connect cf (fa_now a) (fa_opens a) (fa_drains a) s of
           (s1, out, None) \<Rightarrow> (s1\<lparr>fx_attempts := 0\<rparr>, out, None)
         | (s1, out, Some e) \<Rightarrow>
             if e = Refused \<or> e = Not_Connected \<or> e = Broken
             then
               (let s2 = s1\<lparr>fx_attempts := fx_attempts s1 + 1\<rparr>;
                    stopped = (case fa_stop a of None \<Rightarrow> (s2, [], None) | Some t \<Rightarrow> fix_stop cf t s2)
                in case connect_with_retry cf (min (delay * 2) 60) rest (fst stopped) of
                     (s4, out2, e2) \<Rightarrow> (s4, out @ [Slept delay] @ fst (snd stopped) @ out2, e2))
             else (s1, out, Some e))
      else (s, [Gave_Up], None))"

definition fix_start :: "fix_config \<Rightarrow> fix_attempt list \<Rightarrow> fix_session \<Rightarrow> fix_result" where
  "fix_start cf outcomes s =
     connect_with_retry cf (fc_reconnect_delay cf) outcomes (s\<lparr>fx_running := True\<rparr>)"

text \<open>The scheduled reconnect is the same loop on a session that is still running.\<close>

definition fix_reconnect :: "fix_config \<Rightarrow> fix_attempt list \<Rightarrow> fix_session \<Rightarrow> fix_result" where
  "fix_reconnect cf outcomes s = connect_with_retry cf (fc_reconnect_delay cf) outcomes s"

section \<open>Receiving\<close>

definition fix_dispatch :: "fix_config \<Rightarrow> fix_message \<Rightarrow> fix_session \<Rightarrow> fix_result" where
  "fix_dispatch cf m s =
     (let s1 = s\<lparr>fx_seq_in := fx_seq_in s + 1\<rparr>; mtype = fm_type m in
      if mtype = msg_type_value FM_LOGON then (s1\<lparr>fx_state := FX_ACTIVE\<rparr>, [], None)
      else if mtype = msg_type_value FM_HEARTBEAT then (s1, [], None)
      else if mtype = msg_type_value FM_LOGOUT then (s1\<lparr>fx_state := FX_DISCONNECTED\<rparr>, [], None)
      else if mtype = msg_type_value FM_EXECUTION_REPORT
      then
        let cl_ord_id = fix_get m 11;
            called = (if fc_on_execution cf then [Called_Execution m] else [])
        in (case fx_pending s1 cl_ord_id of
              Some True \<Rightarrow> (s1, [], Some Future_Done)
            | Some False \<Rightarrow> (s1\<lparr>fx_pending := (fx_pending s1)(cl_ord_id \<mapsto> True)\<rparr>, called, None)
            | None \<Rightarrow> (s1, called, None))
      else if mtype = msg_type_value FM_MARKET_DATA_SNAPSHOT \<or>
              mtype = msg_type_value FM_MARKET_DATA_INCREMENTAL
      then (s1, if fc_on_market_data cf then [Called_Market_Data m] else [], None)
      else (s1, [], None))"

fun dispatch_all :: "fix_config \<Rightarrow> string list \<Rightarrow> fix_session \<Rightarrow> fix_result" where
  "dispatch_all cf [] s = (s, [], None)"
| "dispatch_all cf (f # fs) s =
     (case fix_dispatch cf (fix_decode f) s of
        (s1, out, Some e) \<Rightarrow> (s1, out, Some e)
      | (s1, out, None) \<Rightarrow>
          (case dispatch_all cf fs s1 of (s2, out2, e) \<Rightarrow> (s2, out @ out2, e)))"

text \<open>The \<open>finally\<close> clause of the read loop.\<close>

definition connection_lost :: "fix_session \<Rightarrow> fix_session \<times> fix_effect list" where
  "connection_lost s =
     (if fx_running s
      then (s\<lparr>fx_reading := False, fx_state := FX_DISCONNECTED\<rparr>, [Schedule_Reconnect])
      else (s\<lparr>fx_reading := False\<rparr>, []))"

text \<open>One turn of the read loop with the chunk that arrived; the empty chunk is the end of the stream.\<close>

definition read_turn :: "fix_config \<Rightarrow> string \<Rightarrow> fix_session \<Rightarrow> fix_session \<times> fix_effect list" where
  "read_turn cf chunk s =
     (if \<not> fx_reading s then (s, [])
      else if chunk = [] then connection_lost s
      else
        let (fs, left) = frames (fx_buffer s @ chunk);
            (s1, out, err) = dispatch_all cf fs (s\<lparr>fx_buffer := left\<rparr>)
        in if err \<noteq> None \<or> \<not> fx_running s1
           then let (s2, out2) = connection_lost s1 in (s2, out @ out2)
           else (s1, out))"

text \<open>The heartbeat task at position \<open>i\<close> wakes up.\<close>

definition heartbeat_turn ::
  "fix_config \<Rightarrow> string \<Rightarrow> nat \<Rightarrow> fix_session \<Rightarrow> fix_session \<times> fix_effect list" where
  "heartbeat_turn cf now i s =
     (if length (fx_heartbeats s) \<le> i \<or> \<not> fx_heartbeats s ! i then (s, [])
      else
        let (s1, out, err) =
              (if fx_state s = FX_ACTIVE
               then fix_send cf now (fix_new (msg_type_value FM_HEARTBEAT)) s else (s, [], None))
        in (if err \<noteq> None \<or> \<not> fx_running s1
            then s1\<lparr>fx_heartbeats := (fx_heartbeats s1)[i := False]\<rparr> else s1, out))"

section \<open>Orders\<close>

fun side_tag :: "order_side \<Rightarrow> string" where
  "side_tag BUY = ''1''"
| "side_tag SELL = ''2''"
| "side_tag SELL_SHORT = ''5''"
| "side_tag BUY_TO_COVER = ''1''"

fun tif_tag :: "time_in_force \<Rightarrow> string" where
  "tif_tag TIF_DAY = ''0''"
| "tif_tag TIF_GTC = ''1''"
| "tif_tag TIF_IOC = ''3''"
| "tif_tag TIF_FOK = ''4''"

text \<open>\<open>f"{x:.4f}"\<close>.\<close>

definition pad4 :: "nat \<Rightarrow> string" where
  "pad4 n = replicate (4 - length (digits n)) (CHR ''0'') @ digits n"

definition fmt4 :: "pyfloat \<Rightarrow> string" where
  "fmt4 x =
     (let n = nat (round_half_even (\<bar>x\<bar> * 10000))
      in (if x < 0 then ''-'' else []) @ digits (n div 10000) @ ''.'' @ pad4 (n mod 10000))"

definition make_cl_ord_id :: "fix_config \<Rightarrow> int \<Rightarrow> string" where
  "make_cl_ord_id cf time_ns = fc_sender cf @ ''-'' @ int_str time_ns"

definition new_order_msg ::
  "string \<Rightarrow> string \<Rightarrow> symbol \<Rightarrow> order_side \<Rightarrow> pyfloat \<Rightarrow> pyfloat option \<Rightarrow> string
   \<Rightarrow> time_in_force \<Rightarrow> string \<Rightarrow> pyfloat option \<Rightarrow> fix_message" where
  "new_order_msg cl_ord_id now sy side qty price order_type tif account stop_price =
     (let m = fix_set 59 (tif_tag tif) (fix_set 40 order_type (fix_set 38 (int_str (py_trunc qty))
                (fix_set 60 now (fix_set 54 (side_tag side) (fix_set 55 sy (fix_set 21 (int_str 1)
                (fix_set 11 cl_ord_id (fix_new (msg_type_value FM_NEW_ORDER_SINGLE)))))))));
          m1 = (case price of None \<Rightarrow> m | Some p \<Rightarrow> fix_set 44 (fmt4 p) m);
          m2 = (case stop_price of None \<Rightarrow> m1 | Some p \<Rightarrow> fix_set 99 (fmt4 p) m1)
      in if account \<noteq> [] then fix_set 1 account m2 else m2)"

text \<open>\<open>new_order\<close> up to its wait; and the end of the wait, by an acknowledgement or after 5 s.\<close>

definition new_order ::
  "fix_config \<Rightarrow> string \<Rightarrow> int \<Rightarrow> symbol \<Rightarrow> order_side \<Rightarrow> pyfloat \<Rightarrow> pyfloat option \<Rightarrow> string
   \<Rightarrow> time_in_force \<Rightarrow> string \<Rightarrow> pyfloat option \<Rightarrow> fix_session \<Rightarrow> fix_result" where
  "new_order cf now time_ns sy side qty price order_type tif account stop_price s =
     (let cl_ord_id = make_cl_ord_id cf time_ns
      in fix_send cf now
           (new_order_msg cl_ord_id now sy side qty price order_type tif account stop_price)
           (s\<lparr>fx_pending := (fx_pending s)(cl_ord_id \<mapsto> False)\<rparr>))"

definition order_wait_over :: "string \<Rightarrow> fix_session \<Rightarrow> fix_session" where
  "order_wait_over cl_ord_id s = s\<lparr>fx_pending := (fx_pending s)(cl_ord_id := None)\<rparr>"

definition fix_cancel_order ::
  "fix_config \<Rightarrow> string \<Rightarrow> int \<Rightarrow> string \<Rightarrow> symbol \<Rightarrow> order_side \<Rightarrow> pyfloat \<Rightarrow> fix_session \<Rightarrow> fix_result"
where
  "fix_cancel_order cf now time_ns orig sy side qty s =
     (let m = fix_set 60 now (fix_set 54 (side_tag side) (fix_set 55 sy
                (fix_set 11 (make_cl_ord_id cf time_ns) (fix_set 41 orig
                (fix_new (msg_type_value FM_ORDER_CANCEL_REQUEST))))))
      in fix_send cf now (if 0 < qty then fix_set 38 (int_str (py_trunc qty)) m else m) s)"

definition fix_cancel_replace ::
  "fix_config \<Rightarrow> string \<Rightarrow> int \<Rightarrow> string \<Rightarrow> symbol \<Rightarrow> order_side \<Rightarrow> pyfloat \<Rightarrow> pyfloat
   \<Rightarrow> fix_session \<Rightarrow> fix_result" where
  "fix_cancel_replace cf now time_ns orig sy side new_qty new_price s =
     fix_send cf now
       (fix_set 60 now (fix_set 40 (int_str 2) (fix_set 44 (fmt4 new_price)
         (fix_set 38 (int_str (py_trunc new_qty)) (fix_set 54 (side_tag side) (fix_set 55 sy
         (fix_set 11 (make_cl_ord_id cf time_ns) (fix_set 41 orig
         (fix_new (msg_type_value FM_ORDER_CANCEL_REPLACE)))))))))) s"

definition mass_cancel :: "fix_config \<Rightarrow> string \<Rightarrow> int \<Rightarrow> symbol \<Rightarrow> fix_session \<Rightarrow> fix_result" where
  "mass_cancel cf now time_ns sy s =
     (let m = fix_set 530 (int_str (if sy = [] then 7 else 1))
                (fix_set 11 (make_cl_ord_id cf time_ns) (fix_new ''q''))
      in fix_send cf now (fix_set 60 now (if sy \<noteq> [] then fix_set 55 sy m else m)) s)"

text \<open>The subscription sets tag 269 three times and tag 55 once for each symbol.\<close>

definition market_data_msg :: "string \<Rightarrow> symbol list \<Rightarrow> int \<Rightarrow> fix_message" where
  "market_data_msg req_id symbols depth =
     fold (fix_set 55) symbols
       (fix_set 146 (int_str (int (length symbols))) (fix_set 269 (int_str 2) (fix_set 269 (int_str 1)
         (fix_set 269 (int_str 0) (fix_set 267 (int_str 3) (fix_set 265 (int_str 1)
         (fix_set 264 (int_str depth) (fix_set 263 (int_str 1) (fix_set 262 req_id
         (fix_new (msg_type_value FM_MARKET_DATA_REQUEST)))))))))))"

definition subscribe_market_data ::
  "fix_config \<Rightarrow> string \<Rightarrow> int \<Rightarrow> symbol list \<Rightarrow> int \<Rightarrow> fix_session \<Rightarrow> fix_result" where
  "subscribe_market_data cf now time_ns symbols depth s =
     fix_send cf now (market_data_msg (make_cl_ord_id cf time_ns) symbols depth) s"

section \<open>Runs\<close>

datatype fix_event =
    Fx_Start "fix_attempt list"
  | Fx_Reconnect "fix_attempt list"
  | Fx_Stop string
  | Fx_Reset
  | Fx_Chunk string
  | Fx_Heartbeat string nat
  | Fx_New_Order string int symbol order_side pyfloat "pyfloat option" string time_in_force
      string "pyfloat option"
  | Fx_Order_Over string
  | Fx_Cancel string int string symbol order_side pyfloat
  | Fx_Replace string int string symbol order_side pyfloat pyfloat
  | Fx_Mass_Cancel string int symbol
  | Fx_Subscribe string int "symbol list" int

definition drop_error :: "fix_result \<Rightarrow> fix_session \<times> fix_effect list" where
  "drop_error r = (fst r, fst (snd r))"

text \<open>An exception goes to the caller of the operation; the connection's end is the network's.\<close>

fun fix_event_step ::
  "fix_config \<Rightarrow> fix_session \<Rightarrow> fix_event \<Rightarrow> fix_session \<times> fix_effect list" where
  "fix_event_step cf s (Fx_Start outcomes) = drop_error (fix_start cf outcomes s)"
| "fix_event_step cf s (Fx_Reconnect outcomes) = drop_error (fix_reconnect cf outcomes s)"
| "fix_event_step cf s (Fx_Stop now) = drop_error (fix_stop cf now s)"
| "fix_event_step cf s Fx_Reset = (s\<lparr>fx_writer := False\<rparr>, [])"
| "fix_event_step cf s (Fx_Chunk chunk) = read_turn cf chunk s"
| "fix_event_step cf s (Fx_Heartbeat now i) = heartbeat_turn cf now i s"
| "fix_event_step cf s (Fx_New_Order now t sy side qty price ty tif acct stp) =
     drop_error (new_order cf now t sy side qty price ty tif acct stp s)"
| "fix_event_step cf s (Fx_Order_Over oid) = (order_wait_over oid s, [])"
| "fix_event_step cf s (Fx_Cancel now t orig sy side qty) =
     drop_error (fix_cancel_order cf now t orig sy side qty s)"
| "fix_event_step cf s (Fx_Replace now t orig sy side qty price) =
     drop_error (fix_cancel_replace cf now t orig sy side qty price s)"
| "fix_event_step cf s (Fx_Mass_Cancel now t sy) = drop_error (mass_cancel cf now t sy s)"
| "fix_event_step cf s (Fx_Subscribe now t symbols depth) =
     drop_error (subscribe_market_data cf now t symbols depth s)"

definition fix_step :: "fix_config \<Rightarrow> fix_session \<Rightarrow> fix_event \<Rightarrow> fix_session" where
  "fix_step cf s ev = fst (fix_event_step cf s ev)"

fun fix_run :: "fix_config \<Rightarrow> fix_session \<Rightarrow> fix_event list \<Rightarrow> fix_effect list" where
  "fix_run cf s [] = []"
| "fix_run cf s (ev # evs) = snd (fix_event_step cf s ev) @ fix_run cf (fix_step cf s ev) evs"

fun written :: "fix_effect list \<Rightarrow> int list" where
  "written [] = []"
| "written (Wrote n m # out) = n # written out"
| "written (_ # out) = written out"

section \<open>Sequence numbers\<close>

lemma written_append [simp]: "written (a @ b) = written a @ written b"
  by (induction a rule: written.induct) simp_all

text \<open>An operation writes the numbers from the session's counter on, without a gap.\<close>

definition numbered :: "fix_session \<Rightarrow> fix_effect list \<Rightarrow> fix_session \<Rightarrow> bool" where
  "numbered s out s' \<longleftrightarrow>
     fx_seq_out s \<le> fx_seq_out s' \<and> written out = [fx_seq_out s..fx_seq_out s' - 1]"

named_theorems numbering \<open>operations that write consecutive numbers\<close>

lemma numbered_quiet: "fx_seq_out s' = fx_seq_out s \<Longrightarrow> written out = [] \<Longrightarrow> numbered s out s'"
  by (simp add: numbered_def)

lemma numbered_trans:
  "numbered s out s1 \<Longrightarrow> numbered s1 out2 s2 \<Longrightarrow> numbered s (out @ out2) s2"
  using upto_split1 [of "fx_seq_out s" "fx_seq_out s1" "fx_seq_out s2 - 1"]
  by (cases "fx_seq_out s1 = fx_seq_out s2") (auto simp: numbered_def)

lemma numbered_cong:
  "numbered s out s' \<Longrightarrow> fx_seq_out t = fx_seq_out s \<Longrightarrow> fx_seq_out t' = fx_seq_out s' \<Longrightarrow>
   numbered t out t'"
  by (simp add: numbered_def)

lemma numbered_send [numbering]:
  "fx_seq_out s0 = fx_seq_out s \<Longrightarrow>
   numbered s0 (fst (snd (fix_send cf now m s))) (fst (fix_send cf now m s))"
  by (auto simp: fix_send_def numbered_def split: option.split)

lemma numbered_stop: "numbered s (fst (snd (fix_stop cf now s))) (fst (fix_stop cf now s))"
proof -
  let ?r = "send_logout cf now ''Session stopping'' (s\<lparr>fx_running := False\<rparr>)"
  have "numbered s (fst (snd ?r)) (fst ?r)"
    unfolding send_logout_def Let_def by (rule numbered_send) simp
  then show ?thesis
    by (cases ?r) (auto simp: fix_stop_def Let_def numbered_def split: option.split)
qed

lemma numbered_connect:
  "numbered s (fst (snd (fix_connect cf now ok drains s))) (fst (fix_connect cf now ok drains s))"
proof -
  let ?s1 = "s\<lparr>fx_state := FX_CONNECTING\<rparr>\<lparr>fx_writer := True, fx_state := FX_LOGON_SENT\<rparr>"
  obtain s2 out e where r: "send_logon cf now ?s1 = (s2, out, e)" by (cases "send_logon cf now ?s1")
  have "numbered s out s2"
    using numbered_send [of s ?s1 cf now "logon_msg cf"] r by (simp add: send_logon_def)
  then show ?thesis
    unfolding fix_connect_def Let_def r by (cases e) (auto simp: numbered_def)
qed

lemma retry_after_failure:
  assumes "fx_running s" and "fx_attempts s < fc_max_attempts cf"
    and "fix_connect cf (fa_now a) (fa_opens a) (fa_drains a) s = (s1, out, Some e)"
    and "e = Refused \<or> e = Not_Connected \<or> e = Broken"
    and "st = (case fa_stop a of None \<Rightarrow> (s1\<lparr>fx_attempts := fx_attempts s1 + 1\<rparr>, [], None)
      | Some t \<Rightarrow> fix_stop cf t (s1\<lparr>fx_attempts := fx_attempts s1 + 1\<rparr>))"
    and "r = connect_with_retry cf (min (delay * 2) 60) rest (fst st)"
  shows "connect_with_retry cf delay (a # rest) s =
    (fst r, out @ [Slept delay] @ fst (snd st) @ fst (snd r), snd (snd r))"
  using assms(1-4) by (simp only: connect_with_retry.simps assms(5,6) simp_thms if_True prod.case option.case Let_def case_prod_beta fst_conv snd_conv)

lemma numbered_retry:
  "numbered s (fst (snd (connect_with_retry cf delay outcomes s)))
     (fst (connect_with_retry cf delay outcomes s))"
proof (induction cf delay outcomes s rule: connect_with_retry.induct)
  case (1 cf delay s)
  then show ?case by (simp add: numbered_def)
next
  case (2 cf delay a rest s)
  let ?c = "fix_connect cf (fa_now a) (fa_opens a) (fa_drains a) s"
  obtain s1 out e where c: "?c = (s1, out, e)" by (cases ?c)
  have n: "numbered s out s1" using numbered_connect [of s cf "fa_now a" "fa_opens a" "fa_drains a"] by (simp add: c)
  show ?case
  proof (cases "fx_running s \<and> fx_attempts s < fc_max_attempts cf")
    case False
    then show ?thesis by (auto simp: numbered_def)
  next
    case True
    show ?thesis
    proof (cases e)
      case None
      with True n show ?thesis by (auto simp: c intro: numbered_cong)
    next
      case (Some err)
      let ?s2 = "s1\<lparr>fx_attempts := fx_attempts s1 + 1\<rparr>"
      let ?st = "case fa_stop a of None \<Rightarrow> (?s2, [], None) | Some t \<Rightarrow> fix_stop cf t ?s2"
      let ?r = "connect_with_retry cf (min (delay * 2) 60) rest (fst ?st)"
      show ?thesis
      proof (cases "err = Refused \<or> err = Not_Connected \<or> err = Broken")
        case True': True
        have rest: "numbered (fst ?st) (fst (snd ?r)) (fst ?r)"
          by (rule 2 [OF True c [symmetric] refl Some True' refl refl])
        have "numbered s1 (fst (snd ?st)) (fst ?st)"
        proof (cases "fa_stop a")
          case (Some t)
          with numbered_stop [of ?s2 cf t] show ?thesis by (simp add: numbered_def)
        qed (simp add: numbered_def)
        from numbered_trans [OF this rest] have "numbered s1 ([Slept delay] @ fst (snd ?st) @ fst (snd ?r)) (fst ?r)"
          by (simp add: numbered_def)
        from numbered_trans [OF n this] show ?thesis
          using retry_after_failure [OF conjunct1 [OF True] conjunct2 [OF True] c [unfolded Some] True' refl refl]
          by (simp only: fst_conv snd_conv)
      next
        case False
        with True Some n show ?thesis by (auto simp: c)
      qed
    qed
  qed
qed

lemma dispatch_quiet:
  "fx_seq_out (fst (fix_dispatch cf m s)) = fx_seq_out s"
  "written (fst (snd (fix_dispatch cf m s))) = []"
  by (auto simp: fix_dispatch_def Let_def split: option.split bool.split)

lemma dispatch_all_quiet:
  "fx_seq_out (fst (dispatch_all cf fs s)) = fx_seq_out s \<and>
   written (fst (snd (dispatch_all cf fs s))) = []"
proof (induction fs arbitrary: s)
  case (Cons f fs)
  obtain s1 out e where d: "fix_dispatch cf (fix_decode f) s = (s1, out, e)"
    by (cases "fix_dispatch cf (fix_decode f) s")
  with dispatch_quiet [of cf "fix_decode f" s] Cons [of s1] show ?case
    by (cases e) (auto simp: case_prod_beta)
qed simp

lemma numbered_read: "numbered s (snd (read_turn cf chunk s)) (fst (read_turn cf chunk s))"
proof -
  obtain fs left where f: "frames (fx_buffer s @ chunk) = (fs, left)"
    by (cases "frames (fx_buffer s @ chunk)")
  obtain s1 out e where d: "dispatch_all cf fs (s\<lparr>fx_buffer := left\<rparr>) = (s1, out, e)"
    by (cases "dispatch_all cf fs (s\<lparr>fx_buffer := left\<rparr>)")
  with dispatch_all_quiet [of cf fs "s\<lparr>fx_buffer := left\<rparr>"]
  have "fx_seq_out s1 = fx_seq_out s" "written out = []" by simp_all
  then show ?thesis
    by (auto simp: read_turn_def connection_lost_def f d Let_def intro!: numbered_quiet)
qed

lemma numbered_heartbeat:
  "numbered s (snd (heartbeat_turn cf now i s)) (fst (heartbeat_turn cf now i s))"
proof -
  let ?r = "fix_send cf now (fix_new (msg_type_value FM_HEARTBEAT)) s"
  have "numbered s (fst (snd ?r)) (fst ?r)" by (rule numbered_send) simp
  then show ?thesis
    by (cases ?r) (auto simp: heartbeat_turn_def Let_def numbered_def)
qed

lemma numbered_step: "numbered s (snd (fix_event_step cf s ev)) (fix_step cf s ev)"
proof (cases ev)
  case (Fx_Start outcomes)
  then show ?thesis
    using numbered_retry [of "s\<lparr>fx_running := True\<rparr>" cf "fc_reconnect_delay cf" outcomes]
    by (simp add: fix_step_def drop_error_def fix_start_def numbered_def)
next
  case (Fx_Reconnect outcomes)
  then show ?thesis by (simp add: fix_step_def drop_error_def fix_reconnect_def numbered_retry)
next
  case (Fx_New_Order now t sy side qty price ty tif acct stp)
  then show ?thesis by (simp add: fix_step_def drop_error_def new_order_def Let_def numbered_send)
qed (simp_all add: fix_step_def drop_error_def numbered_stop numbered_read numbered_heartbeat
    fix_cancel_order_def fix_cancel_replace_def mass_cancel_def subscribe_market_data_def
    Let_def numbered_send numbered_quiet order_wait_over_def)

lemma numbered_run: "numbered s (fix_run cf s evs) (foldl (fix_step cf) s evs)"
proof (induction evs arbitrary: s)
  case (Cons ev evs)
  show ?case using numbered_trans [OF numbered_step Cons] by simp
qed (simp add: numbered_def)

section \<open>Connecting ends\<close>

text \<open>The sleeps between attempts: doubling, at most a minute.\<close>

fun retry_delays :: "pyfloat \<Rightarrow> nat \<Rightarrow> pyfloat list" where
  "retry_delays d 0 = []"
| "retry_delays d (Suc k) = d # retry_delays (min (d * 2) 60) k"

definition attempt_ok :: "fix_attempt \<Rightarrow> bool" where
  "attempt_ok a \<longleftrightarrow> fa_opens a \<and> fa_drains a"

definition attempt_slept_through :: "fix_attempt \<Rightarrow> bool" where
  "attempt_slept_through a \<longleftrightarrow> \<not> attempt_ok a \<and> fa_stop a = None"

definition failures :: "fix_attempt list \<Rightarrow> nat" where
  "failures outcomes = length (takeWhile attempt_slept_through outcomes)"

definition logon_encodes :: "fix_config \<Rightarrow> fix_attempt list \<Rightarrow> bool" where
  "logon_encodes cf outcomes \<longleftrightarrow>
     list_all (\<lambda>a. fix_encode (logon_msg cf) (fc_sender cf) (fc_target cf) 1 (fa_now a) \<noteq> None) outcomes"

fun slept :: "fix_effect list \<Rightarrow> pyfloat list" where
  "slept [] = []"
| "slept (Slept d # out) = d # slept out"
| "slept (_ # out) = slept out"

lemma slept_append [simp]: "slept (xs @ ys) = slept xs @ slept ys"
  by (induction xs rule: slept.induct) simp_all

text \<open>Whether a message can be encoded does not depend on its number.\<close>

lemma is_ascii_int_str: "is_ascii (int_str n)"
  by (simp add: int_str_def is_ascii_digits)

lemma encodes_any_number:
  assumes "distinct (map fst (fm_fields m))"
  shows "fix_encode m sender target n now \<noteq> None \<longleftrightarrow> fix_encode m sender target k now \<noteq> None"
proof -
  have "soh_join (map field_text (fix_body m sender target i now)) @ [soh] =
      concat (map (\<lambda>p. p @ [soh]) (map field_text (std_fields m sender target i now @ own_fields m)))" for i
    unfolding fix_body_fields [OF assms] by (rule soh_join_concat) (simp add: std_fields_def)
  then have "is_ascii (soh_join (map field_text (fix_body m sender target i now)) @ [soh]) \<longleftrightarrow>
      is_ascii (concat (map (\<lambda>p. p @ [soh]) (map field_text (std_fields m sender target 1 now @ own_fields m))))" for i
    by (simp add: std_fields_def field_text_def is_ascii_int_str)
  then show ?thesis by (simp add: fix_encode_def Let_def)
qed

lemma logon_fields_distinct: "distinct (map fst (fm_fields (logon_msg cf)))"
  by (auto simp: logon_msg_def fix_set_def fix_new_def Let_def distinct_update)

lemma connect_outcome:
  assumes "fix_encode (logon_msg cf) (fc_sender cf) (fc_target cf) 1 now \<noteq> None"
  shows "fix_connect cf now ok drains s =
     (if \<not> ok then (s\<lparr>fx_state := FX_CONNECTING\<rparr>, [], Some Refused)
      else if \<not> drains then
        (s\<lparr>fx_state := FX_LOGON_SENT, fx_seq_out := fx_seq_out s + 1, fx_writer := True\<rparr>,
         [Wrote (fx_seq_out s) (logon_msg cf)], Some Broken)
      else
        (s\<lparr>fx_state := FX_LOGON_SENT, fx_seq_out := fx_seq_out s + 1, fx_writer := True,
           fx_reading := True, fx_buffer := [], fx_heartbeats := fx_heartbeats s @ [True]\<rparr>,
         [Wrote (fx_seq_out s) (logon_msg cf)], None))"
  using encodes_any_number [OF logon_fields_distinct, of cf "fc_sender cf" "fc_target cf" 1 now "fx_seq_out s"] assms
  by (auto simp: fix_connect_def send_logon_def fix_send_def Let_def)

text \<open>How the retry loop ends, from a session with \<open>left\<close> attempts left.\<close>

definition retry_ends :: "fix_config \<Rightarrow> fix_attempt list \<Rightarrow> pyfloat \<Rightarrow> nat \<Rightarrow> fix_session \<Rightarrow> fix_result \<Rightarrow> bool" where
  "retry_ends cf outcomes d left s r =
     (case r of (s', out, err) \<Rightarrow>
        let k = failures outcomes in
        err = None \<and> out \<noteq> [] \<and>
        (if k < left \<and> attempt_ok (outcomes ! k)
         then slept out = retry_delays d k \<and> last out = Wrote (fx_seq_out s' - 1) (logon_msg cf) \<and>
              Gave_Up \<notin> set out \<and> fx_state s' = FX_LOGON_SENT \<and> fx_reading s' \<and> fx_running s' \<and>
              fx_attempts s' = 0
         else if k < left
         then slept out = retry_delays d (k + 1) \<and> last out = Gave_Up \<and> fx_state s' = FX_DISCONNECTED \<and>
              \<not> fx_running s' \<and> fx_attempts s' = fx_attempts s + int k + 1
         else slept out = retry_delays d left \<and> last out = Gave_Up \<and> fx_running s' \<and>
              fx_attempts s' = fc_max_attempts cf))"

lemma stop_while_connecting:
  assumes "fx_state s \<noteq> FX_ACTIVE"
  shows "fix_stop cf t s =
    (s\<lparr>fx_running := False, fx_reading := False, fx_heartbeats := cancel_latest (fx_heartbeats s),
       fx_writer := False, fx_state := FX_DISCONNECTED\<rparr>, [], None)"
  using assms by (simp add: fix_stop_def Let_def)

lemma retry_outcome:
  assumes "fx_running s" and "fx_attempts s \<le> fc_max_attempts cf" and "logon_encodes cf outcomes"
    and "nat (fc_max_attempts cf - fx_attempts s) \<le> length outcomes"
  shows "retry_ends cf outcomes d (nat (fc_max_attempts cf - fx_attempts s)) s (connect_with_retry cf d outcomes s)"
  using assms
proof (induction outcomes arbitrary: s d)
  case Nil
  then show ?case by (simp add: retry_ends_def failures_def)
next
  case (Cons a outcomes)
  let ?left = "nat (fc_max_attempts cf - fx_attempts s)"
  have enc: "fix_encode (logon_msg cf) (fc_sender cf) (fc_target cf) 1 (fa_now a) \<noteq> None"
    using Cons.prems(3) by (simp add: logon_encodes_def)
  note c = connect_outcome [OF enc]
  consider "\<not> fx_attempts s < fc_max_attempts cf" | "fx_attempts s < fc_max_attempts cf" "attempt_ok a"
    | t where "fx_attempts s < fc_max_attempts cf" "\<not> attempt_ok a" "fa_stop a = Some t"
    | "fx_attempts s < fc_max_attempts cf" "\<not> attempt_ok a" "fa_stop a = None"
    by (cases "fa_stop a") auto
  then show ?case
  proof cases
    case 1
    with Cons.prems show ?thesis by (simp add: retry_ends_def)
  next
    case 2
    with Cons.prems show ?thesis
      by (simp add: c retry_ends_def failures_def attempt_slept_through_def attempt_ok_def)
  next
    case 3
    with Cons.prems show ?thesis
      by (cases "fa_opens a"; cases outcomes)
         (simp_all add: c retry_ends_def failures_def attempt_slept_through_def attempt_ok_def
            stop_while_connecting Let_def)
  next
    case 4
    obtain s0 out0 e where c0: "fix_connect cf (fa_now a) (fa_opens a) (fa_drains a) s = (s0, out0, Some e)"
      and e: "e = Refused \<or> e = Not_Connected \<or> e = Broken"
      and s0: "fx_running s0" "fx_attempts s0 = fx_attempts s" "slept out0 = []" "Gave_Up \<notin> set out0"
      using 4(2) Cons.prems(1)
      by (cases "fa_opens a"; cases "fa_drains a") (simp_all add: c attempt_ok_def)
    let ?s1 = "s0\<lparr>fx_attempts := fx_attempts s + 1\<rparr>"
    have left: "?left = Suc (nat (fc_max_attempts cf - fx_attempts ?s1))" using 4 by simp
    have f: "failures (a # outcomes) = Suc (failures outcomes)"
      using 4 by (simp add: failures_def attempt_slept_through_def)
    have "logon_encodes cf outcomes" "nat (fc_max_attempts cf - fx_attempts ?s1) \<le> length outcomes"
      using Cons.prems left by (simp_all add: logon_encodes_def)
    then have ih: "retry_ends cf outcomes (min (d * 2) 60) (nat (fc_max_attempts cf - fx_attempts ?s1)) ?s1
        (connect_with_retry cf (min (d * 2) 60) outcomes ?s1)"
      using Cons.IH [of ?s1 "min (d * 2) 60"] 4(1) s0(1) by simp
    obtain s' out err where r: "connect_with_retry cf (min (d * 2) 60) outcomes ?s1 = (s', out, err)"
      by (cases "connect_with_retry cf (min (d * 2) 60) outcomes ?s1")
    have step: "connect_with_retry cf d (a # outcomes) s = (s', out0 @ [Slept d] @ out, err)"
      using retry_after_failure [OF Cons.prems(1) 4(1) c0 e refl refl, of d outcomes] 4(3) s0(2) r by simp
    with ih show ?thesis
      unfolding left r step using s0 by (simp add: f retry_ends_def Let_def split: if_splits)
  qed
qed

lemma retry_delays_bound: "x \<in> set (retry_delays d k) \<Longrightarrow> x \<le> max d 60"
proof (induction d k rule: retry_delays.induct)
  case (2 d k)
  then show ?case by auto
qed simp

section \<open>Reports\<close>

lemma report_frames:
  assumes "fix_encode m sender target n now_utc = Some w"
    and "\<forall>f \<in> set (fix_body m sender target n now_utc). clean_field f"
  shows "frames (w @ rest) = (w # fst (frames rest), snd (frames rest))"
  using take_frame_message [OF assms] by (simp add: frames.simps [of "w @ rest"] case_prod_beta)

text \<open>A well-formed execution report of the counterparty for an order.\<close>

definition report_for :: "string \<Rightarrow> fix_message \<Rightarrow> string \<Rightarrow> string \<Rightarrow> int \<Rightarrow> string \<Rightarrow> string \<Rightarrow> bool" where
  "report_for oid m sender target n now_utc w \<longleftrightarrow>
     fix_encode m sender target n now_utc = Some w \<and> fm_type m = ''8'' \<and>
     map_of (fm_fields m) 11 = Some oid \<and> distinct (map fst (fm_fields m)) \<and>
     list_all (\<lambda>t. soh \<notin> set t) ([fm_type m, sender, target, now_utc] @ map snd (fm_fields m)) \<and>
     list_all clean_field (fix_body m sender target n now_utc)"

lemma map_of_filter_key: "P k \<Longrightarrow> map_of (filter (\<lambda>f. P (fst f)) xs) k = map_of xs k"
  by (induction xs) auto

lemma report_decoded:
  assumes "report_for oid m sender target n now_utc w"
  shows "fm_type (fix_decode w) = ''8''" and "fix_get (fix_decode w) 11 = oid"
proof -
  obtain body :: string and ck where d: "fix_decode w = \<lparr>fm_type = fm_type m,
       fm_fields = [(8, ''FIX.4.4''), (9, digits (length body))] @
         std_fields m sender target n now_utc @ own_fields m @ [(10, pad3 ck)]\<rparr>"
    by (rule fix_decode_encode [of m sender target n now_utc w])
      (use assms in \<open>auto simp: report_for_def list_all_iff\<close>)
  have "map_of (own_fields m) 11 = map_of (fm_fields m) 11"
    unfolding own_fields_def by (rule map_of_filter_key) (simp add: header_tags_def)
  then have "map_of (own_fields m) 11 = Some oid" using assms by (simp add: report_for_def)
  then show "fm_type (fix_decode w) = ''8''" and "fix_get (fix_decode w) 11 = oid"
    using assms by (auto simp: d fix_get_def std_fields_def report_for_def map_add_def)
qed

lemma dispatch_report:
  assumes "report_for oid m sender target n now_utc w"
  shows "fix_dispatch cf (fix_decode w) s =
     (let s1 = s\<lparr>fx_seq_in := fx_seq_in s + 1\<rparr>;
          called = (if fc_on_execution cf then [Called_Execution (fix_decode w)] else [])
      in case fx_pending s oid of
           Some True \<Rightarrow> (s1, [], Some Future_Done)
         | Some False \<Rightarrow> (s1\<lparr>fx_pending := (fx_pending s)(oid \<mapsto> True)\<rparr>, called, None)
         | None \<Rightarrow> (s1, called, None))"
  using report_decoded [OF assms]
  by (auto simp: fix_dispatch_def Let_def split: option.split bool.split)

section \<open>Properties\<close>

text \<open>Sequence numbers: whatever a session goes through, connections, reconnections, heartbeats,
  orders and errors, the messages it writes are numbered 1, 2, 3 and so on without a gap or
  a repetition, up to the counter's value.\<close>

theorem fix_numbers_contiguous:
  "written (fix_run cf fix_init evs) = [1..fx_seq_out (foldl (fix_step cf) fix_init evs) - 1]"
  using numbered_run [of fix_init cf evs] by (simp add: numbered_def fix_init_def)


text \<open>An execution report reaches its order: for an order that waits for its acknowledgement, the
  bytes of a well-formed report with its id, arriving on a live connection, resolve the wait
  and call the execution callback with the decoded report, once.\<close>

theorem fix_report_reaches_order:
  assumes "report_for oid m sender target n now_utc w"
    and "fx_reading s" and "fx_running s" and "fx_buffer s = []" and "fx_pending s oid = Some False"
  shows "read_turn cf w s =
    (s\<lparr>fx_seq_in := fx_seq_in s + 1, fx_pending := (fx_pending s)(oid \<mapsto> True)\<rparr>,
     if fc_on_execution cf then [Called_Execution (fix_decode w)] else [])"
proof -
  have enc: "fix_encode m sender target n now_utc = Some w"
    and cl: "\<forall>f \<in> set (fix_body m sender target n now_utc). clean_field f"
    using assms(1) by (auto simp: report_for_def list_all_iff)
  have "w \<noteq> []" using enc by (auto simp: fix_encode_def Let_def split: if_splits)
  moreover have "frames w = ([w], [])" using report_frames [OF enc cl, of "[]"] by simp
  ultimately show ?thesis
    using assms(2-5) by (simp add: read_turn_def Let_def dispatch_report [OF assms(1)])
qed

text \<open>Two reports in one chunk end the connection: when the acknowledgement of an order and a
  further report for it (its fill, say) arrive together, the second one meets the resolved
  future, the exception ends the read loop, the second report reaches no callback, and the
  session drops the connection and reconnects.\<close>

theorem second_report_drops_connection:
  assumes "report_for oid m1 sender target n1 t1 w1" and "report_for oid m2 sender target n2 t2 w2"
    and "fx_reading s" and "fx_running s" and "fx_buffer s = []" and "fx_pending s oid = Some False"
  shows "read_turn cf (w1 @ w2) s =
    (s\<lparr>fx_state := FX_DISCONNECTED, fx_reading := False, fx_seq_in := fx_seq_in s + 2,
       fx_pending := (fx_pending s)(oid \<mapsto> True)\<rparr>,
     (if fc_on_execution cf then [Called_Execution (fix_decode w1)] else []) @ [Schedule_Reconnect])"
proof -
  have enc: "fix_encode m1 sender target n1 t1 = Some w1" "fix_encode m2 sender target n2 t2 = Some w2"
    and cl: "\<forall>f \<in> set (fix_body m1 sender target n1 t1). clean_field f"
      "\<forall>f \<in> set (fix_body m2 sender target n2 t2). clean_field f"
    using assms(1,2) by (auto simp: report_for_def list_all_iff)
  have "w1 \<noteq> []" using enc(1) by (auto simp: fix_encode_def Let_def split: if_splits)
  moreover have "frames (w1 @ w2) = ([w1, w2], [])"
    using report_frames [OF enc(1) cl(1), of w2] report_frames [OF enc(2) cl(2), of "[]"] by simp
  ultimately show ?thesis
    using assms(3-6)
    by (simp add: read_turn_def Let_def dispatch_report [OF assms(1)] dispatch_report [OF assms(2)]
        connection_lost_def)
qed

text \<open>A reconnection goes on counting: its logon asks to reset the sequence numbers (tag 141) and
  carries the number after the last one written, which is 1 only on the first connection.\<close>

lemma relogon_keeps_counting:
  assumes "fix_encode (logon_msg cf) (fc_sender cf) (fc_target cf) 1 now \<noteq> None"
  shows "fst (snd (fix_connect cf now True True s)) = [Wrote (fx_seq_out s) (logon_msg cf)]"
    and "fix_get (logon_msg cf) 141 = ''Y''"
  using assms by (simp_all add: connect_outcome logon_msg_def fix_set_def fix_get_def fix_new_def Let_def
      AList.update_conv')

text \<open>Each connection adds a heartbeat task and ends none, so that after a reconnection an active
  session sends two heartbeats in every interval.\<close>

lemma reconnection_adds_heartbeat:
  assumes "fix_encode (logon_msg cf) (fc_sender cf) (fc_target cf) 1 now \<noteq> None"
  shows "fx_heartbeats (fst (fix_connect cf now True True s)) = fx_heartbeats s @ [True]"
    and "fx_heartbeats (fst (connection_lost s)) = fx_heartbeats s"
  using assms by (simp_all add: connect_outcome connection_lost_def)

text \<open>A subscription to several symbols announces their number and names the last one only.\<close>

lemma subscription_names_last_symbol:
  assumes "symbols \<noteq> []"
  shows "fix_get (market_data_msg req_id symbols depth) 55 = last symbols"
    and "fix_get (market_data_msg req_id symbols depth) 146 = int_str (int (length symbols))"
    and "distinct (map fst (fm_fields (market_data_msg req_id symbols depth)))"
proof -
  have g: "fix_get (fix_set k v m) k' = (if k = k' then v else fix_get m k')" for k k' v m
    by (simp add: fix_get_def fix_set_def AList.update_conv')
  have last: "fix_get (fold (fix_set 55) sys m) 55 = (if sys = [] then fix_get m 55 else last sys)" for sys m
    by (induction sys arbitrary: m) (simp_all add: g)
  have other: "fix_get (fold (fix_set 55) sys m) 146 = fix_get m 146" for sys m
    by (induction sys arbitrary: m) (simp_all add: g)
  have d: "distinct (map fst (fm_fields m)) \<Longrightarrow> distinct (map fst (fm_fields (fix_set k v m)))" for k v m
    by (simp add: fix_set_def distinct_update)
  have df: "distinct (map fst (fm_fields m)) \<Longrightarrow> distinct (map fst (fm_fields (fold (fix_set 55) sys m)))"
    for sys m by (induction sys arbitrary: m) (simp_all add: d)
  show "fix_get (market_data_msg req_id symbols depth) 55 = last symbols"
    and "fix_get (market_data_msg req_id symbols depth) 146 = int_str (int (length symbols))"
    using assms by (simp_all add: market_data_msg_def last other g)
  show "distinct (map fst (fm_fields (market_data_msg req_id symbols depth)))"
    unfolding market_data_msg_def by (intro df d) (simp add: fix_new_def)
qed

section \<open>Examples\<close>

definition fix_cfg_example :: fix_config where
  "fix_cfg_example = \<lparr>fc_sender = ''S'', fc_target = ''T'', fc_username = [], fc_password = [],
     fc_heartbeat_interval = 30, fc_reconnect_delay = 5, fc_max_attempts = 2,
     fc_on_execution = True, fc_on_market_data = False\<rparr>"

definition report_example :: fix_message where
  "report_example = \<lparr>fm_type = ''8'', fm_fields = [(11, ''S-1'')]\<rparr>"

lemma report_example_for:
  "report_for ''S-1'' report_example ''T'' ''S'' 1 ''t'' (the (fix_encode report_example ''T'' ''S'' 1 ''t''))"
proof -
  have "fix_body report_example ''T'' ''S'' 1 ''t'' =
     [(35, ''8''), (49, ''T''), (56, ''S''), (34, int_str 1), (52, ''t''), (11, ''S-1'')]"
    by (simp add: report_example_def fix_body_def header_tags_def)
  then have "fix_encode report_example ''T'' ''S'' 1 ''t'' \<noteq> None"
    "list_all clean_field (fix_body report_example ''T'' ''S'' 1 ''t'')"
    unfolding fix_encode_def by (simp_all only:) code_simp+
  then show ?thesis
    by (simp add: report_for_def report_example_def soh_def)
qed

definition waiting_session :: fix_session where
  "waiting_session = fix_init\<lparr>fx_state := FX_ACTIVE, fx_reading := True, fx_running := True,
     fx_writer := True, fx_pending := [''S-1'' \<mapsto> False]\<rparr>"

definition attempt_example :: "bool \<Rightarrow> string option \<Rightarrow> fix_attempt" where
  "attempt_example broken stop =
     \<lparr>fa_opens = broken, fa_drains = False, fa_now = ''a'', fa_stop = stop\<rparr>"


theorem fix_report_reaches_order_witness:
  "fx_pending (fst (read_turn fix_cfg_example (the (fix_encode report_example ''T'' ''S'' 1 ''t''))
     waiting_session)) ''S-1'' = Some True"
  by (subst fix_report_reaches_order [OF report_example_for])
    (simp_all add: waiting_session_def fix_init_def)

theorem second_report_drops_connection_witness:
  "let w = the (fix_encode report_example ''T'' ''S'' 1 ''t'')
   in fx_state (fst (read_turn fix_cfg_example (w @ w) waiting_session)) = FX_DISCONNECTED"
  unfolding Let_def
  by (subst second_report_drops_connection [OF report_example_for report_example_for])
    (simp_all add: waiting_session_def fix_init_def)

end
