(* ===== verification/Global_Clock.thy ===== *)
theory Global_Clock
  imports Enums "HOL-Library.AList"
begin

text \<open>
  Agent 17, the global clock (\<open>agents/agent_17_global_clock.py\<close>): the tick with its session
  boundaries, the registry of named timers, and the detection of agents that fell silent.
  The reading of the clock, with weekday, hour and minute in New York, is an argument of a
  tick; a tick publishes to a bus that accepts, and is one step. The two dictionaries are
  association lists in insertion order. What the agent publishes and audits is a list of effects.
\<close>

section \<open>State\<close>

record gca_timer =
  tm_name :: string
  tm_expires_at :: timestamp
  tm_metadata :: "(string \<times> string) list"
  tm_repeat_sec :: "pyfloat option"

record gca =
  g_timers :: "(string \<times> gca_timer) list"
  g_open_fired :: bool
  g_close_fired :: bool
  g_heartbeats :: "(string \<times> timestamp) list"

definition gca_init :: gca where
  "gca_init = \<lparr>g_timers = [], g_open_fired = False, g_close_fired = False, g_heartbeats = []\<rparr>"

record clock_reading =
  cr_now :: timestamp
  cr_weekday :: nat
  cr_hour :: nat
  cr_minute :: nat

datatype gca_effect =
    Clock_Tick timestamp
  | Session_Start timestamp
  | Session_End timestamp
  | Audit_Session_Start timestamp
  | Audit_Session_End timestamp
  | Timer_Expired string timestamp timestamp "(string \<times> string) list"
  | Starvation_Alert string timestamp pyfloat

section \<open>Timers and heartbeats\<close>

definition register_timer ::
  "string \<Rightarrow> timestamp \<Rightarrow> (string \<times> string) list \<Rightarrow> pyfloat option \<Rightarrow> gca \<Rightarrow> gca" where
  "register_timer name expires_at metadata repeat_sec g =
     g\<lparr>g_timers := AList.update name
         \<lparr>tm_name = name, tm_expires_at = expires_at, tm_metadata = metadata,
          tm_repeat_sec = repeat_sec\<rparr> (g_timers g)\<rparr>"

definition cancel_timer :: "string \<Rightarrow> gca \<Rightarrow> gca \<times> bool" where
  "cancel_timer name g =
     (if map_of (g_timers g) name \<noteq> None
      then (g\<lparr>g_timers := AList.delete name (g_timers g)\<rparr>, True) else (g, False))"

definition time_until :: "string \<Rightarrow> timestamp \<Rightarrow> gca \<Rightarrow> pyfloat option" where
  "time_until name now g =
     (case map_of (g_timers g) name of
        None \<Rightarrow> None
      | Some t \<Rightarrow> Some (max 0 (of_int (tm_expires_at t - now) / 1000000)))"

definition record_heartbeat :: "string \<Rightarrow> timestamp \<Rightarrow> gca \<Rightarrow> gca" where
  "record_heartbeat agent_id now g = g\<lparr>g_heartbeats := AList.update agent_id now (g_heartbeats g)\<rparr>"

text \<open>\<open>_on_heartbeat\<close>: a payload without an agent id, or with an empty one, is ignored.\<close>

definition on_heartbeat :: "string option \<Rightarrow> timestamp \<Rightarrow> gca \<Rightarrow> gca" where
  "on_heartbeat agent_id now g =
     (if truthy agent_id then record_heartbeat (the agent_id) now g else g)"

section \<open>The tick\<close>

definition is_open_minute :: "clock_reading \<Rightarrow> bool" where
  "is_open_minute r \<longleftrightarrow> cr_hour r = 9 \<and> cr_minute r = 30 \<and> cr_weekday r < 5"

definition before_open :: "clock_reading \<Rightarrow> bool" where
  "before_open r \<longleftrightarrow> cr_hour r < 9 \<or> cr_hour r = 9 \<and> cr_minute r < 30"

definition past_close :: "clock_reading \<Rightarrow> bool" where
  "past_close r \<longleftrightarrow> 16 \<le> cr_hour r \<and> cr_weekday r < 5"

definition check_session_boundaries :: "clock_reading \<Rightarrow> gca \<Rightarrow> gca \<times> gca_effect list" where
  "check_session_boundaries r g =
     (let (g1, out1) =
        (if is_open_minute r
         then if \<not> g_open_fired g
              then (g\<lparr>g_open_fired := True, g_close_fired := False\<rparr>,
                    [Session_Start (cr_now r), Audit_Session_Start (cr_now r)])
              else (g, [])
         else if before_open r then (g\<lparr>g_open_fired := False\<rparr>, []) else (g, []))
      in if past_close r \<and> \<not> g_close_fired g1 \<and> g_open_fired g1
         then (g1\<lparr>g_close_fired := True\<rparr>,
               out1 @ [Session_End (cr_now r), Audit_Session_End (cr_now r)])
         else (g1, out1))"

text \<open>
  The expired timers are collected before the first is fired; a repeating one is moved on from
  its own expiry.
\<close>

definition fire_timer :: "timestamp \<Rightarrow> gca_timer \<Rightarrow> gca \<Rightarrow> gca" where
  "fire_timer now t g =
     (case tm_repeat_sec t of
        Some r \<Rightarrow>
          g\<lparr>g_timers := AList.update (tm_name t)
              (t\<lparr>tm_expires_at := tm_expires_at t + seconds r\<rparr>) (g_timers g)\<rparr>
      | None \<Rightarrow> g\<lparr>g_timers := AList.delete (tm_name t) (g_timers g)\<rparr>)"

definition expired_timers :: "timestamp \<Rightarrow> gca \<Rightarrow> gca_timer list" where
  "expired_timers now g = filter (\<lambda>t. tm_expires_at t \<le> now) (map snd (g_timers g))"

definition timer_effect :: "timestamp \<Rightarrow> gca_timer \<Rightarrow> gca_effect" where
  "timer_effect now t = Timer_Expired (tm_name t) (tm_expires_at t) now (tm_metadata t)"

definition fire_expired_timers :: "timestamp \<Rightarrow> gca \<Rightarrow> gca \<times> gca_effect list" where
  "fire_expired_timers now g =
     (fold (fire_timer now) (expired_timers now g) g, map (timer_effect now) (expired_timers now g))"

definition stalled :: "pyfloat \<Rightarrow> timestamp \<Rightarrow> string \<times> timestamp \<Rightarrow> bool" where
  "stalled threshold now p \<longleftrightarrow> threshold < of_int (now - snd p) / 1000000"

definition stall_effect :: "timestamp \<Rightarrow> string \<times> timestamp \<Rightarrow> gca_effect" where
  "stall_effect now p = Starvation_Alert (fst p) (snd p) (of_int (now - snd p) / 1000000)"

definition check_stalled_agents :: "pyfloat \<Rightarrow> timestamp \<Rightarrow> gca \<Rightarrow> gca \<times> gca_effect list" where
  "check_stalled_agents threshold now g =
     (g\<lparr>g_heartbeats := filter (\<lambda>p. \<not> stalled threshold now p) (g_heartbeats g)\<rparr>,
      map (stall_effect now) (filter (stalled threshold now) (g_heartbeats g)))"

definition gca_tick :: "pyfloat \<Rightarrow> clock_reading \<Rightarrow> gca \<Rightarrow> gca \<times> gca_effect list" where
  "gca_tick threshold r g =
     (let (g1, out1) = check_session_boundaries r g;
          (g2, out2) = fire_expired_timers (cr_now r) g1;
          (g3, out3) = check_stalled_agents threshold (cr_now r) g2
      in (g3, Clock_Tick (cr_now r) # out1 @ out2 @ out3))"

datatype gca_event =
    Gca_Tick clock_reading
  | Gca_Register string timestamp "(string \<times> string) list" "pyfloat option"
  | Gca_Cancel string
  | Gca_Heartbeat "string option" timestamp

fun gca_event_step :: "pyfloat \<Rightarrow> gca \<Rightarrow> gca_event \<Rightarrow> gca \<times> gca_effect list" where
  "gca_event_step th g (Gca_Tick r) = gca_tick th r g"
| "gca_event_step th g (Gca_Register n e md rep) = (register_timer n e md rep g, [])"
| "gca_event_step th g (Gca_Cancel n) = (fst (cancel_timer n g), [])"
| "gca_event_step th g (Gca_Heartbeat a now) = (on_heartbeat a now g, [])"

definition gca_step :: "pyfloat \<Rightarrow> gca \<Rightarrow> gca_event \<Rightarrow> gca" where
  "gca_step th g e = fst (gca_event_step th g e)"

definition gca_emits :: "pyfloat \<Rightarrow> gca \<Rightarrow> gca_event \<Rightarrow> gca_effect list" where
  "gca_emits th g e = snd (gca_event_step th g e)"

section \<open>The registry\<close>

definition gca_inv :: "gca \<Rightarrow> bool" where
  "gca_inv g \<longleftrightarrow>
     distinct (map fst (g_timers g)) \<and> list_all (\<lambda>p. tm_name (snd p) = fst p) (g_timers g) \<and>
     distinct (map fst (g_heartbeats g))"

lemma update_keys:
  "distinct (map fst d) \<Longrightarrow> distinct (map fst (AList.update k v d))"
  "list_all P d \<Longrightarrow> P (k, v) \<Longrightarrow> list_all P (AList.update k v d)"
  by (simp add: distinct_update, induction d) auto

lemma delete_keys:
  "distinct (map fst d) \<Longrightarrow> distinct (map fst (AList.delete k d))"
  "list_all P d \<Longrightarrow> list_all P (AList.delete k d)"
  by (simp add: distinct_delete) (auto simp: AList.delete_eq list_all_iff)

lemma fire_timer_inv: "gca_inv g \<Longrightarrow> gca_inv (fire_timer now t g)"
  by (auto simp: gca_inv_def fire_timer_def intro!: update_keys delete_keys split: option.split)

lemma fire_timers_inv: "gca_inv g \<Longrightarrow> gca_inv (fold (fire_timer now) ts g)"
  by (induction ts arbitrary: g) (simp_all add: fire_timer_inv)

lemma check_stalled_inv: "gca_inv g \<Longrightarrow> gca_inv (fst (check_stalled_agents th now g))"
  by (simp add: gca_inv_def check_stalled_agents_def distinct_map_filter)

lemma boundaries_frame [simp]:
  "g_timers (fst (check_session_boundaries r g)) = g_timers g"
  "g_heartbeats (fst (check_session_boundaries r g)) = g_heartbeats g"
  by (simp_all add: check_session_boundaries_def Let_def case_prod_beta)

lemma fire_timers_frame [simp]:
  "g_heartbeats (fold (fire_timer now) ts g) = g_heartbeats g"
  "g_open_fired (fold (fire_timer now) ts g) = g_open_fired g"
  "g_close_fired (fold (fire_timer now) ts g) = g_close_fired g"
  by (induction ts arbitrary: g) (auto simp: fire_timer_def split: option.split)

lemma stalled_frame [simp]:
  "g_timers (fst (check_stalled_agents th now g)) = g_timers g"
  "g_open_fired (fst (check_stalled_agents th now g)) = g_open_fired g"
  "g_close_fired (fst (check_stalled_agents th now g)) = g_close_fired g"
  by (simp_all add: check_stalled_agents_def)

lemma gca_step_inv: "gca_inv g \<Longrightarrow> gca_inv (gca_step th g e)"
proof (cases e)
  case (Gca_Tick r)
  assume g: "gca_inv g"
  then have "gca_inv (fst (check_session_boundaries r g))" by (simp add: gca_inv_def)
  then show ?thesis
    by (simp add: Gca_Tick gca_step_def gca_tick_def case_prod_beta fire_expired_timers_def
        fire_timers_inv check_stalled_inv)
qed (auto simp: gca_step_def register_timer_def cancel_timer_def on_heartbeat_def
    record_heartbeat_def gca_inv_def intro!: update_keys delete_keys)

interpretation gca: inv_machine "gca_step th" gca_inv for th
  by unfold_locales (rule gca_step_inv)

text \<open>One timer under a tick.\<close>

definition timer_after :: "gca_timer \<Rightarrow> gca_timer option" where
  "timer_after t =
     (case tm_repeat_sec t of
        None \<Rightarrow> None
      | Some r \<Rightarrow> Some (t\<lparr>tm_expires_at := tm_expires_at t + seconds r\<rparr>))"

lemma fire_timer_lookup:
  "map_of (g_timers (fire_timer now t g)) n =
     (if n = tm_name t then timer_after t else map_of (g_timers g) n)"
  by (auto simp: fire_timer_def timer_after_def update_conv' delete_conv' split: option.split)

lemma fire_timers_lookup:
  "distinct (map tm_name ts) \<Longrightarrow>
   map_of (g_timers (fold (fire_timer now) ts g)) n =
     (case find (\<lambda>t. tm_name t = n) ts of None \<Rightarrow> map_of (g_timers g) n | Some t \<Rightarrow> timer_after t)"
proof (induction ts arbitrary: g)
  case (Cons t ts)
  have "find (\<lambda>t. tm_name t = n) ts = None" if "tm_name t = n"
    using that Cons.prems by (auto simp: find_None_iff image_iff)
  with Cons show ?case by (auto simp: fire_timer_lookup split: option.split)
qed simp

lemma expired_of_name:
  assumes "distinct (map fst ts)" and "list_all (\<lambda>p. tm_name (snd p) = fst p) ts"
  shows "filter (\<lambda>t. tm_name t = n) (filter (\<lambda>t. tm_expires_at t \<le> now) (map snd ts)) =
    (case map_of ts n of None \<Rightarrow> [] | Some t \<Rightarrow> if tm_expires_at t \<le> now then [t] else [])"
  using assms
proof (induction ts)
  case (Cons p ts)
  have "map_of ts n = None" if "fst p = n"
    using Cons.prems that by (auto simp: map_of_eq_None_iff)
  with Cons show ?case by (auto split: option.splits)
qed simp

lemma distinct_expired:
  assumes "gca_inv g" shows "distinct (map tm_name (expired_timers now g))"
proof -
  have "map (\<lambda>p. tm_name (snd p)) (g_timers g) = map fst (g_timers g)"
    using assms by (simp add: gca_inv_def list_all_iff)
  then have "distinct (map tm_name (map snd (g_timers g)))"
    using assms by (simp only: gca_inv_def map_map comp_def)
  then show ?thesis unfolding expired_timers_def by (rule distinct_map_filter)
qed

lemma find_filter_hd: "find P xs = (case filter P xs of [] \<Rightarrow> None | x # _ \<Rightarrow> Some x)"
  by (induction xs) auto

lemma tick_timer_lookup:
  assumes "gca_inv g"
  shows "map_of (g_timers (gca_step th g (Gca_Tick r))) n =
    (case map_of (g_timers g) n of
       None \<Rightarrow> None
     | Some t \<Rightarrow> if tm_expires_at t \<le> cr_now r then timer_after t else Some t)"
proof -
  let ?g = "fst (check_session_boundaries r g)"
  have inv: "gca_inv ?g" using assms by (simp add: gca_inv_def)
  have "find (\<lambda>t. tm_name t = n) (expired_timers (cr_now r) ?g) =
      (case map_of (g_timers g) n of None \<Rightarrow> None
       | Some t \<Rightarrow> if tm_expires_at t \<le> cr_now r then Some t else None)"
    using expired_of_name [of "g_timers g" n "cr_now r"] assms
    by (simp add: find_filter_hd expired_timers_def gca_inv_def split: option.split)
  with fire_timers_lookup [OF distinct_expired [OF inv], of "cr_now r" "cr_now r" ?g n] show ?thesis
    by (simp add: gca_step_def gca_tick_def case_prod_beta fire_expired_timers_def split: option.split)
qed

definition for_timer :: "string \<Rightarrow> gca_effect \<Rightarrow> bool" where
  "for_timer n x = (case x of Timer_Expired m _ _ _ \<Rightarrow> m = n | _ \<Rightarrow> False)"

definition timer_emits :: "pyfloat \<Rightarrow> string \<Rightarrow> gca \<Rightarrow> gca_event \<Rightarrow> gca_effect list" where
  "timer_emits th n g e = filter (for_timer n) (gca_emits th g e)"

lemma boundaries_no_timer: "filter (for_timer n) (snd (check_session_boundaries r g)) = []"
  by (simp add: check_session_boundaries_def for_timer_def Let_def case_prod_beta)

lemma stalls_no_timer: "filter (for_timer n) (snd (check_stalled_agents th now g)) = []"
  by (simp add: check_stalled_agents_def filter_empty_conv for_timer_def stall_effect_def)

lemma tick_timer_emits:
  assumes "gca_inv g"
  shows "timer_emits th n g (Gca_Tick r) =
    (case map_of (g_timers g) n of
       None \<Rightarrow> []
     | Some t \<Rightarrow> if tm_expires_at t \<le> cr_now r
                then [Timer_Expired n (tm_expires_at t) (cr_now r) (tm_metadata t)] else [])"
proof -
  have f: "filter (for_timer n) (map (timer_effect now) ts) =
      map (timer_effect now) (filter (\<lambda>t. tm_name t = n) ts)" for now ts
    by (induction ts) (simp_all add: for_timer_def timer_effect_def)
  have "tm_name t = n" if "map_of (g_timers g) n = Some t" for t
    using assms map_of_SomeD [OF that] by (auto simp: gca_inv_def list_all_iff)
  with expired_of_name [of "g_timers g" n "cr_now r"] assms show ?thesis
    by (auto simp: timer_emits_def gca_emits_def gca_tick_def case_prod_beta boundaries_no_timer
        stalls_no_timer fire_expired_timers_def f expired_timers_def gca_inv_def timer_effect_def
        for_timer_def split: option.split)
qed

definition touches_timer :: "string \<Rightarrow> gca_event \<Rightarrow> bool" where
  "touches_timer n e = (case e of Gca_Register m _ _ _ \<Rightarrow> m = n | Gca_Cancel m \<Rightarrow> m = n | _ \<Rightarrow> False)"

definition due_at :: "timestamp \<Rightarrow> gca_event \<Rightarrow> bool" where
  "due_at t e = (case e of Gca_Tick r \<Rightarrow> t \<le> cr_now r | _ \<Rightarrow> False)"

definition reading_of :: "gca_event \<Rightarrow> clock_reading" where
  "reading_of e = (case e of Gca_Tick r \<Rightarrow> r | _ \<Rightarrow> \<lparr>cr_now = 0, cr_weekday = 0, cr_hour = 0, cr_minute = 0\<rparr>)"

lemma untouched_timer:
  assumes "\<not> touches_timer n e" and "\<And>r. e \<noteq> Gca_Tick r"
  shows "map_of (g_timers (gca_step th g e)) n = map_of (g_timers g) n" and "timer_emits th n g e = []"
  using assms
  by (cases e; auto simp: touches_timer_def gca_step_def register_timer_def cancel_timer_def
      on_heartbeat_def record_heartbeat_def update_conv' delete_conv' timer_emits_def gca_emits_def)+

interpretation single_timer: one_shot "gca_step th" "timer_emits th n"
    "\<lambda>g. gca_inv g \<and> map_of (g_timers g) n =
       Some \<lparr>tm_name = n, tm_expires_at = t, tm_metadata = md, tm_repeat_sec = None\<rparr>"
    "\<lambda>g. gca_inv g \<and> map_of (g_timers g) n = None"
    "touches_timer n" "due_at t" "\<lambda>e. Timer_Expired n t (cr_now (reading_of e)) md"
  for th n t md
proof
  fix g e
  assume a: "gca_inv g \<and> map_of (g_timers g) n =
      Some \<lparr>tm_name = n, tm_expires_at = t, tm_metadata = md, tm_repeat_sec = None\<rparr>"
    and nt: "\<not> touches_timer n e"
  { assume "due_at t e"
    then obtain r where e: "e = Gca_Tick r" "t \<le> cr_now r"
      by (auto simp: due_at_def split: gca_event.splits)
    with a show "timer_emits th n g e = [Timer_Expired n t (cr_now (reading_of e)) md] \<and>
        gca_inv (gca_step th g e) \<and> map_of (g_timers (gca_step th g e)) n = None"
      by (simp add: tick_timer_emits tick_timer_lookup gca_step_inv reading_of_def timer_after_def) }
  { assume "\<not> due_at t e"
    with a nt show "timer_emits th n g e = [] \<and> gca_inv (gca_step th g e) \<and>
        map_of (g_timers (gca_step th g e)) n =
          Some \<lparr>tm_name = n, tm_expires_at = t, tm_metadata = md, tm_repeat_sec = None\<rparr>"
      using untouched_timer [OF nt]
      by (cases "\<exists>r. e = Gca_Tick r")
        (auto simp: due_at_def tick_timer_emits tick_timer_lookup gca_step_inv) }
next
  fix g e
  assume "gca_inv g \<and> map_of (g_timers g) n = None" and nt: "\<not> touches_timer n e"
  then show "timer_emits th n g e = [] \<and> gca_inv (gca_step th g e) \<and>
      map_of (g_timers (gca_step th g e)) n = None"
    using untouched_timer [OF nt]
    by (cases "\<exists>r. e = Gca_Tick r") (auto simp: tick_timer_emits tick_timer_lookup gca_step_inv)
qed

section \<open>Silent agents\<close>

definition for_agent :: "string \<Rightarrow> gca_effect \<Rightarrow> bool" where
  "for_agent a x = (case x of Starvation_Alert b _ _ \<Rightarrow> b = a | _ \<Rightarrow> False)"

definition stall_emits :: "pyfloat \<Rightarrow> string \<Rightarrow> gca \<Rightarrow> gca_event \<Rightarrow> gca_effect list" where
  "stall_emits th a g e = filter (for_agent a) (gca_emits th g e)"

definition touches_agent :: "string \<Rightarrow> gca_event \<Rightarrow> bool" where
  "touches_agent a e = (case e of Gca_Heartbeat (Some b) _ \<Rightarrow> b = a | _ \<Rightarrow> False)"

definition silent_at :: "pyfloat \<Rightarrow> timestamp \<Rightarrow> gca_event \<Rightarrow> bool" where
  "silent_at th t e = (case e of Gca_Tick r \<Rightarrow> th < of_int (cr_now r - t) / 1000000 | _ \<Rightarrow> False)"

definition starvation_of :: "string \<Rightarrow> timestamp \<Rightarrow> gca_event \<Rightarrow> gca_effect" where
  "starvation_of a t e = Starvation_Alert a t (of_int (cr_now (reading_of e) - t) / 1000000)"

lemma filter_of_key:
  "distinct (map fst d) \<Longrightarrow>
   filter (\<lambda>p. fst p = a) (filter P d) =
     (case map_of d a of None \<Rightarrow> [] | Some t \<Rightarrow> if P (a, t) then [(a, t)] else [])"
proof (induction d)
  case (Cons p d)
  have "map_of d a = None" if "fst p = a"
    using that Cons.prems by (auto simp: map_of_eq_None_iff)
  with Cons show ?case by (cases p) (auto split: option.splits)
qed simp

lemma map_of_filter_dict:
  "distinct (map fst d) \<Longrightarrow>
   map_of (filter P d) a = (case map_of d a of None \<Rightarrow> None | Some t \<Rightarrow> if P (a, t) then Some t else None)"
proof (induction d)
  case (Cons p d)
  have "map_of d a = None" if "fst p = a"
    using that Cons.prems by (auto simp: map_of_eq_None_iff)
  with Cons show ?case by (cases p) (auto split: option.splits)
qed simp

lemma tick_heartbeat_lookup:
  assumes "gca_inv g"
  shows "map_of (g_heartbeats (gca_step th g (Gca_Tick r))) a =
    (case map_of (g_heartbeats g) a of
       None \<Rightarrow> None
     | Some t \<Rightarrow> if th < of_int (cr_now r - t) / 1000000 then None else Some t)"
  using assms
  by (simp add: gca_step_def gca_tick_def case_prod_beta fire_expired_timers_def
      check_stalled_agents_def map_of_filter_dict gca_inv_def stalled_def split: option.split)

lemma boundaries_no_stall: "filter (for_agent a) (snd (check_session_boundaries r g)) = []"
  by (simp add: check_session_boundaries_def for_agent_def Let_def case_prod_beta)

lemma tick_stall_emits:
  assumes "gca_inv g"
  shows "stall_emits th a g (Gca_Tick r) =
    (case map_of (g_heartbeats g) a of
       None \<Rightarrow> []
     | Some t \<Rightarrow> if th < of_int (cr_now r - t) / 1000000
                then [starvation_of a t (Gca_Tick r)] else [])"
proof -
  have f: "filter (for_agent a) (map (stall_effect now) ps) =
      map (stall_effect now) (filter (\<lambda>p. fst p = a) ps)" for now ps
    by (induction ps) (simp_all add: for_agent_def stall_effect_def)
  have t: "filter (for_agent a) (map (timer_effect now) ts) = []" for now ts
    by (induction ts) (simp_all add: for_agent_def timer_effect_def)
  show ?thesis
    using filter_of_key [of "g_heartbeats g" a "stalled th (cr_now r)"] assms
    by (simp add: stall_emits_def gca_emits_def gca_tick_def case_prod_beta boundaries_no_stall
        fire_expired_timers_def check_stalled_agents_def f t gca_inv_def stalled_def
        starvation_of_def reading_of_def for_agent_def stall_effect_def split: option.split)
qed

lemma untouched_agent:
  assumes "\<not> touches_agent a e" and "\<And>r. e \<noteq> Gca_Tick r"
  shows "map_of (g_heartbeats (gca_step th g e)) a = map_of (g_heartbeats g) a"
    and "stall_emits th a g e = []"
proof -
  show "map_of (g_heartbeats (gca_step th g e)) a = map_of (g_heartbeats g) a"
  proof (cases e)
    case (Gca_Heartbeat b now)
    with assms show ?thesis
      by (cases b) (auto simp: touches_agent_def gca_step_def on_heartbeat_def record_heartbeat_def
          update_conv')
  qed (use assms in \<open>auto simp: gca_step_def register_timer_def cancel_timer_def\<close>)
  show "stall_emits th a g e = []"
    using assms by (cases e) (auto simp: stall_emits_def gca_emits_def)
qed

interpretation silence: one_shot "gca_step th" "stall_emits th a"
    "\<lambda>g. gca_inv g \<and> map_of (g_heartbeats g) a = Some t"
    "\<lambda>g. gca_inv g \<and> map_of (g_heartbeats g) a = None"
    "touches_agent a" "silent_at th t" "starvation_of a t"
  for th a t
proof
  fix g e
  assume h: "gca_inv g \<and> map_of (g_heartbeats g) a = Some t" and nt: "\<not> touches_agent a e"
  { assume "silent_at th t e"
    then obtain r where "e = Gca_Tick r" "th < of_int (cr_now r - t) / 1000000"
      by (auto simp: silent_at_def split: gca_event.splits)
    with h show "stall_emits th a g e = [starvation_of a t e] \<and>
        gca_inv (gca_step th g e) \<and> map_of (g_heartbeats (gca_step th g e)) a = None"
      by (simp add: tick_stall_emits tick_heartbeat_lookup gca_step_inv) }
  { assume "\<not> silent_at th t e"
    with h nt show "stall_emits th a g e = [] \<and> gca_inv (gca_step th g e) \<and>
        map_of (g_heartbeats (gca_step th g e)) a = Some t"
      using untouched_agent [OF nt]
      by (cases "\<exists>r. e = Gca_Tick r")
        (auto simp: silent_at_def tick_stall_emits tick_heartbeat_lookup gca_step_inv) }
next
  fix g e
  assume "gca_inv g \<and> map_of (g_heartbeats g) a = None" and nt: "\<not> touches_agent a e"
  then show "stall_emits th a g e = [] \<and> gca_inv (gca_step th g e) \<and>
      map_of (g_heartbeats (gca_step th g e)) a = None"
    using untouched_agent [OF nt]
    by (cases "\<exists>r. e = Gca_Tick r") (auto simp: tick_stall_emits tick_heartbeat_lookup gca_step_inv)
qed

section \<open>The session of a day\<close>

definition is_session :: "gca_effect \<Rightarrow> bool" where
  "is_session x = (case x of Session_Start _ \<Rightarrow> True | Session_End _ \<Rightarrow> True | _ \<Rightarrow> False)"

definition session_emits :: "pyfloat \<Rightarrow> gca \<Rightarrow> gca_event \<Rightarrow> gca_effect list" where
  "session_emits th g e = filter is_session (gca_emits th g e)"

fun readings :: "gca_event list \<Rightarrow> clock_reading list" where
  "readings [] = []"
| "readings (Gca_Tick r # es) = r # readings es"
| "readings (_ # es) = readings es"

definition minute_of :: "clock_reading \<Rightarrow> nat" where
  "minute_of r = 60 * cr_hour r + cr_minute r"

definition weekday_reading :: "clock_reading \<Rightarrow> bool" where
  "weekday_reading r \<longleftrightarrow> cr_weekday r < 5 \<and> cr_minute r < 60"

lemma reading_minutes:
  assumes "weekday_reading r"
  shows "is_open_minute r \<longleftrightarrow> minute_of r = 570" "before_open r \<longleftrightarrow> minute_of r < 570"
    "past_close r \<longleftrightarrow> 960 \<le> minute_of r"
  using assms unfolding weekday_reading_def is_open_minute_def before_open_def past_close_def minute_of_def
  by presburger+

lemma tick_session:
  "g_open_fired (gca_step th g (Gca_Tick r)) = g_open_fired (fst (check_session_boundaries r g))"
  "g_close_fired (gca_step th g (Gca_Tick r)) = g_close_fired (fst (check_session_boundaries r g))"
  "session_emits th g (Gca_Tick r) = filter is_session (snd (check_session_boundaries r g))"
proof -
  have t: "filter is_session (map (timer_effect now) ts) = []" for now ts
    by (induction ts) (simp_all add: is_session_def timer_effect_def)
  show "session_emits th g (Gca_Tick r) = filter is_session (snd (check_session_boundaries r g))"
    by (simp add: session_emits_def gca_emits_def gca_tick_def case_prod_beta fire_expired_timers_def
        check_stalled_agents_def t is_session_def filter_empty_conv stall_effect_def)
qed (simp_all add: gca_step_def gca_tick_def case_prod_beta fire_expired_timers_def)

lemma other_session:
  assumes "\<And>r. e \<noteq> Gca_Tick r"
  shows "g_open_fired (gca_step th g e) = g_open_fired g" "g_close_fired (gca_step th g e) = g_close_fired g"
    "session_emits th g e = []" "readings (e # es) = readings es"
  using assms
  by (cases e; auto simp: gca_step_def register_timer_def cancel_timer_def on_heartbeat_def
      record_heartbeat_def session_emits_def gca_emits_def)+

lemma closed_session:
  assumes "g_open_fired g" "g_close_fired g"
    and "\<forall>r \<in> set (readings es). weekday_reading r \<and> 570 \<le> minute_of r"
  shows "run_out (gca_step th) (session_emits th) g es = []"
  using assms
proof (induction es arbitrary: g)
  case (Cons e es)
  show ?case
  proof (cases "\<exists>r. e = Gca_Tick r")
    case True
    then obtain r where e: "e = Gca_Tick r" by blast
    with Cons.prems have "weekday_reading r" "570 \<le> minute_of r" by simp_all
    with Cons e show ?thesis
      by (simp add: tick_session check_session_boundaries_def reading_minutes)
  next
    case False
    with Cons other_session [of e] show ?thesis by (simp split: option.split)
  qed
qed simp

lemma open_session:
  assumes "g_open_fired g" "\<not> g_close_fired g"
    and "\<forall>r \<in> set (readings es). weekday_reading r \<and> 570 \<le> minute_of r"
  shows "run_out (gca_step th) (session_emits th) g es =
    (case find past_close (readings es) of None \<Rightarrow> [] | Some r \<Rightarrow> [Session_End (cr_now r)])"
  using assms
proof (induction es arbitrary: g)
  case (Cons e es)
  show ?case
  proof (cases "\<exists>r. e = Gca_Tick r")
    case True
    then obtain r where e: "e = Gca_Tick r" by blast
    with Cons.prems have r: "weekday_reading r" "570 \<le> minute_of r" by simp_all
    show ?thesis
    proof (cases "past_close r")
      case True
      with r have "\<not> is_open_minute r" "\<not> before_open r" by (simp_all add: reading_minutes)
      with Cons.prems e True show ?thesis
        by (simp add: tick_session check_session_boundaries_def is_session_def closed_session)
    next
      case False
      with Cons e r show ?thesis
        by (simp add: tick_session check_session_boundaries_def reading_minutes)
    qed
  next
    case False
    with Cons other_session [of e] show ?thesis by (simp split: option.split)
  qed
qed simp

lemma unopened_session:
  assumes "\<not> g_open_fired g" and "\<forall>r \<in> set (readings es). weekday_reading r"
    and "sorted (map minute_of (readings es))"
  shows "run_out (gca_step th) (session_emits th) g es =
    (case find is_open_minute (readings es) of
       None \<Rightarrow> []
     | Some r \<Rightarrow> Session_Start (cr_now r) #
         (case find past_close (readings es) of None \<Rightarrow> [] | Some q \<Rightarrow> [Session_End (cr_now q)]))"
  using assms
proof (induction es arbitrary: g)
  case (Cons e es)
  show ?case
  proof (cases "\<exists>r. e = Gca_Tick r")
    case True
    then obtain r where e: "e = Gca_Tick r" by blast
    with Cons.prems have r: "weekday_reading r" by simp
    have later: "\<forall>q \<in> set (readings es). weekday_reading q \<and> minute_of r \<le> minute_of q"
      using Cons.prems e by auto
    show ?thesis
    proof (cases "is_open_minute r")
      case True
      with r have m: "minute_of r = 570" "\<not> past_close r" by (simp_all add: reading_minutes)
      let ?g = "gca_step th g (Gca_Tick r)"
      have "g_open_fired ?g" "\<not> g_close_fired ?g"
        "session_emits th g (Gca_Tick r) = [Session_Start (cr_now r)]"
        using Cons.prems True m
        by (simp_all add: tick_session check_session_boundaries_def is_session_def)
      with True m later open_session [of ?g es th] show ?thesis by (simp add: e)
    next
      case False
      have s: "\<not> g_open_fired (gca_step th g (Gca_Tick r))" "session_emits th g (Gca_Tick r) = []"
        using Cons.prems False by (simp_all add: tick_session check_session_boundaries_def)
      have "find is_open_minute (readings es) = None" if "past_close r"
        using that r later by (auto simp: find_None_iff reading_minutes)
      with Cons s False show ?thesis by (auto simp: e split: option.split)
    qed
  next
    case False
    with Cons other_session [of e] show ?thesis by (simp split: option.split)
  qed
qed simp

section \<open>Properties\<close>

text \<open>C36. A timer goes off exactly once: a registered one-shot timer that nobody cancels or registers
  anew is announced by the first tick at or after its expiry, with that tick's time, and by no
  other; with no such tick it is not announced.\<close>

theorem timer_fires_exactly_once:
  assumes "gca_inv g" and "\<forall>e \<in> set es. \<not> touches_timer n e"
  shows "run_out (gca_step th) (timer_emits th n) (register_timer n t md None g) es =
    (case find (due_at t) es of None \<Rightarrow> [] | Some e \<Rightarrow> [Timer_Expired n t (cr_now (reading_of e)) md])"
proof (rule single_timer.first_due)
  have "gca_inv (gca_step th g (Gca_Register n t md None))" using assms(1) by (rule gca_step_inv)
  then show "gca_inv (register_timer n t md None g) \<and> map_of (g_timers (register_timer n t md None g)) n =
      Some \<lparr>tm_name = n, tm_expires_at = t, tm_metadata = md, tm_repeat_sec = None\<rparr>"
    by (simp add: gca_step_def register_timer_def update_conv')
qed (use assms(2) in blast)

text \<open>A silent agent is reported once: after an agent's last heartbeat, the first tick more than
  the threshold later raises the alert with the length of the silence, and no other tick does
  until the agent is heard again.\<close>

theorem silent_agent_reported_once:
  assumes "gca_inv g" and "a \<noteq> []" and "\<forall>e \<in> set es. \<not> touches_agent a e"
  shows "run_out (gca_step th) (stall_emits th a) (on_heartbeat (Some a) t g) es =
    (case find (silent_at th t) es of None \<Rightarrow> [] | Some e \<Rightarrow> [starvation_of a t e])"
proof (rule silence.first_due)
  have "gca_inv (gca_step th g (Gca_Heartbeat (Some a) t))" using assms(1) by (rule gca_step_inv)
  with assms(2) show "gca_inv (on_heartbeat (Some a) t g) \<and>
      map_of (g_heartbeats (on_heartbeat (Some a) t g)) a = Some t"
    by (simp add: gca_step_def on_heartbeat_def record_heartbeat_def update_conv')
qed (use assms(3) in blast)

text \<open>A day's session: on a weekday whose clock was first read before the open, with readings in
  order, the session starts at most once, with the first reading in the minute of the open,
  and ends at most once, with the first reading from the close on, if it started. A day without
  a reading in that one minute has no session at all.\<close>

theorem day_has_one_session:
  assumes "before_open r0" and "\<forall>r \<in> set (readings es). weekday_reading r"
    and "sorted (map minute_of (readings es))"
  shows "run_out (gca_step th) (session_emits th) g (Gca_Tick r0 # es) =
    (case find is_open_minute (readings es) of
       None \<Rightarrow> []
     | Some r \<Rightarrow> Session_Start (cr_now r) #
         (case find past_close (readings es) of None \<Rightarrow> [] | Some q \<Rightarrow> [Session_End (cr_now q)]))"
proof -
  have "\<not> is_open_minute r0" "\<not> past_close r0"
    using assms(1) by (auto simp: before_open_def is_open_minute_def past_close_def)
  with assms(1) have "\<not> g_open_fired (gca_step th g (Gca_Tick r0))" "session_emits th g (Gca_Tick r0) = []"
    by (simp_all add: tick_session check_session_boundaries_def)
  with unopened_session [OF _ assms(2,3), of "gca_step th g (Gca_Tick r0)" th] show ?thesis by simp
qed

text \<open>A repeating timer does not drift: the expiries it announces are the registered one and its
  multiples of the repeat time, one after the other, however late the ticks come.\<close>

lemma repeating_timer_run:
  assumes "gca_inv g" and "\<forall>e \<in> set es. \<not> touches_timer n e"
    and "map_of (g_timers g) n =
      Some \<lparr>tm_name = n, tm_expires_at = t, tm_metadata = md, tm_repeat_sec = Some p\<rparr>"
  shows "\<exists>k. map (\<lambda>x. case x of Timer_Expired _ e _ _ \<Rightarrow> e | _ \<Rightarrow> 0)
           (run_out (gca_step th) (timer_emits th n) g es) = map (\<lambda>i. t + int i * seconds p) [0..<k]"
  using assms
proof (induction es arbitrary: g t)
  case (Cons e es)
  show ?case
  proof (cases "\<exists>r. e = Gca_Tick r \<and> t \<le> cr_now r")
    case True
    then obtain r where e: "e = Gca_Tick r" "t \<le> cr_now r" by blast
    let ?g = "gca_step th g e"
    have "gca_inv ?g" "map_of (g_timers ?g) n = Some \<lparr>tm_name = n, tm_expires_at = t + seconds p,
        tm_metadata = md, tm_repeat_sec = Some p\<rparr>"
      using Cons.prems e by (simp_all add: gca_step_inv tick_timer_lookup timer_after_def)
    then obtain k where k: "map (\<lambda>x. case x of Timer_Expired _ e _ _ \<Rightarrow> e | _ \<Rightarrow> 0)
        (run_out (gca_step th) (timer_emits th n) ?g es) =
        map (\<lambda>i. t + seconds p + int i * seconds p) [0..<k]"
      using Cons.IH [of ?g "t + seconds p"] Cons.prems by auto
    have "map (\<lambda>i. t + int i * seconds p) [0..<Suc k] =
        t # map (\<lambda>i. t + seconds p + int i * seconds p) [0..<k]"
      by (simp add: upt_conv_Cons map_Suc_upt [symmetric] algebra_simps del: upt_Suc)
    with k show ?thesis
      using Cons.prems e by (intro exI [of _ "Suc k"]) (simp add: tick_timer_emits del: upt_Suc)
  next
    case False
    have nt: "\<not> touches_timer n e" using Cons.prems by simp
    have "map_of (g_timers (gca_step th g e)) n = map_of (g_timers g) n" "timer_emits th n g e = []"
      using untouched_timer [OF nt] False Cons.prems
      by (cases "\<exists>r. e = Gca_Tick r"; auto simp: tick_timer_lookup tick_timer_emits)+
    with Cons show ?thesis by (simp add: gca_step_inv)
  qed
qed simp

theorem timer_fires_exactly_once_witness:
  "run_out (gca_step 5) (timer_emits 5 ''x'') (register_timer ''x'' 10 [] None gca_init)
     [Gca_Tick \<lparr>cr_now = 9, cr_weekday = 0, cr_hour = 9, cr_minute = 0\<rparr>,
      Gca_Tick \<lparr>cr_now = 12, cr_weekday = 0, cr_hour = 9, cr_minute = 0\<rparr>,
      Gca_Tick \<lparr>cr_now = 14, cr_weekday = 0, cr_hour = 9, cr_minute = 0\<rparr>] =
   [Timer_Expired ''x'' 10 12 []]"
  by (subst timer_fires_exactly_once)
    (simp_all add: gca_inv_def gca_init_def touches_timer_def due_at_def reading_of_def)

theorem silent_agent_reported_once_witness:
  "run_out (gca_step 5) (stall_emits 5 ''a'') (on_heartbeat (Some ''a'') 0 gca_init)
     [Gca_Tick \<lparr>cr_now = 6000000, cr_weekday = 0, cr_hour = 9, cr_minute = 0\<rparr>,
      Gca_Tick \<lparr>cr_now = 9000000, cr_weekday = 0, cr_hour = 9, cr_minute = 0\<rparr>] =
   [Starvation_Alert ''a'' 0 6]"
  by (subst silent_agent_reported_once)
    (simp_all add: gca_inv_def gca_init_def touches_agent_def silent_at_def starvation_of_def reading_of_def)

theorem day_has_one_session_witness:
  "run_out (gca_step 5) (session_emits 5) gca_init
     (map (\<lambda>(t, h, m). Gca_Tick \<lparr>cr_now = t, cr_weekday = 2, cr_hour = h, cr_minute = m\<rparr>)
        [(1, 9, 0), (2, 9, 30), (3, 9, 30), (4, 16, 0), (5, 17, 0)]) =
   [Session_Start 2, Session_End 4]"
  unfolding list.map prod.case
  by (subst day_has_one_session)
    (simp_all add: before_open_def weekday_reading_def minute_of_def is_open_minute_def past_close_def)

end
