(* ===== verification/Message_Bus.thy ===== *)
theory Message_Bus
  imports Enums "HOL-Library.AList"
begin

text \<open>
  The message bus of \<open>infrastructure/message_bus.py\<close> without Redis: the facade
  \<open>MessageBus\<close> with its handler table, the in-memory backend \<open>InMemoryBus\<close> and its pump
  tasks, and the tables that \<open>start_consuming\<close> fills for the disruptor and shared-memory
  backends. Topics are their string values, handlers and messages are opaque (a message is
  serialised and parsed again on the way, which gives back an equal one). A pump task is a
  pair of a queue and a handler; which waiting pump runs next is chosen by the environment.
  A handler's exception is logged by the pump, so a delivery is one step.
\<close>

section \<open>State\<close>

datatype backend_kind = No_Backend | In_Memory | Disruptor | Shared_Memory

record 'm bus_queue =
  bq_topic :: string
  bq_items :: "'m list"

record ('h, 'm) bus =
  mb_backend :: backend_kind
  mb_using_fallback :: bool
  mb_handlers :: "(string \<times> 'h list) list"
  mb_queues :: "'m bus_queue list"
  mb_pumps :: "(nat \<times> 'h) list"
  mb_waiting :: "('m \<times> nat list) list"
  mb_table :: "(string \<times> 'h list) list"
  mb_processors :: nat

definition bus_init :: "('h, 'm) bus" where
  "bus_init = \<lparr>mb_backend = No_Backend, mb_using_fallback = False, mb_handlers = [],
     mb_queues = [], mb_pumps = [], mb_waiting = [], mb_table = [], mb_processors = 0\<rparr>"

text \<open>\<open>connect\<close> without a Redis address.\<close>

definition bus_connect :: "bool \<Rightarrow> bool \<Rightarrow> ('h, 'm) bus \<Rightarrow> ('h, 'm) bus" where
  "bus_connect disruptor shared_memory b =
     b\<lparr>mb_backend := (if disruptor then Disruptor else if shared_memory then Shared_Memory else In_Memory),
       mb_using_fallback := True\<rparr>"

section \<open>Subscribing\<close>

text \<open>\<open>self._handlers[topic].append(handler)\<close>, with the default of an empty list.\<close>

definition add_handler :: "string \<Rightarrow> 'h \<Rightarrow> (string \<times> 'h list) list \<Rightarrow> (string \<times> 'h list) list" where
  "add_handler topic h tab =
     AList.update topic ((case map_of tab topic of None \<Rightarrow> [] | Some hs \<Rightarrow> hs) @ [h]) tab"

definition bus_subscribe :: "string \<Rightarrow> 'h \<Rightarrow> ('h, 'm) bus \<Rightarrow> ('h, 'm) bus" where
  "bus_subscribe topic h b = b\<lparr>mb_handlers := add_handler topic h (mb_handlers b)\<rparr>"

text \<open>
  \<open>start_consuming\<close> goes over the whole handler table, whoever filled it: in memory it makes
  one queue for each topic and one pump for each handler on that queue; for the two ring
  backends it registers every handler once more and starts another consumer task.
\<close>

definition start_topic :: "string \<times> 'h list \<Rightarrow> ('h, 'm) bus \<Rightarrow> ('h, 'm) bus" where
  "start_topic th b =
     (case th of (topic, hs) \<Rightarrow>
        b\<lparr>mb_queues := mb_queues b @ [\<lparr>bq_topic = topic, bq_items = []\<rparr>],
          mb_pumps := mb_pumps b @ map (\<lambda>h. (length (mb_queues b), h)) hs\<rparr>)"

definition register_topic :: "string \<times> 'h list \<Rightarrow> ('h, 'm) bus \<Rightarrow> ('h, 'm) bus" where
  "register_topic th b =
     (case th of (topic, hs) \<Rightarrow> b\<lparr>mb_table := fold (add_handler topic) hs (mb_table b)\<rparr>)"

definition start_consuming :: "('h, 'm) bus \<Rightarrow> ('h, 'm) bus" where
  "start_consuming b =
     (case mb_backend b of
        In_Memory \<Rightarrow> fold start_topic (mb_handlers b) b
      | Disruptor \<Rightarrow>
          (let b1 = fold register_topic (mb_handlers b) b
           in b1\<lparr>mb_processors := mb_processors b1 + 1\<rparr>)
      | Shared_Memory \<Rightarrow>
          (let b1 = fold register_topic (mb_handlers b) b
           in b1\<lparr>mb_processors := mb_processors b1 + 1\<rparr>)
      | No_Backend \<Rightarrow> b)"

section \<open>Publishing and pumping\<close>

definition queue_capacity :: nat where "queue_capacity = 1000"

text \<open>
  \<open>publish\<close> puts the message into the queues of its topic one after the other and waits at a
  full one. The result lists the queues still to be served: empty when it is done.
\<close>

fun put_queues :: "'m \<Rightarrow> nat list \<Rightarrow> 'm bus_queue list \<Rightarrow> 'm bus_queue list \<times> nat list" where
  "put_queues m [] qs = (qs, [])"
| "put_queues m (i # is) qs =
     (if queue_capacity \<le> length (bq_items (qs ! i)) then (qs, i # is)
      else put_queues m is (qs[i := (qs ! i)\<lparr>bq_items := bq_items (qs ! i) @ [m]\<rparr>]))"

definition topic_queues :: "string \<Rightarrow> 'm bus_queue list \<Rightarrow> nat list" where
  "topic_queues topic qs = filter (\<lambda>i. bq_topic (qs ! i) = topic) [0..<length qs]"

text \<open>
  In memory only; \<open>None\<close> is the \<open>RuntimeError\<close> of a bus that is not connected. A publisher
  that meets a full queue is kept with what it still has to do, and goes on when it runs again.
\<close>

definition keep_waiting :: "'m \<Rightarrow> nat list \<Rightarrow> ('h, 'm) bus \<Rightarrow> ('h, 'm) bus" where
  "keep_waiting m rest b = (if rest = [] then b else b\<lparr>mb_waiting := mb_waiting b @ [(m, rest)]\<rparr>)"

definition bus_publish :: "string \<Rightarrow> 'm \<Rightarrow> ('h, 'm) bus \<Rightarrow> ('h, 'm) bus option" where
  "bus_publish topic m b =
     (if mb_backend b = No_Backend then None
      else
        (case put_queues m (topic_queues topic (mb_queues b)) (mb_queues b) of
           (qs, rest) \<Rightarrow> Some (keep_waiting m rest (b\<lparr>mb_queues := qs\<rparr>))))"

definition publisher_turn :: "nat \<Rightarrow> ('h, 'm) bus \<Rightarrow> ('h, 'm) bus" where
  "publisher_turn k b =
     (if length (mb_waiting b) \<le> k then b
      else
        (case mb_waiting b ! k of (m, is) \<Rightarrow>
           (case put_queues m is (mb_queues b) of
              (qs, rest) \<Rightarrow>
                b\<lparr>mb_queues := qs,
                  mb_waiting := (if rest = [] then take k (mb_waiting b) @ drop (Suc k) (mb_waiting b)
                                 else (mb_waiting b)[k := (m, rest)])\<rparr>)))"

text \<open>The pump at position \<open>j\<close> takes the next message of its queue and calls its handler.\<close>

definition pump_turn :: "nat \<Rightarrow> ('h, 'm) bus \<Rightarrow> ('h, 'm) bus \<times> (nat \<times> 'h \<times> 'm) list" where
  "pump_turn j b =
     (if length (mb_pumps b) \<le> j then (b, [])
      else
        (case mb_pumps b ! j of (i, h) \<Rightarrow>
           (case bq_items (mb_queues b ! i) of
              [] \<Rightarrow> (b, [])
            | m # ms \<Rightarrow>
                (b\<lparr>mb_queues := (mb_queues b)[i := (mb_queues b ! i)\<lparr>bq_items := ms\<rparr>]\<rparr>, [(i, h, m)]))))"

text \<open>The two health questions, and the dispatch of one message by one consumer of a ring backend.\<close>

definition bus_is_healthy :: "('h, 'm) bus \<Rightarrow> bool" where
  "bus_is_healthy b \<longleftrightarrow> mb_backend b \<noteq> No_Backend"

definition ring_dispatch :: "string \<Rightarrow> ('h, 'm) bus \<Rightarrow> 'h list" where
  "ring_dispatch topic b = (case map_of (mb_table b) topic of None \<Rightarrow> [] | Some hs \<Rightarrow> hs)"

section \<open>Runs of a started bus\<close>

datatype 'm bus_event = Bus_Publish string 'm | Bus_Publisher nat | Bus_Pump nat

fun bus_event_step :: "('h, 'm) bus \<Rightarrow> 'm bus_event \<Rightarrow> ('h, 'm) bus \<times> (nat \<times> 'h \<times> 'm) list"
where
  "bus_event_step b (Bus_Publish topic m) =
     (case bus_publish topic m b of None \<Rightarrow> (b, []) | Some b' \<Rightarrow> (b', []))"
| "bus_event_step b (Bus_Publisher k) = (publisher_turn k b, [])"
| "bus_event_step b (Bus_Pump j) = pump_turn j b"

definition bus_step :: "('h, 'm) bus \<Rightarrow> 'm bus_event \<Rightarrow> ('h, 'm) bus" where
  "bus_step b e = fst (bus_event_step b e)"

definition bus_delivers :: "('h, 'm) bus \<Rightarrow> 'm bus_event \<Rightarrow> (nat \<times> 'h \<times> 'm) list" where
  "bus_delivers b e = snd (bus_event_step b e)"

text \<open>The messages an event puts into queues, with the queue.\<close>

definition served :: "'m \<Rightarrow> nat list \<Rightarrow> 'm bus_queue list \<Rightarrow> (nat \<times> 'm) list" where
  "served m is qs = map (\<lambda>i. (i, m)) (take (length is - length (snd (put_queues m is qs))) is)"

definition bus_puts :: "('h, 'm) bus \<Rightarrow> 'm bus_event \<Rightarrow> (nat \<times> 'm) list" where
  "bus_puts b e =
     (case e of
        Bus_Publish topic m \<Rightarrow>
          if mb_backend b = No_Backend then []
          else served m (topic_queues topic (mb_queues b)) (mb_queues b)
      | Bus_Publisher k \<Rightarrow>
          if length (mb_waiting b) \<le> k then []
          else served (fst (mb_waiting b ! k)) (snd (mb_waiting b ! k)) (mb_queues b)
      | Bus_Pump j \<Rightarrow> [])"

section \<open>Every put is delivered once\<close>

text \<open>A bus whose pumps and waiting publishers refer to existing queues.\<close>

definition bus_ok :: "('h, 'm) bus \<Rightarrow> bool" where
  "bus_ok b \<longleftrightarrow>
     list_all (\<lambda>p. fst p < length (mb_queues b)) (mb_pumps b) \<and>
     list_all (\<lambda>w. list_all (\<lambda>i. i < length (mb_queues b)) (snd w)) (mb_waiting b)"

lemma put_queues_length [simp]: "length (fst (put_queues m is qs)) = length qs"
  by (induction m "is" qs rule: put_queues.induct) simp_all

lemma put_queues_rest: "set (snd (put_queues m is qs)) \<subseteq> set is"
  by (induction m "is" qs rule: put_queues.induct) auto

lemma put_queues_suffix: "length (snd (put_queues m is qs)) \<le> length is"
  by (induction m "is" qs rule: put_queues.induct) auto

lemma put_queues_items:
  assumes "list_all (\<lambda>i. i < length qs) is" and "i < length qs"
  shows "bq_items (fst (put_queues m is qs) ! i) =
    bq_items (qs ! i) @ map snd (filter (\<lambda>p. fst p = i) (served m is qs))"
  using assms
proof (induction m "is" qs rule: put_queues.induct)
  case (2 m k "is" qs)
  let ?qs = "qs[k := (qs ! k)\<lparr>bq_items := bq_items (qs ! k) @ [m]\<rparr>]"
  show ?case
  proof (cases "queue_capacity \<le> length (bq_items (qs ! k))")
    case True
    then show ?thesis by (simp add: served_def)
  next
    case False
    have "Suc (length is) - length (snd (put_queues m is ?qs)) =
        Suc (length is - length (snd (put_queues m is ?qs)))"
      using put_queues_suffix [of m "is" ?qs] by simp
    then have "served m (k # is) qs = (k, m) # served m is ?qs"
      using False by (simp add: served_def)
    with 2 False show ?thesis by (auto simp: nth_list_update)
  qed
qed (simp add: served_def)

lemma topic_queues_bound: "list_all (\<lambda>i. i < length qs) (topic_queues topic qs)"
  by (simp add: topic_queues_def list_all_iff)

lemma bus_step_shape [simp]:
  "length (mb_queues (bus_step b e)) = length (mb_queues b)"
  "mb_pumps (bus_step b e) = mb_pumps b"
  by (cases e; simp add: bus_step_def bus_publish_def publisher_turn_def pump_turn_def keep_waiting_def
      case_prod_beta split: list.split)+

lemma bus_step_ok: "bus_ok b \<Longrightarrow> bus_ok (bus_step b e)"
proof (cases e)
  case (Bus_Publish topic m)
  let ?r = "put_queues m (topic_queues topic (mb_queues b)) (mb_queues b)"
  assume "bus_ok b"
  moreover have "list_all (\<lambda>i. i < length (mb_queues b)) (snd ?r)"
    using put_queues_rest [of m "topic_queues topic (mb_queues b)" "mb_queues b"]
      topic_queues_bound [of "mb_queues b" topic] by (auto simp: list_all_iff)
  ultimately show ?thesis
    by (simp add: Bus_Publish bus_step_def bus_publish_def keep_waiting_def case_prod_beta bus_ok_def)
next
  case (Bus_Publisher k)
  assume ok: "bus_ok b"
  show ?thesis
  proof (cases "k < length (mb_waiting b)")
    case True
    let ?w = "mb_waiting b ! k"
    let ?r = "put_queues (fst ?w) (snd ?w) (mb_queues b)"
    have "?w \<in> set (mb_waiting b)" using True by simp
    with ok have "list_all (\<lambda>i. i < length (mb_queues b)) (snd ?w)"
      by (auto simp: bus_ok_def list_all_iff)
    then have "list_all (\<lambda>i. i < length (mb_queues b)) (snd ?r)"
      using put_queues_rest [of "fst ?w" "snd ?w" "mb_queues b"] by (auto simp: list_all_iff)
    with ok True show ?thesis
      by (auto simp: Bus_Publisher bus_step_def publisher_turn_def case_prod_beta bus_ok_def list_all_iff
          dest: in_set_takeD in_set_dropD set_update_subset_insert [THEN subsetD])
  next
    case False
    with ok show ?thesis by (simp add: Bus_Publisher bus_step_def publisher_turn_def)
  qed
next
  case (Bus_Pump j)
  assume "bus_ok b"
  then show ?thesis
    by (auto simp: Bus_Pump bus_step_def pump_turn_def bus_ok_def case_prod_beta split: list.split)
qed

interpretation bus: inv_machine bus_step bus_ok
  by unfold_locales (rule bus_step_ok)

abbreviation into_queue :: "nat \<Rightarrow> (nat \<times> 'a) list \<Rightarrow> 'a list" where
  "into_queue i ps \<equiv> map snd (filter (\<lambda>p. fst p = i) ps)"

lemma bus_step_items:
  assumes "bus_ok b" and "i < length (mb_queues b)"
  shows "map snd (into_queue i (bus_delivers b e)) @ bq_items (mb_queues (bus_step b e) ! i) =
         bq_items (mb_queues b ! i) @ into_queue i (bus_puts b e)"
proof (cases e)
  case (Bus_Publish topic m)
  with put_queues_items [OF topic_queues_bound assms(2)] show ?thesis
    by (simp add: bus_step_def bus_delivers_def bus_publish_def keep_waiting_def case_prod_beta bus_puts_def)
next
  case (Bus_Publisher k)
  show ?thesis
  proof (cases "k < length (mb_waiting b)")
    case True
    then have "list_all (\<lambda>i. i < length (mb_queues b)) (snd (mb_waiting b ! k))"
      using assms(1) nth_mem [OF True] by (auto simp: bus_ok_def list_all_iff)
    from put_queues_items [OF this assms(2)] True show ?thesis
      by (simp add: Bus_Publisher bus_step_def bus_delivers_def publisher_turn_def case_prod_beta bus_puts_def)
  next
    case False
    then show ?thesis
      by (simp add: Bus_Publisher bus_step_def bus_delivers_def publisher_turn_def bus_puts_def)
  qed
next
  case (Bus_Pump j)
  have "fst (mb_pumps b ! j) < length (mb_queues b)" if "j < length (mb_pumps b)"
    using assms(1) nth_mem [OF that] by (auto simp: bus_ok_def list_all_iff)
  then show ?thesis
    by (auto simp: Bus_Pump bus_step_def bus_delivers_def bus_puts_def pump_turn_def case_prod_beta
        nth_list_update split: list.split)
qed

lemma bus_run_items:
  assumes "bus_ok b" and "i < length (mb_queues b)"
  shows "map snd (into_queue i (run_out bus_step bus_delivers b es)) @
           bq_items (mb_queues (foldl bus_step b es) ! i) =
         bq_items (mb_queues b ! i) @ into_queue i (run_out bus_step bus_puts b es)"
  using assms
proof (induction es arbitrary: b)
  case (Cons e es)
  let ?b = "bus_step b e"
  have "map snd (into_queue i (run_out bus_step bus_delivers ?b es)) @
      bq_items (mb_queues (foldl bus_step ?b es) ! i) =
      bq_items (mb_queues ?b ! i) @ into_queue i (run_out bus_step bus_puts ?b es)"
    using Cons.prems by (intro Cons.IH) (simp_all add: bus_step_ok)
  with bus_step_items [OF Cons.prems, of e] show ?case
    by simp
qed simp

section \<open>Agents that start one after the other\<close>

text \<open>What \<open>BaseAgent.start\<close> does to the bus, for agents with one handler on one topic.\<close>

definition start_agent :: "string \<Rightarrow> ('h, 'm) bus \<Rightarrow> 'h \<Rightarrow> ('h, 'm) bus" where
  "start_agent topic b h = start_consuming (bus_subscribe topic h b)"

definition started_agents :: "bool \<Rightarrow> bool \<Rightarrow> string \<Rightarrow> 'h list \<Rightarrow> ('h, 'm) bus" where
  "started_agents disruptor shared topic hs =
     foldl (start_agent topic) (bus_connect disruptor shared bus_init) hs"

lemma started_agents_snoc:
  "started_agents d s topic (hs @ [h]) = start_agent topic (started_agents d s topic hs) h"
  by (simp add: started_agents_def)

lemma fold_topics_frame [simp]:
  "mb_handlers (fold start_topic ths b) = mb_handlers b"
  "mb_backend (fold start_topic ths b) = mb_backend b"
  "mb_handlers (fold register_topic ths b) = mb_handlers b"
  "mb_backend (fold register_topic ths b) = mb_backend b"
  by (induction ths arbitrary: b) (simp_all add: start_topic_def register_topic_def case_prod_beta)

lemma start_agent_frame:
  "mb_handlers (start_agent topic b h) = add_handler topic h (mb_handlers b)"
  "mb_backend (start_agent topic b h) = mb_backend b"
  by (simp_all add: start_agent_def start_consuming_def bus_subscribe_def Let_def split: backend_kind.split)

lemma started_backend:
  "mb_backend (started_agents d s topic hs) = (if d then Disruptor else if s then Shared_Memory else In_Memory)"
  by (induction hs rule: rev_induct)
    (simp_all add: started_agents_snoc start_agent_frame, simp add: started_agents_def bus_connect_def)

lemma started_handlers:
  "mb_handlers (started_agents d s topic hs) = (if hs = [] then [] else [(topic, hs)])"
  by (induction hs rule: rev_induct)
    (simp_all add: started_agents_snoc start_agent_frame add_handler_def,
     simp add: started_agents_def bus_connect_def bus_init_def)

lemma start_agent_in_memory:
  fixes hs :: "'h list" and topic :: string
  defines "b \<equiv> (started_agents False False topic hs :: ('h, 'm) bus)"
  shows "start_agent topic b h =
     start_topic (topic, hs @ [h]) (bus_subscribe topic h b)"
  by (simp add: b_def start_agent_def start_consuming_def bus_subscribe_def add_handler_def
      started_handlers started_backend)

lemma started_queues:
  "mb_queues (started_agents False False topic hs) = replicate (length hs) \<lparr>bq_topic = topic, bq_items = []\<rparr>"
proof (induction hs rule: rev_induct)
  case Nil
  show ?case by (simp add: started_agents_def bus_connect_def bus_init_def)
next
  case (snoc h hs)
  then show ?case
    by (simp add: started_agents_snoc start_agent_in_memory start_topic_def bus_subscribe_def
        replicate_append_same)
qed

lemma started_waiting: "mb_waiting (started_agents False False topic hs) = []"
proof (induction hs rule: rev_induct)
  case Nil
  show ?case by (simp add: started_agents_def bus_connect_def bus_init_def)
next
  case (snoc h hs)
  then show ?case
    by (simp add: started_agents_snoc start_agent_in_memory start_topic_def bus_subscribe_def)
qed

text \<open>The queue made by the start of agent \<open>i\<close> has a pump of each of the agents up to \<open>i\<close>.\<close>

lemma started_pumps:
  fixes hs :: "'h list"
  shows "set (mb_pumps (started_agents False False topic hs :: ('h, 'm) bus)) = {(i, hs ! k) | i k. k \<le> i \<and> i < length hs}"
proof (induction hs rule: rev_induct)
  case Nil
  show ?case by (simp add: started_agents_def bus_connect_def bus_init_def)
next
  case (snoc h hs)
  let ?n = "length hs"
  have new: "set (map (\<lambda>h. (m, h)) xs) = {(m, xs ! k) | k. k < length xs}" for m :: nat and xs :: "'a list"
    by (force simp: set_conv_nth)
  have old: "{(i, hs ! k) | i k. k \<le> i \<and> i < ?n} = {(i, (hs @ [h]) ! k) | i k. k \<le> i \<and> i < ?n}"
    by (rule Collect_cong) (metis nth_append_left order_le_less_trans)
  have "set (mb_pumps (started_agents False False topic (hs @ [h]) :: ('h, 'm) bus)) =
      {(i, (hs @ [h]) ! k) | i k. k \<le> i \<and> i < ?n} \<union> {(?n, (hs @ [h]) ! k) | k. k \<le> ?n}"
    using snoc new [of ?n "hs @ [h]"] old
    by (simp add: started_agents_snoc start_agent_in_memory start_topic_def bus_subscribe_def
        started_queues less_Suc_eq_le)
  also have "\<dots> = {(i, (hs @ [h]) ! k) | i k. k \<le> i \<and> i < length (hs @ [h])}"
    by (rule set_eqI) (auto simp: less_Suc_eq)
  finally show ?case .
qed

lemma add_handler_lookup:
  "map_of (add_handler topic h tab) topic =
     Some ((case map_of tab topic of None \<Rightarrow> [] | Some old \<Rightarrow> old) @ [h])"
  by (simp add: add_handler_def update_conv')

lemma fold_add_handler:
  "map_of (fold (add_handler topic) hs tab) topic =
     (if hs = [] then map_of tab topic
      else Some ((case map_of tab topic of None \<Rightarrow> [] | Some old \<Rightarrow> old) @ hs))"
  by (induction hs arbitrary: tab) (simp_all add: add_handler_def update_conv')

lemma started_ring:
  fixes hs :: "'h list"
  assumes "d \<or> s"
  shows "ring_dispatch topic (started_agents d s topic hs :: ('h, 'm) bus) =
      concat (map (\<lambda>i. take (Suc i) hs) [0..<length hs]) \<and>
    mb_processors (started_agents d s topic hs :: ('h, 'm) bus) = length hs"
proof (induction hs rule: rev_induct)
  case Nil
  show ?case by (simp add: started_agents_def bus_connect_def bus_init_def ring_dispatch_def)
next
  case (snoc h hs)
  let ?b = "started_agents d s topic hs :: ('h, 'm) bus"
  have step: "started_agents d s topic (hs @ [h]) =
      (let b1 = register_topic (topic, hs @ [h]) (bus_subscribe topic h ?b)
       in b1\<lparr>mb_processors := mb_processors b1 + 1\<rparr>)"
    using assms by (auto simp: started_agents_snoc start_agent_def start_consuming_def bus_subscribe_def
        add_handler_def started_handlers started_backend Let_def)
  have old: "map (\<lambda>i. take (Suc i) (hs @ [h])) [0..<length hs] = map (\<lambda>i. take (Suc i) hs) [0..<length hs]"
    by simp
  have "ring_dispatch topic (started_agents d s topic (hs @ [h]) :: ('h, 'm) bus) =
      ring_dispatch topic ?b @ hs @ [h]"
    unfolding step by (cases "hs = []")
      (simp_all add: register_topic_def Let_def ring_dispatch_def bus_subscribe_def
        fold_add_handler add_handler_lookup split: option.split)
  moreover have "mb_processors (started_agents d s topic (hs @ [h]) :: ('h, 'm) bus) = Suc (length hs)"
    unfolding step using snoc by (simp add: register_topic_def Let_def bus_subscribe_def)
  moreover have "concat (map (\<lambda>i. take (Suc i) (hs @ [h])) [0..<length (hs @ [h])]) =
      concat (map (\<lambda>i. take (Suc i) hs) [0..<length hs]) @ hs @ [h]"
    by (simp add: old del: take_append take_Suc)
  ultimately show ?case using snoc by simp
qed

section \<open>What subscribers get\<close>

lemma started_ok: "bus_ok (started_agents False False topic hs)"
  by (auto simp: bus_ok_def started_queues started_waiting started_pumps list_all_iff)

lemma bus_delivers_pumps: "(i, h, m) \<in> set (bus_delivers b e) \<Longrightarrow> (i, h) \<in> set (mb_pumps b)"
  by (cases e; auto simp: bus_delivers_def pump_turn_def case_prod_beta split: if_splits list.splits option.splits
      dest!: nth_mem) 

lemma bus_run_pumps:
  "(i, h, m) \<in> set (run_out bus_step bus_delivers b es) \<Longrightarrow> (i, h) \<in> set (mb_pumps b)"
proof (induction es arbitrary: b)
  case (Cons e es)
  then show ?case
    using Cons.IH [of "bus_step b e"] by (auto dest: bus_delivers_pumps)
qed simp

text \<open>
  After any run of publications, waiting publishers and pump turns from a bus whose pumps
  and publishers refer to existing queues, the messages delivered from a queue followed by
  those still in it are the messages that were in it followed by those put into it, in
  order: a queued message goes to exactly one of the handlers of its queue, none is lost
  and none is delivered twice.
\<close>
theorem queued_message_delivered_once:
  fixes b :: "('h, 'm) bus"
  assumes "bus_ok b" and "i < length (mb_queues b)"
  shows "map snd (into_queue i (run_out bus_step bus_delivers b es)) @
           bq_items (mb_queues (foldl bus_step b es) ! i) =
         bq_items (mb_queues b ! i) @ into_queue i (run_out bus_step bus_puts b es)"
  using assms by (rule bus_run_items)

theorem queued_message_delivered_once_witness:
  "let b = started_agents False False ''t'' [''A'', ''B''];
       es = [Bus_Publish ''t'' (7::nat), Bus_Pump 1, Bus_Publish ''t'' 8]
   in run_out bus_step bus_delivers b es = [(1, ''A'', 7)] \<and>
      map snd (into_queue 1 (run_out bus_step bus_delivers b es)) @
        bq_items (mb_queues (foldl bus_step b es) ! 1) =
      bq_items (mb_queues b ! 1) @ into_queue 1 (run_out bus_step bus_puts b es)"
  unfolding Let_def
proof
  show "run_out bus_step bus_delivers (started_agents False False ''t'' [''A'', ''B''])
      [Bus_Publish ''t'' (7::nat), Bus_Pump 1, Bus_Publish ''t'' 8] = [(1, ''A'', 7)]"
    by code_simp
qed (rule queued_message_delivered_once; simp add: started_ok started_queues)

text \<open>One message of one publication: the first of two agents handles it twice, the second never.\<close>

lemma second_agent_misses_message:
  "run_out bus_step bus_delivers (started_agents False False ''t'' [''A'', ''B''])
     [Bus_Publish ''t'' (7::nat), Bus_Pump 0, Bus_Pump 1] = [(0, ''A'', 7), (1, ''A'', 7)]"
  by code_simp

text \<open>
  When agents with one handler each on the same topic are started one after the other on the
  in-memory backend, a delivery from the queue of the \<open>i\<close>-th start goes to the handler of one
  of the first \<open>i + 1\<close> agents; in particular the last agent is served from the last queue
  only, and the first agent can be served from every one.
\<close>
theorem queue_serves_earlier_agents:
  fixes hs :: "'h list"
  assumes "(i, h, m) \<in> set (run_out bus_step bus_delivers (started_agents False False topic hs :: ('h, 'm) bus) es)"
  shows "i < length hs \<and> h \<in> set (take (Suc i) hs)"
proof -
  have "(i, h) \<in> set (mb_pumps (started_agents False False topic hs :: ('h, 'm) bus))"
    using assms by (rule bus_run_pumps)
  then obtain k where "k \<le> i" "i < length hs" "h = hs ! k"
    by (auto simp: started_pumps)
  then show ?thesis
    by (auto simp: in_set_conv_nth intro!: exI [of _ k])
qed

theorem queue_serves_earlier_agents_witness:
  "(1, ''A'', 7) \<in> set (run_out bus_step bus_delivers (started_agents False False ''t'' [''A'', ''B''])
       [Bus_Publish ''t'' (7::nat), Bus_Pump 0, Bus_Pump 1]) \<and>
   ''A'' \<in> set (take 2 [''A'', ''B''])"
proof -
  have "(1, ''A'', 7) \<in> set (run_out bus_step bus_delivers (started_agents False False ''t'' [''A'', ''B''])
       [Bus_Publish ''t'' (7::nat), Bus_Pump 0, Bus_Pump 1])"
    unfolding second_agent_misses_message by simp
  from this queue_serves_earlier_agents [OF this] show ?thesis
    by simp
qed

text \<open>
  On the two ring backends the tables are refilled at every start: after \<open>n\<close> agents the
  handlers called for one message are the first agent's, then the first two agents', up to
  all \<open>n\<close>, and \<open>n\<close> consumer tasks share the ring.
\<close>
theorem ring_backends_repeat_handlers:
  fixes hs :: "'h list"
  assumes "d \<or> s"
  shows "ring_dispatch topic (started_agents d s topic hs :: ('h, 'm) bus) =
      concat (map (\<lambda>i. take (Suc i) hs) [0..<length hs]) \<and>
    mb_processors (started_agents d s topic hs :: ('h, 'm) bus) = length hs"
  using assms by (rule started_ring)

theorem ring_backends_repeat_handlers_witness:
  "ring_dispatch ''t'' (started_agents True False ''t'' [''A'', ''B'', ''C''] :: (string, nat) bus) =
     [''A'', ''A'', ''B'', ''A'', ''B'', ''C''] \<and>
   mb_processors (started_agents True False ''t'' [''A'', ''B'', ''C''] :: (string, nat) bus) = 3"
  using ring_backends_repeat_handlers [of True False "''t''" "[''A'', ''B'', ''C'']"]
  by (simp add: upt_rec numeral_3_eq_3)

end
