(* ===== verification/State_Store.thy ===== *)
theory State_Store
  imports Models
begin

text \<open>
  The state store of \<open>infrastructure/state_store.py\<close>: each SQL table is the list of its rows
  in insertion order, each method the effect of its statement. A row holds the columns that
  the statement writes; \<open>raw_json\<close> is the stored object itself, since the JSON text of a
  model parses back to an equal one. \<open>upsert\<close> is \<open>INSERT ... ON CONFLICT(key) DO UPDATE\<close>:
  the update clause says which columns the existing row takes over. \<open>SELECT\<close> without an
  order is read in insertion order; the theorems are about the sets of rows.
\<close>

section \<open>Tables\<close>

definition upsert :: "('r \<Rightarrow> 'k) \<Rightarrow> ('r \<Rightarrow> 'r \<Rightarrow> 'r) \<Rightarrow> 'r \<Rightarrow> 'r list \<Rightarrow> 'r list" where
  "upsert key set_clause new rows =
     (if list_ex (\<lambda>r. key r = key new) rows
      then map (\<lambda>r. if key r = key new then set_clause r new else r) rows
      else rows @ [new])"

definition insert_or_ignore :: "('r \<Rightarrow> 'k) \<Rightarrow> 'r \<Rightarrow> 'r list \<Rightarrow> 'r list" where
  "insert_or_ignore key new rows =
     (if list_ex (\<lambda>r. key r = key new) rows then rows else rows @ [new])"

text \<open>What a table with unique keys means: the row of each key.\<close>

definition row_of :: "('r \<Rightarrow> 'k) \<Rightarrow> 'r list \<Rightarrow> 'k \<Rightarrow> 'r option" where
  "row_of key rows k = List.find (\<lambda>r. key r = k) rows"

definition unique_keys :: "('r \<Rightarrow> 'k) \<Rightarrow> 'r list \<Rightarrow> bool" where
  "unique_keys key rows \<longleftrightarrow> distinct (map key rows)"

lemma row_of_simps [simp]:
  "row_of key [] = Map.empty"
  "row_of key (r # rows) = (row_of key rows)(key r \<mapsto> r)"
  by (auto simp: row_of_def fun_eq_iff)

lemma row_of_append_new:
  "\<not> list_ex (\<lambda>r. key r = key new) rows \<Longrightarrow> row_of key (rows @ [new]) = (row_of key rows)(key new \<mapsto> new)"
  by (induction rows) (auto simp: fun_upd_twist)

lemma row_of_None: "row_of key rows k = None \<longleftrightarrow> \<not> list_ex (\<lambda>r. key r = k) rows"
  by (induction rows) auto

lemma row_of_in: "row_of key rows k = Some r \<Longrightarrow> r \<in> set rows \<and> key r = k"
  by (induction rows) (auto split: if_splits)

lemma row_of_Some: "unique_keys key rows \<Longrightarrow> row_of key rows k = Some r \<longleftrightarrow> r \<in> set rows \<and> key r = k"
proof (induction rows)
  case (Cons a rows)
  then have "key a \<notin> key ` set rows" "row_of key rows k = Some r \<longleftrightarrow> r \<in> set rows \<and> key r = k"
    by (simp_all add: unique_keys_def)
  then show ?case by (cases "key a = k") (auto simp: image_iff)
qed simp

lemma row_of_upsert:
  assumes "\<And>r s. key (set_clause r s) = key r"
  shows "row_of key (upsert key set_clause new rows) =
    (row_of key rows)(key new \<mapsto>
      (case row_of key rows (key new) of None \<Rightarrow> new | Some r \<Rightarrow> set_clause r new))"
proof (cases "list_ex (\<lambda>r. key r = key new) rows")
  case True
  then have "row_of key (map (\<lambda>r. if key r = key new then set_clause r new else r) rows) =
    (row_of key rows)(key new \<mapsto>
      (case row_of key rows (key new) of None \<Rightarrow> new | Some r \<Rightarrow> set_clause r new))"
  proof (induction rows)
    case (Cons r rows)
    show ?case
    proof (cases "list_ex (\<lambda>r. key r = key new) rows")
      case True
      then show ?thesis using Cons.IH assms by (auto simp: fun_eq_iff)
    next
      case False
      then have "map (\<lambda>r. if key r = key new then set_clause r new else r) rows = rows"
        by (induction rows) auto
      with Cons.prems False show ?thesis
        by (auto simp: assms fun_eq_iff)
    qed
  qed simp
  with True show ?thesis by (simp add: upsert_def)
next
  case False
  then have "row_of key rows (key new) = None" by (simp add: row_of_None)
  with False show ?thesis by (simp add: upsert_def row_of_append_new)
qed

lemma unique_keys_upsert:
  assumes "\<And>r s. key (set_clause r s) = key r" and "unique_keys key rows"
  shows "unique_keys key (upsert key set_clause new rows)"
proof -
  have "map key (map (\<lambda>r. if key r = key new then set_clause r new else r) rows) = map key rows"
    using assms(1) by simp
  then have "unique_keys key (map (\<lambda>r. if key r = key new then set_clause r new else r) rows)"
    using assms(2) by (simp only: unique_keys_def)
  moreover have "unique_keys key (rows @ [new])" if "\<not> list_ex (\<lambda>r. key r = key new) rows"
    using assms(2) that by (auto simp: unique_keys_def list_ex_iff)
  ultimately show ?thesis by (simp add: upsert_def)
qed

lemma unique_keys_insert_or_ignore:
  "unique_keys key rows \<Longrightarrow> unique_keys key (insert_or_ignore key new rows)"
  by (auto simp: insert_or_ignore_def unique_keys_def list_ex_iff)

lemma row_of_insert_or_ignore:
  "row_of key (insert_or_ignore key new rows) =
     (row_of key rows)(key new \<mapsto> (case row_of key rows (key new) of None \<Rightarrow> new | Some r \<Rightarrow> r))"
  using row_of_None [of key rows "key new"]
  by (auto simp: insert_or_ignore_def row_of_append_new fun_upd_idem_iff split: option.split)

lemma row_of_filter:
  "row_of key (filter (\<lambda>r. key r \<noteq> k) rows) = (row_of key rows)(k := None)"
  by (induction rows) (auto simp: fun_eq_iff)

lemma unique_keys_filter: "unique_keys key rows \<Longrightarrow> unique_keys key (filter P rows)"
  by (auto simp: unique_keys_def distinct_map inj_on_def)

section \<open>The schema\<close>

record position_row =
  pr_position_id :: string
  pr_plan_id :: string
  pr_symbol :: symbol
  pr_direction :: direction
  pr_shares :: int
  pr_entry_price :: pyfloat
  pr_current_price :: pyfloat
  pr_stop_price :: pyfloat
  pr_target_price :: pyfloat
  pr_time_stop_at :: timestamp
  pr_trailing_stop :: "pyfloat option"
  pr_opened_at :: timestamp
  pr_updated_at :: timestamp
  pr_raw :: position

record order_row =
  orw_order_id :: string
  orw_broker_order_id :: "string option"
  orw_plan_id :: string
  orw_symbol :: symbol
  orw_status :: string
  orw_submitted_at :: "timestamp option"
  orw_filled_at :: "timestamp option"
  orw_cancelled_at :: "timestamp option"
  orw_raw :: order

record trade_row =
  tr_trade_id :: string
  tr_plan_id :: string
  tr_symbol :: symbol
  tr_session_date :: string
  tr_setup_type :: setup_type
  tr_net_pnl :: pyfloat
  tr_closed_at :: timestamp
  tr_raw :: closed_trade

record pnl_row =
  dp_session_date :: string
  dp_account_equity :: pyfloat
  dp_daily_pnl :: pyfloat
  dp_trade_count :: int
  dp_updated_at :: timestamp

record heartbeat_row =
  hb_agent_id :: string
  hb_agent_name :: string
  hb_state :: string
  hb_error_count :: int
  hb_last_seen :: timestamp

record proposal_row =
  cr_proposal_id :: string
  cr_proposal_type :: change_proposal_type
  cr_status :: string
  cr_created_at :: timestamp
  cr_updated_at :: timestamp
  cr_raw :: change_proposal

record wash_row =
  wr_symbol :: symbol
  wr_window_end :: timestamp
  wr_net_loss :: pyfloat
  wr_raw :: wash_sale_flag

record state_row =
  sr_state :: system_state
  sr_halt_reason :: "string option"
  sr_anomaly_hold :: int
  sr_updated_at :: timestamp

record state_store =
  st_positions :: "position_row list"
  st_orders :: "order_row list"
  st_trades :: "trade_row list"
  st_pnl :: "pnl_row list"
  st_reconciliations :: "reconciliation_report list"
  st_system :: "state_row option"
  st_heartbeats :: "heartbeat_row list"
  st_proposals :: "proposal_row list"
  st_wash :: "wash_row list"

definition store_init :: state_store where
  "store_init = \<lparr>st_positions = [], st_orders = [], st_trades = [], st_pnl = [],
     st_reconciliations = [], st_system = None, st_heartbeats = [], st_proposals = [], st_wash = []\<rparr>"

section \<open>Positions, orders and trades\<close>

definition position_row_of :: "timestamp \<Rightarrow> position \<Rightarrow> position_row" where
  "position_row_of now p =
     \<lparr>pr_position_id = pos_position_id p, pr_plan_id = pos_plan_id p, pr_symbol = pos_symbol p,
      pr_direction = pos_direction p, pr_shares = pos_shares p, pr_entry_price = pos_entry_price p,
      pr_current_price = pos_current_price p, pr_stop_price = pos_stop_price p,
      pr_target_price = pos_target_price p, pr_time_stop_at = pos_time_stop_at p,
      pr_trailing_stop = pos_trailing_stop p, pr_opened_at = pos_opened_at p,
      pr_updated_at = now, pr_raw = p\<rparr>"

definition set_position :: "position_row \<Rightarrow> position_row \<Rightarrow> position_row" where
  "set_position r new =
     r\<lparr>pr_current_price := pr_current_price new, pr_stop_price := pr_stop_price new,
       pr_trailing_stop := pr_trailing_stop new, pr_updated_at := pr_updated_at new,
       pr_raw := pr_raw new\<rparr>"

definition upsert_position :: "timestamp \<Rightarrow> position \<Rightarrow> state_store \<Rightarrow> state_store" where
  "upsert_position now p st =
     st\<lparr>st_positions := upsert pr_position_id set_position (position_row_of now p) (st_positions st)\<rparr>"

definition delete_position :: "string \<Rightarrow> state_store \<Rightarrow> state_store" where
  "delete_position pid st =
     st\<lparr>st_positions := filter (\<lambda>r. pr_position_id r \<noteq> pid) (st_positions st)\<rparr>"

definition load_open_positions :: "state_store \<Rightarrow> position list" where
  "load_open_positions st = map pr_raw (st_positions st)"

definition order_row_of :: "order \<Rightarrow> order_row" where
  "order_row_of x =
     \<lparr>orw_order_id = or_order_id x, orw_broker_order_id = or_broker_order_id x,
      orw_plan_id = or_plan_id x, orw_symbol = or_symbol x,
      orw_status = order_status_value (or_status x), orw_submitted_at = or_submitted_at x,
      orw_filled_at = or_filled_at x, orw_cancelled_at = or_cancelled_at x, orw_raw = x\<rparr>"

definition set_order_row :: "order_row \<Rightarrow> order_row \<Rightarrow> order_row" where
  "set_order_row r new =
     r\<lparr>orw_broker_order_id := orw_broker_order_id new, orw_status := orw_status new,
       orw_filled_at := orw_filled_at new, orw_cancelled_at := orw_cancelled_at new,
       orw_raw := orw_raw new\<rparr>"

definition upsert_order :: "order \<Rightarrow> state_store \<Rightarrow> state_store" where
  "upsert_order x st =
     st\<lparr>st_orders := upsert orw_order_id set_order_row (order_row_of x) (st_orders st)\<rparr>"

definition load_open_orders :: "state_store \<Rightarrow> order list" where
  "load_open_orders st =
     map orw_raw (filter (\<lambda>r. orw_status r \<notin> set [''filled'', ''cancelled'', ''rejected'', ''expired''])
       (st_orders st))"

definition save_closed_trade :: "string \<Rightarrow> closed_trade \<Rightarrow> state_store \<Rightarrow> state_store" where
  "save_closed_trade session_date t st =
     st\<lparr>st_trades := insert_or_ignore tr_trade_id
        \<lparr>tr_trade_id = ct_trade_id t, tr_plan_id = ct_plan_id t, tr_symbol = ct_symbol t,
         tr_session_date = session_date, tr_setup_type = ct_setup_type t,
         tr_net_pnl = ct_net_pnl t, tr_closed_at = ct_closed_at t, tr_raw = t\<rparr> (st_trades st)\<rparr>"

definition load_closed_trades :: "string \<Rightarrow> state_store \<Rightarrow> closed_trade list" where
  "load_closed_trades session_date st =
     map tr_raw (filter (\<lambda>r. tr_session_date r = session_date) (st_trades st))"

section \<open>System state, reports and heartbeats\<close>

definition save_system_state ::
  "timestamp \<Rightarrow> system_state \<Rightarrow> string option \<Rightarrow> bool \<Rightarrow> state_store \<Rightarrow> state_store" where
  "save_system_state now state halt_reason anomaly_hold st =
     st\<lparr>st_system := Some \<lparr>sr_state = state, sr_halt_reason = halt_reason,
        sr_anomaly_hold = of_bool anomaly_hold, sr_updated_at = now\<rparr>\<rparr>"

definition load_system_state :: "state_store \<Rightarrow> system_state \<times> string option \<times> bool" where
  "load_system_state st =
     (case st_system st of
        None \<Rightarrow> (INITIALIZING, None, False)
      | Some r \<Rightarrow> (sr_state r, sr_halt_reason r, sr_anomaly_hold r \<noteq> 0))"

definition set_pnl :: "pnl_row \<Rightarrow> pnl_row \<Rightarrow> pnl_row" where
  "set_pnl r new =
     r\<lparr>dp_account_equity := dp_account_equity new, dp_daily_pnl := dp_daily_pnl new,
       dp_trade_count := dp_trade_count new, dp_updated_at := dp_updated_at new\<rparr>"

definition upsert_daily_pnl ::
  "timestamp \<Rightarrow> string \<Rightarrow> pyfloat \<Rightarrow> pyfloat \<Rightarrow> int \<Rightarrow> state_store \<Rightarrow> state_store" where
  "upsert_daily_pnl now session_date equity pnl trade_count st =
     st\<lparr>st_pnl := upsert dp_session_date set_pnl
        \<lparr>dp_session_date = session_date, dp_account_equity = equity, dp_daily_pnl = pnl,
         dp_trade_count = trade_count, dp_updated_at = now\<rparr> (st_pnl st)\<rparr>"

definition save_reconciliation :: "reconciliation_report \<Rightarrow> state_store \<Rightarrow> state_store" where
  "save_reconciliation report st = st\<lparr>st_reconciliations := st_reconciliations st @ [report]\<rparr>"

definition set_heartbeat :: "heartbeat_row \<Rightarrow> heartbeat_row \<Rightarrow> heartbeat_row" where
  "set_heartbeat r new =
     r\<lparr>hb_state := hb_state new, hb_error_count := hb_error_count new,
       hb_last_seen := hb_last_seen new\<rparr>"

definition save_heartbeat ::
  "timestamp \<Rightarrow> string \<Rightarrow> string \<Rightarrow> string \<Rightarrow> int \<Rightarrow> state_store \<Rightarrow> state_store" where
  "save_heartbeat now agent_id agent_name state error_count st =
     st\<lparr>st_heartbeats := upsert hb_agent_id set_heartbeat
        \<lparr>hb_agent_id = agent_id, hb_agent_name = agent_name, hb_state = state,
         hb_error_count = error_count, hb_last_seen = now\<rparr> (st_heartbeats st)\<rparr>"

definition load_all_heartbeats :: "state_store \<Rightarrow> heartbeat_row list" where
  "load_all_heartbeats st = st_heartbeats st"

section \<open>Change proposals and wash sales\<close>

definition set_proposal :: "proposal_row \<Rightarrow> proposal_row \<Rightarrow> proposal_row" where
  "set_proposal r new =
     r\<lparr>cr_status := cr_status new, cr_updated_at := cr_updated_at new, cr_raw := cr_raw new\<rparr>"

definition upsert_change_proposal :: "timestamp \<Rightarrow> change_proposal \<Rightarrow> state_store \<Rightarrow> state_store" where
  "upsert_change_proposal now p st =
     st\<lparr>st_proposals := upsert cr_proposal_id set_proposal
        \<lparr>cr_proposal_id = cp_proposal_id p, cr_proposal_type = cp_proposal_type p,
         cr_status = proposal_status_value (cp_status p), cr_created_at = cp_created_at p,
         cr_updated_at = now, cr_raw = p\<rparr> (st_proposals st)\<rparr>"

definition load_pending_proposals :: "state_store \<Rightarrow> change_proposal list" where
  "load_pending_proposals st =
     map cr_raw (filter (\<lambda>r. cr_status r \<notin> set [''live'', ''hgl_rejected'', ''edge_failed''])
       (st_proposals st))"

definition set_wash :: "wash_row \<Rightarrow> wash_row \<Rightarrow> wash_row" where
  "set_wash r new =
     r\<lparr>wr_window_end := wr_window_end new, wr_net_loss := wr_net_loss new, wr_raw := wr_raw new\<rparr>"

definition upsert_wash_sale :: "wash_sale_flag \<Rightarrow> state_store \<Rightarrow> state_store" where
  "upsert_wash_sale flag st =
     st\<lparr>st_wash := upsert wr_symbol set_wash
        \<lparr>wr_symbol = ws_symbol flag, wr_window_end = ws_window_end flag,
         wr_net_loss = ws_net_loss flag, wr_raw = flag\<rparr> (st_wash st)\<rparr>"

definition get_wash_sale_flag ::
  "timestamp \<Rightarrow> symbol \<Rightarrow> state_store \<Rightarrow> wash_sale_flag option \<times> state_store" where
  "get_wash_sale_flag now sy st =
     (case row_of wr_symbol (st_wash st) sy of
        None \<Rightarrow> (None, st)
      | Some r \<Rightarrow>
          let flag = wr_raw r
          in if ws_window_end flag < now
             then (None, st\<lparr>st_wash := filter (\<lambda>r. wr_symbol r \<noteq> sy) (st_wash st)\<rparr>)
             else (Some flag, st))"

section \<open>Runs of the store\<close>

datatype store_event =
    Put_Position timestamp position
  | Drop_Position string
  | Put_Order order
  | Put_Trade string closed_trade
  | Put_System timestamp system_state "string option" bool
  | Put_Pnl timestamp string pyfloat pyfloat int
  | Put_Report reconciliation_report
  | Put_Heartbeat timestamp string string string int
  | Put_Proposal timestamp change_proposal
  | Put_Wash wash_sale_flag
  | Read_Wash timestamp symbol

fun store_step :: "state_store \<Rightarrow> store_event \<Rightarrow> state_store" where
  "store_step st (Put_Position now p) = upsert_position now p st"
| "store_step st (Drop_Position pid) = delete_position pid st"
| "store_step st (Put_Order x) = upsert_order x st"
| "store_step st (Put_Trade day t) = save_closed_trade day t st"
| "store_step st (Put_System now s why hold) = save_system_state now s why hold st"
| "store_step st (Put_Pnl now day equity pnl n) = upsert_daily_pnl now day equity pnl n st"
| "store_step st (Put_Report r) = save_reconciliation r st"
| "store_step st (Put_Heartbeat now i name s n) = save_heartbeat now i name s n st"
| "store_step st (Put_Proposal now p) = upsert_change_proposal now p st"
| "store_step st (Put_Wash fl) = upsert_wash_sale fl st"
| "store_step st (Read_Wash now sy) = snd (get_wash_sale_flag now sy st)"

section \<open>What the store promises\<close>

text \<open>
  The specification: maps from keys to the objects last put under them; of a trade the first
  one stays; a wash-sale flag that is read after its window is dropped.
\<close>

record store_spec =
  sp_positions :: "string \<rightharpoonup> position"
  sp_orders :: "string \<rightharpoonup> order"
  sp_trades :: "string \<rightharpoonup> string \<times> closed_trade"
  sp_system :: "system_state \<times> string option \<times> bool"
  sp_proposals :: "string \<rightharpoonup> change_proposal"
  sp_wash :: "symbol \<rightharpoonup> wash_sale_flag"

definition spec_init :: store_spec where
  "spec_init = \<lparr>sp_positions = Map.empty, sp_orders = Map.empty, sp_trades = Map.empty,
     sp_system = (INITIALIZING, None, False), sp_proposals = Map.empty, sp_wash = Map.empty\<rparr>"

fun spec_step :: "store_spec \<Rightarrow> store_event \<Rightarrow> store_spec" where
  "spec_step a (Put_Position now p) = a\<lparr>sp_positions := (sp_positions a)(pos_position_id p \<mapsto> p)\<rparr>"
| "spec_step a (Drop_Position pid) = a\<lparr>sp_positions := (sp_positions a)(pid := None)\<rparr>"
| "spec_step a (Put_Order x) = a\<lparr>sp_orders := (sp_orders a)(or_order_id x \<mapsto> x)\<rparr>"
| "spec_step a (Put_Trade day t) =
     (if sp_trades a (ct_trade_id t) = None
      then a\<lparr>sp_trades := (sp_trades a)(ct_trade_id t \<mapsto> (day, t))\<rparr> else a)"
| "spec_step a (Put_System now s why hold) = a\<lparr>sp_system := (s, why, hold)\<rparr>"
| "spec_step a (Put_Proposal now p) = a\<lparr>sp_proposals := (sp_proposals a)(cp_proposal_id p \<mapsto> p)\<rparr>"
| "spec_step a (Put_Wash fl) = a\<lparr>sp_wash := (sp_wash a)(ws_symbol fl \<mapsto> fl)\<rparr>"
| "spec_step a (Read_Wash now sy) =
     (case sp_wash a sy of
        Some fl \<Rightarrow> if ws_window_end fl < now then a\<lparr>sp_wash := (sp_wash a)(sy := None)\<rparr> else a
      | None \<Rightarrow> a)"
| "spec_step a e = a"

definition column :: "('r \<Rightarrow> 'k) \<Rightarrow> ('r \<Rightarrow> 'v) \<Rightarrow> 'r list \<Rightarrow> 'k \<Rightarrow> 'v option" where
  "column key col rows k = map_option col (row_of key rows k)"

definition store_abs :: "state_store \<Rightarrow> store_spec" where
  "store_abs st =
     \<lparr>sp_positions = column pr_position_id pr_raw (st_positions st),
      sp_orders = column orw_order_id orw_raw (st_orders st),
      sp_trades = column tr_trade_id (\<lambda>r. (tr_session_date r, tr_raw r)) (st_trades st),
      sp_system = load_system_state st,
      sp_proposals = column cr_proposal_id cr_raw (st_proposals st),
      sp_wash = column wr_symbol wr_raw (st_wash st)\<rparr>"

lemma column_upsert:
  assumes "\<And>r s. key (set_clause r s) = key r" and "\<And>r s. col (set_clause r s) = col s"
  shows "column key col (upsert key set_clause new rows) = (column key col rows)(key new \<mapsto> col new)"
  by (auto simp: column_def row_of_upsert [of key set_clause, OF assms(1)] assms(2) fun_eq_iff
      split: option.split)

text \<open>A query reads a column of the rows that satisfy its condition.\<close>

lemma ran_column: "unique_keys key rows \<Longrightarrow> ran (column key col rows) = col ` set rows"
  by (auto simp: column_def ran_def row_of_Some)

lemma select_column:
  assumes "unique_keys key rows" and "list_all (\<lambda>r. P r \<longleftrightarrow> Q (col r)) rows"
  shows "set (map col (filter P rows)) = {x \<in> ran (column key col rows). Q x}"
  using assms(2) by (auto simp: ran_column [OF assms(1)] list_all_iff)

lemma column_insert_or_ignore:
  "column key col (insert_or_ignore key new rows) =
     (if column key col rows (key new) = None then (column key col rows)(key new \<mapsto> col new)
      else column key col rows)"
  by (auto simp: column_def row_of_insert_or_ignore fun_eq_iff split: option.split)

lemma column_filter:
  "column key col (filter (\<lambda>r. key r \<noteq> k) rows) = (column key col rows)(k := None)"
  by (auto simp: column_def row_of_filter)

lemmas store_set_clauses =
  set_position_def set_order_row_def set_pnl_def set_heartbeat_def set_proposal_def set_wash_def

lemmas store_ops =
  upsert_position_def delete_position_def upsert_order_def save_closed_trade_def
  save_system_state_def upsert_daily_pnl_def save_reconciliation_def save_heartbeat_def
  upsert_change_proposal_def upsert_wash_sale_def position_row_of_def order_row_of_def

text \<open>Every statement of the store acts on the objects as the specification says.\<close>

lemma store_step_refines: "store_abs (store_step st e) = spec_step (store_abs st) e"
  by (cases e)
    (simp_all add: store_abs_def store_ops store_set_clauses column_upsert column_insert_or_ignore
      column_filter load_system_state_def get_wash_sale_flag_def column_def [of wr_symbol wr_raw "st_wash st"]
      Let_def split: option.split)

text \<open>The invariant: unique keys, and the columns the queries select by agree with the object.\<close>

definition store_ok :: "state_store \<Rightarrow> bool" where
  "store_ok st \<longleftrightarrow>
     unique_keys pr_position_id (st_positions st) \<and> unique_keys orw_order_id (st_orders st) \<and>
     unique_keys tr_trade_id (st_trades st) \<and> unique_keys cr_proposal_id (st_proposals st) \<and>
     unique_keys wr_symbol (st_wash st) \<and>
     list_all (\<lambda>r. orw_status r = order_status_value (or_status (orw_raw r))) (st_orders st) \<and>
     list_all (\<lambda>r. cr_status r = proposal_status_value (cp_status (cr_raw r)) \<and>
       cr_proposal_id r = cp_proposal_id (cr_raw r)) (st_proposals st)"

lemma list_all_upsert:
  assumes "list_all P rows" and "P new" and "\<And>r. P r \<Longrightarrow> key r = key new \<Longrightarrow> P (set_clause r new)"
  shows "list_all P (upsert key set_clause new rows)"
  using assms by (auto simp: upsert_def list_all_iff)

lemma store_step_ok: "store_ok st \<Longrightarrow> store_ok (store_step st e)"
  by (cases e)
    (auto simp: store_ok_def store_ops store_set_clauses get_wash_sale_flag_def Let_def
      intro!: unique_keys_upsert unique_keys_insert_or_ignore unique_keys_filter list_all_upsert
      split: option.split)

interpretation store: inv_machine store_step store_ok
  by unfold_locales (rule store_step_ok)

lemma store_init_ok: "store_ok store_init"
  by (simp add: store_ok_def store_init_def unique_keys_def)

lemma store_run_refines:
  "store_abs (foldl store_step st es) = foldl spec_step (store_abs st) es"
  by (induction es arbitrary: st) (simp_all add: store_step_refines)

lemma store_abs_init: "store_abs store_init = spec_init"
  by (simp add: store_abs_def store_init_def spec_init_def column_def load_system_state_def fun_eq_iff)

lemma order_open_value:
  "order_status_value s \<notin> set [''filled'', ''cancelled'', ''rejected'', ''expired''] \<longleftrightarrow>
   s \<notin> {OS_FILLED, OS_CANCELLED, OS_REJECTED, OS_EXPIRED}"
  by (cases s) simp_all

lemma proposal_pending_value:
  "proposal_status_value s \<notin> set [''live'', ''hgl_rejected'', ''edge_failed''] \<longleftrightarrow>
   s \<notin> {LIVE, HGL_REJECTED, EDGE_FAILED}"
  by (cases s) simp_all

lemma load_positions_set:
  "store_ok st \<Longrightarrow> set (load_open_positions st) = ran (sp_positions (store_abs st))"
  by (simp add: store_ok_def load_open_positions_def store_abs_def ran_column)

lemma load_orders_set:
  "store_ok st \<Longrightarrow> set (load_open_orders st) =
    {x \<in> ran (sp_orders (store_abs st)). or_status x \<notin> {OS_FILLED, OS_CANCELLED, OS_REJECTED, OS_EXPIRED}}"
  unfolding load_open_orders_def order_open_value [symmetric]
  by (subst select_column [of orw_order_id _ _
      "\<lambda>x. order_status_value (or_status x) \<notin> set [''filled'', ''cancelled'', ''rejected'', ''expired'']"])
    (simp_all add: store_ok_def store_abs_def list_all_iff)

lemma load_proposals_set:
  "store_ok st \<Longrightarrow> set (load_pending_proposals st) =
    {p \<in> ran (sp_proposals (store_abs st)). cp_status p \<notin> {LIVE, HGL_REJECTED, EDGE_FAILED}}"
  unfolding load_pending_proposals_def proposal_pending_value [symmetric]
  by (subst select_column [of cr_proposal_id _ _
      "\<lambda>x. proposal_status_value (cp_status x) \<notin> set [''live'', ''hgl_rejected'', ''edge_failed'']"])
    (simp_all add: store_ok_def store_abs_def list_all_iff)

lemma proposals_keyed:
  "store_ok st \<Longrightarrow> sp_proposals (store_abs st) k = Some p \<Longrightarrow> cp_proposal_id p = k"
  by (auto simp: store_ok_def store_abs_def column_def list_all_iff dest!: row_of_in)

lemma load_trades_set:
  assumes "store_ok st"
  shows "set (load_closed_trades day st) = {t. (day, t) \<in> ran (sp_trades (store_abs st))}"
proof -
  have "unique_keys tr_trade_id (st_trades st)" using assms by (simp add: store_ok_def)
  then show ?thesis
    by (auto simp: load_closed_trades_def store_abs_def ran_column)
qed

text \<open>
  C27. After any sequence of the store's operations on an empty database, what a restarted system
  reads is what the maps hold: the open positions are the ones last put and not deleted
  since, the open orders those whose last version is not terminal, a session's closed trades
  those first saved under it, the pending proposals those whose last version is neither live
  nor rejected nor failed, and the system state is the last one saved.
\<close>
theorem store_reads_refine_maps:
  fixes es :: "store_event list"
  defines "st \<equiv> foldl store_step store_init es"
    and "a \<equiv> foldl spec_step spec_init es"
  shows "set (load_open_positions st) = ran (sp_positions a) \<and>
    set (load_open_orders st) =
      {x \<in> ran (sp_orders a). or_status x \<notin> {OS_FILLED, OS_CANCELLED, OS_REJECTED, OS_EXPIRED}} \<and>
    set (load_closed_trades day st) = {t. (day, t) \<in> ran (sp_trades a)} \<and>
    set (load_pending_proposals st) =
      {p \<in> ran (sp_proposals a). cp_status p \<notin> {LIVE, HGL_REJECTED, EDGE_FAILED}} \<and>
    load_system_state st = sp_system a"
proof -
  have "store_ok st" unfolding st_def by (rule store.run_inv [OF store_init_ok])
  moreover have "store_abs st = a"
    by (simp add: st_def a_def store_run_refines store_abs_init)
  ultimately show ?thesis
    using load_positions_set load_orders_set load_trades_set load_proposals_set
    by (auto simp: store_abs_def)
qed

text \<open>
  A wash-sale flag put into the store is read back until its window has passed, and from
  then on neither read nor kept.
\<close>
theorem wash_sale_flag_expires:
  "fst (get_wash_sale_flag now (ws_symbol fl) (upsert_wash_sale fl st)) =
     (if ws_window_end fl < now then None else Some fl) \<and>
   (ws_window_end fl < now \<longleftrightarrow>
      row_of wr_symbol (st_wash (snd (get_wash_sale_flag now (ws_symbol fl) (upsert_wash_sale fl st))))
        (ws_symbol fl) = None)"
  by (auto simp: get_wash_sale_flag_def upsert_wash_sale_def row_of_upsert set_wash_def Let_def
      row_of_filter split: option.split)

end
