(* ===== verification/Audit_Log.thy ===== *)
theory Audit_Log
  imports State_Store "HOL-Library.Multiset"
begin

text \<open>
  The audit log of \<open>infrastructure/audit_log.py\<close>: the SQL table with its unique index on
  \<open>event_id\<close>, and the JSONL file beside it. Timestamps are compared as texts by the database;
  the ISO texts the code stores are all in UTC and order as the times they stand for, so they
  are the times here. Rows of equal time come in the order they were inserted (the database
  leaves that order open).
\<close>

section \<open>Recording\<close>

record 'd audit_row =
  ar_event_id :: string
  ar_event_type :: string
  ar_agent :: string
  ar_symbol :: "symbol option"
  ar_timestamp :: timestamp
  ar_details :: 'd
  ar_inserted_at :: timestamp

record 'd audit_log =
  al_rows :: "'d audit_row list"
  al_lines :: "'d audit_row list"

definition audit_init :: "'d audit_log" where
  "audit_init = \<lparr>al_rows = [], al_lines = []\<rparr>"

definition audit_row_of :: "timestamp \<Rightarrow> 'd audit_event \<Rightarrow> 'd audit_row" where
  "audit_row_of inserted_at ev =
     \<lparr>ar_event_id = ae_event_id ev, ar_event_type = ae_event_type ev, ar_agent = ae_agent ev,
      ar_symbol = ae_symbol ev, ar_timestamp = ae_timestamp ev, ar_details = ae_details ev,
      ar_inserted_at = inserted_at\<rparr>"

definition audit_record :: "'d audit_log \<Rightarrow> timestamp \<times> 'd audit_event \<Rightarrow> 'd audit_log" where
  "audit_record l te =
     (let row = audit_row_of (fst te) (snd te)
      in l\<lparr>al_rows := insert_or_ignore ar_event_id row (al_rows l), al_lines := al_lines l @ [row]\<rparr>)"

section \<open>Queries\<close>

text \<open>An empty text is no condition; a negative limit is none.\<close>

definition audit_where ::
  "string option \<Rightarrow> symbol option \<Rightarrow> timestamp option \<Rightarrow> 'd audit_row \<Rightarrow> bool" where
  "audit_where event_type sy since r \<longleftrightarrow>
     (\<not> truthy event_type \<or> Some (ar_event_type r) = event_type) \<and>
     (\<not> truthy sy \<or> ar_symbol r = sy) \<and>
     (case since of None \<Rightarrow> True | Some t \<Rightarrow> t \<le> ar_timestamp r)"

definition sql_limit :: "int \<Rightarrow> 'r list \<Rightarrow> 'r list" where
  "sql_limit n rows = (if n < 0 then rows else take (nat n) rows)"

definition audit_query ::
  "string option \<Rightarrow> symbol option \<Rightarrow> timestamp option \<Rightarrow> int \<Rightarrow> 'd audit_log \<Rightarrow> 'd audit_row list" where
  "audit_query event_type sy since limit l =
     sql_limit limit (sort_key (\<lambda>r. - ar_timestamp r) (filter (audit_where event_type sy since) (al_rows l)))"

section \<open>The log only grows\<close>

definition audit_inv :: "'d audit_log \<Rightarrow> bool" where
  "audit_inv l \<longleftrightarrow>
     unique_keys ar_event_id (al_rows l) \<and>
     al_rows l = fold (insert_or_ignore ar_event_id) (al_lines l) []"

lemma audit_record_inv: "audit_inv l \<Longrightarrow> audit_inv (audit_record l te)"
  unfolding audit_inv_def audit_record_def Let_def
  by (auto intro: unique_keys_insert_or_ignore)

interpretation audit: inv_machine audit_record audit_inv
  by unfold_locales (rule audit_record_inv)

lemma audit_inv_init: "audit_inv audit_init"
  by (simp add: audit_inv_def audit_init_def unique_keys_def)

lemma insert_or_ignore_prefix: "prefix rows (insert_or_ignore key r rows)"
  by (simp add: insert_or_ignore_def)

lemma audit_run_prefix: "prefix (al_rows l) (al_rows (foldl audit_record l es))"
proof (induction es arbitrary: l)
  case (Cons e es)
  have "prefix (al_rows l) (al_rows (audit_record l e))"
    by (simp add: audit_record_def Let_def insert_or_ignore_prefix)
  also have "prefix \<dots> (al_rows (foldl audit_record (audit_record l e) es))"
    by (rule Cons)
  finally show ?case by simp
qed simp

lemma audit_run_lines:
  "al_lines (foldl audit_record l es) = al_lines l @ map (\<lambda>(t, e). audit_row_of t e) es"
  by (induction es arbitrary: l) (simp_all add: audit_record_def Let_def case_prod_beta)

lemma first_row_kept:
  "row_of key (fold (insert_or_ignore key) rows old) k =
     (case row_of key old k of Some r \<Rightarrow> Some r | None \<Rightarrow> row_of key rows k)"
proof (induction rows arbitrary: old)
  case Nil
  show ?case by (simp split: option.split)
next
  case (Cons r rows)
  show ?case
    by (auto simp: Cons.IH row_of_insert_or_ignore split: option.split)
qed

text \<open>
  C37. Whatever is recorded after some point, the rows the table had at that point stay its first
  rows, unchanged and in their order; an event id has one row, that of the first event
  recorded under it, while the file has a line for every call.
\<close>
theorem audit_log_append_only:
  fixes es later :: "(timestamp \<times> 'd audit_event) list"
  defines "l \<equiv> foldl audit_record audit_init es"
  shows "prefix (al_rows l) (al_rows (foldl audit_record l later)) \<and>
    distinct (map ar_event_id (al_rows l)) \<and>
    al_lines l = map (\<lambda>(t, e). audit_row_of t e) es \<and>
    row_of ar_event_id (al_rows l) = row_of ar_event_id (al_lines l)"
proof -
  have "audit_inv l" unfolding l_def by (rule audit.run_inv [OF audit_inv_init])
  then have u: "unique_keys ar_event_id (al_rows l)"
    and f: "al_rows l = fold (insert_or_ignore ar_event_id) (al_lines l) []"
    unfolding audit_inv_def by blast+
  have "al_lines l = map (\<lambda>(t, e). audit_row_of t e) es"
    by (simp add: l_def audit_run_lines audit_init_def)
  moreover have "row_of ar_event_id (al_rows l) = row_of ar_event_id (al_lines l)"
    unfolding f by (rule ext) (simp add: first_row_kept)
  ultimately show ?thesis
    using u audit_run_prefix by (simp add: unique_keys_def)
qed

text \<open>
  A query returns the rows of the log that satisfy its conditions, latest first, no more than
  its limit, and when the limit cuts, none that is left out is later than one returned.
\<close>
theorem audit_query_latest_first:
  fixes l :: "'d audit_log" and event_type sy :: "string option" and since :: "timestamp option"
    and limit :: int
  defines "found \<equiv> filter (audit_where event_type sy since) (al_rows l)"
    and "res \<equiv> audit_query event_type sy since limit l"
  shows "sorted_wrt (\<lambda>r s. ar_timestamp s \<le> ar_timestamp r) res \<and>
    (\<exists>rest. mset found = mset (res @ rest) \<and>
      sorted_wrt (\<lambda>r s. ar_timestamp s \<le> ar_timestamp r) (res @ rest)) \<and>
    length res = (if limit < 0 then length found else min (length found) (nat limit))"
proof -
  let ?s = "sort_key (\<lambda>r. - ar_timestamp r) found"
  have sorted: "sorted_wrt (\<lambda>r s. ar_timestamp s \<le> ar_timestamp r) ?s"
    using sorted_sort_key [of "\<lambda>r. - ar_timestamp r" found] by (simp add: sorted_wrt_map)
  have res: "res = sql_limit limit ?s"
    by (simp add: res_def found_def audit_query_def)
  obtain rest where rest: "?s = res @ rest"
  proof
    show "?s = res @ (if limit < 0 then [] else drop (nat limit) ?s)"
      by (simp add: res sql_limit_def)
  qed
  then have "sorted_wrt (\<lambda>r s. ar_timestamp s \<le> ar_timestamp r) (res @ rest)"
    using sorted by simp
  moreover have "mset found = mset (res @ rest)" unfolding rest [symmetric] by simp
  moreover have "length res = (if limit < 0 then length found else min (length found) (nat limit))"
    by (simp add: res sql_limit_def min.commute)
  ultimately show ?thesis by (auto simp: sorted_wrt_append)
qed

end
