(* ===== verification/Supervisor_Failures.thy ===== *)
theory Supervisor_Failures
  imports Supervisor
begin

text \<open>
  The supervisor's handlers when one of their effects raises: \<open>publish\<close> on a bus that is not healthy, the
  state store, the audit log. The handlers catch \<open>SessionTransitionError\<close> only, so the exception leaves
  them: what was assigned before stays assigned, what was called before has happened, and the rest of
  the handler does not run. A handler is therefore its list of stages, each of which changes the state
  first and then calls its effects one after the other; without a failure the stages are the handlers of
  \<open>Supervisor\<close>.
\<close>

section \<open>Stages\<close>

text \<open>\<open>Some k\<close>: the call after \<open>k\<close> effects of the handler raises.\<close>

fun run_stages :: "nat option \<Rightarrow> (psa \<Rightarrow> psa_result) list \<Rightarrow> psa \<Rightarrow> psa_result" where
  "run_stages f [] s = (s, [])"
| "run_stages f (stage # stages) s =
     (let (s1, out) = stage s in
      case f of
        None \<Rightarrow> (let (s2, out2) = run_stages None stages s1 in (s2, out @ out2))
      | Some k \<Rightarrow>
          if k < length out then (s1, take k out)
          else (let (s2, out2) = run_stages (Some (k - length out)) stages s1 in (s2, out @ out2)))"

text \<open>
  \<open>_handle_trade_closed\<close>: the loss cap, the two circuit breakers, the two PDT checks, and the report
  with its row; \<open>_handle_psa_alert\<close>: the hold, then the halt of a bus failure.
\<close>

definition trade_stages :: "psa_config \<Rightarrow> timestamp \<Rightarrow> pyfloat \<Rightarrow> (psa \<Rightarrow> psa_result) list" where
  "trade_stages cf now net_pnl =
     [\<lambda>s. check_daily_loss_cap cf now (record_trade s now net_pnl),
      \<lambda>s. if cfg_cb_threshold cf \<le> int (length (recent_stopouts cf now s))
          then psa_pause s now ''Circuit breaker: stopouts in window - systemic event'' (cfg_cb_pause cf)
          else (s, []),
      \<lambda>s. if cfg_vel_threshold cf \<le> recent_losses cf now s
          then psa_pause s now ''Drawdown velocity'' 300 else (s, []),
      \<lambda>s. if p_current_equity s + p_daily_pnl s < cfg_pdt_min cf
          then psa_halt s now ''Account equity below PDT minimum'' ''account_below_pdt'' else (s, []),
      \<lambda>s. if 3 \<le> p_pdt_trades s \<and> p_current_equity s + p_daily_pnl s < cfg_pdt_min cf
          then psa_halt s now ''PDT day trade limit reached on sub-$25k account'' ''pdt_limit'' else (s, []),
      \<lambda>s. (s, [Publish_Daily_Pnl (p_daily_pnl s) (p_current_equity s + p_daily_pnl s) (p_pdt_trades s),
               Save_Daily_Pnl (p_current_equity s + p_daily_pnl s) (p_daily_pnl s) (p_pdt_trades s)])]"

definition alert_stages :: "timestamp \<Rightarrow> string \<Rightarrow> string \<Rightarrow> (psa \<Rightarrow> psa_result) list" where
  "alert_stages now alert_type why =
     [\<lambda>s. if alert_type \<in> set [''feed_anomaly'', ''reconciliation_mismatch'', ''bus_failure'']
          then let s1 = s\<lparr>p_anomaly_hold := True\<rparr>
               in (s1, [persist_state s1, Publish_Anomaly_Hold alert_type why])
          else (s, []),
      \<lambda>s. if alert_type = ''bus_failure''
          then psa_halt s now (''Message bus failure: '' @ why) ''bus_failure'' else (s, [])]"

fun event_stages :: "psa_config \<Rightarrow> timestamp \<Rightarrow> psa_event \<Rightarrow> (psa \<Rightarrow> psa_result) list" where
  "event_stages cf now (Ev_Message (Msg_Trade_Closed t)) =
     (case t of None \<Rightarrow> [] | Some net_pnl \<Rightarrow> trade_stages cf now net_pnl)"
| "event_stages cf now (Ev_Message (Msg_Alert a why)) = alert_stages now a why"
| "event_stages cf now (Ev_Message (Msg_Reconciliation status d)) =
     (if status = Some ''mismatch''
      then alert_stages now ''reconciliation_mismatch'' (''Broker mismatch: '' @ d) else [])"
| "event_stages cf now ev = [\<lambda>s. psa_event_step cf s now ev]"

definition failing_step :: "psa_config \<Rightarrow> psa \<Rightarrow> timestamp \<Rightarrow> psa_event \<Rightarrow> nat option \<Rightarrow> psa_result" where
  "failing_step cf s now ev f = run_stages f (event_stages cf now ev) s"

section \<open>Without a failure\<close>

lemma run_stages_None: "run_stages None (stage # stages) s = psa_then (stage s) (run_stages None stages)"
  by (simp add: psa_then_def case_prod_beta)

lemma run_stages_Some:
  "run_stages (Some k) (stage # stages) s =
     (if k < length (snd (stage s)) then (fst (stage s), take k (snd (stage s)))
      else psa_then (stage s) (run_stages (Some (k - length (snd (stage s)))) stages))"
  by (simp add: psa_then_def case_prod_beta)

lemma run_stages_nil: "run_stages f [] = (\<lambda>s. (s, []))"
  by (rule ext) simp

lemma psa_then_assoc: "psa_then (psa_then r f) g = psa_then r (\<lambda>s. psa_then (f s) g)"
  by (simp add: psa_then_def case_prod_beta)

lemma psa_then_Nil [simp]: "psa_then r (\<lambda>s. (s, [])) = r" "psa_then (s, []) f = f s"
  by (simp_all add: psa_then_def)

lemma alert_undisturbed: "run_stages None (alert_stages now a why) s = psa_alert s now a why"
  unfolding alert_stages_def run_stages_None run_stages.simps(1) psa_alert_def by simp

lemma pdt_stages:
  "check_pdt_limit cf now s =
     psa_then
       (if p_current_equity s + p_daily_pnl s < cfg_pdt_min cf
        then psa_halt s now ''Account equity below PDT minimum'' ''account_below_pdt'' else (s, []))
       (\<lambda>s. if 3 \<le> p_pdt_trades s \<and> p_current_equity s + p_daily_pnl s < cfg_pdt_min cf
            then psa_halt s now ''PDT day trade limit reached on sub-$25k account'' ''pdt_limit'' else (s, []))"
  by (simp add: check_pdt_limit_def Let_def psa_then_def)

lemma trade_undisturbed:
  "run_stages None (trade_stages cf now x) s = psa_trade_closed cf s now (Some x)"
  unfolding trade_stages_def run_stages_None run_stages.simps(1) psa_trade_closed_def option.case
    check_circuit_breaker_def pdt_stages psa_then_assoc psa_then_Nil ..

lemma undisturbed: "failing_step cf s now ev None = psa_event_step cf s now ev"
proof (cases ev)
  case (Ev_Message msg)
  show ?thesis
  proof (cases msg)
    case (Msg_Trade_Closed t)
    then show ?thesis
      by (cases t) (simp_all add: Ev_Message failing_step_def trade_undisturbed del: run_stages.simps(2),
        simp_all add: psa_trade_closed_def)
  qed (simp_all add: Ev_Message failing_step_def alert_undisturbed psa_reconciliation_def run_stages_None run_stages_nil
      del: run_stages.simps(2))
qed (simp_all add: failing_step_def run_stages_None run_stages_nil del: run_stages.simps(2))

section \<open>What every stage keeps\<close>

text \<open>
  A property of results that holds of every stage's state and of each of its effects holds of a run
  that is cut anywhere.
\<close>

lemma run_stages_keeps:
  assumes "P s" and "\<And>stage s. stage \<in> set stages \<Longrightarrow> P s \<Longrightarrow> P (fst (stage s)) \<and> (\<forall>e \<in> set (snd (stage s)). Q e)"
  shows "P (fst (run_stages f stages s)) \<and> (\<forall>e \<in> set (snd (run_stages f stages s)). Q e)"
  using assms
proof (induction stages arbitrary: f s)
  case (Cons stage stages)
  have st: "P (fst (stage s))" "\<forall>e \<in> set (snd (stage s)). Q e"
    using Cons.prems(2) [of stage s] Cons.prems(1) by simp_all
  then have sub: "\<forall>e \<in> set (take k (snd (stage s))). Q e" for k
    by (auto dest: in_set_takeD)
  have rest: "P (fst (run_stages g stages (fst (stage s)))) \<and>
      (\<forall>e \<in> set (snd (run_stages g stages (fst (stage s)))). Q e)" for g
    by (rule Cons.IH) (use st Cons.prems in auto)
  show ?case
    by (cases f)
       (use st sub rest in \<open>auto simp: run_stages_None run_stages_Some simp del: run_stages.simps(2)\<close>)
qed simp

text \<open>What is saved of a supervisor that keeps the invariant can be restored: a stored halt has its reason.\<close>

fun restorable :: "psa_effect \<Rightarrow> bool" where
  "restorable (Save_State st why hold) \<longleftrightarrow> (st = HALTED \<longrightarrow> hold \<and> why \<noteq> None)"
| "restorable _ \<longleftrightarrow> True"

lemma restorable_persist [simp]: "psa_inv s \<Longrightarrow> restorable (persist_state s)"
  by (simp add: persist_state_def psa_inv_def)

lemma restorable_drive: "e \<in> set (snd (psa_drive s res)) \<Longrightarrow> restorable e"
  using psa_drive_effects [of s res] by auto

lemma restorable_halt: "psa_inv s \<Longrightarrow> \<forall>e \<in> set (snd (psa_halt s now r b)). restorable e"
  using psa_halt_inv [of s now r b]
  by (auto simp: psa_halt_def Let_def case_prod_beta dest: restorable_drive split: if_splits)

lemma restorable_pause: "psa_inv s \<Longrightarrow> \<forall>e \<in> set (snd (psa_pause s now r d)). restorable e"
  using psa_pause_inv [of s now r d]
  by (auto simp: psa_pause_def Let_def case_prod_beta dest: restorable_drive split: if_splits sum.splits)

lemma restorable_auto_resume: "psa_inv s \<Longrightarrow> \<forall>e \<in> set (snd (psa_auto_resume s)). restorable e"
  by (auto simp: psa_auto_resume_def Let_def persist_state_def)

lemma restorable_resume: "psa_inv s \<Longrightarrow> \<forall>e \<in> set (snd (psa_handle_resume s now by)). restorable e"
  using psa_resume_inv [of s now "by"]
  by (auto simp: psa_handle_resume_def Let_def case_prod_beta dest: restorable_drive split: if_splits)

lemma restorable_loss_cap: "psa_inv s \<Longrightarrow> \<forall>e \<in> set (snd (check_daily_loss_cap cf now s)). restorable e"
  by (auto simp: check_daily_loss_cap_def Let_def restorable_halt)

definition sound_stage :: "(psa \<Rightarrow> psa_result) \<Rightarrow> bool" where
  "sound_stage st \<longleftrightarrow> (\<forall>s. psa_inv s \<longrightarrow> psa_inv (fst (st s)) \<and> (\<forall>e \<in> set (snd (st s)). restorable e))"

named_theorems stage_intros

lemma sound_if [stage_intros]: "sound_stage st \<Longrightarrow> sound_stage (\<lambda>s. if c s then st s else (s, []))"
  by (simp add: sound_stage_def)

lemma sound_when [stage_intros]: "(c \<Longrightarrow> sound_stage st) \<Longrightarrow> sound_stage (\<lambda>s. if c then st s else (s, []))"
  by (simp add: sound_stage_def)

lemma sound_halt [stage_intros]: "sound_stage (\<lambda>s. psa_halt s now r b)"
  by (simp add: sound_stage_def psa_halt_inv restorable_halt)

lemma sound_pause [stage_intros]: "sound_stage (\<lambda>s. psa_pause s now r d)"
  by (simp add: sound_stage_def psa_pause_inv restorable_pause)

lemma sound_loss_cap [stage_intros]: "sound_stage (\<lambda>s. check_daily_loss_cap cf now (record_trade s now x))"
  unfolding sound_stage_def using checks_inv(1) record_trade_inv restorable_loss_cap by blast

lemma sound_hold [stage_intros]:
  "sound_stage (\<lambda>s. let s1 = s\<lparr>p_anomaly_hold := True\<rparr> in (s1, [persist_state s1, Publish_Anomaly_Hold a why]))"
  by (simp add: sound_stage_def Let_def psa_inv_def persist_state_def)

lemma sound_report [stage_intros]:
  "sound_stage (\<lambda>s. (s, [Publish_Daily_Pnl (a s) (b s) (c s), Save_Daily_Pnl (d s) (e s) (f s)]))"
  by (simp add: sound_stage_def)

lemma sound_trade: "stage \<in> set (trade_stages cf now x) \<Longrightarrow> sound_stage stage"
  unfolding trade_stages_def list.set by (elim insertE emptyE; simp only:; intro stage_intros)

lemma sound_alert: "stage \<in> set (alert_stages now a why) \<Longrightarrow> sound_stage stage"
  unfolding alert_stages_def list.set by (elim insertE emptyE; simp only:; intro stage_intros)

lemma sound_single:
  assumes "\<And>t. ev \<noteq> Ev_Message (Msg_Trade_Closed t)" and "\<And>a r. ev \<noteq> Ev_Message (Msg_Alert a r)"
    and "\<And>st d. ev \<noteq> Ev_Message (Msg_Reconciliation st d)"
  shows "sound_stage (\<lambda>s. psa_event_step cf s now ev)"
proof -
  have "\<forall>e \<in> set (snd (psa_event_step cf s now ev)). restorable e" if "psa_inv s" for s
  proof (cases ev)
    case (Ev_Message msg)
    show ?thesis
    proof (cases msg)
      case (Msg_Daily_Pnl a b)
      have "psa_inv (s\<lparr>p_daily_pnl := x, p_current_equity := y\<rparr>)" for x y
        using that by (simp add: psa_inv_def)
      then show ?thesis unfolding Ev_Message Msg_Daily_Pnl psa_event_step.simps psa_process.simps
        by (rule restorable_loss_cap)
    next
      case (Msg_System_State c who)
      then show ?thesis using that by (simp add: Ev_Message restorable_resume)
    qed (use assms Ev_Message in auto)
  qed (use that in \<open>auto simp: psa_session_start_def psa_kill_switch_def psa_fsm_auto_resume_def
      dest: restorable_drive restorable_halt [rule_format, rotated] restorable_auto_resume [rule_format, rotated]\<close>)
  moreover have "psa_inv (fst (psa_event_step cf s now ev))" if "psa_inv s" for s
    using psa_step_inv [OF that, of cf "(now, ev)"] by (simp add: psa_step_def)
  ultimately show ?thesis by (simp add: sound_stage_def)
qed

lemma event_stages_cases:
  assumes "stage \<in> set (event_stages cf now ev)"
  obtains (trade) x where "stage \<in> set (trade_stages cf now x)"
  | (alert) a why where "stage \<in> set (alert_stages now a why)"
  | (single) "stage = (\<lambda>s. psa_event_step cf s now ev)" "\<And>t. ev \<noteq> Ev_Message (Msg_Trade_Closed t)"
      "\<And>a r. ev \<noteq> Ev_Message (Msg_Alert a r)" "\<And>st d. ev \<noteq> Ev_Message (Msg_Reconciliation st d)"
proof (cases ev)
  case (Ev_Message msg)
  show thesis
  proof (cases msg)
    case (Msg_Trade_Closed t)
    with assms Ev_Message trade show thesis by (cases t) auto
  next
    case (Msg_Reconciliation st d)
    with assms Ev_Message alert show thesis by (auto split: if_splits)
  qed (use assms Ev_Message alert single in auto)
qed (use assms single in auto)

lemma sound_event: "stage \<in> set (event_stages cf now ev) \<Longrightarrow> sound_stage stage"
proof (erule event_stages_cases)
  assume "stage = (\<lambda>s. psa_event_step cf s now ev)" and "\<And>t. ev \<noteq> Ev_Message (Msg_Trade_Closed t)"
    and "\<And>a r. ev \<noteq> Ev_Message (Msg_Alert a r)" and "\<And>st d. ev \<noteq> Ev_Message (Msg_Reconciliation st d)"
  then show "sound_stage stage" by (simp add: sound_single)
qed (rule sound_trade sound_alert, assumption)+

text \<open>The invariant of the supervisor holds whatever fails.\<close>

lemma failing_step_inv:
  assumes "psa_inv s"
  shows "psa_inv (fst (failing_step cf s now ev f)) \<and>
    (\<forall>e \<in> set (snd (failing_step cf s now ev f)). restorable e)"
  unfolding failing_step_def
  by (rule run_stages_keeps) (use assms sound_event in \<open>auto simp: sound_stage_def\<close>)

section \<open>Staying halted\<close>

text \<open>A stage of a halted supervisor that keeps the halt, and saves it as it is if it saves.\<close>

definition halted_as :: "string option \<Rightarrow> psa \<Rightarrow> bool" where
  "halted_as why s \<longleftrightarrow> psa_inv s \<and> p_system_state s = HALTED \<and> p_halt_reason s = why"

fun saves_halt :: "string option \<Rightarrow> psa_effect \<Rightarrow> bool" where
  "saves_halt why (Save_State st w hold) \<longleftrightarrow> st = HALTED \<and> w = why \<and> hold"
| "saves_halt why _ \<longleftrightarrow> True"

definition halting_stage :: "string option \<Rightarrow> (psa \<Rightarrow> psa_result) \<Rightarrow> bool" where
  "halting_stage why st \<longleftrightarrow>
     (\<forall>s. halted_as why s \<longrightarrow> p_system_state (fst (st s)) = HALTED \<and> p_halt_reason (fst (st s)) = why \<and>
        (\<forall>e \<in> set (snd (st s)). saves_halt why e))"

lemma halting_if [stage_intros]: "halting_stage why st \<Longrightarrow> halting_stage why (\<lambda>s. if c s then st s else (s, []))"
  by (simp add: halting_stage_def halted_as_def)

lemma halting_halt [stage_intros]: "halting_stage why (\<lambda>s. psa_halt s now r b)"
  by (simp add: halting_stage_def halted_as_def psa_halt_idem)

lemma halting_pause [stage_intros]: "halting_stage why (\<lambda>s. psa_pause s now r d)"
  by (simp add: halting_stage_def halted_as_def psa_pause_halted)

lemma halting_loss_cap [stage_intros]:
  "halting_stage why (\<lambda>s. check_daily_loss_cap cf now (record_trade s now x))"
  by (simp add: halting_stage_def halted_as_def checks_halted)

lemma halting_hold [stage_intros]:
  "halting_stage why (\<lambda>s. let s1 = s\<lparr>p_anomaly_hold := True\<rparr> in (s1, [persist_state s1, Publish_Anomaly_Hold a r]))"
  by (simp add: halting_stage_def halted_as_def persist_state_def Let_def)

lemma halting_report [stage_intros]:
  "halting_stage why (\<lambda>s. (s, [Publish_Daily_Pnl (a s) (b s) (c s), Save_Daily_Pnl (d s) (e s) (f s)]))"
  by (simp add: halting_stage_def halted_as_def)

lemma halting_trade: "stage \<in> set (trade_stages cf now x) \<Longrightarrow> halting_stage why stage"
  unfolding trade_stages_def list.set by (elim insertE emptyE; simp only:; intro stage_intros)

lemma halting_alert: "stage \<in> set (alert_stages now a r) \<Longrightarrow> halting_stage why stage"
  unfolding alert_stages_def list.set by (elim insertE emptyE; simp only:; intro stage_intros)

lemma halting_drive: "e \<in> set (snd (psa_drive s res)) \<Longrightarrow> saves_halt why e"
  using psa_drive_effects [of s res] by auto

lemma halting_single:
  assumes "\<not> approved_resume ev" and "\<And>t. ev \<noteq> Ev_Message (Msg_Trade_Closed t)"
    and "\<And>a r. ev \<noteq> Ev_Message (Msg_Alert a r)" and "\<And>st d. ev \<noteq> Ev_Message (Msg_Reconciliation st d)"
  shows "halting_stage why (\<lambda>s. psa_event_step cf s now ev)"
proof (cases ev)
  case (Ev_Message msg)
  show ?thesis
  proof (cases msg)
    case (Msg_System_State c who)
    with assms(1) Ev_Message show ?thesis
      by (cases who) (auto simp: approved_resume_def halting_stage_def halted_as_def)
  qed (use assms Ev_Message in \<open>auto simp: halting_stage_def halted_as_def checks_halted\<close>)
qed (use assms in \<open>auto simp: halting_stage_def halted_as_def psa_session_start_def psa_kill_switch_def
    psa_fsm_auto_resume_def psa_halt_idem psa_auto_resume_def dest: halting_drive\<close>)

lemma halting_event:
  assumes "\<not> approved_resume ev" and "stage \<in> set (event_stages cf now ev)"
  shows "halting_stage why stage"
  using assms(2)
proof (cases rule: event_stages_cases)
  case single
  then show ?thesis using halting_single [OF assms(1)] by simp
qed (rule halting_trade halting_alert, assumption)+

lemma failing_step_halted:
  assumes "halted_as why s" and "\<not> approved_resume ev"
  shows "halted_as why (fst (failing_step cf s now ev f)) \<and>
    (\<forall>e \<in> set (snd (failing_step cf s now ev f)). saves_halt why e)"
  unfolding failing_step_def
proof (rule run_stages_keeps)
  fix stage s'
  assume "stage \<in> set (event_stages cf now ev)" and "halted_as why s'"
  with halting_event [OF assms(2), of stage cf now why] sound_event [of stage cf now ev]
  show "halted_as why (fst (stage s')) \<and> (\<forall>e \<in> set (snd (stage s')). saves_halt why e)"
    by (auto simp: halting_stage_def sound_stage_def halted_as_def)
qed (rule assms(1))

section \<open>What a failure loses\<close>

text \<open>
  The alert of a failed bus halts nothing when its own publication fails, as it does when the bus is the
  one that failed: the hold is set and saved, and the halt is not reached.
\<close>

lemma bus_alert_does_not_halt:
  "failing_step cf s now (Ev_Message (Msg_Alert ''bus_failure'' why)) (Some 1) =
     (s\<lparr>p_anomaly_hold := True\<rparr>, [persist_state (s\<lparr>p_anomaly_hold := True\<rparr>)])"
  by (simp add: failing_step_def alert_stages_def Let_def)

end
