(* ===== verification/Recovery.thy ===== *)
theory Recovery
  imports Supervisor_Failures State_Store
begin

text \<open>
  The supervisor together with the state store it persists to: every handler's writes are
  carried out, and a restart builds a new supervisor from what the store holds
  (\<open>on_startup\<close> of agent 13 reading \<open>load_system_state\<close>). A crash falls between two handlers. Two
  machines: in the life of a supervisor every effect succeeds; in its rough life any effect of a handler
  or of a startup may raise and cut it there, as in \<open>Supervisor_Failures\<close>.
\<close>

section \<open>Carrying out the writes\<close>

fun store_effect :: "timestamp \<Rightarrow> string \<Rightarrow> psa_effect \<Rightarrow> state_store \<Rightarrow> state_store" where
  "store_effect now day (Save_State s why hold) st = save_system_state now s why hold st"
| "store_effect now day (Save_Daily_Pnl equity pnl n) st = upsert_daily_pnl now day equity pnl n st"
| "store_effect now day _ st = st"

definition store_effects :: "timestamp \<Rightarrow> string \<Rightarrow> psa_effect list \<Rightarrow> state_store \<Rightarrow> state_store" where
  "store_effects now day out st = fold (store_effect now day) out st"

type_synonym psa_world = "psa \<times> state_store"

definition psa_boot ::
  "psa_config \<Rightarrow> string \<Rightarrow> timestamp \<Rightarrow> pyfloat option \<Rightarrow> state_store \<Rightarrow> psa_world" where
  "psa_boot cf day now equity st =
     (case psa_on_startup cf (psa_init now) now (load_system_state st) equity of
        Inl _ \<Rightarrow> (psa_init now, st)
      | Inr (s, out) \<Rightarrow> (s, store_effects now day out st))"

datatype life_event =
    Handle timestamp psa_event
  | Restart timestamp "pyfloat option"

fun life_step :: "psa_config \<Rightarrow> string \<Rightarrow> psa_world \<Rightarrow> life_event \<Rightarrow> psa_world" where
  "life_step cf day (s, st) (Handle now ev) =
     (case psa_event_step cf s now ev of (s', out) \<Rightarrow> (s', store_effects now day out st))"
| "life_step cf day (s, st) (Restart now equity) = psa_boot cf day now equity st"

definition life_run :: "psa_config \<Rightarrow> string \<Rightarrow> timestamp \<Rightarrow> pyfloat option \<Rightarrow> life_event list \<Rightarrow> psa_world" where
  "life_run cf day now equity es =
     foldl (life_step cf day) (psa_boot cf day now equity store_init) es"

lemma life_step_fst: "fst (life_step cf day w (Handle now ev)) = fst (psa_event_step cf (fst w) now ev)"
  by (cases w) (simp add: case_prod_beta)

section \<open>The store follows the supervisor\<close>

text \<open>What a restart would read after the effects of a handler.\<close>

abbreviation triple :: "psa \<Rightarrow> system_state \<times> string option \<times> bool" where
  "triple s \<equiv> (p_system_state s, p_halt_reason s, p_anomaly_hold s)"

fun last_saved ::
  "psa_effect list \<Rightarrow> system_state \<times> string option \<times> bool \<Rightarrow> system_state \<times> string option \<times> bool" where
  "last_saved [] tr = tr"
| "last_saved (e # out) tr =
     last_saved out (case e of Save_State s why hold \<Rightarrow> (s, why, hold) | _ \<Rightarrow> tr)"

lemma last_saved_append [simp]: "last_saved (xs @ ys) tr = last_saved ys (last_saved xs tr)"
  by (induction xs arbitrary: tr) simp_all

lemma load_store_effects: "load_system_state (store_effects now day out st) = last_saved out (load_system_state st)"
proof (induction out arbitrary: st)
  case (Cons e out)
  then show ?case
    by (cases e) (simp_all add: store_effects_def load_system_state_def save_system_state_def
        upsert_daily_pnl_def)
qed (simp add: store_effects_def)

definition persisted :: "psa \<Rightarrow> psa_result \<Rightarrow> bool" where
  "persisted s r \<longleftrightarrow> last_saved (snd r) (triple s) = triple (fst r)"

named_theorems persists

lemma persisted_nothing [persists]: "persisted s (s, [])"
  by (simp add: persisted_def)

lemma persisted_then [persists]:
  "persisted s r \<Longrightarrow> persisted (fst r) (f (fst r)) \<Longrightarrow> persisted s (psa_then r f)"
  by (simp add: persisted_def)

lemma drive_saves_nothing [simp]: "last_saved (snd (psa_drive s res)) tr = tr"
  by (auto simp: psa_drive_def on_fsm_transition_def split: sum.split option.split prod.split)

lemma persisted_drive [persists]: "persisted s (psa_drive s res)"
  by (simp add: persisted_def)

lemma persisted_halt [persists]: "persisted s (psa_halt s now why b)"
  by (simp add: persisted_def psa_halt_def persist_state_def Let_def case_prod_beta)

lemma persisted_pause [persists]: "persisted s (psa_pause s now why d)"
  by (simp add: persisted_def psa_pause_def persist_state_def Let_def case_prod_beta split: sum.split)

lemma persisted_auto_resume [persists]: "persisted s (psa_auto_resume s)"
  by (simp add: persisted_def psa_auto_resume_def persist_state_def Let_def)

lemma persisted_resume [persists]: "persisted s (psa_handle_resume s now by)"
  by (simp add: persisted_def psa_handle_resume_def persist_state_def Let_def case_prod_beta)

lemma persisted_checks [persists]:
  "persisted s (check_daily_loss_cap cf now s)"
  "persisted s (check_circuit_breaker cf now s)"
  "persisted s (check_pdt_limit cf now s)"
  by (auto simp: check_daily_loss_cap_def check_circuit_breaker_def check_pdt_limit_def Let_def
      intro!: persists)

lemma persisted_alert [persists]: "persisted s (psa_alert s now a why)"
  by (auto simp: psa_alert_def Let_def intro!: persists)
    (simp_all add: persisted_def persist_state_def)

lemma persisted_trade_closed [persists]: "persisted s (psa_trade_closed cf s now t)"
proof (cases t)
  case (Some x)
  have "persisted s (check_daily_loss_cap cf now (record_trade s now x))"
    using persisted_checks(1) [of "record_trade s now x" cf now] by (simp add: persisted_def)
  then have "persisted s (psa_then (psa_then (psa_then (check_daily_loss_cap cf now (record_trade s now x))
      (check_circuit_breaker cf now)) (check_pdt_limit cf now)) f)"
    if "\<And>s. persisted s (f s)" for f
    using that by (intro persists) (auto intro: persists)
  from this [of "\<lambda>s. (s, [Publish_Daily_Pnl (p_daily_pnl s) (p_current_equity s + p_daily_pnl s)
      (p_pdt_trades s), Save_Daily_Pnl (p_current_equity s + p_daily_pnl s) (p_daily_pnl s) (p_pdt_trades s)])"]
  show ?thesis by (simp add: Some psa_trade_closed_def persisted_def)
qed (simp add: psa_trade_closed_def persisted_def)

lemma persisted_process [persists]: "persisted s (psa_process cf s now msg)"
proof (cases msg)
  case (Msg_Daily_Pnl a b)
  have "persisted s (check_daily_loss_cap cf now (s\<lparr>p_daily_pnl := x, p_current_equity := y\<rparr>))" for x y
    using persisted_checks(1) [of "s\<lparr>p_daily_pnl := x, p_current_equity := y\<rparr>" cf now]
    by (simp add: persisted_def)
  then show ?thesis by (simp add: Msg_Daily_Pnl)
next
  case Msg_Fill
  show ?thesis by (simp add: Msg_Fill persisted_def)
qed (auto simp: psa_reconciliation_def intro: persists)

lemma persisted_event: "persisted s (psa_event_step cf s now ev)"
  by (cases ev) (auto simp: psa_session_start_def psa_kill_switch_def psa_fsm_auto_resume_def intro: persists)

text \<open>The invariant of a life: the store holds what the supervisor would be restored to.\<close>

definition life_inv :: "psa_world \<Rightarrow> bool" where
  "life_inv w \<longleftrightarrow> load_system_state (snd w) = triple (fst w) \<and> psa_inv (fst w)"

lemma boot_complete_init: "\<exists>m cb. boot_complete (fsm_init now) now' = Inr (m, cb)"
  by (simp add: boot_complete_def transition_to_def fsm_init_def permitted_values_def
      session_state_transitions_def human_approval_required_def Let_def)

lemma startup_restores:
  assumes "psa_on_startup cf (psa_init t0) now stored equity = Inr (s, out)"
  shows "triple s = stored \<and> p_pause_until s = None \<and> last_saved out tr = stored"
  using assms
  by (auto simp: psa_on_startup_def case_prod_beta Let_def persist_state_def psa_init_def psa_then_def
      split: sum.splits)

lemma psa_boot_world:
  obtains out where "psa_on_startup cf (psa_init now) now (load_system_state st) equity =
      Inr (fst (psa_boot cf day now equity st), out)"
    and "snd (psa_boot cf day now equity st) = store_effects now day out st"
proof -
  obtain m cb where "boot_complete (fsm_init now) now = Inr (m, cb)"
    using boot_complete_init by blast
  then obtain s out where "psa_on_startup cf (psa_init now) now (load_system_state st) equity = Inr (s, out)"
    by (auto simp: psa_on_startup_def psa_init_def case_prod_beta Let_def psa_then_def)
  then show thesis by (intro that [of out]) (simp_all add: psa_boot_def)
qed

lemma psa_boot_restores:
  "triple (fst (psa_boot cf day now equity st)) = load_system_state st \<and>
   p_pause_until (fst (psa_boot cf day now equity st)) = None \<and>
   load_system_state (snd (psa_boot cf day now equity st)) = load_system_state st"
proof -
  obtain out where "psa_on_startup cf (psa_init now) now (load_system_state st) equity =
      Inr (fst (psa_boot cf day now equity st), out)"
    and "snd (psa_boot cf day now equity st) = store_effects now day out st"
    by (rule psa_boot_world)
  with startup_restores [OF this(1)] show ?thesis
    by (simp add: load_store_effects)
qed

lemma psa_boot_inv:
  assumes "fst (load_system_state st) = HALTED \<longrightarrow>
      snd (snd (load_system_state st)) \<and> fst (snd (load_system_state st)) \<noteq> None"
  shows "life_inv (psa_boot cf day now equity st)"
proof -
  obtain out where "psa_on_startup cf (psa_init now) now (load_system_state st) equity =
      Inr (fst (psa_boot cf day now equity st), out)"
    by (rule psa_boot_world)
  with assms have "psa_inv (fst (psa_boot cf day now equity st))"
    by (cases "load_system_state st") (auto intro: psa_on_startup_inv)
  with psa_boot_restores show ?thesis by (simp add: life_inv_def)
qed

lemma life_step_inv: "life_inv w \<Longrightarrow> life_inv (life_step cf day w e)"
proof (cases w; cases e)
  fix s st now ev assume "life_inv w" "w = (s, st)" "e = Handle now ev"
  moreover have "psa_inv (fst (psa_event_step cf s now ev))" if "psa_inv s"
    using psa_step_inv [OF that, of cf "(now, ev)"] by (simp add: psa_step_def)
  ultimately show ?thesis
    using persisted_event [of s cf now ev]
    by (simp add: life_inv_def load_store_effects persisted_def case_prod_beta)
next
  fix s st now equity assume "life_inv w" "w = (s, st)" "e = Restart now equity"
  moreover from this have "life_inv (psa_boot cf day now equity st)"
    by (intro psa_boot_inv) (auto simp: life_inv_def psa_inv_def)
  ultimately show ?thesis by simp
qed

interpretation life: inv_machine "life_step cf day" life_inv for cf day
  by unfold_locales (rule life_step_inv)

lemma life_run_inv: "life_inv (life_run cf day now equity es)"
  unfolding life_run_def
  by (rule life.run_inv, rule psa_boot_inv) (simp add: load_system_state_def store_init_def)

section \<open>A halt survives every restart\<close>

text \<open>Handlers and startups that may be cut: \<open>Some k\<close> when the effect after the first \<open>k\<close> raises.\<close>

datatype rough_event =
    Rough_Handle timestamp psa_event "nat option"
  | Rough_Restart timestamp "pyfloat option" "nat option"

definition rough_boot ::
  "psa_config \<Rightarrow> string \<Rightarrow> timestamp \<Rightarrow> pyfloat option \<Rightarrow> nat option \<Rightarrow> state_store \<Rightarrow> psa_world" where
  "rough_boot cf day now equity f st =
     (case psa_on_startup cf (psa_init now) now (load_system_state st) equity of
        Inl _ \<Rightarrow> (psa_init now, st)
      | Inr (s, out) \<Rightarrow> (s, store_effects now day (case f of None \<Rightarrow> out | Some k \<Rightarrow> take k out) st))"

fun rough_step :: "psa_config \<Rightarrow> string \<Rightarrow> psa_world \<Rightarrow> rough_event \<Rightarrow> psa_world" where
  "rough_step cf day (s, st) (Rough_Handle now ev f) =
     (case failing_step cf s now ev f of (s', out) \<Rightarrow> (s', store_effects now day out st))"
| "rough_step cf day (s, st) (Rough_Restart now equity f) = rough_boot cf day now equity f st"

definition rough_run ::
  "psa_config \<Rightarrow> string \<Rightarrow> timestamp \<Rightarrow> pyfloat option \<Rightarrow> nat option \<Rightarrow> rough_event list \<Rightarrow> psa_world" where
  "rough_run cf day now equity f es = foldl (rough_step cf day) (rough_boot cf day now equity f store_init) es"

definition rough_resumes :: "rough_event \<Rightarrow> bool" where
  "rough_resumes e = (case e of Rough_Handle now ev f \<Rightarrow> approved_resume ev | Rough_Restart now eq f \<Rightarrow> False)"

text \<open>No handler is cut; a startup may be.\<close>

definition smooth :: "rough_event \<Rightarrow> bool" where
  "smooth e = (case e of Rough_Handle now ev f \<Rightarrow> f = None | Rough_Restart now eq f \<Rightarrow> True)"

text \<open>The store holds what the supervisor is in.\<close>

definition recorded :: "psa_world \<Rightarrow> bool" where
  "recorded w \<longleftrightarrow> load_system_state (snd w) = triple (fst w)"

definition rough_inv :: "psa_world \<Rightarrow> bool" where
  "rough_inv w \<longleftrightarrow> psa_inv (fst w) \<and>
     (case load_system_state (snd w) of (st, why, hold) \<Rightarrow> st = HALTED \<longrightarrow> hold \<and> why \<noteq> None)"

lemma last_saved_all:
  assumes "P tr" and "\<forall>e \<in> set out. case e of Save_State s why hold \<Rightarrow> P (s, why, hold) | _ \<Rightarrow> True"
  shows "P (last_saved out tr)"
  using assms by (induction out arbitrary: tr) (auto split: psa_effect.splits)

lemma startup_saves:
  assumes "psa_on_startup cf (psa_init t0) now stored equity = Inr (s, out)"
  shows "\<forall>e \<in> set out. case e of Save_State st why hold \<Rightarrow> (st, why, hold) = stored | _ \<Rightarrow> True"
proof -
  have "\<forall>e \<in> set (snd (psa_drive u res)). case e of Save_State st why hold \<Rightarrow> (st, why, hold) = stored | _ \<Rightarrow> True"
    for u res using psa_drive_effects [of u res] by auto
  with assms show ?thesis
    by (auto simp: psa_on_startup_def case_prod_beta Let_def persist_state_def psa_init_def psa_then_def
        split: sum.splits)
qed

lemma rough_boot_restores:
  "triple (fst (rough_boot cf day now equity f st)) = load_system_state st \<and>
   load_system_state (snd (rough_boot cf day now equity f st)) = load_system_state st"
proof -
  obtain m cb where "boot_complete (fsm_init now) now = Inr (m, cb)"
    using boot_complete_init by blast
  then obtain s out where r: "psa_on_startup cf (psa_init now) now (load_system_state st) equity = Inr (s, out)"
    by (auto simp: psa_on_startup_def psa_init_def case_prod_beta Let_def psa_then_def)
  let ?out = "case f of None \<Rightarrow> out | Some k \<Rightarrow> take k out"
  have "\<forall>e \<in> set ?out. case e of Save_State st' why hold \<Rightarrow> (st', why, hold) = load_system_state st | _ \<Rightarrow> True"
    using startup_saves [OF r] by (auto split: option.split dest: in_set_takeD)
  then have "last_saved ?out (load_system_state st) = load_system_state st"
    by (intro last_saved_all [where P = "\<lambda>x. x = load_system_state st"]) simp_all
  with startup_restores [OF r] show ?thesis by (simp add: rough_boot_def r load_store_effects)
qed

lemma rough_boot_inv:
  assumes "case load_system_state st of (s, why, hold) \<Rightarrow> s = HALTED \<longrightarrow> hold \<and> why \<noteq> None"
  shows "rough_inv (rough_boot cf day now equity f st)" and "recorded (rough_boot cf day now equity f st)"
proof -
  obtain m cb where "boot_complete (fsm_init now) now = Inr (m, cb)"
    using boot_complete_init by blast
  then obtain s out where r: "psa_on_startup cf (psa_init now) now (load_system_state st) equity = Inr (s, out)"
    by (auto simp: psa_on_startup_def psa_init_def case_prod_beta Let_def psa_then_def)
  with assms have "psa_inv s" by (cases "load_system_state st") (auto intro: psa_on_startup_inv)
  then have inv: "psa_inv (fst (rough_boot cf day now equity f st))" by (simp add: rough_boot_def r)
  note restored = rough_boot_restores [of cf day now equity f st]
  show "recorded (rough_boot cf day now equity f st)"
    unfolding recorded_def using restored by metis
  show "rough_inv (rough_boot cf day now equity f st)"
    unfolding rough_inv_def using inv restored assms by metis
qed

lemma rough_handle:
  assumes "psa_inv s"
  shows "rough_inv (s, st) \<Longrightarrow> rough_inv (rough_step cf day (s, st) (Rough_Handle now ev f))"
proof -
  assume i: "rough_inv (s, st)"
  obtain s' out where r: "failing_step cf s now ev f = (s', out)" by (cases "failing_step cf s now ev f")
  have "psa_inv s'" and "\<forall>e \<in> set out. restorable e"
    using failing_step_inv [OF assms, of cf now ev f] by (simp_all add: r)
  moreover have "case last_saved out (load_system_state st) of (s, why, hold) \<Rightarrow> s = HALTED \<longrightarrow> hold \<and> why \<noteq> None"
    by (rule last_saved_all [where P = "\<lambda>(s, why, hold). s = HALTED \<longrightarrow> hold \<and> why \<noteq> None"])
       (use i \<open>\<forall>e \<in> set out. restorable e\<close> in \<open>auto simp: rough_inv_def split: psa_effect.split\<close>)
  ultimately show ?thesis by (simp add: rough_inv_def r load_store_effects)
qed

lemma rough_step_inv: "rough_inv w \<Longrightarrow> rough_inv (rough_step cf day w e)"
proof (cases w; cases e)
  fix s st now ev f assume "rough_inv w" "w = (s, st)" "e = Rough_Handle now ev f"
  with rough_handle [of s st cf day now ev f] show ?thesis by (simp add: rough_inv_def)
next
  fix s st now eq f assume "rough_inv w" "w = (s, st)" "e = Rough_Restart now eq f"
  with rough_boot_inv(1) [of st cf day now eq f] show ?thesis by (simp add: rough_inv_def)
qed

interpretation rough: inv_machine "rough_step cf day" rough_inv for cf day
  by unfold_locales (rule rough_step_inv)

lemma rough_run_inv: "rough_inv (rough_run cf day now equity f es)"
  unfolding rough_run_def
  by (rule rough.run_inv, rule rough_boot_inv) (simp add: load_system_state_def store_init_def)

lemma smooth_recorded:
  assumes "rough_inv w" and "recorded w" and "smooth e"
  shows "recorded (rough_step cf day w e)"
proof (cases w; cases e)
  fix s st now ev f assume "w = (s, st)" "e = Rough_Handle now ev f"
  with assms persisted_event [of s cf now ev] show ?thesis
    by (simp add: recorded_def smooth_def undisturbed load_store_effects persisted_def case_prod_beta)
next
  fix s st now eq f assume "w = (s, st)" "e = Rough_Restart now eq f"
  with assms rough_boot_inv(2) [of st cf day now eq f] show ?thesis by (simp add: rough_inv_def)
qed

lemma smooth_run_recorded:
  "rough_inv w \<Longrightarrow> recorded w \<Longrightarrow> list_all smooth es \<Longrightarrow> recorded (foldl (rough_step cf day) w es)"
  by (induction es arbitrary: w) (simp_all add: smooth_recorded rough_step_inv)

text \<open>A recorded halt stays, and stays recorded, whatever is cut.\<close>

definition halt_kept :: "string option \<Rightarrow> psa_world \<Rightarrow> bool" where
  "halt_kept why w \<longleftrightarrow> rough_inv w \<and> recorded w \<and> halted_as why (fst w)"

lemma halt_kept_step:
  assumes "halt_kept why w" and "\<not> rough_resumes e"
  shows "halt_kept why (rough_step cf day w e)"
proof (cases w; cases e)
  fix s st now ev f assume *: "w = (s, st)" "e = Rough_Handle now ev f"
  obtain s' out where r: "failing_step cf s now ev f = (s', out)" by (cases "failing_step cf s now ev f")
  have h: "halted_as why s" and tr: "load_system_state st = (HALTED, why, True)"
    using assms(1) * by (auto simp: halt_kept_def recorded_def halted_as_def psa_inv_def)
  have "halted_as why s'" and "\<forall>e \<in> set out. saves_halt why e"
    using failing_step_halted [OF h, of ev cf now f] assms(2) * by (simp_all add: r rough_resumes_def)
  moreover from this have "last_saved out (load_system_state st) = (HALTED, why, True)"
    unfolding tr by (intro last_saved_all [where P = "\<lambda>x. x = (HALTED, why, True)"]) (auto split: psa_effect.split)
  ultimately have "halted_as why s'" and load: "load_system_state (store_effects now day out st) = (HALTED, why, True)"
    by (simp_all only: load_store_effects)
  moreover from this have "triple s' = (HALTED, why, True)" by (auto simp: halted_as_def psa_inv_def)
  moreover have "rough_inv (rough_step cf day w e)"
    using rough_step_inv assms(1) by (simp add: halt_kept_def)
  ultimately show ?thesis by (simp add: * halt_kept_def recorded_def r)
next
  fix s st now eq f assume *: "w = (s, st)" "e = Rough_Restart now eq f"
  have "rough_inv (rough_step cf day w e)" and "recorded (rough_step cf day w e)"
    using rough_step_inv [of w cf day e] rough_boot_inv(2) [of st cf day now eq f] assms(1) *
    by (simp_all add: halt_kept_def rough_inv_def)
  moreover have "triple (fst (rough_step cf day w e)) = triple s"
    using rough_boot_restores [of cf day now eq f st] assms(1) * by (simp add: halt_kept_def recorded_def)
  ultimately show ?thesis
    using assms(1) * by (simp add: halt_kept_def halted_as_def rough_inv_def)
qed

lemma halt_kept_run:
  "halt_kept why w \<Longrightarrow> list_all (\<lambda>e. \<not> rough_resumes e) es \<Longrightarrow> halt_kept why (foldl (rough_step cf day) w es)"
  by (induction es arbitrary: w) (simp_all add: halt_kept_step)



text \<open>
  The record is needed. \<open>_halt\<close> saves only after the session machine's callback has published: when
  that publication raises, the supervisor refuses trades until it is restarted, and then it has
  forgotten the halt.
\<close>

lemma halt_lost_by_failed_publish:
  "p_system_state (fst (rough_run psa_defaults ''d'' 1 None None
     [Rough_Handle 5 Ev_Bus_Failure (Some 0)])) = HALTED"
  "p_system_state (fst (rough_run psa_defaults ''d'' 1 None None
     [Rough_Handle 5 Ev_Bus_Failure (Some 0), Rough_Restart 9 None None])) = INITIALIZING"
  by code_simp+

section \<open>A pause does not\<close>

definition unpauses :: "life_event \<Rightarrow> bool" where
  "unpauses e = (case e of Handle now ev \<Rightarrow> approved_resume ev \<or> ev = Ev_Auto_Resume | Restart now eq \<Rightarrow> False)"

definition announces_pause :: "psa_effect \<Rightarrow> bool" where
  "announces_pause e = (case e of Publish_Paused _ _ \<Rightarrow> True | Schedule_Auto_Resume _ \<Rightarrow> True | _ \<Rightarrow> False)"

definition life_out :: "psa_config \<Rightarrow> psa_world \<Rightarrow> life_event \<Rightarrow> psa_effect list" where
  "life_out cf w e =
     (case e of
        Handle now ev \<Rightarrow> snd (psa_event_step cf (fst w) now ev)
      | Restart now equity \<Rightarrow>
          (case psa_on_startup cf (psa_init now) now (load_system_state (snd w)) equity of
             Inl _ \<Rightarrow> [] | Inr r \<Rightarrow> snd r))"

abbreviation stuck :: "psa \<Rightarrow> bool" where
  "stuck s \<equiv> p_system_state s = PAUSED \<or> p_system_state s = HALTED"

definition quiet :: "psa_result \<Rightarrow> bool" where
  "quiet r \<longleftrightarrow> filter announces_pause (snd r) = [] \<and> stuck (fst r)"

named_theorems quietens

lemma quiet_nothing [quietens]: "stuck s \<Longrightarrow> quiet (s, [])"
  by (simp add: quiet_def)

lemma quiet_then [quietens]: "quiet r \<Longrightarrow> (\<And>s. stuck s \<Longrightarrow> quiet (f s)) \<Longrightarrow> quiet (psa_then r f)"
  by (simp add: quiet_def)

lemma drive_quiet [simp]: "filter announces_pause (snd (psa_drive s res)) = []"
  by (auto simp: psa_drive_def on_fsm_transition_def announces_pause_def
      split: sum.split option.split prod.split)

lemma quiet_drive [quietens]: "stuck s \<Longrightarrow> quiet (psa_drive s res)"
  by (simp add: quiet_def)

lemma quiet_halt [quietens]: "stuck s \<Longrightarrow> quiet (psa_halt s now why b)"
  by (simp add: quiet_def psa_halt_def persist_state_def announces_pause_def Let_def case_prod_beta)

lemma stuck_pause: "stuck s \<Longrightarrow> psa_pause s now why d = (s, [])"
  by (auto simp: psa_pause_def)

lemma quiet_checks [quietens]:
  "stuck s \<Longrightarrow> quiet (check_daily_loss_cap cf now s)"
  "stuck s \<Longrightarrow> quiet (check_circuit_breaker cf now s)"
  "stuck s \<Longrightarrow> quiet (check_pdt_limit cf now s)"
  by (auto simp: check_daily_loss_cap_def check_circuit_breaker_def check_pdt_limit_def Let_def
      stuck_pause intro!: quietens)

lemma quiet_alert [quietens]: "stuck s \<Longrightarrow> quiet (psa_alert s now a why)"
  by (auto simp: psa_alert_def Let_def intro!: quietens)
    (simp_all add: quiet_def persist_state_def announces_pause_def)

lemma quiet_trade_closed [quietens]: "stuck s \<Longrightarrow> quiet (psa_trade_closed cf s now t)"
  by (auto simp: psa_trade_closed_def intro!: quietens split: option.split)
    (simp_all add: quiet_def announces_pause_def)

lemma quiet_process [quietens]:
  "stuck s \<Longrightarrow> \<not> approved_resume (Ev_Message msg) \<Longrightarrow> quiet (psa_process cf s now msg)"
proof (cases msg)
  case (Msg_System_State c who)
  assume "stuck s" "\<not> approved_resume (Ev_Message msg)"
  with Msg_System_State show ?thesis
    by (cases who) (auto simp: approved_resume_def quiet_def)
next
  case Msg_Fill
  assume "stuck s"
  then show ?thesis by (simp add: Msg_Fill quiet_def)
qed (auto simp: psa_reconciliation_def intro: quietens)

lemma quiet_event:
  "stuck s \<Longrightarrow> \<not> approved_resume ev \<Longrightarrow> ev \<noteq> Ev_Auto_Resume \<Longrightarrow> quiet (psa_event_step cf s now ev)"
  by (cases ev) (auto simp: psa_session_start_def psa_kill_switch_def psa_fsm_auto_resume_def intro: quietens)

lemma startup_quiet:
  "psa_on_startup cf (psa_init t0) now stored equity = Inr (s, out) \<Longrightarrow> filter announces_pause out = []"
  by (auto simp: psa_on_startup_def case_prod_beta Let_def persist_state_def psa_then_def announces_pause_def
      split: sum.splits)

lemma stuck_life_step:
  assumes "life_inv w" and "stuck (fst w)" and "\<not> unpauses e"
  shows "stuck (fst (life_step cf day w e)) \<and> filter announces_pause (life_out cf w e) = []"
proof (cases w; cases e)
  fix s st now ev assume "w = (s, st)" "e = Handle now ev"
  with assms quiet_event [of s ev cf now] show ?thesis
    by (auto simp: unpauses_def life_out_def quiet_def case_prod_beta)
next
  fix s st now eq assume *: "w = (s, st)" "e = Restart now eq"
  with assms psa_boot_restores [of cf day now eq st]
  have "stuck (fst (life_step cf day w e))" by (auto simp: life_inv_def)
  with * show ?thesis by (auto simp: life_out_def startup_quiet split: sum.split)
qed

lemma stuck_life_run:
  assumes "life_inv w" and "stuck (fst w)" and "list_all (\<lambda>e. \<not> unpauses e) es"
  shows "stuck (fst (foldl (life_step cf day) w es)) \<and>
    filter announces_pause (run_out (life_step cf day) (life_out cf) w es) = []"
  using assms
proof (induction es arbitrary: w)
  case (Cons e es)
  with stuck_life_step [of w e cf day] life_step_inv [of w cf day e] show ?case by simp
qed simp

text \<open>
  A supervisor restarted while it is paused is paused without an end: the pause time and the
  timer are gone, the state stays PAUSED or becomes HALTED, and whatever happens, trades that
  trip the circuit breaker included, no pause is announced or timed again, until an approved
  resume.
\<close>
theorem restart_loses_pause:
  fixes es later :: "life_event list" and cf :: psa_config and day :: string
    and t0 now :: timestamp and equity eq :: "pyfloat option"
  defines "w \<equiv> life_run cf day t0 equity (es @ [Restart now eq])"
  assumes "p_system_state (fst (life_run cf day t0 equity es)) = PAUSED"
    and "list_all (\<lambda>e. \<not> unpauses e) later"
  shows "p_system_state (fst w) = PAUSED \<and> p_pause_until (fst w) = None \<and>
    p_system_state (fst (foldl (life_step cf day) w later)) \<in> {PAUSED, HALTED} \<and>
    filter announces_pause (run_out (life_step cf day) (life_out cf) w later) = []"
proof -
  let ?v = "life_run cf day t0 equity es"
  have w: "w = psa_boot cf day now eq (snd ?v)"
    by (cases ?v) (simp add: w_def life_run_def)
  have "load_system_state (snd ?v) = triple (fst ?v)"
    using life_run_inv [of cf day t0 equity es] by (simp add: life_inv_def)
  then have p: "p_system_state (fst w) = PAUSED" "p_pause_until (fst w) = None"
    using psa_boot_restores [of cf day now eq "snd ?v"] assms(2) by (simp_all add: w)
  moreover have "life_inv w" unfolding w_def by (rule life_run_inv)
  ultimately show ?thesis
    using stuck_life_run [of w later cf day] assms(3) by auto
qed

text \<open>One losing trade with a breaker that trips at one; after a restart the next loss trips nothing.\<close>

theorem restart_loses_pause_witness:
  "let cf = psa_defaults\<lparr>cfg_cb_threshold := 1\<rparr>;
       loss = (\<lambda>t. Handle t (Ev_Message (Msg_Trade_Closed (Some (- 1)))));
       w = life_run cf ''d'' 1 None ([loss 5] @ [Restart 9 None])
   in p_system_state (fst w) = PAUSED \<and>
      filter announces_pause (run_out (life_step cf ''d'') (life_out cf) w [loss 10]) = []"
proof -
  let ?cf = "psa_defaults\<lparr>cfg_cb_threshold := 1\<rparr>"
  let ?loss = "\<lambda>t. Handle t (Ev_Message (Msg_Trade_Closed (Some (- 1))))"
  have "p_system_state (fst (life_run ?cf ''d'' 1 None [?loss 5])) = PAUSED"
    by code_simp
  from restart_loses_pause [OF this, of "[?loss 10]" 9 None] show ?thesis
    by (simp add: unpauses_def approved_resume_def Let_def)
qed

end
