(* ===== verification/Governance.thy ===== *)
theory Governance
  imports State_Store Supervisor "HOL-Library.AList"
begin

text \<open>
  The human governance layer, agent 16 (\<open>agents/agent_16_human_governance.py\<close>): change
  proposals that wait for a person, their approval and rejection, the authorisation of a
  restart, and the operator's review loop. The operations of one operator come one after the
  other, so each is one step with the writes to the store it makes; publications and audit
  records are effects.
\<close>

section \<open>State\<close>

record approved_change =
  ac_proposal_id :: string
  ac_type :: change_proposal_type
  ac_approver :: string
  ac_approved_at :: timestamp
  ac_rationale :: string

record hgl =
  hg_pending :: "(string \<times> change_proposal) list"
  hg_approved :: "approved_change list"

definition hgl_init :: hgl where
  "hgl_init = \<lparr>hg_pending = [], hg_approved = []\<rparr>"

datatype 'c hgl_effect =
    Audit_Proposal_Received string change_proposal_type string
  | Audit_Halt_Notified string
  | Audit_Governance_Approval string string change_proposal_type
  | Audit_Approval_Rationale string string string
  | Publish_Proposal change_proposal
  | Audit_Proposal_Rejected string string string
  | Audit_Restart_Authorized string string
  | Publish_Resume string string
  | Audit_Shadow_Criteria string 'c

type_synonym 'c hgl_result = "hgl \<times> state_store \<times> 'c hgl_effect list"

section \<open>Messages\<close>

text \<open>\<open>None\<close> is a payload that is not a proposal; the handler drops it.\<close>

definition hgl_handle_proposal :: "change_proposal option \<Rightarrow> hgl \<Rightarrow> hgl \<times> 'c hgl_effect list" where
  "hgl_handle_proposal payload h =
     (case payload of
        None \<Rightarrow> (h, [])
      | Some p \<Rightarrow>
          if cp_status p \<noteq> AWAITING_HGL then (h, [])
          else (h\<lparr>hg_pending := AList.update (cp_proposal_id p) p (hg_pending h)\<rparr>,
                [Audit_Proposal_Received (cp_proposal_id p) (cp_proposal_type p) (cp_description p)]))"

definition hgl_halt_notification :: "string option \<Rightarrow> hgl \<Rightarrow> hgl \<times> 'c hgl_effect list" where
  "hgl_halt_notification why h =
     (h, [Audit_Halt_Notified (case why of None \<Rightarrow> ''unknown'' | Some w \<Rightarrow> w)])"

section \<open>Approval and rejection\<close>

text \<open>The proposal is looked up in memory, then among the pending ones of the store.\<close>

definition find_proposal :: "string \<Rightarrow> hgl \<Rightarrow> state_store \<Rightarrow> change_proposal option" where
  "find_proposal pid h st =
     (case map_of (hg_pending h) pid of
        Some p \<Rightarrow> Some p
      | None \<Rightarrow> List.find (\<lambda>p. cp_proposal_id p = pid) (load_pending_proposals st))"

definition approved_by :: "timestamp \<Rightarrow> string \<Rightarrow> change_proposal \<Rightarrow> change_proposal" where
  "approved_by now approver p =
     p\<lparr>cp_status := HGL_APPROVED, cp_hgl_approved_by := Some approver,
       cp_hgl_approved_at := Some now, cp_updated_at := now\<rparr>"

definition approve_proposal ::
  "timestamp \<Rightarrow> string \<Rightarrow> string \<Rightarrow> string \<Rightarrow> hgl \<Rightarrow> state_store \<Rightarrow> bool \<times> 'c hgl_result" where
  "approve_proposal now pid approver rationale h st =
     (case find_proposal pid h st of
        None \<Rightarrow> (False, h, st, [])
      | Some p \<Rightarrow>
          let p1 = approved_by now approver p;
              st1 = upsert_change_proposal now p1 st;
              h1 = h\<lparr>hg_pending := AList.delete pid (hg_pending h),
                     hg_approved := hg_approved h @
                       [\<lparr>ac_proposal_id = pid, ac_type = cp_proposal_type p1, ac_approver = approver,
                         ac_approved_at = now, ac_rationale = rationale\<rparr>]\<rparr>
          in (True, h1, st1,
              [Audit_Governance_Approval approver pid (cp_proposal_type p1)] @
              (if rationale \<noteq> [] then [Audit_Approval_Rationale pid approver rationale] else []) @
              [Publish_Proposal p1]))"

definition rejected_with :: "timestamp \<Rightarrow> string \<Rightarrow> change_proposal \<Rightarrow> change_proposal" where
  "rejected_with now why p =
     p\<lparr>cp_status := HGL_REJECTED, cp_hgl_rejection_reason := Some why, cp_updated_at := now\<rparr>"

definition hgl_reject_proposal ::
  "timestamp \<Rightarrow> string \<Rightarrow> string \<Rightarrow> string \<Rightarrow> hgl \<Rightarrow> state_store \<Rightarrow> bool \<times> 'c hgl_result" where
  "hgl_reject_proposal now pid approver why h st =
     (case map_of (hg_pending h) pid of
        None \<Rightarrow> (False, h, st, [])
      | Some p \<Rightarrow>
          (True, h\<lparr>hg_pending := AList.delete pid (hg_pending h)\<rparr>,
           upsert_change_proposal now (rejected_with now why p) st,
           [Audit_Proposal_Rejected pid approver why]))"

section \<open>Restarts and shadow criteria\<close>

definition authorize_system_restart :: "string \<Rightarrow> string \<Rightarrow> 'c hgl_effect list" where
  "authorize_system_restart approver why =
     [Audit_Restart_Authorized approver why, Publish_Resume approver why]"

definition sign_off_shadow_criteria :: "string \<Rightarrow> 'c \<Rightarrow> 'c hgl_effect list" where
  "sign_off_shadow_criteria approver criteria = [Audit_Shadow_Criteria approver criteria]"

section \<open>The review loop\<close>

definition get_pending_proposals :: "hgl \<Rightarrow> state_store \<Rightarrow> change_proposal list" where
  "get_pending_proposals h st =
     (let from_memory = map snd (hg_pending h);
          seen = map cp_proposal_id from_memory;
          all_proposals = from_memory @ filter (\<lambda>p. cp_proposal_id p \<notin> set seen) (load_pending_proposals st)
      in filter (\<lambda>p. cp_status p = AWAITING_HGL) all_proposals)"

text \<open>\<open>xs[i]\<close> counts from the end for a negative index; \<open>None\<close> is the \<open>IndexError\<close>.\<close>

definition py_index :: "'a list \<Rightarrow> int \<Rightarrow> 'a option" where
  "py_index xs i =
     (if 0 \<le> i \<and> i < int (length xs) then Some (xs ! nat i)
      else if i < 0 \<and> - int (length xs) \<le> i then Some (xs ! nat (int (length xs) + i))
      else None)"

text \<open>
  One turn of \<open>interactive_review_loop\<close> with the operator's inputs: the number typed
  (\<open>None\<close> for a text that is no number, which prints a message), the decision, the name and
  the rationale. Typing \<open>skip\<close> is no turn.
\<close>

definition review_turn ::
  "timestamp \<Rightarrow> int option \<Rightarrow> string \<Rightarrow> string \<Rightarrow> string \<Rightarrow> hgl \<Rightarrow> state_store \<Rightarrow> 'c hgl_result" where
  "review_turn now number decision approver rationale h st =
     (case number of
        None \<Rightarrow> (h, st, [])
      | Some n \<Rightarrow>
          (case py_index (get_pending_proposals h st) (n - 1) of
             None \<Rightarrow> (h, st, [])
           | Some p \<Rightarrow>
               if decision = ''a'' then snd (approve_proposal now (cp_proposal_id p) approver rationale h st)
               else if decision = ''r'' then snd (hgl_reject_proposal now (cp_proposal_id p) approver rationale h st)
               else (h, st, [])))"

section \<open>Finding what was stored\<close>

lemma proposals_after_upsert:
  "sp_proposals (store_abs (upsert_change_proposal now p st)) =
     (sp_proposals (store_abs st))(cp_proposal_id p \<mapsto> p)"
  using store_step_refines [of st "Put_Proposal now p"] by simp

lemma upsert_proposal_ok: "store_ok st \<Longrightarrow> store_ok (upsert_change_proposal now p st)"
  using store_step_ok [of st "Put_Proposal now p"] by simp

lemma find_pending:
  assumes "store_ok st"
  shows "List.find (\<lambda>p. cp_proposal_id p = pid) (load_pending_proposals st) =
    (case sp_proposals (store_abs st) pid of
       None \<Rightarrow> None
     | Some p \<Rightarrow> if cp_status p \<in> {LIVE, HGL_REJECTED, EDGE_FAILED} then None else Some p)"
    (is "?found = ?spec")
proof -
  note keyed = proposals_keyed [OF assms]
  have mem: "p \<in> set (load_pending_proposals st) \<longleftrightarrow>
      sp_proposals (store_abs st) (cp_proposal_id p) = Some p \<and> cp_status p \<notin> {LIVE, HGL_REJECTED, EDGE_FAILED}" for p
    unfolding load_proposals_set [OF assms] using keyed by (auto simp: ran_def)
  show ?thesis
  proof (cases ?found)
    case None
    then have "\<not> (\<exists>p \<in> set (load_pending_proposals st). cp_proposal_id p = pid)"
      by (simp add: find_None_iff)
    with None mem keyed show ?thesis by (auto split: option.split)
  next
    case (Some p)
    then have "p \<in> set (load_pending_proposals st)" "cp_proposal_id p = pid"
      by (auto simp: find_Some_iff)
    with Some mem show ?thesis by auto
  qed
qed

text \<open>What an approval finds: the proposal in memory, or the stored one that is not settled.\<close>

definition approvable :: "hgl \<Rightarrow> state_store \<Rightarrow> string \<Rightarrow> change_proposal option" where
  "approvable h st pid =
     (case map_of (hg_pending h) pid of
        Some p \<Rightarrow> Some p
      | None \<Rightarrow>
          (case sp_proposals (store_abs st) pid of
             None \<Rightarrow> None
           | Some p \<Rightarrow> if cp_status p \<in> {LIVE, HGL_REJECTED, EDGE_FAILED} then None else Some p))"

lemma find_proposal_spec: "store_ok st \<Longrightarrow> find_proposal pid h st = approvable h st pid"
  by (auto simp: find_proposal_def approvable_def find_pending split: option.split)

definition hgl_ok :: "hgl \<Rightarrow> bool" where
  "hgl_ok h \<longleftrightarrow> list_all (\<lambda>(k, p). cp_proposal_id p = k \<and> cp_status p = AWAITING_HGL) (hg_pending h)"

lemma hgl_ok_lookup: "hgl_ok h \<Longrightarrow> map_of (hg_pending h) k = Some p \<Longrightarrow> cp_proposal_id p = k \<and> cp_status p = AWAITING_HGL"
  by (auto simp: hgl_ok_def list_all_iff dest!: map_of_SomeD)

lemma approvable_id: "hgl_ok h \<Longrightarrow> store_ok st \<Longrightarrow> approvable h st pid = Some p \<Longrightarrow> cp_proposal_id p = pid"
  by (auto simp: approvable_def hgl_ok_lookup proposals_keyed split: option.splits if_splits)

section \<open>What the layer guarantees\<close>

lemma approve_found:
  assumes "store_ok st" and "approvable h st pid = Some p"
  shows "approve_proposal now pid approver rationale h st =
    (True,
     h\<lparr>hg_pending := AList.delete pid (hg_pending h),
       hg_approved := hg_approved h @
         [\<lparr>ac_proposal_id = pid, ac_type = cp_proposal_type p, ac_approver = approver,
           ac_approved_at = now, ac_rationale = rationale\<rparr>]\<rparr>,
     upsert_change_proposal now (approved_by now approver p) st,
     [Audit_Governance_Approval approver pid (cp_proposal_type p)] @
     (if rationale \<noteq> [] then [Audit_Approval_Rationale pid approver rationale] else []) @
     [Publish_Proposal (approved_by now approver p)])"
  using assms by (simp add: approve_proposal_def find_proposal_spec approved_by_def Let_def)

lemma approve_missing:
  "store_ok st \<Longrightarrow> approvable h st pid = None \<Longrightarrow> approve_proposal now pid a r h st = (False, h, st, [])"
  by (simp add: approve_proposal_def find_proposal_spec)

definition proposal_example :: "change_proposal_status \<Rightarrow> change_proposal" where
  "proposal_example status =
     \<lparr>cp_proposal_id = ''p1'', cp_proposal_type = SETUP_RETIREMENT, cp_status = status,
      cp_submitted_by = ''PSRA'', cp_proposed_for_session = None, cp_description = ''retire'',
      cp_parameter_changes = [(''setup_type'', PV_Text ''breakout'')], cp_hgl_approved_by = None,
      cp_hgl_approved_at = None, cp_hgl_rejection_reason = None, cp_edge_validation_result = None,
      cp_edge_rejection_reason = None, cp_created_at = 1, cp_updated_at = 1\<rparr>"

lemma proposal_example_simps [simp]:
  "cp_proposal_id (proposal_example status) = ''p1''" "cp_status (proposal_example status) = status"
  by (simp_all add: proposal_example_def)

abbreviation example_store :: "change_proposal_status \<Rightarrow> state_store" where
  "example_store status \<equiv> upsert_change_proposal 1 (proposal_example status) store_init"

lemma example_store_ok: "store_ok (example_store status)"
  by (rule upsert_proposal_ok [OF store_init_ok])

lemma example_store_proposals:
  "sp_proposals (store_abs (example_store status)) = [''p1'' \<mapsto> proposal_example status]"
  unfolding proposals_after_upsert by (simp add: store_abs_init spec_init_def)

lemma hgl_init_ok: "hgl_ok hgl_init"
  by (simp add: hgl_ok_def hgl_init_def)

text \<open>
  An approval succeeds exactly for a proposal that waits in memory or is stored and not
  settled; then the proposal is stored as approved by that person, no longer waits, and is
  the one published; otherwise nothing changes and nothing is published.
\<close>
theorem approval_outcome:
  fixes h :: hgl and st :: state_store and pid approver rationale :: string and now :: timestamp
  defines "r \<equiv> approve_proposal now pid approver rationale h st :: bool \<times> 'c hgl_result"
  assumes "store_ok st" and "hgl_ok h"
  shows "case approvable h st pid of
      None \<Rightarrow> r = (False, h, st, [])
    | Some p \<Rightarrow> (case r of (ok, h', st', out) \<Rightarrow>
        ok \<and> sp_proposals (store_abs st') = (sp_proposals (store_abs st))(pid \<mapsto> approved_by now approver p) \<and>
        map_of (hg_pending h') = (map_of (hg_pending h))(pid := None) \<and>
        filter (\<lambda>e. case e of Publish_Proposal _ \<Rightarrow> True | _ \<Rightarrow> False) out =
          [Publish_Proposal (approved_by now approver p)])"
proof (cases "approvable h st pid")
  case None
  with assms show ?thesis by (simp add: approve_missing)
next
  case (Some p)
  then have "cp_proposal_id (approved_by now approver p) = pid"
    using approvable_id [OF assms(3,2)] by (simp add: approved_by_def)
  with Some assms show ?thesis
    by (simp add: approve_found proposals_after_upsert delete_conv')
qed

theorem approval_outcome_witness:
  "fst (approve_proposal 5 ''p1'' ''ann'' ''ok'' hgl_init (example_store AWAITING_HGL) :: bool \<times> nat hgl_result)"
  using approval_outcome [OF example_store_ok [of AWAITING_HGL] hgl_init_ok,
      where pid = "''p1''" and now = 5 and approver = "''ann''" and rationale = "''ok''"
        and 'c = nat]
  by (auto simp: approvable_def example_store_proposals hgl_init_def split: prod.splits)

text \<open>
  An approved proposal can be approved again, by anyone: whatever happened to the first
  approval except a failed validation, a second call succeeds, replaces the approver and
  publishes the proposal once more.
\<close>
theorem second_approval_overwrites:
  fixes h :: hgl and st :: state_store
  assumes "store_ok st" and "sp_proposals (store_abs st) pid = Some p"
    and "map_of (hg_pending h) pid = None" and "cp_status p \<in> {HGL_APPROVED, EDGE_VALIDATING, EDGE_PASSED}"
  shows "case approve_proposal now pid approver rationale h st :: bool \<times> 'c hgl_result of
    (ok, h', st', out) \<Rightarrow> ok \<and>
      map_option cp_hgl_approved_by (sp_proposals (store_abs st') pid) = Some (Some approver) \<and>
      Publish_Proposal (approved_by now approver p) \<in> set out"
proof -
  have "approvable h st pid = Some p"
    using assms by (auto simp: approvable_def)
  moreover have "cp_proposal_id (approved_by now approver p) = pid"
    using proposals_keyed [OF assms(1,2)] by (simp add: approved_by_def)
  ultimately show ?thesis
    using assms(1) by (simp add: approve_found proposals_after_upsert approved_by_def)
qed

theorem second_approval_overwrites_witness:
  "case approve_proposal 5 ''p1'' ''bob'' [] hgl_init (example_store EDGE_PASSED) :: bool \<times> nat hgl_result of
     (ok, h', st', out) \<Rightarrow> ok \<and>
       Publish_Proposal (approved_by 5 ''bob'' (proposal_example EDGE_PASSED)) \<in> set out"
  using second_approval_overwrites [OF example_store_ok [of EDGE_PASSED], where pid = "''p1''"
      and p = "proposal_example EDGE_PASSED" and h = hgl_init and now = 5 and approver = "''bob''"
      and rationale = "[]" and 'c = nat]
  by (simp add: example_store_proposals hgl_init_def case_prod_beta)

text \<open>
  After a restart the memory of the layer is empty: a stored proposal that still waits is
  listed and can be approved, but every rejection fails and changes nothing.
\<close>
theorem restart_leaves_only_approval:
  assumes "store_ok st" and "sp_proposals (store_abs st) pid = Some p" and "cp_status p = AWAITING_HGL"
  shows "p \<in> set (get_pending_proposals hgl_init st) \<and>
    fst (approve_proposal now pid approver rationale hgl_init st :: bool \<times> 'c hgl_result) \<and>
    hgl_reject_proposal now pid approver why hgl_init st = (False, hgl_init, st, [] :: 'c hgl_effect list)"
proof -
  have "approvable hgl_init st pid = Some p"
    using assms by (simp add: approvable_def hgl_init_def)
  moreover have "p \<in> set (load_pending_proposals st)"
    unfolding load_proposals_set [OF assms(1)] using assms(2,3) by (auto simp: ran_def)
  ultimately show ?thesis
    using assms by (auto simp: approve_found get_pending_proposals_def hgl_reject_proposal_def hgl_init_def)
qed

theorem restart_leaves_only_approval_witness:
  "proposal_example AWAITING_HGL \<in> set (get_pending_proposals hgl_init (example_store AWAITING_HGL)) \<and>
   fst (hgl_reject_proposal 5 ''p1'' ''ann'' ''no'' hgl_init (example_store AWAITING_HGL) :: bool \<times> nat hgl_result)
     = False"
  using restart_leaves_only_approval [OF example_store_ok [of AWAITING_HGL], where pid = "''p1''"
      and p = "proposal_example AWAITING_HGL" and now = 5 and approver = "''ann''" and why = "''no''"
      and rationale = "[]" and 'c = nat]
  by (simp add: example_store_proposals)

section \<open>Authorising a restart of a halted system\<close>

text \<open>The supervisor receives what the layer publishes on the system-state topic.\<close>

definition psa_hears :: "psa_config \<Rightarrow> timestamp \<Rightarrow> psa \<Rightarrow> 'c hgl_effect \<Rightarrow> psa" where
  "psa_hears cf now s e =
     (case e of
        Publish_Resume approver why \<Rightarrow>
          fst (psa_process cf s now (Msg_System_State (Some ''resume'') (Some approver)))
      | _ \<Rightarrow> s)"

lemma human_resume_active:
  assumes "fsm_state m \<in> {HALTED_RISK, HALTED_ANOMALY, HALTED_RECONCILIATION}" and "who \<noteq> []"
  obtains m' cb where "human_resume m who why now = Inr (m', cb)" and "fsm_state m' = ACTIVE"
  using assms that
  by (auto simp: human_resume_def transition_to_def permitted_values_def session_state_transitions_def
      human_approval_required_def Let_def)

text \<open>
  A restart authorised by a named person resumes a supervisor whose session machine is in a
  halt: it trades again, unless a pause still runs. Authorised without a name it changes
  nothing.
\<close>
theorem authorized_restart_resumes:
  fixes out :: "'c hgl_effect list" and approver why :: string
  defines "out \<equiv> authorize_system_restart approver why"
  assumes "p_system_state s = HALTED"
    and "fsm_state (p_fsm s) \<in> {HALTED_RISK, HALTED_ANOMALY, HALTED_RECONCILIATION}"
  shows "if approver = [] then foldl (psa_hears cf now) s out = s
    else p_system_state (foldl (psa_hears cf now) s out) = TRADING \<and>
      (is_trading_allowed (foldl (psa_hears cf now) s out) later \<longleftrightarrow>
        \<not> (case p_pause_until s of None \<Rightarrow> False | Some u \<Rightarrow> later < u))"
proof (cases "approver = []")
  case False
  obtain m' cb where "human_resume (p_fsm s) approver (''Human clearance by '' @ approver) now = Inr (m', cb)"
    and "fsm_state m' = ACTIVE"
    using human_resume_active [OF assms(3) False] by metis
  with False assms(2) show ?thesis
    by (auto simp: out_def authorize_system_restart_def psa_hears_def psa_handle_resume_def psa_drive_def
        is_trading_allowed_def is_trading_permitted_def Let_def case_prod_beta split: option.splits)
qed (simp add: out_def authorize_system_restart_def psa_hears_def)

theorem authorized_restart_resumes_witness:
  "let s = fst (psa_halt ((psa_init 0)\<lparr>p_system_state := TRADING, p_fsm := (fsm_init 0)\<lparr>fsm_state := ACTIVE\<rparr>\<rparr>)
                 5 ''loss'' ''daily_loss_cap'')
   in is_trading_allowed (foldl (psa_hears psa_defaults 6) s
        (authorize_system_restart ''ann'' ''fixed'' :: nat hgl_effect list)) 7"
proof -
  let ?s = "fst (psa_halt ((psa_init 0)\<lparr>p_system_state := TRADING, p_fsm := (fsm_init 0)\<lparr>fsm_state := ACTIVE\<rparr>\<rparr>)
                 5 ''loss'' ''daily_loss_cap'')"
  have "p_system_state ?s = HALTED" by simp
  moreover have "fsm_state (p_fsm ?s) \<in> {HALTED_RISK, HALTED_ANOMALY, HALTED_RECONCILIATION}"
    by code_simp
  moreover have "p_pause_until ?s = None" by code_simp
  ultimately show ?thesis
    using authorized_restart_resumes [where s = ?s and cf = psa_defaults and now = 6 and later = 7
        and approver = "''ann''" and why = "''fixed''" and 'c = nat]
    by simp
qed

text \<open>The number 0 is not refused: it acts on the last proposal of the list.\<close>

lemma review_zero_is_last:
  "get_pending_proposals h st \<noteq> [] \<Longrightarrow>
   review_turn now (Some 0) ''a'' approver rationale h st =
     snd (approve_proposal now (cp_proposal_id (last (get_pending_proposals h st))) approver rationale h st)"
  by (simp add: review_turn_def py_index_def last_conv_nth nat_diff_distrib Suc_le_eq)

end
