(* ===== verification/Edge_Research.thy ===== *)
theory Edge_Research
  imports State_Store
begin

text \<open>
  The edge research agent, agent 0 (\<open>agents/agent_00_edge_research.py\<close>): the list of approved
  setups, the validation of approved change proposals and the persistence of the list. The
  answer of the language model is an argument, with the fallback of a failed call as one of
  its values. \<open>to_json\<close> and \<open>of_json\<close> stand for the serialisation of the list, \<open>tomorrow\<close>
  for the text of the next date. A handler returns the list, the store, the effects, and
  whether it raised (the base class counts and logs the exception).
\<close>

section \<open>Inputs\<close>

record era_config =
  ec_min_oos :: pyfloat
  ec_min_samples :: pyfloat
  ec_retire_threshold :: pyfloat

definition era_defaults :: era_config where
  "era_defaults = \<lparr>ec_min_oos = 200, ec_min_samples = 1000, ec_retire_threshold = - (5 / 100)\<rparr>"

text \<open>
  The fields of the analysis the code reads; a missing truth value counts as false, a missing
  expectancy is the \<open>KeyError\<close>.
\<close>

record edge_analysis =
  ea_passes :: bool
  ea_net_ev :: "pyfloat option"
  ea_monte_carlo :: bool

definition failed_analysis :: edge_analysis where
  "failed_analysis = \<lparr>ea_passes = False, ea_net_ev = Some (- 999), ea_monte_carlo = False\<rparr>"

primrec default_regimes :: "setup_type \<Rightarrow> regime_label list" where
  "default_regimes BREAKOUT = [TREND_DAY, EVENT_DRIVEN_DAY]"
| "default_regimes MOMENTUM_BURST = [TREND_DAY, EVENT_DRIVEN_DAY]"
| "default_regimes GAP_AND_GO = [TREND_DAY, EVENT_DRIVEN_DAY]"
| "default_regimes OPENING_RANGE_BREAK = [TREND_DAY, EVENT_DRIVEN_DAY]"
| "default_regimes VWAP_TAP = [TREND_DAY, MEAN_REVERSION_DAY, EVENT_DRIVEN_DAY]"
| "default_regimes MEAN_REVERSION_FADE = [MEAN_REVERSION_DAY]"
| "default_regimes CATALYST_MOVER = [EVENT_DRIVEN_DAY]"
| "default_regimes LIQUIDITY_SWEEP = [TREND_DAY, EVENT_DRIVEN_DAY]"

definition extract_setup_type :: "change_proposal \<Rightarrow> setup_type option" where
  "extract_setup_type p =
     (case map_of (cp_parameter_changes p) ''setup_type'' of
        Some (PV_Text s) \<Rightarrow> List.find (\<lambda>ty. setup_value ty = s) all_setups
      | _ \<Rightarrow> None)"

text \<open>\<open>None\<close> is the \<open>AttributeError\<close> of statistics that are no dictionary.\<close>

definition trade_statistics :: "change_proposal \<Rightarrow> (string \<times> pyfloat) list option" where
  "trade_statistics p =
     (case map_of (cp_parameter_changes p) ''trade_statistics'' of
        None \<Rightarrow> Some []
      | Some (PV_Stats d) \<Rightarrow> Some d
      | _ \<Rightarrow> None)"

definition stat :: "(string \<times> pyfloat) list \<Rightarrow> string \<Rightarrow> pyfloat \<Rightarrow> pyfloat" where
  "stat stats key other = (case map_of stats key of None \<Rightarrow> other | Some x \<Rightarrow> x)"

text \<open>
  \<open>_parse_allowed_regimes\<close>: \<open>None\<close> is the \<open>TypeError\<close> of iterating over a number; the letters
  of a text and the keys of a dictionary are iterated over like the texts of a list.
\<close>

definition known_regimes :: "string list \<Rightarrow> regime_label list" where
  "known_regimes rs = List.map_filter (\<lambda>r. List.find (\<lambda>l. regime_value l = r) all_regimes) rs"

definition parse_allowed_regimes :: "change_proposal \<Rightarrow> setup_type \<Rightarrow> regime_label list option" where
  "parse_allowed_regimes p ty =
     (let or_default = (\<lambda>rs. if rs \<noteq> [] then rs else default_regimes ty)
      in (case map_of (cp_parameter_changes p) ''allowed_regimes'' of
            None \<Rightarrow> Some (default_regimes ty)
          | Some (PV_Num x) \<Rightarrow> if x = 0 then Some (default_regimes ty) else None
          | Some (PV_Text s) \<Rightarrow> Some (or_default (known_regimes (map (\<lambda>c. [c]) s)))
          | Some (PV_Texts rs) \<Rightarrow> Some (or_default (known_regimes rs))
          | Some (PV_Stats d) \<Rightarrow> Some (or_default (known_regimes (map fst d)))))"

section \<open>The list\<close>

definition setups_init :: "timestamp \<Rightarrow> approved_setup_list" where
  "setups_init now =
     \<lparr>al_setups = [], al_version = 1, al_effective_session = None, al_generated_at = now\<rparr>"

definition next_list ::
  "timestamp \<Rightarrow> string \<Rightarrow> approved_setup_list \<Rightarrow> approved_setup list \<Rightarrow> approved_setup_list" where
  "next_list now tomorrow l setups =
     \<lparr>al_setups = setups, al_version = al_version l + 1, al_effective_session = Some tomorrow,
      al_generated_at = now\<rparr>"

fun update_first :: "('a \<Rightarrow> bool) \<Rightarrow> ('a \<Rightarrow> 'a) \<Rightarrow> 'a list \<Rightarrow> 'a list" where
  "update_first P f [] = []"
| "update_first P f (x # xs) = (if P x then f x # xs else x # update_first P f xs)"

definition active_setup :: "setup_type \<Rightarrow> approved_setup \<Rightarrow> bool" where
  "active_setup ty s \<longleftrightarrow> as_setup_type s = ty \<and> \<not> as_retired s"

definition tweaked_setup ::
  "timestamp \<Rightarrow> (string \<times> pyfloat) list \<Rightarrow> pyfloat \<Rightarrow> approved_setup \<Rightarrow> approved_setup" where
  "tweaked_setup now stats net_ev s =
     s\<lparr>as_expectancy := net_ev, as_win_rate := stat stats ''win_rate'' (as_win_rate s),
       as_avg_win := stat stats ''avg_win'' (as_avg_win s),
       as_avg_loss := stat stats ''avg_loss'' (as_avg_loss s),
       as_sample_count := py_trunc (stat stats ''sample_count'' (of_int (as_sample_count s))),
       as_last_validated := now, as_rolling_expectancy := Some net_ev\<rparr>"

definition validated_setup ::
  "timestamp \<Rightarrow> (string \<times> pyfloat) list \<Rightarrow> pyfloat \<Rightarrow> setup_type \<Rightarrow> regime_label list
   \<Rightarrow> approved_setup option \<Rightarrow> approved_setup" where
  "validated_setup now stats net_ev ty regimes old =
     \<lparr>as_setup_type = ty, as_expectancy = net_ev,
      as_win_rate = stat stats ''win_rate'' (case old of None \<Rightarrow> 0 | Some s \<Rightarrow> as_win_rate s),
      as_avg_win = stat stats ''avg_win'' (case old of None \<Rightarrow> 0 | Some s \<Rightarrow> as_avg_win s),
      as_avg_loss = stat stats ''avg_loss'' (case old of None \<Rightarrow> 0 | Some s \<Rightarrow> as_avg_loss s),
      as_sample_count =
        py_trunc (stat stats ''sample_count'' (case old of None \<Rightarrow> 0 | Some s \<Rightarrow> of_int (as_sample_count s))),
      as_oos_validated = True, as_allowed_regimes = regimes, as_last_validated = now,
      as_rolling_expectancy = Some net_ev, as_retired = False, as_retire_reason = None\<rparr>"

definition retired_setup :: "string \<Rightarrow> approved_setup \<Rightarrow> approved_setup" where
  "retired_setup why s = s\<lparr>as_retired := True, as_retire_reason := Some why\<rparr>"

section \<open>Persistence\<close>

definition setup_list_state_key :: string where
  "setup_list_state_key = ''edge_research:approved_setup_list''"

datatype era_effect =
    Era_Received string change_proposal_type string
  | Era_Accepted string
  | Era_Rejected string string
  | Era_Retired setup_type string string
  | Era_Auto_Retired setup_type
  | Publish_Setups approved_setup_list

type_synonym era_result = "approved_setup_list \<times> state_store \<times> era_effect list \<times> bool"

definition persist_setup_list ::
  "(approved_setup_list \<Rightarrow> string) \<Rightarrow> timestamp \<Rightarrow> approved_setup_list \<Rightarrow> state_store \<Rightarrow> state_store" where
  "persist_setup_list to_json now l st =
     upsert_change_proposal now
       \<lparr>cp_proposal_id = setup_list_state_key, cp_proposal_type = PARAMETER_TWEAK, cp_status = LIVE,
        cp_submitted_by = ''agent_00_edge_research'', cp_proposed_for_session = None,
        cp_description = to_json l, cp_parameter_changes = [], cp_hgl_approved_by = None,
        cp_hgl_approved_at = None, cp_hgl_rejection_reason = None, cp_edge_validation_result = None,
        cp_edge_rejection_reason = None, cp_created_at = now, cp_updated_at = now\<rparr> st"

text \<open>A description that does not parse (\<open>None\<close>) is logged, and the list starts fresh.\<close>

definition load_setup_list ::
  "(string \<Rightarrow> approved_setup_list option) \<Rightarrow> timestamp \<Rightarrow> state_store \<Rightarrow> approved_setup_list" where
  "load_setup_list of_json now st =
     (case List.find (\<lambda>p. cp_proposal_id p = setup_list_state_key) (load_pending_proposals st) of
        None \<Rightarrow> setups_init now
      | Some p \<Rightarrow> (case of_json (cp_description p) of None \<Rightarrow> setups_init now | Some l \<Rightarrow> l))"

section \<open>Outcomes\<close>

definition accept_proposal :: "timestamp \<Rightarrow> change_proposal \<Rightarrow> state_store \<Rightarrow> state_store \<times> era_effect list" where
  "accept_proposal now p st =
     (upsert_change_proposal now (p\<lparr>cp_edge_validation_result := Some ''passed'', cp_status := EDGE_PASSED\<rparr>) st,
      [Era_Accepted (cp_proposal_id p)])"

definition era_reject :: "timestamp \<Rightarrow> string \<Rightarrow> change_proposal \<Rightarrow> state_store \<Rightarrow> state_store \<times> era_effect list" where
  "era_reject now why p st =
     (upsert_change_proposal now
        (p\<lparr>cp_edge_validation_result := Some ''failed'', cp_edge_rejection_reason := Some why,
           cp_status := EDGE_FAILED\<rparr>) st,
      [Era_Rejected (cp_proposal_id p) why])"

definition rejecting ::
  "timestamp \<Rightarrow> string \<Rightarrow> change_proposal \<Rightarrow> approved_setup_list \<Rightarrow> state_store \<Rightarrow> era_result" where
  "rejecting now why p l st = (case era_reject now why p st of (st', out) \<Rightarrow> (l, st', out, False))"

section \<open>Applying a change\<close>

text \<open>The \<open>_apply\<close> methods; \<open>None\<close> is an exception, raised before anything is changed.\<close>

definition apply_parameter_update ::
  "timestamp \<Rightarrow> string \<Rightarrow> (string \<times> pyfloat) list \<Rightarrow> setup_type \<Rightarrow> edge_analysis \<Rightarrow> approved_setup_list
   \<Rightarrow> approved_setup_list option" where
  "apply_parameter_update now tomorrow stats ty a l =
     (if \<not> list_ex (active_setup ty) (al_setups l) then Some (next_list now tomorrow l (al_setups l))
      else (case ea_net_ev a of
              None \<Rightarrow> None
            | Some ev \<Rightarrow>
                Some (next_list now tomorrow l
                  (update_first (active_setup ty) (tweaked_setup now stats ev) (al_setups l)))))"

definition apply_setup_update ::
  "timestamp \<Rightarrow> string \<Rightarrow> (string \<times> pyfloat) list \<Rightarrow> change_proposal \<Rightarrow> setup_type \<Rightarrow> edge_analysis
   \<Rightarrow> approved_setup_list \<Rightarrow> approved_setup_list option" where
  "apply_setup_update now tomorrow stats p ty a l =
     (case (parse_allowed_regimes p ty, ea_net_ev a) of
        (Some regimes, Some ev) \<Rightarrow>
          Some (next_list now tomorrow l
            (if list_ex (\<lambda>s. as_setup_type s = ty) (al_setups l)
             then update_first (\<lambda>s. as_setup_type s = ty)
                    (\<lambda>s. validated_setup now stats ev ty regimes (Some s)) (al_setups l)
             else al_setups l @ [validated_setup now stats ev ty regimes None]))
      | _ \<Rightarrow> None)"

section \<open>Proposal handlers\<close>

definition handle_parameter_tweak ::
  "era_config \<Rightarrow> (approved_setup_list \<Rightarrow> string) \<Rightarrow> timestamp \<Rightarrow> string \<Rightarrow> edge_analysis \<Rightarrow> change_proposal
   \<Rightarrow> approved_setup_list \<Rightarrow> state_store \<Rightarrow> era_result" where
  "handle_parameter_tweak cf to_json now tomorrow a p l st =
     (case extract_setup_type p of
        None \<Rightarrow> rejecting now ''Could not determine setup_type from proposal'' p l st
      | Some ty \<Rightarrow>
          (case trade_statistics p of
             None \<Rightarrow> (l, st, [], True)
           | Some stats \<Rightarrow>
               if stat stats ''sample_count'' 0 < ec_min_oos cf
               then rejecting now ''Insufficient out-of-sample trades'' p l st
               else if \<not> ea_passes a then rejecting now ''LLM analysis'' p l st
               else
                 (case apply_parameter_update now tomorrow stats ty a l of
                    None \<Rightarrow> (l, st, [], True)
                  | Some l1 \<Rightarrow>
                      (case accept_proposal now p (persist_setup_list to_json now l1 st) of
                         (st1, out) \<Rightarrow> (l1, st1, Publish_Setups l1 # out, False)))))"

definition handle_setup_modification ::
  "era_config \<Rightarrow> (approved_setup_list \<Rightarrow> string) \<Rightarrow> timestamp \<Rightarrow> string \<Rightarrow> edge_analysis \<Rightarrow> change_proposal
   \<Rightarrow> approved_setup_list \<Rightarrow> state_store \<Rightarrow> era_result" where
  "handle_setup_modification cf to_json now tomorrow a p l st =
     (case extract_setup_type p of
        None \<Rightarrow> rejecting now ''Could not determine setup_type from proposal'' p l st
      | Some ty \<Rightarrow>
          (case trade_statistics p of
             None \<Rightarrow> (l, st, [], True)
           | Some stats \<Rightarrow>
               if stat stats ''sample_count'' 0 < ec_min_samples cf
               then rejecting now ''Insufficient samples for full re-validation'' p l st
               else if \<not> ea_passes a then rejecting now ''Full re-validation failed'' p l st
               else
                 (case apply_setup_update now tomorrow stats p ty a l of
                    None \<Rightarrow> (l, st, [], True)
                  | Some l1 \<Rightarrow>
                      (case accept_proposal now p (persist_setup_list to_json now l1 st) of
                         (st1, out) \<Rightarrow> (l1, st1, Publish_Setups l1 # out, False)))))"

definition handle_new_setup_addition ::
  "era_config \<Rightarrow> (approved_setup_list \<Rightarrow> string) \<Rightarrow> timestamp \<Rightarrow> string \<Rightarrow> edge_analysis \<Rightarrow> change_proposal
   \<Rightarrow> approved_setup_list \<Rightarrow> state_store \<Rightarrow> era_result" where
  "handle_new_setup_addition cf to_json now tomorrow a p l st =
     (case extract_setup_type p of
        None \<Rightarrow> rejecting now ''Could not determine setup_type from proposal'' p l st
      | Some ty \<Rightarrow>
          if is_approved l ty then rejecting now ''Setup is already in the active approved list'' p l st
          else
          (case trade_statistics p of
             None \<Rightarrow> (l, st, [], True)
           | Some stats \<Rightarrow>
               if stat stats ''sample_count'' 0 < ec_min_samples cf
               then rejecting now ''New setup requires more samples'' p l st
               else if \<not> ea_passes a then rejecting now ''New setup validation failed'' p l st
               else if \<not> ea_monte_carlo a then rejecting now ''Monte Carlo simulation failed'' p l st
               else
                 (case (parse_allowed_regimes p ty, ea_net_ev a) of
                    (Some regimes, Some ev) \<Rightarrow>
                      let l1 = next_list now tomorrow l
                                 (al_setups l @ [validated_setup now stats ev ty regimes None])
                      in (case accept_proposal now p (persist_setup_list to_json now l1 st) of
                            (st1, out) \<Rightarrow> (l1, st1, out @ [Publish_Setups l1], False))
                  | _ \<Rightarrow> (l, st, [], True))))"

definition handle_setup_retirement ::
  "(approved_setup_list \<Rightarrow> string) \<Rightarrow> timestamp \<Rightarrow> string \<Rightarrow> change_proposal
   \<Rightarrow> approved_setup_list \<Rightarrow> state_store \<Rightarrow> era_result" where
  "handle_setup_retirement to_json now tomorrow p l st =
     (case extract_setup_type p of
        None \<Rightarrow> rejecting now ''Could not determine setup_type from proposal'' p l st
      | Some ty \<Rightarrow>
          let l1 = next_list now tomorrow l
                     (update_first (active_setup ty) (retired_setup (cp_description p)) (al_setups l))
          in (case accept_proposal now p (persist_setup_list to_json now l1 st) of
                (st1, out) \<Rightarrow>
                  (l1, st1, out @ [Publish_Setups l1, Era_Retired ty (cp_proposal_id p) (cp_description p)], False)))"

text \<open>\<open>process\<close>: \<open>None\<close> is a payload that is no proposal.\<close>

definition era_process ::
  "era_config \<Rightarrow> (approved_setup_list \<Rightarrow> string) \<Rightarrow> timestamp \<Rightarrow> string \<Rightarrow> edge_analysis
   \<Rightarrow> change_proposal option \<Rightarrow> approved_setup_list \<Rightarrow> state_store \<Rightarrow> era_result" where
  "era_process cf to_json now tomorrow a payload l st =
     (case payload of
        None \<Rightarrow> (l, st, [], False)
      | Some p \<Rightarrow>
          if cp_status p \<noteq> HGL_APPROVED then (l, st, [], False)
          else
            (case (case cp_proposal_type p of
                     PARAMETER_TWEAK \<Rightarrow> handle_parameter_tweak cf to_json now tomorrow a p l st
                   | SETUP_MODIFICATION \<Rightarrow> handle_setup_modification cf to_json now tomorrow a p l st
                   | NEW_SETUP_ADDITION \<Rightarrow> handle_new_setup_addition cf to_json now tomorrow a p l st
                   | SETUP_RETIREMENT \<Rightarrow> handle_setup_retirement to_json now tomorrow p l st) of
               (l1, st1, out, raised) \<Rightarrow>
                 (l1, st1,
                  Era_Received (cp_proposal_id p) (cp_proposal_type p) (cp_description p) # out, raised)))"

section \<open>Startup and shutdown\<close>

definition falls_below :: "era_config \<Rightarrow> approved_setup \<Rightarrow> bool" where
  "falls_below cf s \<longleftrightarrow>
     \<not> as_retired s \<and>
     (case as_rolling_expectancy s of None \<Rightarrow> False | Some ev \<Rightarrow> ev < ec_retire_threshold cf)"

definition check_rolling_expectancy ::
  "era_config \<Rightarrow> (approved_setup_list \<Rightarrow> string) \<Rightarrow> timestamp \<Rightarrow> string
   \<Rightarrow> approved_setup_list \<Rightarrow> state_store \<Rightarrow> approved_setup_list \<times> state_store \<times> era_effect list" where
  "check_rolling_expectancy cf to_json now tomorrow l st =
     (let failing = filter (falls_below cf) (al_setups l);
          setups = map (\<lambda>s. if falls_below cf s then retired_setup ''Rolling expectancy'' s else s) (al_setups l);
          out = map (\<lambda>s. Era_Auto_Retired (as_setup_type s)) failing
      in if failing = [] then (l, st, out)
         else let l1 = next_list now tomorrow l setups
              in (l1, persist_setup_list to_json now l1 st, out @ [Publish_Setups l1]))"

definition era_on_startup ::
  "era_config \<Rightarrow> (approved_setup_list \<Rightarrow> string) \<Rightarrow> (string \<Rightarrow> approved_setup_list option)
   \<Rightarrow> timestamp \<Rightarrow> string \<Rightarrow> state_store \<Rightarrow> approved_setup_list \<times> state_store \<times> era_effect list" where
  "era_on_startup cf to_json of_json now tomorrow st =
     (case check_rolling_expectancy cf to_json now tomorrow (load_setup_list of_json now st) st of
        (l1, st1, out) \<Rightarrow> (l1, st1, out @ [Publish_Setups l1]))"

definition era_on_shutdown ::
  "(approved_setup_list \<Rightarrow> string) \<Rightarrow> timestamp \<Rightarrow> approved_setup_list \<Rightarrow> state_store \<Rightarrow> state_store" where
  "era_on_shutdown to_json now l st = persist_setup_list to_json now l st"

section \<open>What moves the list\<close>

lemma update_first_keeps: "x \<in> set (update_first P f xs) \<Longrightarrow> x \<in> set xs \<or> (\<exists>y \<in> set xs. P y \<and> x = f y)"
  by (induction xs) (auto split: if_splits)

lemma update_first_active:
  assumes "\<And>x. P x \<Longrightarrow> \<not> Q (f x)" and "\<And>x. P x \<longleftrightarrow> Q x"
  shows "length (filter Q (update_first P f xs)) = length (filter Q xs) - 1"
  using assms by (induction xs) (auto simp: Suc_le_eq)

lemma rejecting_list [simp]: "fst (rejecting now why p l st) = l"
  by (simp add: rejecting_def case_prod_beta)

definition enough_samples :: "era_config \<Rightarrow> change_proposal \<Rightarrow> bool" where
  "enough_samples cf p \<longleftrightarrow>
     (case trade_statistics p of
        None \<Rightarrow> False
      | Some stats \<Rightarrow>
          (if cp_proposal_type p = PARAMETER_TWEAK then ec_min_oos cf else ec_min_samples cf)
            \<le> stat stats ''sample_count'' 0)"

text \<open>What may change in a list when a change of \<open>ty\<close> is applied.\<close>

definition only_about :: "setup_type \<Rightarrow> string \<Rightarrow> approved_setup_list \<Rightarrow> approved_setup_list \<Rightarrow> bool" where
  "only_about ty tomorrow l l' \<longleftrightarrow>
     (\<forall>s \<in> set (al_setups l'). s \<in> set (al_setups l) \<or> as_setup_type s = ty) \<and>
     al_version l' = al_version l + 1 \<and> al_effective_session l' = Some tomorrow"

lemma only_about_tweak:
  "apply_parameter_update now tomorrow stats ty a l = Some l' \<Longrightarrow> only_about ty tomorrow l l'"
  by (auto simp: apply_parameter_update_def only_about_def next_list_def tweaked_setup_def active_setup_def
      dest!: update_first_keeps split: if_splits option.splits)

lemma only_about_update:
  "apply_setup_update now tomorrow stats p ty a l = Some l' \<Longrightarrow> only_about ty tomorrow l l'"
  by (auto simp: apply_setup_update_def only_about_def next_list_def validated_setup_def
      dest!: update_first_keeps split: if_splits option.splits)

lemma only_about_retirement:
  "only_about ty tomorrow l (next_list now tomorrow l (update_first (active_setup ty) (retired_setup why) (al_setups l)))"
  by (auto simp: only_about_def next_list_def retired_setup_def active_setup_def dest!: update_first_keeps)

definition justified ::
  "era_config \<Rightarrow> edge_analysis \<Rightarrow> string \<Rightarrow> change_proposal \<Rightarrow> approved_setup_list \<Rightarrow> approved_setup_list \<Rightarrow> bool" where
  "justified cf a tomorrow p l l' \<longleftrightarrow>
     (\<exists>ty. extract_setup_type p = Some ty \<and> only_about ty tomorrow l l' \<and>
        (cp_proposal_type p = SETUP_RETIREMENT \<or> ea_passes a \<and> enough_samples cf p) \<and>
        (cp_proposal_type p = NEW_SETUP_ADDITION \<longrightarrow> ea_monte_carlo a \<and> \<not> is_approved l ty))"

lemma tweak_justified:
  "fst (handle_parameter_tweak cf to_json now tomorrow a p l st) = l' \<Longrightarrow> l' \<noteq> l \<Longrightarrow>
     cp_proposal_type p = PARAMETER_TWEAK \<Longrightarrow> justified cf a tomorrow p l l'"
  by (auto simp: justified_def enough_samples_def handle_parameter_tweak_def case_prod_beta Let_def
      dest!: only_about_tweak split: option.splits if_splits)

lemma modification_justified:
  "fst (handle_setup_modification cf to_json now tomorrow a p l st) = l' \<Longrightarrow> l' \<noteq> l \<Longrightarrow>
     cp_proposal_type p = SETUP_MODIFICATION \<Longrightarrow> justified cf a tomorrow p l l'"
  by (auto simp: justified_def enough_samples_def handle_setup_modification_def case_prod_beta Let_def
      dest!: only_about_update split: option.splits if_splits)

lemma addition_justified:
  "fst (handle_new_setup_addition cf to_json now tomorrow a p l st) = l' \<Longrightarrow> l' \<noteq> l \<Longrightarrow>
     cp_proposal_type p = NEW_SETUP_ADDITION \<Longrightarrow> justified cf a tomorrow p l l'"
  by (auto simp: justified_def enough_samples_def handle_new_setup_addition_def case_prod_beta Let_def
      only_about_def next_list_def validated_setup_def split: option.splits if_splits)

lemma retirement_justified:
  "fst (handle_setup_retirement to_json now tomorrow p l st) = l' \<Longrightarrow> l' \<noteq> l \<Longrightarrow>
     cp_proposal_type p = SETUP_RETIREMENT \<Longrightarrow> justified cf a tomorrow p l l'"
  by (auto simp: justified_def enough_samples_def handle_setup_retirement_def case_prod_beta Let_def
      only_about_retirement split: option.splits if_splits)

lemma era_process_list:
  assumes "fst (era_process cf to_json now tomorrow a payload l st) = l'" and "l' \<noteq> l"
  shows "\<exists>p. payload = Some p \<and> cp_status p = HGL_APPROVED \<and> justified cf a tomorrow p l l'"
  using assms
  by (cases payload)
    (auto simp: era_process_def case_prod_beta tweak_justified modification_justified
      addition_justified retirement_justified split: change_proposal_type.splits if_splits)

definition edge_proposal :: "change_proposal_type \<Rightarrow> change_proposal" where
  "edge_proposal ty =
     \<lparr>cp_proposal_id = ''p1'', cp_proposal_type = ty, cp_status = HGL_APPROVED,
      cp_submitted_by = ''PSRA'', cp_proposed_for_session = None, cp_description = ''why'',
      cp_parameter_changes =
        [(''setup_type'', PV_Text ''breakout''), (''trade_statistics'', PV_Stats [(''sample_count'', 1000)])],
      cp_hgl_approved_by = Some ''ann'', cp_hgl_approved_at = Some 1, cp_hgl_rejection_reason = None,
      cp_edge_validation_result = None, cp_edge_rejection_reason = None, cp_created_at = 1,
      cp_updated_at = 1\<rparr>"

text \<open>The list after a series of such proposals whose analysis passes.\<close>

definition edge_list :: "change_proposal_type list \<Rightarrow> approved_setup_list" where
  "edge_list tys =
     foldl (\<lambda>l ty. fst (era_process era_defaults (\<lambda>_. []) 5 ''d''
         \<lparr>ea_passes = True, ea_net_ev = Some 1, ea_monte_carlo = True\<rparr> (Some (edge_proposal ty)) l store_init))
       (setups_init 0) tys"

text \<open>
  A message moves the list of setups only if it is a proposal that the governance layer has
  approved and that names a known setup; then only entries of that setup differ, the version
  goes up by one for the next session, and unless the setup is retired the analysis passed on
  enough samples, for a new one with the Monte Carlo run as well.
\<close>
theorem setups_move_only_validated:
  fixes cf :: era_config and a :: edge_analysis and payload :: "change_proposal option"
    and l :: approved_setup_list and st :: state_store and to_json :: "approved_setup_list \<Rightarrow> string"
    and now :: timestamp and tomorrow :: string
  defines "l' \<equiv> fst (era_process cf to_json now tomorrow a payload l st)"
  assumes "l' \<noteq> l"
  shows "\<exists>p ty. payload = Some p \<and> cp_status p = HGL_APPROVED \<and> extract_setup_type p = Some ty \<and>
    only_about ty tomorrow l l' \<and>
    (cp_proposal_type p = SETUP_RETIREMENT \<or> ea_passes a \<and> enough_samples cf p) \<and>
    (cp_proposal_type p = NEW_SETUP_ADDITION \<longrightarrow> ea_monte_carlo a \<and> \<not> is_approved l ty)"
proof -
  have "fst (era_process cf to_json now tomorrow a payload l st) = l'" by (simp add: l'_def)
  from era_process_list [OF this assms(2)] show ?thesis
    unfolding justified_def by blast
qed

theorem setups_move_only_validated_witness:
  "al_version (edge_list [NEW_SETUP_ADDITION]) = 2 \<and>
   only_about BREAKOUT ''d'' (edge_list []) (edge_list [NEW_SETUP_ADDITION])"
proof -
  let ?l = "edge_list []"
  let ?l' = "fst (era_process era_defaults (\<lambda>_. []) 5 ''d''
         \<lparr>ea_passes = True, ea_net_ev = Some 1, ea_monte_carlo = True\<rparr>
         (Some (edge_proposal NEW_SETUP_ADDITION)) ?l store_init)"
  have ne: "al_version ?l' \<noteq> al_version ?l" by code_simp
  then have "?l' \<noteq> ?l" by force
  from setups_move_only_validated [OF this]
  have "only_about BREAKOUT ''d'' ?l ?l'"
    by (auto simp: extract_setup_type_def edge_proposal_def all_setups_def)
  moreover have "edge_list [NEW_SETUP_ADDITION] = ?l'" by (simp add: edge_list_def)
  ultimately show ?thesis
    by (simp add: only_about_def) (simp add: edge_list_def setups_init_def)
qed

section \<open>The list does not survive a restart\<close>

lemma live_not_pending:
  assumes "store_ok st" and "sp_proposals (store_abs st) k = Some p" and "cp_status p = LIVE"
  shows "List.find (\<lambda>p. cp_proposal_id p = k) (load_pending_proposals st) = None"
proof -
  have "cp_proposal_id q \<noteq> k" if "q \<in> set (load_pending_proposals st)" for q
    using that assms proposals_keyed [OF assms(1)] unfolding load_proposals_set [OF assms(1)]
    by (auto simp: ran_def)
  then show ?thesis by (auto simp: find_None_iff)
qed

lemma persisted_list_is_live:
  assumes "store_ok st"
  shows "load_setup_list of_json now (persist_setup_list to_json t l st) = setups_init now"
proof -
  let ?st = "persist_setup_list to_json t l st"
  have ok: "store_ok ?st"
    using store_step_ok [OF assms, of "Put_Proposal t p" for p] by (simp add: persist_setup_list_def)
  have "\<exists>p. sp_proposals (store_abs ?st) setup_list_state_key = Some p \<and> cp_status p = LIVE"
    unfolding persist_setup_list_def
    using store_step_refines [of st "Put_Proposal t p" for p] by simp
  then have "List.find (\<lambda>p. cp_proposal_id p = setup_list_state_key) (load_pending_proposals ?st) = None"
    using live_not_pending [OF ok] by blast
  then show ?thesis by (simp add: load_setup_list_def)
qed

text \<open>
  The list is written under a proposal that is LIVE and read among the proposals that are
  pending, so it never comes back: whatever list an agent shuts down with, the next startup
  has the empty list of version 1 and publishes that no setup is approved.
\<close>
theorem setup_list_lost_at_restart:
  assumes "store_ok st"
  shows "let st' = era_on_shutdown to_json t l st in
    era_on_startup cf to_json of_json now tomorrow st' =
      (setups_init now, st', [Publish_Setups (setups_init now)])"
proof -
  have "check_rolling_expectancy cf to_json now tomorrow (setups_init now) st' = (setups_init now, st', [])" for st'
    by (simp add: check_rolling_expectancy_def setups_init_def)
  then show ?thesis
    using assms by (simp add: Let_def era_on_startup_def era_on_shutdown_def persisted_list_is_live)
qed

theorem setup_list_lost_at_restart_witness:
  "fst (era_on_startup era_defaults (\<lambda>_. []) (\<lambda>_. None) 9 ''d''
     (era_on_shutdown (\<lambda>_. []) 8 (edge_list [NEW_SETUP_ADDITION]) store_init)) = setups_init 9"
  using setup_list_lost_at_restart [OF store_init_ok] by (simp add: Let_def)

section \<open>Retirement\<close>

lemma is_approved_iff: "is_approved l ty \<longleftrightarrow> 0 < length (filter (active_setup ty) (al_setups l))"
  by (auto simp: is_approved_def active_setup_def list_ex_iff filter_empty_conv)

text \<open>
  An approved retirement of a setup retires the first active entry of it: the setup is off
  the list afterwards exactly if it had no second active entry.
\<close>
theorem retirement_needs_single_entry:
  assumes "cp_status p = HGL_APPROVED" and "cp_proposal_type p = SETUP_RETIREMENT"
    and "extract_setup_type p = Some ty"
  shows "is_approved (fst (era_process cf to_json now tomorrow a (Some p) l st)) ty \<longleftrightarrow>
    1 < length (filter (active_setup ty) (al_setups l))"
proof -
  have "length (filter (active_setup ty) (update_first (active_setup ty) (retired_setup (cp_description p)) (al_setups l))) =
      length (filter (active_setup ty) (al_setups l)) - 1"
    by (rule update_first_active) (simp_all add: active_setup_def retired_setup_def)
  with assms show ?thesis
    by (auto simp: era_process_def handle_setup_retirement_def case_prod_beta Let_def is_approved_iff next_list_def)
qed

text \<open>
  Such a second entry arises: a setup that was retired and admitted again has two entries,
  and a modification revives the retired one.
\<close>

theorem retirement_needs_single_entry_witness:
  "let l = edge_list [NEW_SETUP_ADDITION, SETUP_RETIREMENT, NEW_SETUP_ADDITION, SETUP_MODIFICATION]
   in length (filter (active_setup BREAKOUT) (al_setups l)) = 2 \<and>
      is_approved (fst (era_process era_defaults (\<lambda>_. []) 6 ''d'' failed_analysis
        (Some (edge_proposal SETUP_RETIREMENT)) l store_init)) BREAKOUT"
proof -
  let ?l = "edge_list [NEW_SETUP_ADDITION, SETUP_RETIREMENT, NEW_SETUP_ADDITION, SETUP_MODIFICATION]"
  have two: "length (filter (active_setup BREAKOUT) (al_setups ?l)) = 2" by code_simp
  have "cp_status (edge_proposal SETUP_RETIREMENT) = HGL_APPROVED"
    "cp_proposal_type (edge_proposal SETUP_RETIREMENT) = SETUP_RETIREMENT"
    "extract_setup_type (edge_proposal SETUP_RETIREMENT) = Some BREAKOUT"
    by code_simp+
  from retirement_needs_single_entry [OF this] two show ?thesis by (simp add: Let_def)
qed

end
