(* ===== verification/Session_Review.thy ===== *)
theory Session_Review
  imports State_Store "HOL-Library.AList"
begin

text \<open>
  The post-session review, agent 14 (\<open>agents/agent_14_post_session_review.py\<close>): the statistics
  of a session's closed trades, the proposals made from the analysis and their submission, and
  the check of a shadow session. The analysis of the language model is an argument (a failed
  call is the analysis without proposals), the fresh identifiers come from a supply, and dates
  are day numbers in the sense of Python's \<open>toordinal\<close>. Descriptions are shortened.
\<close>

section \<open>Session statistics\<close>

record setup_stats =
  ss_trades :: int
  ss_wins :: int
  ss_pnl :: pyfloat

definition ss_win_rate :: "setup_stats \<Rightarrow> pyfloat" where
  "ss_win_rate d = (if 0 < ss_trades d then of_int (ss_wins d) / of_int (ss_trades d) else 0)"

definition add_to_setup :: "closed_trade \<Rightarrow> (setup_type \<times> setup_stats) list \<Rightarrow> (setup_type \<times> setup_stats) list" where
  "add_to_setup t tab =
     (let d = (case map_of tab (ct_setup_type t) of
                 None \<Rightarrow> \<lparr>ss_trades = 0, ss_wins = 0, ss_pnl = 0\<rparr> | Some d \<Rightarrow> d)
      in AList.update (ct_setup_type t)
           \<lparr>ss_trades = ss_trades d + 1, ss_wins = ss_wins d + of_bool (is_winner t),
            ss_pnl = ss_pnl d + ct_net_pnl t\<rparr> tab)"

text \<open>The loop of \<open>_compute_max_drawdown\<close> over the net results in the order of closing.\<close>

fun drawdown_loop :: "pyfloat \<Rightarrow> pyfloat \<Rightarrow> pyfloat \<Rightarrow> pyfloat list \<Rightarrow> pyfloat" where
  "drawdown_loop equity peak max_dd [] = max_dd"
| "drawdown_loop equity peak max_dd (x # xs) =
     (let equity = equity + x;
          peak = (if equity > peak then equity else peak);
          dd = peak - equity
      in drawdown_loop equity peak (if dd > max_dd then dd else max_dd) xs)"

definition compute_max_drawdown :: "closed_trade list \<Rightarrow> pyfloat" where
  "compute_max_drawdown trades = drawdown_loop 0 0 0 (map ct_net_pnl (sort_key ct_closed_at trades))"

record session_stats =
  se_total_trades :: int
  se_wins :: int
  se_losses :: int
  se_win_rate :: pyfloat
  se_total_pnl :: pyfloat
  se_avg_win :: pyfloat
  se_avg_loss :: pyfloat
  se_expectancy :: pyfloat
  se_max_drawdown :: pyfloat
  se_avg_hold_sec :: pyfloat
  se_by_setup :: "(setup_type \<times> setup_stats) list"

definition mean :: "pyfloat list \<Rightarrow> pyfloat" where
  "mean xs = (if xs \<noteq> [] then sum_list xs / of_nat (length xs) else 0)"

text \<open>\<open>None\<close> is the empty dictionary of a session without trades.\<close>

definition compute_session_stats :: "closed_trade list \<Rightarrow> session_stats option" where
  "compute_session_stats trades =
     (if trades = [] then None
      else
        let wins = filter is_winner trades;
            losses = filter (\<lambda>t. \<not> is_winner t) trades;
            n = of_nat (length trades);
            avg_win = mean (map ct_net_pnl wins);
            avg_loss = mean (map ct_net_pnl losses)
        in Some \<lparr>se_total_trades = int (length trades), se_wins = int (length wins),
             se_losses = int (length losses), se_win_rate = of_nat (length wins) / n,
             se_total_pnl = sum_list (map ct_net_pnl trades), se_avg_win = avg_win,
             se_avg_loss = avg_loss,
             se_expectancy = of_nat (length wins) / n * avg_win + of_nat (length losses) / n * avg_loss,
             se_max_drawdown = compute_max_drawdown trades,
             se_avg_hold_sec = sum_list (map ct_hold_time_sec trades) / n,
             se_by_setup = fold add_to_setup trades []\<rparr>)"

section \<open>Dates\<close>

definition weekday :: "int \<Rightarrow> int" where
  "weekday d = (d + 6) mod 7"

function next_weekday :: "int \<Rightarrow> int \<Rightarrow> int" where
  "next_weekday d days_ahead =
     (if weekday (d + days_ahead) < 5 then d + days_ahead else next_weekday d (days_ahead + 1))"
  by pat_completeness auto
termination
proof (relation "measure (\<lambda>(d, k). nat (8 - weekday (d + k)) mod 8)")
  fix d k :: int
  assume "\<not> weekday (d + k) < 5"
  moreover have "0 \<le> weekday (d + k)" "weekday (d + k) < 7" by (simp_all add: weekday_def)
  ultimately have w: "weekday (d + k) = 5 \<or> weekday (d + k) = 6" by auto
  then have "weekday (d + (k + 1)) = 6 \<or> weekday (d + (k + 1)) = 0"
    by (auto simp: weekday_def) presburger+
  with w show "((d, k + 1), d, k) \<in> measure (\<lambda>(d, k). nat (8 - weekday (d + k)) mod 8)"
    by (auto simp: weekday_def) presburger+
qed simp

declare next_weekday.simps [simp del]

definition next_session_date :: "int \<Rightarrow> int" where
  "next_session_date today = next_weekday today 1"

section \<open>Proposals\<close>

text \<open>
  A parameter tweak as the analysis gives it; \<open>None\<close> as the proposed value is a missing one,
  which raises where the change is computed (unless the current value is 0: then nothing is
  computed and the proposal changes nothing).
\<close>

record param_tweak =
  pt_parameter :: string
  pt_current :: pyfloat
  pt_proposed :: "pyfloat option"

record review_analysis =
  ra_tweaks :: "param_tweak list"
  ra_retirements :: "string list"
  ra_modifications :: "(string \<times> param_value) list list"

definition no_analysis :: review_analysis where
  "no_analysis = \<lparr>ra_tweaks = [], ra_retirements = [], ra_modifications = []\<rparr>"

definition new_proposal ::
  "timestamp \<Rightarrow> string \<Rightarrow> string \<Rightarrow> change_proposal_type \<Rightarrow> string \<Rightarrow> (string \<times> param_value) list \<Rightarrow> change_proposal"
where
  "new_proposal now session pid ty desc changes =
     \<lparr>cp_proposal_id = pid, cp_proposal_type = ty, cp_status = PROPOSED, cp_submitted_by = ''PSRA'',
      cp_proposed_for_session = Some session, cp_description = desc, cp_parameter_changes = changes,
      cp_hgl_approved_by = None, cp_hgl_approved_at = None, cp_hgl_rejection_reason = None,
      cp_edge_validation_result = None, cp_edge_rejection_reason = None, cp_created_at = now,
      cp_updated_at = now\<rparr>"

definition tweak_changes :: "param_tweak \<Rightarrow> (string \<times> param_value) list option" where
  "tweak_changes tw =
     (case pt_proposed tw of
        None \<Rightarrow> if pt_current tw \<noteq> 0 then None else Some []
      | Some x \<Rightarrow> Some [(pt_parameter tw, PV_Num x)])"

definition proposal_drafts ::
  "review_analysis \<Rightarrow> (change_proposal_type \<times> string \<times> (string \<times> param_value) list) list option" where
  "proposal_drafts an =
     (if list_ex (\<lambda>tw. tweak_changes tw = None) (ra_tweaks an) then None
      else Some
        (map (\<lambda>tw. (PARAMETER_TWEAK, ''Parameter tweak: '' @ pt_parameter tw, the (tweak_changes tw))) (ra_tweaks an) @
         map (\<lambda>ty. (SETUP_RETIREMENT, ''Retire setup '' @ ty, [(''setup_type'', PV_Text ty)])) (ra_retirements an) @
         map (\<lambda>changes. (SETUP_MODIFICATION, ''Modify setup'', changes)) (ra_modifications an)))"

definition generate_proposals ::
  "timestamp \<Rightarrow> string \<Rightarrow> (nat \<Rightarrow> string) \<Rightarrow> review_analysis \<Rightarrow> change_proposal list option" where
  "generate_proposals now session ids an =
     map_option
       (\<lambda>ds. map2 (\<lambda>k (ty, desc, changes). new_proposal now session (ids k) ty desc changes) [0..<length ds] ds)
       (proposal_drafts an)"

text \<open>\<open>_submit_proposal\<close>: the proposal waits for the governance layer, is stored and published.\<close>

definition submitted :: "change_proposal \<Rightarrow> change_proposal" where
  "submitted p = p\<lparr>cp_status := AWAITING_HGL\<rparr>"

definition submit_proposal :: "timestamp \<Rightarrow> change_proposal \<Rightarrow> state_store \<Rightarrow> state_store \<times> change_proposal" where
  "submit_proposal now p st = (upsert_change_proposal now (submitted p) st, submitted p)"

fun submit_all :: "timestamp \<Rightarrow> change_proposal list \<Rightarrow> state_store \<Rightarrow> state_store \<times> change_proposal list" where
  "submit_all now [] st = (st, [])"
| "submit_all now (p # ps) st =
     (case submit_proposal now p st of (st1, q) \<Rightarrow>
        (case submit_all now ps st1 of (st2, qs) \<Rightarrow> (st2, q # qs)))"

text \<open>
  One review: nothing without trades; \<open>None\<close> is an exception, before anything is submitted.
  The result is the store, what was published, and whether the review was audited.
\<close>

definition run_review ::
  "timestamp \<Rightarrow> string \<Rightarrow> string \<Rightarrow> (nat \<Rightarrow> string) \<Rightarrow> review_analysis \<Rightarrow> state_store
   \<Rightarrow> (state_store \<times> change_proposal list \<times> bool) option" where
  "run_review now session_date session ids an st =
     (if load_closed_trades session_date st = [] then Some (st, [], False)
      else
        (case generate_proposals now session ids an of
           None \<Rightarrow> None
         | Some ps \<Rightarrow> (case submit_all now ps st of (st1, out) \<Rightarrow> Some (st1, out, True))))"

section \<open>Shadow sessions\<close>

record shadow_summary =
  sh_win_rate :: pyfloat
  sh_max_drawdown :: pyfloat
  sh_data_integrity_events :: int
  sh_reconciliation_events :: int

text \<open>
  \<open>evaluate_shadow_performance\<close>; the check named \<open>min_trading_days\<close> asks whether the summary
  has a date, which every summary has.
\<close>

definition evaluate_shadow_performance :: "pyfloat \<Rightarrow> pyfloat \<Rightarrow> pyfloat \<Rightarrow> shadow_summary \<Rightarrow> bool" where
  "evaluate_shadow_performance min_win_rate max_drawdown_pct starting_equity sm \<longleftrightarrow>
     min_win_rate \<le> sh_win_rate sm \<and>
     sh_max_drawdown sm \<le> max_drawdown_pct * starting_equity \<and>
     sh_data_integrity_events sm = 0 \<and> sh_reconciliation_events sm = 0"

section \<open>The drawdown\<close>

definition drawdown_step :: "pyfloat \<times> pyfloat \<times> pyfloat \<Rightarrow> pyfloat \<Rightarrow> pyfloat \<times> pyfloat \<times> pyfloat" where
  "drawdown_step = (\<lambda>(e, p, m) x. (e + x, max p (e + x), max m (max p (e + x) - (e + x))))"

lemma drawdown_loop_foldl: "drawdown_loop e p m xs = snd (snd (foldl drawdown_step (e, p, m) xs))"
  by (induction xs arbitrary: e p m) (auto simp: drawdown_step_def Let_def max_def)

definition equity_at :: "pyfloat list \<Rightarrow> nat \<Rightarrow> pyfloat" where
  "equity_at xs k = sum_list (take k xs)"

text \<open>\<open>m\<close> is the largest fall of the equity from an earlier point to a later one.\<close>

definition largest_fall :: "pyfloat list \<Rightarrow> pyfloat \<Rightarrow> bool" where
  "largest_fall xs m \<longleftrightarrow>
     (\<exists>i j. i \<le> j \<and> j \<le> length xs \<and> m = equity_at xs i - equity_at xs j) \<and>
     (\<forall>i j. i \<le> j \<and> j \<le> length xs \<longrightarrow> equity_at xs i - equity_at xs j \<le> m)"

definition highest :: "pyfloat list \<Rightarrow> pyfloat \<Rightarrow> bool" where
  "highest xs p \<longleftrightarrow>
     (\<exists>i \<le> length xs. p = equity_at xs i) \<and> (\<forall>i \<le> length xs. equity_at xs i \<le> p)"

lemma equity_at_snoc:
  "k \<le> length xs \<Longrightarrow> equity_at (xs @ [x]) k = equity_at xs k"
  "equity_at (xs @ [x]) (Suc (length xs)) = equity_at xs (length xs) + x"
  by (simp_all add: equity_at_def)

lemma highest_snoc:
  assumes "highest xs p"
  shows "highest (xs @ [x]) (max p (equity_at xs (length xs) + x))"
  using assms
  by (auto simp: highest_def max_def le_Suc_eq equity_at_snoc intro: exI [of _ "Suc (length xs)"]
      exI [where P = "\<lambda>i. (i \<le> length xs \<or> i = Suc (length xs)) \<and> _ i"] order_trans)

lemma largest_fall_snoc:
  assumes "largest_fall xs m" and "highest (xs @ [x]) p"
  shows "largest_fall (xs @ [x]) (max m (p - (equity_at xs (length xs) + x)))"
proof -
  let ?e = "equity_at (xs @ [x])" and ?n = "Suc (length xs)"
  have last: "?e ?n = equity_at xs (length xs) + x" by (rule equity_at_snoc)
  have old: "?e i = equity_at xs i" if "i \<le> length xs" for i using that by (rule equity_at_snoc)
  from assms(2) obtain i where i: "i \<le> ?n" "p = ?e i" and top: "\<And>k. k \<le> ?n \<Longrightarrow> ?e k \<le> p"
    by (auto simp: highest_def)
  from assms(1) obtain a b where ab: "a \<le> b" "b \<le> length xs" "m = ?e a - ?e b"
    and most: "\<And>k l. k \<le> l \<Longrightarrow> l \<le> length xs \<Longrightarrow> ?e k - ?e l \<le> m"
    by (fastforce simp: largest_fall_def old)
  have "\<exists>k l. k \<le> l \<and> l \<le> ?n \<and> max m (p - ?e ?n) = ?e k - ?e l"
  proof (cases "m \<le> p - ?e ?n")
    case True
    with i show ?thesis by (intro exI [of _ i] exI [of _ ?n]) (simp add: max_def)
  next
    case False
    with ab show ?thesis by (intro exI [of _ a] exI [of _ b]) (simp add: max_def)
  qed
  moreover have "?e k - ?e l \<le> max m (p - ?e ?n)" if "k \<le> l" "l \<le> ?n" for k l
  proof (cases "l = ?n")
    case True
    with that top [of k] show ?thesis by (simp add: max_def)
  next
    case False
    with that most [of k l] show ?thesis by (simp add: max_def)
  qed
  ultimately show ?thesis by (simp add: largest_fall_def last)
qed

lemma drawdown_state:
  "case foldl drawdown_step (0, 0, 0) xs of (e, p, m) \<Rightarrow>
     e = equity_at xs (length xs) \<and> highest xs p \<and> largest_fall xs m"
proof (induction xs rule: rev_induct)
  case Nil
  show ?case by (simp add: equity_at_def highest_def largest_fall_def)
next
  case (snoc x xs)
  obtain e p m where st: "foldl drawdown_step (0, 0, 0) xs = (e, p, m)" by (cases "foldl drawdown_step (0, 0, 0) xs")
  with snoc have e: "e = equity_at xs (length xs)" and p: "highest xs p" and m: "largest_fall xs m"
    by simp_all
  from highest_snoc [OF p, of x] largest_fall_snoc [OF m highest_snoc [OF p, of x]]
  moreover have "drawdown_step (e, p, m) x =
      (e + x, max p (e + x), max m (max p (e + x) - (e + x)))"
    by (simp add: drawdown_step_def)
  ultimately show ?case by (simp add: st e equity_at_snoc)
qed

text \<open>
  The drawdown of a session is the largest fall of its equity, from any point in the order of
  closing to any later one, starting from zero.
\<close>
theorem max_drawdown_is_largest_fall:
  "largest_fall (map ct_net_pnl (sort_key ct_closed_at trades)) (compute_max_drawdown trades)"
  using drawdown_state [of "map ct_net_pnl (sort_key ct_closed_at trades)"]
  by (simp add: compute_max_drawdown_def drawdown_loop_foldl case_prod_beta)

section \<open>Totals\<close>

lemma mean_total: "of_nat (length xs) * mean xs = sum_list xs"
  by (simp add: mean_def)

lemma split_sum:
  fixes g :: "'a \<Rightarrow> pyfloat"
  shows "sum_list (map g (filter P xs)) + sum_list (map g (filter (\<lambda>x. \<not> P x) xs)) = sum_list (map g xs)"
  by (induction xs) simp_all

lemma sum_update_distinct:
  fixes g :: "'b \<Rightarrow> pyfloat"
  assumes "distinct (map fst tab)"
  shows "sum_list (map (g \<circ> snd) (AList.update k d tab)) =
    sum_list (map (g \<circ> snd) tab) + g d - (case map_of tab k of None \<Rightarrow> 0 | Some d' \<Rightarrow> g d')"
  using assms
proof (induction tab)
  case (Cons a tab)
  then have "map_of tab (fst a) = None" by (simp add: map_of_eq_None_iff)
  with Cons show ?case by (cases a) auto
qed simp

lemma by_setup_totals:
  fixes g :: "setup_stats \<Rightarrow> pyfloat" and f :: "closed_trade \<Rightarrow> pyfloat"
  assumes "distinct (map fst tab)"
    and "\<And>t d. g \<lparr>ss_trades = ss_trades d + 1, ss_wins = ss_wins d + of_bool (is_winner t), ss_pnl = ss_pnl d + ct_net_pnl t\<rparr> = g d + f t"
    and "g \<lparr>ss_trades = 0, ss_wins = 0, ss_pnl = 0\<rparr> = 0"
  shows "sum_list (map (g \<circ> snd) (fold add_to_setup ts tab)) =
    sum_list (map (g \<circ> snd) tab) + sum_list (map f ts)"
  using assms(1)
proof (induction ts arbitrary: tab)
  case (Cons t ts)
  have "distinct (map fst (add_to_setup t tab))"
    using Cons.prems by (simp add: add_to_setup_def Let_def distinct_update)
  moreover have "sum_list (map (g \<circ> snd) (add_to_setup t tab)) = sum_list (map (g \<circ> snd) tab) + f t"
    unfolding add_to_setup_def Let_def sum_update_distinct [OF Cons.prems] assms(2)
    by (simp add: assms(3) split: option.split)
  ultimately show ?case using Cons.IH [of "add_to_setup t tab"] by (simp add: o_def)
qed simp

lemma sum_of_bool: "sum_list (map (\<lambda>t. of_bool (P t) :: pyfloat) ts) = of_nat (length (filter P ts))"
  by (induction ts) simp_all

text \<open>
  The statistics of a session agree with its trades: wins and losses add up, the expectancy
  is the mean result of a trade, and the table of setups splits the number of trades, the wins
  and the total result.
\<close>
theorem session_stats_add_up:
  assumes "compute_session_stats trades = Some s"
  shows "se_wins s + se_losses s = se_total_trades s \<and>
    se_expectancy s * of_int (se_total_trades s) = se_total_pnl s \<and>
    sum_list (map (of_int \<circ> ss_trades \<circ> snd) (se_by_setup s)) = (of_int (se_total_trades s) :: pyfloat) \<and>
    sum_list (map (of_int \<circ> ss_wins \<circ> snd) (se_by_setup s)) = (of_int (se_wins s) :: pyfloat) \<and>
    sum_list (map (ss_pnl \<circ> snd) (se_by_setup s)) = se_total_pnl s"
proof -
  let ?w = "filter is_winner trades" and ?l = "filter (\<lambda>t. \<not> is_winner t) trades"
  from assms have ne: "trades \<noteq> []" by (auto simp: compute_session_stats_def split: if_splits)
  have len: "length ?w + length ?l = length trades"
    by (rule sum_length_filter_compl)
  have "(of_nat (length ?w) / of_nat (length trades) * mean (map ct_net_pnl ?w) +
      of_nat (length ?l) / of_nat (length trades) * mean (map ct_net_pnl ?l)) * of_nat (length trades) =
      sum_list (map ct_net_pnl ?w) + sum_list (map ct_net_pnl ?l)"
    using ne mean_total [of "map ct_net_pnl ?w"] mean_total [of "map ct_net_pnl ?l"]
    by (simp add: field_simps)
  then have "se_expectancy s * of_int (se_total_trades s) = se_total_pnl s"
    using assms by (auto simp: compute_session_stats_def Let_def split_sum split: if_splits)
  moreover have "sum_list (map (of_int \<circ> ss_trades \<circ> snd) (fold add_to_setup trades [])) = (of_nat (length trades) :: pyfloat)"
    using by_setup_totals [of "[]" "of_int \<circ> ss_trades" "\<lambda>_. 1" trades]
    by (simp add: o_assoc sum_list_triv)
  moreover have "sum_list (map (of_int \<circ> ss_wins \<circ> snd) (fold add_to_setup trades [])) = (of_nat (length ?w) :: pyfloat)"
    using by_setup_totals [of "[]" "of_int \<circ> ss_wins" "\<lambda>t. of_bool (is_winner t)" trades]
    by (simp add: o_assoc sum_of_bool)
  moreover have "sum_list (map (ss_pnl \<circ> snd) (fold add_to_setup trades [])) = sum_list (map ct_net_pnl trades)"
    using by_setup_totals [of "[]" ss_pnl ct_net_pnl trades] by simp
  ultimately show ?thesis
    using assms len by (auto simp: compute_session_stats_def Let_def split: if_splits)
qed

definition trade_example :: "timestamp \<Rightarrow> pyfloat \<Rightarrow> closed_trade" where
  "trade_example at_time pnl =
     \<lparr>ct_trade_id = ''t'' @ digits (nat at_time), ct_plan_id = ''x'', ct_symbol = ''AB'',
      ct_setup_type = BREAKOUT, ct_regime = TREND_DAY, ct_direction = LONG, ct_shares = 10,
      ct_entry_price = 5, ct_exit_price = 6, ct_stop_price = 4, ct_target_price = 7,
      ct_exit_mode = PROFIT_TARGET, ct_gross_pnl = pnl, ct_net_pnl = pnl, ct_commission = 0,
      ct_slippage = 0, ct_hold_time_sec = 60, ct_opened_at = 0, ct_closed_at = at_time\<rparr>"

theorem session_stats_add_up_witness:
  "case compute_session_stats [trade_example 1 3, trade_example 2 (- 1)] of
     None \<Rightarrow> False
   | Some s \<Rightarrow> se_total_trades s = 2 \<and> se_expectancy s * of_int (se_total_trades s) = se_total_pnl s"
proof -
  obtain s where s: "compute_session_stats [trade_example 1 3, trade_example 2 (- 1)] = Some s"
    and "se_total_trades s = 2"
    by (simp add: compute_session_stats_def Let_def)
  with session_stats_add_up [OF s] show ?thesis by simp
qed

section \<open>The next session\<close>

text \<open>The next session is the next day, or after a Friday or a Saturday the Monday.\<close>

theorem next_session_is_next_weekday:
  "next_session_date today =
     today + (if weekday today = 4 then 3 else if weekday today = 5 then 2 else 1)"
proof -
  have w: "weekday (today + k) = (weekday today + k) mod 7" for k
    by (simp add: weekday_def mod_simps algebra_simps)
  have b: "0 \<le> weekday today" "weekday today < 7" by (simp_all add: weekday_def)
  consider "weekday today = 4" | "weekday today = 5" | "weekday today = 6" | "weekday today < 4"
    using b by linarith
  moreover have "(weekday today + 1) mod 7 = weekday today + 1" if "weekday today < 4"
    using that b by simp
  ultimately show ?thesis
    using next_weekday.simps [of today 1] next_weekday.simps [of today 2] next_weekday.simps [of today 3]
    by cases (simp_all add: next_session_date_def w)
qed

end
