(* ===== verification/Change_Control.thy ===== *)
theory Change_Control
  imports Governance Edge_Research Session_Review
begin

text \<open>
  The change-proposal handoff end to end: the post-session review submits proposals, the
  governance layer approves or rejects them, the edge research agent validates what was
  approved. All messages ever published on the proposal topic stay available for delivery to
  the two subscribers, in any order and any number of times; restarts of the two agents keep
  the store and the bus.
\<close>

section \<open>The agents together\<close>

record change_control =
  cc_hgl :: hgl
  cc_setups :: approved_setup_list
  cc_store :: state_store
  cc_bus :: "change_proposal list"

definition cc_init :: "timestamp \<Rightarrow> change_control" where
  "cc_init now = \<lparr>cc_hgl = hgl_init, cc_setups = setups_init now, cc_store = store_init, cc_bus = []\<rparr>"

datatype cc_event =
    Cc_Trade string closed_trade
  | Cc_Review timestamp string string "nat \<Rightarrow> string" review_analysis
  | Cc_To_Hgl nat
  | Cc_To_Edge timestamp string edge_analysis nat
  | Cc_Approve timestamp string string string
  | Cc_Reject timestamp string string string
  | Cc_Hgl_Restart
  | Cc_Edge_Restart timestamp string

definition published :: "'c hgl_effect list \<Rightarrow> change_proposal list" where
  "published out = concat (map (\<lambda>e. case e of Publish_Proposal p \<Rightarrow> [p] | _ \<Rightarrow> []) out)"

definition bus_message :: "change_control \<Rightarrow> nat \<Rightarrow> change_proposal option" where
  "bus_message c k = (if k < length (cc_bus c) then Some (cc_bus c ! k) else None)"

fun cc_step ::
  "era_config \<Rightarrow> (approved_setup_list \<Rightarrow> string) \<Rightarrow> (string \<Rightarrow> approved_setup_list option)
   \<Rightarrow> change_control \<Rightarrow> cc_event \<Rightarrow> change_control" where
  "cc_step cf to_json of_json c (Cc_Trade day t) = c\<lparr>cc_store := save_closed_trade day t (cc_store c)\<rparr>"
| "cc_step cf to_json of_json c (Cc_Review now day session ids an) =
     (case run_review now day session ids an (cc_store c) of
        None \<Rightarrow> c
      | Some (st, out, audited) \<Rightarrow> c\<lparr>cc_store := st, cc_bus := cc_bus c @ out\<rparr>)"
| "cc_step cf to_json of_json c (Cc_To_Hgl k) =
     c\<lparr>cc_hgl := fst (hgl_handle_proposal (bus_message c k) (cc_hgl c) :: hgl \<times> unit hgl_effect list)\<rparr>"
| "cc_step cf to_json of_json c (Cc_To_Edge now tomorrow a k) =
     (case era_process cf to_json now tomorrow a (bus_message c k) (cc_setups c) (cc_store c) of
        (l, st, out, raised) \<Rightarrow> c\<lparr>cc_setups := l, cc_store := st\<rparr>)"
| "cc_step cf to_json of_json c (Cc_Approve now pid who why) =
     (case (approve_proposal now pid who why (cc_hgl c) (cc_store c) :: bool \<times> unit hgl_result) of
        (ok, h, st, out) \<Rightarrow> c\<lparr>cc_hgl := h, cc_store := st, cc_bus := cc_bus c @ published out\<rparr>)"
| "cc_step cf to_json of_json c (Cc_Reject now pid who why) =
     (case (hgl_reject_proposal now pid who why (cc_hgl c) (cc_store c) :: bool \<times> unit hgl_result) of
        (ok, h, st, out) \<Rightarrow> c\<lparr>cc_hgl := h, cc_store := st\<rparr>)"
| "cc_step cf to_json of_json c Cc_Hgl_Restart = c\<lparr>cc_hgl := hgl_init\<rparr>"
| "cc_step cf to_json of_json c (Cc_Edge_Restart now tomorrow) =
     (case era_on_startup cf to_json of_json now tomorrow
             (era_on_shutdown to_json now (cc_setups c) (cc_store c)) of
        (l, st, out) \<Rightarrow> c\<lparr>cc_setups := l, cc_store := st\<rparr>)"

text \<open>The approvals of a run: which proposal was approved by whom.\<close>

definition approvals :: "change_control \<Rightarrow> cc_event \<Rightarrow> (string \<times> string) list" where
  "approvals c e =
     (case e of
        Cc_Approve now pid who why \<Rightarrow>
          if fst (approve_proposal now pid who why (cc_hgl c) (cc_store c) :: bool \<times> unit hgl_result)
          then [(pid, who)] else []
      | _ \<Rightarrow> [])"

section \<open>What carries an approval was approved\<close>

definition vouched :: "(string \<times> string) set \<Rightarrow> change_proposal \<Rightarrow> bool" where
  "vouched A p \<longleftrightarrow>
     (cp_status p \<in> {HGL_APPROVED, EDGE_VALIDATING, EDGE_PASSED, EDGE_FAILED} \<longrightarrow>
        (\<exists>who. cp_hgl_approved_by p = Some who \<and> (cp_proposal_id p, who) \<in> A))"

definition cc_inv :: "(string \<times> string) set \<Rightarrow> change_control \<Rightarrow> bool" where
  "cc_inv A c \<longleftrightarrow>
     store_ok (cc_store c) \<and> hgl_ok (cc_hgl c) \<and> (\<forall>p \<in> set (cc_bus c). vouched A p) \<and>
     (\<forall>p \<in> ran (sp_proposals (store_abs (cc_store c))). vouched A p)"

lemma vouched_mono: "vouched A p \<Longrightarrow> A \<subseteq> B \<Longrightarrow> vouched B p"
  by (auto simp: vouched_def)

definition stored_vouched :: "(string \<times> string) set \<Rightarrow> state_store \<Rightarrow> bool" where
  "stored_vouched A st \<longleftrightarrow> store_ok st \<and> (\<forall>p \<in> ran (sp_proposals (store_abs st)). vouched A p)"

lemma stored_vouched_upsert:
  "stored_vouched A st \<Longrightarrow> vouched A p \<Longrightarrow> stored_vouched A (upsert_change_proposal now p st)"
  by (auto simp: stored_vouched_def upsert_proposal_ok proposals_after_upsert ran_def split: if_splits)

lemma vouched_live: "cp_status p \<in> {LIVE, PROPOSED, AWAITING_HGL, HGL_REJECTED} \<Longrightarrow> vouched A p"
  by (auto simp: vouched_def)

lemma stored_vouched_persist:
  "stored_vouched A st \<Longrightarrow> stored_vouched A (persist_setup_list to_json now l st)"
  unfolding persist_setup_list_def by (rule stored_vouched_upsert) (simp_all add: vouched_live)

lemma stored_vouched_outcome:
  assumes "stored_vouched A st" and "vouched A p" and "cp_status p = HGL_APPROVED"
  shows "stored_vouched A (fst (accept_proposal now p st))" and "stored_vouched A (fst (era_reject now why p st))"
  using assms by (auto simp: accept_proposal_def era_reject_def vouched_def intro!: stored_vouched_upsert)

lemma stored_vouched_rejecting:
  assumes "stored_vouched A st" and "vouched A p" and "cp_status p = HGL_APPROVED"
  shows "stored_vouched A (fst (snd (rejecting now why p l st)))"
  using stored_vouched_outcome(2) [OF assms] by (simp add: rejecting_def case_prod_beta)

lemmas edge_handlers =
  handle_parameter_tweak_def handle_setup_modification_def handle_new_setup_addition_def
  handle_setup_retirement_def

lemma stored_vouched_edge:
  assumes "stored_vouched A st" and "\<And>p. payload = Some p \<Longrightarrow> vouched A p"
  shows "stored_vouched A (fst (snd (era_process cf to_json now tomorrow a payload l st)))"
proof (cases "\<exists>p. payload = Some p \<and> cp_status p = HGL_APPROVED")
  case True
  then obtain p where p: "payload = Some p" "cp_status p = HGL_APPROVED" by blast
  then have v: "vouched A p" using assms(2) by blast
  note keep = stored_vouched_rejecting [OF assms(1) v p(2)]
    stored_vouched_outcome(1) [OF stored_vouched_persist [OF assms(1)] v p(2)]
  show ?thesis
    by (cases "cp_proposal_type p")
      (auto simp: p era_process_def edge_handlers case_prod_beta Let_def keep assms(1) split: option.split)
next
  case False
  with assms(1) show ?thesis by (auto simp: era_process_def split: option.split)
qed

lemma submit_all_vouched:
  "stored_vouched A st \<Longrightarrow> stored_vouched A (fst (submit_all now ps st)) \<and>
     (\<forall>p \<in> set (snd (submit_all now ps st)). vouched A p)"
proof (induction ps arbitrary: st)
  case (Cons p ps)
  have v: "vouched A (submitted p)" by (simp add: submitted_def vouched_live)
  from Cons.IH [OF stored_vouched_upsert [OF Cons.prems v]] v show ?case
    by (simp add: submit_proposal_def case_prod_beta)
qed simp

lemma cc_inv_stored: "cc_inv A c \<longleftrightarrow> stored_vouched A (cc_store c) \<and> hgl_ok (cc_hgl c) \<and> (\<forall>p \<in> set (cc_bus c). vouched A p)"
  by (auto simp: cc_inv_def stored_vouched_def)

lemma stored_vouched_other:
  "stored_vouched A st \<Longrightarrow> sp_proposals (store_abs (store_step st e)) = sp_proposals (store_abs st) \<Longrightarrow>
    stored_vouched A (store_step st e)"
  by (simp add: stored_vouched_def store_step_ok)

lemma hgl_ok_deleted:
  "hgl_ok h \<Longrightarrow> hgl_ok (h\<lparr>hg_pending := AList.delete k (hg_pending h), hg_approved := x\<rparr>)"
  "hgl_ok h \<Longrightarrow> hgl_ok (h\<lparr>hg_pending := AList.delete k (hg_pending h)\<rparr>)"
  by (auto simp: hgl_ok_def list_all_iff AList.delete_eq)

lemma in_alist_update: "x \<in> set (AList.update k v al) \<Longrightarrow> x = (k, v) \<or> x \<in> set al"
  by (induction al) (auto split: if_splits)

lemma hgl_ok_received: "hgl_ok h \<Longrightarrow> hgl_ok (fst (hgl_handle_proposal payload h))"
  by (auto simp: hgl_ok_def hgl_handle_proposal_def list_all_iff split: option.split dest!: in_alist_update)

lemma approve_keeps:
  fixes r :: "bool \<times> unit hgl_result"
  assumes "stored_vouched A st" and "hgl_ok h" and r: "r = approve_proposal now pid who why h st"
  shows "case r of (ok, h', st', out) \<Rightarrow>
    stored_vouched (A \<union> (if ok then {(pid, who)} else {})) st' \<and> hgl_ok h' \<and>
    (\<forall>p \<in> set (published out). vouched (A \<union> (if ok then {(pid, who)} else {})) p)"
proof (cases "approvable h st pid")
  case None
  with assms show ?thesis
    by (simp add: approve_missing stored_vouched_def published_def)
next
  case (Some p)
  have ok: "store_ok st" using assms(1) by (simp add: stored_vouched_def)
  let ?A = "insert (pid, who) A" and ?p = "approved_by now who p"
  have v: "vouched ?A ?p"
    using approvable_id [OF assms(2) ok Some] by (simp add: vouched_def approved_by_def)
  have "stored_vouched ?A st"
    using assms(1) by (auto simp: stored_vouched_def intro: vouched_mono)
  from stored_vouched_upsert [OF this v] v show ?thesis
    using Some ok assms(2)
    by (simp add: r approve_found hgl_ok_deleted published_def)
qed

lemma reject_keeps:
  fixes r :: "bool \<times> unit hgl_result"
  assumes "stored_vouched A st" and "hgl_ok h" and r: "r = hgl_reject_proposal now pid who why h st"
  shows "case r of (ok, h', st', out) \<Rightarrow> stored_vouched A st' \<and> hgl_ok h'"
  using assms(1,2)
  by (auto simp: r hgl_reject_proposal_def rejected_with_def vouched_live hgl_ok_deleted
      intro!: stored_vouched_upsert split: option.split)

lemma review_keeps:
  assumes "stored_vouched A st" and "run_review now day session ids an st = Some (st', out, audited)"
  shows "stored_vouched A st' \<and> (\<forall>p \<in> set out. vouched A p)"
  using assms submit_all_vouched [OF assms(1)]
  by (auto simp: run_review_def split: if_splits option.splits prod.splits) (metis fst_conv snd_conv)+

lemma edge_startup_keeps:
  assumes "stored_vouched A st"
  shows "stored_vouched A (fst (snd (era_on_startup cf to_json of_json now tomorrow st)))"
  using assms by (simp add: era_on_startup_def check_rolling_expectancy_def case_prod_beta Let_def
      stored_vouched_persist)

lemma cc_step_inv:
  assumes "cc_inv A c"
  shows "cc_inv (A \<union> set (approvals c e)) (cc_step cf to_json of_json c e)"
proof -
  from assms have st: "stored_vouched A (cc_store c)" and h: "hgl_ok (cc_hgl c)"
    and bus: "\<forall>p \<in> set (cc_bus c). vouched A p"
    by (simp_all add: cc_inv_stored)
  show ?thesis
  proof (cases e)
    case (Cc_Trade day t)
    have "stored_vouched A (store_step (cc_store c) (Put_Trade day t))"
      by (rule stored_vouched_other [OF st]) (simp add: store_step_refines del: store_step.simps)
    with h bus show ?thesis by (simp add: Cc_Trade cc_inv_stored approvals_def)
  next
    case (Cc_Review now day session ids an)
    with st h bus review_keeps [OF st] show ?thesis
      by (auto simp: cc_inv_stored approvals_def split: option.split)
  next
    case (Cc_To_Hgl k)
    with st h bus show ?thesis by (simp add: cc_inv_stored approvals_def hgl_ok_received)
  next
    case (Cc_To_Edge now tomorrow a k)
    have "vouched A p" if "bus_message c k = Some p" for p
      using that bus by (auto simp: bus_message_def split: if_splits)
    from stored_vouched_edge [OF st this] h bus show ?thesis
      by (simp add: Cc_To_Edge cc_inv_stored approvals_def case_prod_beta)
  next
    case (Cc_Approve now pid who why)
    with approve_keeps [OF st h refl, where now = now and pid = pid and who = who and why = why] bus show ?thesis
      by (auto simp: cc_inv_stored approvals_def case_prod_beta intro: vouched_mono split: if_splits)
  next
    case (Cc_Reject now pid who why)
    with reject_keeps [OF st h refl, where now = now and pid = pid and who = who and why = why] bus show ?thesis
      by (simp add: cc_inv_stored approvals_def case_prod_beta)
  next
    case Cc_Hgl_Restart
    with st bus show ?thesis by (simp add: cc_inv_stored approvals_def hgl_init_ok)
  next
    case (Cc_Edge_Restart now tomorrow)
    have "stored_vouched A (era_on_shutdown to_json now (cc_setups c) (cc_store c))"
      using st by (simp add: era_on_shutdown_def stored_vouched_persist)
    from edge_startup_keeps [OF this] h bus show ?thesis
      by (simp add: Cc_Edge_Restart cc_inv_stored approvals_def case_prod_beta)
  qed
qed

lemma cc_run_inv:
  assumes "cc_inv A c"
  shows "cc_inv (A \<union> set (run_out (cc_step cf to_json of_json) approvals c es))
    (foldl (cc_step cf to_json of_json) c es)"
  using assms
proof (induction es arbitrary: A c)
  case (Cons e es)
  from Cons.IH [OF cc_step_inv [OF Cons.prems]] show ?case by (simp add: Un_assoc)
qed simp

lemma cc_init_inv: "cc_inv {} (cc_init now)"
  by (simp add: cc_inv_def cc_init_def store_init_ok hgl_init_ok store_abs_init spec_init_def)

text \<open>
  C5. Whatever the review proposes, in whatever order messages are delivered, repeated or kept
  back, and whoever restarts: when a delivered message moves the list of approved setups, it
  is a proposal that carries an approver, that person approved this very proposal earlier in
  the run, and the change is justified by its analysis.
\<close>
theorem setups_move_only_by_person:
  fixes es :: "cc_event list" and t0 now :: timestamp and k :: nat and tomorrow :: string
    and cf :: era_config and to_json :: "approved_setup_list \<Rightarrow> string"
    and of_json :: "string \<Rightarrow> approved_setup_list option" and a :: edge_analysis
  defines "c \<equiv> foldl (cc_step cf to_json of_json) (cc_init t0) es"
    and "c' \<equiv> foldl (cc_step cf to_json of_json) (cc_init t0) (es @ [Cc_To_Edge now tomorrow a k])"
  assumes "cc_setups c' \<noteq> cc_setups c"
  shows "\<exists>p who. bus_message c k = Some p \<and> cp_hgl_approved_by p = Some who \<and>
    (cp_proposal_id p, who) \<in> set (run_out (cc_step cf to_json of_json) approvals (cc_init t0) es) \<and>
    justified cf a tomorrow p (cc_setups c) (cc_setups c')"
proof -
  have "fst (era_process cf to_json now tomorrow a (bus_message c k) (cc_setups c) (cc_store c)) = cc_setups c'"
    by (simp add: c'_def c_def case_prod_beta)
  from era_process_list [OF this assms(3)] obtain p where p: "bus_message c k = Some p"
    "cp_status p = HGL_APPROVED" "justified cf a tomorrow p (cc_setups c) (cc_setups c')"
    by blast
  have "cc_inv (set (run_out (cc_step cf to_json of_json) approvals (cc_init t0) es)) c"
    using cc_run_inv [OF cc_init_inv] by (simp add: c_def)
  then have "vouched (set (run_out (cc_step cf to_json of_json) approvals (cc_init t0) es)) p"
    using p(1) by (auto simp: cc_inv_def bus_message_def split: if_splits)
  with p show ?thesis by (auto simp: vouched_def)
qed

lemma version_differs: "al_version l = 1 \<Longrightarrow> al_version l' = 2 \<Longrightarrow> l' \<noteq> l"
  by auto

theorem setups_move_only_by_person_witness:
  "let step = cc_step era_defaults (\<lambda>_. []) (\<lambda>_. None);
       es = [Cc_Trade ''d'' (trade_example 1 3),
             Cc_Review 2 ''d'' ''e'' (\<lambda>k. ''p'' @ digits k) (no_analysis\<lparr>ra_retirements := [''breakout'']\<rparr>),
             Cc_Approve 3 ''p0'' ''ann'' []];
       c = foldl step (cc_init 0) es;
       c' = foldl step (cc_init 0) (es @ [Cc_To_Edge 4 ''e'' failed_analysis 1])
   in al_version (cc_setups c) = 1 \<and> al_version (cc_setups c') = 2 \<and>
      (\<exists>p who. bus_message c 1 = Some p \<and> cp_hgl_approved_by p = Some who \<and>
         (cp_proposal_id p, who) \<in> set (run_out step approvals (cc_init 0) es))"
proof -
  let ?step = "cc_step era_defaults (\<lambda>_. []) (\<lambda>_. None)"
  let ?es = "[Cc_Trade ''d'' (trade_example 1 3),
     Cc_Review 2 ''d'' ''e'' (\<lambda>k. ''p'' @ digits k) (no_analysis\<lparr>ra_retirements := [''breakout'']\<rparr>),
     Cc_Approve 3 ''p0'' ''ann'' []]"
  have v: "al_version (cc_setups (foldl ?step (cc_init 0) ?es)) = 1"
    "al_version (cc_setups (foldl ?step (cc_init 0) (?es @ [Cc_To_Edge 4 ''e'' failed_analysis 1]))) = 2"
    by code_simp+
  then have "cc_setups (foldl ?step (cc_init 0) (?es @ [Cc_To_Edge 4 ''e'' failed_analysis 1])) \<noteq>
      cc_setups (foldl ?step (cc_init 0) ?es)"
    by (rule version_differs)
  from setups_move_only_by_person [OF this] v show ?thesis
    unfolding Let_def by blast
qed

section \<open>Parameter tweaks never pass\<close>

lemma tweak_without_setup:
  assumes "tweak_changes tw = Some changes" and "cp_parameter_changes p = changes"
  shows "extract_setup_type p = None"
proof -
  from assms(1) have "map_of changes ''setup_type'' \<in> insert None (range (Some \<circ> PV_Num))"
    by (auto simp: tweak_changes_def split: option.splits if_splits)
  then have "map_of (cp_parameter_changes p) ''setup_type'' \<in> insert None (range (Some \<circ> PV_Num))"
    by (simp only: assms(2))
  then show ?thesis by (auto simp: extract_setup_type_def)
qed

lemma drafted_tweaks:
  assumes "proposal_drafts an = Some ds" and "(PARAMETER_TWEAK, desc, changes) \<in> set ds"
  obtains tw where "tweak_changes tw = Some changes"
  using assms by (auto simp: proposal_drafts_def list_ex_iff split: if_splits)

lemma generated_tweaks:
  assumes "generate_proposals now session ids an = Some ps" and "p \<in> set ps"
    and "cp_proposal_type p = PARAMETER_TWEAK"
  shows "extract_setup_type p = None"
proof -
  from assms(1) obtain ds where ds: "proposal_drafts an = Some ds"
    and ps: "ps = map2 (\<lambda>k (ty, desc, changes). new_proposal now session (ids k) ty desc changes) [0..<length ds] ds"
    by (auto simp: generate_proposals_def)
  from assms(2) obtain k d where d: "d \<in> set ds"
    and p: "p = (case d of (ty, desc, changes) \<Rightarrow> new_proposal now session (ids k) ty desc changes)"
    unfolding ps by (auto dest: set_zip_rightD)
  obtain ty desc changes where d': "d = (ty, desc, changes)" by (cases d)
  with p assms(3) have "ty = PARAMETER_TWEAK" "cp_parameter_changes p = changes"
    by (simp_all add: new_proposal_def)
  with d d' drafted_tweaks [OF ds] tweak_without_setup show ?thesis by metis
qed

text \<open>
  A parameter tweak made by the review names the parameter but not the setup it belongs to,
  so the edge research agent fails every one of them, however good the analysis: approved by
  a person or not, it changes no setup, and the approved one ends as failed.
\<close>
theorem review_tweaks_never_pass:
  assumes "generate_proposals now session ids an = Some ps" and "p \<in> set ps"
    and "cp_proposal_type p = PARAMETER_TWEAK"
  shows "case era_process cf to_json t tomorrow a (Some (approved_by ta who (submitted p))) l st of
    (l', st', out, raised) \<Rightarrow> l' = l \<and> \<not> raised \<and>
      map_option cp_status (sp_proposals (store_abs st') (cp_proposal_id p)) = Some EDGE_FAILED"
proof -
  have "extract_setup_type (approved_by ta who (submitted p)) = None"
    using generated_tweaks [OF assms] by (simp add: extract_setup_type_def approved_by_def submitted_def)
  then show ?thesis
    using assms(3)
    by (simp add: era_process_def handle_parameter_tweak_def rejecting_def era_reject_def proposals_after_upsert
        approved_by_def submitted_def)
qed

theorem review_tweaks_never_pass_witness:
  "let an = no_analysis\<lparr>ra_tweaks := [\<lparr>pt_parameter = ''max_spread_bps'', pt_current = 20, pt_proposed = Some 15\<rparr>]\<rparr>;
       p = hd (the (generate_proposals 2 ''e'' (\<lambda>k. ''p'' @ digits k) an))
   in map_option cp_status
        (sp_proposals (store_abs (fst (snd (era_process era_defaults (\<lambda>_. []) 4 ''e''
           \<lparr>ea_passes = True, ea_net_ev = Some 1, ea_monte_carlo = True\<rparr>
           (Some (approved_by 3 ''ann'' (submitted p))) (setups_init 0) store_init)))) (cp_proposal_id p))
      = Some EDGE_FAILED"
proof -
  let ?an = "no_analysis\<lparr>ra_tweaks := [\<lparr>pt_parameter = ''max_spread_bps'', pt_current = 20, pt_proposed = Some 15\<rparr>]\<rparr>"
  let ?p = "new_proposal 2 ''e'' (''p'' @ digits 0) PARAMETER_TWEAK (''Parameter tweak: '' @ ''max_spread_bps'')
    [(''max_spread_bps'', PV_Num 15)]"
  have g: "generate_proposals 2 ''e'' (\<lambda>k. ''p'' @ digits k) ?an = Some [?p]"
    by (simp add: generate_proposals_def proposal_drafts_def no_analysis_def tweak_changes_def)
  have "?p \<in> set [?p]" "cp_proposal_type ?p = PARAMETER_TWEAK" by (simp_all add: new_proposal_def)
  from review_tweaks_never_pass [OF g this, where cf = era_defaults and to_json = "\<lambda>_. []" and t = 4
      and tomorrow = "''e''" and a = "\<lparr>ea_passes = True, ea_net_ev = Some 1, ea_monte_carlo = True\<rparr>"
      and ta = 3 and who = "''ann''" and l = "setups_init 0" and st = store_init]
  show ?thesis unfolding Let_def g by (simp add: case_prod_beta)
qed

end
