(* ===== verification/Watchdog.thy ===== *)
theory Watchdog
  imports Supervisor "HOL-Library.AList"
begin

text \<open>
  The bus watchdog of \<open>infrastructure/watchdog.py\<close>. A turn of its loop asks for the bus health
  (\<open>None\<close> is a question that timed out or raised) and goes over the heartbeats; the callbacks
  it calls are effects. The time-out is an amount of microseconds.
\<close>

section \<open>State and operations\<close>

record watchdog =
  wd_running :: bool
  wd_bus_was_healthy :: bool
  wd_last_seen :: "(string \<times> timestamp) list"
  wd_alerted :: "string list"

definition watchdog_init :: watchdog where
  "watchdog_init =
     \<lparr>wd_running = False, wd_bus_was_healthy = True, wd_last_seen = [], wd_alerted = []\<rparr>"

datatype watchdog_effect = Bus_Failure | Bus_Recovery | Agent_Timeout string timestamp

definition update_agent_heartbeat :: "timestamp \<Rightarrow> string \<Rightarrow> watchdog \<Rightarrow> watchdog" where
  "update_agent_heartbeat now agent_id w =
     w\<lparr>wd_last_seen := AList.update agent_id now (wd_last_seen w),
       wd_alerted := filter (\<lambda>a. a \<noteq> agent_id) (wd_alerted w)\<rparr>"

definition check_bus_health :: "bool option \<Rightarrow> watchdog \<Rightarrow> watchdog \<times> watchdog_effect list" where
  "check_bus_health answer w =
     (let healthy = (case answer of None \<Rightarrow> False | Some b \<Rightarrow> b)
      in if \<not> healthy \<and> wd_bus_was_healthy w then (w\<lparr>wd_bus_was_healthy := False\<rparr>, [Bus_Failure])
         else if healthy \<and> \<not> wd_bus_was_healthy w then (w\<lparr>wd_bus_was_healthy := True\<rparr>, [Bus_Recovery])
         else (w, []))"

definition overdue :: "timestamp \<Rightarrow> timestamp \<Rightarrow> watchdog \<Rightarrow> string \<times> timestamp \<Rightarrow> bool" where
  "overdue timeout now w seen \<longleftrightarrow> timeout < now - snd seen \<and> fst seen \<notin> set (wd_alerted w)"

definition check_agent_heartbeats ::
  "timestamp \<Rightarrow> timestamp \<Rightarrow> watchdog \<Rightarrow> watchdog \<times> watchdog_effect list" where
  "check_agent_heartbeats timeout now w =
     (let late = map fst (filter (overdue timeout now w) (wd_last_seen w))
      in (w\<lparr>wd_alerted := wd_alerted w @ late\<rparr>, map (\<lambda>a. Agent_Timeout a now) late))"

definition watchdog_turn ::
  "timestamp \<Rightarrow> bool option \<Rightarrow> timestamp \<Rightarrow> watchdog \<Rightarrow> watchdog \<times> watchdog_effect list" where
  "watchdog_turn timeout answer now w =
     (if \<not> wd_running w then (w, [])
      else
        (case check_bus_health answer w of
           (w1, out1) \<Rightarrow> (case check_agent_heartbeats timeout now w1 of (w2, out2) \<Rightarrow> (w2, out1 @ out2))))"

definition watchdog_run :: "watchdog \<Rightarrow> watchdog" where
  "watchdog_run w = w\<lparr>wd_running := True\<rparr>"

definition watchdog_stop :: "watchdog \<Rightarrow> watchdog" where
  "watchdog_stop w = w\<lparr>wd_running := False\<rparr>"

text \<open>The summary for the dashboard: which agents are within the time-out.\<close>

definition agent_status_summary :: "timestamp \<Rightarrow> timestamp \<Rightarrow> watchdog \<Rightarrow> (string \<times> bool) list" where
  "agent_status_summary timeout now w = map (\<lambda>(a, t). (a, now - t < timeout)) (wd_last_seen w)"

section \<open>Runs\<close>

datatype watchdog_event =
    Wd_Turn "bool option" timestamp
  | Wd_Heartbeat string timestamp
  | Wd_Stop

fun watchdog_event_step ::
  "timestamp \<Rightarrow> watchdog \<Rightarrow> watchdog_event \<Rightarrow> watchdog \<times> watchdog_effect list" where
  "watchdog_event_step timeout w (Wd_Turn answer now) = watchdog_turn timeout answer now w"
| "watchdog_event_step timeout w (Wd_Heartbeat a now) = (update_agent_heartbeat now a w, [])"
| "watchdog_event_step timeout w Wd_Stop = (watchdog_stop w, [])"

definition watchdog_step :: "timestamp \<Rightarrow> watchdog \<Rightarrow> watchdog_event \<Rightarrow> watchdog" where
  "watchdog_step timeout w e = fst (watchdog_event_step timeout w e)"

definition watchdog_emits :: "timestamp \<Rightarrow> watchdog \<Rightarrow> watchdog_event \<Rightarrow> watchdog_effect list" where
  "watchdog_emits timeout w e = snd (watchdog_event_step timeout w e)"

section \<open>Every failure is reported once\<close>

text \<open>The reference: the changes of a series of health answers that starts healthy.\<close>

fun edges :: "bool \<Rightarrow> bool list \<Rightarrow> watchdog_effect list" where
  "edges was [] = []"
| "edges was (b # bs) =
     (if was \<and> \<not> b then [Bus_Failure] else if \<not> was \<and> b then [Bus_Recovery] else []) @ edges b bs"

text \<open>The answers of the turns up to the first stop.\<close>

fun answers :: "watchdog_event list \<Rightarrow> bool list" where
  "answers [] = []"
| "answers (Wd_Turn answer now # es) = (case answer of None \<Rightarrow> False | Some b \<Rightarrow> b) # answers es"
| "answers (Wd_Heartbeat a now # es) = answers es"
| "answers (Wd_Stop # es) = []"

definition bus_edge :: "watchdog_effect \<Rightarrow> bool" where
  "bus_edge e \<longleftrightarrow> e = Bus_Failure \<or> e = Bus_Recovery"

lemma stopped_emits: "\<not> wd_running w \<Longrightarrow> run_out (watchdog_step th) (watchdog_emits th) w es = []"
proof (induction es arbitrary: w)
  case (Cons e es)
  then have "watchdog_emits th w e = []" "\<not> wd_running (watchdog_step th w e)"
    by (cases e; simp add: watchdog_emits_def watchdog_step_def watchdog_turn_def
        update_agent_heartbeat_def watchdog_stop_def)+
  with Cons.IH show ?case by simp
qed simp

lemma turn_edges:
  assumes "wd_running w"
  shows "filter bus_edge (watchdog_emits th w (Wd_Turn answer now)) =
      edges (wd_bus_was_healthy w) [case answer of None \<Rightarrow> False | Some b \<Rightarrow> b]"
    and "wd_bus_was_healthy (watchdog_step th w (Wd_Turn answer now)) = (case answer of None \<Rightarrow> False | Some b \<Rightarrow> b)"
    and "wd_running (watchdog_step th w (Wd_Turn answer now))"
  using assms
  by (auto simp: watchdog_emits_def watchdog_step_def watchdog_turn_def check_bus_health_def
      check_agent_heartbeats_def bus_edge_def Let_def comp_def split: option.split)

lemma run_edges:
  "wd_running w \<Longrightarrow>
   filter bus_edge (run_out (watchdog_step th) (watchdog_emits th) w es) = edges (wd_bus_was_healthy w) (answers es)"
proof (induction es arbitrary: w)
  case (Cons e es)
  show ?case
  proof (cases e)
    case (Wd_Turn answer now)
    with Cons turn_edges [OF Cons.prems, of th answer now] show ?thesis by simp
  next
    case (Wd_Heartbeat a now)
    with Cons show ?thesis
      by (simp add: watchdog_emits_def watchdog_step_def update_agent_heartbeat_def)
  next
    case Wd_Stop
    moreover have "watchdog_emits th w Wd_Stop = []" "watchdog_step th w Wd_Stop = watchdog_stop w"
      by (simp_all add: watchdog_emits_def watchdog_step_def)
    moreover have "\<not> wd_running (watchdog_stop w)" by (simp add: watchdog_stop_def)
    ultimately show ?thesis using stopped_emits [of "watchdog_stop w" th es] by simp
  qed
qed simp

text \<open>
  A started watchdog calls back exactly at the changes of the health answers: a failure when
  an unhealthy one (a time-out and an exception included) follows a healthy one, a recovery
  when it is the other way round, nothing in between, until it is stopped.
\<close>
theorem bus_callbacks_are_edges:
  "filter bus_edge (run_out (watchdog_step th) (watchdog_emits th) (watchdog_run watchdog_init) es) =
   edges True (answers es)"
  using run_edges [of "watchdog_run watchdog_init" th es]
  by (simp add: watchdog_run_def watchdog_init_def)

section \<open>A silent agent is reported once\<close>

definition wd_inv :: "watchdog \<Rightarrow> bool" where
  "wd_inv w \<longleftrightarrow> distinct (map fst (wd_last_seen w))"

definition timeouts_of :: "timestamp \<Rightarrow> string \<Rightarrow> watchdog \<Rightarrow> watchdog_event \<Rightarrow> watchdog_effect list" where
  "timeouts_of th a w e =
     filter (\<lambda>x. case x of Agent_Timeout b _ \<Rightarrow> b = a | _ \<Rightarrow> False) (watchdog_emits th w e)"

definition beats_or_stops :: "string \<Rightarrow> watchdog_event \<Rightarrow> bool" where
  "beats_or_stops a e = (case e of Wd_Heartbeat b _ \<Rightarrow> b = a | Wd_Stop \<Rightarrow> True | Wd_Turn _ _ \<Rightarrow> False)"

definition silent_since :: "timestamp \<Rightarrow> timestamp \<Rightarrow> watchdog_event \<Rightarrow> bool" where
  "silent_since th t e = (case e of Wd_Turn _ now \<Rightarrow> th < now - t | _ \<Rightarrow> False)"

definition timeout_at :: "string \<Rightarrow> watchdog_event \<Rightarrow> watchdog_effect" where
  "timeout_at a e = Agent_Timeout a (case e of Wd_Turn _ now \<Rightarrow> now | _ \<Rightarrow> 0)"

lemma late_agent:
  assumes "wd_inv w"
  shows "filter (\<lambda>x. x = a) (map fst (filter P (wd_last_seen w))) =
    (case map_of (wd_last_seen w) a of None \<Rightarrow> [] | Some t \<Rightarrow> if P (a, t) then [a] else [])"
proof -
  have "filter (\<lambda>x. x = a) (map fst (filter P tab)) =
      (case map_of tab a of None \<Rightarrow> [] | Some t \<Rightarrow> if P (a, t) then [a] else [])"
    if "distinct (map fst tab)" for tab :: "(string \<times> timestamp) list"
    using that
  proof (induction tab)
    case (Cons p tab)
    then have "map_of tab (fst p) = None" by (simp add: map_of_eq_None_iff)
    with Cons show ?case by (cases p) (auto split: option.split)
  qed simp
  with assms show ?thesis by (simp add: wd_inv_def)
qed

lemma turn_frame:
  "wd_last_seen (fst (watchdog_turn th answer now w)) = wd_last_seen w"
  "wd_running (fst (watchdog_turn th answer now w)) = wd_running w"
  by (simp_all add: watchdog_turn_def check_bus_health_def check_agent_heartbeats_def Let_def case_prod_beta)

lemma turn_timeouts:
  assumes "wd_inv w" and "wd_running w"
  shows "timeouts_of th a w (Wd_Turn answer now) =
      (case map_of (wd_last_seen w) a of
         None \<Rightarrow> []
       | Some t \<Rightarrow> if th < now - t \<and> a \<notin> set (wd_alerted w) then [Agent_Timeout a now] else [])" (is ?out)
    and "a \<in> set (wd_alerted (fst (watchdog_turn th answer now w))) \<longleftrightarrow>
      a \<in> set (wd_alerted w) \<or>
      (case map_of (wd_last_seen w) a of None \<Rightarrow> False | Some t \<Rightarrow> th < now - t)" (is ?alerted)
proof -
  obtain w1 out1 where h: "check_bus_health answer w = (w1, out1)" by (cases "check_bus_health answer w")
  then have w1: "wd_last_seen w1 = wd_last_seen w" "wd_alerted w1 = wd_alerted w"
    and out1: "filter (\<lambda>x. case x of Agent_Timeout b _ \<Rightarrow> b = a | _ \<Rightarrow> False) out1 = []"
    by (auto simp: check_bus_health_def Let_def split: if_splits)
  let ?late = "map fst (filter (overdue th now w1) (wd_last_seen w1))"
  have late: "filter (\<lambda>x. x = a) ?late =
      (case map_of (wd_last_seen w) a of None \<Rightarrow> []
       | Some t \<Rightarrow> if th < now - t \<and> a \<notin> set (wd_alerted w) then [a] else [])"
    using assms(1) late_agent [of w1 a "overdue th now w1"]
    by (simp add: w1 overdue_def wd_inv_def cong: option.case_cong)
  have "filter (\<lambda>x. case x of Agent_Timeout b _ \<Rightarrow> b = a | _ \<Rightarrow> False) (map (\<lambda>b. Agent_Timeout b now) ?late) =
      map (\<lambda>b. Agent_Timeout b now) (filter (\<lambda>x. x = a) ?late)"
    by (simp add: filter_map comp_def)
  then show ?out
    using assms(2) h late out1
    by (simp add: timeouts_of_def watchdog_emits_def watchdog_turn_def check_agent_heartbeats_def Let_def
        split: option.split)
  have "a \<in> set ?late \<longleftrightarrow> filter (\<lambda>x. x = a) ?late \<noteq> []"
    unfolding filter_empty_conv by blast
  also have "\<dots> \<longleftrightarrow> (case map_of (wd_last_seen w) a of None \<Rightarrow> False
       | Some t \<Rightarrow> th < now - t \<and> a \<notin> set (wd_alerted w))"
    unfolding late by (simp split: option.split)
  finally show ?alerted
    using assms(2) h
    by (auto simp: watchdog_turn_def check_agent_heartbeats_def Let_def w1 split: option.splits)
qed

lemma wd_inv_step: "wd_inv w \<Longrightarrow> wd_inv (watchdog_step th w e)"
  by (cases e)
    (simp_all add: wd_inv_def watchdog_step_def turn_frame update_agent_heartbeat_def watchdog_stop_def
      distinct_update)

lemma unheard_agent:
  assumes "\<not> beats_or_stops a e" and "\<not> (\<exists>answer now. e = Wd_Turn answer now)"
  shows "map_of (wd_last_seen (watchdog_step th w e)) a = map_of (wd_last_seen w) a"
    and "a \<in> set (wd_alerted (watchdog_step th w e)) \<longleftrightarrow> a \<in> set (wd_alerted w)"
    and "timeouts_of th a w e = []" and "wd_running (watchdog_step th w e) = wd_running w"
  using assms
  by (cases e; simp add: beats_or_stops_def watchdog_step_def update_agent_heartbeat_def update_conv'
      timeouts_of_def watchdog_emits_def)+

interpretation agent_silence: one_shot "watchdog_step th" "timeouts_of th a"
    "\<lambda>w. wd_inv w \<and> wd_running w \<and> map_of (wd_last_seen w) a = Some t \<and> a \<notin> set (wd_alerted w)"
    "\<lambda>w. wd_inv w \<and> wd_running w \<and> map_of (wd_last_seen w) a = Some t \<and> a \<in> set (wd_alerted w)"
    "beats_or_stops a" "silent_since th t" "timeout_at a"
  for th a t
proof
  fix w e
  assume w: "wd_inv w \<and> wd_running w \<and> map_of (wd_last_seen w) a = Some t \<and> a \<notin> set (wd_alerted w)"
    and nt: "\<not> beats_or_stops a e"
  { assume "silent_since th t e"
    then obtain answer now where e: "e = Wd_Turn answer now" "th < now - t"
      by (auto simp: silent_since_def split: watchdog_event.splits)
    with w turn_timeouts [where w = w and th = th and a = a and answer = answer and now = now] wd_inv_step [of w th e]
    show "timeouts_of th a w e = [timeout_at a e] \<and> wd_inv (watchdog_step th w e) \<and>
        wd_running (watchdog_step th w e) \<and> map_of (wd_last_seen (watchdog_step th w e)) a = Some t \<and>
        a \<in> set (wd_alerted (watchdog_step th w e))"
      by (simp add: watchdog_step_def turn_frame timeout_at_def) }
  { assume "\<not> silent_since th t e"
    with w nt turn_timeouts [where w = w and th = th and a = a] wd_inv_step [of w th e] unheard_agent [OF nt, of th w]
    show "timeouts_of th a w e = [] \<and> wd_inv (watchdog_step th w e) \<and>
        wd_running (watchdog_step th w e) \<and> map_of (wd_last_seen (watchdog_step th w e)) a = Some t \<and>
        a \<notin> set (wd_alerted (watchdog_step th w e))"
      by (cases e) (simp_all add: silent_since_def watchdog_step_def turn_frame) }
next
  fix w e
  assume "wd_inv w \<and> wd_running w \<and> map_of (wd_last_seen w) a = Some t \<and> a \<in> set (wd_alerted w)"
    and nt: "\<not> beats_or_stops a e"
  with turn_timeouts [where w = w and th = th and a = a] wd_inv_step [of w th e] unheard_agent [OF nt, of th w]
  show "timeouts_of th a w e = [] \<and> wd_inv (watchdog_step th w e) \<and>
      wd_running (watchdog_step th w e) \<and> map_of (wd_last_seen (watchdog_step th w e)) a = Some t \<and>
      a \<in> set (wd_alerted (watchdog_step th w e))"
    by (cases e) (simp_all add: watchdog_step_def turn_frame)
qed

text \<open>
  After a heartbeat, and until the agent's next one or the stop of the watchdog, the agent is
  reported exactly once if some turn comes later than the time-out after it, at the first such
  turn, and not at all otherwise.
\<close>
theorem silent_agent_alerted_once:
  assumes "wd_inv w" and "wd_running w" and "filter (beats_or_stops a) es = []"
  shows "run_out (watchdog_step th) (timeouts_of th a) (update_agent_heartbeat t a w) es =
    (case List.find (silent_since th t) es of None \<Rightarrow> [] | Some e \<Rightarrow> [timeout_at a e])"
proof (rule agent_silence.first_due)
  show "wd_inv (update_agent_heartbeat t a w) \<and> wd_running (update_agent_heartbeat t a w) \<and>
      map_of (wd_last_seen (update_agent_heartbeat t a w)) a = Some t \<and>
      a \<notin> set (wd_alerted (update_agent_heartbeat t a w))"
    using assms(1,2) by (simp add: update_agent_heartbeat_def wd_inv_def distinct_update update_conv')
  show "\<forall>e \<in> set es. \<not> beats_or_stops a e"
    using assms(3) by (simp add: filter_empty_conv)
qed

theorem silent_agent_alerted_once_witness:
  "run_out (watchdog_step 5) (timeouts_of 5 ''a'') (update_agent_heartbeat 10 ''a'' (watchdog_run watchdog_init))
     [Wd_Turn (Some True) 14, Wd_Turn None 16, Wd_Turn (Some True) 20] = [Agent_Timeout ''a'' 16]"
proof -
  have "wd_inv (watchdog_run watchdog_init)" "wd_running (watchdog_run watchdog_init)"
    by (simp_all add: wd_inv_def watchdog_run_def watchdog_init_def)
  from silent_agent_alerted_once [OF this, of "''a''" "[Wd_Turn (Some True) 14, Wd_Turn None 16, Wd_Turn (Some True) 20]" 5 10]
  show ?thesis by (simp add: beats_or_stops_def silent_since_def timeout_at_def)
qed

section \<open>The watchdog and the supervisor\<close>

text \<open>
  The coordinator's callbacks: a failure halts the supervisor directly, a recovery is only
  logged.
\<close>

definition on_watchdog :: "psa_config \<Rightarrow> timestamp \<Rightarrow> psa \<Rightarrow> watchdog_effect \<Rightarrow> psa" where
  "on_watchdog cf now s e =
     (if e = Bus_Failure then fst (psa_event_step cf s now Ev_Bus_Failure) else s)"

lemma edges_failure: "False \<in> set bs \<Longrightarrow> Bus_Failure \<in> set (edges True bs)"
  by (induction bs) auto

lemma on_watchdog_halted: "p_system_state s = HALTED \<Longrightarrow> p_system_state (foldl (on_watchdog cf now) s out) = HALTED"
  by (induction out arbitrary: s) (simp_all add: on_watchdog_def)

lemma on_watchdog_failure:
  "Bus_Failure \<in> set out \<Longrightarrow> p_system_state (foldl (on_watchdog cf now) s out) = HALTED"
proof (induction out arbitrary: s)
  case (Cons e out)
  show ?case
  proof (cases "e = Bus_Failure")
    case True
    then have "p_system_state (on_watchdog cf now s e) = HALTED" by (simp add: on_watchdog_def)
    then show ?thesis by (simp add: on_watchdog_halted)
  next
    case False
    with Cons show ?thesis by simp
  qed
qed simp

text \<open>
  C38. Once an unhealthy answer was seen the supervisor is halted, and later recoveries of the bus
  leave it halted.
\<close>
theorem bus_failure_halts_supervisor:
  assumes "False \<in> set (answers es)"
  shows "p_system_state (foldl (on_watchdog cf now) s
    (run_out (watchdog_step th) (watchdog_emits th) (watchdog_run watchdog_init) es)) = HALTED"
proof -
  have "wd_running (watchdog_run watchdog_init)" "wd_bus_was_healthy (watchdog_run watchdog_init)"
    by (simp_all add: watchdog_run_def watchdog_init_def)
  then have "Bus_Failure \<in> set (filter bus_edge
      (run_out (watchdog_step th) (watchdog_emits th) (watchdog_run watchdog_init) es))"
    using edges_failure [OF assms] by (simp add: run_edges)
  then show ?thesis by (intro on_watchdog_failure) simp
qed

theorem bus_failure_halts_supervisor_witness:
  "p_system_state (foldl (on_watchdog psa_defaults 9) (psa_init 0)
    (run_out (watchdog_step 5) (watchdog_emits 5) (watchdog_run watchdog_init)
      [Wd_Turn (Some True) 1, Wd_Turn None 2, Wd_Turn (Some True) 3])) = HALTED"
  by (rule bus_failure_halts_supervisor) simp

end
