(* ===== verification/Errors.thy ===== *)
theory Errors
  imports Prelude
begin

text \<open>
  The exceptions of \<open>core/exceptions.py\<close>, one constructor per class with the arguments of its
  constructor, the class hierarchy as tests, and the text each one carries (\<open>str(exc)\<close>). The
  classes without a constructor of their own carry the text they are raised with.
\<close>

datatype trading_error =
    Pipeline_Gate_Error string string
  | No_Approved_Edge_Error string
  | No_Trade_Regime_Error string
  | Feed_Dirty_Error string
  | Signal_Validation_Error string
  | Risk_Rejection_Error string
  | Reconciliation_Mismatch_Error string
  | Order_Submission_Error symbol string
  | Position_Without_Stop_Error symbol
  | Price_Chase_Limit_Error symbol pyfloat pyfloat
  | System_Halted_Error string
  | PDT_Limit_Error int
  | Account_Below_PDT_Error pyfloat pyfloat
  | Message_Bus_Error string
  | State_Store_Error string
  | Broker_Connection_Error string
  | Broker_API_Error int string
  | Unauthorized_Change_Error string string
  | Intra_Session_Change_Error string

definition quoted :: "string \<Rightarrow> string" where
  "quoted s = CHR 0x27 # s @ [CHR 0x27]"

text \<open>The gate and the reason of the errors below \<open>PipelineGateError\<close>.\<close>

fun gate_error :: "trading_error \<Rightarrow> (string \<times> string) option" where
  "gate_error (Pipeline_Gate_Error gate why) = Some (gate, why)"
| "gate_error (No_Approved_Edge_Error ty) =
     Some (''EdgeResearch'', ''Setup '' @ quoted ty @ '' not approved or retired'')"
| "gate_error (No_Trade_Regime_Error r) = Some (''MarketRegime'', ''No-trade regime active: '' @ r)"
| "gate_error (Feed_Dirty_Error a) = Some (''DataIntegrity'', ''Feed anomaly: '' @ a)"
| "gate_error (Signal_Validation_Error why) = Some (''SignalValidation'', why)"
| "gate_error (Risk_Rejection_Error why) = Some (''TERA'', why)"
| "gate_error (Reconciliation_Mismatch_Error d) = Some (''BrokerReconciliation'', ''Mismatch: '' @ d)"
| "gate_error _ = None"

definition is_gate_error :: "trading_error \<Rightarrow> bool" where
  "is_gate_error e \<longleftrightarrow> gate_error e \<noteq> None"

text \<open>
  The dash that two of the texts hold is not an ASCII character; a hyphen stands for it.
\<close>

fun error_text :: "trading_error \<Rightarrow> string" where
  "error_text (Order_Submission_Error sy why) =
     ''Order submission failed for '' @ sy @ '': '' @ why"
| "error_text (Position_Without_Stop_Error sy) =
     ''FATAL: Position entry blocked - no stop defined for '' @ sy"
| "error_text (Price_Chase_Limit_Error sy chase limit) =
     sy @ '': price chase '' @ fmt_fixed 1 chase @ ''bps exceeds limit '' @ fmt_fixed 1 limit @ ''bps''"
| "error_text (System_Halted_Error why) = ''System is halted - action blocked: '' @ why"
| "error_text (PDT_Limit_Error used) =
     ''PDT limit: '' @ int_str used @ ''/3 day trades used in rolling 5-day window''"
| "error_text (Account_Below_PDT_Error equity minimum) =
     ''Account equity $'' @ fmt_comma 2 equity @ '' below PDT minimum $'' @ fmt_comma 2 minimum @
     '' - HALT''"
| "error_text (Message_Bus_Error why) = why"
| "error_text (State_Store_Error why) = why"
| "error_text (Broker_Connection_Error why) = why"
| "error_text (Broker_API_Error status why) =
     ''Broker API error '' @ int_str status @ '': '' @ why"
| "error_text (Unauthorized_Change_Error param agent) =
     ''Agent '' @ quoted agent @ '' attempted to modify '' @ quoted param @ '' without HGL approval''"
| "error_text (Intra_Session_Change_Error param) =
     ''Parameter change to '' @ quoted param @ '' rejected - no intraday changes permitted''"
| "error_text e =
     (case gate_error e of
        Some (gate, why) \<Rightarrow> ''['' @ gate @ ''] Gate rejected: '' @ why
      | None \<Rightarrow> [])"

text \<open>Every gate error says which gate refused and why, and nothing else does.\<close>

lemma gate_error_text:
  "gate_error e = Some (gate, why) \<Longrightarrow> error_text e = ''['' @ gate @ ''] Gate rejected: '' @ why"
  by (cases e) auto

end
