(* ===== verification/Brokers.thy ===== *)
theory Brokers
  imports Models Errors
begin

text \<open>
  The broker interface of \<open>brokers/base.py\<close>, its three records, and the Alpaca
  implementation of \<open>brokers/alpaca.py\<close>. The Alpaca SDK is not part of the repository: its
  answer to a call is an argument of the operation that makes the call, \<open>Inl\<close> for an
  exception with its text, and the objects it returns are records of the attributes that the
  code reads. A request that the code builds for the SDK is a value.
\<close>

section \<open>The interface's records\<close>

record account_info =
  ai_account_id :: string
  ai_equity :: pyfloat
  ai_buying_power :: pyfloat
  ai_cash :: pyfloat
  ai_day_trade_buying_power :: pyfloat
  ai_pattern_day_trader :: bool
  ai_day_trades_remaining :: int

record broker_position =
  bp_symbol :: symbol
  bp_qty :: int
  bp_avg_entry_price :: pyfloat
  bp_current_price :: pyfloat
  bp_unrealized_pnl :: pyfloat
  bp_side :: string

record broker_order =
  bo_broker_order_id :: string
  bo_client_order_id :: string
  bo_symbol :: symbol
  bo_side :: string
  bo_qty :: int
  bo_order_type :: string
  bo_status :: string
  bo_filled_qty :: int
  bo_avg_fill_price :: "pyfloat option"
  bo_limit_price :: "pyfloat option"
  bo_stop_price :: "pyfloat option"
  bo_submitted_at :: "timestamp option"
  bo_filled_at :: "timestamp option"

section \<open>Alpaca's objects and requests\<close>

record alpaca_order =
  ao_id :: string
  ao_client_order_id :: "string option"
  ao_symbol :: symbol
  ao_side :: "string option"
  ao_qty :: "int option"
  ao_order_type :: "string option"
  ao_status :: "string option"
  ao_filled_qty :: "int option"
  ao_filled_avg_price :: "pyfloat option"
  ao_limit_price :: "pyfloat option"
  ao_stop_price :: "pyfloat option"
  ao_submitted_at :: "timestamp option"
  ao_filled_at :: "timestamp option"

record alpaca_position =
  ap_symbol :: symbol
  ap_qty :: "int option"
  ap_avg_entry_price :: "pyfloat option"
  ap_current_price :: "pyfloat option"
  ap_unrealized_pl :: "pyfloat option"
  ap_side :: "string option"

record alpaca_account =
  aa_id :: string
  aa_equity :: "pyfloat option"
  aa_buying_power :: "pyfloat option"
  aa_cash :: "pyfloat option"
  aa_daytrading_buying_power :: "pyfloat option"
  aa_pattern_day_trader :: bool
  aa_daytrade_count :: "int option"

datatype alpaca_side = A_BUY | A_SELL

datatype alpaca_tif = A_DAY | A_GTC | A_IOC | A_FOK

datatype alpaca_request =
    Limit_Request symbol int alpaca_side pyfloat alpaca_tif "string option"
  | Bracket_Request symbol int alpaca_side pyfloat alpaca_tif "string option" pyfloat pyfloat
  | Market_Request symbol int alpaca_side alpaca_tif "string option"

definition map_side :: "order_side \<Rightarrow> alpaca_side" where
  "map_side side = (if side = BUY \<or> side = BUY_TO_COVER then A_BUY else A_SELL)"

primrec map_tif :: "time_in_force \<Rightarrow> alpaca_tif" where
  "map_tif TIF_DAY = A_DAY"
| "map_tif TIF_GTC = A_GTC"
| "map_tif TIF_IOC = A_IOC"
| "map_tif TIF_FOK = A_FOK"

text \<open>\<open>x or 0\<close> and \<open>float(x) if x else None\<close> on an optional number.\<close>

definition or_zero :: "'n::zero option \<Rightarrow> 'n" where
  "or_zero x = (case x of None \<Rightarrow> 0 | Some v \<Rightarrow> v)"

definition nonzero :: "'n::zero option \<Rightarrow> 'n option" where
  "nonzero x = (case x of None \<Rightarrow> None | Some v \<Rightarrow> if v = 0 then None else Some v)"

definition or_text :: "string option \<Rightarrow> string \<Rightarrow> string" where
  "or_text x d = (case x of None \<Rightarrow> d | Some v \<Rightarrow> v)"

definition broker_order_from_alpaca :: "alpaca_order \<Rightarrow> broker_order" where
  "broker_order_from_alpaca ao = \<lparr>bo_broker_order_id = ao_id ao,
     bo_client_order_id = or_text (ao_client_order_id ao) [], bo_symbol = ao_symbol ao,
     bo_side = or_text (ao_side ao) ''buy'', bo_qty = or_zero (ao_qty ao),
     bo_order_type = or_text (ao_order_type ao) ''limit'',
     bo_status = or_text (ao_status ao) ''pending_new'',
     bo_filled_qty = or_zero (ao_filled_qty ao),
     bo_avg_fill_price = nonzero (ao_filled_avg_price ao),
     bo_limit_price = nonzero (ao_limit_price ao), bo_stop_price = nonzero (ao_stop_price ao),
     bo_submitted_at = ao_submitted_at ao, bo_filled_at = ao_filled_at ao\<rparr>"

section \<open>The operations\<close>

text \<open>
  \<open>_require_client\<close> and the two ways the operations treat an exception of the SDK: the account
  and the submissions raise it again as an API error, the reads, the cancellations and the
  closings log it and answer as if there were nothing.
\<close>

definition with_client :: "bool \<Rightarrow> (trading_error + 'a) \<Rightarrow> trading_error + 'a" where
  "with_client up r =
     (if up then r else Inl (Broker_Connection_Error ''Alpaca client not connected''))"

definition reraise :: "string + 'a \<Rightarrow> ('a \<Rightarrow> 'b) \<Rightarrow> trading_error + 'b" where
  "reraise r f = (case r of Inl e \<Rightarrow> Inl (Broker_API_Error 500 e) | Inr x \<Rightarrow> Inr (f x))"

definition swallow :: "'b \<Rightarrow> string + 'a \<Rightarrow> ('a \<Rightarrow> 'b) \<Rightarrow> trading_error + 'b" where
  "swallow d r f = Inr (case r of Inl e \<Rightarrow> d | Inr x \<Rightarrow> f x)"

definition alpaca_get_account :: "bool \<Rightarrow> string + alpaca_account \<Rightarrow> trading_error + account_info" where
  "alpaca_get_account up r = with_client up (reraise r (\<lambda>acct.
     \<lparr>ai_account_id = aa_id acct, ai_equity = or_zero (aa_equity acct),
      ai_buying_power = or_zero (aa_buying_power acct), ai_cash = or_zero (aa_cash acct),
      ai_day_trade_buying_power = or_zero (aa_daytrading_buying_power acct),
      ai_pattern_day_trader = aa_pattern_day_trader acct,
      ai_day_trades_remaining = or_zero (aa_daytrade_count acct)\<rparr>))"

text \<open>\<open>connect\<close> sets the client, then asks for the account; a failure leaves the client set.\<close>

definition alpaca_connect ::
  "string + alpaca_account \<Rightarrow> bool \<times> (trading_error + unit)" where
  "alpaca_connect r =
     (True, case alpaca_get_account True r of
        Inl e \<Rightarrow> Inl (Broker_Connection_Error (''Alpaca connection failed: '' @ error_text e))
      | Inr _ \<Rightarrow> Inr ())"

definition alpaca_disconnect :: "bool \<Rightarrow> bool" where
  "alpaca_disconnect up = False"

definition alpaca_is_connected :: "bool \<Rightarrow> string + alpaca_account \<Rightarrow> bool" where
  "alpaca_is_connected up r =
     (up \<and> (case alpaca_get_account up r of Inl _ \<Rightarrow> False | Inr _ \<Rightarrow> True))"

definition limit_request ::
  "symbol \<Rightarrow> order_side \<Rightarrow> int \<Rightarrow> pyfloat \<Rightarrow> time_in_force \<Rightarrow> string option \<Rightarrow> alpaca_request" where
  "limit_request sy side qty price tif cid =
     Limit_Request sy qty (map_side side) price (map_tif tif) cid"

definition bracket_request ::
  "symbol \<Rightarrow> order_side \<Rightarrow> int \<Rightarrow> pyfloat \<Rightarrow> pyfloat \<Rightarrow> pyfloat \<Rightarrow> time_in_force \<Rightarrow> string option
   \<Rightarrow> alpaca_request" where
  "bracket_request sy side qty price stop target tif cid =
     Bracket_Request sy qty (map_side side) price (map_tif tif) cid target stop"

definition market_request :: "symbol \<Rightarrow> order_side \<Rightarrow> int \<Rightarrow> string option \<Rightarrow> alpaca_request" where
  "market_request sy side qty cid = Market_Request sy qty (map_side side) A_DAY cid"

definition alpaca_submit ::
  "bool \<Rightarrow> (alpaca_request \<Rightarrow> string + alpaca_order) \<Rightarrow> alpaca_request \<Rightarrow> trading_error + broker_order" where
  "alpaca_submit up api req = with_client up (reraise (api req) broker_order_from_alpaca)"

definition alpaca_cancel_order :: "bool \<Rightarrow> string + unit \<Rightarrow> trading_error + bool" where
  "alpaca_cancel_order up r = with_client up (swallow False r (\<lambda>_. True))"

definition alpaca_cancel_all :: "bool \<Rightarrow> string + string list option \<Rightarrow> trading_error + nat" where
  "alpaca_cancel_all up r = with_client up
     (swallow 0 r (\<lambda>c. case c of None \<Rightarrow> 0 | Some xs \<Rightarrow> length xs))"

definition alpaca_get_order :: "bool \<Rightarrow> string + alpaca_order \<Rightarrow> trading_error + broker_order option" where
  "alpaca_get_order up r = with_client up
     (swallow None r (\<lambda>ao. Some (broker_order_from_alpaca ao)))"

definition alpaca_get_open_orders :: "bool \<Rightarrow> string + alpaca_order list \<Rightarrow> trading_error + broker_order list"
where
  "alpaca_get_open_orders up r = with_client up
     (swallow [] r (map broker_order_from_alpaca))"

definition alpaca_get_positions ::
  "bool \<Rightarrow> string + alpaca_position list \<Rightarrow> trading_error + broker_position list" where
  "alpaca_get_positions up r = with_client up
     (swallow [] r (map (\<lambda>p. \<lparr>bp_symbol = ap_symbol p, bp_qty = or_zero (ap_qty p),
        bp_avg_entry_price = or_zero (ap_avg_entry_price p),
        bp_current_price = or_zero (ap_current_price p),
        bp_unrealized_pnl = or_zero (ap_unrealized_pl p),
        bp_side = or_text (ap_side p) ''long''\<rparr>)))"

definition alpaca_close_position :: "bool \<Rightarrow> string + alpaca_order \<Rightarrow> trading_error + broker_order option"
where
  "alpaca_close_position up r = with_client up
     (swallow None r (\<lambda>ao. Some (broker_order_from_alpaca ao)))"

text \<open>The items of the answer to \<open>close_all_positions\<close>: each with the order it holds, if any.\<close>

definition alpaca_close_all ::
  "bool \<Rightarrow> string + alpaca_order option list option \<Rightarrow> trading_error + broker_order list" where
  "alpaca_close_all up r = with_client up
     (swallow [] r (\<lambda>items. case items of None \<Rightarrow> []
        | Some xs \<Rightarrow> map broker_order_from_alpaca (List.map_filter id xs)))"

definition alpaca_is_market_open :: "bool \<Rightarrow> string + bool \<Rightarrow> bool" where
  "alpaca_is_market_open up r =
     (up \<and> (case r of Inl _ \<Rightarrow> False | Inr b \<Rightarrow> b))"

section \<open>What a caller can tell\<close>

text \<open>
  A failed read is told to the caller of the account and of a submission only: an open-order
  query, a position query and a flattening that fail answer like a broker with no open order
  and no position.
\<close>

lemma failed_reads_look_flat:
  "alpaca_get_positions True (Inl e) = alpaca_get_positions True (Inr [])"
  "alpaca_get_open_orders True (Inl e) = alpaca_get_open_orders True (Inr [])"
  "alpaca_close_all True (Inl e) = alpaca_close_all True (Inr None)"
  "alpaca_get_account True (Inl e) = Inl (Broker_API_Error 500 e)"
  by (simp_all add: alpaca_get_positions_def alpaca_get_open_orders_def alpaca_close_all_def
      alpaca_get_account_def with_client_def swallow_def reraise_def)

lemma disconnected_calls_fail:
  "alpaca_get_positions False r = Inl (Broker_Connection_Error ''Alpaca client not connected'')"
  "alpaca_submit False api req = Inl (Broker_Connection_Error ''Alpaca client not connected'')"
  by (simp_all add: alpaca_get_positions_def alpaca_submit_def with_client_def)

end
