(* ===== verification/Sizing.thy ===== *)
theory Sizing
  imports Models
begin

text \<open>
  The sizing and plan agent of \<open>agents/agent_07_spa.py\<close> (class \<open>SPAAgent\<close>): the bounded
  cache of validated signals, the cost model, the expectancy of a setup after costs, the plan
  built for an approved decision, and the handlers of its three topics. What the agent asks of
  others while it builds a plan (equity, open positions, approved setups, execution quality and
  the language model's sentence) is the record \<open>spa_env\<close>; an exception of the equity
  callback or of the language model is a value of it. Numbers formatted into the reason of a
  rejection are left out of the text.
\<close>

section \<open>State and surroundings\<close>

record spa_config =
  sc_per_trade_risk_pct :: pyfloat
  sc_max_symbol_concentration_pct :: pyfloat
  sc_time_stop_sec :: int
  sc_slippage_widen_threshold_bps :: pyfloat

definition spa_defaults :: spa_config where
  "spa_defaults = \<lparr>sc_per_trade_risk_pct = 5 / 1000, sc_max_symbol_concentration_pct = 30 / 100,
     sc_time_stop_sec = 300, sc_slippage_widen_threshold_bps = 5\<rparr>"

text \<open>The entries of the candidate's dictionary that the agent reads.\<close>

record candidate_data =
  cd_symbol :: symbol
  cd_setup_type :: string
  cd_direction :: string
  cd_entry_price :: pyfloat
  cd_initial_stop :: pyfloat
  cd_tick :: "(string \<times> pyfloat) list"
  cd_reasoning :: string

text \<open>\<open>None\<close> as the candidate is a missing or empty dictionary.\<close>

record validated_payload =
  vp_signal_id :: "string option"
  vp_candidate :: "candidate_data option"

record spa =
  sa_signal_cache :: "(string \<times> validated_payload) list"
  sa_execution_quality :: "execution_summary option"

definition spa_init :: spa where
  "spa_init = \<lparr>sa_signal_cache = [], sa_execution_quality = None\<rparr>"

record spa_env =
  se_equity :: "string + pyfloat"
  se_approved_setups :: "approved_setup_list option"
  se_quality :: "execution_summary option"
  se_open_positions :: "position list"
  se_llm :: "string \<Rightarrow> string \<Rightarrow> string option"
  se_plan_id :: string
  se_now :: timestamp

datatype spa_effect =
    Publish_Plan trade_plan string
  | Audit_Plan_Published trade_plan
  | Audit_Plan_Rejected symbol string string
  | Audit_Averaging_Down_Blocked symbol string

datatype spa_event =
    Validated_Signal validated_payload
  | Execution_Quality "execution_summary option"
  | Risk_Decision string string symbol spa_env

definition parse_direction :: "string \<Rightarrow> direction option" where
  "parse_direction s =
     (if s = ''long'' then Some LONG else if s = ''short'' then Some SHORT else None)"

definition parse_setup :: "string \<Rightarrow> setup_type option" where
  "parse_setup s = find (\<lambda>ty. setup_value ty = s) all_setups"

section \<open>Costs and expectancy\<close>

definition sec_fee_rate :: pyfloat where
  "sec_fee_rate = 278 / 10000000"

definition finra_taf_rate :: pyfloat where
  "finra_taf_rate = 166 / 1000000"

definition slippage_degraded_factor :: pyfloat where
  "slippage_degraded_factor = 15 / 10"

definition quality_is_degraded :: "spa_config \<Rightarrow> execution_summary option \<Rightarrow> bool" where
  "quality_is_degraded cf q =
     (case q of
        None \<Rightarrow> False
      | Some q \<Rightarrow> es_quality_degraded q \<or>
          sc_slippage_widen_threshold_bps cf < es_avg_slippage_bps q)"

definition compute_cost_model ::
  "spa_config \<Rightarrow> execution_summary option \<Rightarrow> pyfloat \<Rightarrow> int \<Rightarrow> pyfloat \<Rightarrow> cost_model" where
  "compute_cost_model cf q entry_price shares spread_bps =
     (let sale_proceeds = entry_price * of_int shares;
          normal_slippage_per_share = spread_bps / 2 * entry_price / 10000;
          slippage_factor = (if quality_is_degraded cf q then slippage_degraded_factor else 1)
      in \<lparr>cm_commission = 0,
          cm_sec_fee = sec_fee_rate * sale_proceeds,
          cm_finra_taf = min (finra_taf_rate * of_int shares) (830 / 100),
          cm_estimated_slippage = normal_slippage_per_share * slippage_factor\<rparr>)"

definition compute_net_expectancy ::
  "approved_setup_list option \<Rightarrow> setup_type \<Rightarrow> cost_model \<Rightarrow> pyfloat option" where
  "compute_net_expectancy approved ty cost =
     (case approved of
        None \<Rightarrow> None
      | Some l \<Rightarrow>
          (case get_setup l ty of
             None \<Rightarrow> None
           | Some s \<Rightarrow>
               (let gross_ev = as_win_rate s * as_avg_win s - (1 - as_win_rate s) * as_avg_loss s
                in Some (gross_ev - total_cost_per_share cost))))"

section \<open>The invalidation reason\<close>

definition fallback_reason :: "symbol \<Rightarrow> string \<Rightarrow> string \<Rightarrow> pyfloat \<Rightarrow> string" where
  "fallback_reason sy setup_type direction stop_price =
     (if py_lower direction = ''long''
      then ''This trade is wrong if '' @ sy @ '' closes a 1-minute bar below $'' @ fmt_fixed 2 stop_price @
           '' on above-average volume, indicating sellers have overwhelmed the '' @ setup_type @
           '' structure.''
      else ''This trade is wrong if '' @ sy @ '' closes a 1-minute bar above $'' @ fmt_fixed 2 stop_price @
           '' on above-average volume, indicating buyers have reclaimed the '' @ setup_type @
           '' level.'')"

text \<open>
  The language model's reply to the two prompts, or its failure: a reply of white space
  counts as a failure, and a reply that does not start with the usual words gets them put
  in front.
\<close>

definition llm_invalidation_reason ::
  "string option \<Rightarrow> symbol \<Rightarrow> string \<Rightarrow> string \<Rightarrow> pyfloat \<Rightarrow> string" where
  "llm_invalidation_reason reply sy setup_type direction stop_price =
     (case reply of
        None \<Rightarrow> fallback_reason sy setup_type direction stop_price
      | Some text \<Rightarrow>
          (let why = py_strip text in
           if why = [] then fallback_reason sy setup_type direction stop_price
           else if prefix ''this trade'' (py_lower why) then why
           else ''This trade is wrong if '' @ py_strip (dropWhile (\<lambda>c. c = CHR ''.'') why)))"

section \<open>Building a plan\<close>

definition min_shares :: int where
  "min_shares = 1"

text \<open>\<open>min(floor(max_risk / risk_per_share), floor(equity * pct / entry_price))\<close>.\<close>

definition size_position :: "spa_config \<Rightarrow> pyfloat \<Rightarrow> pyfloat \<Rightarrow> pyfloat \<Rightarrow> int" where
  "size_position cf equity entry_price stop_price =
     (let risk_per_share = \<bar>entry_price - stop_price\<bar>;
          max_risk_dollars = equity * sc_per_trade_risk_pct cf
      in min \<lfloor>max_risk_dollars / risk_per_share\<rfloor>
             \<lfloor>equity * sc_max_symbol_concentration_pct cf / entry_price\<rfloor>)"

definition target_for :: "direction \<Rightarrow> pyfloat \<Rightarrow> pyfloat \<Rightarrow> pyfloat" where
  "target_for dir entry_price stop_price =
     (let risk_amount = \<bar>entry_price - stop_price\<bar>
      in if dir = LONG then entry_price + risk_amount * 2 else entry_price - risk_amount * 2)"

definition spread_of :: "(string \<times> pyfloat) list \<Rightarrow> pyfloat" where
  "spread_of tick = (case map_of tick ''spread_bps'' of None \<Rightarrow> 0 | Some b \<Rightarrow> b)"

text \<open>
  \<open>_build_plan\<close>: the plan, if one is built, with the audit records of the refusals; an
  exception of the equity callback leaves the function (\<open>Inl\<close>).
\<close>

definition build_plan ::
  "spa_config \<Rightarrow> spa_env \<Rightarrow> string \<Rightarrow> candidate_data \<Rightarrow> string + (trade_plan option \<times> spa_effect list)"
where
  "build_plan cf env signal_id c =
     (let sy = cd_symbol c; entry_price = cd_entry_price c; stop_price = cd_initial_stop c;
          refuse = (\<lambda>why. Inr (None, [Audit_Plan_Rejected sy signal_id why]))
      in case (parse_direction (cd_direction c), parse_setup (cd_setup_type c)) of
        (Some dir, Some ty) \<Rightarrow>
          if entry_price \<le> 0 \<or> stop_price \<le> 0 then Inr (None, [])
          else if list_ex (\<lambda>p. pos_symbol p = sy) (se_open_positions env)
          then Inr (None, [Audit_Averaging_Down_Blocked sy signal_id])
          else (case se_equity env of
              Inl exc \<Rightarrow> Inl exc
            | Inr equity \<Rightarrow>
                if equity \<le> 0 then Inr (None, [])
                else if \<bar>entry_price - stop_price\<bar> \<le> 0 then Inr (None, [])
                else
                  let shares = size_position cf equity entry_price stop_price in
                  if shares < min_shares then refuse ''shares below minimum''
                  else
                    let cost = compute_cost_model cf (se_quality env) entry_price shares
                                 (spread_of (cd_tick c)) in
                    (case compute_net_expectancy (se_approved_setups env) ty cost of
                       None \<Rightarrow> refuse (''setup_type '' @ cd_setup_type c @ '' not in approved setups'')
                     | Some net_ev \<Rightarrow>
                         if net_ev \<le> 0 then refuse ''non-positive net expectancy''
                         else
                           let risk = \<bar>entry_price - stop_price\<bar>;
                               why = llm_invalidation_reason (se_llm env signal_id (cd_reasoning c))
                                       sy (cd_setup_type c) (cd_direction c) stop_price
                           in case validate_plan
                                \<lparr>tp_plan_id = se_plan_id env, tp_signal_id = signal_id,
                                 tp_symbol = sy, tp_direction = dir, tp_entry_price = entry_price,
                                 tp_stop_price = stop_price,
                                 tp_target_price = target_for dir entry_price stop_price,
                                 tp_shares = shares, tp_time_stop_sec = sc_time_stop_sec cf,
                                 tp_invalidation_reason = why, tp_cost_model = cost,
                                 tp_net_expectancy = net_ev, tp_account_equity = equity,
                                 tp_risk_per_share = risk, tp_total_risk = risk * of_int shares,
                                 tp_worst_case_slippage = cm_estimated_slippage cost * of_int shares,
                                 tp_created_at = se_now env\<rparr> of
                                Inl e \<Rightarrow> refuse e
                              | Inr plan \<Rightarrow> Inr (Some plan, [])))
      | _ \<Rightarrow> Inr (None, []))"

section \<open>Handlers\<close>

text \<open>
  A full cache drops its oldest entry before the signal is stored, also when the signal is
  already in it.
\<close>

definition cache_signal :: "validated_payload \<Rightarrow> spa \<Rightarrow> spa" where
  "cache_signal v s =
     (if truthy (vp_signal_id v)
      then let cache = sa_signal_cache s;
               cache = (if 500 \<le> length cache then tl cache else cache)
           in s\<lparr>sa_signal_cache := AList.update (the (vp_signal_id v)) v cache\<rparr>
      else s)"

definition handle_risk_decision ::
  "spa_config \<Rightarrow> string \<Rightarrow> string \<Rightarrow> symbol \<Rightarrow> spa_env \<Rightarrow> spa \<Rightarrow> spa_effect list" where
  "handle_risk_decision cf decision signal_id sy env s =
     (if decision \<noteq> ''approved'' then []
      else if signal_id = [] \<or> sy = [] then []
      else
        (case map_of (sa_signal_cache s) signal_id of
           None \<Rightarrow> []
         | Some v \<Rightarrow>
             (case vp_candidate v of
                None \<Rightarrow> []
              | Some c \<Rightarrow>
                  (case build_plan cf env signal_id c of
                     Inl exc \<Rightarrow> [Audit_Plan_Rejected sy signal_id exc]
                   | Inr (None, out) \<Rightarrow> out
                   | Inr (Some plan, out) \<Rightarrow>
                       out @ [Publish_Plan plan signal_id, Audit_Plan_Published plan]))))"

fun spa_step :: "spa_config \<Rightarrow> spa \<Rightarrow> spa_event \<Rightarrow> spa" where
  "spa_step cf s (Validated_Signal v) = cache_signal v s"
| "spa_step cf s (Execution_Quality q) =
     (case q of None \<Rightarrow> s | Some q \<Rightarrow> s\<lparr>sa_execution_quality := Some q\<rparr>)"
| "spa_step cf s (Risk_Decision d i sy env) = s"

fun spa_emits :: "spa_config \<Rightarrow> spa \<Rightarrow> spa_event \<Rightarrow> spa_effect list" where
  "spa_emits cf s (Risk_Decision d i sy env) = handle_risk_decision cf d i sy env s"
| "spa_emits cf s e = []"

section \<open>The plan built\<close>

lemma size_position_bounds:
  assumes "0 < \<bar>entry - stop\<bar>" "0 < entry"
  shows "\<bar>entry - stop\<bar> * of_int (size_position cf equity entry stop)
           \<le> equity * sc_per_trade_risk_pct cf"
    and "entry * of_int (size_position cf equity entry stop)
           \<le> equity * sc_max_symbol_concentration_pct cf"
    and "equity * sc_per_trade_risk_pct cf
           < \<bar>entry - stop\<bar> * of_int (size_position cf equity entry stop + 1) \<or>
         equity * sc_max_symbol_concentration_pct cf
           < entry * of_int (size_position cf equity entry stop + 1)"
proof -
  let ?a = "equity * sc_per_trade_risk_pct cf / \<bar>entry - stop\<bar>"
  let ?b = "equity * sc_max_symbol_concentration_pct cf / entry"
  have n: "size_position cf equity entry stop = min \<lfloor>?a\<rfloor> \<lfloor>?b\<rfloor>"
    by (simp add: size_position_def)
  have le: "of_int (min \<lfloor>?a\<rfloor> \<lfloor>?b\<rfloor>) \<le> ?a" "of_int (min \<lfloor>?a\<rfloor> \<lfloor>?b\<rfloor>) \<le> ?b"
    by (meson floor_correct min.cobounded1 min.cobounded2 of_int_le_iff order_trans)+
  then show "\<bar>entry - stop\<bar> * of_int (size_position cf equity entry stop)
           \<le> equity * sc_per_trade_risk_pct cf"
    and "entry * of_int (size_position cf equity entry stop)
           \<le> equity * sc_max_symbol_concentration_pct cf"
    using assms by (simp_all add: n pos_le_divide_eq mult.commute)
  have "?a < of_int (\<lfloor>?a\<rfloor> + 1)" "?b < of_int (\<lfloor>?b\<rfloor> + 1)" by linarith+
  then have up: "equity * sc_per_trade_risk_pct cf < \<bar>entry - stop\<bar> * of_int (\<lfloor>?a\<rfloor> + 1)"
    "equity * sc_max_symbol_concentration_pct cf < entry * of_int (\<lfloor>?b\<rfloor> + 1)"
    using assms by (simp_all only: pos_divide_less_eq mult.commute)
  have "min \<lfloor>?a\<rfloor> \<lfloor>?b\<rfloor> = \<lfloor>?a\<rfloor> \<or> min \<lfloor>?a\<rfloor> \<lfloor>?b\<rfloor> = \<lfloor>?b\<rfloor>" by linarith
  then show "equity * sc_per_trade_risk_pct cf
           < \<bar>entry - stop\<bar> * of_int (size_position cf equity entry stop + 1) \<or>
         equity * sc_max_symbol_concentration_pct cf
           < entry * of_int (size_position cf equity entry stop + 1)"
    using up unfolding n by metis
qed

lemma build_plan_Some:
  assumes "build_plan cf env i c = Inr (Some p, out)"
  obtains equity ty where "out = []" "se_equity env = Inr equity" "0 < equity"
    "parse_direction (cd_direction c) = Some (tp_direction p)"
    "parse_setup (cd_setup_type c) = Some ty"
    "0 < cd_entry_price c" "0 < cd_initial_stop c" "0 < \<bar>cd_entry_price c - cd_initial_stop c\<bar>"
    "cd_symbol c \<notin> pos_symbol ` set (se_open_positions env)"
    "tp_plan_id p = se_plan_id env" "tp_signal_id p = i" "tp_symbol p = cd_symbol c"
    "tp_entry_price p = cd_entry_price c" "tp_stop_price p = cd_initial_stop c"
    "tp_target_price p = target_for (tp_direction p) (cd_entry_price c) (cd_initial_stop c)"
    "tp_shares p = size_position cf equity (cd_entry_price c) (cd_initial_stop c)"
    "1 \<le> tp_shares p" "tp_account_equity p = equity"
    "tp_cost_model p = compute_cost_model cf (se_quality env) (cd_entry_price c) (tp_shares p)
       (spread_of (cd_tick c))"
    "compute_net_expectancy (se_approved_setups env) ty (tp_cost_model p)
       = Some (tp_net_expectancy p)"
    "0 < tp_net_expectancy p"
    "tp_risk_per_share p = \<bar>cd_entry_price c - cd_initial_stop c\<bar>"
    "tp_total_risk p = tp_risk_per_share p * of_int (tp_shares p)"
    "tp_worst_case_slippage p = cm_estimated_slippage (tp_cost_model p) * of_int (tp_shares p)"
    "tp_time_stop_sec p = sc_time_stop_sec cf"
proof -
  note splits = option.splits sum.splits if_splits
  from assms obtain dir ty where d: "parse_direction (cd_direction c) = Some dir"
    "parse_setup (cd_setup_type c) = Some ty"
    by (auto simp: build_plan_def Let_def split: option.splits)
  from assms d obtain equity where e: "se_equity env = Inr equity"
    by (auto simp: build_plan_def Let_def split: splits)
  let ?n = "size_position cf equity (cd_entry_price c) (cd_initial_stop c)"
  let ?cost = "compute_cost_model cf (se_quality env) (cd_entry_price c) ?n (spread_of (cd_tick c))"
  from assms d e obtain ev where v: "compute_net_expectancy (se_approved_setups env) ty ?cost = Some ev"
    by (auto simp: build_plan_def Let_def split: splits)
  note simps = build_plan_def Let_def d e v validate_plan_def min_shares_def list_ex_iff
  from assms have "0 < ev" and "0 < equity" and "0 < cd_entry_price c" and "0 < cd_initial_stop c"
    and "0 < \<bar>cd_entry_price c - cd_initial_stop c\<bar>" and "1 \<le> ?n" and o: "out = []"
    and fresh: "cd_symbol c \<notin> pos_symbol ` set (se_open_positions env)"
    by (auto simp: simps split: if_splits)
  moreover from assms have
    "p = \<lparr>tp_plan_id = se_plan_id env, tp_signal_id = i,
       tp_symbol = cd_symbol c, tp_direction = dir, tp_entry_price = cd_entry_price c,
       tp_stop_price = cd_initial_stop c,
       tp_target_price = target_for dir (cd_entry_price c) (cd_initial_stop c),
       tp_shares = ?n, tp_time_stop_sec = sc_time_stop_sec cf,
       tp_invalidation_reason = llm_invalidation_reason (se_llm env i (cd_reasoning c))
          (cd_symbol c) (cd_setup_type c) (cd_direction c) (cd_initial_stop c),
       tp_cost_model = ?cost,
       tp_net_expectancy = ev, tp_account_equity = equity,
       tp_risk_per_share = \<bar>cd_entry_price c - cd_initial_stop c\<bar>,
       tp_total_risk = \<bar>cd_entry_price c - cd_initial_stop c\<bar> * of_int ?n,
       tp_worst_case_slippage = cm_estimated_slippage ?cost * of_int ?n,
       tp_created_at = se_now env\<rparr>"
    by (auto simp: simps split: if_splits)
  ultimately show thesis using that d e v by simp
qed

lemma published_plan:
  assumes "Publish_Plan p i \<in> set (spa_emits cf s (Risk_Decision d j sy env))"
  obtains v c where "d = ''approved''" "i = j" "j \<noteq> []" "sy \<noteq> []"
    "map_of (sa_signal_cache s) j = Some v" "vp_candidate v = Some c"
    "build_plan cf env j c = Inr (Some p, [])"
proof -
  from assms obtain v c where h: "d = ''approved''" "j \<noteq> []" "sy \<noteq> []"
    "map_of (sa_signal_cache s) j = Some v" "vp_candidate v = Some c"
    by (cases "map_of (sa_signal_cache s) j")
       (auto simp: handle_risk_decision_def split: if_splits option.splits, metis)
  have "i = j \<and> build_plan cf env j c = Inr (Some p, [])"
  proof (cases "build_plan cf env j c")
    case (Inl e)
    with assms h show ?thesis by (simp add: handle_risk_decision_def)
  next
    case (Inr r)
    show ?thesis
    proof (cases r)
      case (Pair o_plan out)
      have "Publish_Plan p i \<notin> set out" if "o_plan = None"
        using Inr Pair that
        by (auto simp: build_plan_def Let_def split: option.splits sum.splits if_splits)
      moreover have "out = []" if "o_plan = Some q" for q
        using Inr Pair that by (auto elim: build_plan_Some)
      ultimately show ?thesis
        using assms h Inr Pair by (cases o_plan) (auto simp: handle_risk_decision_def)
    qed
  qed
  with h that show thesis by blast
qed

text \<open>
  C19. Every plan that the agent publishes stays within its limits: it is for the signal of an
  approved decision whose symbol has no open position; the number of shares is at least one
  and the largest whose risk stays within the share of the equity a trade may lose and whose
  value stays within the share a symbol may take; the target lies twice the risk away on the
  side of the direction; and the expectancy after costs is positive.
\<close>

theorem plan_within_limits:
  assumes "Publish_Plan p i \<in> set (spa_emits cf s (Risk_Decision d j sy env))"
  shows "d = ''approved'' \<and> i = j \<and> tp_signal_id p = j \<and>
    tp_symbol p \<notin> pos_symbol ` set (se_open_positions env) \<and>
    se_equity env = Inr (tp_account_equity p) \<and> 0 < tp_account_equity p \<and>
    tp_risk_per_share p = \<bar>tp_entry_price p - tp_stop_price p\<bar> \<and> 0 < tp_risk_per_share p \<and>
    1 \<le> tp_shares p \<and> tp_total_risk p = tp_risk_per_share p * of_int (tp_shares p) \<and>
    tp_total_risk p \<le> tp_account_equity p * sc_per_trade_risk_pct cf \<and>
    tp_entry_price p * of_int (tp_shares p)
      \<le> tp_account_equity p * sc_max_symbol_concentration_pct cf \<and>
    (tp_account_equity p * sc_per_trade_risk_pct cf
       < tp_risk_per_share p * of_int (tp_shares p + 1) \<or>
     tp_account_equity p * sc_max_symbol_concentration_pct cf
       < tp_entry_price p * of_int (tp_shares p + 1)) \<and>
    tp_target_price p = tp_entry_price p
      + (if tp_direction p = LONG then 2 else - 2) * tp_risk_per_share p \<and>
    0 < tp_net_expectancy p"
proof -
  obtain c where h: "d = ''approved''" "i = j" "build_plan cf env j c = Inr (Some p, [])"
    using assms by (rule published_plan)
  show ?thesis
  proof (rule build_plan_Some [OF h(3)], goal_cases)
    case (1 equity ty)
    then show ?case
      using h(1,2) size_position_bounds [where entry = "cd_entry_price c" and stop = "cd_initial_stop c" and cf = cf and equity = equity]
      by (simp add: target_for_def Let_def image_iff mult.commute)
  qed
qed

definition demo_setup :: approved_setup where
  "demo_setup = \<lparr>as_setup_type = BREAKOUT, as_expectancy = 30 / 100, as_win_rate = 60 / 100,
     as_avg_win = 1, as_avg_loss = 50 / 100, as_sample_count = 200, as_oos_validated = True,
     as_allowed_regimes = [TREND_DAY], as_last_validated = 0, as_rolling_expectancy = None,
     as_retired = False, as_retire_reason = None\<rparr>"

definition demo_quality :: execution_summary where
  "demo_quality = \<lparr>es_session_date = ''2024-05-01'', es_total_orders = 20, es_fill_rate = 1,
     es_avg_slippage_bps = 12, es_p50_latency_ms = 20, es_p95_latency_ms = 60,
     es_p99_latency_ms = 90, es_rejection_rate = 0, es_quality_degraded = True,
     es_generated_at = 0\<rparr>"

definition demo_env :: "pyfloat \<Rightarrow> spa_env" where
  "demo_env equity = \<lparr>se_equity = Inr equity,
     se_approved_setups = Some \<lparr>al_setups = [demo_setup], al_version = 1,
        al_effective_session = None, al_generated_at = 0\<rparr>,
     se_quality = Some demo_quality, se_open_positions = [],
     se_llm = (\<lambda>i r. Some '' below the opening range''), se_plan_id = ''plan-1'', se_now = 7\<rparr>"

definition demo_tick :: market_tick where
  "demo_tick = \<lparr>mt_symbol = ''AAPL'', mt_timestamp = 1, mt_bid = 9998 / 100,
     mt_ask = 10002 / 100, mt_last = 100, mt_volume = 500, mt_sequence = 3\<rparr>"

definition demo_candidate :: candidate_data where
  "demo_candidate = \<lparr>cd_symbol = ''AAPL'', cd_setup_type = ''breakout'', cd_direction = ''long'',
     cd_entry_price = 100, cd_initial_stop = 99, cd_tick = tick_dump demo_tick,
     cd_reasoning = ''above range''\<rparr>"

definition demo_signal :: spa_event where
  "demo_signal = Validated_Signal \<lparr>vp_signal_id = Some ''s1'', vp_candidate = Some demo_candidate\<rparr>"

definition demo_plan :: "pyfloat \<Rightarrow> trade_plan option" where
  "demo_plan equity =
     (case spa_emits spa_defaults (spa_step spa_defaults spa_init demo_signal)
             (Risk_Decision ''approved'' ''s1'' ''AAPL'' (demo_env equity)) of
        Publish_Plan p i # _ \<Rightarrow> Some p
      | _ \<Rightarrow> None)"

theorem plan_within_limits_witness:
  "Publish_Plan (the (demo_plan 30000)) ''s1''
     \<in> set (spa_emits spa_defaults (spa_step spa_defaults spa_init demo_signal)
              (Risk_Decision ''approved'' ''s1'' ''AAPL'' (demo_env 30000))) \<and>
   tp_shares (the (demo_plan 30000)) = 90 \<and> 90 \<le> 30000 * (5 / 1000 :: real)"
proof -
  have m: "Publish_Plan (the (demo_plan 30000)) ''s1''
     \<in> set (spa_emits spa_defaults (spa_step spa_defaults spa_init demo_signal)
              (Risk_Decision ''approved'' ''s1'' ''AAPL'' (demo_env 30000)))"
    by code_simp
  moreover have "tp_shares (the (demo_plan 30000)) = 90" by code_simp
  ultimately show ?thesis using plan_within_limits [OF m] by simp
qed

section \<open>The cache of signals\<close>

definition spa_cache_ok :: "spa \<Rightarrow> bool" where
  "spa_cache_ok s \<longleftrightarrow> distinct (map fst (sa_signal_cache s)) \<and> length (sa_signal_cache s) \<le> 500 \<and>
     list_all (\<lambda>(i, v). vp_signal_id v = Some i \<and> i \<noteq> []) (sa_signal_cache s)"

lemma cache_signal_ok: "spa_cache_ok s \<Longrightarrow> spa_cache_ok (cache_signal v s)"
proof (cases "truthy (vp_signal_id v)")
  case True
  assume ok: "spa_cache_ok s"
  let ?c = "if 500 \<le> length (sa_signal_cache s) then tl (sa_signal_cache s) else sa_signal_cache s"
  have "distinct (map fst ?c)" "length ?c < 500" and
    "list_all (\<lambda>(i, v). vp_signal_id v = Some i \<and> i \<noteq> []) ?c"
    using ok by (auto simp: spa_cache_ok_def map_tl distinct_tl intro: list_all_tl)
  then show ?thesis
    using True length_update_le [of "the (vp_signal_id v)" v ?c]
    by (cases "vp_signal_id v")
       (auto simp: spa_cache_ok_def cache_signal_def Let_def distinct_update intro!: list_all_update)
qed (simp add: cache_signal_def)

interpretation spa_cache: inv_machine "spa_step cf" spa_cache_ok
proof unfold_locales
  show "spa_cache_ok s \<Longrightarrow> spa_cache_ok (spa_step cf s e)" for s e
  proof (cases e)
    case (Validated_Signal v)
    then show "spa_cache_ok s \<Longrightarrow> ?thesis" by (simp add: cache_signal_ok)
  qed (auto simp: spa_cache_ok_def split: option.splits)
qed

text \<open>
  Over any run the cache of validated signals holds at most 500 signals, each once and
  under its own non-empty identifier, and a decision is made up from the very signal it names:
  what is found under an identifier carries that identifier.
\<close>

theorem signal_cache_bounded:
  fixes cf :: spa_config and es :: "spa_event list"
  defines "s \<equiv> foldl (spa_step cf) spa_init es"
  shows "length (sa_signal_cache s) \<le> 500 \<and> distinct (map fst (sa_signal_cache s)) \<and>
    (case map_of (sa_signal_cache s) i of None \<Rightarrow> True | Some v \<Rightarrow> vp_signal_id v = Some i)"
proof -
  have "spa_cache_ok s"
    unfolding s_def by (rule spa_cache.run_inv) (simp add: spa_cache_ok_def spa_init_def)
  then show ?thesis
    by (auto simp: spa_cache_ok_def list_all_iff split: option.splits dest: map_of_SomeD)
qed

section \<open>Slippage\<close>

text \<open>
  The messages of the bus: a signal published by the validation agent, whose tick is the dump
  of a \<open>MarketTick\<close>, or a quality summary.
\<close>

definition bus_signal :: "string \<times> candidate_data \<times> market_tick \<Rightarrow> spa_event" where
  "bus_signal m = (case m of (i, c, t) \<Rightarrow>
     Validated_Signal \<lparr>vp_signal_id = Some i, vp_candidate = Some (c\<lparr>cd_tick := tick_dump t\<rparr>)\<rparr>)"

definition bus_event ::
  "(string \<times> candidate_data \<times> market_tick) + execution_summary option \<Rightarrow> spa_event" where
  "bus_event m = (case m of Inl x \<Rightarrow> bus_signal x | Inr q \<Rightarrow> Execution_Quality q)"

lemma spread_of_dump: "spread_of (tick_dump t) = 0"
  by (simp add: spread_of_def tick_dump_def)

lemma no_spread_no_slippage:
  "compute_cost_model cf q entry n 0 = compute_cost_model cf q' entry n 0"
  by (simp add: compute_cost_model_def)

definition dumped :: "validated_payload \<Rightarrow> bool" where
  "dumped v \<longleftrightarrow> (case vp_candidate v of None \<Rightarrow> True | Some c \<Rightarrow> spread_of (cd_tick c) = 0)"

lemma dumped_cache:
  "list_all (\<lambda>(i, v). dumped v) (sa_signal_cache (foldl (spa_step cf) spa_init (map bus_event ms)))"
proof (induction ms rule: rev_induct)
  case Nil
  then show ?case by (simp add: spa_init_def)
next
  case (snoc m ms)
  let ?s = "foldl (spa_step cf) spa_init (map bus_event ms)"
  show ?case
  proof (cases m)
    case (Inl x)
    then show ?thesis
      using snoc by (cases x)
        (auto simp: bus_event_def bus_signal_def cache_signal_def Let_def dumped_def spread_of_dump
          intro!: list_all_update list_all_tl)
  next
    case (Inr q)
    then show ?thesis using snoc by (cases q) (simp_all add: bus_event_def)
  qed
qed

lemma build_plan_quality_irrelevant:
  "spread_of (cd_tick c) = 0 \<Longrightarrow>
   build_plan cf (env\<lparr>se_quality := q\<rparr>) i c = build_plan cf env i c"
  by (simp add: build_plan_def Let_def no_spread_no_slippage [of cf q _ _ None]
      no_spread_no_slippage [of cf "se_quality env" _ _ None]
      cong: if_cong option.case_cong sum.case_cong)

text \<open>
  The execution quality never reaches a plan: whatever messages came over the bus, the
  agent's reaction to a decision is the same under every quality summary, because the
  dumped tick of a signal has no spread entry, and half of no spread widened by any factor is
  nothing.
\<close>

theorem degraded_quality_never_widens:
  fixes cf :: spa_config and ms :: "((string \<times> candidate_data \<times> market_tick) + execution_summary option) list"
  defines "s \<equiv> foldl (spa_step cf) spa_init (map bus_event ms)"
  shows "spa_emits cf s (Risk_Decision d j sy (env\<lparr>se_quality := q\<rparr>)) =
         spa_emits cf s (Risk_Decision d j sy env)"
proof -
  have "build_plan cf (env\<lparr>se_quality := q\<rparr>) j c = build_plan cf env j c"
    if "map_of (sa_signal_cache s) j = Some v" "vp_candidate v = Some c" for v c
    using that dumped_cache [of cf ms] unfolding s_def
    by (intro build_plan_quality_irrelevant) (auto simp: list_all_iff dumped_def dest!: map_of_SomeD)
  then show ?thesis
    by (auto simp: handle_risk_decision_def split: option.splits)
qed

section \<open>Fees\<close>

text \<open>
  The regulatory fees of the whole trade are subtracted from the expectancy of one share:
  for every setup, price, spread and quality there is a size from which on the expectancy is
  not positive, so that no setup, however good, is traded above it.
\<close>

theorem no_setup_pays_for_large_trades:
  assumes "0 < entry" and "0 \<le> spread_bps"
  shows "\<exists>n. \<forall>m \<ge> n. case compute_net_expectancy approved ty
      (compute_cost_model cf q entry m spread_bps) of None \<Rightarrow> True | Some ev \<Rightarrow> ev \<le> 0"
proof (cases "approved")
  case None
  then show ?thesis by (simp add: compute_net_expectancy_def)
next
  case (Some l)
  show ?thesis
  proof (cases "get_setup l ty")
    case None
    with Some show ?thesis by (simp add: compute_net_expectancy_def)
  next
    case (Some a)
    let ?g = "as_win_rate a * as_avg_win a - (1 - as_win_rate a) * as_avg_loss a"
    let ?n = "max 0 \<lceil>?g / (sec_fee_rate * entry)\<rceil>"
    have pos: "0 < sec_fee_rate * entry" using assms by (simp add: sec_fee_rate_def)
    have "?g - total_cost_per_share (compute_cost_model cf q entry m spread_bps) \<le> 0" if "?n \<le> m" for m
    proof -
      have "?g / (sec_fee_rate * entry) \<le> of_int m" "0 \<le> m" using that by linarith+
      then have "?g \<le> sec_fee_rate * entry * of_int m" using pos by (simp add: pos_divide_le_eq mult.commute)
      moreover have "0 \<le> min (finra_taf_rate * of_int m) (830 / 100)" using \<open>0 \<le> m\<close>
        by (simp add: finra_taf_rate_def)
      moreover have "0 \<le> spread_bps / 2 * entry / 10000 * f" if "0 \<le> f" for f
        using assms that by simp
      then have "0 \<le> spread_bps / 2 * entry / 10000
          * (if quality_is_degraded cf q then slippage_degraded_factor else 1)"
        by (simp add: slippage_degraded_factor_def)
      ultimately show ?thesis
        by (simp add: total_cost_per_share_def compute_cost_model_def Let_def mult.assoc)
    qed
    then show ?thesis
      using \<open>approved = Some l\<close> Some by (auto simp: compute_net_expectancy_def Let_def intro!: exI [of _ ?n])
  qed
qed

theorem no_setup_pays_for_large_trades_witness:
  "(\<exists>m. case compute_net_expectancy (se_approved_setups (demo_env 30000)) BREAKOUT
      (compute_cost_model spa_defaults None 100 m 4) of None \<Rightarrow> True | Some ev \<Rightarrow> ev \<le> 0) \<and>
   demo_plan 30000 \<noteq> None \<and> demo_plan 1000000 = None"
proof -
  have "demo_plan 30000 \<noteq> None" "demo_plan 1000000 = None" by code_simp+
  then show ?thesis
    using no_setup_pays_for_large_trades [where entry = 100 and spread_bps = 4
        and approved = "se_approved_setups (demo_env 30000)" and ty = BREAKOUT
        and cf = spa_defaults and q = None]
    by auto
qed

end
