(* ===== verification/Execution.thy ===== *)
theory Execution
  imports Brokers
begin

text \<open>
  The execution agent of \<open>agents/agent_08_execution.py\<close> (class \<open>ExecutionAgent\<close>): the
  reconciliation gate, the six gates a plan passes before its bracket order goes to the broker,
  the poll of the open orders, the fill event, and the time-out of an order. The answers of the
  broker and of the data feed are arguments (\<open>Inl\<close> or \<open>Fetch_Failed\<close> for an exception), and
  so are the generated identifiers and the clock. Everything a handler sends to the broker,
  stores, audits or publishes is an element of the list it emits, in the order of the calls. A
  handler, a poll and a time-out each run to their end before the next one; an order object is
  named by its \<open>order_id\<close>. The optional order router only logs its choice, and is left out.
\<close>

section \<open>State, answers and effects\<close>

record ea_config =
  xc_max_spread_bps :: pyfloat
  xc_max_price_chase_bps :: pyfloat
  xc_order_timeout_sec :: int

definition ea_defaults :: ea_config where
  "ea_defaults = \<lparr>xc_max_spread_bps = 20, xc_max_price_chase_bps = 10, xc_order_timeout_sec = 30\<rparr>"

record ea =
  ea_reconciliation_clean :: bool
  ea_pending :: "(symbol \<times> order) list"
  ea_timeout_tasks :: "string list"
  ea_quality_degraded :: bool

definition ea_init :: ea where
  "ea_init = \<lparr>ea_reconciliation_clean = False, ea_pending = [], ea_timeout_tasks = [],
     ea_quality_degraded = False\<rparr>"

record plan_env =
  pe_account :: "string + account_info"
  pe_tick :: "string + market_tick option"
  pe_submit :: "string + string"
  pe_order_id :: string
  pe_now :: timestamp

datatype fetched = Fetch_Failed | Fetch_None | Fetched broker_order

record poll_env =
  po_open_orders_ok :: bool
  po_order :: "string \<Rightarrow> fetched"
  po_fill_id :: "string \<Rightarrow> string"
  po_now :: timestamp

record timeout_env =
  te_order :: fetched
  te_cancel :: "string + bool"
  te_now :: timestamp

datatype ea_event =
    Ea_Reconciliation string "string list"
  | Ea_Quality bool
  | Ea_Plan trade_plan plan_env
  | Ea_Poll poll_env
  | Ea_Timeout symbol string timeout_env

datatype ea_effect =
    Audit_Gate_Closed "string list"
  | Audit_Blocked_Recon symbol string
  | Audit_Blocked_Buying_Power symbol string pyfloat pyfloat
  | Audit_Blocked_Chase symbol string pyfloat pyfloat
  | Broker_Submit_Bracket symbol order_side int pyfloat pyfloat pyfloat string
  | Audit_Submission_Failed symbol string string
  | Raise_Error trading_error
  | Raise_Zero_Division
  | Save_Order order
  | Audit_Order_Submitted order trade_plan
  | Publish_Order_Submitted order trade_plan string
  | Start_Timeout string int
  | Publish_Order_Update order
  | Audit_Order_Filled string symbol pyfloat int
  | Publish_Fill fill_event
  | Cancel_Timeout string
  | Audit_Order_Ended order_status symbol string
  | Broker_Cancel string
  | Audit_Timeout_Cancelled symbol string int

section \<open>Reconciliation and quality\<close>

definition handle_reconciliation :: "string \<Rightarrow> string list \<Rightarrow> ea \<Rightarrow> ea \<times> ea_effect list" where
  "handle_reconciliation status discrepancies s =
     (if status = ''clean'' then (s\<lparr>ea_reconciliation_clean := True\<rparr>, [])
      else if status = ''mismatch''
      then (s\<lparr>ea_reconciliation_clean := False\<rparr>, [Audit_Gate_Closed discrepancies])
      else (s, []))"

section \<open>The gates and the submission\<close>

text \<open>
  Gate 4 and 5: the spread and the distance of the price from the plan's, when a tick could be
  read. The division of gate 5 is by the plan's entry price, \<open>None\<close> is its failure.
\<close>

definition spread_too_wide :: "ea_config \<Rightarrow> string + market_tick option \<Rightarrow> bool" where
  "spread_too_wide cf r =
     (case r of Inr (Some t) \<Rightarrow> xc_max_spread_bps cf < tick_spread_bps t | _ \<Rightarrow> False)"

definition chase_bps :: "trade_plan \<Rightarrow> string + market_tick option \<Rightarrow> pyfloat option" where
  "chase_bps p r =
     (case r of
        Inr (Some t) \<Rightarrow>
          if tp_entry_price p = 0 then None
          else Some (\<bar>tick_mid t - tp_entry_price p\<bar> / tp_entry_price p * 10000)
      | _ \<Rightarrow> Some 0)"

definition plan_side :: "trade_plan \<Rightarrow> order_side" where
  "plan_side p = (if tp_direction p = LONG then BUY else SELL_SHORT)"

definition plan_order :: "trade_plan \<Rightarrow> plan_env \<Rightarrow> order" where
  "plan_order p pe = \<lparr>or_order_id = pe_order_id pe, or_broker_order_id = None,
     or_plan_id = tp_plan_id p, or_symbol = tp_symbol p, or_side = plan_side p,
     or_order_type = OT_BRACKET, or_qty = tp_shares p, or_limit_price = Some (tp_entry_price p),
     or_stop_price = Some (tp_stop_price p), or_time_in_force = TIF_DAY, or_status = OS_PENDING,
     or_filled_qty = 0, or_avg_fill_price = None, or_submitted_at = Some (pe_now pe),
     or_filled_at = None, or_cancelled_at = None, or_reject_reason = None\<rparr>"

definition submit_plan :: "ea_config \<Rightarrow> trade_plan \<Rightarrow> plan_env \<Rightarrow> ea \<Rightarrow> ea \<times> ea_effect list" where
  "submit_plan cf p pe s =
     (let sy = tp_symbol p;
          call = Broker_Submit_Bracket sy (plan_side p) (tp_shares p) (tp_entry_price p)
                   (tp_stop_price p) (tp_target_price p) (pe_order_id pe)
      in case pe_submit pe of
           Inl e \<Rightarrow> (s, [call, Audit_Submission_Failed sy (tp_plan_id p) e,
                        Raise_Error (Order_Submission_Error sy e)])
         | Inr broker_id \<Rightarrow>
             (let o' = (plan_order p pe)\<lparr>or_broker_order_id := Some broker_id,
                                       or_status := OS_SUBMITTED\<rparr>
              in (s\<lparr>ea_pending := AList.update sy o' (ea_pending s),
                    ea_timeout_tasks := ea_timeout_tasks s @ [or_order_id o']\<rparr>,
                  [call, Save_Order o', Audit_Order_Submitted o' p,
                   Publish_Order_Submitted o' p (tp_signal_id p),
                   Start_Timeout (or_order_id o') (xc_order_timeout_sec cf)])))"

definition handle_trade_plan ::
  "ea_config \<Rightarrow> trade_plan \<Rightarrow> plan_env \<Rightarrow> ea \<Rightarrow> ea \<times> ea_effect list" where
  "handle_trade_plan cf p pe s =
     (case validate_plan p of
        Inl _ \<Rightarrow> (s, [])
      | Inr p \<Rightarrow>
          (let sy = tp_symbol p in
           if \<not> ea_reconciliation_clean s then (s, [Audit_Blocked_Recon sy (tp_plan_id p)])
           else if list_ex (\<lambda>(k, _). k = sy) (ea_pending s) then (s, [])
           else (case pe_account pe of
               Inl _ \<Rightarrow> (s, [])
             | Inr account \<Rightarrow>
                 let order_value = tp_entry_price p * of_int (tp_shares p) in
                 if ai_buying_power account < order_value
                 then (s, [Audit_Blocked_Buying_Power sy (tp_plan_id p) order_value
                             (ai_buying_power account)])
                 else if spread_too_wide cf (pe_tick pe) then (s, [])
                 else (case chase_bps p (pe_tick pe) of
                     None \<Rightarrow> (s, [Raise_Zero_Division])
                   | Some chase \<Rightarrow>
                       if xc_max_price_chase_bps cf < chase
                       then (s, [Audit_Blocked_Chase sy (tp_plan_id p) (py_round chase 2)
                                   (xc_max_price_chase_bps cf)])
                       else if tp_stop_price p \<le> 0
                       then (s, [Raise_Error (Position_Without_Stop_Error sy)])
                       else submit_plan cf p pe s))))"

section \<open>The poll\<close>

definition status_map :: "string \<rightharpoonup> order_status" where
  "status_map = map_of
     [(''PENDING'', OS_PENDING), (''SUBMITTED'', OS_SUBMITTED), (''ACCEPTED'', OS_SUBMITTED),
      (''PARTIALLY_FILLED'', OS_PARTIALLY_FILLED), (''FILLED'', OS_FILLED),
      (''CANCELLED'', OS_CANCELLED), (''CANCELED'', OS_CANCELLED),
      (''REJECTED'', OS_REJECTED), (''EXPIRED'', OS_EXPIRED)]"

definition new_status :: "broker_order \<Rightarrow> order \<Rightarrow> order_status" where
  "new_status b o' = (case status_map (py_upper (bo_status b)) of None \<Rightarrow> or_status o' | Some st \<Rightarrow> st)"

definition order_after :: "broker_order \<Rightarrow> order \<Rightarrow> order" where
  "order_after b o' = o'\<lparr>or_status := new_status b o', or_filled_qty := bo_filled_qty b,
     or_avg_fill_price := (if bo_avg_fill_price b = None then or_avg_fill_price o' else bo_avg_fill_price b),
     or_filled_at := (if bo_filled_at b = None then or_filled_at o' else bo_filled_at b)\<rparr>"

definition fill_of :: "poll_env \<Rightarrow> order \<Rightarrow> fill_event" where
  "fill_of pe o' = \<lparr>fe_fill_id = po_fill_id pe (or_order_id o'), fe_order_id = or_order_id o',
     fe_symbol = or_symbol o', fe_qty = or_filled_qty o',
     fe_price = (case or_avg_fill_price o' of None \<Rightarrow> 0 | Some x \<Rightarrow> x), fe_side = or_side o',
     fe_filled_at = (case or_filled_at o' of None \<Rightarrow> po_now pe | Some t \<Rightarrow> t)\<rparr>"

definition handle_fill :: "poll_env \<Rightarrow> order \<Rightarrow> ea_effect list" where
  "handle_fill pe o' =
     (let f = fill_of pe o'
      in [Audit_Order_Filled (or_order_id o') (or_symbol o') (fe_price f) (fe_qty f), Publish_Fill f])"

text \<open>
  One pending order of the poll: the order as it is afterwards, what is emitted, and whether
  its symbol is to be removed.
\<close>

definition poll_order :: "poll_env \<Rightarrow> string list \<Rightarrow> order \<Rightarrow> order \<times> ea_effect list \<times> bool" where
  "poll_order pe tasks o' =
     (if \<not> truthy (or_broker_order_id o') then (o', [], False)
      else
        (case po_order pe (the (or_broker_order_id o')) of
           Fetched b \<Rightarrow>
             if new_status b o' = or_status o' \<and> bo_filled_qty b = or_filled_qty o'
             then (o', [], False)
             else
               let n = order_after b o'; st = new_status b o';
                   cancel = (if or_order_id o' \<in> set tasks then [Cancel_Timeout (or_order_id o')] else []);
                   out = [Save_Order n, Publish_Order_Update n]
               in if st = OS_FILLED \<and> or_status o' \<noteq> OS_FILLED
                  then (n, out @ handle_fill pe n @ cancel, True)
                  else if st \<in> set [OS_CANCELLED, OS_REJECTED, OS_EXPIRED]
                  then (n, out @ cancel @ [Audit_Order_Ended st (or_symbol n) (or_order_id n)], True)
                  else (n, out, False)
         | _ \<Rightarrow> (o', [], False)))"

definition poll_open_orders :: "poll_env \<Rightarrow> ea \<Rightarrow> ea \<times> ea_effect list" where
  "poll_open_orders pe s =
     (if ea_pending s = [] \<or> \<not> po_open_orders_ok pe then (s, [])
      else
        let polled = map (\<lambda>(sy, o'). (sy, poll_order pe (ea_timeout_tasks s) o')) (ea_pending s);
            ended = map (\<lambda>(sy, n, out, gone). or_order_id n) (filter (\<lambda>(sy, n, out, gone). gone) polled)
        in (s\<lparr>ea_pending := map (\<lambda>(sy, n, out, gone). (sy, n))
                              (filter (\<lambda>(sy, n, out, gone). \<not> gone) polled),
              ea_timeout_tasks := filter (\<lambda>i. i \<notin> set ended) (ea_timeout_tasks s)\<rparr>,
            concat (map (\<lambda>(sy, n, out, gone). out) polled)))"

section \<open>The time-out\<close>

definition broker_says_ended :: "fetched \<Rightarrow> bool" where
  "broker_says_ended r =
     (case r of
        Fetched b \<Rightarrow> py_upper (bo_status b) \<in> set [''FILLED'', ''CANCELLED'', ''CANCELED'', ''REJECTED'']
      | _ \<Rightarrow> False)"

definition order_timeout ::
  "ea_config \<Rightarrow> symbol \<Rightarrow> string \<Rightarrow> timeout_env \<Rightarrow> ea \<Rightarrow> ea \<times> ea_effect list" where
  "order_timeout cf sy order_id te s =
     (case map_of (ea_pending s) sy of
        None \<Rightarrow> (s, [])
      | Some o' \<Rightarrow>
          if or_order_id o' \<noteq> order_id then (s, [])
          else if broker_says_ended (te_order te) then (s, [])
          else
            let n = o'\<lparr>or_status := OS_CANCELLED, or_cancelled_at := Some (te_now te)\<rparr>
            in (s\<lparr>ea_pending := AList.delete sy (ea_pending s)\<rparr>,
                (if truthy (or_broker_order_id o') then [Broker_Cancel (the (or_broker_order_id o'))]
                 else []) @
                [Save_Order n, Audit_Timeout_Cancelled sy order_id (xc_order_timeout_sec cf),
                 Publish_Order_Update n]))"

section \<open>The agent\<close>

fun ea_act :: "ea_config \<Rightarrow> ea \<Rightarrow> ea_event \<Rightarrow> ea \<times> ea_effect list" where
  "ea_act cf s (Ea_Reconciliation st ds) = handle_reconciliation st ds s"
| "ea_act cf s (Ea_Quality degraded) = (s\<lparr>ea_quality_degraded := degraded\<rparr>, [])"
| "ea_act cf s (Ea_Plan p pe) = handle_trade_plan cf p pe s"
| "ea_act cf s (Ea_Poll pe) = poll_open_orders pe s"
| "ea_act cf s (Ea_Timeout sy i te) = order_timeout cf sy i te s"

definition ea_step :: "ea_config \<Rightarrow> ea \<Rightarrow> ea_event \<Rightarrow> ea" where
  "ea_step cf s e = fst (ea_act cf s e)"

definition ea_emits :: "ea_config \<Rightarrow> ea \<Rightarrow> ea_event \<Rightarrow> ea_effect list" where
  "ea_emits cf s e = snd (ea_act cf s e)"

section \<open>Pending orders\<close>

definition open_status :: "order_status \<Rightarrow> bool" where
  "open_status st \<longleftrightarrow> st \<in> set [OS_PENDING, OS_SUBMITTED, OS_PARTIALLY_FILLED]"

definition pending_ok :: "symbol \<times> order \<Rightarrow> bool" where
  "pending_ok k \<longleftrightarrow> or_symbol (snd k) = fst k \<and> open_status (or_status (snd k))"

definition ea_ok :: "ea \<Rightarrow> bool" where
  "ea_ok s \<longleftrightarrow> distinct (map fst (ea_pending s)) \<and> list_all pending_ok (ea_pending s)"

lemma open_status_iff:
  "open_status st \<longleftrightarrow> st \<noteq> OS_FILLED \<and> st \<noteq> OS_CANCELLED \<and> st \<noteq> OS_REJECTED \<and> st \<noteq> OS_EXPIRED"
  by (cases st) (simp_all add: open_status_def)

lemma poll_order_keeps:
  "or_symbol (fst (poll_order pe tasks o')) = or_symbol o'"
  "or_order_id (fst (poll_order pe tasks o')) = or_order_id o'"
  "open_status (or_status o') \<Longrightarrow> \<not> snd (snd (poll_order pe tasks o')) \<Longrightarrow>
     open_status (or_status (fst (poll_order pe tasks o')))"
proof -
  show "or_symbol (fst (poll_order pe tasks o')) = or_symbol o'"
    and "or_order_id (fst (poll_order pe tasks o')) = or_order_id o'"
    by (simp_all add: poll_order_def Let_def order_after_def split: fetched.split)
  show "open_status (or_status (fst (poll_order pe tasks o')))"
    if "open_status (or_status o')" "\<not> snd (snd (poll_order pe tasks o'))"
    using that
    by (cases "truthy (or_broker_order_id o')"; cases "po_order pe (the (or_broker_order_id o'))")
       (auto simp: poll_order_def Let_def order_after_def open_status_iff split: if_splits)
qed

fun loud :: "ea_effect \<Rightarrow> bool" where
  "loud (Broker_Submit_Bracket sy side n l st tg i) = True"
| "loud (Publish_Fill f) = True"
| "loud _ = False"

text \<open>
  A plan is turned down, without a submission or a change of the state, or it passes the
  gates and is submitted.
\<close>

definition passes_gates :: "ea_config \<Rightarrow> trade_plan \<Rightarrow> plan_env \<Rightarrow> ea \<Rightarrow> bool" where
  "passes_gates cf p pe s \<longleftrightarrow>
     0 < tp_net_expectancy p \<and> 0 < tp_stop_price p \<and> ea_reconciliation_clean s \<and>
     tp_symbol p \<notin> fst ` set (ea_pending s) \<and>
     (case pe_account pe of Inl e \<Rightarrow> False
      | Inr account \<Rightarrow> tp_entry_price p * of_int (tp_shares p) \<le> ai_buying_power account) \<and>
     \<not> spread_too_wide cf (pe_tick pe) \<and>
     (case chase_bps p (pe_tick pe) of None \<Rightarrow> False | Some chase \<Rightarrow> chase \<le> xc_max_price_chase_bps cf)"

lemma validate_plan_Inr: "validate_plan p = Inr q \<longleftrightarrow> q = p \<and> 0 < tp_net_expectancy p \<and> 0 < tp_stop_price p"
  by (auto simp: validate_plan_def not_le)

lemma plan_outcomes:
  "if passes_gates cf p pe s then handle_trade_plan cf p pe s = submit_plan cf p pe s
   else \<exists>out. handle_trade_plan cf p pe s = (s, out) \<and> filter loud out = []"
proof -
  have pend: "list_ex (\<lambda>(k, _). k = tp_symbol p) (ea_pending s) \<longleftrightarrow> tp_symbol p \<in> fst ` set (ea_pending s)"
    by (force simp: list_ex_iff)
  show ?thesis
  proof (cases "validate_plan p")
    case (Inl e)
    then have "\<not> passes_gates cf p pe s" by (auto simp: passes_gates_def validate_plan_def split: if_splits)
    with Inl show ?thesis by (simp add: handle_trade_plan_def)
  next
    case (Inr q)
    then have q: "validate_plan p = Inr p" "0 < tp_net_expectancy p" "0 < tp_stop_price p"
      by (auto simp: validate_plan_Inr)
    then show ?thesis
      by (cases "pe_account pe"; cases "chase_bps p (pe_tick pe)")
         (auto simp: handle_trade_plan_def passes_gates_def pend Let_def not_less)
  qed
qed

lemma submit_plan_state:
  "fst (submit_plan cf p pe s) = s \<or>
   (\<exists>b. fst (submit_plan cf p pe s) =
      s\<lparr>ea_pending := AList.update (tp_symbol p)
           ((plan_order p pe)\<lparr>or_broker_order_id := Some b, or_status := OS_SUBMITTED\<rparr>) (ea_pending s),
        ea_timeout_tasks := ea_timeout_tasks s @ [pe_order_id pe]\<rparr>)"
  by (cases "pe_submit pe") (auto simp: submit_plan_def plan_order_def Let_def)

lemma ea_step_ok: "ea_ok s \<Longrightarrow> ea_ok (ea_step cf s e)"
proof (cases e)
  case (Ea_Plan p pe)
  assume ok: "ea_ok s"
  show ?thesis
    using plan_outcomes [of cf p pe s] submit_plan_state [of cf p pe s] ok Ea_Plan
    by (auto simp: ea_step_def ea_ok_def distinct_update pending_ok_def plan_order_def open_status_def
        intro!: list_all_update split: if_splits)
next
  case (Ea_Poll pe)
  assume ok: "ea_ok s"
  have d: "distinct (map (\<lambda>(sy, n, out, gone). sy) (filter (\<lambda>(sy, n, out, gone). \<not> gone)
          (map (\<lambda>(sy, o'). (sy, poll_order pe tasks o')) ps)))" if "distinct (map fst ps)" for tasks ps
    using that by (intro distinct_map_filter) (simp add: comp_def case_prod_unfold)
  have l: "list_all pending_ok (map (\<lambda>(sy, n, out, gone). (sy, n))
          (filter (\<lambda>(sy, n, out, gone). \<not> gone) (map (\<lambda>(sy, o'). (sy, poll_order pe tasks o')) ps)))"
    if "list_all pending_ok ps" for tasks ps
    using that by (induction ps) (auto simp: pending_ok_def poll_order_keeps case_prod_unfold)
  show ?thesis
    using ok Ea_Poll d [of "ea_pending s" "ea_timeout_tasks s"] l [of "ea_pending s" "ea_timeout_tasks s"]
    by (simp add: ea_step_def ea_ok_def poll_open_orders_def Let_def o_def case_prod_unfold)
next
  case (Ea_Timeout sy i te)
  assume "ea_ok s"
  then show ?thesis
    using Ea_Timeout by (auto simp: ea_step_def order_timeout_def ea_ok_def list_all_iff
        Let_def AList.delete_eq intro: distinct_map_filter split: option.splits)
qed (auto simp: ea_step_def handle_reconciliation_def ea_ok_def)

interpretation execution: inv_machine "ea_step cf" ea_ok
  by unfold_locales (rule ea_step_ok)

text \<open>The gate: the last report that says clean or mismatch says clean.\<close>

definition gate_report :: "ea_event \<Rightarrow> string option" where
  "gate_report e = (case e of
     Ea_Reconciliation st ds \<Rightarrow> if st \<in> set [''clean'', ''mismatch''] then Some st else None
   | _ \<Rightarrow> None)"

definition books_clean :: "ea_event list \<Rightarrow> bool" where
  "books_clean es \<longleftrightarrow> (case rev (List.map_filter gate_report es) of
     [] \<Rightarrow> False | st # _ \<Rightarrow> st = ''clean'')"

lemma gate_unchanged: "gate_report e = None \<Longrightarrow>
    ea_reconciliation_clean (ea_step cf s e) = ea_reconciliation_clean s"
proof (cases e)
  case (Ea_Plan p pe)
  show ?thesis
    using plan_outcomes [of cf p pe s] submit_plan_state [of cf p pe s] Ea_Plan
    by (auto simp: ea_step_def split: if_splits)
qed (auto simp: ea_step_def handle_reconciliation_def gate_report_def poll_open_orders_def Let_def
      order_timeout_def split: if_splits option.splits)

lemma gate_is_last_report:
  "ea_reconciliation_clean (foldl (ea_step cf) ea_init es) = books_clean es"
proof (induction es rule: rev_induct)
  case Nil
  show ?case by (simp add: ea_init_def books_clean_def List.map_filter_simps)
next
  case (snoc e es)
  show ?case
  proof (cases "gate_report e")
    case None
    with snoc gate_unchanged [OF None] show ?thesis
      by (simp add: books_clean_def List.map_filter_def)
  next
    case (Some st)
    then obtain ds where "e = Ea_Reconciliation st ds" "st = ''clean'' \<or> st = ''mismatch''"
      by (auto simp: gate_report_def split: ea_event.splits if_splits)
    with Some show ?thesis
      by (auto simp: books_clean_def List.map_filter_def ea_step_def handle_reconciliation_def)
  qed
qed

section \<open>Orders and fills\<close>


definition demo_trade :: trade_plan where
  "demo_trade = \<lparr>tp_plan_id = ''p1'', tp_signal_id = ''s1'', tp_symbol = ''AAPL'',
     tp_direction = LONG, tp_entry_price = 100, tp_stop_price = 99, tp_target_price = 102,
     tp_shares = 90, tp_time_stop_sec = 300, tp_invalidation_reason = ''below 99'',
     tp_cost_model = \<lparr>cm_commission = 0, cm_sec_fee = 1 / 4, cm_finra_taf = 1 / 70,
        cm_estimated_slippage = 0\<rparr>,
     tp_net_expectancy = 1 / 8, tp_account_equity = 30000, tp_risk_per_share = 1,
     tp_total_risk = 90, tp_worst_case_slippage = 0, tp_created_at = 5\<rparr>"

definition demo_plan_env :: "string \<Rightarrow> plan_env" where
  "demo_plan_env i = \<lparr>pe_account = Inr \<lparr>ai_account_id = ''acct'', ai_equity = 30000,
        ai_buying_power = 60000, ai_cash = 30000, ai_day_trade_buying_power = 90000,
        ai_pattern_day_trader = True, ai_day_trades_remaining = 3\<rparr>,
     pe_tick = Inr (Some \<lparr>mt_symbol = ''AAPL'', mt_timestamp = 6, mt_bid = 9999 / 100,
        mt_ask = 10001 / 100, mt_last = 100, mt_volume = 10, mt_sequence = 1\<rparr>),
     pe_submit = Inr (''b-'' @ i), pe_order_id = i, pe_now = 7\<rparr>"

definition demo_broker_order :: "string \<Rightarrow> string \<Rightarrow> int \<Rightarrow> broker_order" where
  "demo_broker_order i st filled = \<lparr>bo_broker_order_id = ''b-'' @ i, bo_client_order_id = i,
     bo_symbol = ''AAPL'', bo_side = ''buy'', bo_qty = 90, bo_order_type = ''limit'',
     bo_status = st, bo_filled_qty = filled,
     bo_avg_fill_price = (if filled = 0 then None else Some 100), bo_limit_price = Some 100,
     bo_stop_price = None, bo_submitted_at = Some 7, bo_filled_at = None\<rparr>"

definition demo_poll :: "string \<Rightarrow> string \<Rightarrow> int \<Rightarrow> poll_env" where
  "demo_poll i st filled = \<lparr>po_open_orders_ok = True,
     po_order = (\<lambda>b. Fetched (demo_broker_order i st filled)), po_fill_id = (\<lambda>i. ''f-'' @ i),
     po_now = 9\<rparr>"


definition is_fill :: "string \<Rightarrow> ea_effect \<Rightarrow> bool" where
  "is_fill i x = (case x of Publish_Fill f \<Rightarrow> fe_order_id f = i | _ \<Rightarrow> False)"

definition plan_ids :: "ea_event list \<Rightarrow> string list" where
  "plan_ids es = List.map_filter (\<lambda>e. case e of Ea_Plan p pe \<Rightarrow> Some (pe_order_id pe) | _ \<Rightarrow> None) es"

definition brings_order :: "string \<Rightarrow> ea_event \<Rightarrow> nat" where
  "brings_order i e = (case e of Ea_Plan p pe \<Rightarrow> if pe_order_id pe = i then 1 else 0 | _ \<Rightarrow> 0)"

definition pending_count :: "string \<Rightarrow> ea \<Rightarrow> nat" where
  "pending_count i s = length (filter (\<lambda>k. or_order_id (snd k) = i) (ea_pending s))"

lemma poll_order_fills:
  "length (filter (is_fill i) (fst (snd (poll_order pe tasks o'))))
     \<le> (if snd (snd (poll_order pe tasks o')) \<and> or_order_id o' = i then 1 else 0)"
proof (cases "po_order pe (the (or_broker_order_id o'))")
  case (Fetched b)
  then show ?thesis
    by (auto simp: poll_order_def Let_def handle_fill_def is_fill_def fill_of_def order_after_def)
qed (simp_all add: poll_order_def)

lemma poll_fills:
  defines "polled \<equiv> \<lambda>pe tasks. map (\<lambda>(sy, o'). (sy, poll_order pe tasks o'))"
  shows "length (filter (is_fill i) (concat (map (\<lambda>(sy, n, out, gone). out) (polled pe tasks ps)))) +
     length (filter (\<lambda>k. or_order_id (snd k) = i) (map (\<lambda>(sy, n, out, gone). (sy, n))
       (filter (\<lambda>(sy, n, out, gone). \<not> gone) (polled pe tasks ps))))
   \<le> length (filter (\<lambda>k. or_order_id (snd k) = i) ps)"
proof (induction ps)
  case (Cons k ps)
  show ?case
    using Cons poll_order_fills [of i pe tasks "snd k"]
    by (auto simp: polled_def case_prod_unfold poll_order_keeps split: if_splits)
qed (simp add: polled_def)

lemma submit_plan_fills: "filter (is_fill i) (snd (submit_plan cf p pe s)) = []"
  by (cases "pe_submit pe") (simp_all add: submit_plan_def Let_def is_fill_def)

lemma event_fills:
  "length (filter (is_fill i) (ea_emits cf s e)) + pending_count i (ea_step cf s e)
     \<le> pending_count i s + brings_order i e"
proof (cases e)
  case (Ea_Plan p pe)
  show ?thesis
  proof (cases "passes_gates cf p pe s")
    case True
    then have new: "tp_symbol p \<notin> fst ` set (ea_pending s)"
      and h: "handle_trade_plan cf p pe s = submit_plan cf p pe s"
      using plan_outcomes [of cf p pe s] by (auto simp: passes_gates_def)
    show ?thesis
      using Ea_Plan h submit_plan_state [of cf p pe s] submit_plan_fills [of i cf p pe s]
      by (auto simp: ea_emits_def ea_step_def pending_count_def brings_order_def
          update_new [OF new] plan_order_def)
  next
    case False
    then obtain out where out: "handle_trade_plan cf p pe s = (s, out)" "filter loud out = []"
      using plan_outcomes [of cf p pe s] by auto
    have "filter (is_fill i) out = []"
      using out(2) by (auto simp: filter_empty_conv is_fill_def split: ea_effect.splits)
    then show ?thesis using Ea_Plan out(1) by (simp add: ea_emits_def ea_step_def)
  qed
next
  case (Ea_Poll pe)
  then show ?thesis
    using poll_fills [of i pe "ea_timeout_tasks s" "ea_pending s"]
    by (auto simp: ea_emits_def ea_step_def poll_open_orders_def Let_def pending_count_def)
next
  case (Ea_Timeout sy j te)
  from Ea_Timeout length_filter_delete [of "\<lambda>k. or_order_id (snd k) = i" sy "ea_pending s"] show ?thesis
    by (auto simp: ea_emits_def ea_step_def order_timeout_def Let_def pending_count_def is_fill_def
        intro: trans_le_add1 split: option.splits)
qed (auto simp: ea_emits_def ea_step_def handle_reconciliation_def pending_count_def is_fill_def)

interpretation fills: budget "ea_step cf" "ea_emits cf" "is_fill i" "pending_count i" "brings_order i"
  by unfold_locales (rule event_fills)

lemma brought_once: "distinct (plan_ids es) \<Longrightarrow> sum_list (map (brings_order i) es) \<le> 1"
proof (induction es)
  case (Cons e es)
  have none: "i \<notin> set (plan_ids es) \<Longrightarrow> sum_list (map (brings_order i) es) = 0"
    by (induction es) (auto simp: plan_ids_def List.map_filter_simps brings_order_def split: ea_event.splits)
  show ?case
    using Cons none by (cases e) (auto simp: plan_ids_def List.map_filter_simps brings_order_def)
qed simp

text \<open>
  C16. As long as the generated order identifiers are distinct, no order is announced as filled
  more than once, however polls, time-outs and plans follow one another.
\<close>

theorem fill_announced_at_most_once:
  assumes "distinct (plan_ids es)"
  shows "length (filter (is_fill i) (run_out (ea_step cf) (ea_emits cf) ea_init es)) \<le> 1"
  using fills.run_pays [of i cf ea_init es] brought_once [OF assms, of i]
  by (simp add: pending_count_def ea_init_def)

definition demo_history :: "ea_event list" where
  "demo_history = [Ea_Reconciliation ''clean'' [], Ea_Plan demo_trade (demo_plan_env ''o1''),
     Ea_Poll (demo_poll ''o1'' ''filled'' 90)]"

theorem fill_announced_at_most_once_witness:
  "length (filter (is_fill ''o1'') (run_out (ea_step ea_defaults) (ea_emits ea_defaults) ea_init
     demo_history)) = 1"
proof -
  have "distinct (plan_ids demo_history)" by code_simp
  moreover have "filter (is_fill ''o1'') (run_out (ea_step ea_defaults) (ea_emits ea_defaults) ea_init
     demo_history) \<noteq> []" by code_simp
  ultimately show ?thesis
    using fill_announced_at_most_once [of demo_history "''o1''" ea_defaults]
    by (cases "filter (is_fill ''o1'') (run_out (ea_step ea_defaults) (ea_emits ea_defaults) ea_init
     demo_history)") auto
qed

text \<open>
  A partial fill is never announced: when the broker reports that an order ended cancelled,
  rejected or expired, the poll drops it without a fill event, whatever quantity the broker says
  was filled.
\<close>

theorem partial_fill_never_announced:
  assumes "(sy, o') \<in> set (ea_pending s)" and "ea_ok s" and "truthy (or_broker_order_id o')"
    and "po_open_orders_ok pe" and "po_order pe (the (or_broker_order_id o')) = Fetched b"
    and "py_upper (bo_status b) \<in> set [''CANCELLED'', ''CANCELED'', ''REJECTED'', ''EXPIRED'']"
    and "distinct (map (\<lambda>k. or_order_id (snd k)) (ea_pending s))"
  shows "sy \<notin> fst ` set (ea_pending (ea_step cf s (Ea_Poll pe))) \<and>
    filter (is_fill (or_order_id o')) (ea_emits cf s (Ea_Poll pe)) = []"
proof -
  let ?ps = "ea_pending s"
  let ?poll = "poll_order pe (ea_timeout_tasks s)"
  have st: "new_status b o' \<in> {OS_CANCELLED, OS_REJECTED, OS_EXPIRED}"
    using assms(6) by (auto simp: new_status_def status_map_def)
  have "open_status (or_status o')"
    using assms(1,2) by (auto simp: ea_ok_def list_all_iff pending_ok_def)
  with st have gone: "snd (snd (?poll o'))" and quiet: "filter (is_fill i) (fst (snd (?poll o'))) = []" for i
    using assms(3,5) by (auto simp: poll_order_def Let_def open_status_iff is_fill_def)
  have only: "k = (sy, o')" if "k \<in> set ?ps" "fst k = sy" for k
    using that assms(1,2) by (metis ea_ok_def eq_key_imp_eq_value prod.collapse)
  have own: "k = (sy, o')" if "k \<in> set ?ps" "or_order_id (snd k) = or_order_id o'" for k
    using that assms(1,7) unfolding distinct_map by (metis (mono_tags, lifting) inj_onD snd_conv)
  have quiet_all: "filter (is_fill (or_order_id o')) (fst (snd (?poll (snd k)))) = []" if "k \<in> set ?ps" for k
    using own [OF that] quiet poll_order_fills [of "or_order_id o'" pe "ea_timeout_tasks s" "snd k"]
    by (cases "or_order_id (snd k) = or_order_id o'") auto
  have "sy \<notin> fst ` set (map (\<lambda>(sy, n, out, gone). (sy, n)) (filter (\<lambda>(sy, n, out, gone). \<not> gone)
      (map (\<lambda>(sy, o'). (sy, ?poll o')) ?ps)))"
    using gone only by (auto simp: case_prod_unfold image_iff) (metis snd_conv)
  moreover have "filter (is_fill (or_order_id o')) (concat (map (\<lambda>(sy, n, out, gone). out)
      (map (\<lambda>(sy, o'). (sy, ?poll o')) ?ps))) = []"
    using quiet_all by (simp add: filter_concat case_prod_unfold comp_def)
  ultimately show ?thesis
    using assms(1,4) by (auto simp: ea_step_def ea_emits_def poll_open_orders_def Let_def)
qed

text \<open>The agent with one order at the broker, accepted and not yet filled.\<close>

definition demo_open_order :: order where
  "demo_open_order = (plan_order demo_trade (demo_plan_env ''o1''))
     \<lparr>or_broker_order_id := Some ''b-o1'', or_status := OS_SUBMITTED\<rparr>"

definition demo_open :: ea where
  "demo_open = \<lparr>ea_reconciliation_clean = True, ea_pending = [(''AAPL'', demo_open_order)],
     ea_timeout_tasks = [''o1''], ea_quality_degraded = False\<rparr>"

lemma demo_open_ok: "ea_ok demo_open"
  by (simp add: ea_ok_def demo_open_def demo_open_order_def plan_order_def pending_ok_def
      open_status_def demo_trade_def)

lemma upper_canceled: "py_upper ''canceled'' = ''CANCELED''"
  by code_simp

theorem partial_fill_never_announced_witness:
  "''AAPL'' \<notin> fst ` set (ea_pending (ea_step ea_defaults demo_open
       (Ea_Poll (demo_poll ''o1'' ''canceled'' 40)))) \<and>
   filter (is_fill ''o1'') (ea_emits ea_defaults demo_open (Ea_Poll (demo_poll ''o1'' ''canceled'' 40))) = [] \<and>
   bo_filled_qty (demo_broker_order ''o1'' ''canceled'' 40) = 40"
  using partial_fill_never_announced [of "''AAPL''" demo_open_order demo_open
      "demo_poll ''o1'' ''canceled'' 40" "demo_broker_order ''o1'' ''canceled'' 40" ea_defaults] demo_open_ok
  by (simp add: demo_open_def demo_open_order_def plan_order_def demo_plan_env_def demo_poll_def
      demo_broker_order_def upper_canceled)

text \<open>
  After its time-out an order is forgotten, whatever the broker answers to the cancellation,
  and also when neither the status nor the cancellation could be sent: the next plan for the
  symbol that passes the other gates is submitted, next to an order that may still be live.
\<close>

theorem timed_out_order_makes_room:
  assumes "ea_ok s" and "map_of (ea_pending s) (tp_symbol p) = Some o'"
    and "\<not> broker_says_ended (te_order te)"
    and "passes_gates cf p pe (s\<lparr>ea_pending := []\<rparr>)"
  shows "list_ex (\<lambda>x. \<exists>side qty limit stop target.
      x = Broker_Submit_Bracket (tp_symbol p) side qty limit stop target (pe_order_id pe))
    (ea_emits cf (ea_step cf s (Ea_Timeout (tp_symbol p) (or_order_id o') te)) (Ea_Plan p pe))"
proof -
  let ?s = "ea_step cf s (Ea_Timeout (tp_symbol p) (or_order_id o') te)"
  have s: "?s = s\<lparr>ea_pending := AList.delete (tp_symbol p) (ea_pending s)\<rparr>"
    using assms(2,3) by (simp add: ea_step_def order_timeout_def Let_def)
  have "tp_symbol p \<notin> fst ` set (AList.delete (tp_symbol p) (ea_pending s))"
    by (auto simp: AList.delete_eq)
  then have "passes_gates cf p pe ?s"
    using assms(4) by (simp add: s passes_gates_def)
  then have "ea_emits cf ?s (Ea_Plan p pe) = snd (submit_plan cf p pe ?s)"
    using plan_outcomes [of cf p pe ?s] by (simp add: ea_emits_def)
  then show ?thesis by (cases "pe_submit pe") (simp_all add: submit_plan_def Let_def)
qed

definition demo_lost :: timeout_env where
  "demo_lost = \<lparr>te_order = Fetch_Failed, te_cancel = Inl ''timeout'', te_now = 40\<rparr>"

theorem timed_out_order_makes_room_witness:
  "list_ex (\<lambda>x. \<exists>side qty limit stop target.
      x = Broker_Submit_Bracket ''AAPL'' side qty limit stop target ''o2'')
    (ea_emits ea_defaults (ea_step ea_defaults demo_open (Ea_Timeout ''AAPL'' ''o1'' demo_lost))
      (Ea_Plan demo_trade (demo_plan_env ''o2'')))"
  using timed_out_order_makes_room [of demo_open demo_trade demo_open_order demo_lost ea_defaults
      "demo_plan_env ''o2''"] demo_open_ok
  by (simp add: demo_open_def demo_open_order_def plan_order_def demo_plan_env_def demo_trade_def
      demo_lost_def broker_says_ended_def passes_gates_def spread_too_wide_def chase_bps_def
      tick_spread_bps_def tick_spread_def tick_mid_def ea_defaults_def)

end
