(* ===== verification/Reconciliation.thy ===== *)
theory Reconciliation
  imports Brokers "HOL-Library.List_Lexorder" "HOL-Library.Char_ord"
begin

text \<open>
  The broker reconciliation agent of \<open>agents/agent_09_broker_reconciliation.py\<close>: the internal
  shadow of open orders and positions that the bus messages keep, its seeding from the store, the
  five checks of a reconciliation, and what a report leads to. The answers of the broker and of
  the store are arguments (\<open>Inl\<close> for an exception, with its text). A Python set of symbols is a
  set; where the code iterates over one, whose order Python leaves open, the model takes the
  symbols in ascending order.
\<close>

section \<open>State\<close>

record bra =
  br_internal_orders :: "(symbol \<times> string list) list"
  br_internal_positions :: "symbol set"
  br_last_reconciliation :: "reconciliation_report option"

definition bra_init :: bra where
  "bra_init = \<lparr>br_internal_orders = [], br_internal_positions = {}, br_last_reconciliation = None\<rparr>"

record broker_view =
  bv_positions :: "broker_position list"
  bv_orders :: "broker_order list"
  bv_account :: account_info

datatype discrepancy =
    Broker_Fetch_Failed string
  | Store_Load_Failed string
  | Ghost_Position symbol
  | Missing_Position symbol
  | Order_Count_Mismatch nat nat
  | Low_Equity pyfloat pyfloat
  | Duplicate_Order_Risk symbol nat
  | Broker_Duplicate_Order symbol nat

primrec discrepancy_text :: "discrepancy \<Rightarrow> string" where
  "discrepancy_text (Broker_Fetch_Failed e) = ''Broker fetch failed: '' @ e"
| "discrepancy_text (Store_Load_Failed e) = ''Store load failed: '' @ e"
| "discrepancy_text (Ghost_Position sy) =
     ''GHOST_POSITION: broker has '' @ sy @ '', internal does not''"
| "discrepancy_text (Missing_Position sy) =
     ''MISSING_POSITION: internal has '' @ sy @ '', broker does not''"
| "discrepancy_text (Order_Count_Mismatch m n) =
     ''ORDER_COUNT_MISMATCH: internal='' @ digits m @ '' broker='' @ digits n"
| "discrepancy_text (Low_Equity e m) =
     ''LOW_EQUITY: equity='' @ fmt_fixed 2 e @ '' below PDT minimum='' @ fmt_fixed 2 m"
| "discrepancy_text (Duplicate_Order_Risk sy n) =
     ''DUPLICATE_ORDER_RISK: symbol='' @ sy @ '' has '' @ digits n @ '' open orders''"
| "discrepancy_text (Broker_Duplicate_Order sy n) =
     ''BROKER_DUPLICATE_ORDER: symbol='' @ sy @ '' has '' @ digits n @ '' broker-side orders''"

datatype bra_effect =
    Save_Report reconciliation_report
  | Publish_Recon_Status reconciliation_report
  | Publish_Recon_Alert "string list" bool bool
  | Audit_Recon_Mismatch reconciliation_report

section \<open>The shadow state\<close>

text \<open>\<open>internal_orders.setdefault(symbol, set()).add(order_id)\<close>.\<close>

definition track_order :: "symbol \<Rightarrow> string \<Rightarrow> (symbol \<times> string list) list \<Rightarrow> (symbol \<times> string list) list" where
  "track_order sy i os =
     AList.update sy (List.insert i (case map_of os sy of None \<Rightarrow> [] | Some ids \<Rightarrow> ids)) os"

definition order_submitted :: "symbol \<Rightarrow> string \<Rightarrow> bra \<Rightarrow> bra" where
  "order_submitted sy i s =
     (if sy \<noteq> [] \<and> i \<noteq> [] then s\<lparr>br_internal_orders := track_order sy i (br_internal_orders s)\<rparr> else s)"

definition order_update :: "symbol \<Rightarrow> string \<Rightarrow> string \<Rightarrow> bra \<Rightarrow> bra" where
  "order_update sy i status s =
     (if sy \<noteq> [] \<and> i \<noteq> [] \<and>
         status \<in> set (map order_status_value [OS_FILLED, OS_CANCELLED, OS_REJECTED, OS_EXPIRED])
      then (case map_of (br_internal_orders s) sy of
          None \<Rightarrow> s
        | Some ids \<Rightarrow>
            (let ids' = removeAll i ids
             in s\<lparr>br_internal_orders :=
                   (if ids' = [] then AList.delete sy (br_internal_orders s)
                    else AList.update sy ids' (br_internal_orders s))\<rparr>))
      else s)"

definition position_update :: "symbol \<Rightarrow> bool \<Rightarrow> bra \<Rightarrow> bra" where
  "position_update sy closed_flag s =
     (if sy = [] then s
      else if closed_flag then s\<lparr>br_internal_positions := br_internal_positions s - {sy}\<rparr>
      else s\<lparr>br_internal_positions := insert sy (br_internal_positions s)\<rparr>)"

text \<open>Seeding stops at the first load that fails.\<close>

definition seed_from_store :: "string + position list \<Rightarrow> string + order list \<Rightarrow> bra \<Rightarrow> bra" where
  "seed_from_store ps os s =
     (case ps of
        Inl _ \<Rightarrow> s
      | Inr ps \<Rightarrow>
          let s = s\<lparr>br_internal_positions := pos_symbol ` set ps\<rparr> in
          (case os of
             Inl _ \<Rightarrow> s
           | Inr os \<Rightarrow> s\<lparr>br_internal_orders :=
               foldl (\<lambda>acc o'. track_order (or_symbol o') (or_order_id o') acc) (br_internal_orders s) os\<rparr>))"

section \<open>A reconciliation\<close>

definition internal_order_count :: "bra \<Rightarrow> nat" where
  "internal_order_count s = sum_list (map (\<lambda>(sy, ids). length ids) (br_internal_orders s))"

definition ended_at_broker :: "broker_order \<Rightarrow> bool" where
  "ended_at_broker b \<longleftrightarrow>
     py_upper (bo_status b) \<in> set [''FILLED'', ''CANCELLED'', ''CANCELED'', ''REJECTED'', ''EXPIRED'']"

text \<open>\<open>broker_orders_by_symbol\<close>: the open broker orders of each symbol, in the order met.\<close>

definition count_order :: "(symbol \<times> nat) list \<Rightarrow> broker_order \<Rightarrow> (symbol \<times> nat) list" where
  "count_order acc b =
     (if ended_at_broker b then acc
      else AList.update (bo_symbol b)
             ((case map_of acc (bo_symbol b) of None \<Rightarrow> 0 | Some n \<Rightarrow> n) + 1) acc)"

definition orders_by_symbol :: "broker_order list \<Rightarrow> (symbol \<times> nat) list" where
  "orders_by_symbol bos = foldl count_order [] bos"

definition internal_duplicates :: "bra \<Rightarrow> discrepancy list" where
  "internal_duplicates s =
     map (\<lambda>(sy, ids). Duplicate_Order_Risk sy (length ids))
       (filter (\<lambda>(sy, ids). 1 < length ids) (br_internal_orders s))"

definition broker_duplicates :: "broker_order list \<Rightarrow> discrepancy list" where
  "broker_duplicates bos =
     map (\<lambda>(sy, n). Broker_Duplicate_Order sy n) (filter (\<lambda>(sy, n). 3 < n) (orders_by_symbol bos))"

definition all_internal :: "string + position list \<Rightarrow> bra \<Rightarrow> symbol set" where
  "all_internal store s =
     (case store of Inl _ \<Rightarrow> {} | Inr ps \<Rightarrow> pos_symbol ` set ps) \<union> br_internal_positions s"

text \<open>The five checks; a failed load of the store counts as a discrepancy and as an empty store.\<close>

definition discrepancies_of ::
  "pyfloat \<Rightarrow> string + position list \<Rightarrow> broker_view \<Rightarrow> bra \<Rightarrow> discrepancy list" where
  "discrepancies_of min_buying_power store v s =
     (let internal = all_internal store s;
          at_broker = bp_symbol ` set (bv_positions v);
          n = internal_order_count s; m = length (bv_orders v);
          equity = ai_equity (bv_account v)
      in (case store of Inl e \<Rightarrow> [Store_Load_Failed e] | Inr _ \<Rightarrow> [])
         @ map Ghost_Position (sorted_list_of_set (at_broker - internal))
         @ map Missing_Position (sorted_list_of_set (internal - at_broker))
         @ (if 0 < n \<and> m = 0 then [Order_Count_Mismatch n m] else [])
         @ (if equity < min_buying_power then [Low_Equity equity min_buying_power] else [])
         @ internal_duplicates s @ broker_duplicates (bv_orders v))"

definition make_report ::
  "pyfloat \<Rightarrow> timestamp \<Rightarrow> string + position list \<Rightarrow> string + broker_view \<Rightarrow> bra \<Rightarrow> reconciliation_report" where
  "make_report min_buying_power now store broker s =
     (case broker of
        Inl e \<Rightarrow> \<lparr>rr_status = RS_MISMATCH,
          rr_internal_positions = sorted_list_of_set (br_internal_positions s),
          rr_broker_positions = [], rr_discrepancies = [discrepancy_text (Broker_Fetch_Failed e)],
          rr_buying_power_ok = False, rr_duplicate_order_risk = False, rr_reconciled_at = now\<rparr>
      | Inr v \<Rightarrow>
          (let ds = discrepancies_of min_buying_power store v s
           in \<lparr>rr_status = (if ds = [] then RS_CLEAN else RS_MISMATCH),
               rr_internal_positions = sorted_list_of_set (all_internal store s),
               rr_broker_positions = sort (map bp_symbol (bv_positions v)),
               rr_discrepancies = map discrepancy_text ds,
               rr_buying_power_ok = (min_buying_power \<le> ai_equity (bv_account v)),
               rr_duplicate_order_risk = (internal_duplicates s @ broker_duplicates (bv_orders v) \<noteq> []),
               rr_reconciled_at = now\<rparr>))"

definition publish_and_persist :: "reconciliation_report \<Rightarrow> bra_effect list" where
  "publish_and_persist r = [Save_Report r, Publish_Recon_Status r] @
     (if rr_status r = RS_MISMATCH
      then [Publish_Recon_Alert (rr_discrepancies r) (rr_buying_power_ok r) (rr_duplicate_order_risk r),
            Audit_Recon_Mismatch r]
      else [])"

definition run_reconciliation ::
  "pyfloat \<Rightarrow> timestamp \<Rightarrow> string + position list \<Rightarrow> string + broker_view \<Rightarrow> bra \<Rightarrow> bra \<times> bra_effect list" where
  "run_reconciliation min_buying_power now store broker s =
     (let r = make_report min_buying_power now store broker s
      in (s\<lparr>br_last_reconciliation := Some r\<rparr>, publish_and_persist r))"

definition bra_startup ::
  "pyfloat \<Rightarrow> timestamp \<Rightarrow> string + position list \<Rightarrow> string + order list \<Rightarrow> string + position list
   \<Rightarrow> string + broker_view \<Rightarrow> bra \<Rightarrow> bra \<times> bra_effect list" where
  "bra_startup min_buying_power now ps os store broker s =
     run_reconciliation min_buying_power now store broker (seed_from_store ps os s)"

datatype bra_event =
    Bra_Submitted symbol string
  | Bra_Order_Update symbol string string
  | Bra_Position_Update symbol bool
  | Bra_Run timestamp "string + position list" "string + broker_view"

fun bra_act :: "pyfloat \<Rightarrow> bra \<Rightarrow> bra_event \<Rightarrow> bra \<times> bra_effect list" where
  "bra_act mb s (Bra_Submitted sy i) = (order_submitted sy i s, [])"
| "bra_act mb s (Bra_Order_Update sy i st) = (order_update sy i st s, [])"
| "bra_act mb s (Bra_Position_Update sy c) = (position_update sy c s, [])"
| "bra_act mb s (Bra_Run now store broker) = run_reconciliation mb now store broker s"

definition bra_step :: "pyfloat \<Rightarrow> bra \<Rightarrow> bra_event \<Rightarrow> bra" where
  "bra_step mb s e = fst (bra_act mb s e)"

section \<open>What a clean report says\<close>

lemma orders_by_symbol_distinct: "distinct (map fst (orders_by_symbol bos))"
  by (induction bos rule: rev_induct)
     (auto simp: orders_by_symbol_def count_order_def distinct_update)

lemma orders_by_symbol_count:
  "map_of (orders_by_symbol bos) sy =
     (let n = length (filter (\<lambda>b. bo_symbol b = sy \<and> \<not> ended_at_broker b) bos)
      in if n = 0 then None else Some n)"
proof (induction bos arbitrary: sy rule: rev_induct)
  case (snoc b bos)
  then show ?case
    by (auto simp: orders_by_symbol_def count_order_def Let_def update_conv')
qed (simp add: orders_by_symbol_def)

lemma broker_duplicates_Nil:
  "broker_duplicates bos = [] \<longleftrightarrow>
     (\<forall>sy. length (filter (\<lambda>b. bo_symbol b = sy \<and> \<not> ended_at_broker b) bos) \<le> 3)"
proof -
  have key: "(sy, n) \<in> set (orders_by_symbol bos) \<longleftrightarrow>
      n = length (filter (\<lambda>b. bo_symbol b = sy \<and> \<not> ended_at_broker b) bos) \<and> n \<noteq> 0" for sy n
    using orders_by_symbol_count [of bos sy]
    by (subst map_of_eq_Some_iff [OF orders_by_symbol_distinct, symmetric]) (auto simp: Let_def)
  have "broker_duplicates bos = [] \<longleftrightarrow> (\<forall>sy n. (sy, n) \<in> set (orders_by_symbol bos) \<longrightarrow> \<not> 3 < n)"
    by (auto simp: broker_duplicates_def filter_empty_conv simp del: not_less)
  then show ?thesis unfolding key by (force simp: not_less)
qed

lemma finite_internal: "finite (br_internal_positions s) \<Longrightarrow> finite (all_internal store s)"
  by (simp add: all_internal_def split: sum.split)

lemma discrepancies_Nil:
  assumes "finite (br_internal_positions s)"
  shows "discrepancies_of mb (Inr ps) v s = [] \<longleftrightarrow>
    bp_symbol ` set (bv_positions v) = all_internal (Inr ps) s \<and>
    (internal_order_count s = 0 \<or> bv_orders v \<noteq> []) \<and> mb \<le> ai_equity (bv_account v) \<and>
    internal_duplicates s = [] \<and> broker_duplicates (bv_orders v) = []"
proof -
  have "finite (all_internal (Inr ps) s - bp_symbol ` set (bv_positions v))"
    using finite_internal [OF assms] by simp
  then show ?thesis by (auto simp: discrepancies_of_def Let_def not_less)
qed

lemma report_status:
  "rr_status (make_report mb now store broker s) =
     (case broker of Inl e \<Rightarrow> RS_MISMATCH
      | Inr v \<Rightarrow> if discrepancies_of mb store v s = [] then RS_CLEAN else RS_MISMATCH)"
  by (simp add: make_report_def Let_def split: sum.split)

text \<open>A position the agent or the store knows of, and the broker does not, is a mismatch; and the converse.\<close>

lemma position_mismatch:
  assumes "finite (br_internal_positions s)" and "bp_symbol ` set (bv_positions v) \<noteq> all_internal store s"
  shows "rr_status (make_report mb now store (Inr v) s) = RS_MISMATCH"
proof (cases store)
  case (Inr ps)
  then show ?thesis using assms discrepancies_Nil [OF assms(1), of mb ps v] by (simp add: report_status)
qed (simp add: report_status discrepancies_of_def Let_def)

text \<open>
  C11. What a clean report certifies: both the broker and the store answered, the symbols with a
  position at the broker are exactly those of the store and of the bus messages, the broker has
  an open order if the agent knows of one, the equity is not below the minimum, no symbol has two
  orders of the agent's own, and none has more than three unfinished orders at the broker. The
  agent reports clean if and only if all of that holds.
\<close>

theorem clean_report_iff:
  assumes "finite (br_internal_positions s)"
  shows "rr_status (make_report mb now store broker s) = RS_CLEAN \<longleftrightarrow>
    (\<exists>v ps. broker = Inr v \<and> store = Inr ps \<and>
       bp_symbol ` set (bv_positions v) = pos_symbol ` set ps \<union> br_internal_positions s \<and>
       (internal_order_count s = 0 \<or> bv_orders v \<noteq> []) \<and> mb \<le> ai_equity (bv_account v) \<and>
       list_all (\<lambda>(sy, ids). length ids \<le> 1) (br_internal_orders s) \<and>
       (\<forall>sy. length (filter (\<lambda>b. bo_symbol b = sy \<and> \<not> ended_at_broker b) (bv_orders v)) \<le> 3))"
proof -
  have dup: "internal_duplicates s = [] \<longleftrightarrow> list_all (\<lambda>(sy, ids). length ids \<le> 1) (br_internal_orders s)"
    by (auto simp: internal_duplicates_def filter_empty_conv list_all_iff not_less)
  show ?thesis
  proof (cases store)
    case (Inr ps)
    then show ?thesis
      by (cases broker)
         (simp_all add: report_status discrepancies_Nil [OF assms] dup broker_duplicates_Nil all_internal_def)
  qed (simp add: report_status discrepancies_of_def Let_def split: sum.split)
qed

definition demo_view :: broker_view where
  "demo_view = \<lparr>bv_positions = [\<lparr>bp_symbol = ''AAPL'', bp_qty = 90, bp_avg_entry_price = 100,
       bp_current_price = 101, bp_unrealized_pnl = 90, bp_side = ''long''\<rparr>],
     bv_orders = [], bv_account = \<lparr>ai_account_id = ''acct'', ai_equity = 30000,
        ai_buying_power = 60000, ai_cash = 21000, ai_day_trade_buying_power = 90000,
        ai_pattern_day_trader = True, ai_day_trades_remaining = 3\<rparr>\<rparr>"

theorem clean_report_iff_witness:
  "rr_status (make_report 25000 5 (Inr []) (Inr demo_view) (position_update ''AAPL'' False bra_init)) = RS_CLEAN \<and>
   rr_status (make_report 25000 5 (Inr []) (Inr demo_view) bra_init) = RS_MISMATCH"
proof -
  have "rr_status (make_report 25000 5 (Inr []) (Inr demo_view) bra_init) \<noteq> RS_CLEAN"
    by (subst clean_report_iff) (auto simp: bra_init_def demo_view_def)
  then have "rr_status (make_report 25000 5 (Inr []) (Inr demo_view) bra_init) = RS_MISMATCH"
    by (simp add: make_report_def Let_def split: if_splits)
  moreover have "rr_status (make_report 25000 5 (Inr []) (Inr demo_view) (position_update ''AAPL'' False bra_init)) = RS_CLEAN"
    by (subst clean_report_iff) (auto simp: bra_init_def demo_view_def position_update_def internal_order_count_def)
  ultimately show ?thesis by simp
qed

section \<open>The shadow of the open orders\<close>

fun shadow_row :: "symbol \<times> string list \<Rightarrow> bool" where
  "shadow_row (sy, ids) \<longleftrightarrow> sy \<noteq> [] \<and> ids \<noteq> [] \<and> distinct ids"

definition shadow_ok :: "bra \<Rightarrow> bool" where
  "shadow_ok s \<longleftrightarrow> distinct (map fst (br_internal_orders s)) \<and>
     list_all shadow_row (br_internal_orders s) \<and>
     finite (br_internal_positions s)"

definition shadow_orders :: "bra \<Rightarrow> (symbol \<times> string) set" where
  "shadow_orders s = {(sy, i). \<exists>ids. map_of (br_internal_orders s) sy = Some ids \<and> i \<in> set ids}"

text \<open>The same messages on a set of pairs.\<close>

fun orders_spec :: "(symbol \<times> string) set \<Rightarrow> bra_event \<Rightarrow> (symbol \<times> string) set" where
  "orders_spec A (Bra_Submitted sy i) = (if sy \<noteq> [] \<and> i \<noteq> [] then insert (sy, i) A else A)"
| "orders_spec A (Bra_Order_Update sy i st) =
     (if sy \<noteq> [] \<and> i \<noteq> [] \<and> st \<in> set [''filled'', ''cancelled'', ''rejected'', ''expired''] then A - {(sy, i)} else A)"
| "orders_spec A e = A"

lemma tracked_ids:
  "list_all shadow_row xs \<Longrightarrow> map_of xs sy = Some ids \<Longrightarrow> distinct ids"
  by (auto simp: list_all_iff dest!: map_of_SomeD)

lemma shadow_row_insert: "distinct ids \<Longrightarrow> sy \<noteq> [] \<Longrightarrow> shadow_row (sy, List.insert i ids)"
  by (cases ids) (auto simp: List.insert_def)

lemma order_update_cases:
  obtains (same) "order_update sy i st s = s"
  | (gone) ids where "sy \<noteq> []" "map_of (br_internal_orders s) sy = Some ids" "removeAll i ids = []"
      "order_update sy i st s = s\<lparr>br_internal_orders := AList.delete sy (br_internal_orders s)\<rparr>"
  | (left) ids where "sy \<noteq> []" "map_of (br_internal_orders s) sy = Some ids" "removeAll i ids \<noteq> []"
      "order_update sy i st s =
         s\<lparr>br_internal_orders := AList.update sy (removeAll i ids) (br_internal_orders s)\<rparr>"
proof (cases "sy \<noteq> [] \<and> i \<noteq> [] \<and>
    st \<in> set (map order_status_value [OS_FILLED, OS_CANCELLED, OS_REJECTED, OS_EXPIRED])")
  case False
  then show thesis by (intro same) (auto simp: order_update_def)
next
  case True
  then have eq: "order_update sy i st s = (case map_of (br_internal_orders s) sy of
          None \<Rightarrow> s
        | Some ids \<Rightarrow>
            (let ids' = removeAll i ids
             in s\<lparr>br_internal_orders :=
                   (if ids' = [] then AList.delete sy (br_internal_orders s)
                    else AList.update sy ids' (br_internal_orders s))\<rparr>))"
    unfolding order_update_def by (simp only: if_True simp_thms)
  show thesis
  proof (cases "map_of (br_internal_orders s) sy")
    case (Some ids)
    with True eq gone left show thesis by (cases "removeAll i ids = []") (simp_all add: Let_def)
  qed (use eq same in simp)
qed

lemma shadow_step_ok: "shadow_ok s \<Longrightarrow> shadow_ok (bra_step mb s e)"
proof (cases e)
  case (Bra_Submitted sy i)
  assume ok: "shadow_ok s"
  let ?ids = "case map_of (br_internal_orders s) sy of None \<Rightarrow> [] | Some ids \<Rightarrow> ids"
  have "distinct ?ids"
    using ok tracked_ids [of "br_internal_orders s" sy]
    by (cases "map_of (br_internal_orders s) sy") (simp_all add: shadow_ok_def)
  then have "sy \<noteq> [] \<Longrightarrow> shadow_row (sy, List.insert i ?ids)"
    by (rule shadow_row_insert)
  then show ?thesis
    using ok Bra_Submitted list_all_update [of shadow_row "br_internal_orders s" sy "List.insert i ?ids"]
    by (auto simp: bra_step_def order_submitted_def shadow_ok_def track_order_def distinct_update)
next
  case (Bra_Order_Update sy i st)
  assume ok: "shadow_ok s"
  have step: "bra_step mb s e = order_update sy i st s"
    using Bra_Order_Update by (simp add: bra_step_def)
  show ?thesis
  proof (cases rule: order_update_cases [of sy i st s])
    case same
    with ok step show ?thesis by simp
  next
    case (gone ids)
    with ok step show ?thesis by (simp add: shadow_ok_def list_all_delete distinct_keys_delete)
  next
    case (left ids)
    then have "shadow_row (sy, removeAll i ids)"
      using ok tracked_ids [of "br_internal_orders s" sy ids] by (simp add: shadow_ok_def distinct_removeAll)
    with ok step left show ?thesis
      by (simp add: shadow_ok_def distinct_update list_all_update del: shadow_row.simps)
  qed
qed (auto simp: bra_step_def shadow_ok_def position_update_def run_reconciliation_def Let_def)

interpretation shadow: inv_machine "bra_step mb" shadow_ok
  by unfold_locales (rule shadow_step_ok)

lemma shadow_init_ok: "shadow_ok bra_init"
  by (simp add: shadow_ok_def bra_init_def)

lemma shadow_step_refines:
  assumes "shadow_ok s"
  shows "shadow_orders (bra_step mb s e) = orders_spec (shadow_orders s) e"
proof (cases e)
  case (Bra_Submitted sy i)
  then show ?thesis
    by (auto simp: bra_step_def order_submitted_def shadow_orders_def track_order_def update_conv'
        split: if_splits option.splits)
next
  case (Bra_Order_Update sy i st)
  show ?thesis
  proof (cases "map_of (br_internal_orders s) sy")
    case None
    with Bra_Order_Update show ?thesis
      by (auto simp: bra_step_def order_update_def shadow_orders_def)
  next
    case (Some ids)
    have "removeAll i ids = [] \<Longrightarrow> set ids \<subseteq> {i}" by (auto simp: removeAll_filter_not_eq filter_empty_conv)
    with Bra_Order_Update Some show ?thesis
      by (auto simp: bra_step_def order_update_def shadow_orders_def Let_def update_conv' delete_conv'
          split: if_splits)
  qed
qed (auto simp: bra_step_def shadow_orders_def position_update_def run_reconciliation_def Let_def)

text \<open>
  The shadow of the open orders is what the messages say it is: over any run of messages and
  reconciliations the pairs of symbol and order it holds are those of a set into which a
  submission puts its pair and from which an update with a final status takes it; and it holds
  no symbol without an order.
\<close>

theorem shadow_refines_order_set:
  fixes mb :: pyfloat and es :: "bra_event list"
  defines "s \<equiv> foldl (bra_step mb) bra_init es"
  shows "shadow_orders s = foldl orders_spec {} es \<and> shadow_ok s"
proof -
  have "shadow_ok s" unfolding s_def by (rule shadow.run_inv) (rule shadow_init_ok)
  moreover have "shadow_orders s = foldl orders_spec {} es"
    unfolding s_def
  proof (induction es rule: rev_induct)
    case Nil
    show ?case by (simp add: shadow_orders_def bra_init_def)
  next
    case (snoc e es)
    have "shadow_ok (foldl (bra_step mb) bra_init es)" by (rule shadow.run_inv) (rule shadow_init_ok)
    with snoc show ?case by (simp add: shadow_step_refines)
  qed
  ultimately show ?thesis by simp
qed

text \<open>
  A symbol reported open and never reported closed stays in the shadow, and every later
  reconciliation with a broker that has no position in it is a mismatch.
\<close>

lemma unclosed_position_mismatch:
  fixes mb :: pyfloat and es :: "bra_event list"
  defines "s \<equiv> foldl (bra_step mb) bra_init es"
  assumes "Bra_Position_Update sy False \<in> set es" and "Bra_Position_Update sy True \<notin> set es"
    and "sy \<noteq> []" and "sy \<notin> bp_symbol ` set (bv_positions v)"
  shows "rr_status (make_report mb now store (Inr v) s) = RS_MISMATCH"
proof -
  have "sy \<in> br_internal_positions s"
    using assms(2,3) unfolding s_def
  proof (induction es rule: rev_induct)
    case (snoc e es)
    then show ?case
      using assms(4)
      by (cases e) (auto simp: bra_step_def order_submitted_def order_update_def position_update_def
          run_reconciliation_def Let_def split: option.splits)
  qed simp
  moreover have "shadow_ok s" unfolding s_def by (rule shadow.run_inv) (rule shadow_init_ok)
  ultimately show ?thesis
    using assms(5) by (intro position_mismatch) (auto simp: shadow_ok_def all_internal_def)
qed

end
