(* ===== verification/Monitoring.thy ===== *)
theory Monitoring
  imports Models
begin

text \<open>
  The micro-monitoring agent of \<open>agents/agent_11_micro_monitoring.py\<close> (class
  \<open>MicroMonitoringAgent\<close>): the monitors it opens for fills, the exits it checks every 100 ms (time
  stop, price stop, range expansion, doubled spread), the trailing stop, and the tightening of the
  stops when the regime changes. The answers of the feed and of the store, and the clock, are
  arguments. What the agent stores, publishes and audits is the list it emits. A handler and the
  evaluation of a position each run to their end before the next one starts. A number formatted
  into the reason of an exit is left out of the text.
\<close>

section \<open>State\<close>

record mma =
  mm_monitors :: "(string \<times> position) list"
  mm_entry_spreads :: "(string \<times> pyfloat) list"
  mm_position_orders :: "(string \<times> string) list"
  mm_current_regime :: regime_label
  mm_atr_history :: "(symbol \<times> pyfloat list) list"
  mm_adverse_excursion :: "(string \<times> pyfloat) list"
  mm_regime_tightened :: "string list"
  mm_atr_expansion_factor :: pyfloat

definition mma_init :: mma where
  "mma_init = \<lparr>mm_monitors = [], mm_entry_spreads = [], mm_position_orders = [],
     mm_current_regime = TREND_DAY, mm_atr_history = [], mm_adverse_excursion = [],
     mm_regime_tightened = [], mm_atr_expansion_factor = 15 / 10\<rparr>"

text \<open>
  The payloads of \<open>POSITION_UPDATE\<close>: the dump of a position, the part of one that the exit agent
  sends, and a closing.
\<close>

datatype position_message =
    Whole_Position position
  | Stop_Change string symbol pyfloat timestamp
  | Position_Closed string symbol

record exit_message =
  ex_position_id :: string
  ex_symbol :: symbol
  ex_mode :: exit_mode
  ex_current_price :: pyfloat
  ex_reason :: string
  ex_adverse_excursion :: pyfloat
  ex_triggered_at :: timestamp

datatype mma_effect =
    Mma_Save_Position position
  | Publish_Position position
  | Publish_Exit exit_message
  | Audit_Regime_Tightened symbol string pyfloat
  | Audit_Exit symbol string exit_mode

record feed_view =
  fv_tick :: "string + market_tick option"
  fv_bars :: "string + bar_data list"

section \<open>Fills and external updates\<close>

text \<open>
  The retry loop of \<open>_handle_fill_event\<close>: the first position of the symbol that is not
  monitored yet, in the first of five loads of the store that has one.
\<close>

fun find_position :: "nat \<Rightarrow> symbol \<Rightarrow> (string \<times> position) list \<Rightarrow> position list list \<Rightarrow> position option" where
  "find_position 0 sy ms loads = None"
| "find_position n sy ms [] = None"
| "find_position (Suc n) sy ms (ps # loads) =
     (case find (\<lambda>p. pos_symbol p = sy \<and> map_of ms (pos_position_id p) = None) ps of
        Some p \<Rightarrow> Some p
      | None \<Rightarrow> find_position n sy ms loads)"

definition handle_fill_event ::
  "fill_event \<Rightarrow> position list list \<Rightarrow> string + market_tick option \<Rightarrow> mma \<Rightarrow> mma" where
  "handle_fill_event f loads tick s =
     (if fe_symbol f = [] \<or> fe_price f \<le> 0 \<or> fe_qty f \<le> 0 then s
      else
        (case find_position 5 (fe_symbol f) (mm_monitors s) loads of
           None \<Rightarrow> s
         | Some p \<Rightarrow>
             (let i = pos_position_id p;
                  entry_spread = (case tick of Inr (Some t) \<Rightarrow> tick_spread t | _ \<Rightarrow> 0)
              in s\<lparr>mm_monitors := AList.update i p (mm_monitors s),
                   mm_entry_spreads := AList.update i entry_spread (mm_entry_spreads s),
                   mm_position_orders := AList.update i (fe_order_id f) (mm_position_orders s),
                   mm_adverse_excursion := AList.update i 0 (mm_adverse_excursion s)\<rparr>)))"

definition forget :: "string \<Rightarrow> mma \<Rightarrow> mma" where
  "forget i s = s\<lparr>mm_monitors := AList.delete i (mm_monitors s),
     mm_entry_spreads := AList.delete i (mm_entry_spreads s),
     mm_position_orders := AList.delete i (mm_position_orders s),
     mm_adverse_excursion := AList.delete i (mm_adverse_excursion s),
     mm_regime_tightened := removeAll i (mm_regime_tightened s)\<rparr>"

text \<open>A part of a position does not parse as one, and is dropped.\<close>

fun handle_position_update :: "position_message \<Rightarrow> mma \<Rightarrow> mma" where
  "handle_position_update (Position_Closed i sy) s = (if i = [] then s else forget i s)"
| "handle_position_update (Whole_Position p) s =
     (let i = pos_position_id p in
      if i = [] then s
      else if map_of (mm_monitors s) i \<noteq> None
      then s\<lparr>mm_monitors := AList.update i p (mm_monitors s)\<rparr> else s)"
| "handle_position_update (Stop_Change i sy stop t) s = s"

section \<open>Exits\<close>

definition trigger_exit :: "timestamp \<Rightarrow> exit_mode \<Rightarrow> string \<Rightarrow> position \<Rightarrow> mma \<Rightarrow> mma \<times> mma_effect list" where
  "trigger_exit now mode why p s =
     (let i = pos_position_id p
      in (forget i s,
          [Publish_Exit \<lparr>ex_position_id = i, ex_symbol = pos_symbol p, ex_mode = mode,
             ex_current_price = pos_current_price p, ex_reason = why,
             ex_adverse_excursion = (case map_of (mm_adverse_excursion s) i of None \<Rightarrow> 0 | Some x \<Rightarrow> x),
             ex_triggered_at = now\<rparr>,
           Audit_Exit (pos_symbol p) i mode]))"

definition effective_stop :: "position \<Rightarrow> pyfloat" where
  "effective_stop p = (case pos_trailing_stop p of None \<Rightarrow> pos_stop_price p | Some x \<Rightarrow> x)"

definition stop_hit :: "position \<Rightarrow> pyfloat \<Rightarrow> bool" where
  "stop_hit p price =
     (if pos_direction p = LONG then price \<le> effective_stop p else effective_stop p \<le> price)"

definition excursion :: "position \<Rightarrow> pyfloat \<Rightarrow> pyfloat" where
  "excursion p price =
     (if pos_direction p = LONG then max 0 (pos_entry_price p - price)
      else max 0 (price - pos_entry_price p)) * of_int (pos_shares p)"

text \<open>
  \<open>_check_atr_expansion\<close>: the true ranges of consecutive bars, and whether the last one exceeds
  the factor times their mean; the history is replaced whenever there are two bars.
\<close>

fun true_ranges :: "bar_data list \<Rightarrow> pyfloat list" where
  "true_ranges (a # b # bs) =
     max (bd_high b - bd_low b)
       (max \<bar>bd_high b - bd_close a\<bar> \<bar>bd_low b - bd_close a\<bar>) # true_ranges (b # bs)"
| "true_ranges bs = []"

definition check_atr_expansion :: "symbol \<Rightarrow> string + bar_data list \<Rightarrow> mma \<Rightarrow> mma \<times> bool" where
  "check_atr_expansion sy r s =
     (case r of
        Inl _ \<Rightarrow> (s, False)
      | Inr bars \<Rightarrow>
          if length bars < 2 then (s, False)
          else
            let tr = true_ranges bars; current_tr = last tr;
                avg_atr = sum_list tr / of_nat (length tr);
                s = s\<lparr>mm_atr_history := AList.update sy tr (mm_atr_history s)\<rparr>
            in if avg_atr \<le> 0 then (s, False)
               else (s, mm_atr_expansion_factor s < current_tr / avg_atr))"

section \<open>The trailing stop\<close>

definition profit_in_r :: "position \<Rightarrow> pyfloat \<Rightarrow> pyfloat" where
  "profit_in_r p price =
     (if pos_direction p = LONG then price - pos_entry_price p else pos_entry_price p - price) /
     \<bar>pos_entry_price p - pos_stop_price p\<bar>"

definition improves :: "position \<Rightarrow> pyfloat \<Rightarrow> bool" where
  "improves p candidate =
     (case pos_trailing_stop p of
        None \<Rightarrow> True
      | Some x \<Rightarrow> if pos_direction p = LONG then x < candidate else candidate < x)"

definition trail_candidate :: "position \<Rightarrow> pyfloat \<Rightarrow> pyfloat option" where
  "trail_candidate p price =
     (let risk_per_share = \<bar>pos_entry_price p - pos_stop_price p\<bar>;
          trail_stop = (if pos_direction p = LONG then pos_entry_price p + 1 / 2 * risk_per_share
                        else pos_entry_price p - 1 / 2 * risk_per_share)
      in if 3 / 2 \<le> profit_in_r p price then Some trail_stop
         else if 1 \<le> profit_in_r p price then Some (pos_entry_price p)
         else None)"

definition update_trailing_stop ::
  "timestamp \<Rightarrow> position \<Rightarrow> pyfloat \<Rightarrow> mma \<Rightarrow> mma \<times> mma_effect list" where
  "update_trailing_stop now p price s =
     (if \<bar>pos_entry_price p - pos_stop_price p\<bar> \<le> 0 then (s, [])
      else
        (case trail_candidate p price of
           None \<Rightarrow> (s, [])
         | Some c \<Rightarrow>
             if improves p c
             then let q = p\<lparr>pos_trailing_stop := Some c, pos_updated_at := now\<rparr>
                  in (s\<lparr>mm_monitors := AList.update (pos_position_id p) q (mm_monitors s)\<rparr>,
                      [Mma_Save_Position q, Publish_Position q])
             else (s, [])))"

section \<open>The evaluation of a position\<close>

definition evaluate_position ::
  "timestamp \<Rightarrow> feed_view \<Rightarrow> string \<Rightarrow> position \<Rightarrow> mma \<Rightarrow> mma \<times> mma_effect list" where
  "evaluate_position now fv i p s =
     (if pos_time_stop_at p \<le> now then trigger_exit now TIME_STOP ''Time stop reached'' p s
      else
        (case fv_tick fv of
           Inr (Some t) \<Rightarrow>
             let price = tick_mid t;
                 p = p\<lparr>pos_current_price := price, pos_updated_at := now\<rparr>;
                 s = s\<lparr>mm_monitors := AList.update i p (mm_monitors s)\<rparr>
             in if stop_hit p price
                then trigger_exit now VOLATILITY_SHOCK ''Price crossed stop'' p s
                else
                  let prev = (case map_of (mm_adverse_excursion s) i of None \<Rightarrow> 0 | Some x \<Rightarrow> x);
                      s = s\<lparr>mm_adverse_excursion :=
                              AList.update i (max prev (excursion p price)) (mm_adverse_excursion s)\<rparr>;
                      (s, expanded) = check_atr_expansion (pos_symbol p) (fv_bars fv) s
                  in if expanded
                     then trigger_exit now VOLATILITY_SHOCK ''ATR expansion exceeded threshold'' p s
                     else
                       let entry_spread =
                             (case map_of (mm_entry_spreads s) i of None \<Rightarrow> 0 | Some x \<Rightarrow> x)
                       in if 0 < entry_spread \<and> 2 * entry_spread < tick_spread t
                          then trigger_exit now VOLATILITY_SHOCK ''Spread doubled'' p s
                          else update_trailing_stop now p price s
         | _ \<Rightarrow> (s, [])))"

text \<open>One pass of the loop over the positions monitored when it starts.\<close>

fun evaluate_all ::
  "timestamp \<Rightarrow> (symbol \<Rightarrow> feed_view) \<Rightarrow> (string \<times> position) list \<Rightarrow> mma \<Rightarrow> mma \<times> mma_effect list" where
  "evaluate_all now feed [] s = (s, [])"
| "evaluate_all now feed ((i, p) # ps) s =
     (let (s, out) = evaluate_position now (feed (pos_symbol p)) i p s;
          (s, rest) = evaluate_all now feed ps s
      in (s, out @ rest))"

section \<open>The regime\<close>

definition tightened_stop :: "position \<Rightarrow> pyfloat" where
  "tightened_stop p =
     (let risk = \<bar>pos_entry_price p - pos_stop_price p\<bar> * (1 / 2) in
      if pos_direction p = LONG then max (pos_entry_price p - risk) (pos_stop_price p)
      else min (pos_entry_price p + risk) (pos_stop_price p))"

definition tighten :: "timestamp \<Rightarrow> position \<Rightarrow> position" where
  "tighten now p = p\<lparr>pos_stop_price := tightened_stop p,
     pos_time_stop_at := min (pos_time_stop_at p) (now + seconds 60), pos_updated_at := now\<rparr>"

definition apply_regime_flip :: "timestamp \<Rightarrow> mma \<Rightarrow> mma \<times> mma_effect list" where
  "apply_regime_flip now s =
     (let todo = filter (\<lambda>(i, p). i \<notin> set (mm_regime_tightened s)) (mm_monitors s)
      in (s\<lparr>mm_monitors := map (\<lambda>(i, p). (i, if i \<in> set (mm_regime_tightened s) then p else tighten now p))
                             (mm_monitors s),
            mm_regime_tightened := mm_regime_tightened s @ map fst todo\<rparr>,
          concat (map (\<lambda>(i, p). let q = tighten now p in
            [Mma_Save_Position q, Publish_Position q,
             Audit_Regime_Tightened (pos_symbol q) i (pos_stop_price q)]) todo)))"

definition parse_regime :: "string \<Rightarrow> regime_label option" where
  "parse_regime l = find (\<lambda>r. regime_value r = l) all_regimes"

definition handle_regime_update :: "timestamp \<Rightarrow> string \<Rightarrow> mma \<Rightarrow> mma \<times> mma_effect list" where
  "handle_regime_update now label s =
     (case parse_regime label of
        None \<Rightarrow> (s, [])
      | Some r \<Rightarrow>
          let old = mm_current_regime s; s = s\<lparr>mm_current_regime := r\<rparr>
          in if old \<noteq> r \<and> mm_monitors s \<noteq> [] then apply_regime_flip now s else (s, []))"

section \<open>The agent\<close>

datatype mma_event =
    Mma_Fill fill_event "position list list" "string + market_tick option"
  | Mma_Position position_message
  | Mma_Regime timestamp string
  | Mma_Tick timestamp "symbol \<Rightarrow> feed_view"

fun mma_act :: "mma \<Rightarrow> mma_event \<Rightarrow> mma \<times> mma_effect list" where
  "mma_act s (Mma_Fill f loads tick) = (handle_fill_event f loads tick s, [])"
| "mma_act s (Mma_Position m) = (handle_position_update m s, [])"
| "mma_act s (Mma_Regime now label) = handle_regime_update now label s"
| "mma_act s (Mma_Tick now feed) = evaluate_all now feed (mm_monitors s) s"

definition mma_step :: "mma \<Rightarrow> mma_event \<Rightarrow> mma" where
  "mma_step s e = fst (mma_act s e)"

definition mma_emits :: "mma \<Rightarrow> mma_event \<Rightarrow> mma_effect list" where
  "mma_emits s e = snd (mma_act s e)"

section \<open>Monitors\<close>

text \<open>Every monitor is kept under its position's own identifier.\<close>

definition mma_ok :: "mma \<Rightarrow> bool" where
  "mma_ok s \<longleftrightarrow> distinct (map fst (mm_monitors s)) \<and>
     list_all (\<lambda>(i, p). pos_position_id p = i) (mm_monitors s)"

lemma monitored_id:
  "mma_ok s \<Longrightarrow> map_of (mm_monitors s) i = Some p \<Longrightarrow> pos_position_id p = i"
  by (auto simp: mma_ok_def list_all_iff dest!: map_of_SomeD)

lemma mma_ok_update:
  "mma_ok s \<Longrightarrow> pos_position_id p = i \<Longrightarrow> mma_ok (s\<lparr>mm_monitors := AList.update i p (mm_monitors s)\<rparr>)"
  by (simp add: mma_ok_def distinct_update list_all_update)

lemma mma_ok_other [simp]:
  "mma_ok (s\<lparr>mm_entry_spreads := a\<rparr>) = mma_ok s" "mma_ok (s\<lparr>mm_position_orders := b\<rparr>) = mma_ok s"
  "mma_ok (s\<lparr>mm_adverse_excursion := c\<rparr>) = mma_ok s" "mma_ok (s\<lparr>mm_atr_history := d\<rparr>) = mma_ok s"
  "mma_ok (s\<lparr>mm_current_regime := r\<rparr>) = mma_ok s" "mma_ok (s\<lparr>mm_regime_tightened := t\<rparr>) = mma_ok s"
  by (simp_all add: mma_ok_def)

lemma mma_ok_forget: "mma_ok s \<Longrightarrow> mma_ok (forget i s)"
  by (simp add: mma_ok_def forget_def distinct_keys_delete list_all_delete)

lemma check_atr_monitors:
  "mm_monitors (fst (check_atr_expansion sy r s)) = mm_monitors s"
  "mm_adverse_excursion (fst (check_atr_expansion sy r s)) = mm_adverse_excursion s"
  "mm_entry_spreads (fst (check_atr_expansion sy r s)) = mm_entry_spreads s"
  "mm_regime_tightened (fst (check_atr_expansion sy r s)) = mm_regime_tightened s"
  by (simp_all add: check_atr_expansion_def Let_def split: sum.split)

lemma forget_monitors: "map_of (mm_monitors (forget i s)) = (map_of (mm_monitors s))(i := None)"
  by (simp add: forget_def delete_conv')

lemma trailing_monitors:
  "mm_monitors (fst (update_trailing_stop now p price s)) =
     (if pos_entry_price p = pos_stop_price p then mm_monitors s
      else case trail_candidate p price of
          None \<Rightarrow> mm_monitors s
        | Some c \<Rightarrow>
            if improves p c
            then AList.update (pos_position_id p) (p\<lparr>pos_trailing_stop := Some c, pos_updated_at := now\<rparr>)
                   (mm_monitors s)
            else mm_monitors s)"
  by (simp add: update_trailing_stop_def Let_def split: option.split)

section \<open>Stops only tighten\<close>

text \<open>
  A position whose stop lies on the losing side of its entry, and whose trailing stop, once it
  has one, on the other.
\<close>

definition sound :: "position \<Rightarrow> bool" where
  "sound p \<longleftrightarrow>
     (if pos_direction p = LONG
      then pos_stop_price p \<le> pos_entry_price p \<and>
        (case pos_trailing_stop p of None \<Rightarrow> True | Some x \<Rightarrow> pos_entry_price p \<le> x)
      else pos_entry_price p \<le> pos_stop_price p \<and>
        (case pos_trailing_stop p of None \<Rightarrow> True | Some x \<Rightarrow> x \<le> pos_entry_price p))"

text \<open>A stop of one kind moved in the position's favour, or stayed; a trailing stop, once there, stays.\<close>

definition stop_kept :: "direction \<Rightarrow> pyfloat \<Rightarrow> pyfloat \<Rightarrow> bool" where
  "stop_kept d a b \<longleftrightarrow> (if d = LONG then a \<le> b else b \<le> a)"

definition trail_kept :: "direction \<Rightarrow> pyfloat option \<Rightarrow> pyfloat option \<Rightarrow> bool" where
  "trail_kept d a b \<longleftrightarrow>
     (case a of None \<Rightarrow> True | Some x \<Rightarrow> (case b of None \<Rightarrow> False | Some y \<Rightarrow> stop_kept d x y))"

definition no_looser :: "position \<Rightarrow> position \<Rightarrow> bool" where
  "no_looser p q \<longleftrightarrow> pos_direction q = pos_direction p \<and> pos_entry_price q = pos_entry_price p \<and>
     pos_time_stop_at q \<le> pos_time_stop_at p \<and>
     stop_kept (pos_direction p) (pos_stop_price p) (pos_stop_price q) \<and>
     trail_kept (pos_direction p) (pos_trailing_stop p) (pos_trailing_stop q) \<and>
     (if pos_direction p = LONG then effective_stop p \<le> effective_stop q
      else effective_stop q \<le> effective_stop p)"

lemma kept_refl [simp]: "stop_kept d a a" "trail_kept d b b"
  by (simp_all add: stop_kept_def trail_kept_def split: option.split)

lemma stop_kept_trans: "stop_kept d a b \<Longrightarrow> stop_kept d b c \<Longrightarrow> stop_kept d a c"
  by (auto simp: stop_kept_def split: if_splits)

lemma trail_kept_trans: "trail_kept d a b \<Longrightarrow> trail_kept d b c \<Longrightarrow> trail_kept d a c"
  by (auto simp: trail_kept_def split: option.splits intro: stop_kept_trans)

lemma no_looser_refl: "no_looser p p"
  by (simp add: no_looser_def)

lemma no_looser_trans:
  assumes "no_looser p q" and "no_looser q r"
  shows "no_looser p r"
  using assms stop_kept_trans [of "pos_direction p" "pos_stop_price p" "pos_stop_price q" "pos_stop_price r"]
    trail_kept_trans [of "pos_direction p" "pos_trailing_stop p" "pos_trailing_stop q" "pos_trailing_stop r"]
  by (auto simp: no_looser_def split: if_splits)

lemma reprice_no_looser:
  "no_looser p (p\<lparr>pos_current_price := x, pos_updated_at := t\<rparr>)"
  "sound (p\<lparr>pos_current_price := x, pos_updated_at := t\<rparr>) = sound p"
  by (cases "pos_trailing_stop p"; simp add: no_looser_def effective_stop_def sound_def)+

lemma trail_no_looser:
  assumes "sound p" and "trail_candidate p price = Some c" and "improves p c"
  shows "no_looser p (p\<lparr>pos_trailing_stop := Some c, pos_updated_at := t\<rparr>) \<and>
    sound (p\<lparr>pos_trailing_stop := Some c, pos_updated_at := t\<rparr>)"
proof -
  have "if pos_direction p = LONG then pos_entry_price p \<le> c else c \<le> pos_entry_price p"
    using assms(2) by (auto simp: trail_candidate_def Let_def split: if_splits)
  then show ?thesis
    using assms(1,3)
    by (cases "pos_trailing_stop p")
       (auto simp: no_looser_def sound_def effective_stop_def improves_def trail_kept_def stop_kept_def
          split: if_splits)
qed

lemma tightened_stop_eq:
  assumes "sound p"
  shows "tightened_stop p = (pos_entry_price p + pos_stop_price p) / 2"
proof (cases "pos_direction p")
  case LONG
  then have "\<bar>pos_entry_price p - pos_stop_price p\<bar> = pos_entry_price p - pos_stop_price p"
    using assms by (simp add: sound_def)
  with LONG assms show ?thesis by (simp add: tightened_stop_def sound_def max_def field_simps)
next
  case SHORT
  then have "\<bar>pos_entry_price p - pos_stop_price p\<bar> = pos_stop_price p - pos_entry_price p"
    using assms by (simp add: sound_def)
  with SHORT assms show ?thesis by (simp add: tightened_stop_def sound_def min_def field_simps)
qed

lemma tighten_no_looser: "sound p \<Longrightarrow> no_looser p (tighten now p) \<and> sound (tighten now p)"
  using tightened_stop_eq [of p]
  by (cases "pos_direction p"; cases "pos_trailing_stop p")
     (simp_all add: no_looser_def sound_def effective_stop_def tighten_def stop_kept_def)

text \<open>A position that is still monitored after a step has no looser a stop than before.\<close>

definition tracks :: "mma \<Rightarrow> mma \<Rightarrow> bool" where
  "tracks s s' \<longleftrightarrow> (\<forall>i q. map_of (mm_monitors s') i = Some q \<longrightarrow>
     (\<exists>p. map_of (mm_monitors s) i = Some p \<and> (sound p \<longrightarrow> no_looser p q \<and> sound q)))"

lemma tracks_refl: "tracks s s"
  by (simp add: tracks_def no_looser_refl)

lemma tracksD:
  "tracks s s' \<Longrightarrow> map_of (mm_monitors s') i = Some q \<Longrightarrow>
   \<exists>p. map_of (mm_monitors s) i = Some p \<and> (sound p \<longrightarrow> no_looser p q \<and> sound q)"
  by (simp add: tracks_def)

lemma tracks_trans:
  assumes "tracks s t" and "tracks t u"
  shows "tracks s u"
  unfolding tracks_def
proof (intro allI impI)
  fix i q
  assume "map_of (mm_monitors u) i = Some q"
  with tracksD [OF assms(2)] obtain r where r: "map_of (mm_monitors t) i = Some r"
    "sound r \<longrightarrow> no_looser r q \<and> sound q" by blast
  with tracksD [OF assms(1)] obtain p where "map_of (mm_monitors s) i = Some p"
    "sound p \<longrightarrow> no_looser p r \<and> sound r" by blast
  with r(2) show "\<exists>p. map_of (mm_monitors s) i = Some p \<and> (sound p \<longrightarrow> no_looser p q \<and> sound q)"
    using no_looser_trans [of p r q] by blast
qed

lemma tracks_update:
  assumes "map_of (mm_monitors s) i = Some p" and "sound p \<Longrightarrow> no_looser p q \<and> sound q"
    and "mm_monitors s' = AList.update i q (mm_monitors s)"
  shows "tracks s s'"
  using assms by (auto simp: tracks_def update_conv' no_looser_refl)

lemma tracks_forget: "mm_monitors s' = mm_monitors s \<Longrightarrow> tracks s (forget i s')"
  by (auto simp: tracks_def forget_monitors no_looser_refl)

text \<open>
  The states an evaluation can end in: unchanged, forgotten, or, once a tick is read, repriced and
  then forgotten or checked and trailed.
\<close>

definition reprice :: "timestamp \<Rightarrow> market_tick \<Rightarrow> position \<Rightarrow> position" where
  "reprice now t p = p\<lparr>pos_current_price := tick_mid t, pos_updated_at := now\<rparr>"

definition after_price :: "timestamp \<Rightarrow> market_tick \<Rightarrow> string \<Rightarrow> position \<Rightarrow> mma \<Rightarrow> mma" where
  "after_price now t i p s = s\<lparr>mm_monitors := AList.update i (reprice now t p) (mm_monitors s)\<rparr>"

definition after_checks :: "timestamp \<Rightarrow> market_tick \<Rightarrow> feed_view \<Rightarrow> string \<Rightarrow> position \<Rightarrow> mma \<Rightarrow> mma" where
  "after_checks now t fv i p s =
     (let s1 = after_price now t i p s; q = reprice now t p;
          prev = (case map_of (mm_adverse_excursion s1) i of None \<Rightarrow> 0 | Some x \<Rightarrow> x);
          s2 = s1\<lparr>mm_adverse_excursion :=
                 AList.update i (max prev (excursion q (tick_mid t))) (mm_adverse_excursion s1)\<rparr>
      in fst (check_atr_expansion (pos_symbol q) (fv_bars fv) s2))"

lemma after_monitors:
  "mm_monitors (after_price now t i p s) = AList.update i (reprice now t p) (mm_monitors s)"
  "mm_monitors (after_checks now t fv i p s) = AList.update i (reprice now t p) (mm_monitors s)"
  by (simp_all add: after_price_def after_checks_def Let_def check_atr_monitors)

lemma evaluate_forms:
  assumes "pos_position_id p = i"
  obtains (same) "fst (evaluate_position now fv i p s) = s"
  | (left) s' where "fst (evaluate_position now fv i p s) = forget i s'"
      "mm_monitors s' = mm_monitors s \<or> (\<exists>t. mm_monitors s' = AList.update i (reprice now t p) (mm_monitors s))"
  | (stays) t where "fst (evaluate_position now fv i p s) =
      fst (update_trailing_stop now (reprice now t p) (tick_mid t) (after_checks now t fv i p s))"
proof (cases "pos_time_stop_at p \<le> now \<or> (\<forall>t. fv_tick fv \<noteq> Inr (Some t))")
  case True
  with assms same left [of s] show thesis
    by (cases "pos_time_stop_at p \<le> now")
      (auto simp: evaluate_position_def trigger_exit_def Let_def split: sum.splits option.splits)
next
  case False
  then obtain t where t: "fv_tick fv = Inr (Some t)" "\<not> pos_time_stop_at p \<le> now" by auto
  have q: "p\<lparr>pos_current_price := tick_mid t, pos_updated_at := now\<rparr> = reprice now t p"
    "pos_position_id (reprice now t p) = i"
    using assms by (simp_all add: reprice_def)
  have "fst (evaluate_position now fv i p s) \<in>
      {forget i (after_price now t i p s), forget i (after_checks now t fv i p s),
       fst (update_trailing_stop now (reprice now t p) (tick_mid t) (after_checks now t fv i p s))}"
    using t q(2) unfolding evaluate_position_def after_checks_def after_price_def
    by (auto simp: Let_def q(1) trigger_exit_def split: prod.splits)
  then show thesis using left stays after_monitors by blast
qed

lemma trailing_other:
  "pos_position_id q = i \<Longrightarrow> j \<noteq> i \<Longrightarrow>
   map_of (mm_monitors (fst (update_trailing_stop now q x s))) j = map_of (mm_monitors s) j"
  by (cases "trail_candidate q x") (simp_all add: trailing_monitors update_conv')

lemma evaluate_other:
  assumes "pos_position_id p = i" and "j \<noteq> i"
  shows "map_of (mm_monitors (fst (evaluate_position now fv i p s))) j = map_of (mm_monitors s) j"
proof (rule evaluate_forms [OF assms(1), of now fv s])
  fix s'
  assume "fst (evaluate_position now fv i p s) = forget i s'" and
    "mm_monitors s' = mm_monitors s \<or> (\<exists>t. mm_monitors s' = AList.update i (reprice now t p) (mm_monitors s))"
  then show ?thesis using assms(2) by (auto simp: forget_monitors update_conv')
next
  fix t
  assume "fst (evaluate_position now fv i p s) =
      fst (update_trailing_stop now (reprice now t p) (tick_mid t) (after_checks now t fv i p s))"
  moreover have "pos_position_id (reprice now t p) = i" using assms(1) by (simp add: reprice_def)
  ultimately show ?thesis using assms(2) by (simp add: trailing_other after_monitors update_conv')
qed simp

lemma evaluate_ok:
  assumes "pos_position_id p = i" and ok: "mma_ok s"
  shows "mma_ok (fst (evaluate_position now fv i p s))"
proof (rule evaluate_forms [OF assms(1), of now fv s])
  fix s'
  assume f: "fst (evaluate_position now fv i p s) = forget i s'" and
    m: "mm_monitors s' = mm_monitors s \<or> (\<exists>t. mm_monitors s' = AList.update i (reprice now t p) (mm_monitors s))"
  have "pos_position_id (reprice now t p) = i" for t using assms(1) by (simp add: reprice_def)
  then have "mma_ok s'" using m ok by (auto simp: mma_ok_def distinct_update list_all_update)
  with f show ?thesis by (simp add: mma_ok_forget)
next
  fix t
  assume f: "fst (evaluate_position now fv i p s) =
      fst (update_trailing_stop now (reprice now t p) (tick_mid t) (after_checks now t fv i p s))"
  have "pos_position_id (reprice now t p) = i" using assms(1) by (simp add: reprice_def)
  with f ok show ?thesis
    by (cases "trail_candidate (reprice now t p) (tick_mid t)")
       (auto simp: mma_ok_def trailing_monitors after_monitors distinct_update list_all_update)
qed (use ok in simp)

lemma evaluate_tracks:
  assumes i: "pos_position_id p = i" and p: "map_of (mm_monitors s) i = Some p"
  shows "tracks s (fst (evaluate_position now fv i p s))"
proof (rule evaluate_forms [OF i, of now fv s])
  assume "fst (evaluate_position now fv i p s) = s"
  then show ?thesis by (simp add: tracks_refl)
next
  fix s'
  assume f: "fst (evaluate_position now fv i p s) = forget i s'" and
    m: "mm_monitors s' = mm_monitors s \<or> (\<exists>t. mm_monitors s' = AList.update i (reprice now t p) (mm_monitors s))"
  then show ?thesis by (auto simp: tracks_def forget_monitors update_conv' no_looser_refl)
next
  fix t
  let ?q = "reprice now t p" and ?s = "after_checks now t fv i p s"
  assume f: "fst (evaluate_position now fv i p s) = fst (update_trailing_stop now ?q (tick_mid t) ?s)"
  have q: "pos_position_id ?q = i" "sound ?q = sound p" "no_looser p ?q"
    using i reprice_no_looser [where p = p] by (simp_all add: reprice_def)
  have s: "tracks s ?s"
    by (rule tracks_update [OF p]) (use q in \<open>simp_all add: after_monitors\<close>)
  have own: "map_of (mm_monitors ?s) i = Some ?q" by (simp add: after_monitors update_conv')
  have "tracks ?s (fst (update_trailing_stop now ?q (tick_mid t) ?s))"
  proof (cases "trail_candidate ?q (tick_mid t)")
    case (Some c)
    show ?thesis
    proof (cases "pos_entry_price ?q = pos_stop_price ?q \<or> \<not> improves ?q c")
      case True
      with Some show ?thesis by (auto simp: tracks_def trailing_monitors no_looser_refl)
    next
      case False
      show ?thesis
        by (rule tracks_update [OF own])
          (use False Some q(1) trail_no_looser [OF _ Some] in \<open>simp_all add: trailing_monitors\<close>)
    qed
  qed (simp add: tracks_def trailing_monitors no_looser_refl)
  with s show ?thesis unfolding f by (rule tracks_trans)
qed

text \<open>What the rest of a pass still sees: the positions after the first are untouched.\<close>

lemma evaluate_rest:
  assumes "pos_position_id p = i" and "distinct (map fst ((i, p) # ps))"
    and "list_all (\<lambda>(i, p). map_of (mm_monitors s) i = Some p) ((i, p) # ps)"
  shows "list_all (\<lambda>(j, q). map_of (mm_monitors (fst (evaluate_position now fv i p s))) j = Some q) ps"
  unfolding list_all_iff
proof (intro ballI, clarify)
  fix j q
  assume j: "(j, q) \<in> set ps"
  then have "j \<noteq> i" using assms(2) by force
  then show "map_of (mm_monitors (fst (evaluate_position now fv i p s))) j = Some q"
    using assms(3) j by (auto simp: list_all_iff evaluate_other [OF assms(1)])
qed

lemma evaluate_all_invariants:
  "mma_ok s \<Longrightarrow> distinct (map fst ps) \<Longrightarrow> list_all (\<lambda>(i, p). map_of (mm_monitors s) i = Some p) ps \<Longrightarrow>
   mma_ok (fst (evaluate_all now feed ps s)) \<and> tracks s (fst (evaluate_all now feed ps s))"
proof (induction ps arbitrary: s)
  case Nil
  then show ?case by (simp add: tracks_refl)
next
  case (Cons k ps)
  obtain i p where k: "k = (i, p)" by (cases k)
  let ?s = "fst (evaluate_position now (feed (pos_symbol p)) i p s)"
  have p: "map_of (mm_monitors s) i = Some p" using Cons.prems(3) k by simp
  have id: "pos_position_id p = i" using monitored_id [OF Cons.prems(1) p] .
  have "list_all (\<lambda>(j, q). map_of (mm_monitors ?s) j = Some q) ps"
    using evaluate_rest [OF id] Cons.prems(2,3) k by simp
  with Cons.IH [of ?s] Cons.prems(1,2) k evaluate_ok [OF id]
  have "mma_ok (fst (evaluate_all now feed ps ?s)) \<and> tracks ?s (fst (evaluate_all now feed ps ?s))" by simp
  then have "mma_ok (fst (evaluate_all now feed ps ?s)) \<and> tracks s (fst (evaluate_all now feed ps ?s))"
    using tracks_trans [OF evaluate_tracks [OF id p, of now "feed (pos_symbol p)"]] by blast
  with k show ?case by (auto simp: Let_def split: prod.splits)
qed

lemma flip_monitors:
  "map_of (mm_monitors (fst (apply_regime_flip now s))) i =
     map_option (\<lambda>p. if i \<in> set (mm_regime_tightened s) then p else tighten now p) (map_of (mm_monitors s) i)"
proof -
  have "map_of (map (\<lambda>(i, p). (i, if i \<in> A then p else f p)) xs) i =
      map_option (\<lambda>p. if i \<in> A then p else f p) (map_of xs i)" for xs :: "(string \<times> position) list" and A f
    by (induction xs) auto
  then show ?thesis by (simp add: apply_regime_flip_def Let_def)
qed

lemma flip_invariants:
  assumes "mma_ok s"
  shows "mma_ok (fst (apply_regime_flip now s))" and "tracks s (fst (apply_regime_flip now s))"
proof -
  have "(fst \<circ> (\<lambda>(i, p). (i, if i \<in> A then p else f p))) = (fst :: string \<times> position \<Rightarrow> string)" for A f
    by auto
  moreover have "list_all (\<lambda>(i, p). pos_position_id p = i) xs \<Longrightarrow>
      list_all (\<lambda>(i, p). pos_position_id p = i) (map (\<lambda>(i, p). (i, if i \<in> A then p else tighten now p)) xs)"
    for xs :: "(string \<times> position) list" and A
    by (induction xs) (auto simp: tighten_def)
  ultimately show "mma_ok (fst (apply_regime_flip now s))"
    using assms by (simp add: apply_regime_flip_def Let_def mma_ok_def)
  show "tracks s (fst (apply_regime_flip now s))"
    using tighten_no_looser no_looser_refl by (auto simp: tracks_def flip_monitors)
qed

lemma regime_invariants:
  assumes "mma_ok s"
  shows "mma_ok (fst (handle_regime_update now label s)) \<and> tracks s (fst (handle_regime_update now label s))"
proof -
  have same: "tracks s s'" if "tracks (s\<lparr>mm_current_regime := r\<rparr>) s'" for r s'
    using that by (simp add: tracks_def)
  have "tracks s (s\<lparr>mm_current_regime := r\<rparr>)" for r
    by (simp add: tracks_def no_looser_refl)
  then show ?thesis
    using assms flip_invariants(1) [of "s\<lparr>mm_current_regime := r\<rparr>" now for r]
      same [OF flip_invariants(2)] tracks_refl
    by (auto simp: handle_regime_update_def Let_def split: option.split)
qed

lemma mma_step_ok: "mma_ok s \<Longrightarrow> mma_ok (mma_step s e)"
proof (cases e)
  case (Mma_Fill f loads tick)
  then show "mma_ok s \<Longrightarrow> ?thesis"
    by (auto simp: mma_step_def handle_fill_event_def Let_def mma_ok_def distinct_update list_all_update
        split: option.split)
next
  case (Mma_Position m)
  then show "mma_ok s \<Longrightarrow> ?thesis"
    by (cases m) (auto simp: mma_step_def Let_def mma_ok_forget mma_ok_update)
next
  case (Mma_Regime now label)
  then show "mma_ok s \<Longrightarrow> ?thesis" by (simp add: mma_step_def regime_invariants)
next
  case (Mma_Tick now feed)
  assume ok: "mma_ok s"
  then have "list_all (\<lambda>(i, p). map_of (mm_monitors s) i = Some p) (mm_monitors s)"
    by (auto simp: mma_ok_def list_all_iff)
  with ok Mma_Tick show ?thesis
    using evaluate_all_invariants [of s "mm_monitors s" now feed] by (simp add: mma_step_def mma_ok_def)
qed

interpretation monitoring: inv_machine mma_step mma_ok
  by unfold_locales (rule mma_step_ok)

definition market_event :: "mma_event \<Rightarrow> bool" where
  "market_event e = (case e of Mma_Tick now feed \<Rightarrow> True | Mma_Regime now label \<Rightarrow> True | _ \<Rightarrow> False)"

lemma market_tracks:
  assumes ok: "mma_ok s" and "market_event e"
  shows "tracks s (mma_step s e)"
proof (cases e)
  case (Mma_Tick now feed)
  have "list_all (\<lambda>(i, p). map_of (mm_monitors s) i = Some p) (mm_monitors s)"
    using ok by (auto simp: mma_ok_def list_all_iff)
  with ok Mma_Tick show ?thesis
    using evaluate_all_invariants [of s "mm_monitors s" now feed] by (simp add: mma_step_def mma_ok_def)
qed (use assms regime_invariants in \<open>auto simp: mma_step_def market_event_def\<close>)

lemma market_run_tracks:
  "mma_ok s \<Longrightarrow> list_all market_event es \<Longrightarrow> tracks s (foldl mma_step s es)"
proof (induction es arbitrary: s)
  case (Cons e es)
  then show ?case
    using tracks_trans [OF market_tracks [of s e] Cons.IH [of "mma_step s e"]] mma_step_ok by simp
qed (simp add: tracks_refl)


definition demo_position :: position where
  "demo_position = \<lparr>pos_position_id = ''q1'', pos_plan_id = ''p1'', pos_symbol = ''AAPL'',
     pos_direction = LONG, pos_shares = 90, pos_entry_price = 100, pos_current_price = 100,
     pos_stop_price = 98, pos_target_price = 104, pos_time_stop_at = 300000000, pos_opened_at = 0,
     pos_updated_at = 0, pos_trailing_stop = None\<rparr>"

definition demo_watch :: mma where
  "demo_watch = mma_init\<lparr>mm_monitors := [(''q1'', demo_position)]\<rparr>"

definition demo_feed :: "pyfloat \<Rightarrow> symbol \<Rightarrow> feed_view" where
  "demo_feed price sy = \<lparr>fv_tick = Inr (Some \<lparr>mt_symbol = sy, mt_timestamp = 1, mt_bid = price,
     mt_ask = price, mt_last = price, mt_volume = 1, mt_sequence = 1\<rparr>), fv_bars = Inr []\<rparr>"

definition demo_market :: "mma_event list" where
  "demo_market = [Mma_Tick 1000 (demo_feed 102), Mma_Regime 2000 ''event-driven-day''] "

definition demo_guarded :: position where
  "demo_guarded = demo_position\<lparr>pos_current_price := 102, pos_stop_price := 99,
     pos_time_stop_at := 60002000, pos_updated_at := 2000, pos_trailing_stop := Some 100\<rparr>"

lemma demo_watch_ok: "mma_ok demo_watch"
  by (simp add: mma_ok_def demo_watch_def demo_position_def)

lemma demo_market_run:
  "map_of (mm_monitors (foldl mma_step demo_watch demo_market)) ''q1'' = Some demo_guarded"
  by (simp add: demo_watch_def demo_market_def demo_feed_def demo_position_def demo_guarded_def mma_init_def
      mma_step_def evaluate_position_def tick_mid_def tick_spread_def stop_hit_def effective_stop_def
      excursion_def check_atr_expansion_def update_trailing_stop_def trail_candidate_def profit_in_r_def
      improves_def handle_regime_update_def parse_regime_def all_regimes_def apply_regime_flip_def
      tighten_def tightened_stop_def seconds_def Let_def)


text \<open>
  Soundness is needed: a long with its stop above its entry (and below the price, so that it is not
  stopped out) gets a first trailing stop half a risk above the entry, which is below the stop it had.
\<close>

definition demo_unsound :: position where
  "demo_unsound = demo_position\<lparr>pos_stop_price := 101\<rparr>"

lemma unsound_stop_loosened:
  "map_of (mm_monitors (mma_step (mma_init\<lparr>mm_monitors := [(''q1'', demo_unsound)]\<rparr>)
      (Mma_Tick 1000 (demo_feed 102)))) ''q1''
    = Some (demo_unsound\<lparr>pos_current_price := 102, pos_updated_at := 1000, pos_trailing_stop := Some (201 / 2)\<rparr>)"
  by (simp add: demo_unsound_def demo_feed_def demo_position_def mma_init_def
      mma_step_def evaluate_position_def tick_mid_def tick_spread_def stop_hit_def effective_stop_def
      excursion_def check_atr_expansion_def update_trailing_stop_def trail_candidate_def profit_in_r_def
      improves_def Let_def)

section \<open>Exits\<close>

definition is_exit :: "string \<Rightarrow> mma_effect \<Rightarrow> bool" where
  "is_exit i x = (case x of Publish_Exit m \<Rightarrow> ex_position_id m = i | _ \<Rightarrow> False)"

definition watched :: "string \<Rightarrow> mma \<Rightarrow> nat" where
  "watched i s = (if map_of (mm_monitors s) i = None then 0 else 1)"

text \<open>The event is a fill that starts to monitor the position.\<close>

definition fill_opens :: "string \<Rightarrow> mma \<Rightarrow> mma_event \<Rightarrow> nat" where
  "fill_opens i s e =
     (case e of
        Mma_Fill f loads tick \<Rightarrow>
          if map_of (mm_monitors s) i = None \<and> map_of (mm_monitors (handle_fill_event f loads tick s)) i \<noteq> None
          then 1 else 0
      | _ \<Rightarrow> 0)"

lemma trailing_exits: "filter (is_exit j) (snd (update_trailing_stop now p x s)) = []"
  by (auto simp: update_trailing_stop_def is_exit_def Let_def split: option.split)

lemma trigger_exits:
  "filter (is_exit j) (snd (trigger_exit now mode why p s)) =
     (if j = pos_position_id p then filter (is_exit j) (snd (trigger_exit now mode why p s)) else [])"
  "length (filter (is_exit j) (snd (trigger_exit now mode why p s))) \<le> 1"
  "map_of (mm_monitors (fst (trigger_exit now mode why p s))) (pos_position_id p) = None"
  by (simp_all add: trigger_exit_def is_exit_def Let_def forget_monitors)

lemma evaluate_result:
  obtains (exit) mode why q s' where "pos_position_id q = pos_position_id p"
      "evaluate_position now fv i p s = trigger_exit now mode why q s'"
      "pos_time_stop_at p \<le> now \<Longrightarrow> mode = TIME_STOP"
  | (same) "evaluate_position now fv i p s = (s, [])" "now < pos_time_stop_at p"
  | (trail) q x s' where "evaluate_position now fv i p s = update_trailing_stop now q x s'"
      "now < pos_time_stop_at p"
proof (cases "pos_time_stop_at p \<le> now")
  case True
  then show thesis by (intro exit [of p TIME_STOP]) (simp_all add: evaluate_position_def)
next
  case early: False
  show thesis
  proof (cases "\<exists>t. fv_tick fv = Inr (Some t)")
    case False
    with early same show thesis by (auto simp: evaluate_position_def split: sum.splits option.splits)
  next
    case True
    then obtain t where t: "fv_tick fv = Inr (Some t)" by auto
    define q where "q = p\<lparr>pos_current_price := tick_mid t, pos_updated_at := now\<rparr>"
    have q: "pos_position_id q = pos_position_id p" by (simp add: q_def)
    let ?s1 = "s\<lparr>mm_monitors := AList.update i q (mm_monitors s)\<rparr>"
    let ?s2 = "?s1\<lparr>mm_adverse_excursion := AList.update i
      (max (case map_of (mm_adverse_excursion ?s1) i of None \<Rightarrow> 0 | Some x \<Rightarrow> x) (excursion q (tick_mid t)))
      (mm_adverse_excursion ?s1)\<rparr>"
    define r where "r = check_atr_expansion (pos_symbol q) (fv_bars fv) ?s2"
    define sp where "sp = (let e = (case map_of (mm_entry_spreads (fst r)) i of None \<Rightarrow> 0 | Some x \<Rightarrow> x)
      in 0 < e \<and> 2 * e < tick_spread t)"
    have e: "evaluate_position now fv i p s =
        (if stop_hit q (tick_mid t) then trigger_exit now VOLATILITY_SHOCK ''Price crossed stop'' q ?s1
         else if snd r then trigger_exit now VOLATILITY_SHOCK ''ATR expansion exceeded threshold'' q (fst r)
         else if sp then trigger_exit now VOLATILITY_SHOCK ''Spread doubled'' q (fst r)
         else update_trailing_stop now q (tick_mid t) (fst r))"
      unfolding evaluate_position_def r_def sp_def q_def using early t
      by (simp add: Let_def case_prod_unfold)
    have "\<not> pos_time_stop_at p \<le> now" "now < pos_time_stop_at p" using early by simp_all
    with e show thesis
      using exit [OF q] trail
      by (cases "stop_hit q (tick_mid t)"; cases "snd r"; cases sp; simp only: if_True if_False)
  qed
qed

lemma evaluate_exits:
  assumes "pos_position_id p = i"
  shows "length (filter (is_exit j) (snd (evaluate_position now fv i p s))) +
      (if j = i then watched i (fst (evaluate_position now fv i p s)) else 0) \<le> (if j = i then 1 else 0)"
proof (cases rule: evaluate_result [of p now fv i s])
  case (exit mode why q s')
  then show ?thesis
    using assms trigger_exits(1) [of j now mode why q s'] trigger_exits(2) [of j now mode why q s']
      trigger_exits(3) [of now mode why q s']
    by (auto simp: watched_def split: if_splits)
qed (simp_all add: trailing_exits watched_def)

lemma evaluate_all_exits:
  "mma_ok s \<Longrightarrow> distinct (map fst ps) \<Longrightarrow> list_all (\<lambda>(i, p). map_of (mm_monitors s) i = Some p) ps \<Longrightarrow>
   length (filter (is_exit j) (snd (evaluate_all now feed ps s))) + watched j (fst (evaluate_all now feed ps s))
     \<le> watched j s"
proof (induction ps arbitrary: s)
  case (Cons k ps)
  obtain i p where k: "k = (i, p)" by (cases k)
  let ?r = "evaluate_position now (feed (pos_symbol p)) i p s"
  have p: "map_of (mm_monitors s) i = Some p" using Cons.prems(3) k by simp
  have id: "pos_position_id p = i" using monitored_id [OF Cons.prems(1) p] .
  have "list_all (\<lambda>(j, q). map_of (mm_monitors (fst ?r)) j = Some q) ps"
    using evaluate_rest [OF id] Cons.prems(2,3) k by simp
  with Cons.IH [of "fst ?r"] Cons.prems(1,2) k evaluate_ok [OF id]
  have rest: "length (filter (is_exit j) (snd (evaluate_all now feed ps (fst ?r)))) +
      watched j (fst (evaluate_all now feed ps (fst ?r))) \<le> watched j (fst ?r)" by simp
  have "length (filter (is_exit j) (snd ?r)) + watched j (fst ?r) \<le> watched j s"
    using evaluate_exits [OF id, of j now "feed (pos_symbol p)" s] p evaluate_other [OF id, of j now _ s]
    by (cases "j = i") (auto simp: watched_def)
  with rest k show ?case by (auto simp: Let_def split: prod.splits)
qed simp

lemma market_no_exits:
  "length (filter (is_exit j) (snd (handle_regime_update now label s))) = 0"
  "watched j (fst (handle_regime_update now label s)) = watched j s"
proof -
  have "filter (is_exit j) (snd (apply_regime_flip now t)) = []" for t
    by (auto simp: apply_regime_flip_def Let_def is_exit_def filter_empty_conv)
  then show "length (filter (is_exit j) (snd (handle_regime_update now label s))) = 0"
    by (auto simp: handle_regime_update_def Let_def split: option.split)
  show "watched j (fst (handle_regime_update now label s)) = watched j s"
    by (auto simp: handle_regime_update_def Let_def watched_def flip_monitors split: option.split)
qed

text \<open>
  The invariant is not in reach of the budget interface, so it becomes part of what a state
  holds: nothing is asked of a state that does not satisfy it.
\<close>

lemma step_exits:
  assumes "mma_ok s"
  shows "length (filter (is_exit j) (mma_emits s e)) + watched j (mma_step s e) \<le> watched j s + fill_opens j s e"
proof (cases e)
  case (Mma_Position m)
  then show ?thesis
    by (cases m) (auto simp: mma_step_def mma_emits_def fill_opens_def watched_def Let_def
        forget_monitors update_conv')
next
  case (Mma_Regime now label)
  then show ?thesis by (simp add: mma_step_def mma_emits_def market_no_exits)
next
  case (Mma_Tick now feed)
  have "list_all (\<lambda>(i, p). map_of (mm_monitors s) i = Some p) (mm_monitors s)"
    using assms by (auto simp: mma_ok_def list_all_iff)
  with Mma_Tick assms evaluate_all_exits [OF assms, of "mm_monitors s" j now feed]
  show ?thesis by (simp add: mma_step_def mma_emits_def mma_ok_def)
qed (simp add: mma_step_def mma_emits_def fill_opens_def watched_def)

interpretation exits: spending "\<lambda>s e. if mma_ok s then mma_step s e else s"
    "\<lambda>s e. if mma_ok s then mma_emits s e else []" "is_exit i" "watched i" "fill_opens i"
  using step_exits by unfold_locales auto

lemma guarded_run:
  "mma_ok s \<Longrightarrow> run_out (\<lambda>s e. if mma_ok s then mma_step s e else s)
      (\<lambda>s e. if mma_ok s then mma_emits s e else []) s es = run_out mma_step mma_emits s es"
  by (induction es arbitrary: s) (simp_all add: mma_step_ok)

lemma guarded_gain:
  "mma_ok s \<Longrightarrow> run_gain (\<lambda>s e. if mma_ok s then mma_step s e else s) g s es = run_gain mma_step g s es"
  by (induction es arbitrary: s) (simp_all add: mma_step_ok)

text \<open>
  C17. A position is told to exit at most once per fill of its own: over any run of messages and ticks
  the exit triggers published for a position are no more than the fills that, when they arrived, opened
  a monitor for that position. A fill of another position, or one for which the store has no new
  position, allows no exit.
\<close>

theorem one_exit_per_fill:
  "length (filter (is_exit i) (run_out mma_step mma_emits mma_init es))
     \<le> run_gain mma_step (fill_opens i) mma_init es"
proof -
  have ok: "mma_ok mma_init" by (simp add: mma_ok_def mma_init_def)
  show ?thesis
    using exits.run_spends [of i mma_init es] unfolding guarded_run [OF ok] guarded_gain [OF ok]
    by (simp add: watched_def mma_init_def)
qed

lemma evaluate_all_time_stop:
  "mma_ok s \<Longrightarrow> distinct (map fst ps) \<Longrightarrow> list_all (\<lambda>(i, p). map_of (mm_monitors s) i = Some p) ps \<Longrightarrow>
   (i, p) \<in> set ps \<Longrightarrow> pos_time_stop_at p \<le> now \<Longrightarrow>
   \<exists>m. Publish_Exit m \<in> set (snd (evaluate_all now feed ps s)) \<and> ex_position_id m = i \<and> ex_mode m = TIME_STOP"
proof (induction ps arbitrary: s)
  case (Cons k ps)
  obtain j q where k: "k = (j, q)" by (cases k)
  let ?r = "evaluate_position now (feed (pos_symbol q)) j q s"
  have q: "map_of (mm_monitors s) j = Some q" using Cons.prems(3) k by simp
  have id: "pos_position_id q = j" using monitored_id [OF Cons.prems(1) q] .
  show ?case
  proof (cases "(i, p) = k")
    case True
    then have "\<exists>m out. snd ?r = Publish_Exit m # out \<and> ex_position_id m = i \<and> ex_mode m = TIME_STOP"
      using k id Cons.prems(5) by (simp add: evaluate_position_def trigger_exit_def Let_def)
    then obtain m out where "snd ?r = Publish_Exit m # out" "ex_position_id m = i" "ex_mode m = TIME_STOP"
      by blast
    with k show ?thesis by (auto simp: Let_def split: prod.splits)
  next
    case False
    then have "(i, p) \<in> set ps" using Cons.prems(4) by simp
    moreover have "list_all (\<lambda>(j, q). map_of (mm_monitors (fst ?r)) j = Some q) ps"
      using evaluate_rest [OF id] Cons.prems(2,3) k by simp
    ultimately have "\<exists>m. Publish_Exit m \<in> set (snd (evaluate_all now feed ps (fst ?r))) \<and>
        ex_position_id m = i \<and> ex_mode m = TIME_STOP"
      using Cons.IH [of "fst ?r"] Cons.prems(1,2,5) k evaluate_ok [OF id] by simp
    with k show ?thesis by (auto simp: Let_def split: prod.splits)
  qed
qed simp

text \<open>
  The time stop is hard: the first tick at or after it makes the agent publish an exit for
  the position, whatever the feed answers, and stop monitoring it.
\<close>

theorem time_stop_is_hard:
  assumes "mma_ok s" and "map_of (mm_monitors s) i = Some p" and "pos_time_stop_at p \<le> now"
  shows "(\<exists>m. Publish_Exit m \<in> set (mma_emits s (Mma_Tick now feed)) \<and>
      ex_position_id m = i \<and> ex_mode m = TIME_STOP) \<and>
    map_of (mm_monitors (mma_step s (Mma_Tick now feed))) i = None"
proof -
  have all: "list_all (\<lambda>(i, p). map_of (mm_monitors s) i = Some p) (mm_monitors s)"
    using assms(1) by (auto simp: mma_ok_def list_all_iff)
  obtain m where m: "Publish_Exit m \<in> set (mma_emits s (Mma_Tick now feed))"
    "ex_position_id m = i" "ex_mode m = TIME_STOP"
    using evaluate_all_time_stop [OF assms(1) _ all, of i p now feed] assms
    by (auto simp: mma_emits_def mma_ok_def dest: map_of_SomeD)
  then have "length (filter (is_exit i) (mma_emits s (Mma_Tick now feed))) \<noteq> 0"
    by (auto simp: filter_empty_conv is_exit_def intro!: bexI [of _ "Publish_Exit m"])
  then have "watched i (mma_step s (Mma_Tick now feed)) = 0"
    using step_exits [OF assms(1), of i "Mma_Tick now feed"]
    by (auto simp: watched_def fill_opens_def split: if_splits)
  with m show ?thesis by (auto simp: watched_def split: if_splits)
qed

theorem time_stop_is_hard_witness:
  "map_of (mm_monitors (mma_step demo_watch
     (Mma_Tick 300000000 (\<lambda>sy. \<lparr>fv_tick = Inl ''feed down'', fv_bars = Inl ''feed down''\<rparr>)))) ''q1'' = None"
  using time_stop_is_hard [OF demo_watch_ok, of "''q1''" demo_position 300000000
      "\<lambda>sy. \<lparr>fv_tick = Inl ''feed down'', fv_bars = Inl ''feed down''\<rparr>"]
  by (simp add: demo_watch_def demo_position_def)

end
