(* ===== verification/Exits.thy ===== *)
theory Exits
  imports Monitoring Brokers State_Store
begin

text \<open>
  The exit and lock-in agent of \<open>agents/agent_12_exit_lockin.py\<close> (class \<open>ExitLockInAgent\<close>): the
  positions it tracks, the exit it makes for a trigger, the tightening for a regime flip, the
  emergency flattening, and the re-entry window. The answer of the broker to a call is an
  argument; an exception of it is logged and ends the handler. The agent writes to the state store, which
  is passed along; what it publishes and audits is the list it emits.
\<close>

section \<open>State\<close>

record ela =
  el_no_reentry_until :: "(symbol \<times> timestamp) list"
  el_active_positions :: "(string \<times> position) list"

definition ela_init :: ela where
  "ela_init = \<lparr>el_no_reentry_until = [], el_active_positions = []\<rparr>"

type_synonym ela_state = "ela \<times> state_store"

datatype ela_effect =
    Ela_Publish_Position position_message
  | Publish_Trade_Closed closed_trade
  | Audit_Trade_Closed string symbol pyfloat exit_mode
  | Ela_Cancel_All
  | Ela_Close_All
  | Ela_Close_Position symbol

record ela_env =
  ev_now :: timestamp
  ev_close :: "trading_error + broker_order option"
  ev_trade_id :: string
  ev_session_date :: string
  ev_no_reentry_sec :: pyfloat

section \<open>Regime flip\<close>

definition flip_stop :: "position \<Rightarrow> pyfloat \<Rightarrow> pyfloat" where
  "flip_stop p current_price =
     (let new_stop_distance = \<bar>pos_entry_price p - pos_stop_price p\<bar> * (1 / 2)
      in py_round (if pos_direction p = LONG then current_price - new_stop_distance
                   else current_price + new_stop_distance) 2)"

definition handle_regime_flip_exit ::
  "timestamp \<Rightarrow> position \<Rightarrow> pyfloat \<Rightarrow> ela_state \<Rightarrow> ela_state \<times> ela_effect list" where
  "handle_regime_flip_exit now p current_price st =
     (let (s, db) = st; t = now + seconds 60;
          q = p\<lparr>pos_stop_price := flip_stop p current_price, pos_time_stop_at := t, pos_updated_at := now\<rparr>
      in ((s\<lparr>el_active_positions := AList.update (pos_position_id p) q (el_active_positions s)\<rparr>,
           upsert_position now q db),
          [Ela_Publish_Position (Stop_Change (pos_position_id p) (pos_symbol p) (pos_stop_price q) t)]))"

section \<open>Closing a position\<close>

definition gross_pnl :: "position \<Rightarrow> pyfloat \<Rightarrow> pyfloat" where
  "gross_pnl p fill_price =
     (if pos_direction p = LONG then (fill_price - pos_entry_price p) * of_int (pos_shares p)
      else (pos_entry_price p - fill_price) * of_int (pos_shares p))"

definition exit_fill_price :: "broker_order \<Rightarrow> pyfloat \<Rightarrow> pyfloat" where
  "exit_fill_price b current_price =
     (case bo_avg_fill_price b of None \<Rightarrow> current_price | Some x \<Rightarrow> if x = 0 then current_price else x)"

definition close_trade :: "ela_env \<Rightarrow> position \<Rightarrow> exit_mode \<Rightarrow> pyfloat \<Rightarrow> broker_order \<Rightarrow> closed_trade" where
  "close_trade ev p mode current_price b =
     (let fill_price = exit_fill_price b current_price;
          gross = gross_pnl p fill_price;
          slippage = \<bar>fill_price - current_price\<bar> * of_int (pos_shares p)
      in \<lparr>ct_trade_id = ev_trade_id ev, ct_plan_id = pos_plan_id p, ct_symbol = pos_symbol p,
          ct_setup_type = BREAKOUT, ct_regime = TREND_DAY, ct_direction = pos_direction p,
          ct_shares = pos_shares p, ct_entry_price = pos_entry_price p, ct_exit_price = fill_price,
          ct_stop_price = pos_stop_price p, ct_target_price = pos_target_price p,
          ct_exit_mode = mode, ct_gross_pnl = gross, ct_net_pnl = gross - 0 - slippage,
          ct_commission = 0, ct_slippage = slippage,
          ct_hold_time_sec = of_int (ev_now ev - pos_opened_at p) / 1000000,
          ct_opened_at = pos_opened_at p, ct_closed_at = ev_now ev\<rparr>)"

definition execute_exit ::
  "ela_env \<Rightarrow> position \<Rightarrow> exit_mode \<Rightarrow> pyfloat \<Rightarrow> ela_state \<Rightarrow> ela_state \<times> ela_effect list" where
  "execute_exit ev p mode current_price st =
     (case ev_close ev of
        Inr (Some b) \<Rightarrow>
          (let (s, db) = st; t = close_trade ev p mode current_price b;
               db = save_closed_trade (ev_session_date ev) t db;
               db = delete_position (pos_position_id p) db;
               s = s\<lparr>el_active_positions := AList.delete (pos_position_id p) (el_active_positions s)\<rparr>;
               s = (if mode = VOLATILITY_SHOCK \<or> mode = TIME_STOP
                    then s\<lparr>el_no_reentry_until := AList.update (pos_symbol p)
                             (ev_now ev + seconds (ev_no_reentry_sec ev)) (el_no_reentry_until s)\<rparr>
                    else s)
           in ((s, db), [Ela_Close_Position (pos_symbol p), Publish_Trade_Closed t,
                         Audit_Trade_Closed (ct_trade_id t) (ct_symbol t) (ct_net_pnl t) mode]))
      | _ \<Rightarrow> (st, [Ela_Close_Position (pos_symbol p)]))"

section \<open>Handlers\<close>

text \<open>The text of the mode is parsed first; an unknown one ends the handler.\<close>

definition handle_exit_trigger ::
  "ela_env \<Rightarrow> string \<Rightarrow> exit_mode option \<Rightarrow> pyfloat \<Rightarrow> ela_state \<Rightarrow> ela_state \<times> ela_effect list" where
  "handle_exit_trigger ev i mode current_price st =
     (case mode of
        None \<Rightarrow> (st, [])
      | Some mode \<Rightarrow>
          (case map_of (el_active_positions (fst st)) i of
             None \<Rightarrow> (st, [])
           | Some p \<Rightarrow>
               if mode = REGIME_FLIP then handle_regime_flip_exit (ev_now ev) p current_price st
               else execute_exit ev p mode current_price st))"

text \<open>
  The keys \<open>stop_price\<close> and \<open>trailing_stop\<close> of an update are copied; the dump of a position has
  both, the exit agent's own message the first.
\<close>

fun ela_position_update :: "position_message \<Rightarrow> ela_state \<Rightarrow> ela_state" where
  "ela_position_update (Whole_Position q) (s, db) =
     (case map_of (el_active_positions s) (pos_position_id q) of
        None \<Rightarrow> (s, db)
      | Some p \<Rightarrow>
          if pos_position_id q = [] then (s, db)
          else (s\<lparr>el_active_positions := AList.update (pos_position_id q)
                   (p\<lparr>pos_stop_price := pos_stop_price q, pos_trailing_stop := pos_trailing_stop q\<rparr>)
                   (el_active_positions s)\<rparr>, db))"
| "ela_position_update (Stop_Change i sy stop t) (s, db) =
     (case map_of (el_active_positions s) i of
        None \<Rightarrow> (s, db)
      | Some p \<Rightarrow>
          if i = [] then (s, db)
          else (s\<lparr>el_active_positions := AList.update i (p\<lparr>pos_stop_price := stop\<rparr>)
                   (el_active_positions s)\<rparr>, db))"
| "ela_position_update (Position_Closed i sy) st = st"

text \<open>A fill registers the position it carries, if it carries one.\<close>

definition ela_fill :: "fill_event \<Rightarrow> position option \<Rightarrow> ela_state \<Rightarrow> ela_state" where
  "ela_fill f carried st =
     (case carried of
        None \<Rightarrow> st
      | Some p \<Rightarrow>
          (let (s, db) = st
           in (s\<lparr>el_active_positions := AList.update (pos_position_id p) p (el_active_positions s)\<rparr>, db)))"

definition emergency_flatten_all ::
  "trading_error + nat \<Rightarrow> trading_error + broker_order list \<Rightarrow> ela_state \<Rightarrow> ela_state \<times> ela_effect list" where
  "emergency_flatten_all cancel_all close_all st =
     (case cancel_all of
        Inl _ \<Rightarrow> (st, [Ela_Cancel_All])
      | Inr _ \<Rightarrow>
          (case close_all of
             Inl _ \<Rightarrow> (st, [Ela_Cancel_All, Ela_Close_All])
           | Inr _ \<Rightarrow>
               (((fst st)\<lparr>el_active_positions := []\<rparr>, snd st), [Ela_Cancel_All, Ela_Close_All])))"

text \<open>\<open>is_reentry_allowed\<close>: an expired window is dropped.\<close>

definition is_reentry_allowed :: "timestamp \<Rightarrow> symbol \<Rightarrow> ela \<Rightarrow> ela \<times> bool" where
  "is_reentry_allowed now sy s =
     (case map_of (el_no_reentry_until s) sy of
        None \<Rightarrow> (s, True)
      | Some expiry \<Rightarrow>
          if expiry \<le> now
          then (s\<lparr>el_no_reentry_until := AList.delete sy (el_no_reentry_until s)\<rparr>, True)
          else (s, False))"

section \<open>Closing and the books\<close>

text \<open>
  A closed trade subtracts its slippage twice: the gross result is taken at the price of the
  fill, which already holds it, so on a fill worse than the trigger's price the net result lies twice
  the slippage below the result at the trigger's price, and a fill better than it gains nothing.
\<close>

theorem slippage_counted_twice:
  fixes ev :: ela_env and p :: position and b :: broker_order and mode :: exit_mode and price :: pyfloat
  defines "t \<equiv> close_trade ev p mode price b"
  shows "ct_net_pnl t = gross_pnl p price -
    (if (if pos_direction p = LONG then ct_exit_price t \<le> price else price \<le> ct_exit_price t)
     then 2 * ct_slippage t else 0)"
  unfolding t_def close_trade_def gross_pnl_def Let_def
  by (auto simp: abs_real_def algebra_simps)

definition demo_close :: "pyfloat \<Rightarrow> ela_env" where
  "demo_close price = \<lparr>ev_now = 90000000,
     ev_close = Inr (Some \<lparr>bo_broker_order_id = ''b9'', bo_client_order_id = ''c9'',
       bo_symbol = ''AAPL'', bo_side = ''sell'', bo_qty = 90, bo_order_type = ''market'',
       bo_status = ''filled'', bo_filled_qty = 90, bo_avg_fill_price = Some price,
       bo_limit_price = None, bo_stop_price = None, bo_submitted_at = None, bo_filled_at = None\<rparr>),
     ev_trade_id = ''t1'', ev_session_date = ''2024-05-01'', ev_no_reentry_sec = 180\<rparr>"

lemma slippage_example:
  "ct_net_pnl (close_trade (demo_close 97) demo_position VOLATILITY_SHOCK 98
      (the (projr (ev_close (demo_close 97))))) = - 360"
  "gross_pnl demo_position 98 = - 180" "gross_pnl demo_position 97 = - 270"
  by (simp_all add: demo_position_def gross_pnl_def close_trade_def exit_fill_price_def demo_close_def)

text \<open>
  The exit agent's answer to a regime flip can widen a stop that it is meant to tighten: for a
  sound position that is losing more than half of its risk, by more than a cent, the new stop
  lies on the far side of the old one.
\<close>

theorem regime_flip_widens_losers:
  assumes "sound p"
    and "if pos_direction p = LONG then price < (pos_entry_price p + pos_stop_price p) / 2 - 1 / 100
         else (pos_entry_price p + pos_stop_price p) / 2 + 1 / 100 < price"
  shows "if pos_direction p = LONG then flip_stop p price < pos_stop_price p
         else pos_stop_price p < flip_stop p price"
proof (cases "pos_direction p")
  case LONG
  then have "\<bar>pos_entry_price p - pos_stop_price p\<bar> = pos_entry_price p - pos_stop_price p"
    using assms(1) by (simp add: sound_def)
  then show ?thesis
    using LONG assms(2) py_round_error [of "price - (pos_entry_price p - pos_stop_price p) * (1 / 2)" 2]
    by (simp add: flip_stop_def Let_def) argo
next
  case SHORT
  then have "\<bar>pos_entry_price p - pos_stop_price p\<bar> = pos_stop_price p - pos_entry_price p"
    using assms(1) by (simp add: sound_def)
  then show ?thesis
    using SHORT assms(2) py_round_error [of "price + (pos_stop_price p - pos_entry_price p) * (1 / 2)" 2]
    by (simp add: flip_stop_def Let_def) argo
qed

theorem regime_flip_widens_losers_witness:
  "flip_stop demo_position (985 / 10) < pos_stop_price demo_position"
  using regime_flip_widens_losers [of demo_position "985 / 10"]
  by (simp add: sound_def demo_position_def)

lemma regime_flip_stop_example: "flip_stop demo_position (985 / 10) = 975 / 10"
  by (simp add: flip_stop_def demo_position_def py_round_def round_half_even_def)

text \<open>
  What an exit leaves: the position is out of the store and out of the agent's hands, and the trade is
  in the store, unless a trade with its identifier already is.
\<close>

lemma exit_closes_position:
  assumes "ev_close ev = Inr (Some b)" and "execute_exit ev p mode price (s, db) = ((s', db'), out)"
  shows "map_of (el_active_positions s') (pos_position_id p) = None"
    and "pos_position_id p \<notin> pr_position_id ` set (st_positions db')"
    and "Publish_Trade_Closed (close_trade ev p mode price b) \<in> set out"
  using assms
  by (auto simp: execute_exit_def Let_def delete_conv' delete_position_def split: if_splits)

end
