(* ===== verification/Trade_Pipeline.thy ===== *)
theory Trade_Pipeline
  imports Execution Reconciliation Exits Supervisor
begin

text \<open>
  The agents between a trade plan and its exit, put together as the coordinator runs them: execution
  (8), reconciliation (9), monitoring (11) and exit (12) on one state store. A state holds the agents,
  the store, and the messages published so far on the topics that connect them (fills, position
  updates, exit triggers). A step is one handler of one agent; it may take any message published
  so far, in any order and more than once, which covers every schedule of the bus. Plans,
  reports, regime changes, market data and the broker are free. Positions are written to the store
  by the monitoring and the exit agent only, and the other agents that the coordinator starts
  publish none of the three topics.
\<close>

section \<open>The joint state\<close>

record pipeline =
  pl_ea :: ea
  pl_bra :: bra
  pl_mma :: mma
  pl_ela :: ela
  pl_db :: state_store
  pl_fills :: "fill_event list"
  pl_updates :: "position_message list"
  pl_exits :: "exit_message list"

definition pipeline_init :: pipeline where
  "pipeline_init = \<lparr>pl_ea = ea_init, pl_bra = bra_init, pl_mma = mma_init, pl_ela = ela_init,
     pl_db = store_init, pl_fills = [], pl_updates = [], pl_exits = []\<rparr>"

section \<open>The effects of the agents on the store and the bus\<close>

fun ea_store :: "state_store \<Rightarrow> ea_effect \<Rightarrow> state_store" where
  "ea_store db (Save_Order x) = upsert_order x db"
| "ea_store db _ = db"

definition fills_of :: "ea_effect list \<Rightarrow> fill_event list" where
  "fills_of out = List.map_filter (\<lambda>x. case x of Publish_Fill f \<Rightarrow> Some f | _ \<Rightarrow> None) out"

fun mma_store :: "timestamp \<Rightarrow> state_store \<Rightarrow> mma_effect \<Rightarrow> state_store" where
  "mma_store now db (Mma_Save_Position p) = upsert_position now p db"
| "mma_store now db _ = db"

definition updates_of :: "mma_effect list \<Rightarrow> position_message list" where
  "updates_of out =
     List.map_filter (\<lambda>x. case x of Publish_Position p \<Rightarrow> Some (Whole_Position p) | _ \<Rightarrow> None) out"

definition exits_of :: "mma_effect list \<Rightarrow> exit_message list" where
  "exits_of out = List.map_filter (\<lambda>x. case x of Publish_Exit m \<Rightarrow> Some m | _ \<Rightarrow> None) out"

definition ela_updates_of :: "ela_effect list \<Rightarrow> position_message list" where
  "ela_updates_of out =
     List.map_filter (\<lambda>x. case x of Ela_Publish_Position m \<Rightarrow> Some m | _ \<Rightarrow> None) out"

fun bra_store :: "state_store \<Rightarrow> bra_effect \<Rightarrow> state_store" where
  "bra_store db (Save_Report r) = save_reconciliation r db"
| "bra_store db _ = db"

text \<open>What a position update says to the reconciliation agent: its symbol, and whether it closes.\<close>

fun update_view :: "position_message \<Rightarrow> symbol \<times> bool" where
  "update_view (Whole_Position p) = (pos_symbol p, False)"
| "update_view (Stop_Change i sy stop t) = (sy, False)"
| "update_view (Position_Closed i sy) = (sy, True)"

definition mma_does :: "timestamp \<Rightarrow> pipeline \<Rightarrow> mma_event \<Rightarrow> pipeline" where
  "mma_does now P e =
     (let (m, out) = mma_act (pl_mma P) e
      in P\<lparr>pl_mma := m, pl_db := foldl (mma_store now) (pl_db P) out,
           pl_updates := pl_updates P @ updates_of out, pl_exits := pl_exits P @ exits_of out\<rparr>)"

section \<open>Steps\<close>

inductive pl_step :: "ea_config \<Rightarrow> pyfloat \<Rightarrow> pipeline \<Rightarrow> pipeline \<Rightarrow> bool"
  for cf :: ea_config and mb :: pyfloat where
  Execution_Acts: "ea_act cf (pl_ea P) e = (s, out) \<Longrightarrow>
    pl_step cf mb P (P\<lparr>pl_ea := s, pl_db := foldl ea_store (pl_db P) out,
      pl_fills := pl_fills P @ fills_of out\<rparr>)"
| Monitor_Fill: "f \<in> set (pl_fills P) \<Longrightarrow>
    pl_step cf mb P (mma_does now P (Mma_Fill f (replicate 5 (load_open_positions (pl_db P))) tick))"
| Monitor_Update: "m \<in> set (pl_updates P) \<Longrightarrow> pl_step cf mb P (mma_does now P (Mma_Position m))"
| Monitor_Regime: "pl_step cf mb P (mma_does now P (Mma_Regime now label))"
| Monitor_Tick: "pl_step cf mb P (mma_does now P (Mma_Tick now feed))"
| Exit_Trigger: "m \<in> set (pl_exits P) \<Longrightarrow>
    handle_exit_trigger ev (ex_position_id m) (Some (ex_mode m)) (ex_current_price m)
      (pl_ela P, pl_db P) = ((s, db), out) \<Longrightarrow>
    pl_step cf mb P (P\<lparr>pl_ela := s, pl_db := db, pl_updates := pl_updates P @ ela_updates_of out\<rparr>)"
| Exit_Update: "m \<in> set (pl_updates P) \<Longrightarrow> ela_position_update m (pl_ela P, pl_db P) = (s, db) \<Longrightarrow>
    pl_step cf mb P (P\<lparr>pl_ela := s, pl_db := db\<rparr>)"
| Exit_Fill: "f \<in> set (pl_fills P) \<Longrightarrow> ela_fill f None (pl_ela P, pl_db P) = (s, db) \<Longrightarrow>
    pl_step cf mb P (P\<lparr>pl_ela := s, pl_db := db\<rparr>)"
| Exit_Flatten: "emergency_flatten_all a b (pl_ela P, pl_db P) = ((s, db), out) \<Longrightarrow>
    pl_step cf mb P (P\<lparr>pl_ela := s, pl_db := db\<rparr>)"
| Recon_Submitted: "pl_step cf mb P (P\<lparr>pl_bra := order_submitted sy i (pl_bra P)\<rparr>)"
| Recon_Order: "pl_step cf mb P (P\<lparr>pl_bra := order_update sy i st (pl_bra P)\<rparr>)"
| Recon_Position: "m \<in> set (pl_updates P) \<Longrightarrow> update_view m = (sy, c) \<Longrightarrow>
    pl_step cf mb P (P\<lparr>pl_bra := position_update sy c (pl_bra P)\<rparr>)"
| Recon_Run: "store = Inr (load_open_positions (pl_db P)) \<or> (\<exists>e. store = Inl e) \<Longrightarrow>
    run_reconciliation mb now store broker (pl_bra P) = (s, out) \<Longrightarrow>
    pl_step cf mb P (P\<lparr>pl_bra := s, pl_db := foldl bra_store (pl_db P) out\<rparr>)"

definition reachable :: "ea_config \<Rightarrow> pyfloat \<Rightarrow> pipeline \<Rightarrow> bool" where
  "reachable cf mb P \<longleftrightarrow> (pl_step cf mb)\<^sup>*\<^sup>* pipeline_init P"

section \<open>Nothing is ever watched\<close>

definition unwatched :: "pipeline \<Rightarrow> bool" where
  "unwatched P \<longleftrightarrow> mm_monitors (pl_mma P) = [] \<and> el_active_positions (pl_ela P) = [] \<and>
     br_internal_positions (pl_bra P) = {} \<and> st_positions (pl_db P) = [] \<and>
     pl_updates P = [] \<and> pl_exits P = []"

lemma ea_store_positions: "st_positions (foldl ea_store db out) = st_positions db"
proof (induction out arbitrary: db)
  case (Cons x out)
  then show ?case by (cases x) (simp_all add: upsert_order_def)
qed simp

lemma bra_store_positions: "st_positions (foldl bra_store db out) = st_positions db"
proof (induction out arbitrary: db)
  case (Cons x out)
  then show ?case by (cases x) (simp_all add: save_reconciliation_def)
qed simp

lemma mma_idle:
  assumes "mm_monitors s = []"
  shows "snd (mma_act s (Mma_Regime now label)) = []" "snd (mma_act s (Mma_Tick now feed)) = []"
    "mm_monitors (fst (mma_act s (Mma_Regime now label))) = []"
    "mm_monitors (fst (mma_act s (Mma_Tick now feed))) = []"
    "mma_act s (Mma_Fill f (replicate n []) tick) = (s, [])"
proof -
  have "find_position k sy ms (replicate n []) = None" for k sy ms
    by (induction k arbitrary: n) (case_tac n; simp)+
  then show "mma_act s (Mma_Fill f (replicate n []) tick) = (s, [])"
    by (simp add: handle_fill_event_def)
qed (use assms in \<open>auto simp: handle_regime_update_def Let_def split: option.split\<close>)

lemma bra_positions_kept:
  "br_internal_positions (order_submitted sy i s) = br_internal_positions s"
  "br_internal_positions (order_update sy i st s) = br_internal_positions s"
  "br_internal_positions (fst (run_reconciliation mb now store broker s)) = br_internal_positions s"
  by (auto simp: order_submitted_def order_update_def run_reconciliation_def Let_def split: option.split)

lemma unwatched_step:
  assumes "pl_step cf mb P Q" and u: "unwatched P"
  shows "unwatched Q"
  using assms(1)
proof cases
  case (Execution_Acts e s out)
  then show ?thesis using u by (simp add: unwatched_def ea_store_positions)
next
  case (Monitor_Fill f now tick)
  have "mma_act (pl_mma P) (Mma_Fill f (replicate 5 (load_open_positions (pl_db P))) tick) = (pl_mma P, [])"
    using u mma_idle(5) [of "pl_mma P" f 5 tick] by (simp add: unwatched_def load_open_positions_def)
  then show ?thesis
    using u Monitor_Fill by (simp add: mma_does_def unwatched_def updates_of_def exits_of_def
        List.map_filter_simps)
next
  case (Monitor_Regime now label)
  then show ?thesis
    using u mma_idle(1,3) [of "pl_mma P" now label]
    by (auto simp: mma_does_def unwatched_def updates_of_def exits_of_def List.map_filter_simps Let_def
        case_prod_unfold)
next
  case (Monitor_Tick now feed)
  then show ?thesis
    using u mma_idle(2,4) [of "pl_mma P" now feed]
    by (auto simp: mma_does_def unwatched_def updates_of_def exits_of_def List.map_filter_simps Let_def
        case_prod_unfold)
next
  case (Exit_Flatten a b s db out)
  then show ?thesis
    using u by (auto simp: unwatched_def emergency_flatten_all_def split: sum.splits)
next
  case (Recon_Run store now broker s out)
  then show ?thesis
    using u bra_positions_kept(3) [of mb now store broker "pl_bra P"]
    by (simp add: unwatched_def bra_store_positions)
qed (use u in \<open>auto simp: unwatched_def ela_fill_def bra_positions_kept\<close>)

lemma reachable_unwatched: "reachable cf mb P \<Longrightarrow> unwatched P"
  unfolding reachable_def
proof (induction rule: rtranclp_induct)
  case base
  show ?case
    by (simp add: unwatched_def pipeline_init_def mma_init_def ela_init_def bra_init_def store_init_def)
next
  case (step P Q)
  then show ?case by (blast intro: unwatched_step)
qed

text \<open>
  The agents of one system follow one another: any history of the execution agent is one of the
  joint system's.
\<close>

definition ea_does :: "ea_config \<Rightarrow> pipeline \<Rightarrow> ea_event \<Rightarrow> pipeline" where
  "ea_does cf P e =
     P\<lparr>pl_ea := ea_step cf (pl_ea P) e, pl_db := foldl ea_store (pl_db P) (ea_emits cf (pl_ea P) e),
       pl_fills := pl_fills P @ fills_of (ea_emits cf (pl_ea P) e)\<rparr>"

lemma ea_history_reachable: "reachable cf mb (foldl (ea_does cf) pipeline_init es)"
proof (induction es rule: rev_induct)
  case Nil
  show ?case by (simp add: reachable_def)
next
  case (snoc e es)
  have "pl_step cf mb P (ea_does cf P e)" for P
    unfolding ea_does_def ea_step_def ea_emits_def
    by (rule Execution_Acts [where e = e]) simp
  with snoc show ?case by (auto simp: reachable_def intro: rtranclp.rtrancl_into_rtrancl)
qed

section \<open>What that leads to\<close>

text \<open>
  C20. In no reachable state does the monitoring agent watch a position, the exit agent hold one, or
  the store have one, and no exit is ever requested, whatever was filled: a fill opens a
  monitor only for a position that the store already has, and only the two agents write positions.
\<close>

theorem no_position_is_ever_watched:
  assumes "reachable cf mb P"
  shows "mm_monitors (pl_mma P) = [] \<and> el_active_positions (pl_ela P) = [] \<and>
    load_open_positions (pl_db P) = [] \<and> pl_exits P = []"
  using reachable_unwatched [OF assms] by (simp add: unwatched_def load_open_positions_def)

definition filled_pipeline :: pipeline where
  "filled_pipeline = foldl (ea_does ea_defaults) pipeline_init demo_history"

theorem no_position_is_ever_watched_witness:
  "reachable ea_defaults 25000 filled_pipeline \<and> length (pl_fills filled_pipeline) = 1 \<and>
   load_open_positions (pl_db filled_pipeline) = [] \<and> pl_exits filled_pipeline = []"
proof -
  have r: "reachable ea_defaults 25000 filled_pipeline"
    unfolding filled_pipeline_def by (rule ea_history_reachable)
  have "length (pl_fills filled_pipeline) = 1" by code_simp
  with r no_position_is_ever_watched [OF r] show ?thesis by simp
qed

text \<open>
  C21. As soon as the broker reports a position, every reconciliation of the joint system is a
  mismatch, the store read at that moment; the report closes the execution agent's gate, so that
  no plan reaches the broker, and puts the supervisor on its anomaly hold.
\<close>

theorem first_fill_stops_trading:
  assumes "reachable cf mb P" and "bv_positions v \<noteq> []"
  shows "rr_status (make_report mb now (Inr (load_open_positions (pl_db P))) (Inr v) (pl_bra P)) = RS_MISMATCH \<and>
    Broker_Submit_Bracket sy side n l st tg i \<notin>
      set (ea_emits cf (ea_step cf (pl_ea P) (Ea_Reconciliation ''mismatch'' ds)) (Ea_Plan p pe)) \<and>
    \<not> is_trading_allowed (fst (psa_reconciliation psa now (Some ''mismatch'') text)) later"
proof (intro conjI)
  have "unwatched P" by (rule reachable_unwatched) fact
  with assms(2) show "rr_status (make_report mb now (Inr (load_open_positions (pl_db P))) (Inr v) (pl_bra P)) = RS_MISMATCH"
    by (intro position_mismatch) (auto simp: unwatched_def all_internal_def load_open_positions_def)
  let ?s = "ea_step cf (pl_ea P) (Ea_Reconciliation ''mismatch'' ds)"
  have "\<not> passes_gates cf p pe ?s"
    by (simp add: passes_gates_def ea_step_def handle_reconciliation_def)
  then show "Broker_Submit_Bracket sy side n l st tg i \<notin> set (ea_emits cf ?s (Ea_Plan p pe))"
    using plan_outcomes [of cf p pe ?s] by (force simp: ea_emits_def filter_empty_conv)
  show "\<not> is_trading_allowed (fst (psa_reconciliation psa now (Some ''mismatch'') text)) later"
    by (simp add: psa_reconciliation_def psa_alert_def psa_then_def is_trading_allowed_def Let_def
        split: option.split)
qed

theorem first_fill_stops_trading_witness:
  "rr_status (make_report 25000 20 (Inr (load_open_positions (pl_db filled_pipeline))) (Inr demo_view)
     (pl_bra filled_pipeline)) = RS_MISMATCH"
proof -
  have r: "reachable ea_defaults 25000 filled_pipeline"
    unfolding filled_pipeline_def by (rule ea_history_reachable)
  have "bv_positions demo_view \<noteq> []" by (simp add: demo_view_def)
  from first_fill_stops_trading [OF r this] show ?thesis by blast
qed

end
