(* ===== verification/Quality.thy ===== *)
theory Quality
  imports Models
begin

text \<open>
  The latency and execution quality agent of \<open>agents/agent_10_execution_quality.py\<close>: submissions
  waiting for their fill, a window of the last fifty measurements, the session summary over it,
  and the degradation flag with what its changes publish. The times of a message are given
  parsed; \<open>None\<close> is a missing or unreadable one, for which the code takes another clock.
\<close>

section \<open>State\<close>

record execution_metrics =
  em_order_id :: string
  em_symbol :: symbol
  em_expected_price :: pyfloat
  em_actual_fill_price :: pyfloat
  em_slippage_bps :: pyfloat
  em_latency_ms :: pyfloat
  em_cancel_latency_ms :: "pyfloat option"
  em_rejected :: bool
  em_reject_reason :: "string option"
  em_measured_at :: timestamp

record eqa =
  eq_pending_fills :: "(string \<times> timestamp \<times> pyfloat) list"
  eq_metrics_window :: "execution_metrics list"
  eq_rejections :: "string list"
  eq_total_orders :: int
  eq_quality_degraded :: bool
  eq_session_date :: string
  eq_slippage_threshold :: pyfloat
  eq_rejection_threshold :: pyfloat

definition eqa_init :: "string \<Rightarrow> eqa" where
  "eqa_init date = \<lparr>eq_pending_fills = [], eq_metrics_window = [], eq_rejections = [],
     eq_total_orders = 0, eq_quality_degraded = False, eq_session_date = date,
     eq_slippage_threshold = 15, eq_rejection_threshold = 15 / 100\<rparr>"

definition eqa_on_startup :: "string \<Rightarrow> pyfloat \<Rightarrow> pyfloat \<Rightarrow> eqa \<Rightarrow> eqa" where
  "eqa_on_startup date slippage rejection s =
     s\<lparr>eq_slippage_threshold := slippage, eq_rejection_threshold := rejection, eq_session_date := date\<rparr>"

datatype eqa_effect =
    Audit_Metrics execution_metrics
  | Publish_Metrics execution_metrics
  | Publish_Summary execution_summary
  | Alert_Severe pyfloat pyfloat pyfloat
  | Audit_Order_Rejected symbol string "string option"

section \<open>The summary\<close>

definition percentile :: "pyfloat list \<Rightarrow> int \<Rightarrow> pyfloat" where
  "percentile xs pct =
     (if xs = [] then 0
      else
        (let n = int (length xs);
             idx = of_int pct / 100 * of_int (n - 1);
             lo = py_trunc idx;
             hi = lo + 1
         in if n \<le> hi then last xs
            else let frac = idx - of_int lo
                 in xs ! nat lo + frac * (xs ! nat hi - xs ! nat lo)))"

definition metric_filled :: "execution_metrics \<Rightarrow> bool" where
  "metric_filled m \<longleftrightarrow> \<not> em_rejected m \<and> 0 \<le> em_latency_ms m"

definition average :: "pyfloat list \<Rightarrow> pyfloat" where
  "average xs = sum_list xs / of_nat (length xs)"

definition compute_session_summary :: "timestamp \<Rightarrow> eqa \<Rightarrow> execution_summary" where
  "compute_session_summary now s =
     (let window = eq_metrics_window s;
          fills = filter metric_filled window;
          n = of_nat (length window);
          rejection_rate = of_nat (length (filter em_rejected window)) / n;
          fill_rate = of_nat (length fills) / n;
          latencies = sort (map em_latency_ms fills)
      in if window = []
         then \<lparr>es_session_date = eq_session_date s, es_total_orders = eq_total_orders s,
               es_fill_rate = 0, es_avg_slippage_bps = 0, es_p50_latency_ms = 0,
               es_p95_latency_ms = 0, es_p99_latency_ms = 0, es_rejection_rate = 0,
               es_quality_degraded = eq_quality_degraded s, es_generated_at = now\<rparr>
         else \<lparr>es_session_date = eq_session_date s, es_total_orders = eq_total_orders s,
               es_fill_rate = py_round fill_rate 4,
               es_avg_slippage_bps =
                 py_round (if fills = [] then 0 else average (map em_slippage_bps fills)) 4,
               es_p50_latency_ms = py_round (percentile latencies 50) 3,
               es_p95_latency_ms = py_round (percentile latencies 95) 3,
               es_p99_latency_ms = py_round (percentile latencies 99) 3,
               es_rejection_rate = py_round rejection_rate 4,
               es_quality_degraded = eq_quality_degraded s, es_generated_at = now\<rparr>)"

section \<open>Handlers\<close>

definition over_threshold :: "eqa \<Rightarrow> execution_summary \<Rightarrow> bool" where
  "over_threshold s q \<longleftrightarrow> eq_slippage_threshold s < es_avg_slippage_bps q \<or>
     eq_rejection_threshold s < es_rejection_rate q"

definition check_quality_degradation :: "timestamp \<Rightarrow> eqa \<Rightarrow> eqa \<times> eqa_effect list" where
  "check_quality_degradation now s =
     (let q = compute_session_summary now s;
          was_degraded = eq_quality_degraded s;
          newly_degraded = over_threshold s q;
          s' = s\<lparr>eq_quality_degraded := newly_degraded\<rparr>
      in if newly_degraded \<and> \<not> was_degraded
         then (s', [Publish_Summary (q\<lparr>es_quality_degraded := True\<rparr>)] @
                (if 2 * eq_slippage_threshold s < es_avg_slippage_bps q
                 then [Alert_Severe (py_round (es_avg_slippage_bps q) 2)
                         (py_round (es_rejection_rate q) 4) (py_round (es_fill_rate q) 4)]
                 else []))
         else if was_degraded \<and> \<not> newly_degraded
         then (s', [Publish_Summary (q\<lparr>es_quality_degraded := False\<rparr>)])
         else (s', []))"

definition eqa_order_submitted ::
  "string \<Rightarrow> timestamp option \<Rightarrow> timestamp \<Rightarrow> pyfloat \<Rightarrow> eqa \<Rightarrow> eqa" where
  "eqa_order_submitted order_id submitted_at message_time entry_price s =
     (if order_id = [] then s
      else let submit_time = (case submitted_at of None \<Rightarrow> message_time | Some t \<Rightarrow> t)
           in s\<lparr>eq_pending_fills := AList.update order_id (submit_time, entry_price) (eq_pending_fills s),
                eq_total_orders := eq_total_orders s + 1\<rparr>)"

definition fill_metrics :: "timestamp \<Rightarrow> fill_event \<Rightarrow> timestamp \<Rightarrow> eqa \<Rightarrow> execution_metrics" where
  "fill_metrics now f fill_time s =
     (let unknown = \<lparr>em_order_id = fe_order_id f, em_symbol = fe_symbol f, em_expected_price = fe_price f,
            em_actual_fill_price = fe_price f, em_slippage_bps = 0, em_latency_ms = -1,
            em_cancel_latency_ms = None, em_rejected = False, em_reject_reason = None,
            em_measured_at = now\<rparr>
      in case map_of (eq_pending_fills s) (fe_order_id f) of
           None \<Rightarrow> unknown
         | Some (submit_time, expected_price) \<Rightarrow>
             let latency_ms = of_int (fill_time - submit_time) / 1000;
                 slippage_bps =
                   (if 0 < expected_price then \<bar>fe_price f - expected_price\<bar> / expected_price * 10000 else 0)
             in unknown\<lparr>em_expected_price := expected_price, em_slippage_bps := py_round slippage_bps 4,
                        em_latency_ms := py_round (max latency_ms 0) 3\<rparr>)"

definition eqa_fill_event :: "timestamp \<Rightarrow> fill_event \<Rightarrow> timestamp option \<Rightarrow> eqa \<Rightarrow> eqa \<times> eqa_effect list" where
  "eqa_fill_event now f filled_at s =
     (let fill_time = (case filled_at of None \<Rightarrow> now | Some t \<Rightarrow> t);
          m = fill_metrics now f fill_time s;
          (s', out) = check_quality_degradation now
            (s\<lparr>eq_pending_fills := AList.delete (fe_order_id f) (eq_pending_fills s),
               eq_metrics_window := push_bounded 50 (eq_metrics_window s) m\<rparr>)
      in (s', [Audit_Metrics m, Publish_Metrics m] @ out))"

definition eqa_order_update ::
  "timestamp \<Rightarrow> string \<Rightarrow> string \<Rightarrow> symbol \<Rightarrow> string option \<Rightarrow> eqa \<Rightarrow> eqa \<times> eqa_effect list" where
  "eqa_order_update now status order_id sy why s =
     (if status \<noteq> order_status_value OS_REJECTED then (s, [])
      else
        let expected = (case map_of (eq_pending_fills s) order_id of None \<Rightarrow> 0 | Some (t, x) \<Rightarrow> x);
            m = \<lparr>em_order_id = order_id, em_symbol = sy, em_expected_price = expected,
                 em_actual_fill_price = 0, em_slippage_bps = 0, em_latency_ms = 0,
                 em_cancel_latency_ms = None, em_rejected = True, em_reject_reason = why,
                 em_measured_at = now\<rparr>;
            (s', out) = check_quality_degradation now
              (s\<lparr>eq_rejections := List.insert order_id (eq_rejections s),
                 eq_pending_fills := AList.delete order_id (eq_pending_fills s),
                 eq_metrics_window := push_bounded 50 (eq_metrics_window s) m\<rparr>)
        in (s', [Audit_Order_Rejected sy order_id why, Publish_Metrics m] @ out))"

datatype eqa_event =
    Eqa_Submitted string "timestamp option" timestamp pyfloat
  | Eqa_Fill timestamp fill_event "timestamp option"
  | Eqa_Order_Update timestamp string string symbol "string option"
  | Eqa_Summary_Due timestamp

fun eqa_act :: "eqa \<Rightarrow> eqa_event \<Rightarrow> eqa \<times> eqa_effect list" where
  "eqa_act s (Eqa_Submitted i t mt x) = (eqa_order_submitted i t mt x s, [])"
| "eqa_act s (Eqa_Fill now f t) = eqa_fill_event now f t s"
| "eqa_act s (Eqa_Order_Update now st i sy why) = eqa_order_update now st i sy why s"
| "eqa_act s (Eqa_Summary_Due now) = (s, [Publish_Summary (compute_session_summary now s)])"

definition eqa_step :: "eqa \<Rightarrow> eqa_event \<Rightarrow> eqa" where
  "eqa_step s e = fst (eqa_act s e)"

definition eqa_emits :: "eqa \<Rightarrow> eqa_event \<Rightarrow> eqa_effect list" where
  "eqa_emits s e = snd (eqa_act s e)"

section \<open>Rounding and percentiles\<close>

lemma round_half_even_bounds: "\<lfloor>x\<rfloor> \<le> round_half_even x" "round_half_even x \<le> \<lfloor>x\<rfloor> + 1"
  by (simp_all add: round_half_even_def Let_def)

lemma round_half_even_mono: "x \<le> y \<Longrightarrow> round_half_even x \<le> round_half_even y"
proof (cases "\<lfloor>x\<rfloor> = \<lfloor>y\<rfloor>")
  case True
  assume "x \<le> y"
  with True show ?thesis by (auto simp: round_half_even_def Let_def)
next
  case False
  assume "x \<le> y"
  with False have "\<lfloor>x\<rfloor> + 1 \<le> \<lfloor>y\<rfloor>" using floor_mono [of x y] by linarith
  with round_half_even_bounds [of x] round_half_even_bounds [of y] show ?thesis by linarith
qed

lemma round_half_even_of_int: "round_half_even (of_int n) = n"
  by (simp add: round_half_even_def)

lemma py_round_mono: "x \<le> y \<Longrightarrow> py_round x k \<le> py_round y k"
  unfolding py_round_def by (intro divide_right_mono) (simp_all add: round_half_even_mono)

lemma py_round_int: "py_round (of_int n) k = of_int n"
proof -
  have "of_int n * 10 ^ k = (of_int (n * 10 ^ k) :: real)" by simp
  then have "py_round (of_int n) k = of_int (n * 10 ^ k) / 10 ^ k"
    unfolding py_round_def by (simp only: round_half_even_of_int)
  then show ?thesis by simp
qed

lemma py_round_range: "of_int a \<le> x \<Longrightarrow> x \<le> of_int b \<Longrightarrow> of_int a \<le> py_round x k \<and> py_round x k \<le> of_int b"
  using py_round_mono [of "of_int a" x k] py_round_mono [of x "of_int b" k] by (simp add: py_round_int)

text \<open>The interpolation between neighbours, as a function of the position in the list.\<close>

definition interpolate :: "pyfloat list \<Rightarrow> pyfloat \<Rightarrow> pyfloat" where
  "interpolate xs x =
     (if length xs \<le> nat \<lfloor>x\<rfloor> + 1 then last xs
      else xs ! nat \<lfloor>x\<rfloor> + (x - of_int \<lfloor>x\<rfloor>) * (xs ! (nat \<lfloor>x\<rfloor> + 1) - xs ! nat \<lfloor>x\<rfloor>))"

lemma percentile_interpolate:
  assumes "xs \<noteq> []" and "0 \<le> pct"
  shows "percentile xs pct = interpolate xs (of_int pct / 100 * of_int (int (length xs) - 1))"
proof -
  let ?x = "of_int pct / 100 * of_int (int (length xs) - 1) :: real"
  have "0 \<le> ?x" using assms by (cases xs) simp_all
  then have "py_trunc ?x = \<lfloor>?x\<rfloor>" "0 \<le> \<lfloor>?x\<rfloor>" by (simp_all add: py_trunc_nonneg)
  moreover have "nat (\<lfloor>?x\<rfloor> + 1) = nat \<lfloor>?x\<rfloor> + 1" using \<open>0 \<le> \<lfloor>?x\<rfloor>\<close> by linarith
  moreover have "int (length xs) \<le> \<lfloor>?x\<rfloor> + 1 \<longleftrightarrow> length xs \<le> nat \<lfloor>?x\<rfloor> + 1"
    using \<open>0 \<le> \<lfloor>?x\<rfloor>\<close> by linarith
  ultimately show ?thesis using assms(1) by (simp only: percentile_def interpolate_def Let_def if_False)
qed

lemma between: "(a :: real) \<le> b \<Longrightarrow> 0 \<le> f \<Longrightarrow> f \<le> 1 \<Longrightarrow> a \<le> a + f * (b - a) \<and> a + f * (b - a) \<le> b"
proof -
  assume "a \<le> b" "0 \<le> f" "f \<le> 1"
  then have "0 \<le> f * (b - a)" by simp
  moreover have "f * (b - a) \<le> 1 * (b - a)"
    using \<open>a \<le> b\<close> \<open>f \<le> 1\<close> by (intro mult_right_mono) simp_all
  ultimately show ?thesis by simp
qed

lemma interpolate_step:
  assumes "sorted xs" and "xs \<noteq> []" and "nat \<lfloor>x\<rfloor> < length xs"
  shows "xs ! nat \<lfloor>x\<rfloor> \<le> interpolate xs x"
    and "interpolate xs x \<le> (if length xs \<le> nat \<lfloor>x\<rfloor> + 1 then last xs else xs ! (nat \<lfloor>x\<rfloor> + 1))"
proof -
  have last: "last xs = xs ! nat \<lfloor>x\<rfloor>" if "length xs \<le> nat \<lfloor>x\<rfloor> + 1"
  proof -
    from that assms(3) have "length xs - 1 = nat \<lfloor>x\<rfloor>" by linarith
    then show ?thesis by (simp add: last_conv_nth assms(2))
  qed
  have f: "0 \<le> x - of_int \<lfloor>x\<rfloor>" "x - of_int \<lfloor>x\<rfloor> \<le> 1" by linarith+
  show "xs ! nat \<lfloor>x\<rfloor> \<le> interpolate xs x"
    using last between [OF _ f, of "xs ! nat \<lfloor>x\<rfloor>" "xs ! (nat \<lfloor>x\<rfloor> + 1)"] assms(1)
    by (auto simp: interpolate_def sorted_nth_mono)
  show "interpolate xs x \<le> (if length xs \<le> nat \<lfloor>x\<rfloor> + 1 then last xs else xs ! (nat \<lfloor>x\<rfloor> + 1))"
    using between [OF _ f, of "xs ! nat \<lfloor>x\<rfloor>" "xs ! (nat \<lfloor>x\<rfloor> + 1)"] assms(1)
    by (auto simp: interpolate_def sorted_nth_mono)
qed

lemma interpolate_mono:
  assumes "sorted xs" and "xs \<noteq> []" and "0 \<le> x" and "x \<le> y" and "y \<le> of_nat (length xs - 1)"
  shows "interpolate xs x \<le> interpolate xs y"
proof (cases "\<lfloor>x\<rfloor> = \<lfloor>y\<rfloor>")
  case True
  show ?thesis
  proof (cases "length xs \<le> nat \<lfloor>y\<rfloor> + 1")
    case False
    then have "xs ! nat \<lfloor>y\<rfloor> \<le> xs ! (nat \<lfloor>y\<rfloor> + 1)" using assms(1) by (simp add: sorted_nth_mono)
    with True False assms(4) show ?thesis by (simp add: interpolate_def mult_right_mono)
  qed (simp add: interpolate_def True)
next
  case False
  have "\<lfloor>y\<rfloor> \<le> int (length xs - 1)" using assms(5) by linarith
  then have y: "nat \<lfloor>y\<rfloor> < length xs" using assms(2) by (cases xs) auto
  have "\<lfloor>x\<rfloor> < \<lfloor>y\<rfloor>" using False floor_mono [OF assms(4)] by linarith
  then have lt: "nat \<lfloor>x\<rfloor> + 1 \<le> nat \<lfloor>y\<rfloor>" using assms(3) by linarith
  then have "interpolate xs x \<le> xs ! (nat \<lfloor>x\<rfloor> + 1)"
    using interpolate_step(2) [OF assms(1,2), of x] y by (simp split: if_splits)
  also have "\<dots> \<le> xs ! nat \<lfloor>y\<rfloor>" using lt y assms(1) by (simp add: sorted_nth_mono)
  also have "\<dots> \<le> interpolate xs y" by (rule interpolate_step(1) [OF assms(1,2) y])
  finally show ?thesis .
qed

lemma percentile_mono:
  assumes "sorted xs" and "0 \<le> p" and "p \<le> q" and "q \<le> 100"
  shows "percentile xs p \<le> percentile xs q"
proof (cases "xs = []")
  case False
  let ?n = "of_int (int (length xs) - 1) :: real"
  have n: "0 \<le> ?n" "?n = of_nat (length xs - 1)" using False by (cases xs; simp)+
  have "of_int q / 100 * ?n \<le> 1 * ?n" using assms(4) n(1) by (intro mult_right_mono) simp_all
  moreover have "of_int p / 100 * ?n \<le> of_int q / 100 * ?n" using assms(3) n(1) by (intro mult_right_mono) simp_all
  moreover have "0 \<le> of_int p / 100 * ?n" using assms(2) n(1) by simp
  ultimately have "interpolate xs (of_int p / 100 * ?n) \<le> interpolate xs (of_int q / 100 * ?n)"
    unfolding mult_1 n(2) by (intro interpolate_mono assms(1) False)
  then show ?thesis
    using percentile_interpolate [OF False, of p] percentile_interpolate [OF False, of q] assms(2,3) by simp
qed (simp add: percentile_def)

lemma percentile_range:
  assumes "sorted xs" and "xs \<noteq> []" and "0 \<le> p" and "p \<le> 100"
  shows "hd xs \<le> percentile xs p \<and> percentile xs p \<le> last xs"
proof -
  have "percentile xs 0 = hd xs"
    using assms(2) by (cases xs) (auto simp: percentile_def py_trunc_def)
  moreover have "percentile xs 100 = last xs"
    using assms(2) by (cases xs) (simp_all add: percentile_def py_trunc_def)
  ultimately show ?thesis
    using percentile_mono [OF assms(1), of 0 p] percentile_mono [OF assms(1), of p 100] assms(3,4) by simp
qed

lemma round_half_even_complement:
  assumes "even N"
  shows "round_half_even (of_int N - x) = N - round_half_even x"
proof (cases "x = of_int \<lfloor>x\<rfloor>")
  case True
  then have "of_int N - x = of_int (N - \<lfloor>x\<rfloor>)" by simp
  with True show ?thesis by (metis round_half_even_of_int)
next
  case False
  then have "of_int \<lfloor>x\<rfloor> < x" by (metis of_int_floor_le order_le_less)
  then have "\<lfloor>of_int N - x\<rfloor> = N - \<lfloor>x\<rfloor> - 1" by (intro floor_unique) (linarith, linarith)
  with assms show ?thesis by (auto simp: round_half_even_def Let_def)
qed

lemma py_round_complement: "py_round (1 - x) 4 = 1 - py_round x 4"
proof -
  have "(1 - x) * 10 ^ 4 = of_int 10000 - x * 10 ^ 4" by (simp add: algebra_simps)
  then have "round_half_even ((1 - x) * 10 ^ 4) = 10000 - round_half_even (x * 10 ^ 4)"
    by (simp only: round_half_even_complement) (simp add: round_half_even_complement [of 10000, simplified])
  then show ?thesis by (simp add: py_round_def diff_divide_distrib)
qed

section \<open>The window and the flag\<close>

definition measured :: "eqa_effect list \<Rightarrow> execution_metrics list" where
  "measured out = List.map_filter (\<lambda>x. case x of Publish_Metrics m \<Rightarrow> Some m | _ \<Rightarrow> None) out"

lemma measured_simps [simp]:
  "measured [] = []" "measured (xs @ ys) = measured xs @ measured ys"
  "measured (Publish_Metrics m # xs) = m # measured xs" "measured (Audit_Metrics m # xs) = measured xs"
  "measured (Publish_Summary q # xs) = measured xs" "measured (Alert_Severe x r f # xs) = measured xs"
  "measured (Audit_Order_Rejected sy i why # xs) = measured xs"
  by (simp_all add: measured_def List.map_filter_def)

definition lasts :: "nat \<Rightarrow> 'a list \<Rightarrow> 'a list" where
  "lasts n xs = drop (length xs - n) xs"

lemma lasts_push: "0 < n \<Longrightarrow> push_bounded n (lasts n xs) x = lasts n (xs @ [x])"
  by (auto simp: lasts_def push_bounded_def Let_def tl_append2 drop_Suc tl_drop Suc_diff_le not_less
      split: nat_diff_split)

definition metric_ok :: "execution_metrics \<Rightarrow> bool" where
  "metric_ok m \<longleftrightarrow> 0 \<le> em_slippage_bps m"

definition eqa_ok :: "eqa \<Rightarrow> bool" where
  "eqa_ok s \<longleftrightarrow> eq_quality_degraded s = over_threshold s (compute_session_summary 0 s) \<and>
     length (eq_metrics_window s) \<le> 50 \<and> list_all metric_ok (eq_metrics_window s)"

lemma over_threshold_flag:
  "over_threshold s (compute_session_summary now (s\<lparr>eq_quality_degraded := b\<rparr>)) =
     over_threshold s (compute_session_summary now' s)"
  "over_threshold (s\<lparr>eq_quality_degraded := b\<rparr>) q = over_threshold s q"
  by (simp_all add: over_threshold_def compute_session_summary_def Let_def)

lemma degradation_state:
  "fst (check_quality_degradation now s) =
     s\<lparr>eq_quality_degraded := over_threshold s (compute_session_summary now s)\<rparr>"
  by (simp add: check_quality_degradation_def Let_def)

lemma degradation_ok:
  "length (eq_metrics_window s) \<le> 50 \<Longrightarrow> list_all metric_ok (eq_metrics_window s) \<Longrightarrow>
     eqa_ok (fst (check_quality_degradation now s))"
  by (simp add: eqa_ok_def degradation_state over_threshold_flag)
     (simp add: over_threshold_def compute_session_summary_def Let_def)

lemma push_ok:
  assumes "eqa_ok s" and "metric_ok m"
  shows "length (push_bounded 50 (eq_metrics_window s) m) \<le> 50"
    "list_all metric_ok (push_bounded 50 (eq_metrics_window s) m)"
  using assms by (auto simp: eqa_ok_def push_bounded_def Let_def intro: list_all_tl)

lemma fill_metric_ok: "metric_ok (fill_metrics now f t s)"
proof -
  have "0 \<le> x \<Longrightarrow> 0 \<le> py_round x 4" for x using py_round_mono [of 0 x 4] py_round_int [of 0 4] by simp
  then show ?thesis
    by (auto simp: fill_metrics_def metric_ok_def Let_def split: option.split)
qed

lemma eqa_step_ok: "eqa_ok s \<Longrightarrow> eqa_ok (eqa_step s e)"
proof (cases e)
  case (Eqa_Fill now f t)
  assume "eqa_ok s"
  then show ?thesis
    using Eqa_Fill push_ok [OF \<open>eqa_ok s\<close> fill_metric_ok]
    by (simp add: eqa_step_def eqa_fill_event_def Let_def case_prod_unfold degradation_ok)
next
  case (Eqa_Order_Update now st i sy why)
  assume "eqa_ok s"
  then show ?thesis
    using Eqa_Order_Update push_ok [OF \<open>eqa_ok s\<close>]
    by (auto simp: eqa_step_def eqa_order_update_def Let_def case_prod_unfold metric_ok_def intro!: degradation_ok)
qed (auto simp: eqa_step_def eqa_order_submitted_def eqa_ok_def over_threshold_def compute_session_summary_def Let_def)

interpretation quality: inv_machine eqa_step eqa_ok
  by unfold_locales (rule eqa_step_ok)

lemma step_window:
  "eq_metrics_window (eqa_step s e) =
     (case measured (eqa_emits s e) of [] \<Rightarrow> eq_metrics_window s
      | m # ms \<Rightarrow> push_bounded 50 (eq_metrics_window s) m) \<and> length (measured (eqa_emits s e)) \<le> 1"
proof -
  have none: "measured (snd (check_quality_degradation now s)) = []" for now s
    by (simp add: check_quality_degradation_def Let_def)
  show ?thesis
    by (cases e)
       (auto simp: eqa_step_def eqa_emits_def eqa_order_submitted_def eqa_fill_event_def eqa_order_update_def
         Let_def case_prod_unfold degradation_state none)
qed

lemma step_thresholds:
  "eq_slippage_threshold (eqa_step s e) = eq_slippage_threshold s"
  "eq_rejection_threshold (eqa_step s e) = eq_rejection_threshold s"
  by (cases e; simp add: eqa_step_def eqa_order_submitted_def eqa_fill_event_def eqa_order_update_def
      Let_def case_prod_unfold degradation_state)+

definition eqa_start :: "string \<Rightarrow> pyfloat \<Rightarrow> pyfloat \<Rightarrow> eqa" where
  "eqa_start date slippage rejection = eqa_on_startup date slippage rejection (eqa_init date)"

lemma eqa_start_ok: "0 \<le> a \<Longrightarrow> 0 \<le> b \<Longrightarrow> eqa_ok (eqa_start date a b)"
  by (simp add: eqa_ok_def eqa_start_def eqa_on_startup_def eqa_init_def over_threshold_def
      compute_session_summary_def)

lemma run_window:
  "eq_metrics_window (foldl eqa_step (eqa_start date a b) es) =
     lasts 50 (measured (run_out eqa_step eqa_emits (eqa_start date a b) es))"
proof (induction es rule: rev_induct)
  case Nil
  show ?case by (simp add: eqa_start_def eqa_on_startup_def eqa_init_def lasts_def)
next
  case (snoc e es)
  let ?s = "foldl eqa_step (eqa_start date a b) es"
  have "measured (run_out eqa_step eqa_emits (eqa_start date a b) (es @ [e])) =
      measured (run_out eqa_step eqa_emits (eqa_start date a b) es) @ measured (eqa_emits ?s e)"
    by (simp add: run_out_append)
  with snoc step_window [of ?s e] show ?case
    by (cases "measured (eqa_emits ?s e)") (simp_all add: lasts_push)
qed

lemma run_thresholds:
  "eq_slippage_threshold (foldl eqa_step (eqa_start date a b) es) = a"
  "eq_rejection_threshold (foldl eqa_step (eqa_start date a b) es) = b"
  by (induction es rule: rev_induct) (simp_all add: step_thresholds eqa_start_def eqa_on_startup_def)

text \<open>
  Over any run the agent counts its execution quality as degraded exactly when the average
  slippage or the rate of rejections over the last fifty measurements that it published lies
  above the configured threshold.
\<close>

theorem degraded_iff_over_threshold:
  fixes es :: "eqa_event list" and date :: string and a b :: pyfloat and now :: timestamp
  defines "s \<equiv> foldl eqa_step (eqa_start date a b) es"
  assumes "0 \<le> a" and "0 \<le> b"
  shows "(eq_quality_degraded s \<longleftrightarrow> a < es_avg_slippage_bps (compute_session_summary now s) \<or>
      b < es_rejection_rate (compute_session_summary now s)) \<and>
    eq_metrics_window s = lasts 50 (measured (run_out eqa_step eqa_emits (eqa_start date a b) es))"
proof -
  have "eqa_ok s" unfolding s_def by (rule quality.run_inv) (rule eqa_start_ok [OF assms(2,3)])
  then show ?thesis
    using run_window [of date a b es] run_thresholds [of date a b es]
    by (auto simp: eqa_ok_def over_threshold_def s_def compute_session_summary_def Let_def)
qed

text \<open>
  The summary of any run is in bounds: the rates lie between 0 and 1 and do not exceed 1
  together, rounding included, the average slippage is not negative, and the percentiles of the
  latency are not negative and in order.
\<close>

theorem summary_in_bounds:
  fixes es :: "eqa_event list" and date :: string and a b :: pyfloat and now :: timestamp
  defines "q \<equiv> compute_session_summary now (foldl eqa_step (eqa_start date a b) es)"
  assumes "0 \<le> a" and "0 \<le> b"
  shows "0 \<le> es_fill_rate q \<and> 0 \<le> es_rejection_rate q \<and> es_fill_rate q + es_rejection_rate q \<le> 1 \<and>
    0 \<le> es_avg_slippage_bps q \<and> 0 \<le> es_p50_latency_ms q \<and>
    es_p50_latency_ms q \<le> es_p95_latency_ms q \<and> es_p95_latency_ms q \<le> es_p99_latency_ms q"
proof -
  let ?s = "foldl eqa_step (eqa_start date a b) es"
  let ?w = "eq_metrics_window ?s"
  let ?fills = "filter metric_filled ?w"
  let ?lat = "sort (map em_latency_ms ?fills)"
  have ok: "eqa_ok ?s" by (rule quality.run_inv) (rule eqa_start_ok [OF assms(2,3)])
  have nonneg: "0 \<le> x \<Longrightarrow> 0 \<le> py_round x k" for x k
    using py_round_mono [of 0 x k] py_round_int [of 0 k] by simp
  have pct: "0 \<le> percentile ?lat 50" "percentile ?lat 50 \<le> percentile ?lat 95" "percentile ?lat 95 \<le> percentile ?lat 99"
  proof -
    have "0 \<le> hd ?lat" if "?lat \<noteq> []"
      using that hd_in_set [OF that] by (auto simp: metric_filled_def)
    then show "0 \<le> percentile ?lat 50"
      using percentile_range [of ?lat 50] by (cases "?lat = []") (auto simp: percentile_def)
  qed (simp_all add: percentile_mono)
  have split: "length (filter metric_filled w) + length (filter em_rejected w) \<le> length w" for w
    by (induction w) (simp_all add: metric_filled_def)
  show ?thesis
  proof (cases "?w = []")
    case False
    let ?f = "of_nat (length ?fills) / of_nat (length ?w) :: real"
    let ?r = "of_nat (length (filter em_rejected ?w)) / of_nat (length ?w) :: real"
    have "?f + ?r \<le> 1"
      using False split [of ?w] by (simp add: divide_simps flip: of_nat_add)
    then have "py_round ?f 4 \<le> 1 - py_round ?r 4"
      using py_round_mono [of ?f "1 - ?r" 4] by (simp add: py_round_complement)
    moreover have "0 \<le> average (map em_slippage_bps ?fills)"
      using ok by (auto simp: average_def eqa_ok_def list_all_iff metric_ok_def intro!: divide_nonneg_nonneg sum_list_nonneg)
    ultimately show ?thesis
      using False pct unfolding q_def compute_session_summary_def Let_def
      by (simp add: nonneg py_round_mono)
  qed (simp add: q_def compute_session_summary_def)
qed

definition demo_fill :: fill_event where
  "demo_fill = \<lparr>fe_fill_id = ''f1'', fe_order_id = ''o1'', fe_symbol = ''AAPL'', fe_qty = 100,
     fe_price = 1002 / 10, fe_side = BUY, fe_filled_at = 5000\<rparr>"

definition demo_fills :: "eqa_event list" where
  "demo_fills = [Eqa_Submitted ''o1'' (Some 1000) 1000 100, Eqa_Fill 6000 demo_fill (Some 5000)]"

lemma demo_window:
  "eq_metrics_window (foldl eqa_step (eqa_start ''d'' 15 (3 / 20)) demo_fills) =
     [\<lparr>em_order_id = ''o1'', em_symbol = ''AAPL'', em_expected_price = 100,
       em_actual_fill_price = 1002 / 10, em_slippage_bps = 20, em_latency_ms = 4,
       em_cancel_latency_ms = None, em_rejected = False, em_reject_reason = None, em_measured_at = 6000\<rparr>]"
  using py_round_int [of 20 4] py_round_int [of 4 3]
  by (simp add: demo_fills_def demo_fill_def eqa_step_def eqa_start_def eqa_on_startup_def eqa_init_def
      eqa_order_submitted_def eqa_fill_event_def fill_metrics_def degradation_state Let_def case_prod_unfold
      push_bounded_def)

lemma demo_fills_summary:
  "es_avg_slippage_bps (compute_session_summary 7000 (foldl eqa_step (eqa_start ''d'' 15 (3 / 20)) demo_fills)) = 20 \<and>
   es_fill_rate (compute_session_summary 7000 (foldl eqa_step (eqa_start ''d'' 15 (3 / 20)) demo_fills)) = 1"
  using py_round_int [of 20 4] py_round_int [of 1 4]
  by (simp add: compute_session_summary_def Let_def demo_window metric_filled_def average_def)

theorem degraded_iff_over_threshold_witness:
  "eq_quality_degraded (foldl eqa_step (eqa_start ''d'' 15 (3 / 20)) demo_fills)"
  using degraded_iff_over_threshold [of 15 "3 / 20" "''d''" demo_fills 7000] demo_fills_summary by simp

theorem summary_in_bounds_witness:
  "es_rejection_rate (compute_session_summary 7000 (foldl eqa_step (eqa_start ''d'' 15 (3 / 20)) demo_fills)) \<le> 0"
  using summary_in_bounds [of 15 "3 / 20" 7000 "''d''" demo_fills] demo_fills_summary by simp

text \<open>Changes of the flag are what is reported, and only a change to degraded is escalated.\<close>

definition reported :: "eqa_effect list \<Rightarrow> bool list" where
  "reported out = List.map_filter (\<lambda>x. case x of Publish_Summary q \<Rightarrow> Some (es_quality_degraded q) | _ \<Rightarrow> None) out"

lemma reported_simps [simp]:
  "reported [] = []" "reported (Publish_Summary q # xs) = es_quality_degraded q # reported xs"
  "reported (Publish_Metrics m # xs) = reported xs" "reported (Audit_Metrics m # xs) = reported xs"
  "reported (Alert_Severe x r f # xs) = reported xs" "reported (Audit_Order_Rejected sy i why # xs) = reported xs"
  by (simp_all add: reported_def List.map_filter_def)

lemma degradation_reported:
  fixes s :: eqa and now :: timestamp
  defines "b \<equiv> over_threshold s (compute_session_summary now s)"
  shows "reported (snd (check_quality_degradation now s)) = (if b = eq_quality_degraded s then [] else [b])"
    and "Alert_Severe x r f \<in> set (snd (check_quality_degradation now s)) \<Longrightarrow> \<not> eq_quality_degraded s \<and> b"
  unfolding b_def by (auto simp: check_quality_degradation_def Let_def split: if_splits)

lemma changes_reported:
  assumes "\<And>now. e \<noteq> Eqa_Summary_Due now"
  shows "reported (eqa_emits s e) =
      (if eq_quality_degraded (eqa_step s e) = eq_quality_degraded s then [] else [eq_quality_degraded (eqa_step s e)])"
    and "Alert_Severe x r f \<in> set (eqa_emits s e) \<Longrightarrow> \<not> eq_quality_degraded s \<and> eq_quality_degraded (eqa_step s e)"
proof -
  show "reported (eqa_emits s e) =
      (if eq_quality_degraded (eqa_step s e) = eq_quality_degraded s then [] else [eq_quality_degraded (eqa_step s e)])"
  proof (cases e)
    case (Eqa_Summary_Due now)
    with assms show ?thesis by blast
  qed (simp_all add: eqa_step_def eqa_emits_def eqa_order_submitted_def eqa_fill_event_def
        eqa_order_update_def Let_def case_prod_unfold degradation_state degradation_reported)
  show "\<not> eq_quality_degraded s \<and> eq_quality_degraded (eqa_step s e)" if "Alert_Severe x r f \<in> set (eqa_emits s e)"
  proof (cases e)
    case (Eqa_Fill now fe t)
    then show ?thesis
      using that
      by (auto simp: eqa_step_def eqa_emits_def eqa_fill_event_def Let_def case_prod_unfold degradation_state
          dest: degradation_reported(2))
  next
    case (Eqa_Order_Update now st i sy why)
    then show ?thesis
      using that
      by (auto simp: eqa_step_def eqa_emits_def eqa_order_update_def Let_def case_prod_unfold degradation_state
          dest: degradation_reported(2) split: if_splits)
  qed (use that in \<open>simp_all add: eqa_emits_def\<close>)
qed

end
