(* ===== verification/Tax.thy ===== *)
theory Tax
  imports Audit_Log Tera
begin

text \<open>
  The tax and compliance agent of \<open>agents/agent_15_tax_compliance.py\<close>: the wash-sale flags it
  keeps in the store, the count of day trades, the regulatory fees, and the check that every
  closed trade of a session has an audit entry. The clock is read at three places of the
  handler, which are three arguments. The JSON text of a payload is the parameter \<open>dump\<close> where
  something reads it, and left out of the audit effects.
\<close>

section \<open>State and effects\<close>

record tca =
  ta_recent_losses :: "(symbol \<times> closed_trade) list"
  ta_day_trade_timestamps :: "timestamp list"
  ta_total_fees_today :: pyfloat

definition tca_init :: tca where
  "tca_init = \<lparr>ta_recent_losses = [], ta_day_trade_timestamps = [], ta_total_fees_today = 0\<rparr>"

record trade_fees =
  tf_sec_fee :: pyfloat
  tf_finra_taf :: pyfloat
  tf_total :: pyfloat
  tf_sale_proceeds :: pyfloat

datatype tca_effect =
    Audit_Trade_Closed closed_trade
  | Audit_Fees trade_fees string
  | Audit_Wash_Sale_Flag symbol pyfloat
  | Audit_Pdt_Limit int
  | Audit_Order_Submission
  | Audit_Fill
  | Audit_Daily_Pnl
  | Alert_Pdt_Limit int
  | Alert_Wash_Sale symbol pyfloat timestamp

record tca_clock =
  tk_flagged_at :: timestamp
  tk_pdt_now :: timestamp
  tk_wash_now :: timestamp

definition wash_sale_days :: int where
  "wash_sale_days = 30"

definition days :: "int \<Rightarrow> timestamp" where
  "days n = n * 86400 * 1000000"

section \<open>Fees\<close>

definition tca_sec_fee_rate :: pyfloat where
  "tca_sec_fee_rate = 278 / 10000000"

definition tca_finra_taf_rate :: pyfloat where
  "tca_finra_taf_rate = 166 / 1000000"

definition compute_fees :: "closed_trade \<Rightarrow> trade_fees" where
  "compute_fees t =
     (let sale_proceeds = ct_exit_price t * of_int (ct_shares t);
          sec_fee = tca_sec_fee_rate * sale_proceeds;
          finra_taf = min (tca_finra_taf_rate * of_int (ct_shares t)) (830 / 100)
      in \<lparr>tf_sec_fee = py_round sec_fee 4, tf_finra_taf = py_round finra_taf 4,
          tf_total = py_round (sec_fee + finra_taf) 4, tf_sale_proceeds = py_round sale_proceeds 2\<rparr>)"

section \<open>Wash sales and day trades\<close>

definition flag_wash_sale ::
  "timestamp \<Rightarrow> closed_trade \<Rightarrow> tca \<times> state_store \<Rightarrow> (tca \<times> state_store) \<times> tca_effect list" where
  "flag_wash_sale flagged_at t st =
     (let flag = \<lparr>ws_symbol = ct_symbol t, ws_last_exit_at = ct_closed_at t,
                   ws_last_exit_price = ct_exit_price t, ws_net_loss = ct_net_pnl t,
                   ws_window_end = ct_closed_at t + days wash_sale_days, ws_flagged_at = flagged_at\<rparr>
      in (((fst st)\<lparr>ta_recent_losses := AList.update (ct_symbol t) t (ta_recent_losses (fst st))\<rparr>,
           upsert_wash_sale flag (snd st)),
          [Audit_Wash_Sale_Flag (ct_symbol t) (ct_net_pnl t)]))"

definition check_pdt_exposure :: "timestamp \<Rightarrow> tca \<Rightarrow> tca \<times> tca_effect list" where
  "check_pdt_exposure now s =
     (let kept = filter (\<lambda>ts. now - days 5 \<le> ts) (ta_day_trade_timestamps s);
          count = int (length kept)
      in (s\<lparr>ta_day_trade_timestamps := kept\<rparr>,
          if pdt_max_day_trades \<le> count then [Audit_Pdt_Limit count, Alert_Pdt_Limit count] else []))"

definition check_re_entry_wash_sale ::
  "timestamp \<Rightarrow> symbol \<Rightarrow> state_store \<Rightarrow> state_store \<times> tca_effect list" where
  "check_re_entry_wash_sale now sy db =
     (case get_wash_sale_flag now sy db of
        (None, db) \<Rightarrow> (db, [])
      | (Some flag, db) \<Rightarrow> (db, [Alert_Wash_Sale sy (ws_net_loss flag) (ws_window_end flag)]))"

section \<open>The handler of a closed trade\<close>

text \<open>\<open>None\<close> is a payload that does not parse.\<close>

definition tca_trade_closed ::
  "tca_clock \<Rightarrow> closed_trade option \<Rightarrow> tca \<times> state_store \<Rightarrow> (tca \<times> state_store) \<times> tca_effect list" where
  "tca_trade_closed tk trade st =
     (case trade of
        None \<Rightarrow> (st, [])
      | Some t \<Rightarrow>
          (let (s, db) = st;
               fees = compute_fees t;
               s = s\<lparr>ta_total_fees_today := ta_total_fees_today s + tf_total fees\<rparr>;
               ((s, db), flagged) =
                 (if is_winner t then ((s, db), []) else flag_wash_sale (tk_flagged_at tk) t (s, db));
               (s, pdt) = check_pdt_exposure (tk_pdt_now tk)
                 (s\<lparr>ta_day_trade_timestamps := ta_day_trade_timestamps s @ [ct_closed_at t]\<rparr>);
               (db, re_entry) = check_re_entry_wash_sale (tk_wash_now tk) (ct_symbol t) db
           in ((s, db), [Audit_Trade_Closed t, Audit_Fees fees (ct_trade_id t)] @ flagged @ pdt @ re_entry)))"

datatype tca_event =
    Tca_Trade_Closed tca_clock "closed_trade option"
  | Tca_Order_Submitted
  | Tca_Fill
  | Tca_Daily_Pnl
  | Tera_Reads_Flag timestamp symbol

text \<open>The last event is no message to the agent: the risk gate reads a flag from the same store.\<close>

fun tca_act :: "tca \<times> state_store \<Rightarrow> tca_event \<Rightarrow> (tca \<times> state_store) \<times> tca_effect list" where
  "tca_act st (Tca_Trade_Closed tk t) = tca_trade_closed tk t st"
| "tca_act st Tca_Order_Submitted = (st, [Audit_Order_Submission])"
| "tca_act st Tca_Fill = (st, [Audit_Fill])"
| "tca_act st Tca_Daily_Pnl = (st, [Audit_Daily_Pnl])"
| "tca_act st (Tera_Reads_Flag now sy) = ((fst st, snd (get_wash_sale_flag now sy (snd st))), [])"

definition tca_step :: "tca \<times> state_store \<Rightarrow> tca_event \<Rightarrow> tca \<times> state_store" where
  "tca_step st e = fst (tca_act st e)"

definition tca_emits :: "tca \<times> state_store \<Rightarrow> tca_event \<Rightarrow> tca_effect list" where
  "tca_emits st e = snd (tca_act st e)"

section \<open>Completeness of the audit log\<close>

definition verify_audit_completeness ::
  "timestamp \<Rightarrow> string \<Rightarrow> state_store \<Rightarrow> string audit_log \<Rightarrow> bool" where
  "verify_audit_completeness session_start session_date db lg =
     (let audit_events = audit_query (Some ''TRADE_CLOSED'') None (Some session_start) 1000 lg
      in list_all (\<lambda>t. list_ex (\<lambda>e. py_in (ct_trade_id t) (ar_details e)) audit_events)
           (load_closed_trades session_date db))"

section \<open>A losing trade bars its symbol\<close>

definition window_end :: "closed_trade \<Rightarrow> timestamp" where
  "window_end t = ct_closed_at t + days wash_sale_days"

definition barred :: "closed_trade \<Rightarrow> state_store \<Rightarrow> bool" where
  "barred t db \<longleftrightarrow> (case row_of wr_symbol (st_wash db) (ct_symbol t) of
     None \<Rightarrow> False | Some r \<Rightarrow> window_end t \<le> ws_window_end (wr_raw r))"

text \<open>The events up to the end of the window: what reads the symbol's flag, and its later trades.\<close>

fun within_window :: "closed_trade \<Rightarrow> tca_event \<Rightarrow> bool" where
  "within_window t (Tca_Trade_Closed tk (Some u)) \<longleftrightarrow>
     (if ct_symbol u = ct_symbol t
      then ct_closed_at t \<le> ct_closed_at u \<and> tk_wash_now tk \<le> window_end t else True)"
| "within_window t (Tera_Reads_Flag now sy) \<longleftrightarrow> (if sy = ct_symbol t then now \<le> window_end t else True)"
| "within_window t e \<longleftrightarrow> True"

lemma barred_read:
  assumes "barred t db" and "sy = ct_symbol t \<Longrightarrow> now \<le> window_end t"
  shows "barred t (snd (get_wash_sale_flag now sy db))"
  using assms by (auto simp: barred_def get_wash_sale_flag_def Let_def row_of_filter split: option.splits)

lemma barred_flag:
  assumes "barred t db \<or> ct_symbol u = ct_symbol t"
    and "ct_symbol u = ct_symbol t \<Longrightarrow> ct_closed_at t \<le> ct_closed_at u"
  shows "barred t (snd (fst (flag_wash_sale fa u (s, db))))"
  using assms by (auto simp: barred_def flag_wash_sale_def Let_def upsert_wash_sale_def row_of_upsert
      set_wash_def window_end_def split: option.splits)

lemma trade_closed_store:
  "snd (fst (tca_trade_closed tk (Some t) (s, db))) =
     snd (get_wash_sale_flag (tk_wash_now tk) (ct_symbol t)
       (if is_winner t then db else snd (fst (flag_wash_sale (tk_flagged_at tk) t (s, db)))))"
  by (simp add: tca_trade_closed_def check_re_entry_wash_sale_def flag_wash_sale_def Let_def
      case_prod_unfold split: option.split)

lemma barred_step: "barred t (snd st) \<Longrightarrow> within_window t e \<Longrightarrow> barred t (snd (tca_step st e))"
proof (cases e)
  case (Tca_Trade_Closed tk trade)
  assume "barred t (snd st)" "within_window t e"
  then show ?thesis
    using Tca_Trade_Closed barred_flag [of t "snd st" _ "tk_flagged_at tk" "fst st"]
      trade_closed_store [of tk _ "fst st" "snd st"]
    by (cases trade) (auto simp: tca_step_def tca_trade_closed_def [of _ None] split: if_splits intro!: barred_read)
qed (auto simp: tca_step_def intro: barred_read split: if_splits)

lemma barred_run: "barred t (snd st) \<Longrightarrow> list_all (within_window t) es \<Longrightarrow> barred t (snd (foldl tca_step st es))"
proof (induction es arbitrary: st)
  case (Cons e es)
  then show ?case using barred_step [of t st e] by simp
qed simp

text \<open>
  C28. A trade that closed at a loss bars its symbol for thirty days: once the agent has handled it,
  and whatever it and the risk gate do until the window ends, the risk gate that reads the
  flag from the store approves no signal for the symbol.
\<close>

theorem losing_trade_bars_symbol:
  fixes st :: "tca \<times> state_store" and es :: "tca_event list" and t :: closed_trade and tk :: tca_clock
  defines "db \<equiv> snd (foldl tca_step (tca_step st (Tca_Trade_Closed tk (Some t))) es)"
  assumes "\<not> is_winner t" and "tk_wash_now tk \<le> window_end t" and "list_all (within_window t) es"
    and "now \<le> window_end t" and "te_wash_sale env = (\<lambda>sy. fst (get_wash_sale_flag now sy db))"
  shows "snd (evaluate_all_rules cf env now prune_now (ct_symbol t) gate) \<noteq> None"
proof -
  have "barred t (snd (tca_step st (Tca_Trade_Closed tk (Some t))))"
    using assms(2,3) barred_flag [of t "snd st" t "tk_flagged_at tk" "fst st"]
      trade_closed_store [of tk t "fst st" "snd st"]
    by (auto simp: tca_step_def intro!: barred_read)
  then have "barred t db" unfolding db_def by (rule barred_run) fact
  then have "fst (get_wash_sale_flag now (ct_symbol t) db) \<noteq> None"
    using assms(5) by (auto simp: barred_def get_wash_sale_flag_def Let_def split: option.splits)
  with assms(6) show ?thesis by (simp add: evaluate_all_rules_def Let_def)
qed

definition demo_loss :: closed_trade where
  "demo_loss = \<lparr>ct_trade_id = ''t1'', ct_plan_id = ''p1'', ct_symbol = ''AAPL'', ct_setup_type = BREAKOUT,
     ct_regime = TREND_DAY, ct_direction = LONG, ct_shares = 100, ct_entry_price = 50,
     ct_exit_price = 49, ct_stop_price = 49, ct_target_price = 52, ct_exit_mode = TIME_STOP,
     ct_gross_pnl = -100, ct_net_pnl = -101, ct_commission = 0, ct_slippage = 1,
     ct_hold_time_sec = 300, ct_opened_at = 0, ct_closed_at = 300000000\<rparr>"

definition demo_clock :: "timestamp \<Rightarrow> tca_clock" where
  "demo_clock now = \<lparr>tk_flagged_at = now, tk_pdt_now = now, tk_wash_now = now\<rparr>"

definition demo_gate_env :: "state_store \<Rightarrow> timestamp \<Rightarrow> tera_env" where
  "demo_gate_env db now = \<lparr>te_equity = 30000, te_positions = [], te_universe = None,
     te_wash_sale = (\<lambda>sy. fst (get_wash_sale_flag now sy db))\<rparr>"

theorem losing_trade_bars_symbol_witness:
  "snd (evaluate_all_rules tera_defaults
     (demo_gate_env (snd (tca_step (tca_init, store_init) (Tca_Trade_Closed (demo_clock 300000001) (Some demo_loss))))
        (days 20)) (days 20) (days 20) ''AAPL'' tera_init) \<noteq> None"
  using losing_trade_bars_symbol [where es = "[]" and t = demo_loss and tk = "demo_clock 300000001"
      and st = "(tca_init, store_init)" and now = "days 20" and cf = tera_defaults
      and env = "demo_gate_env (snd (tca_step (tca_init, store_init)
        (Tca_Trade_Closed (demo_clock 300000001) (Some demo_loss)))) (days 20)" and prune_now = "days 20"
      and gate = tera_init]
  by (simp add: is_winner_def demo_loss_def demo_clock_def window_end_def days_def wash_sale_days_def
      demo_gate_env_def)

text \<open>The alert of a re-entry is raised by the losing trade itself, before any entry.\<close>

lemma loss_raises_re_entry_alert:
  assumes "\<not> is_winner t" and "tk_wash_now tk \<le> window_end t"
  shows "Alert_Wash_Sale (ct_symbol t) (ct_net_pnl t) (window_end t)
     \<in> set (tca_emits st (Tca_Trade_Closed tk (Some t)))"
  using assms
  by (auto simp: tca_emits_def tca_trade_closed_def check_re_entry_wash_sale_def flag_wash_sale_def Let_def
      case_prod_unfold get_wash_sale_flag_def upsert_wash_sale_def row_of_upsert set_wash_def window_end_def
      split: option.splits)

section \<open>The count of day trades\<close>

fun closings :: "tca_event list \<Rightarrow> timestamp list" where
  "closings [] = []"
| "closings (Tca_Trade_Closed tk (Some t) # es) = ct_closed_at t # closings es"
| "closings (e # es) = closings es"

fun pdt_clocks :: "tca_event list \<Rightarrow> timestamp list" where
  "pdt_clocks [] = []"
| "pdt_clocks (Tca_Trade_Closed tk (Some t) # es) = tk_pdt_now tk # pdt_clocks es"
| "pdt_clocks (e # es) = pdt_clocks es"

lemma closings_append [simp]: "closings (xs @ ys) = closings xs @ closings ys"
  by (induction xs rule: closings.induct) simp_all

lemma pdt_clocks_append [simp]: "pdt_clocks (xs @ ys) = pdt_clocks xs @ pdt_clocks ys"
  by (induction xs rule: pdt_clocks.induct) simp_all

lemma trade_closed_days:
  "ta_day_trade_timestamps (fst (tca_step st (Tca_Trade_Closed tk (Some t)))) =
     filter (\<lambda>x. tk_pdt_now tk - days 5 \<le> x) (ta_day_trade_timestamps (fst st) @ [ct_closed_at t])"
  by (simp add: tca_step_def tca_trade_closed_def check_pdt_exposure_def flag_wash_sale_def Let_def case_prod_unfold)

lemma other_event_days:
  assumes "\<And>tk t. e \<noteq> Tca_Trade_Closed tk (Some t)"
  shows "fst (tca_step st e) = fst st" "closings [e] = []" "pdt_clocks [e] = []"
proof -
  have "fst (tca_step st e) = fst st \<and> closings [e] = [] \<and> pdt_clocks [e] = []"
  proof (cases e)
    case (Tca_Trade_Closed tk trade)
    with assms have "trade = None" by (cases trade) auto
    with Tca_Trade_Closed show ?thesis by (simp add: tca_step_def tca_trade_closed_def)
  qed (simp_all add: tca_step_def)
  then show "fst (tca_step st e) = fst st" "closings [e] = []" "pdt_clocks [e] = []" by blast+
qed

lemma day_trades_kept:
  assumes "list_all (\<lambda>k. k - days 5 \<le> c) (pdt_clocks es)"
  shows "filter (\<lambda>x. c \<le> x) (ta_day_trade_timestamps (fst (foldl tca_step (tca_init, db) es))) =
    filter (\<lambda>x. c \<le> x) (closings es)"
  using assms
proof (induction es rule: rev_induct)
  case Nil
  show ?case by (simp add: tca_init_def)
next
  case (snoc e es)
  then have IH: "filter (\<lambda>x. c \<le> x) (ta_day_trade_timestamps (fst (foldl tca_step (tca_init, db) es))) =
      filter (\<lambda>x. c \<le> x) (closings es)"
    by simp
  show ?case
  proof (cases "\<exists>tk t. e = Tca_Trade_Closed tk (Some t)")
    case True
    then obtain tk t where e: "e = Tca_Trade_Closed tk (Some t)" by blast
    with snoc.prems have le: "tk_pdt_now tk - days 5 \<le> c" by simp
    then have "(\<lambda>x. tk_pdt_now tk - days 5 \<le> x \<and> c \<le> x) = (\<lambda>x. c \<le> x)" by auto
    with e IH le show ?thesis by (auto simp: trade_closed_days)
  next
    case False
    then have "closings [e] = []" "fst (tca_step st e) = fst st" for st
      using other_event_days [of e] by blast+
    with IH show ?thesis by simp
  qed
qed

text \<open>
  As long as the clock does not run backwards the agent alerts exactly when it must: a handler
  raises the day-trade alert with the number \<open>n\<close> if and only if at least three of all trades that
  it was ever told of closed in the last five days, and \<open>n\<close> is their number, however often the
  list was pruned before.
\<close>

theorem pdt_alert_counts_window:
  fixes es :: "tca_event list" and db :: state_store
  defines "st \<equiv> foldl tca_step (tca_init, db) es"
  assumes "sorted (pdt_clocks (es @ [Tca_Trade_Closed tk (Some t)]))"
  shows "Alert_Pdt_Limit n \<in> set (tca_emits st (Tca_Trade_Closed tk (Some t))) \<longleftrightarrow>
    3 \<le> n \<and> n = int (length (filter (\<lambda>x. tk_pdt_now tk - days 5 \<le> x)
                        (closings (es @ [Tca_Trade_Closed tk (Some t)]))))"
proof -
  have clocks: "list_all (\<lambda>k. k - days 5 \<le> tk_pdt_now tk - days 5) (pdt_clocks es)"
    using assms(2) by (auto simp: sorted_append list_all_iff)
  let ?kept = "filter (\<lambda>x. tk_pdt_now tk - days 5 \<le> x) (ta_day_trade_timestamps (fst st) @ [ct_closed_at t])"
  have "Alert_Pdt_Limit n \<in> set (tca_emits st (Tca_Trade_Closed tk (Some t))) \<longleftrightarrow>
      3 \<le> n \<and> n = int (length ?kept)"
    by (auto simp: tca_emits_def tca_trade_closed_def check_pdt_exposure_def flag_wash_sale_def
        check_re_entry_wash_sale_def pdt_max_day_trades_def Let_def case_prod_unfold
        simp del: filter_append split: option.splits)
  moreover have "?kept = filter (\<lambda>x. tk_pdt_now tk - days 5 \<le> x) (closings (es @ [Tca_Trade_Closed tk (Some t)]))"
    using day_trades_kept [OF clocks, of db] by (simp add: st_def)
  ultimately show ?thesis by simp
qed

theorem pdt_alert_counts_window_witness:
  "Alert_Pdt_Limit 3 \<in> set (tca_emits (foldl tca_step (tca_init, store_init)
     [Tca_Trade_Closed (demo_clock 300000001) (Some demo_loss), Tca_Trade_Closed (demo_clock 300000002) (Some demo_loss)])
     (Tca_Trade_Closed (demo_clock 300000003) (Some demo_loss)))"
proof -
  have s: "sorted (pdt_clocks ([Tca_Trade_Closed (demo_clock 300000001) (Some demo_loss),
      Tca_Trade_Closed (demo_clock 300000002) (Some demo_loss)] @
      [Tca_Trade_Closed (demo_clock 300000003) (Some demo_loss)]))"
    by (simp add: demo_clock_def)
  show ?thesis
    using pdt_alert_counts_window [OF s, of 3 store_init]
    by (simp add: demo_clock_def demo_loss_def days_def)
qed

section \<open>What the completeness check says\<close>

definition logged :: "timestamp \<Rightarrow> string audit_log \<Rightarrow> closed_trade \<Rightarrow> bool" where
  "logged session_start lg t \<longleftrightarrow>
     list_ex (\<lambda>e. ar_event_type e = ''TRADE_CLOSED'' \<and> session_start \<le> ar_timestamp e \<and>
       py_in (ct_trade_id t) (ar_details e)) (al_rows lg)"

text \<open>
  While no more than a thousand closed trades were logged since the start of the session,
  the completeness check succeeds if and only if every trade that the store has for the session
  is named in a \<open>TRADE_CLOSED\<close> entry since then.
\<close>

theorem audit_completeness_verified:
  assumes "length (filter (\<lambda>e. ar_event_type e = ''TRADE_CLOSED'' \<and> session_start \<le> ar_timestamp e)
      (al_rows lg)) \<le> 1000"
  shows "verify_audit_completeness session_start session_date db lg \<longleftrightarrow>
    list_all (logged session_start lg) (load_closed_trades session_date db)"
proof -
  let ?rows = "filter (\<lambda>e. ar_event_type e = ''TRADE_CLOSED'' \<and> session_start \<le> ar_timestamp e) (al_rows lg)"
  have w: "audit_where (Some ''TRADE_CLOSED'') None (Some session_start) =
      (\<lambda>e. ar_event_type e = ''TRADE_CLOSED'' \<and> session_start \<le> ar_timestamp e)"
    by (auto simp: audit_where_def fun_eq_iff)
  have "set (audit_query (Some ''TRADE_CLOSED'') None (Some session_start) 1000 lg) = set ?rows"
    using assms unfolding audit_query_def sql_limit_def w by simp
  then show ?thesis
    by (auto simp: verify_audit_completeness_def logged_def list_all_iff list_ex_iff)
qed

definition demo_log :: "string audit_log" where
  "demo_log = audit_record audit_init (9, \<lparr>ae_event_id = ''e1'', ae_event_type = ''TRADE_CLOSED'',
     ae_agent = ''tax_compliance'', ae_symbol = Some ''AAPL'', ae_details = ''{id: t1}'', ae_timestamp = 9\<rparr>)"

theorem audit_completeness_verified_witness:
  "verify_audit_completeness 5 ''d'' (save_closed_trade ''d'' demo_loss store_init) demo_log \<and>
   \<not> verify_audit_completeness 10 ''d'' (save_closed_trade ''d'' demo_loss store_init) demo_log"
  by (simp add: audit_completeness_verified demo_log_def audit_record_def audit_init_def audit_row_of_def
      insert_or_ignore_def row_of_def load_closed_trades_def save_closed_trade_def store_init_def demo_loss_def
      logged_def Let_def)

end
