(* ===== verification/Data_Feed.thy ===== *)
theory Data_Feed
  imports Models
begin

text \<open>
  The data feed of \<open>data/feed.py\<close>: the symbols it is subscribed to, the latest tick of each
  symbol, the bounded histories of ticks and bars, and the sequence numbers it gives to ticks. The
  stream and the registered handlers are left out: a quote or a bar is an argument of its
  handler, with \<open>None\<close> where the vendor sends nothing. What the agents get that \<open>await\<close> the
  plain answers of the feed is the last section.
\<close>

record data_feed =
  df_tick_cache_size :: nat
  df_subscribed_symbols :: "symbol list"
  df_latest_ticks :: "(symbol \<times> market_tick) list"
  df_tick_history :: "(symbol \<times> market_tick list) list"
  df_bar_history :: "(symbol \<times> bar_data list) list"
  df_sequence :: "(symbol \<times> int) list"

definition feed_init :: "nat \<Rightarrow> data_feed" where
  "feed_init n = \<lparr>df_tick_cache_size = n, df_subscribed_symbols = [], df_latest_ticks = [],
     df_tick_history = [], df_bar_history = [], df_sequence = []\<rparr>"

record quote =
  qu_symbol :: symbol
  qu_timestamp :: "timestamp option"
  qu_bid_price :: "pyfloat option"
  qu_ask_price :: "pyfloat option"

record vendor_bar =
  vb_symbol :: symbol
  vb_timestamp :: "timestamp option"
  vb_open :: "pyfloat option"
  vb_high :: "pyfloat option"
  vb_low :: "pyfloat option"
  vb_close :: "pyfloat option"
  vb_volume :: "int option"
  vb_vwap :: "pyfloat option"

definition or_0 :: "'a :: zero option \<Rightarrow> 'a" where
  "or_0 x = (case x of None \<Rightarrow> 0 | Some y \<Rightarrow> y)"

section \<open>Subscriptions and queries\<close>

definition feed_subscribe :: "symbol list \<Rightarrow> data_feed \<Rightarrow> data_feed" where
  "feed_subscribe symbols f =
     f\<lparr>df_subscribed_symbols := fold (\<lambda>s. List.insert (py_upper s)) symbols (df_subscribed_symbols f)\<rparr>"

definition feed_unsubscribe :: "symbol list \<Rightarrow> data_feed \<Rightarrow> data_feed" where
  "feed_unsubscribe symbols f =
     f\<lparr>df_subscribed_symbols := fold (\<lambda>s. removeAll (py_upper s)) symbols (df_subscribed_symbols f)\<rparr>"

definition get_latest_tick :: "symbol \<Rightarrow> data_feed \<Rightarrow> market_tick option" where
  "get_latest_tick sy f = map_of (df_latest_ticks f) (py_upper sy)"

definition history_of :: "(symbol \<times> 'a list) list \<Rightarrow> symbol \<Rightarrow> 'a list" where
  "history_of tab sy = (case map_of tab sy of None \<Rightarrow> [] | Some xs \<Rightarrow> xs)"

definition get_tick_history :: "symbol \<Rightarrow> int \<Rightarrow> data_feed \<Rightarrow> market_tick list" where
  "get_tick_history sy n f = py_last n (history_of (df_tick_history f) (py_upper sy))"

definition get_bar_history :: "symbol \<Rightarrow> int \<Rightarrow> data_feed \<Rightarrow> bar_data list" where
  "get_bar_history sy n f = py_last n (history_of (df_bar_history f) (py_upper sy))"

section \<open>Quotes and bars\<close>

text \<open>\<open>deque(maxlen=0)\<close> keeps nothing.\<close>

definition push_history :: "nat \<Rightarrow> symbol \<Rightarrow> 'a \<Rightarrow> (symbol \<times> 'a list) list \<Rightarrow> (symbol \<times> 'a list) list" where
  "push_history n sy x tab =
     AList.update sy (if n = 0 then [] else push_bounded n (history_of tab sy) x) tab"

definition on_quote :: "timestamp \<Rightarrow> quote \<Rightarrow> data_feed \<Rightarrow> data_feed \<times> market_tick" where
  "on_quote now q f =
     (let sy = qu_symbol q;
          sq = (case map_of (df_sequence f) sy of None \<Rightarrow> 0 | Some n \<Rightarrow> n);
          tick = \<lparr>mt_symbol = sy,
            mt_timestamp = (case qu_timestamp q of None \<Rightarrow> now | Some t \<Rightarrow> t),
            mt_bid = or_0 (qu_bid_price q), mt_ask = or_0 (qu_ask_price q),
            mt_last = (case map_of (df_latest_ticks f) sy of
                         None \<Rightarrow> or_0 (qu_bid_price q) | Some t \<Rightarrow> mt_last t),
            mt_volume = 0, mt_sequence = sq\<rparr>
      in (f\<lparr>df_sequence := AList.update sy (sq + 1) (df_sequence f),
            df_latest_ticks := AList.update sy tick (df_latest_ticks f),
            df_tick_history := push_history (df_tick_cache_size f) sy tick (df_tick_history f)\<rparr>, tick))"

definition on_bar :: "timestamp \<Rightarrow> vendor_bar \<Rightarrow> data_feed \<Rightarrow> data_feed \<times> bar_data" where
  "on_bar now b f =
     (let sy = vb_symbol b;
          bar = \<lparr>bd_symbol = sy, bd_timestamp = (case vb_timestamp b of None \<Rightarrow> now | Some t \<Rightarrow> t),
            bd_timeframe = ''1m'', bd_open = or_0 (vb_open b), bd_high = or_0 (vb_high b),
            bd_low = or_0 (vb_low b), bd_close = or_0 (vb_close b), bd_volume = or_0 (vb_volume b),
            bd_vwap = (if vb_vwap b = Some 0 then None else vb_vwap b)\<rparr>;
          f = f\<lparr>df_bar_history := push_history 200 sy bar (df_bar_history f)\<rparr>
      in (case map_of (df_latest_ticks f) sy of
            None \<Rightarrow> (f, bar)
          | Some t \<Rightarrow>
              (f\<lparr>df_latest_ticks := AList.update sy
                   (t\<lparr>mt_last := or_0 (vb_close b), mt_volume := or_0 (vb_volume b)\<rparr>) (df_latest_ticks f)\<rparr>,
               bar)))"

datatype feed_event =
    Feed_Subscribe "symbol list"
  | Feed_Unsubscribe "symbol list"
  | Feed_Quote timestamp quote
  | Feed_Bar timestamp vendor_bar

fun feed_step :: "data_feed \<Rightarrow> feed_event \<Rightarrow> data_feed" where
  "feed_step f (Feed_Subscribe symbols) = feed_subscribe symbols f"
| "feed_step f (Feed_Unsubscribe symbols) = feed_unsubscribe symbols f"
| "feed_step f (Feed_Quote now q) = fst (on_quote now q f)"
| "feed_step f (Feed_Bar now b) = fst (on_bar now b f)"

section \<open>The latest tick and its number\<close>

definition quotes_of :: "symbol \<Rightarrow> feed_event list \<Rightarrow> quote list" where
  "quotes_of sy es = List.map_filter
     (\<lambda>e. case e of Feed_Quote now q \<Rightarrow> if qu_symbol q = sy then Some q else None | _ \<Rightarrow> None) es"

definition tick_matches :: "symbol \<Rightarrow> quote list \<Rightarrow> data_feed \<Rightarrow> bool" where
  "tick_matches sy qs f \<longleftrightarrow>
     (if qs = []
      then map_of (df_latest_ticks f) sy = None \<and> map_of (df_sequence f) sy = None
      else (case map_of (df_latest_ticks f) sy of
          None \<Rightarrow> False
        | Some t \<Rightarrow> mt_symbol t = sy \<and> mt_sequence t = int (length qs) - 1 \<and>
            mt_bid t = or_0 (qu_bid_price (last qs)) \<and> mt_ask t = or_0 (qu_ask_price (last qs))) \<and>
        map_of (df_sequence f) sy = Some (int (length qs)))"

lemma feed_step_matches:
  assumes "tick_matches sy qs f"
  shows "tick_matches sy (qs @ quotes_of sy [e]) (feed_step f e)"
proof (cases e)
  case (Feed_Quote now q)
  show ?thesis
  proof (cases "qu_symbol q = sy")
    case True
    have "(case map_of (df_sequence f) sy of None \<Rightarrow> 0 | Some n \<Rightarrow> n) = int (length qs)"
      using assms by (cases "qs = []") (simp_all add: tick_matches_def)
    with True Feed_Quote show ?thesis
      by (simp add: tick_matches_def quotes_of_def List.map_filter_simps on_quote_def Let_def update_conv')
  next
    case False
    with Feed_Quote assms show ?thesis
      by (simp add: tick_matches_def quotes_of_def List.map_filter_simps on_quote_def Let_def update_conv'
          split: if_splits)
  qed
next
  case (Feed_Bar now b)
  show ?thesis
    using assms Feed_Bar
    by (cases "map_of (df_latest_ticks f) (vb_symbol b)"; cases "vb_symbol b = sy")
       (auto simp: tick_matches_def quotes_of_def List.map_filter_simps on_bar_def Let_def update_conv'
         split: if_splits)
qed (use assms in \<open>auto simp: tick_matches_def quotes_of_def List.map_filter_simps feed_subscribe_def
      feed_unsubscribe_def\<close>)

lemma quotes_of_append: "quotes_of sy (xs @ ys) = quotes_of sy xs @ quotes_of sy ys"
  by (simp add: quotes_of_def List.map_filter_def)

lemma tick_matches_run: "tick_matches sy (quotes_of sy es) (foldl feed_step (feed_init n) es)"
proof (induction es rule: rev_induct)
  case Nil
  show ?case by (simp add: tick_matches_def quotes_of_def List.map_filter_simps feed_init_def)
next
  case (snoc e es)
  then show ?case using feed_step_matches [OF snoc, of e] by (simp add: quotes_of_append)
qed

lemma latest_tick_facts:
  assumes "py_upper sy = sy"
  shows "(case get_latest_tick sy (foldl feed_step (feed_init n) es) of
      None \<Rightarrow> quotes_of sy es = []
    | Some t \<Rightarrow> quotes_of sy es \<noteq> [] \<and> mt_sequence t = int (length (quotes_of sy es)) - 1 \<and>
        mt_bid t = or_0 (qu_bid_price (last (quotes_of sy es))) \<and>
        mt_ask t = or_0 (qu_ask_price (last (quotes_of sy es))))"
  using tick_matches_run [of sy es n] assms
  by (auto simp: tick_matches_def get_latest_tick_def split: if_splits option.splits)

text \<open>
  For a symbol in upper case the latest tick has the prices of the last quote and, as its
  sequence number, the number of the quotes before it, over any quotes, bars and subscriptions;
  without a quote there is none.
\<close>

theorem latest_tick_is_last_quote:
  fixes n :: nat and es :: "feed_event list" and sy :: symbol
  defines "qs \<equiv> quotes_of sy es"
  assumes "py_upper sy = sy"
  shows "(case get_latest_tick sy (foldl feed_step (feed_init n) es) of
      None \<Rightarrow> qs = []
    | Some t \<Rightarrow> qs \<noteq> [] \<and> mt_sequence t = int (length qs) - 1 \<and>
        mt_bid t = or_0 (qu_bid_price (last qs)) \<and> mt_ask t = or_0 (qu_ask_price (last qs)))"
  unfolding qs_def by (rule latest_tick_facts [OF assms(2)])

definition demo_quote :: "pyfloat \<Rightarrow> quote" where
  "demo_quote x = \<lparr>qu_symbol = ''SPY'', qu_timestamp = None, qu_bid_price = Some x, qu_ask_price = Some (x + 1)\<rparr>"

theorem latest_tick_is_last_quote_witness:
  "(case get_latest_tick ''SPY'' (foldl feed_step (feed_init 500)
      [Feed_Quote 1 (demo_quote 10), Feed_Quote 2 (demo_quote 20)]) of
      None \<Rightarrow> False | Some t \<Rightarrow> mt_sequence t = 1 \<and> mt_bid t = 20)"
proof -
  have "py_upper ''SPY'' = ''SPY''" by code_simp
  from latest_tick_is_last_quote [OF this, where n = 500
      and es = "[Feed_Quote 1 (demo_quote 10), Feed_Quote 2 (demo_quote 20)]"]
  show ?thesis
    by (auto simp: quotes_of_def List.map_filter_simps demo_quote_def or_0_def split: option.splits)
qed

section \<open>Awaiting a plain answer\<close>

text \<open>
  What a call gives: the plain answer of a \<open>def\<close>, or what a coroutine will give when it is awaited, an
  answer or an exception. Awaiting a plain answer raises, whatever it is.
\<close>

datatype 'a py_call = Plain 'a | Coroutine "string + 'a"

definition py_await :: "('a \<Rightarrow> string) \<Rightarrow> 'a py_call \<Rightarrow> string + 'a" where
  "py_await type_name c =
     (case c of
        Plain x \<Rightarrow> Inl (''object '' @ type_name x @ '' can't be used in 'await' expression'')
      | Coroutine r \<Rightarrow> r)"

definition tick_type :: "market_tick option \<Rightarrow> string" where
  "tick_type t = (case t of None \<Rightarrow> ''NoneType'' | Some _ \<Rightarrow> ''MarketTick'')"

text \<open>\<open>get_latest_tick\<close> is a \<open>def\<close>. Agents 8 and 11 \<open>await\<close> its answer.\<close>

definition awaited_tick :: "symbol \<Rightarrow> data_feed \<Rightarrow> string + market_tick option" where
  "awaited_tick sy f = py_await tick_type (Plain (get_latest_tick sy f))"

end
