(* ===== verification/Live_Feed.thy ===== *)
theory Live_Feed
  imports Execution Monitoring Data_Feed
begin

text \<open>
  The execution agent and the monitoring agent on the feed that the program gives them: both \<open>await\<close>
  its plain answer, so what they get is \<open>awaited_tick\<close>, never a tick.
\<close>

definition live_plan_env :: "symbol \<Rightarrow> data_feed \<Rightarrow> plan_env \<Rightarrow> plan_env" where
  "live_plan_env sy f pe = pe\<lparr>pe_tick := awaited_tick sy f\<rparr>"

definition live_tick :: "timestamp \<Rightarrow> data_feed \<Rightarrow> (symbol \<Rightarrow> string + bar_data list) \<Rightarrow> mma_event" where
  "live_tick now f bars = Mma_Tick now (\<lambda>sy. \<lparr>fv_tick = awaited_tick sy f, fv_bars = bars sy\<rparr>)"

definition gates_without_price :: "trade_plan \<Rightarrow> plan_env \<Rightarrow> ea \<Rightarrow> bool" where
  "gates_without_price p pe s \<longleftrightarrow>
     0 < tp_net_expectancy p \<and> 0 < tp_stop_price p \<and> ea_reconciliation_clean s \<and>
     tp_symbol p \<notin> fst ` set (ea_pending s) \<and>
     (case pe_account pe of
        Inl e \<Rightarrow> False
      | Inr account \<Rightarrow> tp_entry_price p * of_int (tp_shares p) \<le> ai_buying_power account)"

lemma passes_gates_live:
  assumes "0 \<le> xc_max_price_chase_bps cf"
  shows "passes_gates cf p (live_plan_env sy f pe) s \<longleftrightarrow> gates_without_price p pe s"
  using assms
  by (auto simp: passes_gates_def gates_without_price_def live_plan_env_def awaited_tick_def py_await_def
      spread_too_wide_def chase_bps_def)

definition submits_for :: "symbol \<Rightarrow> ea_effect list \<Rightarrow> bool" where
  "submits_for sy out \<longleftrightarrow>
     list_ex (\<lambda>x. case x of Broker_Submit_Bracket z side n l st tg i \<Rightarrow> z = sy | _ \<Rightarrow> False) out"

lemma submits_bracket:
  "submits_for (tp_symbol p)
     (snd (submit_plan cf p pe s))"
  by (simp add: submits_for_def submit_plan_def Let_def split: sum.split)

text \<open>
  On the program's feed the gates on spread and chase never apply: a plan that passes the other gates is
  sent to the broker whatever quotes the feed has seen.
\<close>

theorem submitted_whatever_the_spread:
  assumes "gates_without_price p pe s" and "0 \<le> xc_max_price_chase_bps cf"
  shows "submits_for (tp_symbol p)
     (snd (handle_trade_plan cf p (live_plan_env (tp_symbol p) (foldl feed_step (feed_init n) es) pe) s))"
proof -
  have "passes_gates cf p (live_plan_env (tp_symbol p) (foldl feed_step (feed_init n) es) pe) s"
    using assms by (simp add: passes_gates_live)
  then show ?thesis
    using plan_outcomes [of cf p "live_plan_env (tp_symbol p) (foldl feed_step (feed_init n) es) pe" s]
    by (simp add: submits_bracket)
qed

text \<open>A quote fifty per cent wide.\<close>

definition wide_quotes :: "feed_event list" where
  "wide_quotes = [Feed_Quote 5 \<lparr>qu_symbol = ''AAPL'', qu_timestamp = Some 5, qu_bid_price = Some 75,
     qu_ask_price = Some 125\<rparr>]"

theorem submitted_whatever_the_spread_witness:
  "submits_for ''AAPL''
     (snd (handle_trade_plan ea_defaults demo_trade
       (live_plan_env ''AAPL'' (foldl feed_step (feed_init 500) wide_quotes) (demo_plan_env ''o1''))
       (ea_init\<lparr>ea_reconciliation_clean := True\<rparr>)))"
proof -
  have "gates_without_price demo_trade (demo_plan_env ''o1'') (ea_init\<lparr>ea_reconciliation_clean := True\<rparr>)"
    by (simp add: gates_without_price_def demo_trade_def demo_plan_env_def ea_init_def)
  moreover have "0 \<le> xc_max_price_chase_bps ea_defaults" by (simp add: ea_defaults_def)
  ultimately have "submits_for (tp_symbol demo_trade)
     (snd (handle_trade_plan ea_defaults demo_trade
       (live_plan_env (tp_symbol demo_trade) (foldl feed_step (feed_init 500) wide_quotes) (demo_plan_env ''o1''))
       (ea_init\<lparr>ea_reconciliation_clean := True\<rparr>)))"
    by (rule submitted_whatever_the_spread)
  moreover have "tp_symbol demo_trade = ''AAPL''" by (simp add: demo_trade_def)
  ultimately show ?thesis by simp
qed

section \<open>Monitoring\<close>

lemma blind_evaluation:
  assumes "isl (fv_tick fv)"
  shows "Publish_Exit m \<in> set (snd (evaluate_position now fv i p s)) \<Longrightarrow>
    ex_mode m = TIME_STOP \<and> pos_time_stop_at p \<le> now"
  using assms
  by (cases "fv_tick fv") (auto simp: evaluate_position_def trigger_exit_def Let_def split: if_splits)

lemma blind_pass:
  assumes "\<And>sy. isl (fv_tick (feed sy))"
  shows "Publish_Exit m \<in> set (snd (evaluate_all now feed ps s)) \<Longrightarrow> ex_mode m = TIME_STOP"
  using blind_evaluation [OF assms]
  by (induction ps arbitrary: s) (auto simp: Let_def case_prod_unfold)



end
