(* ===== verification/Data_Integrity.thy ===== *)
theory Data_Integrity
  imports Data_Feed Level2 Supervisor Tera
begin

text \<open>
  The data integrity agent of \<open>agents/agent_03_data_integrity.py\<close>: the checks of one round over the
  subscribed symbols, the gate that opens after three clean rounds in a row, the reports and the
  alert. A round reads the feed and the book cache as they are; the clock is one argument per
  symbol for the tick, one for the book, and one for the record. The texts of the details are left
  out, and so are the timers of the two loops: a round and a heartbeat are events.
\<close>

section \<open>State and reports\<close>

datatype feed_status = FEED_CLEAN | FEED_DEGRADED | FEED_HALTED

datatype feed_anomaly =
    STALE_TICK | DUPLICATE_TICK | CROSSED_MARKET | OUT_OF_SEQUENCE | FEED_DIVERGENCE | MISSING_L2

record anomaly_record =
  an_timestamp :: timestamp
  an_anomalies :: "feed_anomaly list"
  an_affected_symbols :: "symbol list"

record dia_config =
  dc_max_tick_staleness_sec :: pyfloat
  dc_l2_snapshot_max_age_sec :: pyfloat

definition dia_defaults :: dia_config where
  "dia_defaults = \<lparr>dc_max_tick_staleness_sec = 5, dc_l2_snapshot_max_age_sec = 10\<rparr>"

record dia =
  da_feed_clean :: bool
  da_consecutive_clean_checks :: nat
  da_last_sequence :: "(symbol \<times> int) list"
  da_anomaly_history :: "anomaly_record list"

definition dia_init :: dia where
  "dia_init = \<lparr>da_feed_clean = False, da_consecutive_clean_checks = 0, da_last_sequence = [],
     da_anomaly_history = []\<rparr>"

datatype dia_effect =
    Publish_Feed_Status feed_status "feed_anomaly list" "symbol list"
  | Publish_Feed_Alert string feed_status "feed_anomaly list" "symbol list"
  | Audit_Feed_Anomaly feed_status "feed_anomaly list" "symbol list"
  | Audit_Feed_Clean nat "symbol list"

definition clean_consecutive_required :: nat where
  "clean_consecutive_required = 3"

section \<open>The checks\<close>

record dia_clock =
  dk_tick :: "symbol \<Rightarrow> timestamp"
  dk_book :: "symbol \<Rightarrow> timestamp"
  dk_record :: timestamp

definition check_symbol ::
  "dia_config \<Rightarrow> dia_clock \<Rightarrow> data_feed \<Rightarrow> l2_cache \<Rightarrow> symbol \<Rightarrow> feed_anomaly list" where
  "check_symbol cf k f c sy =
     (case get_latest_tick sy f of
        None \<Rightarrow> [STALE_TICK]
      | Some t \<Rightarrow>
          (if seconds (dc_max_tick_staleness_sec cf) < dk_tick k sy - mt_timestamp t then [STALE_TICK] else []) @
          (if 0 < mt_bid t \<and> 0 < mt_ask t \<and> mt_ask t \<le> mt_bid t then [CROSSED_MARKET] else [])) @
     (if is_stale sy (seconds (dc_l2_snapshot_max_age_sec cf)) (dk_book k sy) c then [MISSING_L2] else [])"

text \<open>The second component lists the symbols with a gap; the numbers are stored in any case.\<close>

fun check_sequence_gaps :: "data_feed \<Rightarrow> symbol list \<Rightarrow> dia \<Rightarrow> dia \<times> symbol list" where
  "check_sequence_gaps f [] s = (s, [])"
| "check_sequence_gaps f (sy # sys) s =
     (case get_latest_tick sy f of
        None \<Rightarrow> check_sequence_gaps f sys s
      | Some t \<Rightarrow>
          let gap = (case map_of (da_last_sequence s) sy of
                       None \<Rightarrow> False | Some n \<Rightarrow> n + 1 < mt_sequence t);
              (s, gaps) = check_sequence_gaps f sys
                (s\<lparr>da_last_sequence := AList.update sy (mt_sequence t) (da_last_sequence s)\<rparr>)
          in (s, (if gap then [sy] else []) @ gaps))"

definition record_anomaly :: "timestamp \<Rightarrow> feed_anomaly list \<Rightarrow> symbol list \<Rightarrow> dia \<Rightarrow> dia" where
  "record_anomaly now as syms s =
     s\<lparr>da_anomaly_history := push_bounded 1000 (da_anomaly_history s)
         \<lparr>an_timestamp = now, an_anomalies = as, an_affected_symbols = syms\<rparr>\<rparr>"

definition anomaly_status :: "feed_anomaly list \<Rightarrow> feed_status" where
  "anomaly_status as =
     (if list_ex (\<lambda>a. a \<in> set [CROSSED_MARKET, OUT_OF_SEQUENCE]) as then FEED_HALTED else FEED_DEGRADED)"

definition handle_anomaly_detected ::
  "timestamp \<Rightarrow> feed_anomaly list \<Rightarrow> symbol list \<Rightarrow> dia \<Rightarrow> dia \<times> dia_effect list" where
  "handle_anomaly_detected now as syms s =
     (let status = anomaly_status as
      in (record_anomaly now as syms s,
          [Publish_Feed_Status status as syms, Publish_Feed_Alert ''FEED_ANOMALY'' status as syms,
           Audit_Feed_Anomaly status as syms]))"

definition handle_feed_clean :: "symbol list \<Rightarrow> dia \<Rightarrow> dia \<times> dia_effect list" where
  "handle_feed_clean monitored s =
     (s, [Publish_Feed_Status FEED_CLEAN [] [],
          Audit_Feed_Clean (da_consecutive_clean_checks s) monitored])"

text \<open>What a round finds: the anomalies and the affected symbols, each once, in the order met.\<close>

definition first_occurrences :: "'a list \<Rightarrow> 'a list" where
  "first_occurrences xs = rev (remdups (rev xs))"

definition round_anomalies ::
  "dia_config \<Rightarrow> dia_clock \<Rightarrow> data_feed \<Rightarrow> l2_cache \<Rightarrow> dia \<Rightarrow> feed_anomaly list" where
  "round_anomalies cf k f c s =
     concat (map (check_symbol cf k f c) (df_subscribed_symbols f)) @
     map (\<lambda>_. OUT_OF_SEQUENCE) (snd (check_sequence_gaps f (df_subscribed_symbols f) s))"

definition run_checks ::
  "dia_config \<Rightarrow> dia_clock \<Rightarrow> data_feed \<Rightarrow> l2_cache \<Rightarrow> dia \<Rightarrow> dia \<times> dia_effect list" where
  "run_checks cf k f c s =
     (let symbols = df_subscribed_symbols f in
      if symbols = [] then (s\<lparr>da_consecutive_clean_checks := 0\<rparr>, [])
      else
        let as = round_anomalies cf k f c s;
            (s, gaps) = check_sequence_gaps f symbols s;
            affected = first_occurrences
              (filter (\<lambda>sy. check_symbol cf k f c sy \<noteq> []) symbols @ gaps)
        in if as \<noteq> []
           then
             let s = s\<lparr>da_consecutive_clean_checks := 0\<rparr>
             in if da_feed_clean s
                then handle_anomaly_detected (dk_record k) as affected (s\<lparr>da_feed_clean := False\<rparr>)
                else (record_anomaly (dk_record k) as affected s, [])
           else
             let s = s\<lparr>da_consecutive_clean_checks := da_consecutive_clean_checks s + 1\<rparr>
             in if clean_consecutive_required \<le> da_consecutive_clean_checks s \<and> \<not> da_feed_clean s
                then handle_feed_clean symbols (s\<lparr>da_feed_clean := True\<rparr>)
                else (s, []))"

definition dia_startup :: "dia_effect list" where
  "dia_startup = [Publish_Feed_Status FEED_HALTED [] []]"

definition dia_heartbeat :: "dia \<Rightarrow> dia_effect list" where
  "dia_heartbeat s =
     [Publish_Feed_Status (if da_feed_clean s then FEED_CLEAN else FEED_DEGRADED) [] []]"

definition get_anomaly_history :: "dia \<Rightarrow> anomaly_record list" where
  "get_anomaly_history s = da_anomaly_history s"

section \<open>Events\<close>

datatype dia_event =
    Dia_Round dia_clock data_feed l2_cache
  | Dia_Heartbeat

fun dia_act :: "dia_config \<Rightarrow> dia \<Rightarrow> dia_event \<Rightarrow> dia \<times> dia_effect list" where
  "dia_act cf s (Dia_Round k f c) = run_checks cf k f c s"
| "dia_act cf s Dia_Heartbeat = (s, dia_heartbeat s)"

definition dia_step :: "dia_config \<Rightarrow> dia \<Rightarrow> dia_event \<Rightarrow> dia" where
  "dia_step cf s e = fst (dia_act cf s e)"

definition dia_emits :: "dia_config \<Rightarrow> dia \<Rightarrow> dia_event \<Rightarrow> dia_effect list" where
  "dia_emits cf s e = snd (dia_act cf s e)"

section \<open>What a clean round is\<close>

abbreviation note_sequence :: "symbol \<Rightarrow> market_tick \<Rightarrow> dia \<Rightarrow> dia" where
  "note_sequence sy t s \<equiv> s\<lparr>da_last_sequence := AList.update sy (mt_sequence t) (da_last_sequence s)\<rparr>"

definition jumped :: "data_feed \<Rightarrow> dia \<Rightarrow> symbol \<Rightarrow> bool" where
  "jumped f s sy =
     (case (get_latest_tick sy f, map_of (da_last_sequence s) sy) of
        (Some t, Some n) \<Rightarrow> n + 1 < mt_sequence t
      | _ \<Rightarrow> False)"

lemma gaps_Cons:
  "get_latest_tick sy f = None \<Longrightarrow> check_sequence_gaps f (sy # sys) s = check_sequence_gaps f sys s"
  "get_latest_tick sy f = Some t \<Longrightarrow>
     fst (check_sequence_gaps f (sy # sys) s) = fst (check_sequence_gaps f sys (note_sequence sy t s))"
  "get_latest_tick sy f = Some t \<Longrightarrow> snd (check_sequence_gaps f (sy # sys) s) =
     (if jumped f s sy then [sy] else []) @ snd (check_sequence_gaps f sys (note_sequence sy t s))"
  by (auto simp: Let_def case_prod_unfold jumped_def split: option.split)

declare check_sequence_gaps.simps(2) [simp del]

lemma jumped_note [simp]: "x \<noteq> sy \<Longrightarrow> jumped f (note_sequence x t s) sy = jumped f s sy"
  by (simp add: jumped_def update_conv')

lemma gaps_keep [simp]:
  "da_feed_clean (fst (check_sequence_gaps f sys s)) = da_feed_clean s"
  "da_consecutive_clean_checks (fst (check_sequence_gaps f sys s)) = da_consecutive_clean_checks s"
  "da_anomaly_history (fst (check_sequence_gaps f sys s)) = da_anomaly_history s"
proof (induction sys arbitrary: s)
  case (Cons sy sys)
  case 1 show ?case using Cons by (cases "get_latest_tick sy f") (simp_all add: gaps_Cons)
  case 2 show ?case using Cons by (cases "get_latest_tick sy f") (simp_all add: gaps_Cons)
  case 3 show ?case using Cons by (cases "get_latest_tick sy f") (simp_all add: gaps_Cons)
qed simp_all

lemma gaps_jumped: "distinct sys \<Longrightarrow> snd (check_sequence_gaps f sys s) = filter (jumped f s) sys"
proof (induction sys arbitrary: s)
  case (Cons sy sys)
  show ?case
  proof (cases "get_latest_tick sy f")
    case None
    with Cons show ?thesis by (simp add: gaps_Cons jumped_def)
  next
    case (Some t)
    have "filter (jumped f (note_sequence sy t s)) sys = filter (jumped f s) sys"
      using Cons.prems by (intro filter_cong refl) (metis distinct.simps(2) jumped_note)
    with Cons.IH [of "note_sequence sy t s"] Cons.prems Some show ?thesis by (simp add: gaps_Cons)
  qed
qed simp

text \<open>
  A round is clean if and only if every symbol has a tick that is fresh and not crossed and a
  fresh book, and no symbol's number jumped.
\<close>

lemma check_symbol_clean:
  "check_symbol cf k f c sy = [] \<longleftrightarrow>
    (case get_latest_tick sy f of
       None \<Rightarrow> False
     | Some t \<Rightarrow> dk_tick k sy - mt_timestamp t \<le> seconds (dc_max_tick_staleness_sec cf) \<and>
         (0 < mt_bid t \<longrightarrow> 0 < mt_ask t \<longrightarrow> mt_bid t < mt_ask t)) \<and>
    \<not> is_stale sy (seconds (dc_l2_snapshot_max_age_sec cf)) (dk_book k sy) c"
  by (auto simp: check_symbol_def not_le not_less split: option.split)

lemma round_clean_iff:
  assumes "distinct (df_subscribed_symbols f)"
  shows "round_anomalies cf k f c s = [] \<longleftrightarrow>
    list_all (\<lambda>sy. check_symbol cf k f c sy = [] \<and> \<not> jumped f s sy) (df_subscribed_symbols f)"
  using assms by (auto simp: round_anomalies_def gaps_jumped filter_empty_conv list_all_iff)

lemma subscriptions_distinct:
  "distinct (df_subscribed_symbols f) \<Longrightarrow> distinct (df_subscribed_symbols (feed_step f e))"
proof (cases e)
  case (Feed_Subscribe symbols)
  assume "distinct (df_subscribed_symbols f)"
  then show ?thesis unfolding Feed_Subscribe
    by (simp add: feed_subscribe_def) (induction symbols arbitrary: f rule: rev_induct, auto)
next
  case (Feed_Unsubscribe symbols)
  assume "distinct (df_subscribed_symbols f)"
  then show ?thesis unfolding Feed_Unsubscribe
    by (simp add: feed_unsubscribe_def) (induction symbols arbitrary: f rule: rev_induct, auto simp: distinct_removeAll)
qed (simp_all add: on_quote_def on_bar_def Let_def split: option.splits)

interpretation feed_subscriptions: inv_machine feed_step "\<lambda>f. distinct (df_subscribed_symbols f)"
  by unfold_locales (rule subscriptions_distinct)

section \<open>The gate\<close>

datatype round_outcome = Idle_Round | Clean_Round | Anomalous_Round

fun outcome_of :: "dia_config \<Rightarrow> dia \<Rightarrow> dia_event \<Rightarrow> round_outcome list" where
  "outcome_of cf s (Dia_Round k f c) =
     [if df_subscribed_symbols f = [] then Idle_Round
      else if round_anomalies cf k f c s = [] then Clean_Round else Anomalous_Round]"
| "outcome_of cf s Dia_Heartbeat = []"

definition since_anomaly :: "round_outcome list \<Rightarrow> round_outcome list" where
  "since_anomaly os = takeWhile (\<lambda>r. r \<noteq> Anomalous_Round) (rev os)"

definition three_clean :: "round_outcome list \<Rightarrow> bool" where
  "three_clean os \<longleftrightarrow> sublist [Clean_Round, Clean_Round, Clean_Round] (since_anomaly os)"

lemma three_clean_snoc:
  "three_clean [] \<longleftrightarrow> False"
  "three_clean (os @ [Idle_Round]) \<longleftrightarrow> three_clean os"
  "three_clean (os @ [Anomalous_Round]) \<longleftrightarrow> False"
  "three_clean (os @ [Clean_Round]) \<longleftrightarrow>
     three_clean os \<or> 2 \<le> length (takeWhile (\<lambda>r. r = Clean_Round) (rev os))"
proof -
  have "prefix [Clean_Round, Clean_Round] (takeWhile (\<lambda>r. r \<noteq> Anomalous_Round) xs) \<longleftrightarrow>
      2 \<le> length (takeWhile (\<lambda>r. r = Clean_Round) xs)" for xs
    by (cases xs; cases "tl xs") (auto simp: numeral_2_eq_2)
  then show "three_clean (os @ [Clean_Round]) \<longleftrightarrow>
      three_clean os \<or> 2 \<le> length (takeWhile (\<lambda>r. r = Clean_Round) (rev os))"
    by (auto simp: three_clean_def since_anomaly_def sublist_Cons_right)
qed (simp_all add: three_clean_def since_anomaly_def sublist_Cons_right)

definition gate_matches :: "round_outcome list \<Rightarrow> dia \<Rightarrow> bool" where
  "gate_matches os s \<longleftrightarrow> da_feed_clean s = three_clean os \<and>
     da_consecutive_clean_checks s = length (takeWhile (\<lambda>r. r = Clean_Round) (rev os))"

lemma gate_matches_step:
  assumes "gate_matches os s"
  shows "gate_matches (os @ outcome_of cf s e) (dia_step cf s e)"
proof (cases e)
  case (Dia_Round k f c)
  with assms show ?thesis
    by (auto simp: gate_matches_def dia_step_def run_checks_def Let_def case_prod_unfold three_clean_snoc
        clean_consecutive_required_def handle_anomaly_detected_def handle_feed_clean_def record_anomaly_def)
next
  case Dia_Heartbeat
  with assms show ?thesis by (simp add: dia_step_def)
qed

lemma gate_matches_run:
  "gate_matches (run_out (dia_step cf) (outcome_of cf) dia_init es) (foldl (dia_step cf) dia_init es)"
proof (induction es rule: rev_induct)
  case Nil
  show ?case by (simp add: gate_matches_def dia_init_def three_clean_snoc)
next
  case (snoc e es)
  show ?case using gate_matches_step [OF snoc, of cf e] by (simp add: run_out_append)
qed

text \<open>
  C14. The gate is open, and the heartbeat says so, if and only if there were three clean rounds in
  a row since the last round with an anomaly; rounds without a subscription break a row
  but do not close the gate.
\<close>

theorem gate_open_iff_three_clean:
  fixes es :: "dia_event list" and cf :: dia_config
  defines "s \<equiv> foldl (dia_step cf) dia_init es"
  shows "da_feed_clean s = three_clean (run_out (dia_step cf) (outcome_of cf) dia_init es) \<and>
    dia_heartbeat s = [Publish_Feed_Status
      (if three_clean (run_out (dia_step cf) (outcome_of cf) dia_init es) then FEED_CLEAN else FEED_DEGRADED) [] []]"
  using gate_matches_run [of cf es] by (simp_all add: s_def gate_matches_def dia_heartbeat_def)

lemma clean_report_opens_gate:
  assumes "Publish_Feed_Status FEED_CLEAN as syms \<in> set (dia_emits cf s e)"
  shows "da_feed_clean (dia_step cf s e)"
proof (cases e)
  case (Dia_Round k f c)
  have [simp]: "FEED_CLEAN \<noteq> anomaly_status as" for as by (simp add: anomaly_status_def)
  show ?thesis
    using assms Dia_Round
    by (auto simp: dia_emits_def dia_step_def run_checks_def Let_def case_prod_unfold handle_anomaly_detected_def
        handle_feed_clean_def split: if_splits)
next
  case Dia_Heartbeat
  with assms show ?thesis by (simp add: dia_emits_def dia_step_def dia_heartbeat_def split: if_splits)
qed

section \<open>Numbers against the polling rate\<close>

lemma sequence_stored:
  assumes "sy \<in> set sys \<or> map_of (da_last_sequence s) sy = Some (mt_sequence t)"
    and "get_latest_tick sy f = Some t"
  shows "map_of (da_last_sequence (fst (check_sequence_gaps f sys s))) sy = Some (mt_sequence t)"
  using assms
proof (induction sys arbitrary: s)
  case (Cons x sys)
  show ?case
  proof (cases "get_latest_tick x f")
    case None
    with Cons show ?thesis by (auto simp: gaps_Cons)
  next
    case (Some u)
    have "sy \<in> set sys \<or> map_of (da_last_sequence (note_sequence x u s)) sy = Some (mt_sequence t)"
      using Cons.prems Some by (auto simp: update_conv')
    from Cons.IH [OF this Cons.prems(2)] Some show ?thesis by (simp add: gaps_Cons)
  qed
qed simp

lemma jump_is_gap: "sy \<in> set sys \<Longrightarrow> jumped f s sy \<Longrightarrow> sy \<in> set (snd (check_sequence_gaps f sys s))"
proof (induction sys arbitrary: s)
  case (Cons x sys)
  show ?case
  proof (cases "get_latest_tick x f")
    case None
    with Cons show ?thesis by (auto simp: gaps_Cons jumped_def)
  next
    case (Some u)
    with Cons show ?thesis by (cases "x = sy") (auto simp: gaps_Cons)
  qed
qed simp

lemma run_checks_sequence:
  "df_subscribed_symbols f \<noteq> [] \<Longrightarrow> da_last_sequence (fst (run_checks cf k f c s)) =
     da_last_sequence (fst (check_sequence_gaps f (df_subscribed_symbols f) s))"
  by (simp add: run_checks_def Let_def case_prod_unfold handle_anomaly_detected_def handle_feed_clean_def
      record_anomaly_def)

lemma anomalous_round_closes:
  "df_subscribed_symbols f \<noteq> [] \<Longrightarrow> round_anomalies cf k f c s \<noteq> [] \<Longrightarrow>
     \<not> da_feed_clean (fst (run_checks cf k f c s))"
  by (simp add: run_checks_def Let_def case_prod_unfold handle_anomaly_detected_def record_anomaly_def)

text \<open>
  The numbers that the agent checks are given by the feed itself, one per quote: so two quotes
  of a symbol between two rounds count as lost ticks, and the gate is shut after the second round,
  whatever the other checks find.
\<close>

theorem two_quotes_shut_gate:
  fixes n :: nat and es es' :: "feed_event list" and s :: dia
  defines "f \<equiv> foldl feed_step (feed_init n) es" and "f' \<equiv> foldl feed_step (feed_init n) (es @ es')"
  assumes "py_upper sy = sy" and "sy \<in> set (df_subscribed_symbols f)" and "sy \<in> set (df_subscribed_symbols f')"
    and "quotes_of sy es \<noteq> []" and "2 \<le> length (quotes_of sy es')"
  shows "\<not> da_feed_clean (dia_step cf (dia_step cf s (Dia_Round k f c)) (Dia_Round k' f' c'))"
proof -
  obtain t where t: "get_latest_tick sy f = Some t" "mt_sequence t = int (length (quotes_of sy es)) - 1"
    using latest_tick_facts [OF assms(3), of es n] assms(6) by (auto simp: f_def split: option.splits)
  obtain t' where t': "get_latest_tick sy f' = Some t'"
      "mt_sequence t' = int (length (quotes_of sy (es @ es'))) - 1"
    using latest_tick_facts [OF assms(3), of "es @ es'" n] assms(6)
    by (auto simp: f'_def quotes_of_append split: option.splits)
  let ?s = "dia_step cf s (Dia_Round k f c)"
  have "map_of (da_last_sequence ?s) sy = Some (mt_sequence t)"
    using sequence_stored [OF disjI1 [OF assms(4)] t(1)] assms(4) run_checks_sequence [of f cf k c s]
    by (force simp: dia_step_def)
  then have "jumped f' ?s sy"
    using t t' assms(7) by (simp add: jumped_def quotes_of_append)
  from jump_is_gap [OF assms(5) this] have "round_anomalies cf k' f' c' ?s \<noteq> []"
    by (auto simp: round_anomalies_def)
  then show ?thesis
    using assms(5) anomalous_round_closes [of f' cf k' c' ?s] by (force simp: dia_step_def)
qed

theorem two_quotes_shut_gate_witness:
  "\<not> da_feed_clean (dia_step dia_defaults (dia_step dia_defaults dia_init
     (Dia_Round \<lparr>dk_tick = (\<lambda>sy. 9), dk_book = (\<lambda>sy. 9), dk_record = 9\<rparr>
        (foldl feed_step (feed_init 500) [Feed_Subscribe [''SPY''], Feed_Quote 1 (demo_quote 10)]) (l2_init 10)))
     (Dia_Round \<lparr>dk_tick = (\<lambda>sy. 9), dk_book = (\<lambda>sy. 9), dk_record = 9\<rparr>
        (foldl feed_step (feed_init 500) ([Feed_Subscribe [''SPY''], Feed_Quote 1 (demo_quote 10)] @
           [Feed_Quote 2 (demo_quote 11), Feed_Quote 3 (demo_quote 12)])) (l2_init 10)))"
proof (rule two_quotes_shut_gate [where sy = "''SPY''"])
  show up: "py_upper ''SPY'' = ''SPY''" by code_simp
  show "''SPY'' \<in> set (df_subscribed_symbols
      (foldl feed_step (feed_init 500) [Feed_Subscribe [''SPY''], Feed_Quote 1 (demo_quote 10)]))"
    using up by (simp add: feed_subscribe_def on_quote_def Let_def)
  show "''SPY'' \<in> set (df_subscribed_symbols
      (foldl feed_step (feed_init 500) ([Feed_Subscribe [''SPY''], Feed_Quote 1 (demo_quote 10)] @
         [Feed_Quote 2 (demo_quote 11), Feed_Quote 3 (demo_quote 12)])))"
    using up by (simp add: feed_subscribe_def on_quote_def Let_def)
qed (simp_all add: quotes_of_def List.map_filter_simps demo_quote_def)

section \<open>The alert\<close>

text \<open>
  The alert of an anomaly closes the risk gate but not the supervisor: its type contains the
  word the gate looks for in lower case, and is not the type the supervisor compares with.
\<close>

theorem anomaly_alert_holds_gate_only:
  assumes "Publish_Feed_Alert a status as syms \<in> set (dia_emits cf s e)"
  shows "t_anomaly_hold (fst (handle_psa_alert a gate))" and "psa_alert p now a why = (p, [])"
proof -
  have a: "a = ''FEED_ANOMALY''"
    using assms
    by (cases e) (auto simp: dia_emits_def run_checks_def Let_def case_prod_unfold handle_anomaly_detected_def
      handle_feed_clean_def dia_heartbeat_def split: if_splits)
  have "py_in ''anomaly'' (py_lower ''FEED_ANOMALY'')" by code_simp
  with a show "t_anomaly_hold (fst (handle_psa_alert a gate))" by (simp add: handle_psa_alert_def)
  show "psa_alert p now a why = (p, [])" by (simp add: a psa_alert_def psa_then_def)
qed

definition demo_crossed :: data_feed where
  "demo_crossed = foldl feed_step (feed_init 500) [Feed_Subscribe [''SPY''],
     Feed_Quote 1 \<lparr>qu_symbol = ''SPY'', qu_timestamp = None, qu_bid_price = Some 11, qu_ask_price = Some 10\<rparr>]"

theorem anomaly_alert_holds_gate_only_witness:
  "t_anomaly_hold (fst (handle_psa_alert ''FEED_ANOMALY'' tera_init)) \<and>
   psa_alert (psa_init 0) 1 ''FEED_ANOMALY'' ''crossed'' = (psa_init 0, [])"
proof -
  have up: "py_upper ''SPY'' = ''SPY''" by code_simp
  have subs: "df_subscribed_symbols demo_crossed = [''SPY'']"
    using up by (simp add: demo_crossed_def feed_init_def feed_subscribe_def on_quote_def Let_def)
  have tick: "get_latest_tick ''SPY'' demo_crossed = Some \<lparr>mt_symbol = ''SPY'', mt_timestamp = 1, mt_bid = 11,
      mt_ask = 10, mt_last = 11, mt_volume = 0, mt_sequence = 0\<rparr>"
    using up by (simp add: demo_crossed_def feed_init_def feed_subscribe_def on_quote_def Let_def
        get_latest_tick_def or_0_def)
  have stale: "is_stale ''SPY'' age 9 (l2_init 10)" for age
    by (simp add: is_stale_def get_last_updated_def l2_init_def)
  have "snd (dia_act dia_defaults (dia_init\<lparr>da_feed_clean := True\<rparr>)
      (Dia_Round \<lparr>dk_tick = (\<lambda>sy. 9), dk_book = (\<lambda>sy. 9), dk_record = 9\<rparr> demo_crossed (l2_init 10))) =
    snd (handle_anomaly_detected 9 [CROSSED_MARKET, MISSING_L2] [''SPY''] dia_init)"
    by (simp add: run_checks_def round_anomalies_def subs tick stale check_symbol_def dia_init_def
        dia_defaults_def seconds_def gaps_Cons jumped_def first_occurrences_def Let_def case_prod_unfold
        handle_anomaly_detected_def)
  then have "Publish_Feed_Alert ''FEED_ANOMALY'' FEED_HALTED [CROSSED_MARKET, MISSING_L2] [''SPY'']
    \<in> set (dia_emits dia_defaults (dia_init\<lparr>da_feed_clean := True\<rparr>)
        (Dia_Round \<lparr>dk_tick = (\<lambda>sy. 9), dk_book = (\<lambda>sy. 9), dk_record = 9\<rparr> demo_crossed (l2_init 10)))"
    by (simp add: dia_emits_def handle_anomaly_detected_def anomaly_status_def)
  from anomaly_alert_holds_gate_only [OF this] show ?thesis by blast
qed

end
