(* ===== verification/Micro_Signal.thy ===== *)
theory Micro_Signal
  imports Data_Feed Data_Integrity
begin

text \<open>
  The micro-signal agent of \<open>agents/agent_04_micro_signal.py\<close>: what the bus tells it, and its scan
  of the approved symbols. A scan stops at every call of the language model and at every
  publication, and the bus may deliver in between: so a scan is a sequence of events, with the
  symbols still to do in the state. The prompt is left out; the answer is an argument, with
  \<open>Llm_Raised\<close> for every answer that ends in an exception. Logging is left out.
\<close>

section \<open>Data\<close>

record candidate_signal =
  cs_signal_id :: string
  cs_symbol :: symbol
  cs_setup_type :: setup_type
  cs_direction :: direction
  cs_entry_price :: pyfloat
  cs_initial_stop :: pyfloat
  cs_initial_target :: pyfloat
  cs_regime :: regime_label
  cs_tick_at_signal :: market_tick

definition candidate_risk_reward :: "candidate_signal \<Rightarrow> pyfloat" where
  "candidate_risk_reward c =
     (let r = \<bar>cs_entry_price c - cs_initial_stop c\<bar>;
          t = \<bar>cs_initial_target c - cs_entry_price c\<bar>
      in if 0 < r then t / r else 0)"

record misa_config =
  ms_max_spread_bps :: pyfloat
  ms_min_avg_volume :: int

definition misa_defaults :: misa_config where
  "misa_defaults = \<lparr>ms_max_spread_bps = 20, ms_min_avg_volume = 500000\<rparr>"

text \<open>Where a scan stands: not running, between two symbols, or waiting for the answer on one.\<close>

datatype misa_scan =
    Scan_Idle
  | Scan_Between "symbol list" "symbol list"
  | Scan_Waiting symbol market_tick "symbol list" "symbol list"

record misa =
  ms_approved_setups :: "approved_setup_list option"
  ms_current_universe :: "universe_snapshot option"
  ms_current_regime :: "regime_assessment option"
  ms_feed_clean :: bool
  ms_scan :: misa_scan

definition misa_init :: misa where
  "misa_init = \<lparr>ms_approved_setups = None, ms_current_universe = None, ms_current_regime = None,
     ms_feed_clean = False, ms_scan = Scan_Idle\<rparr>"

datatype misa_effect =
    Publish_Candidate candidate_signal
  | Audit_Candidate candidate_signal pyfloat

section \<open>The answer of the model\<close>

primrec direction_value :: "direction \<Rightarrow> string" where
  "direction_value LONG = ''long''"
| "direction_value SHORT = ''short''"

record llm_pattern =
  lp_pattern_found :: bool
  lp_setup_type :: "string option"
  lp_direction :: "string option"
  lp_entry_price :: "pyfloat option"
  lp_stop_price :: "pyfloat option"
  lp_target_price :: "pyfloat option"

datatype llm_answer = Llm_Raised | Llm_Json llm_pattern

record detection =
  de_setup_type :: setup_type
  de_direction :: direction
  de_entry :: pyfloat
  de_stop :: pyfloat
  de_target :: pyfloat

text \<open>The floor is on the ratio of the distances only: their sides are not looked at.\<close>

definition detect_pattern :: "llm_answer \<Rightarrow> detection option" where
  "detect_pattern ans =
     (case ans of
        Llm_Raised \<Rightarrow> None
      | Llm_Json r \<Rightarrow>
          if \<not> lp_pattern_found r then None
          else
            (case (lp_setup_type r, lp_direction r, lp_entry_price r, lp_stop_price r, lp_target_price r) of
               (Some ty, Some dir, Some entry, Some stop, Some target) \<Rightarrow>
                 (case (parse_enum setup_value all_setups ty, parse_enum direction_value [LONG, SHORT] dir) of
                    (Some ty, Some dir) \<Rightarrow>
                      let risk = \<bar>entry - stop\<bar>; reward = \<bar>target - entry\<bar>
                      in if risk \<le> 0 \<or> reward / risk < 2 then None
                         else Some \<lparr>de_setup_type = ty, de_direction = dir, de_entry = entry,
                                de_stop = stop, de_target = target\<rparr>
                  | _ \<Rightarrow> None)
             | _ \<Rightarrow> None))"

section \<open>The scan\<close>

record scan_view =
  vw_tick :: "symbol \<Rightarrow> market_tick option"
  vw_bars :: "symbol \<Rightarrow> bar_data list"

definition feed_scan_view :: "data_feed \<Rightarrow> scan_view" where
  "feed_scan_view f = \<lparr>vw_tick = (\<lambda>sy. get_latest_tick sy f), vw_bars = (\<lambda>sy. get_bar_history sy 20 f)\<rparr>"

definition mean_int :: "int list \<Rightarrow> pyfloat" where
  "mean_int xs = of_int (sum_list xs) / of_nat (length xs)"

text \<open>The gates before the model is asked; the tick it goes on with.\<close>

definition symbol_gates :: "misa_config \<Rightarrow> scan_view \<Rightarrow> symbol list \<Rightarrow> symbol \<Rightarrow> market_tick option" where
  "symbol_gates cf v held sy =
     (if sy \<in> set held then None
      else (case vw_tick v sy of
          None \<Rightarrow> None
        | Some t \<Rightarrow>
            let bars = vw_bars v sy in
            if length bars < 5 then None
            else if ms_max_spread_bps cf \<le> tick_spread_bps t then None
            else if mean_int (map bd_volume (py_last 10 bars)) < of_int (ms_min_avg_volume cf) / 390 then None
            else Some t))"

text \<open>On to the next symbol that passes the gates, or to the end of the scan.\<close>

fun scan_on :: "misa_config \<Rightarrow> scan_view \<Rightarrow> symbol list \<Rightarrow> symbol list \<Rightarrow> misa_scan" where
  "scan_on cf v held [] = Scan_Idle"
| "scan_on cf v held (sy # sys) =
     (case symbol_gates cf v held sy of
        None \<Rightarrow> scan_on cf v held sys
      | Some t \<Rightarrow> Scan_Waiting sy t sys held)"

definition run_one_scan :: "misa_config \<Rightarrow> scan_view \<Rightarrow> symbol list \<Rightarrow> misa \<Rightarrow> misa" where
  "run_one_scan cf v held s =
     (if \<not> ms_feed_clean s then s
      else (case ms_current_regime s of
          None \<Rightarrow> s
        | Some r \<Rightarrow>
            if \<not> is_tradeable (ra_label r) then s
            else if ms_approved_setups s = None then s
            else (case ms_current_universe s of
                None \<Rightarrow> s
              | Some u \<Rightarrow> s\<lparr>ms_scan := scan_on cf v held (approved_symbols u)\<rparr>)))"

text \<open>After the answer: the gates of the setup, with the regime and the setups of this moment.\<close>

definition answered ::
  "misa_config \<Rightarrow> scan_view \<Rightarrow> string \<Rightarrow> llm_answer \<Rightarrow> misa \<Rightarrow> misa \<times> misa_effect list" where
  "answered cf v uid ans s =
     (case ms_scan s of
        Scan_Waiting sy t sys held \<Rightarrow>
          let skip = (s\<lparr>ms_scan := scan_on cf v held sys\<rparr>, []) in
          (case (detect_pattern ans, ms_approved_setups s, ms_current_regime s) of
             (Some d, Some l, Some r) \<Rightarrow>
               if \<not> is_approved l (de_setup_type d) then skip
               else if de_setup_type d \<notin> set (ra_allowed_setup_types r) then skip
               else
                 let c = \<lparr>cs_signal_id = uid, cs_symbol = sy, cs_setup_type = de_setup_type d,
                        cs_direction = de_direction d, cs_entry_price = de_entry d,
                        cs_initial_stop = de_stop d, cs_initial_target = de_target d,
                        cs_regime = ra_label r, cs_tick_at_signal = t\<rparr>
                 in (s\<lparr>ms_scan := Scan_Between sys held\<rparr>,
                     [Publish_Candidate c, Audit_Candidate c (tick_spread_bps t)])
           | _ \<Rightarrow> skip)
      | _ \<Rightarrow> (s, []))"

datatype misa_event =
    Misa_Setups approved_setup_list
  | Misa_Universe universe_snapshot
  | Misa_Regime regime_assessment
  | Misa_Feed feed_status
  | Misa_Scan scan_view "symbol list"
  | Misa_Answer scan_view string llm_answer
  | Misa_Resume scan_view

fun misa_act :: "misa_config \<Rightarrow> misa \<Rightarrow> misa_event \<Rightarrow> misa \<times> misa_effect list" where
  "misa_act cf s (Misa_Setups l) = (s\<lparr>ms_approved_setups := Some l\<rparr>, [])"
| "misa_act cf s (Misa_Universe u) = (s\<lparr>ms_current_universe := Some u\<rparr>, [])"
| "misa_act cf s (Misa_Regime r) = (s\<lparr>ms_current_regime := Some r\<rparr>, [])"
| "misa_act cf s (Misa_Feed st) = (s\<lparr>ms_feed_clean := (st = FEED_CLEAN)\<rparr>, [])"
| "misa_act cf s (Misa_Scan v held) =
     (case ms_scan s of Scan_Idle \<Rightarrow> (run_one_scan cf v held s, []) | _ \<Rightarrow> (s, []))"
| "misa_act cf s (Misa_Answer v uid ans) = answered cf v uid ans s"
| "misa_act cf s (Misa_Resume v) =
     (case ms_scan s of
        Scan_Between sys held \<Rightarrow> (s\<lparr>ms_scan := scan_on cf v held sys\<rparr>, [])
      | _ \<Rightarrow> (s, []))"

definition misa_step :: "misa_config \<Rightarrow> misa \<Rightarrow> misa_event \<Rightarrow> misa" where
  "misa_step cf s e = fst (misa_act cf s e)"

definition misa_emits :: "misa_config \<Rightarrow> misa \<Rightarrow> misa_event \<Rightarrow> misa_effect list" where
  "misa_emits cf s e = snd (misa_act cf s e)"

section \<open>What a scan has checked\<close>

fun scan_sound :: "misa_config \<Rightarrow> misa_scan \<Rightarrow> bool" where
  "scan_sound cf (Scan_Waiting sy t sys held) \<longleftrightarrow>
     sy \<notin> set held \<and> tick_spread_bps t < ms_max_spread_bps cf"
| "scan_sound cf _ \<longleftrightarrow> True"

lemma scan_on_sound [simp]: "scan_sound cf (scan_on cf v held sys)"
  by (induction cf v held sys rule: scan_on.induct)
     (auto simp: symbol_gates_def Let_def split: option.splits if_splits)

lemma answered_cases:
  obtains (idle) "answered cf v uid ans s = (s, [])"
  | (skip) sy t sys held where "ms_scan s = Scan_Waiting sy t sys held"
      "answered cf v uid ans s = (s\<lparr>ms_scan := scan_on cf v held sys\<rparr>, [])"
  | (emit) sy t sys held d l r c where "ms_scan s = Scan_Waiting sy t sys held"
      "detect_pattern ans = Some d" "ms_approved_setups s = Some l" "ms_current_regime s = Some r"
      "is_approved l (de_setup_type d)" "de_setup_type d \<in> set (ra_allowed_setup_types r)"
      "c = \<lparr>cs_signal_id = uid, cs_symbol = sy, cs_setup_type = de_setup_type d,
          cs_direction = de_direction d, cs_entry_price = de_entry d, cs_initial_stop = de_stop d,
          cs_initial_target = de_target d, cs_regime = ra_label r, cs_tick_at_signal = t\<rparr>"
      "answered cf v uid ans s = (s\<lparr>ms_scan := Scan_Between sys held\<rparr>,
          [Publish_Candidate c, Audit_Candidate c (tick_spread_bps t)])"
proof (cases "ms_scan s")
  case (Scan_Waiting sy t sys held)
  show ?thesis
  proof (cases "\<exists>d l r. detect_pattern ans = Some d \<and> ms_approved_setups s = Some l \<and>
      ms_current_regime s = Some r \<and> is_approved l (de_setup_type d) \<and>
      de_setup_type d \<in> set (ra_allowed_setup_types r)")
    case True
    then obtain d l r where "detect_pattern ans = Some d" "ms_approved_setups s = Some l"
        "ms_current_regime s = Some r" "is_approved l (de_setup_type d)"
        "de_setup_type d \<in> set (ra_allowed_setup_types r)"
      by blast
    with Scan_Waiting show ?thesis by (intro emit) (auto simp: answered_def Let_def)
  next
    case False
    with Scan_Waiting show ?thesis
      by (intro skip) (auto simp: answered_def Let_def split: option.split)
  qed
qed (auto intro: idle simp: answered_def)

definition misa_inv :: "misa_config \<Rightarrow> misa \<Rightarrow> bool" where
  "misa_inv cf s \<longleftrightarrow> scan_sound cf (ms_scan s)"

lemma misa_inv_step: "misa_inv cf s \<Longrightarrow> misa_inv cf (misa_step cf s e)"
proof (cases e)
  case (Misa_Answer v uid ans)
  assume "misa_inv cf s"
  then show ?thesis
    unfolding Misa_Answer misa_step_def misa_act.simps
    by (cases rule: answered_cases [of cf v uid ans s]) (simp_all add: misa_inv_def)
qed (auto simp: misa_inv_def misa_step_def run_one_scan_def split: misa_scan.split option.split)

interpretation misa: inv_machine "misa_step cf" "misa_inv cf" for cf
  by unfold_locales (rule misa_inv_step)

lemma detection_ratio:
  assumes "detect_pattern ans = Some d"
  shows "0 < \<bar>de_entry d - de_stop d\<bar> \<and> 2 \<le> \<bar>de_target d - de_entry d\<bar> / \<bar>de_entry d - de_stop d\<bar>"
  using assms by (auto simp: detect_pattern_def Let_def split: llm_answer.splits option.splits if_splits)

definition candidate_allowed :: "misa \<Rightarrow> candidate_signal \<Rightarrow> bool" where
  "candidate_allowed s c \<longleftrightarrow>
     (case (ms_approved_setups s, ms_current_regime s) of
        (Some l, Some r) \<Rightarrow> is_approved l (cs_setup_type c) \<and>
          cs_setup_type c \<in> set (ra_allowed_setup_types r) \<and> cs_regime c = ra_label r
      | _ \<Rightarrow> False)"

lemma emitted_candidate:
  assumes "misa_inv cf s" and "Publish_Candidate c \<in> set (misa_emits cf s e)"
  shows "candidate_allowed s c" and "tick_spread_bps (cs_tick_at_signal c) < ms_max_spread_bps cf"
    and "2 \<le> candidate_risk_reward c"
proof -
  obtain v uid ans where e: "e = Misa_Answer v uid ans"
    using assms(2) by (cases e) (auto simp: misa_emits_def split: misa_scan.splits)
  with assms(2) have pub: "Publish_Candidate c \<in> set (snd (answered cf v uid ans s))"
    by (simp add: misa_emits_def)
  have "candidate_allowed s c \<and> tick_spread_bps (cs_tick_at_signal c) < ms_max_spread_bps cf \<and>
      2 \<le> candidate_risk_reward c"
    using answered_cases [of cf v uid ans s]
  proof cases
    case (emit sy t sys held d l r c')
    with pub have c: "c = c'" by simp
    have "tick_spread_bps t < ms_max_spread_bps cf"
      using assms(1) emit(1) by (simp add: misa_inv_def)
    with detection_ratio [OF emit(2)] show ?thesis
      by (simp add: c emit(3-7) candidate_allowed_def candidate_risk_reward_def Let_def)
  qed (use pub in simp_all)
  then show "candidate_allowed s c" and "tick_spread_bps (cs_tick_at_signal c) < ms_max_spread_bps cf"
    and "2 \<le> candidate_risk_reward c" by simp_all
qed

text \<open>
  Every candidate that the agent publishes, whatever the bus delivers during the scan, has a
  setup that the list and the regime of that moment allow, a spread under the limit, and a target at
  least twice as far from the entry as the stop.
\<close>

theorem candidate_passed_gates:
  fixes es :: "misa_event list" and cf :: misa_config
  defines "s \<equiv> foldl (misa_step cf) misa_init es"
  assumes "Publish_Candidate c \<in> set (misa_emits cf s e)"
  shows "candidate_allowed s c" and "tick_spread_bps (cs_tick_at_signal c) < ms_max_spread_bps cf"
    and "2 \<le> candidate_risk_reward c"
proof -
  have "misa_inv cf s" unfolding s_def by (rule misa.run_inv) (simp add: misa_inv_def misa_init_def)
  from emitted_candidate [OF this assms(2)] show "candidate_allowed s c"
    and "tick_spread_bps (cs_tick_at_signal c) < ms_max_spread_bps cf" and "2 \<le> candidate_risk_reward c"
    by simp_all
qed

definition misa_tick :: market_tick where
  "misa_tick = \<lparr>mt_symbol = ''SPY'', mt_timestamp = 1, mt_bid = 9999 / 100, mt_ask = 10001 / 100,
     mt_last = 100, mt_volume = 0, mt_sequence = 7\<rparr>"

definition demo_bar :: bar_data where
  "demo_bar = \<lparr>bd_symbol = ''SPY'', bd_timestamp = 1, bd_timeframe = ''1m'', bd_open = 99, bd_high = 101,
     bd_low = 98, bd_close = 100, bd_volume = 5000, bd_vwap = None\<rparr>"

definition demo_scan_view :: scan_view where
  "demo_scan_view = \<lparr>vw_tick = (\<lambda>sy. Some misa_tick), vw_bars = (\<lambda>sy. replicate 6 demo_bar)\<rparr>"

definition demo_setups :: approved_setup_list where
  "demo_setups = \<lparr>al_setups = [\<lparr>as_setup_type = BREAKOUT, as_expectancy = 1, as_win_rate = 1 / 2,
     as_avg_win = 2, as_avg_loss = 1, as_sample_count = 300, as_oos_validated = True,
     as_allowed_regimes = [TREND_DAY], as_last_validated = 0, as_rolling_expectancy = None,
     as_retired = False, as_retire_reason = None\<rparr>], al_version = 1, al_effective_session = None,
     al_generated_at = 0\<rparr>"

definition demo_universe :: universe_snapshot where
  "demo_universe = \<lparr>u_session_date = ''2024-01-02'', u_symbols = [\<lparr>sc_symbol = ''SPY'', sc_approved = True,
     sc_float_shares_million = None, sc_avg_daily_volume = None, sc_spread_tier = None, sc_sector = None,
     sc_catalyst = None, sc_news_sensitive = False, sc_borrow_restricted = False, sc_halt_prone = False,
     sc_reject_reason = None, sc_classified_at = 0\<rparr>], u_generated_at = 0\<rparr>"

definition demo_regime :: regime_assessment where
  "demo_regime = \<lparr>ra_label = TREND_DAY, ra_vix_level = None, ra_trend_strength = None, ra_news_flags = [],
     ra_allowed_setup_types = [BREAKOUT], ra_confidence = 1\<rparr>"

definition demo_answer :: "pyfloat \<Rightarrow> pyfloat \<Rightarrow> llm_answer" where
  "demo_answer stop target = Llm_Json \<lparr>lp_pattern_found = True, lp_setup_type = Some ''breakout'',
     lp_direction = Some ''long'', lp_entry_price = Some 100, lp_stop_price = Some stop,
     lp_target_price = Some target\<rparr>"

definition misa_candidate :: "pyfloat \<Rightarrow> pyfloat \<Rightarrow> candidate_signal" where
  "misa_candidate stop target = \<lparr>cs_signal_id = ''u1'', cs_symbol = ''SPY'', cs_setup_type = BREAKOUT,
     cs_direction = LONG, cs_entry_price = 100, cs_initial_stop = stop, cs_initial_target = target,
     cs_regime = TREND_DAY, cs_tick_at_signal = misa_tick\<rparr>"

definition demo_scan :: "misa_event list" where
  "demo_scan = [Misa_Setups demo_setups, Misa_Universe demo_universe, Misa_Regime demo_regime,
     Misa_Feed FEED_CLEAN, Misa_Scan demo_scan_view []]"

lemma demo_spread: "tick_spread_bps misa_tick = 2"
  by (simp add: tick_spread_bps_def tick_spread_def tick_mid_def misa_tick_def)

lemma demo_waiting:
  "foldl (misa_step misa_defaults) misa_init demo_scan =
     \<lparr>ms_approved_setups = Some demo_setups, ms_current_universe = Some demo_universe,
      ms_current_regime = Some demo_regime, ms_feed_clean = True, ms_scan = Scan_Waiting ''SPY'' misa_tick [] []\<rparr>"
proof -
  have "symbol_gates misa_defaults demo_scan_view [] ''SPY'' = Some misa_tick"
    by (simp add: symbol_gates_def demo_scan_view_def misa_defaults_def demo_spread mean_int_def py_last_def
        eval_nat_numeral demo_bar_def)
  then show ?thesis
    by (simp add: demo_scan_def misa_step_def misa_init_def run_one_scan_def demo_regime_def demo_universe_def
        approved_symbols_def)
qed

lemma demo_detected:
  "detect_pattern (demo_answer 99 102) = Some \<lparr>de_setup_type = BREAKOUT, de_direction = LONG, de_entry = 100,
     de_stop = 99, de_target = 102\<rparr>"
  by (simp add: detect_pattern_def demo_answer_def parse_enum_def all_setups_def Let_def)

lemma demo_emits:
  "Publish_Candidate (misa_candidate 99 102) \<in> set (misa_emits misa_defaults
     (s\<lparr>ms_approved_setups := Some demo_setups, ms_current_regime := Some demo_regime,
        ms_scan := Scan_Waiting ''SPY'' misa_tick [] []\<rparr>)
     (Misa_Answer demo_scan_view ''u1'' (demo_answer 99 102)))"
  by (simp add: misa_emits_def answered_def demo_detected misa_candidate_def is_approved_def demo_setups_def
      demo_regime_def Let_def)

lemma demo_scan_emits:
  "Publish_Candidate (misa_candidate 99 102) \<in> set (misa_emits misa_defaults
     (foldl (misa_step misa_defaults) misa_init demo_scan)
     (Misa_Answer demo_scan_view ''u1'' (demo_answer 99 102)))"
  unfolding demo_waiting
  using demo_emits [of "\<lparr>ms_approved_setups = Some demo_setups, ms_current_universe = Some demo_universe,
    ms_current_regime = Some demo_regime, ms_feed_clean = True, ms_scan = Scan_Idle\<rparr>"] by simp

theorem candidate_passed_gates_witness:
  "tick_spread_bps (cs_tick_at_signal (misa_candidate 99 102)) < 20 \<and>
   2 \<le> candidate_risk_reward (misa_candidate 99 102)"
  using candidate_passed_gates(2,3) [OF demo_scan_emits] by (simp add: misa_defaults_def)

text \<open>
  Two gaps: the feed is only looked at when a scan starts, so a candidate can follow the report
  that the feed halted; and a stop on the wrong side of the entry passes the floor.
\<close>

lemma candidate_on_halted_feed:
  "Publish_Candidate (misa_candidate 99 102) \<in> set (misa_emits misa_defaults
     (foldl (misa_step misa_defaults) misa_init (demo_scan @ [Misa_Feed FEED_HALTED]))
     (Misa_Answer demo_scan_view ''u1'' (demo_answer 99 102)))"
  using demo_emits [of "\<lparr>ms_approved_setups = Some demo_setups, ms_current_universe = Some demo_universe,
    ms_current_regime = Some demo_regime, ms_feed_clean = False, ms_scan = Scan_Idle\<rparr>"]
  by (simp add: demo_waiting misa_step_def [of _ _ "Misa_Feed FEED_HALTED"])

lemma long_with_stop_above_entry:
  "detect_pattern (demo_answer 101 102) = Some \<lparr>de_setup_type = BREAKOUT, de_direction = LONG, de_entry = 100,
     de_stop = 101, de_target = 102\<rparr>"
  by (simp add: detect_pattern_def demo_answer_def parse_enum_def all_setups_def Let_def)

section \<open>With the data integrity agent\<close>

text \<open>
  The two agents on one bus: what agent 3 publishes is delivered to agent 4 in order. Other
  events of agent 4 do not bring a feed report.
\<close>

fun feed_reports :: "dia_effect list \<Rightarrow> misa_event list" where
  "feed_reports [] = []"
| "feed_reports (Publish_Feed_Status st as syms # out) = Misa_Feed st # feed_reports out"
| "feed_reports (x # out) = feed_reports out"

fun is_feed_report :: "misa_event \<Rightarrow> bool" where
  "is_feed_report (Misa_Feed st) = True"
| "is_feed_report e = False"

type_synonym gated_scan = "dia \<times> misa"

fun gated_step :: "dia_config \<Rightarrow> misa_config \<Rightarrow> gated_scan \<Rightarrow> dia_event + misa_event \<Rightarrow> gated_scan" where
  "gated_step dc cf (d, s) (Inl e) =
     (dia_step dc d e, foldl (misa_step cf) s (feed_reports (dia_emits dc d e)))"
| "gated_step dc cf (d, s) (Inr e) = (d, if is_feed_report e then s else misa_step cf s e)"

fun gated_emits :: "dia_config \<Rightarrow> misa_config \<Rightarrow> gated_scan \<Rightarrow> dia_event + misa_event \<Rightarrow> misa_effect list" where
  "gated_emits dc cf (d, s) (Inl e) = []"
| "gated_emits dc cf (d, s) (Inr e) = (if is_feed_report e then [] else misa_emits cf s e)"

fun dia_part :: "(dia_event + misa_event) list \<Rightarrow> dia_event list" where
  "dia_part [] = []"
| "dia_part (Inl e # es) = e # dia_part es"
| "dia_part (Inr e # es) = dia_part es"

lemma dia_part_append [simp]: "dia_part (xs @ ys) = dia_part xs @ dia_part ys"
  by (induction xs rule: dia_part.induct) simp_all

lemma gated_dia: "fst (foldl (gated_step dc cf) (d, s) es) = foldl (dia_step dc) d (dia_part es)"
proof (induction es arbitrary: d s)
  case (Cons e es)
  then show ?case by (cases e) simp_all
qed simp

definition asleep :: "misa \<Rightarrow> bool" where
  "asleep s \<longleftrightarrow> \<not> ms_feed_clean s \<and> ms_scan s = Scan_Idle"

lemma asleep_step: "asleep s \<Longrightarrow> e \<noteq> Misa_Feed FEED_CLEAN \<Longrightarrow> asleep (misa_step cf s e)"
  by (cases e) (auto simp: asleep_def misa_step_def run_one_scan_def answered_def)

lemma asleep_silent: "asleep s \<Longrightarrow> misa_emits cf s e = []"
  by (cases e) (auto simp: asleep_def misa_emits_def answered_def)

lemma asleep_reports:
  "asleep s \<Longrightarrow> (\<And>as syms. Publish_Feed_Status FEED_CLEAN as syms \<notin> set out) \<Longrightarrow>
     asleep (foldl (misa_step cf) s (feed_reports out))"
proof (induction out arbitrary: s rule: feed_reports.induct)
  case (2 st as syms out)
  then have "st \<noteq> FEED_CLEAN" by auto
  with 2 show ?case by (simp add: asleep_step)
qed auto

text \<open>
  C15. No candidate before the feed has proved itself: in a run of the data integrity and the
  signal agent over one bus, from their start, nothing is published as long as no moment of the
  run had three clean rounds in a row since the last anomaly.
\<close>

theorem no_signal_before_three_clean:
  assumes "\<And>p. prefix p es \<Longrightarrow> \<not> three_clean (run_out (dia_step dc) (outcome_of dc) dia_init (dia_part p))"
  shows "run_out (gated_step dc cf) (gated_emits dc cf) (dia_init, misa_init) es = []"
proof -
  have "asleep (snd (foldl (gated_step dc cf) (dia_init, misa_init) es)) \<and>
      run_out (gated_step dc cf) (gated_emits dc cf) (dia_init, misa_init) es = []"
    using assms
  proof (induction es rule: rev_induct)
    case Nil
    show ?case by (simp add: asleep_def misa_init_def)
  next
    case (snoc e es)
    obtain d s where ds: "foldl (gated_step dc cf) (dia_init, misa_init) es = (d, s)" by fastforce
    from snoc have a: "asleep s"
      and n: "run_out (gated_step dc cf) (gated_emits dc cf) (dia_init, misa_init) es = []"
      by (auto simp: ds)
    show ?case
    proof (cases e)
      case (Inl x)
      have "dia_step dc d x = foldl (dia_step dc) dia_init (dia_part (es @ [e]))"
        using gated_dia [of dc cf dia_init misa_init es] by (simp add: ds Inl)
      then have "\<not> da_feed_clean (dia_step dc d x)"
        using snoc.prems [of "es @ [e]"] gate_matches_run [of dc "dia_part (es @ [e])"]
        by (simp add: gate_matches_def)
      then have "asleep (foldl (misa_step cf) s (feed_reports (dia_emits dc d x)))"
        using a clean_report_opens_gate by (blast intro: asleep_reports)
      with Inl n show ?thesis by (simp add: ds run_out_append)
    next
      case (Inr x)
      with a n show ?thesis
        by (cases "is_feed_report x") (auto simp: ds run_out_append asleep_silent intro!: asleep_step)
    qed
  qed
  then show ?thesis by simp
qed

theorem no_signal_before_three_clean_witness:
  "run_out (gated_step dia_defaults misa_defaults) (gated_emits dia_defaults misa_defaults)
     (dia_init, misa_init) [Inl Dia_Heartbeat, Inr (Misa_Scan demo_scan_view [])] = []"
proof (rule no_signal_before_three_clean)
  fix p :: "(dia_event + misa_event) list"
  assume "prefix p [Inl Dia_Heartbeat, Inr (Misa_Scan demo_scan_view [])]"
  then have "dia_part p = [] \<or> dia_part p = [Dia_Heartbeat]"
    by (auto simp: prefix_Cons)
  then show "\<not> three_clean (run_out (dia_step dia_defaults) (outcome_of dia_defaults) dia_init (dia_part p))"
    by (auto simp: three_clean_snoc)
qed

end
