(* ===== verification/Signal_Validation.thy ===== *)
theory Signal_Validation
  imports Micro_Signal
begin

text \<open>
  The signal validation agent of \<open>agents/agent_05_signal_validation.py\<close>: the five checks of a
  candidate, the reasons that the language model may add, the result, and the statistics of the
  session. The universe and the regime are the answers of the two callbacks; the notes are left out,
  and so is the model's prompt. \<open>Review_Not_Iterable\<close> is an answer whose list of reasons cannot be
  iterated: the handler ends in an exception.
\<close>

section \<open>State\<close>

datatype fail_reason =
    NO_HTF_ALIGNMENT | INSUFFICIENT_VOLUME | SPREAD_TOO_WIDE | CATALYST_MISMATCH
  | REGIME_CONTRADICTION | EDGE_NOT_APPROVED | DATA_FEED_DIRTY

primrec fail_reason_value :: "fail_reason \<Rightarrow> string" where
  "fail_reason_value NO_HTF_ALIGNMENT = ''no_higher_timeframe_alignment''"
| "fail_reason_value INSUFFICIENT_VOLUME = ''insufficient_volume''"
| "fail_reason_value SPREAD_TOO_WIDE = ''spread_too_wide''"
| "fail_reason_value CATALYST_MISMATCH = ''catalyst_mismatch''"
| "fail_reason_value REGIME_CONTRADICTION = ''regime_contradiction''"
| "fail_reason_value EDGE_NOT_APPROVED = ''edge_not_approved''"
| "fail_reason_value DATA_FEED_DIRTY = ''data_feed_dirty''"

definition all_fail_reasons :: "fail_reason list" where
  "all_fail_reasons = [NO_HTF_ALIGNMENT, INSUFFICIENT_VOLUME, SPREAD_TOO_WIDE, CATALYST_MISMATCH,
     REGIME_CONTRADICTION, EDGE_NOT_APPROVED, DATA_FEED_DIRTY]"

record validated_signal =
  vs_signal_id :: string
  vs_candidate :: candidate_signal
  vs_result :: validation_result
  vs_fail_reasons :: "fail_reason list"
  vs_htf_aligned :: bool
  vs_volume_ok :: bool
  vs_spread_ok :: bool
  vs_catalyst_consistent :: bool
  vs_regime_consistent :: bool

record sva_stats =
  st_total_received :: nat
  st_total_passed :: nat
  st_total_failed :: nat
  st_fail_htf_alignment :: nat
  st_fail_volume :: nat
  st_fail_spread :: nat
  st_fail_catalyst :: nat
  st_fail_regime :: nat

definition sva_stats_init :: sva_stats where
  "sva_stats_init = \<lparr>st_total_received = 0, st_total_passed = 0, st_total_failed = 0, st_fail_htf_alignment = 0,
     st_fail_volume = 0, st_fail_spread = 0, st_fail_catalyst = 0, st_fail_regime = 0\<rparr>"

definition reset_session_stats :: "sva_stats \<Rightarrow> sva_stats" where
  "reset_session_stats s = sva_stats_init"

record validation_view =
  vv_bars :: "int \<Rightarrow> bar_data list"
  vv_universe :: "universe_snapshot option"
  vv_regime :: "regime_assessment option"

definition feed_validation_view ::
  "data_feed \<Rightarrow> symbol \<Rightarrow> universe_snapshot option \<Rightarrow> regime_assessment option \<Rightarrow> validation_view" where
  "feed_validation_view f sy u r =
     \<lparr>vv_bars = (\<lambda>n. get_bar_history sy n f), vv_universe = u, vv_regime = r\<rparr>"

section \<open>The five checks\<close>

definition check_htf_alignment :: "bar_data list \<Rightarrow> direction \<Rightarrow> bool" where
  "check_htf_alignment bars dir =
     (if length bars < 3 then False
      else
        let uptrend = bd_close (hd bars) < bd_close (last bars)
        in (dir = LONG \<and> uptrend) \<or> (dir = SHORT \<and> \<not> uptrend))"

definition check_volume :: "bar_data list \<Rightarrow> bool" where
  "check_volume bars =
     (if length bars < 5 then False
      else
        let avg_vol = mean_int (map bd_volume bars)
        in if avg_vol \<le> 0 then False else 3 / 2 \<le> of_int (bd_volume (last bars)) / avg_vol)"

definition check_spread :: "pyfloat \<Rightarrow> candidate_signal \<Rightarrow> bool" where
  "check_spread max_spread_bps c \<longleftrightarrow> tick_spread_bps (cs_tick_at_signal c) < max_spread_bps"

definition event_driven_catalysts :: "string list" where
  "event_driven_catalysts = [''earnings'', ''news'', ''fda'', ''merger'', ''ipo'', ''split'']"

definition event_compatible_setups :: "setup_type list" where
  "event_compatible_setups = [MOMENTUM_BURST, BREAKOUT, CATALYST_MOVER, GAP_AND_GO, LIQUIDITY_SWEEP]"

definition check_catalyst :: "universe_snapshot option \<Rightarrow> symbol \<Rightarrow> setup_type \<Rightarrow> bool" where
  "check_catalyst universe sy ty =
     (case universe of
        None \<Rightarrow> True
      | Some u \<Rightarrow>
          (case find (\<lambda>x. sc_symbol x = sy) (u_symbols u) of
             None \<Rightarrow> True
           | Some info \<Rightarrow>
               let catalyst = py_lower (case sc_catalyst info of None \<Rightarrow> '''' | Some x \<Rightarrow> x) in
               if catalyst = '''' then True
               else
                 let is_event = list_ex (\<lambda>kw. py_in kw catalyst) event_driven_catalysts in
                 if is_event \<and> ty \<notin> set event_compatible_setups then False
                 else if \<not> is_event \<and> ty = CATALYST_MOVER then False
                 else True))"

definition check_regime :: "regime_assessment option \<Rightarrow> setup_type \<Rightarrow> bool" where
  "check_regime regime ty =
     (case regime of
        None \<Rightarrow> False
      | Some r \<Rightarrow> if \<not> is_tradeable (ra_label r) then False else ty \<in> set (ra_allowed_setup_types r))"

section \<open>The result\<close>

datatype llm_review = Review_Unavailable | Review_Reasons "string list" | Review_Not_Iterable

fun merge_reasons :: "fail_reason list \<Rightarrow> string list \<Rightarrow> fail_reason list" where
  "merge_reasons rs [] = rs"
| "merge_reasons rs (x # xs) =
     (case parse_enum fail_reason_value all_fail_reasons x of
        None \<Rightarrow> merge_reasons rs xs
      | Some r \<Rightarrow> merge_reasons (if r \<in> set rs then rs else rs @ [r]) xs)"

definition validate_candidate ::
  "pyfloat \<Rightarrow> validation_view \<Rightarrow> llm_review \<Rightarrow> candidate_signal \<Rightarrow> validated_signal option" where
  "validate_candidate max_spread_bps v review c =
     (let htf = check_htf_alignment (vv_bars v 5) (cs_direction c);
          vol = check_volume (vv_bars v 10);
          spread = check_spread max_spread_bps c;
          cat = check_catalyst (vv_universe v) (cs_symbol c) (cs_setup_type c);
          reg = check_regime (vv_regime v) (cs_setup_type c);
          rs = (if htf then [] else [NO_HTF_ALIGNMENT]) @ (if vol then [] else [INSUFFICIENT_VOLUME]) @
               (if spread then [] else [SPREAD_TOO_WIDE]) @ (if cat then [] else [CATALYST_MISMATCH]) @
               (if reg then [] else [REGIME_CONTRADICTION])
      in (case review of
            Review_Not_Iterable \<Rightarrow> None
          | _ \<Rightarrow>
              let rs = merge_reasons rs (case review of Review_Reasons xs \<Rightarrow> xs | _ \<Rightarrow> [])
              in Some \<lparr>vs_signal_id = cs_signal_id c, vs_candidate = c,
                   vs_result = (if rs = [] then VR_PASS else VR_FAIL), vs_fail_reasons = rs,
                   vs_htf_aligned = htf, vs_volume_ok = vol, vs_spread_ok = spread,
                   vs_catalyst_consistent = cat, vs_regime_consistent = reg\<rparr>))"

fun count_reason :: "fail_reason \<Rightarrow> sva_stats \<Rightarrow> sva_stats" where
  "count_reason NO_HTF_ALIGNMENT s = s\<lparr>st_fail_htf_alignment := st_fail_htf_alignment s + 1\<rparr>"
| "count_reason INSUFFICIENT_VOLUME s = s\<lparr>st_fail_volume := st_fail_volume s + 1\<rparr>"
| "count_reason SPREAD_TOO_WIDE s = s\<lparr>st_fail_spread := st_fail_spread s + 1\<rparr>"
| "count_reason CATALYST_MISMATCH s = s\<lparr>st_fail_catalyst := st_fail_catalyst s + 1\<rparr>"
| "count_reason REGIME_CONTRADICTION s = s\<lparr>st_fail_regime := st_fail_regime s + 1\<rparr>"
| "count_reason _ s = s"

definition count_result :: "validated_signal \<Rightarrow> sva_stats \<Rightarrow> sva_stats" where
  "count_result v s =
     (if vs_result v = VR_PASS then s\<lparr>st_total_passed := st_total_passed s + 1\<rparr>
      else fold count_reason (vs_fail_reasons v) (s\<lparr>st_total_failed := st_total_failed s + 1\<rparr>))"

datatype sva_effect =
    Publish_Validated validated_signal
  | Audit_Validated validated_signal sva_stats

definition sva_process ::
  "pyfloat \<Rightarrow> validation_view \<Rightarrow> llm_review \<Rightarrow> candidate_signal option \<Rightarrow> sva_stats
   \<Rightarrow> sva_stats \<times> sva_effect list" where
  "sva_process max_spread_bps v review msg s =
     (case msg of
        None \<Rightarrow> (s, [])
      | Some c \<Rightarrow>
          let s = s\<lparr>st_total_received := st_total_received s + 1\<rparr> in
          (case validate_candidate max_spread_bps v review c of
             None \<Rightarrow> (s, [])
           | Some vs \<Rightarrow> let s = count_result vs s in (s, [Publish_Validated vs, Audit_Validated vs s])))"

datatype sva_event =
    Sva_Candidate validation_view llm_review "candidate_signal option"
  | Sva_Reset

fun sva_act :: "pyfloat \<Rightarrow> sva_stats \<Rightarrow> sva_event \<Rightarrow> sva_stats \<times> sva_effect list" where
  "sva_act m s (Sva_Candidate v review msg) = sva_process m v review msg s"
| "sva_act m s Sva_Reset = (reset_session_stats s, [])"

definition sva_step :: "pyfloat \<Rightarrow> sva_stats \<Rightarrow> sva_event \<Rightarrow> sva_stats" where
  "sva_step m s e = fst (sva_act m s e)"

definition sva_emits :: "pyfloat \<Rightarrow> sva_stats \<Rightarrow> sva_event \<Rightarrow> sva_effect list" where
  "sva_emits m s e = snd (sva_act m s e)"

section \<open>The model only adds reasons\<close>

lemma merge_reasons_Nil:
  "merge_reasons rs xs = [] \<longleftrightarrow>
     rs = [] \<and> list_all (\<lambda>x. parse_enum fail_reason_value all_fail_reasons x = None) xs"
  by (induction rs xs rule: merge_reasons.induct) (auto split: option.split)

definition five_checks :: "pyfloat \<Rightarrow> validation_view \<Rightarrow> candidate_signal \<Rightarrow> bool" where
  "five_checks m v c \<longleftrightarrow>
     check_htf_alignment (vv_bars v 5) (cs_direction c) \<and> check_volume (vv_bars v 10) \<and>
     check_spread m c \<and> check_catalyst (vv_universe v) (cs_symbol c) (cs_setup_type c) \<and>
     check_regime (vv_regime v) (cs_setup_type c)"

definition no_known_reason :: "llm_review \<Rightarrow> bool" where
  "no_known_reason review =
     (case review of
        Review_Unavailable \<Rightarrow> True
      | Review_Reasons xs \<Rightarrow> list_all (\<lambda>x. x \<notin> set (map fail_reason_value all_fail_reasons)) xs
      | Review_Not_Iterable \<Rightarrow> False)"

lemma parse_enum_None: "parse_enum val members x = None \<longleftrightarrow> x \<notin> set (map val members)"
  by (auto simp: parse_enum_def find_None_iff)

lemma validate_candidate_result:
  "(case validate_candidate m v review c of
      None \<Rightarrow> review = Review_Not_Iterable
    | Some vs \<Rightarrow> review \<noteq> Review_Not_Iterable \<and> vs_signal_id vs = cs_signal_id c \<and> vs_candidate vs = c \<and>
        (vs_result vs = VR_PASS \<longleftrightarrow> five_checks m v c \<and> no_known_reason review))"
  by (cases review) (auto simp: validate_candidate_def Let_def merge_reasons_Nil five_checks_def no_known_reason_def
      parse_enum_None)

text \<open>
  A candidate passes if and only if all five checks hold and the language model names none of the
  known reasons; without the model the checks alone decide. Only an answer whose reasons
  cannot be iterated yields no result.
\<close>

theorem pass_iff_checks_and_no_reason:
  "(case validate_candidate m v review c of
      None \<Rightarrow> review = Review_Not_Iterable
    | Some vs \<Rightarrow> vs_candidate vs = c \<and>
        (vs_result vs = VR_PASS) = (five_checks m v c \<and> no_known_reason review))"
  using validate_candidate_result [where m = m and v = v and review = review and c = c]
  by (simp split: option.splits)

section \<open>Statistics\<close>

lemma count_reason_totals [simp]:
  "st_total_received (count_reason r s) = st_total_received s"
  "st_total_passed (count_reason r s) = st_total_passed s"
  "st_total_failed (count_reason r s) = st_total_failed s"
  by (cases r; simp)+

lemma fold_count_reason_totals [simp]:
  "st_total_received (fold count_reason rs s) = st_total_received s"
  "st_total_passed (fold count_reason rs s) = st_total_passed s"
  "st_total_failed (fold count_reason rs s) = st_total_failed s"
  by (induction rs arbitrary: s) simp_all

lemma count_result_total:
  "st_total_received (count_result v s) = st_total_received s \<and>
   st_total_passed (count_result v s) + st_total_failed (count_result v s) =
     st_total_passed s + st_total_failed s + 1"
  by (simp add: count_result_def)

fun lost_candidates :: "sva_event list \<Rightarrow> nat" where
  "lost_candidates [] = 0"
| "lost_candidates (Sva_Candidate v Review_Not_Iterable (Some c) # es) = lost_candidates es + 1"
| "lost_candidates (Sva_Reset # es) = lost_candidates es"
| "lost_candidates (e # es) = lost_candidates es"

definition published_results :: "sva_effect list \<Rightarrow> validated_signal list" where
  "published_results out = concat (map (\<lambda>x. case x of Publish_Validated v \<Rightarrow> [v] | _ \<Rightarrow> []) out)"

lemma published_results_simps [simp]:
  "published_results [] = []"
  "published_results (Publish_Validated v # out) = v # published_results out"
  "published_results (Audit_Validated v s # out) = published_results out"
  "published_results (xs @ ys) = published_results xs @ published_results ys"
  by (simp_all add: published_results_def)

fun stat_of :: "fail_reason \<Rightarrow> sva_stats \<Rightarrow> nat" where
  "stat_of NO_HTF_ALIGNMENT s = st_fail_htf_alignment s"
| "stat_of INSUFFICIENT_VOLUME s = st_fail_volume s"
| "stat_of SPREAD_TOO_WIDE s = st_fail_spread s"
| "stat_of CATALYST_MISMATCH s = st_fail_catalyst s"
| "stat_of REGIME_CONTRADICTION s = st_fail_regime s"
| "stat_of _ s = 0"

definition counted :: "fail_reason \<Rightarrow> bool" where
  "counted r \<longleftrightarrow> r \<notin> set [EDGE_NOT_APPROVED, DATA_FEED_DIRTY]"

lemma stat_of_totals [simp]:
  "stat_of r (s\<lparr>st_total_received := n\<rparr>) = stat_of r s"
  "stat_of r (s\<lparr>st_total_passed := n\<rparr>) = stat_of r s"
  "stat_of r (s\<lparr>st_total_failed := n\<rparr>) = stat_of r s"
  by (cases r; simp)+

lemma stat_of_count: "stat_of r (count_reason q s) = stat_of r s + (if q = r \<and> counted r then 1 else 0)"
  by (cases r; cases q) (simp_all add: counted_def)

lemma stat_of_fold:
  "distinct rs \<Longrightarrow> stat_of r (fold count_reason rs s) = stat_of r s + (if r \<in> set rs \<and> counted r then 1 else 0)"
  by (induction rs arbitrary: s) (auto simp: stat_of_count)

lemma merge_reasons_distinct: "distinct rs \<Longrightarrow> distinct (merge_reasons rs xs)"
  by (induction rs xs rule: merge_reasons.induct) (auto split: option.split)

lemma validated_reasons:
  assumes "validate_candidate m v review c = Some vs"
  shows "distinct (vs_fail_reasons vs) \<and> (vs_result vs = VR_PASS \<longleftrightarrow> vs_fail_reasons vs = [])"
proof -
  define rs where "rs = (if check_htf_alignment (vv_bars v 5) (cs_direction c) then [] else [NO_HTF_ALIGNMENT]) @
    (if check_volume (vv_bars v 10) then [] else [INSUFFICIENT_VOLUME]) @
    (if check_spread m c then [] else [SPREAD_TOO_WIDE]) @
    (if check_catalyst (vv_universe v) (cs_symbol c) (cs_setup_type c) then [] else [CATALYST_MISMATCH]) @
    (if check_regime (vv_regime v) (cs_setup_type c) then [] else [REGIME_CONTRADICTION])"
  have "distinct rs" by (simp add: rs_def)
  with merge_reasons_distinct [OF this] show ?thesis
    using assms unfolding validate_candidate_def Let_def rs_def [symmetric]
    by (auto split: llm_review.splits if_splits)
qed

definition stats_match :: "validated_signal list \<Rightarrow> sva_stats \<Rightarrow> bool" where
  "stats_match vs s \<longleftrightarrow>
     st_total_passed s = length (filter (\<lambda>v. vs_result v = VR_PASS) vs) \<and>
     st_total_failed s = length (filter (\<lambda>v. vs_result v = VR_FAIL) vs) \<and>
     length vs \<le> st_total_received s \<and>
     (\<forall>r. stat_of r s = (if counted r then length (filter (\<lambda>v. r \<in> set (vs_fail_reasons v)) vs) else 0))"

lemma stats_match_count:
  assumes "stats_match vs s" and "distinct (vs_fail_reasons v)"
    and "vs_result v = VR_PASS \<longleftrightarrow> vs_fail_reasons v = []"
  shows "stats_match (vs @ [v]) (count_result v (s\<lparr>st_total_received := Suc (st_total_received s)\<rparr>))"
proof (cases "vs_result v")
  case VR_PASS
  with assms show ?thesis by (simp add: stats_match_def count_result_def)
next
  case VR_FAIL
  then show ?thesis
    using assms by (simp add: stats_match_def count_result_def stat_of_fold)
qed

lemma stats_match_step:
  assumes "stats_match vs s" and "e \<noteq> Sva_Reset"
  shows "stats_match (vs @ published_results (sva_emits m s e)) (sva_step m s e)"
proof (cases e)
  case (Sva_Candidate v review msg)
  show ?thesis
  proof (cases msg)
    case None
    with assms Sva_Candidate show ?thesis by (simp add: sva_emits_def sva_step_def sva_process_def)
  next
    case (Some c)
    show ?thesis
    proof (cases "validate_candidate m v review c")
      case None
      with assms Some Sva_Candidate show ?thesis
        by (simp add: sva_emits_def sva_step_def sva_process_def stats_match_def)
    next
      case (Some x)
      with assms \<open>msg = Some c\<close> Sva_Candidate validated_reasons [OF Some] show ?thesis
        by (simp add: sva_emits_def sva_step_def sva_process_def Let_def stats_match_count)
    qed
  qed
qed (use assms in simp)

text \<open>
  Over a session the statistics count what was published_results: the passes, the failures, and for
  each of the five checks the results that name its reason, whether the rule or the model found it.
\<close>

theorem statistics_count_published:
  fixes es :: "sva_event list" and m :: pyfloat
  defines "vs \<equiv> published_results (run_out (sva_step m) (sva_emits m) sva_stats_init es)"
    and "s \<equiv> foldl (sva_step m) sva_stats_init es"
  assumes "Sva_Reset \<notin> set es"
  shows "st_total_passed s = length (filter (\<lambda>v. vs_result v = VR_PASS) vs)"
    and "st_total_failed s = length (filter (\<lambda>v. vs_result v = VR_FAIL) vs)"
    and "length vs \<le> st_total_received s"
    and "stat_of r s = (if counted r then length (filter (\<lambda>v. r \<in> set (vs_fail_reasons v)) vs) else 0)"
proof -
  have "stats_match (published_results (run_out (sva_step m) (sva_emits m) sva_stats_init es)) (foldl (sva_step m) sva_stats_init es)"
    using assms(3)
  proof (induction es rule: rev_induct)
    case Nil
    have "stat_of r sva_stats_init = 0" for r by (cases r) (simp_all add: sva_stats_init_def)
    then show ?case by (simp add: stats_match_def) (simp add: sva_stats_init_def)
  next
    case (snoc e es)
    then have "stats_match (published_results (run_out (sva_step m) (sva_emits m) sva_stats_init es)) (foldl (sva_step m) sva_stats_init es)"
        and "e \<noteq> Sva_Reset"
      by auto
    from stats_match_step [OF this, of m] show ?case by (simp add: run_out_append)
  qed
  then show "st_total_passed s = length (filter (\<lambda>v. vs_result v = VR_PASS) vs)"
    and "st_total_failed s = length (filter (\<lambda>v. vs_result v = VR_FAIL) vs)"
    and "length vs \<le> st_total_received s"
    and "stat_of r s = (if counted r then length (filter (\<lambda>v. r \<in> set (vs_fail_reasons v)) vs) else 0)"
    by (simp_all add: stats_match_def vs_def s_def)
qed

definition demo_validation_view :: validation_view where
  "demo_validation_view = \<lparr>vv_bars = (\<lambda>n. replicate 5 demo_bar @ [demo_bar\<lparr>bd_close := 101, bd_volume := 50000\<rparr>]),
     vv_universe = None, vv_regime = Some demo_regime\<rparr>"

theorem statistics_count_published_witness:
  "st_total_failed (foldl (sva_step 20) sva_stats_init
     [Sva_Candidate demo_validation_view (Review_Reasons [''spread_too_wide'']) None]) = 0"
  using statistics_count_published(2) [of "[Sva_Candidate demo_validation_view (Review_Reasons [''spread_too_wide'']) None]" 20]
  by (simp add: sva_emits_def sva_process_def)

section \<open>From the scan to the risk gate\<close>

text \<open>The message the risk gate parses from a published_results result.\<close>

definition gate_message :: "validated_signal \<Rightarrow> string \<times> symbol \<times> validation_result" where
  "gate_message vs = (vs_signal_id vs, cs_symbol (vs_candidate vs), vs_result vs)"

text \<open>
  C12. What the risk gate approves has passed every stage before it: the candidate came out of the scan
  with an allowed setup, a spread under the limit and a target twice as far as the stop, all five
  checks of the validation held, and no rule of the gate failed.
\<close>

theorem approved_signal_passed_all_stages:
  fixes es :: "misa_event list" and cf :: misa_config
  defines "s \<equiv> foldl (misa_step cf) misa_init es"
  assumes "Publish_Candidate c \<in> set (misa_emits cf s e)"
    and "Publish_Validated vs \<in> set (snd (sva_process m v review (Some c) stats))"
    and "list_ex approves (snd (handle_validated_signal tcf env now pn (Some (gate_message vs)) gate))"
  shows "candidate_allowed s c \<and> 2 \<le> candidate_risk_reward c \<and> five_checks m v c \<and>
    vs_candidate vs = c \<and> first_failing (rule_table tcf env now pn (cs_symbol c) gate) = None"
proof -
  have inv: "misa_inv cf s" unfolding s_def by (rule misa.run_inv) (simp add: misa_inv_def misa_init_def)
  have "validate_candidate m v review c = Some vs"
    using assms(3) by (auto simp: sva_process_def Let_def split: option.splits)
  with validate_candidate_result [where m = m and v = v and review = review and c = c]
  have vs: "vs_candidate vs = c" "vs_result vs = VR_PASS \<longleftrightarrow> five_checks m v c \<and> no_known_reason review"
    by simp_all
  from assms(4) obtain x where "x \<in> set (snd (handle_validated_signal tcf env now pn (Some (gate_message vs)) gate))"
      "approves x"
    by (auto simp: list_ex_iff)
  from signal_approves [OF this]
  have "vs_result vs = VR_PASS" "first_failing (rule_table tcf env now pn (cs_symbol c) gate) = None"
    by (auto simp: gate_message_def vs(1))
  with vs emitted_candidate [OF inv assms(2)] show ?thesis by simp
qed

definition demo_free_gate :: tera_env where
  "demo_free_gate = \<lparr>te_equity = 30000, te_positions = [], te_universe = None, te_wash_sale = (\<lambda>sy. None)\<rparr>"

lemma demo_gate_open: "snd (evaluate_all_rules tera_defaults demo_free_gate 5 5 ''SPY'' tera_init) = None"
  by (simp add: evaluate_all_rules_def demo_free_gate_def tera_init_def tera_defaults_def active_until_def
      prune_loss_timestamps_def velocity_total_def symbol_exposure_def get_symbol_sector_def get_symbol_theme_def
      lookup_symbol_def truthy_def pdt_minimum_equity_def Let_def)

definition demo_validated :: validated_signal where
  "demo_validated = \<lparr>vs_signal_id = ''u1'', vs_candidate = misa_candidate 99 102, vs_result = VR_PASS,
     vs_fail_reasons = [], vs_htf_aligned = True, vs_volume_ok = True, vs_spread_ok = True,
     vs_catalyst_consistent = True, vs_regime_consistent = True\<rparr>"

lemma demo_validates:
  "validate_candidate 20 demo_validation_view Review_Unavailable (misa_candidate 99 102) = Some demo_validated"
  by (simp add: validate_candidate_def demo_validation_view_def misa_candidate_def demo_validated_def
      check_htf_alignment_def check_volume_def check_spread_def check_catalyst_def check_regime_def mean_int_def
      demo_bar_def demo_regime_def demo_spread eval_nat_numeral)

theorem approved_signal_passed_all_stages_witness:
  "five_checks 20 demo_validation_view (misa_candidate 99 102) \<and>
   first_failing (rule_table tera_defaults demo_free_gate 5 5 ''SPY'' tera_init) = None"
proof -
  have 1: "Publish_Candidate (misa_candidate 99 102) \<in> set (misa_emits misa_defaults
      (foldl (misa_step misa_defaults) misa_init demo_scan)
      (Misa_Answer demo_scan_view ''u1'' (demo_answer 99 102)))"
    by (rule demo_scan_emits)
  have 2: "Publish_Validated demo_validated \<in> set (snd (sva_process 20 demo_validation_view Review_Unavailable
      (Some (misa_candidate 99 102)) sva_stats_init))"
    by (simp add: sva_process_def demo_validates Let_def)
  have 3: "list_ex approves (snd (handle_validated_signal tera_defaults demo_free_gate 5 5
      (Some (gate_message demo_validated)) tera_init))"
    using demo_gate_open
    by (simp add: handle_validated_signal_def gate_message_def demo_validated_def misa_candidate_def
        case_prod_unfold approves_def)
  show ?thesis
    using approved_signal_passed_all_stages [OF 1 2 3] by (simp add: misa_candidate_def)
qed

end
