(* ===== verification/Prime_Broker.thy ===== *)
theory Prime_Broker
  imports Enums
begin

text \<open>
  The prime brokers of \<open>infrastructure/prime_broker.py\<close>: the book of positions over all brokers, the
  choice of a venue by cost, the allocation of a trade, the credit lines, and the choice of
  a broker. A dictionary is an association list in its order; prices are a partial function. The
  texts of the rationales are a datatype with the numbers they show.
\<close>

section \<open>Enumerations\<close>

datatype asset_class = AC_EQUITY | AC_FX | AC_FUTURES | AC_OPTIONS | AC_FIXED_INCOME | AC_CRYPTO

datatype prime_broker = GOLDMAN_SACHS | MORGAN_STANLEY | JP_MORGAN | INTERACTIVE_BROKERS | ALPACA

datatype margin_type = REG_T | PORTFOLIO_MARGIN | CROSS_MARGIN | INTRADAY

section \<open>Positions\<close>

record prime_position =
  pb_symbol :: symbol
  pb_broker :: prime_broker
  pb_account :: string
  pb_qty :: pyfloat
  pb_avg_cost :: pyfloat
  pb_asset_class :: asset_class
  pb_currency :: string

definition pb_direction :: "prime_position \<Rightarrow> direction" where
  "pb_direction p = (if 0 \<le> pb_qty p then LONG else SHORT)"

definition pb_market_value :: "prime_position \<Rightarrow> pyfloat" where
  "pb_market_value p = 0"

definition pb_cost_basis :: "prime_position \<Rightarrow> pyfloat" where
  "pb_cost_basis p = pb_qty p * pb_avg_cost p"

record cross_margin_book =
  cb_positions :: "prime_position list"
  cb_margin_type :: margin_type

definition net_position :: "symbol \<Rightarrow> cross_margin_book \<Rightarrow> pyfloat" where
  "net_position sy b = sum_list (map pb_qty (filter (\<lambda>p. pb_symbol p = sy) (cb_positions b)))"

definition price_of :: "(symbol \<rightharpoonup> pyfloat) \<Rightarrow> prime_position \<Rightarrow> pyfloat" where
  "price_of prices p = (case prices (pb_symbol p) of None \<Rightarrow> pb_avg_cost p | Some x \<Rightarrow> x)"

definition gross_exposure :: "(symbol \<rightharpoonup> pyfloat) \<Rightarrow> cross_margin_book \<Rightarrow> pyfloat" where
  "gross_exposure prices b = sum_list (map (\<lambda>p. \<bar>pb_qty p\<bar> * price_of prices p) (cb_positions b))"

definition net_exposure :: "(symbol \<rightharpoonup> pyfloat) \<Rightarrow> cross_margin_book \<Rightarrow> pyfloat" where
  "net_exposure prices b =
     (let long_val = sum_list (map (\<lambda>p. pb_qty p * price_of prices p)
            (filter (\<lambda>p. 0 < pb_qty p) (cb_positions b)));
          short_val = sum_list (map (\<lambda>p. \<bar>pb_qty p\<bar> * price_of prices p)
            (filter (\<lambda>p. pb_qty p < 0) (cb_positions b)))
      in long_val - short_val)"

definition margin_requirement :: "(symbol \<rightharpoonup> pyfloat) \<Rightarrow> pyfloat \<Rightarrow> cross_margin_book \<Rightarrow> pyfloat" where
  "margin_requirement prices initial_margin_rate b =
     max (gross_exposure prices b * initial_margin_rate) (\<bar>net_exposure prices b\<bar> * (1 / 2))"

definition same_account :: "prime_position \<Rightarrow> prime_position \<Rightarrow> bool" where
  "same_account p q \<longleftrightarrow> pb_symbol p = pb_symbol q \<and> pb_broker p = pb_broker q \<and> pb_account p = pb_account q"

text \<open>A position that nets to nothing keeps its average cost.\<close>

definition merge_position :: "prime_position \<Rightarrow> prime_position \<Rightarrow> prime_position" where
  "merge_position q p =
     (let total_qty = pb_qty p + pb_qty q;
          p = (if total_qty \<noteq> 0
               then p\<lparr>pb_avg_cost := (pb_cost_basis p + pb_cost_basis q) / total_qty\<rparr> else p)
      in p\<lparr>pb_qty := total_qty\<rparr>)"

fun add_to_positions :: "prime_position \<Rightarrow> prime_position list \<Rightarrow> prime_position list" where
  "add_to_positions q [] = [q]"
| "add_to_positions q (p # ps) =
     (if same_account p q then merge_position q p # ps else p # add_to_positions q ps)"

definition add_position :: "prime_position \<Rightarrow> cross_margin_book \<Rightarrow> cross_margin_book" where
  "add_position q b = b\<lparr>cb_positions := add_to_positions q (cb_positions b)\<rparr>"

definition flatten_symbol :: "symbol \<Rightarrow> cross_margin_book \<Rightarrow> cross_margin_book" where
  "flatten_symbol sy b = b\<lparr>cb_positions := filter (\<lambda>p. pb_symbol p \<noteq> sy) (cb_positions b)\<rparr>"

definition book_symbols :: "cross_margin_book \<Rightarrow> symbol list" where
  "book_symbols b = remdups (map pb_symbol (cb_positions b))"

definition by_broker :: "prime_broker \<Rightarrow> cross_margin_book \<Rightarrow> prime_position list" where
  "by_broker br b = filter (\<lambda>p. pb_broker p = br) (cb_positions b)"

section \<open>Venue by cost\<close>

record venue_cost =
  vc_venue :: order_venue
  vc_maker_rebate_bps :: pyfloat
  vc_taker_fee_bps :: pyfloat
  vc_exchange_fee_bps :: pyfloat
  vc_latency_us :: pyfloat

definition total_taker_cost_bps :: "venue_cost \<Rightarrow> pyfloat" where
  "total_taker_cost_bps c = vc_taker_fee_bps c + vc_exchange_fee_bps c"

definition total_maker_cost_bps :: "venue_cost \<Rightarrow> pyfloat" where
  "total_maker_cost_bps c = vc_maker_rebate_bps c + vc_exchange_fee_bps c"

definition venue_costs :: "venue_cost list" where
  "venue_costs =
     [\<lparr>vc_venue = V_IEX, vc_maker_rebate_bps = 0, vc_taker_fee_bps = 9 / 10, vc_exchange_fee_bps = 0,
        vc_latency_us = 35\<rparr>,
      \<lparr>vc_venue = V_NASDAQ, vc_maker_rebate_bps = -2, vc_taker_fee_bps = 3, vc_exchange_fee_bps = 1 / 10,
        vc_latency_us = 2\<rparr>,
      \<lparr>vc_venue = V_NYSE, vc_maker_rebate_bps = -3 / 2, vc_taker_fee_bps = 28 / 10,
        vc_exchange_fee_bps = 8 / 100, vc_latency_us = 3\<rparr>,
      \<lparr>vc_venue = V_BATS, vc_maker_rebate_bps = -32 / 10, vc_taker_fee_bps = 27 / 10,
        vc_exchange_fee_bps = 5 / 100, vc_latency_us = 3 / 2\<rparr>,
      \<lparr>vc_venue = V_DARK_POOL, vc_maker_rebate_bps = 0, vc_taker_fee_bps = 1, vc_exchange_fee_bps = 0,
        vc_latency_us = 50\<rparr>,
      \<lparr>vc_venue = V_DIRECT_DMA, vc_maker_rebate_bps = -5 / 2, vc_taker_fee_bps = 5 / 2,
        vc_exchange_fee_bps = 7 / 100, vc_latency_us = 1 / 2\<rparr>]"

datatype rationale =
    No_Venues | Lowest_Latency pyfloat | Dark_For_Block | Lowest_Cost bool pyfloat

record cost_decision =
  rd_venue :: order_venue
  rd_is_maker :: bool
  rd_estimated_cost_bps :: pyfloat
  rd_rationale :: rationale

definition side_cost :: "bool \<Rightarrow> venue_cost \<Rightarrow> pyfloat" where
  "side_cost aggressive c = (if aggressive then total_taker_cost_bps c else total_maker_cost_bps c)"

text \<open>\<open>min\<close> with a key takes the first of the smallest, as \<open>arg_min_list\<close> does.\<close>

definition route_order :: "pyfloat \<Rightarrow> bool \<Rightarrow> string \<Rightarrow> order_venue list \<Rightarrow> cost_decision" where
  "route_order qty aggressive urgency exclude =
     (let available = filter (\<lambda>c. vc_venue c \<notin> set exclude) venue_costs in
      if available = []
      then \<lparr>rd_venue = V_NASDAQ, rd_is_maker = \<not> aggressive, rd_estimated_cost_bps = 3,
             rd_rationale = No_Venues\<rparr>
      else if urgency = ''urgent''
      then
        let best = arg_min_list vc_latency_us available
        in \<lparr>rd_venue = vc_venue best, rd_is_maker = \<not> aggressive,
             rd_estimated_cost_bps = side_cost aggressive best,
             rd_rationale = Lowest_Latency (vc_latency_us best)\<rparr>
      else
        let dark = find (\<lambda>c. vc_venue c = V_DARK_POOL) available;
            best = arg_min_list (side_cost aggressive) available;
            lowest = \<lparr>rd_venue = vc_venue best, rd_is_maker = \<not> aggressive,
              rd_estimated_cost_bps = side_cost aggressive best,
              rd_rationale = Lowest_Cost aggressive (side_cost aggressive best)\<rparr>
        in if urgency = ''stealth'' \<and> 5000 < qty
           then (case dark of
               None \<Rightarrow> lowest
             | Some dp \<Rightarrow> \<lparr>rd_venue = V_DARK_POOL, rd_is_maker = True,
                 rd_estimated_cost_bps = total_maker_cost_bps dp, rd_rationale = Dark_For_Block\<rparr>)
           else lowest)"

section \<open>Allocations\<close>

record allocation =
  an_account :: string
  an_qty :: pyfloat
  an_percent :: pyfloat

record allocation_report =
  at_exec_broker :: prime_broker
  at_symbol :: symbol
  at_total_qty :: pyfloat
  at_avg_price :: pyfloat
  at_trade_date :: string
  at_allocations :: "allocation list"

definition add_allocation :: "string \<Rightarrow> pyfloat \<Rightarrow> allocation_report \<Rightarrow> allocation_report" where
  "add_allocation account qty r =
     (let pct = (if at_total_qty r \<noteq> 0 then qty / at_total_qty r * 100 else 0)
      in r\<lparr>at_allocations := at_allocations r @ [\<lparr>an_account = account, an_qty = qty, an_percent = pct\<rparr>]\<rparr>)"

definition validate_allocation :: "allocation_report \<Rightarrow> bool" where
  "validate_allocation r \<longleftrightarrow> \<bar>sum_list (map an_qty (at_allocations r)) - at_total_qty r\<bar> < 1 / 100"

section \<open>Credit lines\<close>

record credit_line =
  cl_limit_usd :: pyfloat
  cl_used_usd :: pyfloat
  cl_warning_threshold :: pyfloat
  cl_hard_limit :: pyfloat

definition available_usd :: "credit_line \<Rightarrow> pyfloat" where
  "available_usd l = cl_limit_usd l - cl_used_usd l"

definition utilisation :: "credit_line \<Rightarrow> pyfloat" where
  "utilisation l = (if 0 < cl_limit_usd l then cl_used_usd l / cl_limit_usd l else 0)"

definition is_warning :: "credit_line \<Rightarrow> bool" where
  "is_warning l \<longleftrightarrow> cl_warning_threshold l \<le> utilisation l"

definition is_hard_limited :: "credit_line \<Rightarrow> bool" where
  "is_hard_limited l \<longleftrightarrow> cl_hard_limit l \<le> utilisation l"

definition consume :: "pyfloat \<Rightarrow> credit_line \<Rightarrow> credit_line \<times> bool" where
  "consume amount l =
     (if is_hard_limited l then (l, False)
      else if cl_limit_usd l * cl_hard_limit l < cl_used_usd l + amount then (l, False)
      else (l\<lparr>cl_used_usd := cl_used_usd l + amount\<rparr>, True))"

definition release :: "pyfloat \<Rightarrow> credit_line \<Rightarrow> credit_line" where
  "release amount l = l\<lparr>cl_used_usd := max 0 (cl_used_usd l - amount)\<rparr>"

section \<open>The router\<close>

record broker_router =
  br_credit_lines :: "(prime_broker \<times> credit_line) list"
  br_preferred :: prime_broker
  br_book :: cross_margin_book

definition has_capacity :: "pyfloat \<Rightarrow> credit_line \<Rightarrow> bool" where
  "has_capacity notional l \<longleftrightarrow> \<not> is_hard_limited l \<and> notional \<le> available_usd l"

definition has_line :: "pyfloat \<Rightarrow> broker_router \<Rightarrow> prime_broker \<Rightarrow> bool" where
  "has_line notional r b =
     (case map_of (br_credit_lines r) b of None \<Rightarrow> False | Some l \<Rightarrow> has_capacity notional l)"

definition select_broker :: "pyfloat \<Rightarrow> prime_broker option \<Rightarrow> broker_router \<Rightarrow> prime_broker option" where
  "select_broker notional preferred r =
     (let candidate = (case preferred of None \<Rightarrow> br_preferred r | Some b \<Rightarrow> b) in
      case find (has_line notional r) [candidate, br_preferred r] of
        Some b \<Rightarrow> Some b
      | None \<Rightarrow> map_option fst (find (\<lambda>(b, l). has_capacity notional l) (br_credit_lines r)))"

definition consume_credit :: "prime_broker \<Rightarrow> pyfloat \<Rightarrow> broker_router \<Rightarrow> broker_router \<times> bool" where
  "consume_credit b notional r =
     (case map_of (br_credit_lines r) b of
        None \<Rightarrow> (r, False)
      | Some l \<Rightarrow>
          let (l, ok) = consume notional l
          in (r\<lparr>br_credit_lines := AList.update b l (br_credit_lines r)\<rparr>, ok))"

definition release_credit :: "prime_broker \<Rightarrow> pyfloat \<Rightarrow> broker_router \<Rightarrow> broker_router" where
  "release_credit b notional r =
     (case map_of (br_credit_lines r) b of
        None \<Rightarrow> r
      | Some l \<Rightarrow> r\<lparr>br_credit_lines := AList.update b (release notional l) (br_credit_lines r)\<rparr>)"

record credit_row =
  cr_broker :: prime_broker
  cr_limit_usd :: pyfloat
  cr_used_usd :: pyfloat
  cr_available_usd :: pyfloat
  cr_utilisation_pct :: pyfloat
  cr_is_warning :: bool
  cr_is_hard_limited :: bool

definition credit_summary :: "broker_router \<Rightarrow> credit_row list" where
  "credit_summary r =
     map (\<lambda>(b, l). \<lparr>cr_broker = b, cr_limit_usd = cl_limit_usd l, cr_used_usd = cl_used_usd l,
       cr_available_usd = available_usd l, cr_utilisation_pct = utilisation l * 100,
       cr_is_warning = is_warning l, cr_is_hard_limited = is_hard_limited l\<rparr>) (br_credit_lines r)"

section \<open>The book\<close>

lemma net_position_add:
  "net_position sy (add_position q b) = net_position sy b + (if pb_symbol q = sy then pb_qty q else 0)"
proof -
  have "sum_list (map pb_qty (filter (\<lambda>p. pb_symbol p = sy) (add_to_positions q ps))) =
      sum_list (map pb_qty (filter (\<lambda>p. pb_symbol p = sy) ps)) + (if pb_symbol q = sy then pb_qty q else 0)" for ps
    by (induction q ps rule: add_to_positions.induct) (auto simp: merge_position_def same_account_def Let_def)
  then show ?thesis by (simp add: net_position_def add_position_def)
qed

text \<open>
  The cost basis of the book is kept by a merge, except that a position which nets to nothing
  has none left: the profit is not booked anywhere.
\<close>

lemma merge_cost_basis:
  "pb_cost_basis (merge_position q p) =
     (if pb_qty p + pb_qty q = 0 then 0 else pb_cost_basis p + pb_cost_basis q)"
  by (simp add: merge_position_def pb_cost_basis_def Let_def)

lemma net_exposure_sum:
  "net_exposure prices b = sum_list (map (\<lambda>p. pb_qty p * price_of prices p) (cb_positions b))"
proof -
  have "sum_list (map (\<lambda>p. pb_qty p * price_of prices p) (filter (\<lambda>p. 0 < pb_qty p) ps)) -
      sum_list (map (\<lambda>p. \<bar>pb_qty p\<bar> * price_of prices p) (filter (\<lambda>p. pb_qty p < 0) ps)) =
      sum_list (map (\<lambda>p. pb_qty p * price_of prices p) ps)" for ps
    by (induction ps) (auto simp: abs_if)
  then show ?thesis by (simp add: net_exposure_def)
qed

lemma net_exposure_le_gross:
  assumes "list_all (\<lambda>p. 0 \<le> price_of prices p) (cb_positions b)"
  shows "\<bar>net_exposure prices b\<bar> \<le> gross_exposure prices b"
proof -
  have "\<bar>sum_list (map (\<lambda>p. pb_qty p * price_of prices p) ps)\<bar> \<le>
      sum_list (map (\<lambda>p. \<bar>pb_qty p\<bar> * price_of prices p) ps)"
    if "list_all (\<lambda>p. 0 \<le> price_of prices p) ps" for ps
    using that
  proof (induction ps)
    case (Cons p ps)
    then have "\<bar>pb_qty p * price_of prices p\<bar> = \<bar>pb_qty p\<bar> * price_of prices p" by (simp add: abs_mult)
    with Cons show ?case by simp
  qed simp
  with assms show ?thesis by (simp add: net_exposure_sum gross_exposure_def)
qed

text \<open>
  Whatever is added, the net position of a symbol over all brokers is the sum of what was added;
  and with prices that are not negative the margin of the book is between a tenth and a half of its
  gross exposure.
\<close>

theorem book_nets_and_margin_bounds:
  fixes qs :: "prime_position list" and b :: cross_margin_book
  defines "b' \<equiv> fold add_position qs b"
  assumes "list_all (\<lambda>p. 0 \<le> price_of prices p) (cb_positions b')"
  shows "net_position sy b' =
      net_position sy b + sum_list (map pb_qty (filter (\<lambda>q. pb_symbol q = sy) qs))"
    and "gross_exposure prices b' / 10 \<le> margin_requirement prices (1 / 10) b'"
    and "margin_requirement prices (1 / 10) b' \<le> gross_exposure prices b' / 2"
proof -
  show "net_position sy b' = net_position sy b + sum_list (map pb_qty (filter (\<lambda>q. pb_symbol q = sy) qs))"
    unfolding b'_def by (induction qs arbitrary: b) (simp_all add: net_position_add)
  have "\<bar>net_exposure prices b'\<bar> \<le> gross_exposure prices b'" by (rule net_exposure_le_gross) fact
  moreover from this have "0 \<le> gross_exposure prices b'" by linarith
  ultimately show "gross_exposure prices b' / 10 \<le> margin_requirement prices (1 / 10) b'"
      "margin_requirement prices (1 / 10) b' \<le> gross_exposure prices b' / 2"
    by (simp_all add: margin_requirement_def)
qed

definition demo_holding :: "prime_broker \<Rightarrow> pyfloat \<Rightarrow> pyfloat \<Rightarrow> prime_position" where
  "demo_holding br q c = \<lparr>pb_symbol = ''SPY'', pb_broker = br, pb_account = ''main'', pb_qty = q,
     pb_avg_cost = c, pb_asset_class = AC_EQUITY, pb_currency = ''USD''\<rparr>"

definition empty_book :: cross_margin_book where
  "empty_book = \<lparr>cb_positions = [], cb_margin_type = PORTFOLIO_MARGIN\<rparr>"

theorem book_nets_and_margin_bounds_witness:
  "net_position ''SPY'' (fold add_position
     [demo_holding ALPACA 100 10, demo_holding JP_MORGAN (-40) 20, demo_holding ALPACA 60 30] empty_book) = 120"
  using book_nets_and_margin_bounds(1) [where prices = "\<lambda>sy. Some 10" and b = empty_book and sy = "''SPY''"
    and qs = "[demo_holding ALPACA 100 10, demo_holding JP_MORGAN (-40) 20, demo_holding ALPACA 60 30]"]
  by (simp add: price_of_def list_all_iff) (simp add: demo_holding_def empty_book_def net_position_def)

section \<open>The venue\<close>

lemma find_SomeD: "find P xs = Some x \<Longrightarrow> x \<in> set xs \<and> P x"
  by (auto simp: find_Some_iff)

lemma arg_min_list_le: "xs \<noteq> [] \<Longrightarrow> x \<in> set xs \<Longrightarrow> f (arg_min_list f xs) \<le> f x"
  for f :: "'a \<Rightarrow> 'b :: linorder"
  by (simp add: f_arg_min_list_f)

lemma all_venues_excluded:
  "filter (\<lambda>c. vc_venue c \<notin> set exclude) venue_costs = [] \<longleftrightarrow> vc_venue ` set venue_costs \<subseteq> set exclude"
  by (auto simp: filter_empty_conv)

text \<open>
  Unless every venue is excluded, the router takes one that is not: the fastest for an urgent order,
  the dark pool for a large stealth order where it is allowed, and otherwise one that is at most as
  expensive, on the side of the order, as every venue allowed.
\<close>

theorem route_is_best_allowed:
  fixes exclude :: "order_venue list" and qty :: pyfloat and aggressive :: bool and urgency :: string
  defines "r \<equiv> route_order qty aggressive urgency exclude"
  assumes "c \<in> set venue_costs" and "vc_venue c \<notin> set exclude"
  shows "\<exists>best\<in>set venue_costs. vc_venue best \<notin> set exclude \<and> rd_venue r = vc_venue best \<and>
    (if urgency = ''urgent'' then vc_latency_us best \<le> vc_latency_us c
     else if urgency = ''stealth'' \<and> 5000 < qty \<and> V_DARK_POOL \<notin> set exclude then vc_venue best = V_DARK_POOL
     else rd_estimated_cost_bps r = side_cost aggressive best \<and>
       side_cost aggressive best \<le> side_cost aggressive c)"
proof -
  let ?av = "filter (\<lambda>c. vc_venue c \<notin> set exclude) venue_costs"
  have c: "c \<in> set ?av" using assms(2,3) by simp
  then have ne: "?av \<noteq> []" by (metis empty_iff empty_set)
  have best: "arg_min_list f ?av \<in> set venue_costs" "vc_venue (arg_min_list f ?av) \<notin> set exclude"
      "f (arg_min_list f ?av) \<le> f c" for f :: "venue_cost \<Rightarrow> pyfloat"
    using arg_min_list_in [OF ne, of f] arg_min_list_le [OF ne c, of f] by auto
  show ?thesis
  proof (cases "urgency = ''urgent''")
    case True
    with ne best [of vc_latency_us] show ?thesis
      by (intro bexI [of _ "arg_min_list vc_latency_us ?av"]) (simp_all add: r_def route_order_def Let_def)
  next
    case normal: False
    show ?thesis
    proof (cases "urgency = ''stealth'' \<and> 5000 < qty \<and> V_DARK_POOL \<notin> set exclude")
      case True
      have "V_DARK_POOL \<in> vc_venue ` set venue_costs" by (simp add: venue_costs_def)
      with True have "find (\<lambda>c. vc_venue c = V_DARK_POOL) ?av \<noteq> None" by (auto simp: find_None_iff)
      then obtain dp where dp: "find (\<lambda>c. vc_venue c = V_DARK_POOL) ?av = Some dp" by auto
      then have "dp \<in> set ?av" "vc_venue dp = V_DARK_POOL" by (blast dest: find_SomeD)+
      with True normal ne dp show ?thesis
        by (intro bexI [of _ dp]) (auto simp: r_def route_order_def Let_def)
    next
      case False
      have "find (\<lambda>c. vc_venue c = V_DARK_POOL) ?av = None" if "V_DARK_POOL \<in> set exclude"
        using that by (auto simp: find_None_iff)
      with False normal ne best [of "side_cost aggressive"] show ?thesis
        by (intro bexI [of _ "arg_min_list (side_cost aggressive) ?av"])
           (auto simp: r_def route_order_def Let_def)
    qed
  qed
qed

theorem route_is_best_allowed_witness:
  "\<exists>best\<in>set venue_costs. vc_venue best \<notin> set [V_IEX] \<and>
    rd_venue (route_order 100 True ''normal'' [V_IEX]) = vc_venue best \<and>
    rd_estimated_cost_bps (route_order 100 True ''normal'' [V_IEX]) = side_cost True best \<and>
    side_cost True best \<le> 1"
  using route_is_best_allowed [where c = "venue_costs ! 4" and exclude = "[V_IEX]" and qty = 100
      and aggressive = True and urgency = "''normal''"]
  by (simp add: venue_costs_def side_cost_def total_taker_cost_bps_def)

lemma excluded_fallback:
  "rd_venue (route_order qty aggressive urgency (map vc_venue venue_costs)) = V_NASDAQ"
  by (simp add: route_order_def Let_def)

section \<open>Allocation\<close>

lemma allocation_percent:
  assumes "at_allocations r = []" and "at_total_qty r \<noteq> 0"
  shows "sum_list (map an_percent (at_allocations (fold (\<lambda>(a, q). add_allocation a q) xs r))) =
    sum_list (map snd xs) / at_total_qty r * 100"
proof -
  have "sum_list (map an_percent (at_allocations (fold (\<lambda>(a, q). add_allocation a q) xs r))) =
      sum_list (map an_percent (at_allocations r)) + sum_list (map snd xs) / at_total_qty r * 100 \<and>
    at_total_qty (fold (\<lambda>(a, q). add_allocation a q) xs r) = at_total_qty r" if "at_total_qty r \<noteq> 0" for r
    using that
  proof (induction xs arbitrary: r)
    case (Cons x xs)
    then show ?case by (simp add: add_allocation_def Let_def case_prod_unfold add_divide_distrib algebra_simps)
  qed simp
  from this [OF assms(2)] assms(1) show ?thesis by simp
qed

section \<open>Credit\<close>

definition within_hard_limit :: "credit_line \<Rightarrow> bool" where
  "within_hard_limit l \<longleftrightarrow> cl_used_usd l \<le> cl_limit_usd l * cl_hard_limit l \<and> 0 \<le> cl_limit_usd l * cl_hard_limit l"

lemma consume_within: "within_hard_limit l \<Longrightarrow> within_hard_limit (fst (consume amount l))"
  by (simp add: within_hard_limit_def consume_def)

lemma release_within: "within_hard_limit l \<Longrightarrow> 0 \<le> amount \<Longrightarrow> within_hard_limit (release amount l)"
  by (simp add: within_hard_limit_def release_def)

datatype credit_event = Credit_Consume prime_broker pyfloat | Credit_Release prime_broker pyfloat

fun credit_step :: "broker_router \<Rightarrow> credit_event \<Rightarrow> broker_router" where
  "credit_step r (Credit_Consume b x) = fst (consume_credit b x r)"
| "credit_step r (Credit_Release b x) = release_credit b x r"

fun releases_nonneg :: "credit_event \<Rightarrow> bool" where
  "releases_nonneg (Credit_Release b x) \<longleftrightarrow> 0 \<le> x"
| "releases_nonneg (Credit_Consume b x) \<longleftrightarrow> True"

definition lines_within :: "broker_router \<Rightarrow> bool" where
  "lines_within r \<longleftrightarrow> list_all (\<lambda>x. within_hard_limit (snd x)) (br_credit_lines r)"

lemma lines_within_update:
  "list_all (\<lambda>x. P (snd x)) ls \<Longrightarrow> P l \<Longrightarrow> list_all (\<lambda>x. P (snd x)) (AList.update b l ls)"
  by (induction ls) auto

lemma lines_within_lookup: "lines_within r \<Longrightarrow> map_of (br_credit_lines r) b = Some l \<Longrightarrow> within_hard_limit l"
  by (fastforce simp: lines_within_def list_all_iff dest: map_of_SomeD)

lemma lines_within_step:
  assumes "lines_within r" and "releases_nonneg e"
  shows "lines_within (credit_step r e)"
proof (cases e)
  case (Credit_Consume b x)
  show ?thesis
  proof (cases "map_of (br_credit_lines r) b")
    case (Some l)
    with Credit_Consume assms(1) consume_within [OF lines_within_lookup [OF assms(1) Some], of x] show ?thesis
      by (simp add: lines_within_def consume_credit_def case_prod_unfold Let_def lines_within_update)
  qed (use Credit_Consume assms(1) in \<open>simp add: consume_credit_def\<close>)
next
  case (Credit_Release b x)
  show ?thesis
  proof (cases "map_of (br_credit_lines r) b")
    case (Some l)
    with Credit_Release assms release_within [OF lines_within_lookup [OF assms(1) Some], of x] show ?thesis
      by (simp add: lines_within_def release_credit_def case_prod_unfold lines_within_update)
  qed (use Credit_Release assms(1) in \<open>simp add: release_credit_def\<close>)
qed

text \<open>
  Credit stays under the hard limit of its line over any run of reservations and releases of
  amounts that are not negative, if it starts there.
\<close>

theorem credit_within_hard_limit:
  assumes "lines_within r" and "list_all releases_nonneg es"
  shows "lines_within (foldl credit_step r es)"
  using assms by (induction es arbitrary: r) (auto intro: lines_within_step)

definition demo_router :: broker_router where
  "demo_router = \<lparr>br_credit_lines =
       [(ALPACA, \<lparr>cl_limit_usd = 100, cl_used_usd = 0, cl_warning_threshold = 8 / 10, cl_hard_limit = 95 / 100\<rparr>),
        (JP_MORGAN, \<lparr>cl_limit_usd = 1000, cl_used_usd = 0, cl_warning_threshold = 8 / 10,
           cl_hard_limit = 95 / 100\<rparr>)],
     br_preferred = ALPACA, br_book = empty_book\<rparr>"

theorem credit_within_hard_limit_witness:
  "lines_within (foldl credit_step demo_router [Credit_Consume ALPACA 90, Credit_Consume ALPACA 10,
     Credit_Release ALPACA 20])"
  by (rule credit_within_hard_limit) (simp_all add: lines_within_def demo_router_def within_hard_limit_def)

text \<open>
  The router finds a broker if and only if some line has room for the order, and takes the one asked
  for when its line has.
\<close>

theorem broker_selected_iff_capacity:
  assumes "distinct (map fst (br_credit_lines r))"
  shows "(select_broker notional preferred r = None) =
      list_all (\<lambda>(b, l). \<not> has_capacity notional l) (br_credit_lines r)"
    and "(case select_broker notional preferred r of None \<Rightarrow> True | Some b \<Rightarrow> has_line notional r b)"
    and "preferred = Some b \<Longrightarrow> has_line notional r b \<Longrightarrow> select_broker notional preferred r = Some b"
proof -
  have line: "has_line notional r b \<longleftrightarrow> (\<exists>l. (b, l) \<in> set (br_credit_lines r) \<and> has_capacity notional l)" for b
    using assms by (auto simp: has_line_def map_of_eq_Some_iff split: option.split dest: map_of_SomeD)
      (metis map_of_SomeD map_of_eq_Some_iff not_None_eq option.inject)
  let ?c = "case preferred of None \<Rightarrow> br_preferred r | Some b \<Rightarrow> b"
  have sel: "select_broker notional preferred r =
      (if has_line notional r ?c then Some ?c
       else if has_line notional r (br_preferred r) then Some (br_preferred r)
       else map_option fst (find (\<lambda>(b, l). has_capacity notional l) (br_credit_lines r)))"
    by (simp add: select_broker_def Let_def)
  show "(select_broker notional preferred r = None) =
      list_all (\<lambda>(b, l). \<not> has_capacity notional l) (br_credit_lines r)"
    by (auto simp: sel line list_all_iff find_None_iff)
  show "(case select_broker notional preferred r of None \<Rightarrow> True | Some b \<Rightarrow> has_line notional r b)"
  proof (cases "find (\<lambda>(b, l). has_capacity notional l) (br_credit_lines r)")
    case None
    then show ?thesis by (simp add: sel)
  next
    case (Some x)
    from find_SomeD [OF this] have "has_line notional r (fst x)"
      by (cases x) (auto simp: line)
    with Some show ?thesis by (simp add: sel)
  qed
  show "preferred = Some b \<Longrightarrow> has_line notional r b \<Longrightarrow> select_broker notional preferred r = Some b"
    using sel by simp
qed

theorem broker_selected_iff_capacity_witness:
  "select_broker 500 (Some ALPACA) demo_router \<noteq> None \<and>
   select_broker 50 (Some JP_MORGAN) demo_router = Some JP_MORGAN"
proof -
  have d: "distinct (map fst (br_credit_lines demo_router))" by (simp add: demo_router_def)
  from broker_selected_iff_capacity(1) [OF d, of 500 "Some ALPACA"]
  have "select_broker 500 (Some ALPACA) demo_router \<noteq> None"
    by (simp add: demo_router_def has_capacity_def is_hard_limited_def utilisation_def available_usd_def)
  moreover have "select_broker 50 (Some JP_MORGAN) demo_router = Some JP_MORGAN"
    by (rule broker_selected_iff_capacity(3) [OF d refl])
      (simp add: demo_router_def has_line_def has_capacity_def is_hard_limited_def utilisation_def available_usd_def)
  ultimately show ?thesis by blast
qed

text \<open>The two checks differ: the selection counts the whole limit, the reservation its hard share.\<close>

lemma selected_broker_rejects:
  "select_broker 97 None demo_router = Some ALPACA" "\<not> snd (consume_credit ALPACA 97 demo_router)"
  by (simp_all add: demo_router_def select_broker_def has_line_def has_capacity_def is_hard_limited_def
      utilisation_def available_usd_def consume_credit_def consume_def)

end
