(* ===== verification/Venue_Choice.thy ===== *)
theory Venue_Choice
  imports Enums
begin

text \<open>
  The choice of venues by \<open>infrastructure/venue_toxicity.py\<close>: the statistics of each venue, the fills
  that wait for their markout, the UCB1 score, and the selection. The dictionaries are association
  lists in their order, the counter of nanoseconds is an argument, and the infinite score is a
  constructor.
\<close>

section \<open>State\<close>

record venue_stats =
  ve_n_selections :: nat
  ve_cumulative_reward :: pyfloat
  ve_markout_score :: pyfloat
  ve_decay_lambda :: pyfloat
  ve_last_update_ns :: int
  ve_fill_rate :: pyfloat

record fill_record =
  fr_venue :: order_venue
  fr_fill_price :: pyfloat
  fr_direction :: int
  fr_qty :: pyfloat
  fr_mid_at_fill :: pyfloat

record venue_tracker =
  vt_stats :: "(order_venue \<times> venue_stats) list"
  vt_total_selections :: nat
  vt_ucb_c :: pyfloat
  vt_fill_records :: "(nat \<times> fill_record) list"
  vt_fill_counter :: nat

definition tracker_init :: "order_venue list \<Rightarrow> pyfloat \<Rightarrow> pyfloat \<Rightarrow> int \<Rightarrow> venue_tracker" where
  "tracker_init venues decay c now = \<lparr>vt_stats = map (\<lambda>v. (v, \<lparr>ve_n_selections = 0, ve_cumulative_reward = 0,
       ve_markout_score = 0, ve_decay_lambda = decay, ve_last_update_ns = now, ve_fill_rate = 1\<rparr>))
       (remdups venues),
     vt_total_selections = 0, vt_ucb_c = c, vt_fill_records = [], vt_fill_counter = 0\<rparr>"

definition mean_reward :: "venue_stats \<Rightarrow> pyfloat" where
  "mean_reward s = (if 0 < ve_n_selections s then ve_cumulative_reward s / of_nat (ve_n_selections s) else 0)"

definition with_stats ::
  "order_venue \<Rightarrow> (venue_stats \<Rightarrow> venue_stats) \<Rightarrow> venue_tracker \<Rightarrow> venue_tracker" where
  "with_stats v f t =
     (case map_of (vt_stats t) v of
        None \<Rightarrow> t
      | Some s \<Rightarrow> t\<lparr>vt_stats := AList.update v (f s) (vt_stats t)\<rparr>)"

section \<open>Fills and markouts\<close>

text \<open>A fill is named by its number: the text \<open>fill_<n>\<close> is left out.\<close>

definition record_venue_fill ::
  "order_venue \<Rightarrow> pyfloat \<Rightarrow> pyfloat \<Rightarrow> int \<Rightarrow> pyfloat \<Rightarrow> venue_tracker \<Rightarrow> venue_tracker \<times> nat" where
  "record_venue_fill v fill_price mid dir qty t =
     (let n = vt_fill_counter t + 1;
          t = t\<lparr>vt_fill_counter := n, vt_fill_records := AList.update n
            \<lparr>fr_venue = v, fr_fill_price = fill_price, fr_direction = dir, fr_qty = qty, fr_mid_at_fill = mid\<rparr>
            (vt_fill_records t)\<rparr>
      in (with_stats v (\<lambda>s. s\<lparr>ve_fill_rate := min 1 (ve_fill_rate s * (99 / 100) + 1 / 100)\<rparr>) t, n))"

definition apply_decay :: "int \<Rightarrow> venue_stats \<Rightarrow> venue_stats" where
  "apply_decay now s =
     (let elapsed = of_int (now - ve_last_update_ns s) / 1000000000
      in s\<lparr>ve_markout_score := ve_markout_score s * exp (- ve_decay_lambda s * elapsed),
           ve_last_update_ns := now\<rparr>)"

definition update_reward :: "order_venue \<Rightarrow> pyfloat \<Rightarrow> venue_tracker \<Rightarrow> venue_tracker" where
  "update_reward v reward t =
     (case map_of (vt_stats t) v of
        None \<Rightarrow> t
      | Some s \<Rightarrow>
          t\<lparr>vt_stats := AList.update v (s\<lparr>ve_n_selections := ve_n_selections s + 1,
                ve_cumulative_reward := ve_cumulative_reward s + reward\<rparr>) (vt_stats t),
            vt_total_selections := vt_total_selections t + 1\<rparr>)"

definition record_markout :: "int \<Rightarrow> order_venue \<Rightarrow> pyfloat \<Rightarrow> nat \<Rightarrow> venue_tracker \<Rightarrow> venue_tracker" where
  "record_markout now v mid_later n t =
     (case map_of (vt_fill_records t) n of
        None \<Rightarrow> t
      | Some r \<Rightarrow>
          let t = t\<lparr>vt_fill_records := AList.delete n (vt_fill_records t)\<rparr>;
              markout = of_int (fr_direction r) * (fr_fill_price r - mid_later)
          in (case map_of (vt_stats t) v of
                None \<Rightarrow> t
              | Some s \<Rightarrow>
                  update_reward v markout
                    (with_stats v (\<lambda>s. let s = apply_decay now s in
                       s\<lparr>ve_markout_score := ve_markout_score s * (95 / 100) + markout * (5 / 100)\<rparr>) t)))"

section \<open>Selection\<close>

datatype ucb_score = Unvisited | Score pyfloat

fun score_less :: "ucb_score \<Rightarrow> ucb_score \<Rightarrow> bool" where
  "score_less (Score x) (Score y) \<longleftrightarrow> x < y"
| "score_less (Score x) Unvisited \<longleftrightarrow> True"
| "score_less Unvisited _ \<longleftrightarrow> False"

definition ucb1_score :: "order_venue \<Rightarrow> nat \<Rightarrow> venue_tracker \<Rightarrow> ucb_score" where
  "ucb1_score v n t =
     (case map_of (vt_stats t) v of
        None \<Rightarrow> Unvisited
      | Some s \<Rightarrow>
          if ve_n_selections s = 0 then Unvisited
          else Score (mean_reward s + vt_ucb_c t * sqrt (ln (of_nat n) / of_nat (ve_n_selections s))))"

definition too_toxic :: "venue_tracker \<Rightarrow> order_venue \<Rightarrow> bool" where
  "too_toxic t v = (case map_of (vt_stats t) v of None \<Rightarrow> False | Some s \<Rightarrow> ve_markout_score s < - (1 / 2))"

text \<open>The loop over the venues: the first of the highest scores; \<open>None\<close> is minus infinity.\<close>

fun best_of :: "(order_venue \<Rightarrow> ucb_score) \<Rightarrow> (order_venue \<Rightarrow> bool) \<Rightarrow> order_venue list
    \<Rightarrow> order_venue option \<Rightarrow> order_venue option" where
  "best_of f bad [] acc = acc"
| "best_of f bad (v # vs) acc =
     (if bad v then best_of f bad vs acc
      else (case acc of
          None \<Rightarrow> best_of f bad vs (Some v)
        | Some b \<Rightarrow> best_of f bad vs (if score_less (f b) (f v) then Some v else acc)))"

text \<open>An empty tracker without candidates raises: \<open>None\<close>.\<close>

definition select_venue ::
  "order_venue list \<Rightarrow> string \<Rightarrow> order_venue list \<Rightarrow> venue_tracker \<Rightarrow> order_venue option" where
  "select_venue candidates urgency exclude t =
     (let available = filter (\<lambda>v. v \<notin> set exclude) candidates in
      if available = []
      then (case candidates of
          c # cs \<Rightarrow> Some c
        | [] \<Rightarrow> (case vt_stats t of [] \<Rightarrow> None | (v, s) # rest \<Rightarrow> Some v))
      else if urgency = ''urgent''
      then
        (case find (\<lambda>v. v \<in> set available) [V_IEX, V_NASDAQ, V_BATS] of
           Some v \<Rightarrow> Some v | None \<Rightarrow> Some (hd available))
      else if urgency = ''stealth'' \<and> V_DARK_POOL \<in> set available then Some V_DARK_POOL
      else
        (case best_of (\<lambda>v. ucb1_score v (max 1 (vt_total_selections t)) t) (too_toxic t) available None of
           Some v \<Rightarrow> Some v | None \<Rightarrow> Some (hd available)))"

record toxicity_row =
  tr_n_selections :: nat
  tr_mean_reward :: pyfloat
  tr_markout_score :: pyfloat
  tr_fill_rate :: pyfloat
  tr_ucb1_score :: ucb_score

definition toxicity_report :: "venue_tracker \<Rightarrow> (order_venue \<times> toxicity_row) list" where
  "toxicity_report t =
     map (\<lambda>(v, s). (v, \<lparr>tr_n_selections = ve_n_selections s, tr_mean_reward = mean_reward s,
       tr_markout_score = ve_markout_score s, tr_fill_rate = ve_fill_rate s,
       tr_ucb1_score = ucb1_score v (max 1 (vt_total_selections t)) t\<rparr>)) (vt_stats t)"

definition toxicity_route :: "string \<Rightarrow> venue_tracker \<Rightarrow> (order_venue \<times> pyfloat) option" where
  "toxicity_route urgency t =
     (case select_venue (map fst (vt_stats t)) urgency [] t of
        None \<Rightarrow> None
      | Some v \<Rightarrow>
          Some (v, case map_of (vt_stats t) v of None \<Rightarrow> 0 | Some s \<Rightarrow> ve_markout_score s))"

section \<open>What is selected\<close>

lemma score_less_irrefl [simp]: "\<not> score_less a a"
  by (cases a) auto

lemma best_of_acc [simp]: "best_of f bad vs (Some b) \<noteq> None"
  by (induction vs arbitrary: b) auto

lemma best_of_None: "best_of f bad vs None = None \<longleftrightarrow> list_all bad vs"
  by (induction vs) (simp_all del: not_None_eq)

lemma best_of_first:
  assumes "best_of f bad vs acc = Some b"
  shows "\<exists>pre post. (case acc of None \<Rightarrow> [] | Some a \<Rightarrow> [a]) @ filter (\<lambda>v. \<not> bad v) vs = pre @ b # post \<and>
    (\<forall>v\<in>set pre. score_less (f v) (f b)) \<and> (\<forall>v\<in>set post. \<not> score_less (f b) (f v))"
  using assms
proof (induction f bad vs acc rule: best_of.induct)
  case (2 f bad v vs acc)
  show ?case
  proof (cases "bad v")
    case True
    with 2 show ?thesis by auto
  next
    case False
    show ?thesis
    proof (cases acc)
      case None
      with 2(2,4) False show ?thesis by auto
    next
      case (Some a)
      from 2(3) [OF False Some] 2(4) False Some
      obtain pre post where pp: "(if score_less (f a) (f v) then [v] else [a]) @ filter (\<lambda>v. \<not> bad v) vs = pre @ b # post"
        "\<forall>v\<in>set pre. score_less (f v) (f b)" "\<forall>v\<in>set post. \<not> score_less (f b) (f v)"
        by (auto split: if_splits)
      show ?thesis
      proof (cases "score_less (f a) (f v)")
        case True
        show ?thesis
        proof (cases pre)
          case Nil
          with pp True have "v = b" by simp
          with pp True Some False Nil show ?thesis
            by (intro exI [of _ "[a]"] exI [of _ post]) auto
        next
          case (Cons c pre')
          with pp True have c: "c = v" by simp
          with pp True Cons have "score_less (f a) (f b)"
            by (cases "f a"; cases "f b"; cases "f v") auto
          with pp True Some False Cons c show ?thesis
            by (intro exI [of _ "a # pre"] exI [of _ post]) auto
        qed
      next
        case less: False
        show ?thesis
        proof (cases pre)
          case Nil
          with pp less have "a = b" by simp
          with pp less Some False Nil show ?thesis
            by (intro exI [of _ "[]"] exI [of _ "v # post"]) auto
        next
          case (Cons c pre')
          with pp less have c: "c = a" by simp
          with pp less Cons have "score_less (f v) (f b)"
            by (cases "f a"; cases "f b"; cases "f v") auto
          with pp less Some False Cons c show ?thesis
            by (intro exI [of _ "a # v # pre'"] exI [of _ post]) auto
        qed
      qed
    qed
  qed
qed (auto intro: exI [of _ "[]"])


definition demo_tracker :: venue_tracker where
  "demo_tracker = with_stats V_IEX (\<lambda>s. s\<lparr>ve_markout_score := -1\<rparr>) (tracker_init [V_IEX, V_NASDAQ] (1 / 100) (1414 / 1000) 0)"


text \<open>
  The sign of a markout: a buy after which the price rises counts as adverse, and one after which it
  falls as good.
\<close>

lemma markout_of_rising_buy:
  assumes "map_of (vt_fill_records t) n = Some r" and "fr_direction r = 1" and "fr_fill_price r < mid_later"
    and "map_of (vt_stats t) v = Some s"
  shows "(case map_of (vt_stats (record_markout now v mid_later n t)) v of
      None \<Rightarrow> False | Some s' \<Rightarrow> ve_cumulative_reward s' < ve_cumulative_reward s)"
  using assms
  by (simp add: record_markout_def with_stats_def update_reward_def apply_decay_def Let_def update_conv')

section \<open>Counts\<close>

definition counts_match :: "venue_tracker \<Rightarrow> bool" where
  "counts_match t \<longleftrightarrow> distinct (map fst (vt_stats t)) \<and>
     vt_total_selections t = sum_list (map (ve_n_selections \<circ> snd) (vt_stats t))"

datatype toxicity_event =
    Venue_Fill order_venue pyfloat pyfloat int pyfloat
  | Venue_Markout int order_venue pyfloat nat
  | Venue_Reward order_venue pyfloat

fun venue_step :: "venue_tracker \<Rightarrow> toxicity_event \<Rightarrow> venue_tracker" where
  "venue_step t (Venue_Fill v p m d q) = fst (record_venue_fill v p m d q t)"
| "venue_step t (Venue_Markout now v m n) = record_markout now v m n t"
| "venue_step t (Venue_Reward v x) = update_reward v x t"

lemma sum_update:
  "distinct (map fst xs) \<Longrightarrow> map_of xs v = Some s \<Longrightarrow>
     sum_list (map (f \<circ> snd) (AList.update v s' xs)) + f s = sum_list (map (f \<circ> snd) xs) + f s'"
  for f :: "'a \<Rightarrow> nat"
  by (induction xs) (auto split: if_splits)

lemma counts_match_with:
  assumes "counts_match t" and "\<And>s. ve_n_selections (f s) = ve_n_selections s"
  shows "counts_match (with_stats v f t)"
proof (cases "map_of (vt_stats t) v")
  case (Some s)
  with assms sum_update [of "vt_stats t" v s ve_n_selections "f s"] show ?thesis
    by (simp add: counts_match_def with_stats_def distinct_update)
qed (use assms in \<open>simp add: with_stats_def\<close>)

lemma counts_match_reward: "counts_match t \<Longrightarrow> counts_match (update_reward v x t)"
proof (cases "map_of (vt_stats t) v")
  case (Some s)
  let ?s = "s\<lparr>ve_n_selections := ve_n_selections s + 1, ve_cumulative_reward := ve_cumulative_reward s + x\<rparr>"
  assume "counts_match t"
  with Some sum_update [of "vt_stats t" v s ve_n_selections ?s] show ?thesis
    by (simp add: counts_match_def update_reward_def distinct_update)
qed (simp add: update_reward_def)

lemma counts_match_step: "counts_match t \<Longrightarrow> counts_match (venue_step t e)"
proof (cases e)
  case (Venue_Fill v p m d q)
  assume "counts_match t"
  then have "counts_match (t\<lparr>vt_fill_counter := n, vt_fill_records := rs\<rparr>)" for n rs by (simp add: counts_match_def)
  with Venue_Fill show ?thesis by (auto simp: record_venue_fill_def Let_def intro: counts_match_with)
next
  case (Venue_Markout now v m n)
  assume "counts_match t"
  then have "counts_match (t\<lparr>vt_fill_records := rs\<rparr>)" for rs by (simp add: counts_match_def)
  with \<open>counts_match t\<close> Venue_Markout show ?thesis
    by (auto simp: record_markout_def Let_def apply_decay_def intro!: counts_match_reward counts_match_with
        split: option.split)
qed (simp add: counts_match_reward)

interpretation venue_counts: inv_machine venue_step counts_match
  by unfold_locales (rule counts_match_step)

text \<open>
  The number of all selections is the sum over the venues, over any run of fills, markouts and
  rewards: so the logarithm in a score counts exactly the rewards that its denominators count.
\<close>

theorem selections_add_up:
  "vt_total_selections (foldl venue_step (tracker_init venues decay c now) es) =
     sum_list (map (ve_n_selections \<circ> snd) (vt_stats (foldl venue_step (tracker_init venues decay c now) es)))"
proof -
  have "counts_match (tracker_init venues decay c now)"
    by (simp add: counts_match_def tracker_init_def o_def)
  from venue_counts.run_inv [OF this, of es] show ?thesis by (simp add: counts_match_def)
qed

end
