(* ===== verification/Multi_Asset.thy ===== *)
theory Multi_Asset
  imports Enums
begin

text \<open>
  The instruments of \<open>core/multi_asset.py\<close>: currency pairs, futures, European options after Black and
  Scholes with their Greeks, the search for an implied volatility, and the portfolio over all of
  them. \<open>math.exp\<close>, \<open>math.log\<close> and \<open>math.sqrt\<close> are the functions of the reals, and
  \<open>math.erfc\<close> is given by its power series; rounding to a double and overflow are not modelled.
\<close>

section \<open>Errors and the normal distribution\<close>

datatype math_error = Value_Error | Zero_Division

fun all_results :: "('e + 'a) list \<Rightarrow> 'e + 'a list" where
  "all_results [] = Inr []"
| "all_results (Inl e # rs) = Inl e"
| "all_results (Inr x # rs) = (case all_results rs of Inl e \<Rightarrow> Inl e | Inr xs \<Rightarrow> Inr (x # xs))"

definition sum_results :: "('e + pyfloat) list \<Rightarrow> 'e + pyfloat" where
  "sum_results rs = map_sum id sum_list (all_results rs)"

definition erf_term :: "real \<Rightarrow> nat \<Rightarrow> real" where
  "erf_term x n = (- 1) ^ n * x ^ (2 * n + 1) / (fact n * of_nat (2 * n + 1))"

definition math_erfc :: "real \<Rightarrow> real" where
  "math_erfc x = 1 - 2 / sqrt pi * suminf (erf_term x)"

definition norm_cdf :: "real \<Rightarrow> real" where
  "norm_cdf x = 1 / 2 * math_erfc (- x / sqrt 2)"

definition norm_pdf :: "real \<Rightarrow> real" where
  "norm_pdf x = exp (- 1 / 2 * x * x) / sqrt (2 * pi)"

definition days_per_calendar_year :: pyfloat where
  "days_per_calendar_year = 36525 / 100"

definition d1d2 :: "real \<Rightarrow> real \<Rightarrow> real \<Rightarrow> real \<Rightarrow> real \<Rightarrow> real \<Rightarrow> math_error + real \<times> real" where
  "d1d2 S K r q sigma T =
     (if T \<le> 0 \<or> sigma \<le> 0 \<or> S \<le> 0 \<or> K \<le> 0 then Inl Value_Error
      else
        let log_ratio = ln (S / K);
            vol_sqrt_T = sigma * sqrt T;
            d1 = (log_ratio + (r - q + 1 / 2 * sigma ^ 2) * T) / vol_sqrt_T
        in Inr (d1, d1 - vol_sqrt_T))"

section \<open>Currencies\<close>

record fx_spec =
  xs_base :: string
  xs_quote :: string
  xs_pip_size :: pyfloat
  xs_lot_size :: int
  xs_min_lot :: pyfloat
  xs_margin_rate :: pyfloat

definition fx_pair :: "fx_spec \<Rightarrow> string" where
  "fx_pair s = xs_base s @ ''/'' @ xs_quote s"

record fx_position =
  xp_spec :: fx_spec
  xp_lots :: pyfloat
  xp_entry_rate :: pyfloat
  xp_current_rate :: pyfloat
  xp_swap_rate_pa :: pyfloat
  xp_days_held :: int

definition pip_value :: "fx_position \<Rightarrow> pyfloat" where
  "pip_value p = xp_lots p * of_int (xs_lot_size (xp_spec p)) * xs_pip_size (xp_spec p)"

definition fx_unrealized_pnl :: "fx_position \<Rightarrow> pyfloat" where
  "fx_unrealized_pnl p = (xp_current_rate p - xp_entry_rate p) * xp_lots p * of_int (xs_lot_size (xp_spec p))"

definition accrued_swap :: "fx_position \<Rightarrow> pyfloat" where
  "accrued_swap p = xp_swap_rate_pa p * of_int (xp_days_held p) / days_per_calendar_year * xp_lots p"

definition fx_total_pnl :: "fx_position \<Rightarrow> pyfloat" where
  "fx_total_pnl p = fx_unrealized_pnl p + accrued_swap p"

definition fx_position_notional :: "fx_position \<Rightarrow> pyfloat" where
  "fx_position_notional p = \<bar>xp_lots p\<bar> * of_int (xs_lot_size (xp_spec p)) * xp_current_rate p"

definition fx_required_margin :: "fx_position \<Rightarrow> pyfloat" where
  "fx_required_margin p = fx_position_notional p * xs_margin_rate (xp_spec p)"

definition pips_pnl :: "fx_position \<Rightarrow> pyfloat" where
  "pips_pnl p =
     (if xs_pip_size (xp_spec p) = 0 then 0
      else (xp_current_rate p - xp_entry_rate p) / xs_pip_size (xp_spec p) * (if xp_lots p < 0 then -1 else 1))"

definition fx_forward_rate :: "real \<Rightarrow> real \<Rightarrow> real \<Rightarrow> real \<Rightarrow> real" where
  "fx_forward_rate spot r_base r_quote T = spot * exp ((r_quote - r_base) * T)"

definition fx_swap_points :: "real \<Rightarrow> real \<Rightarrow> real \<Rightarrow> real \<Rightarrow> real" where
  "fx_swap_points spot r_base r_quote T = (fx_forward_rate spot r_base r_quote T - spot) / (1 / 10000)"

section \<open>Futures\<close>

record futures_spec =
  fs_symbol :: string
  fs_tick_size :: pyfloat
  fs_tick_value :: pyfloat
  fs_contract_size :: pyfloat
  fs_currency :: string
  fs_initial_margin :: pyfloat
  fs_maint_margin :: pyfloat
  fs_expiry_months :: string

definition ticks_to_dollars :: "futures_spec \<Rightarrow> pyfloat \<Rightarrow> pyfloat" where
  "ticks_to_dollars s ticks = ticks * fs_tick_value s"

definition dollars_to_ticks :: "futures_spec \<Rightarrow> pyfloat \<Rightarrow> math_error + pyfloat" where
  "dollars_to_ticks s dollars =
     (if fs_tick_value s = 0 then Inl Zero_Division else Inr (dollars / fs_tick_value s))"

text \<open>The library of contracts; the names and the exchanges are left out.\<close>

definition contract ::
  "string \<Rightarrow> pyfloat \<Rightarrow> pyfloat \<Rightarrow> pyfloat \<Rightarrow> string \<Rightarrow> pyfloat \<Rightarrow> pyfloat \<Rightarrow> string \<Rightarrow> futures_spec" where
  "contract sy ts tv units cur im mm months = \<lparr>fs_symbol = sy, fs_tick_size = ts, fs_tick_value = tv,
     fs_contract_size = units, fs_currency = cur, fs_initial_margin = im, fs_maint_margin = mm,
     fs_expiry_months = months\<rparr>"

definition futures_specs :: "futures_spec list" where
  "futures_specs =
     [contract ''ES'' (1 / 4) (25 / 2) 50 ''USD'' 12300 11000 ''HMUZ'',
      contract ''NQ'' (1 / 4) 5 20 ''USD'' 15500 14000 ''HMUZ'',
      contract ''RTY'' (1 / 10) 10 50 ''USD'' 7000 6300 ''HMUZ'',
      contract ''CL'' (1 / 100) 10 1000 ''USD'' 5000 4500 ''FGHJKMNQUVXZ'',
      contract ''GC'' (1 / 10) 10 100 ''USD'' 8200 7400 ''GJMQVZ'',
      contract ''ZB'' (1 / 32) (3125 / 100) 100000 ''USD'' 3800 3500 ''HMUZ'',
      contract ''6E'' (5 / 100000) (625 / 100) 125000 ''EUR'' 2400 2200 ''HMUZ'',
      contract ''BTC'' 5 25 5 ''USD'' 40000 36000 ''FGHJKMNQUVXZ'']"

record futures_position =
  fp_spec :: futures_spec
  fp_contracts :: int
  fp_entry_price :: pyfloat
  fp_current_price :: pyfloat
  fp_expiry_code :: string

definition futures_unrealized_pnl :: "futures_position \<Rightarrow> pyfloat" where
  "futures_unrealized_pnl p =
     (let ticks = (fp_current_price p - fp_entry_price p) / fs_tick_size (fp_spec p)
      in ticks * fs_tick_value (fp_spec p) * of_int (fp_contracts p))"

definition dollar_delta :: "futures_position \<Rightarrow> pyfloat" where
  "dollar_delta p = fs_contract_size (fp_spec p) * of_int (fp_contracts p)"

definition futures_position_notional :: "futures_position \<Rightarrow> pyfloat" where
  "futures_position_notional p =
     of_int \<bar>fp_contracts p\<bar> * fs_contract_size (fp_spec p) * fp_current_price p"

definition basis :: "pyfloat \<Rightarrow> futures_position \<Rightarrow> pyfloat" where
  "basis spot p = fp_current_price p - spot"

definition futures_required_margin :: "futures_position \<Rightarrow> pyfloat" where
  "futures_required_margin p = of_int \<bar>fp_contracts p\<bar> * fs_initial_margin (fp_spec p)"

definition roll_pnl :: "pyfloat \<Rightarrow> pyfloat \<Rightarrow> futures_position \<Rightarrow> pyfloat" where
  "roll_pnl near_price far_price p =
     (let ticks = (near_price - far_price) / fs_tick_size (fp_spec p)
      in ticks * fs_tick_value (fp_spec p) * of_int (fp_contracts p))"

section \<open>Options\<close>

datatype option_right = CALL | PUT

record option_spec =
  os_underlying :: symbol
  os_strike :: pyfloat
  os_expiry_days :: int
  os_right :: option_right
  os_multiplier :: int

definition years_to_expiry :: "option_spec \<Rightarrow> pyfloat" where
  "years_to_expiry s = of_int (os_expiry_days s) / days_per_calendar_year"

record bs_result =
  bs_price :: real
  bs_delta :: real
  bs_gamma :: real
  bs_vega :: real
  bs_theta :: real
  bs_rho :: real
  bs_d1 :: real
  bs_d2 :: real
  bs_intrinsic :: real
  bs_time_value :: real

definition black_scholes ::
  "real \<Rightarrow> real \<Rightarrow> real \<Rightarrow> real \<Rightarrow> real \<Rightarrow> option_right \<Rightarrow> real \<Rightarrow> math_error + bs_result" where
  "black_scholes S K T r sigma right q =
     (case d1d2 S K r q sigma T of
        Inl e \<Rightarrow> Inl e
      | Inr (d1, d2) \<Rightarrow>
          let discount = exp (- r * T);
              div_disc = exp (- q * T);
              price = (case right of
                  CALL \<Rightarrow> S * div_disc * norm_cdf d1 - K * discount * norm_cdf d2
                | PUT \<Rightarrow> K * discount * norm_cdf (- d2) - S * div_disc * norm_cdf (- d1));
              delta = (case right of CALL \<Rightarrow> div_disc * norm_cdf d1 | PUT \<Rightarrow> - div_disc * norm_cdf (- d1));
              intrinsic = (case right of CALL \<Rightarrow> max (S - K) 0 | PUT \<Rightarrow> max (K - S) 0);
              rho = (case right of
                  CALL \<Rightarrow> K * T * discount * norm_cdf d2 / 100
                | PUT \<Rightarrow> - K * T * discount * norm_cdf (- d2) / 100);
              theta_annual = - (S * div_disc * norm_pdf d1 * sigma) / (2 * sqrt T)
                - r * K * discount * (case right of CALL \<Rightarrow> norm_cdf d2 | PUT \<Rightarrow> - norm_cdf (- d2))
                + q * S * div_disc * (case right of CALL \<Rightarrow> norm_cdf d1 | PUT \<Rightarrow> - norm_cdf (- d1))
          in Inr \<lparr>bs_price = price, bs_delta = delta,
               bs_gamma = div_disc * norm_pdf d1 / (S * sigma * sqrt T),
               bs_vega = S * div_disc * norm_pdf d1 * sqrt T / 100,
               bs_theta = theta_annual / days_per_calendar_year, bs_rho = rho, bs_d1 = d1, bs_d2 = d2,
               bs_intrinsic = intrinsic, bs_time_value = price - intrinsic\<rparr>)"

text \<open>The loop of the search, with the iterations that are left.\<close>

fun iv_loop ::
  "(real \<Rightarrow> math_error + bs_result) \<Rightarrow> real \<Rightarrow> real \<Rightarrow> nat \<Rightarrow> real \<Rightarrow> math_error + real" where
  "iv_loop bs market_price tol 0 sigma = Inl Value_Error"
| "iv_loop bs market_price tol (Suc n) sigma =
     (case bs sigma of
        Inl e \<Rightarrow> Inl e
      | Inr r \<Rightarrow>
          let diff = bs_price r - market_price in
          if \<bar>diff\<bar> < tol then Inr sigma
          else
            let vega_raw = bs_vega r * 100 in
            if vega_raw < 1 / 10000000000 then Inl Value_Error
            else iv_loop bs market_price tol n (max (sigma - diff / vega_raw) (1 / 1000000)))"

definition implied_volatility ::
  "real \<Rightarrow> real \<Rightarrow> real \<Rightarrow> real \<Rightarrow> real \<Rightarrow> option_right \<Rightarrow> real \<Rightarrow> real \<Rightarrow> nat \<Rightarrow> math_error + real" where
  "implied_volatility market_price S K T r right q tol max_iter =
     (if T = 0 then Inl Zero_Division
      else if T < 0 then Inl Value_Error
      else if S = 0 then Inl Zero_Division
      else iv_loop (\<lambda>sigma. black_scholes S K T r sigma right q) market_price tol max_iter
        (sqrt (2 * pi / T) * market_price / S))"

record option_position =
  op_spec :: option_spec
  op_contracts :: int
  op_entry_premium :: pyfloat
  op_spot :: pyfloat
  op_r :: pyfloat
  op_sigma :: pyfloat
  op_q :: pyfloat

definition position_bs :: "option_position \<Rightarrow> math_error + bs_result" where
  "position_bs p = black_scholes (op_spot p) (os_strike (op_spec p)) (years_to_expiry (op_spec p)) (op_r p)
     (op_sigma p) (os_right (op_spec p)) (op_q p)"

definition mark_to_market :: "option_position \<Rightarrow> math_error + pyfloat" where
  "mark_to_market p = map_sum id bs_price (position_bs p)"

definition option_units :: "option_position \<Rightarrow> pyfloat" where
  "option_units p = of_int (op_contracts p) * of_int (os_multiplier (op_spec p))"

definition option_unrealized_pnl :: "option_position \<Rightarrow> math_error + pyfloat" where
  "option_unrealized_pnl p = map_sum id (\<lambda>x. (x - op_entry_premium p) * option_units p) (mark_to_market p)"

definition portfolio_greek :: "(bs_result \<Rightarrow> real) \<Rightarrow> option_position \<Rightarrow> math_error + pyfloat" where
  "portfolio_greek g p = map_sum id (\<lambda>r. g r * option_units p) (position_bs p)"

definition option_required_margin :: "option_position \<Rightarrow> math_error + pyfloat" where
  "option_required_margin p =
     (if 0 \<le> op_contracts p
      then Inr (op_entry_premium p * of_int \<bar>op_contracts p\<bar> * of_int (os_multiplier (op_spec p)))
      else
        let strike = os_strike (op_spec p);
            otm = (case os_right (op_spec p) of
                CALL \<Rightarrow> max 0 (strike - op_spot p) | PUT \<Rightarrow> max 0 (op_spot p - strike))
        in map_sum id (\<lambda>x. max (1 / 5 * op_spot p + x - otm) (1 / 10 * strike) *
             of_int \<bar>op_contracts p\<bar> * of_int (os_multiplier (op_spec p))) (mark_to_market p))"

section \<open>The portfolio\<close>

record multi_asset_portfolio =
  ma_base_currency :: string
  ma_fx :: "fx_position list"
  ma_futures :: "futures_position list"
  ma_options :: "option_position list"
  ma_equity :: "(symbol \<times> int \<times> pyfloat \<times> pyfloat) list"

definition portfolio_init :: "string \<Rightarrow> multi_asset_portfolio" where
  "portfolio_init cur = \<lparr>ma_base_currency = cur, ma_fx = [], ma_futures = [], ma_options = [], ma_equity = []\<rparr>"

definition add_equity :: "symbol \<Rightarrow> int \<Rightarrow> pyfloat \<Rightarrow> pyfloat \<Rightarrow> multi_asset_portfolio \<Rightarrow> multi_asset_portfolio" where
  "add_equity sy shares entry cur m = m\<lparr>ma_equity := AList.update sy (shares, entry, cur) (ma_equity m)\<rparr>"

definition add_fx :: "fx_position \<Rightarrow> multi_asset_portfolio \<Rightarrow> multi_asset_portfolio" where
  "add_fx p m = m\<lparr>ma_fx := ma_fx m @ [p]\<rparr>"

definition add_futures :: "futures_position \<Rightarrow> multi_asset_portfolio \<Rightarrow> multi_asset_portfolio" where
  "add_futures p m = m\<lparr>ma_futures := ma_futures m @ [p]\<rparr>"

definition add_option :: "option_position \<Rightarrow> multi_asset_portfolio \<Rightarrow> multi_asset_portfolio" where
  "add_option p m = m\<lparr>ma_options := ma_options m @ [p]\<rparr>"

definition remove_equity :: "symbol \<Rightarrow> multi_asset_portfolio \<Rightarrow> multi_asset_portfolio" where
  "remove_equity sy m = m\<lparr>ma_equity := AList.delete sy (ma_equity m)\<rparr>"

definition equity_pnl :: "multi_asset_portfolio \<Rightarrow> pyfloat" where
  "equity_pnl m = sum_list (map (\<lambda>(sy, shares, entry, cur). (cur - entry) * of_int shares) (ma_equity m))"

definition fx_pnl :: "multi_asset_portfolio \<Rightarrow> pyfloat" where
  "fx_pnl m = sum_list (map fx_total_pnl (ma_fx m))"

definition futures_pnl :: "multi_asset_portfolio \<Rightarrow> pyfloat" where
  "futures_pnl m = sum_list (map futures_unrealized_pnl (ma_futures m))"

definition options_pnl :: "multi_asset_portfolio \<Rightarrow> math_error + pyfloat" where
  "options_pnl m = sum_results (map option_unrealized_pnl (ma_options m))"

definition total_pnl :: "multi_asset_portfolio \<Rightarrow> math_error + pyfloat" where
  "total_pnl m = map_sum id (\<lambda>x. equity_pnl m + fx_pnl m + futures_pnl m + x) (options_pnl m)"

definition equity_notional :: "multi_asset_portfolio \<Rightarrow> pyfloat" where
  "equity_notional m = sum_list (map (\<lambda>(sy, shares, entry, cur). of_int \<bar>shares\<bar> * cur) (ma_equity m))"

definition fx_notional :: "multi_asset_portfolio \<Rightarrow> pyfloat" where
  "fx_notional m = sum_list (map fx_position_notional (ma_fx m))"

definition futures_notional :: "multi_asset_portfolio \<Rightarrow> pyfloat" where
  "futures_notional m = sum_list (map futures_position_notional (ma_futures m))"

definition options_notional :: "multi_asset_portfolio \<Rightarrow> pyfloat" where
  "options_notional m = sum_list (map (\<lambda>p. of_int \<bar>op_contracts p\<bar> * of_int (os_multiplier (op_spec p)) *
     op_spot p) (ma_options m))"

definition gross_notional :: "multi_asset_portfolio \<Rightarrow> pyfloat" where
  "gross_notional m = equity_notional m + fx_notional m + futures_notional m + options_notional m"

definition equity_margin :: "pyfloat \<Rightarrow> multi_asset_portfolio \<Rightarrow> pyfloat" where
  "equity_margin reg_t_rate m =
     sum_list (map (\<lambda>(sy, shares, entry, cur).
       let notional = of_int shares * cur
       in if 0 < notional then notional * reg_t_rate else \<bar>notional\<bar> * (3 / 2)) (ma_equity m))"

definition fx_margin :: "multi_asset_portfolio \<Rightarrow> pyfloat" where
  "fx_margin m = sum_list (map fx_required_margin (ma_fx m))"

definition futures_margin :: "multi_asset_portfolio \<Rightarrow> pyfloat" where
  "futures_margin m = sum_list (map futures_required_margin (ma_futures m))"

definition options_margin :: "multi_asset_portfolio \<Rightarrow> math_error + pyfloat" where
  "options_margin m = sum_results (map option_required_margin (ma_options m))"

definition total_margin :: "multi_asset_portfolio \<Rightarrow> math_error + pyfloat" where
  "total_margin m =
     map_sum id (\<lambda>x. equity_margin (1 / 2) m + fx_margin m + futures_margin m + x) (options_margin m)"

record portfolio_greeks =
  pg_net_delta :: pyfloat
  pg_net_gamma :: pyfloat
  pg_net_vega :: pyfloat
  pg_net_theta :: pyfloat
  pg_total_pnl :: pyfloat
  pg_total_margin :: pyfloat
  pg_total_notional :: pyfloat

definition net_greek :: "(bs_result \<Rightarrow> real) \<Rightarrow> multi_asset_portfolio \<Rightarrow> math_error + pyfloat" where
  "net_greek g m = sum_results (map (portfolio_greek g) (ma_options m))"

definition aggregate_greeks :: "multi_asset_portfolio \<Rightarrow> math_error + portfolio_greeks" where
  "aggregate_greeks m =
     (case all_results [net_greek bs_delta m, net_greek bs_gamma m, net_greek bs_vega m, net_greek bs_theta m,
            total_pnl m, total_margin m] of
        Inr [d, g, v, t, pnl, margin] \<Rightarrow>
          Inr \<lparr>pg_net_delta = d, pg_net_gamma = g, pg_net_vega = v, pg_net_theta = t, pg_total_pnl = pnl,
            pg_total_margin = margin, pg_total_notional = gross_notional m\<rparr>
      | Inr _ \<Rightarrow> Inl Value_Error
      | Inl e \<Rightarrow> Inl e)"

section \<open>Put and call\<close>

lemma summable_erf: "summable (erf_term x)"
proof (rule summable_comparison_test)
  have "summable (\<lambda>n. (x\<^sup>2) ^ n /\<^sub>R fact n)" by (rule summable_exp_generic)
  then show "summable (\<lambda>n. \<bar>x\<bar> * ((x\<^sup>2) ^ n /\<^sub>R fact n))" by (rule summable_mult)
  have "norm (erf_term x n) \<le> \<bar>x\<bar> * ((x\<^sup>2) ^ n /\<^sub>R fact n)" for n
  proof -
    have "norm (erf_term x n) = \<bar>x\<bar> ^ (2 * n + 1) / (fact n * real (2 * n + 1))"
      by (simp add: erf_term_def abs_mult power_abs)
    also have "\<dots> \<le> \<bar>x\<bar> ^ (2 * n + 1) / fact n"
      by (rule divide_left_mono) (simp_all add: mult_le_cancel_left1)
    also have "\<dots> = \<bar>x\<bar> * ((x\<^sup>2) ^ n /\<^sub>R fact n)"
      by (simp add: power_mult divide_inverse)
    finally show ?thesis .
  qed
  then show "\<exists>N. \<forall>n\<ge>N. norm (erf_term x n) \<le> \<bar>x\<bar> * ((x\<^sup>2) ^ n /\<^sub>R fact n)" by blast
qed

lemma norm_cdf_minus: "norm_cdf (- x) = 1 - norm_cdf x"
proof -
  have "erf_term (- y) = (\<lambda>n. - erf_term y n)" for y
    by (rule ext) (simp add: erf_term_def power_minus_odd)
  then have "suminf (erf_term (- y)) = - suminf (erf_term y)" for y
    using suminf_minus [OF summable_erf [of y]] by simp
  from this [of "x / sqrt 2"] show ?thesis
    by (simp add: norm_cdf_def math_erfc_def add_divide_distrib diff_divide_distrib)
qed

text \<open>The distribution function is the integral of the density, by its power series.\<close>

lemma erf_term_DERIV: "((\<lambda>x. erf_term x n) has_real_derivative (- 1) ^ n * x ^ (2 * n) / fact n) (at x)"
proof -
  let ?m = "real (2 * n + 1)"
  have "((\<lambda>x. x ^ (2 * n + 1)) has_real_derivative ?m * x ^ (2 * n)) (at x)"
    using DERIV_pow [of "2 * n + 1" x] by simp
  then have "((\<lambda>x. (- 1) ^ n * x ^ (2 * n + 1) / (fact n * ?m)) has_real_derivative
      (- 1) ^ n * (?m * x ^ (2 * n)) / (fact n * ?m)) (at x)"
    by (intro DERIV_cdivide DERIV_cmult)
  moreover have "?m \<noteq> 0" by (simp only: of_nat_eq_0_iff)
  ultimately show ?thesis by (simp add: erf_term_def del: of_nat_add of_nat_mult of_nat_Suc)
qed

lemma erf_term_lipschitz:
  assumes "\<bar>x\<bar> \<le> R" and "\<bar>y\<bar> \<le> R"
  shows "\<bar>erf_term x n - erf_term y n\<bar> \<le> (R\<^sup>2) ^ n / fact n * \<bar>x - y\<bar>"
proof -
  have less: "\<bar>erf_term b n - erf_term a n\<bar> \<le> (R\<^sup>2) ^ n / fact n * \<bar>b - a\<bar>"
    if ab: "a < b" "\<bar>a\<bar> \<le> R" "\<bar>b\<bar> \<le> R" for a b
  proof -
    obtain z where z: "a < z" "z < b" "erf_term b n - erf_term a n = (b - a) * ((- 1) ^ n * z ^ (2 * n) / fact n)"
      using MVT2 [OF ab(1), of "\<lambda>x. erf_term x n" "\<lambda>x. (- 1) ^ n * x ^ (2 * n) / fact n"]
        erf_term_DERIV by blast
    have "\<bar>z\<bar> \<le> R" using z(1,2) ab by linarith
    then have "\<bar>z\<bar> \<le> \<bar>R\<bar>" by simp
    then have "z\<^sup>2 \<le> R\<^sup>2" by (simp only: abs_le_square_iff)
    then have "z ^ (2 * n) \<le> (R\<^sup>2) ^ n"
      by (simp add: power_mult power_mono)
    moreover have "\<bar>erf_term b n - erf_term a n\<bar> = z ^ (2 * n) / fact n * \<bar>b - a\<bar>"
      by (simp add: z(3) abs_mult power_abs power_even_abs)
    ultimately show ?thesis by (simp add: divide_right_mono mult_right_mono)
  qed
  consider "x = y" | "x < y" | "y < x" by linarith
  then show ?thesis
    using less [of x y] less [of y x] assms by cases (auto simp: abs_minus_commute)
qed

lemma erf_series_DERIV: "((\<lambda>x. suminf (erf_term x)) has_real_derivative exp (- x\<^sup>2)) (at x)"
proof -
  let ?R = "\<bar>x\<bar> + 1"
  have exps: "(\<lambda>n. (- 1) ^ n * x ^ (2 * n) / fact n) sums exp (- x\<^sup>2)"
  proof -
    have "(\<lambda>n. (- 1) ^ n * x ^ (2 * n) / fact n) = (\<lambda>n. (- x\<^sup>2) ^ n /\<^sub>R fact n)"
      by (rule ext) (simp add: power_mult power_minus [of "x\<^sup>2"] divide_inverse)
    then show ?thesis using exp_converges [of "- x\<^sup>2"] by simp
  qed
  have bound: "summable (\<lambda>n. (?R\<^sup>2) ^ n / fact n)"
    using summable_exp_generic [of "?R\<^sup>2"] by (simp add: divide_inverse mult.commute)
  have "((\<lambda>x. suminf (erf_term x)) has_real_derivative suminf (\<lambda>n. (- 1) ^ n * x ^ (2 * n) / fact n)) (at x)"
  proof (rule DERIV_series' [where a = "- ?R" and b = ?R and L = "\<lambda>n. (?R\<^sup>2) ^ n / fact n"])
    show "summable (\<lambda>n. (- 1) ^ n * x ^ (2 * n) / fact n)" using exps by (simp add: sums_iff)
    show "\<bar>erf_term y n - erf_term z n\<bar> \<le> (?R\<^sup>2) ^ n / fact n * \<bar>y - z\<bar>"
      if "y \<in> {- ?R<..<?R}" "z \<in> {- ?R<..<?R}" for n y z
      by (rule erf_term_lipschitz) (use that in auto)
  qed (use bound in \<open>auto intro: erf_term_DERIV summable_erf\<close>)
  with exps show ?thesis by (simp add: sums_iff)
qed

lemma norm_cdf_DERIV: "(norm_cdf has_real_derivative norm_pdf x) (at x)"
proof -
  have "((\<lambda>x. suminf (erf_term (- x / sqrt 2))) has_real_derivative exp (- (- x / sqrt 2)\<^sup>2) * (- 1 / sqrt 2)) (at x)"
    by (rule DERIV_chain2 [OF erf_series_DERIV]) (intro DERIV_cdivide DERIV_minus DERIV_ident)
  from DERIV_diff [OF DERIV_const [of "1 / 2"] DERIV_cmult [OF this, of "1 / sqrt pi"]]
  have "((\<lambda>x. 1 / 2 - 1 / sqrt pi * suminf (erf_term (- x / sqrt 2))) has_real_derivative
      1 / sqrt pi * (exp (- (x\<^sup>2 / 2)) / sqrt 2)) (at x)"
    by (simp add: power_divide)
  moreover have "norm_cdf = (\<lambda>x. 1 / 2 - 1 / sqrt pi * suminf (erf_term (- x / sqrt 2)))"
    by (rule ext) (simp add: norm_cdf_def math_erfc_def algebra_simps)
  moreover have "1 / sqrt pi * (exp (- (x\<^sup>2 / 2)) / sqrt 2) = norm_pdf x"
    by (simp add: norm_pdf_def real_sqrt_mult power2_eq_square mult.commute)
  ultimately show ?thesis by simp
qed

text \<open>
  The terms through the arguments cancel: a price moves only through its coefficients and the
  total volatility.
\<close>

lemma price_DERIV:
  assumes "(a has_real_derivative a') (at x)" and "(b has_real_derivative b') (at x)"
    and "(d has_real_derivative d') (at x)" and "(v has_real_derivative v') (at x)"
    and "a x * norm_pdf (d x) = b x * norm_pdf (d x - v x)"
  shows "((\<lambda>y. a y * norm_cdf (d y) - b y * norm_cdf (d y - v y)) has_real_derivative
    a' * norm_cdf (d x) - b' * norm_cdf (d x - v x) + a x * norm_pdf (d x) * v') (at x)"
proof -
  have 1: "((\<lambda>y. norm_cdf (d y)) has_real_derivative norm_pdf (d x) * d') (at x)"
    by (rule DERIV_chain2 [OF norm_cdf_DERIV assms(3)])
  have 2: "((\<lambda>y. norm_cdf (d y - v y)) has_real_derivative norm_pdf (d x - v x) * (d' - v')) (at x)"
    by (rule DERIV_chain2 [OF norm_cdf_DERIV DERIV_diff [OF assms(3,4)]])
  have c: "norm_pdf (d x - v x) * (d' - v') * b x = a x * norm_pdf (d x) * (d' - v')"
  proof -
    have "norm_pdf (d x - v x) * (d' - v') * b x = b x * norm_pdf (d x - v x) * (d' - v')" by (simp add: mult_ac)
    then show ?thesis by (simp add: assms(5))
  qed
  from DERIV_diff [OF DERIV_mult [OF assms(1) 1] DERIV_mult [OF assms(2) 2]] show ?thesis
    by (rule DERIV_cong) (unfold c, simp add: algebra_simps)
qed

lemma exp_split:
  fixes s a t x y :: real
  assumes "0 < s"
  shows "exp (ln s - a * t - 1 / 2 * x * y) = s * exp (- a * t) * exp (- 1 / 2 * x * y)"
proof -
  have "ln s - a * t - 1 / 2 * x * y = ln s + - a * t + - 1 / 2 * x * y" by simp
  then show ?thesis using assms by (simp only: exp_add exp_ln)
qed

lemma discounted_densities:
  assumes "0 < S" and "0 < K" and "0 < T" and "0 < sigma"
    and "d1 = (ln (S / K) + (r - q + 1 / 2 * sigma ^ 2) * T) / (sigma * sqrt T)"
  shows "S * exp (- q * T) * norm_pdf d1 = K * exp (- r * T) * norm_pdf (d1 - sigma * sqrt T)"
proof -
  let ?v = "sigma * sqrt T"
  have v: "?v > 0" and v2: "?v\<^sup>2 = sigma\<^sup>2 * T" using assms by (simp_all add: power_mult_distrib)
  have d1v: "d1 * ?v = ln S - ln K + (r - q + 1 / 2 * sigma ^ 2) * T"
    using assms v by (simp add: ln_div)
  then have eq: "ln S - q * T - 1 / 2 * d1 * d1 = ln K - r * T - 1 / 2 * (d1 - ?v) * (d1 - ?v)"
  proof -
    have sq: "1 / 2 * (d1 - ?v) * (d1 - ?v) = 1 / 2 * d1 * d1 - d1 * ?v + 1 / 2 * ?v\<^sup>2"
      by (simp add: field_simps power2_eq_square)
    show ?thesis unfolding sq d1v v2 by (simp add: algebra_simps)
  qed
  from arg_cong [OF eq, of exp]
  have "S * exp (- q * T) * exp (- 1 / 2 * d1 * d1) =
      K * exp (- r * T) * exp (- 1 / 2 * (d1 - ?v) * (d1 - ?v))"
    by (simp only: exp_split [OF assms(1)] exp_split [OF assms(2)])
  then show ?thesis by (simp only: norm_pdf_def times_divide_eq_right)
qed

lemma price_DERIV_right:
  assumes "(a has_real_derivative a') (at x)" and "(b has_real_derivative b') (at x)"
    and "\<exists>d'. (d has_real_derivative d') (at x)" and "(v has_real_derivative v') (at x)"
    and "a x * norm_pdf (d x) = b x * norm_pdf (d x - v x)"
  shows "((\<lambda>y. a y * norm_cdf (d y) - b y * norm_cdf (d y - v y) + w * (b y - a y)) has_real_derivative
    a' * norm_cdf (d x) - b' * norm_cdf (d x - v x) + a x * norm_pdf (d x) * v' + w * (b' - a')) (at x)"
proof -
  from assms(3) obtain d' where d: "(d has_real_derivative d') (at x)" by blast
  show ?thesis
    by (rule DERIV_add [OF price_DERIV [OF assms(1,2) d assms(4,5)] DERIV_cmult [OF DERIV_diff [OF assms(2,1)]]])
qed

definition bs_arg :: "real \<Rightarrow> real \<Rightarrow> real \<Rightarrow> real \<Rightarrow> real \<Rightarrow> real \<Rightarrow> real" where
  "bs_arg S K T r sigma q = (ln (S / K) + (r - q + 1 / 2 * sigma ^ 2) * T) / (sigma * sqrt T)"

fun put_weight :: "option_right \<Rightarrow> real" where
  "put_weight CALL = 0"
| "put_weight PUT = 1"

lemma d1d2_positive:
  assumes "0 < S" and "0 < K" and "0 < T" and "0 < sigma"
  shows "d1d2 S K r q sigma T = Inr (bs_arg S K T r sigma q, bs_arg S K T r sigma q - sigma * sqrt T)"
  using assms by (simp add: d1d2_def bs_arg_def Let_def)

lemma black_scholes_result:
  fixes S K T r sigma q :: real
  assumes "0 < S" and "0 < K" and "0 < T" and "0 < sigma"
  defines "res \<equiv> \<lambda>right. projr (black_scholes S K T r sigma right q)" and "d \<equiv> bs_arg S K T r sigma q"
  shows black_scholes_price: "bs_price (res right) = S * exp (- q * T) * norm_cdf d
      - K * exp (- r * T) * norm_cdf (d - sigma * sqrt T)
      + put_weight right * (K * exp (- r * T) - S * exp (- q * T))" (is ?price)
    and black_scholes_delta: "bs_delta (res right) = exp (- q * T) * norm_cdf d - put_weight right * exp (- q * T)" (is ?delta)
    and black_scholes_gamma: "bs_gamma (res right) = exp (- q * T) * norm_pdf d / (S * sigma * sqrt T)" (is ?gamma)
    and black_scholes_vega: "bs_vega (res right) = S * exp (- q * T) * norm_pdf d * sqrt T / 100" (is ?vega)
    and black_scholes_theta: "days_per_calendar_year * bs_theta (res right) =
      - (S * exp (- q * T) * norm_pdf d * sigma) / (2 * sqrt T)
      - r * (K * exp (- r * T)) * (norm_cdf (d - sigma * sqrt T) - put_weight right)
      + q * (S * exp (- q * T)) * (norm_cdf d - put_weight right)" (is ?theta)
    and black_scholes_rho: "bs_rho (res right) =
      T * (K * exp (- r * T)) * (norm_cdf (d - sigma * sqrt T) - put_weight right) / 100" (is ?rho)
    and black_scholes_accepts: "black_scholes S K T r sigma right q = Inr (res right)" (is ?accepts)
proof -
  note unf = res_def d_def black_scholes_def d1d2_positive [OF assms(1-4)] Let_def sum.case prod.case sum.sel
    norm_cdf_minus bs_result.simps option_right.case put_weight.simps
  show ?price by (cases right) (simp_all only: unf, simp_all add: algebra_simps)
  show ?delta by (cases right) (simp_all only: unf, simp_all add: algebra_simps)
  show ?gamma by (cases right) (simp_all only: unf)
  show ?vega by (cases right) (simp_all only: unf)
  show ?rho by (cases right) (simp_all only: unf, simp_all add: algebra_simps)
  show ?accepts by (cases right) (simp_all only: unf)
  have days: "days_per_calendar_year * (x / days_per_calendar_year) = x" for x
    by (simp add: days_per_calendar_year_def)
  show ?theta by (cases right) (simp_all only: unf days, simp_all add: algebra_simps)
qed

lemma DERIV_positive_cong:
  assumes "(f has_real_derivative D) (at x)" and "0 < x" and "\<And>y. 0 < y \<Longrightarrow> g y = f y" and "D = E"
  shows "(g has_real_derivative E) (at x)"
  using has_field_derivative_transform_within_open [OF assms(1), of "{0<..}" g] assms by simp

lemma price_moves_with_spot:
  assumes "0 < S" and "0 < K" and "0 < T" and "0 < sigma"
  shows "((\<lambda>S. bs_price (projr (black_scholes S K T r sigma right q))) has_real_derivative bs_delta (projr (black_scholes S K T r sigma right q))) (at S)"
proof -
  note pos = assms
  note dens = discounted_densities [OF pos bs_arg_def]
  show ?thesis
  proof (rule DERIV_positive_cong [OF price_DERIV_right [where w = "put_weight right"] pos(1) black_scholes_price [OF _ pos(2-4)]])
    show "((\<lambda>S. S * exp (- q * T)) has_real_derivative exp (- q * T)) (at S)"
      by (auto intro!: derivative_eq_intros)
    show "((\<lambda>S. K * exp (- r * T)) has_real_derivative 0) (at S)" by simp
    show "\<exists>D. ((\<lambda>S. bs_arg S K T r sigma q) has_real_derivative D) (at S)"
      unfolding bs_arg_def using pos by (intro exI) (auto intro!: derivative_eq_intros)
    show "((\<lambda>S. sigma * sqrt T) has_real_derivative 0) (at S)" by simp
    show "exp (- q * T) * norm_cdf (bs_arg S K T r sigma q)
        - 0 * norm_cdf (bs_arg S K T r sigma q - sigma * sqrt T)
        + S * exp (- q * T) * norm_pdf (bs_arg S K T r sigma q) * 0
        + put_weight right * (0 - exp (- q * T)) = bs_delta (projr (black_scholes S K T r sigma right q))"
      by (simp add: black_scholes_delta [OF pos])
  qed (rule dens)
qed

lemma price_moves_with_volatility:
  assumes "0 < S" and "0 < K" and "0 < T" and "0 < sigma"
  shows "((\<lambda>sigma. bs_price (projr (black_scholes S K T r sigma right q))) has_real_derivative 100 * bs_vega (projr (black_scholes S K T r sigma right q))) (at sigma)"
proof -
  note pos = assms
  note dens = discounted_densities [OF pos bs_arg_def]
  show ?thesis
  proof (rule DERIV_positive_cong [OF price_DERIV_right [where w = "put_weight right"] pos(4) black_scholes_price [OF pos(1-3)]])
    show "((\<lambda>sigma. S * exp (- q * T)) has_real_derivative 0) (at sigma)"
      and "((\<lambda>sigma. K * exp (- r * T)) has_real_derivative 0) (at sigma)" by simp_all
    show "\<exists>D. ((\<lambda>sigma. bs_arg S K T r sigma q) has_real_derivative D) (at sigma)"
      unfolding bs_arg_def using pos by (intro exI) (auto intro!: derivative_eq_intros)
    show "((\<lambda>sigma. sigma * sqrt T) has_real_derivative sqrt T) (at sigma)"
      by (auto intro!: derivative_eq_intros)
    show "0 * norm_cdf (bs_arg S K T r sigma q) - 0 * norm_cdf (bs_arg S K T r sigma q - sigma * sqrt T)
        + S * exp (- q * T) * norm_pdf (bs_arg S K T r sigma q) * sqrt T
        + put_weight right * (0 - 0) = 100 * bs_vega (projr (black_scholes S K T r sigma right q))"
      by (simp add: black_scholes_vega [OF pos])
  qed (rule dens)
qed

lemma price_moves_with_rate:
  assumes "0 < S" and "0 < K" and "0 < T" and "0 < sigma"
  shows "((\<lambda>r. bs_price (projr (black_scholes S K T r sigma right q))) has_real_derivative 100 * bs_rho (projr (black_scholes S K T r sigma right q))) (at r)"
proof -
  note pos = assms
  note dens = discounted_densities [OF pos bs_arg_def]
  show ?thesis
  proof (rule DERIV_cong)
    show "((\<lambda>r. bs_price (projr (black_scholes S K T r sigma right q))) has_real_derivative
        0 * norm_cdf (bs_arg S K T r sigma q)
        - (- T * (K * exp (- r * T))) * norm_cdf (bs_arg S K T r sigma q - sigma * sqrt T)
        + S * exp (- q * T) * norm_pdf (bs_arg S K T r sigma q) * 0
        + put_weight right * (- T * (K * exp (- r * T)) - 0)) (at r)"
      unfolding black_scholes_price [OF pos]
    proof (rule price_DERIV_right)
      show "((\<lambda>r. K * exp (- r * T)) has_real_derivative - T * (K * exp (- r * T))) (at r)"
        by (auto intro!: derivative_eq_intros)
      show "\<exists>D. ((\<lambda>r. bs_arg S K T r sigma q) has_real_derivative D) (at r)"
        unfolding bs_arg_def using pos by (intro exI) (auto intro!: derivative_eq_intros)
    qed (rule DERIV_const dens)+
    show "0 * norm_cdf (bs_arg S K T r sigma q)
        - (- T * (K * exp (- r * T))) * norm_cdf (bs_arg S K T r sigma q - sigma * sqrt T)
        + S * exp (- q * T) * norm_pdf (bs_arg S K T r sigma q) * 0
        + put_weight right * (- T * (K * exp (- r * T)) - 0) = 100 * bs_rho (projr (black_scholes S K T r sigma right q))"
      by (simp add: black_scholes_rho [OF pos] algebra_simps)
  qed
qed

lemma price_moves_with_time:
  assumes "0 < S" and "0 < K" and "0 < T" and "0 < sigma"
  shows "((\<lambda>T. bs_price (projr (black_scholes S K T r sigma right q))) has_real_derivative
      - (days_per_calendar_year * bs_theta (projr (black_scholes S K T r sigma right q)))) (at T)"
proof -
  note pos = assms
  note dens = discounted_densities [OF pos bs_arg_def]
  show ?thesis
  proof (rule DERIV_positive_cong [OF price_DERIV_right [where w = "put_weight right"] pos(3) black_scholes_price [OF pos(1,2) _ pos(4)]])
    show "((\<lambda>T. S * exp (- q * T)) has_real_derivative - q * (S * exp (- q * T))) (at T)"
      and "((\<lambda>T. K * exp (- r * T)) has_real_derivative - r * (K * exp (- r * T))) (at T)"
      by (auto intro!: derivative_eq_intros)
    show "\<exists>D. ((\<lambda>T. bs_arg S K T r sigma q) has_real_derivative D) (at T)"
      unfolding bs_arg_def using pos by (intro exI) (auto intro!: derivative_eq_intros)
    show "((\<lambda>T. sigma * sqrt T) has_real_derivative sigma / (2 * sqrt T)) (at T)"
      using pos by (auto intro!: derivative_eq_intros simp: field_simps)
    show "- q * (S * exp (- q * T)) * norm_cdf (bs_arg S K T r sigma q)
        - (- r * (K * exp (- r * T))) * norm_cdf (bs_arg S K T r sigma q - sigma * sqrt T)
        + S * exp (- q * T) * norm_pdf (bs_arg S K T r sigma q) * (sigma / (2 * sqrt T))
        + put_weight right * (- r * (K * exp (- r * T)) - - q * (S * exp (- q * T)))
        = - (days_per_calendar_year * bs_theta (projr (black_scholes S K T r sigma right q)))"
      unfolding black_scholes_theta [OF pos] by (simp add: algebra_simps)
  qed (rule dens)
qed

lemma delta_moves_with_spot:
  assumes "0 < S" and "0 < K" and "0 < T" and "0 < sigma"
  shows "((\<lambda>S. bs_delta (projr (black_scholes S K T r sigma right q))) has_real_derivative bs_gamma (projr (black_scholes S K T r sigma right q))) (at S)"
proof -
  note pos = assms
  note dens = discounted_densities [OF pos bs_arg_def]
  have "((\<lambda>S. bs_arg S K T r sigma q) has_real_derivative 1 / (S * (sigma * sqrt T))) (at S)"
    unfolding bs_arg_def using pos by (auto intro!: derivative_eq_intros simp: field_simps)
  from DERIV_chain2 [OF norm_cdf_DERIV this]
  have "((\<lambda>S. exp (- q * T) * norm_cdf (bs_arg S K T r sigma q) - put_weight right * exp (- q * T)) has_real_derivative
      exp (- q * T) * (norm_pdf (bs_arg S K T r sigma q) * (1 / (S * (sigma * sqrt T))))) (at S)"
    by (auto intro!: derivative_eq_intros)
  then show ?thesis
    by (rule DERIV_positive_cong [OF _ pos(1) black_scholes_delta [OF _ pos(2-4)]])
       (simp_all add: black_scholes_gamma [OF pos] mult.assoc)
qed

text \<open>
  C34. Put and call fit together: with inputs that the pricing accepts, the call costs as much more than
  the put as the discounted spot exceeds the discounted strike, and their deltas, thetas and rhos differ
  by the derivatives of that amount, while gamma and vega are the same. Both use the same two arguments,
  which are the volatility over the whole time apart and at which the discounted densities agree: no
  other arguments have both.
\<close>

theorem put_call_parity:
  assumes "0 < S" and "0 < K" and "0 < T" and "0 < sigma"
  shows "(case (black_scholes S K T r sigma CALL q, black_scholes S K T r sigma PUT q) of
      (Inr c, Inr p) \<Rightarrow>
        bs_price c - bs_price p = S * exp (- q * T) - K * exp (- r * T) \<and>
        bs_delta c - bs_delta p = exp (- q * T) \<and> bs_gamma c = bs_gamma p \<and> bs_vega c = bs_vega p \<and>
        bs_rho c - bs_rho p = K * T * exp (- r * T) / 100 \<and>
        bs_theta c - bs_theta p = (q * S * exp (- q * T) - r * K * exp (- r * T)) / days_per_calendar_year \<and>
        bs_d1 p = bs_d1 c \<and> bs_d2 p = bs_d2 c \<and> bs_d1 c - bs_d2 c = sigma * sqrt T \<and>
        S * exp (- q * T) * norm_pdf (bs_d1 c) = K * exp (- r * T) * norm_pdf (bs_d2 c)
    | _ \<Rightarrow> False)"
proof -
  obtain c where c: "black_scholes S K T r sigma CALL q = Inr c"
    using black_scholes_accepts [OF assms] by blast
  obtain p where p: "black_scholes S K T r sigma PUT q = Inr p"
    using black_scholes_accepts [OF assms] by blast
  have d: "bs_d1 c = bs_arg S K T r sigma q" "bs_d2 c = bs_arg S K T r sigma q - sigma * sqrt T"
    "bs_d1 p = bs_arg S K T r sigma q" "bs_d2 p = bs_arg S K T r sigma q - sigma * sqrt T"
    using c p by (auto simp: black_scholes_def d1d2_positive [OF assms] Let_def)
  note call = black_scholes_result [OF assms, where r = r and right = CALL and q = q, unfolded c sum.sel put_weight.simps]
    and put = black_scholes_result [OF assms, where r = r and right = PUT and q = q, unfolded p sum.sel put_weight.simps]
  have "days_per_calendar_year * bs_theta c - days_per_calendar_year * bs_theta p =
      q * S * exp (- q * T) - r * K * exp (- r * T)"
    unfolding call put by (simp add: algebra_simps)
  moreover have "0 < days_per_calendar_year" by (simp add: days_per_calendar_year_def)
  ultimately have "bs_theta c - bs_theta p = (q * S * exp (- q * T) - r * K * exp (- r * T)) / days_per_calendar_year"
    by (simp add: field_simps)
  moreover have "bs_price c - bs_price p = S * exp (- q * T) - K * exp (- r * T)"
    and "bs_delta c - bs_delta p = exp (- q * T)" and "bs_gamma c = bs_gamma p" and "bs_vega c = bs_vega p"
    unfolding call put by simp_all
  moreover have "bs_rho c - bs_rho p = K * T * exp (- r * T) / 100"
    unfolding call put by (simp add: field_simps)
  ultimately show ?thesis
    unfolding c p prod.case sum.case d using discounted_densities [OF assms bs_arg_def] by simp
qed

theorem put_call_parity_witness:
  "(case (black_scholes 100 100 1 (5 / 100) (2 / 10) CALL 0, black_scholes 100 100 1 (5 / 100) (2 / 10) PUT 0) of
      (Inr c, Inr p) \<Rightarrow> bs_price c - bs_price p = 100 - 100 * exp (- (5 / 100))
    | _ \<Rightarrow> False)"
  using put_call_parity [where S = 100 and K = 100 and T = 1 and sigma = "2 / 10" and r = "5 / 100" and q = 0]
  by (auto split: sum.splits)

text \<open>
  C18. The Greeks are what their names say: for a call and for a put, delta is the derivative of the price in
  the spot, gamma the derivative of delta in the spot, vega a hundredth of the derivative in the
  volatility, rho a hundredth of that in the rate, and theta the negated derivative in the time to expiry
  over the days of a year.
\<close>

theorem greeks_are_derivatives:
  fixes S K T r sigma q :: real
  defines "price \<equiv> \<lambda>S T r sigma right. bs_price (projr (black_scholes S K T r sigma right q))"
  assumes "0 < S" and "0 < K" and "0 < T" and "0 < sigma"
  shows "(case black_scholes S K T r sigma right q of
      Inl e \<Rightarrow> False
    | Inr res \<Rightarrow>
        ((\<lambda>S. price S T r sigma right) has_real_derivative bs_delta res) (at S) \<and>
        ((\<lambda>S. bs_delta (projr (black_scholes S K T r sigma right q))) has_real_derivative bs_gamma res) (at S) \<and>
        ((\<lambda>sigma. price S T r sigma right) has_real_derivative 100 * bs_vega res) (at sigma) \<and>
        ((\<lambda>r. price S T r sigma right) has_real_derivative 100 * bs_rho res) (at r) \<and>
        ((\<lambda>T. price S T r sigma right) has_real_derivative - (days_per_calendar_year * bs_theta res)) (at T))"
proof -
  note pos = assms(2-5)
  obtain res where res: "black_scholes S K T r sigma right q = Inr res"
    using black_scholes_accepts [OF pos] by blast
  note derivs = price_moves_with_spot [OF pos, where r = r and right = right and q = q] delta_moves_with_spot [OF pos, where r = r and right = right and q = q]
    price_moves_with_volatility [OF pos, where r = r and right = right and q = q] price_moves_with_rate [OF pos, where r = r and right = right and q = q]
    price_moves_with_time [OF pos, where r = r and right = right and q = q]
  show ?thesis
    unfolding price_def res sum.case by (intro conjI; use derivs in \<open>simp only: res sum.sel\<close>)
qed

theorem greeks_are_derivatives_witness:
  "(case black_scholes 100 90 1 (5 / 100) (2 / 10) PUT 0 of
      Inl e \<Rightarrow> False
    | Inr res \<Rightarrow> ((\<lambda>S. bs_price (projr (black_scholes S 90 1 (5 / 100) (2 / 10) PUT 0)))
        has_real_derivative bs_delta res) (at 100))"
  using greeks_are_derivatives [where S = 100 and K = 90 and T = 1 and sigma = "2 / 10" and r = "5 / 100" and q = 0
      and right = PUT]
  by (simp split: sum.splits)

section \<open>The implied volatility\<close>

lemma iv_loop_sound:
  "iv_loop bs market_price tol n sigma = Inr s \<Longrightarrow> \<exists>r. bs s = Inr r \<and> \<bar>bs_price r - market_price\<bar> < tol"
  by (induction bs market_price tol n sigma rule: iv_loop.induct)
     (auto simp: Let_def split: sum.splits if_splits)

text \<open>
  A volatility that the search returns prices the option within the tolerance, after at most
  the given number of iterations; the only other outcomes are its exceptions.
\<close>

theorem implied_volatility_prices_option:
  "(case implied_volatility market_price S K T r right q tol max_iter of
      Inl e \<Rightarrow> e = Value_Error \<or> e = Zero_Division
    | Inr sigma \<Rightarrow>
        (case black_scholes S K T r sigma right q of
           Inl e \<Rightarrow> False
         | Inr res \<Rightarrow> \<bar>bs_price res - market_price\<bar> < tol))"
proof (cases "implied_volatility market_price S K T r right q tol max_iter")
  case (Inl e)
  then show ?thesis by (cases e) simp_all
next
  case (Inr sigma)
  then have "iv_loop (\<lambda>sigma. black_scholes S K T r sigma right q) market_price tol max_iter
      (sqrt (2 * pi / T) * market_price / S) = Inr sigma"
    by (auto simp: implied_volatility_def split: if_splits)
  from iv_loop_sound [OF this] Inr show ?thesis by auto
qed

text \<open>A price of zero fails at the first guess, with the error of the pricing.\<close>

lemma implied_volatility_of_zero:
  "0 < S \<Longrightarrow> 0 < T \<Longrightarrow> implied_volatility 0 S K T r right q tol max_iter = Inl Value_Error"
  by (cases max_iter) (simp_all add: implied_volatility_def black_scholes_def d1d2_def)

section \<open>The library of contracts\<close>

text \<open>
  In the library of contracts the profit of a position is the move times its dollar delta, except
  for RTY, whose profit is twice that, and ZB, whose profit is a hundredth of it.
\<close>

theorem futures_profit_is_delta_move:
  assumes "fp_spec p \<in> set futures_specs"
  shows "futures_unrealized_pnl p =
    (if fs_symbol (fp_spec p) = ''RTY'' then 2
     else if fs_symbol (fp_spec p) = ''ZB'' then 1 / 100 else 1) *
    dollar_delta p * (fp_current_price p - fp_entry_price p)"
proof -
  have unit: "s \<in> set futures_specs \<Longrightarrow> fs_tick_value s / fs_tick_size s =
      (if fs_symbol s = ''RTY'' then 2 else if fs_symbol s = ''ZB'' then 1 / 100 else 1) * fs_contract_size s" for s
    by (auto simp: futures_specs_def contract_def)
  have "futures_unrealized_pnl p = (fs_tick_value (fp_spec p) / fs_tick_size (fp_spec p)) *
      of_int (fp_contracts p) * (fp_current_price p - fp_entry_price p)"
    by (simp add: futures_unrealized_pnl_def)
  then show ?thesis unfolding unit [OF assms] by (simp add: dollar_delta_def)
qed

theorem futures_profit_is_delta_move_witness:
  "futures_unrealized_pnl \<lparr>fp_spec = contract ''ES'' (1 / 4) (25 / 2) 50 ''USD'' 12300 11000 ''HMUZ'',
     fp_contracts = 2, fp_entry_price = 5000, fp_current_price = 5010, fp_expiry_code = ''Z25''\<rparr> = 1000"
  using futures_profit_is_delta_move [of "\<lparr>fp_spec = contract ''ES'' (1 / 4) (25 / 2) 50 ''USD'' 12300 11000 ''HMUZ'',
     fp_contracts = 2, fp_entry_price = 5000, fp_current_price = 5010, fp_expiry_code = ''Z25''\<rparr>"]
  by (simp add: futures_specs_def dollar_delta_def contract_def)

section \<open>Margins\<close>

lemma all_results_Inr: "all_results rs = Inr xs \<Longrightarrow> rs = map Inr xs"
  by (induction rs arbitrary: xs rule: all_results.induct) (auto split: sum.splits)

lemma sum_results_nonneg:
  assumes "sum_results rs = Inr x" and "\<And>y. Inr y \<in> set rs \<Longrightarrow> 0 \<le> y"
  shows "0 \<le> x"
proof -
  from assms(1) obtain xs where "rs = map Inr xs" "x = sum_list xs"
    by (cases "all_results rs") (auto simp: sum_results_def dest: all_results_Inr)
  with assms(2) show ?thesis by (auto intro: sum_list_nonneg)
qed

definition sane_fx :: "fx_position \<Rightarrow> bool" where
  "sane_fx p \<longleftrightarrow> 0 \<le> xs_lot_size (xp_spec p) \<and> 0 \<le> xp_current_rate p \<and> 0 \<le> xs_margin_rate (xp_spec p)"

definition sane_option :: "option_position \<Rightarrow> bool" where
  "sane_option p \<longleftrightarrow> 0 \<le> op_entry_premium p \<and> 0 \<le> os_multiplier (op_spec p) \<and> 0 \<le> os_strike (op_spec p)"

definition sane_portfolio :: "multi_asset_portfolio \<Rightarrow> bool" where
  "sane_portfolio m \<longleftrightarrow> list_all sane_fx (ma_fx m) \<and>
     list_all (\<lambda>p. 0 \<le> fs_initial_margin (fp_spec p)) (ma_futures m) \<and> list_all sane_option (ma_options m) \<and>
     list_all (\<lambda>x. 0 \<le> snd (snd (snd x))) (ma_equity m)"

lemma option_margin_floor:
  assumes "sane_option p" and "option_required_margin p = Inr x"
  shows "0 \<le> x" and "op_contracts p < 0 \<Longrightarrow>
    os_strike (op_spec p) / 10 * of_int \<bar>op_contracts p\<bar> * of_int (os_multiplier (op_spec p)) \<le> x"
proof -
  let ?n = "of_int \<bar>op_contracts p\<bar> * of_int (os_multiplier (op_spec p)) :: real"
  have n: "0 \<le> ?n" using assms(1) by (simp add: sane_option_def)
  have s: "0 \<le> os_strike (op_spec p) / 10" using assms(1) by (simp add: sane_option_def)
  have floor: "os_strike (op_spec p) / 10 * ?n \<le> x" if neg: "op_contracts p < 0"
  proof -
    from neg have c: "\<not> 0 \<le> op_contracts p" by simp
    from assms(2) obtain v where "x = max v (1 / 10 * os_strike (op_spec p)) * ?n"
      unfolding option_required_margin_def Let_def if_not_P [OF c] mult.assoc
      by (cases "mark_to_market p") (simp_all only: map_sum.simps id_apply sum.inject sum.distinct, blast)
    moreover have "os_strike (op_spec p) / 10 * ?n \<le> max v (1 / 10 * os_strike (op_spec p)) * ?n"
      by (rule mult_right_mono [OF _ n]) simp
    ultimately show ?thesis by simp
  qed
  then show "op_contracts p < 0 \<Longrightarrow>
      os_strike (op_spec p) / 10 * of_int \<bar>op_contracts p\<bar> * of_int (os_multiplier (op_spec p)) \<le> x"
    by (simp add: mult.assoc)
  show "0 \<le> x"
  proof (cases "op_contracts p < 0")
    case True
    with floor mult_nonneg_nonneg [OF s n] show ?thesis by linarith
  next
    case False
    with assms show ?thesis by (auto simp: option_required_margin_def sane_option_def)
  qed
qed

lemma equity_margin_bound:
  assumes "list_all (\<lambda>x. 0 \<le> snd (snd (snd x))) (ma_equity m)"
  shows "equity_notional m / 2 \<le> equity_margin (1 / 2) m"
proof -
  have "sum_list (map (\<lambda>(sy, shares, entry, cur). of_int \<bar>shares\<bar> * cur) xs) / 2 \<le>
      sum_list (map (\<lambda>(sy, shares, entry, cur). let notional = of_int shares * cur
        in if 0 < notional then notional * (1 / 2) else \<bar>notional\<bar> * (3 / 2)) xs)"
    if "list_all (\<lambda>x. 0 \<le> snd (snd (snd x))) xs" for xs :: "(symbol \<times> int \<times> pyfloat \<times> pyfloat) list"
    using that
  proof (induction xs)
    case (Cons x xs)
    obtain sy n e c where x: "x = (sy, n, e, c)" by (cases x)
    have "0 \<le> c" using Cons.prems by (simp add: x)
    then have a: "of_int \<bar>n\<bar> * c = \<bar>of_int n * c\<bar>" by (simp add: abs_mult)
    have "\<bar>k\<bar> / 2 \<le> (if 0 < k then k * (1 / 2) else \<bar>k\<bar> * (3 / 2))" for k :: real by auto
    then have "of_int \<bar>n\<bar> * c / 2 \<le>
        (if 0 < of_int n * c then of_int n * c * (1 / 2) else \<bar>of_int n * c\<bar> * (3 / 2))" unfolding a .
    with Cons show ?case by (simp add: x Let_def add_divide_distrib)
  qed simp
  with assms show ?thesis by (simp add: equity_notional_def equity_margin_def)
qed

text \<open>
  With rates, prices and sizes that are not negative, the margin of a portfolio, when it can be computed,
  is at least half the notional of its equities: no class of assets ever offsets another.
\<close>

theorem margin_covers_equities:
  assumes "sane_portfolio m" and "total_margin m = Inr x"
  shows "equity_notional m / 2 \<le> x"
proof -
  from assms(2) obtain y where y: "options_margin m = Inr y"
      "x = equity_margin (1 / 2) m + fx_margin m + futures_margin m + y"
    by (cases "options_margin m") (auto simp: total_margin_def)
  have "0 \<le> y"
  proof (rule sum_results_nonneg [OF y(1) [unfolded options_margin_def]])
    fix z assume "Inr z \<in> set (map option_required_margin (ma_options m))"
    then obtain p where "p \<in> set (ma_options m)" "option_required_margin p = Inr z" by auto
    with assms(1) show "0 \<le> z" using option_margin_floor(1) by (auto simp: sane_portfolio_def list_all_iff)
  qed
  moreover have "0 \<le> fx_margin m" "0 \<le> futures_margin m"
    using assms(1)
    by (auto simp: fx_margin_def futures_margin_def fx_required_margin_def fx_position_notional_def
        futures_required_margin_def sane_portfolio_def sane_fx_def list_all_iff intro!: sum_list_nonneg)
  moreover have "equity_notional m / 2 \<le> equity_margin (1 / 2) m"
    using assms(1) by (intro equity_margin_bound) (simp add: sane_portfolio_def)
  ultimately show ?thesis using y(2) by linarith
qed

theorem margin_covers_equities_witness:
  "equity_notional (add_equity ''SPY'' (-100) 400 500 (portfolio_init ''USD'')) / 2 \<le> 75000"
  by (rule margin_covers_equities)
     (simp_all add: sane_portfolio_def add_equity_def portfolio_init_def total_margin_def options_margin_def
       sum_results_def equity_margin_def fx_margin_def futures_margin_def)

end
