(* ===== verification/Microstructure.thy ===== *)
theory Microstructure
  imports Prelude
begin

text \<open>
  The pure functions of \<open>core/microstructure.py\<close>: the quotes of Avellaneda and Stoikov, the measures of
  an order book, market impact, and the benchmarks of an execution. \<open>math.log\<close>, \<open>math.exp\<close> and
  \<open>math.sqrt\<close> are the functions of the reals where the source's arguments are in their domain.
\<close>

section \<open>Optimal quotes\<close>

record ast_parameters =
  as_gamma :: pyfloat
  as_sigma :: pyfloat
  as_kappa :: pyfloat
  as_T :: pyfloat
  as_q_max :: pyfloat

definition ast_defaults :: ast_parameters where
  "ast_defaults = \<lparr>as_gamma = 5 / 100, as_sigma = 2 / 10000, as_kappa = 3 / 2, as_T = 23400, as_q_max = 1000\<rparr>"

definition time_remaining :: "pyfloat \<Rightarrow> ast_parameters \<Rightarrow> pyfloat" where
  "time_remaining t_elapsed p = max (as_T p - t_elapsed) 1"

definition reservation_price :: "pyfloat \<Rightarrow> pyfloat \<Rightarrow> pyfloat \<Rightarrow> ast_parameters \<Rightarrow> pyfloat" where
  "reservation_price mid inventory t_elapsed p =
     mid - inventory * as_gamma p * as_sigma p ^ 2 * time_remaining t_elapsed p"

definition optimal_spread :: "pyfloat \<Rightarrow> ast_parameters \<Rightarrow> pyfloat" where
  "optimal_spread t_elapsed p =
     as_gamma p * as_sigma p ^ 2 * time_remaining t_elapsed p +
     2 / as_gamma p * ln (1 + as_gamma p / as_kappa p)"

definition optimal_quotes ::
  "pyfloat \<Rightarrow> pyfloat \<Rightarrow> pyfloat \<Rightarrow> ast_parameters \<Rightarrow> pyfloat \<Rightarrow> pyfloat \<times> pyfloat" where
  "optimal_quotes mid inventory t_elapsed p tick_size =
     (let r = reservation_price mid inventory t_elapsed p;
          half_spread = optimal_spread t_elapsed p / 2;
          bid = of_int \<lfloor>(r - half_spread) / tick_size\<rfloor> * tick_size;
          ask = of_int \<lceil>(r + half_spread) / tick_size\<rceil> * tick_size;
          ask = (if ask - bid < tick_size then bid + tick_size else ask)
      in (py_round bid 6, py_round ask 6))"

definition fill_probability :: "pyfloat \<Rightarrow> ast_parameters \<Rightarrow> pyfloat" where
  "fill_probability spread_half p =
     (let intensity = as_kappa p * exp (- spread_half) in 1 - exp (- intensity))"

definition inventory_risk :: "pyfloat \<Rightarrow> pyfloat \<Rightarrow> pyfloat \<Rightarrow> pyfloat" where
  "inventory_risk inventory sigma horizon_sec = 23263 / 10000 * \<bar>inventory\<bar> * sigma * sqrt horizon_sec"

section \<open>Order books\<close>

record level =
  lv_price :: pyfloat
  lv_size :: pyfloat

record order_book =
  bk_bids :: "level list"
  bk_asks :: "level list"

definition book_best_bid :: "order_book \<Rightarrow> pyfloat option" where
  "book_best_bid b = (case bk_bids b of [] \<Rightarrow> None | l # ls \<Rightarrow> Some (lv_price l))"

definition book_best_ask :: "order_book \<Rightarrow> pyfloat option" where
  "book_best_ask b = (case bk_asks b of [] \<Rightarrow> None | l # ls \<Rightarrow> Some (lv_price l))"

definition book_mid :: "order_book \<Rightarrow> pyfloat option" where
  "book_mid b =
     (case (book_best_bid b, book_best_ask b) of
        (Some bb, Some ba) \<Rightarrow> Some ((bb + ba) / 2) | _ \<Rightarrow> None)"

definition book_spread :: "order_book \<Rightarrow> pyfloat option" where
  "book_spread b =
     (case (book_best_bid b, book_best_ask b) of (Some bb, Some ba) \<Rightarrow> Some (ba - bb) | _ \<Rightarrow> None)"

definition order_book_imbalance :: "order_book \<Rightarrow> nat \<Rightarrow> pyfloat" where
  "order_book_imbalance b depth =
     (let bid_vol = sum_list (map lv_size (take depth (bk_bids b)));
          ask_vol = sum_list (map lv_size (take depth (bk_asks b)));
          total = bid_vol + ask_vol
      in if total = 0 then 0 else (bid_vol - ask_vol) / total)"

definition weighted_mid_price :: "order_book \<Rightarrow> pyfloat option" where
  "weighted_mid_price b =
     (case (bk_bids b, bk_asks b) of
        (bb # bids, ba # asks) \<Rightarrow>
          let total = lv_size bb + lv_size ba in
          if total = 0 then book_mid b
          else Some (lv_price ba * (lv_size bb / total) + lv_price bb * (lv_size ba / total))
      | _ \<Rightarrow> None)"

definition market_depth :: "order_book \<Rightarrow> pyfloat \<Rightarrow> pyfloat \<times> pyfloat" where
  "market_depth b price_pct =
     (case book_mid b of
        None \<Rightarrow> (0, 0)
      | Some mid \<Rightarrow>
          let window = mid * price_pct;
              dollars = (\<lambda>ls. sum_list (map (\<lambda>l. lv_price l * lv_size l) ls))
          in (dollars (filter (\<lambda>l. mid - window \<le> lv_price l) (bk_bids b)),
              dollars (filter (\<lambda>l. lv_price l \<le> mid + window) (bk_asks b))))"

section \<open>Impact and benchmarks\<close>

text \<open>A negative participation raises a \<open>ValueError\<close>: \<open>None\<close>.\<close>

definition square_root_impact :: "pyfloat \<Rightarrow> pyfloat \<Rightarrow> pyfloat \<Rightarrow> pyfloat \<Rightarrow> pyfloat option" where
  "square_root_impact order_size adv sigma eta =
     (if adv \<le> 0 then Some 0
      else
        let participation = order_size / adv
        in if participation < 0 then None else Some (eta * sigma * sqrt participation))"

definition implementation_shortfall :: "pyfloat \<Rightarrow> pyfloat \<Rightarrow> pyfloat \<Rightarrow> int \<Rightarrow> pyfloat" where
  "implementation_shortfall decision_price avg_fill shares dir =
     of_int dir * (avg_fill - decision_price) * shares"

record bench_fill =
  bf_price :: pyfloat
  bf_size :: pyfloat

definition vwap :: "bench_fill list \<Rightarrow> pyfloat option" where
  "vwap fills =
     (let total_value = sum_list (map (\<lambda>f. bf_price f * bf_size f) fills);
          total_size = sum_list (map bf_size fills)
      in if total_size = 0 then None else Some (total_value / total_size))"

definition twap :: "bench_fill list \<Rightarrow> pyfloat option" where
  "twap fills = (if fills = [] then None else Some (sum_list (map bf_price fills) / of_nat (length fills)))"

definition slippage_bps :: "pyfloat \<Rightarrow> pyfloat \<Rightarrow> int \<Rightarrow> pyfloat" where
  "slippage_bps executed benchmark dir =
     (if benchmark = 0 then 0 else of_int dir * (executed - benchmark) / benchmark * 10000)"

definition roll_spread :: "pyfloat list \<Rightarrow> pyfloat" where
  "roll_spread changes =
     (let n = length changes in
      if n < 4 then 0
      else
        let m = sum_list changes / of_nat n;
            cov = sum_list (map2 (\<lambda>x y. (x - m) * (y - m)) (tl changes) (butlast changes)) / of_nat (n - 1)
        in if 0 \<le> cov then 0 else sqrt (- cov))"

definition inventory_skew_factor :: "pyfloat \<Rightarrow> pyfloat \<Rightarrow> pyfloat \<Rightarrow> pyfloat" where
  "inventory_skew_factor inventory q_max aggression =
     (if q_max \<le> 0 then 0 else max (- 1) (min 1 (- inventory / q_max * aggression)))"

section \<open>Bounds\<close>

lemma skew_bounds: "- 1 \<le> inventory_skew_factor q q_max a \<and> inventory_skew_factor q q_max a \<le> 1"
  by (simp add: inventory_skew_factor_def)

lemma long_inventory_skews_down:
  "0 < q_max \<Longrightarrow> 0 \<le> a \<Longrightarrow> 0 \<le> q \<Longrightarrow> inventory_skew_factor q q_max a \<le> 0"
proof -
  assume "0 < q_max" "0 \<le> a" "0 \<le> q"
  then have "0 \<le> q * a / q_max" by simp
  with \<open>0 < q_max\<close> show ?thesis by (auto simp: inventory_skew_factor_def max_def min_def)
qed

lemma optimal_spread_pos:
  assumes "0 < as_gamma p" and "0 < as_kappa p"
  shows "0 < optimal_spread t p"
proof -
  have "1 < 1 + as_gamma p / as_kappa p" using assms by simp
  then have "0 < ln (1 + as_gamma p / as_kappa p)" by (rule ln_gt_zero)
  moreover have "0 \<le> as_gamma p * as_sigma p ^ 2 * time_remaining t p"
    using assms by (simp add: time_remaining_def)
  ultimately show ?thesis using assms by (simp add: optimal_spread_def add_nonneg_pos)
qed

text \<open>
  With a positive risk aversion and arrival rate the quotes straddle the reservation price, at
  least half the optimal spread on each side, and are at least a tick apart, up to the
  rounding to six digits.
\<close>

theorem quotes_straddle_reservation:
  fixes mid inventory t tick :: pyfloat and p :: ast_parameters
  defines "r \<equiv> reservation_price mid inventory t p" and "h \<equiv> optimal_spread t p / 2"
    and "q \<equiv> optimal_quotes mid inventory t p tick"
  assumes "0 < as_gamma p" and "0 < as_kappa p" and "0 < tick"
  shows "fst q \<le> r - h + 1 / 2000000" and "r + h - 1 / 2000000 \<le> snd q"
    and "tick - 1 / 1000000 \<le> snd q - fst q"
proof -
  define bid where "bid = of_int \<lfloor>(r - h) / tick\<rfloor> * tick"
  define ask where "ask = of_int \<lceil>(r + h) / tick\<rceil> * tick"
  define ask' where "ask' = (if ask - bid < tick then bid + tick else ask)"
  have q: "q = (py_round bid 6, py_round ask' 6)"
    by (simp add: q_def optimal_quotes_def Let_def bid_def ask_def ask'_def r_def h_def)
  have "bid \<le> r - h" "r + h \<le> ask"
    unfolding bid_def ask_def
    using floor_divide_lower [OF assms(6)] ceiling_divide_upper [OF assms(6)] by blast+
  moreover have "ask \<le> ask'" "tick \<le> ask' - bid" by (simp_all add: ask'_def)
  moreover have "\<bar>py_round bid 6 - bid\<bar> \<le> 1 / 2000000" "\<bar>py_round ask' 6 - ask'\<bar> \<le> 1 / 2000000"
    using py_round_error [of bid 6] py_round_error [of ask' 6] by simp_all
  ultimately show "fst q \<le> r - h + 1 / 2000000" "r + h - 1 / 2000000 \<le> snd q"
      "tick - 1 / 1000000 \<le> snd q - fst q"
    unfolding q fst_conv snd_conv by linarith+
qed

theorem quotes_straddle_reservation_witness:
  "9 / 1000 \<le> snd (optimal_quotes 100 0 0 ast_defaults (1 / 100)) - fst (optimal_quotes 100 0 0 ast_defaults (1 / 100))"
  using quotes_straddle_reservation(3) [of ast_defaults "1 / 100" 100 0 0] by (simp add: ast_defaults_def)

definition sizes_nonneg :: "order_book \<Rightarrow> bool" where
  "sizes_nonneg b \<longleftrightarrow> list_all (\<lambda>l. 0 \<le> lv_size l) (bk_bids b @ bk_asks b)"

lemma imbalance_bounds:
  assumes "sizes_nonneg b"
  shows "\<bar>order_book_imbalance b depth\<bar> \<le> 1"
proof -
  have "0 \<le> sum_list (map lv_size (take depth (bk_bids b)))" "0 \<le> sum_list (map lv_size (take depth (bk_asks b)))"
    using assms by (auto simp: sizes_nonneg_def list_all_iff intro!: sum_list_nonneg dest!: in_set_takeD)
  then show ?thesis
    by (auto simp: order_book_imbalance_def Let_def abs_le_iff pos_divide_le_eq pos_le_divide_eq)
qed

lemma convex_between:
  fixes w :: real
  assumes "0 \<le> w" and "w \<le> 1" and "x \<le> y"
  shows "x \<le> y * w + x * (1 - w)" and "y * w + x * (1 - w) \<le> y"
proof -
  have "y * w + x * (1 - w) = x + (y - x) * w" by (simp add: algebra_simps)
  moreover have "0 \<le> (y - x) * w" "(y - x) * w \<le> y - x"
    using assms by (simp_all add: mult_left_le)
  ultimately show "x \<le> y * w + x * (1 - w)" "y * w + x * (1 - w) \<le> y" by linarith+
qed

text \<open>
  In a book with sizes that are not negative the imbalance is between minus one and one, and the
  microprice is between the best bid and the best ask when these are not crossed.
\<close>

theorem book_measures_in_bounds:
  assumes "sizes_nonneg b" and "book_best_bid b = Some x" and "book_best_ask b = Some y" and "x \<le> y"
  shows "\<bar>order_book_imbalance b depth\<bar> \<le> 1"
    and "(case weighted_mid_price b of None \<Rightarrow> False | Some m \<Rightarrow> x \<le> m \<and> m \<le> y)"
proof -
  show "\<bar>order_book_imbalance b depth\<bar> \<le> 1" by (rule imbalance_bounds) fact
  obtain bb bids ba asks where b: "bk_bids b = bb # bids" "bk_asks b = ba # asks" "x = lv_price bb" "y = lv_price ba"
    using assms(2,3) by (auto simp: book_best_bid_def book_best_ask_def split: list.splits)
  have nn: "0 \<le> lv_size bb" "0 \<le> lv_size ba" using assms(1) by (simp_all add: sizes_nonneg_def b)
  show "(case weighted_mid_price b of None \<Rightarrow> False | Some m \<Rightarrow> x \<le> m \<and> m \<le> y)"
  proof (cases "lv_size bb + lv_size ba = 0")
    case True
    with assms b show ?thesis by (simp add: weighted_mid_price_def book_mid_def)
  next
    case False
    define w where "w = lv_size bb / (lv_size bb + lv_size ba)"
    have "lv_size ba / (lv_size bb + lv_size ba) = 1 - w" using False by (simp add: w_def field_simps)
    moreover have "0 \<le> w" "w \<le> 1" using nn False by (simp_all add: w_def)
    ultimately show ?thesis
      using False convex_between [of w x y] assms(4) b by (simp add: weighted_mid_price_def w_def [symmetric])
  qed
qed

theorem book_measures_in_bounds_witness:
  "\<bar>order_book_imbalance \<lparr>bk_bids = [\<lparr>lv_price = 99, lv_size = 5\<rparr>], bk_asks = [\<lparr>lv_price = 101, lv_size = 15\<rparr>]\<rparr> 5\<bar> \<le> 1"
  by (rule book_measures_in_bounds(1) [where x = 99 and y = 101])
     (simp_all add: sizes_nonneg_def book_best_bid_def book_best_ask_def)

lemma fill_probability_bounds:
  "0 \<le> as_kappa p \<Longrightarrow> 0 \<le> fill_probability d p \<and> fill_probability d p < 1"
  by (simp add: fill_probability_def Let_def)

end
