(* ===== verification/Market_Making.thy ===== *)
theory Market_Making
  imports Microstructure Enums
begin

text \<open>
  The market-making agent of \<open>agents/agent_20_market_making.py\<close>: per symbol its inventory, its resting
  quotes and its profit, and the loop that renews the quotes of one symbol after the other. The loop
  is suspended while quotes are cancelled and while each of the two orders is sent, and fills, the
  kill switch and the end of the session arrive in between: so a renewal is a sequence of
  events, with the place in the loop in the state. The clock, the mid price, the drift that the
  imbalance model predicts and the broker's answers are arguments. A handler that cancels all
  quotes is one event. The latency budget and the heartbeat are left out.
\<close>

section \<open>State\<close>

datatype inventory_action = SKEW_BID | SKEW_ASK | NEUTRAL_QUOTES | PULL_QUOTES

record mm_symbol =
  mk_params :: ast_parameters
  mk_inventory :: pyfloat
  mk_bid_id :: "string option"
  mk_ask_id :: "string option"
  mk_bid_price :: pyfloat
  mk_ask_price :: pyfloat
  mk_total_pnl :: pyfloat
  mk_fills_today :: nat
  mk_action :: inventory_action

definition mm_symbol_init :: "ast_parameters \<Rightarrow> mm_symbol" where
  "mm_symbol_init p = \<lparr>mk_params = p, mk_inventory = 0, mk_bid_id = None, mk_ask_id = None, mk_bid_price = 0,
     mk_ask_price = 0, mk_total_pnl = 0, mk_fills_today = 0, mk_action = NEUTRAL_QUOTES\<rparr>"

definition inventory_var :: "pyfloat \<Rightarrow> mm_symbol \<Rightarrow> pyfloat" where
  "inventory_var horizon_sec k = inventory_risk (mk_inventory k) (as_sigma (mk_params k)) horizon_sec"

record mm_config =
  mq_symbols :: "symbol list"
  mq_max_inventory :: pyfloat
  mq_tick_size :: pyfloat
  mq_lob_alpha :: pyfloat

definition mm_defaults :: "symbol list \<Rightarrow> mm_config" where
  "mm_defaults symbols = \<lparr>mq_symbols = symbols, mq_max_inventory = 1000, mq_tick_size = 1 / 100,
     mq_lob_alpha = 3 / 10\<rparr>"

text \<open>The quote in the making: symbol, mid, bid and ask.\<close>

record quote_pair =
  qp_symbol :: symbol
  qp_mid :: pyfloat
  qp_bid :: pyfloat
  qp_ask :: pyfloat

datatype mm_place =
    Between_Symbols
  | Cancelling quote_pair
  | Sending_Bid quote_pair pyfloat
  | Sending_Ask quote_pair pyfloat string

record mm =
  mm_states :: "(symbol \<times> mm_symbol) list"
  mm_running :: bool
  mm_place :: mm_place
  mm_round :: "symbol list"
  mm_session_pnl :: pyfloat
  mm_total_fills :: nat

definition mm_init :: "mm_config \<Rightarrow> (symbol \<rightharpoonup> ast_parameters) \<Rightarrow> mm" where
  "mm_init cf params = \<lparr>mm_states = map (\<lambda>sy. (sy, mm_symbol_init (case params sy of
       None \<Rightarrow> ast_defaults | Some p \<Rightarrow> p))) (remdups (mq_symbols cf)),
     mm_running = False, mm_place = Between_Symbols, mm_round = [], mm_session_pnl = 0, mm_total_fills = 0\<rparr>"

datatype mm_effect =
    Mm_Cancel string
  | Mm_Order symbol order_side pyfloat pyfloat
  | Mm_Publish_Quotes symbol string string pyfloat
  | Mm_Publish_Position symbol pyfloat pyfloat

section \<open>Computing quotes\<close>

definition skewed_quotes ::
  "mm_config \<Rightarrow> mm_symbol \<Rightarrow> pyfloat \<Rightarrow> pyfloat \<Rightarrow> pyfloat option \<Rightarrow> pyfloat \<times> pyfloat" where
  "skewed_quotes cf k mid t_elapsed drift =
     (let (bid, ask) = optimal_quotes mid (mk_inventory k) t_elapsed (mk_params k) (mq_tick_size cf);
          skew = inventory_skew_factor (mk_inventory k) (mq_max_inventory cf) 1;
          skew = (case drift of
              None \<Rightarrow> skew
            | Some d \<Rightarrow> max (- 1) (min 1 (skew * (1 + d * mq_lob_alpha cf))));
          half_spread = (ask - bid) / 2
      in (bid + skew * half_spread * (1 / 2), ask + skew * half_spread * (1 / 2)))"

definition compute_quote_size :: "mm_config \<Rightarrow> mm_symbol \<Rightarrow> pyfloat" where
  "compute_quote_size cf k =
     (let inv_fraction = \<bar>mk_inventory k\<bar> / mq_max_inventory cf;
          scale = max (1 / 10) (1 - inv_fraction)
      in max 1 (of_int (round_half_even (100 * scale))))"

definition classify_inventory_action :: "mm_config \<Rightarrow> mm_symbol \<Rightarrow> inventory_action" where
  "classify_inventory_action cf k =
     (let inv_fraction = mk_inventory k / mq_max_inventory cf
      in if 7 / 10 < inv_fraction then SKEW_BID
         else if inv_fraction < - (7 / 10) then SKEW_ASK else NEUTRAL_QUOTES)"

definition resting :: "mm_symbol \<Rightarrow> string list" where
  "resting k = concat (map (\<lambda>i. case i of None \<Rightarrow> [] | Some x \<Rightarrow> if x = [] then [] else [x])
     [mk_bid_id k, mk_ask_id k])"

definition drop_quotes :: "mm_symbol \<Rightarrow> mm_symbol" where
  "drop_quotes k = k\<lparr>mk_bid_id := None, mk_ask_id := None\<rparr>"

definition put_symbol :: "symbol \<Rightarrow> mm_symbol \<Rightarrow> mm \<Rightarrow> mm" where
  "put_symbol sy k s = s\<lparr>mm_states := AList.update sy k (mm_states s)\<rparr>"

definition cancel_all_quotes :: "mm \<Rightarrow> mm \<times> mm_effect list" where
  "cancel_all_quotes s =
     (s\<lparr>mm_states := map (\<lambda>(sy, k). (sy, drop_quotes k)) (mm_states s)\<rparr>,
      map Mm_Cancel (concat (map (\<lambda>(sy, k). resting k) (mm_states s))))"

section \<open>The loop\<close>

text \<open>
  A round is started only while the agent runs; a symbol of a started round is taken whether
  it still runs or not.
\<close>

definition take_symbol ::
  "mm_config \<Rightarrow> pyfloat option \<Rightarrow> pyfloat \<Rightarrow> pyfloat option \<Rightarrow> mm \<Rightarrow> mm \<times> mm_effect list" where
  "take_symbol cf mid t_elapsed drift s =
     (case mm_round s of
        [] \<Rightarrow> (s, [])
      | sy # rest \<Rightarrow>
          let s = s\<lparr>mm_round := rest\<rparr> in
          (case (map_of (mm_states s) sy, mid) of
             (Some k, Some m) \<Rightarrow>
               if m \<le> 0 then (s, [])
               else
                 let (bid, ask) = skewed_quotes cf k m t_elapsed drift;
                     k = k\<lparr>mk_action := classify_inventory_action cf k\<rparr>
                 in ((put_symbol sy k s)\<lparr>mm_place := Cancelling
                        \<lparr>qp_symbol = sy, qp_mid = m, qp_bid = bid, qp_ask = ask\<rparr>\<rparr>,
                     map Mm_Cancel (resting k))
           | _ \<Rightarrow> (s, [])))"

text \<open>The limit is checked after the cancellations, on the inventory of that moment.\<close>

definition cancels_done :: "mm_config \<Rightarrow> mm \<Rightarrow> mm \<times> mm_effect list" where
  "cancels_done cf s =
     (case mm_place s of
        Cancelling q \<Rightarrow>
          (case map_of (mm_states s) (qp_symbol q) of
             None \<Rightarrow> (s, [])
           | Some k \<Rightarrow>
               let k = drop_quotes k in
               if mq_max_inventory cf \<le> \<bar>mk_inventory k\<bar>
               then ((put_symbol (qp_symbol q) (k\<lparr>mk_action := PULL_QUOTES\<rparr>) s)\<lparr>mm_place := Between_Symbols\<rparr>, [])
               else
                 let n = compute_quote_size cf k
                 in ((put_symbol (qp_symbol q) k s)\<lparr>mm_place := Sending_Bid q n\<rparr>,
                     [Mm_Order (qp_symbol q) BUY n (py_round (qp_bid q) 4)]))
      | _ \<Rightarrow> (s, []))"

text \<open>A failed order ends the renewal of the symbol: \<open>None\<close>.\<close>

definition order_answered :: "string option \<Rightarrow> mm \<Rightarrow> mm \<times> mm_effect list" where
  "order_answered ans s =
     (case mm_place s of
        Sending_Bid q n \<Rightarrow>
          (case ans of
             None \<Rightarrow> (s\<lparr>mm_place := Between_Symbols\<rparr>, [])
           | Some i \<Rightarrow> (s\<lparr>mm_place := Sending_Ask q n i\<rparr>,
                         [Mm_Order (qp_symbol q) SELL n (py_round (qp_ask q) 4)]))
      | Sending_Ask q n bid_id \<Rightarrow>
          (case (ans, map_of (mm_states s) (qp_symbol q)) of
             (Some ask_id, Some k) \<Rightarrow>
               ((put_symbol (qp_symbol q) (k\<lparr>mk_bid_id := Some bid_id, mk_ask_id := Some ask_id,
                    mk_bid_price := qp_bid q, mk_ask_price := qp_ask q\<rparr>) s)\<lparr>mm_place := Between_Symbols\<rparr>,
                [Mm_Publish_Quotes (qp_symbol q) bid_id ask_id ((qp_ask q - qp_bid q) / qp_mid q * 10000)])
           | _ \<Rightarrow> (s\<lparr>mm_place := Between_Symbols\<rparr>, []))
      | _ \<Rightarrow> (s, []))"

section \<open>Handlers\<close>

definition mm_on_fill ::
  "symbol \<Rightarrow> string \<Rightarrow> pyfloat \<Rightarrow> pyfloat \<Rightarrow> pyfloat option \<Rightarrow> mm \<Rightarrow> mm \<times> mm_effect list" where
  "mm_on_fill sy side qty price mid s =
     (case map_of (mm_states s) sy of
        None \<Rightarrow> (s, [])
      | Some k \<Rightarrow>
          let inv = (if side \<in> set [''buy'', ''buy_to_cover''] then mk_inventory k + qty else mk_inventory k - qty);
              m = (case mid of None \<Rightarrow> price | Some m \<Rightarrow> if m = 0 then price else m);
              edge = \<bar>price - m\<bar>;
              k = k\<lparr>mk_inventory := inv, mk_total_pnl := mk_total_pnl k + edge * qty,
                    mk_fills_today := mk_fills_today k + 1\<rparr>
          in ((put_symbol sy k s)\<lparr>mm_session_pnl := mm_session_pnl s + edge * qty,
                mm_total_fills := mm_total_fills s + 1\<rparr>,
              [Mm_Publish_Position sy inv (mk_total_pnl k)]))"

definition mm_on_kill_switch :: "mm \<Rightarrow> mm \<times> mm_effect list" where
  "mm_on_kill_switch s = cancel_all_quotes (s\<lparr>mm_running := False\<rparr>)"

definition mm_on_session_end :: "mm \<Rightarrow> mm \<times> mm_effect list" where
  "mm_on_session_end s = (let (s, out) = cancel_all_quotes s in (s\<lparr>mm_running := False\<rparr>, out))"

text \<open>\<open>stop\<close> also cancels the task of the loop, wherever it is.\<close>

definition mm_stop :: "mm \<Rightarrow> mm \<times> mm_effect list" where
  "mm_stop s = cancel_all_quotes (s\<lparr>mm_running := False, mm_place := Between_Symbols, mm_round := []\<rparr>)"

record inventory_row =
  ir_inventory :: pyfloat
  ir_inventory_risk_60s :: pyfloat
  ir_pnl :: pyfloat
  ir_fills :: nat
  ir_action :: inventory_action
  ir_bid :: pyfloat
  ir_ask :: pyfloat

definition inventory_report :: "mm \<Rightarrow> (symbol \<times> inventory_row) list" where
  "inventory_report s = map (\<lambda>(sy, k). (sy, \<lparr>ir_inventory = mk_inventory k,
     ir_inventory_risk_60s = inventory_var 60 k, ir_pnl = mk_total_pnl k, ir_fills = mk_fills_today k,
     ir_action = mk_action k, ir_bid = mk_bid_price k, ir_ask = mk_ask_price k\<rparr>)) (mm_states s)"

datatype mm_event =
    Mm_Started
  | Mm_Round
  | Mm_Take "pyfloat option" pyfloat "pyfloat option"
  | Mm_Cancels_Done
  | Mm_Order_Answer "string option"
  | Mm_Fill symbol string pyfloat pyfloat "pyfloat option"
  | Mm_Kill
  | Mm_Session_End
  | Mm_Stop

fun mm_act :: "mm_config \<Rightarrow> mm \<Rightarrow> mm_event \<Rightarrow> mm \<times> mm_effect list" where
  "mm_act cf s Mm_Started = (s\<lparr>mm_running := True\<rparr>, [])"
| "mm_act cf s Mm_Round =
     (if mm_running s \<and> mm_place s = Between_Symbols \<and> mm_round s = []
      then (s\<lparr>mm_round := mq_symbols cf\<rparr>, []) else (s, []))"
| "mm_act cf s (Mm_Take mid t drift) =
     (if mm_place s = Between_Symbols then take_symbol cf mid t drift s else (s, []))"
| "mm_act cf s Mm_Cancels_Done = cancels_done cf s"
| "mm_act cf s (Mm_Order_Answer ans) = order_answered ans s"
| "mm_act cf s (Mm_Fill sy side qty price mid) = mm_on_fill sy side qty price mid s"
| "mm_act cf s Mm_Kill = mm_on_kill_switch s"
| "mm_act cf s Mm_Session_End = mm_on_session_end s"
| "mm_act cf s Mm_Stop = mm_stop s"

definition mm_step :: "mm_config \<Rightarrow> mm \<Rightarrow> mm_event \<Rightarrow> mm" where
  "mm_step cf s e = fst (mm_act cf s e)"

definition mm_emits :: "mm_config \<Rightarrow> mm \<Rightarrow> mm_event \<Rightarrow> mm_effect list" where
  "mm_emits cf s e = snd (mm_act cf s e)"

section \<open>Limits\<close>

lemma skew_keeps_spread:
  "snd (skewed_quotes cf k mid t drift) - fst (skewed_quotes cf k mid t drift) =
     snd (optimal_quotes mid (mk_inventory k) t (mk_params k) (mq_tick_size cf)) -
     fst (optimal_quotes mid (mk_inventory k) t (mk_params k) (mq_tick_size cf))"
  by (simp add: skewed_quotes_def Let_def case_prod_unfold)

lemma quote_size_bounds:
  assumes "0 < mq_max_inventory cf"
  shows "1 \<le> compute_quote_size cf k \<and> compute_quote_size cf k \<le> 100"
proof -
  have "round_half_even x \<le> 100" if "x \<le> 100" for x :: real
    using round_half_even_error [of x] that by linarith
  moreover have "max (1 / 10) (1 - \<bar>mk_inventory k\<bar> / mq_max_inventory cf) \<le> 1"
    using assms by simp
  ultimately show ?thesis by (simp add: compute_quote_size_def Let_def)
qed

text \<open>
  A bid is sent only for a symbol whose inventory is under the limit at that moment, in a size between
  one and a hundred shares.
\<close>

theorem bid_only_under_inventory_limit:
  assumes "Mm_Order sy BUY n price \<in> set (mm_emits cf s e)" and "0 < mq_max_inventory cf"
  shows "1 \<le> n \<and> n \<le> 100 \<and>
    (case map_of (mm_states s) sy of None \<Rightarrow> False | Some k \<Rightarrow> \<bar>mk_inventory k\<bar> < mq_max_inventory cf)"
proof -
  have size: "1 \<le> compute_quote_size cf k \<and> compute_quote_size cf k \<le> 100" for k
    by (rule quote_size_bounds) fact
  have nb: "Mm_Order sy BUY n price \<notin> set (snd (take_symbol cf mid t drift s))" for mid t drift
    by (auto simp: take_symbol_def Let_def case_prod_unfold split: list.splits option.splits)
  have na: "Mm_Order sy BUY n price \<notin> set (snd (order_answered ans s))" for ans
    by (auto simp: order_answered_def split: mm_place.splits option.splits)
  have "e = Mm_Cancels_Done"
    using assms(1) nb na
    by (cases e) (auto simp: mm_emits_def mm_on_fill_def mm_on_kill_switch_def mm_on_session_end_def mm_stop_def
        cancel_all_quotes_def Let_def split: option.splits if_splits)
  with assms(1) size show ?thesis
    by (auto simp: mm_emits_def cancels_done_def drop_quotes_def Let_def not_le
        split: mm_place.splits option.splits if_splits)
qed

section \<open>After the kill switch\<close>

fun is_order :: "mm_effect \<Rightarrow> bool" where
  "is_order (Mm_Order sy side n p) = True"
| "is_order _ = False"

fun place_orders :: "mm_place \<Rightarrow> nat" where
  "place_orders Between_Symbols = 0"
| "place_orders (Cancelling q) = 2"
| "place_orders (Sending_Bid q n) = 1"
| "place_orders (Sending_Ask q n i) = 0"

definition orders_left :: "mm \<Rightarrow> nat" where
  "orders_left s = place_orders (mm_place s) + 2 * length (mm_round s)"

text \<open>A stopped agent that nothing starts again.\<close>

fun restarts :: "mm_event \<Rightarrow> bool" where
  "restarts Mm_Started = True"
| "restarts _ = False"

definition stopped_step :: "mm_config \<Rightarrow> mm \<Rightarrow> mm_event \<Rightarrow> mm" where
  "stopped_step cf s e = (if mm_running s \<or> restarts e then s else mm_step cf s e)"

definition stopped_emits :: "mm_config \<Rightarrow> mm \<Rightarrow> mm_event \<Rightarrow> mm_effect list" where
  "stopped_emits cf s e = (if mm_running s \<or> restarts e then [] else mm_emits cf s e)"

lemma no_orders [simp]:
  "filter is_order (map Mm_Cancel xs) = []"
  by (induction xs) auto

lemma frame_simps [simp]:
  "mm_running (put_symbol sy k s) = mm_running s" "mm_place (put_symbol sy k s) = mm_place s"
  "mm_round (put_symbol sy k s) = mm_round s"
  "mm_running (fst (cancel_all_quotes s)) = mm_running s" "mm_place (fst (cancel_all_quotes s)) = mm_place s"
  "mm_round (fst (cancel_all_quotes s)) = mm_round s" "filter is_order (snd (cancel_all_quotes s)) = []"
  by (simp_all add: put_symbol_def cancel_all_quotes_def)

lemma stopped_pays:
  "length (filter is_order (stopped_emits cf s e)) + orders_left (stopped_step cf s e) \<le> orders_left s + 0"
proof (cases "mm_running s \<or> restarts e")
  case True
  then show ?thesis by (auto simp: stopped_emits_def stopped_step_def)
next
  case False
  then have "length (filter is_order (mm_emits cf s e)) + orders_left (mm_step cf s e) \<le> orders_left s"
    by (cases e)
      (auto simp: mm_emits_def mm_step_def orders_left_def take_symbol_def cancels_done_def order_answered_def
        mm_on_fill_def mm_on_kill_switch_def mm_on_session_end_def mm_stop_def Let_def case_prod_unfold
        split: list.split option.split mm_place.split)
  with False show ?thesis by (simp add: stopped_emits_def stopped_step_def)
qed

interpretation stopped: budget "stopped_step cf" "stopped_emits cf" is_order orders_left "\<lambda>_. 0" for cf
  by unfold_locales (rule stopped_pays)

lemma stopped_run:
  assumes "\<not> mm_running s" and "list_all (\<lambda>e. \<not> restarts e) es"
  shows "run_out (mm_step cf) (mm_emits cf) s es = run_out (stopped_step cf) (stopped_emits cf) s es"
  using assms
proof (induction es arbitrary: s)
  case (Cons e es)
  have "\<not> mm_running (mm_step cf s e)"
    using Cons.prems
    by (cases e)
      (auto simp: mm_step_def take_symbol_def cancels_done_def order_answered_def mm_on_fill_def
        mm_on_kill_switch_def mm_on_session_end_def mm_stop_def Let_def case_prod_unfold
        split: list.split option.split mm_place.split)
  with Cons show ?case by (simp add: stopped_step_def stopped_emits_def)
qed simp

text \<open>
  C32. After the kill switch the loop can still send orders, since it only looks at the switch between
  two rounds: at most two for each symbol that the round had left, and at most two for the one it was at;
  between rounds it sends none.
\<close>

theorem orders_after_kill_bounded:
  assumes "list_all (\<lambda>e. \<not> restarts e) es"
  shows "length (filter is_order (run_out (mm_step cf) (mm_emits cf) (mm_step cf s Mm_Kill) es))
    \<le> place_orders (mm_place s) + 2 * length (mm_round s)"
proof -
  have "\<not> mm_running (mm_step cf s Mm_Kill)" "orders_left (mm_step cf s Mm_Kill) = orders_left s"
    by (simp_all add: mm_step_def mm_on_kill_switch_def orders_left_def)
  with stopped.run_pays [of cf "mm_step cf s Mm_Kill" es] stopped_run [of "mm_step cf s Mm_Kill" es cf] assms
  show ?thesis by (simp add: orders_left_def)
qed

definition demo_mm :: mm where
  "demo_mm = (mm_init (mm_defaults [''SPY'']) Map.empty)\<lparr>mm_running := True,
     mm_place := Sending_Bid \<lparr>qp_symbol = ''SPY'', qp_mid = 100, qp_bid = 99, qp_ask = 101\<rparr> 100\<rparr>"

theorem orders_after_kill_bounded_witness:
  "length (filter is_order (run_out (mm_step (mm_defaults [''SPY''])) (mm_emits (mm_defaults [''SPY'']))
     (mm_step (mm_defaults [''SPY'']) demo_mm Mm_Kill) [Mm_Order_Answer (Some ''b1''), Mm_Order_Answer (Some ''a1'')])) \<le> 1"
  using orders_after_kill_bounded [of "[Mm_Order_Answer (Some ''b1''), Mm_Order_Answer (Some ''a1'')]"
      "mm_defaults [''SPY'']" demo_mm]
  by (simp add: demo_mm_def mm_init_def)

text \<open>
  The bound is met, and what was sent stays: killed while its bid is on the way, the agent still sends
  the ask, keeps both quotes and is not running. And an ask that fails leaves a bid that no state
  names.
\<close>

lemma quotes_rest_after_kill:
  "(case map_of (mm_states (foldl (mm_step (mm_defaults [''SPY''])) demo_mm
        [Mm_Kill, Mm_Order_Answer (Some ''b1''), Mm_Order_Answer (Some ''a1'')])) ''SPY'' of
      None \<Rightarrow> False | Some k \<Rightarrow> resting k = [''b1'', ''a1''])"
  by (simp add: mm_step_def mm_on_kill_switch_def cancel_all_quotes_def order_answered_def demo_mm_def mm_init_def
      mm_defaults_def put_symbol_def resting_def drop_quotes_def)

lemma bid_lost_on_failed_ask:
  "(case map_of (mm_states (foldl (mm_step (mm_defaults [''SPY''])) demo_mm
        [Mm_Order_Answer (Some ''b1''), Mm_Order_Answer None])) ''SPY'' of
      None \<Rightarrow> False | Some k \<Rightarrow> resting k = [])"
  by (simp add: mm_step_def order_answered_def demo_mm_def mm_init_def mm_defaults_def resting_def mm_symbol_init_def)

theorem bid_only_under_inventory_limit_witness:
  "1 \<le> compute_quote_size (mm_defaults [''SPY'']) (mm_symbol_init ast_defaults) \<and>
   \<bar>mk_inventory (mm_symbol_init ast_defaults)\<bar> < 1000"
proof -
  let ?s = "demo_mm\<lparr>mm_place := Cancelling \<lparr>qp_symbol = ''SPY'', qp_mid = 100, qp_bid = 99, qp_ask = 101\<rparr>\<rparr>"
  have drop: "drop_quotes (mm_symbol_init ast_defaults) = mm_symbol_init ast_defaults"
    by (simp add: drop_quotes_def mm_symbol_init_def)
  have st: "map_of (mm_states ?s) ''SPY'' = Some (mm_symbol_init ast_defaults)"
    by (simp add: demo_mm_def mm_init_def mm_defaults_def)
  have "Mm_Order ''SPY'' BUY (compute_quote_size (mm_defaults [''SPY'']) (mm_symbol_init ast_defaults))
      (py_round 99 4) \<in> set (mm_emits (mm_defaults [''SPY'']) ?s Mm_Cancels_Done)"
    using st
    by (simp add: mm_emits_def cancels_done_def drop Let_def) (simp add: mm_symbol_init_def mm_defaults_def)
  from bid_only_under_inventory_limit [OF this] st show ?thesis by (simp add: mm_defaults_def)
qed

text \<open>The profit of a fill is a distance: it never records a loss.\<close>

lemma profit_never_falls:
  "0 \<le> qty \<Longrightarrow> mm_session_pnl s \<le> mm_session_pnl (mm_step cf s (Mm_Fill sy side qty price mid))"
  by (simp add: mm_step_def mm_on_fill_def Let_def put_symbol_def split: option.split)

end
