(* ===== verification/Statistics.thy ===== *)
theory Statistics
  imports Prelude
begin

text \<open>
  The statistics of \<open>core/statistics.py\<close>: regression by least squares, the unit-root test, cointegration,
  the Ornstein-Uhlenbeck fit, the filter of the hedge ratio, rolling scores, the Hurst exponent, the signal
  and the screening of pairs. Every exception is an error value: \<open>Value_Error\<close> for a raised
  \<open>ValueError\<close> (of the code or of \<open>math.sqrt\<close>), \<open>Zero_Division\<close> for a division by zero. The number of
  lags and the windows are natural numbers. The filter updates its state in place; here it is returned.
\<close>

datatype stat_error = Value_Error | Zero_Division

section \<open>Least squares\<close>

definition mean_of :: "pyfloat list \<Rightarrow> pyfloat" where
  "mean_of xs = sum_list xs / of_nat (length xs)"

definition ols :: "pyfloat list \<Rightarrow> pyfloat list \<Rightarrow> stat_error + pyfloat \<times> pyfloat \<times> pyfloat" where
  "ols x y =
     (if length x \<noteq> length y \<or> length x < 2 then Inl Value_Error
      else
        let x_mean = mean_of x;
            y_mean = mean_of y;
            ss_xx = sum_list (map (\<lambda>xi. (xi - x_mean) ^ 2) x);
            ss_xy = sum_list (map (\<lambda>(xi, yi). (xi - x_mean) * (yi - y_mean)) (zip x y))
        in if ss_xx = 0 then Inl Value_Error
           else
             let beta = ss_xy / ss_xx;
                 alpha = y_mean - beta * x_mean;
                 y_hat = map (\<lambda>xi. alpha + beta * xi) x;
                 ss_res = sum_list (map (\<lambda>(yi, yhi). (yi - yhi) ^ 2) (zip y y_hat));
                 ss_tot = sum_list (map (\<lambda>yi. (yi - y_mean) ^ 2) y)
             in Inr (alpha, beta, if 0 < ss_tot then 1 - ss_res / ss_tot else 0))"

definition differences :: "pyfloat list \<Rightarrow> pyfloat list" where
  "differences xs = map (\<lambda>i. xs ! i - xs ! (i - 1)) [1..<length xs]"

section \<open>The unit-root test\<close>

record adf_result =
  af_statistic :: pyfloat
  af_is_stationary_5pct :: bool
  af_n_lags :: nat

definition adf_critical_5pct :: pyfloat where
  "adf_critical_5pct = - 286 / 100"

text \<open>
  The regression takes the lagged level only; the design matrix with the lagged differences that the
  code builds before it is read by nothing and left out. The residuals leave the intercept out.
\<close>

definition adf_test :: "pyfloat list \<Rightarrow> nat \<Rightarrow> stat_error + adf_result" where
  "adf_test series lags =
     (if length series < lags + 4 then Inl Value_Error
      else
        let n = length series;
            y = drop lags (differences series);
            x_lag = map (\<lambda>i. series ! i) [lags..<n - 1];
            x = take (length y) x_lag
        in case ols x y of
             Inl e \<Rightarrow> Inl e
           | Inr (a, gamma, r2) \<Rightarrow>
               let residuals = map (\<lambda>(yi, yhi). yi - yhi) (zip y (map (\<lambda>xi. gamma * xi) x));
                   none = \<lparr>af_statistic = 0, af_is_stationary_5pct = False, af_n_lags = lags\<rparr>
               in if length residuals < 2 then Inr none
                  else
                    let se_num = sum_list (map (\<lambda>r. r ^ 2) residuals) / (of_nat (length residuals) - 1);
                        x_sq = sum_list (map (\<lambda>xi. (xi - mean_of x_lag) ^ 2) x)
                    in if x_sq = 0 \<or> se_num = 0 then Inr none
                       else let t = gamma / sqrt (se_num / x_sq)
                            in Inr \<lparr>af_statistic = t, af_is_stationary_5pct = (t < adf_critical_5pct), af_n_lags = lags\<rparr>)"

section \<open>The Ornstein-Uhlenbeck fit\<close>

record ou_params =
  ou_theta :: pyfloat
  ou_mu :: pyfloat
  ou_sigma :: pyfloat
  ou_half_life :: pyfloat

definition theta_floor :: pyfloat where
  "theta_floor = 1 / 10 ^ 8"

text \<open>\<open>statistics.variance\<close> of at least two values.\<close>

definition sample_variance :: "pyfloat list \<Rightarrow> pyfloat" where
  "sample_variance xs = sum_list (map (\<lambda>v. (v - mean_of xs) ^ 2) xs) / (of_nat (length xs) - 1)"

definition fit_ou :: "pyfloat list \<Rightarrow> pyfloat \<Rightarrow> stat_error + ou_params" where
  "fit_ou spread dt =
     (if length spread < 4 then Inl Value_Error
      else
        let s_lag = butlast spread;
            delta_s = differences spread
        in case ols s_lag delta_s of
             Inl e \<Rightarrow> Inl e
           | Inr (a, b, r2) \<Rightarrow>
               let theta = max (if 0 < dt then - b / dt else 0) theta_floor;
                   mu = (if theta_floor < theta then a / (theta * dt) else mean_of spread);
                   residuals = map (\<lambda>(ds, sl). ds - a - b * sl) (zip delta_s s_lag)
               in if 1 < length residuals \<and> dt < 0 then Inl Value_Error
                  else if 1 < length residuals \<and> dt = 0 then Inl Zero_Division
                  else Inr \<lparr>ou_theta = theta, ou_mu = mu,
                    ou_sigma = (if 1 < length residuals then sqrt (sample_variance residuals) / sqrt dt else 0),
                    ou_half_life = ln 2 / theta\<rparr>)"

definition half_life_ou :: "pyfloat list \<Rightarrow> pyfloat \<Rightarrow> pyfloat" where
  "half_life_ou spread dt = (case fit_ou spread dt of Inl e \<Rightarrow> - 1 | Inr p \<Rightarrow> ou_half_life p)"

section \<open>Cointegration\<close>

record coint_result =
  co_is_cointegrated :: bool
  co_hedge_ratio :: pyfloat
  co_intercept :: pyfloat
  co_r_squared :: pyfloat
  co_spread_adf :: adf_result
  co_half_life :: pyfloat

definition pair_residuals :: "pyfloat \<Rightarrow> pyfloat \<Rightarrow> pyfloat list \<Rightarrow> pyfloat list \<Rightarrow> pyfloat list" where
  "pair_residuals alpha beta y x = map (\<lambda>(yi, xi). yi - alpha - beta * xi) (zip y x)"

definition engle_granger :: "pyfloat list \<Rightarrow> pyfloat list \<Rightarrow> nat \<Rightarrow> stat_error + coint_result" where
  "engle_granger y x adf_lags =
     (case ols x y of
        Inl e \<Rightarrow> Inl e
      | Inr (alpha, beta, r2) \<Rightarrow>
          let residuals = pair_residuals alpha beta y x
          in case adf_test residuals adf_lags of
               Inl e \<Rightarrow> Inl e
             | Inr adf \<Rightarrow> Inr \<lparr>co_is_cointegrated = af_is_stationary_5pct adf, co_hedge_ratio = beta,
                 co_intercept = alpha, co_r_squared = r2, co_spread_adf = adf,
                 co_half_life = half_life_ou residuals 1\<rparr>)"

section \<open>The filter of the hedge ratio\<close>

record kalman_state =
  ka_beta :: pyfloat
  ka_P :: pyfloat
  ka_R :: pyfloat
  ka_Q :: pyfloat
  ka_delta :: pyfloat

definition kalman_fresh :: kalman_state where
  "kalman_fresh = \<lparr>ka_beta = 1, ka_P = 1, ka_R = 1 / 1000, ka_Q = 1 / 100000, ka_delta = 1 / 10000\<rparr>"

definition kalman_update :: "kalman_state \<Rightarrow> pyfloat \<Rightarrow> pyfloat \<Rightarrow> kalman_state \<times> pyfloat \<times> pyfloat" where
  "kalman_update k y x =
     (let P_pred = ka_P k + ka_Q k;
          innovation = y - ka_beta k * x;
          S = x ^ 2 * P_pred + ka_R k
      in if S = 0 then (k, y - ka_beta k * x, ka_beta k)
         else
           let K = P_pred * x / S;
               k = k\<lparr>ka_beta := ka_beta k + K * innovation, ka_P := (1 - K * x) * P_pred\<rparr>
           in (k, y - ka_beta k * x, ka_beta k))"

fun kalman_run :: "kalman_state \<Rightarrow> (pyfloat \<times> pyfloat) list \<Rightarrow> (pyfloat \<times> pyfloat) list \<times> kalman_state" where
  "kalman_run k [] = ([], k)"
| "kalman_run k ((y, x) # ps) =
     (let (k, out) = kalman_update k y x; (outs, k) = kalman_run k ps in (out # outs, k))"

definition kalman_filter_spreads ::
  "pyfloat list \<Rightarrow> pyfloat list \<Rightarrow> kalman_state option \<Rightarrow>
   stat_error + pyfloat list \<times> pyfloat list \<times> kalman_state" where
  "kalman_filter_spreads ys xs state =
     (if length ys \<noteq> length xs then Inl Value_Error
      else
        let (outs, k) = kalman_run (case state of None \<Rightarrow> kalman_fresh | Some k \<Rightarrow> k) (zip ys xs)
        in Inr (map fst outs, map snd outs, k))"

section \<open>Scores\<close>

definition population_variance :: "pyfloat list \<Rightarrow> pyfloat" where
  "population_variance xs = sum_list (map (\<lambda>v. (v - mean_of xs) ^ 2) xs) / of_nat (length xs)"

definition std_floor :: pyfloat where
  "std_floor = 1 / 10 ^ 12"

definition window_score :: "pyfloat list \<Rightarrow> pyfloat \<Rightarrow> pyfloat" where
  "window_score w v =
     (let std = sqrt (population_variance w) in if std_floor < std then (v - mean_of w) / std else 0)"

definition rolling_zscore :: "pyfloat list \<Rightarrow> nat \<Rightarrow> stat_error + pyfloat list" where
  "rolling_zscore series w =
     (if w = 0 then Inl Zero_Division
      else Inr (map (\<lambda>i. if i < w - 1 then 0
                else window_score (take w (drop (i + 1 - w) series)) (series ! i)) [0..<length series]))"

definition current_zscore :: "pyfloat \<Rightarrow> pyfloat list \<Rightarrow> int \<Rightarrow> pyfloat" where
  "current_zscore spread history w =
     (let recent = py_last w history
      in if length recent < 4 then 0
         else let std = sqrt (population_variance recent)
              in if std < std_floor then 0 else (spread - mean_of recent) / std)"

section \<open>The Hurst exponent\<close>

definition lag_differences :: "pyfloat list \<Rightarrow> nat \<Rightarrow> pyfloat list" where
  "lag_differences series lag = map (\<lambda>i. series ! i - series ! (i - lag)) [lag..<length series]"

definition lag_points :: "pyfloat list \<Rightarrow> nat list \<Rightarrow> (pyfloat \<times> pyfloat) list" where
  "lag_points series lags = concat (map (\<lambda>lag.
     let diffs = lag_differences series lag
     in if length diffs < 2 then []
        else if 0 < sample_variance diffs then [(ln (of_nat lag), ln (sample_variance diffs))] else []) lags)"

definition hurst_exponent :: "pyfloat list \<Rightarrow> nat \<Rightarrow> stat_error + pyfloat" where
  "hurst_exponent series max_lag =
     (let max_lag = min max_lag (length series div 2) in
      if max_lag < 4 then Inr (1 / 2)
      else
        let pts = lag_points series [2..<max_lag]
        in if length pts < 3 then Inr (1 / 2)
           else (case ols (map fst pts) (map snd pts) of
               Inl e \<Rightarrow> Inl e
             | Inr (a, slope, r2) \<Rightarrow> Inr (slope / 2)))"

section \<open>The signal\<close>

record stat_arb_signal =
  sg_zscore :: pyfloat
  sg_direction :: int
  sg_hedge_ratio :: pyfloat
  sg_half_life :: pyfloat
  sg_should_exit :: bool

definition generate_stat_arb_signal ::
  "pyfloat list \<Rightarrow> pyfloat list \<Rightarrow> pyfloat \<Rightarrow> pyfloat \<Rightarrow> nat \<Rightarrow> int \<Rightarrow> kalman_state option \<Rightarrow>
   stat_error + stat_arb_signal \<times> kalman_state" where
  "generate_stat_arb_signal ys xs z_entry z_exit w current_position state =
     (case kalman_filter_spreads ys xs state of
        Inl e \<Rightarrow> Inl e
      | Inr (spreads, betas, k) \<Rightarrow>
          (case rolling_zscore spreads w of
             Inl e \<Rightarrow> Inl e
           | Inr zs \<Rightarrow>
               let z = (if zs = [] then 0 else last zs);
                   beta = (if betas = [] then 1 else last betas);
                   hl = (if 4 \<le> length spreads then half_life_ou (py_last (int w) spreads) 1 else - 1)
               in Inr (\<lparr>sg_zscore = z,
                    sg_direction = (if current_position \<noteq> 0 then 0
                      else if z \<le> - z_entry then 1 else if z_entry \<le> z then - 1 else 0),
                    sg_hedge_ratio = beta, sg_half_life = hl,
                    sg_should_exit = (current_position = 1 \<and> - z_exit \<le> z \<or>
                      current_position = - 1 \<and> z \<le> z_exit)\<rparr>, k)))"

section \<open>Screening\<close>

record pair_candidate =
  pc_symbol_y :: symbol
  pc_symbol_x :: symbol
  pc_hedge_ratio :: pyfloat
  pc_half_life_bars :: pyfloat
  pc_hurst :: pyfloat
  pc_is_valid :: bool

definition screen_pair ::
  "symbol \<Rightarrow> symbol \<Rightarrow> pyfloat list \<Rightarrow> pyfloat list \<Rightarrow> pyfloat \<Rightarrow> pyfloat \<Rightarrow> pyfloat \<Rightarrow> pair_candidate" where
  "screen_pair sy_y sy_x prices_y prices_x min_half_life max_half_life max_hurst =
     (let refused = \<lparr>pc_symbol_y = sy_y, pc_symbol_x = sy_x, pc_hedge_ratio = 1, pc_half_life_bars = - 1,
            pc_hurst = 1 / 2, pc_is_valid = False\<rparr>
      in case engle_granger prices_y prices_x 1 of
           Inl e \<Rightarrow> refused
         | Inr co \<Rightarrow>
             (case hurst_exponent (pair_residuals (co_intercept co) (co_hedge_ratio co) prices_y prices_x) 100 of
                Inl e \<Rightarrow> refused
              | Inr h \<Rightarrow> \<lparr>pc_symbol_y = sy_y, pc_symbol_x = sy_x, pc_hedge_ratio = co_hedge_ratio co,
                  pc_half_life_bars = co_half_life co, pc_hurst = h,
                  pc_is_valid = (co_is_cointegrated co \<and> min_half_life \<le> co_half_life co \<and>
                    co_half_life co \<le> max_half_life \<and> h < max_hurst)\<rparr>))"

section \<open>Sums over lists\<close>

lemma sum_list_index: "sum_list (map f xs) = (\<Sum>i<length xs. f (xs ! i))"
  by (simp add: sum_list_sum_nth atLeast0LessThan)

lemma sum_list_zip_index:
  "length xs = length ys \<Longrightarrow> sum_list (map f (zip xs ys)) = (\<Sum>i<length xs. f (xs ! i, ys ! i))"
  by (simp add: sum_list_index)

lemma mean_of_index: "mean_of xs = (\<Sum>i<length xs. xs ! i) / of_nat (length xs)"
  using sum_list_index [of "\<lambda>x. x" xs] by (simp add: mean_of_def)

lemma deviations_cancel: "xs \<noteq> [] \<Longrightarrow> (\<Sum>i<length xs. xs ! i - mean_of xs) = 0"
  by (simp add: sum_subtractf mean_of_index)

section \<open>The regression minimises the squares\<close>

definition squared_error :: "pyfloat list \<Rightarrow> pyfloat list \<Rightarrow> pyfloat \<Rightarrow> pyfloat \<Rightarrow> pyfloat" where
  "squared_error x y a b = (\<Sum>i<length x. (y ! i - (a + b * x ! i)) ^ 2)"

lemma ols_cases:
  assumes "ols x y = Inr (a, b, r2)"
  defines "dx \<equiv> \<lambda>i. x ! i - mean_of x" and "dy \<equiv> \<lambda>i. y ! i - mean_of y"
  shows "length y = length x" and "2 \<le> length x" and "(\<Sum>i<length x. dx i ^ 2) \<noteq> 0"
    and "b = (\<Sum>i<length x. dx i * dy i) / (\<Sum>i<length x. dx i ^ 2)" and "a = mean_of y - b * mean_of x"
    and "r2 = (if 0 < (\<Sum>i<length y. dy i ^ 2)
               then 1 - squared_error x y a b / (\<Sum>i<length y. dy i ^ 2) else 0)"
  using assms(1)
  by (auto simp: ols_def Let_def sum_list_index sum_list_zip_index dx_def dy_def squared_error_def
      split: if_splits)

lemma ols_normal_equations:
  assumes "ols x y = Inr (a, b, r2)"
  defines "e \<equiv> \<lambda>i. y ! i - (a + b * x ! i)"
  shows "(\<Sum>i<length x. e i) = 0" and "(\<Sum>i<length x. e i * (x ! i - mean_of x)) = 0"
proof -
  note c = ols_cases [OF assms(1)]
  have ne: "x \<noteq> []" "y \<noteq> []" using c(1,2) by auto
  have e: "e i = (y ! i - mean_of y) - b * (x ! i - mean_of x)" for i
    by (simp add: e_def c(5) algebra_simps)
  show "(\<Sum>i<length x. e i) = 0"
    using deviations_cancel [OF ne(1)] deviations_cancel [OF ne(2)] c(1)
    by (simp add: e sum_subtractf [of "\<lambda>i. y ! i - mean_of y"] sum_distrib_left [symmetric])
  have "(\<Sum>i<length x. e i * (x ! i - mean_of x)) =
      (\<Sum>i<length x. (x ! i - mean_of x) * (y ! i - mean_of y)) - b * (\<Sum>i<length x. (x ! i - mean_of x) ^ 2)"
    unfolding sum_distrib_left sum_subtractf [symmetric]
    by (rule sum.cong) (simp_all add: e algebra_simps power2_eq_square)
  also have "\<dots> = 0" using c(3,4) by simp
  finally show "(\<Sum>i<length x. e i * (x ! i - mean_of x)) = 0" .
qed

lemma ols_decomposition:
  assumes "ols x y = Inr (a, b, r2)"
  shows "squared_error x y a' b' = squared_error x y a b +
    (\<Sum>i<length x. ((a - a') + (b - b') * x ! i) ^ 2)"
proof -
  define e where "e i = y ! i - (a + b * x ! i)" for i
  define g where "g i = (a - a') + (b - b') * x ! i" for i
  note n = ols_normal_equations [OF assms, folded e_def]
  have "(\<Sum>i<length x. e i * g i) =
      (\<Sum>i<length x. ((a - a') + (b - b') * mean_of x) * e i + (b - b') * (e i * (x ! i - mean_of x)))"
    by (rule sum.cong) (simp_all add: g_def algebra_simps)
  also have "\<dots> = 0" using n by (simp add: sum.distrib sum_distrib_left [symmetric])
  finally have eg: "(\<Sum>i<length x. e i * g i) = 0" .
  have "squared_error x y a' b' = (\<Sum>i<length x. e i ^ 2 + g i ^ 2 + 2 * (e i * g i))"
    unfolding squared_error_def
    by (rule sum.cong) (simp_all add: e_def g_def algebra_simps power2_eq_square)
  then show ?thesis
    using eg by (simp add: sum.distrib sum_distrib_left [symmetric] squared_error_def e_def g_def)
qed

text \<open>
  The regression is the best line: no other has a smaller sum of squared errors, and the share of the
  variance it explains is between 0 and 1.
\<close>

theorem ols_is_least_squares:
  assumes "ols x y = Inr (a, b, r2)"
  shows "squared_error x y a b \<le> squared_error x y a' b'"
    and "0 \<le> r2 \<and> r2 \<le> 1"
proof -
  show *: "squared_error x y a b \<le> squared_error x y a' b'" for a' b'
    by (simp add: ols_decomposition [OF assms, of a' b'] sum_nonneg)
  have "0 \<le> squared_error x y a b" by (simp add: squared_error_def sum_nonneg)
  moreover have "squared_error x y a b \<le> (\<Sum>i<length y. (y ! i - mean_of y) ^ 2)"
    using * [of "mean_of y" 0] ols_cases(1) [OF assms] by (simp add: squared_error_def)
  ultimately show "0 \<le> r2 \<and> r2 \<le> 1"
    using ols_cases(6) [OF assms] by (auto simp: divide_le_eq)
qed

theorem ols_is_least_squares_witness:
  "ols [1, 2, 3] [2, 4, 9] = Inr (- 2, 7 / 2, 49 / 52) \<and>
   squared_error [1, 2, 3] [2, 4, 9] (- 2) (7 / 2) \<le> squared_error [1, 2, 3] [2, 4, 9] 0 3"
proof -
  have *: "ols [1, 2, 3] [2, 4, 9] = Inr (- 2, 7 / 2, 49 / 52)"
    by (simp add: ols_def mean_of_def Let_def power2_eq_square)
  with ols_is_least_squares(1) [OF *] show ?thesis by blast
qed

text \<open>Points on a line give back the line.\<close>

lemma ols_exact:
  assumes "ols x y = Inr (a, b, r2)" and "\<And>i. i < length x \<Longrightarrow> y ! i = a' + b' * x ! i"
  shows "a = a'" and "b = b'"
proof -
  note c = ols_cases [OF assms(1)]
  have m: "mean_of y = a' + b' * mean_of x"
    using c(1,2) assms(2) by (auto simp: mean_of_index sum.distrib sum_distrib_left [symmetric] add_divide_distrib)
  have "(\<Sum>i<length x. (x ! i - mean_of x) * (y ! i - mean_of y)) = b' * (\<Sum>i<length x. (x ! i - mean_of x) ^ 2)"
    unfolding sum_distrib_left
    by (rule sum.cong) (simp_all add: m assms(2) algebra_simps power2_eq_square)
  with c(3,4) show b: "b = b'" by simp
  show "a = a'" using c(5) m b by simp
qed

section \<open>The fit recovers the process\<close>

lemma length_differences [simp]: "length (differences xs) = length xs - 1"
  by (simp add: differences_def)

lemma nth_differences: "i < length xs - 1 \<Longrightarrow> differences xs ! i = xs ! (i + 1) - xs ! i"
  by (simp add: differences_def)

text \<open>
  A series that follows its mean-reverting rule without noise gets back speed, mean and half-life, and a
  volatility of zero, as long as the speed is above the floor of the code.
\<close>

theorem fit_recovers_process:
  assumes "fit_ou s 1 = Inr p" and "\<And>i. i < length s - 1 \<Longrightarrow> s ! (i + 1) - s ! i = theta * (mu - s ! i)"
    and "theta_floor < theta"
  shows "ou_theta p = theta" and "ou_mu p = mu" and "ou_sigma p = 0" and "ou_half_life p = ln 2 / theta"
proof -
  obtain a b r2 where o: "ols (butlast s) (differences s) = Inr (a, b, r2)"
    using assms(1) by (auto simp: fit_ou_def Let_def split: if_splits sum.splits)
  have line: "differences s ! i = theta * mu + (- theta) * (butlast s ! i)" if "i < length (butlast s)" for i
    using that assms(2) [of i] by (simp add: nth_differences nth_butlast algebra_simps)
  have ab: "a = theta * mu" "b = - theta" using ols_exact [OF o line] by simp_all
  have n: "4 \<le> length s" using assms(1) by (auto simp: fit_ou_def split: if_splits)
  have "map (\<lambda>(ds, sl). ds - a - b * sl) (zip (differences s) (butlast s)) = replicate (length s - 1) 0"
    by (rule nth_equalityI) (use line ab in auto)
  moreover have "sample_variance (replicate k 0) = 0" for k
    by (simp add: sample_variance_def mean_of_def sum_list_replicate)
  moreover have "0 < theta" using assms(3) by (auto simp: theta_floor_def intro: less_trans [rotated])
  ultimately have "fit_ou s 1 = Inr \<lparr>ou_theta = theta, ou_mu = mu, ou_sigma = 0, ou_half_life = ln 2 / theta\<rparr>"
    using o n ab assms(3) by (simp add: fit_ou_def Let_def)
  with assms(1) have "p = \<lparr>ou_theta = theta, ou_mu = mu, ou_sigma = 0, ou_half_life = ln 2 / theta\<rparr>" by simp
  then show "ou_theta p = theta" "ou_mu p = mu" "ou_sigma p = 0" "ou_half_life p = ln 2 / theta" by simp_all
qed

theorem fit_recovers_process_witness:
  "(case fit_ou [8, 4, 2, 1] 1 of Inl e \<Rightarrow> False | Inr p \<Rightarrow>
      ou_theta p = 1 / 2 \<and> ou_mu p = 0 \<and> ou_sigma p = 0 \<and> ou_half_life p = 2 * ln 2)"
proof -
  have "\<exists>r. ols [8, 4, 2] (differences [8, 4, 2, 1]) = Inr r"
    by (simp add: ols_def differences_def mean_of_def Let_def power2_eq_square upt_rec)
  then obtain p where p: "fit_ou [8, 4, 2, 1] 1 = Inr p"
    by (auto simp: fit_ou_def Let_def)
  have "[8, 4, 2, 1 :: real] ! (i + 1) - [8, 4, 2, 1] ! i = 1 / 2 * (0 - [8, 4, 2, 1] ! i)"
    if "i < length [8, 4, 2, 1 :: real] - 1" for i
    using that by (auto simp: less_Suc_eq numeral_eq_Suc)
  note r = fit_recovers_process [OF p this]
  from r show ?thesis by (simp add: p theta_floor_def)
qed

text \<open>
  A half-life is never reported as negative for a series that can be fitted: the speed has a floor,
  so a series that runs away gets a half-life of up to about seventy million bars.
\<close>

theorem half_life_range:
  assumes "fit_ou s dt = Inr p"
  shows "0 < half_life_ou s dt \<and> half_life_ou s dt \<le> ln 2 * 10 ^ 8"
proof -
  have f: "0 < theta_floor" by (simp add: theta_floor_def)
  have t: "theta_floor \<le> ou_theta p" "ou_half_life p = ln 2 / ou_theta p"
    using assms by (auto simp: fit_ou_def Let_def split: if_splits sum.splits)
  then have "ou_half_life p \<le> ln 2 / theta_floor"
    using f by (simp add: divide_left_mono)
  with assms t f show ?thesis by (simp add: half_life_ou_def theta_floor_def)
qed

theorem half_life_range_witness:
  "0 < half_life_ou [8, 4, 2, 1] 1 \<and> half_life_ou [8, 4, 2, 1] 1 \<le> ln 2 * 10 ^ 8"
proof -
  have "\<exists>r. ols [8, 4, 2] (differences [8, 4, 2, 1]) = Inr r"
    by (simp add: ols_def differences_def mean_of_def Let_def power2_eq_square upt_rec)
  then obtain p where "fit_ou [8, 4, 2, 1] 1 = Inr p" by (auto simp: fit_ou_def Let_def)
  then show ?thesis by (rule half_life_range)
qed

section \<open>The filter\<close>

definition kalman_ok :: "kalman_state \<Rightarrow> bool" where
  "kalman_ok k \<longleftrightarrow> 0 < ka_P k \<and> 0 < ka_R k \<and> 0 \<le> ka_Q k"

lemma kalman_innovation_positive: "kalman_ok k \<Longrightarrow> 0 < x ^ 2 * (ka_P k + ka_Q k) + ka_R k"
  by (simp add: kalman_ok_def add_nonneg_pos)

text \<open>
  An update leaves a part of the innovation that is R over the innovation variance, so the spread
  shrinks; the covariance shrinks by the same part, after the growth Q.
\<close>

theorem kalman_update_shrinks:
  assumes "kalman_ok k"
  shows "(case kalman_update k y x of (k', spread, beta) \<Rightarrow>
      let part = ka_R k / (x ^ 2 * (ka_P k + ka_Q k) + ka_R k)
      in 0 < part \<and> part \<le> 1 \<and> beta = ka_beta k' \<and> spread = y - beta * x \<and>
         spread = part * (y - ka_beta k * x) \<and> ka_P k' = part * (ka_P k + ka_Q k) \<and> kalman_ok k')"
proof -
  define S where "S = x ^ 2 * (ka_P k + ka_Q k) + ka_R k"
  have S: "0 < S" using kalman_innovation_positive [OF assms, of x] by (simp add: S_def)
  have p: "0 < ka_P k" "0 < ka_R k" "0 \<le> ka_Q k" "0 < ka_P k + ka_Q k" using assms by (auto simp: kalman_ok_def)
  have part: "1 - (ka_P k + ka_Q k) * x / S * x = ka_R k / S"
    using S by (simp add: S_def field_simps power2_eq_square)
  have le: "ka_R k / S \<le> 1" using S p by (simp add: S_def)
  have "y - (ka_beta k + (ka_P k + ka_Q k) * x / S * (y - ka_beta k * x)) * x =
      (1 - (ka_P k + ka_Q k) * x / S * x) * (y - ka_beta k * x)" by (simp add: algebra_simps)
  with S p part le show ?thesis
    by (simp add: kalman_update_def Let_def S_def [symmetric] kalman_ok_def)
qed

theorem kalman_update_shrinks_witness:
  "(case kalman_update kalman_fresh 10 2 of (k', spread, beta) \<Rightarrow>
      spread = 10 - beta * 2 \<and> kalman_ok k' \<and> ka_P k' \<le> ka_P kalman_fresh + ka_Q kalman_fresh)"
proof -
  have "kalman_ok kalman_fresh" by (simp add: kalman_ok_def kalman_fresh_def)
  from kalman_update_shrinks [OF this, where y = 10 and x = 2] show ?thesis
    by (auto simp: Let_def kalman_fresh_def split: prod.splits)
qed

lemma kalman_run_bounds:
  assumes "kalman_ok k" and "kalman_run k ps = (outs, k')"
  shows "kalman_ok k' \<and> ka_P k' \<le> ka_P k + of_nat (length ps) * ka_Q k \<and> length outs = length ps"
  using assms
proof (induction ps arbitrary: k outs)
  case (Cons p ps)
  obtain y x where p: "p = (y, x)" by force
  obtain k1 sp be where u: "kalman_update k y x = (k1, sp, be)" by (cases "kalman_update k y x") auto
  obtain os where r: "kalman_run k1 ps = (os, k')" and outs: "outs = (sp, be) # os"
    using Cons.prems(2) by (auto simp: p u split: prod.splits)
  have s: "ka_R k / (x ^ 2 * (ka_P k + ka_Q k) + ka_R k) \<le> 1"
    "ka_P k1 = ka_R k / (x ^ 2 * (ka_P k + ka_Q k) + ka_R k) * (ka_P k + ka_Q k)" "kalman_ok k1"
    using kalman_update_shrinks [OF Cons.prems(1), where y = y and x = x] unfolding u by (simp_all add: Let_def)
  have "ka_P k1 \<le> ka_P k + ka_Q k"
    unfolding s(2) using s(1) Cons.prems(1) by (intro mult_left_le_one_le) (auto simp: kalman_ok_def)
  moreover have "ka_Q k1 = ka_Q k" using u by (auto simp: kalman_update_def Let_def split: if_splits)
  ultimately show ?case using Cons.IH [OF s(3) r] by (simp add: outs algebra_simps)
qed simp

section \<open>Scores are bounded by their window\<close>

lemma deviation_bound:
  fixes d :: "nat \<Rightarrow> real"
  assumes "(\<Sum>i<n. d i) = 0" and "j < n"
  shows "of_nat n * d j ^ 2 \<le> of_nat (n - 1) * (\<Sum>i<n. d i ^ 2)"
proof -
  have split: "(\<Sum>i<n. f i) = f j + (\<Sum>i \<in> {..<n} - {j}. f i)" for f :: "nat \<Rightarrow> real"
    using assms(2) by (simp add: sum.remove)
  let ?A = "{..<n} - {j}"
  define m where "m = (of_nat (n - 1) :: real)"
  have s: "(\<Sum>i \<in> ?A. d i) = - d j" using split [of d] assms(1) by simp
  have "d j ^ 2 \<le> m * (\<Sum>i \<in> ?A. d i ^ 2)"
  proof (cases "n = 1")
    case True
    with assms show ?thesis by (simp add: lessThan_Suc m_def)
  next
    case False
    with assms(2) have m: "0 < m" by (simp add: m_def)
    have "0 \<le> (\<Sum>i \<in> ?A. (d i + d j / m) ^ 2)" by (simp add: sum_nonneg)
    also have "\<dots> = (\<Sum>i \<in> ?A. d i ^ 2 + (2 * d j / m) * d i + (d j / m) ^ 2)"
      by (rule sum.cong) (simp_all add: power2_sum)
    also have "\<dots> = (\<Sum>i \<in> ?A. d i ^ 2) + (2 * d j / m) * (- d j) + m * (d j / m) ^ 2"
      using assms(2) by (simp only: sum.distrib sum_distrib_left [symmetric] s) (simp add: m_def)
    also have "\<dots> = (\<Sum>i \<in> ?A. d i ^ 2) - d j ^ 2 / m"
      using m by (simp add: field_simps power2_eq_square)
    finally show ?thesis using m by (simp add: field_simps)
  qed
  then show ?thesis
    using assms(2) split [of "\<lambda>i. d i ^ 2"] by (simp add: m_def of_nat_diff algebra_simps)
qed

text \<open>A score over its own window is at most the root of the window less one.\<close>

theorem zscore_within_window:
  assumes "rolling_zscore series w = Inr zs" and "z \<in> set zs"
  shows "\<bar>z\<bar> \<le> sqrt (of_nat (w - 1))"
proof -
  have w: "0 < w" using assms(1) by (simp add: rolling_zscore_def split: if_splits)
  obtain i where i: "i < length series" and z: "z = (if i < w - 1 then 0
      else window_score (take w (drop (i + 1 - w) series)) (series ! i))"
    using assms by (auto simp: rolling_zscore_def split: if_splits)
  show ?thesis
  proof (cases "z = 0")
    case False
    define v where "v = take w (drop (i + 1 - w) series)"
    have iw: "w - 1 \<le> i" using False z by (auto split: if_splits)
    have len: "length v = w" and nth: "v ! (w - 1) = series ! i"
      using w i iw by (auto simp: v_def)
    define D where "D = (\<Sum>k<w. (v ! k - mean_of v) ^ 2)"
    have pv: "population_variance v = D / of_nat w"
      by (simp add: population_variance_def sum_list_index len D_def)
    have "z = window_score v (series ! i)" using z iw by (simp add: v_def)
    then have sc: "z = (series ! i - mean_of v) / sqrt (D / of_nat w)" "std_floor < sqrt (D / of_nat w)"
      using False by (auto simp: window_score_def Let_def pv split: if_splits)
    have "0 < std_floor" by (simp add: std_floor_def)
    with sc(2) have "0 < sqrt (D / of_nat w)" by linarith
    then have D: "0 < D" using w by (simp add: zero_less_divide_iff)
    have "of_nat w * (series ! i - mean_of v) ^ 2 \<le> of_nat (w - 1) * D"
      using deviation_bound [of "\<lambda>k. v ! k - mean_of v" w "w - 1"] deviations_cancel [of v] w len nth
      by (auto simp: D_def)
    then have "z ^ 2 \<le> of_nat (w - 1)"
      using D w by (simp add: sc(1) power_divide field_simps)
    then show ?thesis by (simp add: real_le_rsqrt)
  qed simp
qed

theorem zscore_within_window_witness:
  "rolling_zscore [0, 0, 0, 4] 4 = Inr [0, 0, 0, sqrt 3] \<and> \<bar>sqrt 3\<bar> \<le> sqrt (of_nat (4 - 1))"
proof -
  have v: "population_variance [0, 0, 0, 4] = 3"
    by (simp add: population_variance_def mean_of_def power2_eq_square)
  have "window_score [0, 0, 0, 4] 4 = 3 / sqrt 3"
    using real_less_rsqrt [of std_floor 3]
    by (simp add: window_score_def v mean_of_def Let_def std_floor_def power2_eq_square)
  also have "\<dots> = sqrt 3" by (simp add: real_div_sqrt)
  finally have *: "rolling_zscore [0, 0, 0, 4] 4 = Inr [0, 0, 0, sqrt 3]"
    by (simp add: rolling_zscore_def upt_rec)
  with zscore_within_window [OF *, of "sqrt 3"] show ?thesis by simp
qed

text \<open>A window too short for the threshold never gives an entry.\<close>

lemma no_entry_in_short_window:
  assumes "generate_stat_arb_signal ys xs z_entry z_exit w 0 st = Inr (sg, k)"
    and "sqrt (of_nat (w - 1)) < z_entry"
  shows "sg_direction sg = 0"
proof -
  obtain spreads betas where f: "kalman_filter_spreads ys xs st = Inr (spreads, betas, k)"
    and "\<exists>zs. rolling_zscore spreads w = Inr zs \<and> sg_zscore sg = (if zs = [] then 0 else last zs)"
    and d: "sg_direction sg = (if sg_zscore sg \<le> - z_entry then 1 else if z_entry \<le> sg_zscore sg then - 1 else 0)"
    using assms(1) by (auto simp: generate_stat_arb_signal_def Let_def split: sum.splits prod.splits)
  then obtain zs where zs: "rolling_zscore spreads w = Inr zs" "sg_zscore sg = (if zs = [] then 0 else last zs)"
    by blast
  have "\<bar>sg_zscore sg\<bar> \<le> sqrt (of_nat (w - 1))"
    using zscore_within_window [OF zs(1), of "last zs"] zs(2) by auto
  with assms(2) d show ?thesis by auto
qed

section \<open>Screening\<close>

text \<open>
  A pair passes only on a spread that could be fitted: the mark of a failed fit is under every
  lower limit that is not negative.
\<close>

lemma valid_pair:
  assumes "pc_is_valid (screen_pair a b ys xs lo hi mh)" and "0 \<le> lo"
  shows "\<exists>alpha beta r2 p. ols xs ys = Inr (alpha, beta, r2) \<and>
    fit_ou (pair_residuals alpha beta ys xs) 1 = Inr p \<and> lo \<le> ou_half_life p \<and> ou_half_life p \<le> hi \<and>
    pc_hedge_ratio (screen_pair a b ys xs lo hi mh) = beta \<and>
    (\<exists>adf. adf_test (pair_residuals alpha beta ys xs) 1 = Inr adf \<and> af_is_stationary_5pct adf) \<and>
    (\<exists>h. hurst_exponent (pair_residuals alpha beta ys xs) 100 = Inr h \<and> h < mh)"
  using assms
  by (auto simp: screen_pair_def engle_granger_def half_life_ou_def Let_def
      split: sum.splits prod.splits if_splits)

end
