(* ===== verification/Stat_Arb.thy ===== *)
theory Stat_Arb
  imports Statistics Enums
begin

text \<open>
  The statistical arbitrage agent of \<open>agents/agent_21_stat_arb.py\<close>: screening of pairs, entries and exits of a
  tick, and the closing of all pairs. The tick and the closing loops are suspended while an order is
  sent, and regime updates, fills, the kill switch and a stop arrive in between: so an order's
  answer is an event, with the places of the tick and of the closing loops in the state. One tick is
  handled at a time. Prices, the clock (in seconds) and the broker's answers are arguments. The score
  window is at least one bar: with none every signal raises. Heartbeats are left out.
\<close>

section \<open>State\<close>

record pair_position =
  pp_symbol_y :: symbol
  pp_symbol_x :: symbol
  pp_direction :: int
  pp_hedge_ratio :: pyfloat
  pp_entry_spread :: pyfloat
  pp_entry_z :: pyfloat
  pp_entry_time :: pyfloat
  pp_qty_y :: pyfloat
  pp_qty_x :: pyfloat
  pp_half_life_bars :: pyfloat
  pp_pnl :: pyfloat
  pp_open :: bool

definition max_hold_sec :: "pair_position \<Rightarrow> pyfloat" where
  "max_hold_sec p = max 300 (pp_half_life_bars p * 2 * 60)"

definition age_sec :: "pyfloat \<Rightarrow> pair_position \<Rightarrow> pyfloat" where
  "age_sec now p = now - pp_entry_time p"

record sa_config =
  sf_universe :: "(symbol \<times> symbol) list"
  sf_z_entry :: pyfloat
  sf_z_exit :: pyfloat
  sf_zscore_window :: nat
  sf_max_pairs :: nat
  sf_max_notional :: pyfloat
  sf_rescreen_interval :: nat
  sf_min_half_life :: pyfloat
  sf_max_half_life :: pyfloat

definition sa_defaults :: "(symbol \<times> symbol) list \<Rightarrow> sa_config" where
  "sa_defaults universe = \<lparr>sf_universe = universe, sf_z_entry = 2, sf_z_exit = 1 / 2, sf_zscore_window = 60,
     sf_max_pairs = 5, sf_max_notional = 20000, sf_rescreen_interval = 50, sf_min_half_life = 5,
     sf_max_half_life = 120\<rparr>"

datatype close_reason = Time_Stop | Z_Reversion pyfloat | Agent_Stop | Kill_Switch_Stop

datatype leg = Leg_Y | Leg_X

type_synonym price_table = "symbol \<Rightarrow> pyfloat list"

text \<open>
  Where the tick is: between two ticks, at an order of an exit (with the prices and the pairs still
  to be checked), or at an order of an entry (with pair, signal and last prices).
\<close>

datatype sa_place =
    Between_Ticks
  | Exiting string close_reason leg price_table "string list"
  | Entering pair_candidate stat_arb_signal pyfloat pyfloat leg

record closing_loop =
  cl_reason :: close_reason
  cl_pair :: string
  cl_leg :: leg
  cl_rest :: "string list"

record sa =
  sa_qualified :: "pair_candidate list"
  sa_kalman :: "string \<rightharpoonup> kalman_state"
  sa_positions :: "(string \<times> pair_position) list"
  sa_regime :: "regime_label option"
  sa_bar_count :: nat
  sa_running :: bool
  sa_screens_due :: nat
  sa_place :: sa_place
  sa_closers :: "closing_loop list"

definition sa_init :: sa where
  "sa_init = \<lparr>sa_qualified = [], sa_kalman = Map.empty, sa_positions = [], sa_regime = None,
     sa_bar_count = 0, sa_running = False, sa_screens_due = 0, sa_place = Between_Ticks, sa_closers = []\<rparr>"

datatype sa_effect =
    Sa_Submit symbol order_side pyfloat
  | Sa_Publish_Plan string pair_position
  | Sa_Publish_Exit string close_reason pyfloat

definition pair_id_of :: "pair_candidate \<Rightarrow> string" where
  "pair_id_of c = pc_symbol_y c @ ''-'' @ pc_symbol_x c"

section \<open>Screening\<close>

definition screen_pairs :: "sa_config \<Rightarrow> price_table \<Rightarrow> sa \<Rightarrow> sa" where
  "screen_pairs cf prices s =
     (let candidates = map (\<lambda>(y, x). screen_pair y x (prices y) (prices x) (sf_min_half_life cf)
            (sf_max_half_life cf) (45 / 100))
            (filter (\<lambda>(y, x). 50 \<le> length (prices y) \<and> 50 \<le> length (prices x)) (sf_universe cf))
      in s\<lparr>sa_qualified := sort_key pc_half_life_bars (filter pc_is_valid candidates)\<rparr>)"

section \<open>Closing a pair\<close>

definition is_open :: "sa \<Rightarrow> string \<Rightarrow> bool" where
  "is_open s pid = (case map_of (sa_positions s) pid of None \<Rightarrow> False | Some p \<Rightarrow> pp_open p)"

definition close_order :: "pair_position \<Rightarrow> leg \<Rightarrow> sa_effect" where
  "close_order p l = (case l of
     Leg_Y \<Rightarrow> Sa_Submit (pp_symbol_y p) (if pp_direction p = 1 then SELL else BUY) (pp_qty_y p)
   | Leg_X \<Rightarrow> Sa_Submit (pp_symbol_x p) (if pp_direction p = 1 then BUY else SELL) (pp_qty_x p))"

text \<open>The order of a leg of a pair; after the second leg, or a leg that failed, the pair counts as closed.\<close>

definition send_leg :: "sa \<Rightarrow> string \<Rightarrow> leg \<Rightarrow> sa_effect list" where
  "send_leg s pid l = (case map_of (sa_positions s) pid of None \<Rightarrow> [] | Some p \<Rightarrow> [close_order p l])"

definition finish_close :: "string \<Rightarrow> close_reason \<Rightarrow> sa \<Rightarrow> sa \<times> sa_effect list" where
  "finish_close pid why s =
     (case map_of (sa_positions s) pid of
        None \<Rightarrow> (s, [])
      | Some p \<Rightarrow> (s\<lparr>sa_positions := AList.update pid (p\<lparr>pp_open := False\<rparr>) (sa_positions s)\<rparr>,
                    [Sa_Publish_Exit pid why (pp_pnl p)]))"

section \<open>The tick\<close>

fun is_regime_ok :: "regime_label option \<Rightarrow> bool" where
  "is_regime_ok None = True"
| "is_regime_ok (Some r) = (r \<in> {MEAN_REVERSION_DAY, TREND_DAY})"

text \<open>
  The search for an entry, over the qualified pairs in order: a signal that raises ends the tick, and
  the first pair with a direction sends its first order.
\<close>

definition entry_quantities :: "sa_config \<Rightarrow> stat_arb_signal \<Rightarrow> pyfloat \<Rightarrow> pyfloat \<times> pyfloat" where
  "entry_quantities cf sg mid_y =
     (let qty_y = max 1 (of_int (round_half_even (sf_max_notional cf / mid_y / 2)))
      in (qty_y, max 1 (of_int (round_half_even (qty_y * sg_hedge_ratio sg)))))"

definition entry_order :: "sa_config \<Rightarrow> pair_candidate \<Rightarrow> stat_arb_signal \<Rightarrow> pyfloat \<Rightarrow> leg \<Rightarrow> sa_effect" where
  "entry_order cf c sg mid_y l =
     (let (qty_y, qty_x) = entry_quantities cf sg mid_y in case l of
        Leg_Y \<Rightarrow> Sa_Submit (pc_symbol_y c) (if sg_direction sg = 1 then BUY else SELL) qty_y
      | Leg_X \<Rightarrow> Sa_Submit (pc_symbol_x c) (if sg_direction sg = 1 then SELL else BUY) qty_x)"

fun entry_loop :: "sa_config \<Rightarrow> price_table \<Rightarrow> pair_candidate list \<Rightarrow> sa \<Rightarrow> sa \<times> sa_effect list" where
  "entry_loop cf prices [] s = (s\<lparr>sa_place := Between_Ticks\<rparr>, [])"
| "entry_loop cf prices (c # cs) s =
     (let pid = pair_id_of c;
          py = prices (pc_symbol_y c);
          px = prices (pc_symbol_x c)
      in if map_of (sa_positions s) pid \<noteq> None then entry_loop cf prices cs s
         else if length py < sf_zscore_window cf \<or> length px < sf_zscore_window cf
         then entry_loop cf prices cs s
         else (case generate_stat_arb_signal py px (sf_z_entry cf) (sf_z_exit cf) (sf_zscore_window cf) 0
                      (sa_kalman s pid) of
             Inl e \<Rightarrow> (s\<lparr>sa_place := Between_Ticks\<rparr>, [])
           | Inr (sg, k) \<Rightarrow>
               let s = s\<lparr>sa_kalman := (sa_kalman s)(pid \<mapsto> k)\<rparr> in
               if sg_direction sg = 0 then entry_loop cf prices cs s
               else if last py = 0 then (s\<lparr>sa_place := Between_Ticks\<rparr>, [])
               else (s\<lparr>sa_place := Entering c sg (last py) (last px) Leg_Y\<rparr>,
                     [entry_order cf c sg (last py) Leg_Y])))"

definition check_entries :: "sa_config \<Rightarrow> price_table \<Rightarrow> sa \<Rightarrow> sa \<times> sa_effect list" where
  "check_entries cf prices s =
     (if length (sa_positions s) < sf_max_pairs cf \<and> is_regime_ok (sa_regime s)
      then entry_loop cf prices (sa_qualified s) s
      else (s\<lparr>sa_place := Between_Ticks\<rparr>, []))"

text \<open>The check of the pairs that are left, up to the next order, and then the search for an entry.\<close>

fun exit_loop :: "sa_config \<Rightarrow> pyfloat \<Rightarrow> price_table \<Rightarrow> string list \<Rightarrow> sa \<Rightarrow> sa \<times> sa_effect list" where
  "exit_loop cf now prices [] s = check_entries cf prices s"
| "exit_loop cf now prices (pid # rest) s =
     (case map_of (sa_positions s) pid of
        None \<Rightarrow> exit_loop cf now prices rest s
      | Some p \<Rightarrow>
          if \<not> pp_open p then exit_loop cf now prices rest s
          else if max_hold_sec p < age_sec now p
          then (s\<lparr>sa_place := Exiting pid Time_Stop Leg_Y prices rest\<rparr>, send_leg s pid Leg_Y)
          else
            let py = prices (pp_symbol_y p);
                px = prices (pp_symbol_x p)
            in if py = [] \<or> px = [] then exit_loop cf now prices rest s
               else (case generate_stat_arb_signal py px (sf_z_entry cf) (sf_z_exit cf) (sf_zscore_window cf)
                            (pp_direction p) (sa_kalman s pid) of
                   Inl e \<Rightarrow> (s\<lparr>sa_place := Between_Ticks\<rparr>, [])
                 | Inr (sg, k) \<Rightarrow>
                     let s = s\<lparr>sa_kalman := (sa_kalman s)(pid \<mapsto> k)\<rparr> in
                     if sg_should_exit sg
                     then (s\<lparr>sa_place := Exiting pid (Z_Reversion (sg_zscore sg)) Leg_Y prices rest\<rparr>,
                           send_leg s pid Leg_Y)
                     else exit_loop cf now prices rest s))"

definition sa_on_tick :: "sa_config \<Rightarrow> pyfloat \<Rightarrow> price_table \<Rightarrow> sa \<Rightarrow> sa \<times> sa_effect list" where
  "sa_on_tick cf now prices s =
     (if \<not> sa_running s then (s, [])
      else
        let s = s\<lparr>sa_bar_count := sa_bar_count s + 1\<rparr> in
        if sf_rescreen_interval cf = 0 then (s, [])
        else
          let s = (if sa_bar_count s mod sf_rescreen_interval cf = 0
                   then s\<lparr>sa_screens_due := sa_screens_due s + 1\<rparr> else s)
          in exit_loop cf now prices (map fst (sa_positions s)) s)"

text \<open>What the broker answers to the order the tick waits for.\<close>

definition sa_tick_answer :: "sa_config \<Rightarrow> bool \<Rightarrow> pyfloat \<Rightarrow> sa \<Rightarrow> sa \<times> sa_effect list" where
  "sa_tick_answer cf accepted now s =
     (case sa_place s of
        Between_Ticks \<Rightarrow> (s, [])
      | Exiting pid why l prices rest \<Rightarrow>
          if accepted \<and> l = Leg_Y
          then (s\<lparr>sa_place := Exiting pid why Leg_X prices rest\<rparr>, send_leg s pid Leg_X)
          else
            let (s, out) = finish_close pid why s;
                (s, out') = exit_loop cf now prices rest s
            in (s, out @ out')
      | Entering c sg mid_y mid_x l \<Rightarrow>
          if \<not> accepted then (s\<lparr>sa_place := Between_Ticks\<rparr>, [])
          else if l = Leg_Y
          then (s\<lparr>sa_place := Entering c sg mid_y mid_x Leg_X\<rparr>, [entry_order cf c sg mid_y Leg_X])
          else
            let (qty_y, qty_x) = entry_quantities cf sg mid_y;
                p = \<lparr>pp_symbol_y = pc_symbol_y c, pp_symbol_x = pc_symbol_x c,
                     pp_direction = sg_direction sg, pp_hedge_ratio = sg_hedge_ratio sg,
                     pp_entry_spread = mid_y - sg_hedge_ratio sg * mid_x, pp_entry_z = sg_zscore sg,
                     pp_entry_time = now, pp_qty_y = qty_y, pp_qty_x = qty_x,
                     pp_half_life_bars = sg_half_life sg, pp_pnl = 0, pp_open = True\<rparr>
            in (s\<lparr>sa_positions := AList.update (pair_id_of c) p (sa_positions s), sa_place := Between_Ticks\<rparr>,
                [Sa_Publish_Plan (pair_id_of c) p]))"

section \<open>Closing all pairs\<close>

fun closing_loop_from :: "close_reason \<Rightarrow> string list \<Rightarrow> sa \<Rightarrow> closing_loop list \<times> sa_effect list" where
  "closing_loop_from why [] s = ([], [])"
| "closing_loop_from why (pid # rest) s =
     (if is_open s pid
      then ([\<lparr>cl_reason = why, cl_pair = pid, cl_leg = Leg_Y, cl_rest = rest\<rparr>], send_leg s pid Leg_Y)
      else closing_loop_from why rest s)"

definition close_all_positions :: "close_reason \<Rightarrow> sa \<Rightarrow> sa \<times> sa_effect list" where
  "close_all_positions why s =
     (let (cls, out) = closing_loop_from why (map fst (sa_positions s)) s
      in (s\<lparr>sa_closers := sa_closers s @ cls\<rparr>, out))"

text \<open>The answer to the order of the closing loop number \<open>i\<close>.\<close>

definition sa_closer_answer :: "nat \<Rightarrow> bool \<Rightarrow> sa \<Rightarrow> sa \<times> sa_effect list" where
  "sa_closer_answer i accepted s =
     (if length (sa_closers s) \<le> i then (s, [])
      else
        let c = sa_closers s ! i in
        if accepted \<and> cl_leg c = Leg_Y
        then (s\<lparr>sa_closers := (sa_closers s)[i := c\<lparr>cl_leg := Leg_X\<rparr>]\<rparr>, send_leg s (cl_pair c) Leg_X)
        else
          let (s, out) = finish_close (cl_pair c) (cl_reason c) s;
              (cls, out') = closing_loop_from (cl_reason c) (cl_rest c) s
          in (s\<lparr>sa_closers := take i (sa_closers s) @ cls @ drop (i + 1) (sa_closers s)\<rparr>, out @ out'))"

section \<open>Handlers\<close>

definition sa_on_regime_update :: "string \<Rightarrow> sa \<Rightarrow> sa" where
  "sa_on_regime_update label s =
     (case parse_enum regime_value all_regimes label of
        None \<Rightarrow> s
      | Some r \<Rightarrow> s\<lparr>sa_regime := Some r\<rparr>)"

definition sa_on_fill :: "symbol \<Rightarrow> string \<Rightarrow> pyfloat \<Rightarrow> pyfloat \<Rightarrow> sa \<Rightarrow> sa" where
  "sa_on_fill sy side price qty s =
     s\<lparr>sa_positions := map (\<lambda>(pid, p).
        (pid, if pp_open p \<and> (sy = pp_symbol_y p \<or> sy = pp_symbol_x p)
              then p\<lparr>pp_pnl := pp_pnl p + (if side = ''sell'' then 1 else - 1) * price * qty\<rparr> else p))
        (sa_positions s)\<rparr>"

record pair_row =
  rw_direction :: int
  rw_entry_z :: pyfloat
  rw_hedge_ratio :: pyfloat
  rw_pnl :: pyfloat
  rw_age_sec :: pyfloat
  rw_max_hold_sec :: pyfloat
  rw_open :: bool

definition position_report :: "pyfloat \<Rightarrow> sa \<Rightarrow> (string \<times> pair_row) list" where
  "position_report now s = map (\<lambda>(pid, p). (pid, \<lparr>rw_direction = pp_direction p, rw_entry_z = pp_entry_z p,
     rw_hedge_ratio = pp_hedge_ratio p, rw_pnl = pp_pnl p, rw_age_sec = age_sec now p,
     rw_max_hold_sec = max_hold_sec p, rw_open = pp_open p\<rparr>)) (sa_positions s)"

datatype sa_event =
    Sa_Started price_table
  | Sa_Screen price_table
  | Sa_Tick pyfloat price_table
  | Sa_Tick_Answer bool pyfloat
  | Sa_Closer_Answer nat bool
  | Sa_Regime string
  | Sa_Fill symbol string pyfloat pyfloat
  | Sa_Kill
  | Sa_Stop

fun sa_act :: "sa_config \<Rightarrow> sa \<Rightarrow> sa_event \<Rightarrow> sa \<times> sa_effect list" where
  "sa_act cf s (Sa_Started prices) = (screen_pairs cf prices (s\<lparr>sa_running := True\<rparr>), [])"
| "sa_act cf s (Sa_Screen prices) =
     (if sa_screens_due s = 0 then (s, [])
      else (screen_pairs cf prices (s\<lparr>sa_screens_due := sa_screens_due s - 1\<rparr>), []))"
| "sa_act cf s (Sa_Tick now prices) =
     (if sa_place s = Between_Ticks then sa_on_tick cf now prices s else (s, []))"
| "sa_act cf s (Sa_Tick_Answer accepted now) = sa_tick_answer cf accepted now s"
| "sa_act cf s (Sa_Closer_Answer i accepted) = sa_closer_answer i accepted s"
| "sa_act cf s (Sa_Regime label) = (sa_on_regime_update label s, [])"
| "sa_act cf s (Sa_Fill sy side price qty) = (sa_on_fill sy side price qty s, [])"
| "sa_act cf s Sa_Kill = close_all_positions Kill_Switch_Stop (s\<lparr>sa_running := False\<rparr>)"
| "sa_act cf s Sa_Stop = close_all_positions Agent_Stop (s\<lparr>sa_running := False\<rparr>)"

definition sa_step :: "sa_config \<Rightarrow> sa \<Rightarrow> sa_event \<Rightarrow> sa" where
  "sa_step cf s e = fst (sa_act cf s e)"

definition sa_emits :: "sa_config \<Rightarrow> sa \<Rightarrow> sa_event \<Rightarrow> sa_effect list" where
  "sa_emits cf s e = snd (sa_act cf s e)"

section \<open>No more than the allowed pairs, ever\<close>

fun is_plan :: "sa_effect \<Rightarrow> bool" where
  "is_plan (Sa_Publish_Plan pid p) = True"
| "is_plan _ = False"

text \<open>
  While an entry is on its way there is room for it and its pair is not held: nothing else opens a
  pair, and no pair is ever removed.
\<close>

fun place_fits :: "nat \<Rightarrow> string set \<Rightarrow> nat \<Rightarrow> sa_place \<Rightarrow> bool" where
  "place_fits n pids limit (Entering c sg my mx l) = (n < limit \<and> pair_id_of c \<notin> pids)"
| "place_fits n pids limit _ = True"

definition sa_inv :: "sa_config \<Rightarrow> sa \<Rightarrow> bool" where
  "sa_inv cf s \<longleftrightarrow> length (sa_positions s) \<le> sf_max_pairs cf \<and>
     place_fits (length (sa_positions s)) (fst ` set (sa_positions s)) (sf_max_pairs cf) (sa_place s)"

lemma send_leg_no_plan [simp]: "filter is_plan (send_leg s pid l) = []"
  by (auto simp: send_leg_def close_order_def split: option.splits leg.splits)

lemma entry_order_no_plan [simp]: "\<not> is_plan (entry_order cf c sg my l)"
  by (simp add: entry_order_def Let_def case_prod_unfold split: leg.split)

lemma update_length_present: "map_of xs k \<noteq> None \<Longrightarrow> length (AList.update k v xs) = length xs"
  by (induction xs) (auto split: if_splits)

lemma update_keys_present: "map_of xs k \<noteq> None \<Longrightarrow> fst ` set (AList.update k v xs) = fst ` set xs"
  by (induction xs) (auto split: if_splits)

lemma finish_close_frame [simp]:
  "length (sa_positions (fst (finish_close pid why s))) = length (sa_positions s)"
  "fst ` set (sa_positions (fst (finish_close pid why s))) = fst ` set (sa_positions s)"
  "sa_place (fst (finish_close pid why s)) = sa_place s"
  "filter is_plan (snd (finish_close pid why s)) = []"
  by (auto simp: finish_close_def update_length_present update_keys_present split: option.split)

lemma entry_loop_frame:
  assumes "sa_positions s = ps" and "length ps < sf_max_pairs cf"
  shows "sa_positions (fst (entry_loop cf prices cs s)) = ps \<and>
    filter is_plan (snd (entry_loop cf prices cs s)) = [] \<and>
    place_fits (length ps) (fst ` set ps) (sf_max_pairs cf) (sa_place (fst (entry_loop cf prices cs s)))"
  using assms
  by (induction cs arbitrary: s) (auto simp: Let_def map_of_eq_None_iff split: sum.split)

lemma exit_loop_frame:
  assumes "sa_positions s = ps"
  shows "sa_positions (fst (exit_loop cf now prices pids s)) = ps \<and>
    filter is_plan (snd (exit_loop cf now prices pids s)) = [] \<and>
    place_fits (length ps) (fst ` set ps) (sf_max_pairs cf) (sa_place (fst (exit_loop cf now prices pids s)))"
  using assms
proof (induction pids arbitrary: s)
  case Nil
  then show ?case using entry_loop_frame [of s ps cf prices "sa_qualified s"] by (simp add: check_entries_def)
next
  case (Cons pid pids)
  then show ?case by (auto simp: Let_def split: option.split sum.split)
qed

lemma closing_loop_no_plan [simp]: "filter is_plan (snd (closing_loop_from why pids s)) = []"
  by (induction pids) auto

lemma close_all_frame [simp]:
  "sa_positions (fst (close_all_positions why s)) = sa_positions s"
  "sa_place (fst (close_all_positions why s)) = sa_place s"
  "filter is_plan (snd (close_all_positions why s)) = []"
  by (auto simp: close_all_positions_def Let_def case_prod_unfold)

lemma sa_step_counts:
  assumes "sa_inv cf s"
  shows "sa_inv cf (sa_step cf s e) \<and>
    length (sa_positions (sa_step cf s e)) = length (sa_positions s) + length (filter is_plan (sa_emits cf s e))"
proof (cases e)
  case (Sa_Tick now prices)
  let ?s = "s\<lparr>sa_bar_count := sa_bar_count s + 1\<rparr>"
  let ?t = "if sa_bar_count ?s mod sf_rescreen_interval cf = 0
    then ?s\<lparr>sa_screens_due := sa_screens_due ?s + 1\<rparr> else ?s"
  show ?thesis
    using assms exit_loop_frame [of ?t "sa_positions s" cf now prices "map fst (sa_positions s)"]
    by (auto simp: Sa_Tick sa_step_def sa_emits_def sa_inv_def sa_on_tick_def Let_def)
next
  case (Sa_Tick_Answer ok now)
  show ?thesis
  proof (cases "sa_place s")
    case Between_Ticks
    then show ?thesis using assms by (simp add: Sa_Tick_Answer sa_step_def sa_emits_def sa_tick_answer_def)
  next
    case (Exiting pid why l prices rest)
    then show ?thesis
      using assms exit_loop_frame [OF refl, of cf now prices rest "fst (finish_close pid why s)"]
      by (auto simp: Sa_Tick_Answer sa_step_def sa_emits_def sa_inv_def sa_tick_answer_def Let_def case_prod_unfold)
  next
    case (Entering c sg my mx l)
    then show ?thesis
      using assms
      by (auto simp: Sa_Tick_Answer sa_step_def sa_emits_def sa_inv_def sa_tick_answer_def Let_def
          case_prod_unfold update_new)
  qed
next
  case (Sa_Closer_Answer i ok)
  then show ?thesis
    using assms
    by (auto simp: sa_step_def sa_emits_def sa_inv_def sa_closer_answer_def Let_def case_prod_unfold)
next
  case (Sa_Regime label)
  then show ?thesis
    using assms by (auto simp: sa_step_def sa_emits_def sa_inv_def sa_on_regime_update_def split: option.split)
next
  case (Sa_Fill sy side price qty)
  have "map fst (sa_positions (sa_on_fill sy side price qty s)) = map fst (sa_positions s)"
    by (simp add: sa_on_fill_def case_prod_unfold)
  then have "length (sa_positions (sa_on_fill sy side price qty s)) = length (sa_positions s)"
    "fst ` set (sa_positions (sa_on_fill sy side price qty s)) = fst ` set (sa_positions s)"
    by (metis length_map) (metis \<open>map fst _ = map fst _\<close> list.set_map)
  with assms Sa_Fill show ?thesis by (simp add: sa_step_def sa_emits_def sa_inv_def) (simp add: sa_on_fill_def)
qed (use assms in \<open>auto simp: sa_step_def sa_emits_def sa_inv_def screen_pairs_def Let_def\<close>)

interpretation sa: inv_machine "sa_step cf" "sa_inv cf" for cf
  by unfold_locales (simp add: sa_step_counts)

lemma plans_are_positions:
  "sa_inv cf s \<Longrightarrow> length (sa_positions (foldl (sa_step cf) s es)) =
     length (sa_positions s) + length (filter is_plan (run_out (sa_step cf) (sa_emits cf) s es))"
  by (induction es arbitrary: s) (simp_all add: sa_step_counts)

text \<open>
  C40. The limit on concurrent pairs is one for the lifetime of the agent: over any run from its start, with
  all closings, it never opens more pairs than that, since a closed pair keeps its place.
\<close>

theorem pairs_opened_in_a_lifetime:
  "length (filter is_plan (run_out (sa_step cf) (sa_emits cf) sa_init es)) \<le> sf_max_pairs cf"
proof -
  have i: "sa_inv cf sa_init" by (simp add: sa_inv_def sa_init_def)
  from sa.run_inv [OF this, of es] plans_are_positions [OF i, of es] show ?thesis
    by (simp add: sa_inv_def sa_init_def)
qed

section \<open>Entries\<close>

fun starts_entry :: "sa_place \<Rightarrow> bool" where
  "starts_entry (Entering c sg my mx Leg_Y) = True"
| "starts_entry _ = False"

lemma signal_direction:
  assumes "generate_stat_arb_signal py px ze zx w 0 st = Inr (sg, k)" and "sg_direction sg \<noteq> 0"
  shows "sg_direction sg = 1 \<and> sg_zscore sg \<le> - ze \<or> sg_direction sg = - 1 \<and> ze \<le> sg_zscore sg"
  using assms by (auto simp: generate_stat_arb_signal_def Let_def split: sum.splits prod.splits if_splits)

definition entry_justified :: "sa_config \<Rightarrow> sa \<Rightarrow> pair_candidate \<Rightarrow> stat_arb_signal \<Rightarrow> bool" where
  "entry_justified cf s c sg \<longleftrightarrow> c \<in> set (sa_qualified s) \<and> is_regime_ok (sa_regime s) \<and>
     map_of (sa_positions s) (pair_id_of c) = None \<and> length (sa_positions s) < sf_max_pairs cf \<and>
     (sg_direction sg = 1 \<and> sg_zscore sg \<le> - sf_z_entry cf \<or>
      sg_direction sg = - 1 \<and> sf_z_entry cf \<le> sg_zscore sg)"

lemma entry_loop_place:
  assumes "sa_place (fst (entry_loop cf prices cs s)) = Entering c sg my mx l"
  shows "l = Leg_Y \<and> c \<in> set cs \<and> map_of (sa_positions s) (pair_id_of c) = None \<and>
    snd (entry_loop cf prices cs s) = [entry_order cf c sg my Leg_Y] \<and>
    (sg_direction sg = 1 \<and> sg_zscore sg \<le> - sf_z_entry cf \<or>
     sg_direction sg = - 1 \<and> sf_z_entry cf \<le> sg_zscore sg)"
  using assms
proof (induction cs arbitrary: s)
  case (Cons d cs)
  show ?case
  proof (cases "map_of (sa_positions s) (pair_id_of d) \<noteq> None \<or>
      length (prices (pc_symbol_y d)) < sf_zscore_window cf \<or> length (prices (pc_symbol_x d)) < sf_zscore_window cf")
    case True
    then have *: "entry_loop cf prices (d # cs) s = entry_loop cf prices cs s" by (auto simp: Let_def)
    show ?thesis using Cons.IH [of s] Cons.prems unfolding * by auto
  next
    case False
    show ?thesis
    proof (cases "generate_stat_arb_signal (prices (pc_symbol_y d)) (prices (pc_symbol_x d)) (sf_z_entry cf)
        (sf_z_exit cf) (sf_zscore_window cf) 0 (sa_kalman s (pair_id_of d))")
      case (Inl e)
      with False Cons.prems show ?thesis by (auto simp: Let_def)
    next
      case (Inr r)
      obtain sg' k where r: "r = (sg', k)" by force
      show ?thesis
      proof (cases "sg_direction sg' = 0")
        case True
        let ?s = "s\<lparr>sa_kalman := (sa_kalman s)(pair_id_of d \<mapsto> k)\<rparr>"
        have *: "entry_loop cf prices (d # cs) s = entry_loop cf prices cs ?s"
          using False Inr r True by (simp add: Let_def)
        show ?thesis using Cons.IH [of ?s] Cons.prems unfolding * by auto
      next
        case nz: False
        show ?thesis
          using False Inr r nz Cons.prems signal_direction [OF Inr [unfolded r] nz]
          by (auto simp: Let_def split: if_splits)
      qed
    qed
  qed
qed simp

lemma exit_loop_place:
  assumes "sa_place (fst (exit_loop cf now prices pids s)) = Entering c sg my mx l"
  shows "l = Leg_Y \<and> entry_justified cf s c sg \<and>
    snd (exit_loop cf now prices pids s) = [entry_order cf c sg my Leg_Y]"
  using assms
proof (induction pids arbitrary: s)
  case Nil
  then show ?case
    using entry_loop_place [of cf prices "sa_qualified s" s c sg my mx l]
    by (auto simp: check_entries_def entry_justified_def split: if_splits)
next
  case (Cons pid pids)
  have frame: "entry_justified cf (s\<lparr>sa_kalman := m\<rparr>) c sg = entry_justified cf s c sg" for m
    by (simp add: entry_justified_def)
  show ?case
    using Cons.prems by (auto simp: Let_def frame dest!: Cons.IH split: option.splits sum.splits if_splits)
qed

text \<open>
  The first order of an entry follows a signal of this moment: the pair qualified in the last screening, is
  not held, there is room for it, no regime forbids it, and the score lies beyond the threshold on the
  side against which the spread is bought or sold.
\<close>

lemma entry_follows_signal:
  assumes "sa_place (sa_step cf s e) = Entering c sg my mx Leg_Y"
    and "\<not> starts_entry (sa_place s)"
  shows "\<exists>s' out. entry_justified cf s' c sg \<and> sa_qualified s' = sa_qualified s \<and> sa_regime s' = sa_regime s \<and>
    fst ` set (sa_positions s') = fst ` set (sa_positions s) \<and>
    sa_emits cf s e = out @ [entry_order cf c sg my Leg_Y]"
proof (cases e)
  case (Sa_Tick now prices)
  let ?s = "s\<lparr>sa_bar_count := sa_bar_count s + 1\<rparr>"
  let ?t = "if sa_bar_count ?s mod sf_rescreen_interval cf = 0
    then ?s\<lparr>sa_screens_due := sa_screens_due ?s + 1\<rparr> else ?s"
  have run: "sa_act cf s e = exit_loop cf now prices (map fst (sa_positions s)) ?t"
    using assms by (auto simp: Sa_Tick sa_step_def sa_on_tick_def Let_def split: if_splits)
  have "entry_justified cf ?t c sg \<and>
      snd (exit_loop cf now prices (map fst (sa_positions s)) ?t) = [entry_order cf c sg my Leg_Y]"
    using exit_loop_place [of cf now prices "map fst (sa_positions s)" ?t c sg my mx Leg_Y] assms(1)
    by (simp add: sa_step_def run)
  then show ?thesis by (intro exI [of _ ?t] exI [of _ "[]"]) (simp add: sa_emits_def run)
next
  case (Sa_Tick_Answer ok now)
  show ?thesis
  proof (cases "sa_place s")
    case (Exiting pid why l prices rest)
    let ?t = "fst (finish_close pid why s)"
    have run: "sa_act cf s e = (fst (exit_loop cf now prices rest ?t),
        snd (finish_close pid why s) @ snd (exit_loop cf now prices rest ?t))"
      using assms by (auto simp: Sa_Tick_Answer sa_step_def sa_tick_answer_def Exiting case_prod_unfold Let_def split: if_splits)
    have j: "entry_justified cf ?t c sg \<and> snd (exit_loop cf now prices rest ?t) = [entry_order cf c sg my Leg_Y]"
      using exit_loop_place [of cf now prices rest ?t c sg my mx Leg_Y] assms(1) by (simp add: sa_step_def run)
    have "sa_qualified ?t = sa_qualified s" "sa_regime ?t = sa_regime s"
      by (auto simp: finish_close_def split: option.split)
    with j show ?thesis
      by (intro exI [of _ ?t] exI [of _ "snd (finish_close pid why s)"]) (simp add: sa_emits_def run)
  next
    case Between_Ticks
    with assms show ?thesis by (auto simp: Sa_Tick_Answer sa_step_def sa_tick_answer_def)
  next
    case (Entering c' sg' my' mx' l)
    with assms show ?thesis
      by (auto simp: Sa_Tick_Answer sa_step_def sa_tick_answer_def Let_def case_prod_unfold split: if_splits)
  qed
next
  case (Sa_Closer_Answer i ok)
  with assms show ?thesis
    by (auto simp: sa_step_def sa_closer_answer_def Let_def case_prod_unfold split: if_splits)
next
  case (Sa_Screen prices)
  with assms show ?thesis by (auto simp: sa_step_def screen_pairs_def Let_def split: if_splits)
next
  case (Sa_Regime label)
  with assms show ?thesis by (auto simp: sa_step_def sa_on_regime_update_def split: option.splits)
qed (use assms in \<open>auto simp: sa_step_def screen_pairs_def sa_on_fill_def Let_def\<close>)

section \<open>The kill switch closes every pair\<close>

text \<open>What is still open is at the order, or in the rest, of the closing loop.\<close>

definition closing_covers :: "nat \<Rightarrow> sa \<Rightarrow> bool" where
  "closing_covers n s = (case sa_closers s of
     [] \<Rightarrow> (\<forall>pid. \<not> is_open s pid)
   | [c] \<Rightarrow> (\<forall>pid. is_open s pid \<longrightarrow> pid = cl_pair c \<or> pid \<in> set (cl_rest c)) \<and>
       2 * length (cl_rest c) + (if cl_leg c = Leg_Y then 2 else 1) \<le> n
   | _ \<Rightarrow> False)"

lemma closing_loop_covers:
  assumes "\<forall>pid. is_open s pid \<longrightarrow> pid \<in> set pids"
  shows "(case fst (closing_loop_from why pids s) of
      [] \<Rightarrow> \<forall>pid. \<not> is_open s pid
    | [c] \<Rightarrow> (\<forall>pid. is_open s pid \<longrightarrow> pid = cl_pair c \<or> pid \<in> set (cl_rest c)) \<and>
        2 * length (cl_rest c) + 2 \<le> 2 * length pids \<and> cl_leg c = Leg_Y
    | _ \<Rightarrow> False)"
  using assms
proof (induction pids)
  case (Cons pid pids)
  show ?case
  proof (cases "is_open s pid")
    case True
    with Cons.prems show ?thesis by simp
  next
    case False
    with Cons.prems have "\<forall>pid. is_open s pid \<longrightarrow> pid \<in> set pids" by auto
    from Cons.IH [OF this] False show ?thesis by (auto split: list.splits)
  qed
qed simp

lemma is_open_closers [simp]: "is_open (s\<lparr>sa_closers := cs\<rparr>) pid = is_open s pid"
  "is_open (s\<lparr>sa_running := b\<rparr>) pid = is_open s pid"
  by (simp_all add: is_open_def)

lemma closing_loop_closers [simp]:
  "closing_loop_from why pids (s\<lparr>sa_closers := cs\<rparr>) = closing_loop_from why pids s"
  by (induction pids) (auto simp: send_leg_def)

lemma finish_close_opens:
  "is_open (fst (finish_close pid why s)) q \<longleftrightarrow> is_open s q \<and> q \<noteq> pid"
  "sa_closers (fst (finish_close pid why s)) = sa_closers s"
  by (auto simp: finish_close_def is_open_def update_conv' split: option.split)

lemma closer_answer_covers:
  assumes "closing_covers (Suc n) s"
  shows "closing_covers n (sa_step cf s (Sa_Closer_Answer 0 ok))"
proof (cases "sa_closers s")
  case Nil
  with assms show ?thesis by (simp add: closing_covers_def sa_step_def sa_closer_answer_def)
next
  case (Cons c cs)
  with assms have c: "sa_closers s = [c]" by (auto simp: closing_covers_def split: list.splits)
  show ?thesis
  proof (cases "ok \<and> cl_leg c = Leg_Y")
    case True
    with c assms show ?thesis by (auto simp: closing_covers_def sa_step_def sa_closer_answer_def)
  next
    case False
    let ?t = "fst (finish_close (cl_pair c) (cl_reason c) s)"
    have step: "sa_step cf s (Sa_Closer_Answer 0 ok) =
        ?t\<lparr>sa_closers := fst (closing_loop_from (cl_reason c) (cl_rest c) ?t)\<rparr>"
      using False c by (auto simp: sa_step_def sa_closer_answer_def case_prod_unfold Let_def finish_close_opens)
    have "\<forall>pid. is_open ?t pid \<longrightarrow> pid \<in> set (cl_rest c)"
      using assms c by (auto simp: finish_close_opens closing_covers_def)
    from closing_loop_covers [OF this, of "cl_reason c"] assms c show ?thesis
      by (auto simp: step closing_covers_def split: list.splits if_splits)
  qed
qed

text \<open>
  Once the kill switch has arrived and two answers for each pair have come back, accepted or not, the
  agent holds no pair for open: a pair whose order failed included.
\<close>

theorem kill_closes_all:
  assumes "sa_closers s = []" and "2 * length (sa_positions s) \<le> length oks"
  shows "\<not> is_open (foldl (sa_step cf) (sa_step cf s Sa_Kill) (map (Sa_Closer_Answer 0) oks)) pid"
proof -
  let ?t = "s\<lparr>sa_running := False\<rparr>"
  have open_keys: "\<forall>pid. is_open ?t pid \<longrightarrow> pid \<in> set (map fst (sa_positions s))"
    by (auto simp: is_open_def dest: map_of_fst split: option.splits)
  have step: "sa_step cf s Sa_Kill =
      ?t\<lparr>sa_closers := fst (closing_loop_from Kill_Switch_Stop (map fst (sa_positions s)) ?t)\<rparr>"
    using assms(1) by (simp add: sa_step_def close_all_positions_def Let_def case_prod_unfold)
  have "closing_covers (2 * length (sa_positions s)) (sa_step cf s Sa_Kill)"
    using closing_loop_covers [OF open_keys, of Kill_Switch_Stop]
    by (auto simp: step closing_covers_def split: list.splits)
  moreover have "closing_covers n u \<Longrightarrow> n \<le> length oks \<Longrightarrow>
      closing_covers 0 (foldl (sa_step cf) u (map (Sa_Closer_Answer 0) oks))" for n u
  proof (induction oks arbitrary: n u)
    case (Cons ok oks)
    have "closing_covers (n - 1) (sa_step cf u (Sa_Closer_Answer 0 ok))"
      using closer_answer_covers [of "n - 1" u cf ok] Cons.prems(1)
      by (cases n) (auto simp: closing_covers_def sa_step_def sa_closer_answer_def split: list.splits if_splits)
    from Cons.IH [OF this] Cons.prems(2) show ?case by simp
  qed simp
  ultimately have "closing_covers 0 (foldl (sa_step cf) (sa_step cf s Sa_Kill) (map (Sa_Closer_Answer 0) oks))"
    using assms(2) by blast
  then show ?thesis by (auto simp: closing_covers_def split: list.splits if_splits)
qed

section \<open>Where the code falls short\<close>

definition demo_pair :: pair_position where
  "demo_pair = \<lparr>pp_symbol_y = ''AAA'', pp_symbol_x = ''BBB'', pp_direction = 1, pp_hedge_ratio = 1,
     pp_entry_spread = 0, pp_entry_z = - 2, pp_entry_time = 0, pp_qty_y = 100, pp_qty_x = 100,
     pp_half_life_bars = 5, pp_pnl = 0, pp_open = True\<rparr>"

definition demo_holder :: sa where
  "demo_holder = sa_init\<lparr>sa_running := True, sa_positions := [(''AAA-BBB'', demo_pair)]\<rparr>"

theorem kill_closes_all_witness:
  "\<not> is_open (foldl (sa_step (sa_defaults [])) (sa_step (sa_defaults []) demo_holder Sa_Kill)
     (map (Sa_Closer_Answer 0) [True, False])) ''AAA-BBB''"
  by (rule kill_closes_all) (simp_all add: demo_holder_def sa_init_def)

text \<open>
  A pair can be closed twice: its time stop is at the first order when the kill switch arrives, and both
  loops send both orders, which leaves the opposite position.
\<close>

lemma pair_closed_twice:
  "run_out (sa_step (sa_defaults [])) (sa_emits (sa_defaults [])) demo_holder
     [Sa_Tick 601 (\<lambda>_. []), Sa_Kill, Sa_Tick_Answer True 602, Sa_Tick_Answer True 602,
      Sa_Closer_Answer 0 True, Sa_Closer_Answer 0 True] =
   [Sa_Submit ''AAA'' SELL 100, Sa_Submit ''AAA'' SELL 100, Sa_Submit ''BBB'' BUY 100,
    Sa_Publish_Exit ''AAA-BBB'' Time_Stop 0, Sa_Submit ''BBB'' BUY 100,
    Sa_Publish_Exit ''AAA-BBB'' Kill_Switch_Stop 0]"
  by (simp add: sa_step_def sa_emits_def demo_holder_def demo_pair_def sa_init_def sa_defaults_def sa_on_tick_def
      max_hold_sec_def age_sec_def send_leg_def close_order_def sa_tick_answer_def finish_close_def
      close_all_positions_def is_open_def sa_closer_answer_def check_entries_def)

text \<open>An entry that is on its way when the kill switch arrives opens its pair afterwards, and nothing closes it.\<close>

definition demo_entry :: sa where
  "demo_entry = sa_init\<lparr>sa_running := True, sa_place := Entering
     \<lparr>pc_symbol_y = ''AAA'', pc_symbol_x = ''BBB'', pc_hedge_ratio = 1, pc_half_life_bars = 5, pc_hurst = 0,
      pc_is_valid = True\<rparr>
     \<lparr>sg_zscore = - 2, sg_direction = 1, sg_hedge_ratio = 1, sg_half_life = 5, sg_should_exit = False\<rparr>
     10 10 Leg_Y\<rparr>"

lemma pair_opened_after_kill:
  "(let s = foldl (sa_step (sa_defaults [])) demo_entry [Sa_Kill, Sa_Tick_Answer True 1, Sa_Tick_Answer True 1]
    in is_open s ''AAA-BBB'' \<and> \<not> sa_running s \<and> sa_closers s = [])"
  by (simp add: sa_step_def demo_entry_def sa_init_def close_all_positions_def sa_tick_answer_def
      entry_quantities_def pair_id_of_def is_open_def case_prod_unfold Let_def)

text \<open>An entry whose second order fails leaves its first one behind: no pair is recorded.\<close>

lemma first_leg_left_behind:
  "(let s = foldl (sa_step (sa_defaults [])) demo_entry [Sa_Tick_Answer True 1, Sa_Tick_Answer False 1]
    in sa_positions s = [] \<and> sa_place s = Between_Ticks)"
  by (simp add: sa_step_def demo_entry_def sa_init_def sa_tick_answer_def)

text \<open>
  The regime agent publishes its label under another key than the one read here, so the text read is
  empty and the gate stays open.
\<close>

lemma regime_never_heard: "sa_regime (sa_on_regime_update [] s) = sa_regime s"
  by (simp add: sa_on_regime_update_def parse_enum_def all_regimes_def)

end
