(* ===== verification/Shadow_Replay.thy ===== *)
theory Shadow_Replay
  imports Prelude "HOL-Library.Multiset" "HOL-Library.List_Lexorder" "HOL-Library.Char_ord"
    "HOL-Library.Product_Lexorder"
begin

text \<open>
  The shadow replay agent of \<open>agents/agent_18_shadow_replay.py\<close>: the event log of a session, its replay and
  the report that compares a candidate configuration with the baseline. The table is the list of its rows;
  the JSON text of a payload and the hash of a row are parameters, and so is the reading of the two numbers
  that a replay takes from a payload. Time stamps are their ISO texts, which is what the query sorts by.
  The lock runs one replay at a time, so a request is one step.
\<close>

section \<open>The event log\<close>

record session_event =
  se_event_id :: string
  se_session_date :: string
  se_topic :: string
  se_source_agent :: string
  se_timestamp :: string
  se_payload_json :: string
  se_checksum :: string
  se_inserted_at :: string

record recorded_message =
  be_message_id :: string
  be_topic :: string
  be_source_agent :: string
  be_timestamp :: string
  be_payload_json :: string

definition event_checksum :: "(string \<Rightarrow> string) \<Rightarrow> string \<Rightarrow> string \<Rightarrow> string \<Rightarrow> string" where
  "event_checksum sha256 i topic payload_json = sha256 (i @ ''|'' @ topic @ ''|'' @ payload_json)"

record smre =
  sm_current_session_date :: string
  sm_events :: "session_event list"
  sm_jsonl :: "session_event list"

definition smre_init :: "string \<Rightarrow> smre" where
  "smre_init today = \<lparr>sm_current_session_date = today, sm_events = [], sm_jsonl = []\<rparr>"

text \<open>
  The row is ignored when its identifier is in the table; the line of the file is written all the same
  (it has no time of insertion).
\<close>

definition record_bus_event :: "(string \<Rightarrow> string) \<Rightarrow> smre \<Rightarrow> string \<times> recorded_message \<Rightarrow> smre" where
  "record_bus_event sha256 s ev =
     (let (inserted_at, m) = ev;
          row = \<lparr>se_event_id = be_message_id m, se_session_date = sm_current_session_date s,
            se_topic = be_topic m, se_source_agent = be_source_agent m, se_timestamp = be_timestamp m,
            se_payload_json = be_payload_json m,
            se_checksum = event_checksum sha256 (be_message_id m) (be_topic m) (be_payload_json m),
            se_inserted_at = inserted_at\<rparr>
      in s\<lparr>sm_events := (if be_message_id m \<in> se_event_id ` set (sm_events s) then sm_events s
                         else sm_events s @ [row]),
           sm_jsonl := sm_jsonl s @ [row\<lparr>se_inserted_at := []\<rparr>]\<rparr>)"

definition load_session_events :: "string \<Rightarrow> smre \<Rightarrow> session_event list" where
  "load_session_events day s =
     sort_key (\<lambda>e. (se_timestamp e, se_event_id e)) (filter (\<lambda>e. se_session_date e = day) (sm_events s))"

definition checksum_ok :: "(string \<Rightarrow> string) \<Rightarrow> session_event \<Rightarrow> bool" where
  "checksum_ok sha256 e \<longleftrightarrow>
     se_checksum e = event_checksum sha256 (se_event_id e) (se_topic e) (se_payload_json e)"

definition get_recorded_event_count :: "string \<Rightarrow> smre \<Rightarrow> nat" where
  "get_recorded_event_count day s = length (filter (\<lambda>e. se_session_date e = day) (sm_events s))"

section \<open>The replay\<close>

text \<open>What \<open>float(payload[key])\<close> gives.\<close>

datatype number_field = Absent | Unreadable | Readable pyfloat

record replay_payload =
  rp_net_pnl :: number_field
  rp_slippage_bps :: number_field

type_synonym replay_config = "(string \<times> string) list"

record replay_context =
  rc_config :: replay_config
  rc_trades :: "pyfloat list"
  rc_fills :: nat
  rc_pnl_series :: "pyfloat list"
  rc_peak_pnl :: pyfloat
  rc_max_drawdown :: pyfloat
  rc_current_pnl :: pyfloat
  rc_slippage_bps :: "pyfloat list"

definition context_init :: "replay_config \<Rightarrow> replay_context" where
  "context_init cf = \<lparr>rc_config = cf, rc_trades = [], rc_fills = 0, rc_pnl_series = [], rc_peak_pnl = 0,
     rc_max_drawdown = 0, rc_current_pnl = 0, rc_slippage_bps = []\<rparr>"

definition replay_fill :: "replay_payload \<Rightarrow> replay_context \<Rightarrow> replay_context option" where
  "replay_fill p c =
     (let c = c\<lparr>rc_fills := rc_fills c + 1\<rparr> in
      case rp_slippage_bps p of
        Absent \<Rightarrow> Some c
      | Unreadable \<Rightarrow> None
      | Readable x \<Rightarrow> Some (c\<lparr>rc_slippage_bps := rc_slippage_bps c @ [x]\<rparr>))"

definition add_trade :: "pyfloat \<Rightarrow> replay_context \<Rightarrow> replay_context" where
  "add_trade pnl c =
     (let current = rc_current_pnl c + pnl;
          peak = (if rc_peak_pnl c < current then current else rc_peak_pnl c);
          drawdown = peak - current
      in c\<lparr>rc_trades := rc_trades c @ [pnl], rc_current_pnl := current,
           rc_pnl_series := rc_pnl_series c @ [current], rc_peak_pnl := peak,
           rc_max_drawdown := (if rc_max_drawdown c < drawdown then drawdown else rc_max_drawdown c)\<rparr>)"

definition replay_trade_closed :: "replay_payload \<Rightarrow> replay_context \<Rightarrow> replay_context option" where
  "replay_trade_closed p c = (case rp_net_pnl p of
     Absent \<Rightarrow> Some (add_trade 0 c) | Unreadable \<Rightarrow> None | Readable x \<Rightarrow> Some (add_trade x c))"

fun replay_pass ::
  "(string \<Rightarrow> replay_payload option) \<Rightarrow> session_event list \<Rightarrow> replay_context \<Rightarrow> replay_context option" where
  "replay_pass loads [] c = Some c"
| "replay_pass loads (e # es) c =
     (case loads (se_payload_json e) of
        None \<Rightarrow> None
      | Some p \<Rightarrow>
          (case (if se_topic e = ''fill_event'' then replay_fill p c
                 else if se_topic e = ''trade_closed'' then replay_trade_closed p c else Some c) of
             None \<Rightarrow> None
           | Some c \<Rightarrow> replay_pass loads es c))"

section \<open>The report\<close>

record replay_summary =
  rs_total_trades :: nat
  rs_winning_trades :: nat
  rs_losing_trades :: nat
  rs_total_pnl :: pyfloat
  rs_max_drawdown :: pyfloat
  rs_win_rate :: pyfloat
  rs_avg_slippage_bps :: pyfloat

definition summary :: "replay_context \<Rightarrow> replay_summary" where
  "summary c =
     (let winning = length (filter (\<lambda>p. 0 < p) (rc_trades c)); n = length (rc_trades c)
      in \<lparr>rs_total_trades = n, rs_winning_trades = winning, rs_losing_trades = n - winning,
          rs_total_pnl = rc_current_pnl c, rs_max_drawdown = rc_max_drawdown c,
          rs_win_rate = (if rc_trades c = [] then 0 else of_nat winning / of_nat n),
          rs_avg_slippage_bps = (if rc_slippage_bps c = [] then 0
            else sum_list (rc_slippage_bps c) / of_nat (length (rc_slippage_bps c)))\<rparr>)"

record diff_row =
  dr_key :: string
  dr_baseline :: pyfloat
  dr_candidate :: pyfloat
  dr_delta :: pyfloat
  dr_pct_change :: "pyfloat option"

definition diff_of :: "string \<Rightarrow> pyfloat \<Rightarrow> pyfloat \<Rightarrow> diff_row" where
  "diff_of k b c = \<lparr>dr_key = k, dr_baseline = b, dr_candidate = c, dr_delta = c - b,
     dr_pct_change = (if b = 0 then None else Some ((c - b) / b * 100))\<rparr>"

text \<open>The key of the fill latency is in no summary, so both sides count as 0.\<close>

definition compute_diff :: "replay_summary \<Rightarrow> replay_summary \<Rightarrow> diff_row list" where
  "compute_diff b c =
     [diff_of ''total_trades'' (of_nat (rs_total_trades b)) (of_nat (rs_total_trades c)),
      diff_of ''winning_trades'' (of_nat (rs_winning_trades b)) (of_nat (rs_winning_trades c)),
      diff_of ''losing_trades'' (of_nat (rs_losing_trades b)) (of_nat (rs_losing_trades c)),
      diff_of ''total_pnl'' (rs_total_pnl b) (rs_total_pnl c),
      diff_of ''max_drawdown'' (rs_max_drawdown b) (rs_max_drawdown c),
      diff_of ''win_rate'' (rs_win_rate b) (rs_win_rate c),
      diff_of ''avg_slippage_bps'' (rs_avg_slippage_bps b) (rs_avg_slippage_bps c),
      diff_of ''avg_fill_latency_ms'' 0 0]"

record replay_report =
  rr_baseline :: replay_summary
  rr_candidate :: replay_summary
  rr_diff :: "diff_row list"

datatype replay_error = No_Events | Checksum_Mismatch string | Payload_Error

definition halves :: "string \<Rightarrow> 'a list \<Rightarrow> 'a list" where
  "halves mode es =
     (if mode = ''a_side'' then take (length es div 2) es
      else if mode = ''b_side'' then drop (length es div 2) es else es)"

definition run_replay ::
  "(string \<Rightarrow> string) \<Rightarrow> (string \<Rightarrow> replay_payload option) \<Rightarrow> string \<Rightarrow> string \<Rightarrow> replay_config \<Rightarrow> smre \<Rightarrow>
   replay_error + replay_report" where
  "run_replay sha256 loads day mode config_override s =
     (let events = load_session_events day s in
      if events = [] then Inl No_Events
      else
        (case find (\<lambda>e. \<not> checksum_ok sha256 e) events of
           Some e \<Rightarrow> Inl (Checksum_Mismatch (se_event_id e))
         | None \<Rightarrow>
             let events = halves mode events in
             (case replay_pass loads events (context_init []) of
                None \<Rightarrow> Inl Payload_Error
              | Some base \<Rightarrow>
                  let baseline = summary base in
                  (case (if mode \<in> {''candidate'', ''a_side'', ''b_side''}
                         then map_option summary (replay_pass loads events (context_init config_override))
                         else Some baseline) of
                     None \<Rightarrow> Inl Payload_Error
                   | Some candidate \<Rightarrow> Inr \<lparr>rr_baseline = baseline, rr_candidate = candidate,
                       rr_diff = compute_diff baseline candidate\<rparr>))))"

section \<open>Requests\<close>

record replay_request =
  rq_message_id :: string
  rq_correlation_id :: "string option"
  rq_session_date :: "string option"
  rq_mode :: "string option"
  rq_config_override :: "replay_config option"

datatype smre_effect =
    Publish_Replay_Report string string string "replay_error + replay_report"
  | Audit_Diff_Generated string string nat pyfloat pyfloat

definition handle_replay_request ::
  "(string \<Rightarrow> string) \<Rightarrow> (string \<Rightarrow> replay_payload option) \<Rightarrow> replay_request \<Rightarrow> smre \<Rightarrow> smre_effect list" where
  "handle_replay_request sha256 loads q s =
     (let day = (case rq_session_date q of None \<Rightarrow> sm_current_session_date s | Some d \<Rightarrow> d);
          mode = (case rq_mode q of None \<Rightarrow> ''baseline'' | Some m \<Rightarrow> m);
          cf = (case rq_config_override q of None \<Rightarrow> [] | Some c \<Rightarrow> c);
          corr = (if truthy (rq_correlation_id q) then the (rq_correlation_id q) else rq_message_id q)
      in [Publish_Replay_Report day mode corr (run_replay sha256 loads day mode cf s)])"

record proposal_diff =
  pd_proposal_id :: string
  pd_session_date :: string
  pd_report :: replay_report

text \<open>The entry point of the review: the failure of the replay is its failure.\<close>

definition generate_proposal_diff ::
  "(string \<Rightarrow> string) \<Rightarrow> (string \<Rightarrow> replay_payload option) \<Rightarrow> string \<Rightarrow> replay_config \<Rightarrow> string \<Rightarrow> smre \<Rightarrow>
   replay_error + proposal_diff \<times> smre_effect list" where
  "generate_proposal_diff sha256 loads day cf pid s =
     (case run_replay sha256 loads day ''candidate'' cf s of
        Inl e \<Rightarrow> Inl e
      | Inr r \<Rightarrow> Inr (\<lparr>pd_proposal_id = pid, pd_session_date = day, pd_report = r\<rparr>,
          [Audit_Diff_Generated pid day (rs_total_trades (rr_baseline r)) (rs_total_pnl (rr_baseline r))
             (rs_total_pnl (rr_candidate r))]))"

section \<open>The log\<close>

lemma record_bus_event_keeps:
  "prefix (sm_events s) (sm_events (record_bus_event h s ev))"
  "prefix (sm_jsonl s) (sm_jsonl (record_bus_event h s ev))"
  "distinct (map se_event_id (sm_events s)) \<Longrightarrow> distinct (map se_event_id (sm_events (record_bus_event h s ev)))"
  "list_all (checksum_ok h) (sm_events s) \<Longrightarrow> list_all (checksum_ok h) (sm_events (record_bus_event h s ev))"
  "sm_current_session_date (record_bus_event h s ev) = sm_current_session_date s"
  by (auto simp: record_bus_event_def checksum_ok_def Let_def case_prod_unfold)

definition smre_inv :: "(string \<Rightarrow> string) \<Rightarrow> smre \<Rightarrow> bool" where
  "smre_inv h s \<longleftrightarrow> distinct (map se_event_id (sm_events s)) \<and> list_all (checksum_ok h) (sm_events s)"

interpretation smre: inv_machine "record_bus_event h" "smre_inv h" for h
  by unfold_locales (simp add: smre_inv_def record_bus_event_keeps)

lemma find_bad_row: "list_all P xs \<Longrightarrow> find (\<lambda>e. \<not> P e) xs = None"
  by (induction xs) auto

lemma list_all_sort_key [simp]: "list_all P (sort_key f xs) = list_all P xs"
  by (simp add: list_all_iff)

text \<open>A log that only the agent wrote passes its own check.\<close>

lemma recorded_log_verifies:
  "run_replay h loads day mode cf (foldl (record_bus_event h) (smre_init today) evs) \<noteq> Inl (Checksum_Mismatch i)"
proof -
  let ?s = "foldl (record_bus_event h) (smre_init today) evs"
  have "smre_inv h ?s" by (rule smre.run_inv) (simp add: smre_inv_def smre_init_def)
  then have "list_all (checksum_ok h) (load_session_events day ?s)"
    by (auto simp: smre_inv_def load_session_events_def list_all_iff)
  from find_bad_row [OF this] show ?thesis by (auto simp: run_replay_def Let_def split: option.split)
qed

text \<open>With a hash that has no collisions, a payload that was changed in the table is refused.\<close>

theorem changed_payload_refused:
  assumes "inj sha256" and "e \<in> set (load_session_events day s)"
    and "se_checksum e = event_checksum sha256 (se_event_id e) (se_topic e) payload"
    and "se_payload_json e \<noteq> payload"
  shows "\<exists>i. run_replay sha256 loads day mode cf s = Inl (Checksum_Mismatch i)"
proof -
  have "\<not> checksum_ok sha256 e"
    using assms(1,3,4) by (auto simp: checksum_ok_def event_checksum_def dest: injD)
  with assms(2) obtain d where "find (\<lambda>e. \<not> checksum_ok sha256 e) (load_session_events day s) = Some d"
    by (cases "find (\<lambda>e. \<not> checksum_ok sha256 e) (load_session_events day s)") (auto simp: find_None_iff)
  with assms(2) show ?thesis by (auto simp: run_replay_def Let_def)
qed

section \<open>The candidate never differs\<close>

lemma replay_pass_config:
  "replay_pass loads es (c\<lparr>rc_config := x\<rparr>) = map_option (rc_config_update (\<lambda>_. x)) (replay_pass loads es c)"
proof (induction es arbitrary: c)
  case (Cons e es)
  have "replay_fill p (c\<lparr>rc_config := x\<rparr>) = map_option (rc_config_update (\<lambda>_. x)) (replay_fill p c)"
    "replay_trade_closed p (c\<lparr>rc_config := x\<rparr>) = map_option (rc_config_update (\<lambda>_. x)) (replay_trade_closed p c)" for p
    by (auto simp: replay_fill_def replay_trade_closed_def add_trade_def Let_def split: number_field.split)
  then show ?case using Cons.IH by (auto split: option.split)
qed simp

lemma summary_config: "summary (c\<lparr>rc_config := x\<rparr>) = summary c"
  by (simp add: summary_def)

lemma candidate_pass:
  "map_option summary (replay_pass loads es (context_init cf)) =
   map_option summary (replay_pass loads es (context_init []))"
proof -
  have "context_init cf = (context_init [])\<lparr>rc_config := cf\<rparr>" by (simp add: context_init_def)
  then show ?thesis
    by (simp add: replay_pass_config option.map_comp comp_def summary_config)
qed

text \<open>
  C24. A replay cannot tell a candidate from the baseline: whatever parameters are proposed, in every
  mode and for every log, both sides of a finished report are the same and every difference is zero.
\<close>

theorem candidate_never_differs:
  assumes "run_replay sha256 loads day mode cf s = Inr r"
  shows "rr_candidate r = rr_baseline r \<and> list_all (\<lambda>d. dr_delta d = 0) (rr_diff r)"
proof -
  obtain base where b: "replay_pass loads (halves mode (load_session_events day s)) (context_init []) = Some base"
    and r: "rr_baseline r = summary base" "rr_diff r = compute_diff (rr_baseline r) (rr_candidate r)"
    and c: "(if mode \<in> {''candidate'', ''a_side'', ''b_side''}
        then map_option summary (replay_pass loads (halves mode (load_session_events day s)) (context_init cf))
        else Some (summary base)) = Some (rr_candidate r)"
    using assms by (auto simp: run_replay_def Let_def split: if_splits option.splits)
  have "rr_candidate r = summary base" using c candidate_pass [of loads _ cf] b by (auto split: if_splits)
  with r show ?thesis by (simp add: compute_diff_def diff_of_def)
qed

section \<open>The order of recording does not matter\<close>

definition erase :: "session_event \<Rightarrow> session_event" where
  "erase e = e\<lparr>se_inserted_at := []\<rparr>"

lemma erase_simps [simp]:
  "se_event_id (erase e) = se_event_id e" "se_timestamp (erase e) = se_timestamp e"
  "se_session_date (erase e) = se_session_date e" "se_payload_json (erase e) = se_payload_json e"
  "se_topic (erase e) = se_topic e" "checksum_ok h (erase e) = checksum_ok h e"
  by (simp_all add: erase_def checksum_ok_def)

lemma sort_key_map: "sort_key f (map g xs) = map g (sort_key (\<lambda>x. f (g x)) xs)"
proof (induction xs)
  case (Cons x xs)
  have "insort_key f (g x) (map g ys) = map g (insort_key (\<lambda>x. f (g x)) x ys)" for ys
    by (induction ys) auto
  with Cons show ?case by simp
qed simp

lemma load_erased:
  "load_session_events day (s\<lparr>sm_events := map erase (sm_events s)\<rparr>) = map erase (load_session_events day s)"
  by (simp add: load_session_events_def filter_map comp_def sort_key_map)

lemma replay_pass_erased: "replay_pass loads (map erase es) c = replay_pass loads es c"
  by (induction es arbitrary: c) (auto split: option.split)

lemma find_erased:
  "find (\<lambda>e. \<not> checksum_ok h e) (map erase es) = map_option erase (find (\<lambda>e. \<not> checksum_ok h e) es)"
  by (induction es) auto

lemma halves_map: "halves mode (map f es) = map f (halves mode es)"
  by (simp add: halves_def take_map drop_map)

lemma run_replay_erased:
  "run_replay h loads day mode cf (s\<lparr>sm_events := map erase (sm_events s)\<rparr>) = run_replay h loads day mode cf s"
  by (simp add: run_replay_def Let_def load_erased find_erased halves_map replay_pass_erased
      split: option.split)

definition recorded_row :: "(string \<Rightarrow> string) \<Rightarrow> string \<Rightarrow> recorded_message \<Rightarrow> session_event" where
  "recorded_row h today m = \<lparr>se_event_id = be_message_id m, se_session_date = today, se_topic = be_topic m,
      se_source_agent = be_source_agent m, se_timestamp = be_timestamp m, se_payload_json = be_payload_json m,
      se_checksum = event_checksum h (be_message_id m) (be_topic m) (be_payload_json m), se_inserted_at = []\<rparr>"

lemma record_bus_event_new:
  assumes "be_message_id (snd ev) \<notin> se_event_id ` set (sm_events s)"
  shows "map erase (sm_events (record_bus_event h s ev)) =
    map erase (sm_events s) @ [recorded_row h (sm_current_session_date s) (snd ev)]"
  using assms by (simp add: record_bus_event_def Let_def case_prod_unfold recorded_row_def erase_def)

lemma recorded_rows:
  assumes "distinct (map (be_message_id \<circ> snd) evs)"
  shows "map erase (sm_events (foldl (record_bus_event h) (smre_init today) evs)) =
    map (recorded_row h today) (map snd evs) \<and>
    sm_current_session_date (foldl (record_bus_event h) (smre_init today) evs) = today"
  using assms
proof (induction evs rule: rev_induct)
  case Nil
  show ?case by (simp add: smre_init_def)
next
  case (snoc ev evs)
  let ?s = "foldl (record_bus_event h) (smre_init today) evs"
  from snoc have rows: "map erase (sm_events ?s) = map (recorded_row h today) (map snd evs)"
    and today: "sm_current_session_date ?s = today" by simp_all
  have "map se_event_id (sm_events ?s) = map se_event_id (map erase (sm_events ?s))" by (simp add: comp_def)
  also have "\<dots> = map (be_message_id \<circ> snd) evs" by (simp only: rows) (simp add: comp_def recorded_row_def)
  finally have IH: "map se_event_id (sm_events ?s) = map (be_message_id \<circ> snd) evs" .
  have "be_message_id (snd ev) \<notin> se_event_id ` set (sm_events ?s)"
    using snoc.prems IH by (simp flip: set_map) (auto simp: comp_def)
  from record_bus_event_new [OF this, of h] rows today show ?case
    by (simp add: record_bus_event_keeps)
qed

text \<open>
  A replay depends on what was recorded only: the same messages under distinct identifiers give the same
  report whatever the order, and the times, at which the agent recorded them.
\<close>

theorem replay_ignores_arrival_order:
  assumes "mset (map snd evs) = mset (map snd evs')" and "distinct (map (be_message_id \<circ> snd) evs)"
  shows "run_replay h loads day mode cf (foldl (record_bus_event h) (smre_init today) evs) =
    run_replay h loads day mode cf (foldl (record_bus_event h) (smre_init today) evs')"
proof -
  let ?s = "foldl (record_bus_event h) (smre_init today) evs" and ?s' = "foldl (record_bus_event h) (smre_init today) evs'"
  let ?key = "\<lambda>e. (se_timestamp e, se_event_id e)"
  have "mset (map be_message_id (map snd evs)) = mset (map be_message_id (map snd evs'))"
    using arg_cong [OF assms(1), of "image_mset be_message_id"] by (simp only: mset_map)
  from mset_eq_imp_distinct_iff [OF this] assms(2)
  have d': "distinct (map (be_message_id \<circ> snd) evs')" by (simp only: map_map)
  note r = recorded_rows [OF assms(2), of h today] and r' = recorded_rows [OF d', of h today]
  have m: "mset (map erase (sm_events ?s)) = mset (map erase (sm_events ?s'))"
    unfolding conjunct1 [OF r] conjunct1 [OF r']
    using arg_cong [OF assms(1), of "image_mset (recorded_row h today)"] by (simp only: mset_map)
  have "map se_event_id (map erase (sm_events ?s)) = map (be_message_id \<circ> snd) evs"
    unfolding conjunct1 [OF r] by (simp add: comp_def recorded_row_def)
  with assms(2) have "distinct (map se_event_id (map erase (sm_events ?s)))" by simp
  then have "inj_on (snd \<circ> ?key) (set (map erase (sm_events ?s)))" unfolding distinct_map by (simp add: comp_def)
  then have "inj_on ?key (set (map erase (sm_events ?s)))" by (rule inj_on_imageI2)
  then have "inj_on ?key (set (filter (\<lambda>e. se_session_date e = day) (map erase (sm_events ?s))))"
    by (rule inj_on_subset) auto
  then have "load_session_events day (?s\<lparr>sm_events := map erase (sm_events ?s)\<rparr>) =
      load_session_events day (?s'\<lparr>sm_events := map erase (sm_events ?s')\<rparr>)"
    unfolding load_session_events_def
    by (intro sort_key_inj_key_eq) (use m in \<open>simp_all add: mset_filter\<close>)
  then have "run_replay h loads day mode cf (?s\<lparr>sm_events := map erase (sm_events ?s)\<rparr>) =
      run_replay h loads day mode cf (?s'\<lparr>sm_events := map erase (sm_events ?s')\<rparr>)"
    by (simp add: run_replay_def)
  then show ?thesis by (simp only: run_replay_erased)
qed

section \<open>Figures of a replay\<close>

definition context_ok :: "replay_context \<Rightarrow> bool" where
  "context_ok c \<longleftrightarrow> rc_current_pnl c = sum_list (rc_trades c) \<and> 0 \<le> rc_max_drawdown c \<and>
     rc_current_pnl c \<le> rc_peak_pnl c \<and> rc_peak_pnl c - rc_current_pnl c \<le> rc_max_drawdown c \<and>
     length (rc_pnl_series c) = length (rc_trades c)"

lemma add_trade_ok: "context_ok c \<Longrightarrow> context_ok (add_trade x c)"
  by (auto simp: context_ok_def add_trade_def Let_def)

lemma replay_fill_ok: "replay_fill p c = Some d \<Longrightarrow> context_ok c \<Longrightarrow> context_ok d"
  by (auto simp: replay_fill_def context_ok_def Let_def split: number_field.splits)

lemma replay_trade_ok: "replay_trade_closed p c = Some d \<Longrightarrow> context_ok c \<Longrightarrow> context_ok d"
  by (auto simp: replay_trade_closed_def add_trade_ok split: number_field.splits)

lemma replay_pass_ok: "replay_pass loads es c = Some c' \<Longrightarrow> context_ok c \<Longrightarrow> context_ok c'"
proof (induction es arbitrary: c)
  case (Cons e es)
  obtain p where p: "loads (se_payload_json e) = Some p" using Cons.prems(1) by (auto split: option.splits)
  obtain d where d: "(if se_topic e = ''fill_event'' then replay_fill p c
        else if se_topic e = ''trade_closed'' then replay_trade_closed p c else Some c) = Some d"
    and rest: "replay_pass loads es d = Some c'"
    using Cons.prems(1) p by (auto split: option.splits)
  have "context_ok d"
    using d Cons.prems(2) replay_fill_ok [of p c d] replay_trade_ok [of p c d] by (auto split: if_splits)
  with Cons.IH [OF rest] show ?case .
qed simp

lemma report_figures:
  assumes "run_replay h loads day mode cf s = Inr r"
  shows "rs_winning_trades (rr_baseline r) + rs_losing_trades (rr_baseline r) = rs_total_trades (rr_baseline r) \<and>
    0 \<le> rs_win_rate (rr_baseline r) \<and> rs_win_rate (rr_baseline r) \<le> 1 \<and>
    0 \<le> rs_max_drawdown (rr_baseline r) \<and> - rs_total_pnl (rr_baseline r) \<le> rs_max_drawdown (rr_baseline r)"
proof -
  obtain base where b: "replay_pass loads (halves mode (load_session_events day s)) (context_init []) = Some base"
    and r: "rr_baseline r = summary base"
    using assms by (auto simp: run_replay_def Let_def split: if_splits option.splits)
  have "context_ok base \<and> 0 \<le> rc_peak_pnl base"
  proof
    show "context_ok base" by (rule replay_pass_ok [OF b]) (simp add: context_ok_def context_init_def)
    have "rc_peak_pnl c \<le> rc_peak_pnl c'" if "replay_pass loads es c = Some c'" for es c c'
      using that
      by (induction es arbitrary: c)
        (force simp: replay_fill_def replay_trade_closed_def add_trade_def Let_def
          split: option.splits if_splits number_field.splits)+
    from this [OF b] show "0 \<le> rc_peak_pnl base" by (simp add: context_init_def)
  qed
  moreover have "length (filter (\<lambda>p. 0 < p) (rc_trades base)) \<le> length (rc_trades base)" by simp
  ultimately show ?thesis
    by (auto simp: r summary_def context_ok_def Let_def divide_le_eq)
qed

section \<open>A recorded session\<close>

definition replay_message :: "string \<Rightarrow> string \<Rightarrow> recorded_message" where
  "replay_message i t = \<lparr>be_message_id = i, be_topic = t, be_source_agent = ''a'', be_timestamp = ''10:00'',
     be_payload_json = ''{}''\<rparr>"

definition demo_loads :: "string \<Rightarrow> replay_payload option" where
  "demo_loads s = Some \<lparr>rp_net_pnl = Readable 25, rp_slippage_bps = Absent\<rparr>"

definition replay_log :: smre where
  "replay_log = foldl (record_bus_event id) (smre_init ''d'')
     [(''1'', replay_message ''m2'' ''trade_closed''), (''2'', replay_message ''m1'' ''fill_event'')]"

lemma demo_rows: "sm_events replay_log = map (\<lambda>(ins, m). (recorded_row id ''d'' m)\<lparr>se_inserted_at := ins\<rparr>)
  [(''1'', replay_message ''m2'' ''trade_closed''), (''2'', replay_message ''m1'' ''fill_event'')]"
  by (simp add: replay_log_def record_bus_event_def smre_init_def replay_message_def recorded_row_def)

lemma demo_replay:
  "\<exists>r. run_replay id demo_loads ''d'' ''candidate'' cf replay_log = Inr r \<and> rs_total_pnl (rr_baseline r) = 25"
  by (simp add: run_replay_def Let_def load_session_events_def demo_rows recorded_row_def replay_message_def
      checksum_ok_def event_checksum_def halves_def demo_loads_def replay_fill_def replay_trade_closed_def
      context_init_def add_trade_def summary_def)

theorem candidate_never_differs_witness:
  "(case run_replay id demo_loads ''d'' ''candidate'' [(''max_daily_loss'', ''0'')] replay_log of
      Inl e \<Rightarrow> False
    | Inr r \<Rightarrow> rs_total_pnl (rr_baseline r) = 25 \<and> rr_candidate r = rr_baseline r)"
proof -
  obtain r where r: "run_replay id demo_loads ''d'' ''candidate'' [(''max_daily_loss'', ''0'')] replay_log = Inr r"
    and p: "rs_total_pnl (rr_baseline r) = 25" using demo_replay by blast
  show ?thesis using candidate_never_differs [OF r] r p by simp
qed

theorem replay_ignores_arrival_order_witness:
  "run_replay id demo_loads ''d'' ''candidate'' [] replay_log =
   run_replay id demo_loads ''d'' ''candidate'' [] (foldl (record_bus_event id) (smre_init ''d'')
     [(''8'', replay_message ''m1'' ''fill_event''), (''9'', replay_message ''m2'' ''trade_closed'')])"
  unfolding replay_log_def
  by (rule replay_ignores_arrival_order) (simp_all add: replay_message_def)

theorem changed_payload_refused_witness:
  "\<exists>i. run_replay id demo_loads ''d'' ''baseline'' [] (replay_log\<lparr>sm_events :=
     map (se_payload_json_update (\<lambda>_. ''{1}'')) (sm_events replay_log)\<rparr>) = Inl (Checksum_Mismatch i)"
proof -
  let ?s = "replay_log\<lparr>sm_events := map (se_payload_json_update (\<lambda>_. ''{1}'')) (sm_events replay_log)\<rparr>"
  let ?e = "(recorded_row id ''d'' (replay_message ''m1'' ''fill_event''))\<lparr>se_inserted_at := ''2'', se_payload_json := ''{1}''\<rparr>"
  have "?e \<in> set (load_session_events ''d'' ?s)"
    by (simp add: load_session_events_def demo_rows recorded_row_def replay_message_def)
  then show ?thesis
    by (rule changed_payload_refused [rotated, where payload = "''{}''"])
      (simp_all add: recorded_row_def replay_message_def)
qed

end
