(* ===== verification/System_Health.thy ===== *)
theory System_Health
  imports Prelude
begin

text \<open>
  The system health agent of \<open>agents/agent_19_system_health.py\<close>: the smoothed metric of each dimension, a turn
  of the polling loop with its snapshot and escalation, the measurement of the bus by clock ticks and
  the heartbeat. What \<open>psutil\<close>, the clock and the websocket callback answer are arguments; \<open>None\<close>
  is an exception other than a missing library (which reads as 0), and it ends the turn.
\<close>

section \<open>Metrics\<close>

datatype health_severity = HS_OK | HS_WARNING | HS_CRITICAL

datatype health_dimension =
    CPU | MEMORY | EVENT_LOOP_LAG | BUS_LATENCY | API_LATENCY | WEBSOCKET | RECONCILIATION_DRIFT | DISK

record threshold_entry =
  th_warning :: "pyfloat option"
  th_critical :: "pyfloat option"

type_synonym thresholds = "health_dimension \<rightharpoonup> threshold_entry"

definition default_thresholds :: thresholds where
  "default_thresholds d = (let t = \<lambda>w c. Some \<lparr>th_warning = Some w, th_critical = Some c\<rparr> in
     case d of
       CPU \<Rightarrow> t 70 90 | MEMORY \<Rightarrow> t 75 90 | EVENT_LOOP_LAG \<Rightarrow> t 50 200 | BUS_LATENCY \<Rightarrow> t 100 500
     | API_LATENCY \<Rightarrow> t 500 2000 | RECONCILIATION_DRIFT \<Rightarrow> t 1 3 | DISK \<Rightarrow> t 80 95 | WEBSOCKET \<Rightarrow> None)"

definition smoothing_window :: nat where
  "smoothing_window = 3"

record metric_state =
  me_warning :: pyfloat
  me_critical :: pyfloat
  me_samples :: "pyfloat list"
  me_current :: pyfloat
  me_severity :: health_severity

definition metric_init :: "pyfloat \<Rightarrow> pyfloat \<Rightarrow> metric_state" where
  "metric_init w c = \<lparr>me_warning = w, me_critical = c, me_samples = [], me_current = 0, me_severity = HS_OK\<rparr>"

definition metric_update :: "metric_state \<Rightarrow> pyfloat \<Rightarrow> metric_state" where
  "metric_update m v =
     (let samples = push_bounded smoothing_window (me_samples m) v;
          avg = sum_list samples / of_nat (length samples)
      in m\<lparr>me_samples := samples, me_current := avg,
           me_severity := (if me_critical m \<le> avg then HS_CRITICAL
             else if me_warning m \<le> avg then HS_WARNING else HS_OK)\<rparr>)"

section \<open>The agent\<close>

record sha =
  sh_metrics :: "health_dimension \<Rightarrow> metric_state"
  sh_running :: bool
  sh_last_bus_latency_ms :: pyfloat
  sh_overall_severity :: health_severity

text \<open>\<open>None\<close>, or a dictionary that is empty, stands for the defaults.\<close>

definition sha_init :: "thresholds option \<Rightarrow> sha" where
  "sha_init ths =
     (let ths = (case ths of None \<Rightarrow> default_thresholds | Some t \<Rightarrow> t);
          entry = (\<lambda>d. case ths d of Some t \<Rightarrow> t | None \<Rightarrow>
            (case default_thresholds d of Some t \<Rightarrow> t | None \<Rightarrow> \<lparr>th_warning = None, th_critical = None\<rparr>))
      in \<lparr>sh_metrics = (\<lambda>d. metric_init (case th_warning (entry d) of None \<Rightarrow> 80 | Some w \<Rightarrow> w)
            (case th_critical (entry d) of None \<Rightarrow> 95 | Some c \<Rightarrow> c)),
          sh_running = False, sh_last_bus_latency_ms = 0, sh_overall_severity = HS_OK\<rparr>)"

datatype websocket_answer = No_Callback | Answers bool | Raises

record health_readings =
  hr_cpu :: "pyfloat option"
  hr_memory :: "pyfloat option"
  hr_disk :: "pyfloat option"
  hr_sleep_elapsed :: pyfloat
  hr_websocket :: websocket_answer

definition event_loop_lag :: "pyfloat \<Rightarrow> pyfloat" where
  "event_loop_lag elapsed = max 0 ((elapsed - 1 / 1000) * 1000)"

fun measure_websocket :: "websocket_answer \<Rightarrow> bool" where
  "measure_websocket No_Callback = True"
| "measure_websocket (Answers b) = b"
| "measure_websocket Raises = False"

text \<open>The drift is 0 whatever the store answers.\<close>

definition measure_reconciliation_drift :: pyfloat where
  "measure_reconciliation_drift = 0"

record dimension_row =
  dm_dimension :: health_dimension
  dm_value :: pyfloat
  dm_severity :: health_severity

record snapshot =
  ss_dimensions :: "dimension_row list"
  ss_overall_severity :: health_severity

text \<open>A dimension of the turn: measured into its metric, or judged as it is.\<close>

datatype reading = Measured health_dimension "pyfloat option" | Judged health_dimension pyfloat health_severity

definition readings_of :: "health_readings \<Rightarrow> sha \<Rightarrow> reading list" where
  "readings_of r s =
     (let ws = measure_websocket (hr_websocket r) in
      [Measured CPU (hr_cpu r), Measured MEMORY (hr_memory r), Measured DISK (hr_disk r),
       Measured EVENT_LOOP_LAG (Some (event_loop_lag (hr_sleep_elapsed r))),
       Measured BUS_LATENCY (Some (sh_last_bus_latency_ms s)),
       Judged WEBSOCKET (if ws then 1 else 0) (if ws then HS_OK else HS_CRITICAL),
       Measured RECONCILIATION_DRIFT (Some measure_reconciliation_drift)])"

fun collect_rows :: "reading list \<Rightarrow> sha \<Rightarrow> sha \<times> dimension_row list option" where
  "collect_rows [] s = (s, Some [])"
| "collect_rows (Judged d v sev # rs) s =
     (let (s, rows) = collect_rows rs s
      in (s, map_option ((#) \<lparr>dm_dimension = d, dm_value = v, dm_severity = sev\<rparr>) rows))"
| "collect_rows (Measured d None # rs) s = (s, None)"
| "collect_rows (Measured d (Some v) # rs) s =
     (let m = metric_update (sh_metrics s d) v;
          (s, rows) = collect_rows rs (s\<lparr>sh_metrics := (sh_metrics s)(d := m)\<rparr>)
      in (s, map_option ((#) \<lparr>dm_dimension = d, dm_value = v, dm_severity = me_severity m\<rparr>) rows))"

definition overall_of :: "dimension_row list \<Rightarrow> health_severity" where
  "overall_of rows =
     (if HS_CRITICAL \<in> dm_severity ` set rows then HS_CRITICAL
      else if HS_WARNING \<in> dm_severity ` set rows then HS_WARNING else HS_OK)"

definition collect_metrics :: "health_readings \<Rightarrow> sha \<Rightarrow> sha \<times> snapshot option" where
  "collect_metrics r s =
     (case collect_rows (readings_of r s) s of
        (s, None) \<Rightarrow> (s, None)
      | (s, Some rows) \<Rightarrow> (s\<lparr>sh_overall_severity := overall_of rows\<rparr>,
          Some \<lparr>ss_dimensions = rows, ss_overall_severity = overall_of rows\<rparr>))"

section \<open>Publishing\<close>

datatype sha_effect =
    Publish_Health_Update snapshot
  | Publish_Health_Halt "health_dimension list" snapshot
  | Audit_Critical_Halt "health_dimension list"
  | Alert_Health_Warning "health_dimension list" snapshot
  | Publish_Sha_Heartbeat
  | Save_Sha_Heartbeat

definition dims_with :: "health_severity \<Rightarrow> snapshot \<Rightarrow> health_dimension list" where
  "dims_with sev sn = map dm_dimension (filter (\<lambda>d. dm_severity d = sev) (ss_dimensions sn))"

definition escalate_if_needed :: "snapshot \<Rightarrow> sha_effect list" where
  "escalate_if_needed sn = (case ss_overall_severity sn of
     HS_CRITICAL \<Rightarrow> [Publish_Health_Halt (dims_with HS_CRITICAL sn) sn,
                     Audit_Critical_Halt (dims_with HS_CRITICAL sn)]
   | HS_WARNING \<Rightarrow> [Alert_Health_Warning (dims_with HS_WARNING sn) sn]
   | HS_OK \<Rightarrow> [])"

definition poll_turn :: "health_readings \<Rightarrow> sha \<Rightarrow> sha \<times> sha_effect list" where
  "poll_turn r s =
     (case collect_metrics r s of
        (s, None) \<Rightarrow> (s, [])
      | (s, Some sn) \<Rightarrow> (s, Publish_Health_Update sn # escalate_if_needed sn))"

text \<open>A tick whose time cannot be read changes nothing.\<close>

definition sha_on_clock_tick :: "timestamp option \<Rightarrow> timestamp \<Rightarrow> sha \<Rightarrow> sha" where
  "sha_on_clock_tick sent_at received_at s =
     (case sent_at of
        None \<Rightarrow> s
      | Some t \<Rightarrow> s\<lparr>sh_last_bus_latency_ms := of_int (received_at - t) / 1000\<rparr>)"

definition get_metric :: "health_dimension \<Rightarrow> sha \<Rightarrow> pyfloat \<times> health_severity" where
  "get_metric d s = (me_current (sh_metrics s d), me_severity (sh_metrics s d))"

datatype sha_event =
    Sha_Started
  | Sha_Poll health_readings
  | Sha_Heartbeat
  | Sha_Clock_Tick "timestamp option" timestamp
  | Sha_Stopped

fun sha_act :: "sha \<Rightarrow> sha_event \<Rightarrow> sha \<times> sha_effect list" where
  "sha_act s Sha_Started = (s\<lparr>sh_running := True\<rparr>, [])"
| "sha_act s (Sha_Poll r) = (if sh_running s then poll_turn r s else (s, []))"
| "sha_act s Sha_Heartbeat = (s, if sh_running s then [Publish_Sha_Heartbeat, Save_Sha_Heartbeat] else [])"
| "sha_act s (Sha_Clock_Tick sent_at received_at) = (sha_on_clock_tick sent_at received_at s, [])"
| "sha_act s Sha_Stopped = (s\<lparr>sh_running := False\<rparr>, [])"

definition sha_step :: "sha \<Rightarrow> sha_event \<Rightarrow> sha" where
  "sha_step s e = fst (sha_act s e)"

definition sha_emits :: "sha \<Rightarrow> sha_event \<Rightarrow> sha_effect list" where
  "sha_emits s e = snd (sha_act s e)"

section \<open>Smoothing\<close>

text \<open>A metric says what the average of its last three samples, or of those there are, calls for.\<close>

definition severity_of :: "pyfloat \<Rightarrow> pyfloat \<Rightarrow> pyfloat list \<Rightarrow> health_severity" where
  "severity_of w c xs =
     (let avg = sum_list xs / of_nat (length xs)
      in if xs = [] then HS_OK else if c \<le> avg then HS_CRITICAL else if w \<le> avg then HS_WARNING else HS_OK)"

definition sha_metric_ok :: "metric_state \<Rightarrow> bool" where
  "sha_metric_ok m \<longleftrightarrow> length (me_samples m) \<le> smoothing_window \<and>
     me_severity m = severity_of (me_warning m) (me_critical m) (me_samples m)"

definition sha_inv :: "sha \<Rightarrow> bool" where
  "sha_inv s \<longleftrightarrow> (\<forall>d. sha_metric_ok (sh_metrics s d))"

lemma metric_update_ok: "sha_metric_ok m \<Longrightarrow> sha_metric_ok (metric_update m v)"
  using length_push_bounded [of "me_samples m" smoothing_window v]
    push_bounded_nonempty [of smoothing_window "me_samples m" v]
  by (simp add: sha_metric_ok_def metric_update_def severity_of_def Let_def smoothing_window_def)

lemma collect_rows_inv: "sha_inv s \<Longrightarrow> sha_inv (fst (collect_rows rs s))"
  by (induction rs s rule: collect_rows.induct)
    (auto simp: Let_def case_prod_unfold sha_inv_def metric_update_ok)

lemma sha_inv_frame [simp]:
  "sha_inv (s\<lparr>sh_running := b\<rparr>) = sha_inv s" "sha_inv (s\<lparr>sh_overall_severity := o'\<rparr>) = sha_inv s"
  "sha_inv (s\<lparr>sh_last_bus_latency_ms := l\<rparr>) = sha_inv s"
  by (simp_all add: sha_inv_def)

lemma sha_inv_step: "sha_inv s \<Longrightarrow> sha_inv (sha_step s e)"
  using collect_rows_inv [of s]
  by (cases e)
    (auto simp: sha_step_def poll_turn_def collect_metrics_def sha_on_clock_tick_def case_prod_unfold
      split: option.split)

interpretation sha: inv_machine sha_step sha_inv
  by unfold_locales (rule sha_inv_step)

lemma sha_init_inv: "sha_inv (sha_init ths)"
  by (simp add: sha_inv_def sha_init_def sha_metric_ok_def metric_init_def severity_of_def Let_def)

section \<open>What a turn publishes\<close>

text \<open>The row of a metric is the verdict on the last three values of the dimension, this one included.\<close>

lemma collect_rows_verdicts:
  assumes "collect_rows rs s = (s', Some rows)" and "row \<in> set rows"
    and "distinct (map (\<lambda>r. case r of Measured d v \<Rightarrow> d | Judged d v sev \<Rightarrow> d) rs)"
  shows "Judged (dm_dimension row) (dm_value row) (dm_severity row) \<in> set rs \<or>
    Measured (dm_dimension row) (Some (dm_value row)) \<in> set rs \<and>
    dm_severity row = me_severity (metric_update (sh_metrics s (dm_dimension row)) (dm_value row))"
  using assms
proof (induction rs s arbitrary: s' rows rule: collect_rows.induct)
  case (2 d v sev rs s)
  then show ?case by (cases "collect_rows rs s") auto
next
  case (4 d v rs s)
  let ?s = "s\<lparr>sh_metrics := (sh_metrics s)(d := metric_update (sh_metrics s d) v)\<rparr>"
  obtain t rows' where c: "collect_rows rs ?s = (t, Some rows')"
    and rows: "rows = \<lparr>dm_dimension = d, dm_value = v, dm_severity = me_severity (metric_update (sh_metrics s d) v)\<rparr> # rows'"
    using "4.prems"(1) by (cases "collect_rows rs ?s") (auto simp: Let_def)
  show ?case
  proof (cases "row \<in> set rows'")
    case True
    with "4.IH" [OF refl c True] "4.prems"(3)
    show ?thesis by (force simp: image_iff split: reading.splits)
  next
    case False
    with "4.prems"(2) rows show ?thesis by auto
  qed
qed auto

lemma poll_halts_iff_critical:
  "Publish_Health_Halt ds sn \<in> set (snd (poll_turn r s)) \<longleftrightarrow>
     snd (collect_metrics r s) = Some sn \<and> HS_CRITICAL \<in> dm_severity ` set (ss_dimensions sn) \<and>
     ds = dims_with HS_CRITICAL sn"
  by (auto simp: poll_turn_def collect_metrics_def escalate_if_needed_def overall_of_def
      split: prod.splits option.splits health_severity.splits if_splits)

text \<open>
  A poll sends a halt command exactly when it was completed and the average of the last three samples of some
  metric is critical, or the websocket is down; a value that is read for the first time counts alone.
\<close>

definition critical_now :: "health_readings \<Rightarrow> sha \<Rightarrow> bool" where
  "critical_now r s \<longleftrightarrow> \<not> measure_websocket (hr_websocket r) \<or>
     list_ex (\<lambda>(d, v). me_critical (sh_metrics s d) \<le>
         (let xs = push_bounded 3 (me_samples (sh_metrics s d)) v in sum_list xs / of_nat (length xs)))
       [(CPU, the (hr_cpu r)), (MEMORY, the (hr_memory r)), (DISK, the (hr_disk r)),
        (EVENT_LOOP_LAG, event_loop_lag (hr_sleep_elapsed r)), (BUS_LATENCY, sh_last_bus_latency_ms s),
        (RECONCILIATION_DRIFT, 0)]"

lemma update_critical:
  "me_severity (metric_update m v) = HS_CRITICAL \<longleftrightarrow> me_critical m \<le>
     (let xs = push_bounded 3 (me_samples m) v in sum_list xs / of_nat (length xs))"
  by (simp add: metric_update_def smoothing_window_def Let_def)

lemma failed_reading: "Measured d None \<in> set rs \<Longrightarrow> snd (collect_rows rs s) = None"
proof (induction rs arbitrary: s)
  case (Cons r rs)
  show ?case
  proof (cases r)
    case (Measured d' v)
    with Cons show ?thesis by (cases v) (auto simp: Let_def case_prod_unfold)
  next
    case (Judged d' v sev)
    with Cons show ?thesis by (auto simp: case_prod_unfold)
  qed
qed simp

text \<open>The rows of a turn whose readings all came back.\<close>

definition full_rows :: "pyfloat \<Rightarrow> pyfloat \<Rightarrow> pyfloat \<Rightarrow> health_readings \<Rightarrow> sha \<Rightarrow> dimension_row list" where
  "full_rows c m d r s =
     (let row = \<lambda>dim v. \<lparr>dm_dimension = dim, dm_value = v,
            dm_severity = me_severity (metric_update (sh_metrics s dim) v)\<rparr>;
          ws = measure_websocket (hr_websocket r)
      in [row CPU c, row MEMORY m, row DISK d, row EVENT_LOOP_LAG (event_loop_lag (hr_sleep_elapsed r)),
          row BUS_LATENCY (sh_last_bus_latency_ms s),
          \<lparr>dm_dimension = WEBSOCKET, dm_value = (if ws then 1 else 0),
             dm_severity = (if ws then HS_OK else HS_CRITICAL)\<rparr>,
          row RECONCILIATION_DRIFT measure_reconciliation_drift])"

lemma full_turn:
  assumes "hr_cpu r = Some c" "hr_memory r = Some m" "hr_disk r = Some d"
  shows "snd (collect_rows (readings_of r s) s) = Some (full_rows c m d r s)"
  using assms by (simp add: readings_of_def full_rows_def Let_def del: fun_upd_apply) simp

lemma full_turn_emits:
  assumes "hr_cpu r = Some c" "hr_memory r = Some m" "hr_disk r = Some d"
  shows "snd (poll_turn r s) = (let sn = \<lparr>ss_dimensions = full_rows c m d r s,
      ss_overall_severity = overall_of (full_rows c m d r s)\<rparr>
    in Publish_Health_Update sn # escalate_if_needed sn)"
  using full_turn [OF assms, of s]
  by (simp add: poll_turn_def collect_metrics_def case_prod_unfold Let_def)

lemma full_rows_critical:
  assumes "hr_cpu r = Some c" "hr_memory r = Some m" "hr_disk r = Some d"
  shows "HS_CRITICAL \<in> dm_severity ` set (full_rows c m d r s) \<longleftrightarrow> critical_now r s"
proof -
  have eq: "(HS_CRITICAL = x) = (x = HS_CRITICAL)" for x by auto
  show ?thesis
    using assms
    by (simp add: full_rows_def critical_now_def Let_def measure_reconciliation_drift_def eq)
      (simp only: update_critical Let_def, blast)
qed

theorem halt_sent_iff_critical:
  "list_ex (\<lambda>x. case x of Publish_Health_Halt ds sn \<Rightarrow> True | _ \<Rightarrow> False) (sha_emits s (Sha_Poll r)) =
     (sh_running s \<and> hr_cpu r \<noteq> None \<and> hr_memory r \<noteq> None \<and> hr_disk r \<noteq> None \<and> critical_now r s)"
proof (cases "hr_cpu r = None \<or> hr_memory r = None \<or> hr_disk r = None")
  case True
  let ?R = "set (readings_of r s)"
  from True have "Measured CPU None \<in> ?R \<or> Measured MEMORY None \<in> ?R \<or> Measured DISK None \<in> ?R"
    by (elim disjE) (simp_all add: readings_of_def Let_def)
  then obtain d where "Measured d None \<in> ?R" by blast
  from failed_reading [OF this, of s] have "snd (poll_turn r s) = []"
    by (simp add: poll_turn_def collect_metrics_def case_prod_unfold)
  with True show ?thesis by (auto simp: sha_emits_def)
next
  case False
  then obtain c m d where v: "hr_cpu r = Some c" "hr_memory r = Some m" "hr_disk r = Some d" by auto
  have "list_ex (\<lambda>x. case x of Publish_Health_Halt ds sn \<Rightarrow> True | _ \<Rightarrow> False) (snd (poll_turn r s)) = critical_now r s"
    using full_rows_critical [OF v, of s]
    by (auto simp: full_turn_emits [OF v] Let_def escalate_if_needed_def overall_of_def)
  then show ?thesis by (simp add: sha_emits_def v)
qed

end
