(* ===== verification/Market_Regime.thy ===== *)
theory Market_Regime
  imports Models
begin

text \<open>
  The market regime agent of \<open>agents/agent_02_market_regime.py\<close>: the deterministic overrides by volatility,
  the checks on the language model's answer, and the publication of assessments. The answer is an
  argument; \<open>None\<close> stands for every answer that ends in an exception (a failed call, or a field that
  cannot be read). The prompt, and what is put into it only, is left out. Classifications follow one
  another; a feed report is handled between them.
\<close>

section \<open>State\<close>

definition regime_setup_map :: "regime_label \<Rightarrow> setup_type list" where
  "regime_setup_map r = (case r of
     TREND_DAY \<Rightarrow> [BREAKOUT, MOMENTUM_BURST, GAP_AND_GO, OPENING_RANGE_BREAK, VWAP_TAP, CATALYST_MOVER]
   | MEAN_REVERSION_DAY \<Rightarrow> [MEAN_REVERSION_FADE, VWAP_TAP, LIQUIDITY_SWEEP]
   | EVENT_DRIVEN_DAY \<Rightarrow> [CATALYST_MOVER, GAP_AND_GO, BREAKOUT, MOMENTUM_BURST, LIQUIDITY_SWEEP]
   | HIGH_VOLATILITY_NO_TRADE \<Rightarrow> []
   | LOW_LIQUIDITY_NO_TRADE \<Rightarrow> [])"

record mra_config =
  mr_vix_high :: pyfloat
  mr_vix_extreme :: pyfloat

definition mra_defaults :: mra_config where
  "mra_defaults = \<lparr>mr_vix_high = 30, mr_vix_extreme = 40\<rparr>"

record mra =
  mr_current_assessment :: "regime_assessment option"
  mr_regime_history :: "regime_assessment list"
  mr_feed_clean :: bool

definition mra_init :: mra where
  "mra_init = \<lparr>mr_current_assessment = None, mr_regime_history = [], mr_feed_clean = True\<rparr>"

datatype mra_effect =
    Publish_Regime regime_assessment
  | Audit_Regime_Flip regime_label regime_label
  | Alert_Extreme_Vix pyfloat

section \<open>Applying an assessment\<close>

definition apply_assessment :: "regime_assessment \<Rightarrow> mra \<Rightarrow> mra \<times> mra_effect list" where
  "apply_assessment a s =
     (s\<lparr>mr_current_assessment := Some a, mr_regime_history := mr_regime_history s @ [a]\<rparr>,
      (case mr_current_assessment s of
         None \<Rightarrow> []
       | Some p \<Rightarrow> if ra_label p \<noteq> ra_label a then [Audit_Regime_Flip (ra_label p) (ra_label a)] else []) @
      [Publish_Regime a])"

definition apply_no_trade_regime ::
  "regime_label \<Rightarrow> pyfloat \<Rightarrow> string list \<Rightarrow> bool \<Rightarrow> mra \<Rightarrow> mra \<times> mra_effect list" where
  "apply_no_trade_regime label vix flags extreme s =
     (let (s, out) = apply_assessment \<lparr>ra_label = label, ra_vix_level = Some vix, ra_trend_strength = Some 0,
            ra_news_flags = flags, ra_allowed_setup_types = [], ra_confidence = 1\<rparr> s
      in (s, out @ (if extreme then [Alert_Extreme_Vix vix] else [])))"

section \<open>The language model's classification\<close>

text \<open>The fields of the answer, \<open>None\<close> where the key is missing.\<close>

record regime_answer =
  an_label :: "string option"
  an_vix_level :: "pyfloat option"
  an_trend_strength :: "pyfloat option"
  an_news_flags :: "string list option"
  an_allowed_setup_types :: "string list option"
  an_confidence :: "pyfloat option"

definition answer_label :: "regime_answer \<Rightarrow> regime_label" where
  "answer_label a =
     (case parse_enum regime_value all_regimes (case an_label a of None \<Rightarrow> ''high-volatility/no-trade'' | Some l \<Rightarrow> l) of
        None \<Rightarrow> HIGH_VOLATILITY_NO_TRADE
      | Some r \<Rightarrow> r)"

definition answer_setups :: "regime_answer \<Rightarrow> setup_type list" where
  "answer_setups a =
     (let label = answer_label a;
          allowed = List.map_filter (parse_enum setup_value all_setups)
            (case an_allowed_setup_types a of None \<Rightarrow> [] | Some xs \<Rightarrow> xs);
          allowed = (if is_tradeable label then allowed else []);
          canonical = regime_setup_map label;
          allowed = filter (\<lambda>x. x \<in> set canonical) allowed
      in if allowed = [] \<and> is_tradeable label then canonical else allowed)"

definition llm_classify_regime :: "mra_config \<Rightarrow> regime_answer option \<Rightarrow> mra \<Rightarrow> regime_assessment" where
  "llm_classify_regime cf ans s =
     (case ans of
        None \<Rightarrow> \<lparr>ra_label = HIGH_VOLATILITY_NO_TRADE,
          ra_vix_level = (case mr_current_assessment s of None \<Rightarrow> None | Some p \<Rightarrow> ra_vix_level p),
          ra_trend_strength = None, ra_news_flags = [], ra_allowed_setup_types = [], ra_confidence = 0\<rparr>
      | Some a \<Rightarrow>
          let vix = (case an_vix_level a of None \<Rightarrow> 20 | Some v \<Rightarrow> v);
              override = (mr_vix_high cf \<le> vix \<and> is_tradeable (answer_label a))
          in \<lparr>ra_label = (if override then HIGH_VOLATILITY_NO_TRADE else answer_label a),
              ra_vix_level = Some vix,
              ra_trend_strength = Some (case an_trend_strength a of None \<Rightarrow> 1 / 2 | Some t \<Rightarrow> t),
              ra_news_flags = (case an_news_flags a of None \<Rightarrow> [] | Some fs \<Rightarrow> fs),
              ra_allowed_setup_types = (if override then [] else answer_setups a),
              ra_confidence = (case an_confidence a of None \<Rightarrow> 7 / 10 | Some c \<Rightarrow> c)\<rparr>)"

section \<open>Classification\<close>

text \<open>The context that is gathered, as far as a decision reads it: it has no volatility and no flags.\<close>

record market_context =
  mc_vix :: "pyfloat option"
  mc_news_flags :: "string list option"
  mc_prior_vix_estimate :: "pyfloat option"

definition gather_market_context :: "mra \<Rightarrow> market_context" where
  "gather_market_context s = \<lparr>mc_vix = None, mc_news_flags = None,
     mc_prior_vix_estimate = (case mr_current_assessment s of
         None \<Rightarrow> None
       | Some p \<Rightarrow> (case ra_vix_level p of None \<Rightarrow> None | Some v \<Rightarrow> if v = 0 then None else Some v))\<rparr>"

definition classify_and_publish :: "mra_config \<Rightarrow> regime_answer option \<Rightarrow> mra \<Rightarrow> mra \<times> mra_effect list" where
  "classify_and_publish cf ans s =
     (let ctx = gather_market_context s;
          vix = (case mc_vix ctx of None \<Rightarrow> 20 | Some v \<Rightarrow> v);
          flags = (case mc_news_flags ctx of None \<Rightarrow> [] | Some fs \<Rightarrow> fs)
      in if mr_vix_extreme cf \<le> vix then apply_no_trade_regime HIGH_VOLATILITY_NO_TRADE vix flags True s
         else if mr_vix_high cf \<le> vix then apply_no_trade_regime HIGH_VOLATILITY_NO_TRADE vix flags False s
         else apply_assessment (llm_classify_regime cf ans s) s)"

text \<open>A feed that turns dirty has the current assessment published again.\<close>

definition mra_feed_status :: "bool \<Rightarrow> mra \<Rightarrow> mra \<times> mra_effect list" where
  "mra_feed_status clean s =
     (s\<lparr>mr_feed_clean := clean\<rparr>,
      if mr_feed_clean s \<and> \<not> clean
      then (case mr_current_assessment s of None \<Rightarrow> [] | Some a \<Rightarrow> [Publish_Regime a]) else [])"

datatype mra_event = Mra_Classify "regime_answer option" | Mra_Feed bool

fun mra_act :: "mra_config \<Rightarrow> mra \<Rightarrow> mra_event \<Rightarrow> mra \<times> mra_effect list" where
  "mra_act cf s (Mra_Classify ans) = classify_and_publish cf ans s"
| "mra_act cf s (Mra_Feed clean) = mra_feed_status clean s"

definition mra_step :: "mra_config \<Rightarrow> mra \<Rightarrow> mra_event \<Rightarrow> mra" where
  "mra_step cf s e = fst (mra_act cf s e)"

definition mra_emits :: "mra_config \<Rightarrow> mra \<Rightarrow> mra_event \<Rightarrow> mra_effect list" where
  "mra_emits cf s e = snd (mra_act cf s e)"

section \<open>What is published is safe\<close>

definition regime_safe :: "mra_config \<Rightarrow> regime_assessment \<Rightarrow> bool" where
  "regime_safe cf a \<longleftrightarrow>
     set (ra_allowed_setup_types a) \<subseteq> set (regime_setup_map (ra_label a)) \<and>
     (is_tradeable (ra_label a) \<longrightarrow> ra_allowed_setup_types a \<noteq> [] \<and>
        (case ra_vix_level a of None \<Rightarrow> False | Some v \<Rightarrow> v < mr_vix_high cf))"

definition mra_inv :: "mra_config \<Rightarrow> mra \<Rightarrow> bool" where
  "mra_inv cf s \<longleftrightarrow> (case mr_current_assessment s of None \<Rightarrow> True | Some a \<Rightarrow> regime_safe cf a) \<and>
     list_all (regime_safe cf) (mr_regime_history s)"

lemma map_nonempty: "is_tradeable r \<Longrightarrow> regime_setup_map r \<noteq> []"
  by (cases r) (auto simp: regime_setup_map_def)

lemma answer_setups_allowed:
  "set (answer_setups a) \<subseteq> set (regime_setup_map (answer_label a))"
  "is_tradeable (answer_label a) \<Longrightarrow> answer_setups a \<noteq> []"
  using map_nonempty [of "answer_label a"] by (auto simp: answer_setups_def Let_def simp del: is_tradeable.simps)

lemma llm_classify_safe: "regime_safe cf (llm_classify_regime cf ans s)"
proof -
  have "\<not> is_tradeable HIGH_VOLATILITY_NO_TRADE" by simp
  with answer_setups_allowed show ?thesis
    by (cases ans) (auto simp: llm_classify_regime_def regime_safe_def Let_def not_le simp del: is_tradeable.simps)
qed

lemma apply_assessment_safe:
  "regime_safe cf a \<Longrightarrow> mra_inv cf s \<Longrightarrow> mra_inv cf (fst (apply_assessment a s)) \<and>
     (\<forall>x. Publish_Regime x \<in> set (snd (apply_assessment a s)) \<longrightarrow> x = a)"
  by (auto simp: apply_assessment_def mra_inv_def split: option.splits if_splits)

lemma no_trade_safe: "regime_safe cf \<lparr>ra_label = HIGH_VOLATILITY_NO_TRADE, ra_vix_level = v, ra_trend_strength = t,
    ra_news_flags = f, ra_allowed_setup_types = [], ra_confidence = c\<rparr>"
  by (simp add: regime_safe_def)

lemma mra_step_safe:
  assumes "mra_inv cf s"
  shows "mra_inv cf (mra_step cf s e) \<and> (\<forall>x. Publish_Regime x \<in> set (mra_emits cf s e) \<longrightarrow> regime_safe cf x)"
proof (cases e)
  case (Mra_Classify ans)
  have *: "mra_inv cf (fst (apply_assessment a s)) \<and>
      (\<forall>x. Publish_Regime x \<in> set (snd (apply_assessment a s)) \<longrightarrow> regime_safe cf x)" if "regime_safe cf a" for a
    using apply_assessment_safe [OF that assms] that by auto
  show ?thesis
    using * [OF llm_classify_safe] * [OF no_trade_safe]
    by (auto simp: Mra_Classify mra_step_def mra_emits_def classify_and_publish_def apply_no_trade_regime_def Let_def
        case_prod_unfold)
next
  case (Mra_Feed clean)
  with assms show ?thesis
    by (cases "mr_current_assessment s"; cases "mr_feed_clean s"; cases clean) (auto simp: mra_step_def mra_emits_def mra_feed_status_def mra_inv_def)
qed

interpretation mra: inv_machine "mra_step cf" "mra_inv cf" for cf
  by unfold_locales (simp add: mra_step_safe)

text \<open>
  C13. Whatever the language model answers, every regime published is safe: a no-trade regime allows no
  setup, a tradeable one has a volatility under the threshold and allows some setups, all of them from
  the fixed list of the regime.
\<close>

theorem published_regime_is_safe:
  assumes "Publish_Regime a \<in> set (run_out (mra_step cf) (mra_emits cf) mra_init es)"
  shows "regime_safe cf a"
proof -
  have "Publish_Regime a \<in> set (run_out (mra_step cf) (mra_emits cf) s es) \<Longrightarrow> mra_inv cf s \<Longrightarrow> regime_safe cf a" for s
    by (induction es arbitrary: s) (auto dest: mra_step_safe)
  moreover have "mra_inv cf mra_init" by (simp add: mra_inv_def mra_init_def)
  ultimately show ?thesis using assms by blast
qed

definition eager_answer :: regime_answer where
  "eager_answer = \<lparr>an_label = Some ''trend-day'', an_vix_level = Some 18, an_trend_strength = None,
     an_news_flags = None, an_allowed_setup_types = Some [''breakout'', ''moonshot'', ''liquidity_sweep''],
     an_confidence = None\<rparr>"

lemma eager_setups: "answer_label eager_answer = TREND_DAY" "answer_setups eager_answer = [BREAKOUT]"
  by (simp_all add: answer_setups_def answer_label_def eager_answer_def parse_enum_def all_regimes_def all_setups_def
      regime_setup_map_def map_filter_simps)

theorem published_regime_is_safe_witness:
  "regime_safe mra_defaults \<lparr>ra_label = TREND_DAY, ra_vix_level = Some 18, ra_trend_strength = Some (1 / 2),
     ra_news_flags = [], ra_allowed_setup_types = [BREAKOUT], ra_confidence = 7 / 10\<rparr>"
proof -
  have "Publish_Regime \<lparr>ra_label = TREND_DAY, ra_vix_level = Some 18, ra_trend_strength = Some (1 / 2),
     ra_news_flags = [], ra_allowed_setup_types = [BREAKOUT], ra_confidence = 7 / 10\<rparr> \<in>
    set (run_out (mra_step mra_defaults) (mra_emits mra_defaults) mra_init [Mra_Classify (Some eager_answer)])"
    by (simp add: mra_emits_def classify_and_publish_def gather_market_context_def mra_init_def mra_defaults_def
        llm_classify_regime_def eager_setups apply_assessment_def Let_def)
      (simp add: eager_answer_def)
  then show ?thesis by (rule published_regime_is_safe)
qed

text \<open>A classification that fails stops trading.\<close>

lemma failed_classification_stops_trading:
  "Publish_Regime a \<in> set (mra_emits cf s (Mra_Classify None)) \<Longrightarrow>
     \<not> is_tradeable (ra_label a) \<and> ra_allowed_setup_types a = []"
  by (auto simp: mra_emits_def classify_and_publish_def apply_no_trade_regime_def apply_assessment_def
      llm_classify_regime_def Let_def split: if_splits option.splits)

text \<open>
  The overrides by volatility never see a volatility: with thresholds over 20 every regime is what the
  language model makes of it, and the extreme alert is never sent.
\<close>

lemma vix_override_is_dead:
  assumes "20 < mr_vix_high cf" and "20 < mr_vix_extreme cf"
  shows "classify_and_publish cf ans s = apply_assessment (llm_classify_regime cf ans s) s"
    and "Alert_Extreme_Vix v \<notin> set (run_out (mra_step cf) (mra_emits cf) s es)"
proof -
  show *: "classify_and_publish cf ans s = apply_assessment (llm_classify_regime cf ans s) s" for ans s
    using assms by (simp add: classify_and_publish_def gather_market_context_def Let_def)
  have "Alert_Extreme_Vix v \<notin> set (mra_emits cf s e)" for s e
  proof (cases e)
    case (Mra_Classify ans)
    show ?thesis
      by (cases "mr_current_assessment s") (auto simp: Mra_Classify mra_emits_def * apply_assessment_def)
  next
    case (Mra_Feed clean)
    show ?thesis
      by (cases "mr_current_assessment s"; cases "mr_feed_clean s"; cases clean)
        (auto simp: Mra_Feed mra_emits_def mra_feed_status_def)
  qed
  then show "Alert_Extreme_Vix v \<notin> set (run_out (mra_step cf) (mra_emits cf) s es)"
    by (induction es arbitrary: s) auto
qed

end
