(* ===== verification/Market_Universe.thy ===== *)
theory Market_Universe
  imports Models
begin

text \<open>
  The market universe agent of \<open>agents/agent_01_market_universe.py\<close>: classification of the language model's
  candidates, the hard filters, the cap and the starvation check. A build asks the model for candidates and
  does the rest when they arrive; regime updates and other builds may come in between. The candidates are
  an argument: a field that is missing, null, or cannot be read as a number is one of the cases, and
  a candidate that cannot be classified at all (\<open>None\<close>) ends its build. The prompt is left out; reasons are
  short names of the filter.
\<close>

section \<open>Classification\<close>

text \<open>A value of the answer, with what \<open>float\<close> and \<open>int\<close> make of it.\<close>

datatype raw_number = No_Number | Raw_Number "pyfloat option" "int option"

fun safe_float :: "raw_number \<Rightarrow> pyfloat option" where
  "safe_float No_Number = None"
| "safe_float (Raw_Number f i) = f"

fun safe_int :: "raw_number \<Rightarrow> int option" where
  "safe_int No_Number = None"
| "safe_int (Raw_Number f i) = i"

record raw_candidate =
  rd_symbol :: "string option"
  rd_float_shares_million :: raw_number
  rd_avg_daily_volume :: raw_number
  rd_spread_tier :: "string option option"
  rd_sector :: "string option"
  rd_catalyst :: "string option"
  rd_news_sensitive :: bool
  rd_borrow_restricted :: bool
  rd_halt_prone :: bool

definition classify_symbol :: "timestamp \<Rightarrow> raw_candidate \<Rightarrow> symbol_classification" where
  "classify_symbol now r = \<lparr>
     sc_symbol = py_upper (case rd_symbol r of None \<Rightarrow> ''UNKNOWN'' | Some x \<Rightarrow> x), sc_approved = True,
     sc_float_shares_million = safe_float (rd_float_shares_million r),
     sc_avg_daily_volume = safe_int (rd_avg_daily_volume r),
     sc_spread_tier = (case rd_spread_tier r of None \<Rightarrow> Some ''wide'' | Some t \<Rightarrow> t),
     sc_sector = rd_sector r, sc_catalyst = rd_catalyst r, sc_news_sensitive = rd_news_sensitive r,
     sc_borrow_restricted = rd_borrow_restricted r, sc_halt_prone = rd_halt_prone r,
     sc_reject_reason = None, sc_classified_at = now\<rparr>"

section \<open>Filters and cap\<close>

record mua_config =
  uc_min_float :: pyfloat
  uc_min_volume :: int
  uc_max_symbols :: nat
  uc_min_symbols :: nat
  uc_starvation_threshold :: nat

definition mua_defaults :: mua_config where
  "mua_defaults = \<lparr>uc_min_float = 5, uc_min_volume = 500000, uc_max_symbols = 12, uc_min_symbols = 5,
     uc_starvation_threshold = 3\<rparr>"

definition check_filters :: "mua_config \<Rightarrow> symbol_classification \<Rightarrow> string option" where
  "check_filters cf c =
     (if (case sc_float_shares_million c of None \<Rightarrow> False | Some f \<Rightarrow> f < uc_min_float cf) then Some ''float''
      else if (case sc_avg_daily_volume c of None \<Rightarrow> False | Some v \<Rightarrow> v < uc_min_volume cf) then Some ''volume''
      else if sc_spread_tier c = Some ''wide'' then Some ''spread''
      else if sc_halt_prone c then Some ''halt_prone''
      else None)"

definition filter_one :: "mua_config \<Rightarrow> symbol_classification \<Rightarrow> symbol_classification" where
  "filter_one cf c = (case check_filters cf c of
     None \<Rightarrow> c\<lparr>sc_approved := True\<rparr>
   | Some why \<Rightarrow> c\<lparr>sc_approved := False, sc_reject_reason := Some why\<rparr>)"

text \<open>All classifications after the filters, and among them the approved ones.\<close>

definition apply_filters ::
  "mua_config \<Rightarrow> symbol_classification list \<Rightarrow> symbol_classification list \<times> symbol_classification list" where
  "apply_filters cf cs = (let cs = map (filter_one cf) cs in (cs, filter sc_approved cs))"

definition vol_key :: "symbol_classification \<Rightarrow> int" where
  "vol_key c = (case sc_avg_daily_volume c of None \<Rightarrow> 0 | Some v \<Rightarrow> v)"

definition capped :: "mua_config \<Rightarrow> symbol_classification list \<Rightarrow> symbol_classification list" where
  "capped cf approved =
     take (uc_max_symbols cf)
       (sort_key (\<lambda>c. - vol_key c) (filter (\<lambda>c. truthy (sc_catalyst c)) approved) @
        sort_key (\<lambda>c. - vol_key c) (filter (\<lambda>c. \<not> truthy (sc_catalyst c)) approved))"

definition cap_one :: "symbol set \<Rightarrow> symbol_classification \<Rightarrow> symbol_classification" where
  "cap_one selected c =
     (if sc_approved c \<and> sc_symbol c \<notin> selected
      then c\<lparr>sc_approved := False, sc_reject_reason := Some ''cap''\<rparr> else c)"

text \<open>
  The approved classifications are objects of the whole list: the cap marks those it leaves out there. The
  second result is the number of symbols that the starvation check counts.
\<close>

definition apply_cap ::
  "mua_config \<Rightarrow> symbol_classification list \<times> symbol_classification list \<Rightarrow> symbol_classification list \<times> nat" where
  "apply_cap cf p =
     (let (cs, approved) = p in
      if length approved \<le> uc_max_symbols cf then (cs, length approved)
      else let combined = capped cf approved
           in (map (cap_one (sc_symbol ` set combined)) cs, length combined))"

section \<open>The agent\<close>

record mua =
  mu_current_snapshot :: "universe_snapshot option"
  mu_current_regime :: "regime_assessment option"
  mu_starvation :: nat
  mu_builds :: nat

definition mua_init :: mua where
  "mua_init = \<lparr>mu_current_snapshot = None, mu_current_regime = None, mu_starvation = 0, mu_builds = 0\<rparr>"

datatype mua_effect =
    Ask_Candidates "regime_label option"
  | Publish_Universe universe_snapshot
  | Publish_Starvation string nat nat nat
  | Audit_Starvation nat nat nat
  | Audit_Universe string nat nat

definition starvation_check :: "mua_config \<Rightarrow> nat \<Rightarrow> string \<Rightarrow> mua \<Rightarrow> mua \<times> mua_effect list" where
  "starvation_check cf approved_count day s =
     (if uc_min_symbols cf \<le> approved_count then (s\<lparr>mu_starvation := 0\<rparr>, [])
      else
        let n = mu_starvation s + 1 in
        (s\<lparr>mu_starvation := n\<rparr>,
         if uc_starvation_threshold cf \<le> n
         then [Publish_Starvation day n approved_count (uc_min_symbols cf),
               Audit_Starvation n approved_count (uc_min_symbols cf)] else []))"

definition start_build :: "mua \<Rightarrow> mua \<times> mua_effect list" where
  "start_build s = (s\<lparr>mu_builds := mu_builds s + 1\<rparr>, [Ask_Candidates (map_option ra_label (mu_current_regime s))])"

text \<open>The model's answer: no list, or a failed call, counts as no candidates.\<close>

definition finish_build ::
  "mua_config \<Rightarrow> timestamp \<Rightarrow> string \<Rightarrow> raw_candidate option list \<Rightarrow> mua \<Rightarrow> mua \<times> mua_effect list" where
  "finish_build cf now day candidates s =
     (let s = s\<lparr>mu_builds := mu_builds s - 1\<rparr> in
      if None \<in> set candidates then (s, [])
      else
        let (cs, n) = apply_cap cf (apply_filters cf (map (classify_symbol now \<circ> the) candidates));
            (s, out) = starvation_check cf n day s;
            snap = \<lparr>u_session_date = day, u_symbols = cs, u_generated_at = now\<rparr>
        in (s\<lparr>mu_current_snapshot := Some snap\<rparr>,
            out @ [Publish_Universe snap, Audit_Universe day (length (approved_symbols snap)) (length cs)]))"

definition mua_regime_update :: "regime_assessment \<Rightarrow> mua \<Rightarrow> mua \<times> mua_effect list" where
  "mua_regime_update r s =
     (let prev = map_option ra_label (mu_current_regime s);
          s = s\<lparr>mu_current_regime := Some r\<rparr>
      in if prev \<noteq> Some (ra_label r) then start_build s else (s, []))"

datatype mua_event =
    Mua_Build
  | Mua_Regime regime_assessment
  | Mua_Candidates timestamp string "raw_candidate option list"

fun mua_act :: "mua_config \<Rightarrow> mua \<Rightarrow> mua_event \<Rightarrow> mua \<times> mua_effect list" where
  "mua_act cf s Mua_Build = start_build s"
| "mua_act cf s (Mua_Regime r) = mua_regime_update r s"
| "mua_act cf s (Mua_Candidates now day candidates) =
     (if mu_builds s = 0 then (s, []) else finish_build cf now day candidates s)"

definition mua_step :: "mua_config \<Rightarrow> mua \<Rightarrow> mua_event \<Rightarrow> mua" where
  "mua_step cf s e = fst (mua_act cf s e)"

definition mua_emits :: "mua_config \<Rightarrow> mua \<Rightarrow> mua_event \<Rightarrow> mua_effect list" where
  "mua_emits cf s e = snd (mua_act cf s e)"

section \<open>What a published universe holds\<close>

definition passes :: "mua_config \<Rightarrow> symbol_classification \<Rightarrow> bool" where
  "passes cf c \<longleftrightarrow>
     (case sc_float_shares_million c of None \<Rightarrow> True | Some f \<Rightarrow> uc_min_float cf \<le> f) \<and>
     (case sc_avg_daily_volume c of None \<Rightarrow> True | Some v \<Rightarrow> uc_min_volume cf \<le> v) \<and>
     sc_spread_tier c \<noteq> Some ''wide'' \<and> \<not> sc_halt_prone c"

lemma check_filters_passes: "check_filters cf c = None \<longleftrightarrow> passes cf c"
  by (cases "sc_float_shares_million c"; cases "sc_avg_daily_volume c") (simp_all add: check_filters_def passes_def not_less)

lemma filter_one_simps [simp]:
  "sc_symbol (filter_one cf c) = sc_symbol c" "sc_catalyst (filter_one cf c) = sc_catalyst c"
  "vol_key (filter_one cf c) = vol_key c" "passes cf' (filter_one cf c) = passes cf' c"
  "sc_approved (filter_one cf c) = passes cf c"
  using check_filters_passes [of cf c]
  by (auto simp: filter_one_def vol_key_def passes_def [of cf'] split: option.split)

lemma cap_one_simps [simp]:
  "sc_symbol (cap_one sel c) = sc_symbol c" "passes cf (cap_one sel c) = passes cf c"
  "sc_approved (cap_one sel c) = (sc_approved c \<and> sc_symbol c \<in> sel)"
  "vol_key (cap_one sel c) = vol_key c" "sc_catalyst (cap_one sel c) = sc_catalyst c"
  by (auto simp: cap_one_def passes_def vol_key_def)

lemma approved_passes:
  assumes "c \<in> set (fst (apply_cap cf (apply_filters cf cs)))" and "sc_approved c"
  shows "passes cf c"
  using assms by (auto simp: apply_cap_def apply_filters_def Let_def split: if_splits)

lemma length_approved:
  "distinct (map sc_symbol cs) \<Longrightarrow> length (filter (\<lambda>c. P c \<and> sc_symbol c \<in> S) cs) \<le> card (S \<inter> sc_symbol ` set cs)"
proof (induction cs)
  case (Cons c cs)
  have fin: "finite (S \<inter> sc_symbol ` set cs)" by simp
  show ?case
  proof (cases "P c \<and> sc_symbol c \<in> S")
    case True
    then have "S \<inter> sc_symbol ` set (c # cs) = insert (sc_symbol c) (S \<inter> sc_symbol ` set cs)" by auto
    moreover have "sc_symbol c \<notin> S \<inter> sc_symbol ` set cs" using Cons.prems by auto
    ultimately show ?thesis using Cons True fin by simp
  next
    case False
    have "S \<inter> sc_symbol ` set cs \<subseteq> S \<inter> sc_symbol ` set (c # cs)" by auto
    then have "card (S \<inter> sc_symbol ` set cs) \<le> card (S \<inter> sc_symbol ` set (c # cs))" by (intro card_mono) auto
    with Cons False show ?thesis by auto
  qed
qed simp

text \<open>With distinct symbols the cap holds for what is published, and is what the starvation check counts.\<close>

lemma cap_holds:
  assumes "distinct (map sc_symbol cs)"
  shows "length (filter sc_approved (fst (apply_cap cf (apply_filters cf cs)))) \<le> uc_max_symbols cf"
proof (cases "length (filter (passes cf) cs) \<le> uc_max_symbols cf")
  case True
  then show ?thesis by (simp add: apply_cap_def apply_filters_def Let_def filter_map comp_def)
next
  case False
  let ?sel = "capped cf (filter sc_approved (map (filter_one cf) cs))"
  have "card (sc_symbol ` set ?sel) \<le> length ?sel" by (meson card_image_le card_length le_trans finite_set)
  also have "\<dots> \<le> uc_max_symbols cf" by (simp add: capped_def)
  finally have "card (sc_symbol ` set ?sel \<inter> sc_symbol ` set cs) \<le> uc_max_symbols cf"
    by (meson card_mono finite_Int finite_imageI finite_set inf_le1 le_trans)
  moreover have "length (filter (\<lambda>c. passes cf c \<and> sc_symbol c \<in> sc_symbol ` set ?sel) cs)
      \<le> card (sc_symbol ` set ?sel \<inter> sc_symbol ` set cs)"
    by (rule length_approved) fact
  ultimately show ?thesis
    using False by (simp add: apply_cap_def apply_filters_def Let_def filter_map comp_def)
qed

text \<open>
  What is published is tradeable: every approved symbol has enough float and volume, or unknown ones, no wide
  spread and is not halt-prone; and when the candidates are different symbols at most the cap of
  them is approved.
\<close>

theorem published_universe_filtered:
  assumes "Publish_Universe u \<in> set (mua_emits cf s (Mua_Candidates now day candidates))"
  shows "list_all (\<lambda>c. sc_approved c \<longrightarrow> passes cf c) (u_symbols u) \<and>
    (distinct (map (sc_symbol \<circ> classify_symbol now \<circ> the) candidates) \<longrightarrow>
       length (approved_symbols u) \<le> uc_max_symbols cf)"
proof -
  let ?cs = "map (classify_symbol now \<circ> the) candidates"
  have u: "u_symbols u = fst (apply_cap cf (apply_filters cf ?cs))"
    using assms
    by (auto simp: mua_emits_def finish_build_def starvation_check_def Let_def case_prod_unfold split: if_splits)
  have "list_all (\<lambda>c. sc_approved c \<longrightarrow> passes cf c) (u_symbols u)"
    using approved_passes [of _ cf ?cs] by (auto simp: u list_all_iff)
  moreover have "length (approved_symbols u) \<le> uc_max_symbols cf" if "distinct (map sc_symbol ?cs)"
    using cap_holds [OF that, of cf] by (simp add: approved_symbols_def u)
  ultimately show ?thesis by (simp add: comp_assoc)
qed

section \<open>Starvation\<close>

text \<open>The counts of the builds that ended, in order.\<close>

definition build_count :: "mua_config \<Rightarrow> mua \<Rightarrow> mua_event \<Rightarrow> nat list" where
  "build_count cf s e = (case e of
     Mua_Candidates now day candidates \<Rightarrow>
       if mu_builds s = 0 \<or> None \<in> set candidates then []
       else [snd (apply_cap cf (apply_filters cf (map (classify_symbol now \<circ> the) candidates)))]
   | _ \<Rightarrow> [])"

definition trailing_starved :: "mua_config \<Rightarrow> nat list \<Rightarrow> nat" where
  "trailing_starved cf ns = length (takeWhile (\<lambda>n. n < uc_min_symbols cf) (rev ns))"

lemma starvation_step:
  assumes "mu_starvation s = trailing_starved cf ns"
  shows "mu_starvation (mua_step cf s e) = trailing_starved cf (ns @ build_count cf s e)"
  using assms
  by (cases e)
    (auto simp: mua_step_def start_build_def mua_regime_update_def finish_build_def starvation_check_def
      build_count_def trailing_starved_def Let_def case_prod_unfold)

text \<open>
  The counter is the number of builds, not of sessions, since the last one with enough symbols; from
  the threshold on each further one raises the alert.
\<close>

theorem starvation_counts_builds:
  "mu_starvation (foldl (mua_step cf) mua_init es) = trailing_starved cf (run_out (mua_step cf) (build_count cf) mua_init es)"
proof -
  have "mu_starvation (foldl (mua_step cf) s es) = trailing_starved cf (ns @ run_out (mua_step cf) (build_count cf) s es)"
    if "mu_starvation s = trailing_starved cf ns" for s ns
    using that
  proof (induction es arbitrary: s ns)
    case (Cons e es)
    from Cons.IH [OF starvation_step [OF Cons.prems, of e]] show ?case by simp
  qed simp
  from this [of mua_init "[]"] show ?thesis by (simp add: mua_init_def trailing_starved_def)
qed

section \<open>Examples\<close>

definition plain_candidate :: "string \<Rightarrow> raw_candidate" where
  "plain_candidate sy = \<lparr>rd_symbol = Some sy, rd_float_shares_million = No_Number, rd_avg_daily_volume = No_Number,
     rd_spread_tier = Some (Some ''tight''), rd_sector = None, rd_catalyst = None, rd_news_sensitive = False,
     rd_borrow_restricted = True, rd_halt_prone = False\<rparr>"

definition waiting_mua :: mua where
  "waiting_mua = mua_init\<lparr>mu_builds := 1\<rparr>"

text \<open>Unknown float and volume, and a restricted borrow, pass every filter.\<close>

lemma unknown_passes: "passes cf (classify_symbol now (plain_candidate sy))"
  by (simp add: passes_def classify_symbol_def plain_candidate_def)

lemma build_publishes:
  assumes "mu_builds s \<noteq> 0" and "None \<notin> set candidates"
  shows "\<exists>u. mu_current_snapshot (mua_step cf s (Mua_Candidates now day candidates)) = Some u \<and>
    Publish_Universe u \<in> set (mua_emits cf s (Mua_Candidates now day candidates))"
  using assms by (auto simp: mua_step_def mua_emits_def finish_build_def Let_def case_prod_unfold)

theorem published_universe_filtered_witness:
  "(case mu_current_snapshot (mua_step mua_defaults waiting_mua (Mua_Candidates 0 ''d'' [Some (plain_candidate ''A'')])) of
      None \<Rightarrow> False
    | Some u \<Rightarrow> list_all (\<lambda>c. sc_approved c \<longrightarrow> passes mua_defaults c) (u_symbols u) \<and> length (approved_symbols u) \<le> 12)"
proof -
  let ?e = "Mua_Candidates 0 ''d'' [Some (plain_candidate ''A'')]"
  obtain u where s: "mu_current_snapshot (mua_step mua_defaults waiting_mua ?e) = Some u"
    and p: "Publish_Universe u \<in> set (mua_emits mua_defaults waiting_mua ?e)"
    using build_publishes [of waiting_mua "[Some (plain_candidate ''A'')]" mua_defaults 0 "''d''"]
    by (auto simp: waiting_mua_def)
  have "uc_max_symbols mua_defaults = 12" by (simp add: mua_defaults_def)
  with published_universe_filtered [OF p] show ?thesis by (simp add: s)
qed

text \<open>Symbols listed twice get past the cap: with a cap of one both entries of the same symbol stay approved.\<close>

lemma duplicates_exceed_cap:
  assumes "passes cf c" and "uc_max_symbols cf = 1"
  shows "length (filter sc_approved (fst (apply_cap cf (apply_filters cf [c, c])))) = 2"
proof -
  have "capped cf [filter_one cf c, filter_one cf c] = [filter_one cf c]"
    using assms(2) by (cases "truthy (sc_catalyst c)") (simp_all add: capped_def)
  with assms show ?thesis by (simp add: apply_cap_def apply_filters_def Let_def)
qed

end
