(* ===== verification/Cat_Reporting.thy ===== *)
theory Cat_Reporting
  imports Enums
begin

text \<open>
  The audit trail of \<open>infrastructure/cat_reporter.py\<close> and the compliance agent of
  \<open>agents/agent_23_cat_compliance.py\<close>: order life cycles, the spoofing analysis of a symbol, the chained file,
  the buffer, and the handlers with their holds. The hash of an event's JSON is a parameter, clock readings
  (nanoseconds) are arguments, and an operation that raises returns \<open>None\<close> with the state it leaves. The file is the
  list of lines of this process. Heartbeats and the table for display are left out.
\<close>

section \<open>Events\<close>

datatype cat_event_type = MENO | MEOR | MEEF | MEOC | MEOCR | MEQT | MEXC

record cat_event =
  ce_event_type :: cat_event_type
  ce_firm_id :: string
  ce_order_id :: string
  ce_symbol :: symbol
  ce_side :: order_side
  ce_qty :: pyfloat
  ce_price :: "pyfloat option"
  ce_timestamp_ns :: int
  ce_account_id :: string
  ce_exchange :: string
  ce_fill_qty :: pyfloat
  ce_fill_price :: pyfloat
  ce_cancel_reason :: string
  ce_orig_order_id :: string

type_synonym order_lifecycle = "cat_event list"

definition is_complete :: "order_lifecycle \<Rightarrow> bool" where
  "is_complete es = list_ex (\<lambda>e. ce_event_type e \<in> {MEEF, MEOC}) es"

definition total_filled :: "order_lifecycle \<Rightarrow> pyfloat" where
  "total_filled es = sum_list (map ce_fill_qty (filter (\<lambda>e. ce_event_type e = MEEF) es))"

section \<open>Spoofing analysis\<close>

record spoofing_analysis =
  sp_window_sec :: pyfloat
  sp_events :: "(int \<times> string \<times> cat_event_type) list"

definition analysis_init :: spoofing_analysis where
  "analysis_init = \<lparr>sp_window_sec = 30, sp_events = []\<rparr>"

definition analysis_record :: "int \<Rightarrow> cat_event_type \<Rightarrow> string \<Rightarrow> spoofing_analysis \<Rightarrow> spoofing_analysis" where
  "analysis_record now ty oid a = a\<lparr>sp_events := push_bounded 500 (sp_events a) (now, oid, ty)\<rparr>"

definition recent_events :: "int \<Rightarrow> spoofing_analysis \<Rightarrow> (int \<times> string \<times> cat_event_type) list" where
  "recent_events now a =
     (let cutoff = now - py_trunc (sp_window_sec a * 1000000000)
      in filter (\<lambda>(ts, oid, ty). cutoff \<le> ts) (sp_events a))"

definition count_type :: "cat_event_type \<Rightarrow> (int \<times> string \<times> cat_event_type) list \<Rightarrow> nat" where
  "count_type ty es = length (filter (\<lambda>(ts, oid, et). et = ty) es)"

definition cancel_fill_ratio :: "int \<Rightarrow> spoofing_analysis \<Rightarrow> pyfloat" where
  "cancel_fill_ratio now a =
     (let cancels = count_type MEOC (recent_events now a); fills = count_type MEEF (recent_events now a)
      in if fills = 0 then of_nat cancels else of_nat cancels / of_nat fills)"

text \<open>The loop over all events of the buffer, with the time of placement of each order.\<close>

fun rapid_cancels :: "(string \<rightharpoonup> int) \<Rightarrow> (int \<times> string \<times> cat_event_type) list \<Rightarrow> nat" where
  "rapid_cancels placed [] = 0"
| "rapid_cancels placed ((ts, oid, ty) # es) =
     (if ty = MENO then rapid_cancels (placed(oid \<mapsto> ts)) es
      else if ty = MEOC \<and> placed oid \<noteq> None \<and> of_int (ts - the (placed oid)) / 1000000 < (500 :: real)
      then 1 + rapid_cancels placed es
      else rapid_cancels placed es)"

definition rapid_cancel_count :: "spoofing_analysis \<Rightarrow> nat" where
  "rapid_cancel_count a = rapid_cancels Map.empty (sp_events a)"

definition assess_risk :: "int \<Rightarrow> spoofing_analysis \<Rightarrow> spoofing_risk" where
  "assess_risk now a =
     (let cfr = cancel_fill_ratio now a; rc = rapid_cancel_count a
      in if 20 < cfr \<and> 5 < rc then SR_CRITICAL
         else if 10 < cfr \<or> 3 < rc then SR_HIGH
         else if 5 < cfr then SR_MEDIUM
         else if 2 < cfr then SR_LOW else SR_NONE)"

section \<open>The reporter\<close>

record audit_line =
  al_prev_hash :: string
  al_content_hash :: string
  al_event :: cat_event

datatype audit_file = No_File | Open_File | Closed_File

record cat_reporter =
  cr_firm_id :: string
  cr_callback :: bool
  cr_lifecycles :: "(string \<times> order_lifecycle) list"
  cr_spoofing :: "(symbol \<times> spoofing_analysis) list"
  cr_buffer :: "cat_event list"
  cr_file :: audit_file
  cr_lines :: "audit_line list"
  cr_prev_hash :: string
  cr_initialized :: bool

definition reporter_init :: "string \<Rightarrow> bool \<Rightarrow> cat_reporter" where
  "reporter_init firm callback = \<lparr>cr_firm_id = firm, cr_callback = callback, cr_lifecycles = [], cr_spoofing = [],
     cr_buffer = [], cr_file = No_File, cr_lines = [], cr_prev_hash = ''GENESIS'', cr_initialized = False\<rparr>"

definition initialize :: "cat_reporter \<Rightarrow> cat_reporter" where
  "initialize r = r\<lparr>cr_file := Open_File, cr_initialized := True\<rparr>"

definition reporter_shutdown :: "cat_reporter \<Rightarrow> cat_reporter" where
  "reporter_shutdown r = (if cr_file r = No_File then r else r\<lparr>cr_file := Closed_File\<rparr>)"

text \<open>A write to a file that was closed raises.\<close>

definition write_audit :: "(cat_event \<Rightarrow> string) \<Rightarrow> cat_event \<Rightarrow> cat_reporter \<Rightarrow> cat_reporter option" where
  "write_audit content_hash e r =
     (case cr_file r of
        No_File \<Rightarrow> Some r
      | Closed_File \<Rightarrow> None
      | Open_File \<Rightarrow> Some (r\<lparr>cr_lines := cr_lines r @
            [\<lparr>al_prev_hash = cr_prev_hash r, al_content_hash = content_hash e, al_event = e\<rparr>],
          cr_prev_hash := content_hash e\<rparr>))"

definition buffer_limit :: nat where
  "buffer_limit = 10000"

datatype cat_effect = Critical_Callback symbol cat_event

text \<open>
  The analysis of a symbol is looked up in a dictionary whose default is made by calling its class without
  the symbol that the class requires: for a symbol that has no entry the look-up raises.
\<close>

definition default_analysis :: "spoofing_analysis option" where
  "default_analysis = None"

definition record_cat ::
  "(cat_event \<Rightarrow> string) \<Rightarrow> int \<Rightarrow> int \<Rightarrow> cat_event \<Rightarrow> cat_reporter \<Rightarrow>
   cat_reporter \<times> (spoofing_risk \<times> cat_effect list) option" where
  "record_cat content_hash now later e r =
     (let r = (if cr_initialized r then r else initialize r);
          old = (case map_of (cr_lifecycles r) (ce_order_id e) of None \<Rightarrow> [] | Some es \<Rightarrow> es);
          r = r\<lparr>cr_lifecycles := AList.update (ce_order_id e) (old @ [e]) (cr_lifecycles r)\<rparr>
      in case (case map_of (cr_spoofing r) (ce_symbol e) of None \<Rightarrow> default_analysis | Some a \<Rightarrow> Some a) of
           None \<Rightarrow> (r, None)
         | Some a \<Rightarrow>
             let a = analysis_record now (ce_event_type e) (ce_order_id e) a;
                 r = r\<lparr>cr_spoofing := AList.update (ce_symbol e) a (cr_spoofing r)\<rparr>;
                 risk = assess_risk later a
             in (case write_audit content_hash e r of
                   None \<Rightarrow> (r, None)
                 | Some r \<Rightarrow>
                     (if length (cr_buffer r) < buffer_limit then r\<lparr>cr_buffer := cr_buffer r @ [e]\<rparr> else r,
                      Some (risk, if risk = SR_CRITICAL \<and> cr_callback r then [Critical_Callback (ce_symbol e) e] else []))))"

definition reporter_risk :: "int \<Rightarrow> symbol \<Rightarrow> cat_reporter \<Rightarrow> spoofing_risk" where
  "reporter_risk now sy r = (case map_of (cr_spoofing r) sy of None \<Rightarrow> SR_NONE | Some a \<Rightarrow> assess_risk now a)"

definition incomplete_lifecycles :: "cat_reporter \<Rightarrow> order_lifecycle list" where
  "incomplete_lifecycles r = filter (\<lambda>es. \<not> is_complete es) (map snd (cr_lifecycles r))"

record cat_submission =
  cb_total_events :: nat
  cb_total_orders :: nat
  cb_fills :: nat
  cb_cancels :: nat
  cb_incomplete_orders :: nat
  cb_high_risk_symbols :: "symbol list"

definition daily_submission :: "int \<Rightarrow> cat_reporter \<Rightarrow> cat_submission" where
  "daily_submission now r =
     (let es = concat (map snd (cr_lifecycles r))
      in \<lparr>cb_total_events = length es, cb_total_orders = length (cr_lifecycles r),
          cb_fills = length (filter (\<lambda>e. ce_event_type e = MEEF) es),
          cb_cancels = length (filter (\<lambda>e. ce_event_type e = MEOC) es),
          cb_incomplete_orders = length (incomplete_lifecycles r),
          cb_high_risk_symbols = map fst (filter (\<lambda>(sy, a). assess_risk now a \<in> {SR_HIGH, SR_CRITICAL}) (cr_spoofing r))\<rparr>)"

section \<open>The compliance agent\<close>

record cca =
  cc_reporter :: cat_reporter
  cc_running :: bool
  cc_held :: "symbol set"
  cc_hold_tasks :: "symbol \<rightharpoonup> pyfloat"
  cc_events_recorded :: nat
  cc_spoofing_alerts :: nat
  cc_critical_escalations :: nat

definition cca_init :: "cat_reporter \<Rightarrow> cca" where
  "cca_init r = \<lparr>cc_reporter = r, cc_running = False, cc_held = {}, cc_hold_tasks = Map.empty,
     cc_events_recorded = 0, cc_spoofing_alerts = 0, cc_critical_escalations = 0\<rparr>"

datatype cca_effect =
    Alert_Order_Blocked symbol string
  | Alert_Spoofing symbol spoofing_risk
  | Audit_Spoofing symbol spoofing_risk
  | Notify_Spoofing symbol spoofing_risk
  | Audit_Daily_Report cat_submission
  | Publish_Daily_Report cat_submission
  | From_Reporter cat_effect

definition parse_side :: "string \<Rightarrow> order_side" where
  "parse_side s =
     (case map_of [(''buy'', BUY), (''sell'', SELL), (''sell_short'', SELL_SHORT), (''buy_to_cover'', BUY_TO_COVER)]
             (py_lower s) of None \<Rightarrow> BUY | Some x \<Rightarrow> x)"

text \<open>The agent calls \<open>append\<close> of the audit log, which only has \<open>record\<close>: the call raises.\<close>

definition audit_log_appends :: bool where
  "audit_log_appends = False"

definition cca_record ::
  "(cat_event \<Rightarrow> string) \<Rightarrow> int \<Rightarrow> int \<Rightarrow> cat_event \<Rightarrow> cca \<Rightarrow> cca \<times> (spoofing_risk \<times> cca_effect list) option" where
  "cca_record h now later e s =
     (case record_cat h now later e (cc_reporter s) of
        (r, None) \<Rightarrow> (s\<lparr>cc_reporter := r\<rparr>, None)
      | (r, Some (risk, out)) \<Rightarrow>
          (s\<lparr>cc_reporter := r, cc_events_recorded := cc_events_recorded s + 1\<rparr>, Some (risk, map From_Reporter out)))"

definition apply_hold :: "symbol \<Rightarrow> pyfloat \<Rightarrow> cca \<Rightarrow> cca" where
  "apply_hold sy hold_sec s =
     s\<lparr>cc_held := insert sy (cc_held s), cc_hold_tasks := (cc_hold_tasks s)(sy \<mapsto> hold_sec)\<rparr>"

definition handle_spoofing_risk :: "bool \<Rightarrow> symbol \<Rightarrow> spoofing_risk \<Rightarrow> cca \<Rightarrow> cca \<times> cca_effect list" where
  "handle_spoofing_risk notify sy risk s =
     (let s = s\<lparr>cc_spoofing_alerts := cc_spoofing_alerts s + 1,
                cc_critical_escalations := cc_critical_escalations s + (if risk = SR_CRITICAL then 1 else 0)\<rparr>
      in if risk \<in> {SR_HIGH, SR_CRITICAL} \<and> \<not> audit_log_appends then (s, [])
         else if risk \<in> {SR_HIGH, SR_CRITICAL}
         then (apply_hold sy (if risk = SR_CRITICAL then 300 else 30) s,
               [Audit_Spoofing sy risk, Alert_Spoofing sy risk] @ (if notify then [Notify_Spoofing sy risk] else []))
         else (s, if notify then [Notify_Spoofing sy risk] else []))"

text \<open>The timer of a hold.\<close>

definition release_hold :: "symbol \<Rightarrow> cca \<Rightarrow> cca" where
  "release_hold sy s =
     (if cc_hold_tasks s sy = None then s
      else s\<lparr>cc_held := cc_held s - {sy}, cc_hold_tasks := (cc_hold_tasks s)(sy := None)\<rparr>)"

definition cca_order_submitted ::
  "(cat_event \<Rightarrow> string) \<Rightarrow> int \<Rightarrow> int \<Rightarrow> cat_event \<Rightarrow> cca \<Rightarrow> cca \<times> cca_effect list" where
  "cca_order_submitted h now later e s =
     (if ce_symbol e \<in> cc_held s then (s, [Alert_Order_Blocked (ce_symbol e) (ce_order_id e)])
      else (case cca_record h now later (e\<lparr>ce_event_type := MENO\<rparr>) s of
          (s, None) \<Rightarrow> (s, [])
        | (s, Some (risk, out)) \<Rightarrow> (s, out)))"

definition cca_order_update ::
  "(cat_event \<Rightarrow> string) \<Rightarrow> bool \<Rightarrow> int \<Rightarrow> int \<Rightarrow> string \<Rightarrow> cat_event \<Rightarrow> cca \<Rightarrow> cca \<times> cca_effect list" where
  "cca_order_update h notify now later status e s =
     (if status \<notin> {''cancelled'', ''cancel_replace''} then (s, [])
      else (case cca_record h now later
               (e\<lparr>ce_event_type := (if status = ''cancel_replace'' then MEOCR else MEOC)\<rparr>) s of
          (s, None) \<Rightarrow> (s, [])
        | (s, Some (risk, out)) \<Rightarrow>
            if risk \<in> {SR_HIGH, SR_CRITICAL}
            then let (s, out') = handle_spoofing_risk notify (ce_symbol e) risk s in (s, out @ out')
            else (s, out)))"

definition cca_fill :: "(cat_event \<Rightarrow> string) \<Rightarrow> int \<Rightarrow> int \<Rightarrow> cat_event \<Rightarrow> cca \<Rightarrow> cca \<times> cca_effect list" where
  "cca_fill h now later e s =
     (case cca_record h now later (e\<lparr>ce_event_type := MEEF\<rparr>) s of
        (s, None) \<Rightarrow> (s, [])
      | (s, Some (risk, out)) \<Rightarrow> (s, out))"

definition cca_session_end :: "int \<Rightarrow> cca \<Rightarrow> cca \<times> cca_effect list" where
  "cca_session_end now s =
     (let rep = daily_submission now (cc_reporter s)
      in (s, if audit_log_appends then [Audit_Daily_Report rep, Publish_Daily_Report rep] else []))"

datatype cca_event =
    Cca_Started
  | Cca_Submitted int int cat_event
  | Cca_Update int int string cat_event
  | Cca_Fill int int cat_event
  | Cca_Hold_Over symbol
  | Cca_Session_End int
  | Cca_Kill
  | Cca_Stopped

fun cca_act :: "(cat_event \<Rightarrow> string) \<Rightarrow> bool \<Rightarrow> cca \<Rightarrow> cca_event \<Rightarrow> cca \<times> cca_effect list" where
  "cca_act h notify s Cca_Started = (s\<lparr>cc_running := True, cc_reporter := initialize (cc_reporter s)\<rparr>, [])"
| "cca_act h notify s (Cca_Submitted now later e) = cca_order_submitted h now later e s"
| "cca_act h notify s (Cca_Update now later status e) = cca_order_update h notify now later status e s"
| "cca_act h notify s (Cca_Fill now later e) = cca_fill h now later e s"
| "cca_act h notify s (Cca_Hold_Over sy) = (release_hold sy s, [])"
| "cca_act h notify s (Cca_Session_End now) = cca_session_end now s"
| "cca_act h notify s Cca_Kill = (s\<lparr>cc_running := False\<rparr>, [])"
| "cca_act h notify s Cca_Stopped = (s\<lparr>cc_running := False, cc_reporter := reporter_shutdown (cc_reporter s)\<rparr>, [])"

definition cca_step :: "(cat_event \<Rightarrow> string) \<Rightarrow> bool \<Rightarrow> cca \<Rightarrow> cca_event \<Rightarrow> cca" where
  "cca_step h notify s e = fst (cca_act h notify s e)"

definition cca_emits :: "(cat_event \<Rightarrow> string) \<Rightarrow> bool \<Rightarrow> cca \<Rightarrow> cca_event \<Rightarrow> cca_effect list" where
  "cca_emits h notify s e = snd (cca_act h notify s e)"

section \<open>The chain of the file\<close>

definition chain_ok :: "cat_reporter \<Rightarrow> bool" where
  "chain_ok r \<longleftrightarrow> chained (\<lambda>a b. al_prev_hash b = al_content_hash a) (cr_lines r) \<and>
     (case cr_lines r of [] \<Rightarrow> cr_prev_hash r = ''GENESIS'' | l # ls \<Rightarrow> al_prev_hash l = ''GENESIS'' \<and>
        cr_prev_hash r = al_content_hash (last (l # ls)))"

lemma chain_simps [simp]:
  "chain_ok (r\<lparr>cr_lifecycles := x\<rparr>) = chain_ok r" "chain_ok (r\<lparr>cr_spoofing := y\<rparr>) = chain_ok r"
  "chain_ok (r\<lparr>cr_buffer := b\<rparr>) = chain_ok r" "chain_ok (initialize r) = chain_ok r"
  "chain_ok (reporter_shutdown r) = chain_ok r"
  by (simp_all add: chain_ok_def initialize_def reporter_shutdown_def split: list.split)

lemma write_audit_chain: "write_audit h e r = Some r' \<Longrightarrow> chain_ok r \<Longrightarrow> chain_ok r'"
  using chained_snoc [where R = "\<lambda>a b. al_prev_hash b = al_content_hash a" and xs = "cr_lines r"]
  by (cases "cr_lines r") (auto simp: write_audit_def chain_ok_def split: audit_file.splits)

lemma record_cat_chain: "chain_ok r \<Longrightarrow> chain_ok (fst (record_cat h now later e r))"
  by (auto simp: record_cat_def Let_def dest: write_audit_chain split: option.split)

lemma chain_step: "chain_ok (cc_reporter s) \<Longrightarrow> chain_ok (cc_reporter (cca_step h notify s e))"
  using record_cat_chain [of "cc_reporter s" h]
  by (cases e)
    (auto simp: cca_step_def cca_order_submitted_def cca_order_update_def cca_fill_def cca_record_def
      cca_session_end_def release_hold_def handle_spoofing_risk_def apply_hold_def Let_def
      split: prod.split option.split dest!: arg_cong [where f = fst])

interpretation chain: inv_machine "cca_step h notify" "\<lambda>s. chain_ok (cc_reporter s)" for h notify
  by unfold_locales (rule chain_step)

text \<open>
  The chain does not protect its own lines: the hash of a line covers its event only, so another event can be
  put in its place with two lines touched, and the chain is still one.
\<close>

lemma forged_line_keeps_chain:
  assumes "chained (\<lambda>a b. al_prev_hash b = al_content_hash a) (ls @ [l, m] @ ms)"
  shows "chained (\<lambda>a b. al_prev_hash b = al_content_hash a)
    (ls @ [l\<lparr>al_event := e, al_content_hash := h e\<rparr>, m\<lparr>al_prev_hash := h e\<rparr>] @ ms)"
  using assms
proof (induction ls rule: induct_list012)
  case 1
  then show ?case by (cases ms) auto
next
  case (2 x)
  then show ?case by (cases ms) auto
qed auto

section \<open>Nothing is ever reported\<close>

definition never_reported :: "cca \<Rightarrow> bool" where
  "never_reported s \<longleftrightarrow> cr_spoofing (cc_reporter s) = [] \<and> cr_lines (cc_reporter s) = [] \<and>
     cr_buffer (cc_reporter s) = [] \<and> cc_held s = {} \<and> cc_hold_tasks s = Map.empty \<and>
     cc_events_recorded s = 0 \<and> cc_spoofing_alerts s = 0"

lemma record_cat_fails:
  assumes "cr_spoofing r = []"
  shows "snd (record_cat h now later e r) = None" and "cr_spoofing (fst (record_cat h now later e r)) = []"
    and "cr_lines (fst (record_cat h now later e r)) = cr_lines r"
    and "cr_buffer (fst (record_cat h now later e r)) = cr_buffer r"
  using assms by (auto simp: record_cat_def Let_def initialize_def default_analysis_def)

lemma cca_record_fails:
  assumes "never_reported s"
  shows "snd (cca_record h now later e s) = None \<and> never_reported (fst (cca_record h now later e s))"
  using assms record_cat_fails [of "cc_reporter s" h now later e]
  by (cases "record_cat h now later e (cc_reporter s)") (auto simp: cca_record_def never_reported_def)

lemma never_reported_step:
  assumes "never_reported s"
  shows "never_reported (cca_step h notify s e) \<and> cca_emits h notify s e = []"
proof -
  have r: "case cca_record h now later x s of (t, None) \<Rightarrow> never_reported t | _ \<Rightarrow> False" for now later x
    using cca_record_fails [OF assms, of h now later x] by (cases "cca_record h now later x s") auto
  have held: "cc_held s = {}" using assms by (simp add: never_reported_def)
  show ?thesis
  proof (cases e)
    case (Cca_Submitted now later x)
    with r [of now later "x\<lparr>ce_event_type := MENO\<rparr>"] held show ?thesis
      by (auto simp: cca_step_def cca_emits_def cca_order_submitted_def split: prod.splits option.splits)
  next
    case (Cca_Update now later status x)
    with r [of now later "x\<lparr>ce_event_type := (if status = ''cancel_replace'' then MEOCR else MEOC)\<rparr>"] assms
    show ?thesis
      by (auto simp: cca_step_def cca_emits_def cca_order_update_def split: prod.splits option.splits)
  next
    case (Cca_Fill now later x)
    with r [of now later "x\<lparr>ce_event_type := MEEF\<rparr>"] show ?thesis
      by (auto simp: cca_step_def cca_emits_def cca_fill_def split: prod.splits option.splits)
  qed (use assms in \<open>auto simp: cca_step_def cca_emits_def never_reported_def initialize_def reporter_shutdown_def
        release_hold_def cca_session_end_def audit_log_appends_def Let_def\<close>)
qed

interpretation silent: inv_machine "cca_step h notify" never_reported for h notify
  by unfold_locales (simp add: never_reported_step)

text \<open>
  The audit trail stays empty: whatever orders, cancels, fills and session ends the agent handles from its
  start, no line is written, nothing is queued, no alert or report is sent and no symbol is held.
\<close>

theorem audit_trail_stays_empty:
  "(let s = foldl (cca_step h notify) (cca_init (reporter_init firm callback)) es
    in cr_lines (cc_reporter s) = [] \<and> cr_buffer (cc_reporter s) = [] \<and> cc_held s = {} \<and> cc_events_recorded s = 0) \<and>
   run_out (cca_step h notify) (cca_emits h notify) (cca_init (reporter_init firm callback)) es = []"
proof -
  have i: "never_reported (cca_init (reporter_init firm callback))"
    by (simp add: never_reported_def cca_init_def reporter_init_def)
  have "run_out (cca_step h notify) (cca_emits h notify) s es = []" if "never_reported s" for s
    using that by (induction es arbitrary: s) (simp_all add: never_reported_step)
  with i silent.run_inv [OF i, of h notify es] show ?thesis by (simp add: never_reported_def Let_def)
qed

section \<open>With an analysis in place\<close>

text \<open>
  What the code means to do: for a symbol that has an entry an event is written, chained and queued, and
  raises the counter.
\<close>

lemma record_with_analysis:
  assumes "map_of (cr_spoofing r) (ce_symbol e) = Some a" and "cr_file r = Open_File" and "cr_initialized r"
  shows "(case record_cat h now later e r of
      (r', None) \<Rightarrow> False
    | (r', Some (risk, out)) \<Rightarrow>
        cr_lines r' = cr_lines r @ [\<lparr>al_prev_hash = cr_prev_hash r, al_content_hash = h e, al_event = e\<rparr>] \<and>
        risk = assess_risk later (analysis_record now (ce_event_type e) (ce_order_id e) a) \<and>
        risk = reporter_risk later (ce_symbol e) r')"
  using assms
  by (auto simp: record_cat_def write_audit_def Let_def reporter_risk_def update_conv' split: prod.split)

lemma risk_levels:
  "assess_risk now a = SR_CRITICAL \<Longrightarrow> 6 \<le> rapid_cancel_count a \<and> 20 < cancel_fill_ratio now a"
  "assess_risk now a = SR_NONE \<Longrightarrow> rapid_cancel_count a \<le> 3 \<and> cancel_fill_ratio now a \<le> 2"
  by (auto simp: assess_risk_def Let_def split: if_splits)

text \<open>The number of rapid cancels never forgets: it takes no notice of the window.\<close>

lemma rapid_cancels_ignore_window:
  "rapid_cancel_count (a\<lparr>sp_window_sec := w\<rparr>) = rapid_cancel_count a"
  by (simp add: rapid_cancel_count_def)

end
