(* ===== verification/Spec2Isabelle.thy ===== *)
theory Spec2Isabelle
  imports Trading_Session Raft_PSA Tera Kill_Switch Dark_Pool Order_Book Level2
    Ring_Buffers Wire_Codec Clearing Algo_Exec Fix_Session Global_Clock Message_Bus Audit_Log
    Recovery Change_Control Watchdog Errors Brokers Sizing Trade_Pipeline Quality Tax Live_Feed
    Signal_Validation Prime_Broker Venue_Choice Multi_Asset Market_Making Stat_Arb
    Shadow_Replay System_Health Market_Regime Market_Universe Cat_Reporting
begin

text \<open>
  Nexus: a cooperative multi-agent day-trading system, modelled in Isabelle/HOL.

  THE PROGRAM. Agents (\<open>agents/\<close>) exchange messages over a bus. A signal is checked by the
  risk gate TERA (agent 6), sized and executed; the portfolio supervisor PSA (agent 13) is the
  only authority on halts, which it drives through a nine-state session machine
  (\<open>infrastructure/session_state_machine.py\<close>) beside the pipeline's own session loop
  (\<open>pipeline/state_machine.py\<close>). An emergency stop with its own REST interface
  (\<open>infrastructure/kill_switch.py\<close>) publishes a message the supervisor obeys; a three-node
  consensus cluster (\<open>infrastructure/raft.py\<close>) can order halts and resumes. Around this core
  stand the order books (\<open>data/\<close>), the message transports (\<open>infrastructure/disruptor.py\<close>,
  \<open>infrastructure/shared_memory_bus.py\<close>), the dark pool (agent 25), the execution algorithms
  (agent 24) and direct market access with netting (\<open>infrastructure/dma_exchange.py\<close>).

  THEORIES AND WHAT THEY MODEL.
  \<^item> \<open>Prelude\<close>: names of the Python types, rounding, strings, bounded queues, chained lists, and
    the interfaces \<open>inv_machine\<close> (a step function with an invariant) and \<open>absorbing_machine\<close>.
  \<^item> \<open>Enums\<close>, \<open>Models\<close>: \<open>core/enums.py\<close> with the session transition table, and the classes of
    \<open>core/models.py\<close> that the modelled components read.
  \<^item> \<open>Session_FSM\<close>: \<open>SessionStateMachine\<close>. Every operation returns an error or the new machine with
    the transition it reports. Shown: the outcome of \<open>transition_to\<close> on every branch; the history
    is a path through the table; a halt is left only by a named human or by shutdown; shutdown is
    final.
  \<^item> \<open>Supervisor\<close>: \<open>PortfolioSupervisorAgent\<close>, a record of its fields and one function per handler
    returning the new record and the list of effects (publications, audit and store writes,
    timers). Its interface \<open>supervisor\<close> states what the consensus wrapper relies on. Shown: a
    halted supervisor refuses every trade and leaves the halt only by an approved resume; the
    loss cap and the stopout breaker act in the handler of the trade; nothing is allowed before
    the data clearance.
  \<^item> \<open>Raft\<close>, \<open>Raft_PSA\<close>: \<open>RaftNode\<close>, \<open>RaftCluster\<close>, \<open>RaftPSA\<close>. A cluster is a list of node records;
    an election, heartbeat round or proposal takes the set of peers that do not answer, chosen by
    the environment. \<open>raft_step\<close> is an inductive relation; election safety is an invariant of its
    reachable states. Shown too: when a proposal commits and what it changes; agreement of runs
    in which everyone answers; a committed halt is one halt.
  \<^item> \<open>Tera\<close>: \<open>TERAAgent\<close>, the ten rules as the code's cascade of guards, the time windows and
    pauses, all handlers. Its interface \<open>closed_gate\<close> turns "no approval while closed" into a
    statement about runs; the velocity pause, the losing streak and the anomaly hold interpret it.
  \<^item> \<open>Kill_Switch\<close>: \<open>KillSwitch\<close>, tokens, endpoints with HTTP status, and the flatten task cut at
    its two waits. Shown: its life cycle, authentication, at most one kill, and the stop end to end
    into the supervisor.
  \<^item> \<open>Order_Book\<close>, \<open>Level2\<close>: \<open>MBOOrderBook\<close> with its cache and \<open>OrderBookCache\<close>. The
    market-by-order book refines a list of live orders; the sorted dictionary of the library it
    uses is the interface \<open>sorted_dict\<close>, with an instance that sorts the keys.
  \<^item> \<open>Bytes\<close>, \<open>Ring_Buffers\<close>: little-endian numbers in byte memory, and the two rings over the
    interface \<open>slot_ring\<close>: what a reader gets is exactly the last ring of messages.
  \<^item> \<open>Clearing\<close>, \<open>Dark_Pool\<close>, \<open>Algo_Exec\<close>: netting, order ids and rebates; crossing, routing and
    statistics; pacing, slicing and fills of parent orders.

  CONVENTIONS. The state of an object is a record, updated and returned; effects on other
  components are values in a list, in the order the code performs them; exceptions are the left
  side of a sum or \<open>None\<close>. The clock reading is an argument (microseconds for \<open>datetime\<close>,
  nanoseconds for \<open>perf_counter_ns\<close>). A coroutine that suspends between reads and writes is cut
  at its suspensions, so that events can be interleaved there; one that does not is one step.
  Python integers are \<open>int\<close>; floats are \<open>real\<close> numbers, so sums and products are exact and
  results are about the formulas, not about IEEE rounding. Log and detail texts that nothing
  reads are shortened or left out. Identifiers from \<open>uuid4\<close> are arguments.

  BOUNDS. No definition uses fuel, except the schedule's bisection, which the code itself
  bounds to a fixed number of turns. Loops that poll forever are finite lists of turns of any
  length, and the theorems quantify over these lists.

  PARAMETERS. The keyed hash of the tokens (\<open>mac\<close>), the broker's answers, the account equity,
  positions, universe and wash-sale callbacks (\<open>tera_env\<close>), the sorted dictionary (\<open>items\<close>) and
  the initial bytes of the shared segment are arguments.

  NOT MODELLED. Network and database I/O (brokers, feeds, bus transport, stores), language-model
  calls, numerical estimation over numpy (agents 0 to 5, 20 to 23, 26, \<open>core/statistics.py\<close>,
  \<open>core/microstructure.py\<close>), hardware and network simulators, research and reporting tools, the
  dashboard and the user interface. Sizing, execution, exits, reconciliation, governance, the
  clock agent, the watchdog and the wire formats are planned next.
\<close>

end
